(* ===== verification/JsValue.thy ===== *)
theory JsValue
  imports Complex_Main "HOL-Library.AList" "HOL-Library.List_Lexorder" "HOL-Library.Char_ord"
begin

text \<open>
  The prelude: the values the program computes on, and the parts of the JavaScript language and
  standard library that the modelled functions use.

  CodePatchBay passes most of its data around as \<^verbatim>\<open>LooseRecord\<close>: a record of unknown values
  that came from JSON. The model keeps that: \<open>js\<close> is the type of such values, and the
  operations below are the coercions and operators of the language (\<^verbatim>\<open>String(v)\<close>, truthiness,
  \<^verbatim>\<open>||\<close>, \<^verbatim>\<open>??\<close>, \<^verbatim>\<open>===\<close>, \<^verbatim>\<open>Number(v)\<close>, \<^verbatim>\<open>JSON.stringify\<close>).

  Idealisations, used in every theory of the development. A string is the list of its
  UTF-8 bytes, so lengths and cuts count bytes and only ASCII white space is trimmed. A finite
  number is a rational: there is no rounding and no negative zero. An object is the list of its
  own properties in insertion order; properties inherited from \<^verbatim>\<open>Object.prototype\<close> are not
  seen. Reading a property of a value that is not an object gives \<^verbatim>\<open>undefined\<close>; where the code
  reads a property of a value that may be \<^verbatim>\<open>null\<close> without a guard, the model says so with an
  error value.
\<close>

section \<open>Values\<close>

datatype jsnum = NaN | PosInf | NegInf | Fin rat

datatype js =
    JUndef
  | JNull
  | JBool bool
  | JNum jsnum
  | JStr string
  | JArr "js list"
  | JObj "(string \<times> js) list"

text \<open>What a \<^verbatim>\<open>throw\<close> carries: the message of an \<^verbatim>\<open>Error\<close>, or the language's own
  \<^verbatim>\<open>TypeError\<close> (a property of \<^verbatim>\<open>null\<close>, a method that does not exist).\<close>

datatype js_error = ErrorMsg string | TypeError string

type_synonym 'a result = "js_error + 'a"

abbreviation jnat :: "nat \<Rightarrow> js" where
  "jnat n \<equiv> JNum (Fin (of_nat n))"

abbreviation jint :: "int \<Rightarrow> js" where
  "jint n \<equiv> JNum (Fin (of_int n))"

abbreviation jstrs :: "string list \<Rightarrow> js" where
  "jstrs xs \<equiv> JArr (map JStr xs)"

abbreviation is_str :: "js \<Rightarrow> bool" where
  "is_str v \<equiv> (case v of JStr _ \<Rightarrow> True | _ \<Rightarrow> False)"

abbreviation is_num :: "js \<Rightarrow> bool" where
  "is_num v \<equiv> (case v of JNum _ \<Rightarrow> True | _ \<Rightarrow> False)"

abbreviation is_bool :: "js \<Rightarrow> bool" where
  "is_bool v \<equiv> (case v of JBool _ \<Rightarrow> True | _ \<Rightarrow> False)"

abbreviation is_arr :: "js \<Rightarrow> bool" where
  "is_arr v \<equiv> (case v of JArr _ \<Rightarrow> True | _ \<Rightarrow> False)"

section \<open>Results\<close>

text \<open>Sequencing of computations that may throw.\<close>

definition thn :: "'e + 'a \<Rightarrow> ('a \<Rightarrow> 'e + 'b) \<Rightarrow> 'e + 'b" where
  "thn m f = (case m of Inl e \<Rightarrow> Inl e | Inr x \<Rightarrow> f x)"

lemma thn_simps [simp]: "thn (Inl e) f = Inl e" "thn (Inr x) f = f x"
  by (simp_all add: thn_def)

lemma thn_eq_Inr: "thn m f = Inr y \<longleftrightarrow> (\<exists>x. m = Inr x \<and> f x = Inr y)"
  by (cases m) auto

lemma thn_cong [fundef_cong]:
  "m = m' \<Longrightarrow> (\<And>x. m' = Inr x \<Longrightarrow> f x = f' x) \<Longrightarrow> thn m f = thn m' f'"
  by (cases m') auto

text \<open>\<^verbatim>\<open>for\<close> and \<^verbatim>\<open>map\<close> over a list with a body that may throw.\<close>

fun map_r :: "('a \<Rightarrow> 'e + 'b) \<Rightarrow> 'a list \<Rightarrow> 'e + 'b list" where
  "map_r f [] = Inr []"
| "map_r f (x # xs) = thn (f x) (\<lambda>y. thn (map_r f xs) (\<lambda>ys. Inr (y # ys)))"

fun fold_r :: "('a \<Rightarrow> 's \<Rightarrow> 'e + 's) \<Rightarrow> 'a list \<Rightarrow> 's \<Rightarrow> 'e + 's" where
  "fold_r f [] s = Inr s"
| "fold_r f (x # xs) s = thn (f x s) (fold_r f xs)"

lemma map_r_Inr_iff: "map_r f xs = Inr ys \<longleftrightarrow> list_all2 (\<lambda>x y. f x = Inr y) xs ys"
  by (induction xs arbitrary: ys) (auto simp: thn_eq_Inr list_all2_Cons1)

lemma fold_r_append: "fold_r f (xs @ ys) s = thn (fold_r f xs s) (fold_r f ys)"
proof (induction xs arbitrary: s)
  case Nil
  then show ?case by simp
next
  case (Cons x xs)
  then show ?case by (cases "f x s") simp_all
qed

section \<open>Objects and arrays\<close>

text \<open>\<open>fld v k\<close> is \<^verbatim>\<open>v?.k\<close>; \<open>obj_get\<close> reads an own property.\<close>

definition obj_get :: "(string \<times> js) list \<Rightarrow> string \<Rightarrow> js" where
  "obj_get kvs k = (case map_of kvs k of None \<Rightarrow> JUndef | Some v \<Rightarrow> v)"

definition fld :: "js \<Rightarrow> string \<Rightarrow> js" where
  "fld v k = (case v of JObj kvs \<Rightarrow> obj_get kvs k | _ \<Rightarrow> JUndef)"

lemma fld_obj [simp]:
  "fld (JObj ((k, v) # kvs)) k' = (if k' = k then v else fld (JObj kvs) k')"
  "fld (JObj []) k' = JUndef"
  by (simp_all add: fld_def obj_get_def)

lemma fld_non_obj [simp]:
  "fld JUndef k = JUndef" "fld JNull k = JUndef" "fld (JBool b) k = JUndef"
  "fld (JNum n) k = JUndef" "fld (JStr s) k = JUndef" "fld (JArr xs) k = JUndef"
  by (simp_all add: fld_def)

definition isRecord :: "js \<Rightarrow> bool" where
  "isRecord v = (case v of JObj _ \<Rightarrow> True | _ \<Rightarrow> False)"

definition recordValue :: "js \<Rightarrow> js" where
  "recordValue v = (if isRecord v then v else JObj [])"

lemma isRecord_simps [simp]:
  "isRecord (JObj kvs)" "\<not> isRecord JUndef" "\<not> isRecord JNull" "\<not> isRecord (JBool b)"
  "\<not> isRecord (JNum n)" "\<not> isRecord (JStr s)" "\<not> isRecord (JArr xs)"
  by (simp_all add: isRecord_def)

lemma recordValue_obj [simp]: "recordValue (JObj kvs) = JObj kvs"
  by (simp add: recordValue_def)

lemma isRecord_recordValue [simp]: "isRecord (recordValue v)"
  by (simp add: recordValue_def)

lemma fld_recordValue [simp]: "fld (recordValue v) k = fld v k"
  by (cases v) (simp_all add: recordValue_def)

lemma recordValue_idem [simp]: "recordValue (recordValue v) = recordValue v"
  by (simp add: recordValue_def)

definition arr :: "js \<Rightarrow> js list" where
  \<comment> \<open>\<^verbatim>\<open>Array.isArray(v) ? v : []\<close>\<close>
  "arr v = (case v of JArr xs \<Rightarrow> xs | _ \<Rightarrow> [])"

lemma arr_simps [simp]:
  "arr (JArr xs) = xs" "arr JUndef = []" "arr JNull = []" "arr (JObj kvs) = []"
  "arr (JStr s) = []" "arr (JNum n) = []" "arr (JBool b) = []"
  by (simp_all add: arr_def)

definition recordArray :: "js \<Rightarrow> js list" where
  "recordArray v = filter isRecord (arr v)"

text \<open>Writing a property: in place when it exists, otherwise at the end.\<close>

definition obj_set :: "string \<Rightarrow> js \<Rightarrow> (string \<times> js) list \<Rightarrow> (string \<times> js) list" where
  "obj_set k v kvs = AList.update k v kvs"

lemma obj_get_set: "obj_get (obj_set k v kvs) k' = (if k' = k then v else obj_get kvs k')"
  by (simp add: obj_get_def obj_set_def update_conv)

text \<open>Object spread: \<^verbatim>\<open>{ ...a, ...b }\<close>.\<close>

definition own :: "js \<Rightarrow> (string \<times> js) list" where
  "own v = (case v of JObj kvs \<Rightarrow> kvs | _ \<Rightarrow> [])"

lemma own_simps [simp]: "own (JObj kvs) = kvs" "own JNull = []" "own JUndef = []"
  by (simp_all add: own_def)

definition spread :: "(string \<times> js) list \<Rightarrow> (string \<times> js) list \<Rightarrow> (string \<times> js) list" where
  "spread a b = fold (\<lambda>(k, v). obj_set k v) b a"

lemma obj_get_spread_notin: "k \<notin> fst ` set b \<Longrightarrow> obj_get (spread a b) k = obj_get a k"
proof (induction b arbitrary: a)
  case Nil
  then show ?case by (simp add: spread_def)
next
  case (Cons kv b)
  obtain k' v where kv: "kv = (k', v)" by (cases kv)
  with Cons.prems have "obj_get (spread (obj_set k' v a) b) k = obj_get (obj_set k' v a) k"
    by (intro Cons.IH) auto
  with Cons.prems kv show ?case by (simp add: spread_def obj_get_set)
qed

lemma fld_obj_set: "fld (JObj (obj_set k v kvs)) k' = (if k' = k then v else fld (JObj kvs) k')"
  by (simp add: fld_def obj_get_set)

lemma spread_simps: "spread a [] = a" "spread a ((k, v) # b) = spread (obj_set k v a) b"
  by (simp_all add: spread_def)

lemma fld_own [simp]: "fld (JObj (own v)) k = fld v k"
  by (cases v) (simp_all add: own_def)

lemma obj_get_own: "obj_get (own v) k = fld v k"
  by (cases v) (simp_all add: own_def fld_def obj_get_def)

lemma fld_append: "fld (JObj (a @ b)) k = (if k \<in> fst ` set a then fld (JObj a) k else fld (JObj b) k)"
  by (auto simp: fld_def obj_get_def map_add_def dom_map_of_conv_image_fst [symmetric] split: option.splits)

text \<open>\<^verbatim>\<open>Object.entries\<close>: integer-like keys first, in numeric order, then the rest in
  insertion order.\<close>

definition is_index_key :: "string \<Rightarrow> bool" where
  "is_index_key k = (k \<noteq> [] \<and> list_all (\<lambda>c. c \<in> set ''0123456789'') k \<and> (hd k \<noteq> CHR ''0'' \<or> length k = 1))"

definition digit_val :: "char \<Rightarrow> nat" where
  "digit_val c = of_char c - 48"

definition nat_of_digits :: "string \<Rightarrow> nat" where
  "nat_of_digits ds = foldl (\<lambda>n c. n * 10 + digit_val c) 0 ds"

definition entries :: "js \<Rightarrow> (string \<times> js) list" where
  "entries v =
     sort_key (\<lambda>kv. nat_of_digits (fst kv)) (filter (\<lambda>kv. is_index_key (fst kv)) (own v))
     @ filter (\<lambda>kv. \<not> is_index_key (fst kv)) (own v)"

lemma set_entries: "set (entries v) = set (own v)"
  by (auto simp: entries_def)

section \<open>Coercions and operators\<close>

definition truthy :: "js \<Rightarrow> bool" where
  "truthy v = (case v of JUndef \<Rightarrow> False | JNull \<Rightarrow> False | JBool b \<Rightarrow> b
     | JNum n \<Rightarrow> n \<noteq> NaN \<and> n \<noteq> Fin 0 | JStr s \<Rightarrow> s \<noteq> [] | JArr _ \<Rightarrow> True | JObj _ \<Rightarrow> True)"

lemma truthy_simps [simp]:
  "\<not> truthy JUndef" "\<not> truthy JNull" "truthy (JBool b) \<longleftrightarrow> b" "truthy (JStr s) \<longleftrightarrow> s \<noteq> []"
  "truthy (JArr xs)" "truthy (JObj kvs)" "truthy (JNum n) \<longleftrightarrow> n \<noteq> NaN \<and> n \<noteq> Fin 0"
  by (simp_all add: truthy_def)

definition or_else :: "js \<Rightarrow> js \<Rightarrow> js" where
  \<comment> \<open>\<^verbatim>\<open>a || b\<close>\<close>
  "or_else a b = (if truthy a then a else b)"

definition nullish :: "js \<Rightarrow> bool" where
  "nullish v = (v = JUndef \<or> v = JNull)"

lemma nullish_simps [simp]:
  "nullish JUndef" "nullish JNull" "\<not> nullish (JBool b)" "\<not> nullish (JStr s)"
  "\<not> nullish (JNum n)" "\<not> nullish (JArr xs)" "\<not> nullish (JObj kvs)"
  by (simp_all add: nullish_def)

definition nullish_or :: "js \<Rightarrow> js \<Rightarrow> js" where
  \<comment> \<open>\<^verbatim>\<open>a ?? b\<close>\<close>
  "nullish_or a b = (if nullish a then b else a)"

lemma or_else_simps [simp]: "truthy a \<Longrightarrow> or_else a b = a" "\<not> truthy a \<Longrightarrow> or_else a b = b"
  by (simp_all add: or_else_def)

lemma nullish_or_simps [simp]: "nullish a \<Longrightarrow> nullish_or a b = b" "\<not> nullish a \<Longrightarrow> nullish_or a b = a"
  by (simp_all add: nullish_or_def)

text \<open>\<^verbatim>\<open>===\<close>. Two objects, or two arrays, that the code compares come from different
  expressions and are different references, so they are never equal; NaN is not equal to itself.\<close>

definition strict_eq :: "js \<Rightarrow> js \<Rightarrow> bool" where
  "strict_eq a b = (case a of JNum n \<Rightarrow> b = a \<and> n \<noteq> NaN | JArr _ \<Rightarrow> False | JObj _ \<Rightarrow> False | _ \<Rightarrow> a = b)"

lemma strict_eq_simps [simp]:
  "strict_eq (JStr s) v \<longleftrightarrow> v = JStr s" "strict_eq v (JStr s) \<longleftrightarrow> v = JStr s"
  "strict_eq (JBool b) v \<longleftrightarrow> v = JBool b" "strict_eq v (JBool b) \<longleftrightarrow> v = JBool b"
  "strict_eq v JNull \<longleftrightarrow> v = JNull" "strict_eq v JUndef \<longleftrightarrow> v = JUndef"
  "strict_eq v (JNum (Fin n)) \<longleftrightarrow> v = JNum (Fin n)"
  by (cases v; auto simp: strict_eq_def)+

subsection \<open>Numbers\<close>

fun num_lt :: "jsnum \<Rightarrow> jsnum \<Rightarrow> bool" where
  "num_lt NaN _ = False"
| "num_lt _ NaN = False"
| "num_lt PosInf _ = False"
| "num_lt NegInf b = (b \<noteq> NegInf)"
| "num_lt (Fin x) PosInf = True"
| "num_lt (Fin x) NegInf = False"
| "num_lt (Fin x) (Fin y) = (x < y)"

definition num_le :: "jsnum \<Rightarrow> jsnum \<Rightarrow> bool" where
  "num_le a b = (a \<noteq> NaN \<and> b \<noteq> NaN \<and> (num_lt a b \<or> a = b))"

fun num_floor :: "jsnum \<Rightarrow> jsnum" where
  "num_floor (Fin x) = Fin (of_int \<lfloor>x\<rfloor>)"
| "num_floor n = n"

fun num_sub :: "jsnum \<Rightarrow> jsnum \<Rightarrow> jsnum" where
  "num_sub NaN _ = NaN"
| "num_sub _ NaN = NaN"
| "num_sub PosInf PosInf = NaN"
| "num_sub PosInf _ = PosInf"
| "num_sub NegInf NegInf = NaN"
| "num_sub NegInf _ = NegInf"
| "num_sub (Fin x) PosInf = NegInf"
| "num_sub (Fin x) NegInf = PosInf"
| "num_sub (Fin x) (Fin y) = Fin (x - y)"

definition num_max0 :: "jsnum \<Rightarrow> jsnum" where
  \<comment> \<open>\<^verbatim>\<open>Math.max(0, n)\<close>\<close>
  "num_max0 n = (if n = NaN then NaN else if num_lt n (Fin 0) then Fin 0 else n)"

definition num_finite :: "jsnum \<Rightarrow> bool" where
  "num_finite n = (case n of Fin _ \<Rightarrow> True | _ \<Rightarrow> False)"

definition num_integer :: "jsnum \<Rightarrow> bool" where
  \<comment> \<open>\<^verbatim>\<open>Number.isInteger\<close>\<close>
  "num_integer n = (case n of Fin x \<Rightarrow> of_int \<lfloor>x\<rfloor> = x | _ \<Rightarrow> False)"

definition is_finite :: "js \<Rightarrow> bool" where
  "is_finite v = (case v of JNum n \<Rightarrow> num_finite n | _ \<Rightarrow> False)"

definition is_integer :: "js \<Rightarrow> bool" where
  "is_integer v = (case v of JNum n \<Rightarrow> num_integer n | _ \<Rightarrow> False)"

subsection \<open>Strings\<close>

definition is_space :: "char \<Rightarrow> bool" where
  "is_space c = (c \<in> set [CHR '' '', CHR 0x09, CHR 0x0A, CHR 0x0B, CHR 0x0C, CHR 0x0D])"

definition trimStart :: "string \<Rightarrow> string" where
  "trimStart s = dropWhile is_space s"

definition trimEnd :: "string \<Rightarrow> string" where
  "trimEnd s = rev (dropWhile is_space (rev s))"

definition trim :: "string \<Rightarrow> string" where
  "trim s = trimEnd (trimStart s)"

definition startsWith :: "string \<Rightarrow> string \<Rightarrow> bool" where
  "startsWith s p = (take (length p) s = p)"

definition endsWith :: "string \<Rightarrow> string \<Rightarrow> bool" where
  "endsWith s p = startsWith (rev s) (rev p)"

fun includes_sub :: "string \<Rightarrow> string \<Rightarrow> bool" where
  "includes_sub [] p = (p = [])"
| "includes_sub (c # s) p = (startsWith (c # s) p \<or> includes_sub s p)"

lemma startsWith_iff: "startsWith s p \<longleftrightarrow> (\<exists>r. s = p @ r)"
  by (auto simp: startsWith_def) (metis append_take_drop_id)

lemma endsWith_iff: "endsWith s p \<longleftrightarrow> (\<exists>r. s = r @ p)"
  unfolding endsWith_def startsWith_iff by (metis rev_append rev_rev_ident)

definition lower_char :: "char \<Rightarrow> char" where
  "lower_char c = (let n = (of_char c :: nat) in if 65 \<le> n \<and> n \<le> 90 then char_of (n + 32) else c)"

definition upper_char :: "char \<Rightarrow> char" where
  "upper_char c = (let n = (of_char c :: nat) in if 97 \<le> n \<and> n \<le> 122 then char_of (n - 32) else c)"

definition toLowerCase :: "string \<Rightarrow> string" where
  "toLowerCase = map lower_char"

definition toUpperCase :: "string \<Rightarrow> string" where
  "toUpperCase = map upper_char"

fun join :: "string \<Rightarrow> string list \<Rightarrow> string" where
  "join sep [] = []"
| "join sep [s] = s"
| "join sep (s # ss) = s @ sep @ join sep ss"

fun split_char :: "char \<Rightarrow> string \<Rightarrow> string list" where
  "split_char c [] = [[]]"
| "split_char c (x # xs) =
     (case split_char c xs of [] \<Rightarrow> [[x]] | w # ws \<Rightarrow> if x = c then [] # w # ws else (x # w) # ws)"

lemma split_char_nonempty [simp]: "split_char c s \<noteq> []"
  by (induction s) (auto split: list.splits)

lemma split_char_no_sep: "w \<in> set (split_char c s) \<Longrightarrow> c \<notin> set w"
  by (induction s arbitrary: w) (auto split: list.splits if_splits)

definition nl :: string where "nl = [CHR 0x0A]"
definition dquote :: string where "dquote = [CHR 0x22]"
definition em_dash :: string where "em_dash = [CHR 0xE2, CHR 0x80, CHR 0x94]"

subsection \<open>Decimal printing\<close>

fun show_nat :: "nat \<Rightarrow> string" where
  "show_nat n = (if n < 10 then [char_of (48 + n)] else show_nat (n div 10) @ [char_of (48 + n mod 10)])"

declare show_nat.simps [simp del]

definition show_int :: "int \<Rightarrow> string" where
  "show_int i = (if i < 0 then CHR ''-'' # show_nat (nat (- i)) else show_nat (nat i))"

text \<open>The fraction digits of a number in [0, 1), at most \<open>k\<close> of them.\<close>

fun frac_digits :: "nat \<Rightarrow> rat \<Rightarrow> string" where
  "frac_digits 0 x = []"
| "frac_digits (Suc k) x = (if x = 0 then [] else char_of (48 + nat \<lfloor>10 * x\<rfloor>) # frac_digits k (10 * x - of_int \<lfloor>10 * x\<rfloor>))"

definition show_rat :: "rat \<Rightarrow> string" where
  "show_rat x = (if of_int \<lfloor>x\<rfloor> = x then show_int \<lfloor>x\<rfloor>
     else (if x < 0 then ''-'' else []) @ show_nat (nat \<lfloor>\<bar>x\<bar>\<rfloor>) @ ''.'' @ frac_digits 17 (\<bar>x\<bar> - of_int \<lfloor>\<bar>x\<bar>\<rfloor>))"

definition show_num :: "jsnum \<Rightarrow> string" where
  "show_num n = (case n of NaN \<Rightarrow> ''NaN'' | PosInf \<Rightarrow> ''Infinity'' | NegInf \<Rightarrow> ''-Infinity'' | Fin x \<Rightarrow> show_rat x)"

text \<open>\<^verbatim>\<open>String(v)\<close>.\<close>

fun to_str :: "js \<Rightarrow> string" where
  "to_str JUndef = ''undefined''"
| "to_str JNull = ''null''"
| "to_str (JBool b) = (if b then ''true'' else ''false'')"
| "to_str (JNum n) = show_num n"
| "to_str (JStr s) = s"
| "to_str (JArr xs) = join '','' (map (\<lambda>x. if x = JUndef \<or> x = JNull then [] else to_str x) xs)"
| "to_str (JObj kvs) = ''[object Object]''"

subsection \<open>Reading numbers\<close>

definition is_digit :: "char \<Rightarrow> bool" where
  "is_digit c = (c \<in> set ''0123456789'')"

text \<open>\<^verbatim>\<open>Number(s)\<close> for decimal literals with an optional sign, fraction and exponent. The
  hexadecimal, octal and binary literals are not read: no field of the program is written so.\<close>

definition parse_exponent :: "string \<Rightarrow> int option" where
  "parse_exponent s = (case s of [] \<Rightarrow> Some 0
     | c # r \<Rightarrow> if c \<noteq> CHR ''e'' \<and> c \<noteq> CHR ''E'' then None
        else (let neg = (r \<noteq> [] \<and> hd r = CHR ''-'');
                  ds = (if r \<noteq> [] \<and> (hd r = CHR ''-'' \<or> hd r = CHR ''+'') then tl r else r)
              in if ds = [] \<or> \<not> list_all is_digit ds then None
                 else Some (if neg then - int (nat_of_digits ds) else int (nat_of_digits ds))))"

definition parse_unsigned :: "string \<Rightarrow> jsnum" where
  "parse_unsigned s =
     (if s = ''Infinity'' then PosInf
      else let ip = takeWhile is_digit s; r = dropWhile is_digit s;
               fp = (case r of CHR ''.'' # r' \<Rightarrow> takeWhile is_digit r' | _ \<Rightarrow> []);
               r2 = (case r of CHR ''.'' # r' \<Rightarrow> dropWhile is_digit r' | _ \<Rightarrow> r)
           in if ip = [] \<and> fp = [] then NaN
              else (case parse_exponent r2 of None \<Rightarrow> NaN
                | Some e \<Rightarrow> let m = of_nat (nat_of_digits (ip @ fp)); k = e - int (length fp)
                           in Fin (if k < 0 then m / 10 ^ nat (- k) else m * 10 ^ nat k)))"

fun num_neg :: "jsnum \<Rightarrow> jsnum" where
  "num_neg NaN = NaN" | "num_neg PosInf = NegInf" | "num_neg NegInf = PosInf" | "num_neg (Fin x) = Fin (- x)"

definition string_to_num :: "string \<Rightarrow> jsnum" where
  "string_to_num s = (case trim s of [] \<Rightarrow> Fin 0
     | c # r \<Rightarrow> if c = CHR ''-'' then num_neg (parse_unsigned r)
               else if c = CHR ''+'' then parse_unsigned r else parse_unsigned (c # r))"

definition to_num :: "js \<Rightarrow> jsnum" where
  \<comment> \<open>\<^verbatim>\<open>Number(v)\<close>; arrays and objects go through their string\<close>
  "to_num v = (case v of JUndef \<Rightarrow> NaN | JNull \<Rightarrow> Fin 0 | JBool b \<Rightarrow> Fin (if b then 1 else 0)
     | JNum n \<Rightarrow> n | JStr s \<Rightarrow> string_to_num s | JArr xs \<Rightarrow> string_to_num (to_str (JArr xs)) | JObj _ \<Rightarrow> NaN)"

section \<open>JSON text\<close>

definition hex_digit :: "nat \<Rightarrow> char" where
  "hex_digit n = (if n < 10 then char_of (48 + n) else char_of (87 + n))"

definition json_char :: "char \<Rightarrow> string" where
  "json_char c = (let n = (of_char c :: nat) in
     if n = 34 then [CHR 0x5C, CHR 0x22] else if n = 92 then [CHR 0x5C, CHR 0x5C]
     else if n = 8 then CHR 0x5C # ''b'' else if n = 9 then CHR 0x5C # ''t''
     else if n = 10 then CHR 0x5C # ''n'' else if n = 12 then CHR 0x5C # ''f''
     else if n = 13 then CHR 0x5C # ''r''
     else if n < 32 then CHR 0x5C # ''u00'' @ [hex_digit (n div 16), hex_digit (n mod 16)]
     else [c])"

definition json_string :: "string \<Rightarrow> string" where
  "json_string s = dquote @ concat (map json_char s) @ dquote"

text \<open>\<^verbatim>\<open>JSON.stringify(v)\<close>; \<open>None\<close> is its result \<^verbatim>\<open>undefined\<close>.\<close>

fun stringify :: "js \<Rightarrow> string option" where
  "stringify JUndef = None"
| "stringify JNull = Some ''null''"
| "stringify (JBool b) = Some (if b then ''true'' else ''false'')"
| "stringify (JNum n) = Some (if num_finite n then show_num n else ''null'')"
| "stringify (JStr s) = Some (json_string s)"
| "stringify (JArr xs) =
     Some (''['' @ join '','' (map (\<lambda>x. case stringify x of None \<Rightarrow> ''null'' | Some t \<Rightarrow> t) xs) @ '']'')"
| "stringify (JObj kvs) =
     Some (''{'' @ join '','' (concat (map (\<lambda>kv. case stringify (snd kv) of None \<Rightarrow> []
        | Some t \<Rightarrow> [json_string (fst kv) @ '':'' @ t]) kvs)) @ ''}'')"

definition json_text :: "js \<Rightarrow> string" where
  "json_text v = (case stringify v of None \<Rightarrow> ''undefined'' | Some t \<Rightarrow> t)"

section \<open>Sets and maps in insertion order\<close>

text \<open>A \<^verbatim>\<open>Set\<close> is the list of its members in insertion order.\<close>

definition set_add :: "'a \<Rightarrow> 'a list \<Rightarrow> 'a list" where
  "set_add x xs = (if x \<in> set xs then xs else xs @ [x])"

definition set_del :: "'a \<Rightarrow> 'a list \<Rightarrow> 'a list" where
  "set_del x xs = removeAll x xs"

definition uniq :: "'a list \<Rightarrow> 'a list" where
  \<comment> \<open>\<^verbatim>\<open>[...new Set(xs)]\<close>\<close>
  "uniq xs = foldl (\<lambda>acc x. set_add x acc) [] xs"

lemma set_set_add [simp]: "set (set_add x xs) = insert x (set xs)"
  by (auto simp: set_add_def)

lemma distinct_set_add [simp]: "distinct xs \<Longrightarrow> distinct (set_add x xs)"
  by (simp add: set_add_def)

lemma set_set_del [simp]: "set (set_del x xs) = set xs - {x}"
  by (simp add: set_del_def)

lemma distinct_set_del [simp]: "distinct xs \<Longrightarrow> distinct (set_del x xs)"
  by (simp add: set_del_def distinct_removeAll)

lemma uniq_foldl:
  "set (foldl (\<lambda>acc x. set_add x acc) ys xs) = set ys \<union> set xs"
  "distinct ys \<Longrightarrow> distinct (foldl (\<lambda>acc x. set_add x acc) ys xs)"
  by (induction xs arbitrary: ys) auto

lemma set_uniq [simp]: "set (uniq xs) = set xs"
  by (simp add: uniq_def uniq_foldl)

lemma distinct_uniq [simp]: "distinct (uniq xs)"
  by (simp add: uniq_def uniq_foldl)

text \<open>\<^verbatim>\<open>arr.indexOf(x)\<close>; \<open>None\<close> is -1.\<close>

fun index_of :: "'a \<Rightarrow> 'a list \<Rightarrow> nat option" where
  "index_of x [] = None"
| "index_of x (y # ys) = (if y = x then Some 0 else map_option Suc (index_of x ys))"

lemma index_of_Some: "index_of x ys = Some i \<Longrightarrow> i < length ys \<and> ys ! i = x"
  by (induction ys arbitrary: i) (auto split: if_splits)

lemma index_of_None: "index_of x ys = None \<longleftrightarrow> x \<notin> set ys"
  by (induction ys) auto

definition trimmed :: "js \<Rightarrow> string" where
  \<comment> \<open>\<^verbatim>\<open>typeof value === "string" ? value.trim() : ""\<close>\<close>
  "trimmed v = (case v of JStr s \<Rightarrow> trim s | _ \<Rightarrow> [])"

lemma trimmed_simps [simp]:
  "trimmed JUndef = []" "trimmed JNull = []" "trimmed (JObj kvs) = []" "trimmed (JArr xs) = []"
  "trimmed (JNum n) = []" "trimmed (JBool b) = []" "trimmed (JStr s) = trim s"
  by (simp_all add: trimmed_def)

section \<open>Unguarded reads\<close>

text \<open>Reading a property where the code has no guard against \<^verbatim>\<open>null\<close> and \<^verbatim>\<open>undefined\<close>.\<close>

definition deref :: "js \<Rightarrow> string \<Rightarrow> js result" where
  "deref v k = (if nullish v then Inl (TypeError (''Cannot read properties of '' @ to_str v)) else Inr (fld v k))"

lemma deref_Inr: "deref v k = Inr x \<longleftrightarrow> \<not> nullish v \<and> x = fld v k"
  by (auto simp: deref_def)

text \<open>Membership and iteration of arrays.\<close>

definition js_includes :: "js list \<Rightarrow> js \<Rightarrow> bool" where
  \<comment> \<open>\<^verbatim>\<open>xs.includes(v)\<close>: like \<^verbatim>\<open>===\<close>, but NaN is found\<close>
  "js_includes xs v = list_ex (\<lambda>x. strict_eq x v \<or> (x = JNum NaN \<and> v = JNum NaN)) xs"

definition iterate :: "js \<Rightarrow> js list result" where
  \<comment> \<open>\<^verbatim>\<open>for (const x of v)\<close>\<close>
  "iterate v = (case v of JArr vs \<Rightarrow> Inr vs | JStr s \<Rightarrow> Inr (map (\<lambda>c. JStr [c]) s)
     | _ \<Rightarrow> Inl (TypeError ''value is not iterable''))"

end
