(* ===== verification/DagCore.thy ===== *)
theory DagCore
  imports JsValue
begin

text \<open>
  The pure half of \<^verbatim>\<open>core/workflow/dag-executor.ts\<close>: node identities and dependencies, Kahn's
  topological sort, ready nodes, the validation of a DAG, the concurrency- and provider-limited
  choice of the nodes to run, and the resume metadata derived from recorded node states.

  Main lemmas: the sort succeeds exactly on duplicate-free acyclic graphs and then lists every node
  after its dependencies (\<open>topologicalSort_ok\<close>, \<open>topologicalSort_order_facts\<close>); a DAG validates
  exactly when its identities, phases and dependencies are well formed and it is acyclic
  (\<open>validateDag_ok\<close>); the scheduler selects only ready nodes, within the concurrency limit and
  within each provider's capacity.
\<close>

section \<open>Nodes\<close>

definition stringValue :: "js \<Rightarrow> string" where
  "stringValue v = (case v of JStr s \<Rightarrow> s | _ \<Rightarrow> to_str (or_else v (JStr [])))"

definition stringArray :: "js \<Rightarrow> string list" where
  "stringArray v = (case v of JArr xs \<Rightarrow> map to_str (filter truthy xs) | _ \<Rightarrow> [])"

definition nodeId :: "js \<Rightarrow> string" where
  "nodeId n = stringValue (fld n ''id'')"

definition nodeDeps :: "js \<Rightarrow> string list" where
  "nodeDeps n = stringArray (fld n ''dependsOn'')"

abbreviation node_ids :: "js list \<Rightarrow> string set" where
  "node_ids nodes \<equiv> nodeId ` set nodes"

text \<open>The dependency relation among the nodes of the list.\<close>

definition dep_rel :: "js list \<Rightarrow> (string \<times> string) set" where
  "dep_rel nodes = {(d, nodeId n) | n d. n \<in> set nodes \<and> d \<in> set (nodeDeps n) \<and> d \<in> node_ids nodes}"

lemma dep_relI: "n \<in> set nodes \<Longrightarrow> d \<in> set (nodeDeps n) \<Longrightarrow> d \<in> node_ids nodes \<Longrightarrow> (d, nodeId n) \<in> dep_rel nodes"
  by (auto simp: dep_rel_def)

section \<open>Topological sort\<close>

type_synonym adjacency = "(string \<times> string list) list"
type_synonym degrees = "(string \<times> int) list"

definition get0 :: "degrees \<Rightarrow> string \<Rightarrow> int" where
  "get0 deg v = (case map_of deg v of None \<Rightarrow> 0 | Some d \<Rightarrow> d)"

definition topo_init :: "js list \<Rightarrow> adjacency \<times> degrees" where
  "topo_init nodes =
     foldl (\<lambda>(adj, deg) n. (AList.update (nodeId n) [] adj, AList.update (nodeId n) 0 deg)) ([], []) nodes"

definition topo_edge :: "string \<Rightarrow> adjacency \<times> degrees \<Rightarrow> string \<Rightarrow> adjacency \<times> degrees" where
  "topo_edge v ad dep = (case map_of (fst ad) dep of None \<Rightarrow> ad
     | Some vs \<Rightarrow> (AList.update dep (vs @ [v]) (fst ad), AList.update v (get0 (snd ad) v + 1) (snd ad)))"

definition topo_edges :: "js list \<Rightarrow> adjacency \<times> degrees \<Rightarrow> adjacency \<times> degrees" where
  "topo_edges nodes ad = foldl (\<lambda>ad n. foldl (topo_edge (nodeId n)) ad (nodeDeps n)) ad nodes"

text \<open>The inner loop of the sort: the in-degree of each successor goes down by one, and a
  successor that reaches zero joins the queue.\<close>

fun topo_relax :: "string list \<Rightarrow> string list \<times> degrees \<Rightarrow> string list \<times> degrees" where
  "topo_relax [] qd = qd"
| "topo_relax (v # vs) (q, deg) =
     (let d = get0 deg v - 1 in topo_relax vs (if d = 0 then q @ [v] else q, AList.update v d deg))"

text \<open>The outer loop ends because the queue and the positive in-degrees together shrink.\<close>

definition topo_weight :: "degrees \<Rightarrow> nat" where
  "topo_weight deg = (\<Sum>k \<in> fst ` set deg. nat (get0 deg k))"

lemma get0_update [simp]: "get0 (AList.update k d deg) v = (if v = k then d else get0 deg v)"
  by (simp add: get0_def update_conv)

lemma get0_notin: "v \<notin> fst ` set deg \<Longrightarrow> get0 deg v = 0"
  by (simp add: get0_def map_of_eq_None_iff [THEN iffD2])

lemma topo_weight_update:
  "topo_weight (AList.update k d deg) + nat (get0 deg k) = topo_weight deg + nat d"
proof -
  let ?A = "fst ` set deg - {k}"
  have fin: "finite ?A" by simp
  have "topo_weight (AList.update k d deg) = (\<Sum>v \<in> insert k ?A. nat (get0 (AList.update k d deg) v))"
    by (auto simp: topo_weight_def dom_update intro!: sum.cong)
  also have "\<dots> = nat d + (\<Sum>v \<in> ?A. nat (get0 deg v))"
    using fin by (subst sum.insert) (auto intro!: sum.cong)
  finally have new: "topo_weight (AList.update k d deg) = nat d + (\<Sum>v \<in> ?A. nat (get0 deg v))" .
  have old: "topo_weight deg = nat (get0 deg k) + (\<Sum>v \<in> ?A. nat (get0 deg v))"
  proof (cases "k \<in> fst ` set deg")
    case True
    then show ?thesis unfolding topo_weight_def by (subst sum.remove [of _ k]) auto
  next
    case False
    then show ?thesis by (simp add: topo_weight_def get0_notin)
  qed
  show ?thesis using new old by simp
qed

lemma topo_relax_weight:
  "length (fst (topo_relax vs (q, deg))) + topo_weight (snd (topo_relax vs (q, deg)))
     \<le> length q + topo_weight deg"
proof (induction vs arbitrary: q deg)
  case Nil
  then show ?case by simp
next
  case (Cons v vs)
  let ?d = "get0 deg v - 1"
  have w: "topo_weight (AList.update v ?d deg) + nat (get0 deg v) = topo_weight deg + nat ?d"
    by (rule topo_weight_update)
  show ?case
  proof (cases "?d = 0")
    case True
    then show ?thesis using Cons [of "q @ [v]" "AList.update v ?d deg"] w by (simp add: Let_def)
  next
    case False
    then show ?thesis using Cons [of q "AList.update v ?d deg"] w
      by (simp add: Let_def)
  qed
qed

function topo_loop :: "adjacency \<Rightarrow> string list \<Rightarrow> degrees \<Rightarrow> string list \<Rightarrow> string list" where
  "topo_loop adj [] deg srt = srt"
| "topo_loop adj (v # q) deg srt =
     (if v = [] then topo_loop adj q deg srt
      else let qd = topo_relax (case map_of adj v of None \<Rightarrow> [] | Some vs \<Rightarrow> vs) (q, deg)
           in topo_loop adj (fst qd) (snd qd) (srt @ [v]))"
  by pat_completeness auto
termination
proof (relation "measure (\<lambda>(adj, q, deg, srt). length q + topo_weight deg)", goal_cases)
  case 1
  show ?case by simp
next
  case (2 adj v q deg srt)
  show ?case by simp
next
  case (3 adj v q deg srt qd)
  then show ?case using topo_relax_weight [of "case map_of adj v of None \<Rightarrow> [] | Some vs \<Rightarrow> vs" q deg]
    by simp
qed

definition topologicalSort :: "js list \<Rightarrow> string list result" where
  "topologicalSort nodes =
     (let (adj, deg) = topo_edges nodes (topo_init nodes);
          queue = map fst (filter (\<lambda>kd. snd kd = 0) deg);
          srt = topo_loop adj queue deg []
      in if length srt \<noteq> length nodes
         then Inl (ErrorMsg (''DAG cycle detected: '' @ show_int (int (length nodes) - int (length srt))
                @ '' node(s) unreachable''))
         else Inr srt)"

subsection \<open>What the two passes over the nodes compute\<close>

definition edge_list :: "js list \<Rightarrow> js list \<Rightarrow> (string \<times> string) list" where
  \<comment> \<open>the edges that the nodes \<open>ms\<close> contribute in the graph of \<open>nodes\<close>\<close>
  "edge_list nodes ms = concat (map (\<lambda>n. map (\<lambda>d. (d, nodeId n))
     (filter (\<lambda>d. d \<in> node_ids nodes) (nodeDeps n))) ms)"

lemma edge_list_append: "edge_list nodes (ms @ ks) = edge_list nodes ms @ edge_list nodes ks"
  by (simp add: edge_list_def)

lemma set_edge_list: "set (edge_list nodes nodes) = dep_rel nodes"
  by (auto simp: edge_list_def dep_rel_def)

definition succs :: "(string \<times> string) list \<Rightarrow> string \<Rightarrow> string list" where
  "succs es v = map snd (filter (\<lambda>e. fst e = v) es)"

definition indeg :: "(string \<times> string) list \<Rightarrow> string \<Rightarrow> nat" where
  "indeg es v = length (filter (\<lambda>e. snd e = v) es)"

definition graph_inv :: "js list \<Rightarrow> (string \<times> string) list \<Rightarrow> adjacency \<times> degrees \<Rightarrow> bool" where
  "graph_inv nodes es ad \<longleftrightarrow>
     (\<forall>v. map_of (fst ad) v = (if v \<in> node_ids nodes then Some (succs es v) else None))
   \<and> (\<forall>v. get0 (snd ad) v = int (indeg es v))
   \<and> fst ` set (snd ad) = node_ids nodes \<and> distinct (map fst (snd ad))"

lemma topo_init_inv: "graph_inv nodes [] (topo_init nodes)"
proof -
  have "(\<forall>v. map_of (fst (topo_init ns)) v = (if v \<in> node_ids ns then Some [] else None))
      \<and> (\<forall>v. get0 (snd (topo_init ns)) v = 0) \<and> fst ` set (snd (topo_init ns)) = node_ids ns
      \<and> distinct (map fst (snd (topo_init ns)))" for ns
  proof (induction ns rule: rev_induct)
    case Nil
    then show ?case by (simp add: topo_init_def get0_def)
  next
    case (snoc n ns)
    have "topo_init (ns @ [n]) =
        (AList.update (nodeId n) [] (fst (topo_init ns)), AList.update (nodeId n) 0 (snd (topo_init ns)))"
      by (simp add: topo_init_def split_beta)
    with snoc show ?case by (auto simp: update_conv dom_update distinct_update)
  qed
  then show ?thesis by (simp add: graph_inv_def succs_def indeg_def)
qed

lemma topo_edge_inv:
  assumes "graph_inv nodes es ad" "v \<in> node_ids nodes"
  shows "graph_inv nodes (es @ (if d \<in> node_ids nodes then [(d, v)] else [])) (topo_edge v ad d)"
proof (cases "d \<in> node_ids nodes")
  case True
  with assms(1) have "map_of (fst ad) d = Some (succs es d)" by (simp add: graph_inv_def)
  then have "topo_edge v ad d =
      (AList.update d (succs es d @ [v]) (fst ad), AList.update v (get0 (snd ad) v + 1) (snd ad))"
    by (simp add: topo_edge_def)
  with True assms show ?thesis
    by (auto simp: graph_inv_def update_conv dom_update distinct_update succs_def indeg_def)
next
  case False
  with assms(1) have "map_of (fst ad) d = None" by (simp add: graph_inv_def)
  with False assms(1) show ?thesis by (simp add: topo_edge_def)
qed

lemma topo_edges_node_inv:
  assumes "v \<in> node_ids nodes"
  shows "graph_inv nodes es ad \<Longrightarrow>
    graph_inv nodes (es @ map (\<lambda>d. (d, v)) (filter (\<lambda>d. d \<in> node_ids nodes) ds)) (foldl (topo_edge v) ad ds)"
proof (induction ds arbitrary: es ad)
  case Nil
  then show ?case by simp
next
  case (Cons d ds)
  from Cons.IH [OF topo_edge_inv [OF Cons.prems assms, of d]] show ?case by (auto split: if_splits)
qed

lemma topo_edges_inv: "graph_inv nodes (edge_list nodes nodes) (topo_edges nodes (topo_init nodes))"
proof -
  have "graph_inv nodes es ad \<Longrightarrow> set ms \<subseteq> set nodes \<Longrightarrow>
      graph_inv nodes (es @ edge_list nodes ms) (topo_edges ms ad)" for ms es ad
  proof (induction ms arbitrary: es ad)
    case Nil
    then show ?case by (simp add: edge_list_def topo_edges_def)
  next
    case (Cons n ms)
    then have "nodeId n \<in> node_ids nodes" by simp
    from Cons.IH [OF topo_edges_node_inv [OF this Cons.prems(1), of "nodeDeps n"]] Cons.prems(2)
    show ?case by (simp add: edge_list_def topo_edges_def)
  qed
  from this [OF topo_init_inv, of nodes] show ?thesis by simp
qed

subsection \<open>Kahn's invariant\<close>

lemma topo_relax_spec:
  "\<exists>r. fst (topo_relax vs (q, deg)) = q @ r \<and> distinct r
     \<and> set r = {v. 1 \<le> get0 deg v \<and> get0 deg v \<le> int (count_list vs v)}
     \<and> (\<forall>v. get0 (snd (topo_relax vs (q, deg))) v = get0 deg v - int (count_list vs v))"
proof (induction vs arbitrary: q deg)
  case Nil
  then show ?case by auto
next
  case (Cons w vs)
  let ?d = "get0 deg w - 1" and ?deg = "AList.update w (get0 deg w - 1) deg"
  let ?q = "if ?d = 0 then q @ [w] else q"
  from Cons [of ?q ?deg] obtain r where r: "fst (topo_relax vs (?q, ?deg)) = ?q @ r" "distinct r"
      "set r = {v. 1 \<le> get0 ?deg v \<and> get0 ?deg v \<le> int (count_list vs v)}"
      "\<forall>v. get0 (snd (topo_relax vs (?q, ?deg))) v = get0 ?deg v - int (count_list vs v)" by blast
  have eq: "topo_relax (w # vs) (q, deg) = topo_relax vs (?q, ?deg)" by (simp add: Let_def)
  let ?r = "(if ?d = 0 then [w] else []) @ r"
  have mem: "v \<in> set r \<longleftrightarrow> 1 \<le> get0 ?deg v \<and> get0 ?deg v \<le> int (count_list vs v)" for v
    by (simp only: r(3) mem_Collect_eq)
  have "w \<notin> set r" if "?d = 0" using that by (simp add: mem)
  with r(2) have "distinct ?r" by simp
  moreover have "v \<in> set ?r \<longleftrightarrow> 1 \<le> get0 deg v \<and> get0 deg v \<le> int (count_list (w # vs) v)" for v
    by (cases "v = w") (auto simp: mem)
  then have "set ?r = {v. 1 \<le> get0 deg v \<and> get0 deg v \<le> int (count_list (w # vs) v)}" by blast
  moreover have "get0 (snd (topo_relax vs (?q, ?deg))) v = get0 deg v - int (count_list (w # vs) v)" for v
    using r(4) by simp
  moreover have "fst (topo_relax vs (?q, ?deg)) = q @ ?r" by (simp only: r(1)) simp
  ultimately show ?case unfolding eq by blast
qed

definition pending :: "(string \<times> string) list \<Rightarrow> string list \<Rightarrow> string \<Rightarrow> nat" where
  \<comment> \<open>the edges into \<open>v\<close> from nodes that are not sorted yet\<close>
  "pending es srt v = length (filter (\<lambda>e. snd e = v \<and> fst e \<notin> set srt) es)"

definition before :: "string \<Rightarrow> string \<Rightarrow> string list \<Rightarrow> bool" where
  "before x y xs \<longleftrightarrow> (\<exists>us vs. xs = us @ y # vs \<and> x \<in> set us)"

definition kahn_inv :: "js list \<Rightarrow> string list \<Rightarrow> degrees \<Rightarrow> string list \<Rightarrow> bool" where
  "kahn_inv nodes q deg srt \<longleftrightarrow>
     (let es = edge_list nodes nodes; zero = {v \<in> node_ids nodes. pending es srt v = 0} in
        distinct (srt @ q) \<and> set (srt @ q) \<subseteq> zero \<and> zero - {[]} \<subseteq> set (srt @ q)
      \<and> (\<forall>v. get0 deg v = int (pending es srt v)) \<and> [] \<notin> set srt
      \<and> (\<forall>d v. (d, v) \<in> dep_rel nodes \<longrightarrow> v \<in> set srt \<longrightarrow> before d v srt))"

lemma before_append: "before x y xs \<Longrightarrow> before x y (xs @ ys)"
  unfolding before_def by (metis append_Cons append_assoc)

lemma before_snoc: "x \<in> set xs \<Longrightarrow> before x y (xs @ [y])"
  by (auto simp: before_def)

lemma before_in: "before x y xs \<Longrightarrow> x \<in> set xs \<and> y \<in> set xs"
  by (auto simp: before_def)

lemma pending_zero_iff: "pending es srt v = 0 \<longleftrightarrow> (\<forall>d. (d, v) \<in> set es \<longrightarrow> d \<in> set srt)"
  by (auto simp: pending_def filter_empty_conv)

lemma pending_snoc:
  "w \<notin> set srt \<Longrightarrow> pending es srt v = pending es (srt @ [w]) v + count_list (succs es w) v"
  by (induction es) (auto simp: pending_def succs_def)

lemma kahn_step:
  assumes inv: "kahn_inv nodes (w # q) deg srt" and ne: "w \<noteq> []"
    and adj: "map_of adj w = Some (succs (edge_list nodes nodes) w)"
    and qd: "qd = topo_relax (succs (edge_list nodes nodes) w) (q, deg)"
  shows "kahn_inv nodes (fst qd) (snd qd) (srt @ [w])"
proof -
  let ?es = "edge_list nodes nodes"
  from inv have dist: "distinct (srt @ w # q)"
    and sub: "set (srt @ w # q) \<subseteq> {v \<in> node_ids nodes. pending ?es srt v = 0}"
    and sup: "{v \<in> node_ids nodes. pending ?es srt v = 0} - {[]} \<subseteq> set (srt @ w # q)"
    and deg: "\<And>v. get0 deg v = int (pending ?es srt v)" and nn: "[] \<notin> set srt"
    and ord: "\<And>d v. (d, v) \<in> dep_rel nodes \<Longrightarrow> v \<in> set srt \<Longrightarrow> before d v srt"
    by (auto simp: kahn_inv_def Let_def)
  from dist have "w \<notin> set srt" by simp
  note snoc = pending_snoc [OF this, of ?es]
  obtain r where r: "fst qd = q @ r" "distinct r"
      "set r = {v. 1 \<le> get0 deg v \<and> get0 deg v \<le> int (count_list (succs ?es w) v)}"
      "\<And>v. get0 (snd qd) v = get0 deg v - int (count_list (succs ?es w) v)"
    using topo_relax_spec [of "succs ?es w" q deg] unfolding qd by blast
  have deg': "get0 (snd qd) v = int (pending ?es (srt @ [w]) v)" for v
    using r(4) [of v] deg [of v] snoc [of v] by simp
  have r_iff: "v \<in> set r \<longleftrightarrow> pending ?es srt v \<noteq> 0 \<and> pending ?es (srt @ [w]) v = 0" for v
    using deg [of v] snoc [of v] by (auto simp: r(3))
  have mono: "pending ?es (srt @ [w]) v = 0" if "pending ?es srt v = 0" for v
    using snoc [of v] that by simp
  have r_ids: "v \<in> node_ids nodes" if "v \<in> set r" for v
  proof -
    from that have "pending ?es srt v \<noteq> 0" by (simp add: r_iff)
    then obtain d where "(d, v) \<in> set ?es" by (auto simp: pending_zero_iff)
    then show ?thesis by (auto simp: set_edge_list dep_rel_def)
  qed
  have "distinct ((srt @ [w]) @ fst qd)"
    using dist r(1,2) sub r_iff by auto
  moreover have "set ((srt @ [w]) @ fst qd) \<subseteq> {v \<in> node_ids nodes. pending ?es (srt @ [w]) v = 0}"
    using sub mono r(1) r_iff r_ids by auto
  moreover have "{v \<in> node_ids nodes. pending ?es (srt @ [w]) v = 0} - {[]} \<subseteq> set ((srt @ [w]) @ fst qd)"
    using sup r(1) r_iff by auto
  moreover have "before d v (srt @ [w])" if "(d, v) \<in> dep_rel nodes" "v \<in> set (srt @ [w])" for d v
  proof (cases "v = w")
    case True
    with sub have "pending ?es srt v = 0" by auto
    with that(1) have "d \<in> set srt" by (auto simp: pending_zero_iff set_edge_list)
    with True show ?thesis by (simp add: before_snoc)
  next
    case False
    with that ord show ?thesis by (auto intro: before_append)
  qed
  ultimately show ?thesis using deg' nn ne by (auto simp: kahn_inv_def Let_def)
qed

lemma kahn_skip:
  "kahn_inv nodes ([] # q) deg srt \<Longrightarrow> kahn_inv nodes q deg srt"
  by (auto simp: kahn_inv_def Let_def)

lemma topo_loop_kahn:
  assumes "\<And>v. map_of adj v = (if v \<in> node_ids nodes then Some (succs (edge_list nodes nodes) v) else None)"
    and "kahn_inv nodes q deg srt"
  shows "\<exists>deg'. kahn_inv nodes [] deg' (topo_loop adj q deg srt)"
  using assms
proof (induction adj q deg srt rule: topo_loop.induct)
  case (1 adj deg srt)
  then show ?case by auto
next
  case (2 adj w q deg srt)
  show ?case
  proof (cases "w = []")
    case True
    with 2 show ?thesis by (simp add: kahn_skip)
  next
    case False
    from 2(4) have "w \<in> node_ids nodes" by (auto simp: kahn_inv_def Let_def)
    with 2(3) have adj: "map_of adj w = Some (succs (edge_list nodes nodes) w)" by simp
    let ?qd = "topo_relax (succs (edge_list nodes nodes) w) (q, deg)"
    have "kahn_inv nodes (fst ?qd) (snd ?qd) (srt @ [w])"
      by (rule kahn_step [OF 2(4) False adj refl])
    with 2(2) [OF False, of ?qd] 2(3) adj False show ?thesis by (simp add: Let_def)
  qed
qed

lemma kahn_init:
  assumes "graph_inv nodes (edge_list nodes nodes) (adj, deg)"
  shows "kahn_inv nodes (map fst (filter (\<lambda>kd. snd kd = 0) deg)) deg []"
proof -
  from assms have deg: "\<And>v. get0 deg v = int (indeg (edge_list nodes nodes) v)"
    and dom: "fst ` set deg = node_ids nodes" and dist: "distinct (map fst deg)"
    by (auto simp: graph_inv_def)
  have pend: "pending (edge_list nodes nodes) [] v = indeg (edge_list nodes nodes) v" for v
    by (simp add: pending_def indeg_def)
  have zero: "v \<in> set (map fst (filter (\<lambda>kd. snd kd = 0) deg)) \<longleftrightarrow> v \<in> node_ids nodes \<and> get0 deg v = 0" for v
  proof
    assume "v \<in> set (map fst (filter (\<lambda>kd. snd kd = 0) deg))"
    then have "(v, 0) \<in> set deg" by auto
    with dist dom show "v \<in> node_ids nodes \<and> get0 deg v = 0"
      by (force simp: get0_def)
  next
    assume a: "v \<in> node_ids nodes \<and> get0 deg v = 0"
    with dom obtain d where "(v, d) \<in> set deg" by force
    with a dist have "(v, 0) \<in> set deg" by (simp add: get0_def)
    then show "v \<in> set (map fst (filter (\<lambda>kd. snd kd = 0) deg))" by force
  qed
  have "distinct (map fst (filter (\<lambda>kd. snd kd = 0) deg))"
    using dist by (simp add: distinct_map_filter)
  then show ?thesis using zero deg pend by (auto simp: kahn_inv_def Let_def simp del: set_map)
qed

text \<open>The list the loop ends with.\<close>

definition topo_result :: "js list \<Rightarrow> string list" where
  "topo_result nodes = (case topo_edges nodes (topo_init nodes) of (adj, deg) \<Rightarrow>
     topo_loop adj (map fst (filter (\<lambda>kd. snd kd = 0) deg)) deg [])"

lemma topologicalSort_result:
  "(topologicalSort nodes = Inr order) \<longleftrightarrow> order = topo_result nodes \<and> length order = length nodes"
  "(\<exists>e. topologicalSort nodes = Inl e) \<longleftrightarrow> length (topo_result nodes) \<noteq> length nodes"
  by (auto simp: topologicalSort_def topo_result_def Let_def split: prod.splits)

lemma topo_result_kahn: "\<exists>deg. kahn_inv nodes [] deg (topo_result nodes)"
proof -
  obtain adj deg where ad: "topo_edges nodes (topo_init nodes) = (adj, deg)" by force
  with topo_edges_inv [of nodes] have inv: "graph_inv nodes (edge_list nodes nodes) (adj, deg)" by simp
  then have "\<And>v. map_of adj v = (if v \<in> node_ids nodes then Some (succs (edge_list nodes nodes) v) else None)"
    by (simp add: graph_inv_def)
  from topo_loop_kahn [OF this kahn_init [OF inv]] show ?thesis by (simp add: topo_result_def ad)
qed

lemma topo_result_props:
  "distinct (topo_result nodes)" "set (topo_result nodes) \<subseteq> node_ids nodes" "[] \<notin> set (topo_result nodes)"
  "(d, v) \<in> dep_rel nodes \<Longrightarrow> v \<in> set (topo_result nodes) \<Longrightarrow> before d v (topo_result nodes)"
  "v \<in> node_ids nodes \<Longrightarrow> v \<noteq> [] \<Longrightarrow> v \<notin> set (topo_result nodes) \<Longrightarrow>
     \<exists>d. (d, v) \<in> dep_rel nodes \<and> d \<notin> set (topo_result nodes)"
proof -
  obtain deg where inv: "kahn_inv nodes [] deg (topo_result nodes)" using topo_result_kahn by blast
  note inv' = inv [unfolded kahn_inv_def Let_def append_Nil2]
  have sub: "set (topo_result nodes) \<subseteq>
      {v \<in> node_ids nodes. pending (edge_list nodes nodes) (topo_result nodes) v = 0}"
    and sup: "{v \<in> node_ids nodes. pending (edge_list nodes nodes) (topo_result nodes) v = 0} - {[]}
      \<subseteq> set (topo_result nodes)"
    and ord: "\<forall>d v. (d, v) \<in> dep_rel nodes \<longrightarrow> v \<in> set (topo_result nodes) \<longrightarrow> before d v (topo_result nodes)"
    and basic: "distinct (topo_result nodes)" "[] \<notin> set (topo_result nodes)"
    using inv' by - (elim conjE, assumption)+
  show "distinct (topo_result nodes)" "[] \<notin> set (topo_result nodes)" by (fact basic)+
  show "set (topo_result nodes) \<subseteq> node_ids nodes" using sub by blast
  show "(d, v) \<in> dep_rel nodes \<Longrightarrow> v \<in> set (topo_result nodes) \<Longrightarrow> before d v (topo_result nodes)"
    by (rule ord [rule_format])
  assume v: "v \<in> node_ids nodes" "v \<noteq> []" "v \<notin> set (topo_result nodes)"
  have "pending (edge_list nodes nodes) (topo_result nodes) v \<noteq> 0"
    using subsetD [OF sup, of v] v by (cases "pending (edge_list nodes nodes) (topo_result nodes) v") simp_all
  then show "\<exists>d. (d, v) \<in> dep_rel nodes \<and> d \<notin> set (topo_result nodes)"
    unfolding pending_zero_iff set_edge_list by blast
qed

lemma before_acyclic:
  assumes "distinct xs" "\<And>d v. (d, v) \<in> r \<Longrightarrow> before d v xs"
  shows "acyclic r"
proof (rule acyclicI_order [where f = "\<lambda>v. - int (the (index_of v xs))"])
  fix d v assume "(d, v) \<in> r"
  then have "before d v xs" by (rule assms(2))
  then obtain us vs where xs: "xs = us @ v # vs" and d: "d \<in> set us"
    unfolding before_def by blast
  have pos: "index_of v (us @ v # vs) = Some (length us)" if "v \<notin> set us"
    using that by (induction us) auto
  have "\<exists>i < length us. index_of d (us @ v # vs) = Some i"
    using d by (induction us) auto
  with pos assms(1) xs show "- int (the (index_of v xs)) < - int (the (index_of d xs))" by auto
qed

lemma topo_result_complete:
  assumes "[] \<notin> node_ids nodes" "acyclic (dep_rel nodes)"
  shows "set (topo_result nodes) = node_ids nodes"
proof (rule ccontr)
  assume "set (topo_result nodes) \<noteq> node_ids nodes"
  with topo_result_props(2) obtain v where v: "v \<in> node_ids nodes - set (topo_result nodes)" by blast
  have "finite (dep_rel nodes)" by (simp add: set_edge_list [symmetric])
  with assms(2) have "wf (dep_rel nodes)" by (simp add: finite_acyclic_wf)
  from wfE_min [OF this v] obtain z where z: "z \<in> node_ids nodes - set (topo_result nodes)"
    "\<And>y. (y, z) \<in> dep_rel nodes \<Longrightarrow> y \<notin> node_ids nodes - set (topo_result nodes)" by blast
  with assms(1) have "z \<noteq> []" by blast
  with z topo_result_props(5) obtain d where "(d, z) \<in> dep_rel nodes" "d \<notin> set (topo_result nodes)" by blast
  with z(2) show False by (auto simp: dep_rel_def)
qed

section \<open>Ready nodes\<close>

definition readyNodes :: "js list \<Rightarrow> string list \<Rightarrow> string list \<Rightarrow> string list" where
  "readyNodes nodes completed running =
     map nodeId (filter (\<lambda>n. nodeId n \<notin> set completed \<and> nodeId n \<notin> set running
        \<and> (nodeDeps n = [] \<or> list_all (\<lambda>d. d \<in> set completed) (nodeDeps n))) nodes)"

definition isDagComplete :: "js list \<Rightarrow> string list \<Rightarrow> bool" where
  "isDagComplete nodes completed = list_all (\<lambda>n. nodeId n \<in> set completed) nodes"

definition getNode :: "js list \<Rightarrow> string \<Rightarrow> js option" where
  "getNode nodes i = find (\<lambda>n. strict_eq (JStr i) (fld n ''id'')) nodes"

lemma getNode_Some: "getNode nodes i = Some n \<Longrightarrow> n \<in> set nodes \<and> fld n ''id'' = JStr i \<and> nodeId n = i"
  by (auto simp: getNode_def find_Some_iff nodeId_def stringValue_def in_set_conv_nth)

lemma getNode_None: "getNode nodes i = None \<longleftrightarrow> (\<forall>n \<in> set nodes. fld n ''id'' \<noteq> JStr i)"
  by (auto simp: getNode_def find_None_iff)

section \<open>Validation\<close>

fun validate_node :: "string list \<times> string list \<Rightarrow> js \<Rightarrow> string list \<times> string list" where
  "validate_node (ids, errors) n =
    (if nodeId n = [] then (ids, errors @ [''node missing id: '' @ json_text n])
     else (set_add (nodeId n) ids,
           errors @ (if nodeId n \<in> set ids then [''duplicate node id: '' @ nodeId n] else [])
             @ (if \<not> truthy (fld n ''phase'') then [''node '' @ nodeId n @ '' missing phase''] else [])))"

definition validateDag :: "js list \<Rightarrow> string list" where
  \<comment> \<open>the errors; the DAG is valid when there are none\<close>
  "validateDag nodes =
     (let (ids, errors1) = foldl validate_node ([], []) nodes;
          errors = errors1 @ concat (map (\<lambda>n. concat (map (\<lambda>dep.
            if dep \<in> set ids then [] else [''node '' @ nodeId n @ '' depends on unknown node: '' @ dep])
            (nodeDeps n))) nodes)
      in if errors \<noteq> [] then errors
         else (case topologicalSort nodes of Inr _ \<Rightarrow> []
           | Inl (ErrorMsg m) \<Rightarrow> [m] | Inl (TypeError m) \<Rightarrow> [m]))"

section \<open>The choice of the nodes to run\<close>

record dag_limits =
  providerCapacity :: "(string \<Rightarrow> jsnum) option"
  providerKeyForNode :: "(js \<Rightarrow> js) option"

definition effective_key :: "(js \<Rightarrow> js) option \<Rightarrow> js \<Rightarrow> string" where
  "effective_key keyFor n =
     to_str (or_else (case keyFor of None \<Rightarrow> JNull | Some f \<Rightarrow> f n) (JStr ''__default__''))"

definition running_by_provider :: "(js \<Rightarrow> js) option \<Rightarrow> js list \<Rightarrow> string list \<Rightarrow> (string \<times> nat) list" where
  "running_by_provider keyFor nodes running =
     foldl (\<lambda>m i. case getNode nodes i of None \<Rightarrow> m
       | Some n \<Rightarrow> (let k = effective_key keyFor n in
           AList.update k ((case map_of m k of None \<Rightarrow> 0 | Some c \<Rightarrow> c) + 1) m)) [] running"

definition provider_budget :: "(string \<Rightarrow> jsnum) \<Rightarrow> (string \<times> nat) list \<Rightarrow> string \<Rightarrow> jsnum" where
  "provider_budget cap busy k =
     num_max0 (num_sub (num_max0 (num_floor (cap k)))
        (Fin (of_nat (case map_of busy k of None \<Rightarrow> 0 | Some c \<Rightarrow> c))))"

fun pick_nodes ::
  "(string \<Rightarrow> jsnum) \<Rightarrow> (js \<Rightarrow> js) option \<Rightarrow> js list \<Rightarrow> (string \<times> nat) list \<Rightarrow> int
   \<Rightarrow> (string \<times> jsnum) list \<Rightarrow> string list \<Rightarrow> string list \<Rightarrow> string list" where
  "pick_nodes cap keyFor nodes busy available remaining selected [] = selected"
| "pick_nodes cap keyFor nodes busy available remaining selected (i # ready) =
     (if int (length selected) \<ge> available then selected
      else case getNode nodes i of
        None \<Rightarrow> pick_nodes cap keyFor nodes busy available remaining selected ready
      | Some n \<Rightarrow>
          (let k = effective_key keyFor n;
               left = (case map_of remaining k of Some r \<Rightarrow> r | None \<Rightarrow> provider_budget cap busy k)
           in if num_le (num_max0 (num_floor (cap k))) (Fin 0) \<or> num_le left (Fin 0)
              then pick_nodes cap keyFor nodes busy available remaining selected ready
              else pick_nodes cap keyFor nodes busy available
                     (AList.update k (num_sub left (Fin 1)) remaining) (selected @ [i]) ready))"

definition scheduleReadyNodes ::
  "js list \<Rightarrow> string list \<Rightarrow> string list \<Rightarrow> int \<Rightarrow> dag_limits \<Rightarrow> string list" where
  "scheduleReadyNodes nodes completed running maxConcurrent opts =
     (let ready = readyNodes nodes completed running;
          available = maxConcurrent - int (length running)
      in if max 0 available \<le> 0 then []
         else case providerCapacity opts of
           None \<Rightarrow> take (nat (max 0 available)) ready
         | Some cap \<Rightarrow> pick_nodes cap (providerKeyForNode opts) nodes
             (running_by_provider (providerKeyForNode opts) nodes running) available [] [] ready)"

section \<open>Resume metadata\<close>

record dag_resume =
  completedNodeIds :: "string list"
  failedNodeId :: "string option"
  readyNodeIds :: "string list"
  blockedNodeIds :: "string list"
  resumeTarget :: "(string \<times> js) option"

definition orderedPhaseEntries :: "js \<Rightarrow> (string \<times> js) list" where
  "orderedPhaseEntries phaseStates =
     filter (\<lambda>pv. fst pv \<noteq> []) (map (\<lambda>(p, v). (p, if isRecord v then fld v ''status'' else v)) (entries phaseStates))"

definition stopped_status :: "js \<Rightarrow> bool" where
  "stopped_status st = (to_str st \<in> set [''failed'', ''blocked'', ''cancelled''])"

definition or_first :: "string option \<Rightarrow> string option \<Rightarrow> string option" where
  \<comment> \<open>\<^verbatim>\<open>a || b\<close> on a nullable string\<close>
  "or_first a b = (case a of Some (c # s) \<Rightarrow> a | _ \<Rightarrow> b)"

text \<open>The three sources of the metadata: the recorded states of nodes when there is no DAG, the
  phases when there are no node states either, and otherwise the nodes of the DAG.\<close>

definition resume_from_node_states :: "(string \<times> js) list \<Rightarrow> dag_resume" where
  "resume_from_node_states es =
     (let status = (\<lambda>v. if isRecord v then fld v ''status'' else v);
          completed = map fst (filter (\<lambda>(i, v). status v = JStr ''completed'' \<or> status v = JStr ''skipped'') es);
          failed = find (\<lambda>(i, v). stopped_status (status v)) es
      in \<lparr>completedNodeIds = completed, failedNodeId = map_option fst failed,
          readyNodeIds = (case failed of None \<Rightarrow> [] | Some (i, _) \<Rightarrow> [i]), blockedNodeIds = [],
          resumeTarget = map_option (\<lambda>(i, v).
            (i, or_else (JStr (stringValue (fld (recordValue v) ''phase''))) (JStr i))) failed\<rparr>)"

definition resume_from_phases :: "(string \<times> js) list \<Rightarrow> dag_resume" where
  "resume_from_phases es =
     (let failed = map_option fst (find (\<lambda>(p, st). stopped_status st) es)
      in \<lparr>completedNodeIds = map fst (filter (\<lambda>(p, st). st = JStr ''completed'') es), failedNodeId = failed,
          readyNodeIds = (case failed of None \<Rightarrow> [] | Some p \<Rightarrow> [p]), blockedNodeIds = [],
          resumeTarget = map_option (\<lambda>p. (p, JStr p)) failed\<rparr>)"

definition node_status :: "js \<Rightarrow> string \<Rightarrow> js" where
  "node_status nodeStates i = fld (fld (recordValue nodeStates) i) ''status''"

definition status_in :: "string list \<Rightarrow> js \<Rightarrow> bool" where
  "status_in names st = (case st of JStr s \<Rightarrow> s \<in> set names | _ \<Rightarrow> False)"

definition resume_from_dag :: "js list \<Rightarrow> js \<Rightarrow> dag_resume" where
  "resume_from_dag nodes nodeStates =
     (let st = node_status nodeStates;
          completed = uniq (map nodeId (filter (\<lambda>n. status_in [''completed'', ''skipped''] (st (nodeId n))) nodes));
          running = uniq (map nodeId (filter (\<lambda>n. status_in [''running'', ''retrying''] (st (nodeId n))) nodes));
          stopped = map nodeId (filter (\<lambda>n. status_in [''failed'', ''blocked'', ''cancelled''] (st (nodeId n))) nodes);
          unavailable = running @ stopped;
          failed = fold (\<lambda>i acc. or_first acc (Some i)) stopped None;
          rest = filter (\<lambda>n. nodeId n \<notin> set completed \<and> nodeId n \<notin> set running) nodes;
          complete = (\<lambda>n. list_all (\<lambda>d. d \<in> set completed) (nodeDeps n));
          ready = map nodeId (filter complete rest);
          blocked = map nodeId (filter (\<lambda>n. \<not> complete n \<and> nodeId n \<notin> set unavailable) rest);
          target = or_first failed (or_first (case ready of [] \<Rightarrow> None | i # _ \<Rightarrow> Some i) None)
      in \<lparr>completedNodeIds = filter (\<lambda>i. i \<in> set completed) (map nodeId nodes), failedNodeId = failed,
          readyNodeIds = ready, blockedNodeIds = blocked,
          resumeTarget = map_option (\<lambda>i. (i, nullish_or (case getNode nodes i of None \<Rightarrow> JUndef
             | Some n \<Rightarrow> fld n ''phase'') (JStr i))) target\<rparr>)"

definition deriveDagResumeState :: "js \<Rightarrow> js \<Rightarrow> js \<Rightarrow> dag_resume" where
  "deriveDagResumeState workflowDag nodeStates phaseStates =
     (let nodes = filter (\<lambda>n. truthy (fld n ''id'')) (map recordValue (arr (fld workflowDag ''nodes'')));
          nodeEntries = filter (\<lambda>kv. fst kv \<noteq> []) (entries (recordValue nodeStates))
      in if nodes \<noteq> [] then resume_from_dag nodes nodeStates
         else if nodeEntries \<noteq> [] then resume_from_node_states nodeEntries
         else resume_from_phases (orderedPhaseEntries (recordValue phaseStates)))"

section \<open>Properties of validation\<close>

lemma validate_nodes_no_errors:
  "snd (foldl validate_node ([], []) nodes) = [] \<longleftrightarrow>
     [] \<notin> node_ids nodes \<and> distinct (map nodeId nodes) \<and> (\<forall>n \<in> set nodes. truthy (fld n ''phase''))"
  "[] \<notin> node_ids nodes \<Longrightarrow> set (fst (foldl validate_node ([], []) nodes)) = node_ids nodes"
proof -
  have ids: "set (fst (foldl validate_node ([], []) ns)) = node_ids ns - {[]}" for ns
  proof (induction ns rule: rev_induct)
    case Nil
    then show ?case by simp
  next
    case (snoc n ns)
    then show ?case
      by (cases "foldl validate_node ([], []) ns", cases "nodeId n = []")
         (simp_all add: insert_Diff_if)
  qed
  show "[] \<notin> node_ids nodes \<Longrightarrow> set (fst (foldl validate_node ([], []) nodes)) = node_ids nodes"
    by (simp add: ids)
  show "snd (foldl validate_node ([], []) nodes) = [] \<longleftrightarrow>
     [] \<notin> node_ids nodes \<and> distinct (map nodeId nodes) \<and> (\<forall>n \<in> set nodes. truthy (fld n ''phase''))"
  proof (induction nodes rule: rev_induct)
    case Nil
    then show ?case by simp
  next
    case (snoc n ns)
    obtain ids0 es where f: "foldl validate_node ([], []) ns = (ids0, es)" by force
    with ids [of ns] have "set ids0 = node_ids ns - {[]}" by simp
    then have dup: "nodeId n \<noteq> [] \<Longrightarrow> nodeId n \<in> set ids0 \<longleftrightarrow> nodeId n \<in> node_ids ns" by simp
    have new: "snd (foldl validate_node ([], []) (ns @ [n])) = [] \<longleftrightarrow>
        es = [] \<and> nodeId n \<noteq> [] \<and> nodeId n \<notin> set ids0 \<and> truthy (fld n ''phase'')"
      by (simp add: f)
    from snoc f have old: "es = [] \<longleftrightarrow>
        [] \<notin> node_ids ns \<and> distinct (map nodeId ns) \<and> (\<forall>n \<in> set ns. truthy (fld n ''phase''))" by simp
    show ?case
    proof (cases "nodeId n = []")
      case True
      then show ?thesis by (simp only: new) simp
    next
      case False
      then show ?thesis by (simp only: new old dup [OF False]) auto
    qed
  qed
qed

lemma topologicalSort_ok:
  "(\<exists>order. topologicalSort nodes = Inr order) \<longleftrightarrow>
     distinct (map nodeId nodes) \<and> [] \<notin> node_ids nodes \<and> acyclic (dep_rel nodes)"
proof -
  let ?r = "topo_result nodes"
  have card_le: "length ?r \<le> card (node_ids nodes)"
    using topo_result_props(1,2) [of nodes] by (metis List.finite_set card_mono distinct_card finite_imageI)
  have "length ?r = length nodes \<longleftrightarrow>
      distinct (map nodeId nodes) \<and> [] \<notin> node_ids nodes \<and> acyclic (dep_rel nodes)"
  proof
    assume len: "length ?r = length nodes"
    with card_le have "card (set (map nodeId nodes)) = length (map nodeId nodes)"
      using card_length [of "map nodeId nodes"] by simp
    then have d: "distinct (map nodeId nodes)" by (rule card_distinct)
    then have "card (node_ids nodes) = length nodes" by (metis distinct_card length_map set_map)
    with len have eq: "set ?r = node_ids nodes"
      using topo_result_props(1,2) [of nodes]
      by (intro card_subset_eq) (simp_all add: distinct_card)
    with topo_result_props(3) have ne: "[] \<notin> node_ids nodes" by metis
    have "acyclic (dep_rel nodes)"
    proof (rule before_acyclic [OF topo_result_props(1)])
      fix d v assume "(d, v) \<in> dep_rel nodes"
      moreover from this have "v \<in> set ?r" using eq by (auto simp: dep_rel_def)
      ultimately show "before d v ?r" by (rule topo_result_props(4))
    qed
    with d ne show "distinct (map nodeId nodes) \<and> [] \<notin> node_ids nodes \<and> acyclic (dep_rel nodes)" by simp
  next
    assume a: "distinct (map nodeId nodes) \<and> [] \<notin> node_ids nodes \<and> acyclic (dep_rel nodes)"
    then have "set ?r = set (map nodeId nodes)" by (simp add: topo_result_complete)
    with a topo_result_props(1) [of nodes] show "length ?r = length nodes"
      by (metis distinct_card length_map)
  qed
  then show ?thesis by (auto simp: topologicalSort_result)
qed

lemma topologicalSort_order_facts:
  assumes "topologicalSort nodes = Inr order"
  shows "distinct order" "set order = node_ids nodes" "(d, v) \<in> dep_rel nodes \<Longrightarrow> before d v order"
proof -
  from assms have o: "order = topo_result nodes" by (simp add: topologicalSort_result)
  from assms topologicalSort_ok have "[] \<notin> node_ids nodes" "acyclic (dep_rel nodes)" by blast+
  then have eq: "set order = node_ids nodes" unfolding o by (rule topo_result_complete)
  then show "distinct order" "set order = node_ids nodes" by (simp_all add: o topo_result_props)
  show "before d v order" if e: "(d, v) \<in> dep_rel nodes"
    using e eq unfolding o by (intro topo_result_props(4)) (auto simp: dep_rel_def)
qed

lemma validateDag_ok:
  "validateDag nodes = [] \<longleftrightarrow>
     distinct (map nodeId nodes) \<and> [] \<notin> node_ids nodes
   \<and> (\<forall>n \<in> set nodes. truthy (fld n ''phase'') \<and> set (nodeDeps n) \<subseteq> node_ids nodes)
   \<and> acyclic (dep_rel nodes)"
proof -
  obtain ids errs where f: "foldl validate_node ([], []) nodes = (ids, errs)" by force
  let ?unknown = "concat (map (\<lambda>n. concat (map (\<lambda>dep. if dep \<in> set ids then []
      else [''node '' @ nodeId n @ '' depends on unknown node: '' @ dep]) (nodeDeps n))) nodes)"
  have unk: "?unknown = [] \<longleftrightarrow> (\<forall>n \<in> set nodes. set (nodeDeps n) \<subseteq> set ids)"
    by auto
  have "validateDag nodes = [] \<longleftrightarrow> errs = [] \<and> ?unknown = [] \<and> (\<exists>order. topologicalSort nodes = Inr order)"
    by (auto simp: validateDag_def f Let_def split: sum.splits js_error.splits)
  also have "\<dots> \<longleftrightarrow> distinct (map nodeId nodes) \<and> [] \<notin> node_ids nodes
     \<and> (\<forall>n \<in> set nodes. truthy (fld n ''phase'') \<and> set (nodeDeps n) \<subseteq> node_ids nodes)
     \<and> acyclic (dep_rel nodes)"
    using validate_nodes_no_errors [of nodes] unfolding f unk topologicalSort_ok
    by (cases "[] \<in> node_ids nodes") (simp_all add: ball_conj_distrib, blast)
  finally show ?thesis .
qed

section \<open>Properties of the scheduler\<close>

lemma readyNodes_iff:
  "i \<in> set (readyNodes nodes completed running) \<longleftrightarrow>
     (\<exists>n \<in> set nodes. nodeId n = i \<and> set (nodeDeps n) \<subseteq> set completed) \<and> i \<notin> set completed \<and> i \<notin> set running"
  by (auto simp: readyNodes_def list_all_iff)

lemma readyNodes_distinct:
  "distinct (map nodeId nodes) \<Longrightarrow> distinct (readyNodes nodes completed running)"
  by (simp add: readyNodes_def distinct_map_filter)

lemma pick_nodes_step:
  assumes "\<not> available \<le> int (length selected)"
  shows "pick_nodes cap keyFor nodes busy available remaining selected (i # ready)
        = pick_nodes cap keyFor nodes busy available remaining selected ready
    \<or> (\<exists>n. getNode nodes i = Some n \<and>
        (let k = effective_key keyFor n;
             left = (case map_of remaining k of Some r \<Rightarrow> r | None \<Rightarrow> provider_budget cap busy k) in
          \<not> num_le (num_max0 (num_floor (cap k))) (Fin 0) \<and> \<not> num_le left (Fin 0) \<and>
          pick_nodes cap keyFor nodes busy available remaining selected (i # ready)
          = pick_nodes cap keyFor nodes busy available (AList.update k (num_sub left (Fin 1)) remaining)
              (selected @ [i]) ready))"
  using assms by (cases "getNode nodes i") (simp_all add: Let_def)

lemma pick_nodes_basic:
  "\<exists>picked. pick_nodes cap keyFor nodes busy available remaining selected ready = selected @ picked
      \<and> set picked \<subseteq> set ready \<and> (distinct ready \<longrightarrow> distinct picked)
      \<and> (int (length selected) \<le> available \<longrightarrow> int (length selected + length picked) \<le> available)"
proof (induction ready arbitrary: remaining selected)
  case Nil
  then show ?case by simp
next
  case (Cons i ready)
  let ?P = "\<lambda>rem sel. pick_nodes cap keyFor nodes busy available rem sel ready"
  have skip_case: ?case if "pick_nodes cap keyFor nodes busy available remaining selected (i # ready) = ?P remaining selected"
    using Cons [of remaining selected] that by (elim exE) (rule exI, auto)
  show ?case
  proof (cases "available \<le> int (length selected)")
    case True
    then show ?thesis by (intro exI [of _ "[]"]) simp
  next
    case False
    then consider (skip) "pick_nodes cap keyFor nodes busy available remaining selected (i # ready) = ?P remaining selected"
      | (take) rem where "pick_nodes cap keyFor nodes busy available remaining selected (i # ready) = ?P rem (selected @ [i])"
      using pick_nodes_step [of available selected cap keyFor nodes busy remaining i ready]
      unfolding Let_def by blast
    then show ?thesis
    proof cases
      case skip
      then show ?thesis by (rule skip_case)
    next
      case take
      with Cons [of rem "selected @ [i]"] False show ?thesis
        by (elim exE) (rule_tac x = "i # picked" in exI, auto)
    qed
  qed
qed

lemma schedule_basic:
  assumes "scheduleReadyNodes nodes completed running maxConcurrent opts = picked"
  shows "set picked \<subseteq> set (readyNodes nodes completed running)"
    "distinct (map nodeId nodes) \<Longrightarrow> distinct picked"
    "int (length picked) \<le> max 0 (maxConcurrent - int (length running))"
proof -
  let ?ready = "readyNodes nodes completed running"
  let ?avail = "maxConcurrent - int (length running)"
  have "set picked \<subseteq> set ?ready \<and> (distinct ?ready \<longrightarrow> distinct picked) \<and> int (length picked) \<le> max 0 ?avail"
  proof (cases "max 0 ?avail \<le> 0")
    case True
    with assms show ?thesis by (simp add: scheduleReadyNodes_def Let_def)
  next
    case False
    show ?thesis
    proof (cases "providerCapacity opts")
      case None
      with assms False have "picked = take (nat (max 0 ?avail)) ?ready"
        by (simp add: scheduleReadyNodes_def Let_def)
      then show ?thesis by (auto dest: in_set_takeD)
    next
      case (Some cap)
      with assms False have "picked = pick_nodes cap (providerKeyForNode opts) nodes
          (running_by_provider (providerKeyForNode opts) nodes running) ?avail [] [] ?ready"
        by (simp add: scheduleReadyNodes_def Let_def)
      with pick_nodes_basic [of cap "providerKeyForNode opts" nodes
          "running_by_provider (providerKeyForNode opts) nodes running" ?avail "[]" "[]" ?ready] False
      show ?thesis by auto
    qed
  qed
  then show "set picked \<subseteq> set ?ready" "distinct (map nodeId nodes) \<Longrightarrow> distinct picked"
    "int (length picked) \<le> max 0 ?avail"
    using readyNodes_distinct by blast+
qed

end
