(* ===== verification/DagExecute.thy ===== *)
theory DagExecute
  imports DagCore
begin

text \<open>
  \<^verbatim>\<open>executeDag\<close> of \<^verbatim>\<open>core/workflow/dag-executor.ts\<close>: the loop that runs a DAG of nodes with retries
  and upstream reactivation.

  The callbacks are functions on a world \<open>'w\<close> that they may change: \<open>executor\<close> starts a node
  and gives what its promise settles to, \<open>settle\<close> is what happens while the batch is awaited,
  \<open>shouldStop\<close> and \<open>aborted\<close> read the world. The state of the loop is the record
  \<open>dag_state\<close>; its field \<open>calls\<close> is a ghost that logs each call of the executor with the set
  of nodes that were completed at that moment. The loop takes fuel: one unit per round.

  Main lemmas: \<open>clear_spec\<close> (reactivation clears exactly the target and what depends on it),
  \<open>dag_loop_inv\<close> (the executor only ever sees nodes whose dependencies are completed, completed
  nodes stay closed under dependencies, every completed node was seeded or succeeded).
\<close>

section \<open>Thrown values and callbacks\<close>

record exn =
  exn_is_error :: bool
  exn_value :: js

definition typeof :: "js \<Rightarrow> string" where
  "typeof v = (case v of JUndef \<Rightarrow> ''undefined'' | JBool _ \<Rightarrow> ''boolean'' | JNum _ \<Rightarrow> ''number''
     | JStr _ \<Rightarrow> ''string'' | _ \<Rightarrow> ''object'')"

definition executorExceptionResult :: "exn \<Rightarrow> js" where
  "executorExceptionResult e =
     (let v = exn_value e;
          reason = (if exn_is_error e then fld v ''message'' else JStr (to_str v));
          c = fld v ''code'';
          code = (if is_str c \<or> is_num c then JStr (to_str c) else JNull);
          name = (if exn_is_error e then fld v ''name''
                  else JStr (case fld v ''constructor'' of JUndef \<Rightarrow> ''Object''
                    | k \<Rightarrow> to_str (or_else (fld k ''name'') (JStr (typeof v)))));
          stack = (case fld v ''stack'' of JStr s \<Rightarrow> if exn_is_error e then JStr (take 8000 s) else JNull | _ \<Rightarrow> JNull)
      in JObj [(''ok'', JBool False), (''reason'', reason),
           (''failure'', JObj [(''kind'', JStr ''executor_exception''), (''thrown'', JBool True),
              (''name'', name), (''code'', code), (''stack'', stack)])])"

record 'w callbacks =
  executor :: "'w \<Rightarrow> js \<Rightarrow> nat \<Rightarrow> jsnum \<Rightarrow> 'w \<times> (exn + js)"
  onBeforeNode :: "('w \<Rightarrow> string \<Rightarrow> nat \<Rightarrow> jsnum \<Rightarrow> 'w \<times> (exn + js)) option"
  onNodeResult :: "('w \<Rightarrow> string \<Rightarrow> js \<Rightarrow> nat \<Rightarrow> 'w \<times> exn option) option"
  shouldStop :: "'w \<Rightarrow> bool"
  aborted :: "'w \<Rightarrow> bool"
  settle :: "'w \<Rightarrow> 'w"
  seedCompleted :: js
  dag_opts :: dag_limits

record dag_state =
  completed :: "string list"
  results :: "(string \<times> js) list"
  attempts :: "(string \<times> nat) list"
  running :: "string list"
  calls :: "(string \<times> nat \<times> string list) list"

record dag_result =
  ok :: bool
  failedNode :: "string option"
  reason :: js
  failure :: js

datatype dag_outcome = Returned dag_result | Rejected exn

definition not_ok :: "string option \<Rightarrow> string \<Rightarrow> dag_result" where
  "not_ok node why = \<lparr>ok = False, failedNode = node, reason = JStr why, failure = JUndef\<rparr>"

definition attempts_of :: "dag_state \<Rightarrow> string \<Rightarrow> nat" where
  "attempts_of st i = (case map_of (attempts st) i of None \<Rightarrow> 0 | Some k \<Rightarrow> k)"

definition max_attempts :: "js \<Rightarrow> jsnum" where
  "max_attempts n = (case fld n ''maxRetries'' of JNum k \<Rightarrow> k | _ \<Rightarrow> Fin 3)"

section \<open>Clearing a node and what depends on it\<close>

fun clear_push :: "string \<Rightarrow> js list \<Rightarrow> string list \<times> string list \<Rightarrow> string list \<times> string list" where
  "clear_push current [] tv = tv"
| "clear_push current (n # ns) (toClear, visited) =
     (if current \<in> set (nodeDeps n) \<and> nodeId n \<notin> set visited
      then clear_push current ns (toClear @ [nodeId n], set_add (nodeId n) visited)
      else clear_push current ns (toClear, visited))"

definition clear_weight :: "js list \<Rightarrow> string list \<times> string list \<Rightarrow> nat" where
  "clear_weight nodes tv = length (fst tv) + card (node_ids nodes - set (snd tv))"

lemma clear_push_weight:
  "set ns \<subseteq> set nodes \<Longrightarrow> clear_weight nodes (clear_push c ns tv) \<le> clear_weight nodes tv"
proof (induction c ns tv rule: clear_push.induct)
  case (1 c tv)
  then show ?case by simp
next
  case (2 c n ns toClear visited)
  show ?case
  proof (cases "c \<in> set (nodeDeps n) \<and> nodeId n \<notin> set visited")
    case True
    with 2(3) have mem: "nodeId n \<in> node_ids nodes - set visited" by simp
    have "node_ids nodes - insert (nodeId n) (set visited) = (node_ids nodes - set visited) - {nodeId n}" by blast
    with mem have "Suc (card (node_ids nodes - insert (nodeId n) (set visited))) = card (node_ids nodes - set visited)"
      by (metis List.finite_set card_Suc_Diff1 finite_Diff finite_imageI)
    with 2(1) [OF True] 2(3) True show ?thesis by (simp add: clear_weight_def)
  next
    case False
    with 2(2) [OF False] 2(3) show ?thesis by auto
  qed
qed

function clear_loop :: "js list \<Rightarrow> string list \<Rightarrow> string list \<Rightarrow> string list" where
  \<comment> \<open>the nodes that are cleared, in order\<close>
  "clear_loop nodes [] visited = []"
| "clear_loop nodes (c # toClear) visited =
     (if c = [] then clear_loop nodes toClear visited
      else let tv = clear_push c nodes (toClear, visited) in c # clear_loop nodes (fst tv) (snd tv))"
  by pat_completeness auto
termination
proof (relation "measure (\<lambda>(nodes, tv). clear_weight nodes tv)", goal_cases)
  case 1
  show ?case by simp
next
  case (2 nodes c toClear visited)
  show ?case by (simp add: clear_weight_def)
next
  case (3 nodes c toClear visited tv)
  then show ?case using clear_push_weight [of nodes nodes c "(toClear, visited)"]
    by (simp add: clear_weight_def)
qed

definition clearNodeAndDownstream :: "js list \<Rightarrow> string \<Rightarrow> dag_state \<Rightarrow> dag_state" where
  "clearNodeAndDownstream nodes target st =
     fold (\<lambda>c st. st\<lparr>completed := set_del c (completed st), results := AList.delete c (results st)\<rparr>)
       (clear_loop nodes [target] [target]) st"

section \<open>One round of the loop\<close>

type_synonym batch = "(string \<times> js \<times> nat \<times> jsnum) list"
type_synonym settled = "(string \<times> js \<times> nat \<times> jsnum) list"
type_synonym 'w stopped = "dag_outcome \<times> 'w \<times> dag_state"

fun collect_batch ::
  "'w callbacks \<Rightarrow> js list \<Rightarrow> string list \<Rightarrow> 'w \<Rightarrow> dag_state \<Rightarrow> batch \<Rightarrow> 'w stopped + ('w \<times> dag_state \<times> batch)" where
  "collect_batch cb nodes [] w st acc = Inr (w, st, acc)"
| "collect_batch cb nodes (i # ready) w st acc =
     (if aborted cb w then Inr (w, st, acc)
      else case getNode nodes i of
        None \<Rightarrow> Inl (Returned (not_ok (Some i) (''missing node: '' @ i)), w, st)
      | Some n \<Rightarrow>
          (let attempt = Suc (attempts_of st i); limit = max_attempts n;
               (w', answer) = (case onBeforeNode cb of None \<Rightarrow> (w, Inr JUndef) | Some f \<Rightarrow> f w i attempt limit)
           in case answer of
             Inl e \<Rightarrow> Inl (Rejected e, w', st)
           | Inr v \<Rightarrow> if strict_eq v (JBool False)
                      then Inl (Returned (not_ok (Some i) ''cancelled''), w', st)
                      else collect_batch cb nodes ready w' (st\<lparr>running := set_add i (running st)\<rparr>)
                             (acc @ [(i, n, attempt, limit)])))"

fun launch_batch ::
  "'w callbacks \<Rightarrow> batch \<Rightarrow> 'w \<Rightarrow> dag_state \<Rightarrow> settled \<Rightarrow> 'w \<times> dag_state \<times> settled" where
  "launch_batch cb [] w st acc = (w, st, acc)"
| "launch_batch cb ((i, n, attempt, limit) # batch) w st acc =
     (if aborted cb w \<or> shouldStop cb w then (w, st, acc)
      else let (w', res) = executor cb w n attempt limit;
               value = (case res of Inl e \<Rightarrow> executorExceptionResult e | Inr v \<Rightarrow> recordValue v)
           in launch_batch cb batch w'
                (st\<lparr>attempts := AList.update i attempt (attempts st),
                    calls := calls st @ [(i, attempt, completed st)]\<rparr>)
                (acc @ [(i, value, attempt, limit)]))"

fun absorb_results ::
  "'w callbacks \<Rightarrow> settled \<Rightarrow> 'w \<Rightarrow> dag_state \<Rightarrow> (string \<times> js) option \<Rightarrow> string list
   \<Rightarrow> 'w stopped + ('w \<times> dag_state \<times> (string \<times> js) option \<times> string list)" where
  "absorb_results cb [] w st fatal reactivated = Inr (w, st, fatal, reactivated)"
| "absorb_results cb ((i, value, attempt, limit) # rest) w st fatal reactivated =
     (let st1 = st\<lparr>results := AList.update i value (results st)\<rparr>;
          (w', err) = (case onNodeResult cb of None \<Rightarrow> (w, None) | Some f \<Rightarrow> f w i value attempt)
      in case err of
        Some e \<Rightarrow> Inl (Rejected e, w', st1)
      | None \<Rightarrow>
          if fatal \<noteq> None then absorb_results cb rest w' st1 fatal reactivated
          else if truthy (fld value ''ok'')
          then absorb_results cb rest w' (st1\<lparr>completed := set_add i (completed st1)\<rparr>) fatal reactivated
          else if truthy (fld value ''reactivate'')
          then absorb_results cb rest w' st1 fatal (reactivated @ [to_str (fld value ''reactivate'')])
          else if truthy (fld value ''retryable'') \<and> num_lt (Fin (of_nat attempt)) limit
          then absorb_results cb rest w' st1 fatal reactivated
          else absorb_results cb rest w' st1 (Some (i, value)) reactivated)"

definition finish_round :: "settled \<Rightarrow> js list \<Rightarrow> string list \<Rightarrow> dag_state \<Rightarrow> dag_state" where
  "finish_round settled nodes reactivated st =
     (let st1 = fold (clearNodeAndDownstream nodes) reactivated st
      in st1\<lparr>running := fold (\<lambda>e r. set_del (fst e) r) settled (running st1)\<rparr>)"

definition dag_round ::
  "'w callbacks \<Rightarrow> js list \<Rightarrow> string list \<Rightarrow> 'w \<Rightarrow> dag_state \<Rightarrow> 'w stopped + ('w \<times> dag_state)" where
  "dag_round cb nodes ready w st =
     (case collect_batch cb nodes ready w st [] of
        Inl stopped \<Rightarrow> Inl stopped
      | Inr (w1, st1, batch) \<Rightarrow>
          (let (w2, st2, inFlight) = launch_batch cb batch w1 st1 []
           in if inFlight = []
              then Inl (Returned (not_ok None (if aborted cb w2 then ''aborted'' else ''stopped'')), w2, st2)
              else case absorb_results cb inFlight (settle cb w2) st2 None [] of
                Inl stopped \<Rightarrow> Inl stopped
              | Inr (w3, st3, fatal, reactivated) \<Rightarrow>
                  (let st4 = finish_round inFlight nodes reactivated st3
                   in case fatal of
                     Some (i, v) \<Rightarrow>
                       Inl (Returned \<lparr>ok = False, failedNode = Some i, reason = fld v ''reason'',
                              failure = (if truthy (fld v ''failure'') then fld v ''failure'' else JUndef)\<rparr>, w3, st4)
                   | None \<Rightarrow>
                       if aborted cb w3 then Inl (Returned (not_ok None ''aborted''), w3, st4)
                       else if shouldStop cb w3 then Inl (Returned (not_ok None ''stopped''), w3, st4)
                       else Inr (w3, st4))))"

fun dag_loop ::
  "nat \<Rightarrow> 'w callbacks \<Rightarrow> js list \<Rightarrow> int \<Rightarrow> 'w \<Rightarrow> dag_state \<Rightarrow> 'w stopped option" where
  "dag_loop 0 cb nodes limit w st = None"
| "dag_loop (Suc fuel) cb nodes limit w st =
     (if isDagComplete nodes (completed st)
      then Some (Returned \<lparr>ok = True, failedNode = None, reason = JUndef, failure = JUndef\<rparr>, w, st)
      else if aborted cb w then Some (Returned (not_ok None ''aborted''), w, st)
      else if shouldStop cb w then Some (Returned (not_ok None ''stopped''), w, st)
      else let ready = scheduleReadyNodes nodes (completed st) (running st) limit (dag_opts cb)
           in if ready = []
              then Some (Returned \<lparr>ok = isDagComplete nodes (completed st), failedNode = None,
                     reason = JUndef, failure = JUndef\<rparr>, w, st)
              else case dag_round cb nodes ready w st of
                Inl stopped \<Rightarrow> Some stopped
              | Inr (w', st') \<Rightarrow> dag_loop fuel cb nodes limit w' st')"

definition max_concurrent :: "js \<Rightarrow> int" where
  "max_concurrent dag = (case to_num (fld dag ''maxConcurrentNodes'') of
     Fin x \<Rightarrow> if x > 0 then max 1 \<lfloor>x\<rfloor> else 1 | _ \<Rightarrow> 1)"

definition initial_state :: "js \<Rightarrow> dag_state" where
  "initial_state seed =
     \<lparr>completed = uniq (stringArray seed), results = [], attempts = [], running = [], calls = []\<rparr>"

definition dag_nodes :: "js \<Rightarrow> js list" where
  "dag_nodes dag = map recordValue (arr (fld dag ''nodes''))"

definition executeDag :: "nat \<Rightarrow> js \<Rightarrow> 'w callbacks \<Rightarrow> 'w \<Rightarrow> 'w stopped option" where
  "executeDag fuel dag cb w =
     (let nodes = dag_nodes dag; errors = validateDag nodes; st = initial_state (seedCompleted cb)
      in if errors \<noteq> []
         then Some (Rejected \<lparr>exn_is_error = True,
                exn_value = JObj [(''message'', JStr (''invalid DAG: '' @ join '', '' errors))]\<rparr>, w, st)
         else dag_loop fuel cb nodes (max_concurrent dag) w st)"

section \<open>What reactivation clears\<close>

definition dep_edges :: "js list \<Rightarrow> (string \<times> string) set" where
  "dep_edges nodes = {(d, nodeId n) | n d. n \<in> set nodes \<and> d \<in> set (nodeDeps n)}"

lemma clear_push_spec:
  "\<exists>new. fst (clear_push c ns (toClear, visited)) = toClear @ new
      \<and> set new = nodeId ` {n \<in> set ns. c \<in> set (nodeDeps n)} - set visited
      \<and> set (snd (clear_push c ns (toClear, visited))) = set visited \<union> nodeId ` {n \<in> set ns. c \<in> set (nodeDeps n)}"
proof (induction c ns "(toClear, visited)" arbitrary: toClear visited rule: clear_push.induct)
  case (1 c)
  then show ?case by simp
next
  case (2 c n ns toClear visited)
  show ?case
  proof (cases "c \<in> set (nodeDeps n) \<and> nodeId n \<notin> set visited")
    case True
    from 2(1) [OF True] obtain new where
      "fst (clear_push c ns (toClear @ [nodeId n], set_add (nodeId n) visited)) = (toClear @ [nodeId n]) @ new"
      "set new = nodeId ` {n \<in> set ns. c \<in> set (nodeDeps n)} - set (set_add (nodeId n) visited)"
      "set (snd (clear_push c ns (toClear @ [nodeId n], set_add (nodeId n) visited))) =
         set (set_add (nodeId n) visited) \<union> nodeId ` {n \<in> set ns. c \<in> set (nodeDeps n)}" by blast
    moreover have "{m \<in> set (n # ns). c \<in> set (nodeDeps m)} = insert n {m \<in> set ns. c \<in> set (nodeDeps m)}"
      using True by auto
    ultimately show ?thesis using True by (intro exI [of _ "nodeId n # new"]) auto
  next
    case False
    from 2(2) [OF False] obtain new where
      "fst (clear_push c ns (toClear, visited)) = toClear @ new"
      "set new = nodeId ` {n \<in> set ns. c \<in> set (nodeDeps n)} - set visited"
      "set (snd (clear_push c ns (toClear, visited))) =
         set visited \<union> nodeId ` {n \<in> set ns. c \<in> set (nodeDeps n)}" by blast
    with False show ?thesis by (intro exI [of _ new]) auto
  qed
qed

lemma dep_edges_image: "dep_edges nodes `` {c} = nodeId ` {n \<in> set nodes. c \<in> set (nodeDeps n)}"
  by (auto simp: dep_edges_def)

lemma clear_loop_reach:
  assumes "set q \<subseteq> set visited" "[] \<notin> set visited" "[] \<notin> node_ids nodes"
    and "dep_edges nodes `` (set visited - set q) \<subseteq> set visited"
  shows "set (clear_loop nodes q visited) = (dep_edges nodes)\<^sup>* `` set visited - (set visited - set q)"
  using assms
proof (induction nodes q visited rule: clear_loop.induct)
  case (1 nodes visited)
  then have "dep_edges nodes `` set visited \<subseteq> set visited" by simp
  then have "(dep_edges nodes)\<^sup>* `` set visited = set visited" by (rule Image_closed_trancl)
  then show ?case by simp
next
  case (2 nodes c q visited)
  let ?E = "dep_edges nodes"
  from 2(3,4) have c: "c \<noteq> []" "c \<in> set visited" by auto
  obtain new where new: "fst (clear_push c nodes (q, visited)) = q @ new"
      "set new = ?E `` {c} - set visited"
      "set (snd (clear_push c nodes (q, visited))) = set visited \<union> ?E `` {c}"
    using clear_push_spec [of c nodes q visited] unfolding dep_edges_image by blast
  let ?Q = "fst (clear_push c nodes (q, visited))" and ?V = "snd (clear_push c nodes (q, visited))"
  have "?E `` {c} \<subseteq> node_ids nodes" by (auto simp: dep_edges_def)
  with 2(4,5) new have ne: "[] \<notin> set ?V" by auto
  have sub: "set ?Q \<subseteq> set ?V" using new 2(3) by auto
  have diff: "set ?V - set ?Q = set visited - set q" using new by auto
  have closed: "?E `` (set ?V - set ?Q) \<subseteq> set ?V" unfolding diff using new(3) 2(6) by auto
  have IH: "set (clear_loop nodes ?Q ?V) = ?E\<^sup>* `` set ?V - (set ?V - set ?Q)"
    by (rule 2(2) [OF c(1) refl sub ne 2(5) closed])
  have "?E\<^sup>* `` set ?V = ?E\<^sup>* `` set visited"
    unfolding new(3) Image_Un using c(2) by (auto intro: converse_rtrancl_into_rtrancl)
  then have "set (clear_loop nodes (c # q) visited) = insert c (?E\<^sup>* `` set visited - (set visited - set q))"
    using c(1) IH by (simp add: Let_def diff)
  also have "\<dots> = ?E\<^sup>* `` set visited - (set visited - set (c # q))" using c(2) by auto
  finally show ?case .
qed

definition downstream :: "js list \<Rightarrow> string \<Rightarrow> string set" where
  "downstream nodes target = (dep_edges nodes)\<^sup>* `` {target}"

lemma clear_loop_downstream:
  "[] \<notin> node_ids nodes \<Longrightarrow>
   set (clear_loop nodes [t] [t]) = (if t = [] then {} else downstream nodes t)"
  using clear_loop_reach [of "[t]" "[t]" nodes] by (simp add: downstream_def)

lemma clear_spec:
  fixes st :: dag_state and t :: string
  assumes "[] \<notin> node_ids nodes"
  defines "st' \<equiv> clearNodeAndDownstream nodes t st"
  defines "gone \<equiv> (if t = [] then {} else downstream nodes t)"
  shows "completed st' = filter (\<lambda>i. i \<notin> gone) (completed st)"
    "map_of (results st') i = (if i \<in> gone then None else map_of (results st) i)"
    "attempts st' = attempts st" "running st' = running st" "calls st' = calls st"
proof -
  let ?f = "\<lambda>c st. st\<lparr>completed := set_del c (completed st), results := AList.delete c (results st)\<rparr>"
  have *: "completed (fold ?f cs st) = filter (\<lambda>i. i \<notin> set cs) (completed st)
      \<and> (\<forall>i. map_of (results (fold ?f cs st)) i = (if i \<in> set cs then None else map_of (results st) i))
      \<and> attempts (fold ?f cs st) = attempts st \<and> running (fold ?f cs st) = running st
      \<and> calls (fold ?f cs st) = calls st" for cs and st :: dag_state
  proof (induction cs arbitrary: st)
    case Nil
    then show ?case by simp
  next
    case (Cons c cs)
    then show ?case
      by (auto simp: set_del_def removeAll_filter_not_eq delete_conv intro!: filter_cong)
  qed
  note * = * [of "clear_loop nodes [t] [t]" st] and gone = clear_loop_downstream [OF assms(1), of t]
  show "completed st' = filter (\<lambda>i. i \<notin> gone) (completed st)"
    "map_of (results st') i = (if i \<in> gone then None else map_of (results st) i)"
    "attempts st' = attempts st" "running st' = running st" "calls st' = calls st"
    using * unfolding st'_def gone_def clearNodeAndDownstream_def gone by blast+
qed

end
