(* ===== verification/DagInvariant.thy ===== *)
theory DagInvariant
  imports DagExecute
begin

text \<open>
  The invariant of the DAG loop and its preservation, step by step: collecting a batch, launching
  it, absorbing its results, clearing reactivated nodes. The loop relies on its scheduler only
  through the interface \<open>batch_scheduler\<close>; \<open>scheduleReadyNodes\<close> is shown to provide it.
\<close>

section \<open>The interface between the loop and its scheduler\<close>

locale batch_scheduler =
  fixes sched :: "js list \<Rightarrow> string list \<Rightarrow> string list \<Rightarrow> int \<Rightarrow> string list"
  assumes sched_ready: "set (sched nodes done busy limit) \<subseteq> set (readyNodes nodes done busy)"
    and sched_distinct: "distinct (map nodeId nodes) \<Longrightarrow> distinct (sched nodes done busy limit)"
    and sched_bounded: "int (length (sched nodes done busy limit)) \<le> max 0 (limit - int (length busy))"
begin

lemma sched_deps:
  "distinct (map nodeId nodes) \<Longrightarrow> n \<in> set nodes \<Longrightarrow> nodeId n \<in> set (sched nodes done busy limit)
     \<Longrightarrow> set (nodeDeps n) \<subseteq> set done \<and> nodeId n \<notin> set done \<and> nodeId n \<notin> set busy"
proof -
  assume d: "distinct (map nodeId nodes)" and n: "n \<in> set nodes"
    and s: "nodeId n \<in> set (sched nodes done busy limit)"
  from s sched_ready have "nodeId n \<in> set (readyNodes nodes done busy)" by (rule subsetD [rotated])
  then obtain m where m: "m \<in> set nodes" "nodeId m = nodeId n" "set (nodeDeps m) \<subseteq> set done"
    and r: "nodeId n \<notin> set done" "nodeId n \<notin> set busy" unfolding readyNodes_iff by blast
  from d n m(1,2) have "m = n" by (auto simp: distinct_map dest: inj_onD)
  with m r show ?thesis by simp
qed

lemma sched_within_limit:
  "length busy \<le> nat limit \<Longrightarrow> length busy + length (sched nodes done busy limit) \<le> nat limit"
  using sched_bounded [of nodes "done" busy limit] by linarith

end

interpretation ready_sched: batch_scheduler "\<lambda>nodes done busy limit. scheduleReadyNodes nodes done busy limit opts"
  for opts
  by unfold_locales (rule schedule_basic(1) [OF refl] schedule_basic(3) [OF refl], rule schedule_basic(2) [OF refl], assumption, rule schedule_basic(3) [OF refl])

section \<open>The invariant\<close>

definition inv_done :: "string set \<Rightarrow> dag_state \<Rightarrow> bool" where
  "inv_done seed st \<longleftrightarrow> (\<forall>i \<in> set (completed st). i \<in> seed
     \<or> (\<exists>v. map_of (results st) i = Some v \<and> truthy (fld v ''ok'')))"

definition inv_closed :: "js list \<Rightarrow> string set \<Rightarrow> dag_state \<Rightarrow> bool" where
  "inv_closed nodes seed st \<longleftrightarrow> (\<forall>n \<in> set nodes. nodeId n \<in> set (completed st) \<longrightarrow>
     nodeId n \<in> seed \<or> set (nodeDeps n) \<subseteq> set (completed st))"

definition inv_calls :: "js list \<Rightarrow> dag_state \<Rightarrow> bool" where
  "inv_calls nodes st \<longleftrightarrow> (\<forall>i a comp. (i, a, comp) \<in> set (calls st) \<longrightarrow>
     (\<exists>n \<in> set nodes. nodeId n = i \<and> set (nodeDeps n) \<subseteq> set comp) \<and> i \<notin> set comp)"

definition attempt_log :: "dag_state \<Rightarrow> string \<Rightarrow> nat list" where
  "attempt_log st i = map (\<lambda>(j, a, comp). a) (filter (\<lambda>(j, a, comp). j = i) (calls st))"

definition inv_attempts :: "dag_state \<Rightarrow> bool" where
  "inv_attempts st \<longleftrightarrow> (\<forall>i. attempt_log st i = [1..<Suc (attempts_of st i)])"

definition dag_inv :: "js list \<Rightarrow> string set \<Rightarrow> dag_state \<Rightarrow> bool" where
  "dag_inv nodes seed st \<longleftrightarrow>
     inv_done seed st \<and> inv_closed nodes seed st \<and> inv_calls nodes st \<and> inv_attempts st"

lemma attempts_of_running [simp]: "attempts_of (st\<lparr>running := r\<rparr>) = attempts_of st"
  by (simp add: attempts_of_def fun_eq_iff)

lemma dag_inv_running [simp]: "dag_inv nodes seed (st\<lparr>running := r\<rparr>) = dag_inv nodes seed st"
  by (simp add: dag_inv_def inv_done_def inv_closed_def inv_calls_def inv_attempts_def attempt_log_def)

lemma dag_inv_initial: "dag_inv nodes (set (stringArray seed)) (initial_state seed)"
  by (simp add: dag_inv_def inv_done_def inv_closed_def inv_calls_def inv_attempts_def
      attempt_log_def initial_state_def attempts_of_def)

section \<open>Collecting\<close>

definition batch_ok :: "js list \<Rightarrow> dag_state \<Rightarrow> batch \<Rightarrow> bool" where
  "batch_ok nodes st batch \<longleftrightarrow> (\<forall>(i, n, a, l) \<in> set batch.
     getNode nodes i = Some n \<and> a = Suc (attempts_of st i) \<and> l = max_attempts n)"

lemma batch_ok_running [simp]: "batch_ok nodes (st\<lparr>running := r\<rparr>) = batch_ok nodes st"
  by (simp add: batch_ok_def fun_eq_iff)

lemma collect_batch_spec:
  "batch_ok nodes st acc \<Longrightarrow>
   (case collect_batch cb nodes ready w st acc of
      Inr (w', st', batch) \<Rightarrow> (\<exists>r k. st' = st\<lparr>running := r\<rparr> \<and> batch_ok nodes st batch
         \<and> map fst batch = map fst acc @ take k ready)
    | Inl (out, w', st') \<Rightarrow> (\<exists>r. st' = st\<lparr>running := r\<rparr>) \<and> (\<forall>res. out = Returned res \<longrightarrow> \<not> ok res))"
proof (induction cb nodes ready w st acc rule: collect_batch.induct)
  case (1 cb nodes w st acc)
  then show ?case by (auto intro: exI [of _ "running st"])
next
  case (2 cb nodes i ready w st acc)
  have stop: "\<exists>r k. st = st\<lparr>running := r\<rparr> \<and> batch_ok nodes st acc \<and> map fst acc = map fst acc @ take k (i # ready)"
    using 2(2) by (intro exI [of _ "running st"] exI [of _ 0]) simp
  show ?case
  proof (cases "aborted cb w")
    case True
    with stop show ?thesis by simp
  next
    case na: False
    show ?thesis
    proof (cases "getNode nodes i")
      case None
      with na show ?thesis by (auto simp: not_ok_def intro: exI [of _ "running st"])
    next
      case (Some n)
      let ?go = "case onBeforeNode cb of None \<Rightarrow> (w, Inr JUndef) | Some f \<Rightarrow> f w i (Suc (attempts_of st i)) (max_attempts n)"
      obtain w' answer where go: "?go = (w', answer)" by force
      show ?thesis
      proof (cases "answer")
        case (Inl e)
        with na Some go show ?thesis by (auto simp: Let_def intro: exI [of _ "running st"])
      next
        case (Inr v)
        show ?thesis
        proof (cases "strict_eq v (JBool False)")
          case True
          with na Some go Inr show ?thesis by (auto simp: Let_def not_ok_def intro: exI [of _ "running st"])
        next
          case False
          let ?st = "st\<lparr>running := set_add i (running st)\<rparr>"
          let ?acc = "acc @ [(i, n, Suc (attempts_of st i), max_attempts n)]"
          have eq: "collect_batch cb nodes (i # ready) w st acc = collect_batch cb nodes ready w' ?st ?acc"
            using na Some go Inr False by (simp add: Let_def)
          have "batch_ok nodes ?st ?acc" using 2(2) Some by (simp add: batch_ok_def)
          from 2(1) [OF na Some refl refl go [symmetric] refl Inr False this]
          show ?thesis unfolding eq
            by (auto split: sum.splits prod.splits) (metis take_Suc_Cons)+
        qed
      qed
    qed
  qed
qed

section \<open>Launching\<close>

text \<open>What makes a node fit to be handed to the executor.\<close>

definition launchable :: "js list \<Rightarrow> dag_state \<Rightarrow> string \<Rightarrow> bool" where
  "launchable nodes st i \<longleftrightarrow> (\<exists>n \<in> set nodes. nodeId n = i \<and> set (nodeDeps n) \<subseteq> set (completed st))
     \<and> i \<notin> set (completed st)"

definition log_call :: "string \<Rightarrow> nat \<Rightarrow> dag_state \<Rightarrow> dag_state" where
  "log_call i a st = st\<lparr>attempts := AList.update i a (attempts st), calls := calls st @ [(i, a, completed st)]\<rparr>"

lemma log_call_fields [simp]:
  "completed (log_call i a st) = completed st" "results (log_call i a st) = results st"
  "running (log_call i a st) = running st"
  "attempts_of (log_call i a st) j = (if j = i then a else attempts_of st j)"
  by (simp_all add: log_call_def attempts_of_def update_conv)

lemma log_call_inv:
  assumes "dag_inv nodes seed st" "launchable nodes st i"
  shows "dag_inv nodes seed (log_call i (Suc (attempts_of st i)) st)"
proof -
  let ?st = "log_call i (Suc (attempts_of st i)) st"
  from assms(1) have inv: "inv_done seed st" "inv_closed nodes seed st" "inv_calls nodes st" "inv_attempts st"
    by (simp_all add: dag_inv_def)
  have log: "attempt_log ?st j = attempt_log st j @ (if j = i then [Suc (attempts_of st i)] else [])" for j
    by (simp add: attempt_log_def log_call_def)
  have "inv_attempts ?st" using inv(4) by (simp add: inv_attempts_def log)
  moreover have "inv_calls nodes ?st"
    using inv(3) assms(2) by (auto simp: inv_calls_def log_call_def launchable_def)
  ultimately show ?thesis using inv(1,2) by (simp add: dag_inv_def inv_done_def inv_closed_def)
qed

definition flight_ok :: "js list \<Rightarrow> dag_state \<Rightarrow> settled \<Rightarrow> bool" where
  "flight_ok nodes st fl \<longleftrightarrow> (\<forall>(i, v, a, l) \<in> set fl. \<exists>n. getNode nodes i = Some n
     \<and> l = max_attempts n \<and> a = attempts_of st i)"

lemma batch_ok_log: "batch_ok nodes st batch \<Longrightarrow> i \<notin> fst ` set batch \<Longrightarrow> batch_ok nodes (log_call i a st) batch"
  unfolding batch_ok_def by (intro ballI) (use image_eqI [of i fst] in \<open>fastforce split: prod.splits\<close>)

lemma flight_ok_log: "flight_ok nodes st fl \<Longrightarrow> i \<notin> fst ` set fl \<Longrightarrow> flight_ok nodes (log_call i a st) fl"
  unfolding flight_ok_def by (intro ballI) (use image_eqI [of i fst] in \<open>fastforce split: prod.splits\<close>)

lemma launch_batch_spec:
  assumes "dag_inv nodes seed st" "batch_ok nodes st batch" "distinct (map fst acc @ map fst batch)"
    "\<forall>i \<in> fst ` set batch. launchable nodes st i" "flight_ok nodes st acc"
    "launch_batch cb batch w st acc = (w2, st2, fl)"
  shows "dag_inv nodes seed st2 \<and> completed st2 = completed st \<and> results st2 = results st
    \<and> running st2 = running st \<and> flight_ok nodes st2 fl
    \<and> (\<exists>k. map fst fl = map fst acc @ take k (map fst batch)
         \<and> (\<forall>i. attempts_of st2 i = attempts_of st i + (if i \<in> set (take k (map fst batch)) then 1 else 0)))"
  using assms
proof (induction cb batch w st acc rule: launch_batch.induct)
  case (1 cb w st acc)
  then show ?case by auto
next
  case (2 cb i n attempt limit batch w st acc)
  show ?case
  proof (cases "aborted cb w \<or> shouldStop cb w")
    case True
    with 2 show ?thesis by (auto intro: exI [of _ 0])
  next
    case False
    from 2(3) have a: "attempt = Suc (attempts_of st i)" and l: "limit = max_attempts n"
      and g: "getNode nodes i = Some n" by (auto simp: batch_ok_def)
    obtain w' res where ex: "executor cb w n attempt limit = (w', res)" by force
    let ?v = "case res of Inl e \<Rightarrow> executorExceptionResult e | Inr v \<Rightarrow> recordValue v"
    let ?st = "log_call i attempt st"
    from 2(7) False ex have eq: "launch_batch cb batch w' ?st (acc @ [(i, ?v, attempt, limit)]) = (w2, st2, fl)"
      by (simp add: log_call_def)
    have inv: "dag_inv nodes seed ?st" using log_call_inv 2(2,5) a by simp
    have notin: "i \<notin> fst ` set batch" "i \<notin> fst ` set acc" using 2(4) by auto
    have bo: "batch_ok nodes ?st batch" by (rule batch_ok_log [OF _ notin(1)]) (use 2(3) in \<open>simp add: batch_ok_def\<close>)
    have fo: "flight_ok nodes ?st (acc @ [(i, ?v, attempt, limit)])"
      using flight_ok_log [OF 2(6) notin(2)] g l by (simp add: flight_ok_def)
    have la: "\<forall>j \<in> fst ` set batch. launchable nodes ?st j" using 2(5) by (simp add: launchable_def)
    have di: "distinct (map fst (acc @ [(i, ?v, attempt, limit)]) @ map fst batch)" using 2(4) by simp
    from 2(1) [OF False refl ex [symmetric] refl inv [unfolded log_call_def] bo [unfolded log_call_def] di
        la [unfolded log_call_def] fo [unfolded log_call_def] eq [unfolded log_call_def]]
    obtain k where k: "dag_inv nodes seed st2" "completed st2 = completed ?st" "results st2 = results ?st"
      "running st2 = running ?st" "flight_ok nodes st2 fl"
      "map fst fl = map fst (acc @ [(i, ?v, attempt, limit)]) @ take k (map fst batch)"
      "\<forall>j. attempts_of st2 j = attempts_of ?st j + (if j \<in> set (take k (map fst batch)) then 1 else 0)"
      unfolding log_call_def by blast
    have "i \<notin> set (take k (map fst batch))" using notin(1) by (auto dest: in_set_takeD)
    with k a show ?thesis by (intro conjI exI [of _ "Suc k"]) auto
  qed
qed

section \<open>Absorbing the results\<close>

definition record_result :: "string \<Rightarrow> js \<Rightarrow> dag_state \<Rightarrow> dag_state" where
  "record_result i v st = st\<lparr>results := AList.update i v (results st)\<rparr>"

lemma record_result_fields [simp]:
  "completed (record_result i v st) = completed st" "running (record_result i v st) = running st"
  "calls (record_result i v st) = calls st" "attempts_of (record_result i v st) = attempts_of st"
  "map_of (results (record_result i v st)) j = (if j = i then Some v else map_of (results st) j)"
  by (simp_all add: record_result_def attempts_of_def update_conv fun_eq_iff)

lemma record_result_inv:
  "dag_inv nodes seed st \<Longrightarrow> i \<notin> set (completed st) \<Longrightarrow> dag_inv nodes seed (record_result i v st)"
  by (auto simp: dag_inv_def inv_done_def inv_closed_def inv_calls_def inv_attempts_def attempt_log_def)

definition mark_done :: "string \<Rightarrow> dag_state \<Rightarrow> dag_state" where
  "mark_done i st = st\<lparr>completed := set_add i (completed st)\<rparr>"

lemma mark_done_fields [simp]:
  "set (completed (mark_done i st)) = insert i (set (completed st))" "running (mark_done i st) = running st"
  "calls (mark_done i st) = calls st" "attempts_of (mark_done i st) = attempts_of st"
  "results (mark_done i st) = results st"
  by (simp_all add: mark_done_def attempts_of_def fun_eq_iff)

lemma mark_done_inv:
  assumes "dag_inv nodes seed st" "distinct (map nodeId nodes)"
    "\<exists>n \<in> set nodes. nodeId n = i \<and> set (nodeDeps n) \<subseteq> set (completed st)"
    "map_of (results st) i = Some v" "truthy (fld v ''ok'')"
  shows "dag_inv nodes seed (mark_done i st)"
proof -
  from assms(1) have inv: "inv_done seed st" "inv_closed nodes seed st" "inv_calls nodes st" "inv_attempts st"
    by (simp_all add: dag_inv_def)
  have "inv_done seed (mark_done i st)" using inv(1) assms(4,5) by (auto simp: inv_done_def)
  moreover have "inv_closed nodes seed (mark_done i st)"
    unfolding inv_closed_def
  proof (intro ballI impI)
    fix m assume m: "m \<in> set nodes" "nodeId m \<in> set (completed (mark_done i st))"
    show "nodeId m \<in> seed \<or> set (nodeDeps m) \<subseteq> set (completed (mark_done i st))"
    proof (cases "nodeId m = i")
      case True
      with assms(2,3) m(1) have "set (nodeDeps m) \<subseteq> set (completed st)"
        by (auto simp: distinct_map dest: inj_onD)
      then show ?thesis by auto
    next
      case False
      with m inv(2) show ?thesis by (auto simp: inv_closed_def)
    qed
  qed
  ultimately show ?thesis using inv(3,4)
    by (simp add: dag_inv_def inv_calls_def inv_attempts_def attempt_log_def)
qed

lemma launchable_record [simp]: "launchable nodes (record_result i v st) = launchable nodes st"
  by (simp add: launchable_def fun_eq_iff)

lemma launchable_mark: "launchable nodes st j \<Longrightarrow> j \<noteq> i \<Longrightarrow> launchable nodes (mark_done i st) j"
  by (auto simp: launchable_def)

text \<open>The states on both sides of an absorbed batch: only results and completions are added.\<close>

definition absorbed :: "js list \<Rightarrow> string set \<Rightarrow> dag_state \<Rightarrow> dag_state \<Rightarrow> bool" where
  "absorbed nodes seed st st' \<longleftrightarrow> dag_inv nodes seed st' \<and> running st' = running st \<and> calls st' = calls st
     \<and> attempts_of st' = attempts_of st \<and> set (completed st) \<subseteq> set (completed st')"

lemma absorb_results_inv:
  assumes "dag_inv nodes seed st" "distinct (map nodeId nodes)" "distinct (map fst fl)"
    "\<forall>i \<in> fst ` set fl. launchable nodes st i"
  shows "case absorb_results cb fl w st fatal react of
      Inl (out, w', st') \<Rightarrow> absorbed nodes seed st st' \<and> (\<forall>res. out \<noteq> Returned res)
    | Inr (w', st', fatal', react') \<Rightarrow> absorbed nodes seed st st'"
  using assms
proof (induction cb fl w st fatal react rule: absorb_results.induct)
  case (1 cb w st fatal react)
  then show ?case by (simp add: absorbed_def)
next
  case (2 cb i v a l rest w st fatal react)
  let ?st1 = "record_result i v st"
  obtain w' err where cbk: "(case onNodeResult cb of None \<Rightarrow> (w, None) | Some f \<Rightarrow> f w i v a) = (w', err)" by force
  from 2(9) have li: "launchable nodes st i" and lr: "\<forall>j \<in> fst ` set rest. launchable nodes ?st1 j" by auto
  from li have nd: "i \<notin> set (completed st)" by (simp add: launchable_def)
  have inv1: "dag_inv nodes seed ?st1" by (rule record_result_inv [OF 2(6) nd])
  from 2(8) have dr: "distinct (map fst rest)" and ni: "i \<notin> fst ` set rest" by auto
  have tr: "absorbed nodes seed ?st1 st' \<Longrightarrow> absorbed nodes seed st st'" for st'
    by (simp add: absorbed_def)
  have plain: ?case if "absorb_results cb ((i, v, a, l) # rest) w st fatal react = absorb_results cb rest w' ?st1 f r"
      "case absorb_results cb rest w' ?st1 f r of Inl (out, w', st') \<Rightarrow> absorbed nodes seed ?st1 st' \<and> (\<forall>res. out \<noteq> Returned res)
       | Inr (w', st', fatal', react') \<Rightarrow> absorbed nodes seed ?st1 st'" for f r
    using that(2) unfolding that(1) by (auto split: sum.splits prod.splits dest: tr)
  show ?case
  proof (cases err)
    case (Some e)
    with cbk inv1 show ?thesis by (simp add: record_result_def [symmetric] absorbed_def)
  next
    case None
    note st1 = record_result_def [symmetric]
    note IH = 2(1-5) [OF refl cbk [symmetric] refl None, unfolded st1]
    show ?thesis
    proof (cases "fatal \<noteq> None")
      case True
      show ?thesis by (rule plain [OF _ IH(1) [OF True inv1 2(7) dr lr]])
          (use cbk None True in \<open>simp add: st1\<close>)
    next
      case nf: False
      show ?thesis
      proof (cases "truthy (fld v ''ok'')")
        case True
        have inv2: "dag_inv nodes seed (mark_done i ?st1)"
          by (rule mark_done_inv [OF inv1 2(7) _ _ True]) (use li in \<open>auto simp: launchable_def\<close>)
        have lr2: "\<forall>j \<in> fst ` set rest. launchable nodes (mark_done i ?st1) j"
          using lr ni by (auto intro!: launchable_mark)
        have eq: "absorb_results cb ((i, v, a, l) # rest) w st fatal react
            = absorb_results cb rest w' (mark_done i ?st1) fatal react"
          using cbk None nf True by (simp add: st1 mark_done_def)
        have "absorbed nodes seed (mark_done i ?st1) st' \<Longrightarrow> absorbed nodes seed st st'" for st'
          by (auto simp: absorbed_def)
        with IH(2) [OF nf True, unfolded mark_done_def [symmetric], OF inv2 2(7) dr lr2] show ?thesis
          unfolding eq by (auto split: sum.splits prod.splits)
      next
        case nok: False
        show ?thesis
        proof (cases "truthy (fld v ''reactivate'')")
          case True
          show ?thesis by (rule plain [OF _ IH(3) [OF nf nok True inv1 2(7) dr lr]])
              (use cbk None nf nok True in \<open>simp add: st1\<close>)
        next
          case nr: False
          show ?thesis
          proof (cases "truthy (fld v ''retryable'') \<and> num_lt (Fin (of_nat a)) l")
            case True
            show ?thesis by (rule plain [OF _ IH(4) [OF nf nok nr True inv1 2(7) dr lr]])
                (use cbk None nf nok nr True in \<open>simp add: st1\<close>)
          next
            case False
            show ?thesis by (rule plain [OF _ IH(5) [OF nf nok nr False inv1 2(7) dr lr]])
                (use cbk None nf nok nr False in \<open>auto simp: st1\<close>)
          qed
        qed
      qed
    qed
  qed
qed

end
