(* ===== verification/DagRun.thy ===== *)
theory DagRun
  imports DagInvariant
begin

text \<open>
  The whole run of \<^verbatim>\<open>executeDag\<close>: rounds preserve the invariant of \<open>DagInvariant\<close>, so the run
  does; a run without reactivation makes at most \<open>attempt_cap\<close> attempts per node, and therefore
  ends; a run in which every node succeeds returns \<open>ok\<close>.
\<close>

section \<open>A round preserves the invariant\<close>

lemma clear_inv:
  assumes "[] \<notin> node_ids nodes" "dag_inv nodes seed st"
  shows "dag_inv nodes seed (clearNodeAndDownstream nodes t st)"
    "calls (clearNodeAndDownstream nodes t st) = calls st"
    "attempts_of (clearNodeAndDownstream nodes t st) = attempts_of st"
    "running (clearNodeAndDownstream nodes t st) = running st"
proof -
  let ?st = "clearNodeAndDownstream nodes t st" and ?gone = "if t = [] then {} else downstream nodes t"
  note cs = clear_spec [OF assms(1), of t st]
  from assms(2) have inv: "inv_done seed st" "inv_closed nodes seed st" "inv_calls nodes st" "inv_attempts st"
    by (simp_all add: dag_inv_def)
  show at: "attempts_of ?st = attempts_of st" by (simp add: attempts_of_def fun_eq_iff cs(3))
  show "calls ?st = calls st" "running ?st = running st" by (simp_all add: cs)
  have "inv_done seed ?st" using inv(1) by (auto simp: inv_done_def cs(1,2))
  moreover have "inv_closed nodes seed ?st"
    unfolding inv_closed_def
  proof (intro ballI impI)
    fix n assume n: "n \<in> set nodes" "nodeId n \<in> set (completed ?st)"
    from n(2) have old: "nodeId n \<in> set (completed st)" "nodeId n \<notin> ?gone" unfolding cs(1) by auto
    have "d \<notin> ?gone" if "d \<in> set (nodeDeps n)" for d
    proof
      assume "d \<in> ?gone"
      then have "t \<noteq> []" "(t, d) \<in> (dep_edges nodes)\<^sup>*" by (auto simp: downstream_def split: if_splits)
      moreover have "(d, nodeId n) \<in> dep_edges nodes" using n(1) that by (auto simp: dep_edges_def)
      ultimately have "nodeId n \<in> ?gone" by (auto simp: downstream_def intro: rtrancl_into_rtrancl)
      with old(2) show False by simp
    qed
    moreover have "nodeId n \<in> seed \<or> set (nodeDeps n) \<subseteq> set (completed st)"
      using inv(2) n(1) old(1) by (simp add: inv_closed_def)
    ultimately show "nodeId n \<in> seed \<or> set (nodeDeps n) \<subseteq> set (completed ?st)" unfolding cs(1) by auto
  qed
  ultimately show "dag_inv nodes seed ?st" using inv(3,4) at
    by (simp add: dag_inv_def inv_calls_def inv_attempts_def attempt_log_def cs(5))
qed

lemma finish_round_inv:
  assumes "[] \<notin> node_ids nodes" "dag_inv nodes seed st"
  shows "dag_inv nodes seed (finish_round fl nodes react st) \<and> calls (finish_round fl nodes react st) = calls st
    \<and> attempts_of (finish_round fl nodes react st) = attempts_of st"
proof -
  have "dag_inv nodes seed (fold (clearNodeAndDownstream nodes) react st)
      \<and> calls (fold (clearNodeAndDownstream nodes) react st) = calls st
      \<and> attempts_of (fold (clearNodeAndDownstream nodes) react st) = attempts_of st"
    using assms(2) by (induction react arbitrary: st) (simp_all add: clear_inv [OF assms(1)])
  then show ?thesis by (simp add: finish_round_def Let_def)
qed

text \<open>The first two stages of a round, together.\<close>

definition well_identified :: "js list \<Rightarrow> bool" where
  "well_identified nodes \<longleftrightarrow> distinct (map nodeId nodes) \<and> [] \<notin> node_ids nodes"

lemma round_start:
  assumes "well_identified nodes" "dag_inv nodes seed st"
    "set ready \<subseteq> set (readyNodes nodes (completed st) (running st))" "distinct ready"
    "collect_batch cb nodes ready w st [] = Inr (w1, st1, batch)"
    "launch_batch cb batch w1 st1 [] = (w2, st2, fl)"
  shows "dag_inv nodes seed st2" "completed st2 = completed st" "results st2 = results st"
    "flight_ok nodes st2 fl" "distinct (map fst fl)" "set (map fst fl) \<subseteq> set ready"
    "\<forall>i \<in> fst ` set fl. launchable nodes st2 i"
    "attempts_of st2 i = attempts_of st i + (if i \<in> set (map fst fl) then 1 else 0)"
proof -
  from collect_batch_spec [where nodes = nodes and st = st and acc = "[]" and cb = cb and ready = ready and w = w] assms(5)
  obtain r k where c: "st1 = st\<lparr>running := r\<rparr>" "batch_ok nodes st batch" "map fst batch = take k ready"
    by (auto simp: batch_ok_def)
  have lau: "launchable nodes st j" if "j \<in> set ready" for j
    using that assms(3) by (auto simp: launchable_def readyNodes_iff dest!: subsetD)
  have b1: "dag_inv nodes seed st1" "batch_ok nodes st1 batch" using assms(2) c by simp_all
  have b2: "distinct (map fst [] @ map fst batch)" using assms(4) by (simp add: c(3))
  have "launchable nodes st1 = launchable nodes st" by (simp add: c(1) launchable_def fun_eq_iff)
  moreover have "fst ` set batch \<subseteq> set ready" by (metis c(3) set_map set_take_subset)
  ultimately have b3: "\<forall>j \<in> fst ` set batch. launchable nodes st1 j" using lau by auto
  have b4: "flight_ok nodes st1 []" by (simp add: flight_ok_def)
  from launch_batch_spec [OF b1 b2 b3 b4 assms(6)] obtain m where
    l: "dag_inv nodes seed st2" "completed st2 = completed st1" "results st2 = results st1"
      "running st2 = running st1" "flight_ok nodes st2 fl" "map fst fl = take m (map fst batch)"
      "\<And>i. attempts_of st2 i = attempts_of st1 i + (if i \<in> set (take m (map fst batch)) then 1 else 0)" by auto
  show "dag_inv nodes seed st2" "flight_ok nodes st2 fl" by (fact l)+
  show comp: "completed st2 = completed st" "results st2 = results st" by (simp_all add: l c)
  have fl: "map fst fl = take (min m k) ready" by (simp add: l(6) c(3))
  show "distinct (map fst fl)" using assms(4) by (simp add: fl)
  show sub: "set (map fst fl) \<subseteq> set ready" unfolding fl by (rule set_take_subset)
  have "launchable nodes st2 = launchable nodes st" by (simp add: comp launchable_def fun_eq_iff)
  with lau sub show "\<forall>i \<in> fst ` set fl. launchable nodes st2 i" by auto
  show "attempts_of st2 i = attempts_of st i + (if i \<in> set (map fst fl) then 1 else 0)"
    unfolding l(6,7) c(1) by simp
qed

lemma dag_round_inv:
  assumes "well_identified nodes" "dag_inv nodes seed st"
    "set ready \<subseteq> set (readyNodes nodes (completed st) (running st))" "distinct ready"
  shows "case dag_round cb nodes ready w st of
      Inl (out, w', st') \<Rightarrow> dag_inv nodes seed st' \<and> (\<forall>res. out = Returned res \<longrightarrow> \<not> ok res)
    | Inr (w', st') \<Rightarrow> dag_inv nodes seed st'"
proof (cases "collect_batch cb nodes ready w st []")
  case (Inl stopped)
  obtain out w' st' where s: "stopped = (out, w', st')" by (cases stopped) auto
  from collect_batch_spec [where nodes = nodes and st = st and acc = "[]" and cb = cb and ready = ready and w = w] Inl s assms(2) show ?thesis
    by (auto simp: dag_round_def batch_ok_def)
next
  case (Inr p)
  obtain w1 st1 batch where p: "p = (w1, st1, batch)" by (cases p) auto
  obtain w2 st2 fl where la: "launch_batch cb batch w1 st1 [] = (w2, st2, fl)" by (cases "launch_batch cb batch w1 st1 []") auto
  note rs = round_start [OF assms Inr [unfolded p] la]
  have wi: "distinct (map nodeId nodes)" "[] \<notin> node_ids nodes"
    using assms(1) by (simp_all add: well_identified_def)
  note ab = absorb_results_inv [OF rs(1) wi(1) rs(5,7), of cb "settle cb w2" None "[]"]
  show ?thesis
  proof (cases "fl = []")
    case True
    then show ?thesis using rs(1) by (simp add: dag_round_def Inr p la not_ok_def)
  next
    case False
    show ?thesis
    proof (cases "absorb_results cb fl (settle cb w2) st2 None []")
      case (Inl stopped)
      with ab Inr p la False show ?thesis
        by (cases stopped) (simp add: dag_round_def absorbed_def)
    next
      case abs: (Inr q)
      obtain w3 st3 fatal react where q: "q = (w3, st3, fatal, react)" by (cases q) auto
      from ab abs q have "dag_inv nodes seed st3" by (simp add: absorbed_def)
      from finish_round_inv [OF wi(2) this, of fl react]
      show ?thesis using Inr p la False abs q
        by (auto simp: dag_round_def not_ok_def Let_def split: option.splits)
    qed
  qed
qed

lemma dag_loop_inv:
  assumes "well_identified nodes"
  shows "dag_inv nodes seed st \<Longrightarrow> dag_loop fuel cb nodes limit w st = Some (out, w', st') \<Longrightarrow>
    dag_inv nodes seed st' \<and> (\<forall>res. out = Returned res \<longrightarrow> ok res \<longrightarrow> isDagComplete nodes (completed st'))"
proof (induction fuel arbitrary: w st)
  case 0
  then show ?case by simp
next
  case (Suc fuel)
  let ?ready = "scheduleReadyNodes nodes (completed st) (running st) limit (dag_opts cb)"
  consider (complete) "isDagComplete nodes (completed st)"
    | (aborted) "\<not> isDagComplete nodes (completed st)" "aborted cb w"
    | (stop) "\<not> isDagComplete nodes (completed st)" "\<not> aborted cb w" "shouldStop cb w"
    | (stuck) "\<not> isDagComplete nodes (completed st)" "\<not> aborted cb w" "\<not> shouldStop cb w" "?ready = []"
    | (run) "\<not> isDagComplete nodes (completed st)" "\<not> aborted cb w" "\<not> shouldStop cb w" "?ready \<noteq> []" by blast
  then show ?case
  proof cases
    case run
    have r: "set ?ready \<subseteq> set (readyNodes nodes (completed st) (running st))" "distinct ?ready"
      using assms by (simp_all add: ready_sched.sched_ready ready_sched.sched_distinct well_identified_def)
    note inv = dag_round_inv [OF assms Suc.prems(1) r, of cb w]
    show ?thesis
    proof (cases "dag_round cb nodes ?ready w st")
      case (Inl stopped)
      with run Suc.prems(2) have "stopped = (out, w', st')" by simp
      with Inl inv show ?thesis by auto
    next
      case (Inr p)
      obtain w1 st1 where "p = (w1, st1)" by force
      with Inr inv run Suc.prems(2) Suc.IH [of st1 w1] show ?thesis by simp
    qed
  qed (use Suc.prems in \<open>auto simp: not_ok_def\<close>)
qed

section \<open>Runs without reactivation end\<close>

definition attempt_cap :: "js \<Rightarrow> nat" where
  "attempt_cap n = (case max_attempts n of Fin x \<Rightarrow> max 1 (nat \<lceil>x\<rceil>) | _ \<Rightarrow> 1)"

lemma attempt_cap_limit:
  "max_attempts n \<noteq> PosInf \<Longrightarrow> num_lt (Fin (of_nat a)) (max_attempts n) \<Longrightarrow> a < attempt_cap n"
  by (cases "max_attempts n") (auto simp: attempt_cap_def less_max_iff_disj, linarith)

lemma attempt_cap_pos [simp]: "0 < attempt_cap n"
  by (auto simp: attempt_cap_def split: jsnum.splits)

definition no_reactivation :: "'w callbacks \<Rightarrow> bool" where
  "no_reactivation cb \<longleftrightarrow> (\<forall>w n a l v. snd (executor cb w n a l) = Inr v \<longrightarrow> \<not> truthy (fld v ''reactivate''))"

lemma executorException_fields [simp]:
  "fld (executorExceptionResult e) ''ok'' = JBool False"
  "fld (executorExceptionResult e) ''reactivate'' = JUndef"
  "fld (executorExceptionResult e) ''retryable'' = JUndef"
  by (simp_all add: executorExceptionResult_def Let_def)

lemma launch_batch_values:
  assumes "\<And>w n a l res. snd (executor cb w n a l) = res \<Longrightarrow>
      P (case res of Inl e \<Rightarrow> executorExceptionResult e | Inr v \<Rightarrow> recordValue v)"
  shows "launch_batch cb batch w st acc = (w2, st2, fl) \<Longrightarrow> \<forall>e \<in> set acc. P (fst (snd e)) \<Longrightarrow>
    \<forall>e \<in> set fl. P (fst (snd e))"
proof (induction batch arbitrary: w st acc)
  case Nil
  then show ?case by simp
next
  case (Cons b batch)
  obtain i n a l where b: "b = (i, n, a, l)" by (cases b) auto
  show ?case
  proof (cases "aborted cb w \<or> shouldStop cb w")
    case True
    with Cons.prems b show ?thesis by auto
  next
    case False
    obtain w' res where ex: "executor cb w n a l = (w', res)" by force
    then have "P (case res of Inl e \<Rightarrow> executorExceptionResult e | Inr v \<Rightarrow> recordValue v)"
      using assms [of w n a l res] by simp
    with Cons.prems b False ex show ?thesis
      by (intro Cons.IH [of w'
        "st\<lparr>attempts := AList.update i a (attempts st), calls := calls st @ [(i, a, completed st)]\<rparr>"
        "acc @ [(i, (case res of Inl e \<Rightarrow> executorExceptionResult e | Inr v \<Rightarrow> recordValue v), a, l)]"]) auto
  qed
qed

lemma absorb_results_quiet:
  assumes "\<forall>e \<in> set fl. \<not> truthy (fld (fst (snd e)) ''reactivate'')"
    "absorb_results cb fl w st fatal react = Inr (w', st', fatal', react')"
  shows "react' = react \<and> set (completed st) \<subseteq> set (completed st') \<and> running st' = running st
    \<and> (fatal' = None \<longrightarrow> fatal = None \<and>
        (\<forall>(i, v, a, l) \<in> set fl. i \<in> set (completed st') \<or> num_lt (Fin (of_nat a)) l))"
  using assms
proof (induction fl arbitrary: w st fatal)
  case Nil
  then show ?case by simp
next
  case (Cons e fl)
  obtain i v a l where e: "e = (i, v, a, l)" by (cases e) auto
  from Cons.prems e have nr: "\<not> truthy (fld v ''reactivate'')"
    and q: "\<forall>e \<in> set fl. \<not> truthy (fld (fst (snd e)) ''reactivate'')" by auto
  obtain w1 err where cbk: "(case onNodeResult cb of None \<Rightarrow> (w, None) | Some f \<Rightarrow> f w i v a) = (w1, err)" by force
  have err: "err = None" using Cons.prems(2) e cbk by (cases err) (simp_all add: Let_def)
  let ?st = "st\<lparr>results := AList.update i v (results st)\<rparr>"
  note IH = Cons.IH [OF q]
  consider (fatal) "fatal \<noteq> None" | (ok) "fatal = None" "truthy (fld v ''ok'')"
    | (retry) "fatal = None" "\<not> truthy (fld v ''ok'')" "truthy (fld v ''retryable'')" "num_lt (Fin (of_nat a)) l"
    | (give_up) "fatal = None" "\<not> truthy (fld v ''ok'')" "\<not> (truthy (fld v ''retryable'') \<and> num_lt (Fin (of_nat a)) l)" by blast
  then show ?case
  proof cases
    case fatal
    with Cons.prems(2) e cbk err IH [of w1 ?st fatal] show ?thesis by (auto simp add: Let_def)
  next
    case ok
    with Cons.prems(2) e cbk err IH [of w1 "?st\<lparr>completed := set_add i (completed ?st)\<rparr>" fatal]
    show ?thesis by (simp add: Let_def)
  next
    case retry
    with Cons.prems(2) e cbk err nr IH [of w1 ?st fatal] show ?thesis by (simp add: Let_def)
  next
    case give_up
    with Cons.prems(2) e cbk err nr IH [of w1 ?st "Some (i, v)"] show ?thesis by (auto simp add: Let_def)
  qed
qed

text \<open>Attempts stay within the caps, and only completed nodes may have used theirs up.\<close>

definition within_caps :: "js list \<Rightarrow> dag_state \<Rightarrow> bool" where
  "within_caps nodes st \<longleftrightarrow> (\<forall>n \<in> set nodes. attempts_of st (nodeId n) \<le> attempt_cap n)"

definition room_left :: "js list \<Rightarrow> dag_state \<Rightarrow> bool" where
  "room_left nodes st \<longleftrightarrow> (\<forall>n \<in> set nodes.
     nodeId n \<in> set (completed st) \<or> attempts_of st (nodeId n) < attempt_cap n)"

definition total_attempts :: "js list \<Rightarrow> dag_state \<Rightarrow> nat" where
  "total_attempts nodes st = sum_list (map (\<lambda>n. attempts_of st (nodeId n)) nodes)"

definition total_cap :: "js list \<Rightarrow> nat" where
  "total_cap nodes = sum_list (map attempt_cap nodes)"

lemma within_caps_total: "within_caps nodes st \<Longrightarrow> total_attempts nodes st \<le> total_cap nodes"
  unfolding within_caps_def total_attempts_def total_cap_def by (rule sum_list_mono) simp

lemma total_attempts_grows:
  assumes "\<And>j. attempts_of st j \<le> attempts_of st' j" "n \<in> set nodes"
    "attempts_of st (nodeId n) < attempts_of st' (nodeId n)"
  shows "total_attempts nodes st < total_attempts nodes st'"
proof -
  from assms(2) obtain xs ys where "nodes = xs @ n # ys" by (auto dest: split_list)
  moreover have "sum_list (map (\<lambda>n. attempts_of st (nodeId n)) zs) \<le> sum_list (map (\<lambda>n. attempts_of st' (nodeId n)) zs)"
    for zs by (rule sum_list_mono) (rule assms(1))
  from this [of xs] this [of ys] assms(3) have "sum_list (map (\<lambda>n. attempts_of st (nodeId n)) (xs @ n # ys))
      < sum_list (map (\<lambda>n. attempts_of st' (nodeId n)) (xs @ n # ys))" by simp
  ultimately show ?thesis by (simp add: total_attempts_def)
qed

lemma not_in_flight: "i \<notin> fst ` set fl \<Longrightarrow> (i, v, a, l) \<notin> set fl"
  using image_eqI [of i fst "(i, v, a, l)" "set fl"] by auto

lemma dag_round_progress:
  assumes "well_identified nodes" "dag_inv nodes seed st" "no_reactivation cb"
    "\<forall>n \<in> set nodes. max_attempts n \<noteq> PosInf" "within_caps nodes st" "room_left nodes st"
    "set ready \<subseteq> set (readyNodes nodes (completed st) (running st))" "distinct ready"
  shows "case dag_round cb nodes ready w st of
      Inl (out, w', st') \<Rightarrow> within_caps nodes st'
    | Inr (w', st') \<Rightarrow> within_caps nodes st' \<and> room_left nodes st' \<and> total_attempts nodes st < total_attempts nodes st'"
proof (cases "collect_batch cb nodes ready w st []")
  case (Inl stopped)
  obtain out w' st' where s: "stopped = (out, w', st')" by (cases stopped) auto
  from collect_batch_spec [where nodes = nodes and st = st and acc = "[]" and cb = cb and ready = ready and w = w]
    Inl s assms(5) show ?thesis
    by (auto simp: dag_round_def batch_ok_def within_caps_def)
next
  case (Inr p)
  obtain w1 st1 batch where p: "p = (w1, st1, batch)" by (cases p) auto
  obtain w2 st2 fl where la: "launch_batch cb batch w1 st1 [] = (w2, st2, fl)" by (cases "launch_batch cb batch w1 st1 []") auto
  note rs = round_start [OF assms(1,2,7,8) Inr [unfolded p] la]
  have wi: "distinct (map nodeId nodes)" "[] \<notin> node_ids nodes"
    using assms(1) by (simp_all add: well_identified_def)
  have uniq_node: "n = m" if "n \<in> set nodes" "m \<in> set nodes" "nodeId n = nodeId m" for n m
    using wi(1) that by (auto simp: distinct_map dest: inj_onD)
  have caps2: "within_caps nodes st2"
    unfolding within_caps_def
  proof
    fix n assume n: "n \<in> set nodes"
    show "attempts_of st2 (nodeId n) \<le> attempt_cap n"
    proof (cases "nodeId n \<in> set (map fst fl)")
      case True
      with rs(7) have "nodeId n \<notin> set (completed st)" by (auto simp: launchable_def rs(2))
      with assms(6) n have "attempts_of st (nodeId n) < attempt_cap n" by (auto simp: room_left_def)
      with True show ?thesis by (simp add: rs(8))
    next
      case False
      with assms(5) n show ?thesis by (simp add: rs(8) within_caps_def del: set_map)
    qed
  qed
  note ab = absorb_results_inv [OF rs(1) wi(1) rs(5,7), of cb "settle cb w2" None "[]"]
  have vals: "\<forall>e \<in> set fl. \<not> truthy (fld (fst (snd e)) ''reactivate'')"
    by (rule launch_batch_values [OF _ la])
       (use assms(3) in \<open>auto simp: no_reactivation_def split: sum.splits\<close>)
  show ?thesis
  proof (cases "fl = []")
    case True
    then show ?thesis using caps2 by (simp add: dag_round_def Inr p la)
  next
    case False
    show ?thesis
    proof (cases "absorb_results cb fl (settle cb w2) st2 None []")
      case (Inl stopped)
      with ab Inr p la False caps2 show ?thesis
        by (cases stopped) (simp add: dag_round_def absorbed_def within_caps_def)
    next
      case abs: (Inr q)
      obtain w3 st3 fatal react where q: "q = (w3, st3, fatal, react)" by (cases q) auto
      from ab abs q have a3: "attempts_of st3 = attempts_of st2" by (simp add: absorbed_def)
      note quiet = absorb_results_quiet [OF vals abs [unfolded q]]
      let ?st4 = "finish_round fl nodes react st3"
      have st4: "completed ?st4 = completed st3" "attempts_of ?st4 = attempts_of st2"
        using quiet a3 by (simp_all add: finish_round_def)
      have caps4: "within_caps nodes ?st4" using caps2 by (simp add: within_caps_def st4)
      have room4: "room_left nodes ?st4" if "fatal = None"
        unfolding room_left_def
      proof
        fix n assume n: "n \<in> set nodes"
        show "nodeId n \<in> set (completed ?st4) \<or> attempts_of ?st4 (nodeId n) < attempt_cap n"
        proof (cases "nodeId n \<in> fst ` set fl")
          case True
          then obtain v a l where e: "(nodeId n, v, a, l) \<in> set fl" by force
          with rs(4) obtain m where m: "getNode nodes (nodeId n) = Some m" "l = max_attempts m"
            "a = attempts_of st2 (nodeId n)" by (auto simp: flight_ok_def)
          from getNode_Some [OF m(1)] n have "m = n" by (intro uniq_node) auto
          with m quiet that e have "nodeId n \<in> set (completed st3) \<or> num_lt (Fin (of_nat a)) (max_attempts n)" by auto
          with m(3) assms(4) n show ?thesis by (auto simp: st4 intro: attempt_cap_limit)
        next
          case False
          have "set (completed st) \<subseteq> set (completed st3)" using quiet by (simp add: rs(2))
          with False assms(6) n show ?thesis by (auto simp: st4 rs(8) room_left_def)
        qed
      qed
      have grows: "total_attempts nodes st < total_attempts nodes ?st4"
      proof -
        from False obtain e where "e \<in> set fl" by (cases fl) auto
        then have i: "fst e \<in> fst ` set fl" by simp
        with rs(7) obtain n where n: "n \<in> set nodes" "nodeId n = fst e" by (auto simp: launchable_def)
        with i show ?thesis by (intro total_attempts_grows [OF _ n(1)]) (simp_all add: st4 rs(8))
      qed
      show ?thesis using Inr p la False abs q caps4 room4 grows
        by (auto simp: dag_round_def Let_def split: option.splits)
    qed
  qed
qed

lemma dag_loop_terminates:
  assumes "well_identified nodes" "no_reactivation cb" "\<forall>n \<in> set nodes. max_attempts n \<noteq> PosInf"
  shows "dag_inv nodes seed st \<Longrightarrow> within_caps nodes st \<Longrightarrow> room_left nodes st \<Longrightarrow>
    total_cap nodes < fuel + total_attempts nodes st \<Longrightarrow>
    \<exists>out w' st'. dag_loop fuel cb nodes limit w st = Some (out, w', st') \<and> within_caps nodes st'"
proof (induction fuel arbitrary: w st)
  case 0
  with within_caps_total [of nodes st] show ?case by simp
next
  case (Suc fuel)
  let ?ready = "scheduleReadyNodes nodes (completed st) (running st) limit (dag_opts cb)"
  have r: "set ?ready \<subseteq> set (readyNodes nodes (completed st) (running st))" "distinct ?ready"
    using assms(1) by (simp_all add: ready_sched.sched_ready ready_sched.sched_distinct well_identified_def)
  note prog = dag_round_progress [OF assms(1) Suc.prems(1) assms(2,3) Suc.prems(2,3) r, of w]
  note inv = dag_round_inv [OF assms(1) Suc.prems(1) r, of cb w]
  show ?case
  proof (cases "dag_round cb nodes ?ready w st")
    case (Inl stopped)
    with prog Suc.prems(2) show ?thesis by (cases stopped) (auto simp: Let_def)
  next
    case (Inr p)
    obtain w1 st1 where p: "p = (w1, st1)" by force
    with Inr prog inv Suc.prems(4) have "within_caps nodes st1" "room_left nodes st1" "dag_inv nodes seed st1"
      "total_cap nodes < fuel + total_attempts nodes st1" by auto
    from Suc.IH [OF this(3,1,2,4)] show ?thesis using Inr p Suc.prems(2) by (auto simp: Let_def)
  qed
qed

section \<open>Runs in which every node succeeds\<close>

text \<open>Nothing interrupts the run, and every executor result is \<open>ok\<close>.\<close>

definition undisturbed :: "'w callbacks \<Rightarrow> bool" where
  "undisturbed cb \<longleftrightarrow> (\<forall>w. \<not> aborted cb w \<and> \<not> shouldStop cb w)
   \<and> (case onBeforeNode cb of None \<Rightarrow> True
      | Some f \<Rightarrow> \<forall>w i a l. \<exists>v. snd (f w i a l) = Inr v \<and> \<not> strict_eq v (JBool False))
   \<and> (case onNodeResult cb of None \<Rightarrow> True | Some f \<Rightarrow> \<forall>w i v a. snd (f w i v a) = None)
   \<and> (\<forall>w n a l. \<exists>v. snd (executor cb w n a l) = Inr v \<and> truthy (fld v ''ok''))"

definition string_ids :: "js list \<Rightarrow> bool" where
  "string_ids nodes = list_all (\<lambda>n. is_str (fld n ''id'')) nodes"

lemma getNode_string_ids:
  "string_ids nodes \<Longrightarrow> i \<in> node_ids nodes \<Longrightarrow> \<exists>n. getNode nodes i = Some n"
  by (cases "getNode nodes i")
     (auto simp: getNode_None string_ids_def list_all_iff nodeId_def stringValue_def split: js.splits)

lemma collect_undisturbed:
  assumes "undisturbed cb" "string_ids nodes"
  shows "set ready \<subseteq> node_ids nodes \<Longrightarrow> \<exists>w' batch.
    collect_batch cb nodes ready w st acc = Inr (w', st\<lparr>running := fold set_add ready (running st)\<rparr>, batch)
      \<and> map fst batch = map fst acc @ ready"
proof (induction ready arbitrary: w st acc)
  case Nil
  then show ?case by simp
next
  case (Cons i ready)
  from Cons.prems getNode_string_ids [OF assms(2)] obtain n where n: "getNode nodes i = Some n" by auto
  obtain w' answer where go: "(case onBeforeNode cb of None \<Rightarrow> (w, Inr JUndef)
      | Some f \<Rightarrow> f w i (Suc (attempts_of st i)) (max_attempts n)) = (w', answer)" by force
  have "\<exists>v. answer = Inr v \<and> \<not> strict_eq v (JBool False)"
  proof (cases "onBeforeNode cb")
    case None
    with go show ?thesis by auto
  next
    case (Some f)
    with assms(1) have "\<forall>w i a l. \<exists>v. snd (f w i a l) = Inr v \<and> \<not> strict_eq v (JBool False)"
      by (simp add: undisturbed_def)
    then obtain v where "snd (f w i (Suc (attempts_of st i)) (max_attempts n)) = Inr v"
      "\<not> strict_eq v (JBool False)" by blast
    with go Some show ?thesis by auto
  qed
  then obtain v where "answer = Inr v" "\<not> strict_eq v (JBool False)" by blast
  moreover have "\<not> aborted cb w" using assms(1) by (simp add: undisturbed_def)
  ultimately have "collect_batch cb nodes (i # ready) w st acc = collect_batch cb nodes ready w'
      (st\<lparr>running := set_add i (running st)\<rparr>) (acc @ [(i, n, Suc (attempts_of st i), max_attempts n)])"
    using n go by (simp add: Let_def)
  with Cons.IH [of w' "st\<lparr>running := set_add i (running st)\<rparr>" "acc @ [(i, n, Suc (attempts_of st i), max_attempts n)]"]
    Cons.prems show ?case by simp
qed

lemma launch_undisturbed:
  assumes "undisturbed cb"
  shows "\<exists>w' st' fl. launch_batch cb batch w st acc = (w', st', fl) \<and> map fst fl = map fst acc @ map fst batch
    \<and> running st' = running st \<and> completed st' = completed st"
proof (induction batch arbitrary: w st acc)
  case Nil
  then show ?case by simp
next
  case (Cons b batch)
  obtain i n a l where b: "b = (i, n, a, l)" by (cases b) auto
  obtain w' res where ex: "executor cb w n a l = (w', res)" by force
  have "\<not> (aborted cb w \<or> shouldStop cb w)" using assms by (simp add: undisturbed_def)
  then have "launch_batch cb (b # batch) w st acc = launch_batch cb batch w'
      (st\<lparr>attempts := AList.update i a (attempts st), calls := calls st @ [(i, a, completed st)]\<rparr>)
      (acc @ [(i, case res of Inl e \<Rightarrow> executorExceptionResult e | Inr v \<Rightarrow> recordValue v, a, l)])"
    using b ex by simp
  with Cons [of w' "st\<lparr>attempts := AList.update i a (attempts st), calls := calls st @ [(i, a, completed st)]\<rparr>"
    "acc @ [(i, case res of Inl e \<Rightarrow> executorExceptionResult e | Inr v \<Rightarrow> recordValue v, a, l)]"] b
  show ?case by auto
qed

lemma absorb_undisturbed:
  assumes "undisturbed cb"
  shows "\<forall>e \<in> set fl. truthy (fld (fst (snd e)) ''ok'') \<Longrightarrow>
    \<exists>w' st'. absorb_results cb fl w st None react = Inr (w', st', None, react)
      \<and> set (completed st') = set (completed st) \<union> fst ` set fl \<and> running st' = running st"
proof (induction fl arbitrary: w st)
  case Nil
  then show ?case by simp
next
  case (Cons e fl)
  obtain i v a l where e: "e = (i, v, a, l)" by (cases e) auto
  obtain w1 err where cbk: "(case onNodeResult cb of None \<Rightarrow> (w, None) | Some f \<Rightarrow> f w i v a) = (w1, err)" by force
  have "err = None"
  proof (cases "onNodeResult cb")
    case None
    with cbk show ?thesis by simp
  next
    case (Some f)
    with assms have "snd (f w i v a) = None" unfolding undisturbed_def by simp
    with Some cbk show ?thesis by simp
  qed
  let ?st = "st\<lparr>results := AList.update i v (results st), completed := set_add i (completed st)\<rparr>"
  from Cons.prems e cbk \<open>err = None\<close> have "absorb_results cb (e # fl) w st None react = absorb_results cb fl w1 ?st None react"
    by (simp add: Let_def)
  with Cons.IH [of w1 ?st] Cons.prems e show ?case by auto
qed

lemma fold_set_add: "set (fold set_add xs ys) = set ys \<union> set xs"
  by (induction xs arbitrary: ys) auto

lemma fold_set_del: "set (fold (\<lambda>e r. set_del (fst e) r) fl ys) = set ys - fst ` set fl"
  by (induction fl arbitrary: ys) auto

lemma round_undisturbed:
  assumes "undisturbed cb" "string_ids nodes" "set ready \<subseteq> node_ids nodes" "ready \<noteq> []" "running st = []"
  shows "\<exists>w' st'. dag_round cb nodes ready w st = Inr (w', st')
    \<and> set (completed st') = set (completed st) \<union> set ready \<and> running st' = []"
proof -
  from collect_undisturbed [OF assms(1-3), of w st "[]"] obtain w1 batch where
    c: "collect_batch cb nodes ready w st [] = Inr (w1, st\<lparr>running := fold set_add ready []\<rparr>, batch)" "map fst batch = ready"
    using assms(5) by auto
  let ?st1 = "st\<lparr>running := fold set_add ready []\<rparr>"
  from launch_undisturbed [OF assms(1), of batch w1 ?st1 "[]"] obtain w2 st2 fl where
    l: "launch_batch cb batch w1 ?st1 [] = (w2, st2, fl)" "map fst fl = ready"
      "running st2 = fold set_add ready []" "completed st2 = completed st" using c(2) by auto
  have "\<forall>e \<in> set fl. truthy (fld (fst (snd e)) ''ok'')"
  proof (rule launch_batch_values [OF _ l(1), of "\<lambda>v. truthy (fld v ''ok'')"])
    fix w n a lim and res :: "exn + js" assume "snd (executor cb w n a lim) = res"
    moreover obtain v where "snd (executor cb w n a lim) = Inr v" "truthy (fld v ''ok'')"
      using assms(1) unfolding undisturbed_def by blast
    ultimately show "truthy (fld (case res of Inl e \<Rightarrow> executorExceptionResult e | Inr v \<Rightarrow> recordValue v) ''ok'')" by auto
  qed simp
  from absorb_undisturbed [OF assms(1) this, of "settle cb w2" st2 "[]"] obtain w3 st3 where
    a: "absorb_results cb fl (settle cb w2) st2 None [] = Inr (w3, st3, None, [])"
      "set (completed st3) = set (completed st2) \<union> fst ` set fl" "running st3 = running st2" by blast
  have flr: "fst ` set fl = set ready" by (metis l(2) set_map)
  have ne: "fl \<noteq> []" using l(2) assms(4) by auto
  let ?st4 = "finish_round fl nodes [] st3"
  have "set (running ?st4) = {}"
    by (simp add: finish_round_def fold_set_del a(3) l(3) fold_set_add flr)
  then have "running ?st4 = []" by simp
  moreover have "set (completed ?st4) = set (completed st) \<union> set ready"
    by (simp add: finish_round_def a(2) l(4) flr)
  moreover have "dag_round cb nodes ready w st = Inr (w3, ?st4)"
    using assms(1) ne by (simp add: dag_round_def c l(1) a(1) Let_def undisturbed_def)
  ultimately show ?thesis by blast
qed

text \<open>In a valid DAG some node is ready until all are completed.\<close>

lemma ready_progress:
  assumes "validateDag nodes = []" "\<not> isDagComplete nodes done"
  shows "readyNodes nodes done [] \<noteq> []"
proof -
  let ?left = "node_ids nodes - set done"
  from assms(2) obtain n where "n \<in> set nodes" "nodeId n \<notin> set done"
    by (auto simp: isDagComplete_def list_all_iff)
  then have ne: "nodeId n \<in> ?left" by simp
  from assms(1) have ac: "acyclic (dep_rel nodes)" and deps: "\<And>n. n \<in> set nodes \<Longrightarrow> set (nodeDeps n) \<subseteq> node_ids nodes"
    by (simp_all add: validateDag_ok)
  have "finite (dep_rel nodes)" by (simp add: set_edge_list [symmetric])
  with ac have "wf (dep_rel nodes)" by (simp add: finite_acyclic_wf)
  from wfE_min [OF this ne] obtain z where z: "z \<in> ?left" "\<And>y. (y, z) \<in> dep_rel nodes \<Longrightarrow> y \<notin> ?left" by blast
  then obtain m where m: "m \<in> set nodes" "nodeId m = z" by blast
  have "set (nodeDeps m) \<subseteq> set done"
  proof
    fix d assume d: "d \<in> set (nodeDeps m)"
    with deps [OF m(1)] have "d \<in> node_ids nodes" by blast
    with d m have "(d, z) \<in> dep_rel nodes" by (auto simp: dep_rel_def)
    from z(2) [OF this] \<open>d \<in> node_ids nodes\<close> show "d \<in> set done" by blast
  qed
  with m z(1) have "z \<in> set (readyNodes nodes done [])" by (auto simp: readyNodes_iff)
  then show ?thesis by auto
qed

lemma schedule_nonempty:
  "readyNodes nodes done [] \<noteq> [] \<Longrightarrow> 0 < limit \<Longrightarrow> providerCapacity opts = None \<Longrightarrow>
   scheduleReadyNodes nodes done [] limit opts \<noteq> []"
  by (auto simp: scheduleReadyNodes_def Let_def)

lemma dag_loop_live:
  assumes "undisturbed cb" "string_ids nodes" "validateDag nodes = []" "providerCapacity (dag_opts cb) = None" "0 < limit"
  shows "running st = [] \<Longrightarrow> card (node_ids nodes - set (completed st)) < fuel \<Longrightarrow>
    \<exists>res w' st'. dag_loop fuel cb nodes limit w st = Some (Returned res, w', st') \<and> ok res"
proof (induction fuel arbitrary: w st)
  case 0
  then show ?case by simp
next
  case (Suc fuel)
  show ?case
  proof (cases "isDagComplete nodes (completed st)")
    case True
    then show ?thesis by simp
  next
    case False
    let ?ready = "scheduleReadyNodes nodes (completed st) [] limit (dag_opts cb)"
    have ne: "?ready \<noteq> []" by (rule schedule_nonempty [OF ready_progress [OF assms(3) False] assms(5,4)])
    have sub: "set ?ready \<subseteq> set (readyNodes nodes (completed st) [])" by (rule ready_sched.sched_ready)
    then have ids: "set ?ready \<subseteq> node_ids nodes" by (auto simp: readyNodes_iff dest!: subsetD)
    from round_undisturbed [OF assms(1,2) ids ne Suc.prems(1), of w] obtain w1 st1 where
      r: "dag_round cb nodes ?ready w st = Inr (w1, st1)" "set (completed st1) = set (completed st) \<union> set ?ready"
        "running st1 = []" by blast
    from ne obtain i where i: "i \<in> set ?ready" by (cases ?ready) auto
    with sub have "i \<in> node_ids nodes - set (completed st)" by (auto simp: readyNodes_iff dest!: subsetD)
    with i have "node_ids nodes - set (completed st1) \<subset> node_ids nodes - set (completed st)" unfolding r(2) by blast
    then have "card (node_ids nodes - set (completed st1)) < card (node_ids nodes - set (completed st))"
      by (intro psubset_card_mono) simp_all
    with Suc.prems(2) have "card (node_ids nodes - set (completed st1)) < fuel" by simp
    from Suc.IH [OF r(3) this, of w1] obtain res w' st' where
      "dag_loop fuel cb nodes limit w1 st1 = Some (Returned res, w', st')" "ok res" by blast
    then show ?thesis using False ne r(1) assms(1) Suc.prems(1) by (simp add: Let_def undisturbed_def)
  qed
qed

end
