(* ===== verification/DagProperties.thy ===== *)
theory DagProperties
  imports DagRun
begin

text \<open>
  The properties of the DAG executor: ordering, completion, attempts, termination, progress,
  reactivation, sorting, validation and scheduling, each with an instance on a small DAG.
\<close>

section \<open>A small DAG\<close>

text \<open>Two nodes, the second waiting for the first, and callbacks that always succeed; with
  \<open>flaky_callbacks\<close> every call fails and asks for a retry.\<close>

definition example_node :: "string \<Rightarrow> string list \<Rightarrow> js" where
  "example_node i deps = JObj [(''id'', JStr i), (''phase'', JStr ''execute''), (''dependsOn'', jstrs deps)]"

definition example_nodes :: "js list" where
  "example_nodes = [example_node ''a'' [], example_node ''b'' [''a'']]"

definition example_dag :: js where
  "example_dag = JObj [(''nodes'', JArr example_nodes)]"

definition answering :: "js \<Rightarrow> unit callbacks" where
  "answering v = \<lparr>executor = (\<lambda>w n a l. (w, Inr v)), onBeforeNode = None, onNodeResult = None, shouldStop = (\<lambda>w. False),
     aborted = (\<lambda>w. False), settle = (\<lambda>w. w), seedCompleted = JUndef,
     dag_opts = \<lparr>providerCapacity = None, providerKeyForNode = None\<rparr>\<rparr>"

definition good_callbacks :: "unit callbacks" where
  "good_callbacks = answering (JObj [(''ok'', JBool True)])"

definition flaky_callbacks :: "unit callbacks" where
  "flaky_callbacks = answering (JObj [(''ok'', JBool False), (''retryable'', JBool True)])"

lemmas example_defs = example_node_def example_nodes_def example_dag_def answering_def good_callbacks_def flaky_callbacks_def

lemma example_run:
  "case executeDag 5 example_dag good_callbacks () of
     Some (Returned r, w, st) \<Rightarrow> ok r \<and> completed st = [''a'', ''b'']
       \<and> calls st = [(''a'', 1, []), (''b'', 1, [''a''])]
   | _ \<Rightarrow> False"
  by code_simp

lemma flaky_run:
  "case executeDag 9 example_dag flaky_callbacks () of
     Some (Returned r, w, st) \<Rightarrow> \<not> ok r \<and> attempts_of st ''a'' = 3 \<and> attempts_of st ''b'' = 0
   | _ \<Rightarrow> False"
  by code_simp

section \<open>Provider budgets\<close>

definition key_at :: "(js \<Rightarrow> js) option \<Rightarrow> js list \<Rightarrow> string \<Rightarrow> string option" where
  "key_at keyFor nodes i = map_option (effective_key keyFor) (getNode nodes i)"

definition busy_count :: "dag_limits \<Rightarrow> js list \<Rightarrow> string list \<Rightarrow> string \<Rightarrow> nat" where
  "busy_count opts nodes busy k = (case map_of (running_by_provider (providerKeyForNode opts) nodes busy) k of None \<Rightarrow> 0 | Some c \<Rightarrow> c)"

definition left_for :: "(string \<Rightarrow> jsnum) \<Rightarrow> (string \<times> nat) list \<Rightarrow> (string \<times> jsnum) list \<Rightarrow> string \<Rightarrow> jsnum" where
  "left_for cap busy remaining k = (case map_of remaining k of Some r \<Rightarrow> r | None \<Rightarrow> provider_budget cap busy k)"

lemma left_for_update: "left_for cap busy (AList.update k r remaining) k' = (if k' = k then r else left_for cap busy remaining k')"
  by (simp add: left_for_def update_conv)

lemma pick_nodes_capped:
  "left_for cap busy remaining k = Fin (of_int l) \<Longrightarrow> 0 \<le> l \<Longrightarrow>
   \<exists>picked. pick_nodes cap keyFor nodes busy available remaining selected ready = selected @ picked
     \<and> int (length (filter (\<lambda>i. key_at keyFor nodes i = Some k) picked)) \<le> l"
proof (induction ready arbitrary: remaining selected l)
  case (Cons i ready)
  let ?P = "\<lambda>rem sel. pick_nodes cap keyFor nodes busy available rem sel ready"
  show ?case
  proof (cases "available \<le> int (length selected)")
    case True
    with Cons.prems show ?thesis by (intro exI [of _ "[]"]) simp
  next
    case False
    note step = pick_nodes_step [OF False, of cap keyFor nodes busy remaining i ready, unfolded Let_def left_for_def [symmetric]]
    from step show ?thesis
    proof (elim disjE exE conjE)
      assume "pick_nodes cap keyFor nodes busy available remaining selected (i # ready) = ?P remaining selected"
      with Cons.IH [OF Cons.prems] show ?thesis by simp
    next
      fix n
      let ?k = "effective_key keyFor n"
      assume n: "getNode nodes i = Some n" and pos: "\<not> num_le (left_for cap busy remaining ?k) (Fin 0)"
        and run: "pick_nodes cap keyFor nodes busy available remaining selected (i # ready)
          = ?P (AList.update ?k (num_sub (left_for cap busy remaining ?k) (Fin 1)) remaining) (selected @ [i])"
      let ?rem = "AList.update ?k (num_sub (left_for cap busy remaining ?k) (Fin 1)) remaining"
      have key: "key_at keyFor nodes i = Some ?k" by (simp add: key_at_def n)
      define l' where "l' = (if ?k = k then l - 1 else l)"
      have l': "left_for cap busy ?rem k = Fin (of_int l')" "0 \<le> l'"
        using Cons.prems pos by (auto simp: left_for_update l'_def num_le_def)
      from Cons.IH [OF this, of "selected @ [i]"] obtain picked where
        "?P ?rem (selected @ [i]) = (selected @ [i]) @ picked"
        "int (length (filter (\<lambda>i. key_at keyFor nodes i = Some k) picked)) \<le> l'" by blast
      with run key show ?thesis by (intro exI [of _ "i # picked"]) (auto simp: l'_def)
    qed
  qed
qed simp

lemma schedule_capped:
  assumes "providerCapacity opts = Some cap" "cap k = Fin c"
  shows "length (filter (\<lambda>i. key_at (providerKeyForNode opts) nodes i = Some k)
      (scheduleReadyNodes nodes done busy limit opts)) \<le> nat \<lfloor>c\<rfloor> - busy_count opts nodes busy k"
proof (cases "max 0 (limit - int (length busy)) \<le> 0")
  case True
  then show ?thesis by (simp add: scheduleReadyNodes_def Let_def)
next
  case False
  let ?by = "running_by_provider (providerKeyForNode opts) nodes busy"
  define l where "l = max 0 (max 0 \<lfloor>c\<rfloor> - int (busy_count opts nodes busy k))"
  have "left_for cap ?by [] k = Fin (of_int l)"
    by (simp add: left_for_def provider_budget_def assms(2) num_max0_def l_def busy_count_def of_int_max max_def)
  from pick_nodes_capped [OF this, where selected = "[]"] obtain picked where
    "pick_nodes cap (providerKeyForNode opts) nodes ?by (limit - int (length busy)) [] [] (readyNodes nodes done busy) = picked"
    "int (length (filter (\<lambda>i. key_at (providerKeyForNode opts) nodes i = Some k) picked)) \<le> l"
    by (auto simp: l_def)
  with False assms(1) show ?thesis by (simp add: scheduleReadyNodes_def Let_def l_def)
qed

section \<open>Reactivation without a bound\<close>

definition restless_callbacks :: "unit callbacks" where
  "restless_callbacks = answering (JObj [(''ok'', JBool False), (''reactivate'', JStr ''a'')])"

lemma restless_round:
  assumes "completed st = []" "running st = []"
  shows "\<exists>st'. dag_round restless_callbacks [example_node ''a'' []] [''a''] () st = Inr ((), st') \<and> completed st' = [] \<and> running st' = []"
proof -
  have "getNode [example_node ''a'' []] ''a'' = Some (example_node ''a'' [])"
    by (simp add: getNode_def example_node_def)
  moreover have "completed (clearNodeAndDownstream [example_node ''a'' []] ''a'' s) = filter (\<lambda>i. i \<notin> downstream [example_node ''a'' []] ''a'') (completed s)"
    and "running (clearNodeAndDownstream [example_node ''a'' []] ''a'' s) = running s" for s :: dag_state
    using clear_spec(1,4) [of "[example_node ''a'' []]" "''a''" s] by (simp_all add: example_node_def nodeId_def stringValue_def)
  ultimately show ?thesis
    using assms
    by (simp add: dag_round_def restless_callbacks_def answering_def finish_round_def set_del_def set_add_def recordValue_def Let_def)
qed

lemma restless_loop:
  "completed st = [] \<Longrightarrow> running st = [] \<Longrightarrow> dag_loop fuel restless_callbacks [example_node ''a'' []] 1 () st = None"
proof (induction fuel arbitrary: st)
  case (Suc fuel)
  have sched: "scheduleReadyNodes [example_node ''a'' []] [] [] 1 (dag_opts restless_callbacks) = [''a'']" by code_simp
  have notdone: "\<not> isDagComplete [example_node ''a'' []] []" by code_simp
  obtain st' where "dag_round restless_callbacks [example_node ''a'' []] [''a''] () st = Inr ((), st')"
    "completed st' = []" "running st' = []"
    using restless_round [OF Suc.prems] by blast
  with Suc.IH sched notdone Suc.prems show ?case
    by (simp add: restless_callbacks_def answering_def)
qed simp

section \<open>Properties\<close>

lemma execute_run:
  assumes "executeDag fuel dag cb w = Some (out, w', st)"
  obtains (invalid) "validateDag (dag_nodes dag) \<noteq> []" "st = initial_state (seedCompleted cb)" "\<forall>res. out \<noteq> Returned res"
  | (ran) "validateDag (dag_nodes dag) = []"
      "dag_loop fuel cb (dag_nodes dag) (max_concurrent dag) w (initial_state (seedCompleted cb)) = Some (out, w', st)"
  using assms by (auto simp: executeDag_def Let_def split: if_splits)

lemma valid_identified: "validateDag nodes = [] \<Longrightarrow> well_identified nodes"
  by (simp add: validateDag_ok well_identified_def)

lemma execute_inv:
  assumes "executeDag fuel dag cb w = Some (out, w', st)"
  shows "dag_inv (dag_nodes dag) (set (stringArray (seedCompleted cb))) st"
    "out = Returned res \<Longrightarrow> ok res \<Longrightarrow> isDagComplete (dag_nodes dag) (completed st)"
  using assms
proof (atomize (full), cases rule: execute_run)
  case invalid
  then show "dag_inv (dag_nodes dag) (set (stringArray (seedCompleted cb))) st
      \<and> (out = Returned res \<longrightarrow> ok res \<longrightarrow> isDagComplete (dag_nodes dag) (completed st))"
    using dag_inv_initial by simp
next
  case ran
  from dag_loop_inv [OF valid_identified [OF ran(1)] dag_inv_initial ran(2)]
  show "dag_inv (dag_nodes dag) (set (stringArray (seedCompleted cb))) st
      \<and> (out = Returned res \<longrightarrow> ok res \<longrightarrow> isDagComplete (dag_nodes dag) (completed st))" by blast
qed

lemma example_result:
  obtains r st where "executeDag 5 example_dag good_callbacks () = Some (Returned r, (), st)" "ok r"
    "calls st = [(''a'', 1, []), (''b'', 1, [''a''])]" "completed st = [''a'', ''b'']"
  using example_run by (auto split: option.splits prod.splits dag_outcome.splits)

text \<open>C3: the executor is only ever called on a node whose dependencies are all completed at that
  moment, and never on a node that is itself completed; \<open>calls\<close> is the log of the calls.\<close>

theorem dag_calls_safe:
  assumes "executeDag fuel dag cb w = Some (out, w', st)" "(i, attempt, done) \<in> set (calls st)"
  shows "(\<exists>n \<in> set (dag_nodes dag). nodeId n = i \<and> set (nodeDeps n) \<subseteq> set done) \<and> i \<notin> set done"
  using execute_inv(1) [OF assms(1)] assms(2) unfolding dag_inv_def inv_calls_def by blast

theorem dag_calls_safe_witness:
  "\<exists>out st. executeDag 5 example_dag good_callbacks () = Some (out, (), st) \<and> (''b'', 1, [''a'']) \<in> set (calls st)
     \<and> (\<exists>n \<in> set (dag_nodes example_dag). nodeId n = ''b'' \<and> set (nodeDeps n) \<subseteq> set [''a'']) \<and> ''b'' \<notin> set [''a'']"
proof -
  obtain r st where run: "executeDag 5 example_dag good_callbacks () = Some (Returned r, (), st)"
    and c: "calls st = [(''a'', 1, []), (''b'', 1, [''a''])]" by (rule example_result)
  then have call: "(''b'', 1, [''a'']) \<in> set (calls st)" by simp
  from run call dag_calls_safe [OF run call] show ?thesis by blast
qed

text \<open>C4: a run that returns ok has completed every node of the DAG, and each node was either given
  as completed at the start or its last recorded result is ok.\<close>

theorem dag_ok_complete:
  assumes "executeDag fuel dag cb w = Some (Returned res, w', st)" "ok res" "n \<in> set (dag_nodes dag)"
  shows "nodeId n \<in> set (completed st) \<and> (nodeId n \<in> set (stringArray (seedCompleted cb))
     \<or> (\<exists>v. map_of (results st) (nodeId n) = Some v \<and> truthy (fld v ''ok'')))"
  using execute_inv(1) [OF assms(1)] execute_inv(2) [OF assms(1) refl assms(2)] assms(3)
  unfolding dag_inv_def inv_done_def isDagComplete_def list_all_iff by blast

theorem dag_ok_complete_witness:
  "\<exists>res st. executeDag 5 example_dag good_callbacks () = Some (Returned res, (), st) \<and> ok res
     \<and> nodeId (example_node ''b'' [''a'']) \<in> set (completed st)"
proof -
  obtain r st where run: "executeDag 5 example_dag good_callbacks () = Some (Returned r, (), st)" "ok r" by (rule example_result)
  have "example_node ''b'' [''a''] \<in> set (dag_nodes example_dag)"
    by (simp add: dag_nodes_def example_defs)
  from run dag_ok_complete [OF run this] show ?thesis by blast
qed

text \<open>C7: the attempts of every node are numbered 1, 2, 3, ... in the order of its calls, without a
  gap or a repetition, and the counter is the number of the last one.\<close>

theorem dag_attempts_numbered:
  assumes "executeDag fuel dag cb w = Some (out, w', st)"
  shows "attempt_log st i = [1..<Suc (attempts_of st i)]"
  using execute_inv(1) [OF assms] by (simp add: dag_inv_def inv_attempts_def)

theorem dag_attempts_numbered_witness:
  "\<exists>out st. executeDag 9 example_dag flaky_callbacks () = Some (out, (), st) \<and> attempts_of st ''a'' = 3
     \<and> attempt_log st ''a'' = [1, 2, 3]"
proof -
  from flaky_run obtain r st where run: "executeDag 9 example_dag flaky_callbacks () = Some (Returned r, (), st)"
    and a: "attempts_of st ''a'' = 3"
    by (auto split: option.splits prod.splits dag_outcome.splits)
  from dag_attempts_numbered [OF run, of "''a''"] run a show ?thesis by (auto simp: upt_rec)
qed

text \<open>C8: when no result asks for a reactivation and every \<^verbatim>\<open>maxRetries\<close> is a finite number, the
  executor stops after at most one round per attempt that the nodes have, whatever the callbacks
  answer, and no node is tried more often than its limit (at least once).\<close>

theorem dag_terminates:
  assumes "no_reactivation cb" "\<forall>n \<in> set (dag_nodes dag). max_attempts n \<noteq> PosInf" "total_cap (dag_nodes dag) < fuel"
  shows "\<exists>out w' st. executeDag fuel dag cb w = Some (out, w', st)
     \<and> (\<forall>n \<in> set (dag_nodes dag). attempts_of st (nodeId n) \<le> attempt_cap n)"
proof (cases "validateDag (dag_nodes dag) = []")
  case True
  let ?st = "initial_state (seedCompleted cb)"
  have zero: "attempts_of ?st i = 0" for i by (simp add: attempts_of_def initial_state_def)
  have "within_caps (dag_nodes dag) ?st" "room_left (dag_nodes dag) ?st"
    by (simp_all add: within_caps_def room_left_def zero)
  moreover have "total_cap (dag_nodes dag) < fuel + total_attempts (dag_nodes dag) ?st"
    using assms(3) by simp
  ultimately obtain out w' st where "dag_loop fuel cb (dag_nodes dag) (max_concurrent dag) w ?st = Some (out, w', st)"
      "within_caps (dag_nodes dag) st"
    using dag_loop_terminates [OF valid_identified [OF True] assms(1,2) dag_inv_initial] by blast
  with True show ?thesis by (auto simp: executeDag_def within_caps_def Let_def)
next
  case False
  then show ?thesis by (simp add: executeDag_def Let_def initial_state_def attempts_of_def)
qed

theorem dag_terminates_witness:
  "\<exists>out w' st. executeDag 7 example_dag flaky_callbacks () = Some (out, w', st)
     \<and> (\<forall>n \<in> set (dag_nodes example_dag). attempts_of st (nodeId n) \<le> attempt_cap n)"
proof -
  have "no_reactivation flaky_callbacks" by (simp add: no_reactivation_def example_defs)
  moreover have "\<forall>n \<in> set (dag_nodes example_dag). max_attempts n \<noteq> PosInf"
    by (simp add: dag_nodes_def example_defs max_attempts_def)
  moreover have "total_cap (dag_nodes example_dag) < 7" by code_simp
  ultimately show ?thesis by (rule dag_terminates)
qed

text \<open>C35: a valid DAG whose nodes all succeed runs to the end: with no provider limits, enough
  rounds for the nodes, and callbacks that neither stop nor fail, the run returns ok.\<close>

theorem dag_live:
  assumes "undisturbed cb" "string_ids (dag_nodes dag)" "validateDag (dag_nodes dag) = []"
    "providerCapacity (dag_opts cb) = None" "length (dag_nodes dag) < fuel"
  shows "\<exists>res w' st. executeDag fuel dag cb w = Some (Returned res, w', st) \<and> ok res"
proof -
  let ?st = "initial_state (seedCompleted cb)"
  have "0 < max_concurrent dag" by (auto simp: max_concurrent_def less_max_iff_disj split: jsnum.splits)
  moreover have "running ?st = []" by (simp add: initial_state_def)
  moreover have "card (node_ids (dag_nodes dag) - set (completed ?st)) \<le> card (node_ids (dag_nodes dag))"
    by (rule card_mono) auto
  moreover have "card (node_ids (dag_nodes dag)) \<le> length (dag_nodes dag)"
    using card_length [of "map nodeId (dag_nodes dag)"] by simp
  ultimately have "\<exists>res w' st. dag_loop fuel cb (dag_nodes dag) (max_concurrent dag) w ?st = Some (Returned res, w', st) \<and> ok res"
    using dag_loop_live [OF assms(1-4)] assms(5) by (meson le_less_trans)
  with assms(3) show ?thesis by (simp add: executeDag_def Let_def)
qed

theorem dag_live_witness:
  "\<exists>res w' st. executeDag 3 example_dag good_callbacks () = Some (Returned res, w', st) \<and> ok res"
proof (rule dag_live)
  show "undisturbed good_callbacks" by (simp add: undisturbed_def example_defs)
  show "string_ids (dag_nodes example_dag)" "validateDag (dag_nodes example_dag) = []" by code_simp+
  show "providerCapacity (dag_opts good_callbacks) = None" "length (dag_nodes example_dag) < 3"
    by (simp_all add: example_defs dag_nodes_def)
qed

text \<open>reactivating a node takes exactly the node and everything that depends on it, directly or
  not, out of the completed nodes and forgets their results; nothing else changes.\<close>

theorem clear_exactly_downstream:
  assumes "[] \<notin> node_ids nodes" "t \<noteq> []"
  shows "completed (clearNodeAndDownstream nodes t st) = filter (\<lambda>i. i \<notin> downstream nodes t) (completed st)
    \<and> map_of (results (clearNodeAndDownstream nodes t st)) i = (if i \<in> downstream nodes t then None else map_of (results st) i)
    \<and> attempts (clearNodeAndDownstream nodes t st) = attempts st
    \<and> running (clearNodeAndDownstream nodes t st) = running st"
  using clear_spec [OF assms(1), where t = t and st = st] assms(2) by simp

theorem clear_exactly_downstream_witness:
  "completed (clearNodeAndDownstream example_nodes ''a'' (initial_state (jstrs [''a'', ''b'', ''c''])))
     = filter (\<lambda>i. i \<notin> downstream example_nodes ''a'') [''a'', ''b'', ''c'']"
proof -
  have "[] \<notin> node_ids example_nodes" by (simp add: example_defs nodeId_def stringValue_def)
  moreover have "completed (initial_state (jstrs [''a'', ''b'', ''c''])) = [''a'', ''b'', ''c'']" by code_simp
  ultimately show ?thesis
    using clear_exactly_downstream [where nodes = example_nodes and t = "''a''" and st = "initial_state (jstrs [''a'', ''b'', ''c''])"]
    by simp
qed

text \<open>nothing bounds reactivation: a node whose result reactivates the node itself is called for
  ever, although its attempts are limited to three. No fuel is enough.\<close>

theorem reactivation_unbounded:
  "executeDag fuel (JObj [(''nodes'', JArr [example_node ''a'' []])]) restless_callbacks () = None"
proof -
  let ?dag = "JObj [(''nodes'', JArr [example_node ''a'' []])]"
  have "dag_nodes ?dag = [example_node ''a'' []]" by (simp add: dag_nodes_def example_node_def)
  moreover have "validateDag [example_node ''a'' []] = []" "max_concurrent ?dag = 1" by code_simp+
  moreover have "initial_state (seedCompleted restless_callbacks) = \<lparr>completed = [], results = [], attempts = [], running = [], calls = []\<rparr>"
    by code_simp
  ultimately show ?thesis by (simp add: executeDag_def Let_def restless_loop)
qed

text \<open>C34: the topological sort succeeds exactly on distinct non-empty ids without a cycle, and its
  result is a permutation of the ids in which every dependency stands before its dependents.\<close>

theorem topologicalSort_correct:
  "((\<exists>order. topologicalSort nodes = Inr order) \<longleftrightarrow>
      distinct (map nodeId nodes) \<and> [] \<notin> node_ids nodes \<and> acyclic (dep_rel nodes))
   \<and> (topologicalSort nodes = Inr order \<longrightarrow>
      distinct order \<and> set order = node_ids nodes \<and> (\<forall>d v. (d, v) \<in> dep_rel nodes \<longrightarrow> before d v order))"
  using topologicalSort_ok topologicalSort_order_facts by blast

theorem topologicalSort_correct_witness:
  "topologicalSort example_nodes = Inr [''a'', ''b''] \<and> before ''a'' ''b'' [''a'', ''b'']"
proof -
  have run: "topologicalSort example_nodes = Inr [''a'', ''b'']" by code_simp
  let ?b = "example_node ''b'' [''a'']"
  have "(''a'', nodeId ?b) \<in> dep_rel example_nodes"
    by (rule dep_relI) (simp_all add: example_defs nodeId_def nodeDeps_def stringValue_def stringArray_def)
  moreover have "nodeId ?b = ''b''" by (simp add: example_defs nodeId_def stringValue_def)
  ultimately have "before ''a'' ''b'' [''a'', ''b'']"
    using topologicalSort_correct [of example_nodes "[''a'', ''b'']", THEN conjunct2, THEN mp, OF run,
        THEN conjunct2, THEN conjunct2, rule_format] by (simp only:)
  with run show ?thesis by (rule conjI)
qed

text \<open>validation accepts a DAG exactly when its ids are distinct and not empty, every node has a
  phase, every dependency is a node, and there is no cycle.\<close>

theorem validateDag_exact:
  "validateDag nodes = [] \<longleftrightarrow>
     distinct (map nodeId nodes) \<and> [] \<notin> node_ids nodes
   \<and> {n \<in> set nodes. \<not> (truthy (fld n ''phase'') \<and> set (nodeDeps n) \<subseteq> node_ids nodes)} = {}
   \<and> acyclic (dep_rel nodes)"
  unfolding validateDag_ok by blast

text \<open>what the scheduler picks is ready (dependencies completed, not completed or running
  itself), without repetition, and together with the running nodes within the limit.\<close>

theorem schedule_sound:
  assumes "distinct (map nodeId nodes)" "length busy \<le> nat limit"
  shows "set (scheduleReadyNodes nodes done busy limit opts) \<subseteq> set (readyNodes nodes done busy)
    \<and> distinct (scheduleReadyNodes nodes done busy limit opts)
    \<and> length busy + length (scheduleReadyNodes nodes done busy limit opts) \<le> nat limit"
  using ready_sched.sched_ready ready_sched.sched_distinct [OF assms(1)] ready_sched.sched_within_limit [OF assms(2)] by blast

theorem schedule_sound_witness:
  "scheduleReadyNodes example_nodes [] [] 1 \<lparr>providerCapacity = None, providerKeyForNode = None\<rparr> = [''a'']
   \<and> set [''a''] \<subseteq> set (readyNodes example_nodes [] [])"
proof -
  have run: "scheduleReadyNodes example_nodes [] [] 1 \<lparr>providerCapacity = None, providerKeyForNode = None\<rparr> = [''a'']" by code_simp
  have "distinct (map nodeId example_nodes)" by code_simp
  from schedule_sound [OF this, of "[]" 1 "[]" "\<lparr>providerCapacity = None, providerKeyForNode = None\<rparr>"] run show ?thesis by simp
qed

text \<open>with provider capacities, the nodes picked for a provider and those already running on it
  stay together within the provider's capacity.\<close>

theorem schedule_within_capacity:
  assumes "providerCapacity opts = Some cap" "cap k = Fin c"
  shows "length (filter (\<lambda>i. key_at (providerKeyForNode opts) nodes i = Some k)
      (scheduleReadyNodes nodes finished busy limit opts)) \<le> nat \<lfloor>c\<rfloor> - busy_count opts nodes busy k"
  by (rule schedule_capped [OF assms])

theorem schedule_within_capacity_witness:
  "let opts = \<lparr>providerCapacity = Some (\<lambda>k. Fin 1), providerKeyForNode = None\<rparr>
   in scheduleReadyNodes [example_node ''a'' [], example_node ''b'' []] [] [] 4 opts = [''a'']
      \<and> length (filter (\<lambda>i. key_at None [example_node ''a'' [], example_node ''b'' []] i = Some ''__default__'') [''a'']) \<le> 1"
proof -
  let ?opts = "\<lparr>providerCapacity = Some (\<lambda>k. Fin 1), providerKeyForNode = None\<rparr>"
  let ?nodes = "[example_node ''a'' [], example_node ''b'' []]"
  have run: "scheduleReadyNodes ?nodes [] [] 4 ?opts = [''a'']" by code_simp
  have "providerCapacity ?opts = Some (\<lambda>k. Fin 1)" "(\<lambda>k. Fin 1) ''__default__'' = Fin (1 :: rat)" by simp_all
  from schedule_within_capacity [OF this, where nodes = ?nodes and finished = "[]" and busy = "[]" and limit = 4] run show ?thesis by (simp add: Let_def)
qed

end
