(* ===== verification/AgentRouting.thy ===== *)
theory AgentRouting
  imports JsValue
begin

text \<open>
  The agent registry's queries and squads (\<^verbatim>\<open>core/agents/registry.ts\<close>) and the routing rules that choose
  an agent for each role of a workflow (\<^verbatim>\<open>core/agents/routing.ts\<close>).

  The registry's tables are the record \<open>agent_registry\<close>: what the loader put into the module's maps
  (descriptors by name, discovered descriptors, squads, and the round-robin counters, the only table
  that a query changes). The loader itself reads the disk and is not modelled.
\<close>

section \<open>The registry\<close>

record agent_registry =
  registry :: "(string \<times> js) list"
  discovered :: "(string \<times> js) list"
  squads :: "(string \<times> js) list"
  rrCounters :: "(string \<times> nat) list"

definition hasAgent :: "agent_registry \<Rightarrow> string \<Rightarrow> bool" where
  "hasAgent reg name = (map_of (registry reg) name \<noteq> None \<or> map_of (discovered reg) name \<noteq> None)"

definition getDescriptor :: "agent_registry \<Rightarrow> string \<Rightarrow> js" where
  "getDescriptor reg name = (case map_of (registry reg) name of
     Some d \<Rightarrow> if truthy d then d else or_else (obj_get (discovered reg) name) JNull
   | None \<Rightarrow> or_else (obj_get (discovered reg) name) JNull)"

definition tieBreakPriority :: "agent_registry \<Rightarrow> string \<Rightarrow> rat" where
  \<comment> \<open>\<^verbatim>\<open>getCapability(name)?.tieBreakPriority ?? 1000\<close>\<close>
  "tieBreakPriority reg name = (case fld (getDescriptor reg name) ''tieBreakPriority'' of
     JNum (Fin x) \<Rightarrow> x | _ \<Rightarrow> 1000)"

definition better_candidate :: "agent_registry \<Rightarrow> string \<Rightarrow> string \<Rightarrow> bool" where
  "better_candidate reg c best = (tieBreakPriority reg c < tieBreakPriority reg best
     \<or> tieBreakPriority reg c = tieBreakPriority reg best \<and> c < best)"

definition pickRoleCandidate :: "agent_registry \<Rightarrow> js list \<Rightarrow> string option" where
  "pickRoleCandidate reg candidates = (case map (\<lambda>d. to_str (fld d ''name'')) candidates of
     [] \<Rightarrow> None
   | c # cs \<Rightarrow> Some (foldl (\<lambda>best c. if better_candidate reg c best then c else best) c cs))"

definition role_owners :: "agent_registry \<Rightarrow> string \<Rightarrow> js list" where
  "role_owners reg role = filter (\<lambda>d. JStr role \<in> set (arr (fld d ''defaultRoles''))) (map snd (registry reg))"

definition is_acp :: "js \<Rightarrow> bool" where
  "is_acp d = (or_else (fld d ''protocol'') (JStr ''unknown'') = JStr ''acp'')"

definition defaultAgentForRole :: "agent_registry \<Rightarrow> string \<Rightarrow> string result" where
  "defaultAgentForRole reg role =
     (let owners = role_owners reg role;
          pick = (case pickRoleCandidate reg (filter is_acp owners) of
             None \<Rightarrow> pickRoleCandidate reg (filter (\<lambda>d. \<not> is_acp d) owners) | p \<Rightarrow> p)
      in case pick of
           Some (c # name) \<Rightarrow> Inr (c # name)
         | _ \<Rightarrow> Inl (ErrorMsg (''no registered ACP agent is configured for role: '' @ role)))"

subsection \<open>Squads\<close>

fun least_busy :: "(string \<Rightarrow> jsnum) \<Rightarrow> string \<Rightarrow> jsnum \<Rightarrow> string list \<Rightarrow> string" where
  "least_busy active best bestActive [] = best"
| "least_busy active best bestActive (n # ns) =
     (if num_lt (active n) bestActive then least_busy active n (active n) ns
      else least_busy active best bestActive ns)"

definition active_count :: "js \<Rightarrow> string \<Rightarrow> jsnum" where
  "active_count poolStatus name = (case fld (recordValue (fld (recordValue poolStatus) name)) ''active'' of
     JNum n \<Rightarrow> n | _ \<Rightarrow> Fin 0)"

definition leader_first :: "js \<Rightarrow> string list \<Rightarrow> string" where
  "leader_first squad available = (case fld squad ''leader'' of
     JStr l \<Rightarrow> if l \<in> set available then l else hd available | _ \<Rightarrow> hd available)"

definition squad_available :: "agent_registry \<Rightarrow> js \<Rightarrow> string list" where
  "squad_available reg squad =
     concat (map (\<lambda>m. case m of JStr s \<Rightarrow> if hasAgent reg s then [s] else [] | _ \<Rightarrow> []) (arr (fld squad ''members'')))"

definition resolveSquadAgent ::
  "agent_registry \<Rightarrow> string \<Rightarrow> js \<Rightarrow> js \<Rightarrow> string option \<times> agent_registry" where
  "resolveSquadAgent reg squadName strategy poolStatus =
     (case map_of (squads reg) squadName of None \<Rightarrow> (None, reg)
      | Some squad \<Rightarrow>
         (let strat = or_else strategy (or_else (fld squad ''strategy'') (JStr ''leader-first''));
              available = squad_available reg squad
          in if available = [] then (None, reg)
             else if strat = JStr ''leader-first'' then (Some (leader_first squad available), reg)
             else if strat = JStr ''round-robin'' then
               (let counter = (case map_of (rrCounters reg) squadName of None \<Rightarrow> 0 | Some c \<Rightarrow> c)
                in (Some (available ! (counter mod length available)),
                    reg\<lparr>rrCounters := AList.update squadName (Suc counter) (rrCounters reg)\<rparr>))
             else if strat = JStr ''least-busy'' then
               (if \<not> truthy poolStatus then (Some (leader_first squad available), reg)
                else (Some (least_busy (active_count poolStatus) (hd available) PosInf available), reg))
             else (Some (hd available), reg)))"

definition resolveNodeAgent :: "agent_registry \<Rightarrow> js \<Rightarrow> js \<Rightarrow> js \<times> agent_registry" where
  \<comment> \<open>\<^verbatim>\<open>core/workflow/definition.ts\<close>\<close>
  "resolveNodeAgent reg node poolStatus =
     (let fallback = or_else (fld node ''agent'') JNull
      in if truthy (fld node ''_squad'')
         then (case resolveSquadAgent reg (to_str (fld node ''_squad'')) JUndef poolStatus of
             (Some (c # a), reg') \<Rightarrow> (JStr (c # a), reg') | (_, reg') \<Rightarrow> (fallback, reg'))
         else (fallback, reg))"

section \<open>Routing rules\<close>

definition ROUTING_TASK_CATEGORIES :: "string list" where
  "ROUTING_TASK_CATEGORIES =
     [''bugfix'', ''test'', ''docs'', ''security'', ''frontend'', ''backend'', ''infra'', ''research'', ''review'']"

definition ROUTING_PHASE_ROLES :: "(string \<times> string) list" where
  "ROUTING_PHASE_ROLES =
     [(''plan'', ''planner''), (''execute'', ''executor''), (''verify'', ''verifier''), (''review'', ''reviewer'')]"

definition ROUTING_AGENT_ROLES :: "string list" where
  "ROUTING_AGENT_ROLES = [''planner'', ''executor'', ''verifier'', ''reviewer'']"

definition stringOrNull :: "js \<Rightarrow> string option" where
  "stringOrNull v = (case v of JStr s \<Rightarrow> if trim s \<noteq> [] then Some s else None | _ \<Rightarrow> None)"

definition opt_str :: "string option \<Rightarrow> js" where
  "opt_str s = (case s of None \<Rightarrow> JNull | Some t \<Rightarrow> JStr t)"

lemma stringOrNull_opt [simp]: "stringOrNull (opt_str (stringOrNull v)) = stringOrNull v"
  by (auto simp: stringOrNull_def opt_str_def split: js.splits)

lemma stringOrNull_Some: "stringOrNull v = Some s \<longleftrightarrow> v = JStr s \<and> trim s \<noteq> []"
  by (auto simp: stringOrNull_def split: js.splits)

lemma trim_Nil [simp]: "trim [] = []"
  by (simp add: trim_def trimStart_def trimEnd_def)

definition routingRules :: "js \<Rightarrow> js" where
  "routingRules routing = (if \<not> isRecord routing then JObj []
     else if isRecord (fld routing ''rules'') then fld routing ''rules'' else routing)"

definition isKnownAgent :: "agent_registry \<Rightarrow> string \<Rightarrow> bool" where
  "isKnownAgent reg name = (name = [] \<or> truthy (getDescriptor reg name))"

definition normalizeCategory :: "string \<Rightarrow> string option" where
  "normalizeCategory category = (let v = toLowerCase (trim category)
     in if v \<in> set ROUTING_TASK_CATEGORIES then Some v else None)"

definition resolveRoutingForCategory :: "string \<Rightarrow> js \<Rightarrow> js option" where
  "resolveRoutingForCategory category routing =
     (case normalizeCategory category of None \<Rightarrow> None
      | Some c \<Rightarrow> (let rule = fld (routingRules routing) c
          in if \<not> isRecord rule then None
             else Some (JObj
               [(''category'', JStr c),
                (''workflow'', opt_str (stringOrNull (fld rule ''workflow''))),
                (''planner'', opt_str (stringOrNull (fld rule ''planner''))),
                (''executor'', opt_str (stringOrNull (fld rule ''executor''))),
                (''verifier'', opt_str (stringOrNull (fld rule ''verifier''))),
                (''reviewer'', opt_str (stringOrNull (fld rule ''reviewer''))),
                (''fallback'', or_else (fld rule ''fallback'') JNull),
                (''allowFallback'', JBool (fld rule ''allowFallback'' \<noteq> JBool False))])))"

definition defaultRoutingForCategory :: "agent_registry \<Rightarrow> string \<Rightarrow> string \<Rightarrow> js result" where
  "defaultRoutingForCategory reg category workflow =
     thn (defaultAgentForRole reg ''planner'') (\<lambda>p. thn (defaultAgentForRole reg ''executor'') (\<lambda>e.
     thn (defaultAgentForRole reg ''verifier'') (\<lambda>v. thn (defaultAgentForRole reg ''reviewer'') (\<lambda>r.
       Inr (JObj [(''category'', opt_str (normalizeCategory category)), (''workflow'', JStr workflow),
         (''planner'', JStr p), (''executor'', JStr e), (''verifier'', JStr v), (''reviewer'', JStr r),
         (''fallback'', JNull), (''allowFallback'', JBool True)])))))"

definition resolveEffectiveRouting :: "agent_registry \<Rightarrow> string \<Rightarrow> js \<Rightarrow> js \<Rightarrow> js result" where
  "resolveEffectiveRouting reg category routing workflow =
     (let resolved = resolveRoutingForCategory category routing;
          workflowName = (case stringOrNull workflow of None \<Rightarrow> ''standard'' | Some w \<Rightarrow> w)
      in thn (defaultRoutingForCategory reg category workflowName) (\<lambda>defaults.
        case resolved of None \<Rightarrow> Inr defaults
        | Some r \<Rightarrow> Inr (JObj (spread (spread (own defaults) (own r))
            (map (\<lambda>k. (k, or_else (fld r k) (fld defaults k)))
               [''workflow'', ''planner'', ''executor'', ''verifier'', ''reviewer''])))))"

definition agentForRoutingPhase :: "js \<Rightarrow> string \<Rightarrow> string option \<Rightarrow> string option" where
  "agentForRoutingPhase routing phase role =
     (case (case role of Some (c # r) \<Rightarrow> Some (c # r) | _ \<Rightarrow> map_of ROUTING_PHASE_ROLES phase) of
        None \<Rightarrow> None | Some r \<Rightarrow> stringOrNull (fld routing r))"

definition fallbackAgentForRole :: "js \<Rightarrow> string \<Rightarrow> string option" where
  "fallbackAgentForRole routing role =
     (let fallback = fld routing ''fallback''
      in if \<not> truthy fallback then None
         else case fallback of JStr s \<Rightarrow> Some s
           | _ \<Rightarrow> if isRecord fallback then stringOrNull (fld fallback role) else None)"

subsection \<open>Choosing between the preferred agent and its fallback\<close>

record availability =
  available :: bool
  av_reason :: "string option"

definition nonempty :: "string option \<Rightarrow> string option" where
  \<comment> \<open>\<^verbatim>\<open>s || null\<close>\<close>
  "nonempty s = (case s of Some (c # t) \<Rightarrow> Some (c # t) | _ \<Rightarrow> None)"

definition unavailable_status :: "string \<Rightarrow> bool" where
  "unavailable_status s = (s \<in> set [''unavailable'', ''rate_limited'', ''offline''])"

definition status_text :: "js \<Rightarrow> string" where
  "status_text v = (case fld v ''status'' of JStr s \<Rightarrow> s | _ \<Rightarrow> [])"

definition availabilityFor :: "js \<Rightarrow> string option \<Rightarrow> availability" where
  "availabilityFor agentAvailability agent =
     (case nonempty agent of None \<Rightarrow> \<lparr>available = True, av_reason = None\<rparr>
      | Some a \<Rightarrow>
         if \<not> isRecord agentAvailability then \<lparr>available = True, av_reason = None\<rparr>
         else (let entry = fld agentAvailability a
           in case entry of
             JUndef \<Rightarrow> \<lparr>available = True, av_reason = None\<rparr>
           | JBool b \<Rightarrow> \<lparr>available = b, av_reason = (if b then None else Some ''unavailable'')\<rparr>
           | JObj _ \<Rightarrow>
               \<lparr>available = fld entry ''available'' \<noteq> JBool False \<and> \<not> unavailable_status (status_text entry),
                av_reason = (case stringOrNull (fld entry ''reason'') of None \<Rightarrow> nonempty (Some (status_text entry)) | r \<Rightarrow> r)\<rparr>
           | _ \<Rightarrow> \<lparr>available = truthy entry, av_reason = None\<rparr>))"

record agent_selection =
  preferredAgent :: "string option"
  selectedAgent :: "string option"
  sel_fallbackAgent :: "string option"
  fallbackAllowed :: bool
  fallbackApplied :: bool
  sel_reason :: string

definition reason_or :: "string option \<Rightarrow> string \<Rightarrow> string" where
  "reason_or r d = (case r of None \<Rightarrow> d | Some s \<Rightarrow> s)"

definition selectAgentWithFallback ::
  "string option \<Rightarrow> string option \<Rightarrow> js \<Rightarrow> bool \<Rightarrow> bool \<Rightarrow> agent_selection" where
  "selectAgentWithFallback preferredAgt fallbackAgt agentAvailability allowFallback policyAllows =
     (let preferred = nonempty preferredAgt; fallback = nonempty fallbackAgt;
          permitted = (allowFallback \<and> policyAllows);
          pst = availabilityFor agentAvailability preferred;
          fbk = availabilityFor agentAvailability fallback
      in if preferred = None \<or> available pst
         then \<lparr>preferredAgent = preferred, selectedAgent = preferred, sel_fallbackAgent = fallback,
               fallbackAllowed = permitted, fallbackApplied = False,
               sel_reason = (if preferred \<noteq> None then ''preferred agent available'' else ''no preferred agent'')\<rparr>
         else if \<not> permitted
         then \<lparr>preferredAgent = preferred, selectedAgent = preferred, sel_fallbackAgent = fallback,
               fallbackAllowed = False, fallbackApplied = False,
               sel_reason = ''preferred unavailable: '' @ reason_or (av_reason pst) ''unknown''
                 @ ''; fallback forbidden by policy''\<rparr>
         else if fallback \<noteq> None \<and> available fbk
         then \<lparr>preferredAgent = preferred, selectedAgent = fallback, sel_fallbackAgent = fallback,
               fallbackAllowed = True, fallbackApplied = True,
               sel_reason = reason_or (av_reason pst) ''preferred unavailable''\<rparr>
         else \<lparr>preferredAgent = preferred, selectedAgent = preferred, sel_fallbackAgent = fallback,
               fallbackAllowed = True, fallbackApplied = False,
               sel_reason = ''preferred unavailable: '' @ reason_or (av_reason pst) ''unknown''
                 @ ''; fallback unavailable: '' @ reason_or (av_reason fbk) ''missing''\<rparr>)"

definition health_entry :: "js \<Rightarrow> js" where
  "health_entry health =
     (case health of
        JBool True \<Rightarrow> JObj [(''available'', JBool True)]
      | JBool False \<Rightarrow> JObj [(''available'', JBool False), (''status'', JStr ''unavailable''), (''reason'', JStr ''health check failed'')]
      | JObj _ \<Rightarrow>
         (let status = status_text health
          in if fld health ''healthy'' = JBool False \<or> unavailable_status status
             then JObj [(''available'', JBool False), (''status'', JStr (if status = [] then ''unavailable'' else status)),
                    (''reason'', opt_str (stringOrNull (fld health ''reason'')))]
             else JObj [(''available'', JBool True)])
      | _ \<Rightarrow> JObj [(''available'', JBool True)])"

definition healthToAvailability :: "js \<Rightarrow> js" where
  "healthToAvailability agentHealth = (if \<not> isRecord agentHealth then JNull
     else JObj (fold (\<lambda>(a, h) r. obj_set a (health_entry h) r) (entries agentHealth) []))"

definition resolvePhaseAgentWithFallback ::
  "js \<Rightarrow> string \<Rightarrow> string option \<Rightarrow> js \<Rightarrow> js \<Rightarrow> js \<Rightarrow> agent_selection" where
  "resolvePhaseAgentWithFallback routing phase role agentAvailability agentHealth teamPolicy =
     (case (case nonempty role of Some r \<Rightarrow> Some r | None \<Rightarrow> map_of ROUTING_PHASE_ROLES phase) of
        None \<Rightarrow> \<lparr>preferredAgent = None, selectedAgent = None, sel_fallbackAgent = None,
                 fallbackAllowed = False, fallbackApplied = False, sel_reason = ''unknown phase or role''\<rparr>
      | Some r \<Rightarrow>
         (let avail = (if truthy agentHealth
                then JObj (spread (own agentAvailability) (own (healthToAvailability agentHealth)))
                else agentAvailability);
              teamRouting = recordValue (fld teamPolicy ''routing'')
          in selectAgentWithFallback
               (if truthy routing then agentForRoutingPhase routing phase (Some r) else None)
               (if truthy routing then fallbackAgentForRole routing r else None)
               avail (fld routing ''allowFallback'' \<noteq> JBool False) (fld teamRouting ''allowFallback'' \<noteq> JBool False)))"

subsection \<open>Validation of routing rules\<close>

definition role_errors :: "agent_registry \<Rightarrow> string \<Rightarrow> js \<Rightarrow> string \<Rightarrow> string list" where
  "role_errors reg category rule role =
     (case stringOrNull (fld rule role) of
        Some a \<Rightarrow> if isKnownAgent reg a then []
          else [''routing rule '' @ category @ ''.'' @ role @ '' references unknown agent: '' @ a]
      | None \<Rightarrow> [])
     @ (case nonempty (fallbackAgentForRole rule role) of
        Some a \<Rightarrow> if isKnownAgent reg a then []
          else [''routing rule '' @ category @ ''.fallback.'' @ role @ '' references unknown agent: '' @ a]
      | None \<Rightarrow> [])"

definition rule_errors :: "agent_registry \<Rightarrow> (string \<Rightarrow> bool) \<Rightarrow> string \<Rightarrow> js \<Rightarrow> string list" where
  "rule_errors reg isWorkflow category rule =
     (if category \<notin> set ROUTING_TASK_CATEGORIES then [''unknown routing category: '' @ category]
      else if \<not> isRecord rule then [''routing rule for '' @ category @ '' must be an object'']
      else (case stringOrNull (fld rule ''workflow'') of
          Some w \<Rightarrow> if isWorkflow w then []
            else [''routing rule '' @ category @ '' references unknown workflow: '' @ w]
        | None \<Rightarrow> [])
        @ concat (map (role_errors reg category rule) ROUTING_AGENT_ROLES))"

definition validateRoutingRules :: "agent_registry \<Rightarrow> (string \<Rightarrow> bool) \<Rightarrow> js \<Rightarrow> string list" where
  "validateRoutingRules reg isWorkflow routing =
     concat (map (\<lambda>(category, rule). rule_errors reg isWorkflow category rule) (entries (routingRules routing)))"

definition assertValidRoutingRules :: "agent_registry \<Rightarrow> (string \<Rightarrow> bool) \<Rightarrow> js \<Rightarrow> unit result" where
  "assertValidRoutingRules reg isWorkflow routing =
     (let errors = validateRoutingRules reg isWorkflow routing
      in if errors = [] then Inr () else Inl (ErrorMsg (''invalid routing rules: '' @ join ''; '' errors)))"

section \<open>Lemmas\<close>

lemma nonempty_Some: "nonempty r = Some s \<longleftrightarrow> r = Some s \<and> s \<noteq> []"
  by (auto simp: nonempty_def split: option.splits list.splits)

text \<open>The candidate that wins has the lowest priority number, and among those the least name.\<close>

lemma better_trans: "better_candidate reg a b \<Longrightarrow> better_candidate reg b c \<Longrightarrow> better_candidate reg a c"
  by (auto simp: better_candidate_def)

lemma better_total: "a \<noteq> b \<Longrightarrow> better_candidate reg a b \<or> better_candidate reg b a"
  by (auto simp: better_candidate_def)

lemma better_irrefl: "\<not> better_candidate reg a a"
  by (simp add: better_candidate_def)

lemma fold_better:
  "let b = foldl (\<lambda>best c. if better_candidate reg c best then c else best) c cs in
     b \<in> insert c (set cs) \<and> (\<forall>x \<in> insert c (set cs). \<not> better_candidate reg x b)"
proof (induction cs arbitrary: c)
  case Nil
  then show ?case by (simp add: better_irrefl)
next
  case (Cons d cs)
  let ?c = "if better_candidate reg d c then d else c"
  let ?b = "foldl (\<lambda>best c. if better_candidate reg c best then c else best) ?c cs"
  have b: "?b \<in> insert ?c (set cs)" "\<forall>x \<in> insert ?c (set cs). \<not> better_candidate reg x ?b"
    using Cons [of ?c] unfolding Let_def by - (elim conjE, assumption)+
  have "\<not> better_candidate reg c ?b \<and> \<not> better_candidate reg d ?b"
  proof (cases "better_candidate reg d c")
    case True
    with b(2) show ?thesis using better_trans [OF True] by auto
  next
    case False
    with b(2) have "\<not> better_candidate reg c ?b" by simp
    moreover have "\<not> better_candidate reg d ?b"
    proof
      assume d: "better_candidate reg d ?b"
      with False have "?b \<noteq> c" by auto
      with \<open>\<not> better_candidate reg c ?b\<close> better_total have "better_candidate reg ?b c" by blast
      with d False show False by (blast intro: better_trans)
    qed
    ultimately show ?thesis by simp
  qed
  with b show ?case by (auto simp: Let_def)
qed

lemma pickRoleCandidate_min:
  assumes "pickRoleCandidate reg ds = Some a"
  shows "a \<in> (\<lambda>d. to_str (fld d ''name'')) ` set ds"
    "d \<in> set ds \<Longrightarrow> \<not> better_candidate reg (to_str (fld d ''name'')) a"
proof -
  let ?ns = "map (\<lambda>d. to_str (fld d ''name'')) ds"
  from assms obtain c cs where ns: "?ns = c # cs"
    and a: "a = foldl (\<lambda>best c. if better_candidate reg c best then c else best) c cs"
    by (auto simp: pickRoleCandidate_def split: list.splits)
  have "a \<in> insert c (set cs)" "\<forall>x \<in> insert c (set cs). \<not> better_candidate reg x a"
    using fold_better [of reg c cs] unfolding a Let_def by - (elim conjE, assumption)+
  moreover have "insert c (set cs) = set ?ns" by (simp only: ns list.set)
  ultimately show "a \<in> (\<lambda>d. to_str (fld d ''name'')) ` set ds"
    "d \<in> set ds \<Longrightarrow> \<not> better_candidate reg (to_str (fld d ''name'')) a" by simp_all
qed

lemma pickRoleCandidate_None: "pickRoleCandidate reg ds = None \<longleftrightarrow> ds = []"
  by (cases ds) (simp_all add: pickRoleCandidate_def)

text \<open>The loader files each descriptor under its own, non-empty name.\<close>

definition registry_ok :: "agent_registry \<Rightarrow> bool" where
  "registry_ok reg = (distinct (map fst (registry reg))
     \<and> list_all (\<lambda>(n, d). n \<noteq> [] \<and> fld d ''name'' = JStr n) (registry reg))"

lemma registry_ok_known:
  assumes "registry_ok reg" "d \<in> set (role_owners reg role)"
  shows "\<exists>n. fld d ''name'' = JStr n \<and> n \<noteq> [] \<and> map_of (registry reg) n = Some d"
proof -
  from assms(2) obtain n where "(n, d) \<in> set (registry reg)" by (auto simp: role_owners_def)
  with assms(1) show ?thesis by (auto simp: registry_ok_def list_all_iff)
qed

lemma defaultAgent_owner:
  assumes "registry_ok reg" "defaultAgentForRole reg role = Inr a"
  shows "\<exists>d. map_of (registry reg) a = Some d \<and> JStr role \<in> set (arr (fld d ''defaultRoles''))
      \<and> fld d ''name'' = JStr a
      \<and> (\<forall>e \<in> set (role_owners reg role). (is_acp e \<longrightarrow> is_acp d)
          \<and> (is_acp e = is_acp d \<longrightarrow> \<not> better_candidate reg (to_str (fld e ''name'')) a))"
proof -
  let ?acp = "filter is_acp (role_owners reg role)" and ?other = "filter (\<lambda>d. \<not> is_acp d) (role_owners reg role)"
  have *: ?thesis if ds: "pickRoleCandidate reg ds = Some a" "set ds = {d \<in> set (role_owners reg role). is_acp d = b}"
    "b \<or> ?acp = []" for ds b
  proof -
    from pickRoleCandidate_min(1) [OF ds(1)] ds(2) obtain d where
      d: "d \<in> set (role_owners reg role)" "is_acp d = b" "a = to_str (fld d ''name'')" by auto
    from registry_ok_known [OF assms(1) d(1)] d(3)
    have n: "fld d ''name'' = JStr a" "map_of (registry reg) a = Some d" by auto
    have "\<forall>e \<in> set (role_owners reg role). is_acp e = is_acp d \<longrightarrow> \<not> better_candidate reg (to_str (fld e ''name'')) a"
      using pickRoleCandidate_min(2) [OF ds(1)] ds(2) d(2) by auto
    moreover have "\<forall>e \<in> set (role_owners reg role). is_acp e \<longrightarrow> is_acp d"
      using ds(3) d(2) by (auto simp: filter_empty_conv)
    ultimately show ?thesis using n d(1) by (auto simp: role_owners_def)
  qed
  show ?thesis
  proof (cases "pickRoleCandidate reg ?acp")
    case None
    with assms(2) have "pickRoleCandidate reg ?other = Some a"
      by (auto simp: defaultAgentForRole_def Let_def split: option.splits list.splits)
    then show ?thesis using None by (intro * [where b = False]) (auto simp: pickRoleCandidate_None)
  next
    case (Some a')
    with assms(2) have "pickRoleCandidate reg ?acp = Some a"
      by (auto simp: defaultAgentForRole_def Let_def split: list.splits)
    then show ?thesis by (intro * [where b = True]) auto
  qed
qed

subsection \<open>Squads\<close>

text \<open>Calling the round-robin squad \<open>k\<close> times.\<close>

fun rr_calls :: "nat \<Rightarrow> agent_registry \<Rightarrow> string \<Rightarrow> string option list" where
  "rr_calls 0 reg name = []"
| "rr_calls (Suc k) reg name = (let (a, reg') = resolveSquadAgent reg name JUndef JUndef in a # rr_calls k reg' name)"

definition rr_counter :: "agent_registry \<Rightarrow> string \<Rightarrow> nat" where
  "rr_counter reg name = (case map_of (rrCounters reg) name of None \<Rightarrow> 0 | Some c \<Rightarrow> c)"

lemma rr_step:
  assumes "map_of (squads reg) name = Some squad" "fld squad ''strategy'' = JStr ''round-robin''"
    "squad_available reg squad \<noteq> []"
  shows "resolveSquadAgent reg name JUndef JUndef =
    (Some (squad_available reg squad ! (rr_counter reg name mod length (squad_available reg squad))),
     reg\<lparr>rrCounters := AList.update name (Suc (rr_counter reg name)) (rrCounters reg)\<rparr>)"
  using assms by (simp add: resolveSquadAgent_def or_else_def rr_counter_def Let_def)

lemma squad_available_counters [simp]:
  "hasAgent (reg\<lparr>rrCounters := cs\<rparr>) = hasAgent reg"
  "squad_available (reg\<lparr>rrCounters := cs\<rparr>) squad = squad_available reg squad"
proof -
  show h: "hasAgent (reg\<lparr>rrCounters := cs\<rparr>) = hasAgent reg" by (simp add: hasAgent_def fun_eq_iff)
  show "squad_available (reg\<lparr>rrCounters := cs\<rparr>) squad = squad_available reg squad"
    unfolding squad_available_def h by (rule refl)
qed

lemma rr_calls_rotate:
  assumes "map_of (squads reg) name = Some squad" "fld squad ''strategy'' = JStr ''round-robin''"
    "squad_available reg squad \<noteq> []"
  shows "rr_calls k reg name =
    map (\<lambda>i. Some (squad_available reg squad ! ((rr_counter reg name + i) mod length (squad_available reg squad)))) [0..<k]"
  using assms
proof (induction k arbitrary: reg)
  case 0
  then show ?case by simp
next
  case (Suc k)
  let ?reg = "reg\<lparr>rrCounters := AList.update name (Suc (rr_counter reg name)) (rrCounters reg)\<rparr>"
  have c: "rr_counter ?reg name = Suc (rr_counter reg name)" by (simp add: rr_counter_def update_conv)
  have IH: "rr_calls k ?reg name = map (\<lambda>i. Some (squad_available reg squad !
      ((Suc (rr_counter reg name) + i) mod length (squad_available reg squad)))) [0..<k]"
    using Suc.IH [of ?reg] Suc.prems c by simp
  show ?case
    by (simp add: rr_step [OF Suc.prems] IH upt_conv_Cons map_Suc_upt [symmetric] del: upt_Suc)
qed

subsection \<open>Fallback selection\<close>

lemma select_cases:
  "selectAgentWithFallback p f av allow policy = s \<Longrightarrow>
     selectedAgent s = (if fallbackApplied s then nonempty f else nonempty p)
   \<and> (fallbackApplied s \<longleftrightarrow> nonempty p \<noteq> None \<and> \<not> available (availabilityFor av (nonempty p))
        \<and> allow \<and> policy \<and> nonempty f \<noteq> None \<and> available (availabilityFor av (nonempty f)))"
  by (auto simp: selectAgentWithFallback_def Let_def split: if_splits)

subsection \<open>Valid rules only name known agents\<close>

lemma role_errors_known:
  "role_errors reg category rule role = [] \<Longrightarrow> stringOrNull (fld rule role) = Some a \<Longrightarrow> isKnownAgent reg a"
  by (auto simp: role_errors_def split: if_splits)

lemma fld_in_entries: "fld v k \<noteq> JUndef \<Longrightarrow> (k, fld v k) \<in> set (entries v)"
  by (cases v) (auto simp: set_entries fld_def obj_get_def dest: map_of_SomeD split: option.splits)

lemma valid_rule_known:
  assumes "assertValidRoutingRules reg isW routing = Inr ()" "isRecord (fld (routingRules routing) c)"
    "role \<in> set ROUTING_AGENT_ROLES" "stringOrNull (fld (fld (routingRules routing) c) role) = Some a"
  shows "isKnownAgent reg a"
proof -
  let ?rule = "fld (routingRules routing) c"
  from assms(2) have "?rule \<noteq> JUndef" by auto
  then have "(c, ?rule) \<in> set (entries (routingRules routing))" by (rule fld_in_entries)
  with assms(1) have "rule_errors reg isW c ?rule = []"
    by (auto simp: assertValidRoutingRules_def validateRoutingRules_def Let_def split: if_splits)
  with assms(2,3) have "role_errors reg c ?rule role = []" by (auto simp: rule_errors_def split: if_splits)
  then show ?thesis using assms(4) by (rule role_errors_known)
qed

lemma registered_known:
  assumes "registry_ok reg" "map_of (registry reg) a = Some d"
  shows "isKnownAgent reg a"
proof -
  from assms(2) have "(a, d) \<in> set (registry reg)" by (rule map_of_SomeD)
  with assms(1) have "fld d ''name'' = JStr a" by (auto simp: registry_ok_def list_all_iff)
  then have "truthy d" by (cases d) auto
  with assms(2) show ?thesis by (simp add: isKnownAgent_def getDescriptor_def)
qed

end
