(* ===== verification/Workflows.thy ===== *)
theory Workflows
  imports DagCore AgentRouting
begin

text \<open>
  Workflow definitions and their normalisation into DAGs (\<^verbatim>\<open>core/workflow/definition.ts\<close>), the
  projection of a workflow onto the phases of a concrete run (\<^verbatim>\<open>core/engine/dag-builder.ts\<close>), and
  the plan-mode policy (\<^verbatim>\<open>core/engine/phase-policy.ts\<close>, \<^verbatim>\<open>core/triage/schema.ts\<close>).

  The two module-level tables of \<^verbatim>\<open>definition.ts\<close>, the workflows and the cache of normalised DAGs,
  are the record \<open>workflow_store\<close>; the operations that change them return the new store.
\<close>

section \<open>Workflow definitions\<close>

record workflow =
  wf_name :: string
  wf_stub :: bool
  wf_phases :: "string list"
  wf_roleForPhase :: js
  wf_dispatchForPhase :: js
  wf_requireSubagents :: js
  wf_nodes :: "js list option"
  wf_maxConcurrentNodes :: js
  wf_verificationLayers :: js
  wf_subagentConfig :: js

definition wf_node :: "string \<Rightarrow> string \<Rightarrow> string list \<Rightarrow> js" where
  "wf_node i role deps = JObj [(''id'', JStr i), (''phase'', JStr i), (''role'', JStr role), (''dependsOn'', jstrs deps)]"

definition builtin_workflow :: "string \<Rightarrow> (string \<times> string) list \<Rightarrow> js list \<Rightarrow> workflow" where
  "builtin_workflow name roles nodes =
     \<lparr>wf_name = name, wf_stub = False, wf_phases = map fst roles,
      wf_roleForPhase = JObj (map (\<lambda>(p, r). (p, JStr r)) roles),
      wf_dispatchForPhase = JObj (map (\<lambda>(p, r). (p, JStr r)) roles),
      wf_requireSubagents = JUndef, wf_nodes = Some nodes, wf_maxConcurrentNodes = jnat 1,
      wf_verificationLayers = JUndef, wf_subagentConfig = JUndef\<rparr>"

definition WORKFLOWS :: "(string \<times> workflow) list" where
  "WORKFLOWS =
     (let three = [wf_node ''plan'' ''planner'' [], wf_node ''execute'' ''executor'' [''plan''],
                   wf_node ''verify'' ''verifier'' [''execute'']]
      in [(''standard'', builtin_workflow ''standard''
             [(''plan'', ''planner''), (''execute'', ''executor''), (''verify'', ''verifier'')] three),
          (''direct'', builtin_workflow ''direct'' [(''execute'', ''executor''), (''verify'', ''verifier'')]
             [wf_node ''execute'' ''executor'' [], wf_node ''verify'' ''verifier'' [''execute'']]),
          (''complex'', builtin_workflow ''complex''
             [(''plan'', ''planner''), (''execute'', ''executor''), (''review'', ''reviewer''), (''verify'', ''verifier'')]
             [wf_node ''plan'' ''planner'' [], wf_node ''execute'' ''executor'' [''plan''],
              wf_node ''review'' ''reviewer'' [''execute''], wf_node ''verify'' ''verifier'' [''review'']]),
          (''blocked'', builtin_workflow ''blocked'' [] []),
          (''accelerated'', (builtin_workflow ''accelerated''
             [(''plan'', ''planner''), (''execute'', ''executor''), (''verify'', ''verifier'')] three)
             \<lparr>wf_stub := True,
              wf_requireSubagents := JObj [(''plan'', JBool True), (''execute'', JBool True),
                (''verify'', JBool True), (''remediate'', JBool True)],
              wf_subagentConfig := JObj [(''maxConcurrency'', jnat 3)],
              wf_verificationLayers := jstrs [''fast'', ''changed'', ''regression'', ''acceptance'']\<rparr>)])"

record dag_edge =
  edge_from :: js
  edge_to :: js

record workflow_dag =
  dag_name :: string
  dag_node_list :: "js list"
  dag_edges :: "dag_edge list"
  dag_maxConcurrentNodes :: js
  isDag :: bool
  dag_routing :: "js option"

record workflow_store =
  workflows :: "(string \<times> workflow) list"
  dagCache :: "(string \<times> workflow_dag) list"

definition initial_store :: workflow_store where
  "initial_store = \<lparr>workflows = WORKFLOWS, dagCache = []\<rparr>"

definition getWorkflow :: "workflow_store \<Rightarrow> string \<Rightarrow> workflow result" where
  \<comment> \<open>\<^verbatim>\<open>WORKFLOWS[name] ?? WORKFLOWS.standard\<close>; \<open>standard\<close> is never removed\<close>
  "getWorkflow store name = (case map_of (workflows store) name of Some wfl \<Rightarrow> Inr wfl
     | None \<Rightarrow> (case map_of (workflows store) ''standard'' of Some wfl \<Rightarrow> Inr wfl
         | None \<Rightarrow> Inl (TypeError ''workflow is undefined'')))"

definition nextPhase :: "workflow \<Rightarrow> string option \<Rightarrow> string option" where
  "nextPhase wfl currentPhase =
     (let phases = wf_phases wfl
      in if phases = [] then None
         else case currentPhase of None \<Rightarrow> Some (phases ! 0)
           | Some p \<Rightarrow> (case index_of p phases of None \<Rightarrow> None
               | Some idx \<Rightarrow> if int idx \<ge> int (length phases) - 1 then None else Some (phases ! (idx + 1))))"

definition dispatchForPhase :: "workflow \<Rightarrow> string \<Rightarrow> js" where
  "dispatchForPhase wfl phase = nullish_or (fld (wf_dispatchForPhase wfl) phase) JNull"

definition roleForPhase :: "workflow \<Rightarrow> string \<Rightarrow> js" where
  "roleForPhase wfl phase = nullish_or (fld (wf_roleForPhase wfl) phase) JNull"

definition phaseRequiresSubagents :: "workflow \<Rightarrow> string \<Rightarrow> bool" where
  "phaseRequiresSubagents wfl phase = (fld (wf_requireSubagents wfl) phase = JBool True)"

definition getVerificationLayers :: "workflow \<Rightarrow> js" where
  "getVerificationLayers wfl = nullish_or (wf_verificationLayers wfl) JNull"

definition getSubagentConfig :: "workflow \<Rightarrow> js" where
  "getSubagentConfig wfl = nullish_or (wf_subagentConfig wfl) JNull"

definition listWorkflows :: "workflow_store \<Rightarrow> string list" where
  "listWorkflows store = map fst (filter (\<lambda>(k, wfl). \<not> wf_stub wfl) (workflows store))"

definition isWorkflowName :: "workflow_store \<Rightarrow> string \<Rightarrow> bool" where
  "isWorkflowName store name = (case map_of (workflows store) name of None \<Rightarrow> False | Some wfl \<Rightarrow> \<not> wf_stub wfl)"

section \<open>Normalisation\<close>

definition buildEdges :: "js list \<Rightarrow> dag_edge list" where
  "buildEdges nodes = concat (map (\<lambda>n. map (\<lambda>dep. \<lparr>edge_from = dep, edge_to = fld n ''id''\<rparr>) (arr (fld n ''dependsOn''))) nodes)"

definition resolveSquadsInNodes :: "js list \<Rightarrow> js list" where
  "resolveSquadsInNodes nodes = map (\<lambda>n. if \<not> truthy (fld n ''squad'') then n
     else JObj (obj_set ''_squad'' (fld n ''squad'') (own n))) nodes"

definition applyRoutingAgents :: "js list \<Rightarrow> js \<Rightarrow> js list" where
  "applyRoutingAgents nodes selection = map (\<lambda>n.
     case agentForRoutingPhase selection (to_str (fld n ''phase''))
            (case fld n ''role'' of JStr r \<Rightarrow> Some r | _ \<Rightarrow> None) of
       Some (c # a) \<Rightarrow> JObj (obj_set ''agent'' (JStr (c # a)) (own n)) | _ \<Rightarrow> n) nodes"

definition normalized_dag :: "workflow \<Rightarrow> js list \<Rightarrow> workflow_dag" where
  "normalized_dag wfl nodes =
     \<lparr>dag_name = wf_name wfl, dag_node_list = resolveSquadsInNodes nodes, dag_edges = buildEdges nodes,
      dag_maxConcurrentNodes = or_else (wf_maxConcurrentNodes wfl) (jnat 1), isDag = True, dag_routing = None\<rparr>"

definition normalizeWorkflow :: "string \<Rightarrow> workflow_store \<Rightarrow> workflow_dag result \<times> workflow_store" where
  "normalizeWorkflow name store =
     (case getWorkflow store name of Inl e \<Rightarrow> (Inl e, store)
      | Inr wfl \<Rightarrow>
         (case wf_nodes wfl of
            None \<Rightarrow> (Inl (ErrorMsg (''workflow '' @ name @ '' is missing its explicit DAG definition'')), store)
          | Some nodes \<Rightarrow>
             (case map_of (dagCache store) (wf_name wfl) of
                Some dag \<Rightarrow> (Inr dag, store)
              | None \<Rightarrow>
                 (let errors = validateDag nodes; dag = normalized_dag wfl nodes
                  in if errors \<noteq> []
                     then (Inl (ErrorMsg (''workflow '' @ name @ '' has invalid DAG: '' @ join '', '' errors)), store)
                     else (Inr dag, store\<lparr>dagCache := AList.update (wf_name wfl) dag (dagCache store)\<rparr>)))))"

definition normalizeWorkflowWithRouting ::
  "agent_registry \<Rightarrow> string \<Rightarrow> string \<Rightarrow> js \<Rightarrow> workflow_store \<Rightarrow> workflow_dag result" where
  "normalizeWorkflowWithRouting reg name category routing store =
     (let rules = or_else routing (JObj [])
      in thn (assertValidRoutingRules reg (isWorkflowName store) rules) (\<lambda>_.
         thn (resolveEffectiveRouting reg category rules (JStr name)) (\<lambda>selection.
         thn (getWorkflow store (case fld selection ''workflow'' of JStr (c # w) \<Rightarrow> c # w | _ \<Rightarrow> name)) (\<lambda>wfl.
         case wf_nodes wfl of
           None \<Rightarrow> Inl (ErrorMsg (''workflow '' @ wf_name wfl @ '' is missing its explicit DAG definition''))
         | Some baseNodes \<Rightarrow>
            (let errors = validateDag baseNodes; nodes = applyRoutingAgents (resolveSquadsInNodes baseNodes) selection
             in if errors \<noteq> []
                then Inl (ErrorMsg (''workflow '' @ wf_name wfl @ '' has invalid DAG: '' @ join '', '' errors))
                else Inr ((normalized_dag wfl nodes)\<lparr>dag_routing := Some selection\<rparr>))))))"

definition getDagNodes :: "string \<Rightarrow> workflow_store \<Rightarrow> js list result \<times> workflow_store" where
  "getDagNodes name store = (case normalizeWorkflow name store of
     (Inl e, store') \<Rightarrow> (Inl e, store') | (Inr dag, store') \<Rightarrow> (Inr (dag_node_list dag), store'))"

definition phase_roles :: "js list \<Rightarrow> js" where
  \<comment> \<open>\<^verbatim>\<open>Object.fromEntries(nodes.map((n) => [n.phase, n.role || "executor"]))\<close>\<close>
  "phase_roles nodes = JObj (foldl (\<lambda>m n. obj_set (to_str (fld n ''phase''))
     (or_else (fld n ''role'') (JStr ''executor'')) m) [] nodes)"

definition registerDagWorkflow ::
  "string \<Rightarrow> js list \<Rightarrow> js \<Rightarrow> workflow_store \<Rightarrow> unit result \<times> workflow_store" where
  "registerDagWorkflow name nodes maxConcurrentNodes store =
     (let errors = validateDag nodes
      in if errors \<noteq> [] then (Inl (ErrorMsg (''invalid DAG: '' @ join '', '' errors)), store)
         else (Inr (), store
           \<lparr>workflows := AList.update name
              \<lparr>wf_name = name, wf_stub = False, wf_phases = map (\<lambda>n. to_str (fld n ''phase'')) nodes,
               wf_roleForPhase = phase_roles nodes, wf_dispatchForPhase = phase_roles nodes,
               wf_requireSubagents = JUndef, wf_nodes = Some nodes,
               wf_maxConcurrentNodes = (if maxConcurrentNodes = JUndef then jnat 2 else maxConcurrentNodes),
               wf_verificationLayers = JUndef, wf_subagentConfig = JUndef\<rparr> (workflows store),
            dagCache := AList.delete name (dagCache store)\<rparr>))"

section \<open>Plan modes\<close>

definition WORKFLOW_DEFAULT_PLAN_MODE :: "(string \<times> string) list" where
  "WORKFLOW_DEFAULT_PLAN_MODE =
     [(''direct'', ''none''), (''standard'', ''full''), (''complex'', ''full''), (''blocked'', ''none'')]"

definition defaultPlanModeForWorkflow :: "string \<Rightarrow> string" where
  "defaultPlanModeForWorkflow wfl = (case map_of WORKFLOW_DEFAULT_PLAN_MODE wfl of Some m \<Rightarrow> m | None \<Rightarrow> ''light'')"

definition escape_hatch :: string where
  "escape_hatch = ''planMode '' @ dquote @ ''none'' @ dquote @ '' is an escape hatch '' @ em_dash
     @ '' do not use for normal durable mutating jobs''"

definition applyPlanMode :: "string list \<Rightarrow> string \<Rightarrow> string \<Rightarrow> string list \<times> string option" where
  "applyPlanMode phases planMode workflowName =
     (if workflowName = ''direct'' \<and> planMode = ''none''
      then (filter (\<lambda>p. p = ''execute'') phases, Some escape_hatch)
      else if planMode = ''full'' then (phases, None)
      else if planMode = ''light'' then (filter (\<lambda>p. p \<noteq> ''plan'' \<and> p \<noteq> ''review'') phases, None)
      else if planMode = ''none'' then (filter (\<lambda>p. p \<noteq> ''plan'' \<and> p \<noteq> ''review'') phases, Some escape_hatch)
      else if planMode = ''parent'' then (filter (\<lambda>p. p = ''plan'') phases, None)
      else (phases, None))"

record semantic_phases =
  sp_phases :: "string list"
  resolvedPlanMode :: string
  sp_warning :: "string option"

definition resolveSemanticPhases :: "workflow_store \<Rightarrow> string \<Rightarrow> string \<Rightarrow> semantic_phases result" where
  "resolveSemanticPhases store workflow planMode =
     (let workflowName = (if isWorkflowName store workflow then workflow else ''standard'')
      in thn (getWorkflow store workflowName) (\<lambda>wfl.
        let mode = (if planMode = ''auto'' then defaultPlanModeForWorkflow workflowName
                    else if planMode = [] then ''full'' else planMode);
            r = applyPlanMode (wf_phases wfl) mode workflowName
        in Inr \<lparr>sp_phases = fst r, resolvedPlanMode = mode, sp_warning = snd r\<rparr>))"

definition validatePhasePolicy :: "string list \<Rightarrow> string \<Rightarrow> string option" where
  \<comment> \<open>\<open>None\<close> is \<^verbatim>\<open>valid: true\<close>, otherwise the reason\<close>
  "validatePhasePolicy phases mode =
     (if mode = ''none'' then Some (''planMode '' @ dquote @ ''none'' @ dquote @ '' is an escape hatch '' @ em_dash
          @ '' not allowed for mutating durable jobs'')
      else if mode = ''parent'' then Some (''planMode '' @ dquote @ ''parent'' @ dquote
          @ '' produces no execution phases '' @ em_dash @ '' not allowed for mutating durable jobs'')
      else if ''verify'' \<notin> set phases then Some (''planMode '' @ dquote @ mode @ dquote
          @ '' resolved without verify phase '' @ em_dash @ '' verify is required for mutating jobs'')
      else None)"

section \<open>Building the DAG of a run\<close>

definition nonEmptyString :: "js \<Rightarrow> string option" where
  "nonEmptyString v = (case v of JStr s \<Rightarrow> if trim s \<noteq> [] then Some s else None | _ \<Rightarrow> None)"

definition deps_strings :: "js \<Rightarrow> string list" where
  \<comment> \<open>\<^verbatim>\<open>Array.isArray(v) ? v.map(String).filter(Boolean) : []\<close>\<close>
  "deps_strings v = filter (\<lambda>s. s \<noteq> []) (map to_str (arr v))"

definition or_opt :: "'a option \<Rightarrow> 'a option \<Rightarrow> 'a option" where
  "or_opt a b = (case a of None \<Rightarrow> b | Some _ \<Rightarrow> a)"

definition node_phase :: "js \<Rightarrow> string option" where
  "node_phase n = or_opt (nonEmptyString (fld n ''phase'')) (nonEmptyString (fld n ''id''))"

definition node_key :: "js \<Rightarrow> string option" where
  "node_key n = or_opt (nonEmptyString (fld n ''id'')) (node_phase n)"

definition duplicate_id :: "string \<Rightarrow> string \<Rightarrow> js_error" where
  "duplicate_id workflow i = ErrorMsg (''workflow '' @ workflow @ '' has duplicate node id: '' @ i)"

text \<open>\<open>index_base\<close> fills \<^verbatim>\<open>baseNodeById\<close>; only the dependencies of its nodes are read later.\<close>

fun index_base :: "string \<Rightarrow> js list \<Rightarrow> (string \<times> string list) list \<Rightarrow> (string \<times> string list) list result" where
  "index_base workflow [] m = Inr m"
| "index_base workflow (n # ns) m =
     (case (node_phase n, node_key n) of
        (Some _, Some i) \<Rightarrow> if i \<in> fst ` set m then Inl (duplicate_id workflow i)
           else index_base workflow ns (m @ [(i, deps_strings (fld n ''dependsOn''))])
      | _ \<Rightarrow> index_base workflow ns m)"

definition phase_budget :: "string list \<Rightarrow> (string \<times> nat) list" where
  "phase_budget phases = foldl (\<lambda>b p. AList.update p (Suc (case map_of b p of None \<Rightarrow> 0 | Some k \<Rightarrow> k)) b) [] phases"

definition push_node :: "string \<Rightarrow> string \<Rightarrow> js \<Rightarrow> (string \<times> js) list \<Rightarrow> (string \<times> js) list result" where
  \<comment> \<open>the nodes pushed so far, with their ids\<close>
  "push_node workflow i n nodes =
     (if trim i = [] then Inl (ErrorMsg (''workflow '' @ workflow @ '' has node missing id''))
      else if i \<in> fst ` set nodes then Inl (duplicate_id workflow i)
      else Inr (nodes @ [(i, n)]))"

definition with_fields :: "js \<Rightarrow> string \<Rightarrow> string \<Rightarrow> js \<Rightarrow> string list \<Rightarrow> js" where
  "with_fields n i phase role deps = JObj (spread (own n)
     [(''id'', JStr i), (''phase'', JStr phase), (''role'', role), (''dependsOn'', jstrs deps)])"

definition role_of_phase :: "js \<Rightarrow> string \<Rightarrow> js" where
  "role_of_phase phaseRoleMap phase = or_else (fld phaseRoleMap phase) (JStr phase)"

fun take_base ::
  "string \<Rightarrow> js \<Rightarrow> js list \<Rightarrow> (string \<times> nat) list \<Rightarrow> (string \<times> js) list
   \<Rightarrow> ((string \<times> nat) list \<times> (string \<times> js) list) result" where
  "take_base workflow prm [] budget nodes = Inr (budget, nodes)"
| "take_base workflow prm (n # ns) budget nodes =
     (case node_phase n of None \<Rightarrow> take_base workflow prm ns budget nodes
      | Some phase \<Rightarrow>
         (case map_of budget phase of
            Some (Suc remaining) \<Rightarrow>
             (let i = (case nonEmptyString (fld n ''id'') of Some i \<Rightarrow> i | None \<Rightarrow> phase);
                  role = (case nonEmptyString (fld n ''role'') of Some r \<Rightarrow> JStr r | None \<Rightarrow> role_of_phase prm phase)
              in thn (push_node workflow i (with_fields n i phase role (deps_strings (fld n ''dependsOn''))) nodes)
                   (take_base workflow prm ns (AList.update phase remaining budget)))
          | _ \<Rightarrow> take_base workflow prm ns budget nodes))"

definition fallback_id :: "string \<Rightarrow> nat \<Rightarrow> string" where
  "fallback_id phase idx = (if idx = 0 then phase else phase @ ''_'' @ show_nat (idx + 1))"

definition fallback_node :: "js \<Rightarrow> string \<Rightarrow> string \<Rightarrow> (string \<times> js) list \<Rightarrow> js" where
  "fallback_node prm phase i nodes = JObj [(''id'', JStr i), (''phase'', JStr phase), (''role'', role_of_phase prm phase),
     (''dependsOn'', jstrs (if nodes = [] then [] else [fst (last nodes)]))]"

fun push_fallbacks :: "string \<Rightarrow> js \<Rightarrow> (string \<times> nat) list \<Rightarrow> (string \<times> js) list \<Rightarrow> (string \<times> js) list result" where
  \<comment> \<open>the (phase, index) pairs still missing, in order\<close>
  "push_fallbacks workflow prm [] nodes = Inr nodes"
| "push_fallbacks workflow prm ((phase, idx) # todo) nodes =
     thn (push_node workflow (fallback_id phase idx) (fallback_node prm phase (fallback_id phase idx) nodes) nodes)
       (push_fallbacks workflow prm todo)"

definition missing_phases :: "(string \<times> nat) list \<Rightarrow> (string \<times> nat) list" where
  "missing_phases budget = concat (map (\<lambda>(phase, k). map (\<lambda>idx. (phase, idx)) [0..<k]) budget)"

text \<open>The dependencies on nodes that the run leaves out are replaced by the nearest ancestors that
  it keeps. Each recursive call adds a base node to \<open>visiting\<close>.\<close>

function projected_deps ::
  "string \<Rightarrow> (string \<times> string list) list \<Rightarrow> string set \<Rightarrow> string \<Rightarrow> string list \<Rightarrow> string set \<Rightarrow> string list
   \<Rightarrow> string list result" where
  "projected_deps workflow base included owner [] visiting projected = Inr projected"
| "projected_deps workflow base included owner (d # ds) visiting projected =
     (if d \<in> included then projected_deps workflow base included owner ds visiting (set_add d projected)
      else case map_of base d of
        None \<Rightarrow> Inl (ErrorMsg (''workflow '' @ workflow @ '' has unknown dependency for node '' @ owner @ '': '' @ d))
      | Some deps \<Rightarrow>
          if d \<in> visiting
          then Inl (ErrorMsg (''workflow '' @ workflow @ '' has cyclic projected dependency at node '' @ d))
          else thn (projected_deps workflow base included owner deps (insert d visiting) [])
                 (\<lambda>ancestors. projected_deps workflow base included owner ds visiting
                    (foldl (\<lambda>acc a. set_add a acc) projected ancestors)))"
  by pat_completeness auto
termination
proof (relation "measures [\<lambda>(w, base, inc, ow, ds, visiting, pr). card (fst ` set base - visiting),
                           \<lambda>(w, base, inc, ow, ds, visiting, pr). length ds]", goal_cases)
  case 1
  show ?case by simp
next
  case (2 workflow base included owner d ds visiting projected)
  show ?case by simp
next
  case (3 workflow base included owner d ds visiting projected deps)
  then have "d \<in> fst ` set base - visiting" by (force dest: map_of_SomeD)
  then have "fst ` set base - insert d visiting \<subset> fst ` set base - visiting" by blast
  then have "card (fst ` set base - insert d visiting) < card (fst ` set base - visiting)"
    by (intro psubset_card_mono) simp_all
  then show ?case by simp
next
  case (4 workflow base included owner d ds visiting projected deps ancestors)
  show ?case by simp
qed

definition node_list_deps :: "js \<Rightarrow> string list" where
  \<comment> \<open>\<^verbatim>\<open>(n.dependsOn || []).filter((depId) => typeof depId === "string")\<close>\<close>
  "node_list_deps n = concat (map (\<lambda>d. case d of JStr s \<Rightarrow> [s] | _ \<Rightarrow> []) (arr (fld n ''dependsOn'')))"

definition project_node ::
  "string \<Rightarrow> (string \<times> string list) list \<Rightarrow> string set \<Rightarrow> string \<times> js \<Rightarrow> (string \<times> js) result" where
  "project_node workflow base included = (\<lambda>(i, n).
     thn (projected_deps workflow base included i (node_list_deps n) {i} [])
       (\<lambda>deps. Inr (i, JObj (obj_set ''dependsOn'' (jstrs deps) (own n)))))"

record run_dag =
  rd_name :: string
  rd_nodes :: "js list"
  rd_edges :: "(string \<times> js) list"
  rd_maxConcurrentNodes :: jsnum
  rd_isDag :: bool

definition run_nodes :: "string \<Rightarrow> js list \<Rightarrow> string list \<Rightarrow> js \<Rightarrow> (string \<times> js) list result" where
  "run_nodes workflow baseNodes phases prm =
     thn (index_base workflow baseNodes []) (\<lambda>base.
     thn (take_base workflow prm baseNodes (phase_budget phases) []) (\<lambda>(budget, taken).
     thn (push_fallbacks workflow prm (missing_phases budget) taken) (\<lambda>nodes.
     map_r (project_node workflow base (fst ` set nodes)) nodes)))"

definition buildWorkflowDag ::
  "string \<Rightarrow> string list \<Rightarrow> js \<Rightarrow> workflow_store \<Rightarrow> run_dag result \<times> workflow_store" where
  "buildWorkflowDag workflow phases prm store =
     (case normalizeWorkflow workflow store of
        (Inl e, store') \<Rightarrow> (Inl e, store')
      | (Inr base, store') \<Rightarrow>
         (thn (run_nodes workflow (dag_node_list base) phases prm) (\<lambda>nodes. Inr
            \<lparr>rd_name = (if dag_name base \<noteq> [] then dag_name base else if workflow \<noteq> [] then workflow else ''standard''),
             rd_nodes = map snd nodes,
             rd_edges = concat (map (\<lambda>(i, n). map (\<lambda>d. (d, fld n ''id'')) (node_list_deps n)) nodes),
             rd_maxConcurrentNodes = (let m = to_num (dag_maxConcurrentNodes base)
               in if m = NaN \<or> m = Fin 0 then Fin 1 else m),
             rd_isDag = (nodes \<noteq> [])\<rparr>), store'))"

definition insertAdversarialVerify :: "string list \<Rightarrow> js \<Rightarrow> string list" where
  "insertAdversarialVerify phases riskMap =
     (if \<not> truthy (fld riskMap ''adversarialRequired'') \<or> ''verify'' \<notin> set phases \<or> ''adversarial_verify'' \<in> set phases
      then phases
      else concat (map (\<lambda>p. if p = ''verify'' then [p, ''adversarial_verify''] else [p]) phases))"

definition validateDagForMutatingJob :: "js \<Rightarrow> string option" where
  "validateDagForMutatingJob dag =
     (if \<exists>n \<in> set (arr (fld dag ''nodes'')). fld n ''phase'' = JStr ''verify'' then None
      else Some ''Mutating job requires a verify phase in the DAG'')"

end
