(* ===== verification/RunDag.thy ===== *)
theory RunDag
  imports Workflows "HOL-Library.Multiset"
begin

text \<open>
  Properties of \<open>Workflows\<close>: the cache of normalised DAGs stays coherent with the workflow table,
  and projecting a workflow whose nodes are named by their phases, as in every shipped one, onto the phases of a
  run gives a valid DAG that has exactly those phases and keeps the order of the workflow.
\<close>

section \<open>The cache\<close>

definition store_ok :: "workflow_store \<Rightarrow> bool" where
  "store_ok store \<longleftrightarrow>
     (\<forall>k wfl. map_of (workflows store) k = Some wfl \<longrightarrow> wf_name wfl = k)
   \<and> (\<forall>k dag. map_of (dagCache store) k = Some dag \<longrightarrow>
        (\<exists>wfl nodes. map_of (workflows store) k = Some wfl \<and> wf_nodes wfl = Some nodes
           \<and> validateDag nodes = [] \<and> dag = normalized_dag wfl nodes))"

lemma store_ok_initial: "store_ok initial_store"
  by (auto simp: store_ok_def initial_store_def WORKFLOWS_def builtin_workflow_def Let_def split: if_splits)

text \<open>The workflow a name stands for.\<close>

definition store_lookup :: "workflow_store \<Rightarrow> string \<Rightarrow> workflow option" where
  "store_lookup store name = or_opt (map_of (workflows store) name) (map_of (workflows store) ''standard'')"

lemma getWorkflow_lookup: "getWorkflow store name = Inr wfl \<longleftrightarrow> store_lookup store name = Some wfl"
  by (auto simp: getWorkflow_def store_lookup_def or_opt_def split: option.splits)

lemma store_lookup_name:
  "store_ok store \<Longrightarrow> store_lookup store name = Some wfl \<Longrightarrow> map_of (workflows store) (wf_name wfl) = Some wfl"
  by (auto simp: store_lookup_def or_opt_def store_ok_def split: option.splits)

text \<open>The answer without the cache.\<close>

definition fresh_dag :: "workflow_store \<Rightarrow> string \<Rightarrow> workflow_dag option" where
  "fresh_dag store name = (case store_lookup store name of None \<Rightarrow> None
     | Some wfl \<Rightarrow> (case wf_nodes wfl of None \<Rightarrow> None
         | Some nodes \<Rightarrow> if validateDag nodes = [] then Some (normalized_dag wfl nodes) else None))"

lemma normalizeWorkflow_fresh:
  assumes "store_ok store" "normalizeWorkflow name store = (r, store')"
  shows "store_ok store' \<and> workflows store' = workflows store
    \<and> (r = (case fresh_dag store name of Some dag \<Rightarrow> Inr dag | None \<Rightarrow> r)) \<and> (fresh_dag store name = None \<longrightarrow> (\<exists>e. r = Inl e))"
proof (cases "store_lookup store name")
  case None
  then obtain e where "getWorkflow store name = Inl e"
    by (cases "getWorkflow store name") (auto simp: getWorkflow_lookup)
  with assms(2) have "r = Inl e" "store' = store" by (simp_all add: normalizeWorkflow_def)
  with None assms(1) show ?thesis by (simp add: fresh_dag_def)
next
  case (Some wfl)
  note look = Some and get = Some [folded getWorkflow_lookup] and name = store_lookup_name [OF assms(1) Some]
  show ?thesis
  proof (cases "wf_nodes wfl")
    case None
    with get assms(2) have "\<exists>e. r = Inl e" "store' = store" by (simp_all add: normalizeWorkflow_def) auto
    with None look assms(1) show ?thesis by (simp add: fresh_dag_def)
  next
    case nodes: (Some nodes)
    show ?thesis
    proof (cases "map_of (dagCache store) (wf_name wfl)")
      case None
      show ?thesis
      proof (cases "validateDag nodes = []")
        case True
        with assms(2) get nodes None have r: "r = Inr (normalized_dag wfl nodes)"
          "store' = store\<lparr>dagCache := AList.update (wf_name wfl) (normalized_dag wfl nodes) (dagCache store)\<rparr>"
          by (simp_all add: normalizeWorkflow_def Let_def)
        have "store_ok store'"
          unfolding store_ok_def
        proof (intro conjI allI impI)
          show "wf_name w = k" if "map_of (workflows store') k = Some w" for k w
            using that assms(1) by (simp add: r store_ok_def)
          fix k dag assume d: "map_of (dagCache store') k = Some dag"
          show "\<exists>w ns. map_of (workflows store') k = Some w \<and> wf_nodes w = Some ns \<and> validateDag ns = [] \<and> dag = normalized_dag w ns"
          proof (cases "k = wf_name wfl")
            case k: True
            with d have "dag = normalized_dag wfl nodes" by (simp add: r update_conv)
            with k name nodes True show ?thesis by (simp add: r)
          next
            case False
            with d have "map_of (dagCache store) k = Some dag" by (simp add: r update_conv)
            with assms(1) show ?thesis by (simp add: r store_ok_def)
          qed
        qed
        with True look nodes r show ?thesis by (simp add: fresh_dag_def)
      next
        case False
        with assms(2) get nodes None have "\<exists>e. r = Inl e" "store' = store"
          by (simp_all add: normalizeWorkflow_def Let_def) auto
        with False look nodes assms(1) show ?thesis by (simp add: fresh_dag_def)
      qed
    next
      case (Some dag)
      with assms(1) obtain w ns where "map_of (workflows store) (wf_name wfl) = Some w" "wf_nodes w = Some ns"
        "validateDag ns = []" "dag = normalized_dag w ns" unfolding store_ok_def by blast
      with name nodes have v: "validateDag nodes = []" "dag = normalized_dag wfl nodes" by simp_all
      from assms(2) get nodes Some have "r = Inr dag" "store' = store" by (simp_all add: normalizeWorkflow_def)
      with v look nodes assms(1) show ?thesis by (simp add: fresh_dag_def)
    qed
  qed
qed

lemma registerDagWorkflow_ok:
  assumes "store_ok store" "registerDagWorkflow name nodes mc store = (r, store')"
  shows "store_ok store'"
proof (cases "validateDag nodes = []")
  case True
  with assms show ?thesis
    by (auto simp: registerDagWorkflow_def Let_def store_ok_def update_conv delete_conv split: if_splits)
next
  case False
  with assms show ?thesis by (simp add: registerDagWorkflow_def Let_def)
qed

section \<open>Small facts about the pieces of the builder\<close>

lemma with_fields_fld [simp]:
  "fld (with_fields n i phase role deps) ''id'' = JStr i"
  "fld (with_fields n i phase role deps) ''phase'' = JStr phase"
  "fld (with_fields n i phase role deps) ''dependsOn'' = jstrs deps"
  by (simp_all add: with_fields_def spread_def fld_obj_set)

lemma fallback_node_fld [simp]:
  "fld (fallback_node prm p i nodes) ''id'' = JStr i" "fld (fallback_node prm p i nodes) ''phase'' = JStr p"
  "fld (fallback_node prm p i nodes) ''dependsOn'' = jstrs (if nodes = [] then [] else [fst (last nodes)])"
  by (simp_all add: fallback_node_def)

definition bud :: "(string \<times> nat) list \<Rightarrow> string \<Rightarrow> nat" where
  "bud b p = (case map_of b p of None \<Rightarrow> 0 | Some k \<Rightarrow> k)"

lemma bud_update [simp]: "bud (AList.update p k b) q = (if q = p then k else bud b q)"
  by (simp add: bud_def update_conv)

lemma bud_phase_budget: "bud (phase_budget phases) p = count_list phases p"
proof (induction phases arbitrary: p rule: rev_induct)
  case Nil
  then show ?case by (simp add: phase_budget_def bud_def)
next
  case (snoc q phases)
  have "phase_budget (phases @ [q]) = AList.update q (Suc (bud (phase_budget phases) q)) (phase_budget phases)"
    by (simp add: phase_budget_def bud_def)
  with snoc show ?case by simp
qed

text \<open>A shipped workflow names its nodes after their phases.\<close>

definition canonical :: "js list \<Rightarrow> bool" where
  "canonical ns = list_all (\<lambda>n. case fld n ''id'' of JStr i \<Rightarrow> trim i \<noteq> [] \<and> fld n ''phase'' = JStr i | _ \<Rightarrow> False) ns"

lemma canonical_node:
  assumes "canonical ns" "n \<in> set ns"
  shows "fld n ''id'' = JStr (nodeId n)" "fld n ''phase'' = JStr (nodeId n)" "trim (nodeId n) \<noteq> []" "nodeId n \<noteq> []"
    "node_phase n = Some (nodeId n)" "node_key n = Some (nodeId n)" "nonEmptyString (fld n ''id'') = Some (nodeId n)"
proof -
  from assms have "case fld n ''id'' of JStr i \<Rightarrow> trim i \<noteq> [] \<and> fld n ''phase'' = JStr i | _ \<Rightarrow> False"
    by (simp add: canonical_def list_all_iff)
  then obtain i where i: "fld n ''id'' = JStr i" "trim i \<noteq> []" "fld n ''phase'' = JStr i"
    by (cases "fld n ''id''") simp_all
  then have "nodeId n = i" by (simp add: nodeId_def stringValue_def)
  with i show "fld n ''id'' = JStr (nodeId n)" "fld n ''phase'' = JStr (nodeId n)" "trim (nodeId n) \<noteq> []"
    "nodeId n \<noteq> []" "node_phase n = Some (nodeId n)" "node_key n = Some (nodeId n)"
    "nonEmptyString (fld n ''id'') = Some (nodeId n)"
    by (auto simp: node_phase_def node_key_def nonEmptyString_def or_opt_def)
qed

lemma canonical_Cons: "canonical (n # ns) \<Longrightarrow> canonical ns"
  by (simp add: canonical_def)

definition node_deps_map :: "js list \<Rightarrow> (string \<times> string list) list" where
  "node_deps_map ns = map (\<lambda>n. (nodeId n, deps_strings (fld n ''dependsOn''))) ns"

lemma index_base_canonical:
  "canonical ns \<Longrightarrow> distinct (map fst m @ map nodeId ns) \<Longrightarrow> index_base w ns m = Inr (m @ node_deps_map ns)"
proof (induction ns arbitrary: m)
  case Nil
  then show ?case by (simp add: node_deps_map_def)
next
  case (Cons n ns)
  from Cons.prems(2) have "nodeId n \<notin> fst ` set m" by auto
  with Cons.IH [of "m @ [(nodeId n, deps_strings (fld n ''dependsOn''))]"] Cons.prems
    canonical_node [OF Cons.prems(1), of n] canonical_Cons [OF Cons.prems(1)]
  show ?case by (simp add: node_deps_map_def)
qed

section \<open>The nodes of the run\<close>

definition named_ok :: "(string \<times> js) list \<Rightarrow> bool" where
  "named_ok nodes \<longleftrightarrow> distinct (map fst nodes) \<and> (\<forall>(i, n) \<in> set nodes. trim i \<noteq> [] \<and> fld n ''id'' = JStr i)"

lemma push_node_ok:
  "push_node w i n nodes = Inr nodes' \<Longrightarrow> nodes' = nodes @ [(i, n)] \<and> trim i \<noteq> [] \<and> i \<notin> fst ` set nodes"
  by (auto simp: push_node_def split: if_splits)

lemma named_ok_snoc:
  "named_ok nodes \<Longrightarrow> trim i \<noteq> [] \<Longrightarrow> i \<notin> fst ` set nodes \<Longrightarrow> fld n ''id'' = JStr i \<Longrightarrow> named_ok (nodes @ [(i, n)])"
  by (auto simp: named_ok_def)

text \<open>What a node taken from the base looks like.\<close>

definition taken_from :: "js list \<Rightarrow> string \<times> js \<Rightarrow> bool" where
  "taken_from ns e \<longleftrightarrow> (\<exists>n \<in> set ns. nodeId n = fst e \<and> fld (snd e) ''phase'' = JStr (fst e)
     \<and> fld (snd e) ''dependsOn'' = jstrs (deps_strings (fld n ''dependsOn'')))"

lemma taken_from_mono: "taken_from ns e \<Longrightarrow> set ns \<subseteq> set ms \<Longrightarrow> taken_from ms e"
  by (auto simp: taken_from_def)

lemma take_base_spec:
  assumes "canonical ns" "named_ok nodes" "take_base w prm ns budget nodes = Inr (budget', nodes')"
  shows "named_ok nodes' \<and> (\<exists>ts. nodes' = nodes @ ts \<and> (\<forall>e \<in> set ts. taken_from ns e)
    \<and> (\<forall>p. bud budget p = bud budget' p + count_list (map fst ts) p)
    \<and> (\<forall>n \<in> set ns. bud budget (nodeId n) = 0 \<or> nodeId n \<in> fst ` set ts))"
  using assms
proof (induction ns arbitrary: budget nodes)
  case Nil
  then show ?case by simp
next
  case (Cons n ns)
  note c = canonical_node [OF Cons.prems(1), of n, simplified] and IH = Cons.IH [OF canonical_Cons [OF Cons.prems(1)]]
  have mono: "taken_from ns e \<Longrightarrow> taken_from (n # ns) e" for e by (erule taken_from_mono) auto
  show ?case
  proof (cases "bud budget (nodeId n)")
    case 0
    then have "take_base w prm (n # ns) budget nodes = take_base w prm ns budget nodes"
      using c(5) by (auto simp: bud_def split: option.splits nat.splits)
    with IH [of nodes budget] Cons.prems(2,3) 0 mono show ?thesis by auto
  next
    case (Suc k)
    then have m: "map_of budget (nodeId n) = Some (Suc k)" by (auto simp: bud_def split: option.splits)
    obtain role where role: "role = (case nonEmptyString (fld n ''role'') of Some r \<Rightarrow> JStr r | None \<Rightarrow> role_of_phase prm (nodeId n))"
      by simp
    let ?n = "with_fields n (nodeId n) (nodeId n) role (deps_strings (fld n ''dependsOn''))"
    have eq: "take_base w prm (n # ns) budget nodes =
        thn (push_node w (nodeId n) ?n nodes) (take_base w prm ns (AList.update (nodeId n) k budget))"
      using c(5,7) m by (simp add: Let_def role)
    from Cons.prems(3) obtain nodes1 where p: "push_node w (nodeId n) ?n nodes = Inr nodes1"
      and t: "take_base w prm ns (AList.update (nodeId n) k budget) nodes1 = Inr (budget', nodes')"
      unfolding eq thn_eq_Inr by blast
    note po = push_node_ok [OF p]
    then have "named_ok nodes1" using Cons.prems(2) named_ok_snoc by simp
    from IH [OF this t] obtain ts where ts: "named_ok nodes'" "nodes' = nodes1 @ ts" "\<forall>e \<in> set ts. taken_from ns e"
      "\<forall>p. bud (AList.update (nodeId n) k budget) p = bud budget' p + count_list (map fst ts) p"
      "\<forall>m \<in> set ns. bud (AList.update (nodeId n) k budget) (nodeId m) = 0 \<or> nodeId m \<in> fst ` set ts" by blast
    have nn: "taken_from (n # ns) (nodeId n, ?n)" by (simp add: taken_from_def)
    have "bud budget p = bud budget' p + count_list (map fst ((nodeId n, ?n) # ts)) p" for p
      using ts(4) [rule_format, of p] Suc by (auto split: if_splits)
    moreover have "bud budget (nodeId m) = 0 \<or> nodeId m \<in> fst ` set ((nodeId n, ?n) # ts)" if "m \<in> set (n # ns)" for m
      using ts(5) that by (auto split: if_splits)
    moreover have "\<forall>e \<in> set ((nodeId n, ?n) # ts). taken_from (n # ns) e" using ts(3) nn mono by auto
    ultimately show ?thesis using ts(1,2) po by (intro conjI exI [of _ "(nodeId n, ?n) # ts"]) simp_all
  qed
qed

lemma push_fallbacks_spec:
  assumes "named_ok nodes" "push_fallbacks w prm todo nodes = Inr nodes'"
  shows "named_ok nodes' \<and> (\<exists>fs. nodes' = nodes @ fs \<and> map fst fs = map (\<lambda>(p, k). fallback_id p k) todo
    \<and> map (\<lambda>e. fld (snd e) ''phase'') fs = map (\<lambda>(p, k). JStr p) todo
    \<and> (\<forall>us e vs. fs = us @ e # vs \<longrightarrow> fld (snd e) ''dependsOn'' = jstrs (if nodes @ us = [] then [] else [fst (last (nodes @ us))])))"
  using assms
proof (induction todo arbitrary: nodes)
  case Nil
  then show ?case by simp
next
  case (Cons pk todo)
  obtain p k where pk: "pk = (p, k)" by force
  let ?e = "(fallback_id p k, fallback_node prm p (fallback_id p k) nodes)"
  from Cons.prems(2) pk obtain nodes1 where pn: "push_node w (fst ?e) (snd ?e) nodes = Inr nodes1"
    and rest: "push_fallbacks w prm todo nodes1 = Inr nodes'" by (auto simp: thn_eq_Inr)
  note po = push_node_ok [OF pn]
  then have "named_ok nodes1" using Cons.prems(1) named_ok_snoc by simp
  from Cons.IH [OF this rest] obtain fs where fs: "named_ok nodes'" "nodes' = nodes1 @ fs"
    "map fst fs = map (\<lambda>(p, k). fallback_id p k) todo" "map (\<lambda>e. fld (snd e) ''phase'') fs = map (\<lambda>(p, k). JStr p) todo"
    "\<And>us e vs. fs = us @ e # vs \<Longrightarrow> fld (snd e) ''dependsOn'' = jstrs (if nodes1 @ us = [] then [] else [fst (last (nodes1 @ us))])"
    by blast
  have "fld (snd e) ''dependsOn'' = jstrs (if nodes @ us = [] then [] else [fst (last (nodes @ us))])"
    if "?e # fs = us @ e # vs" for us e vs
  proof (cases us)
    case Nil
    with that show ?thesis by auto
  next
    case (Cons u us')
    with that have "fs = us' @ e # vs" "u = ?e" by auto
    from fs(5) [OF this(1)] this(2) Cons po show ?thesis by simp
  qed
  with fs po pk show ?case by (intro conjI exI [of _ "?e # fs"]) simp_all
qed

section \<open>The projection of dependencies\<close>

definition base_rel :: "(string \<times> string list) list \<Rightarrow> (string \<times> string) set" where
  "base_rel base = {(d, i). \<exists>deps. map_of base i = Some deps \<and> d \<in> set deps}"

lemma set_foldl_set_add [simp]: "set (foldl (\<lambda>acc a. set_add a acc) ys xs) = set ys \<union> set xs"
  by (rule uniq_foldl)

lemma projected_sound:
  "projected_deps w base incl owner ds visiting pr = Inr out \<Longrightarrow>
   set pr \<subseteq> set out \<and> (\<forall>x \<in> set out. x \<in> set pr \<or> x \<in> incl \<and> (\<exists>d \<in> set ds. (x, d) \<in> (base_rel base)\<^sup>*))"
proof (induction w base incl owner ds visiting pr arbitrary: out rule: projected_deps.induct)
  case (1 w base incl owner visiting pr)
  then show ?case by simp
next
  case (2 w base incl owner d ds visiting pr)
  show ?case
  proof (cases "d \<in> incl")
    case True
    with 2(1) [OF True, of out] 2(4) show ?thesis by auto
  next
    case False
    with 2(4) obtain deps where deps: "map_of base d = Some deps" "d \<notin> visiting"
      by (auto split: option.splits if_splits)
    with False 2(4) obtain anc where anc: "projected_deps w base incl owner deps (insert d visiting) [] = Inr anc"
      "projected_deps w base incl owner ds visiting (foldl (\<lambda>acc a. set_add a acc) pr anc) = Inr out"
      by (auto simp: thn_eq_Inr)
    have edge: "e \<in> set deps \<Longrightarrow> (e, d) \<in> base_rel base" for e using deps by (simp add: base_rel_def)
    have a: "\<forall>x \<in> set anc. x \<in> incl \<and> (x, d) \<in> (base_rel base)\<^sup>*"
      using 2(2) [OF False deps anc(1)] edge by (auto intro: rtrancl_into_rtrancl)
    have sub: "set pr \<union> set anc \<subseteq> set out"
      and out: "\<forall>x \<in> set out. (x \<in> set pr \<or> x \<in> set anc) \<or> x \<in> incl \<and> (\<exists>e \<in> set ds. (x, e) \<in> (base_rel base)\<^sup>*)"
      using 2(3) [OF False deps anc] by simp_all
    show ?thesis
    proof (intro conjI ballI)
      show "set pr \<subseteq> set out" using sub by simp
      fix x assume "x \<in> set out"
      with out a show "x \<in> set pr \<or> x \<in> incl \<and> (\<exists>e \<in> set (d # ds). (x, e) \<in> (base_rel base)\<^sup>*)" by auto
    qed
  qed
qed

lemma projected_complete:
  "projected_deps w base incl owner ds visiting pr = Inr out \<Longrightarrow> a \<in> incl \<Longrightarrow> d \<in> set ds \<Longrightarrow>
   (a, d) \<in> (base_rel base)\<^sup>* \<Longrightarrow> \<exists>p \<in> set out. (a, p) \<in> (base_rel base)\<^sup>*"
proof (induction w base incl owner ds visiting pr arbitrary: out d rule: projected_deps.induct)
  case (1 w base incl owner visiting pr)
  then show ?case by simp
next
  case (2 w base incl owner e ds visiting pr)
  show ?case
  proof (cases "e \<in> incl")
    case True
    with 2(4) have eq: "projected_deps w base incl owner ds visiting (set_add e pr) = Inr out" by simp
    show ?thesis
    proof (cases "d = e")
      case True
      with projected_sound [OF eq] 2(7) show ?thesis by auto
    next
      case False
      with 2(1) [OF \<open>e \<in> incl\<close> eq 2(5) _ 2(7)] 2(6) show ?thesis by simp
    qed
  next
    case False
    with 2(4) obtain deps where deps: "map_of base e = Some deps" "e \<notin> visiting"
      by (auto split: option.splits if_splits)
    with False 2(4) obtain anc where anc: "projected_deps w base incl owner deps (insert e visiting) [] = Inr anc"
      "projected_deps w base incl owner ds visiting (foldl (\<lambda>acc a. set_add a acc) pr anc) = Inr out"
      by (auto simp: thn_eq_Inr)
    show ?thesis
    proof (cases "d = e")
      case True
      with 2(5) False have "a \<noteq> d" by auto
      with 2(7) obtain c where "(a, c) \<in> (base_rel base)\<^sup>*" "(c, d) \<in> base_rel base" by (metis rtranclE)
      with True deps have "c \<in> set deps" by (simp add: base_rel_def)
      from 2(2) [OF False deps anc(1) 2(5) this \<open>(a, c) \<in> _\<close>] obtain p where "p \<in> set anc" "(a, p) \<in> (base_rel base)\<^sup>*" ..
      with projected_sound [OF anc(2)] show ?thesis by auto
    next
      case nd: False
      with 2(6) have "d \<in> set ds" by simp
      from 2(3) [OF False deps anc 2(5) this 2(7)] show ?thesis .
    qed
  qed
qed

lemma projected_succeeds:
  assumes "acyclic (base_rel base)" "fst ` base_rel base \<subseteq> fst ` set base"
  shows "set ds \<subseteq> incl \<union> fst ` set base \<Longrightarrow> \<forall>v \<in> visiting. \<forall>d \<in> set ds. (d, v) \<in> (base_rel base)\<^sup>+ \<Longrightarrow>
    \<exists>out. projected_deps w base incl owner ds visiting pr = Inr out"
  using assms
proof (induction w base incl owner ds visiting pr rule: projected_deps.induct)
  case (1 w base incl owner visiting pr)
  then show ?case by simp
next
  case (2 w base incl owner d ds visiting pr)
  show ?case
  proof (cases "d \<in> incl")
    case True
    with 2 show ?thesis by simp
  next
    case False
    with 2(4) obtain deps where deps: "map_of base d = Some deps"
      by (cases "map_of base d") (auto simp: map_of_eq_None_iff)
    have nv: "d \<notin> visiting" using 2(5,6) by (auto simp: acyclic_def)
    have edge: "(e, d) \<in> base_rel base" if "e \<in> set deps" for e using deps that by (simp add: base_rel_def)
    have "set deps \<subseteq> incl \<union> fst ` set base"
    proof
      fix e assume "e \<in> set deps"
      from edge [OF this] 2(7) show "e \<in> incl \<union> fst ` set base" by force
    qed
    moreover have "\<forall>v \<in> insert d visiting. \<forall>e \<in> set deps. (e, v) \<in> (base_rel base)\<^sup>+"
    proof (intro ballI)
      fix v e assume v: "v \<in> insert d visiting" and "e \<in> set deps"
      with edge have "(e, d) \<in> base_rel base" by simp
      with v 2(5) show "(e, v) \<in> (base_rel base)\<^sup>+" by (cases "v = d") (auto intro: trancl_into_trancl2)
    qed
    ultimately obtain anc where anc: "projected_deps w base incl owner deps (insert d visiting) [] = Inr anc"
      using 2(2) [OF False deps nv _ _ 2(6,7)] by blast
    from 2(3) [OF False deps nv anc _ _ 2(6,7)] 2(4,5)
    show ?thesis using False deps nv anc by simp
  qed
qed

section \<open>Order facts\<close>

lemma before_trans: "distinct xs \<Longrightarrow> before a b xs \<Longrightarrow> before b c xs \<Longrightarrow> before a c xs"
proof -
  assume d: "distinct xs" and ab: "before a b xs" and bc: "before b c xs"
  from bc obtain us vs where xs: "xs = us @ c # vs" "b \<in> set us" by (auto simp: before_def)
  from ab obtain ts ws where ts: "xs = ts @ b # ws" "a \<in> set ts" by (auto simp: before_def)
  from xs(2) obtain u1 u2 where "us = u1 @ b # u2" by (auto dest: split_list)
  with xs(1) have "xs = u1 @ b # (u2 @ c # vs)" by simp
  with ts(1) d have "ts = u1" by (metis append_Cons_eq_iff distinct.simps(2) distinct_append not_distinct_conv_prefix append_eq_append_conv_if) 
  with ts(2) \<open>us = u1 @ b # u2\<close> have "a \<in> set us" by simp
  with xs(1) show "before a c xs" by (auto simp: before_def)
qed

lemma before_trancl:
  "distinct xs \<Longrightarrow> (\<And>d v. (d, v) \<in> r \<Longrightarrow> before d v xs) \<Longrightarrow> (a, b) \<in> r\<^sup>+ \<Longrightarrow> before a b xs"
  by (erule trancl_induct) (blast intro: before_trans)+

section \<open>The DAG of a run\<close>

definition string_deps :: "js list \<Rightarrow> bool" where
  "string_deps ns = list_all (\<lambda>n. list_all is_str (arr (fld n ''dependsOn''))) ns"

lemma jstrs_deps [simp]:
  "fld n ''dependsOn'' = jstrs ds \<Longrightarrow> nodeDeps n = filter (\<lambda>s. s \<noteq> []) ds"
  "deps_strings (jstrs ds) = filter (\<lambda>s. s \<noteq> []) ds"
  "fld n ''dependsOn'' = jstrs ds \<Longrightarrow> node_list_deps n = ds"
  by (induction ds arbitrary: n)
     (simp_all add: nodeDeps_def stringArray_def deps_strings_def node_list_deps_def filter_map o_def)

lemma string_deps_agree:
  "string_deps ns \<Longrightarrow> n \<in> set ns \<Longrightarrow> deps_strings (fld n ''dependsOn'') = nodeDeps n"
proof -
  assume "string_deps ns" "n \<in> set ns"
  then have a: "list_all is_str (arr (fld n ''dependsOn''))" by (simp add: string_deps_def list_all_iff)
  have *: "list_all is_str vs \<Longrightarrow> filter (\<lambda>s. s \<noteq> []) (map to_str vs) = map to_str (filter truthy vs)" for vs
    by (induction vs) (auto split: js.splits)
  from * [OF a] show ?thesis
    by (simp add: deps_strings_def nodeDeps_def stringArray_def arr_def split: js.splits)
qed

lemma map_of_node_deps:
  "distinct (map nodeId ns) \<Longrightarrow> n \<in> set ns \<Longrightarrow> map_of (node_deps_map ns) (nodeId n) = Some (deps_strings (fld n ''dependsOn''))"
  unfolding node_deps_map_def by (rule map_of_is_SomeI) (simp_all add: o_def)

lemma base_rel_dep_rel:
  assumes "string_deps ns" "validateDag ns = []"
  shows "base_rel (node_deps_map ns) = dep_rel ns"
proof (intro equalityI subrelI)
  from assms(2) have v: "distinct (map nodeId ns)" "\<forall>n \<in> set ns. set (nodeDeps n) \<subseteq> node_ids ns"
    by (simp_all add: validateDag_ok)
  fix d i
  { assume "(d, i) \<in> base_rel (node_deps_map ns)"
    then obtain deps where "map_of (node_deps_map ns) i = Some deps" "d \<in> set deps" by (auto simp: base_rel_def)
    then obtain n where n: "n \<in> set ns" "i = nodeId n" "d \<in> set (deps_strings (fld n ''dependsOn''))"
      by (auto simp: node_deps_map_def dest!: map_of_SomeD)
    from n(3) assms(1) n(1) have "d \<in> set (nodeDeps n)" by (simp add: string_deps_agree)
    moreover from this n(1) v(2) have "d \<in> node_ids ns" by blast
    ultimately show "(d, i) \<in> dep_rel ns" using n(1,2) unfolding dep_rel_def by blast }
  { assume "(d, i) \<in> dep_rel ns"
    then obtain n where "n \<in> set ns" "i = nodeId n" "d \<in> set (nodeDeps n)" by (auto simp: dep_rel_def)
    then show "(d, i) \<in> base_rel (node_deps_map ns)"
      using map_of_node_deps [OF v(1), of n] assms(1) by (simp add: base_rel_def string_deps_agree) }
qed

text \<open>Bases whose ids can never be the id of an added node \<open>p_2\<close>, \<open>p_3\<close>, ...\<close>

definition no_clash :: "js list \<Rightarrow> bool" where
  "no_clash ns \<longleftrightarrow> (\<forall>n \<in> set ns. CHR ''_'' \<notin> set (nodeId n))"

lemma fallback_id_clash: "no_clash ns \<Longrightarrow> fallback_id p (Suc k) \<notin> node_ids ns"
proof
  assume nc: "no_clash ns" and "fallback_id p (Suc k) \<in> node_ids ns"
  then obtain n where n: "n \<in> set ns" "nodeId n = fallback_id p (Suc k)" by auto
  have "CHR ''_'' \<in> set (fallback_id p (Suc k))" by (simp add: fallback_id_def)
  with n(2) have "CHR ''_'' \<in> set (nodeId n)" by simp
  with n(1) nc show False unfolding no_clash_def by blast
qed

definition phase_named :: "js list \<Rightarrow> bool" where
  \<comment> \<open>each node has its phase as its id, ids have no underscore, and dependencies are texts\<close>
  "phase_named ns \<longleftrightarrow> canonical ns \<and> string_deps ns \<and> no_clash ns"

definition good_base :: "js list \<Rightarrow> bool" where
  "good_base ns \<longleftrightarrow> canonical ns \<and> string_deps ns \<and> no_clash ns \<and> validateDag ns = []"

text \<open>The stages of \<open>run_nodes\<close> on such a base.\<close>

lemma missing_phases_count:
  "distinct (map fst b) \<Longrightarrow> count_list (map fst (missing_phases b)) p = bud b p"
proof (induction b)
  case Nil
  then show ?case by (simp add: missing_phases_def bud_def)
next
  case (Cons e b)
  obtain q k where e: "e = (q, k)" by force
  have m: "missing_phases (e # b) = map (\<lambda>idx. (q, idx)) [0..<k] @ missing_phases b"
    by (simp add: missing_phases_def e)
  have c: "count_list (map fst (map (\<lambda>idx. (q, idx)) xs)) p = (if p = q then length xs else 0)" for xs :: "nat list"
    by (induction xs) auto
  have nb: "p = q \<Longrightarrow> bud b p = 0"
    using Cons.prems e by (auto simp: bud_def map_of_eq_None_iff [THEN iffD2])
  show ?case
  proof (cases "p = q")
    case True
    with nb Cons m c [of "[0..<k]"] e show ?thesis by (simp add: bud_def)
  next
    case False
    with Cons m c [of "[0..<k]"] e show ?thesis by (simp add: bud_def)
  qed
qed

lemma missing_phases_first:
  assumes "(p, k) \<in> set (missing_phases b)"
  shows "(p, 0) \<in> set (missing_phases b)"
proof -
  from assms obtain m where m: "(p, m) \<in> set b" "k < m" by (auto simp: missing_phases_def)
  then have "(p, 0) \<in> set (map (\<lambda>idx. (p, idx)) [0..<m])" by auto
  with m(1) show ?thesis unfolding missing_phases_def by (auto intro!: bexI [of _ "(p, m)"])
qed

lemma phase_budget_distinct: "distinct (map fst (phase_budget phases))"
proof (induction phases rule: rev_induct)
  case Nil
  then show ?case by (simp add: phase_budget_def)
next
  case (snoc q phases)
  have "phase_budget (phases @ [q]) = AList.update q (Suc (bud (phase_budget phases) q)) (phase_budget phases)"
    by (simp add: phase_budget_def bud_def)
  with snoc show ?case by (simp add: distinct_update)
qed

lemma take_base_distinct:
  "take_base w prm ns budget nodes = Inr (budget', nodes') \<Longrightarrow> distinct (map fst budget) \<Longrightarrow> distinct (map fst budget')"
proof (induction ns arbitrary: budget nodes)
  case Nil
  then show ?case by simp
next
  case (Cons n ns)
  consider (skip) "take_base w prm (n # ns) budget nodes = take_base w prm ns budget nodes"
    | (take) phase r i t where "take_base w prm (n # ns) budget nodes =
        thn (push_node w i t nodes) (take_base w prm ns (AList.update phase r budget))"
    by (cases "node_phase n"; cases "map_of budget (the (node_phase n))"; cases "the (map_of budget (the (node_phase n)))")
       (auto simp: Let_def)
  then show ?case
  proof cases
    case skip
    with Cons show ?thesis by simp
  next
    case take
    from Cons.prems(1) obtain nodes1 where "take_base w prm ns (AList.update phase r budget) nodes1 = Inr (budget', nodes')"
      unfolding take thn_eq_Inr by blast
    from Cons.IH [OF this] Cons.prems(2) show ?thesis by (simp add: distinct_update)
  qed
qed

lemma run_nodes_stages:
  assumes "good_base ns" "run_nodes w ns phases prm = Inr out"
  obtains budget ts fs where
    "take_base w prm ns (phase_budget phases) [] = Inr (budget, ts)" "named_ok (ts @ fs)"
    "\<forall>e \<in> set ts. taken_from ns e" "\<And>p. count_list phases p = bud budget p + count_list (map fst ts) p"
    "\<forall>n \<in> set ns. count_list phases (nodeId n) = 0 \<or> nodeId n \<in> fst ` set ts"
    "map fst fs = map (\<lambda>(p, k). fallback_id p k) (missing_phases budget)"
    "map (\<lambda>e. fld (snd e) ''phase'') fs = map (\<lambda>(p, k). JStr p) (missing_phases budget)"
    "\<And>us e vs. fs = us @ e # vs \<Longrightarrow> fld (snd e) ''dependsOn'' = jstrs (if ts @ us = [] then [] else [fst (last (ts @ us))])"
    "list_all2 (\<lambda>e e'. project_node w (node_deps_map ns) (fst ` set (ts @ fs)) e = Inr e') (ts @ fs) out"
    "distinct (map fst budget)"
proof -
  from assms(1) have c: "canonical ns" "distinct (map nodeId ns)" by (simp_all add: good_base_def validateDag_ok)
  have ib: "index_base w ns [] = Inr (node_deps_map ns)" using index_base_canonical [OF c(1), of "[]" w] c(2) by simp
  from assms(2) ib obtain budget ts nodes where
    tb: "take_base w prm ns (phase_budget phases) [] = Inr (budget, ts)"
    and pf: "push_fallbacks w prm (missing_phases budget) ts = Inr nodes"
    and mr: "map_r (project_node w (node_deps_map ns) (fst ` set nodes)) nodes = Inr out"
    by (auto simp: run_nodes_def thn_eq_Inr)
  have "named_ok []" by (simp add: named_ok_def)
  from take_base_spec [OF c(1) this tb] have t: "named_ok ts" "\<forall>e \<in> set ts. taken_from ns e"
    "\<And>p. count_list phases p = bud budget p + count_list (map fst ts) p"
    "\<forall>n \<in> set ns. count_list phases (nodeId n) = 0 \<or> nodeId n \<in> fst ` set ts"
    by (auto simp: bud_phase_budget)
  from push_fallbacks_spec [OF t(1) pf] obtain fs where f: "named_ok nodes" "nodes = ts @ fs"
    "map fst fs = map (\<lambda>(p, k). fallback_id p k) (missing_phases budget)"
    "map (\<lambda>e. fld (snd e) ''phase'') fs = map (\<lambda>(p, k). JStr p) (missing_phases budget)"
    "\<And>us e vs. fs = us @ e # vs \<Longrightarrow> fld (snd e) ''dependsOn'' = jstrs (if ts @ us = [] then [] else [fst (last (ts @ us))])"
    by blast
  from mr have "list_all2 (\<lambda>e e'. project_node w (node_deps_map ns) (fst ` set (ts @ fs)) e = Inr e') (ts @ fs) out"
    by (simp add: map_r_Inr_iff f(2))
  moreover have "distinct (map fst budget)" using take_base_distinct [OF tb phase_budget_distinct] .
  ultimately show thesis using that [OF tb _ t(2-4) f(3-5)] f(1,2) by simp
qed

lemma project_node_out:
  assumes "project_node w base incl e = Inr e'"
  obtains deps where "projected_deps w base incl (fst e) (node_list_deps (snd e)) {fst e} [] = Inr deps"
    "fst e' = fst e" "fld (snd e') ''id'' = fld (snd e) ''id''" "fld (snd e') ''phase'' = fld (snd e) ''phase''"
    "fld (snd e') ''dependsOn'' = jstrs deps"
  using assms by (cases e) (auto simp: project_node_def thn_eq_Inr fld_obj_set)

text \<open>What the stages of \<open>run_nodes\<close> establish about its result: \<open>ts\<close> are the nodes taken from
  the base, \<open>fs\<close> the ones added for the phases that the base does not have.\<close>

definition run_result ::
  "string \<Rightarrow> js list \<Rightarrow> string list \<Rightarrow> (string \<times> js) list \<Rightarrow> (string \<times> nat) list \<Rightarrow> (string \<times> js) list
   \<Rightarrow> (string \<times> js) list \<Rightarrow> bool" where
  "run_result w ns phases out budget ts fs \<longleftrightarrow> good_base ns \<and> named_ok (ts @ fs) \<and> (\<forall>e \<in> set ts. taken_from ns e)
   \<and> (\<forall>p. count_list phases p = bud budget p + count_list (map fst ts) p)
   \<and> (\<forall>n \<in> set ns. count_list phases (nodeId n) = 0 \<or> nodeId n \<in> fst ` set ts)
   \<and> map fst fs = map (\<lambda>(p, k). fallback_id p k) (missing_phases budget)
   \<and> map (\<lambda>e. fld (snd e) ''phase'') fs = map (\<lambda>(p, k). JStr p) (missing_phases budget)
   \<and> (\<forall>us e vs. fs = us @ e # vs \<longrightarrow>
        fld (snd e) ''dependsOn'' = jstrs (if ts @ us = [] then [] else [fst (last (ts @ us))]))
   \<and> list_all2 (\<lambda>e e'. project_node w (node_deps_map ns) (fst ` set (ts @ fs)) e = Inr e') (ts @ fs) out
   \<and> distinct (map fst budget)"

lemma run_resultD:
  assumes "run_result w ns phases out budget ts fs"
  shows "good_base ns" "named_ok (ts @ fs)" "\<forall>e \<in> set ts. taken_from ns e"
    "count_list phases p = bud budget p + count_list (map fst ts) p"
    "\<forall>n \<in> set ns. count_list phases (nodeId n) = 0 \<or> nodeId n \<in> fst ` set ts"
    "map fst fs = map (\<lambda>(p, k). fallback_id p k) (missing_phases budget)"
    "map (\<lambda>e. fld (snd e) ''phase'') fs = map (\<lambda>(p, k). JStr p) (missing_phases budget)"
    "fs = us @ e # vs \<Longrightarrow> fld (snd e) ''dependsOn'' = jstrs (if ts @ us = [] then [] else [fst (last (ts @ us))])"
    "list_all2 (\<lambda>e e'. project_node w (node_deps_map ns) (fst ` set (ts @ fs)) e = Inr e') (ts @ fs) out"
    "distinct (map fst budget)"
  using assms unfolding run_result_def by blast+

lemma run_nodes_result:
  assumes "good_base ns" "run_nodes w ns phases prm = Inr out"
  obtains budget ts fs where "run_result w ns phases out budget ts fs"
  using assms by (rule run_nodes_stages) (rule that, unfold run_result_def, use assms(1) in blast)

lemma named_ok_facts:
  assumes "named_ok (ts @ fs)"
  shows "distinct (map fst ts)" "distinct (map fst fs)" "i \<in> fst ` set ts \<Longrightarrow> i \<notin> fst ` set fs"
    "[] \<notin> fst ` set (ts @ fs)" "e \<in> set (ts @ fs) \<Longrightarrow> trim (fst e) \<noteq> [] \<and> fld (snd e) ''id'' = JStr (fst e)"
proof -
  from assms have d: "distinct (map fst ts @ map fst fs)"
    and a: "\<forall>(i, n) \<in> set (ts @ fs). trim i \<noteq> [] \<and> fld n ''id'' = JStr i" by (simp_all add: named_ok_def)
  show "distinct (map fst ts)" "distinct (map fst fs)" using d by simp_all
  show "i \<in> fst ` set ts \<Longrightarrow> i \<notin> fst ` set fs" using d by auto
  show *: "trim (fst e) \<noteq> [] \<and> fld (snd e) ''id'' = JStr (fst e)" if "e \<in> set (ts @ fs)" for e
    using bspec [OF a that] by (simp add: split_beta)
  show "[] \<notin> fst ` set (ts @ fs)" using * trim_Nil by (metis imageE)
qed

lemma base_facts:
  assumes "run_result w ns phases out budget ts fs"
  shows "distinct (map nodeId ns)" "base_rel (node_deps_map ns) = dep_rel ns" "acyclic (dep_rel ns)"
  using run_resultD(1) [OF assms] base_rel_dep_rel by (auto simp: good_base_def validateDag_ok)

lemma taken_base:
  assumes "run_result w ns phases out budget ts fs" "i \<in> fst ` set ts"
  shows "i \<in> node_ids ns"
  using run_resultD(3) [OF assms(1)] assms(2) by (force simp: taken_from_def)

lemma fallback_new:
  assumes "run_result w ns phases out budget ts fs" "i \<in> fst ` set fs"
  shows "i \<notin> node_ids ns"
proof
  note R = run_resultD [OF assms(1)]
  assume b: "i \<in> node_ids ns"
  have "i \<in> set (map (\<lambda>(p, k). fallback_id p k) (missing_phases budget))"
    using assms(2) by (simp only: R(6) [symmetric] set_map)
  then obtain p k where pk: "(p, k) \<in> set (missing_phases budget)" "i = fallback_id p k" by auto
  show False
  proof (cases k)
    case (Suc m)
    with pk b R(1) show False by (simp add: good_base_def fallback_id_clash)
  next
    case 0
    with pk have i: "i = p" by (simp add: fallback_id_def)
    have "p \<in> set (map fst (missing_phases budget))" using pk(1) by force
    then have "0 < count_list phases p"
      using R(4) [of p] missing_phases_count [OF R(10), of p] count_list_0_iff [of "map fst (missing_phases budget)" p] by simp
    with R(5) b i have "p \<in> fst ` set ts" by auto
    with named_ok_facts(3) [OF R(2)] assms(2) i show False by blast
  qed
qed

lemma out_ids:
  assumes "run_result w ns phases out budget ts fs"
  shows "map fst out = map fst (ts @ fs)"
proof -
  have "list_all2 (\<lambda>e e'. project_node w b i e = Inr e') xs ys \<Longrightarrow> map fst ys = map fst xs" for b i xs ys
    by (induction rule: list_all2_induct) (auto elim!: project_node_out)
  from this [OF run_resultD(9) [OF assms]] show ?thesis .
qed

lemma out_node:
  assumes "run_result w ns phases out budget ts fs" "e' \<in> set out"
  obtains e deps where "e \<in> set (ts @ fs)" "fst e' = fst e" "nodeId (snd e') = fst e"
    "fld (snd e') ''phase'' = fld (snd e) ''phase''"
    "projected_deps w (node_deps_map ns) (fst ` set (ts @ fs)) (fst e) (node_list_deps (snd e)) {fst e} [] = Inr deps"
    "nodeDeps (snd e') = deps" "set deps \<subseteq> fst ` set (ts @ fs)"
proof -
  note R = run_resultD [OF assms(1)] and N = named_ok_facts [OF run_resultD(2) [OF assms(1)]]
  from assms(2) obtain k where k: "k < length out" "e' = out ! k" by (auto simp: in_set_conv_nth)
  let ?e = "(ts @ fs) ! k"
  have kl: "k < length (ts @ fs)" using k(1) list_all2_lengthD [OF R(9)] by simp
  then have e1: "?e \<in> set (ts @ fs)" by (rule nth_mem)
  have e2: "project_node w (node_deps_map ns) (fst ` set (ts @ fs)) ?e = Inr e'"
    using list_all2_nthD [OF R(9) kl] k(2) by simp
  from e2 obtain deps where d:
    "projected_deps w (node_deps_map ns) (fst ` set (ts @ fs)) (fst ?e) (node_list_deps (snd ?e)) {fst ?e} [] = Inr deps"
    "fst e' = fst ?e" "fld (snd e') ''id'' = fld (snd ?e) ''id''" "fld (snd e') ''phase'' = fld (snd ?e) ''phase''"
    "fld (snd e') ''dependsOn'' = jstrs deps" by (rule project_node_out)
  have sub: "set deps \<subseteq> fst ` set (ts @ fs)" using projected_sound [OF d(1)] by (simp only: list.set empty_iff) blast
  then have "filter (\<lambda>s. s \<noteq> []) deps = deps" using N(4) by (intro filter_True) blast
  then have nd: "nodeDeps (snd e') = deps" using d(5) by simp
  have "nodeId (snd e') = fst ?e" using d(3) N(5) [OF e1] by (simp add: nodeId_def stringValue_def)
  from that [OF e1 d(2) this d(4,1) nd sub] show thesis .
qed

lemma out_distinct:
  assumes "run_result w ns phases out budget ts fs"
  shows "distinct (map nodeId (map snd out))" "node_ids (map snd out) = fst ` set (ts @ fs)"
proof -
  have "nodeId (snd e) = fst e" if "e \<in> set out" for e using out_node [OF assms that] by metis
  then have "map nodeId (map snd out) = map fst out" by simp
  then have *: "map nodeId (map snd out) = map fst (ts @ fs)" by (simp only: out_ids [OF assms])
  then show "distinct (map nodeId (map snd out))" using run_resultD(2) [OF assms] by (simp only: named_ok_def)
  show "node_ids (map snd out) = fst ` set (ts @ fs)" by (metis * set_map)
qed

lemma edge_cases:
  assumes "run_result w ns phases out budget ts fs" "(d, v) \<in> dep_rel (map snd out)"
  shows "(v \<in> fst ` set ts \<and> (d, v) \<in> (dep_rel ns)\<^sup>+)
    \<or> (\<exists>us e vs. fs = us @ e # vs \<and> v = fst e \<and> ts @ us \<noteq> [] \<and> d = fst (last (ts @ us)))"
proof -
  note R = run_resultD [OF assms(1)] and B = base_facts [OF assms(1)]
  from assms(2) obtain e' where e': "e' \<in> set out" "v = nodeId (snd e')" "d \<in> set (nodeDeps (snd e'))"
    by (auto simp: dep_rel_def)
  from out_node [OF assms(1) e'(1)] obtain e deps where e: "e \<in> set (ts @ fs)" "nodeId (snd e') = fst e"
    "projected_deps w (node_deps_map ns) (fst ` set (ts @ fs)) (fst e) (node_list_deps (snd e)) {fst e} [] = Inr deps"
    "nodeDeps (snd e') = deps" by metis
  show ?thesis
  proof (cases "e \<in> set ts")
    case True
    with R(3) obtain n where n: "n \<in> set ns" "nodeId n = fst e"
      "fld (snd e) ''dependsOn'' = jstrs (deps_strings (fld n ''dependsOn''))" by (auto simp: taken_from_def)
    from n(3) have raw: "node_list_deps (snd e) = deps_strings (fld n ''dependsOn'')" by (rule jstrs_deps(3))
    from projected_sound [OF e(3)] e'(3) e(4) obtain c where
      c: "c \<in> set (deps_strings (fld n ''dependsOn''))" "(d, c) \<in> (dep_rel ns)\<^sup>*"
      unfolding B(2) raw by auto
    have "(c, v) \<in> dep_rel ns"
      unfolding B(2) [symmetric] base_rel_def
      using c(1) map_of_node_deps [OF B(1) n(1)] n(2) e(2) e'(2) by simp
    with c(2) have "(d, v) \<in> (dep_rel ns)\<^sup>+" by (rule rtrancl_into_trancl1)
    with True e(2) e'(2) show ?thesis by simp
  next
    case False
    with e(1) obtain us vs where fs: "fs = us @ e # vs" by (auto dest: split_list)
    from jstrs_deps(3) [OF R(8) [OF fs]]
    have raw: "node_list_deps (snd e) = (if ts @ us = [] then [] else [fst (last (ts @ us))])" .
    show ?thesis
    proof (cases "ts @ us = []")
      case True
      then have "node_list_deps (snd e) = []" by (simp only: raw) simp
      with e(3,4) e'(3) show ?thesis by simp
    next
      case ne: False
      then have r: "node_list_deps (snd e) = [fst (last (ts @ us))]" by (simp only: raw if_False)
      have "last (ts @ us) \<in> set (ts @ fs)" using last_in_set [OF ne] fs by auto
      then have "fst (last (ts @ us)) \<in> fst ` set (ts @ fs)" by (rule imageI)
      with e(3) [unfolded r] have "deps = [fst (last (ts @ us))]" by (simp only: projected_deps.simps if_True) (simp add: set_add_def)
      with e(2,4) e'(2,3) have "v = fst e" "d = fst (last (ts @ us))" by simp_all
      with fs ne show ?thesis by blast
    qed
  qed
qed

lemma out_acyclic:
  assumes "run_result w ns phases out budget ts fs"
  shows "acyclic (dep_rel (map snd out))"
proof -
  note R = run_resultD [OF assms] and N = named_ok_facts [OF run_resultD(2) [OF assms]]
  from R(1) obtain order where "topologicalSort ns = Inr order"
    unfolding good_base_def validateDag_ok using topologicalSort_ok by blast
  note ord = topologicalSort_order_facts [OF this]
  let ?xs = "order @ map fst fs"
  have dist: "distinct ?xs" using N(2) fallback_new [OF assms] ord(1,2) by auto
  show ?thesis
  proof (rule before_acyclic [OF dist])
    fix d v assume "(d, v) \<in> dep_rel (map snd out)"
    from edge_cases [OF assms this] show "before d v ?xs"
    proof (elim disjE conjE exE)
      assume dv: "(d, v) \<in> (dep_rel ns)\<^sup>+"
      have "before d v order" by (rule before_trancl [OF ord(1) ord(3) dv])
      then show ?thesis by (rule before_append)
    next
      fix us e vs assume u: "fs = us @ e # vs" "v = fst e" "ts @ us \<noteq> []" "d = fst (last (ts @ us))"
      have "last (ts @ us) \<in> set ts \<or> last (ts @ us) \<in> set us" using last_in_set [OF u(3)] by auto
      then have "d \<in> set (order @ map fst us)"
        using taken_base [OF assms] u(4) ord(2) by auto
      moreover have "?xs = (order @ map fst us) @ v # map fst vs" using u by simp
      ultimately show ?thesis unfolding before_def by blast
    qed
  qed
qed

lemma out_phases:
  assumes "run_result w ns phases out budget ts fs"
  shows "map (\<lambda>e. fld (snd e) ''phase'') out = map JStr (map fst ts @ map fst (missing_phases budget))"
proof -
  note R = run_resultD [OF assms]
  have "list_all2 (\<lambda>e e'. project_node w b i e = Inr e') xs ys \<Longrightarrow>
      map (\<lambda>e. fld (snd e) ''phase'') ys = map (\<lambda>e. fld (snd e) ''phase'') xs" for b i xs ys
    by (induction rule: list_all2_induct) (auto elim!: project_node_out)
  from this [OF R(9)] have "map (\<lambda>e. fld (snd e) ''phase'') out = map (\<lambda>e. fld (snd e) ''phase'') (ts @ fs)" .
  moreover have "map (\<lambda>e. fld (snd e) ''phase'') ts = map JStr (map fst ts)"
    using R(3) by (auto simp: taken_from_def)
  ultimately show ?thesis by (simp add: R(7) split_beta)
qed

lemma out_phase_counts:
  assumes "run_result w ns phases out budget ts fs"
  shows "mset (map (\<lambda>e. fld (snd e) ''phase'') out) = mset (map JStr phases)"
proof -
  note R = run_resultD [OF assms]
  have "mset (map fst ts @ map fst (missing_phases budget)) = mset phases"
    by (rule multiset_eqI) (simp add: R(4) missing_phases_count [OF R(10)] count_mset del: mset_map)
  then show ?thesis unfolding out_phases [OF assms] by (metis mset_map)
qed

lemma out_phase_truthy:
  assumes "run_result w ns phases out budget ts fs" "e \<in> set out"
  shows "truthy (fld (snd e) ''phase'')"
proof -
  note R = run_resultD [OF assms(1)] and N = named_ok_facts [OF run_resultD(2) [OF assms(1)]]
  have "fld (snd e) ''phase'' \<in> set (map JStr (map fst ts @ map fst (missing_phases budget)))"
    unfolding out_phases [OF assms(1), symmetric] using assms(2) by simp
  then obtain p where p: "fld (snd e) ''phase'' = JStr p" "p \<in> fst ` set ts \<or> p \<in> fst ` set (missing_phases budget)" by auto
  have "p \<noteq> []"
    using p(2)
  proof
    assume "p \<in> fst ` set ts"
    then have "p \<in> fst ` set (ts @ fs)" by auto
    with N(4) show ?thesis by metis
  next
    assume "p \<in> fst ` set (missing_phases budget)"
    then have "(p, 0) \<in> set (missing_phases budget)" using missing_phases_first by force
    then have "fallback_id p 0 \<in> set (map fst fs)" unfolding R(6) by force
    then have "p \<in> fst ` set (ts @ fs)" by (auto simp: fallback_id_def)
    with N(4) show ?thesis by metis
  qed
  with p(1) show ?thesis by simp
qed

lemma out_valid:
  assumes "run_result w ns phases out budget ts fs"
  shows "validateDag (map snd out) = []"
proof -
  have "truthy (fld n ''phase'') \<and> set (nodeDeps n) \<subseteq> fst ` set (ts @ fs)" if "n \<in> set (map snd out)" for n
  proof -
    from that obtain e where e: "e \<in> set out" "n = snd e" by auto
    from out_node [OF assms e(1)] e(2) out_phase_truthy [OF assms e(1)] show ?thesis by metis
  qed
  then show ?thesis
    unfolding validateDag_ok out_distinct(2) [OF assms]
    using out_distinct(1) [OF assms] out_acyclic [OF assms] named_ok_facts(4) [OF run_resultD(2) [OF assms]] by blast
qed

lemma order_step:
  assumes "run_result w ns phases out budget ts fs" "(a, i) \<in> (dep_rel ns)\<^sup>+"
    "a \<in> fst ` set (ts @ fs)" "i \<in> fst ` set (ts @ fs)"
  shows "\<exists>p. (p, i) \<in> dep_rel (map snd out) \<and> (p, i) \<in> (dep_rel ns)\<^sup>+ \<and> p \<in> fst ` set (ts @ fs) \<and> (a, p) \<in> (dep_rel ns)\<^sup>*"
proof -
  note R = run_resultD [OF assms(1)] and N = named_ok_facts [OF run_resultD(2) [OF assms(1)]] and B = base_facts [OF assms(1)]
  obtain b where "(b, i) \<in> dep_rel ns" using assms(2) by (metis tranclD2)
  then have "i \<in> node_ids ns" unfolding dep_rel_def by blast
  with assms(4) fallback_new [OF assms(1)] have it: "i \<in> fst ` set ts" by auto
  have "i \<in> fst ` set out" using assms(4) by (metis out_ids [OF assms(1)] set_map)
  then obtain e' where e': "e' \<in> set out" "fst e' = i" by blast
  from out_node [OF assms(1) e'(1)] obtain e deps where e: "e \<in> set (ts @ fs)" "fst e' = fst e" "nodeId (snd e') = fst e"
    "projected_deps w (node_deps_map ns) (fst ` set (ts @ fs)) (fst e) (node_list_deps (snd e)) {fst e} [] = Inr deps"
    "nodeDeps (snd e') = deps" "set deps \<subseteq> fst ` set (ts @ fs)" by metis
  have "e \<in> set ts" using e(1,2) e'(2) it N(3) by auto
  with R(3) e(2) e'(2) obtain n where n: "n \<in> set ns" "nodeId n = i"
    "fld (snd e) ''dependsOn'' = jstrs (deps_strings (fld n ''dependsOn''))" by (auto simp: taken_from_def)
  from assms(2) obtain c where c: "(a, c) \<in> (dep_rel ns)\<^sup>*" "(c, i) \<in> dep_rel ns" by (metis tranclD2)
  then have "(c, i) \<in> base_rel (node_deps_map ns)" by (simp add: B(2))
  then have cm: "c \<in> set (node_list_deps (snd e))"
    using map_of_node_deps [OF B(1) n(1)] n(2) jstrs_deps(3) [OF n(3)] by (simp add: base_rel_def)
  from projected_complete [OF e(4) assms(3) cm] c(1) obtain p where
    p: "p \<in> set deps" "(a, p) \<in> (dep_rel ns)\<^sup>*" unfolding B(2) by blast
  have edge: "(p, i) \<in> dep_rel (map snd out)"
  proof -
    have "snd e' \<in> set (map snd out)" "nodeId (snd e') = i" "p \<in> set (nodeDeps (snd e'))"
      using e' e p(1) by simp_all
    moreover have "p \<in> node_ids (map snd out)" using p(1) e(6) unfolding out_distinct(2) [OF assms(1)] by blast
    ultimately show ?thesis unfolding dep_rel_def by blast
  qed
  have "(p, i) \<in> (dep_rel ns)\<^sup>+"
    using edge_cases [OF assms(1) edge]
  proof (elim disjE conjE exE)
    fix us f vs assume "fs = us @ f # vs" "i = fst f"
    then have "i \<in> fst ` set fs" by simp
    with N(3) [OF it] show ?thesis by simp
  qed
  with edge p e(6) show ?thesis by blast
qed

lemma order_kept:
  assumes "run_result w ns phases out budget ts fs"
    "(a, i) \<in> (dep_rel ns)\<^sup>+" "a \<in> fst ` set (ts @ fs)" "i \<in> fst ` set (ts @ fs)"
  shows "(a, i) \<in> (dep_rel (map snd out))\<^sup>+"
proof -
  have "finite (dep_rel ns)" by (simp add: set_edge_list [symmetric])
  then have "wf ((dep_rel ns)\<^sup>+)" using base_facts(3) [OF assms(1)] by (simp add: finite_acyclic_wf wf_trancl)
  then show ?thesis using assms(2,4)
  proof (induction i rule: wf_induct_rule)
    case (less i)
    from order_step [OF assms(1) less(2) assms(3) less(3)] obtain p where
      p: "(p, i) \<in> dep_rel (map snd out)" "(p, i) \<in> (dep_rel ns)\<^sup>+" "p \<in> fst ` set (ts @ fs)" "(a, p) \<in> (dep_rel ns)\<^sup>*" by blast
    show ?case
    proof (cases "a = p")
      case True
      with p(1) show ?thesis by auto
    next
      case False
      with p(4) have "(a, p) \<in> (dep_rel ns)\<^sup>+" by (metis rtranclD)
      from less(1) [OF p(2) this p(3)] p(1) show ?thesis by (rule trancl_into_trancl)
    qed
  qed
qed

end
