(* ===== verification/WorkflowProperties.thy ===== *)
theory WorkflowProperties
  imports RunDag
begin

text \<open>
  Properties of agents, workflows and run DAGs: the stores that the program reaches keep the cache of
  normalised DAGs coherent, the DAG of a run is valid and has the phases of the run, routing only
  names known agents.
\<close>

section \<open>Stores the program reaches\<close>

inductive store_step :: "workflow_store \<Rightarrow> workflow_store \<Rightarrow> bool" where
  normalize_step: "normalizeWorkflow name store = (r, store') \<Longrightarrow> store_step store store'"
| register_step: "registerDagWorkflow name nodes mc store = (r, store') \<Longrightarrow> store_step store store'"
| nodes_step: "getDagNodes name store = (r, store') \<Longrightarrow> store_step store store'"
| build_step: "buildWorkflowDag workflow phases prm store = (r, store') \<Longrightarrow> store_step store store'"

inductive_cases store_step_cases: "store_step store store'"

abbreviation store_reached :: "workflow_store \<Rightarrow> bool" where
  "store_reached \<equiv> store_step\<^sup>*\<^sup>* initial_store"

lemma getDagNodes_store: "snd (getDagNodes name store) = snd (normalizeWorkflow name store)"
  by (simp add: getDagNodes_def split: prod.splits sum.splits)

lemma buildWorkflowDag_store: "snd (buildWorkflowDag w phases prm store) = snd (normalizeWorkflow w store)"
  by (simp add: buildWorkflowDag_def split: prod.splits sum.splits)

lemma store_step_ok: "store_step store store' \<Longrightarrow> store_ok store \<Longrightarrow> store_ok store'"
proof (elim store_step_cases)
  fix name r
  assume "store_ok store" "normalizeWorkflow name store = (r, store')"
  then show "store_ok store'" using normalizeWorkflow_fresh by blast
next
  fix name nodes mc r
  assume "store_ok store" "registerDagWorkflow name nodes mc store = (r, store')"
  then show "store_ok store'" by (rule registerDagWorkflow_ok)
next
  fix name r
  assume "store_ok store" "getDagNodes name store = (r, store')"
  then show "store_ok store'"
    using normalizeWorkflow_fresh [of store name] getDagNodes_store [of name store] by (cases "normalizeWorkflow name store") simp
next
  fix w phases prm r
  assume "store_ok store" "buildWorkflowDag w phases prm store = (r, store')"
  then show "store_ok store'"
    using normalizeWorkflow_fresh [of store w] buildWorkflowDag_store [of w phases prm store] by (cases "normalizeWorkflow w store") simp
qed

lemma store_reached_ok: "store_reached store \<Longrightarrow> store_ok store"
  by (induction rule: rtranclp_induct) (blast intro: store_ok_initial store_step_ok)+

lemma build_result:
  assumes "store_ok store" "fresh_dag store w = Some base" "buildWorkflowDag w phases prm store = (Inr rd, store')"
  obtains out where "run_nodes w (dag_node_list base) phases prm = Inr out" "rd_nodes rd = map snd out"
proof -
  obtain r s where n: "normalizeWorkflow w store = (r, s)" by (cases "normalizeWorkflow w store")
  with normalizeWorkflow_fresh [OF assms(1) this] assms(2) have "r = Inr base" by simp
  with n assms(3) show ?thesis by (auto simp: buildWorkflowDag_def thn_eq_Inr intro: that)
qed

section \<open>Building never fails on distinct phases\<close>

lemma push_node_new: "trim i \<noteq> [] \<Longrightarrow> i \<notin> fst ` set nodes \<Longrightarrow> push_node w i n nodes = Inr (nodes @ [(i, n)])"
  by (simp add: push_node_def)

lemma take_base_total:
  "canonical ns \<Longrightarrow> distinct (map nodeId ns) \<Longrightarrow> node_ids ns \<inter> fst ` set nodes = {} \<Longrightarrow>
   \<exists>budget' ts. take_base w prm ns budget nodes = Inr (budget', nodes @ ts)"
proof (induction ns arbitrary: budget nodes)
  case (Cons n ns)
  note c = canonical_node [OF Cons.prems(1) list.set_intros(1)]
  have rest: "canonical ns" "distinct (map nodeId ns)" "node_ids ns \<inter> fst ` set nodes = {}"
    "nodeId n \<notin> node_ids ns" "nodeId n \<notin> fst ` set nodes"
    using Cons.prems by (auto dest: canonical_Cons)
  show ?case
  proof (cases "\<exists>k. map_of budget (nodeId n) = Some (Suc k)")
    case False
    then have "take_base w prm (n # ns) budget nodes = take_base w prm ns budget nodes"
      by (simp add: c(5) split: option.split nat.split)
    with Cons.IH [OF rest(1-3)] show ?thesis by simp
  next
    case True
    then obtain k where k: "map_of budget (nodeId n) = Some (Suc k)" by blast
    obtain m where run: "take_base w prm (n # ns) budget nodes =
        thn (push_node w (nodeId n) m nodes) (take_base w prm ns (AList.update (nodeId n) k budget))"
      by (simp add: c(5,7) k Let_def)
    have push: "push_node w (nodeId n) m nodes = Inr (nodes @ [(nodeId n, m)])"
      using rest(5) c(3) by (intro push_node_new)
    have "node_ids ns \<inter> fst ` set (nodes @ [(nodeId n, m)]) = {}" using rest by simp
    from Cons.IH [OF rest(1,2) this, of "AList.update (nodeId n) k budget"] run push show ?thesis by force
  qed
qed simp

lemma push_fallbacks_total:
  "distinct (map (\<lambda>(p, k). fallback_id p k) todo) \<Longrightarrow> \<forall>i \<in> (\<lambda>(p, k). fallback_id p k) ` set todo. trim i \<noteq> [] \<and> i \<notin> fst ` set nodes
   \<Longrightarrow> \<exists>nodes'. push_fallbacks w prm todo nodes = Inr nodes'"
proof (induction todo arbitrary: nodes)
  case (Cons e todo)
  obtain p k where e: "e = (p, k)" by (cases e)
  let ?i = "fallback_id p k"
  let ?n = "(?i, fallback_node prm p ?i nodes)"
  have i: "trim ?i \<noteq> []" "?i \<notin> fst ` set nodes" "?i \<notin> (\<lambda>(p, k). fallback_id p k) ` set todo"
    and rest: "distinct (map (\<lambda>(p, k). fallback_id p k) todo)"
      "\<forall>i \<in> (\<lambda>(p, k). fallback_id p k) ` set todo. trim i \<noteq> [] \<and> i \<notin> fst ` set nodes"
    using Cons.prems by (simp_all add: e)
  have "\<forall>i \<in> (\<lambda>(p, k). fallback_id p k) ` set todo. trim i \<noteq> [] \<and> i \<notin> fst ` set (nodes @ [?n])"
  proof
    fix j assume j: "j \<in> (\<lambda>(p, k). fallback_id p k) ` set todo"
    with i(3) have "j \<noteq> ?i" by metis
    moreover from rest(2) j have "trim j \<noteq> [] \<and> j \<notin> fst ` set nodes" by (rule bspec)
    ultimately show "trim j \<noteq> [] \<and> j \<notin> fst ` set (nodes @ [?n])" by simp
  qed
  from Cons.IH [OF rest(1) this] show ?case by (simp add: e push_node_new [OF i(1,2)])
qed simp

lemma projected_included: "set ds \<subseteq> incl \<Longrightarrow> \<exists>out. projected_deps w base incl owner ds visiting pr = Inr out"
  by (induction ds arbitrary: pr) auto

lemma map_r_ok: "\<forall>x \<in> set xs. \<exists>y. f x = Inr y \<Longrightarrow> \<exists>ys. map_r f xs = Inr ys"
  by (induction xs) fastforce+

lemma distinct_missing:
  assumes "distinct (map fst b)" "\<And>p. bud b p \<le> 1"
  shows "distinct (map fst (missing_phases b))" "(p, k) \<in> set (missing_phases b) \<Longrightarrow> k = 0"
proof -
  have "count (mset (map fst (missing_phases b))) p \<le> 1" for p
    using missing_phases_count [OF assms(1), of p] assms(2) [of p] by (simp only: count_mset)
  then show "distinct (map fst (missing_phases b))"
    unfolding distinct_count_atmost_1 by (metis count_eq_zero_iff le_less less_one set_mset_mset)
next
  assume "(p, k) \<in> set (missing_phases b)"
  then obtain m where m: "(p, m) \<in> set b" "k < m" by (auto simp: missing_phases_def)
  with assms(1) have "map_of b p = Some m" by simp
  with assms(2) [of p] m(2) show "k = 0" by (simp add: bud_def)
qed

lemma run_nodes_total:
  assumes "good_base ns" "distinct phases" "\<forall>p \<in> set phases. trim p \<noteq> []"
  shows "\<exists>out. run_nodes w ns phases prm = Inr out"
proof -
  from assms(1) have c: "canonical ns" "distinct (map nodeId ns)" "string_deps ns" "validateDag ns = []"
    by (simp_all add: good_base_def validateDag_ok)
  have ib: "index_base w ns [] = Inr (node_deps_map ns)" using index_base_canonical [OF c(1), of "[]" w] c(2) by simp
  obtain budget ts where tb: "take_base w prm ns (phase_budget phases) [] = Inr (budget, ts)"
    using take_base_total [OF c(1,2), of "[]" w prm "phase_budget phases"] by auto
  have nok: "named_ok []" by (simp add: named_ok_def)
  from take_base_spec [OF c(1) nok tb] have t: "named_ok ts" "\<forall>e \<in> set ts. taken_from ns e"
    and cnt: "\<And>p. count_list phases p = bud budget p + count_list (map fst ts) p"
    by (auto simp: bud_phase_budget)
  have one: "count_list phases p \<le> 1" for p
    using assms(2) by (simp add: distinct_count_atmost_1 flip: count_mset)
  have b1: "bud budget p \<le> 1" for p using one [of p] cnt [of p] by linarith
  have bd: "distinct (map fst budget)" using take_base_distinct [OF tb phase_budget_distinct] .
  note miss = distinct_missing [OF bd b1]
  have ids: "map (\<lambda>(p, k). fallback_id p k) (missing_phases budget) = map fst (missing_phases budget)"
    by (rule map_cong [OF refl]) (use miss(2) in \<open>auto simp: fallback_id_def\<close>)
  have fresh: "trim p \<noteq> [] \<and> p \<notin> fst ` set ts" if "p \<in> fst ` set (missing_phases budget)" for p
  proof -
    from that have "count_list (map fst (missing_phases budget)) p \<noteq> 0" by (simp add: count_list_0_iff)
    then have "bud budget p \<noteq> 0" using missing_phases_count [OF bd] by simp
    with cnt [of p] one [of p] have "count_list (map fst ts) p = 0" "count_list phases p \<noteq> 0" by linarith+
    then show ?thesis using assms(3) by (simp add: count_list_0_iff)
  qed
  have "\<forall>i \<in> (\<lambda>(p, k). fallback_id p k) ` set (missing_phases budget). trim i \<noteq> [] \<and> i \<notin> fst ` set ts"
    using fresh ids by (metis image_set)
  from push_fallbacks_total [OF _ this] ids miss(1) obtain nodes where
    pf: "push_fallbacks w prm (missing_phases budget) ts = Inr nodes" by metis
  from push_fallbacks_spec [OF t(1) pf] obtain fs where nodes: "nodes = ts @ fs"
    and deps: "\<And>us e vs. fs = us @ e # vs \<Longrightarrow> fld (snd e) ''dependsOn'' = jstrs (if ts @ us = [] then [] else [fst (last (ts @ us))])"
    by blast
  have rel: "base_rel (node_deps_map ns) = dep_rel ns" by (rule base_rel_dep_rel [OF c(3,4)])
  have acyc: "acyclic (base_rel (node_deps_map ns))" "fst ` base_rel (node_deps_map ns) \<subseteq> fst ` set (node_deps_map ns)"
    unfolding rel using c(4) by (auto simp: validateDag_ok node_deps_map_def dep_rel_def image_image)
  have "\<exists>e'. project_node w (node_deps_map ns) (fst ` set nodes) e = Inr e'" if "e \<in> set nodes" for e
  proof (cases "e \<in> set ts")
    case True
    with t(2) obtain n where n: "n \<in> set ns" "nodeId n = fst e"
      "fld (snd e) ''dependsOn'' = jstrs (deps_strings (fld n ''dependsOn''))" by (auto simp: taken_from_def)
    then have d: "node_list_deps (snd e) = nodeDeps n" using string_deps_agree [OF c(3)] by simp
    have sub: "set (nodeDeps n) \<subseteq> node_ids ns" using c(4) n(1) by (auto simp: validateDag_ok)
    then have "(x, fst e) \<in> base_rel (node_deps_map ns)" if "x \<in> set (nodeDeps n)" for x
      using that n(1,2) unfolding rel dep_rel_def by force
    then have "\<forall>v \<in> {fst e}. \<forall>x \<in> set (nodeDeps n). (x, v) \<in> (base_rel (node_deps_map ns))\<^sup>+" by blast
    moreover have "set (nodeDeps n) \<subseteq> fst ` set nodes \<union> fst ` set (node_deps_map ns)"
      using sub by (auto simp: node_deps_map_def image_image)
    ultimately obtain out where "projected_deps w (node_deps_map ns) (fst ` set nodes) (fst e) (nodeDeps n) {fst e} [] = Inr out"
      using projected_succeeds [OF acyc] by blast
    then show ?thesis using d by (cases e) (auto simp: project_node_def)
  next
    case False
    with that nodes have "e \<in> set fs" by simp
    then obtain us vs where "fs = us @ e # vs" by (meson split_list)
    with deps nodes have "set (node_list_deps (snd e)) \<subseteq> fst ` set nodes"
      using last_in_set [of "ts @ us"] by auto
    from projected_included [OF this] obtain out where
      "projected_deps w (node_deps_map ns) (fst ` set nodes) (fst e) (node_list_deps (snd e)) {fst e} [] = Inr out" by blast
    then show ?thesis by (cases e) (auto simp: project_node_def)
  qed
  then have "\<exists>out. map_r (project_node w (node_deps_map ns) (fst ` set nodes)) nodes = Inr out" by (intro map_r_ok) blast
  with ib tb pf show ?thesis by (simp add: run_nodes_def)
qed

section \<open>Routing\<close>

lemma default_routing_agent:
  assumes "defaultRoutingForCategory reg category w = Inr defaults" "role \<in> set ROUTING_AGENT_ROLES"
  shows "\<exists>a. fld defaults role = JStr a \<and> defaultAgentForRole reg role = Inr a"
  using assms by (auto simp: defaultRoutingForCategory_def thn_eq_Inr ROUTING_AGENT_ROLES_def)

lemma default_agent_known:
  "registry_ok reg \<Longrightarrow> defaultAgentForRole reg role = Inr a \<Longrightarrow> isKnownAgent reg a"
  using defaultAgent_owner registered_known by blast

lemma resolved_role:
  assumes "resolveRoutingForCategory category routing = Some r" "role \<in> set ROUTING_AGENT_ROLES"
  obtains c where "isRecord (fld (routingRules routing) c)" "fld r role = opt_str (stringOrNull (fld (fld (routingRules routing) c) role))"
  using assms by (auto simp: resolveRoutingForCategory_def Let_def ROUTING_AGENT_ROLES_def split: option.splits if_splits)

lemma effective_role:
  assumes "resolveEffectiveRouting reg category routing w = Inr sel" "role \<in> set ROUTING_AGENT_ROLES"
  obtains a where "defaultAgentForRole reg role = Inr a" "fld sel role = JStr a"
  | r a where "resolveRoutingForCategory category routing = Some r" "defaultAgentForRole reg role = Inr a"
      "fld sel role = or_else (fld r role) (JStr a)"
proof -
  let ?keys = "[''workflow'', ''planner'', ''executor'', ''verifier'', ''reviewer'']"
  let ?merged = "\<lambda>defaults r. JObj (spread (spread (own defaults) (own r)) (map (\<lambda>k. (k, or_else (fld r k) (fld defaults k))) ?keys))"
  from assms(1) obtain wn defaults where d: "defaultRoutingForCategory reg category wn = Inr defaults"
    and s: "(case resolveRoutingForCategory category routing of None \<Rightarrow> Inr defaults | Some r \<Rightarrow> Inr (?merged defaults r)) = (Inr sel :: js result)"
    unfolding resolveEffectiveRouting_def Let_def thn_eq_Inr by blast
  from d default_routing_agent [OF _ assms(2)] obtain a where a: "fld defaults role = JStr a" "defaultAgentForRole reg role = Inr a" by blast
  show thesis
  proof (cases "resolveRoutingForCategory category routing")
    case None
    with s a that(1) show ?thesis by simp
  next
    case (Some r)
    with s have "sel = ?merged defaults r" by simp
    with assms(2) have "fld sel role = or_else (fld r role) (fld defaults role)"
      by (auto simp: ROUTING_AGENT_ROLES_def spread_def fld_obj_set)
    with Some a that(2) show ?thesis by simp
  qed
qed

lemma effective_role_known:
  assumes "registry_ok reg" "assertValidRoutingRules reg isW routing = Inr ()"
    "resolveEffectiveRouting reg category routing w = Inr sel" "role \<in> set ROUTING_AGENT_ROLES"
    "stringOrNull (fld sel role) = Some a"
  shows "isKnownAgent reg a"
  using assms(3,4)
proof (cases rule: effective_role)
  case (1 b)
  with assms(1,5) show ?thesis by (auto simp: stringOrNull_Some intro: default_agent_known)
next
  case (2 r b)
  from 2(1) assms(4) obtain c where c: "isRecord (fld (routingRules routing) c)"
    "fld r role = opt_str (stringOrNull (fld (fld (routingRules routing) c) role))" by (rule resolved_role)
  show ?thesis
  proof (cases "stringOrNull (fld (fld (routingRules routing) c) role)")
    case None
    with 2 c(2) assms(5) have "a = b" by (simp add: opt_str_def or_else_def stringOrNull_Some)
    with 2(2) assms(1) show ?thesis by (simp add: default_agent_known)
  next
    case (Some t)
    then have "t \<noteq> []" by (auto simp: stringOrNull_Some)
    with 2 c(2) Some assms(5) have "a = t" by (simp add: opt_str_def or_else_def stringOrNull_Some)
    with valid_rule_known [OF assms(2) c(1) assms(4)] Some show ?thesis by simp
  qed
qed

section \<open>A small registry and a small workflow\<close>

definition example_agent :: "string \<Rightarrow> nat \<Rightarrow> js" where
  "example_agent name priority = JObj [(''name'', JStr name), (''protocol'', JStr ''acp''),
     (''tieBreakPriority'', jnat priority), (''defaultRoles'', jstrs ROUTING_AGENT_ROLES)]"

definition example_registry :: agent_registry where
  "example_registry = \<lparr>registry = [(''claude'', example_agent ''claude'' 20), (''codex'', example_agent ''codex'' 10)],
     discovered = [], squads = [(''duo'', JObj [(''members'', jstrs [''claude'', ''ghost'', ''codex'']), (''strategy'', JStr ''round-robin'')])],
     rrCounters = []\<rparr>"

definition example_routing :: js where
  "example_routing = JObj [(''bugfix'', JObj [(''executor'', JStr ''claude'')])]"

definition two_nodes :: "js list" where
  "two_nodes = [wf_node ''build'' ''executor'' [], wf_node ''check'' ''verifier'' [''build'']]"

lemma fresh_dag_valid:
  assumes "fresh_dag store w = Some base"
  shows "validateDag (dag_node_list base) = []"
proof -
  from assms obtain ns where ns: "dag_node_list base = resolveSquadsInNodes ns" "validateDag ns = []"
    by (auto simp: fresh_dag_def normalized_dag_def split: option.splits if_splits)
  define f where "f = (\<lambda>n. if \<not> truthy (fld n ''squad'') then n else JObj (obj_set ''_squad'' (fld n ''squad'') (own n)))"
  have squads: "resolveSquadsInNodes ns = map f ns" by (simp add: resolveSquadsInNodes_def f_def)
  have kept: "nodeId (f n) = nodeId n" "nodeDeps (f n) = nodeDeps n" "fld (f n) ''phase'' = fld n ''phase''" for n
    by (simp_all add: f_def nodeId_def nodeDeps_def fld_obj_set)
  have ids: "node_ids (map f ns) = node_ids ns" by (simp add: image_image kept)
  have union: "dep_rel xs = (\<Union>n\<in>set xs. (\<lambda>d. (d, nodeId n)) ` (set (nodeDeps n) \<inter> node_ids xs))" for xs
    by (auto simp: dep_rel_def)
  have "dep_rel (map f ns) = dep_rel ns" unfolding union ids by (simp add: kept)
  then show ?thesis using ns unfolding squads validateDag_ok ids by (simp add: kept o_def image_image)
qed

lemma good_base_fresh: "fresh_dag store w = Some base \<Longrightarrow> phase_named (dag_node_list base) \<Longrightarrow> good_base (dag_node_list base)"
  using fresh_dag_valid by (simp add: good_base_def phase_named_def)

text \<open>All workflows that the program comes with are named by their phases.\<close>

lemma builtin_phase_named:
  assumes "fresh_dag initial_store w = Some base"
  shows "phase_named (dag_node_list base)"
proof -
  have all: "\<forall>name\<in>set (map fst WORKFLOWS). case fresh_dag initial_store name of None \<Rightarrow> False | Some base \<Rightarrow> phase_named (dag_node_list base)"
    by code_simp
  have "\<exists>name\<in>set (map fst WORKFLOWS). fresh_dag initial_store name = Some base"
  proof (cases "map_of WORKFLOWS w")
    case None
    then have "fresh_dag initial_store w = fresh_dag initial_store ''standard''"
      by (auto simp: fresh_dag_def store_lookup_def or_opt_def initial_store_def split: option.split)
    with assms have "fresh_dag initial_store ''standard'' = Some base" by simp
    moreover have "''standard'' \<in> set (map fst WORKFLOWS)" by code_simp
    ultimately show ?thesis by (rule bexI)
  next
    case (Some wfl)
    then have "w \<in> set (map fst WORKFLOWS)" using map_of_eq_None_iff [of WORKFLOWS w] by simp
    with assms show ?thesis by blast
  qed
  with all show ?thesis by auto
qed

lemma initial_standard:
  obtains base where "fresh_dag initial_store ''standard'' = Some base" "phase_named (dag_node_list base)"
    "dag_node_list base = [wf_node ''plan'' ''planner'' [], wf_node ''execute'' ''executor'' [''plan''], wf_node ''verify'' ''verifier'' [''execute'']]"
proof -
  have "case fresh_dag initial_store ''standard'' of None \<Rightarrow> False
    | Some base \<Rightarrow> dag_node_list base = [wf_node ''plan'' ''planner'' [],
        wf_node ''execute'' ''executor'' [''plan''], wf_node ''verify'' ''verifier'' [''execute'']]"
    by code_simp
  then obtain base where base: "fresh_dag initial_store ''standard'' = Some base" "dag_node_list base = [wf_node ''plan'' ''planner'' [],
        wf_node ''execute'' ''executor'' [''plan''], wf_node ''verify'' ''verifier'' [''execute'']]" by (auto split: option.splits)
  show ?thesis by (rule that [OF base(1) builtin_phase_named [OF base(1)] base(2)])
qed

text \<open>A workflow that is registered with other names need not be projected well. The builder appends a node with the
  id of each missing phase and does not look whether that id is one of a base node that the run leaves out.\<close>

definition custom_node :: "string \<Rightarrow> string \<Rightarrow> string list \<Rightarrow> js" where
  "custom_node i phase deps = JObj [(''id'', JStr i), (''phase'', JStr phase), (''role'', JStr ''executor''), (''dependsOn'', jstrs deps)]"

definition crossed_nodes :: "js list" where
  "crossed_nodes = [custom_node ''execute'' ''plan'' [], custom_node ''v'' ''verify'' [''execute'']]"

definition renamed_nodes :: "js list" where
  "renamed_nodes = [custom_node ''a'' ''plan'' [], custom_node ''execute'' ''review'' [''a''], custom_node ''v'' ''verify'' [''execute'']]"

lemma crossed_ids_cycle:
  "case fst (buildWorkflowDag ''crossed'' [''verify'', ''execute''] (JObj []) (snd (registerDagWorkflow ''crossed'' crossed_nodes JUndef initial_store))) of
     Inl e \<Rightarrow> False | Inr rd \<Rightarrow> validateDag (rd_nodes rd) \<noteq> []"
  by code_simp

lemma renamed_order_lost:
  "(''a'', ''v'') \<in> (dep_rel renamed_nodes)\<^sup>+"
  "case fst (buildWorkflowDag ''renamed'' [''plan'', ''verify'', ''execute''] (JObj []) (snd (registerDagWorkflow ''renamed'' renamed_nodes JUndef initial_store))) of
     Inl e \<Rightarrow> False | Inr rd \<Rightarrow> {''a'', ''v''} \<subseteq> node_ids (rd_nodes rd) \<and> (''a'', ''v'') \<notin> (dep_rel (rd_nodes rd))\<^sup>+"
proof -
  let ?e = "custom_node ''execute'' ''review'' [''a'']" and ?v = "custom_node ''v'' ''verify'' [''execute'']"
  note node = custom_node_def nodeId_def nodeDeps_def stringValue_def stringArray_def
  have "(''a'', nodeId ?e) \<in> dep_rel renamed_nodes" "(''execute'', nodeId ?v) \<in> dep_rel renamed_nodes"
    by (rule dep_relI; simp add: renamed_nodes_def node)+
  moreover have "nodeId ?e = ''execute''" "nodeId ?v = ''v''" by (simp_all add: node)
  ultimately show "(''a'', ''v'') \<in> (dep_rel renamed_nodes)\<^sup>+" by (simp only: trancl.r_into_trancl [THEN trancl_into_trancl])
  let ?b = "fst (buildWorkflowDag ''renamed'' [''plan'', ''verify'', ''execute''] (JObj []) (snd (registerDagWorkflow ''renamed'' renamed_nodes JUndef initial_store)))"
  have run: "case ?b of Inl e \<Rightarrow> False | Inr rd \<Rightarrow> {''a'', ''v''} \<subseteq> set (map nodeId (rd_nodes rd)) \<and> (\<forall>n\<in>set (rd_nodes rd). ''a'' \<notin> set (nodeDeps n))"
    by code_simp
  have "(''a'', i) \<notin> (dep_rel ns)\<^sup>+" if "\<forall>n\<in>set ns. ''a'' \<notin> set (nodeDeps n)" for ns i
    using that by (auto simp: dep_rel_def dest: tranclD)
  with run show "case ?b of Inl e \<Rightarrow> False | Inr rd \<Rightarrow> {''a'', ''v''} \<subseteq> node_ids (rd_nodes rd) \<and> (''a'', ''v'') \<notin> (dep_rel (rd_nodes rd))\<^sup>+"
    by (cases ?b) auto
qed

section \<open>Properties\<close>

text \<open>C32: the cache of normalised DAGs is transparent: in every store that the program reaches, with
  workflows registered and DAGs normalised in any order, \<^verbatim>\<open>normalizeWorkflow\<close> answers what a fresh
  normalisation of the workflow then registered gives, and fails exactly when that fails.\<close>

theorem cache_transparent:
  assumes "store_reached store" "normalizeWorkflow name store = (r, store')"
  shows "(\<forall>dag. r = Inr dag \<longleftrightarrow> fresh_dag store name = Some dag) \<and> workflows store' = workflows store"
  using normalizeWorkflow_fresh [OF store_reached_ok [OF assms(1)] assms(2)] by (cases "fresh_dag store name") auto

theorem cache_transparent_witness:
  "let s1 = snd (normalizeWorkflow ''direct'' initial_store); s2 = snd (registerDagWorkflow ''direct'' two_nodes JUndef s1);
     r = fst (normalizeWorkflow ''direct'' s2)
   in (\<forall>dag. r = Inr dag \<longleftrightarrow> fresh_dag s2 ''direct'' = Some dag) \<and> (\<exists>dag. r = Inr dag \<and> dag_node_list dag = two_nodes)"
proof -
  let ?s1 = "snd (normalizeWorkflow ''direct'' initial_store)"
  let ?s2 = "snd (registerDagWorkflow ''direct'' two_nodes JUndef ?s1)"
  have "store_step initial_store ?s1" by (rule normalize_step [of "''direct''"]) (rule prod.collapse [symmetric])
  moreover have "store_step ?s1 ?s2" by (rule register_step [of "''direct''" two_nodes JUndef]) (rule prod.collapse [symmetric])
  ultimately have "store_reached ?s2" by (meson r_into_rtranclp rtranclp_trans)
  from cache_transparent [OF this, of "''direct''" "fst (normalizeWorkflow ''direct'' ?s2)" "snd (normalizeWorkflow ''direct'' ?s2)"]
  have t: "\<forall>dag. fst (normalizeWorkflow ''direct'' ?s2) = Inr dag \<longleftrightarrow> fresh_dag ?s2 ''direct'' = Some dag" by simp
  have "case fst (normalizeWorkflow ''direct'' ?s2) of Inl _ \<Rightarrow> False | Inr dag \<Rightarrow> dag_node_list dag = two_nodes" by code_simp
  with t show ?thesis by (auto simp: Let_def split: sum.splits)
qed

text \<open>C6: For a workflow whose nodes are named by their phases, as those of all workflows that the program comes with are
  (\<open>builtin_phase_named\<close>), the DAG of a run is valid and its phases are exactly the phases of the run, with multiplicity,
  whatever phases are asked for. Named by its phases means that each node has its phase as its id, without an
  underscore, and its dependencies as texts. For a registered workflow with other ids the DAG of a run may have a
  cycle (\<open>crossed_ids_cycle\<close>).\<close>

theorem run_dag_valid:
  assumes "store_reached store" "fresh_dag store w = Some base" "phase_named (dag_node_list base)"
    "buildWorkflowDag w phases prm store = (Inr rd, store')"
  shows "validateDag (rd_nodes rd) = [] \<and> mset (map (\<lambda>n. fld n ''phase'') (rd_nodes rd)) = mset (map JStr phases)"
proof -
  obtain out where out: "run_nodes w (dag_node_list base) phases prm = Inr out" "rd_nodes rd = map snd out"
    using build_result [OF store_reached_ok [OF assms(1)] assms(2,4)] .
  from run_nodes_result [OF good_base_fresh [OF assms(2,3)] out(1)] obtain budget ts fs where
    "run_result w (dag_node_list base) phases out budget ts fs" .
  from out_valid [OF this] out_phase_counts [OF this] out(2) show ?thesis by (simp add: o_def)
qed

theorem run_dag_valid_witness:
  "\<exists>rd store'. buildWorkflowDag ''standard'' [''execute'', ''verify'', ''remediate'', ''remediate''] (JObj []) initial_store = (Inr rd, store')
     \<and> validateDag (rd_nodes rd) = [] \<and> length (rd_nodes rd) = 4"
proof -
  let ?b = "buildWorkflowDag ''standard'' [''execute'', ''verify'', ''remediate'', ''remediate''] (JObj []) initial_store"
  have "case fst ?b of Inl _ \<Rightarrow> False | Inr rd \<Rightarrow> length (rd_nodes rd) = 4" by code_simp
  then obtain rd where rd: "?b = (Inr rd, snd ?b)" "length (rd_nodes rd) = 4" by (cases ?b) (auto split: sum.splits)
  obtain base where base: "fresh_dag initial_store ''standard'' = Some base" "phase_named (dag_node_list base)" by (rule initial_standard)
  have reached: "store_reached initial_store" by simp
  from run_dag_valid [OF reached base rd(1)] rd show ?thesis by metis
qed

text \<open>for distinct, non-blank phases the builder never fails, for any workflow whose nodes are
  named by their phases.\<close>

theorem run_dag_total:
  assumes "store_reached store" "fresh_dag store w = Some base" "phase_named (dag_node_list base)"
    "distinct phases" "\<forall>p \<in> set phases. trim p \<noteq> []"
  shows "\<exists>rd store'. buildWorkflowDag w phases prm store = (Inr rd, store')"
proof -
  obtain r s where n: "normalizeWorkflow w store = (r, s)" by (cases "normalizeWorkflow w store")
  with normalizeWorkflow_fresh [OF store_reached_ok [OF assms(1)] this] assms(2) have "r = Inr base" by simp
  moreover obtain out where "run_nodes w (dag_node_list base) phases prm = Inr out"
    using run_nodes_total [OF good_base_fresh [OF assms(2,3)] assms(4,5)] by blast
  ultimately show ?thesis using n by (simp add: buildWorkflowDag_def)
qed

theorem run_dag_total_witness:
  "\<exists>rd store'. buildWorkflowDag ''standard'' [''verify'', ''review'', ''plan''] (JObj []) initial_store = (Inr rd, store')"
proof -
  obtain base where base: "fresh_dag initial_store ''standard'' = Some base" "phase_named (dag_node_list base)" by (rule initial_standard)
  have "distinct [''verify'', ''review'', ''plan'']" "\<forall>p \<in> set [''verify'', ''review'', ''plan'']. trim p \<noteq> []" by code_simp+
  then show ?thesis by (rule run_dag_total [OF rtranclp.rtrancl_refl base])
qed

text \<open>C33: For a workflow whose nodes are named by their phases, as those of all workflows that the program comes with are,
  the run keeps the order of the workflow: a kept node that follows another kept node in the workflow, directly or
  through nodes that the run leaves out, follows it in the run. For a registered workflow with other ids the order
  may be lost (\<open>renamed_order_lost\<close>).\<close>

theorem run_dag_order:
  assumes "store_reached store" "fresh_dag store w = Some base" "phase_named (dag_node_list base)"
    "buildWorkflowDag w phases prm store = (Inr rd, store')"
    "(a, i) \<in> (dep_rel (dag_node_list base))\<^sup>+" "a \<in> node_ids (rd_nodes rd)" "i \<in> node_ids (rd_nodes rd)"
  shows "(a, i) \<in> (dep_rel (rd_nodes rd))\<^sup>+"
proof -
  obtain out where out: "run_nodes w (dag_node_list base) phases prm = Inr out" "rd_nodes rd = map snd out"
    using build_result [OF store_reached_ok [OF assms(1)] assms(2,4)] .
  from run_nodes_result [OF good_base_fresh [OF assms(2,3)] out(1)] obtain budget ts fs where
    r: "run_result w (dag_node_list base) phases out budget ts fs" .
  from order_kept [OF r assms(5)] out_distinct(2) [OF r] assms(6,7) out(2) show ?thesis by simp
qed

theorem run_dag_order_witness:
  "\<exists>rd store'. buildWorkflowDag ''standard'' [''plan'', ''verify''] (JObj []) initial_store = (Inr rd, store')
     \<and> (''plan'', ''verify'') \<in> (dep_rel (rd_nodes rd))\<^sup>+"
proof -
  let ?b = "buildWorkflowDag ''standard'' [''plan'', ''verify''] (JObj []) initial_store"
  have "case fst ?b of Inl _ \<Rightarrow> False | Inr rd \<Rightarrow> map nodeId (rd_nodes rd) = [''plan'', ''verify'']" by code_simp
  then obtain rd where rd: "?b = (Inr rd, snd ?b)" "map nodeId (rd_nodes rd) = [''plan'', ''verify'']"
    by (cases ?b) (auto split: sum.splits)
  obtain base where base: "fresh_dag initial_store ''standard'' = Some base" "phase_named (dag_node_list base)"
    "dag_node_list base = [wf_node ''plan'' ''planner'' [], wf_node ''execute'' ''executor'' [''plan''], wf_node ''verify'' ''verifier'' [''execute'']]"
    by (rule initial_standard)
  let ?p = "wf_node ''plan'' ''planner'' []" and ?e = "wf_node ''execute'' ''executor'' [''plan'']" and ?v = "wf_node ''verify'' ''verifier'' [''execute'']"
  note node = wf_node_def nodeId_def nodeDeps_def stringValue_def stringArray_def
  have "(''plan'', nodeId ?e) \<in> dep_rel [?p, ?e, ?v]" "(''execute'', nodeId ?v) \<in> dep_rel [?p, ?e, ?v]"
    by (rule dep_relI; simp add: node)+
  moreover have "nodeId ?e = ''execute''" "nodeId ?v = ''verify''" by (simp_all add: node)
  ultimately have path: "(''plan'', ''verify'') \<in> (dep_rel (dag_node_list base))\<^sup>+"
    unfolding base(3) by (simp only: trancl.r_into_trancl [THEN trancl_into_trancl])
  have ids: "node_ids (rd_nodes rd) = set [''plan'', ''verify'']" unfolding rd(2) [symmetric] by (rule set_map [symmetric])
  have "''plan'' \<in> node_ids (rd_nodes rd)" "''verify'' \<in> node_ids (rd_nodes rd)" unfolding ids by (simp_all only: list.set insertI1 insertI2)
  from run_dag_order [OF rtranclp.rtrancl_refl base(1,2) rd(1) path this] rd(1) show ?thesis by (intro exI conjI)
qed

text \<open>the agents of a validated routing configuration exist: whatever category is asked for, an
  agent that the effective routing names for a role or for a phase is in the registry.\<close>

theorem routing_names_known_agents:
  assumes "registry_ok reg" "assertValidRoutingRules reg isW routing = Inr ()"
    "resolveEffectiveRouting reg category routing w = Inr sel" "set_option role \<subseteq> set ROUTING_AGENT_ROLES"
    "agentForRoutingPhase sel phase role = Some a"
  shows "isKnownAgent reg a"
proof -
  have "\<exists>r \<in> set ROUTING_AGENT_ROLES. stringOrNull (fld sel r) = Some a"
  proof (cases role)
    case None
    with assms(5) show ?thesis
      by (auto simp: agentForRoutingPhase_def ROUTING_PHASE_ROLES_def ROUTING_AGENT_ROLES_def split: if_splits)
  next
    case (Some r)
    with assms(4) have r: "r \<in> set ROUTING_AGENT_ROLES" by simp
    then have "r \<noteq> []" by (auto simp: ROUTING_AGENT_ROLES_def)
    with Some assms(5) have "stringOrNull (fld sel r) = Some a" by (cases r) (simp_all add: agentForRoutingPhase_def)
    with r show ?thesis ..
  qed
  with effective_role_known [OF assms(1-3)] show ?thesis by blast
qed

theorem routing_names_known_agents_witness:
  "\<exists>sel. resolveEffectiveRouting example_registry '' BugFix '' example_routing JNull = Inr sel
     \<and> agentForRoutingPhase sel ''execute'' None = Some ''claude'' \<and> agentForRoutingPhase sel ''plan'' None = Some ''codex''
     \<and> isKnownAgent example_registry ''claude''"
proof -
  let ?r = "resolveEffectiveRouting example_registry '' BugFix '' example_routing JNull"
  have "case ?r of Inl _ \<Rightarrow> False | Inr sel \<Rightarrow> agentForRoutingPhase sel ''execute'' None = Some ''claude''
      \<and> agentForRoutingPhase sel ''plan'' None = Some ''codex''" by code_simp
  then obtain sel where sel: "?r = Inr sel" "agentForRoutingPhase sel ''execute'' None = Some ''claude''"
    "agentForRoutingPhase sel ''plan'' None = Some ''codex''" by (auto split: sum.splits)
  have ok: "registry_ok example_registry" by code_simp
  have valid: "assertValidRoutingRules example_registry (\<lambda>w. True) example_routing = Inr ()" by code_simp
  have "set_option None \<subseteq> set ROUTING_AGENT_ROLES" by simp
  from routing_names_known_agents [OF ok valid sel(1) this sel(2)] sel show ?thesis by blast
qed

text \<open>an agent is swapped for its fallback exactly when it is unavailable, the routing and the
  team policy both allow it, and the fallback is available; otherwise it stays.\<close>

theorem fallback_exactly_when_needed:
  assumes "selectAgentWithFallback p f av allow policy = s"
  shows "selectedAgent s = (if fallbackApplied s then nonempty f else nonempty p)
   \<and> (fallbackApplied s \<longleftrightarrow> nonempty p \<noteq> None \<and> \<not> available (availabilityFor av (nonempty p))
        \<and> allow \<and> policy \<and> nonempty f \<noteq> None \<and> available (availabilityFor av (nonempty f)))"
  by (rule select_cases [OF assms])

theorem fallback_exactly_when_needed_witness:
  "let s = selectAgentWithFallback (Some ''codex'') (Some ''claude'') (JObj [(''codex'', JBool False)]) True True
   in fallbackApplied s \<and> selectedAgent s = Some ''claude''"
proof -
  let ?s = "selectAgentWithFallback (Some ''codex'') (Some ''claude'') (JObj [(''codex'', JBool False)]) True True"
  have "fallbackApplied ?s" by code_simp
  with fallback_exactly_when_needed [OF refl, of "Some ''codex''" "Some ''claude''" "JObj [(''codex'', JBool False)]" True True]
  show ?thesis by (simp add: Let_def nonempty_def)
qed

text \<open>a round-robin squad is fair: any number of consecutive calls goes through its available
  members in turn, starting where the counter stands.\<close>

theorem round_robin_rotates:
  assumes "map_of (squads reg) name = Some squad" "fld squad ''strategy'' = JStr ''round-robin''"
    "squad_available reg squad \<noteq> []"
  shows "rr_calls k reg name =
    map (\<lambda>i. Some (squad_available reg squad ! ((rr_counter reg name + i) mod length (squad_available reg squad)))) [0..<k]"
  by (rule rr_calls_rotate [OF assms])

theorem round_robin_rotates_witness:
  "rr_calls 3 example_registry ''duo'' = [Some ''claude'', Some ''codex'', Some ''claude'']"
proof -
  let ?squad = "JObj [(''members'', jstrs [''claude'', ''ghost'', ''codex'']), (''strategy'', JStr ''round-robin'')]"
  have "map_of (squads example_registry) ''duo'' = Some ?squad" "fld ?squad ''strategy'' = JStr ''round-robin''"
    by (simp_all add: example_registry_def)
  moreover have av: "squad_available example_registry ?squad = [''claude'', ''codex'']" by code_simp
  ultimately show ?thesis
    using round_robin_rotates [of example_registry "''duo''" ?squad 3]
    by (simp add: av upt_rec rr_counter_def example_registry_def)
qed

end
