(* ===== verification/JsRegex.thy ===== *)
theory JsRegex
  imports JsValue
begin

text \<open>
  Regular expressions as the program's \<^verbatim>\<open>RegExp\<close> literals use them: a backtracking matcher
  that lists the ways to match in the engine's order of preference (left alternative first, greedy
  repetition first, an iteration of a star must consume a character), with anchors, word
  boundaries, lazy stars and one level of capture groups.

  The lemmas relate the matcher to a language: for an expression without anchors and groups the
  matcher returns exactly the splits of its input whose first part is in the language
  (\<open>mt_plain_iff\<close>), so a fully anchored test is membership (\<open>re_full_iff\<close>).
\<close>

datatype re =
    Eps
  | Cls "char \<Rightarrow> bool"
  | Cat re re
  | Alt re re
  | Rep re
  | LazyRep re
  | Bol
  | Eol
  | WordB
  | Grp nat re

text \<open>A position: the characters before it, nearest first, those after it, and the groups.\<close>

type_synonym pos = "string \<times> string \<times> (nat \<times> string) list"

definition after_pos :: "pos \<Rightarrow> string" where
  "after_pos st = fst (snd st)"

definition is_word :: "char \<Rightarrow> bool" where
  "is_word c = (let n = (of_char c :: nat) in
     (48 \<le> n \<and> n \<le> 57) \<or> (65 \<le> n \<and> n \<le> 90) \<or> (97 \<le> n \<and> n \<le> 122) \<or> n = 95)"

definition word_boundary :: "string \<Rightarrow> string \<Rightarrow> bool" where
  "word_boundary before rest =
     ((before \<noteq> [] \<and> is_word (hd before)) \<noteq> (rest \<noteq> [] \<and> is_word (hd rest)))"

definition close_group :: "nat \<Rightarrow> pos \<Rightarrow> pos \<Rightarrow> pos" where
  "close_group n st st' = (fst st', after_pos st',
     (n, take (length (after_pos st) - length (after_pos st')) (after_pos st)) # snd (snd st'))"

function mt :: "re \<Rightarrow> pos \<Rightarrow> pos list" where
  "mt Eps st = [st]"
| "mt (Cls f) st = (case after_pos st of [] \<Rightarrow> []
     | x # xs \<Rightarrow> if f x then [(x # fst st, xs, snd (snd st))] else [])"
| "mt (Cat a b) st = concat (map (mt b) (mt a st))"
| "mt (Alt a b) st = mt a st @ mt b st"
| "mt (Rep a) st = concat (map (\<lambda>st'. if length (after_pos st') < length (after_pos st)
       then mt (Rep a) st' else []) (mt a st)) @ [st]"
| "mt (LazyRep a) st = st # concat (map (\<lambda>st'. if length (after_pos st') < length (after_pos st)
       then mt (LazyRep a) st' else []) (mt a st))"
| "mt Bol st = (if fst st = [] then [st] else [])"
| "mt Eol st = (if after_pos st = [] then [st] else [])"
| "mt WordB st = (if word_boundary (fst st) (after_pos st) then [st] else [])"
| "mt (Grp n a) st = map (close_group n st) (mt a st)"
  by pat_completeness auto
termination
  by (relation "measures [\<lambda>(r, st). size r, \<lambda>(r, st). length (after_pos st)]") auto

declare mt.simps(5,6) [simp del]

section \<open>Running an expression over a string\<close>

record re_match =
  m_before :: string
  m_text :: string
  m_rest :: string
  m_groups :: "(nat \<times> string) list"

text \<open>The leftmost match at or after a position: \<open>rb\<close> is the reversed text already skipped.\<close>

fun re_from :: "re \<Rightarrow> string \<Rightarrow> string \<Rightarrow> re_match option" where
  "re_from r rb s = (case mt r (rb, s, []) of
      st # _ \<Rightarrow> Some \<lparr>m_before = rev rb, m_text = take (length s - length (after_pos st)) s,
                      m_rest = after_pos st, m_groups = snd (snd st)\<rparr>
    | [] \<Rightarrow> (case s of [] \<Rightarrow> None | c # s' \<Rightarrow> re_from r (c # rb) s'))"

declare re_from.simps [simp del]

definition re_exec :: "re \<Rightarrow> string \<Rightarrow> re_match option" where
  "re_exec r s = re_from r [] s"

definition re_test :: "re \<Rightarrow> string \<Rightarrow> bool" where
  "re_test r s = (re_exec r s \<noteq> None)"

definition group :: "re_match \<Rightarrow> nat \<Rightarrow> string" where
  "group m n = (case map_of (m_groups m) n of None \<Rightarrow> [] | Some t \<Rightarrow> t)"

text \<open>\<^verbatim>\<open>s.replace(/r/g, f)\<close>: the matches found from left to right; after an empty match the
  search moves on by one character. The fuel bounds the number of characters still to read.\<close>

fun re_replace_fuel :: "nat \<Rightarrow> re \<Rightarrow> (re_match \<Rightarrow> string) \<Rightarrow> string \<Rightarrow> string \<Rightarrow> string" where
  "re_replace_fuel 0 r f rb s = s"
| "re_replace_fuel (Suc k) r f rb s = (case mt r (rb, s, []) of
      st # _ \<Rightarrow>
        (let rest = after_pos st; used = take (length s - length rest) s;
             out = f \<lparr>m_before = rev rb, m_text = used, m_rest = rest, m_groups = snd (snd st)\<rparr>
         in if used = []
            then (case s of [] \<Rightarrow> out | c # s' \<Rightarrow> out @ c # re_replace_fuel k r f (c # rb) s')
            else out @ re_replace_fuel k r f (rev used @ rb) rest)
    | [] \<Rightarrow> (case s of [] \<Rightarrow> [] | c # s' \<Rightarrow> c # re_replace_fuel k r f (c # rb) s'))"

definition re_replace_all :: "re \<Rightarrow> (re_match \<Rightarrow> string) \<Rightarrow> string \<Rightarrow> string" where
  "re_replace_all r f s = re_replace_fuel (Suc (length s)) r f [] s"

definition re_replace_first :: "re \<Rightarrow> string \<Rightarrow> string \<Rightarrow> string" where
  \<comment> \<open>\<^verbatim>\<open>s.replace(/r/, t)\<close>\<close>
  "re_replace_first r t s = (case re_exec r s of None \<Rightarrow> s | Some m \<Rightarrow> m_before m @ t @ m_rest m)"

text \<open>\<^verbatim>\<open>s.match(/r/g)\<close>, with no match the empty list, and \<^verbatim>\<open>s.search(/r/)\<close>.\<close>

fun re_all_fuel :: "nat \<Rightarrow> re \<Rightarrow> string \<Rightarrow> string \<Rightarrow> string list" where
  "re_all_fuel 0 r rb s = []"
| "re_all_fuel (Suc k) r rb s = (case mt r (rb, s, []) of
      st # _ \<Rightarrow>
        (let rest = after_pos st; used = take (length s - length rest) s
         in used # (if used = [] then (case s of [] \<Rightarrow> [] | c # s' \<Rightarrow> re_all_fuel k r (c # rb) s')
                    else re_all_fuel k r (rev used @ rb) rest))
    | [] \<Rightarrow> (case s of [] \<Rightarrow> [] | c # s' \<Rightarrow> re_all_fuel k r (c # rb) s'))"

definition re_all :: "re \<Rightarrow> string \<Rightarrow> string list" where
  "re_all r s = re_all_fuel (Suc (length s)) r [] s"

definition re_search :: "re \<Rightarrow> string \<Rightarrow> nat option" where
  "re_search r s = map_option (\<lambda>m. length (m_before m)) (re_exec r s)"

section \<open>Building expressions\<close>

definition ch :: "char \<Rightarrow> re" where
  "ch c = Cls (\<lambda>x. x = c)"

definition any_of :: "string \<Rightarrow> re" where
  "any_of cs = Cls (\<lambda>x. x \<in> set cs)"

definition none_of :: "string \<Rightarrow> re" where
  "none_of cs = Cls (\<lambda>x. x \<notin> set cs)"

definition dot :: re where
  \<comment> \<open>any character but a line terminator\<close>
  "dot = Cls (\<lambda>x. x \<noteq> CHR 0x0A \<and> x \<noteq> CHR 0x0D)"

definition digit :: re where
  "digit = Cls is_digit"

definition space :: re where
  "space = Cls is_space"

definition word :: re where
  "word = Cls is_word"

fun cats :: "re list \<Rightarrow> re" where
  "cats [] = Eps"
| "cats [r] = r"
| "cats (r # rs) = Cat r (cats rs)"

fun alts :: "re list \<Rightarrow> re" where
  "alts [] = Cls (\<lambda>_. False)"
| "alts [r] = r"
| "alts (r # rs) = Alt r (alts rs)"

definition opt_re :: "re \<Rightarrow> re" where
  "opt_re r = Alt r Eps"

definition plus_re :: "re \<Rightarrow> re" where
  "plus_re r = Cat r (Rep r)"

fun times_re :: "nat \<Rightarrow> re \<Rightarrow> re" where
  "times_re 0 r = Eps"
| "times_re (Suc n) r = Cat r (times_re n r)"

definition lit :: "string \<Rightarrow> re" where
  "lit s = foldr (\<lambda>c r. Cat (ch c) r) s Eps"

definition lit_ci :: "string \<Rightarrow> re" where
  \<comment> \<open>a literal under the \<^verbatim>\<open>i\<close> flag\<close>
  "lit_ci s = foldr (\<lambda>c r. Cat (Cls (\<lambda>x. lower_char x = lower_char c)) r) s Eps"

definition hex_lower :: re where
  "hex_lower = any_of ''0123456789abcdef''"

definition hex_any :: re where
  "hex_any = any_of ''0123456789abcdefABCDEF''"

section \<open>The language of an expression\<close>

inductive in_re :: "re \<Rightarrow> string \<Rightarrow> bool" where
  in_eps: "in_re Eps []"
| in_cls: "f x \<Longrightarrow> in_re (Cls f) [x]"
| in_cat: "in_re a u \<Longrightarrow> in_re b v \<Longrightarrow> in_re (Cat a b) (u @ v)"
| in_altl: "in_re a u \<Longrightarrow> in_re (Alt a b) u"
| in_altr: "in_re b u \<Longrightarrow> in_re (Alt a b) u"
| in_rep_nil: "in_re (Rep a) []"
| in_rep: "in_re a u \<Longrightarrow> in_re (Rep a) v \<Longrightarrow> in_re (Rep a) (u @ v)"

inductive_simps in_re_eps [simp]: "in_re Eps w"
inductive_simps in_re_cls [simp]: "in_re (Cls f) w"
inductive_simps in_re_cat: "in_re (Cat a b) w"
inductive_simps in_re_alt: "in_re (Alt a b) w"
inductive_cases in_re_repE: "in_re (Rep a) w"

text \<open>No anchors, no groups and no lazy stars.\<close>

fun plain :: "re \<Rightarrow> bool" where
  "plain (Cat a b) = (plain a \<and> plain b)"
| "plain (Alt a b) = (plain a \<and> plain b)"
| "plain (Rep a) = plain a"
| "plain Eps = True"
| "plain (Cls _) = True"
| "plain _ = False"

text \<open>A star that takes an empty step makes no progress, so every word of a star is the
  concatenation of non-empty words.\<close>

lemma in_rep_nonempty:
  assumes "in_re (Rep a) w"
  shows "w = [] \<or> (\<exists>u v. w = u @ v \<and> u \<noteq> [] \<and> in_re a u \<and> in_re (Rep a) v)"
  using assms
proof (induction "Rep a" w rule: in_re.induct)
  case in_rep_nil
  then show ?case by simp
next
  case (in_rep u v)
  then show ?case by (cases "u = []") auto
qed

definition splits_at :: "string \<Rightarrow> pos \<Rightarrow> pos \<Rightarrow> bool" where
  \<comment> \<open>the second position is the first one moved over \<open>w\<close>\<close>
  "splits_at w st st' = (\<exists>b a g. st = (b, w @ a, g) \<and> st' = (rev w @ b, a, g))"

lemma splits_at_append:
  "splits_at u st st1 \<Longrightarrow> splits_at v st1 st2 \<Longrightarrow> splits_at (u @ v) st st2"
  by (auto simp: splits_at_def)

lemma splits_at_split:
  "splits_at (u @ v) st st2 \<Longrightarrow> \<exists>st1. splits_at u st st1 \<and> splits_at v st1 st2"
  by (auto simp: splits_at_def)

lemma splits_at_nil: "splits_at [] st st' \<longleftrightarrow> st' = st"
  by (cases st) (auto simp: splits_at_def)

lemma splits_at_length:
  "splits_at w st st' \<Longrightarrow> length (after_pos st) = length w + length (after_pos st')"
  by (auto simp: splits_at_def after_pos_def)

lemma mt_cls_iff: "st' \<in> set (mt (Cls f) st) \<longleftrightarrow> (\<exists>x. f x \<and> splits_at [x] st st')"
  by (cases st) (auto simp: after_pos_def splits_at_def split: list.splits)

lemma mt_plain_sound:
  "plain r \<Longrightarrow> st' \<in> set (mt r st) \<Longrightarrow> \<exists>w. in_re r w \<and> splits_at w st st'"
proof (induction r st arbitrary: st' rule: mt.induct)
  case (1 st)
  then show ?case by (simp add: splits_at_nil)
next
  case (2 f st)
  then obtain x where "f x" "splits_at [x] st st'" unfolding mt_cls_iff by blast
  then show ?case by (intro exI [of _ "[x]"]) simp
next
  case (3 a b st)
  then obtain st1 where st1: "st1 \<in> set (mt a st)" "st' \<in> set (mt b st1)" by auto
  from "3.IH"(1) [OF _ st1(1)] "3.prems" obtain u where u: "in_re a u" "splits_at u st st1" by auto
  from "3.IH"(2) [OF st1(1) _ st1(2)] "3.prems" obtain v where "in_re b v" "splits_at v st1 st'" by auto
  with u show ?case by (auto simp: in_re_cat intro: splits_at_append)
next
  case (4 a b st)
  from "4.prems" have p: "plain a" "plain b" and m: "st' \<in> set (mt a st) \<or> st' \<in> set (mt b st)" by simp_all
  from m show ?case
    using "4.IH"(1) [OF p(1)] "4.IH"(2) [OF p(2)] by (blast intro: in_altl in_altr)
next
  case (5 a st)
  show ?case
  proof (cases "st' = st")
    case True
    then show ?thesis by (intro exI [of _ "[]"]) (simp add: splits_at_nil in_rep_nil)
  next
    case False
    with "5.prems"(2) obtain st1 where st1: "st1 \<in> set (mt a st)"
        "length (after_pos st1) < length (after_pos st)" "st' \<in> set (mt (Rep a) st1)"
      by (auto simp: mt.simps(5) [of a st] split: if_splits)
    from "5.prems"(1) have pa: "plain a" by simp
    from "5.IH"(1) [OF pa st1(1)] obtain u where u: "in_re a u" "splits_at u st st1" by auto
    from "5.IH"(2) [OF st1(1,2) "5.prems"(1) st1(3)]
    obtain v where "in_re (Rep a) v" "splits_at v st1 st'" by auto
    with u show ?thesis by (auto intro: in_rep splits_at_append)
  qed
qed simp_all

lemma mt_plain_complete:
  "plain r \<Longrightarrow> in_re r w \<Longrightarrow> splits_at w st st' \<Longrightarrow> st' \<in> set (mt r st)"
proof (induction r st arbitrary: w st' rule: mt.induct)
  case (1 st)
  then show ?case by (simp add: splits_at_nil)
next
  case (2 f st)
  then obtain x where "w = [x]" "f x" by auto
  with "2.prems" show ?case unfolding mt_cls_iff by blast
next
  case (3 a b st)
  then obtain u v where w: "w = u @ v" "in_re a u" "in_re b v" by (auto simp: in_re_cat)
  with splits_at_split "3.prems"(3) obtain st1 where s: "splits_at u st st1" "splits_at v st1 st'"
    by blast
  from "3.prems"(1) have p: "plain a" "plain b" by simp_all
  have m: "st1 \<in> set (mt a st)" by (rule "3.IH"(1) [OF p(1) w(2) s(1)])
  have "st' \<in> set (mt b st1)" by (rule "3.IH"(2) [OF m p(2) w(3) s(2)])
  with m show ?case by auto
next
  case (4 a b st)
  from "4.prems" have p: "plain a" "plain b" and m: "in_re a w \<or> in_re b w"
    by (simp_all add: in_re_alt)
  from m show ?case
    using "4.IH"(1) [OF p(1) _ "4.prems"(3)] "4.IH"(2) [OF p(2) _ "4.prems"(3)] by auto
next
  case (5 a st)
  from in_rep_nonempty [OF "5.prems"(2)] show ?case
  proof
    assume "w = []"
    with "5.prems"(3) show ?thesis by (simp add: mt.simps(5) [of a st] splits_at_nil)
  next
    assume "\<exists>u v. w = u @ v \<and> u \<noteq> [] \<and> in_re a u \<and> in_re (Rep a) v"
    then obtain u v where w: "w = u @ v" "u \<noteq> []" "in_re a u" "in_re (Rep a) v" by auto
    with splits_at_split "5.prems"(3) obtain st1 where s: "splits_at u st st1" "splits_at v st1 st'"
      by blast
    from "5.prems"(1) have pa: "plain a" by simp
    have m: "st1 \<in> set (mt a st)" by (rule "5.IH"(1) [OF pa w(3) s(1)])
    from splits_at_length [OF s(1)] w(2) have l: "length (after_pos st1) < length (after_pos st)"
      by (cases u) auto
    have "st' \<in> set (mt (Rep a) st1)" by (rule "5.IH"(2) [OF m l "5.prems"(1) w(4) s(2)])
    with m l show ?thesis by (auto simp: mt.simps(5) [of a st])
  qed
qed simp_all

lemma mt_plain_iff:
  "plain r \<Longrightarrow> st' \<in> set (mt r st) \<longleftrightarrow> (\<exists>w. in_re r w \<and> splits_at w st st')"
  using mt_plain_sound mt_plain_complete by blast

lemma re_from_after:
  "(\<And>rb' s'. rb' \<noteq> [] \<Longrightarrow> mt r (rb', s', []) = []) \<Longrightarrow> rb \<noteq> [] \<Longrightarrow> re_from r rb s = None"
  by (induction s arbitrary: rb) (simp_all add: re_from.simps)

text \<open>The test \<^verbatim>\<open>/^r$/\<close> is membership in the language.\<close>

lemma re_full_iff:
  assumes "plain r"
  shows "re_test (cats [Bol, r, Eol]) s \<longleftrightarrow> in_re r s"
proof -
  let ?r = "Cat Bol (Cat r Eol)"
  have later: "mt ?r (rb, s', []) = []" if "rb \<noteq> []" for rb s'
    using that by simp
  have none: "re_from ?r [c] s' = None" for c s'
    by (rule re_from_after) (simp_all add: later)
  have "re_test ?r s \<longleftrightarrow> mt ?r ([], s, []) \<noteq> []"
  proof (cases "mt ?r ([], s, [])")
    case Nil
    then have "re_from ?r [] s = None"
      by (subst re_from.simps) (simp only: Nil list.case none, cases s, simp_all add: none)
    with Nil show ?thesis by (simp add: re_test_def re_exec_def)
  next
    case (Cons st sts)
    then have "re_from ?r [] s \<noteq> None"
      by (subst re_from.simps) (simp only: Cons list.case, simp)
    with Cons show ?thesis by (simp only: re_test_def re_exec_def) simp
  qed
  also have "\<dots> \<longleftrightarrow> (\<exists>st' \<in> set (mt r ([], s, [])). after_pos st' = [])"
    by (auto simp: concat_eq_Nil_conv)
  also have "\<dots> \<longleftrightarrow> in_re r s"
  proof
    assume "\<exists>st' \<in> set (mt r ([], s, [])). after_pos st' = []"
    then show "in_re r s"
      by (auto simp: mt_plain_iff [OF assms] splits_at_def after_pos_def)
  next
    assume "in_re r s"
    then have "(rev s, [], []) \<in> set (mt r ([], s, []))"
      by (auto simp: mt_plain_iff [OF assms] splits_at_def)
    then show "\<exists>st' \<in> set (mt r ([], s, [])). after_pos st' = []"
      by (rule bexI [rotated]) (simp add: after_pos_def)
  qed
  finally show ?thesis by simp
qed

section \<open>Languages of the built expressions\<close>

lemma in_re_ch [simp]: "in_re (ch c) w \<longleftrightarrow> w = [c]"
  by (auto simp: ch_def)

lemma in_re_lit [simp]: "in_re (lit s) w \<longleftrightarrow> w = s"
proof (induction s arbitrary: w)
  case Nil
  then show ?case by (simp add: lit_def)
next
  case (Cons c s)
  then show ?case by (auto simp: lit_def in_re_cat)
qed

lemma plain_lit [simp]: "plain (lit s)"
  by (induction s) (simp_all add: lit_def ch_def)

lemma in_re_rep_cls: "in_re (Rep (Cls f)) w \<longleftrightarrow> list_all f w"
proof
  show "in_re (Rep (Cls f)) w \<Longrightarrow> list_all f w"
    by (induction "Rep (Cls f)" w rule: in_re.induct) auto
next
  show "list_all f w \<Longrightarrow> in_re (Rep (Cls f)) w"
  proof (induction w)
    case Nil
    show ?case by (rule in_rep_nil)
  next
    case (Cons x w)
    then have "in_re (Rep (Cls f)) ([x] @ w)" by (intro in_rep) auto
    then show ?case by simp
  qed
qed

end
