(* ===== verification/ScopeGuard.thy ===== *)
theory ScopeGuard
  imports JsRegex
begin

text \<open>
  \<^verbatim>\<open>core/engine/scope-guard.ts\<close>: the check that the files a job changed stay inside its
  \<^verbatim>\<open>fixScope\<close>.

  \<open>globMatch\<close> builds the expression that the code writes as text: \<open>glob_tokens\<close> is the splitting at
  \<^verbatim>\<open>**\<close> and \<^verbatim>\<open>*\<close>, \<open>glob_re\<close> the expression the engine reads from that text. A question mark is not
  among the characters that the code escapes, so the engine reads it as a quantifier of what precedes
  it. The lemmas give the meaning of a pattern without question marks as a language (\<open>glob_lang\<close>)
  and the meaning of the guard as a whole.
\<close>

section \<open>Paths\<close>

definition backslash :: char where
  "backslash = CHR 0x5C"

definition isRepoRelativePosixPath :: "js \<Rightarrow> bool" where
  "isRepoRelativePosixPath v = (let path = trimmed v in
     path \<noteq> [] \<and> \<not> startsWith path ''/'' \<and> backslash \<notin> set path \<and> ''..'' \<notin> set (split_char CHR ''/'' path))"

definition status_prefix :: re where
  \<comment> \<open>\<^verbatim>\<open>/^[ MADRCU?!]{1,2}\s+(.+)$/\<close>\<close>
  "status_prefix = cats [Bol, any_of '' MADRCU?!'', opt_re (any_of '' MADRCU?!''), plus_re space,
     Grp 1 (plus_re dot), Eol]"

definition stripGitStatusPrefix :: "string \<Rightarrow> string" where
  "stripGitStatusPrefix line = (if line = [] then []
     else case re_exec status_prefix line of Some m \<Rightarrow> group m 1 | None \<Rightarrow> line)"

definition normalizeRepoRelativePaths :: "js \<Rightarrow> string list result" where
  "normalizeRepoRelativePaths values =
     thn (map_r (\<lambda>v. let path = stripGitStatusPrefix (trimmed v)
            in if isRepoRelativePosixPath (JStr path) then Inr path
               else Inl (ErrorMsg (''invalid repo-relative path: '' @ to_str v)))
          (case values of JArr vs \<Rightarrow> vs | v \<Rightarrow> [v]))
       (\<lambda>paths. Inr (sort (uniq paths)))"

section \<open>Glob patterns\<close>

datatype glob_token = GStarStar | GStar | GQuestion | GChar char

fun glob_tokens :: "string \<Rightarrow> glob_token list" where
  "glob_tokens [] = []"
| "glob_tokens (c # s) =
     (if c = CHR ''*'' then (case s of d # s' \<Rightarrow> if d = CHR ''*'' then GStarStar # glob_tokens s' else GStar # glob_tokens s
                            | [] \<Rightarrow> [GStar])
      else if c = CHR ''?'' then GQuestion # glob_tokens s
      else GChar c # glob_tokens s)"

definition glob_item :: "glob_token \<Rightarrow> re" where
  "glob_item t = (case t of GStarStar \<Rightarrow> Rep dot | GStar \<Rightarrow> Rep (none_of ''/'') | GChar c \<Rightarrow> ch c | GQuestion \<Rightarrow> Eps)"

text \<open>Reading the written expression: \<open>prev\<close> is the last item and how often a question mark may
  still follow it. After an item a question mark makes it optional, after a star it makes the star
  lazy; one more makes the optional item lazy; any other is a syntax error.\<close>

definition quantify :: "re \<Rightarrow> nat \<Rightarrow> (re \<times> nat) option" where
  "quantify r k = (case k of
     0 \<Rightarrow> None
   | Suc 0 \<Rightarrow> Some (case r of Rep a \<Rightarrow> LazyRep a | Alt a Eps \<Rightarrow> Alt Eps a | _ \<Rightarrow> r, 0)
   | _ \<Rightarrow> Some (opt_re r, 1))"

definition item_quantifiers :: "glob_token \<Rightarrow> nat" where
  "item_quantifiers t = (case t of GChar _ \<Rightarrow> 2 | _ \<Rightarrow> 1)"

fun glob_items :: "glob_token list \<Rightarrow> (re \<times> nat) option \<Rightarrow> re list option" where
  "glob_items [] prev = Some (case prev of None \<Rightarrow> [] | Some (r, _) \<Rightarrow> [r])"
| "glob_items (GQuestion # ts) prev =
     (case prev of None \<Rightarrow> None
      | Some (r, k) \<Rightarrow> (case quantify r k of None \<Rightarrow> None | q \<Rightarrow> glob_items ts q))"
| "glob_items (t # ts) prev =
     map_option (\<lambda>rs. (case prev of None \<Rightarrow> [] | Some (r, _) \<Rightarrow> [r]) @ rs)
       (glob_items ts (Some (glob_item t, item_quantifiers t)))"

definition globMatch :: "string \<Rightarrow> string \<Rightarrow> bool" where
  "globMatch filePath pattern = (case glob_items (glob_tokens pattern) None of
     None \<Rightarrow> False | Some rs \<Rightarrow> re_test (cats [Bol, cats rs, Eol]) filePath)"

section \<open>The guard\<close>

definition isPathInScope :: "string \<Rightarrow> string \<Rightarrow> bool" where
  "isPathInScope filePath scopePattern =
     (if filePath = [] \<or> scopePattern = [] then False
      else if filePath = scopePattern then True
      else if endsWith scopePattern ''/'' then startsWith filePath scopePattern
      else if startsWith filePath (scopePattern @ ''/'') then True
      else if includes_sub scopePattern ''*'' then globMatch filePath scopePattern
      else False)"

record scope_result =
  withinScope :: bool
  violations :: "string list"
  changedFiles :: "string list"
  fixScope :: "string list"

definition validateScopeConstraint :: "string list \<Rightarrow> string list \<Rightarrow> bool \<times> string list" where
  "validateScopeConstraint diffPaths scope =
     (if scope = [] then (True, [])
      else if diffPaths = [] then (True, [])
      else let bad = filter (\<lambda>p. \<not> list_ex (isPathInScope p) scope) diffPaths in (bad = [], bad))"

definition evaluateScopeGuard :: "js \<Rightarrow> js \<Rightarrow> scope_result" where
  "evaluateScopeGuard files scope =
     (let cleanPaths = filter (\<lambda>f. f \<noteq> []) (map (\<lambda>f. stripGitStatusPrefix (to_str f)) (arr files));
          cleanScope = filter (\<lambda>s. s \<noteq> []) (map (\<lambda>s. to_str (or_else s (JStr []))) (arr scope));
          r = validateScopeConstraint cleanPaths cleanScope
      in \<lparr>withinScope = fst r, violations = snd r, changedFiles = cleanPaths, fixScope = cleanScope\<rparr>)"

section \<open>The language of a pattern\<close>

fun token_lang :: "glob_token \<Rightarrow> string \<Rightarrow> bool" where
  "token_lang GStarStar w = list_all (\<lambda>x. x \<noteq> CHR 0x0A \<and> x \<noteq> CHR 0x0D) w"
| "token_lang GStar w = (CHR ''/'' \<notin> set w)"
| "token_lang (GChar c) w = (w = [c])"
| "token_lang GQuestion w = False"

fun glob_lang :: "glob_token list \<Rightarrow> string \<Rightarrow> bool" where
  "glob_lang [] w = (w = [])"
| "glob_lang (t # ts) w = (\<exists>u v. w = u @ v \<and> token_lang t u \<and> glob_lang ts v)"

lemma glob_item_plain: "plain (glob_item t)"
  by (cases t) (simp_all add: glob_item_def dot_def none_of_def ch_def)

lemma glob_item_lang: "t \<noteq> GQuestion \<Longrightarrow> in_re (glob_item t) w \<longleftrightarrow> token_lang t w"
  by (cases t) (auto simp: glob_item_def dot_def none_of_def in_re_rep_cls list_all_iff)

lemma cats_plain: "list_all plain rs \<Longrightarrow> plain (cats rs)"
  by (induction rs rule: cats.induct) simp_all

lemma in_re_cats_Cons: "in_re (cats (r # rs)) w \<longleftrightarrow> (\<exists>u v. w = u @ v \<and> in_re r u \<and> in_re (cats rs) v)"
  by (cases rs) (auto simp: in_re_cat)

lemma glob_items_plain:
  "GQuestion \<notin> set ts \<Longrightarrow>
   glob_items ts prev = Some ((case prev of None \<Rightarrow> [] | Some (r, _) \<Rightarrow> [r]) @ map glob_item ts)"
proof (induction ts arbitrary: prev)
  case Nil
  then show ?case by simp
next
  case (Cons t ts)
  then show ?case by (cases t) simp_all
qed

lemma glob_tokens_question: "GQuestion \<in> set (glob_tokens p) \<longleftrightarrow> CHR ''?'' \<in> set p"
  by (induction p rule: glob_tokens.induct) (auto split: list.splits)

lemma globMatch_lang:
  assumes "CHR ''?'' \<notin> set pattern"
  shows "globMatch path pattern \<longleftrightarrow> glob_lang (glob_tokens pattern) path"
proof -
  from assms have q: "GQuestion \<notin> set (glob_tokens pattern)" by (simp add: glob_tokens_question)
  have items: "glob_items (glob_tokens pattern) None = Some (map glob_item (glob_tokens pattern))"
    using glob_items_plain [OF q, of None] by simp
  have "list_all plain (map glob_item ts)" for ts by (induction ts) (simp_all add: glob_item_plain)
  then have "globMatch path pattern \<longleftrightarrow> in_re (cats (map glob_item (glob_tokens pattern))) path"
    unfolding globMatch_def items option.case by (intro re_full_iff cats_plain)
  also have "GQuestion \<notin> set ts \<Longrightarrow> in_re (cats (map glob_item ts)) w \<longleftrightarrow> glob_lang ts w" for ts w
  proof (induction ts arbitrary: w)
    case Nil
    then show ?case by simp
  next
    case (Cons t ts)
    then have t: "t \<noteq> GQuestion" and IH: "\<And>w. in_re (cats (map glob_item ts)) w \<longleftrightarrow> glob_lang ts w" by auto
    show ?case unfolding list.map in_re_cats_Cons glob_lang.simps glob_item_lang [OF t] IH by (rule refl)
  qed
  then have "in_re (cats (map glob_item (glob_tokens pattern))) path \<longleftrightarrow> glob_lang (glob_tokens pattern) path"
    using q by blast
  finally show ?thesis .
qed

text \<open>What the guard means: a path is in scope when it is the scope, lies under it, or matches it.\<close>

definition under_dir :: "string \<Rightarrow> string \<Rightarrow> bool" where
  "under_dir scope path \<longleftrightarrow> (\<exists>r. path = (if endsWith scope ''/'' then scope else scope @ ''/'') @ r)"

definition in_scope_spec :: "string \<Rightarrow> string \<Rightarrow> bool" where
  "in_scope_spec path scope \<longleftrightarrow> path \<noteq> [] \<and> scope \<noteq> [] \<and>
     (path = scope \<or> under_dir scope path
      \<or> (\<not> endsWith scope ''/'' \<and> CHR ''*'' \<in> set scope \<and> glob_lang (glob_tokens scope) path))"

lemma includes_sub_char: "includes_sub s [c] \<longleftrightarrow> c \<in> set s"
  by (induction s) (auto simp: startsWith_def)

lemma isPathInScope_iff_spec:
  "CHR ''?'' \<notin> set scope \<Longrightarrow> isPathInScope path scope \<longleftrightarrow> in_scope_spec path scope"
  by (auto simp: isPathInScope_def in_scope_spec_def under_dir_def startsWith_iff includes_sub_char globMatch_lang)

lemma validateScope_eq:
  "validateScopeConstraint paths scope = (bad = [], bad) \<longleftrightarrow>
     bad = (if scope = [] then [] else filter (\<lambda>p. \<forall>s \<in> set scope. \<not> isPathInScope p s) paths)"
  by (auto simp: validateScopeConstraint_def Let_def list_ex_iff)

lemma scope_violations:
  assumes "evaluateScopeGuard files scope = r"
  shows "withinScope r = (violations r = [])"
    "violations r = (if fixScope r = [] then [] else filter (\<lambda>p. \<forall>s \<in> set (fixScope r). \<not> isPathInScope p s) (changedFiles r))"
proof -
  let ?bad = "if fixScope r = [] then [] else filter (\<lambda>p. \<forall>s \<in> set (fixScope r). \<not> isPathInScope p s) (changedFiles r)"
  have "validateScopeConstraint (changedFiles r) (fixScope r) = (?bad = [], ?bad)"
    unfolding validateScope_eq by (rule refl)
  moreover from assms have "withinScope r = fst (validateScopeConstraint (changedFiles r) (fixScope r))"
    "violations r = snd (validateScopeConstraint (changedFiles r) (fixScope r))"
    unfolding evaluateScopeGuard_def Let_def by auto
  ultimately show "withinScope r = (violations r = [])" "violations r = ?bad" by (simp_all only: fst_conv snd_conv)
qed

lemma normalize_paths_sound:
  "normalizeRepoRelativePaths v = Inr ps \<Longrightarrow>
     sorted ps \<and> distinct ps \<and> (\<forall>p \<in> set ps. trim p \<noteq> [] \<and> \<not> startsWith (trim p) ''/'' \<and> backslash \<notin> set (trim p)
       \<and> ''..'' \<notin> set (split_char CHR ''/'' (trim p)))"
proof -
  assume "normalizeRepoRelativePaths v = Inr ps"
  then obtain qs where ps: "ps = sort (uniq qs)"
    and qs: "list_all2 (\<lambda>v q. (let path = stripGitStatusPrefix (trimmed v)
            in if isRepoRelativePosixPath (JStr path) then Inr path
               else Inl (ErrorMsg (''invalid repo-relative path: '' @ to_str v))) = Inr q)
       (case v of JArr vs \<Rightarrow> vs | v \<Rightarrow> [v]) qs"
    by (auto simp: normalizeRepoRelativePaths_def thn_eq_Inr map_r_Inr_iff)
  from qs have "\<forall>q \<in> set qs. isRepoRelativePosixPath (JStr q)"
    by (induction rule: list_all2_induct) (auto simp: Let_def split: if_splits)
  with ps show ?thesis by (auto simp: isRepoRelativePosixPath_def Let_def)
qed

end
