(* ===== verification/FailureContract.thy ===== *)
theory FailureContract
  imports JsValue
begin

text \<open>
  The contracts of \<^verbatim>\<open>core/contracts\<close> that other components speak: failure kinds and failure
  records (\<^verbatim>\<open>failure.ts\<close>), phase results (\<^verbatim>\<open>phase-result.ts\<close>), the process exit codes
  (\<^verbatim>\<open>exit-code.ts\<close>) and the decisions a supervisor may take (\<^verbatim>\<open>supervisor-decision.ts\<close>).
\<close>

section \<open>Failures\<close>

definition VALID_KINDS :: "string list" where
  "VALID_KINDS =
     [''agent_unavailable'', ''agent_rate_limited'', ''agent_spawn_error'', ''agent_exit_nonzero'',
      ''agent_contract_invalid'', ''artifact_invalid'', ''issue_mismatch'', ''permission_denied'',
      ''runtime_interrupted'', ''worker_crashed'', ''worker_heartbeat_lost'', ''assignment_progress_stale'',
      ''timeout'', ''local_code_index_unavailable'', ''verification_failed'', ''verdict_invalid'',
      ''plan_bounded_handoff_timeout'', ''web_tool_denied'', ''read_only_mutation_denied'',
      ''broad_test_command_denied'', ''execute_no_edit_progress'', ''whole_filesystem_search_denied'',
      ''tool_budget_exceeded'', ''human_approval_required'', ''runjob_panic'', ''poisoned_session'',
      ''scope_violation'', ''unknown'']"

definition isValidFailureKind :: "js \<Rightarrow> bool" where
  "isValidFailureKind kind = (case kind of JStr k \<Rightarrow> k \<in> set VALID_KINDS | _ \<Rightarrow> False)"

record failure_args =
  fa_kind :: string
  fa_phase :: js
  fa_reason :: js
  fa_retryable :: js
  fa_exitCode :: js
  fa_signal :: js
  fa_stdout :: js
  fa_stderr :: js
  fa_cause :: js

definition default_arg :: "js \<Rightarrow> js \<Rightarrow> js" where
  \<comment> \<open>a parameter's default applies when the argument is \<^verbatim>\<open>undefined\<close>\<close>
  "default_arg v d = (if v = JUndef then d else v)"

definition mk_failure :: "failure_args \<Rightarrow> js result" where
  "mk_failure a =
     (if fa_kind a \<notin> set VALID_KINDS then Inl (ErrorMsg (''invalid FailureKind: '' @ fa_kind a))
      else Inr (JObj
        [(''kind'', JStr (fa_kind a)), (''phase'', default_arg (fa_phase a) JNull),
         (''reason'', JStr (to_str (fa_reason a))),
         (''retryable'', JBool (truthy (default_arg (fa_retryable a) (JBool False)))),
         (''exitCode'', default_arg (fa_exitCode a) JNull), (''signal'', default_arg (fa_signal a) JNull),
         (''stdoutSnippet'', JStr (take 2000 (to_str (default_arg (fa_stdout a) (JStr []))))),
         (''stderrSnippet'', JStr (take 2000 (to_str (default_arg (fa_stderr a) (JStr []))))),
         (''cause'', default_arg (fa_cause a) (JObj []))]))"

section \<open>Phase results\<close>

definition phasePassed :: "string \<Rightarrow> string \<Rightarrow> js \<Rightarrow> js \<Rightarrow> js" where
  \<comment> \<open>\<open>now\<close> is \<^verbatim>\<open>new Date().toISOString()\<close>\<close>
  "phasePassed now phase artifact diagnostics = JObj
     [(''schemaVersion'', jnat 1), (''phase'', JStr phase), (''status'', JStr ''passed''),
      (''artifact'', default_arg artifact JNull), (''failure'', JNull),
      (''diagnostics'', default_arg diagnostics (JObj [])), (''createdAt'', JStr now)]"

definition phaseFailed :: "string \<Rightarrow> string \<Rightarrow> js \<Rightarrow> js \<Rightarrow> js" where
  "phaseFailed now phase failure diagnostics = JObj
     [(''schemaVersion'', jnat 1), (''phase'', JStr phase), (''status'', JStr ''failed''),
      (''artifact'', JNull), (''failure'', failure),
      (''diagnostics'', default_arg diagnostics (JObj [])), (''createdAt'', JStr now)]"

definition isPhasePassed :: "js \<Rightarrow> bool" where
  "isPhasePassed v = (fld v ''status'' = JStr ''passed'')"

section \<open>Exit codes\<close>

definition FixAccepted :: int where "FixAccepted = 0"
definition FixNeedsSetup :: int where "FixNeedsSetup = 64"
definition FixInvalidRequest :: int where "FixInvalidRequest = 65"
definition FixRuntimeUnavailable :: int where "FixRuntimeUnavailable = 69"
definition FollowCompletedVerified :: int where "FollowCompletedVerified = 0"
definition FollowFailed :: int where "FollowFailed = 1"
definition FollowCanceled :: int where "FollowCanceled = 2"
definition FollowBlocked :: int where "FollowBlocked = 3"
definition FollowNeedsInput :: int where "FollowNeedsInput = 4"
definition FollowTimeout :: int where "FollowTimeout = 5"

definition PRE_SUBMIT_FAILURE_EXIT_CODE :: "(string \<times> int) list" where
  "PRE_SUBMIT_FAILURE_EXIT_CODE = [(''needs_setup'', FixNeedsSetup), (''invalid_request'', FixInvalidRequest),
     (''runtime_unavailable'', FixRuntimeUnavailable)]"

definition exitCodeForPreSubmitFailure :: "string \<Rightarrow> int" where
  "exitCodeForPreSubmitFailure category =
     (case map_of PRE_SUBMIT_FAILURE_EXIT_CODE category of Some c \<Rightarrow> c | None \<Rightarrow> FixRuntimeUnavailable)"

definition isPreSubmitFailureExitCode :: "int \<Rightarrow> bool" where
  "isPreSubmitFailureExitCode code =
     (code = FixNeedsSetup \<or> code = FixInvalidRequest \<or> code = FixRuntimeUnavailable)"

definition isSuccessExitCode :: "int \<Rightarrow> bool" where
  "isSuccessExitCode code = (code = FixAccepted \<or> code = FollowCompletedVerified)"

lemmas exit_code_defs = FixAccepted_def FixNeedsSetup_def FixInvalidRequest_def FixRuntimeUnavailable_def
  FollowCompletedVerified_def FollowFailed_def FollowCanceled_def FollowBlocked_def FollowNeedsInput_def
  FollowTimeout_def

section \<open>Supervisor decisions\<close>

definition VALID_ACTIONS :: "string list" where
  "VALID_ACTIONS = [''retry_same_worker'', ''restart_worker_and_retry'', ''reroute'', ''switch_agent'',
     ''wait_for_rate_limit'', ''request_human_approval'', ''mark_failed'', ''mark_blocked'']"

datatype param_spec = PEnum "string list" | PString | PDateTime

record action_schema =
  required_params :: "string list"
  param_specs :: "(string \<times> param_spec) list"

definition ACTION_SCHEMAS :: "(string \<times> action_schema) list" where
  "ACTION_SCHEMAS =
     [(''reroute'', \<lparr>required_params = [''workflow'', ''planMode''],
        param_specs = [(''workflow'', PEnum [''standard'', ''complex'', ''direct'', ''blocked'']),
                       (''planMode'', PEnum [''full'', ''light'', ''none'', ''auto'', ''parent''])]\<rparr>),
      (''switch_agent'', \<lparr>required_params = [''role'', ''agent''],
        param_specs = [(''role'', PEnum [''planner'', ''executor'', ''verifier'', ''reviewer'', ''remediator'']),
                       (''agent'', PString)]\<rparr>),
      (''wait_for_rate_limit'', \<lparr>required_params = [''untilTs''], param_specs = [(''untilTs'', PDateTime)]\<rparr>)]"

definition FORBIDDEN_PARAMS :: "string list" where
  "FORBIDDEN_PARAMS = [''projectId'', ''sourcePath'', ''cwd'', ''env'', ''command'', ''shell'',
     ''args'', ''token'', ''secret'', ''writeAllowPaths'', ''dangerous'']"

definition isValidSupervisorAction :: "string \<Rightarrow> bool" where
  "isValidSupervisorAction a = (a \<in> set VALID_ACTIONS)"

definition param_errors :: "(string \<Rightarrow> jsnum) \<Rightarrow> string \<Rightarrow> param_spec \<Rightarrow> js \<Rightarrow> string list" where
  \<comment> \<open>\<open>parse_date\<close> is \<^verbatim>\<open>Date.parse\<close>\<close>
  "param_errors parse_date key spec v =
     (if v = JUndef then []
      else case spec of
        PEnum vals \<Rightarrow> if v \<in> JStr ` set vals then []
          else [''param '' @ key @ '' invalid value: '' @ dquote @ to_str v @ dquote
                  @ '' (allowed: '' @ join '', '' vals @ '')'']
      | PString \<Rightarrow> if is_str v \<and> truthy v then [] else [''param '' @ key @ '' must be a non-empty string'']
      | PDateTime \<Rightarrow> if num_finite (parse_date (to_str (or_else v (JStr [])))) then []
          else [''param '' @ key @ '' must be a valid ISO datetime''])"

definition schema_errors :: "(string \<Rightarrow> jsnum) \<Rightarrow> string \<Rightarrow> action_schema \<Rightarrow> js \<Rightarrow> string list" where
  "schema_errors parse_date action schema params =
     (let keys = map fst (entries params)
      in map (\<lambda>r. ''missing required param: '' @ r) (filter (\<lambda>r. r \<notin> set keys) (required_params schema))
         @ concat (map (\<lambda>(k, spec). param_errors parse_date k spec (fld params k)) (param_specs schema))
         @ map (\<lambda>k. ''unexpected param for '' @ action @ '': '' @ k)
             (filter (\<lambda>k. k \<notin> set (map fst (param_specs schema) @ FORBIDDEN_PARAMS)) keys))"

definition params_errors :: "(string \<Rightarrow> jsnum) \<Rightarrow> string \<Rightarrow> js \<Rightarrow> string list" where
  "params_errors parse_date action params =
     (if \<not> truthy params then []
      else if \<not> isRecord params then [''params must be an object'']
      else map (\<lambda>k. ''forbidden param: '' @ k) (filter (\<lambda>k. k \<in> set FORBIDDEN_PARAMS) (map fst (entries params)))
         @ (case map_of ACTION_SCHEMAS action of None \<Rightarrow> [] | Some s \<Rightarrow> schema_errors parse_date action s params))"

definition confidence_ok :: "js \<Rightarrow> bool" where
  "confidence_ok c = (nullish c \<or>
     (case c of JNum n \<Rightarrow> \<not> num_lt n (Fin 0) \<and> \<not> num_lt (Fin 1) n | _ \<Rightarrow> False))"

definition validateSupervisorDecision :: "(string \<Rightarrow> jsnum) \<Rightarrow> js \<Rightarrow> string list" where
  \<comment> \<open>the errors; the decision is valid when there are none\<close>
  "validateSupervisorDecision parse_date decision =
     (if \<not> (isRecord decision \<or> is_arr decision) then [''decision must be an object'']
      else let action = (case fld decision ''action'' of JStr a \<Rightarrow> a | _ \<Rightarrow> [])
        in (if action \<in> set VALID_ACTIONS then []
            else [''invalid action: '' @ to_str (fld decision ''action'') @ '' (allowed: '' @ join '', '' VALID_ACTIONS @ '')''])
           @ (if is_str (fld decision ''reason'') \<and> truthy (fld decision ''reason'') then []
              else [''reason is required and must be a string''])
           @ (if confidence_ok (fld decision ''confidence'') then [] else [''confidence must be between 0 and 1''])
           @ params_errors parse_date action (fld decision ''params''))"

section \<open>Lemmas\<close>

lemma fld_own_key: "fld v k \<noteq> JUndef \<Longrightarrow> k \<in> fst ` set (entries v)"
  by (cases v) (auto simp: set_entries fld_def obj_get_def split: option.splits dest!: map_of_SomeD intro: image_eqI [rotated])

lemma schema_ok:
  assumes "schema_errors pd action schema params = []"
  shows "r \<in> set (required_params schema) \<Longrightarrow> r \<in> fst ` set (entries params)"
    "k \<in> fst ` set (entries params) \<Longrightarrow> k \<in> fst ` set (param_specs schema) \<union> set FORBIDDEN_PARAMS"
    "(k, spec) \<in> set (param_specs schema) \<Longrightarrow> param_errors pd k spec (fld params k) = []"
  using assms by (auto simp: schema_errors_def Let_def filter_empty_conv image_iff)

lemma params_ok:
  assumes "params_errors pd action params = []" "isRecord params"
  shows "k \<in> fst ` set (entries params) \<Longrightarrow> k \<notin> set FORBIDDEN_PARAMS"
    "map_of ACTION_SCHEMAS action = Some s \<Longrightarrow> schema_errors pd action s params = []"
proof -
  have "truthy params" using assms(2) by (cases params) simp_all
  then show "k \<in> fst ` set (entries params) \<Longrightarrow> k \<notin> set FORBIDDEN_PARAMS"
    "map_of ACTION_SCHEMAS action = Some s \<Longrightarrow> schema_errors pd action s params = []"
    using assms by (auto simp: params_errors_def filter_empty_conv)
qed

lemma decision_ok:
  assumes "validateSupervisorDecision pd d = []"
  obtains a where "fld d ''action'' = JStr a" "a \<in> set VALID_ACTIONS" "params_errors pd a (fld d ''params'') = []"
    "\<exists>r. fld d ''reason'' = JStr r \<and> r \<noteq> []" "confidence_ok (fld d ''confidence'')"
proof -
  have ne: "[] \<notin> set VALID_ACTIONS" by (simp add: VALID_ACTIONS_def)
  from assms have d: "isRecord d \<or> is_arr d" by (auto simp: validateSupervisorDecision_def split: if_splits)
  let ?a = "case fld d ''action'' of JStr a \<Rightarrow> a | _ \<Rightarrow> []"
  from assms d have *: "?a \<in> set VALID_ACTIONS" "is_str (fld d ''reason'') \<and> truthy (fld d ''reason'')"
    "confidence_ok (fld d ''confidence'')" "params_errors pd ?a (fld d ''params'') = []"
    unfolding validateSupervisorDecision_def Let_def by (simp_all split: if_splits)
  from *(1) ne obtain a where a: "fld d ''action'' = JStr a" by (cases "fld d ''action''") auto
  moreover have "\<exists>r. fld d ''reason'' = JStr r \<and> r \<noteq> []"
    using *(2) by (cases "fld d ''reason''") auto
  ultimately show thesis using that [OF a] * by simp
qed

end
