(* ===== verification/FailureRecovery.thy ===== *)
theory FailureRecovery
  imports FailureContract JsRegex
begin

text \<open>
  \<^verbatim>\<open>core/contracts/failure-recovery.ts\<close>: the class of a failure, the evidence and fingerprint that
  identify it across attempts, and the choice of a recovery strategy.

  \<open>sha\<close> stands for \<^verbatim>\<open>createHash("sha256")...digest("hex")\<close> of \<^verbatim>\<open>node:crypto\<close>; nothing is assumed
  about it. The main lemmas rank the strategies of a failure class: on a repeated fingerprint the
  selected strategy ranks strictly above the previous one, so only boundedly many retries carry the
  same fingerprint.
\<close>

section \<open>Tables\<close>

definition VALID_CLASSES :: "string list" where
  "VALID_CLASSES = [''task_understanding_error'', ''location_error'', ''implementation_error'', ''test_selection_error'', ''environment_error'', ''provider_transport_error'', ''timeout'', ''no_progress'', ''evidence_insufficient'', ''contract_error'', ''permission_error'', ''unknown'']"

definition ROUTING_CLASS :: "(string \<times> string) list" where
  "ROUTING_CLASS =
     [(''needs_clarification'', ''task_understanding_error''),
      (''scope_violation'', ''location_error''),
      (''checklist_failed'', ''implementation_error''),
      (''evidence_mismatch'', ''implementation_error''),
      (''evidence_stale'', ''implementation_error''),
      (''evidence_missing'', ''evidence_insufficient''),
      (''checklist_incomplete'', ''evidence_insufficient''),
      (''verdict_invalid'', ''evidence_insufficient''),
      (''checklist_invalid'', ''evidence_insufficient''),
      (''artifact_invalid'', ''contract_error''),
      (''dag_uncovered'', ''contract_error''),
      (''infra_error'', ''environment_error''),
      (''poisoned_session'', ''no_progress'')]"

definition KIND_CLASS :: "(string \<times> string) list" where
  "KIND_CLASS =
     [(''issue_mismatch'', ''task_understanding_error''),
      (''scope_violation'', ''location_error''),
      (''verification_failed'', ''implementation_error''),
      (''broad_test_command_denied'', ''test_selection_error''),
      (''local_code_index_unavailable'', ''environment_error''),
      (''runtime_interrupted'', ''environment_error''),
      (''worker_crashed'', ''environment_error''),
      (''worker_heartbeat_lost'', ''environment_error''),
      (''runjob_panic'', ''environment_error''),
      (''agent_unavailable'', ''provider_transport_error''),
      (''agent_rate_limited'', ''provider_transport_error''),
      (''agent_spawn_error'', ''environment_error''),
      (''agent_exit_nonzero'', ''provider_transport_error''),
      (''timeout'', ''timeout''),
      (''plan_bounded_handoff_timeout'', ''timeout''),
      (''assignment_progress_stale'', ''no_progress''),
      (''execute_no_edit_progress'', ''no_progress''),
      (''tool_budget_exceeded'', ''no_progress''),
      (''poisoned_session'', ''no_progress''),
      (''artifact_invalid'', ''contract_error''),
      (''agent_contract_invalid'', ''contract_error''),
      (''verdict_invalid'', ''evidence_insufficient''),
      (''read_only_mutation_denied'', ''permission_error''),
      (''web_tool_denied'', ''permission_error''),
      (''whole_filesystem_search_denied'', ''permission_error''),
      (''permission_denied'', ''permission_error''),
      (''human_approval_required'', ''permission_error'')]"

definition STRATEGIES :: "(string \<times> string list) list" where
  "STRATEGIES =
     [(''task_understanding_error'', [''replan_from_failure_evidence'', ''fresh_session_replan'']),
      (''location_error'', [''relocalize_from_failure_evidence'', ''fresh_session_relocalize'']),
      (''implementation_error'', [''targeted_repair'', ''fresh_session_diagnosis'']),
      (''test_selection_error'', [''correct_test_selection'', ''fresh_session_test_diagnosis'']),
      (''environment_error'', [''fresh_session_environment_retry'', ''restart_worker_clean_environment'']),
      (''provider_transport_error'', [''provider_handoff'', ''fresh_session_provider_retry'']),
      (''timeout'', [''fresh_session_with_carry_forward'', ''restart_worker_with_carry_forward'']),
      (''no_progress'', [''fresh_session_alternate_approach'', ''restart_worker_replan'']),
      (''evidence_insufficient'', [''rebuild_evidence'', ''fresh_session_evidence_rebuild'']),
      (''contract_error'', [''contract_repair'', ''fresh_session_contract_repair'']),
      (''permission_error'', [''correct_permission_strategy'', ''fresh_session_permission_repair'']),
      (''unknown'', [])]"

definition PHASE_UNSUPPORTED_PREFIXES :: "string list" where
  "PHASE_UNSUPPORTED_PREFIXES = [''restart_worker'', ''fresh_worker'']"

section \<open>Normalised texts\<close>

definition text_of :: "js \<Rightarrow> string" where
  "text_of v = (if nullish v then [] else to_str v)"

definition timestamp_re :: re where
  "timestamp_re = cats [WordB, times_re 4 digit, lit ''-'', times_re 2 digit, lit ''-'', times_re 2 digit, lit ''T'',
     times_re 2 digit, lit '':'', times_re 2 digit, lit '':'', times_re 2 digit,
     opt_re (Cat (lit ''.'') (plus_re digit)), lit ''Z'', WordB]"

definition uuid_re :: re where
  "uuid_re = cats [WordB, times_re 8 hex_any, lit ''-'', times_re 4 hex_any, lit ''-'', any_of ''12345'', times_re 3 hex_any,
     lit ''-'', any_of ''89abAB'', times_re 3 hex_any, lit ''-'', times_re 12 hex_any, WordB]"

definition counter_re :: re where
  "counter_re = cats [WordB, Grp 1 (alts [lit_ci ''pid'', lit_ci ''attempt'', lit_ci ''iteration'', lit_ci ''retry'']),
     Rep space, opt_re (any_of ''=: #''), Rep space, plus_re digit, WordB]"

definition repetition_re :: re where
  "repetition_re = cats [WordB, alts [lit_ci ''again'', lit_ci ''repeated'', lit_ci ''unchanged''], WordB]"

definition tmp_re :: re where
  "tmp_re = Cat (lit ''/tmp/'') (plus_re (Cls (\<lambda>c. \<not> is_space c \<and> c \<notin> set [CHR 0x27, CHR 0x22, CHR 0x60])))"

definition digest_re :: re where
  "digest_re = cats [WordB, times_re 32 hex_any, Rep hex_any, WordB]"

definition replace_with :: "re \<Rightarrow> string \<Rightarrow> string \<Rightarrow> string" where
  "replace_with r t = re_replace_all r (\<lambda>_. t)"

definition normalizedText :: "js \<Rightarrow> nat \<Rightarrow> string" where
  "normalizedText v maxChars =
     take maxChars (trim (replace_with (plus_re space) '' ''
       (replace_with digest_re ''<digest>''
       (replace_with tmp_re ''/tmp/<path>''
       (replace_with repetition_re []
       (re_replace_all counter_re (\<lambda>m. group m 1 @ ''=<n>'')
       (replace_with uuid_re ''<uuid>''
       (replace_with timestamp_re ''<timestamp>'' (text_of v)))))))))"

definition sortedStrings :: "js \<Rightarrow> js" where
  "sortedStrings v = (case v of
     JArr vs \<Rightarrow> jstrs (sort (uniq (filter (\<lambda>s. s \<noteq> []) (map (\<lambda>e. normalizedText e 500) vs)))) | _ \<Rightarrow> JArr [])"

definition text_or_null :: "string \<Rightarrow> js" where
  "text_or_null s = (if s = [] then JNull else JStr s)"

definition num_or_null :: "js \<Rightarrow> js" where
  "num_or_null v = (if is_num v then v else JNull)"

definition or3 :: "js \<Rightarrow> js \<Rightarrow> js \<Rightarrow> js" where
  "or3 a b c = or_else a (or_else b c)"

definition compactChecks :: "js \<Rightarrow> js" where
  "compactChecks v = JArr (map (\<lambda>entry. let check = recordValue entry in JObj
     [(''gate'', text_or_null (normalizedText (or3 (fld check ''gate'') (fld check ''command'') (fld check ''name'')) 500)),
      (''exitCode'', num_or_null (fld check ''exitCode'')),
      (''timedOut'', JBool (fld check ''timedOut'' = JBool True)),
      (''status'', text_or_null (normalizedText (fld check ''status'') 100)),
      (''message'', text_or_null (normalizedText
         (or3 (fld check ''message'') (fld check ''stderrTail'') (fld check ''stdoutTail'')) 1000))])
     (take 20 (arr v)))"

section \<open>Classification, evidence, fingerprint\<close>

definition classifyFailure :: "js \<Rightarrow> string" where
  "classifyFailure failure =
     (let cause = fld failure ''cause'';
          explicit = text_of (or_else (fld failure ''failureClass'') (fld cause ''failureClass''))
      in if explicit \<in> set VALID_CLASSES then explicit
         else case map_of ROUTING_CLASS (text_of (or_else (fld cause ''routingLabel'') (fld cause ''gateOutcome''))) of
             Some c \<Rightarrow> c
           | None \<Rightarrow> (case map_of KIND_CLASS (text_of (fld failure ''kind'')) of Some c \<Rightarrow> c | None \<Rightarrow> ''unknown''))"

definition failureEvidence :: "js \<Rightarrow> js" where
  "failureEvidence failure =
     (let cause = fld failure ''cause''; solver = fld cause ''solver''; checklist = fld (fld cause ''details'') ''checklist'';
          norm = (\<lambda>v k. text_or_null (normalizedText v k))
      in JObj
        [(''kind'', JStr (if text_of (fld failure ''kind'') = [] then ''unknown'' else text_of (fld failure ''kind''))),
         (''failureClass'', JStr (classifyFailure failure)),
         (''phase'', text_or_null (text_of (fld failure ''phase''))),
         (''reason'', JStr (normalizedText (fld failure ''reason'') 2000)),
         (''exitCode'', num_or_null (fld failure ''exitCode'')),
         (''signal'', norm (fld failure ''signal'') 100),
         (''code'', norm (fld cause ''code'') 200),
         (''providerKey'', norm (fld cause ''providerKey'') 200),
         (''providerStatus'', norm (fld cause ''status'') 200),
         (''routingLabel'', norm (fld cause ''routingLabel'') 200),
         (''gateOutcome'', norm (fld cause ''gateOutcome'') 200),
         (''fixScope'', sortedStrings (or3 (fld cause ''fixScope'') (fld cause ''fix_scope'') (fld checklist ''failedFixScope''))),
         (''targetChecklistIds'', sortedStrings (or_else (fld cause ''targetChecklistIds'') (fld checklist ''failedChecklistIds''))),
         (''missingGates'', sortedStrings (fld cause ''missingGates'')),
         (''checks'', compactChecks (fld cause ''checks'')),
         (''stderr'', norm (or3 (fld failure ''stderrSnippet'') (fld cause ''stderrTail'') (fld cause ''stderr'')) 1000),
         (''stdout'', norm (or3 (fld failure ''stdoutSnippet'') (fld cause ''stdoutTail'') (fld cause ''stdout'')) 1000),
         (''upstreamFingerprint'', norm (or3 (fld failure ''failureFingerprint'') (fld cause ''failureFingerprint'')
            (fld solver ''failureFingerprint'')) 200)])"

definition stableFailureFingerprint :: "(string \<Rightarrow> string) \<Rightarrow> js \<Rightarrow> string" where
  "stableFailureFingerprint sha failure = ''sha256:'' @ sha (json_text (failureEvidence failure))"

section \<open>The choice of a strategy\<close>

datatype recovery_scope = PhaseScope | QueueScope

definition scope_name :: "recovery_scope \<Rightarrow> string" where
  "scope_name s = (case s of PhaseScope \<Rightarrow> ''phase'' | QueueScope \<Rightarrow> ''queue'')"

definition availableStrategies :: "string \<Rightarrow> recovery_scope \<Rightarrow> string list" where
  "availableStrategies failureClass scope =
     (let strategies = (case map_of STRATEGIES failureClass of Some ss \<Rightarrow> ss | None \<Rightarrow> [])
      in case scope of
           QueueScope \<Rightarrow> strategies
         | PhaseScope \<Rightarrow> filter (\<lambda>s. s \<noteq> ''provider_handoff'' \<and> \<not> list_ex (startsWith s) PHASE_UNSUPPORTED_PREFIXES) strategies)"

record failure_recovery =
  failureClass :: string
  failureFingerprint :: string
  fr_evidence :: js
  retryStrategy :: "string option"
  strategyChanged :: bool
  forceFreshSession :: bool
  stopReason :: "string option"

definition or_null :: "string option \<Rightarrow> string option" where
  \<comment> \<open>\<^verbatim>\<open>s || null\<close>\<close>
  "or_null s = (case s of Some (c # t) \<Rightarrow> Some (c # t) | _ \<Rightarrow> None)"

definition nth_opt :: "'a list \<Rightarrow> nat \<Rightarrow> 'a option" where
  "nth_opt xs i = (if i < length xs then Some (xs ! i) else None)"

definition index_in :: "string list \<Rightarrow> string option \<Rightarrow> int" where
  \<comment> \<open>\<^verbatim>\<open>s ? candidates.indexOf(s) : -1\<close>\<close>
  "index_in cs s = (case or_null s of None \<Rightarrow> -1 | Some t \<Rightarrow> (case index_of t cs of None \<Rightarrow> -1 | Some i \<Rightarrow> int i))"

definition next_strategy :: "string list \<Rightarrow> string option \<Rightarrow> string option \<Rightarrow> string option" where
  "next_strategy candidates previous preferred =
     (let pi = index_in candidates previous; qi = index_in candidates preferred
      in if qi > pi \<and> pi \<ge> 0 then preferred
         else if pi \<ge> 0 then or_null (nth_opt candidates (nat pi + 1))
         else or_null (find (\<lambda>s. Some s \<noteq> previous) candidates))"

definition chosen_strategy ::
  "string list \<Rightarrow> bool \<Rightarrow> string option \<Rightarrow> string option \<Rightarrow> string option" where
  "chosen_strategy candidates repeated previous preferred =
     (if \<not> repeated then (case or_null preferred of Some p \<Rightarrow> Some p | None \<Rightarrow> or_null (nth_opt candidates 0))
      else next_strategy candidates previous preferred)"

definition selectFailureRecovery ::
  "(string \<Rightarrow> string) \<Rightarrow> js \<Rightarrow> string option \<Rightarrow> string option \<Rightarrow> string option \<Rightarrow> recovery_scope \<Rightarrow> failure_recovery" where
  "selectFailureRecovery sha failure previousFingerprint previousStrategy preferredStrategy scope =
     (let cls = classifyFailure failure; fp = stableFailureFingerprint sha failure;
          repeated = (previousFingerprint = Some fp);
          strategy = chosen_strategy (availableStrategies cls scope) repeated previousStrategy preferredStrategy;
          retry = (or_null strategy \<noteq> None)
      in \<lparr>failureClass = cls, failureFingerprint = fp, fr_evidence = failureEvidence failure,
          retryStrategy = strategy,
          strategyChanged = (retry \<and> (previousFingerprint \<noteq> Some fp \<or> previousStrategy \<noteq> strategy)),
          forceFreshSession = (case strategy of None \<Rightarrow> False | Some s \<Rightarrow> startsWith s ''fresh_session''),
          stopReason = (if retry then None
            else if repeated then Some (''repeated failure '' @ fp @ '' exhausted distinct '' @ scope_name scope @ '' recovery strategies'')
            else Some (''failure class '' @ cls @ '' has no '' @ scope_name scope @ '' recovery strategy''))\<rparr>)"

definition RECOVERY_INSTRUCTIONS :: "(string \<times> string) list" where
  "RECOVERY_INSTRUCTIONS =
     [(''replan_from_failure_evidence'',
       ''Re-read the original task and failure evidence, correct the task interpretation, and produce a bounded revised plan before editing.''),
      (''fresh_session_replan'',
       ''Start a fresh diagnosis from the original task plus failure evidence; do not reuse the rejected interpretation.''),
      (''relocalize_from_failure_evidence'',
       ''Use the failure evidence to locate the actual implementation boundary and avoid repeating the previous file or symbol selection.''),
      (''fresh_session_relocalize'',
       ''Use a fresh session to locate the root cause from repository evidence before modifying code.''),
      (''targeted_repair'',
       ''Repair only the cited failing behavior and fix scope, then run focused validation that directly exercises it.''),
      (''fresh_session_diagnosis'',
       ''Start a fresh diagnosis, form a different root-cause hypothesis, and produce a materially different candidate.''),
      (''correct_test_selection'',
       ''Use the canonical project test entrypoint relevant to the changed behavior; do not repeat the rejected test command.''),
      (''fresh_session_test_diagnosis'',
       ''In a fresh session, reconstruct the correct test selection from project configuration and changed behavior.''),
      (''fresh_session_environment_retry'',
       ''Retry once in a fresh provider session while preserving concrete environment failure evidence.''),
      (''restart_worker_clean_environment'',
       ''Restart the worker with a clean runtime while preserving the failure evidence and worktree identity.''),
      (''provider_handoff'',
       ''Change provider execution path and carry forward the exact transport failure evidence; do not replay the same provider request unchanged.''),
      (''fresh_session_provider_retry'',
       ''Use a fresh provider session and preserve the exact transport failure evidence.''),
      (''fresh_session_with_carry_forward'',
       ''Use a fresh session with bounded carry-forward evidence; do not restart broad exploration.''),
      (''restart_worker_with_carry_forward'',
       ''Restart the worker and reuse bounded evidence from the timed-out attempt.''),
      (''fresh_session_alternate_approach'',
       ''Use a fresh session and a different bounded approach instead of repeating the no-progress path.''),
      (''restart_worker_replan'',
       ''Restart the worker and require a different bounded execution strategy.''),
      (''rebuild_evidence'',
       ''Keep the candidate stable, rerun the required objective probes, and cite only current evidence ledger entries.''),
      (''fresh_session_evidence_rebuild'',
       ''Use a fresh verifier session to rebuild evidence against the current candidate identity.''),
      (''contract_repair'',
       ''Correct the structured output or artifact contract using the validation error and preserve valid prior work.''),
      (''fresh_session_contract_repair'',
       ''Use a fresh session to reconstruct the required output contract without copying the rejected envelope.''),
      (''correct_permission_strategy'',
       ''Use only operations allowed for this phase and replace the denied action with an allowed equivalent.''),
      (''fresh_session_permission_repair'',
       ''Use a fresh session with the phase permission boundary explicit; do not repeat the denied action.'')]"

definition recoveryInstruction :: "string option \<Rightarrow> string" where
  "recoveryInstruction strategy =
     (case (case strategy of None \<Rightarrow> None | Some s \<Rightarrow> map_of RECOVERY_INSTRUCTIONS s) of Some t \<Rightarrow> t
      | None \<Rightarrow> ''Use the recorded failure evidence and make a materially different recovery attempt.'')"

section \<open>Lemmas\<close>

lemma or_null_Some: "or_null s = Some t \<longleftrightarrow> s = Some t \<and> t \<noteq> []"
  by (auto simp: or_null_def split: option.splits list.splits)

lemma or_null_or_null [simp]: "or_null (or_null s) = or_null s"
  by (auto simp: or_null_def split: option.splits list.splits)

text \<open>Which classes there are, and that the tables answer for all of them.\<close>

lemma classify_valid: "classifyFailure failure \<in> set VALID_CLASSES"
proof -
  have r: "map_of ROUTING_CLASS k = Some c \<Longrightarrow> c \<in> set VALID_CLASSES" for k c
    by (drule map_of_SomeD) (auto simp: ROUTING_CLASS_def VALID_CLASSES_def)
  have k: "map_of KIND_CLASS k = Some c \<Longrightarrow> c \<in> set VALID_CLASSES" for k c
    by (drule map_of_SomeD) (auto simp: KIND_CLASS_def VALID_CLASSES_def)
  have u: "''unknown'' \<in> set VALID_CLASSES" by (simp add: VALID_CLASSES_def)
  show ?thesis unfolding classifyFailure_def Let_def using u by (auto split: option.splits dest: r k)
qed

lemma strategies_shape:
  assumes "map_of STRATEGIES cls = Some ss"
  shows "distinct ss" "[] \<notin> set ss" "length ss \<le> 2"
  using map_of_SomeD [OF assms] by (auto simp: STRATEGIES_def)

lemma available_shape:
  "distinct (availableStrategies cls scope)" "[] \<notin> set (availableStrategies cls scope)"
  "length (availableStrategies cls scope) \<le> 2"
proof -
  obtain ss where ss: "(case map_of STRATEGIES cls of Some ss \<Rightarrow> ss | None \<Rightarrow> []) = ss"
    "distinct ss" "[] \<notin> set ss" "length ss \<le> 2"
    using strategies_shape [of cls] by (cases "map_of STRATEGIES cls") auto
  have f: "length (filter P ss) \<le> 2" for P using ss(4) length_filter_le [of P ss] by linarith
  show "distinct (availableStrategies cls scope)" "[] \<notin> set (availableStrategies cls scope)"
    "length (availableStrategies cls scope) \<le> 2"
    unfolding availableStrategies_def ss(1) Let_def using ss(2-4) f by (cases scope; simp)+
qed

text \<open>The rank of a strategy among the candidates: 0 when it is not one of them.\<close>

definition rank :: "string list \<Rightarrow> string option \<Rightarrow> nat" where
  "rank cs s = nat (index_in cs s + 1)"

lemma index_in_cases: "index_in cs s = -1 \<or> (\<exists>i t. index_in cs s = int i \<and> s = Some t \<and> i < length cs \<and> cs ! i = t)"
  by (auto simp: index_in_def or_null_Some dest: index_of_Some split: option.splits)

lemma index_in_nth: "distinct cs \<Longrightarrow> [] \<notin> set cs \<Longrightarrow> i < length cs \<Longrightarrow> index_in cs (Some (cs ! i)) = int i"
proof -
  assume d: "distinct cs" and n: "[] \<notin> set cs" and i: "i < length cs"
  then have "cs ! i \<noteq> []" by (metis nth_mem)
  then have o: "or_null (Some (cs ! i)) = Some (cs ! i)" by (simp add: or_null_Some)
  obtain j where j: "index_of (cs ! i) cs = Some j"
    using i index_of_None [of "cs ! i" cs] by (cases "index_of (cs ! i) cs") auto
  from index_of_Some [OF j] have "j < length cs" "cs ! j = cs ! i" by simp_all
  with nth_eq_iff_index_eq [OF d _ i] have "j = i" by blast
  with o j show ?thesis by (simp add: index_in_def)
qed

lemma rank_bound: "rank cs s \<le> length cs"
  using index_in_cases [of cs s] by (auto simp: rank_def)

text \<open>On a repeated failure the next strategy ranks above the previous one.\<close>

lemma next_strategy_rank:
  assumes "distinct cs" "[] \<notin> set cs" "next_strategy cs previous preferred = Some s" "s \<noteq> []"
  shows "rank cs previous < rank cs (Some s) \<and> s \<in> set cs \<and> previous \<noteq> Some s"
proof -
  let ?pi = "index_in cs previous" and ?qi = "index_in cs preferred"
  have main: "rank cs previous < rank cs (Some s) \<and> s \<in> set cs"
  proof (cases "?qi > ?pi \<and> ?pi \<ge> 0")
    case True
    with assms(3) have p: "preferred = Some s" by (simp add: next_strategy_def Let_def)
    from index_in_cases [of cs preferred] True p have "s \<in> set cs" by (auto intro: nth_mem)
    with True p show ?thesis by (simp add: rank_def)
  next
    case False
    show ?thesis
    proof (cases "?pi \<ge> 0")
      case True
      with False assms(3) have "nth_opt cs (nat ?pi + 1) = Some s"
        by (auto simp: next_strategy_def Let_def or_null_Some)
      then have i: "nat ?pi + 1 < length cs" "cs ! (nat ?pi + 1) = s" by (auto simp: nth_opt_def split: if_splits)
      from index_in_nth [OF assms(1,2) i(1)] i True show ?thesis by (auto simp: rank_def)
    next
      case neg: False
      with assms(3) have f: "find (\<lambda>s. Some s \<noteq> previous) cs = Some s"
        by (auto simp: next_strategy_def Let_def or_null_Some)
      then obtain i where i: "i < length cs" "cs ! i = s" by (auto simp: find_Some_iff)
      from index_in_nth [OF assms(1,2) i(1)] i neg show ?thesis by (auto simp: rank_def)
    qed
  qed
  then have "previous \<noteq> Some s" by auto
  with main show ?thesis by simp
qed

lemma select_fields:
  fixes sha failure pf ps pref scope
  defines "r \<equiv> selectFailureRecovery sha failure pf ps pref scope"
  shows "failureClass r = classifyFailure failure" "failureFingerprint r = stableFailureFingerprint sha failure"
    "retryStrategy r = chosen_strategy (availableStrategies (failureClass r) scope)
       (pf = Some (failureFingerprint r)) ps pref"
    "strategyChanged r = (or_null (retryStrategy r) \<noteq> None \<and> (pf \<noteq> Some (failureFingerprint r) \<or> ps \<noteq> retryStrategy r))"
    "stopReason r = None \<longleftrightarrow> or_null (retryStrategy r) \<noteq> None"
  unfolding r_def selectFailureRecovery_def Let_def by simp_all

lemma select_repeated:
  fixes sha failure ps pref scope
  defines "fp \<equiv> stableFailureFingerprint sha failure"
  defines "r \<equiv> selectFailureRecovery sha failure (Some fp) ps pref scope"
  defines "cs \<equiv> availableStrategies (classifyFailure failure) scope"
  assumes "retryStrategy r = Some s" "s \<noteq> []"
  shows "rank cs ps < rank cs (Some s) \<and> s \<in> set cs \<and> ps \<noteq> Some s"
proof -
  have "retryStrategy r = next_strategy cs ps pref"
    unfolding r_def select_fields(3) by (simp add: select_fields(1,2) chosen_strategy_def fp_def cs_def)
  with assms(4,5) available_shape [of "classifyFailure failure" scope] show ?thesis
    unfolding cs_def by (intro next_strategy_rank) simp_all
qed

end
