(* ===== verification/FailureRouter.thy ===== *)
theory FailureRouter
  imports FailureRecovery
begin

text \<open>
  The routing of a failed attempt: \<^verbatim>\<open>mapChecklistRoutingLabel\<close> of
  \<^verbatim>\<open>core/workflow/acceptance-checklist.ts\<close> and \<^verbatim>\<open>FailureRouter\<close> of
  \<^verbatim>\<open>server/orchestrator/failure-router.ts\<close>.

  The supervisor (an agent process) and the mode reader are functions that may fail; the clock is a
  number. The lemmas establish that every retry the router grants changes the recovery strategy,
  that granted retries of one fingerprint climb the ranks of \<open>FailureRecovery\<close>, and which kinds of
  failure are never retried.
\<close>

section \<open>Checklist routing labels\<close>

record checklist_routing =
  cr_kind :: string
  cr_action :: string
  cr_retryPhase :: "string option"
  requiresFixScope :: bool
  cr_retryable :: bool

definition retry_routing :: "string \<Rightarrow> string \<Rightarrow> bool \<Rightarrow> checklist_routing" where
  "retry_routing kind phase fix = \<lparr>cr_kind = kind, cr_action = ''retry_same_worker'', cr_retryPhase = Some phase,
     requiresFixScope = fix, cr_retryable = True\<rparr>"

definition stop_routing :: "string \<Rightarrow> string \<Rightarrow> checklist_routing" where
  "stop_routing kind action = \<lparr>cr_kind = kind, cr_action = action, cr_retryPhase = None,
     requiresFixScope = False, cr_retryable = False\<rparr>"

definition mapChecklistRoutingLabel :: "string \<Rightarrow> js \<Rightarrow> checklist_routing" where
  "mapChecklistRoutingLabel label context =
     (let hasFixScope = (arr (fld context ''fixScope'') \<noteq> []);
          hasTarget = (arr (fld context ''targetChecklistIds'') \<noteq> []);
          missing = or_else (fld context ''evidenceMissingCause'') (JStr []);
          give_up = stop_routing ''verification_failed'' ''mark_failed''
      in if label = ''scope_violation'' then retry_routing ''scope_violation'' ''execute'' False
         else if label = ''checklist_failed'' then
           (if hasFixScope then retry_routing ''verification_failed'' ''execute'' True else give_up)
         else if label = ''checklist_incomplete'' then
           (if missing = JStr ''probe_available_not_run'' then retry_routing ''verification_failed'' ''verify'' False
            else if hasFixScope then retry_routing ''verification_failed'' ''execute'' True else give_up)
         else if label = ''evidence_missing'' then
           (if missing = JStr ''probe_available_not_run'' then retry_routing ''verification_failed'' ''verify'' False
            else if missing = JStr ''probe_definition_missing'' then give_up
            else if missing = JStr ''manual_approval_missing'' then stop_routing ''human_approval_required'' ''mark_blocked''
            else if missing \<in> JStr ` set [''behavior_failed_before_probe'', ''implementationGap'', ''implementation_gap''] then
              (if hasFixScope then retry_routing ''verification_failed'' ''execute'' True else give_up)
            else give_up)
         else if label = ''evidence_mismatch'' \<or> label = ''evidence_stale'' then
           (if hasFixScope \<or> hasTarget then retry_routing ''verification_failed'' ''execute'' hasFixScope else give_up)
         else if label = ''oracle_polluted'' then give_up
         else if label = ''artifact_invalid'' \<or> label = ''dag_uncovered'' \<or> label = ''runtime_failure_ambiguous''
         then stop_routing ''artifact_invalid'' ''mark_failed''
         else if label = ''verdict_invalid'' \<or> label = ''checklist_invalid'' then retry_routing ''verdict_invalid'' ''verify'' False
         else if label = ''poisoned_session'' then stop_routing ''poisoned_session'' ''mark_failed''
         else if label = ''runjob_panic'' then stop_routing ''runjob_panic'' ''mark_failed''
         else if label = ''needs_clarification'' then stop_routing ''human_approval_required'' ''mark_blocked''
         else if label = ''infra_error'' then stop_routing ''runtime_interrupted'' ''mark_failed''
         else stop_routing ''unknown'' ''mark_failed'')"

section \<open>The router\<close>

definition MAX_RETRIES :: "(string \<times> nat) list" where
  "MAX_RETRIES = [(''runtime_interrupted'', 2), (''timeout'', 1), (''plan_bounded_handoff_timeout'', 2),
     (''agent_contract_invalid'', 1), (''permission_denied'', 1), (''worker_crashed'', 2),
     (''worker_heartbeat_lost'', 2), (''assignment_progress_stale'', 2), (''agent_rate_limited'', 0),
     (''verification_failed'', 2)]"

definition SUPERVISOR_ELIGIBLE_KINDS :: "string list" where
  "SUPERVISOR_ELIGIBLE_KINDS = [''agent_contract_invalid'', ''agent_exit_nonzero'', ''artifact_invalid'']"

definition SMART_MODE_SUPERVISOR_KINDS :: "string list" where
  "SMART_MODE_SUPERVISOR_KINDS = [''verification_failed'', ''assignment_progress_stale'', ''timeout'']"

definition scope_strings :: "js \<Rightarrow> string list" where
  \<comment> \<open>\<^verbatim>\<open>addMany\<close>: the trimmed, non-blank strings of an array\<close>
  "scope_strings v = filter (\<lambda>s. s \<noteq> []) (map trimmed (arr v))"

definition scope_string :: "js \<Rightarrow> string list" where
  "scope_string v = filter (\<lambda>s. s \<noteq> []) [trimmed v]"

definition collectVerificationRetryScope :: "js \<Rightarrow> string list" where
  "collectVerificationRetryScope failure =
     (let cause = fld failure ''cause''; verdict = fld cause ''verdict'';
          cv = recordValue (or_else (fld verdict ''checklistVerdict'') (fld cause ''checklistVerdict''))
      in uniq (scope_strings (fld cause ''fix_scope'') @ scope_strings (fld cause ''fixScope'')
          @ scope_strings (fld verdict ''fix_scope'') @ scope_strings (fld verdict ''fixScope'')
          @ concat (map (\<lambda>b. scope_string (fld b ''file'') @ scope_string (fld b ''path'')
               @ scope_strings (fld b ''files'') @ scope_strings (fld b ''paths'')) (arr (fld verdict ''blocking'')))
          @ scope_strings (fld cv ''fixScope'')
          @ concat (map (\<lambda>i. scope_strings (fld i ''fixScope'')) (arr (fld cv ''items'')))))"

definition isVerifierReadOnlyMutation :: "js \<Rightarrow> bool" where
  "isVerifierReadOnlyMutation failure =
     (let phase = to_str (or_else (fld failure ''phase'') (JStr []));
          reason = to_str (or_else (fld failure ''reason'') (JStr []))
      in re_test (cats [Alt Bol (ch CHR ''_''), lit ''verify'', Eol]) phase
         \<and> (re_test (lit_ci ''read-only phase attempted to modify'') reason
            \<or> re_test (cats [lit_ci ''read-only phase '', Rep dot, lit_ci ''cannot run mutating terminal command'']) reason
            \<or> truthy (fld (fld failure ''cause'') ''readOnlyMutation'')))"

text \<open>The collaborators: \<open>diagnose\<close> is the supervisor, when there is one; \<open>mode\<close> reads the
  configured mode.\<close>

record router =
  rt_sha :: "string \<Rightarrow> string"
  diagnose :: "(js \<Rightarrow> js_error + js) option"
  mode :: "(js_error + string) option"

definition shouldConsultSupervisor :: "router \<Rightarrow> string \<Rightarrow> bool result" where
  "shouldConsultSupervisor rt kind =
     (if diagnose rt = None then Inr False
      else if kind \<in> set SUPERVISOR_ELIGIBLE_KINDS then Inr True
      else case mode rt of None \<Rightarrow> Inr False
        | Some m \<Rightarrow> thn m (\<lambda>m. Inr (m = ''smart'' \<and> kind \<in> set SMART_MODE_SUPERVISOR_KINDS)))"

definition str_opt :: "js \<Rightarrow> string option" where
  \<comment> \<open>\<^verbatim>\<open>typeof v === "string" ? v : null\<close>\<close>
  "str_opt v = (case v of JStr s \<Rightarrow> Some s | _ \<Rightarrow> None)"

definition opt_js :: "string option \<Rightarrow> js" where
  "opt_js s = (case s of None \<Rightarrow> JNull | Some t \<Rightarrow> JStr t)"

text \<open>What \<^verbatim>\<open>route\<close> computes before it decides.\<close>

record route_ctx =
  rc_failure :: js
  rc_repeated :: bool
  rc_prevFingerprint :: "string option"
  rc_prevStrategy :: "string option"
  rc_meta :: "(string \<times> js) list"

definition recoveryFor :: "router \<Rightarrow> route_ctx \<Rightarrow> string option \<Rightarrow> failure_recovery" where
  "recoveryFor rt c preferred =
     selectFailureRecovery (rt_sha rt) (rc_failure c) (rc_prevFingerprint c) (rc_prevStrategy c) preferred QueueScope"

definition solver_exhausted :: "js \<Rightarrow> bool" where
  "solver_exhausted failure = (fld (fld (fld failure ''cause'') ''solver'') ''exhausted'' = JBool True)"

definition recovery_meta :: "failure_recovery \<Rightarrow> (string \<times> js) list" where
  "recovery_meta r = [(''failureClass'', JStr (failureClass r)), (''failureFingerprint'', JStr (failureFingerprint r)),
     (''failureEvidence'', fr_evidence r)]"

definition route_context :: "router \<Rightarrow> js \<Rightarrow> js \<Rightarrow> route_ctx" where
  "route_context rt assignment res =
     (let jobResult = recordValue (fld res ''jobResult'');
          failure = recordValue (or_else (fld jobResult ''failure'') (fld res ''failure''));
          cause = fld failure ''cause'';
          sourceContext = recordValue (or_else (fld assignment ''sourceContext'') (fld (fld assignment ''metadata'') ''sourceContext''));
          previousRetry = fld sourceContext ''retry'';
          previousFingerprint = str_opt (fld previousRetry ''failureFingerprint'');
          previousStrategy = str_opt (fld previousRetry ''retryStrategy'');
          initial = failureFingerprint (selectFailureRecovery (rt_sha rt) failure None None None QueueScope);
          upstream = (case str_opt (fld (fld cause ''solver'') ''failureFingerprint'') of Some u \<Rightarrow> Some u
                      | None \<Rightarrow> str_opt (fld cause ''failureFingerprint''));
          repeated = (previousFingerprint = Some initial \<or> (or_null upstream \<noteq> None \<and> previousFingerprint = upstream));
          c = \<lparr>rc_failure = failure, rc_repeated = repeated,
               rc_prevFingerprint = (if repeated then Some initial else previousFingerprint),
               rc_prevStrategy = previousStrategy, rc_meta = []\<rparr>
      in c\<lparr>rc_meta := recovery_meta (recoveryFor rt c
             (if solver_exhausted failure then Some ''fresh_session_diagnosis'' else None))\<rparr>)"

definition final_decision :: "route_ctx \<Rightarrow> string \<Rightarrow> js \<Rightarrow> js" where
  \<comment> \<open>a decision that stops: \<^verbatim>\<open>retryable: false\<close>\<close>
  "final_decision c action reason =
     JObj ([(''action'', JStr action), (''reason'', reason), (''retryable'', JBool False)] @ rc_meta c)"

definition retryDecision :: "router \<Rightarrow> route_ctx \<Rightarrow> (string \<times> js) list \<Rightarrow> string option \<Rightarrow> js" where
  "retryDecision rt c decision preferred =
     (if rc_repeated c \<and> or_null (rc_prevStrategy c) = None
      then JObj ([(''action'', JStr ''mark_failed''),
             (''reason'', JStr (''repeated unchanged failure ''
                @ failureFingerprint (selectFailureRecovery (rt_sha rt) (rc_failure c) None None None QueueScope)
                @ '' has no recorded prior strategy; blind retry denied'')),
             (''retryable'', JBool False)] @ rc_meta c @ [(''retryStrategy'', JNull), (''strategyChanged'', JBool False)])
      else let r = recoveryFor rt c (case or_null preferred of Some p \<Rightarrow> Some p
                     | None \<Rightarrow> str_opt (obj_get decision ''retryStrategy''))
        in if or_null (retryStrategy r) = None \<or> \<not> strategyChanged r
           then JObj ([(''action'', JStr ''mark_failed''),
             (''reason'', JStr (case or_null (stopReason r) of Some t \<Rightarrow> t
                | None \<Rightarrow> ''retry strategy did not change for '' @ failureFingerprint r)),
             (''retryable'', JBool False)] @ rc_meta c
             @ [(''retryStrategy'', opt_js (retryStrategy r)), (''strategyChanged'', JBool (strategyChanged r))])
           else JObj (spread decision (recovery_meta r
             @ [(''retryStrategy'', opt_js (retryStrategy r)), (''strategyChanged'', JBool (strategyChanged r)),
                (''forceFreshSession'', JBool (forceFreshSession r))])))"

definition concat_reason :: "js \<Rightarrow> string \<Rightarrow> string \<Rightarrow> js" where
  \<comment> \<open>a prefix, a separator and the failure's reason\<close>
  "concat_reason failure prefix sep = JStr (prefix @ sep @ to_str (fld failure ''reason''))"

definition plain_retry :: "string \<Rightarrow> js \<Rightarrow> (string \<times> js) list" where
  "plain_retry action reason = [(''action'', JStr action), (''reason'', reason), (''retryable'', JBool True)]"

definition fix_scope_field :: "string list \<Rightarrow> (string \<times> js) list" where
  "fix_scope_field scope = (if scope = [] then [] else [(''fixScope'', jstrs scope)])"

text \<open>The checklist-aware part of the router, for verification failures and scope violations.
  \<open>None\<close> means that it does not decide.\<close>

definition route_verification :: "router \<Rightarrow> route_ctx \<Rightarrow> string list \<Rightarrow> js option" where
  "route_verification rt c scope =
     (let failure = rc_failure c; cause = recordValue (fld failure ''cause'');
          label = (case fld cause ''routingLabel'' of JStr l \<Rightarrow> l | _ \<Rightarrow> []);
          scope_ctx = (if scope \<noteq> [] then jstrs scope else JArr (arr (fld cause ''fixScope'')));
          routing = (if label = [] then None
            else Some (mapChecklistRoutingLabel label (JObj (obj_set ''fixScope'' scope_ctx (own cause)))))
      in case routing of
           Some r \<Rightarrow>
             (case (cr_action r = ''retry_same_worker'', cr_retryPhase r) of
                (True, Some ph) \<Rightarrow> Some (retryDecision rt c
                   (plain_retry ''retry_same_worker'' (fld failure ''reason'') @ [(''retryPhase'', JStr ph)]
                      @ (if requiresFixScope r then fix_scope_field scope else []))
                   (Some (if ph = ''verify'' then ''rebuild_evidence'' else ''targeted_repair'')))
              | _ \<Rightarrow>
                 if \<not> cr_retryable r
                 then Some (final_decision c ''mark_failed'' (concat_reason failure (cr_kind r) '': ''))
                 else if cr_action r = ''mark_blocked'' then Some (final_decision c ''mark_blocked'' (fld failure ''reason''))
                 else if scope = [] \<and> \<not> solver_exhausted failure
                 then Some (final_decision c ''mark_failed''
                    (concat_reason failure ''verification failed without actionable retry scope'' '': ''))
                 else None)
         | None \<Rightarrow> if scope = [] \<and> \<not> solver_exhausted failure
             then Some (final_decision c ''mark_failed''
                (concat_reason failure ''verification failed without actionable retry scope'' '': ''))
             else None)"

text \<open>The last part: by failure kind.\<close>

definition route_by_kind :: "router \<Rightarrow> route_ctx \<Rightarrow> string \<Rightarrow> string list \<Rightarrow> js" where
  "route_by_kind rt c kind scope =
     (let failure = rc_failure c; kr = concat_reason failure (to_str (fld failure ''kind'')) '': '';
          exhausted = solver_exhausted failure;
          blocked = final_decision c ''mark_blocked'' kr
      in if kind \<in> set [''runtime_interrupted'', ''worker_crashed'', ''worker_heartbeat_lost'', ''assignment_progress_stale'',
                    ''timeout'', ''plan_bounded_handoff_timeout'', ''agent_contract_invalid'', ''agent_exit_nonzero'', ''artifact_invalid'']
         then retryDecision rt c (plain_retry ''restart_worker_and_retry'' kr) None
         else if kind = ''verification_failed'' then
           retryDecision rt c
             (plain_retry ''retry_same_worker'' (concat_reason failure
                (if exhausted then ''in-attempt solver exhausted; start one fresh diagnosis attempt'' else ''verification failed'') '': '')
              @ [(''retryPhase'', if exhausted then JNull else JStr ''execute''),
                 (''retryStrategy'', JStr (if exhausted then ''fresh_session_diagnosis'' else ''targeted_repair''))]
              @ fix_scope_field scope)
             (Some (if exhausted then ''fresh_session_diagnosis'' else ''targeted_repair''))
         else if kind = ''permission_denied'' then
           (if isVerifierReadOnlyMutation failure
            then retryDecision rt c
               (plain_retry ''retry_same_worker'' (concat_reason failure ''verifier read-only mutation denied'' '': '')
                 @ [(''retryPhase'', JStr ''verify'')]) (Some ''correct_permission_strategy'')
            else blocked)
         else if kind = ''human_approval_required'' then blocked
         else if kind = ''scope_violation'' then final_decision c ''mark_failed'' (concat_reason failure ''scope violation'' '': '')
         else final_decision c ''mark_failed''
           (concat_reason failure (''unhandled failure kind '' @ to_str (fld failure ''kind'')) '': ''))"

definition retry_actions :: "string list" where
  "retry_actions = [''retry_same_worker'', ''restart_worker_and_retry'', ''reroute'', ''switch_agent'']"

definition route_supervised :: "router \<Rightarrow> route_ctx \<Rightarrow> string \<Rightarrow> string list \<Rightarrow> js \<Rightarrow> js result" where
  "route_supervised rt c kind scope request =
     thn (shouldConsultSupervisor rt kind) (\<lambda>consult.
       case (if consult then diagnose rt else None) of
         None \<Rightarrow> Inr (route_by_kind rt c kind scope)
       | Some f \<Rightarrow>
          (case f request of
             Inl _ \<Rightarrow> Inr (route_by_kind rt c kind scope)
           | Inr decision \<Rightarrow>
              (case fld decision ''action'' of
                 JStr a \<Rightarrow> if a \<in> set retry_actions then Inr (retryDecision rt c (own decision) None)
                           else Inr (JObj (spread (own decision) (rc_meta c)))
               | _ \<Rightarrow> Inr (route_by_kind rt c kind scope))))"

definition over_budget :: "js \<Rightarrow> string \<Rightarrow> bool" where
  "over_budget assignment kind =
     num_lt (Fin (of_nat (case map_of MAX_RETRIES kind of Some m \<Rightarrow> m | None \<Rightarrow> 0)))
       (case fld assignment ''attempts'' of JNum n \<Rightarrow> n | _ \<Rightarrow> Fin 0)"

definition route :: "router \<Rightarrow> jsnum \<Rightarrow> js \<Rightarrow> js \<Rightarrow> js \<Rightarrow> js result" where
  \<comment> \<open>\<open>now\<close> is \<^verbatim>\<open>Date.now()\<close>\<close>
  "route rt now assignment attempt res =
     (let c = route_context rt assignment res; failure = rc_failure c;
          kind = to_str (or_else (fld failure ''kind'') (JStr []));
          kindv = fld failure ''kind''; cause = fld failure ''cause'';
          maxRetries = (case map_of MAX_RETRIES kind of Some m \<Rightarrow> m | None \<Rightarrow> 0);
          attemptCount = (case fld assignment ''attempts'' of JNum n \<Rightarrow> n | _ \<Rightarrow> Fin 0)
      in if fld failure ''retryable'' = JBool False
            \<and> kindv \<notin> JStr ` set [''plan_bounded_handoff_timeout'', ''permission_denied'', ''human_approval_required'', ''scope_violation'']
         then Inr (final_decision c ''mark_failed'' (concat_reason failure (to_str kindv) '' is non-retryable: ''))
         else if kindv = JStr ''agent_rate_limited''
         then Inr (JObj ([(''action'', JStr ''wait_for_rate_limit''), (''reason'', fld failure ''reason''),
            (''untilTs'', or3 (fld cause ''nextEligibleAt'') (fld cause ''untilTs'')
               (JNum (case now of Fin x \<Rightarrow> Fin (x + 60000) | n \<Rightarrow> n))),
            (''retryable'', JBool True)] @ rc_meta c
            @ [(''retryStrategy'', JStr ''wait_for_rate_limit_window''),
               (''strategyChanged'', JBool (rc_prevStrategy c \<noteq> Some ''wait_for_rate_limit_window''))]))
         else if kindv = JStr ''artifact_invalid''
         then Inr (final_decision c ''mark_failed'' (concat_reason failure (to_str kindv) '': ''))
         else let checklist = (kindv = JStr ''verification_failed'' \<or> kindv = JStr ''scope_violation'');
                  scope = (if checklist then collectVerificationRetryScope failure else [])
              in case (if checklist then route_verification rt c scope else None) of
                   Some d \<Rightarrow> Inr d
                 | None \<Rightarrow>
                    if over_budget assignment kind
                    then Inr (final_decision c ''mark_failed'' (concat_reason failure
                      (to_str kindv @ '' exceeded retry budget ('' @ show_num attemptCount @ ''/'' @ show_nat (maxRetries + 1) @ '')'') '': ''))
                    else route_supervised rt c kind scope
                      (JObj [(''assignment'', assignment), (''attempt'', attempt), (''result'', res)]))"

section \<open>What a granted retry is\<close>

definition is_retry :: "js \<Rightarrow> bool" where
  "is_retry d \<longleftrightarrow> (\<exists>a \<in> set retry_actions. fld d ''action'' = JStr a)"

definition candidates :: "route_ctx \<Rightarrow> string list" where
  "candidates c = availableStrategies (classifyFailure (rc_failure c)) QueueScope"

text \<open>The decision names a strategy; when the failure repeats the previous one, the strategy is a
  candidate that ranks above the previous strategy.\<close>

definition fresh_strategy :: "route_ctx \<Rightarrow> js \<Rightarrow> bool" where
  "fresh_strategy c d \<longleftrightarrow> (\<exists>s. fld d ''retryStrategy'' = JStr s \<and> s \<noteq> [] \<and> fld d ''strategyChanged'' = JBool True
     \<and> (rc_repeated c \<longrightarrow> (\<exists>p. rc_prevStrategy c = Some p \<and> p \<noteq> s \<and> s \<in> set (candidates c)
          \<and> rank (candidates c) (Some p) < rank (candidates c) (Some s))))"

definition sound_decision :: "route_ctx \<Rightarrow> js \<Rightarrow> bool" where
  "sound_decision c d \<longleftrightarrow> (is_retry d \<longrightarrow> fresh_strategy c d)"

definition ctx_ok :: "router \<Rightarrow> route_ctx \<Rightarrow> bool" where
  "ctx_ok rt c \<longleftrightarrow> (rc_repeated c \<longrightarrow> rc_prevFingerprint c = Some (stableFailureFingerprint (rt_sha rt) (rc_failure c)))
     \<and> fst ` set (rc_meta c) = {''failureClass'', ''failureFingerprint'', ''failureEvidence''}"

lemma route_context_ok: "ctx_ok rt (route_context rt assignment res)"
  by (simp add: ctx_ok_def route_context_def Let_def select_fields(2) recovery_meta_def)

lemma stop_not_retry:
  "fld d ''action'' = JStr a \<Longrightarrow> a \<notin> set retry_actions \<Longrightarrow> sound_decision c d"
  by (auto simp: sound_decision_def is_retry_def)

lemma final_sound: "action \<in> {''mark_failed'', ''mark_blocked''} \<Longrightarrow> sound_decision c (final_decision c action reason)"
proof -
  assume "action \<in> {''mark_failed'', ''mark_blocked''}"
  then have "action \<notin> set retry_actions" by (elim insertE) (simp_all add: retry_actions_def)
  then show ?thesis by (intro stop_not_retry [of _ action]) (simp_all add: final_decision_def)
qed

lemma retryDecision_sound:
  assumes "ctx_ok rt c"
  shows "sound_decision c (retryDecision rt c decision preferred)"
proof (cases "rc_repeated c \<and> or_null (rc_prevStrategy c) = None")
  case True
  then show ?thesis
    by (intro stop_not_retry [of _ "''mark_failed''"]) (simp_all add: retryDecision_def retry_actions_def)
next
  case blind: False
  obtain pref where pref: "(case or_null preferred of Some p \<Rightarrow> Some p
      | None \<Rightarrow> str_opt (obj_get decision ''retryStrategy'')) = pref" by simp
  let ?r = "recoveryFor rt c pref"
  show ?thesis
  proof (cases "or_null (retryStrategy ?r) = None \<or> \<not> strategyChanged ?r")
    case True
    with blind show ?thesis
      by (intro stop_not_retry [of _ "''mark_failed''"]) (simp_all add: retryDecision_def pref Let_def retry_actions_def)
  next
    case False
    let ?d = "JObj (spread decision (recovery_meta ?r @ [(''retryStrategy'', opt_js (retryStrategy ?r)),
        (''strategyChanged'', JBool (strategyChanged ?r)), (''forceFreshSession'', JBool (forceFreshSession ?r))]))"
    have eq: "retryDecision rt c decision preferred = ?d"
      unfolding retryDecision_def Let_def if_not_P [OF blind] pref if_not_P [OF False] by (rule refl)
    from False obtain s where s: "retryStrategy ?r = Some s" "s \<noteq> []" by (auto simp: or_null_Some)
    have flds: "fld ?d ''retryStrategy'' = JStr s" "fld ?d ''strategyChanged'' = JBool True"
      using False s by (simp_all add: recovery_meta_def spread_simps fld_obj_set opt_js_def)
    have "\<exists>p. rc_prevStrategy c = Some p \<and> p \<noteq> s \<and> s \<in> set (candidates c)
        \<and> rank (candidates c) (Some p) < rank (candidates c) (Some s)" if "rc_repeated c"
    proof -
      from that blind obtain p where p: "rc_prevStrategy c = Some p" by (auto simp: or_null_def split: option.splits)
      from that assms have "rc_prevFingerprint c = Some (stableFailureFingerprint (rt_sha rt) (rc_failure c))"
        by (simp add: ctx_ok_def)
      with s have "retryStrategy (selectFailureRecovery (rt_sha rt) (rc_failure c)
          (Some (stableFailureFingerprint (rt_sha rt) (rc_failure c))) (rc_prevStrategy c) pref QueueScope) = Some s"
        by (simp add: recoveryFor_def)
      from select_repeated [OF this s(2)] p show ?thesis by (auto simp: candidates_def)
    qed
    with s flds show ?thesis unfolding eq sound_decision_def fresh_strategy_def by blast
  qed
qed

lemma verification_sound: "ctx_ok rt c \<Longrightarrow> route_verification rt c scope = Some d \<Longrightarrow> sound_decision c d"
  unfolding route_verification_def Let_def
  by (auto intro!: retryDecision_sound final_sound split: option.splits bool.splits if_splits)

lemma by_kind_sound: "ctx_ok rt c \<Longrightarrow> sound_decision c (route_by_kind rt c kind scope)"
  unfolding route_by_kind_def Let_def by (auto intro!: retryDecision_sound final_sound)

lemma supervised_cases:
  assumes "route_supervised rt c kind scope request = Inr d"
  shows "d = route_by_kind rt c kind scope \<or> (\<exists>dec a. fld dec ''action'' = JStr a \<and> d = retryDecision rt c (own dec) None)
    \<or> (\<exists>dec a. fld dec ''action'' = JStr a \<and> a \<notin> set retry_actions \<and> d = JObj (spread (own dec) (rc_meta c)))"
proof -
  from assms obtain consult where d: "(case (if consult then diagnose rt else None) of
         None \<Rightarrow> Inr (route_by_kind rt c kind scope)
       | Some f \<Rightarrow> (case f request of Inl _ \<Rightarrow> Inr (route_by_kind rt c kind scope)
           | Inr decision \<Rightarrow> (case fld decision ''action'' of
                 JStr a \<Rightarrow> if a \<in> set retry_actions then Inr (retryDecision rt c (own decision) None)
                           else Inr (JObj (spread (own decision) (rc_meta c)))
               | _ \<Rightarrow> Inr (route_by_kind rt c kind scope)))) = (Inr d :: js result)"
    unfolding route_supervised_def thn_eq_Inr by blast
  show ?thesis
  proof (cases "if consult then diagnose rt else None")
    case None
    with d show ?thesis by simp
  next
    case (Some f)
    show ?thesis
    proof (cases "f request")
      case (Inl e)
      with d Some show ?thesis by simp
    next
      case (Inr dec)
      show ?thesis
      proof (cases "\<exists>a. fld dec ''action'' = JStr a")
        case True
        then obtain a where "fld dec ''action'' = JStr a" ..
        with d Some Inr show ?thesis by (cases "a \<in> set retry_actions") auto
      next
        case False
        with d Some Inr show ?thesis by (cases "fld dec ''action''") simp_all
      qed
    qed
  qed
qed

lemma supervised_sound:
  assumes "ctx_ok rt c" "route_supervised rt c kind scope request = Inr d"
  shows "sound_decision c d"
proof -
  have other: "sound_decision c (JObj (spread (own decision) (rc_meta c)))"
    if "fld decision ''action'' = JStr a" "a \<notin> set retry_actions" for decision a
  proof (rule stop_not_retry [OF _ that(2)])
    have "''action'' \<notin> fst ` set (rc_meta c)" using assms(1) by (simp add: ctx_ok_def)
    then have "obj_get (spread (own decision) (rc_meta c)) ''action'' = obj_get (own decision) ''action''"
      by (rule obj_get_spread_notin)
    moreover have "obj_get (own decision) ''action'' = fld decision ''action''" by (rule obj_get_own)
    ultimately show "fld (JObj (spread (own decision) (rc_meta c))) ''action'' = JStr a"
      using that(1) by (simp add: fld_def)
  qed
  from supervised_cases [OF assms(2)] show ?thesis
    using by_kind_sound [OF assms(1)] retryDecision_sound [OF assms(1)] other by blast
qed

lemma route_sound:
  assumes "route rt now assignment attempt res = Inr d"
  shows "sound_decision (route_context rt assignment res) d"
proof -
  let ?c = "route_context rt assignment res"
  note ok = route_context_ok [of rt assignment res]
  have wait: "sound_decision ?c (JObj ((''action'', JStr ''wait_for_rate_limit'') # m))" for m
    by (rule stop_not_retry [of _ "''wait_for_rate_limit''"]) (simp_all add: retry_actions_def)
  from assms show ?thesis
    unfolding route_def Let_def
    by (auto intro: final_sound wait supervised_sound [OF ok] verification_sound [OF ok] split: if_splits option.splits)
qed

end
