(* ===== verification/RecoveryProperties.thy ===== *)
theory RecoveryProperties
  imports ScopeGuard FailureRouter
begin

text \<open>
  Properties of the scope guard, the supervisor decisions, the recovery strategies and the failure
  router: what the guard accepts, and that an unchanged failure is not retried for ever.
\<close>

section \<open>Chains of strategies\<close>

text \<open>An escalation: each choice ranks above the one before it, and ranks are bounded.\<close>

locale escalation =
  fixes leads :: "'a \<Rightarrow> 'a \<Rightarrow> bool" and rk :: "'a \<Rightarrow> nat" and top :: nat
  assumes rises: "leads a b \<Longrightarrow> rk a < rk b" and bounded: "rk a \<le> top"
begin

lemma run_ranks:
  assumes "\<And>i. Suc i < length xs \<Longrightarrow> leads (xs ! i) (xs ! Suc i)"
  shows "sorted_wrt (<) (map rk xs)"
  using assms rises by (simp add: sorted_wrt_iff_nth_Suc_transp)

lemma run_bounded:
  assumes "\<And>i. Suc i < length xs \<Longrightarrow> leads (xs ! i) (xs ! Suc i)"
  shows "distinct xs \<and> length xs \<le> Suc top"
proof -
  from run_ranks [OF assms] have d: "distinct (map rk xs)" by (simp add: strict_sorted_iff)
  have "set (map rk xs) \<subseteq> {..top}" using bounded by auto
  from card_mono [OF _ this] distinct_card [OF d] have "length xs \<le> Suc top" by simp
  with d show ?thesis by (simp add: distinct_map)
qed

end

text \<open>\<open>after sha failure scope prev s\<close>: when the same failure comes again and \<open>prev\<close> was tried, \<open>s\<close> may
  be chosen, whatever is preferred.\<close>

definition after :: "(string \<Rightarrow> string) \<Rightarrow> js \<Rightarrow> recovery_scope \<Rightarrow> string \<Rightarrow> string \<Rightarrow> bool" where
  "after sha failure scope prev s \<longleftrightarrow> s \<noteq> [] \<and> (\<exists>pref. retryStrategy
     (selectFailureRecovery sha failure (Some (stableFailureFingerprint sha failure)) (Some prev) pref scope) = Some s)"

interpretation strategies: escalation "after sha failure scope"
  "\<lambda>s. rank (availableStrategies (classifyFailure failure) scope) (Some s)" 2
  by unfold_locales (auto simp: after_def dest: select_repeated
      intro: order_trans [OF rank_bound available_shape(3)])

section \<open>What a decision says\<close>

definition has_action :: "js \<Rightarrow> bool" where
  "has_action d \<longleftrightarrow> (\<exists>a. fld d ''action'' = JStr a)"

lemma has_action_first: "has_action (JObj ((''action'', JStr a) # m))"
  by (simp add: has_action_def)

lemma final_has_action: "has_action (final_decision c action reason)"
  by (simp add: final_decision_def has_action_first)

lemma granted_action:
  assumes "obj_get decision ''action'' = JStr a"
  shows "fld (JObj (spread decision (recovery_meta r @ [(''retryStrategy'', s), (''strategyChanged'', b), (''forceFreshSession'', f)])))
    ''action'' = JStr a"
proof -
  have "''action'' \<notin> fst ` set (recovery_meta r @ [(''retryStrategy'', s), (''strategyChanged'', b), (''forceFreshSession'', f)])"
    by (simp add: recovery_meta_def)
  from obj_get_spread_notin [OF this, of decision] assms show ?thesis by (simp add: fld_def)
qed

lemma retryDecision_action:
  "obj_get decision ''action'' = JStr a \<Longrightarrow> fld (retryDecision rt c decision preferred) ''action'' \<in> {JStr a, JStr ''mark_failed''}"
  by (simp add: retryDecision_def Let_def granted_action)

lemma retryDecision_granted:
  fixes rt c decision preferred
  defines "r \<equiv> recoveryFor rt c (case or_null preferred of Some p \<Rightarrow> Some p | None \<Rightarrow> str_opt (obj_get decision ''retryStrategy''))"
  assumes "obj_get decision ''action'' = JStr a" "a \<in> set retry_actions"
    "rc_repeated c \<longrightarrow> or_null (rc_prevStrategy c) \<noteq> None" "or_null (retryStrategy r) \<noteq> None" "strategyChanged r"
  shows "is_retry (retryDecision rt c decision preferred)"
  using assms(2-) by (auto simp: retryDecision_def Let_def is_retry_def granted_action simp flip: r_def)

lemma retry_has_action: "obj_get decision ''action'' = JStr a \<Longrightarrow> has_action (retryDecision rt c decision preferred)"
  using retryDecision_action [of decision a rt c preferred] by (auto simp: has_action_def)

lemma plain_retry_action: "has_action (retryDecision rt c (plain_retry action reason @ xs) preferred)"
  by (rule retry_has_action [of _ action]) (simp add: plain_retry_def obj_get_def)

lemma plain_retry_action': "has_action (retryDecision rt c (plain_retry action reason) preferred)"
  using plain_retry_action [of rt c action reason "[]"] by simp

lemma verification_has_action: "route_verification rt c scope = Some d \<Longrightarrow> has_action d"
  unfolding route_verification_def Let_def
  by (auto intro: plain_retry_action final_has_action split: option.splits bool.splits if_splits)

lemma has_action_if: "has_action a \<Longrightarrow> has_action b \<Longrightarrow> has_action (if c then a else b)"
  by simp

lemma by_kind_has_action: "has_action (route_by_kind rt c kind scope)"
  unfolding route_by_kind_def Let_def append_assoc
  by (intro has_action_if plain_retry_action plain_retry_action' final_has_action)

lemma supervised_has_action:
  assumes "ctx_ok rt c" "route_supervised rt c kind scope request = Inr d"
  shows "has_action d"
proof -
  have own: "obj_get (own dec) ''action'' = JStr a" if "fld dec ''action'' = JStr a" for dec a
    using that obj_get_own [of dec "''action''"] by simp
  have spread: "has_action (JObj (spread (own dec) (rc_meta c)))" if "fld dec ''action'' = JStr a" for dec a
  proof -
    have "''action'' \<notin> fst ` set (rc_meta c)" using assms(1) by (simp add: ctx_ok_def)
    from obj_get_spread_notin [OF this, of "own dec"] own [OF that] show ?thesis by (simp add: has_action_def fld_def)
  qed
  from supervised_cases [OF assms(2)] show ?thesis
    using by_kind_has_action retry_has_action own spread by blast
qed

lemma wait_has_action: "has_action (JObj (((''action'', JStr a) # xs) @ ys))"
  by (simp add: has_action_first)

lemma consult_total: "\<forall>e. mode rt \<noteq> Some (Inl e) \<Longrightarrow> \<exists>b. shouldConsultSupervisor rt kind = Inr b"
  by (cases "mode rt"; cases "the (mode rt)") (auto simp: shouldConsultSupervisor_def)

lemma supervised_total:
  assumes "\<forall>e. mode rt \<noteq> Some (Inl e)"
  shows "\<exists>d. route_supervised rt c kind scope request = Inr d"
proof -
  from consult_total [OF assms] obtain b where b: "shouldConsultSupervisor rt kind = Inr b" by blast
  show ?thesis
  proof (cases "if b then diagnose rt else None")
    case (Some f)
    then show ?thesis
    proof (cases "f request")
      case (Inr dec)
      with b Some show ?thesis by (cases "fld dec ''action''") (simp_all add: route_supervised_def)
    qed (simp add: route_supervised_def b)
  qed (simp add: route_supervised_def b)
qed

lemma route_has_action:
  assumes "route rt now assignment attempt res = Inr d"
  shows "has_action d"
proof -
  let ?c = "route_context rt assignment res"
  note ok = route_context_ok [of rt assignment res]
  from assms show ?thesis
    unfolding route_def Let_def
    by (auto intro: final_has_action has_action_first supervised_has_action [OF ok] verification_has_action
        split: if_splits option.splits)
qed

lemma route_total:
  assumes "\<forall>e. mode rt \<noteq> Some (Inl e)"
  shows "\<exists>d. route rt now assignment attempt res = Inr d"
  unfolding route_def Let_def using supervised_total [OF assms] by (auto split: option.splits)

section \<open>Where retries stop\<close>

definition gives_up :: "js result \<Rightarrow> bool" where
  "gives_up r \<longleftrightarrow> (case r of Inl _ \<Rightarrow> True | Inr d \<Rightarrow> fld d ''action'' = JStr ''mark_failed'' \<and> fld d ''retryable'' = JBool False)"

lemma gives_up_final: "gives_up (Inr (final_decision c ''mark_failed'' m))"
  by (simp add: gives_up_def final_decision_def)

lemma gives_up_if: "gives_up a \<Longrightarrow> gives_up b \<Longrightarrow> gives_up (if P then a else b)"
  by simp

lemma over_budget_stops:
  fixes rt assignment res
  defines "kind \<equiv> fld (rc_failure (route_context rt assignment res)) ''kind''"
  assumes "kind \<notin> {JStr ''verification_failed'', JStr ''scope_violation'', JStr ''agent_rate_limited''}"
    and "over_budget assignment (to_str (or_else kind (JStr [])))"
  shows "gives_up (route rt now assignment attempt res)"
proof -
  have nc: "\<not> (kind = JStr ''verification_failed'' \<or> kind = JStr ''scope_violation'')" and nr: "\<not> kind = JStr ''agent_rate_limited''"
    using assms(2) by blast+
  show ?thesis
    unfolding route_def Let_def kind_def [symmetric] if_not_P [OF nc] if_not_P [OF nr] if_P [OF assms(3)] option.case
    by (intro gives_up_if gives_up_final)
qed

text \<open>A rate limit is waited for, whatever the budget says and however often it was waited before.\<close>

lemma rate_limit_waits:
  fixes rt assignment res
  defines "c \<equiv> route_context rt assignment res"
  assumes "route rt now assignment attempt res = Inr d" "fld (rc_failure c) ''kind'' = JStr ''agent_rate_limited''" "fld (rc_failure c) ''retryable'' \<noteq> JBool False"
  shows "fld d ''action'' = JStr ''wait_for_rate_limit'' \<and> fld d ''retryable'' = JBool True
    \<and> fld d ''retryStrategy'' = JStr ''wait_for_rate_limit_window''
    \<and> fld d ''strategyChanged'' = JBool (rc_prevStrategy c \<noteq> Some ''wait_for_rate_limit_window'')"
proof -
  have "\<exists>r. rc_meta c = recovery_meta r" unfolding c_def route_context_def Let_def route_ctx.simps by (rule exI) (rule refl)
  then obtain r where meta: "rc_meta c = recovery_meta r" ..
  have no: "\<not> (fld (rc_failure c) ''retryable'' = JBool False \<and> P)" for P using assms(4) by simp
  have "d = JObj ([(''action'', JStr ''wait_for_rate_limit''), (''reason'', fld (rc_failure c) ''reason''),
      (''untilTs'', or3 (fld (fld (rc_failure c) ''cause'') ''nextEligibleAt'') (fld (fld (rc_failure c) ''cause'') ''untilTs'')
         (JNum (case now of Fin x \<Rightarrow> Fin (x + 60000) | n \<Rightarrow> n))), (''retryable'', JBool True)] @ recovery_meta r
      @ [(''retryStrategy'', JStr ''wait_for_rate_limit_window''),
         (''strategyChanged'', JBool (rc_prevStrategy c \<noteq> Some ''wait_for_rate_limit_window''))])"
    using assms(2) unfolding route_def Let_def c_def [symmetric] if_not_P [OF no] if_P [OF assms(3)] meta by simp
  then show ?thesis by (simp add: recovery_meta_def fld_def obj_get_def)
qed

text \<open>The routing of a label retries or stops; what stops is not retryable.\<close>

definition routing_shape :: "checklist_routing \<Rightarrow> bool" where
  "routing_shape r \<longleftrightarrow> (cr_retryable r \<longrightarrow> cr_action r = ''retry_same_worker'' \<and> cr_retryPhase r \<noteq> None)"

lemma routing_shape_if: "routing_shape a \<Longrightarrow> routing_shape b \<Longrightarrow> routing_shape (if P then a else b)"
  by simp

lemma routing_shape_base: "routing_shape (retry_routing k p f)" "routing_shape (stop_routing k a)"
  by (simp_all add: routing_shape_def retry_routing_def stop_routing_def)

lemma label_routing_shape: "routing_shape (mapChecklistRoutingLabel label context)"
  unfolding mapChecklistRoutingLabel_def Let_def by (intro routing_shape_if routing_shape_base)

definition not_blocked :: "js \<Rightarrow> bool" where
  "not_blocked d \<longleftrightarrow> fld d ''action'' \<noteq> JStr ''mark_blocked''"

lemma not_blocked_failed: "not_blocked (final_decision c ''mark_failed'' m)"
  by (simp add: not_blocked_def final_decision_def)

lemma not_blocked_retry:
  "not_blocked (retryDecision rt c (plain_retry ''retry_same_worker'' reason @ xs) preferred)"
proof -
  have "obj_get (plain_retry ''retry_same_worker'' reason @ xs) ''action'' = JStr ''retry_same_worker''"
    by (simp add: plain_retry_def obj_get_def)
  from retryDecision_action [OF this, of rt c preferred] show ?thesis unfolding not_blocked_def by auto
qed

lemma verification_not_blocked:
  assumes "route_verification rt c scope = Some d"
  shows "not_blocked d"
proof -
  have stop: "not_blocked d" if "(case routing of
       Some r \<Rightarrow> (case (cr_action r = ''retry_same_worker'', cr_retryPhase r) of
            (True, Some ph) \<Rightarrow> Some (retryDecision rt c (plain_retry ''retry_same_worker'' x @ ys ph r) (pr ph))
          | _ \<Rightarrow> if \<not> cr_retryable r then Some (final_decision c ''mark_failed'' (m r))
                 else if cr_action r = ''mark_blocked'' then Some (final_decision c ''mark_blocked'' x)
                 else if P then Some (final_decision c ''mark_failed'' n) else None)
     | None \<Rightarrow> if P then Some (final_decision c ''mark_failed'' n) else None) = Some d"
    "\<And>r. routing = Some r \<Longrightarrow> routing_shape r" for routing ys pr m n P x
  proof (cases routing)
    case None
    with that(1) show ?thesis by (auto simp: not_blocked_failed split: if_splits)
  next
    case (Some r)
    then have r: "routing_shape r" by (rule that(2))
    show ?thesis
    proof (cases "cr_retryable r")
      case True
      with r obtain ph where "cr_action r = ''retry_same_worker''" "cr_retryPhase r = Some ph" by (auto simp: routing_shape_def)
      with that(1) Some show ?thesis using not_blocked_retry by auto
    next
      case False
      with that(1) Some not_blocked_retry not_blocked_failed show ?thesis
        by (auto split: option.splits bool.splits)
    qed
  qed
  show ?thesis
    by (rule stop [OF assms [unfolded route_verification_def Let_def append_assoc]])
      (auto intro: label_routing_shape split: if_splits)
qed

section \<open>Examples\<close>

definition example_router :: router where
  "example_router = \<lparr>rt_sha = (\<lambda>s. ''h''), diagnose = None, mode = None\<rparr>"

definition example_failure :: "string \<Rightarrow> (string \<times> js) list \<Rightarrow> js" where
  "example_failure kind cause = JObj [(''failure'', JObj [(''kind'', JStr kind), (''reason'', JStr ''r''), (''cause'', JObj cause)])]"

definition example_assignment :: "nat \<Rightarrow> string \<Rightarrow> js" where
  "example_assignment attempts strategy = JObj [(''attempts'', jnat attempts),
     (''sourceContext'', JObj [(''retry'', JObj [(''failureFingerprint'', JStr ''sha256:h''), (''retryStrategy'', JStr strategy)])])]"

lemma example_failure_record:
  "recordValue (or_else (fld (recordValue (fld (example_failure kind cause) ''jobResult'')) ''failure'') (fld (example_failure kind cause) ''failure''))
     = JObj [(''kind'', JStr kind), (''reason'', JStr ''r''), (''cause'', JObj cause)]"
  by (simp add: example_failure_def fld_def obj_get_def recordValue_def)

lemma example_source_context:
  "recordValue (or_else (fld (example_assignment n s) ''sourceContext'')
       (fld (fld (example_assignment n s) ''metadata'') ''sourceContext''))
     = JObj [(''retry'', JObj [(''failureFingerprint'', JStr ''sha256:h''), (''retryStrategy'', JStr s)])]"
  by (simp add: example_assignment_def fld_def obj_get_def recordValue_def)

lemma example_context:
  fixes kind cause n s
  defines "c \<equiv> route_context example_router (example_assignment n s) (example_failure kind cause)"
  shows "rc_failure c = JObj [(''kind'', JStr kind), (''reason'', JStr ''r''), (''cause'', JObj cause)]"
    "rc_repeated c" "rc_prevFingerprint c = Some ''sha256:h''" "rc_prevStrategy c = Some s"
  unfolding c_def route_context_def Let_def example_failure_record example_source_context
  by (simp_all add: select_fields stableFailureFingerprint_def example_router_def fld_def obj_get_def str_opt_def)

lemma example_timeout_route:
  assumes "\<not> over_budget (example_assignment n s) ''timeout''"
  shows "route example_router now (example_assignment n s) attempt (example_failure ''timeout'' [])
    = Inr (retryDecision example_router (route_context example_router (example_assignment n s) (example_failure ''timeout'' []))
        (plain_retry ''restart_worker_and_retry'' (JStr ''timeout: r'')) None)"
proof -
  have k: "fld (JObj [(''kind'', JStr ''timeout''), (''reason'', JStr ''r''), (''cause'', JObj [])]) ''kind'' = JStr ''timeout''"
    "fld (JObj [(''kind'', JStr ''timeout''), (''reason'', JStr ''r''), (''cause'', JObj [])]) ''retryable'' = JUndef"
    "fld (JObj [(''kind'', JStr ''timeout''), (''reason'', JStr ''r''), (''cause'', JObj [])]) ''reason'' = JStr ''r''" by code_simp+
  have d: "diagnose example_router = None" by (simp add: example_router_def)
  show ?thesis
    using assms by (simp add: route_def Let_def example_context k route_supervised_def shouldConsultSupervisor_def d route_by_kind_def
        concat_reason_def)
qed

section \<open>Properties\<close>

text \<open>the scope guard reports exactly the changed files outside the scope: those that are not a
  scope entry, do not lie under one and match no pattern (for entries without a question mark).\<close>

theorem scope_guard_exact:
  assumes "\<forall>s \<in> set (fixScope (evaluateScopeGuard files scope)). CHR ''?'' \<notin> set s"
    "fixScope (evaluateScopeGuard files scope) \<noteq> []"
  shows "violations (evaluateScopeGuard files scope)
      = filter (\<lambda>p. \<forall>s \<in> set (fixScope (evaluateScopeGuard files scope)). \<not> in_scope_spec p s) (changedFiles (evaluateScopeGuard files scope))
    \<and> (withinScope (evaluateScopeGuard files scope) \<longleftrightarrow> violations (evaluateScopeGuard files scope) = [])"
  using scope_violations [OF refl, of files scope] isPathInScope_iff_spec assms by (auto intro!: filter_cong)

theorem scope_guard_exact_witness:
  "let r = evaluateScopeGuard (jstrs [''src/a/b.ts'', ''srcx/c.ts'', ''docs/x/y.md'']) (jstrs [''src'', ''docs/*.md''])
   in violations r = [''srcx/c.ts'', ''docs/x/y.md'']
      \<and> violations r = filter (\<lambda>p. \<forall>s \<in> set (fixScope r). \<not> in_scope_spec p s) (changedFiles r)"
proof -
  let ?fs = "jstrs [''src/a/b.ts'', ''srcx/c.ts'', ''docs/x/y.md'']" and ?sc = "jstrs [''src'', ''docs/*.md'']"
  have h: "\<forall>s \<in> set (fixScope (evaluateScopeGuard ?fs ?sc)). CHR ''?'' \<notin> set s" "fixScope (evaluateScopeGuard ?fs ?sc) \<noteq> []"
    by code_simp+
  have "violations (evaluateScopeGuard ?fs ?sc) = [''srcx/c.ts'', ''docs/x/y.md'']" by code_simp
  with scope_guard_exact [OF h] show ?thesis by (simp only: Let_def simp_thms)
qed

text \<open>a question mark in a pattern is not a character of the path: it makes the character
  before it optional, so a pattern under one name admits another.\<close>

theorem question_mark_is_quantifier:
  "isPathInScope ''docs/secret'' ''docs/x?*'' \<and> \<not> isPathInScope ''docs/secret'' ''docs/x*''
     \<and> withinScope (evaluateScopeGuard (jstrs [''docs/secret'']) (jstrs [''docs/x?*'']))"
  by code_simp

text \<open>a validated supervisor decision is one of the known actions with a reason, and names no
  forbidden parameter; parameters that come with an action are those of its schema, the required
  ones among them.\<close>

theorem supervisor_decision_safe:
  assumes "validateSupervisorDecision parse_date d = []"
  shows "\<exists>a. fld d ''action'' = JStr a \<and> a \<in> set VALID_ACTIONS \<and> (\<exists>r. fld d ''reason'' = JStr r \<and> r \<noteq> [])
    \<and> (isRecord (fld d ''params'') \<longrightarrow> fst ` set (entries (fld d ''params'')) \<inter> set FORBIDDEN_PARAMS = {}
        \<and> (\<forall>s. map_of ACTION_SCHEMAS a = Some s \<longrightarrow>
             set (required_params s) \<subseteq> fst ` set (entries (fld d ''params''))
             \<and> fst ` set (entries (fld d ''params'')) \<subseteq> fst ` set (param_specs s)))"
proof -
  from assms obtain a where a: "fld d ''action'' = JStr a" "a \<in> set VALID_ACTIONS"
    "params_errors parse_date a (fld d ''params'') = []" "\<exists>r. fld d ''reason'' = JStr r \<and> r \<noteq> []" by (rule decision_ok)
  have "fst ` set (entries (fld d ''params'')) \<inter> set FORBIDDEN_PARAMS = {}
      \<and> (\<forall>s. map_of ACTION_SCHEMAS a = Some s \<longrightarrow> set (required_params s) \<subseteq> fst ` set (entries (fld d ''params''))
             \<and> fst ` set (entries (fld d ''params'')) \<subseteq> fst ` set (param_specs s))" if "isRecord (fld d ''params'')"
  proof -
    note forbidden = params_ok(1) [OF a(3) that]
    have "set (required_params s) \<subseteq> fst ` set (entries (fld d ''params''))
        \<and> fst ` set (entries (fld d ''params'')) \<subseteq> fst ` set (param_specs s)" if "map_of ACTION_SCHEMAS a = Some s" for s
    proof -
      from params_ok(2) [OF a(3) \<open>isRecord (fld d ''params'')\<close> that] have "schema_errors parse_date a s (fld d ''params'') = []" .
      from schema_ok(1,2) [OF this] forbidden show ?thesis by blast
    qed
    with forbidden show ?thesis by blast
  qed
  with a(1,2,4) show ?thesis by blast
qed

theorem supervisor_decision_safe_witness:
  "\<exists>d a. validateSupervisorDecision (\<lambda>s. Fin 0) d = [] \<and> isRecord (fld d ''params'') \<and> fld d ''action'' = JStr a \<and> a \<in> set VALID_ACTIONS"
proof -
  let ?d = "JObj [(''action'', JStr ''switch_agent''), (''reason'', JStr ''stuck''),
    (''params'', JObj [(''role'', JStr ''executor''), (''agent'', JStr ''codex'')])]"
  have v: "validateSupervisorDecision (\<lambda>s. Fin 0) ?d = []" "isRecord (fld ?d ''params'')" by code_simp+
  from supervisor_decision_safe [OF v(1)] v show ?thesis by blast
qed

text \<open>an unchanged failure runs out of strategies: strategies chosen one after the other for the
  same failure are distinct, and there are at most three of them, whatever is preferred.\<close>

theorem repeated_failure_budget:
  assumes "\<And>i. Suc i < length ss \<Longrightarrow> after sha failure scope (ss ! i) (ss ! Suc i)"
  shows "distinct ss \<and> length ss \<le> 3"
  using strategies.run_bounded [OF assms] by simp

theorem repeated_failure_budget_witness:
  "let failure = JObj [(''kind'', JStr ''timeout'')]
   in after (\<lambda>s. ''h'') failure QueueScope ''unlisted'' ''fresh_session_with_carry_forward''
      \<and> after (\<lambda>s. ''h'') failure QueueScope ''fresh_session_with_carry_forward'' ''restart_worker_with_carry_forward''
      \<and> distinct [''unlisted'', ''fresh_session_with_carry_forward'', ''restart_worker_with_carry_forward'']"
proof -
  let ?f = "JObj [(''kind'', JStr ''timeout'')]"
  let ?cs = "[''fresh_session_with_carry_forward'', ''restart_worker_with_carry_forward'']"
  have c: "availableStrategies (classifyFailure ?f) QueueScope = ?cs" by code_simp
  have n: "next_strategy ?cs (Some ''unlisted'') None = Some ''fresh_session_with_carry_forward''"
    "next_strategy ?cs (Some ''fresh_session_with_carry_forward'') None = Some ''restart_worker_with_carry_forward''" by code_simp+
  have a: "after (\<lambda>s. ''h'') ?f QueueScope p s" if "next_strategy ?cs (Some p) None = Some s" "s \<noteq> []" for p s
    using that unfolding after_def by (intro conjI exI [of _ None]) (simp_all add: select_fields c chosen_strategy_def)
  have s: "after (\<lambda>s. ''h'') ?f QueueScope ''unlisted'' ''fresh_session_with_carry_forward''"
    "after (\<lambda>s. ''h'') ?f QueueScope ''fresh_session_with_carry_forward'' ''restart_worker_with_carry_forward''"
    by (rule a [OF n(1)], simp) (rule a [OF n(2)], simp)
  have "distinct (''unlisted'' # ?cs) \<and> length (''unlisted'' # ?cs) \<le> 3"
    by (rule repeated_failure_budget [where sha = "\<lambda>s. ''h''" and failure = ?f and scope = QueueScope])
      (use s in \<open>auto simp: less_Suc_eq\<close>)
  with s show ?thesis by (simp only: Let_def simp_thms)
qed



text \<open>every failed attempt gets a decision with an action, unless reading the mode fails: no
  shape of the result and no failure of the supervisor is an error of the router.\<close>

theorem route_decides:
  assumes "\<forall>e. mode rt \<noteq> Some (Inl e)"
  shows "\<exists>d a. route rt now assignment attempt res = Inr d \<and> fld d ''action'' = JStr a"
  using route_total [OF assms] route_has_action unfolding has_action_def by metis

theorem route_decides_witness:
  "\<exists>d a. route \<lparr>rt_sha = (\<lambda>s. s), diagnose = Some (\<lambda>_. Inl (ErrorMsg ''down'')), mode = Some (Inr ''smart'')\<rparr>
     (Fin 0) JNull JNull JNull = Inr d \<and> fld d ''action'' = JStr a"
  by (rule route_decides) simp

text \<open>C39: The retry budget holds for every kind of failure but three: once the attempts exceed the budget of the kind
  (none for a kind that is not in the table), the router gives the task up. The three kinds are those that a checklist
  label may send back before the budget is looked at, verification failures and scope violations, and a rate-limited
  agent, which is waited for although the table gives it a budget of none.\<close>

theorem route_within_budget:
  fixes rt assignment res
  defines "kind \<equiv> fld (rc_failure (route_context rt assignment res)) ''kind''"
  assumes "kind \<notin> {JStr ''verification_failed'', JStr ''scope_violation'', JStr ''agent_rate_limited''}"
    "fld assignment ''attempts'' = jnat n" "(case map_of MAX_RETRIES (to_str (or_else kind (JStr []))) of Some m \<Rightarrow> m | None \<Rightarrow> 0) < n"
    "route rt now assignment attempt res = Inr d"
  shows "fld d ''action'' = JStr ''mark_failed'' \<and> fld d ''retryable'' = JBool False"
proof -
  have "over_budget assignment (to_str (or_else kind (JStr [])))" using assms(3,4) by (simp add: over_budget_def)
  then have "gives_up (route rt now assignment attempt res)" using assms(2) unfolding kind_def by (intro over_budget_stops)
  with assms(5) show ?thesis by (simp add: gives_up_def)
qed

theorem route_within_budget_witness:
  "\<exists>d. route example_router (Fin 0) (example_assignment 2 ''s'') JNull (example_failure ''timeout'' []) = Inr d
    \<and> fld d ''action'' = JStr ''mark_failed'' \<and> fld d ''retryable'' = JBool False"
proof -
  have m: "\<forall>e. mode example_router \<noteq> Some (Inl e)" by (simp add: example_router_def)
  from route_total [OF m] obtain d where
    d: "route example_router (Fin 0) (example_assignment 2 ''s'') JNull (example_failure ''timeout'' []) = Inr d" by blast
  let ?kind = "fld (rc_failure (route_context example_router (example_assignment 2 ''s'') (example_failure ''timeout'' []))) ''kind''"
  have k: "?kind = JStr ''timeout''" by (simp add: example_context fld_def obj_get_def)
  have kind: "?kind \<notin> {JStr ''verification_failed'', JStr ''scope_violation'', JStr ''agent_rate_limited''}" unfolding k by simp
  have n: "fld (example_assignment 2 ''s'') ''attempts'' = jnat 2"
    "(case map_of MAX_RETRIES (to_str (or_else ?kind (JStr []))) of Some m \<Rightarrow> m | None \<Rightarrow> 0) < 2" unfolding k by code_simp+
  from route_within_budget [OF kind n d] d show ?thesis by blast
qed

text \<open>without a supervisor a verification failure is never put on hold: the labels that ask for
  a human (\<^verbatim>\<open>needs_clarification\<close>, missing manual approval) are mapped to \<^verbatim>\<open>mark_blocked\<close>, but
  the test for non-retryable labels comes first and fails the job.\<close>

theorem verification_never_blocked:
  assumes "diagnose rt = None" "fld (rc_failure (route_context rt assignment res)) ''kind'' = JStr ''verification_failed''"
    "route rt now assignment attempt res = Inr d"
  shows "fld d ''action'' \<noteq> JStr ''mark_blocked''"
proof -
  let ?c = "route_context rt assignment res"
  have k: "to_str (or_else (JStr ''verification_failed'') (JStr [])) = ''verification_failed''" by simp
  have kind: "not_blocked (route_by_kind rt ?c ''verification_failed'' scope)" for scope
    unfolding route_by_kind_def Let_def by (simp add: not_blocked_retry)
  have "not_blocked d"
    using assms(3) unfolding route_def Let_def assms(2) k
    by (auto simp: not_blocked_failed kind route_supervised_def shouldConsultSupervisor_def assms(1)
        dest: verification_not_blocked split: if_splits option.splits)
  then show ?thesis by (simp add: not_blocked_def)
qed

theorem verification_never_blocked_witness:
  "mapChecklistRoutingLabel ''needs_clarification'' JNull = stop_routing ''human_approval_required'' ''mark_blocked''
   \<and> (\<exists>d. route example_router (Fin 0) (example_assignment 0 ''s'') JNull
       (example_failure ''verification_failed'' [(''routingLabel'', JStr ''needs_clarification'')]) = Inr d
     \<and> fld d ''action'' \<noteq> JStr ''mark_blocked'')"
proof -
  let ?a = "example_assignment 0 ''s''"
  let ?f = "example_failure ''verification_failed'' [(''routingLabel'', JStr ''needs_clarification'')]"
  have m: "\<forall>e. mode example_router \<noteq> Some (Inl e)" "diagnose example_router = None" by (simp_all add: example_router_def)
  from route_total [OF m(1)] obtain d where d: "route example_router (Fin 0) ?a JNull ?f = Inr d" by blast
  have k: "fld (rc_failure (route_context example_router ?a ?f)) ''kind'' = JStr ''verification_failed''"
    by (simp add: example_context fld_def obj_get_def)
  have l: "mapChecklistRoutingLabel ''needs_clarification'' JNull = stop_routing ''human_approval_required'' ''mark_blocked''"
    by code_simp
  from verification_never_blocked [OF m(2) k d] d l show ?thesis by blast
qed

end
