(* ===== verification/Actions.thy ===== *)
theory Actions
  imports JsValue
begin

text \<open>
  Actions of asynchronous code on a state of its own: an action takes the state and gives a value, or
  what was thrown, with the next state. A triple says what an action makes of a state, with one
  postcondition for its values and one for its exceptions; the rules follow the statements.
\<close>

section \<open>Actions\<close>

datatype thrown = AbortError string | Raised js_error

type_synonym ('s, 'a) act = "'s \<Rightarrow> (thrown + 'a) \<times> 's"

definition pass :: "'a \<Rightarrow> ('s, 'a) act" where
  "pass v s = (Inr v, s)"

definition raise :: "thrown \<Rightarrow> ('s, 'a) act" where
  "raise e s = (Inl e, s)"

definition bind :: "('s, 'a) act \<Rightarrow> ('a \<Rightarrow> ('s, 'b) act) \<Rightarrow> ('s, 'b) act" where
  "bind m f s = (case m s of (Inl e, s') \<Rightarrow> (Inl e, s') | (Inr v, s') \<Rightarrow> f v s')"

definition reads :: "('s \<Rightarrow> 'a) \<Rightarrow> ('s, 'a) act" where
  "reads f s = (Inr (f s), s)"

definition change :: "('s \<Rightarrow> 's) \<Rightarrow> ('s, unit) act" where
  "change f s = (Inr (), f s)"

section \<open>Triples\<close>

definition triple ::
  "('s \<Rightarrow> bool) \<Rightarrow> ('s, 'a) act \<Rightarrow> ('a \<Rightarrow> 's \<Rightarrow> bool) \<Rightarrow> ('s \<Rightarrow> bool) \<Rightarrow> bool" where
  "triple A m Q E \<longleftrightarrow> (\<forall>s. A s \<longrightarrow> (case m s of (Inr v, t) \<Rightarrow> Q v t | (Inl _, t) \<Rightarrow> E t))"

lemma tripleD: "triple A m Q E \<Longrightarrow> A s \<Longrightarrow> (case m s of (Inr v, t) \<Rightarrow> Q v t | (Inl _, t) \<Rightarrow> E t)"
  by (simp add: triple_def)

lemma triple_bind:
  assumes "triple A m B E" "\<And>v. triple (B v) (f v) Q E"
  shows "triple A (bind m f) Q E"
  unfolding triple_def
proof (intro allI impI)
  fix s assume "A s"
  show "case bind m f s of (Inr v, t) \<Rightarrow> Q v t | (Inl _, t) \<Rightarrow> E t"
  proof (cases "fst (m s)")
    case (Inl e)
    with assms(1) \<open>A s\<close> show ?thesis by (cases "m s") (auto simp: triple_def bind_def)
  next
    case (Inr v)
    with assms(1) \<open>A s\<close> have "B v (snd (m s))" by (cases "m s") (auto simp: triple_def)
    with assms(2) [of v] Inr show ?thesis by (cases "m s") (simp add: triple_def bind_def)
  qed
qed

lemma triple_pass: "(\<And>s. A s \<Longrightarrow> Q v s) \<Longrightarrow> triple A (pass v) Q E"
  by (simp add: triple_def pass_def)

lemma triple_raise: "(\<And>s. A s \<Longrightarrow> E s) \<Longrightarrow> triple A (raise e) Q E"
  by (simp add: triple_def raise_def)

lemma triple_reads: "(\<And>s. A s \<Longrightarrow> Q (f s) s) \<Longrightarrow> triple A (reads f) Q E"
  by (simp add: triple_def reads_def)

lemma triple_change: "(\<And>s. A s \<Longrightarrow> Q () (f s)) \<Longrightarrow> triple A (change f) Q E"
  by (simp add: triple_def change_def)

lemma triple_conseq:
  assumes "triple A m Q E" "\<And>s. A' s \<Longrightarrow> A s" "\<And>v s. Q v s \<Longrightarrow> Q' v s" "\<And>s. E s \<Longrightarrow> E' s"
  shows "triple A' m Q' E'"
  unfolding triple_def
proof (intro allI impI)
  fix s assume "A' s"
  with assms(1,2) have "case m s of (Inr v, t) \<Rightarrow> Q v t | (Inl _, t) \<Rightarrow> E t" by (simp add: triple_def)
  with assms(3,4) show "case m s of (Inr v, t) \<Rightarrow> Q' v t | (Inl _, t) \<Rightarrow> E' t"
    by (auto split: prod.splits sum.splits)
qed

lemma triple_pre: "triple A m Q E \<Longrightarrow> (\<And>s. A' s \<Longrightarrow> A s) \<Longrightarrow> triple A' m Q E"
  by (rule triple_conseq [of A m Q E]) simp_all

lemma triple_pure: "(\<And>s. A s \<Longrightarrow> c) \<Longrightarrow> (c \<Longrightarrow> triple A m Q E) \<Longrightarrow> triple A m Q E"
  by (cases "\<exists>s. A s") (auto simp: triple_def)

text \<open>Reading a value and going on with what is known of it.\<close>

lemma triple_bind_reads:
  assumes "\<And>x. triple (\<lambda>s. A s \<and> f s = x) (g x) Q E"
  shows "triple A (bind (reads f) g) Q E"
  by (rule triple_bind [OF triple_reads [where Q = "\<lambda>x s. A s \<and> f s = x"] assms]) simp

lemma triple_if:
  "(c \<Longrightarrow> triple A m Q E) \<Longrightarrow> (\<not> c \<Longrightarrow> triple A m' Q E) \<Longrightarrow> triple A (if c then m else m') Q E"
  by simp

lemma triple_both:
  assumes "triple A m Q E" "triple A' m Q' E'"
  shows "triple (\<lambda>s. A s \<and> A' s) m (\<lambda>v s. Q v s \<and> Q' v s) (\<lambda>s. E s \<and> E' s)"
  unfolding triple_def
proof (intro allI impI)
  fix s assume "A s \<and> A' s"
  with assms have "case m s of (Inr v, t) \<Rightarrow> Q v t | (Inl _, t) \<Rightarrow> E t" "case m s of (Inr v, t) \<Rightarrow> Q' v t | (Inl _, t) \<Rightarrow> E' t"
    by (simp_all add: triple_def)
  then show "case m s of (Inr v, t) \<Rightarrow> Q v t \<and> Q' v t | (Inl _, t) \<Rightarrow> E t \<and> E' t"
    by (cases "m s"; cases "fst (m s)") simp_all
qed

lemma triple_true: "(\<And>v s. Q v s) \<Longrightarrow> triple A m Q (\<lambda>_. True)"
  unfolding triple_def by (simp split: prod.splits sum.splits)

end
