(* ===== verification/PhaseRetry.thy ===== *)
theory PhaseRetry
  imports FailureRouter AgentRouting Actions
begin

text \<open>
  \<^verbatim>\<open>core/engine/phase-retry.ts\<close>: what is done with a phase that did not pass. An execute phase
  that broke a hard constraint may be given to another agent, interceptions are repaired, transient
  failures are retried after a pause, and contract errors are fed back, all within one budget and each
  time with the strategy that \<open>FailureRecovery\<close> chooses. Also the allowed agents of a policy
  (\<^verbatim>\<open>core/agents/outcome-routing.ts\<close>).

  The loops call out to the phase runner, the event log, the progress callback, the timer, the clock and
  the abort signal. These are \<open>ports\<close>: functions on an unknown state of the outside, \<open>'w\<close>, which may
  throw. The loops keep their own variables in \<open>'w run\<close>, and an action is a function on this state that
  gives a value or an exception. Times to wait, limits and the environment are values; a phase result is
  an object, as its type says, and the phase runner does not write to the agents it is given.
\<close>

section \<open>The outside\<close>

datatype abort_reason = AbortInstance string \<comment> \<open>an \<^verbatim>\<open>AbortError\<close>, with its message\<close> | AbortValue js

record 'w ports =
  aborted :: "'w \<Rightarrow> abort_reason option"
    \<comment> \<open>\<^verbatim>\<open>signal?.aborted\<close> with \<^verbatim>\<open>signal.reason\<close>\<close>
  appendEvent :: "(js \<Rightarrow> 'w \<Rightarrow> (thrown + unit) \<times> 'w) option"
  onProgress :: "(js \<Rightarrow> 'w \<Rightarrow> (thrown + unit) \<times> 'w) option"
  sleep :: "jsnum \<Rightarrow> 'w \<Rightarrow> 'w"
    \<comment> \<open>\<^verbatim>\<open>setTimeout\<close>, cut short by the abort\<close>
  clock :: "'w \<Rightarrow> string"
  sha256 :: "string \<Rightarrow> string"
  agents_known :: agent_registry

section \<open>The call\<close>

record retry_ctx =
  rx_agent :: js

record retry_node =
  rn_phase :: string
  rn_role :: string
  rn_nodeId :: string
  rn_dagNode :: js
  rn_project :: string
  rn_task :: string
  rn_jobId :: string
  rn_job :: js
  rn_workflow :: js
  rn_planMode :: js
  rn_cpbRoot :: string
  rn_dataRoot :: js
  rn_sourcePath :: js
  rn_sourceContext :: js
  rn_pool :: js
  rn_state :: js
  rn_phaseResults :: "js list"
  rn_attemptId :: js
  rn_scope :: js
  rn_env :: "(string \<times> string) list"
    \<comment> \<open>\<^verbatim>\<open>n.env ?? process.env\<close>\<close>
  rn_conversationKey :: "string option"
  rn_phaseTimeout :: jsnum
  rn_phaseAgents :: "(string \<times> js) list"
  rn_result :: js

record 'w retry_deps =
  rd_retryMax :: "rat option"
  rd_feedbackRetryMax :: "rat option"
  rd_qualityRepairMax :: "rat option"
  rd_retryTotalMax :: "rat option"
  rd_retryableKinds :: "string list option"
  rd_feedbackKinds :: "string list option"
  rd_baseDelayMs :: "rat option"
  rd_delay :: "(jsnum \<Rightarrow> 'w \<Rightarrow> (thrown + unit) \<times> 'w) option"
  rd_runPhase :: "(js \<Rightarrow> 'w \<Rightarrow> (thrown + js) \<times> 'w) option"

section \<open>Kinds and limits\<close>

definition DEFAULT_PHASE_RETRYABLE_KINDS :: "string list" where
  "DEFAULT_PHASE_RETRYABLE_KINDS =
     [''agent_spawn_error'', ''agent_exit_nonzero'', ''timeout'', ''plan_bounded_handoff_timeout'']"

definition DEFAULT_PHASE_FEEDBACK_RETRY_KINDS :: "string list" where
  "DEFAULT_PHASE_FEEDBACK_RETRY_KINDS = [''artifact_invalid'', ''agent_contract_invalid'', ''verdict_invalid'']"

definition CROSS_PHASE_REPAIR_KINDS :: "string list" where
  "CROSS_PHASE_REPAIR_KINDS = [''verification_failed'']"

definition HARD_CONSTRAINT_DENIED_KINDS :: "string list" where
  "HARD_CONSTRAINT_DENIED_KINDS =
     [''web_tool_denied'', ''read_only_mutation_denied'', ''broad_test_command_denied'',
      ''execute_no_edit_progress'', ''whole_filesystem_search_denied'', ''tool_budget_exceeded'']"

definition numericEnv :: "(string \<times> string) list \<Rightarrow> string \<Rightarrow> rat \<Rightarrow> rat" where
  "numericEnv env name fallback = (case map_of env name of
     Some (c # r) \<Rightarrow> (case string_to_num (c # r) of Fin x \<Rightarrow> x | _ \<Rightarrow> fallback)
   | _ \<Rightarrow> fallback)"

definition configuredPhaseRetryMax :: "(string \<times> string) list \<Rightarrow> rat" where
  "configuredPhaseRetryMax env = numericEnv env ''CPB_PHASE_RETRY_MAX'' 2"

definition configuredRetryBaseDelayMs :: "(string \<times> string) list \<Rightarrow> rat" where
  "configuredRetryBaseDelayMs env = numericEnv env ''CPB_PHASE_RETRY_BASE_DELAY_MS'' 30000"

definition configuredPhaseFeedbackRetryMax :: "(string \<times> string) list \<Rightarrow> rat" where
  "configuredPhaseFeedbackRetryMax env = numericEnv env ''CPB_PHASE_FEEDBACK_RETRY_MAX'' 1"

definition configuredPhaseQualityRepairMax :: "(string \<times> string) list \<Rightarrow> rat" where
  "configuredPhaseQualityRepairMax env = numericEnv env ''CPB_PHASE_QUALITY_REPAIR_MAX'' 2"

definition configuredPhaseRetryTotalMax :: "(string \<times> string) list \<Rightarrow> rat" where
  "configuredPhaseRetryTotalMax env = numericEnv env ''CPB_PHASE_RETRY_TOTAL_MAX'' 3"

definition stringValue :: "js \<Rightarrow> string" where
  "stringValue v = to_str (or_else v (JStr []))"

definition failure_kind :: "js \<Rightarrow> string" where
  \<comment> \<open>\<^verbatim>\<open>stringValue(result.failure?.kind)\<close>\<close>
  "failure_kind res = stringValue (fld (fld res ''failure'') ''kind'')"

section \<open>The variables of the loops\<close>

record 'w run =
  world :: 'w
  last_result :: js
  phaseRetryCount :: nat
  previousFingerprint :: "string option"
  previousStrategy :: "string option"
  phaseAgents :: "(string \<times> js) list"
  phaseAgentFallback :: "js option"

definition outside :: "('w \<Rightarrow> (thrown + 'a) \<times> 'w) \<Rightarrow> ('w run, 'a) act" where
  "outside f s = (case f (world s) of (r, w) \<Rightarrow> (r, s\<lparr>world := w\<rparr>))"

subsection \<open>The signal, the log and the callback\<close>

definition createAbortError :: "abort_reason \<Rightarrow> string \<Rightarrow> thrown" where
  "createAbortError reason message = (case reason of AbortInstance m \<Rightarrow> AbortError m
     | AbortValue v \<Rightarrow> AbortError (if truthy v then to_str v else message))"

definition throwIfAborted :: "'w ports \<Rightarrow> ('w run, unit) act" where
  "throwIfAborted P = bind (reads (\<lambda>s. aborted P (world s)))
     (\<lambda>a. case a of None \<Rightarrow> pass () | Some reason \<Rightarrow> raise (createAbortError reason ''Phase retry aborted''))"

definition defaultDelay :: "'w ports \<Rightarrow> jsnum \<Rightarrow> 'w \<Rightarrow> (thrown + unit) \<times> 'w" where
  "defaultDelay P ms w =
     (let backoff = (\<lambda>r. Inl (createAbortError r ''Phase retry backoff aborted''))
      in case aborted P w of Some reason \<Rightarrow> (backoff reason, w)
         | None \<Rightarrow> if num_le ms (Fin 0) then (Inr (), w)
             else let w' = sleep P ms w
                  in (case aborted P w' of Some reason \<Rightarrow> backoff reason | None \<Rightarrow> Inr (), w'))"

definition reportProgress :: "'w ports \<Rightarrow> (string \<times> js) list \<Rightarrow> ('w run, unit) act" where
  "reportProgress P event s = (case onProgress P of None \<Rightarrow> (Inr (), s)
     | Some f \<Rightarrow> (Inr (), s\<lparr>world := snd (f (JObj ((''ts'', JStr (clock P (world s))) # event)) (world s))\<rparr>))"

definition appendRuntimeEvent :: "'w ports \<Rightarrow> (string \<times> js) list \<Rightarrow> ('w run, unit) act" where
  \<comment> \<open>the event with \<^verbatim>\<open>ts: now()\<close> added at its end\<close>
  "appendRuntimeEvent P event s = (case appendEvent P of None \<Rightarrow> (Inr (), s)
     | Some f \<Rightarrow> outside (f (JObj (event @ [(''ts'', JStr (clock P (world s)))]))) s)"

section \<open>The input of a phase and the context of a retry\<close>

definition text_opt :: "js \<Rightarrow> string option" where
  \<comment> \<open>\<^verbatim>\<open>text\<close>: a trimmed string that is not blank\<close>
  "text_opt v = (case v of JStr s \<Rightarrow> if trim s \<noteq> [] then Some (trim s) else None | _ \<Rightarrow> None)"

definition agentName :: "js \<Rightarrow> string option" where
  "agentName v = (case v of JStr s \<Rightarrow> text_opt (JStr s)
     | _ \<Rightarrow> (case text_opt (fld v ''agent'') of Some a \<Rightarrow> Some a | None \<Rightarrow> text_opt (fld v ''name'')))"

definition normalizeAllowedAgentNames :: "js \<Rightarrow> string list option" where
  "normalizeAllowedAgentNames v =
     (if nullish v then None
      else case v of JArr xs \<Rightarrow> Some (uniq (List.map_filter agentName xs)) | _ \<Rightarrow> Some [])"

fun resolveAllowedAgentNames :: "js list \<Rightarrow> string list option" where
  "resolveAllowedAgentNames [] = None"
| "resolveAllowedAgentNames (context # contexts) =
     (let policy = fld context ''agentPolicy''
      in if ''allowedAgents'' \<in> fst ` set (own policy)
         then Some (case normalizeAllowedAgentNames (fld policy ''allowedAgents'') of None \<Rightarrow> [] | Some names \<Rightarrow> names)
         else resolveAllowedAgentNames contexts)"

definition phaseTimeouts :: "jsnum \<Rightarrow> js" where
  "phaseTimeouts t = JObj (map (\<lambda>phase. (phase, JNum t))
     [''plan'', ''execute'', ''verify'', ''adversarial_verify'', ''review'', ''remediate''])"

definition retry_conversation :: "retry_node \<Rightarrow> js \<Rightarrow> js" where
  "retry_conversation n retry =
     (if fld retry ''forceFreshSession'' = JBool True
      then JStr ((case or_null (rn_conversationKey n) of Some k \<Rightarrow> k
              | None \<Rightarrow> rn_project n @ '':'' @ rn_jobId n @ '':'' @ rn_role n)
            @ '':retry:'' @ to_str (or_else (fld retry ''attempt'') (jnat 1))
            @ '':'' @ to_str (or_else (fld retry ''retryStrategy'') (JStr ''fresh'')))
      else (case rn_conversationKey n of None \<Rightarrow> JUndef | Some k \<Rightarrow> JStr k))"

definition phaseInput :: "retry_ctx \<Rightarrow> retry_node \<Rightarrow> (string \<times> js) list \<Rightarrow> js \<Rightarrow> js" where
  \<comment> \<open>its data: without the pool's methods, the signal, the hooks and the callback\<close>
  "phaseInput ctx n agents sourceContext = JObj
     [(''phase'', JStr (rn_phase n)), (''role'', JStr (rn_role n)), (''nodeId'', JStr (rn_nodeId n)),
      (''dagNode'', rn_dagNode n), (''project'', JStr (rn_project n)), (''task'', JStr (rn_task n)),
      (''jobId'', JStr (rn_jobId n)), (''job'', rn_job n), (''workflow'', rn_workflow n), (''planMode'', rn_planMode n),
      (''cpbRoot'', JStr (rn_cpbRoot n)), (''dataRoot'', rn_dataRoot n),
      (''sourcePath'', or_else (rn_sourcePath n)
         (case map_of (rn_env n) ''CPB_PROJECT_PATH_OVERRIDE'' of None \<Rightarrow> JUndef | Some p \<Rightarrow> JStr p)),
      (''sourceContext'', sourceContext), (''pool'', rn_pool n), (''scope'', rn_scope n),
      (''env'', JObj (map (\<lambda>(k, v). (k, JStr v)) (rn_env n))), (''state'', rn_state n),
      (''previousResults'', JArr (rn_phaseResults n)), (''agent'', rx_agent ctx), (''agents'', JObj agents),
      (''attemptId'', rn_attemptId n), (''conversationKey'', retry_conversation n (fld sourceContext ''retry'')),
      (''timeouts'', phaseTimeouts (rn_phaseTimeout n))]"

definition qualityRepairInstruction :: "string \<Rightarrow> string \<Rightarrow> string \<Rightarrow> string" where
  "qualityRepairInstruction failureKind reason phase =
     (if failureKind = ''web_tool_denied''
      then ''Do not use web search, browsers, live GitHub, or network lookups. Continue from the local checkout and provided context only.''
      else if failureKind = ''read_only_mutation_denied'' then
        (if phase = ''verify'' \<or> phase = ''adversarial_verify''
         then join '' ''
           [''Discard the prior verifier verdict and every piece of evidence produced by the violating session.'',
            ''Retry in a fresh verifier session against a fresh disposable replay of the frozen candidate.'',
            ''Keep the candidate byte-for-byte unchanged: do not edit source files or tests and do not write build artifacts into the replay worktree.'',
            ''Use only non-mutating verification commands or an allowed out-of-tree temporary build.'',
            ''If executable evidence cannot be obtained without a prohibited write, report verification infrastructure unavailable; never infer a pass from the discarded evidence.'']
         else ''This phase is read-only. Do not edit files or run mutating terminal commands; produce the phase answer from existing evidence only.'')
      else if failureKind = ''broad_test_command_denied'' then
        (if phase = ''plan''
         then ''This is the plan phase: do not run tests, python -c probes, heredoc scripts, temporary diagnostics, or transformed verification commands. Plan from the local code index, file reads, static code inspection, task text, and explicitly listed verification targets only.''
         else if phase = ''execute''
         then ''This is the execute phase: do not run tests, python -c probes, ad hoc scripts, temporary diagnostics, or transformed verification commands. Continue with bounded file inspection, source/test edits, and the structured execution result; leave canonical and diagnostic command execution to verify.''
         else ''Use only the exact canonical or explicitly listed diagnostic command allowed for this phase. Do not broaden, wrap, pipe, tail, split, shorten, or invent test commands.'')
      else if failureKind = ''execute_no_edit_progress''
      then ''This is the execute phase: Stop re-reading and searching. Use the plan plus the files already inspected, make the planned source/test edit now, or report a concrete blocker in the structured execution result.''
      else if failureKind = ''whole_filesystem_search_denied''
      then ''Do not scan the whole filesystem. Restrict inspection to the project checkout, assigned worktree, and explicitly provided paths.''
      else if failureKind = ''tool_budget_exceeded''
      then ''Reduce tool use immediately. Use the current context, make the smallest necessary inspection, and return the required structured result.''
      else if failureKind = ''plan_bounded_handoff_timeout''
      then ''This is the plan phase: reuse the carry-forward static evidence from the timed-out attempt. Do not restart broad exploration; complete the Bounded Handoff now or report a concrete blocker.''
      else ''Correct the intercepted behavior and rerun the same phase without repeating this failure: '' @ reason)"

definition retryContextFromFailure ::
  "js \<Rightarrow> nat \<Rightarrow> string \<Rightarrow> failure_recovery \<Rightarrow> string \<Rightarrow> string option \<Rightarrow> (string \<times> js) list" where
  "retryContextFromFailure res attempt retryClass recovery phase instructionOverride =
     (let failure = fld res ''failure''; cause = fld failure ''cause'';
          kind = stringValue (fld failure ''kind''); reason = stringValue (fld failure ''reason'');
          carry = recordValue (fld cause ''handoffCarryForward'')
      in [(''failureKind'', JStr kind), (''failureReason'', JStr reason),
          (''failureClass'', JStr (failureClass recovery)),
          (''failureFingerprint'', JStr (failureFingerprint recovery)),
          (''failureEvidence'', fr_evidence recovery),
          (''retryStrategy'', opt_js (retryStrategy recovery)),
          (''strategyChanged'', JBool (strategyChanged recovery)),
          (''forceFreshSession'', JBool (forceFreshSession recovery)),
          (''previousOutput'', JStr (stringValue (or_else (fld failure ''stderrSnippet'') (fld cause ''rawOutput'')))),
          (''attempt'', jnat attempt), (''retryClass'', JStr retryClass),
          (''instruction'', JStr (case or_null instructionOverride of Some t \<Rightarrow> t
             | None \<Rightarrow> if retryClass = ''quality_interception'' \<or> retryClass = ''bounded_handoff_timeout''
                then qualityRepairInstruction kind reason phase
                else recoveryInstruction (retryStrategy recovery)))]
         @ (if own carry \<noteq> [] then [(''handoffCarryForward'', carry)] else []))"

section \<open>The fallback agent\<close>

definition defaultExecuteFallbackAgent :: "agent_registry \<Rightarrow> string" where
  "defaultExecuteFallbackAgent reg = (case defaultAgentForRole reg ''executor'' of Inr a \<Rightarrow> a | Inl _ \<Rightarrow> ''codex'')"

definition configuredExecuteHardConstraintFallbackAgent :: "agent_registry \<Rightarrow> (string \<times> string) list \<Rightarrow> string" where
  "configuredExecuteHardConstraintFallbackAgent reg env =
     (case map_of env ''CPB_EXECUTE_HARD_CONSTRAINT_FALLBACK_AGENT'' of
        None \<Rightarrow> defaultExecuteFallbackAgent reg
      | Some raw \<Rightarrow> if trim raw = [] \<or> toLowerCase (trim raw) \<in> set [''0'', ''false'', ''off'', ''none'', ''null'']
          then [] else trim raw)"

definition providerAgentName :: "js \<Rightarrow> string" where
  "providerAgentName raw = (case raw of JStr s \<Rightarrow> s
     | _ \<Rightarrow> stringValue (or_else (fld raw ''agent'') (fld raw ''name'')))"

definition selectedAgentForPhase :: "retry_ctx \<Rightarrow> retry_node \<Rightarrow> (string \<times> js) list \<Rightarrow> string" where
  "selectedAgentForPhase ctx n agents =
     (case providerAgentName (obj_get agents (rn_role n)) of [] \<Rightarrow> stringValue (rx_agent ctx) | c # r \<Rightarrow> c # r)"

definition shouldFallbackExecuteHardConstraint ::
  "retry_ctx \<Rightarrow> retry_node \<Rightarrow> (string \<times> js) list \<Rightarrow> js \<Rightarrow> string \<Rightarrow> bool" where
  "shouldFallbackExecuteHardConstraint ctx n agents res fallbackAgent =
     (rn_phase n = ''execute'' \<and> fallbackAgent \<noteq> []
      \<and> failure_kind res \<in> set HARD_CONSTRAINT_DENIED_KINDS
      \<and> selectedAgentForPhase ctx n agents \<noteq> fallbackAgent)"

definition agentFallbackRetryContext :: "js \<Rightarrow> string \<Rightarrow> failure_recovery \<Rightarrow> (string \<times> js) list" where
  "agentFallbackRetryContext res fallbackAgent recovery =
     (let kind = failure_kind res; reason = stringValue (fld (fld res ''failure'') ''reason'');
          retry = retryContextFromFailure res 1 ''agent_fallback'' recovery ''execute''
            (Some (qualityRepairInstruction kind reason ''execute''))
      in spread retry [(''instruction'', JStr (''Switch the execute actor to '' @ fallbackAgent
           @ '' and satisfy the execution contract without repeating the intercepted behavior. ''
           @ to_str (obj_get retry ''instruction'')))])"

section \<open>One rerun\<close>

definition event_head :: "string \<Rightarrow> retry_node \<Rightarrow> (string \<times> js) list" where
  "event_head type n = [(''type'', JStr type), (''jobId'', JStr (rn_jobId n)), (''project'', JStr (rn_project n)),
     (''phase'', JStr (rn_phase n))]"

definition recoveryFields :: "failure_recovery \<Rightarrow> (string \<times> js) list" where
  "recoveryFields r = [(''failureClass'', JStr (failureClass r)), (''failureFingerprint'', JStr (failureFingerprint r)),
     (''retryStrategy'', opt_js (retryStrategy r)), (''strategyChanged'', JBool (strategyChanged r)),
     (''forceFreshSession'', JBool (forceFreshSession r)), (''failureEvidence'', fr_evidence r)]"

definition budget_event :: "retry_node \<Rightarrow> rat \<Rightarrow> nat \<Rightarrow> nat \<Rightarrow> string \<Rightarrow> (string \<times> js) list" where
  "budget_event n budget count attempt retryClass = event_head ''retry_decision'' n @
     [(''role'', JStr (rn_role n)), (''action'', JStr ''stop_retry_budget_exhausted''), (''retryClass'', JStr retryClass),
      (''attempt'', jnat attempt), (''retryCount'', jnat count), (''maxRetries'', JNum (Fin budget)),
      (''reason'', JStr (''phase retry budget exhausted ('' @ show_nat count @ ''/'' @ show_num (Fin budget) @ '')''))]"

definition repeated_event :: "retry_node \<Rightarrow> js \<Rightarrow> nat \<Rightarrow> string \<Rightarrow> failure_recovery \<Rightarrow> (string \<times> js) list" where
  "repeated_event n res attempt retryClass r = event_head ''retry_decision'' n @
     [(''role'', JStr (rn_role n)), (''action'', JStr ''stop_repeated_failure''), (''retryClass'', JStr retryClass),
      (''attempt'', jnat attempt), (''failureKind'', or_else (fld (fld res ''failure'') ''kind'') JNull),
      (''failureClass'', JStr (failureClass r)), (''failureFingerprint'', JStr (failureFingerprint r)),
      (''retryStrategy'', opt_js (retryStrategy r)), (''strategyChanged'', JBool (strategyChanged r)),
      (''failureEvidence'', fr_evidence r),
      (''reason'', JStr (case or_null (stopReason r) of Some t \<Rightarrow> t | None \<Rightarrow> ''retry strategy did not change''))]"

definition prepareRecovery ::
  "'w ports \<Rightarrow> retry_node \<Rightarrow> rat \<Rightarrow> nat \<Rightarrow> string \<Rightarrow> string option \<Rightarrow> string option
    \<Rightarrow> ('w run, (failure_recovery \<times> (string \<times> js) list) option) act" where
  "prepareRecovery P n budget attempt retryClass preferred instructionOverride s =
     (let res = last_result s; count = phaseRetryCount s in
      if of_nat count \<ge> budget
      then bind (appendRuntimeEvent P (budget_event n budget count attempt retryClass)) (\<lambda>_. pass None) s
      else let r = selectFailureRecovery (sha256 P) (fld res ''failure'') (previousFingerprint s) (previousStrategy s)
                     preferred PhaseScope
        in if or_null (retryStrategy r) = None \<or> \<not> strategyChanged r
           then bind (appendRuntimeEvent P (repeated_event n res attempt retryClass r)) (\<lambda>_. pass None) s
           else (Inr (Some (r, retryContextFromFailure res attempt retryClass r (rn_phase n) instructionOverride)),
                 s\<lparr>previousFingerprint := Some (failureFingerprint r), previousStrategy := retryStrategy r\<rparr>))"

definition announce :: "'w ports \<Rightarrow> (string \<times> js) list \<Rightarrow> ('w run, unit) act" where
  \<comment> \<open>the event in the log, then to the progress callback\<close>
  "announce P event = bind (appendRuntimeEvent P event) (\<lambda>_. reportProgress P event)"

definition rerun ::
  "'w ports \<Rightarrow> (js \<Rightarrow> 'w \<Rightarrow> (thrown + js) \<times> 'w) \<Rightarrow> retry_ctx \<Rightarrow> retry_node \<Rightarrow> (string \<times> js) list \<Rightarrow> ('w run, unit) act" where
  "rerun P runPhase ctx n retry =
     bind (change (\<lambda>s. s\<lparr>phaseRetryCount := Suc (phaseRetryCount s)\<rparr>)) (\<lambda>_.
     bind (throwIfAborted P) (\<lambda>_.
     bind (reads phaseAgents) (\<lambda>agents.
     bind (outside (runPhase (phaseInput ctx n agents
              (JObj (obj_set ''retry'' (JObj retry) (own (rn_sourceContext n))))))) (\<lambda>res.
     change (\<lambda>s. s\<lparr>last_result := res\<rparr>)))))"

section \<open>The agent fallback\<close>

definition blocked_event :: "retry_node \<Rightarrow> string \<Rightarrow> string \<Rightarrow> string list \<Rightarrow> (string \<times> js) list" where
  "blocked_event n fromAgent fallbackAgent allowed = event_head ''phase_agent_fallback_blocked'' n @
     [(''role'', JStr (rn_role n)), (''fromAgent'', JStr fromAgent), (''blockedAgent'', JStr fallbackAgent),
      (''allowedAgents'', jstrs allowed),
      (''reason'', JStr (''fallback agent '' @ fallbackAgent @ '' is outside allowed agent policy''))]"

definition fallback_event ::
  "retry_node \<Rightarrow> string \<Rightarrow> string \<Rightarrow> (string \<times> js) list \<Rightarrow> failure_recovery \<Rightarrow> (string \<times> js) list" where
  "fallback_event n fromAgent fallbackAgent retry r = event_head ''phase_agent_fallback'' n @
     [(''role'', JStr (rn_role n)), (''fromAgent'', JStr fromAgent), (''toAgent'', JStr fallbackAgent),
      (''failureKind'', obj_get retry ''failureKind''), (''reason'', obj_get retry ''failureReason''),
      (''instruction'', obj_get retry ''instruction'')] @ recoveryFields r"

definition from_agent :: "retry_ctx \<Rightarrow> retry_node \<Rightarrow> (string \<times> js) list \<Rightarrow> string" where
  "from_agent ctx n agents = (case selectedAgentForPhase ctx n agents of [] \<Rightarrow> ''unknown'' | c # r \<Rightarrow> c # r)"

definition take_fallback ::
  "'w ports \<Rightarrow> (js \<Rightarrow> 'w \<Rightarrow> (thrown + js) \<times> 'w) \<Rightarrow> retry_ctx \<Rightarrow> retry_node \<Rightarrow> rat \<Rightarrow> string \<Rightarrow> ('w run, bool) act" where
  \<comment> \<open>False when the loops return at once\<close>
  "take_fallback P runPhase ctx n budget fallbackAgent =
     bind (reads (\<lambda>s. from_agent ctx n (phaseAgents s))) (\<lambda>fromAgent.
     bind (prepareRecovery P n budget 1 ''agent_fallback'' (Some ''agent_handoff'') None) (\<lambda>prepared.
     case prepared of
       None \<Rightarrow> pass False
     | Some (r, _) \<Rightarrow>
         bind (reads (\<lambda>s. agentFallbackRetryContext (last_result s) fallbackAgent r)) (\<lambda>retry.
         bind (change (\<lambda>s. s\<lparr>phaseAgentFallback := Some (JObj [(''applied'', JBool True), (''count'', jnat 1),
                  (''fromAgent'', JStr fromAgent), (''toAgent'', JStr fallbackAgent),
                  (''failureKind'', obj_get retry ''failureKind''), (''reason'', obj_get retry ''failureReason'')]),
                phaseAgents := obj_set (rn_role n) (JStr fallbackAgent) (phaseAgents s)\<rparr>)) (\<lambda>_.
         bind (announce P (fallback_event n fromAgent fallbackAgent retry r)) (\<lambda>_.
         bind (rerun P runPhase ctx n retry) (\<lambda>_. pass True))))))"

definition fallback_stage ::
  "'w ports \<Rightarrow> (js \<Rightarrow> 'w \<Rightarrow> (thrown + js) \<times> 'w) \<Rightarrow> retry_ctx \<Rightarrow> retry_node \<Rightarrow> rat \<Rightarrow> string list option \<Rightarrow> bool
    \<Rightarrow> ('w run, bool) act" where
  "fallback_stage P runPhase ctx n budget allowedAgents quotaDelegateFailure =
     (let fallbackAgent = configuredExecuteHardConstraintFallbackAgent (agents_known P) (rn_env n)
      in bind (reads (\<lambda>s. \<not> quotaDelegateFailure \<and> \<not> isPhasePassed (last_result s)
             \<and> shouldFallbackExecuteHardConstraint ctx n (phaseAgents s) (last_result s) fallbackAgent)) (\<lambda>shouldFallback.
         if \<not> shouldFallback then pass True
         else case allowedAgents of
             None \<Rightarrow> take_fallback P runPhase ctx n budget fallbackAgent
           | Some allowed \<Rightarrow>
               if fallbackAgent \<in> set allowed then take_fallback P runPhase ctx n budget fallbackAgent
               else bind (reads (\<lambda>s. from_agent ctx n (phaseAgents s))) (\<lambda>fromAgent.
                    bind (announce P (blocked_event n fromAgent fallbackAgent allowed)) (\<lambda>_. pass True))))"

section \<open>The three loops\<close>

definition loop_count :: "rat \<Rightarrow> nat" where
  \<comment> \<open>how often \<^verbatim>\<open>for (i = 1; i <= max; i += 1)\<close> goes round at most\<close>
  "loop_count m = nat \<lfloor>m\<rfloor>"

definition retry_event ::
  "string \<Rightarrow> retry_node \<Rightarrow> nat \<Rightarrow> rat \<Rightarrow> (string \<times> js) list \<Rightarrow> failure_recovery \<Rightarrow> (string \<times> js) list" where
  "retry_event type n attempt maxAttempts details r = event_head type n @
     [(''attempt'', jnat attempt), (''maxAttempts'', JNum (Fin maxAttempts))] @ details @ recoveryFields r"

definition quality_strategy :: "string \<Rightarrow> string \<Rightarrow> string" where
  "quality_strategy failureKind phase =
     (if failureKind = ''broad_test_command_denied'' then ''correct_test_selection''
      else if failureKind = ''read_only_mutation_denied'' \<and> (phase = ''verify'' \<or> phase = ''adversarial_verify'')
      then ''fresh_session_permission_repair''
      else if failureKind = ''execute_no_edit_progress'' \<or> failureKind = ''tool_budget_exceeded''
      then ''fresh_session_alternate_approach''
      else ''correct_permission_strategy'')"

fun quality_loop ::
  "'w ports \<Rightarrow> (js \<Rightarrow> 'w \<Rightarrow> (thrown + js) \<times> 'w) \<Rightarrow> retry_ctx \<Rightarrow> retry_node \<Rightarrow> rat \<Rightarrow> rat \<Rightarrow> nat \<Rightarrow> nat
    \<Rightarrow> ('w run, unit) act" where
  \<comment> \<open>\<open>k\<close> rounds are left, the next one is \<open>attempt\<close>\<close>
  "quality_loop P runPhase ctx n budget maxAttempts 0 attempt = pass ()"
| "quality_loop P runPhase ctx n budget maxAttempts (Suc k) attempt =
     bind (reads (\<lambda>s. failure_kind (last_result s))) (\<lambda>kind.
     if kind \<notin> set HARD_CONSTRAINT_DENIED_KINDS then pass ()
     else bind (prepareRecovery P n budget attempt ''quality_interception'' (Some (quality_strategy kind (rn_phase n))) None)
       (\<lambda>prepared. case prepared of
          None \<Rightarrow> pass ()
        | Some (r, retry) \<Rightarrow>
            bind (announce P (retry_event ''phase_quality_retry'' n attempt maxAttempts
              [(''failureKind'', obj_get retry ''failureKind''), (''reason'', obj_get retry ''failureReason''),
               (''instruction'', obj_get retry ''instruction'')] r)) (\<lambda>_.
            bind (rerun P runPhase ctx n retry) (\<lambda>_.
            bind (reads (\<lambda>s. isPhasePassed (last_result s))) (\<lambda>passed.
            if passed then pass () else quality_loop P runPhase ctx n budget maxAttempts k (Suc attempt))))))"

fun retry_loop ::
  "'w ports \<Rightarrow> (js \<Rightarrow> 'w \<Rightarrow> (thrown + js) \<times> 'w) \<Rightarrow> (jsnum \<Rightarrow> 'w \<Rightarrow> (thrown + unit) \<times> 'w) \<Rightarrow> retry_ctx \<Rightarrow> retry_node
    \<Rightarrow> rat \<Rightarrow> rat \<Rightarrow> rat \<Rightarrow> string list \<Rightarrow> nat \<Rightarrow> nat \<Rightarrow> ('w run, unit) act" where
  "retry_loop P runPhase delay ctx n budget maxAttempts baseDelay kinds 0 attempt = pass ()"
| "retry_loop P runPhase delay ctx n budget maxAttempts baseDelay kinds (Suc k) attempt =
     bind (reads last_result) (\<lambda>res.
     let failure = fld res ''failure''; kind = failure_kind res;
         isRetryable = (truthy (fld failure ''retryable'') \<or> kind \<in> set kinds);
         retryClass = (if kind = ''plan_bounded_handoff_timeout'' then ''bounded_handoff_timeout'' else ''transient_failure'')
     in if isPhasePassed res \<or> \<not> isRetryable \<or> kind \<in> set HARD_CONSTRAINT_DENIED_KINDS \<or> kind \<in> set CROSS_PHASE_REPAIR_KINDS
        then pass ()
        else bind (prepareRecovery P n budget attempt retryClass None None) (\<lambda>prepared. case prepared of
          None \<Rightarrow> pass ()
        | Some (r, retry) \<Rightarrow>
            bind (announce P (retry_event ''phase_retry'' n attempt maxAttempts
              [(''failureKind'', fld failure ''kind''), (''reason'', fld failure ''reason''),
               (''carryForward'', JBool (truthy (obj_get retry ''handoffCarryForward'')))] r)) (\<lambda>_.
            bind (outside (delay (Fin (baseDelay * of_nat attempt)))) (\<lambda>_.
            bind (rerun P runPhase ctx n retry) (\<lambda>_.
            retry_loop P runPhase delay ctx n budget maxAttempts baseDelay kinds k (Suc attempt))))))"

fun feedback_loop ::
  "'w ports \<Rightarrow> (js \<Rightarrow> 'w \<Rightarrow> (thrown + js) \<times> 'w) \<Rightarrow> retry_ctx \<Rightarrow> retry_node \<Rightarrow> rat \<Rightarrow> rat \<Rightarrow> nat \<Rightarrow> nat
    \<Rightarrow> ('w run, unit) act" where
  "feedback_loop P runPhase ctx n budget maxAttempts 0 attempt = pass ()"
| "feedback_loop P runPhase ctx n budget maxAttempts (Suc k) attempt =
     bind (reads last_result) (\<lambda>res.
     let verdictInvalid = (failure_kind res = ''verdict_invalid'')
     in bind (prepareRecovery P n budget attempt ''contract_feedback''
          (Some (if verdictInvalid then ''rebuild_evidence'' else ''contract_repair''))
          (if verdictInvalid
           then Some (''Correct the verifier verdict contract using this validation error, keep the candidate unchanged, and reference only frozen checklist ids: ''
             @ stringValue (fld (fld res ''failure'') ''reason''))
           else None)) (\<lambda>prepared. case prepared of
          None \<Rightarrow> pass ()
        | Some (r, retry) \<Rightarrow>
            bind (announce P (retry_event ''phase_feedback_retry'' n attempt maxAttempts
              [(''failureKind'', obj_get retry ''failureKind''), (''reason'', obj_get retry ''failureReason'')] r)) (\<lambda>_.
            bind (rerun P runPhase ctx n retry) (\<lambda>_.
            bind (reads (\<lambda>s. isPhasePassed (last_result s))) (\<lambda>passed.
            if passed then pass () else feedback_loop P runPhase ctx n budget maxAttempts k (Suc attempt))))))"

section \<open>The whole\<close>

definition with_diagnostics :: "nat \<Rightarrow> js option \<Rightarrow> js \<Rightarrow> js" where
  "with_diagnostics count fallback res =
     (if count = 0 then res
      else JObj (obj_set ''diagnostics'' (JObj (spread (own (fld res ''diagnostics''))
        ((''phaseRetryCount'', jnat count) # (case fallback of None \<Rightarrow> [] | Some f \<Rightarrow> [(''phaseAgentFallback'', f)]))))
        (own res)))"

definition retry_total :: "'w retry_deps \<Rightarrow> retry_node \<Rightarrow> rat" where
  "retry_total deps n = max 0 (case rd_retryTotalMax deps of None \<Rightarrow> configuredPhaseRetryTotalMax (rn_env n) | Some m \<Rightarrow> m)"

definition or_default :: "'a option \<Rightarrow> 'a \<Rightarrow> 'a" where
  "or_default given d = (case given of None \<Rightarrow> d | Some v \<Rightarrow> v)"

definition unless_passed :: "('w run \<Rightarrow> bool) \<Rightarrow> ('w run, unit) act \<Rightarrow> ('w run, unit) act" where
  \<comment> \<open>\<^verbatim>\<open>if (condition && !isPhasePassed(result)) { ... }\<close>\<close>
  "unless_passed c m = bind (reads (\<lambda>s. c s \<and> \<not> isPhasePassed (last_result s))) (\<lambda>go. if go then m else pass ())"

definition retry_stages ::
  "'w ports \<Rightarrow> (js \<Rightarrow> 'w \<Rightarrow> (thrown + js) \<times> 'w) \<Rightarrow> retry_ctx \<Rightarrow> retry_node \<Rightarrow> 'w retry_deps \<Rightarrow> ('w run, unit) act" where
  \<comment> \<open>the stages after the agent fallback\<close>
  "retry_stages P runPhase ctx n deps =
     (let env = rn_env n; budget = retry_total deps n;
          quota = startsWith (stringValue (fld (fld (fld (rn_result n) ''failure'') ''cause'') ''code'')) ''QUOTA_DELEGATE_'';
          qmax = or_default (rd_qualityRepairMax deps) (configuredPhaseQualityRepairMax env);
          rmax = or_default (rd_retryMax deps) (configuredPhaseRetryMax env);
          fmax = or_default (rd_feedbackRetryMax deps) (configuredPhaseFeedbackRetryMax env)
      in bind (unless_passed (\<lambda>_. \<not> quota) (quality_loop P runPhase ctx n budget qmax (loop_count qmax) 1)) (\<lambda>_.
         bind (unless_passed (\<lambda>_. \<not> quota)
           (retry_loop P runPhase (or_default (rd_delay deps) (defaultDelay P)) ctx n budget rmax
              (or_default (rd_baseDelayMs deps) (configuredRetryBaseDelayMs env))
              (or_default (rd_retryableKinds deps) DEFAULT_PHASE_RETRYABLE_KINDS) (loop_count rmax) 1)) (\<lambda>_.
         unless_passed (\<lambda>s. failure_kind (last_result s)
             \<in> set (or_default (rd_feedbackKinds deps) DEFAULT_PHASE_FEEDBACK_RETRY_KINDS))
           (feedback_loop P runPhase ctx n budget fmax (loop_count fmax) 1))))"

definition retry_body ::
  "'w ports \<Rightarrow> (js \<Rightarrow> 'w \<Rightarrow> (thrown + js) \<times> 'w) \<Rightarrow> retry_ctx \<Rightarrow> retry_node \<Rightarrow> 'w retry_deps \<Rightarrow> ('w run, js) act" where
  "retry_body P runPhase ctx n deps =
     (let quota = startsWith (stringValue (fld (fld (fld (rn_result n) ''failure'') ''cause'') ''code'')) ''QUOTA_DELEGATE_''
      in bind (fallback_stage P runPhase ctx n (retry_total deps n)
           (resolveAllowedAgentNames [recordValue (rn_sourceContext n)]) quota) (\<lambda>go.
         if \<not> go then reads last_result
         else bind (retry_stages P runPhase ctx n deps) (\<lambda>_.
              reads (\<lambda>s. with_diagnostics (phaseRetryCount s) (phaseAgentFallback s) (last_result s)))))"

definition first_run :: "retry_node \<Rightarrow> 'w \<Rightarrow> 'w run" where
  "first_run n w = (let priorRetry = fld (rn_sourceContext n) ''retry''
     in \<lparr>world = w, last_result = rn_result n, phaseRetryCount = 0,
         previousFingerprint = str_opt (fld priorRetry ''failureFingerprint''),
         previousStrategy = str_opt (fld priorRetry ''retryStrategy''),
         phaseAgents = rn_phaseAgents n, phaseAgentFallback = None\<rparr>)"

definition runPhaseRetryLoops ::
  "'w ports \<Rightarrow> retry_ctx \<Rightarrow> retry_node \<Rightarrow> 'w retry_deps \<Rightarrow> 'w \<Rightarrow> (thrown + js) \<times> 'w run" where
  "runPhaseRetryLoops P ctx n deps w =
     bind (throwIfAborted P) (\<lambda>_. case rd_runPhase deps of
         None \<Rightarrow> raise (Raised (ErrorMsg ''runPhase dependency is required for phase retry loops''))
       | Some runPhase \<Rightarrow> retry_body P runPhase ctx n deps) (first_run n w)"

definition applyPhaseRetryLoops ::
  "'w ports \<Rightarrow> retry_ctx \<Rightarrow> retry_node \<Rightarrow> (js \<Rightarrow> 'w \<Rightarrow> (thrown + js) \<times> 'w) \<Rightarrow> 'w \<Rightarrow> (thrown + js) \<times> 'w run" where
  \<comment> \<open>\<^verbatim>\<open>core/engine/run-job-execute-dag.ts\<close>\<close>
  "applyPhaseRetryLoops P ctx n runPhase w =
     (if fld (fld (rn_result n) ''failure'') ''kind'' = JStr ''runtime_interrupted''
      then (Inr (rn_result n), first_run n w)
      else runPhaseRetryLoops P ctx n
        \<lparr>rd_retryMax = None, rd_feedbackRetryMax = None, rd_qualityRepairMax = None, rd_retryTotalMax = None,
         rd_retryableKinds = None, rd_feedbackKinds = None, rd_baseDelayMs = None, rd_delay = None,
         rd_runPhase = Some runPhase\<rparr> w)"

end
