(* ===== verification/PhaseRetryLemmas.thy ===== *)
theory PhaseRetryLemmas
  imports PhaseRetry
begin

text \<open>
  Reasoning about the retry loops. The locale \<open>rerun_stages\<close> is the interface
  between the loops and the invariants that they keep: what the preparation of a rerun establishes, what
  the log, the callback and the pause leave alone, and what a rerun restores. Its lemmas carry the
  invariant through every loop and the whole function.
\<close>

section \<open>The stages\<close>

text \<open>What a rerun is told about its recovery.\<close>

definition tells :: "failure_recovery \<Rightarrow> (string \<times> js) list \<Rightarrow> bool" where
  "tells r retry \<longleftrightarrow> obj_get retry ''failureClass'' = JStr (failureClass r)
     \<and> obj_get retry ''failureFingerprint'' = JStr (failureFingerprint r)
     \<and> obj_get retry ''retryStrategy'' = opt_js (retryStrategy r)
     \<and> obj_get retry ''strategyChanged'' = JBool (strategyChanged r)"

lemma tells_context: "tells r (retryContextFromFailure res attempt retryClass r phase override)"
  by (simp add: tells_def retryContextFromFailure_def Let_def obj_get_def)

lemma tells_fallback: "tells r (agentFallbackRetryContext res agent r)"
  using tells_context [of r res 1 "''agent_fallback''" "''execute''"]
  by (simp add: tells_def agentFallbackRetryContext_def Let_def obj_get_spread_notin)

text \<open>The fallback agent, and whether the policy allows it.\<close>

definition fallback_agent :: "'w ports \<Rightarrow> retry_node \<Rightarrow> string" where
  "fallback_agent P n = configuredExecuteHardConstraintFallbackAgent (agents_known P) (rn_env n)"

definition fallback_allowed :: "'w ports \<Rightarrow> retry_node \<Rightarrow> bool" where
  "fallback_allowed P n = (case resolveAllowedAgentNames [recordValue (rn_sourceContext n)] of
     None \<Rightarrow> True | Some allowed \<Rightarrow> fallback_agent P n \<in> set allowed)"

definition take_agent :: "'w ports \<Rightarrow> retry_node \<Rightarrow> js \<Rightarrow> 'w run \<Rightarrow> 'w run" where
  "take_agent P n f s = s\<lparr>phaseAgentFallback := Some f,
     phaseAgents := obj_set (rn_role n) (JStr (fallback_agent P n)) (phaseAgents s)\<rparr>"

locale rerun_stages =
  fixes P :: "'w ports" and runPhase :: "js \<Rightarrow> 'w \<Rightarrow> (thrown + js) \<times> 'w"
    and delay :: "jsnum \<Rightarrow> 'w \<Rightarrow> (thrown + unit) \<times> 'w" and ctx :: retry_ctx and n :: retry_node and budget :: rat
    and J :: "'w run \<Rightarrow> bool" and K :: "failure_recovery \<Rightarrow> 'w run \<Rightarrow> bool" and E :: "'w run \<Rightarrow> bool"
  assumes prepares: "triple (\<lambda>s. J s \<and> \<not> isPhasePassed (last_result s))
        (prepareRecovery P n budget attempt retryClass preferred override)
        (\<lambda>prepared s. case prepared of None \<Rightarrow> J s | Some (r, retry) \<Rightarrow> K r s \<and> tells r retry) E"
    and announces_J: "triple J (announce P event) (\<lambda>_. J) E"
    and announces_K: "triple (K r) (announce P event) (\<lambda>_. K r) E"
    and delays: "triple (K r) (outside (delay ms)) (\<lambda>_. K r) E"
    and reruns: "tells r retry \<Longrightarrow> triple (K r) (rerun P runPhase ctx n retry) (\<lambda>_. J) E"
    and handover: "K r s \<Longrightarrow> rn_phase n = ''execute'' \<Longrightarrow> fallback_allowed P n \<Longrightarrow> K r (take_agent P n f s)"

begin

lemma continues:
  assumes "\<And>r retry. tells r retry \<Longrightarrow> triple (K r) (g r retry) Q E" "\<And>s. J s \<Longrightarrow> Q v s"
  shows "triple (\<lambda>s. J s \<and> \<not> isPhasePassed (last_result s))
    (bind (prepareRecovery P n budget attempt retryClass preferred override)
       (\<lambda>prepared. case prepared of None \<Rightarrow> pass v | Some (r, retry) \<Rightarrow> g r retry)) Q E"
proof (rule triple_bind [OF prepares], goal_cases)
  case (1 prepared)
  show ?case
  proof (cases prepared)
    case None
    with assms(2) show ?thesis by (simp add: triple_pass)
  next
    case (Some rr)
    obtain r retry where "rr = (r, retry)" by (cases rr)
    with Some assms(1) [of r retry] show ?thesis by (auto simp: triple_def)
  qed
qed

lemma quality_keeps:
  "triple (\<lambda>s. J s \<and> \<not> isPhasePassed (last_result s)) (quality_loop P runPhase ctx n budget m k attempt) (\<lambda>_. J) E"
proof (induction k arbitrary: attempt)
  case 0
  show ?case unfolding quality_loop.simps by (rule triple_pass) simp
next
  case (Suc k)
  have rest: "triple (K r) (bind (announce P ev) (\<lambda>_. bind (rerun P runPhase ctx n retry) (\<lambda>_.
      bind (reads (\<lambda>s. isPhasePassed (last_result s))) (\<lambda>passed.
      if passed then pass () else quality_loop P runPhase ctx n budget m k (Suc attempt))))) (\<lambda>_. J) E"
    if "tells r retry" for r retry ev
    by (rule triple_bind [OF announces_K triple_bind [OF reruns [OF that]]])
      (auto intro!: triple_bind_reads triple_if triple_pass triple_pre [OF Suc.IH])
  show ?case
    unfolding quality_loop.simps
    by (rule triple_bind_reads, rule triple_if, rule triple_pass, simp)
      (rule triple_pre [OF continues], rule rest, simp_all)
qed

lemma retry_keeps:
  "triple J (retry_loop P runPhase delay ctx n budget m d kinds k attempt) (\<lambda>_. J) E"
proof (induction k arbitrary: attempt)
  case 0
  show ?case unfolding retry_loop.simps by (rule triple_pass) simp
next
  case (Suc k)
  have rest: "triple (K r) (bind (announce P ev) (\<lambda>_. bind (outside (delay ms)) (\<lambda>_.
      bind (rerun P runPhase ctx n retry) (\<lambda>_. retry_loop P runPhase delay ctx n budget m d kinds k (Suc attempt))))) (\<lambda>_. J) E"
    if "tells r retry" for r retry ev ms
    by (rule triple_bind [OF announces_K triple_bind [OF delays triple_bind [OF reruns [OF that] Suc.IH]]])
  show ?case
    unfolding retry_loop.simps Let_def
    by (rule triple_bind_reads, rule triple_if, rule triple_pass, simp)
      (rule triple_pre [OF continues], rule rest, simp_all)
qed

lemma feedback_keeps:
  "triple (\<lambda>s. J s \<and> \<not> isPhasePassed (last_result s)) (feedback_loop P runPhase ctx n budget m k attempt) (\<lambda>_. J) E"
proof (induction k arbitrary: attempt)
  case 0
  show ?case unfolding feedback_loop.simps by (rule triple_pass) simp
next
  case (Suc k)
  have rest: "triple (K r) (bind (announce P ev) (\<lambda>_. bind (rerun P runPhase ctx n retry) (\<lambda>_.
      bind (reads (\<lambda>s. isPhasePassed (last_result s))) (\<lambda>passed.
      if passed then pass () else feedback_loop P runPhase ctx n budget m k (Suc attempt))))) (\<lambda>_. J) E"
    if "tells r retry" for r retry ev
    by (rule triple_bind [OF announces_K triple_bind [OF reruns [OF that]]])
      (auto intro!: triple_bind_reads triple_if triple_pass triple_pre [OF Suc.IH])
  show ?case
    unfolding feedback_loop.simps Let_def
    by (rule triple_bind_reads) (rule triple_pre [OF continues], rule rest, simp_all)
qed

lemma take_fallback_keeps:
  assumes "rn_phase n = ''execute''" "fallback_allowed P n"
  shows "triple (\<lambda>s. J s \<and> \<not> isPhasePassed (last_result s))
    (take_fallback P runPhase ctx n budget (fallback_agent P n)) (\<lambda>_. J) E"
proof -
  have told: "triple (\<lambda>s. K r s \<and> agentFallbackRetryContext (last_result s) (fallback_agent P n) r = retry)
      (bind (change (\<lambda>s. s\<lparr>phaseAgentFallback := Some (f retry),
          phaseAgents := obj_set (rn_role n) (JStr (fallback_agent P n)) (phaseAgents s)\<rparr>)) (\<lambda>_.
      bind (announce P (ev retry)) (\<lambda>_. bind (rerun P runPhase ctx n retry) (\<lambda>_. pass True)))) (\<lambda>_. J) E" for r retry f ev
  proof (rule triple_pure [where c = "tells r retry"], goal_cases)
    case (1 s)
    with tells_fallback show ?case by auto
  next
    case 2
    show ?case
    proof (rule triple_bind [OF triple_change triple_bind [OF announces_K triple_bind [OF reruns [OF 2] triple_pass]]], goal_cases)
      case (1 s)
      with handover [OF _ assms, of r s "f retry"] show ?case unfolding take_agent_def by simp
    qed simp
  qed
  show ?thesis
    unfolding take_fallback_def
    by (rule triple_bind_reads, rule triple_pre [OF continues], rule triple_bind_reads, rule told) simp_all
qed

lemma unless_passed_keeps:
  assumes "triple (\<lambda>s. J s \<and> \<not> isPhasePassed (last_result s)) m (\<lambda>_. J) E"
  shows "triple J (unless_passed c m) (\<lambda>_. J) E"
  unfolding unless_passed_def
  by (rule triple_bind_reads, rule triple_if) (rule triple_pre [OF assms] triple_pass; simp)+

lemma fallback_stage_keeps:
  "triple J (fallback_stage P runPhase ctx n budget (resolveAllowedAgentNames [recordValue (rn_sourceContext n)]) quota) (\<lambda>_. J) E"
proof -
  have take: "triple (\<lambda>s. J s \<and> (\<not> quota \<and> \<not> isPhasePassed (last_result s)
        \<and> shouldFallbackExecuteHardConstraint ctx n (phaseAgents s) (last_result s) (fallback_agent P n)) = x)
      (take_fallback P runPhase ctx n budget (fallback_agent P n)) (\<lambda>_. J) E"
    if "x" "fallback_allowed P n" for x
  proof (rule triple_pure [where c = "rn_phase n = ''execute''"], goal_cases)
    case (1 s)
    with that show ?case by (auto simp: shouldFallbackExecuteHardConstraint_def)
  next
    case 2
    show ?case by (rule triple_pre [OF take_fallback_keeps [OF 2 that(2)]]) (use that in auto)
  qed
  have blocked: "triple J (bind (reads h) (\<lambda>a. bind (announce P (g a)) (\<lambda>_. pass b))) (\<lambda>_. J) E" for h g b
    by (rule triple_bind_reads, rule triple_pre, rule triple_bind [OF announces_J triple_pass]) simp_all
  show ?thesis
    unfolding fallback_stage_def Let_def fallback_agent_def [symmetric]
  proof (rule triple_bind_reads, goal_cases)
    case (1 x)
    show ?case
    proof (cases x)
      case False
      then show ?thesis by (auto intro!: triple_pass)
    next
      case True
      show ?thesis
      proof (cases "resolveAllowedAgentNames [recordValue (rn_sourceContext n)]")
        case None
        with take [OF True] True show ?thesis by (simp add: fallback_allowed_def)
      next
        case (Some allowed)
        then have fa: "fallback_allowed P n \<longleftrightarrow> fallback_agent P n \<in> set allowed"
          by (simp only: fallback_allowed_def option.case)
        show ?thesis
          unfolding Some option.case using True take [OF True, unfolded fa]
          by (auto intro!: triple_if triple_pre [OF blocked])
      qed
    qed
  qed
qed

end

text \<open>The loops after the fallback, and the whole.\<close>

definition loop_delay :: "'w ports \<Rightarrow> 'w retry_deps \<Rightarrow> jsnum \<Rightarrow> 'w \<Rightarrow> (thrown + unit) \<times> 'w" where
  "loop_delay P deps = or_default (rd_delay deps) (defaultDelay P)"

lemma stages_keep:
  assumes "rerun_stages P runPhase (loop_delay P deps) ctx n (retry_total deps n) J K E"
  shows "triple J (retry_stages P runPhase ctx n deps) (\<lambda>_. J) E"
  unfolding retry_stages_def Let_def loop_delay_def [symmetric]
  by (rule triple_bind [OF rerun_stages.unless_passed_keeps [OF assms rerun_stages.quality_keeps [OF assms]]],
      rule triple_bind [OF rerun_stages.unless_passed_keeps [OF assms triple_pre [OF rerun_stages.retry_keeps [OF assms]]]],
      simp, rule rerun_stages.unless_passed_keeps [OF assms rerun_stages.feedback_keeps [OF assms]])

end
