(* ===== verification/PhaseRetryRuns.thy ===== *)
theory PhaseRetryRuns
  imports PhaseRetryLemmas RecoveryProperties
begin

text \<open>
  Runs of the retry loops with the reruns written down. The loops are the same for every outside, so
  they are run on one that also keeps the inputs and the outcomes of the phase runner: \<open>observed\<close> keeps
  this list beside the state of any given outside. The invariant of the loops is stated on it and carried
  by the locale \<open>rerun_stages\<close>, whose interpretation is here; \<open>observed_mirrors\<close> says that observing
  changes nothing.
\<close>

section \<open>The observed outside\<close>

type_synonym rerun_log = "(js \<times> (thrown + js)) list"

definition beside :: "('w \<Rightarrow> 'a \<times> 'w) \<Rightarrow> 'w \<times> rerun_log \<Rightarrow> 'a \<times> 'w \<times> rerun_log" where
  "beside f x = (case f (fst x) of (r, w) \<Rightarrow> (r, w, snd x))"

definition observed :: "'w ports \<Rightarrow> ('w \<times> rerun_log) ports" where
  "observed P = \<lparr>aborted = (\<lambda>x. aborted P (fst x)),
     appendEvent = map_option (\<lambda>f ev. beside (f ev)) (appendEvent P),
     onProgress = map_option (\<lambda>f ev. beside (f ev)) (onProgress P),
     sleep = (\<lambda>ms x. (sleep P ms (fst x), snd x)), clock = (\<lambda>x. clock P (fst x)),
     sha256 = sha256 P, agents_known = agents_known P\<rparr>"

definition observed_phase ::
  "(js \<Rightarrow> 'w \<Rightarrow> (thrown + js) \<times> 'w) \<Rightarrow> js \<Rightarrow> 'w \<times> rerun_log \<Rightarrow> (thrown + js) \<times> 'w \<times> rerun_log" where
  "observed_phase runPhase input x = (case runPhase input (fst x) of (r, w) \<Rightarrow> (r, w, snd x @ [(input, r)]))"

definition observed_deps :: "'w retry_deps \<Rightarrow> ('w \<times> rerun_log) retry_deps" where
  "observed_deps d = \<lparr>rd_retryMax = rd_retryMax d, rd_feedbackRetryMax = rd_feedbackRetryMax d,
     rd_qualityRepairMax = rd_qualityRepairMax d, rd_retryTotalMax = rd_retryTotalMax d,
     rd_retryableKinds = rd_retryableKinds d, rd_feedbackKinds = rd_feedbackKinds d, rd_baseDelayMs = rd_baseDelayMs d,
     rd_delay = map_option (\<lambda>f ms. beside (f ms)) (rd_delay d),
     rd_runPhase = map_option observed_phase (rd_runPhase d)\<rparr>"

definition observed_run ::
  "'w ports \<Rightarrow> retry_ctx \<Rightarrow> retry_node \<Rightarrow> 'w retry_deps \<Rightarrow> 'w \<Rightarrow> (thrown + js) \<times> ('w \<times> rerun_log) run" where
  "observed_run P ctx n deps w = runPhaseRetryLoops (observed P) ctx n (observed_deps deps) (w, [])"

definition reruns_of :: "'a \<times> ('w \<times> rerun_log) run \<Rightarrow> rerun_log" where
  "reruns_of out = snd (world (snd out))"

section \<open>What is asked of the reruns\<close>

definition retry_told :: "js \<Rightarrow> string \<Rightarrow> js" where
  "retry_told input k = fld (fld (fld input ''sourceContext'') ''retry'') k"

type_synonym recovery_id = "string option \<times> string option"

definition told_id :: "js \<Rightarrow> recovery_id" where
  \<comment> \<open>the failure a rerun answers, and its strategy\<close>
  "told_id input = (str_opt (retry_told input ''failureFingerprint''), str_opt (retry_told input ''retryStrategy''))"

definition escalates :: "recovery_id \<Rightarrow> js \<Rightarrow> bool" where
  "escalates prev input =
     (let cs = availableStrategies (to_str (retry_told input ''failureClass'')) PhaseScope
      in fst prev = fst (told_id input) \<longrightarrow> rank cs (snd prev) < rank cs (snd (told_id input)))"

fun escalating :: "recovery_id \<Rightarrow> js list \<Rightarrow> bool" where
  "escalating prev [] = True"
| "escalating prev (i # is) = (escalates prev i \<and> escalating (told_id i) is)"

definition prior_id :: "retry_node \<Rightarrow> recovery_id" where
  "prior_id n = (str_opt (fld (fld (rn_sourceContext n) ''retry'') ''failureFingerprint''),
     str_opt (fld (fld (rn_sourceContext n) ''retry'') ''retryStrategy''))"

definition last_id :: "recovery_id \<Rightarrow> js list \<Rightarrow> recovery_id" where
  "last_id prev is = (if is = [] then prev else told_id (last is))"

definition informed :: "js \<Rightarrow> bool" where
  "informed input = (retry_told input ''strategyChanged'' = JBool True
     \<and> (case retry_told input ''retryStrategy'' of JStr s \<Rightarrow> s \<noteq> [] | _ \<Rightarrow> False))"

definition agents_ok :: "'w ports \<Rightarrow> retry_node \<Rightarrow> (string \<times> js) list \<Rightarrow> bool" where
  "agents_ok P n agents = (agents = rn_phaseAgents n
     \<or> rn_phase n = ''execute'' \<and> fallback_allowed P n
       \<and> agents = obj_set (rn_role n) (JStr (fallback_agent P n)) (rn_phaseAgents n))"

definition agents_allowed :: "'w ports \<Rightarrow> retry_node \<Rightarrow> js \<Rightarrow> bool" where
  "agents_allowed P n input = (case fld input ''agents'' of JObj agents \<Rightarrow> agents_ok P n agents | _ \<Rightarrow> False)"

definition passed_outcome :: "thrown + js \<Rightarrow> bool" where
  "passed_outcome out = (case out of Inr v \<Rightarrow> isPhasePassed v | Inl _ \<Rightarrow> False)"

definition outcomes :: "retry_node \<Rightarrow> rerun_log \<Rightarrow> (thrown + js) list" where
  "outcomes n l = Inr (rn_result n) # map snd l"

section \<open>The invariant\<close>

lemma told_phaseInput:
  "retry_told (phaseInput ctx n agents (JObj (obj_set ''retry'' (JObj retry) sc))) k = obj_get retry k"
  by (simp add: retry_told_def phaseInput_def fld_obj_set fld_def obj_get_def obj_set_def update_conv)

lemma str_opt_opt_js [simp]: "str_opt (opt_js s) = s"
  by (simp add: str_opt_def opt_js_def split: option.splits)

lemma told_id_tells:
  "tells r retry \<Longrightarrow> told_id (phaseInput ctx n agents (JObj (obj_set ''retry'' (JObj retry) sc)))
     = (Some (failureFingerprint r), retryStrategy r)"
  by (simp add: told_id_def told_phaseInput tells_def) (simp add: str_opt_def)

lemma escalating_append: "escalating prev (is @ [i]) \<longleftrightarrow> escalating prev is \<and> escalates (last_id prev is) i"
  by (induction "is" arbitrary: prev) (auto simp: last_id_def)

definition log_ok :: "'w ports \<Rightarrow> retry_node \<Rightarrow> rat \<Rightarrow> rerun_log \<Rightarrow> bool" where
  "log_ok P n budget l = (of_nat (length l) < budget + 1 \<and> escalating (prior_id n) (map fst l)
     \<and> list_all (\<lambda>e. informed (fst e) \<and> agents_allowed P n (fst e)) l
     \<and> list_all (\<lambda>out. \<not> passed_outcome out) (butlast (outcomes n l)))"

definition between :: "'w ports \<Rightarrow> retry_node \<Rightarrow> rat \<Rightarrow> ('w \<times> rerun_log) run \<Rightarrow> bool" where
  "between P n budget s = (let l = snd (world s) in
     log_ok P n budget l \<and> phaseRetryCount s = length l \<and> agents_ok P n (phaseAgents s)
     \<and> last_id (prior_id n) (map fst l) = (previousFingerprint s, previousStrategy s)
     \<and> last (outcomes n l) = Inr (last_result s))"

definition prepared :: "'w ports \<Rightarrow> retry_node \<Rightarrow> rat \<Rightarrow> failure_recovery \<Rightarrow> ('w \<times> rerun_log) run \<Rightarrow> bool" where
  "prepared P n budget r s = (let l = snd (world s) in
     log_ok P n budget l \<and> phaseRetryCount s = length l \<and> agents_ok P n (phaseAgents s)
     \<and> last (outcomes n l) = Inr (last_result s) \<and> \<not> isPhasePassed (last_result s)
     \<and> of_nat (length l) < budget
     \<and> previousFingerprint s = Some (failureFingerprint r) \<and> previousStrategy s = retryStrategy r
     \<and> or_null (retryStrategy r) \<noteq> None \<and> strategyChanged r
     \<and> (fst (last_id (prior_id n) (map fst l)) = Some (failureFingerprint r) \<longrightarrow>
          rank (availableStrategies (failureClass r) PhaseScope) (snd (last_id (prior_id n) (map fst l)))
          < rank (availableStrategies (failureClass r) PhaseScope) (retryStrategy r)))"

definition exit_ok :: "'w ports \<Rightarrow> retry_node \<Rightarrow> rat \<Rightarrow> ('w \<times> rerun_log) run \<Rightarrow> bool" where
  "exit_ok P n budget s = log_ok P n budget (snd (world s))"

text \<open>What is not a run of the phase leaves the list and the variables of the loops alone.\<close>

definition quiet :: "(('w \<times> rerun_log) run, 'a) act \<Rightarrow> bool" where
  "quiet m \<longleftrightarrow> (\<forall>s. \<exists>w. snd (m s) = s\<lparr>world := (w, snd (world s))\<rparr>)"

lemma quietE: "quiet m \<Longrightarrow> m s = (r, t) \<Longrightarrow> (\<And>w. t = s\<lparr>world := (w, snd (world s))\<rparr> \<Longrightarrow> thesis) \<Longrightarrow> thesis"
  unfolding quiet_def by (metis snd_conv)

lemma quiet_outside_beside: "quiet (outside (beside f))"
  unfolding quiet_def outside_def beside_def by (auto split: prod.splits)

lemma quiet_same: "(\<And>s. snd (m s) = s) \<Longrightarrow> quiet m"
  unfolding quiet_def by (metis run.surjective run.update_convs(1) prod.collapse)

lemma quiet_bind: "quiet m \<Longrightarrow> (\<And>v. quiet (f v)) \<Longrightarrow> quiet (bind m f)"
proof -
  assume m: "quiet m" and f: "\<And>v. quiet (f v)"
  have "\<exists>w. snd (bind m f s) = s\<lparr>world := (w, snd (world s))\<rparr>" for s
  proof -
    obtain r t where mt: "m s = (r, t)" by (cases "m s")
    with m obtain w where t: "t = s\<lparr>world := (w, snd (world s))\<rparr>" by (rule quietE)
    show ?thesis
    proof (cases r)
      case (Inl e)
      with mt t show ?thesis by (auto simp: bind_def)
    next
      case (Inr v)
      from f [of v] obtain w' where "snd (f v t) = t\<lparr>world := (w', snd (world t))\<rparr>" unfolding quiet_def by blast
      with Inr mt t show ?thesis by (auto simp: bind_def)
    qed
  qed
  then show ?thesis by (simp add: quiet_def)
qed

lemma quiet_append: "quiet (appendRuntimeEvent (observed P) ev)"
proof (cases "appendEvent P")
  case None
  then show ?thesis by (intro quiet_same) (simp add: appendRuntimeEvent_def observed_def)
next
  case (Some f)
  have "snd (appendRuntimeEvent (observed P) ev s)
      = snd (outside (beside (f (JObj (ev @ [(''ts'', JStr (clock P (fst (world s))))])))) s)" for s
    by (simp add: appendRuntimeEvent_def observed_def Some)
  with quiet_outside_beside show ?thesis unfolding quiet_def by metis
qed

lemma quiet_report: "quiet (reportProgress (observed P) ev)"
proof (cases "onProgress P")
  case None
  then show ?thesis by (intro quiet_same) (simp add: reportProgress_def observed_def)
next
  case (Some f)
  have "snd (reportProgress (observed P) ev s)
      = snd (outside (beside (f (JObj ((''ts'', JStr (clock P (fst (world s)))) # ev)))) s)" for s
    by (simp add: reportProgress_def observed_def outside_def beside_def Some split: prod.splits)
  with quiet_outside_beside show ?thesis unfolding quiet_def by metis
qed

lemma quiet_announce: "quiet (announce (observed P) ev)"
  unfolding announce_def by (intro quiet_bind quiet_append quiet_report)

lemma quiet_delay: "quiet (outside (loop_delay (observed P) (observed_deps deps) ms))"
proof (cases "rd_delay deps")
  case None
  then show ?thesis
    unfolding quiet_def outside_def loop_delay_def
    by (auto simp: observed_deps_def or_default_def defaultDelay_def observed_def Let_def
      intro: exI [of _ "fst (world s)" for s] split: prod.splits option.splits)
next
  case (Some f)
  then show ?thesis using quiet_outside_beside by (simp add: loop_delay_def or_default_def observed_deps_def)
qed

lemma triple_quiet:
  assumes "quiet m" "\<And>s w. A (s\<lparr>world := (w, snd (world s))\<rparr>) = A s" "\<And>s. A s \<Longrightarrow> E s"
  shows "triple A m (\<lambda>_. A) E"
  unfolding triple_def
proof (intro allI impI)
  fix s assume "A s"
  obtain r t where mt: "m s = (r, t)" by (cases "m s")
  from quietE [OF assms(1) mt] obtain w where "t = s\<lparr>world := (w, snd (world s))\<rparr>" by blast
  with assms(2) \<open>A s\<close> have "A t" by simp
  with mt assms(3) show "case m s of (Inr v, t) \<Rightarrow> A t | (Inl _, t) \<Rightarrow> E t" by (cases r) simp_all
qed

lemma frames:
  "between P n b (s\<lparr>world := (w, snd (world s))\<rparr>) = between P n b s"
  "prepared P n b r (s\<lparr>world := (w, snd (world s))\<rparr>) = prepared P n b r s"
  by (simp_all add: between_def prepared_def Let_def)

lemma exits: "between P n b s \<Longrightarrow> exit_ok P n b s" "prepared P n b r s \<Longrightarrow> exit_ok P n b s"
  by (simp_all add: between_def prepared_def exit_ok_def Let_def)

lemma observed_fields [simp]: "sha256 (observed P) = sha256 P" "agents_known (observed P) = agents_known P"
  by (simp_all add: observed_def)

lemma observed_fallback [simp]: "fallback_agent (observed P) n = fallback_agent P n"
  by (simp add: fallback_agent_def)

lemma observed_allowed [simp]: "fallback_allowed (observed P) n = fallback_allowed P n"
  by (simp only: fallback_allowed_def observed_fallback)

lemma prepares_observed:
  "triple (\<lambda>s. between P n b s \<and> \<not> isPhasePassed (last_result s))
     (prepareRecovery (observed P) n b attempt retryClass preferred override)
     (\<lambda>p s. case p of None \<Rightarrow> between P n b s | Some (r, retry) \<Rightarrow> prepared P n b r s \<and> tells r retry) (exit_ok P n b)"
  unfolding triple_def
proof (intro allI impI)
  fix s assume s: "between P n b s \<and> \<not> isPhasePassed (last_result s)"
  define r where "r = selectFailureRecovery (sha256 P) (fld (last_result s) ''failure'') (previousFingerprint s)
    (previousStrategy s) preferred PhaseScope"
  let ?out = "prepareRecovery (observed P) n b attempt retryClass preferred override s"
  let ?goal = "\<lambda>x. case x of (Inr p, t) \<Rightarrow> (case p of None \<Rightarrow> between P n b t
      | Some (r, retry) \<Rightarrow> prepared P n b r t \<and> tells r retry) | (Inl _, t) \<Rightarrow> exit_ok P n b t"
  have stop: "?goal (bind (appendRuntimeEvent (observed P) ev) (\<lambda>_. pass None) s)" for ev
  proof -
    have "triple (between P n b) (bind (appendRuntimeEvent (observed P) ev) (\<lambda>_. pass None))
        (\<lambda>p t. case p of None \<Rightarrow> between P n b t | Some (r, retry) \<Rightarrow> prepared P n b r t \<and> tells r retry) (exit_ok P n b)"
      by (rule triple_bind [OF triple_quiet [OF quiet_append frames(1) exits(1)] triple_pass]) simp_all
    with s show ?thesis by (simp only: triple_def)
  qed
  consider "of_nat (phaseRetryCount s) \<ge> b" | "of_nat (phaseRetryCount s) < b" "or_null (retryStrategy r) = None \<or> \<not> strategyChanged r"
    | "of_nat (phaseRetryCount s) < b" "or_null (retryStrategy r) \<noteq> None" "strategyChanged r" by linarith
  then show "?goal ?out"
  proof cases
    case 1
    then have "?out = bind (appendRuntimeEvent (observed P) (budget_event n b (phaseRetryCount s) attempt retryClass)) (\<lambda>_. pass None) s"
      by (simp only: prepareRecovery_def Let_def if_True)
    with stop show ?thesis by simp
  next
    case 2
    then have "?out = bind (appendRuntimeEvent (observed P) (repeated_event n (last_result s) attempt retryClass r)) (\<lambda>_. pass None) s"
      by (simp only: prepareRecovery_def Let_def if_True if_False not_le [symmetric] observed_fields r_def [symmetric])
    with stop show ?thesis by simp
  next
    case 3
    let ?t = "s\<lparr>previousFingerprint := Some (failureFingerprint r), previousStrategy := retryStrategy r\<rparr>"
    from 3 have out: "?out = (Inr (Some (r, retryContextFromFailure (last_result s) attempt retryClass r (rn_phase n) override)), ?t)"
      by (simp only: prepareRecovery_def Let_def if_False not_le [symmetric] observed_fields r_def [symmetric] simp_thms)
    obtain st where st: "retryStrategy r = Some st" "st \<noteq> []" using 3(2) by (cases "or_null (retryStrategy r)") (auto simp: or_null_Some)
    have rank: "rank (availableStrategies (failureClass r) PhaseScope) (previousStrategy s)
        < rank (availableStrategies (failureClass r) PhaseScope) (retryStrategy r)"
      if "previousFingerprint s = Some (failureFingerprint r)"
    proof -
      have fields: "failureClass r = classifyFailure (fld (last_result s) ''failure'')"
        "failureFingerprint r = stableFailureFingerprint (sha256 P) (fld (last_result s) ''failure'')"
        unfolding r_def by (rule select_fields)+
      have "retryStrategy (selectFailureRecovery (sha256 P) (fld (last_result s) ''failure'')
          (Some (stableFailureFingerprint (sha256 P) (fld (last_result s) ''failure''))) (previousStrategy s) preferred PhaseScope) = Some st"
        using st(1) that unfolding fields(2) by (simp only: r_def)
      from select_repeated [OF this st(2)] show ?thesis unfolding fields(1) st(1) by blast
    qed
    from s 3 rank have "prepared P n b r ?t" by (simp add: prepared_def between_def Let_def)
    with out show ?thesis by (simp add: tells_context)
  qed
qed

lemma log_ok_snoc:
  fixes ctx n sc r retry and s :: "('w \<times> rerun_log) run" and out :: "thrown + js" and P :: "'w ports"
  assumes "prepared P n b r s" "tells r retry"
  defines "input \<equiv> phaseInput ctx n (phaseAgents s) (JObj (obj_set ''retry'' (JObj retry) sc))"
  shows "log_ok P n b (snd (world s) @ [(input, out)])"
proof -
  let ?l = "snd (world s)"
  have ok: "log_ok P n b ?l" and len: "of_nat (length ?l) < b" and ag: "agents_ok P n (phaseAgents s)"
    and last: "last (outcomes n ?l) = Inr (last_result s)" "\<not> isPhasePassed (last_result s)"
    and str: "or_null (retryStrategy r) \<noteq> None" "strategyChanged r"
    and rank: "fst (last_id (prior_id n) (map fst ?l)) = Some (failureFingerprint r) \<Longrightarrow>
      rank (availableStrategies (failureClass r) PhaseScope) (snd (last_id (prior_id n) (map fst ?l)))
      < rank (availableStrategies (failureClass r) PhaseScope) (retryStrategy r)"
    using assms(1) by (simp_all add: prepared_def Let_def)
  have told: "retry_told input k = obj_get retry k" for k unfolding input_def by (rule told_phaseInput)
  have id: "told_id input = (Some (failureFingerprint r), retryStrategy r)"
    unfolding input_def by (rule told_id_tells [OF assms(2)])
  have cls: "to_str (retry_told input ''failureClass'') = failureClass r"
    using assms(2) by (simp add: told tells_def)
  obtain st where st: "retryStrategy r = Some st" "st \<noteq> []"
    using str(1) by (cases "or_null (retryStrategy r)") (auto simp: or_null_Some)
  have esc: "escalates (last_id (prior_id n) (map fst ?l)) input"
    unfolding escalates_def Let_def cls id using rank by simp
  have inf: "informed input"
    using assms(2) st str(2) by (simp add: informed_def told tells_def opt_js_def)
  have all: "agents_allowed P n input"
    using ag by (simp add: agents_allowed_def input_def phaseInput_def)
  have fails: "list_all (\<lambda>out. \<not> passed_outcome out) (butlast (outcomes n (?l @ [(input, out)])))"
  proof -
    have "butlast (outcomes n (?l @ [(input, out)])) = butlast (outcomes n ?l) @ [last (outcomes n ?l)]"
      by (simp add: outcomes_def butlast_append append_butlast_last_id del: butlast.simps last.simps)
        (simp add: butlast_append)
    with ok last show ?thesis by (simp add: log_ok_def passed_outcome_def)
  qed
  show ?thesis
    using ok len esc inf all fails by (simp add: log_ok_def escalating_append)
qed

lemma reruns_observed:
  assumes "tells r retry"
  shows "triple (prepared P n b r) (rerun (observed P) (observed_phase runPhase) ctx n retry) (\<lambda>_. between P n b) (exit_ok P n b)"
  unfolding triple_def
proof (intro allI impI)
  fix s assume s: "prepared P n b r s"
  let ?s = "s\<lparr>phaseRetryCount := Suc (phaseRetryCount s)\<rparr>"
  let ?input = "phaseInput ctx n (phaseAgents s) (JObj (obj_set ''retry'' (JObj retry) (own (rn_sourceContext n))))"
  show "case rerun (observed P) (observed_phase runPhase) ctx n retry s of (Inr v, t) \<Rightarrow> between P n b t | (Inl _, t) \<Rightarrow> exit_ok P n b t"
  proof (cases "aborted P (fst (world s))")
    case (Some reason)
    then have "rerun (observed P) (observed_phase runPhase) ctx n retry s = (Inl (createAbortError reason ''Phase retry aborted''), ?s)"
      by (simp add: rerun_def bind_def change_def throwIfAborted_def reads_def raise_def observed_def)
    with s show ?thesis by (simp add: exit_ok_def prepared_def Let_def)
  next
    case None
    obtain out w where run: "runPhase ?input (fst (world s)) = (out, w)" by (cases "runPhase ?input (fst (world s))")
    let ?t = "?s\<lparr>world := (w, snd (world s) @ [(?input, out)])\<rparr>"
    have go: "rerun (observed P) (observed_phase runPhase) ctx n retry s
        = (case out of Inl e \<Rightarrow> (Inl e, ?t) | Inr v \<Rightarrow> (Inr (), ?t\<lparr>last_result := v\<rparr>))"
      using None run by (simp add: rerun_def bind_def change_def throwIfAborted_def reads_def pass_def observed_def
          outside_def observed_phase_def split: sum.splits)
    from log_ok_snoc [OF s assms] have ok: "log_ok P n b (snd (world s) @ [(?input, out)])" .
    have id: "told_id ?input = (Some (failureFingerprint r), retryStrategy r)" by (rule told_id_tells [OF assms])
    show ?thesis
    proof (cases out)
      case (Inl e)
      with go ok show ?thesis by (simp add: exit_ok_def)
    next
      case (Inr v)
      from s have "between P n b (?t\<lparr>last_result := v\<rparr>)"
        using ok id Inr by (simp add: between_def prepared_def Let_def last_id_def outcomes_def)
      with go Inr show ?thesis by simp
    qed
  qed
qed

lemma obj_set_twice: "obj_set k v (obj_set k v a) = obj_set k v a"
  by (induction a) (auto simp: obj_set_def)

lemma handover_observed:
  assumes "prepared P n b r s" "rn_phase n = ''execute''" "fallback_allowed P n"
  shows "prepared P n b r (take_agent (observed P) n f s)"
proof -
  have "agents_ok P n (obj_set (rn_role n) (JStr (fallback_agent P n)) (phaseAgents s))"
    using assms by (auto simp: prepared_def Let_def agents_ok_def obj_set_twice)
  with assms(1) show ?thesis by (simp add: prepared_def Let_def take_agent_def)
qed

interpretation reruns: rerun_stages "observed P" "observed_phase runPhase" "loop_delay (observed P) (observed_deps deps)" ctx n b
  "between P n b" "prepared P n b" "exit_ok P n b" for P runPhase deps ctx n b
  by unfold_locales (rule prepares_observed, rule triple_quiet [OF quiet_announce frames(1) exits(1)], assumption,
      rule triple_quiet [OF quiet_announce frames(2) exits(2)], assumption, rule triple_quiet [OF quiet_delay frames(2) exits(2)],
      assumption, rule reruns_observed, assumption, rule handover_observed, assumption, assumption, simp)

section \<open>The whole run\<close>

text \<open>When the fallback stage ends everything, nothing was rerun.\<close>

lemma prepare_stops:
  "triple (\<lambda>s. phaseRetryCount s = 0) (prepareRecovery (observed P) n b attempt retryClass preferred override)
     (\<lambda>_ s. phaseRetryCount s = 0) (\<lambda>_. True)"
proof -
  have stop: "triple (\<lambda>s. phaseRetryCount s = 0) (bind (appendRuntimeEvent (observed P) ev) (\<lambda>_. pass x))
      (\<lambda>_ s. phaseRetryCount s = 0) (\<lambda>_. True)" for ev x
    by (rule triple_bind [OF triple_quiet [OF quiet_append] triple_pass]) simp_all
  show ?thesis
    unfolding triple_def
  proof (intro allI impI, goal_cases)
    case (1 s)
    have s: "case bind (appendRuntimeEvent (observed P) ev) (\<lambda>_. pass x) s of (Inr v, t) \<Rightarrow> phaseRetryCount t = 0 | (Inl _, t) \<Rightarrow> True" for ev x
      using stop [of ev x] 1 by (simp only: triple_def)
    show ?case
      unfolding prepareRecovery_def Let_def
      by (split if_split, intro conjI impI; (rule s | (split if_split, intro conjI impI; (rule s | simp add: 1))))
  qed
qed

lemma fallback_stops:
  "triple (\<lambda>s. phaseRetryCount s = 0) (fallback_stage (observed P) runPhase ctx n b allowed quota)
     (\<lambda>go s. go \<or> phaseRetryCount s = 0) (\<lambda>_. True)"
proof -
  have go: "triple A (bind m (\<lambda>_. pass True)) (\<lambda>go s. go \<or> phaseRetryCount s = 0) (\<lambda>_. True)" for A and m :: "(('w \<times> rerun_log) run, unit) act"
    by (rule triple_bind [where B = "\<lambda>_ _. True", OF triple_true triple_pass]) simp_all
  have take: "triple (\<lambda>s. phaseRetryCount s = 0) (take_fallback (observed P) runPhase ctx n b agent)
      (\<lambda>go s. go \<or> phaseRetryCount s = 0) (\<lambda>_. True)" for agent
    unfolding take_fallback_def
  proof (rule triple_bind_reads, rule triple_pre, rule triple_bind [OF prepare_stops], goal_cases)
    case (1 fromAgent p)
    show ?case
    proof (cases p)
      case None
      then show ?thesis by (simp, intro triple_pass, simp)
    next
      case (Some rr)
      obtain r retry where "rr = (r, retry)" by (cases rr)
      with Some show ?thesis
        by simp (rule triple_bind_reads, rule triple_bind [where B = "\<lambda>_ _. True", OF triple_true],
            simp, rule triple_bind [where B = "\<lambda>_ _. True", OF triple_true], simp, rule go)
    qed
  qed simp
  have blocked: "triple A (bind (reads h) (\<lambda>a. bind (announce (observed P) (g a)) (\<lambda>_. pass True)))
      (\<lambda>go s. go \<or> phaseRetryCount s = 0) (\<lambda>_. True)" for A h g
    by (rule triple_bind_reads) (rule go)
  show ?thesis
    unfolding fallback_stage_def Let_def
    by (rule triple_bind_reads, rule triple_if, rule triple_pass, simp, cases allowed)
      (auto intro!: triple_pre [OF take] blocked)
qed

definition reported :: "retry_node \<Rightarrow> js \<Rightarrow> ('w \<times> rerun_log) run \<Rightarrow> bool" where
  "reported n v s \<longleftrightarrow> (\<exists>u. last (outcomes n (snd (world s))) = Inr u
     \<and> v = with_diagnostics (length (snd (world s))) (phaseAgentFallback s) u)"

lemma body_keeps:
  assumes "rd_runPhase deps = Some runPhase"
  shows "triple (\<lambda>s. between P n (retry_total deps n) s \<and> phaseRetryCount s = 0)
    (retry_body (observed P) (observed_phase runPhase) ctx n (observed_deps deps))
    (\<lambda>v s. between P n (retry_total deps n) s \<and> reported n v s) (exit_ok P n (retry_total deps n))"
proof -
  have b: "retry_total (observed_deps deps) n = retry_total deps n"
    by (simp add: retry_total_def observed_deps_def)
  have stages: "triple (between P n (retry_total deps n))
      (retry_stages (observed P) (observed_phase runPhase) ctx n (observed_deps deps))
      (\<lambda>_. between P n (retry_total deps n)) (exit_ok P n (retry_total deps n))"
    using stages_keep [OF reruns.rerun_stages_axioms [where b = "retry_total deps n", folded b]] by (simp add: b)
  have first: "triple (\<lambda>s. between P n (retry_total deps n) s \<and> phaseRetryCount s = 0)
      (fallback_stage (observed P) (observed_phase runPhase) ctx n (retry_total deps n)
        (resolveAllowedAgentNames [recordValue (rn_sourceContext n)]) quota)
      (\<lambda>go s. between P n (retry_total deps n) s \<and> (go \<or> phaseRetryCount s = 0)) (exit_ok P n (retry_total deps n))" for quota
    by (rule triple_conseq [OF triple_both [OF reruns.fallback_stage_keeps fallback_stops]]) simp_all
  have stop: "triple (\<lambda>s. between P n (retry_total deps n) s \<and> phaseRetryCount s = 0) (reads last_result)
      (\<lambda>v s. between P n (retry_total deps n) s \<and> reported n v s) (exit_ok P n (retry_total deps n))"
    by (rule triple_reads) (auto simp: between_def Let_def reported_def with_diagnostics_def)
  have go: "triple (between P n (retry_total deps n))
      (reads (\<lambda>s. with_diagnostics (phaseRetryCount s) (phaseAgentFallback s) (last_result s)))
      (\<lambda>v s. between P n (retry_total deps n) s \<and> reported n v s) (exit_ok P n (retry_total deps n))"
    by (rule triple_reads) (auto simp: between_def Let_def reported_def)
  show ?thesis
    unfolding retry_body_def Let_def b
  proof (rule triple_bind [OF first], goal_cases)
    case (1 go_on)
    show ?case
    proof (cases go_on)
      case True
      then show ?thesis by (simp add: triple_bind [OF stages go])
    next
      case False
      then show ?thesis by (simp add: stop)
    qed
  qed
qed

lemma total_nonneg: "0 \<le> retry_total deps n"
  by (simp add: retry_total_def)

lemma observed_run_ok:
  "exit_ok P n (retry_total deps n) (snd (observed_run P ctx n deps w))"
  "observed_run P ctx n deps w = (Inr v, t) \<Longrightarrow> between P n (retry_total deps n) t \<and> reported n v t"
proof -
  let ?s = "first_run n (w, [] :: rerun_log)"
  have s: "between P n (retry_total deps n) ?s" "phaseRetryCount ?s = 0"
    using total_nonneg [of deps n]
    by (simp_all add: between_def first_run_def Let_def log_ok_def outcomes_def agents_ok_def last_id_def prior_id_def)
  have "triple (\<lambda>s. between P n (retry_total deps n) s \<and> phaseRetryCount s = 0)
      (bind (throwIfAborted (observed P)) (\<lambda>_. case rd_runPhase (observed_deps deps) of
         None \<Rightarrow> raise (Raised (ErrorMsg ''runPhase dependency is required for phase retry loops''))
       | Some runPhase \<Rightarrow> retry_body (observed P) runPhase ctx n (observed_deps deps)))
      (\<lambda>v s. between P n (retry_total deps n) s \<and> reported n v s) (exit_ok P n (retry_total deps n))"
  proof (rule triple_bind [where B = "\<lambda>_ s. between P n (retry_total deps n) s \<and> phaseRetryCount s = 0"], goal_cases)
    case 1
    show ?case
      unfolding throwIfAborted_def
      by (rule triple_bind_reads) (auto intro!: triple_pass triple_raise exits(1) split: option.splits)
  next
    case (2 v)
    show ?case
    proof (cases "rd_runPhase deps")
      case None
      then show ?thesis by (simp add: observed_deps_def) (rule triple_raise, simp add: exits(1))
    next
      case (Some runPhase)
      then have o: "rd_runPhase (observed_deps deps) = Some (observed_phase runPhase)" by (simp add: observed_deps_def)
      show ?thesis unfolding o option.case by (rule body_keeps [OF Some])
    qed
  qed
  from tripleD [OF this conjI [OF s]] have out: "case observed_run P ctx n deps w of (Inr v, t) \<Rightarrow> between P n (retry_total deps n) t \<and> reported n v t
      | (Inl _, t) \<Rightarrow> exit_ok P n (retry_total deps n) t"
    by (simp only: observed_run_def runPhaseRetryLoops_def)
  then show "exit_ok P n (retry_total deps n) (snd (observed_run P ctx n deps w))"
    by (cases "observed_run P ctx n deps w"; cases "fst (observed_run P ctx n deps w)") (simp_all add: exits)
  show "between P n (retry_total deps n) t \<and> reported n v t" if "observed_run P ctx n deps w = (Inr v, t)"
    using out that by simp
qed

section \<open>Observing changes nothing\<close>

text \<open>The observed run does what the run without the list does.\<close>

definition unobserved :: "('w \<times> rerun_log) run \<Rightarrow> 'w run" where
  "unobserved s = \<lparr>world = fst (world s), last_result = last_result s, phaseRetryCount = phaseRetryCount s,
     previousFingerprint = previousFingerprint s, previousStrategy = previousStrategy s,
     phaseAgents = phaseAgents s, phaseAgentFallback = phaseAgentFallback s\<rparr>"

lemma unobserved_simps [simp]:
  "world (unobserved s) = fst (world s)" "last_result (unobserved s) = last_result s" "phaseRetryCount (unobserved s) = phaseRetryCount s"
  "previousFingerprint (unobserved s) = previousFingerprint s" "previousStrategy (unobserved s) = previousStrategy s"
  "phaseAgents (unobserved s) = phaseAgents s" "phaseAgentFallback (unobserved s) = phaseAgentFallback s"
  by (simp_all add: unobserved_def)

lemma unobserved_set: "unobserved (s\<lparr>previousFingerprint := f, previousStrategy := g\<rparr>)
    = (unobserved s)\<lparr>previousFingerprint := f, previousStrategy := g\<rparr>"
  by (simp add: unobserved_def)

definition mirrors :: "(('w \<times> rerun_log) run, 'a) act \<Rightarrow> ('w run, 'a) act \<Rightarrow> bool" where
  "mirrors m m' \<longleftrightarrow> (\<forall>s. m' (unobserved s) = (fst (m s), unobserved (snd (m s))))"

lemma mirror_bind: "mirrors m m' \<Longrightarrow> (\<And>v. mirrors (f v) (f' v)) \<Longrightarrow> mirrors (bind m f) (bind m' f')"
  unfolding mirrors_def bind_def by (auto split: prod.splits sum.splits)

lemma mirror_reads: "(\<And>s. f' (unobserved s) = f s) \<Longrightarrow> mirrors (reads f) (reads f')"
  and mirror_pass: "mirrors (pass v) (pass v)"
  and mirror_raise: "mirrors (raise e) (raise e)"
  and mirror_change: "(\<And>s. g' (unobserved s) = unobserved (g s)) \<Longrightarrow> mirrors (change g) (change g')"
  and mirror_beside: "mirrors (outside (beside h)) (outside h)"
  and mirror_phase: "mirrors (outside (observed_phase runPhase input)) (outside (runPhase input))"
  by (auto simp: mirrors_def reads_def pass_def raise_def change_def outside_def beside_def observed_phase_def unobserved_def
      split: prod.splits)

lemma mirror_append: "mirrors (appendRuntimeEvent (observed P) ev) (appendRuntimeEvent P ev)"
  by (cases "appendEvent P") (auto simp: mirrors_def appendRuntimeEvent_def observed_def outside_def beside_def unobserved_def split: prod.splits)

lemma mirror_report: "mirrors (reportProgress (observed P) ev) (reportProgress P ev)"
  by (cases "onProgress P") (auto simp: mirrors_def reportProgress_def observed_def beside_def unobserved_def split: prod.splits)

lemma mirror_announce: "mirrors (announce (observed P) ev) (announce P ev)"
  unfolding announce_def by (intro mirror_bind mirror_append mirror_report)

lemma mirror_abort: "mirrors (throwIfAborted (observed P)) (throwIfAborted P)"
  unfolding throwIfAborted_def
  by (rule mirror_bind) (auto simp: observed_def intro!: mirror_reads mirror_pass mirror_raise split: option.splits)

lemma mirror_delay: "mirrors (outside (loop_delay (observed P) (observed_deps d) ms)) (outside (loop_delay P d ms))"
proof (cases "rd_delay d")
  case None
  then show ?thesis
    by (auto simp: mirrors_def outside_def loop_delay_def or_default_def observed_deps_def defaultDelay_def observed_def unobserved_def Let_def
        split: option.splits prod.splits)
next
  case (Some f)
  then show ?thesis by (simp add: loop_delay_def or_default_def observed_deps_def mirror_beside)
qed

lemma mirror_rerun: "mirrors (rerun (observed P) (observed_phase runPhase) ctx n retry) (rerun P runPhase ctx n retry)"
  unfolding rerun_def
  by (intro mirror_bind mirror_abort mirror_phase mirror_reads mirror_change) (simp_all add: unobserved_def)

lemma mirror_prepare: "mirrors (prepareRecovery (observed P) n b a c p i) (prepareRecovery P n b a c p i)"
proof -
  have stop: "mirrors (bind (appendRuntimeEvent (observed P) ev) (\<lambda>_. pass x)) (bind (appendRuntimeEvent P ev) (\<lambda>_. pass x))" for ev x
    by (intro mirror_bind mirror_append mirror_pass)
  have s: "bind (appendRuntimeEvent P ev) (\<lambda>_. pass x) (unobserved s)
      = (fst (bind (appendRuntimeEvent (observed P) ev) (\<lambda>_. pass x) s), unobserved (snd (bind (appendRuntimeEvent (observed P) ev) (\<lambda>_. pass x) s)))"
    for ev x s using stop [of ev x] by (simp only: mirrors_def)
  show ?thesis
    unfolding mirrors_def prepareRecovery_def Let_def by (auto simp: s unobserved_set)
qed

lemma mirror_case: "(x = None \<Longrightarrow> mirrors a a') \<Longrightarrow> (\<And>r retry. x = Some (r, retry) \<Longrightarrow> mirrors (g r retry) (g' r retry))
    \<Longrightarrow> mirrors (case x of None \<Rightarrow> a | Some (r, retry) \<Rightarrow> g r retry) (case x of None \<Rightarrow> a' | Some (r, retry) \<Rightarrow> g' r retry)"
  by (auto split: option.splits)

lemma mirror_if: "mirrors a a' \<Longrightarrow> mirrors b b' \<Longrightarrow> mirrors (if c then a else b) (if c then a' else b')"
  by simp

lemmas mirror = mirror_bind mirror_case mirror_if mirror_pass mirror_announce mirror_rerun mirror_prepare mirror_delay

lemma mirror_quality:
  "mirrors (quality_loop (observed P) (observed_phase runPhase) ctx n b m k a) (quality_loop P runPhase ctx n b m k a)"
  by (induction k arbitrary: a) (auto intro!: mirror mirror_reads)

lemma mirror_feedback:
  "mirrors (feedback_loop (observed P) (observed_phase runPhase) ctx n b m k a) (feedback_loop P runPhase ctx n b m k a)"
  by (induction k arbitrary: a) (auto simp: Let_def intro!: mirror mirror_reads)

lemma mirror_retry:
  "mirrors (retry_loop (observed P) (observed_phase runPhase) (loop_delay (observed P) (observed_deps d)) ctx n b m bd ks k a)
     (retry_loop P runPhase (loop_delay P d) ctx n b m bd ks k a)"
  by (induction k arbitrary: a) (auto simp: Let_def intro!: mirror mirror_reads)

lemma mirror_take: "mirrors (take_fallback (observed P) (observed_phase runPhase) ctx n b agent) (take_fallback P runPhase ctx n b agent)"
  unfolding take_fallback_def by (intro mirror mirror_reads mirror_change) (simp_all add: unobserved_def)

lemma mirror_fallback:
  "mirrors (fallback_stage (observed P) (observed_phase runPhase) ctx n b allowed quota) (fallback_stage P runPhase ctx n b allowed quota)"
proof (cases allowed)
  case None
  show ?thesis unfolding fallback_stage_def None option.case observed_fields Let_def
    by (intro mirror mirror_take mirror_reads) simp_all
next
  case (Some xs)
  show ?thesis unfolding fallback_stage_def Some option.case observed_fields Let_def
    by (intro mirror mirror_take mirror_reads) simp_all
qed

lemma mirror_unless: "mirrors m m' \<Longrightarrow> (\<And>s. c' (unobserved s) = c s) \<Longrightarrow> mirrors (unless_passed c m) (unless_passed c' m')"
  unfolding unless_passed_def by (intro mirror mirror_reads) simp_all

lemma observed_limits:
  "retry_total (observed_deps d) n = retry_total d n" "rd_qualityRepairMax (observed_deps d) = rd_qualityRepairMax d"
  "rd_retryMax (observed_deps d) = rd_retryMax d" "rd_feedbackRetryMax (observed_deps d) = rd_feedbackRetryMax d"
  "rd_retryableKinds (observed_deps d) = rd_retryableKinds d" "rd_feedbackKinds (observed_deps d) = rd_feedbackKinds d"
  "rd_baseDelayMs (observed_deps d) = rd_baseDelayMs d" "rd_runPhase (observed_deps d) = map_option observed_phase (rd_runPhase d)"
  by (simp_all add: retry_total_def observed_deps_def)

lemma mirror_stages:
  "mirrors (retry_stages (observed P) (observed_phase runPhase) ctx n (observed_deps d)) (retry_stages P runPhase ctx n d)"
  unfolding retry_stages_def Let_def observed_limits loop_delay_def [symmetric]
  by (intro mirror_bind mirror_unless mirror_quality mirror_retry mirror_feedback) simp_all

lemma mirror_body: "mirrors (retry_body (observed P) (observed_phase runPhase) ctx n (observed_deps d)) (retry_body P runPhase ctx n d)"
  unfolding retry_body_def Let_def observed_limits
  by (intro mirror_bind mirror_fallback mirror_if mirror_reads mirror_stages) simp_all

lemma observed_mirrors:
  "runPhaseRetryLoops P ctx n d w = (fst (observed_run P ctx n d w), unobserved (snd (observed_run P ctx n d w)))"
proof -
  have m: "mirrors (bind (throwIfAborted (observed P)) (\<lambda>_. case rd_runPhase (observed_deps d) of
         None \<Rightarrow> raise (Raised (ErrorMsg ''runPhase dependency is required for phase retry loops''))
       | Some runPhase \<Rightarrow> retry_body (observed P) runPhase ctx n (observed_deps d)))
     (bind (throwIfAborted P) (\<lambda>_. case rd_runPhase d of
         None \<Rightarrow> raise (Raised (ErrorMsg ''runPhase dependency is required for phase retry loops''))
       | Some runPhase \<Rightarrow> retry_body P runPhase ctx n d))"
    unfolding observed_limits
    by (rule mirror_bind [OF mirror_abort], cases "rd_runPhase d") (simp_all add: mirror_raise mirror_body)
  have "unobserved (first_run n (w, [])) = first_run n w" by (simp add: unobserved_def first_run_def Let_def)
  with m show ?thesis unfolding observed_run_def runPhaseRetryLoops_def mirrors_def by metis
qed

end
