(* ===== verification/PhaseRetryProperties.thy ===== *)
theory PhaseRetryProperties
  imports PhaseRetryRuns
begin

text \<open>
  Properties of the retry loops: the reruns of a phase stay within the budget, climb the recovery
  strategies while the failure is the same, use only allowed agents, happen only after a failure, and
  do happen after a transient one. They are stated on the observed run, which does what the run does
  (\<open>observed_mirrors\<close>).
\<close>

section \<open>Reruns for one failure\<close>

definition answers :: "string option \<Rightarrow> string \<Rightarrow> js \<Rightarrow> bool" where
  \<comment> \<open>a rerun for this fingerprint and class, with a strategy of the class\<close>
  "answers fp cls input = (fst (told_id input) = fp \<and> to_str (retry_told input ''failureClass'') = cls)"

text \<open>The steps of \<open>escalating\<close> among reruns for one failure form an escalation.\<close>

definition after_rerun :: "string option \<Rightarrow> string \<Rightarrow> js \<Rightarrow> js \<Rightarrow> bool" where
  "after_rerun fp cls a b \<longleftrightarrow> answers fp cls a \<and> answers fp cls b \<and> escalates (told_id a) b"

interpretation same_failure: escalation "after_rerun fp cls"
  "\<lambda>input. rank (availableStrategies cls PhaseScope) (snd (told_id input))"
  "length (availableStrategies cls PhaseScope)" for fp cls
  by unfold_locales (auto simp: after_rerun_def answers_def escalates_def Let_def rank_bound)

lemma escalating_drop: "escalating prev (xs @ ys) \<Longrightarrow> escalating (last_id prev xs) ys"
proof (induction xs arbitrary: prev)
  case Nil
  then show ?case by (simp add: last_id_def)
next
  case (Cons x xs)
  then have "escalating (told_id x) (xs @ ys)" by simp
  then have "escalating (last_id (told_id x) xs) ys" by (rule Cons.IH)
  then show ?case by (cases xs) (simp_all add: last_id_def)
qed

lemma escalating_nth: "escalating prev xs \<Longrightarrow> Suc i < length xs \<Longrightarrow> escalates (told_id (xs ! i)) (xs ! Suc i)"
proof (induction xs arbitrary: prev i)
  case Nil
  then show ?case by simp
next
  case (Cons x xs)
  show ?case
  proof (cases i)
    case 0
    with Cons.prems show ?thesis by (cases xs) auto
  next
    case (Suc j)
    with Cons.IH [of "told_id x" j] Cons.prems show ?thesis by simp
  qed
qed

lemma escalating_take: "escalating prev (xs @ ys) \<Longrightarrow> escalating prev xs"
  by (induction xs arbitrary: prev) auto

lemma same_failure_chain:
  assumes "escalating prev xs" "list_all (answers fp cls) xs"
  shows "distinct xs \<and> length xs \<le> Suc (length (availableStrategies cls PhaseScope))"
proof (rule same_failure.run_bounded [where fp = fp])
  fix i assume i: "Suc i < length xs"
  with assms escalating_nth [OF assms(1) i] show "after_rerun fp cls (xs ! i) (xs ! Suc i)"
    by (simp add: after_rerun_def list_all_length)
qed

section \<open>A transient failure is rerun\<close>

definition has_rerun :: "('w \<times> rerun_log) run \<Rightarrow> bool" where
  "has_rerun s \<longleftrightarrow> snd (world s) \<noteq> []"

lemma has_rerun_frame [simp]: "has_rerun (s\<lparr>world := (w, snd (world s))\<rparr>) = has_rerun s"
  by (simp add: has_rerun_def)

lemma prepare_cases:
  fixes P n b attempt retryClass preferred override s
  defines "out \<equiv> prepareRecovery P n b attempt retryClass preferred override s"
  shows "(\<exists>ev. out = bind (appendRuntimeEvent P ev) (\<lambda>_. pass None) s)
    \<or> (\<exists>r. out = (Inr (Some (r, retryContextFromFailure (last_result s) attempt retryClass r (rn_phase n) override)),
         s\<lparr>previousFingerprint := Some (failureFingerprint r), previousStrategy := retryStrategy r\<rparr>))"
  unfolding out_def prepareRecovery_def Let_def by (split if_split, intro conjI impI) (blast, split if_split, blast)

lemma prepares_has_rerun:
  "triple (\<lambda>s. has_rerun s \<and> c s) (prepareRecovery (observed P) n b attempt retryClass preferred override)
     (\<lambda>p s. case p of None \<Rightarrow> has_rerun s | Some (r, retry) \<Rightarrow> has_rerun s \<and> tells r retry) has_rerun"
  unfolding triple_def
proof (intro allI impI, goal_cases)
  case (1 s)
  from prepare_cases [of "observed P" n b attempt retryClass preferred override s] show ?case
  proof (elim disjE exE, goal_cases)
    case (1 ev)
    have "triple has_rerun (bind (appendRuntimeEvent (observed P) ev) (\<lambda>_. pass None))
        (\<lambda>p s. case p of None \<Rightarrow> has_rerun s | Some (r, retry) \<Rightarrow> has_rerun s \<and> tells r retry) has_rerun"
      by (rule triple_bind [OF triple_quiet [OF quiet_append] triple_pass]) simp_all
    from tripleD [OF this, of s] 1 \<open>has_rerun s \<and> c s\<close> show ?case by (simp only:)
  next
    case (2 r)
    with \<open>has_rerun s \<and> c s\<close> show ?case by (simp add: tells_context has_rerun_def)
  qed
qed

lemma reruns_has_rerun:
  "triple (\<lambda>s. aborted P (fst (world s)) = None \<or> has_rerun s) (rerun (observed P) (observed_phase runPhase) ctx n retry)
     (\<lambda>_. has_rerun) has_rerun"
  unfolding triple_def
  by (auto simp: rerun_def bind_def change_def throwIfAborted_def reads_def pass_def raise_def observed_def outside_def
      observed_phase_def has_rerun_def split: sum.splits prod.splits option.splits)

interpretation rerun_kept: rerun_stages "observed P" "observed_phase runPhase" "loop_delay (observed P) (observed_deps deps)" ctx n b
  has_rerun "\<lambda>_. has_rerun" has_rerun for P runPhase deps ctx n b
  by unfold_locales (rule prepares_has_rerun, rule triple_quiet [OF quiet_announce], simp, simp,
      rule triple_quiet [OF quiet_announce], simp, simp, rule triple_quiet [OF quiet_delay], simp, simp,
      rule triple_pre [OF reruns_has_rerun], simp, simp add: has_rerun_def take_agent_def)

text \<open>The first round of the retry loop.\<close>

definition log_works :: "'w ports \<Rightarrow> bool" where
  \<comment> \<open>appending an event does not throw\<close>
  "log_works P \<longleftrightarrow> (case appendEvent P of None \<Rightarrow> True | Some f \<Rightarrow> \<forall>ev w. fst (f ev w) = Inr ())"

definition untouched :: "'w ports \<Rightarrow> retry_node \<Rightarrow> ('w \<times> rerun_log) run \<Rightarrow> bool" where
  "untouched P n s \<longleftrightarrow> last_result s = rn_result n \<and> phaseRetryCount s = 0
     \<and> previousFingerprint s \<noteq> Some (stableFailureFingerprint (sha256 P) (fld (rn_result n) ''failure''))"

lemma untouched_frame [simp]: "untouched P n (s\<lparr>world := w\<rparr>) = untouched P n s"
  by (simp add: untouched_def)

lemma succeeds_append:
  assumes "log_works P"
  shows "triple (\<lambda>_. True) (appendRuntimeEvent (observed P) ev) (\<lambda>_ _. True) (\<lambda>_. False)"
proof (cases "appendEvent P")
  case None
  then show ?thesis by (simp add: triple_def appendRuntimeEvent_def observed_def)
next
  case (Some f)
  with assms have f: "fst (f ev w) = Inr ()" for ev w by (simp add: log_works_def)
  have "fst (appendRuntimeEvent (observed P) ev s) = Inr ()" for s
    by (simp add: appendRuntimeEvent_def observed_def Some outside_def beside_def f split: prod.splits)
      (metis f fst_conv)
  then show ?thesis unfolding triple_def by (simp split: prod.splits sum.splits) (metis fst_conv sum.distinct(1))
qed

lemma succeeds_announce:
  assumes "log_works P"
  shows "triple (\<lambda>_. True) (announce (observed P) ev) (\<lambda>_ _. True) (\<lambda>_. False)"
  unfolding announce_def
  by (rule triple_bind [OF succeeds_append [OF assms]])
    (auto simp: triple_def reportProgress_def split: option.splits)

lemma phase_strategies: "classifyFailure failure \<noteq> ''unknown'' \<Longrightarrow> availableStrategies (classifyFailure failure) PhaseScope \<noteq> []"
proof -
  have "list_all (\<lambda>cls. cls = ''unknown'' \<or> availableStrategies cls PhaseScope \<noteq> []) VALID_CLASSES" by code_simp
  with classify_valid show "classifyFailure failure \<noteq> ''unknown'' \<Longrightarrow> ?thesis" by (auto simp: list_all_iff)
qed

lemma first_strategy:
  fixes P n s
  defines "r \<equiv> selectFailureRecovery (sha256 P) (fld (rn_result n) ''failure'') (previousFingerprint s) (previousStrategy s) None PhaseScope"
  assumes "untouched P n s" "classifyFailure (fld (rn_result n) ''failure'') \<noteq> ''unknown''"
  shows "or_null (retryStrategy r) \<noteq> None" "strategyChanged r"
proof -
  let ?cs = "availableStrategies (classifyFailure (fld (rn_result n) ''failure'')) PhaseScope"
  have pf: "previousFingerprint s \<noteq> Some (failureFingerprint r)"
    using assms(2) unfolding r_def select_fields(2) by (simp add: untouched_def)
  obtain s0 cs where cs: "?cs = s0 # cs" using phase_strategies [OF assms(3)] by (cases ?cs) auto
  moreover have "[] \<notin> set ?cs" by (rule available_shape(2))
  ultimately have "s0 \<noteq> []" by auto
  have "retryStrategy r = Some s0"
  proof -
    have "retryStrategy r = chosen_strategy ?cs (previousFingerprint s = Some (failureFingerprint r)) (previousStrategy s) None"
      unfolding r_def select_fields(3) select_fields(1) ..
    moreover have "nth_opt ?cs 0 = Some s0" "or_null (Some s0) = Some s0"
      using cs \<open>s0 \<noteq> []\<close> by (simp_all add: nth_opt_def or_null_Some)
    ultimately show ?thesis using pf by (simp add: chosen_strategy_def) (simp add: or_null_def)
  qed
  with \<open>s0 \<noteq> []\<close> pf show "or_null (retryStrategy r) \<noteq> None" "strategyChanged r"
    by (simp_all add: or_null_def r_def select_fields(4) split: list.splits)
qed

lemma first_prepare:
  assumes "classifyFailure (fld (rn_result n) ''failure'') \<noteq> ''unknown''" "0 < b"
  shows "triple (untouched P n) (prepareRecovery (observed P) n b attempt retryClass None override)
    (\<lambda>p s. p \<noteq> None) (\<lambda>_. False)"
  unfolding triple_def
proof (intro allI impI, goal_cases)
  case (1 s)
  then have s: "last_result s = rn_result n" "phaseRetryCount s = 0" by (simp_all add: untouched_def)
  from first_strategy [OF 1 assms(1)] s assms(2) show ?case
    by (simp add: prepareRecovery_def Let_def del: not_None_eq)
qed

lemma first_round:
  assumes "log_works P" "\<And>w. aborted P w = None" "rd_delay d = None" "0 < b"
    "classifyFailure (fld (rn_result n) ''failure'') \<noteq> ''unknown''"
    "\<not> isPhasePassed (rn_result n)" "failure_kind (rn_result n) \<in> set kinds"
    "failure_kind (rn_result n) \<notin> set HARD_CONSTRAINT_DENIED_KINDS" "failure_kind (rn_result n) \<notin> set CROSS_PHASE_REPAIR_KINDS"
  shows "triple (untouched P n)
    (retry_loop (observed P) (observed_phase runPhase) (loop_delay (observed P) (observed_deps d)) ctx n b m bd kinds (Suc k) a)
    (\<lambda>_. has_rerun) has_rerun"
proof -
  have quiet_delay: "triple (\<lambda>_. True) (outside (loop_delay (observed P) (observed_deps d) ms)) (\<lambda>_ _. True) (\<lambda>_. False)" for ms
    using assms(2,3) by (auto simp: triple_def outside_def loop_delay_def or_default_def observed_deps_def defaultDelay_def
        observed_def Let_def split: prod.splits if_splits)
  have run: "triple (\<lambda>_. True) (rerun (observed P) (observed_phase runPhase) ctx n retry) (\<lambda>_. has_rerun) has_rerun" for retry
    by (rule triple_pre [OF reruns_has_rerun]) (simp add: assms(2))
  have step: "triple (\<lambda>_. True) (bind (announce (observed P) ev) (\<lambda>_.
      bind (outside (loop_delay (observed P) (observed_deps d) ms)) (\<lambda>_.
      bind (rerun (observed P) (observed_phase runPhase) ctx n retry) (\<lambda>_.
      retry_loop (observed P) (observed_phase runPhase) (loop_delay (observed P) (observed_deps d)) ctx n b m bd kinds k (Suc a)))))
      (\<lambda>_. has_rerun) has_rerun" for ev ms retry
    by (rule triple_bind [OF triple_conseq [OF succeeds_announce [OF assms(1)]]
          triple_bind [OF triple_conseq [OF quiet_delay] triple_bind [OF run rerun_kept.retry_keeps]]]) simp_all
  have prep: "triple (\<lambda>s. untouched P n s) (prepareRecovery (observed P) n b a' c None None) (\<lambda>p _. p \<noteq> None) has_rerun" for a' c
    by (rule triple_conseq [OF first_prepare [OF assms(5,4)]]) simp_all
  have cont: "triple (\<lambda>_. p \<noteq> None) (case p of None \<Rightarrow> pass () | Some (r, retry) \<Rightarrow> g r retry) (\<lambda>_. has_rerun) has_rerun"
    if "\<And>r retry. triple (\<lambda>_. True) (g r retry) (\<lambda>_. has_rerun) has_rerun" for p g
  proof (cases p)
    case None
    then show ?thesis by (simp add: triple_def)
  next
    case (Some rr)
    obtain r retry where "rr = (r, retry)" by (cases rr)
    with Some show ?thesis using triple_pre [OF that] by simp
  qed
  show ?thesis
    unfolding retry_loop.simps Let_def
  proof (rule triple_bind_reads, goal_cases)
    case (1 res)
    show ?case
    proof (rule triple_pure [where c = "res = rn_result n"], goal_cases)
      case (1 s)
      then show ?case by (auto simp: untouched_def)
    next
      case 2
      with assms(6-9) show ?case
        by (simp only: simp_thms if_False) (rule triple_bind [OF triple_pre [OF prep] cont [OF step]], simp)
    qed
  qed
qed

definition quota_failure :: "js \<Rightarrow> bool" where
  "quota_failure res = startsWith (stringValue (fld (fld (fld res ''failure'') ''cause'') ''code'')) ''QUOTA_DELEGATE_''"

definition transient :: "'w ports \<Rightarrow> retry_node \<Rightarrow> string list \<Rightarrow> bool" where
  \<comment> \<open>the phase failed in a way that is retried, and this is not the failure it was retried for before\<close>
  "transient P n kinds = (\<not> isPhasePassed (rn_result n) \<and> \<not> quota_failure (rn_result n)
     \<and> failure_kind (rn_result n) \<in> set kinds
     \<and> failure_kind (rn_result n) \<notin> set (HARD_CONSTRAINT_DENIED_KINDS @ CROSS_PHASE_REPAIR_KINDS)
     \<and> classifyFailure (fld (rn_result n) ''failure'') \<noteq> ''unknown''
     \<and> fst (prior_id n) \<noteq> Some (stableFailureFingerprint (sha256 P) (fld (rn_result n) ''failure'')))"

lemma transient_stages:
  assumes "log_works P" "\<And>w. aborted P w = None" "rd_delay d = None" "1 \<le> retry_total d n"
    "1 \<le> or_default (rd_retryMax d) (configuredPhaseRetryMax (rn_env n))"
    "transient P n (or_default (rd_retryableKinds d) DEFAULT_PHASE_RETRYABLE_KINDS)"
  shows "triple (untouched P n) (retry_stages (observed P) (observed_phase runPhase) ctx n (observed_deps d)) (\<lambda>_. has_rerun) has_rerun"
proof -
  let ?kinds = "or_default (rd_retryableKinds d) DEFAULT_PHASE_RETRYABLE_KINDS"
  have t: "\<not> isPhasePassed (rn_result n)" "failure_kind (rn_result n) \<in> set ?kinds"
    "failure_kind (rn_result n) \<notin> set HARD_CONSTRAINT_DENIED_KINDS" "failure_kind (rn_result n) \<notin> set CROSS_PHASE_REPAIR_KINDS"
    "classifyFailure (fld (rn_result n) ''failure'') \<noteq> ''unknown''"
    and q: "\<not> startsWith (stringValue (fld (fld (fld (rn_result n) ''failure'') ''cause'') ''code'')) ''QUOTA_DELEGATE_''"
    using assms(6) by (auto simp: transient_def quota_failure_def)
  obtain k where k: "loop_count (or_default (rd_retryMax d) (configuredPhaseRetryMax (rn_env n))) = Suc k"
    using assms(5) by (cases "loop_count (or_default (rd_retryMax d) (configuredPhaseRetryMax (rn_env n)))")
      (auto simp: loop_count_def)
  have b: "0 < retry_total d n" using assms(4) by simp
  have quality: "triple (untouched P n) (unless_passed (\<lambda>_. True)
      (quality_loop (observed P) (observed_phase runPhase) ctx n (retry_total d n) m j a)) (\<lambda>_. untouched P n) has_rerun" for m j a
  proof -
    have loop: "triple (\<lambda>s. untouched P n s) (quality_loop (observed P) (observed_phase runPhase) ctx n (retry_total d n) m j a)
        (\<lambda>_. untouched P n) has_rerun"
    proof (cases j)
      case 0
      then show ?thesis by (simp add: triple_def pass_def)
    next
      case (Suc i)
      with t(3) show ?thesis by (auto simp: triple_def pass_def bind_def reads_def untouched_def)
    qed
    show ?thesis unfolding unless_passed_def
      by (rule triple_bind_reads, rule triple_if) (rule triple_pre [OF loop] triple_pass; simp)+
  qed
  have retry: "triple (untouched P n) (unless_passed (\<lambda>_. True)
      (retry_loop (observed P) (observed_phase runPhase) (loop_delay (observed P) (observed_deps d)) ctx n (retry_total d n) m bd ?kinds (Suc k) a))
      (\<lambda>_. has_rerun) has_rerun" for m bd a
    unfolding unless_passed_def
    by (rule triple_bind_reads, rule triple_if, rule triple_pre [OF first_round [OF assms(1,2,3) b t(5,1-4)]], simp)
      (use t(1) in \<open>auto simp: triple_def untouched_def\<close>)
  show ?thesis
    unfolding retry_stages_def Let_def observed_limits loop_delay_def [symmetric] k
    using q by (simp only: simp_thms eq_False) (rule triple_bind [OF quality
      triple_bind [OF retry rerun_kept.unless_passed_keeps [OF rerun_kept.feedback_keeps]]])
qed

lemma transient_reruns:
  assumes "log_works P" "\<And>w. aborted P w = None" "rd_runPhase d = Some runPhase" "rd_delay d = None"
    "1 \<le> retry_total d n" "1 \<le> or_default (rd_retryMax d) (configuredPhaseRetryMax (rn_env n))"
    "transient P n (or_default (rd_retryableKinds d) DEFAULT_PHASE_RETRYABLE_KINDS)"
  shows "reruns_of (observed_run P ctx n d w) \<noteq> []"
proof -
  let ?s = "first_run n (w, [] :: rerun_log)"
  have s: "untouched P n ?s"
    using assms(7) by (simp add: untouched_def first_run_def Let_def transient_def prior_id_def)
  have hard: "failure_kind (rn_result n) \<notin> set HARD_CONSTRAINT_DENIED_KINDS"
    using assms(7) by (simp add: transient_def)
  have first: "triple (untouched P n) (fallback_stage (observed P) (observed_phase runPhase) ctx n b allowed quota)
      (\<lambda>go s. go \<and> untouched P n s) has_rerun" for b allowed quota
    unfolding fallback_stage_def Let_def
    by (rule triple_bind_reads) (use hard in \<open>auto simp: triple_def untouched_def pass_def
      shouldFallbackExecuteHardConstraint_def\<close>)
  have stages: "triple (untouched P n) (retry_stages (observed P) (observed_phase runPhase) ctx n (observed_deps d)) (\<lambda>_. has_rerun) has_rerun"
    by (rule transient_stages [OF assms(1,2,4-7)])
  have body: "triple (untouched P n) (retry_body (observed P) (observed_phase runPhase) ctx n (observed_deps d)) (\<lambda>_. has_rerun) has_rerun"
    unfolding retry_body_def Let_def
  proof (rule triple_bind [OF first], goal_cases)
    case (1 go)
    show ?case
    proof (cases go)
      case True
      then show ?thesis by simp (rule triple_bind [OF stages triple_reads])
    qed (simp add: triple_def)
  qed
  have "triple (untouched P n) (bind (throwIfAborted (observed P)) (\<lambda>_. case rd_runPhase (observed_deps d) of
         None \<Rightarrow> raise (Raised (ErrorMsg ''runPhase dependency is required for phase retry loops''))
       | Some runPhase \<Rightarrow> retry_body (observed P) runPhase ctx n (observed_deps d))) (\<lambda>_. has_rerun) has_rerun"
  proof (rule triple_bind [where B = "\<lambda>_. untouched P n"], goal_cases)
    case 1
    show ?case by (simp add: triple_def throwIfAborted_def bind_def reads_def pass_def observed_def assms(2))
  next
    case 2
    show ?case unfolding observed_limits assms(3) option.map option.case by (rule body)
  qed
  from tripleD [OF this s] have "has_rerun (snd (observed_run P ctx n d w))"
    unfolding observed_run_def runPhaseRetryLoops_def by (auto split: prod.splits sum.splits)
  then show ?thesis by (simp add: has_rerun_def reruns_of_def)
qed

text \<open>When nothing outside throws, the loops return.\<close>

lemma loops_return:
  assumes "log_works P" "\<And>w. aborted P w = None" "rd_delay d = None" "rd_runPhase d = Some runPhase"
    "\<And>input w. \<exists>v w'. runPhase input w = (Inr v, w')"
  shows "\<exists>v t. observed_run P ctx n d w = (Inr v, t)"
proof -
  let ?T = "\<lambda>_ :: ('a \<times> rerun_log) run. True" and ?F = "\<lambda>_ :: ('a \<times> rerun_log) run. False"
  have tr: "triple ?T m (\<lambda>_ _. True) ?F" if "\<And>s. \<exists>v. fst (m s) = Inr v" for m :: "(('a \<times> rerun_log) run, 'b) act"
    unfolding triple_def
  proof (intro allI impI)
    fix s from that [of s] obtain v where "fst (m s) = Inr v" by blast
    then show "case m s of (Inr v, t) \<Rightarrow> True | (Inl _, t) \<Rightarrow> False" by (cases "m s") simp
  qed
  have prep: "triple (\<lambda>s. True \<and> \<not> isPhasePassed (last_result s)) (prepareRecovery (observed P) n b a c pr i)
      (\<lambda>p s. case p of None \<Rightarrow> True | Some (r, retry) \<Rightarrow> True \<and> tells r retry) ?F" for b a c pr i
    unfolding triple_def
  proof (intro allI impI, goal_cases)
    case (1 s)
    have stop: "triple ?T (bind (appendRuntimeEvent (observed P) ev) (\<lambda>_. pass None))
        (\<lambda>p s. case p of None \<Rightarrow> True | Some (r, retry) \<Rightarrow> True \<and> tells r retry) ?F" for ev
      by (rule triple_bind [OF succeeds_append [OF assms(1)] triple_pass]) simp
    from prepare_cases [of "observed P" n b a c pr i s] show ?case
    proof (elim disjE exE, goal_cases)
      case (1 ev)
      from tripleD [OF stop [of ev], of s] 1 show ?case by (simp only: simp_thms)
    next
      case (2 r)
      then show ?case by (simp add: tells_context)
    qed
  qed
  have delay: "triple ?T (outside (loop_delay (observed P) (observed_deps d) ms)) (\<lambda>_ _. True) ?F" for ms
    using assms(2,3) by (auto simp: triple_def outside_def loop_delay_def or_default_def observed_deps_def defaultDelay_def
        observed_def Let_def split: prod.splits if_splits)
  have run: "triple ?T (rerun (observed P) (observed_phase runPhase) ctx n retry) (\<lambda>_ _. True) ?F" for retry
  proof (rule tr)
    fix s :: "('a \<times> rerun_log) run"
    obtain v w' where "runPhase (phaseInput ctx n (phaseAgents s) (JObj (obj_set ''retry'' (JObj retry) (own (rn_sourceContext n)))))
        (fst (world s)) = (Inr v, w')" using assms(5) by blast
    then show "\<exists>v. fst (rerun (observed P) (observed_phase runPhase) ctx n retry s) = Inr v"
      by (simp add: rerun_def bind_def change_def throwIfAborted_def reads_def pass_def observed_def assms(2) outside_def observed_phase_def)
  qed
  have stages: "rerun_stages (observed P) (observed_phase runPhase) (loop_delay (observed P) (observed_deps d)) ctx n b ?T (\<lambda>_. ?T) ?F" for b
    by unfold_locales (rule prep, rule triple_conseq [OF succeeds_announce [OF assms(1)]], simp_all,
      rule triple_conseq [OF succeeds_announce [OF assms(1)]], simp_all add: delay run)
  have total: "retry_total (observed_deps d) n = retry_total d n" by (rule observed_limits)
  have body: "triple ?T (retry_body (observed P) (observed_phase runPhase) ctx n (observed_deps d)) (\<lambda>_ _. True) ?F"
    unfolding retry_body_def Let_def
  proof (rule triple_bind [OF rerun_stages.fallback_stage_keeps [OF stages]], goal_cases)
    case (1 go)
    show ?case
      by (rule triple_if, rule triple_reads, simp,
          rule triple_bind [OF stages_keep [OF stages] triple_reads]) simp
  qed
  have "triple ?T (bind (throwIfAborted (observed P)) (\<lambda>_. case rd_runPhase (observed_deps d) of
         None \<Rightarrow> raise (Raised (ErrorMsg ''runPhase dependency is required for phase retry loops''))
       | Some runPhase \<Rightarrow> retry_body (observed P) runPhase ctx n (observed_deps d))) (\<lambda>_ _. True) ?F"
  proof (rule triple_bind [where B = "\<lambda>_. ?T"], goal_cases)
    case 1
    show ?case by (simp add: triple_def throwIfAborted_def bind_def reads_def pass_def observed_def assms(2))
  next
    case 2
    show ?case unfolding observed_limits assms(4) option.map option.case by (rule body)
  qed
  from tripleD [OF this, of "first_run n (w, [])"] have "case observed_run P ctx n d w of (Inr v, t) \<Rightarrow> True | (Inl _, t) \<Rightarrow> False"
    unfolding observed_run_def runPhaseRetryLoops_def by simp
  then show ?thesis by (simp split: prod.splits sum.splits)
qed

section \<open>The claims\<close>

text \<open>C18: whatever the phase runner, the log, the clock and the signal do, a phase is run again at most as
  often as the budget of the call says, rounded up.\<close>

theorem phase_reruns_bounded:
  "length (reruns_of (observed_run P ctx n deps w)) \<le> nat \<lceil>retry_total deps n\<rceil>"
proof -
  let ?k = "length (reruns_of (observed_run P ctx n deps w))"
  have "rat_of_nat ?k < retry_total deps n + 1"
    using observed_run_ok(1) [of P n deps ctx w] by (simp add: exit_ok_def log_ok_def reruns_of_def)
  then have "of_int (int ?k - 1) < retry_total deps n" by simp
  then have "int ?k - 1 < \<lceil>retry_total deps n\<rceil>" by (simp only: less_ceiling_iff)
  then show ?thesis by linarith
qed

text \<open>C19: every rerun carries a recovery with a changed, non-empty strategy; and when it answers the same failure
  as the rerun before it (for the first, as the retry the phase came with), its strategy ranks higher among
  the strategies for the class of the failure.\<close>

theorem reruns_escalate:
  "let inputs = map fst (reruns_of (observed_run P ctx n deps w))
   in list_all informed inputs \<and> escalating (prior_id n) inputs"
  using observed_run_ok(1) [of P n deps ctx w]
  by (auto simp: Let_def exit_ok_def log_ok_def reruns_of_def list_all_iff)

text \<open>C20: a failure that stays the same is rerun in a row at most once more than its class has strategies within a
  phase, each time differently.\<close>

theorem same_failure_reruns:
  assumes "map fst (reruns_of (observed_run P ctx n deps w)) = before @ same @ rest" "list_all (answers fp cls) same"
  shows "distinct same \<and> length same \<le> Suc (length (availableStrategies cls PhaseScope))"
proof (rule same_failure_chain [OF _ assms(2)])
  have "escalating (prior_id n) (before @ same @ rest)"
    using observed_run_ok(1) [of P n deps ctx w] by (simp add: exit_ok_def log_ok_def reruns_of_def flip: assms(1))
  from escalating_drop [OF this] show "escalating (last_id (prior_id n) before) same"
    by (metis escalating_take)
qed

text \<open>C21: a phase is run again only after a failure: neither the result it came with nor the outcome of a rerun that
  another one follows has passed.\<close>

theorem only_failures_rerun:
  "list_all (\<lambda>out. \<not> passed_outcome out) (butlast (outcomes n (reruns_of (observed_run P ctx n deps w))))"
  using observed_run_ok(1) [of P n deps ctx w] by (simp add: exit_ok_def log_ok_def reruns_of_def)

text \<open>C22: every rerun has the agents of the phase, or, for an execute phase and if the agent policy allows it, these
  with the configured fallback agent in the role.\<close>

theorem rerun_agents_allowed:
  "list_all (\<lambda>e. agents_allowed P n (fst e)) (reruns_of (observed_run P ctx n deps w))"
  using observed_run_ok(1) [of P n deps ctx w] by (auto simp: exit_ok_def log_ok_def reruns_of_def list_all_iff)

text \<open>C23: when the loops return, they return the last outcome (the given result when nothing was rerun), with the
  number of reruns in its diagnostics.\<close>

theorem last_outcome_returned:
  assumes "observed_run P ctx n deps w = (Inr v, t)"
  shows "reported n v t \<and> phaseRetryCount t = length (snd (world t))"
  using observed_run_ok(2) [OF assms] by (simp add: between_def Let_def)

text \<open>C24: a phase that failed in a transient way is run again: when appending to the log does not throw, nothing is
  aborted and the limits allow one retry, the loops rerun it at least once, unless its failure is the one it was
  retried for already.\<close>

theorem transient_failure_rerun:
  assumes "log_works P" "\<And>w. aborted P w = None" "rd_runPhase d = Some runPhase" "rd_delay d = None"
    "1 \<le> retry_total d n" "1 \<le> or_default (rd_retryMax d) (configuredPhaseRetryMax (rn_env n))"
    "transient P n (or_default (rd_retryableKinds d) DEFAULT_PHASE_RETRYABLE_KINDS)"
  shows "reruns_of (observed_run P ctx n d w) \<noteq> []"
  by (rule transient_reruns [OF assms])

end
