(* ===== verification/PhaseRetryExamples.thy ===== *)
theory PhaseRetryExamples
  imports PhaseRetryProperties
begin

text \<open>Runs of the retry loops at concrete inputs: the hypotheses of the properties hold there.\<close>

definition pr_ports :: "nat ports" where
  "pr_ports = \<lparr>aborted = (\<lambda>_. None), appendEvent = Some (\<lambda>ev w. (Inr (), w)), onProgress = None,
     sleep = (\<lambda>ms w. w), clock = (\<lambda>_. ''2026-01-01T00:00:00.000Z''), sha256 = (\<lambda>s. ''h''),
     agents_known = \<lparr>registry = [], discovered = [], squads = [], rrCounters = []\<rparr>\<rparr>"

definition pr_failed :: js where
  "pr_failed = JObj [(''status'', JStr ''failed''),
     (''failure'', JObj [(''kind'', JStr ''artifact_invalid''), (''reason'', JStr ''bad''), (''retryable'', JBool True)])]"

definition pr_node :: retry_node where
  "pr_node = \<lparr>rn_phase = ''plan'', rn_role = ''planner'', rn_nodeId = ''n1'', rn_dagNode = JNull, rn_project = ''p'',
     rn_task = ''t'', rn_jobId = ''j'', rn_job = JNull, rn_workflow = JUndef, rn_planMode = JUndef, rn_cpbRoot = ''/r'',
     rn_dataRoot = JNull, rn_sourcePath = JNull, rn_sourceContext = JObj [], rn_pool = JNull, rn_state = JObj [],
     rn_phaseResults = [], rn_attemptId = JNull, rn_scope = JUndef, rn_env = [], rn_conversationKey = None,
     rn_phaseTimeout = Fin 1, rn_phaseAgents = [(''planner'', JStr ''codex'')], rn_result = pr_failed\<rparr>"

definition pr_deps :: "(js \<Rightarrow> nat \<Rightarrow> (thrown + js) \<times> nat) \<Rightarrow> nat retry_deps" where
  "pr_deps runPhase = \<lparr>rd_retryMax = None, rd_feedbackRetryMax = None, rd_qualityRepairMax = None, rd_retryTotalMax = None,
     rd_retryableKinds = Some [''artifact_invalid''], rd_feedbackKinds = None, rd_baseDelayMs = Some 0, rd_delay = None,
     rd_runPhase = Some runPhase\<rparr>"

definition pr_fails :: "js \<Rightarrow> nat \<Rightarrow> (thrown + js) \<times> nat" where
  "pr_fails input w = (Inr pr_failed, Suc w)"

lemma pr_env: "configuredPhaseRetryTotalMax [] = 3" "configuredPhaseRetryMax [] = 2"
  by (simp_all add: configuredPhaseRetryTotalMax_def configuredPhaseRetryMax_def numericEnv_def)

lemma pr_outside: "log_works pr_ports" "aborted pr_ports w = None"
  "rd_runPhase (pr_deps f) = Some f" "rd_delay (pr_deps f) = None" "\<exists>v w'. pr_fails input w = (Inr v, w')"
  by (simp_all add: log_works_def pr_ports_def pr_deps_def pr_fails_def)

lemma pr_limits: "1 \<le> retry_total (pr_deps f) pr_node"
  "1 \<le> or_default (rd_retryMax (pr_deps f)) (configuredPhaseRetryMax (rn_env pr_node))"
  by (simp_all add: retry_total_def pr_deps_def pr_node_def or_default_def pr_env)

lemma pr_transient: "transient pr_ports pr_node (or_default (rd_retryableKinds (pr_deps f)) DEFAULT_PHASE_RETRYABLE_KINDS)"
proof -
  have "classifyFailure (fld pr_failed ''failure'') \<noteq> ''unknown''"
    "failure_kind pr_failed \<in> set [''artifact_invalid'']"
    "failure_kind pr_failed \<notin> set (HARD_CONSTRAINT_DENIED_KINDS @ CROSS_PHASE_REPAIR_KINDS)"
    "\<not> isPhasePassed pr_failed" "\<not> quota_failure pr_failed" by code_simp+
  moreover have "fst (prior_id pr_node) = None" by (simp add: prior_id_def pr_node_def str_opt_def)
  moreover have "rn_result pr_node = pr_failed" "or_default (rd_retryableKinds (pr_deps f)) DEFAULT_PHASE_RETRYABLE_KINDS = [''artifact_invalid'']"
    by (simp_all add: pr_node_def pr_deps_def or_default_def)
  ultimately show ?thesis unfolding transient_def by simp
qed

definition pr_run :: "(thrown + js) \<times> (nat \<times> rerun_log) run" where
  "pr_run = observed_run pr_ports \<lparr>rx_agent = JNull\<rparr> pr_node (pr_deps pr_fails) 0"

lemma pr_reruns: "reruns_of pr_run \<noteq> []"
  unfolding pr_run_def by (rule transient_reruns [OF pr_outside(1-4) pr_limits pr_transient])

theorem transient_failure_rerun_witness: "reruns_of pr_run \<noteq> []"
  unfolding pr_run_def by (rule transient_failure_rerun [OF pr_outside(1-4) pr_limits pr_transient])

theorem last_outcome_returned_witness:
  "\<exists>v t. pr_run = (Inr v, t) \<and> snd (world t) \<noteq> [] \<and> reported pr_node v t \<and> phaseRetryCount t = length (snd (world t))"
proof -
  obtain v t where run: "pr_run = (Inr v, t)"
    using loops_return [of pr_ports "pr_deps pr_fails" pr_fails] pr_outside unfolding pr_run_def by metis
  from last_outcome_returned [OF run [unfolded pr_run_def]] pr_reruns [unfolded reruns_of_def run snd_conv] run show ?thesis by blast
qed

theorem same_failure_reruns_witness:
  "\<exists>input fp cls. map fst (reruns_of pr_run) = [] @ [input] @ tl (map fst (reruns_of pr_run))
     \<and> list_all (answers fp cls) [input]
     \<and> length [input] \<le> Suc (length (availableStrategies cls PhaseScope))"
proof -
  obtain input rest where l: "map fst (reruns_of pr_run) = [] @ [input] @ rest"
    using pr_reruns by (cases "reruns_of pr_run") auto
  let ?fp = "fst (told_id input)" and ?cls = "to_str (retry_told input ''failureClass'')"
  have a: "list_all (answers ?fp ?cls) [input]" by (simp add: answers_def)
  from same_failure_reruns [OF l [unfolded pr_run_def] a] l a show ?thesis by auto
qed

end
