(* ===== verification/Observables.thy ===== *)
theory Observables
  imports JsRegex
begin

text \<open>
  Observable contracts (\<^verbatim>\<open>core/workflow/observable-contract.ts\<close>): the statement, frozen before any
  code is written, of what a probe must observe, with its hash, and the check that the verifier ran
  commands that assert it.

  \<open>sha\<close> stands for the hex digest of SHA-256; what the lemmas assume of it is \<open>sha_ok\<close>, that it
  prints 64 lower-case hexadecimal digits.
\<close>

section \<open>Normalisation\<close>

definition OBSERVATION_KINDS :: "string list" where
  "OBSERVATION_KINDS = [''exact_text'', ''contains_text'', ''state_transition'', ''invariant'']"

definition TEXT_OBSERVATION_KINDS :: "string list" where
  "TEXT_OBSERVATION_KINDS = [''exact_text'', ''contains_text'']"

definition TEXT_BEHAVIOR_SIGNAL :: re where
  "TEXT_BEHAVIOR_SIGNAL = alts
     [lit_ci ''diagnostic'',
      cats [lit_ci ''error'', plus_re space, lit_ci ''message''],
      cats [lit_ci ''exception'', plus_re space, lit_ci ''message''],
      cats [lit_ci ''message'', plus_re space, alts [lit_ci ''text'', lit_ci ''wording'']],
      cats [lit_ci ''human'', any_of ''- '', lit_ci ''readable''],
      Cat (lit_ci ''render'') (opt_re (alts [lit_ci ''ed'', lit_ci ''ing''])),
      Cat (lit_ci ''format'') (opt_re (alts [lit_ci ''ted'', lit_ci ''ting''])),
      lit_ci ''stdout'',
      lit_ci ''stderr'',
      cats [lit_ci ''response'', plus_re space, lit_ci ''body''],
      cats [lit_ci ''output'', plus_re space, lit_ci ''text''],
      lit_ci [CHR 0xE9, CHR 0x94, CHR 0x99, CHR 0xE8, CHR 0xAF, CHR 0xAF, CHR 0xE4, CHR 0xBF, CHR 0xA1, CHR 0xE6, CHR 0x81, CHR 0xAF],
      lit_ci [CHR 0xE5, CHR 0xBC, CHR 0x82, CHR 0xE5, CHR 0xB8, CHR 0xB8, CHR 0xE4, CHR 0xBF, CHR 0xA1, CHR 0xE6, CHR 0x81, CHR 0xAF],
      lit_ci [CHR 0xE6, CHR 0x8F, CHR 0x90, CHR 0xE7, CHR 0xA4, CHR 0xBA, CHR 0xE6, CHR 0x96, CHR 0x87, CHR 0xE6, CHR 0x9C, CHR 0xAC],
      lit_ci [CHR 0xE6, CHR 0x8F, CHR 0x90, CHR 0xE7, CHR 0xA4, CHR 0xBA, CHR 0xE8, CHR 0xAF, CHR 0xAD],
      lit_ci [CHR 0xE6, CHR 0x96, CHR 0x87, CHR 0xE6, CHR 0xA1, CHR 0x88],
      lit_ci [CHR 0xE8, CHR 0xBE, CHR 0x93, CHR 0xE5, CHR 0x87, CHR 0xBA, CHR 0xE6, CHR 0x96, CHR 0x87, CHR 0xE6, CHR 0x9C, CHR 0xAC]]"

definition text_list :: "js \<Rightarrow> string list" where
  \<comment> \<open>\<^verbatim>\<open>stringArray\<close> of this module\<close>
  "text_list v = filter (\<lambda>s. s \<noteq> []) (map trimmed (arr v))"

record source_ref =
  ref_kind :: string
  ref_locator :: string
  ref_sha256 :: "string option"

record observable_contract =
  observationKind :: string
  probeInput :: string
  expectedObservation :: string
  forbiddenObservations :: "string list"
  oracleSourceRefs :: "source_ref list"
  candidateIndependent :: bool

definition normalizedSourceRefs :: "js \<Rightarrow> source_ref list" where
  "normalizedSourceRefs v = filter (\<lambda>r. ref_kind r \<noteq> [] \<and> ref_locator r \<noteq> [])
     (map (\<lambda>r. \<lparr>ref_kind = trimmed (fld r ''kind''), ref_locator = trimmed (fld r ''locator''),
        ref_sha256 = (if trimmed (fld r ''sha256'') = [] then None else Some (trimmed (fld r ''sha256'')))\<rparr>) (recordArray v))"

definition normalizeObservableContract :: "js \<Rightarrow> observable_contract" where
  "normalizeObservableContract v =
     \<lparr>observationKind = trimmed (fld v ''observationKind''), probeInput = trimmed (fld v ''probeInput''),
      expectedObservation = trimmed (fld v ''expectedObservation''),
      forbiddenObservations = text_list (fld v ''forbiddenObservations''),
      oracleSourceRefs = normalizedSourceRefs (fld v ''oracleSourceRefs''),
      candidateIndependent = (fld v ''candidateIndependent'' = JBool True)\<rparr>"

definition source_ref_js :: "source_ref \<Rightarrow> js" where
  "source_ref_js r = JObj ([(''kind'', JStr (ref_kind r)), (''locator'', JStr (ref_locator r))]
     @ (case ref_sha256 r of None \<Rightarrow> [] | Some s \<Rightarrow> [(''sha256'', JStr s)]))"

definition contract_fields :: "observable_contract \<Rightarrow> (string \<times> js) list" where
  "contract_fields c = [(''observationKind'', JStr (observationKind c)), (''probeInput'', JStr (probeInput c)),
     (''expectedObservation'', JStr (expectedObservation c)), (''forbiddenObservations'', jstrs (forbiddenObservations c)),
     (''oracleSourceRefs'', JArr (map source_ref_js (oracleSourceRefs c))),
     (''candidateIndependent'', JBool (candidateIndependent c))]"

section \<open>Validation and freezing\<close>

definition contract_error :: "string \<Rightarrow> observable_contract \<Rightarrow> string option" where
  "contract_error prefix c =
     (if observationKind c \<notin> set OBSERVATION_KINDS then Some (prefix @ ''.observationKind is invalid'')
      else if probeInput c = [] then Some (prefix @ ''.probeInput is required'')
      else if expectedObservation c = [] then Some (prefix @ ''.expectedObservation is required'')
      else if oracleSourceRefs c = [] then Some (prefix @ ''.oracleSourceRefs is required'')
      else if \<not> candidateIndependent c then Some (prefix @ ''.candidateIndependent must be true'')
      else if observationKind c \<in> set TEXT_OBSERVATION_KINDS \<and> forbiddenObservations c = []
      then Some (prefix @ ''.forbiddenObservations must include at least one negative oracle'')
      else if expectedObservation c \<in> set (forbiddenObservations c)
      then Some (prefix @ ''.expectedObservation cannot also be forbidden'')
      else None)"

definition validateObservableContract :: "js \<Rightarrow> string \<Rightarrow> string + observable_contract" where
  "validateObservableContract v prefix =
     (let c = normalizeObservableContract v
      in case contract_error prefix c of Some e \<Rightarrow> Inl e | None \<Rightarrow> Inr c)"

definition pad3 :: "nat \<Rightarrow> string" where
  \<comment> \<open>\<^verbatim>\<open>String(n).padStart(3, "0")\<close>\<close>
  "pad3 n = replicate (3 - length (show_nat n)) (CHR ''0'') @ show_nat n"

definition observableContractSha256 :: "(string \<Rightarrow> string) \<Rightarrow> js \<Rightarrow> string" where
  "observableContractSha256 sha v =
     ''sha256:'' @ sha (json_text (JObj (contract_fields (normalizeObservableContract v)
        @ [(''contractId'', JStr (trimmed (fld v ''contractId''))),
           (''frozenBeforeExecution'', JBool (fld v ''frozenBeforeExecution'' = JBool True))])))"

definition freezeObservableContract :: "(string \<Rightarrow> string) \<Rightarrow> js \<Rightarrow> nat \<Rightarrow> js" where
  "freezeObservableContract sha v itemIndex =
     (let frozen = contract_fields (normalizeObservableContract v)
        @ [(''contractId'', JStr (''OBS-'' @ pad3 (itemIndex + 1))), (''frozenBeforeExecution'', JBool True)]
      in JObj (frozen @ [(''contractSha256'', JStr (observableContractSha256 sha (JObj frozen)))]))"

fun validate_contracts :: "nat \<Rightarrow> js list \<Rightarrow> string + js list" where
  "validate_contracts index [] = Inr []"
| "validate_contracts index (item # items) =
     thn (validateObservableContract (fld item ''observableContract'') (''decomposedItems['' @ show_nat index @ ''].observableContract''))
       (\<lambda>c. thn (validate_contracts (Suc index) items)
         (\<lambda>rest. Inr (JObj (obj_set ''observableContract'' (JObj (contract_fields c)) (own item)) # rest)))"

definition validatePlanObservableContracts :: "js list \<Rightarrow> string \<Rightarrow> string \<Rightarrow> string + js list" where
  "validatePlanObservableContracts items task problemModel =
     thn (validate_contracts 0 items) (\<lambda>normalized.
       let observableText = join nl ([task, problemModel] @ concat (map (\<lambda>item.
             [trimmed (fld item ''requirement''), trimmed (fld item ''expectedEvidence'')]) items))
       in if re_test TEXT_BEHAVIOR_SIGNAL observableText
             \<and> \<not> list_ex (\<lambda>item. trimmed (fld (fld item ''observableContract'') ''observationKind'') \<in> set TEXT_OBSERVATION_KINDS) normalized
          then Inl ''a user-visible text or diagnostic task requires an exact_text or contains_text observableContract''
          else Inr normalized)"

section \<open>Commands that assert a contract\<close>

text \<open>\<^verbatim>\<open>s.replaceAll(p, t)\<close> for a non-empty pattern.\<close>

fun replace_lit :: "nat \<Rightarrow> string \<Rightarrow> string \<Rightarrow> string \<Rightarrow> string" where
  "replace_lit skip p t [] = []"
| "replace_lit (Suc skip) p t (c # s) = replace_lit skip p t s"
| "replace_lit 0 p t (c # s) =
     (if startsWith (c # s) p then t @ replace_lit (length p - 1) p t s else c # replace_lit 0 p t s)"

definition decodedCommand :: "string \<Rightarrow> string" where
  "decodedCommand command =
     replace_lit 0 [CHR 0x5C, CHR 0x5C] [CHR 0x5C]
       (replace_lit 0 [CHR 0x5C, CHR 0x27] [CHR 0x27]
         (replace_lit 0 [CHR 0x5C, CHR 0x22] [CHR 0x22] command))"

definition commandContains :: "string \<Rightarrow> string \<Rightarrow> bool" where
  "commandContains command val =
     (val \<noteq> [] \<and> (includes_sub command val \<or> includes_sub (decodedCommand command) val
        \<or> includes_sub command (concat (map json_char val))))"

definition call_re :: "string \<Rightarrow> re" where
  \<comment> \<open>\<^verbatim>\<open>name\s*\(\<close> under the \<^verbatim>\<open>i\<close> flag\<close>
  "call_re name = cats [lit_ci name, Rep space, ch CHR ''('']"

definition assertion_re :: re where
  "assertion_re = alts [cats [WordB, lit_ci ''assert'', WordB], lit_ci ''assertEqual'',
     Cat (lit_ci ''assert_equal'') (opt_re (lit_ci ''s'')), call_re ''expect'', Cat (lit_ci ''should'') WordB,
     cats [lit_ci ''raise'', plus_re space, lit_ci ''SystemExit''], call_re ''process.exit'']"

definition exact_assertion_re :: re where
  "exact_assertion_re = alts [lit ''==='', lit ''=='', lit_ci ''assertEqual'',
     Cat (lit_ci ''assert_equal'') (opt_re (lit_ci ''s'')), call_re ''toBe'', call_re ''equal'']"

definition containment_assertion_re :: re where
  "containment_assertion_re = alts [cats [WordB, lit_ci ''in'', WordB],
     cats [lit_ci ''contain'', opt_re (lit_ci ''s''), Rep space, ch CHR ''(''],
     cats [lit_ci ''include'', opt_re (lit_ci ''s''), Rep space, ch CHR ''(''],
     call_re ''match'', lit ''==='', lit ''=='', lit_ci ''assert'']"

definition commandIsAssertion :: "string \<Rightarrow> string \<Rightarrow> bool" where
  "commandIsAssertion command kind =
     (let decoded = decodedCommand command
      in if \<not> re_test assertion_re decoded then False
         else if kind = ''exact_text'' then re_test exact_assertion_re decoded
         else re_test containment_assertion_re decoded)"

record text_contract =
  tc_contractId :: string
  tc_checklistId :: string
  tc_observationKind :: string
  tc_expected :: string
  tc_forbidden :: "string list"
  tc_allowedFiles :: "string list"

definition frozenTextContracts :: "js \<Rightarrow> text_contract list" where
  "frozenTextContracts checklist = concat (map (\<lambda>item.
     let contract = fld item ''observableContract''; kind = trimmed (fld contract ''observationKind'');
         contractId = trimmed (fld contract ''contractId''); checklistId = trimmed (fld item ''id'');
         expected = trimmed (fld contract ''expectedObservation'');
         forbidden = text_list (fld contract ''forbiddenObservations'')
     in if kind \<notin> set TEXT_OBSERVATION_KINDS \<or> fld contract ''frozenBeforeExecution'' \<noteq> JBool True then []
        else if contractId = [] \<or> checklistId = [] \<or> expected = [] \<or> forbidden = [] then []
        else [\<lparr>tc_contractId = contractId, tc_checklistId = checklistId, tc_observationKind = kind, tc_expected = expected,
               tc_forbidden = forbidden, tc_allowedFiles = text_list (fld item ''allowedFiles'')\<rparr>])
     (recordArray (fld (recordValue checklist) ''items'')))"

definition commandBindsContract :: "string \<Rightarrow> text_contract \<Rightarrow> bool" where
  "commandBindsContract command c = (commandIsAssertion command (tc_observationKind c)
     \<and> commandContains command (tc_expected c) \<and> list_all (commandContains command) (tc_forbidden c))"

record contract_coverage =
  cc_required :: bool
  cc_ok :: bool
  requiredContractIds :: "string list"
  passedContractIds :: "string list"
  failedContractIds :: "string list"
  missingContractIds :: "string list"
  cc_targetChecklistIds :: "string list"
  cc_fixScope :: "string list"

definition binding_statuses :: "js list \<Rightarrow> text_contract \<Rightarrow> string list" where
  \<comment> \<open>the statuses of the attempts that run a probe of the contract\<close>
  "binding_statuses attempts c = map (\<lambda>a. toLowerCase (trimmed (fld a ''status'')))
     (filter (\<lambda>a. trimmed (fld a ''executionClass'') = ''runtime_probe'' \<and> commandBindsContract (trimmed (fld a ''command'')) c) attempts)"

definition observableContractExecutionCoverage :: "js \<Rightarrow> js \<Rightarrow> contract_coverage" where
  "observableContractExecutionCoverage checklist independentExecutions =
     (let contracts = frozenTextContracts checklist;
          attempts0 = recordArray (fld independentExecutions ''attempts'');
          attempts = (if attempts0 \<noteq> [] then attempts0 else recordArray (fld independentExecutions ''observations''));
          passed = uniq (concat (map (\<lambda>c. map (\<lambda>_. tc_contractId c) (filter (\<lambda>s. s = ''completed'') (binding_statuses attempts c))) contracts));
          failed0 = uniq (concat (map (\<lambda>c. map (\<lambda>_. tc_contractId c)
             (filter (\<lambda>s. s \<in> set [''failed'', ''error'', ''cancelled'']) (binding_statuses attempts c))) contracts));
          failed = filter (\<lambda>i. i \<notin> set passed) failed0;
          missing = filter (\<lambda>i. i \<notin> set passed \<and> i \<notin> set failed) (map tc_contractId contracts);
          affected = filter (\<lambda>c. tc_contractId c \<in> set failed \<or> tc_contractId c \<in> set missing) contracts
      in if contracts = []
         then \<lparr>cc_required = False, cc_ok = True, requiredContractIds = [], passedContractIds = [], failedContractIds = [],
               missingContractIds = [], cc_targetChecklistIds = [], cc_fixScope = []\<rparr>
         else \<lparr>cc_required = True, cc_ok = (length passed = length contracts),
               requiredContractIds = map tc_contractId contracts, passedContractIds = sort passed,
               failedContractIds = sort failed, missingContractIds = sort missing,
               cc_targetChecklistIds = sort (uniq (map tc_checklistId affected)),
               cc_fixScope = sort (uniq (concat (map tc_allowedFiles affected)))\<rparr>)"

section \<open>Lemmas\<close>

lemma dropWhile_idem: "dropWhile P (dropWhile P xs) = dropWhile P xs"
  by (induction xs) simp_all

lemma trimStart_trimEnd_clean:
  assumes "s = [] \<or> \<not> is_space (hd s)"
  shows "trimStart s = s"
  using assms by (cases s) (simp_all add: trimStart_def)

lemma trim_idem [simp]: "trim (trim s) = trim s"
proof -
  let ?t = "trimStart s"
  have hd_t: "?t = [] \<or> \<not> is_space (hd ?t)" by (simp add: trimStart_def) (metis hd_dropWhile dropWhile_eq_Nil_conv)
  have "trimEnd ?t = [] \<or> \<not> is_space (hd (trimEnd ?t))"
  proof (cases "trimEnd ?t")
    case (Cons c r)
    obtain w where "?t = trimEnd ?t @ w"
      unfolding trimEnd_def by (metis rev_append rev_rev_ident takeWhile_dropWhile_id)
    with Cons have "hd ?t = c" "?t \<noteq> []" by (metis append_Cons list.sel(1), auto)
    with hd_t Cons show ?thesis by simp
  qed simp
  then have "trimStart (trim s) = trim s" unfolding trim_def by (rule trimStart_trimEnd_clean)
  moreover have "trimEnd (trim s) = trim s" by (simp add: trim_def trimEnd_def dropWhile_idem)
  ultimately show ?thesis by (simp add: trim_def [of "trim s"])
qed

lemma trim_nonempty_idem [simp]: "trim (trimmed v) = trimmed v"
proof -
  have "trim [] = []" by (simp add: trim_def trimStart_def trimEnd_def)
  then show ?thesis by (cases v) simp_all
qed

lemma text_list_jstrs [simp]: "text_list (jstrs (text_list v)) = text_list v"
proof -
  have "filter (\<lambda>s. s \<noteq> []) (map trim (filter (\<lambda>s. s \<noteq> []) (map trimmed vs))) = filter (\<lambda>s. s \<noteq> []) (map trimmed vs)" for vs
    by (induction vs) simp_all
  then show ?thesis by (simp add: text_list_def o_def)
qed

end
