(* ===== verification/Checklist.thy ===== *)
theory Checklist
  imports Observables ScopeGuard
begin

text \<open>
  The acceptance checklist: \<^verbatim>\<open>core/workflow/checklist-shared.ts\<close>,
  \<^verbatim>\<open>checklist-build.ts\<close> and \<^verbatim>\<open>checklist-validate.ts\<close>.

  A checklist, a verdict and a workflow DAG are values read from JSON, so they stay \<open>js\<close> values
  here. A validator that refuses returns the reason and, for a verdict, the missing required ids. The
  functions that read a property of an element without a guard may throw; their result is an
  \<open>Inl\<close> with a \<open>TypeError\<close>.
\<close>

section \<open>Shared definitions\<close>

definition ITEM_RESULTS :: "string list" where
  "ITEM_RESULTS = [''pass'', ''fail'', ''unchecked'']"

definition TOP_STATUSES :: "string list" where
  "TOP_STATUSES = [''pass'', ''fail'']"

definition RISK_VALUES :: "string list" where
  "RISK_VALUES = [''low'', ''medium'', ''high'']"

definition VERIFICATION_METHODS :: "string list" where
  "VERIFICATION_METHODS = [''command'', ''test'', ''static'', ''runtime_event'', ''artifact_event'', ''audit_export'',
     ''dag_event'', ''worker_lifecycle'', ''manual'', ''absence_check'']"

definition isChecklistId :: "js \<Rightarrow> bool" where
  "isChecklistId v = re_test (cats [Bol, lit ''AC-'', plus_re digit, Eol]) (trimmed v)"

definition evidenceKey :: "js \<Rightarrow> string" where
  "evidenceKey ref = trimmed (fld ref ''ledgerId'') @ '':'' @ trimmed (fld ref ''evidenceId'')"

type_synonym 'a checked = "(string \<times> string list) + 'a"

abbreviation refuse :: "string \<Rightarrow> 'a checked" where
  "refuse reason \<equiv> Inl (reason, [])"

section \<open>Building a checklist\<close>

definition bullet_re :: re where
  "bullet_re = cats [Bol, Rep space,
     alts [Cat (any_of ''-*+'') (plus_re space), cats [plus_re digit, any_of ''.)'', plus_re space]],
     Grp 1 (Cat (Cls (\<lambda>c. \<not> is_space c)) (Rep dot)), Eol]"

definition strip_cr :: "string \<Rightarrow> string" where
  "strip_cr s = (if s \<noteq> [] \<and> last s = CHR 0x0D then butlast s else s)"

definition lines_of :: "string \<Rightarrow> string list" where
  \<comment> \<open>\<^verbatim>\<open>s.split(/\r?\n/)\<close>: every line end but the last loses its carriage return\<close>
  "lines_of s = (let ls = split_char CHR 0x0A s in map strip_cr (butlast ls) @ [last ls])"

definition task_slice :: "string \<Rightarrow> string \<Rightarrow> string \<Rightarrow> js" where
  "task_slice sid locator t = JObj [(''id'', JStr sid), (''kind'', JStr ''task_text''), (''locator'', JStr locator),
     (''text'', JStr t), (''acceptanceRelevant'', JBool True)]"

fun bullet_slices :: "nat \<Rightarrow> string list \<Rightarrow> js list" where
  "bullet_slices n [] = []"
| "bullet_slices n (line # ls) =
     (case re_exec bullet_re line of
        None \<Rightarrow> bullet_slices n ls
      | Some m \<Rightarrow> (let requirement = trim (group m 1)
          in if length requirement < 4 then bullet_slices n ls
             else task_slice (''REQ-TASK-BULLET-'' @ show_nat (Suc n)) (''task:bullet:'' @ show_nat (Suc n)) requirement
                    # bullet_slices (Suc n) ls))"

definition extractTaskRequirementSlices :: "js \<Rightarrow> js list" where
  "extractTaskRequirementSlices task = (let taskText = trimmed task
     in if taskText = [] then []
        else task_slice ''REQ-001'' ''task:0'' taskText # bullet_slices 0 (lines_of taskText))"

fun map_ix :: "(nat \<Rightarrow> 'a \<Rightarrow> 'b) \<Rightarrow> nat \<Rightarrow> 'a list \<Rightarrow> 'b list" where
  "map_ix f i [] = []"
| "map_ix f i (x # xs) = f i x # map_ix f (Suc i) xs"

fun map_ix_r :: "(nat \<Rightarrow> 'a \<Rightarrow> 'e + 'b) \<Rightarrow> nat \<Rightarrow> 'a list \<Rightarrow> 'e + 'b list" where
  "map_ix_r f i [] = Inr []"
| "map_ix_r f i (x # xs) = thn (f i x) (\<lambda>y. thn (map_ix_r f (Suc i) xs) (\<lambda>ys. Inr (y # ys)))"

definition document_requirement :: "nat \<Rightarrow> js \<Rightarrow> js result" where
  "document_requirement index doc = thn (deref doc ''kind'') (\<lambda>kind. Inr (JObj
     [(''id'', JStr (''REQ-DOC-'' @ show_nat (index + 1))), (''kind'', or_else kind (JStr ''document'')),
      (''locator'', or_else (fld doc ''locator'') (JStr (''document:'' @ show_nat index))),
      (''acceptanceRelevant'', JBool (trimmed (or_else (fld doc ''text'') (fld doc ''content'')) \<noteq> []))]))"

definition classifyAcceptanceRequirements :: "js \<Rightarrow> js list \<Rightarrow> js result" where
  "classifyAcceptanceRequirements task documents =
     thn (map_ix_r document_requirement 0 documents) (\<lambda>docs. Inr (JObj
       [(''schemaVersion'', jnat 1),
        (''classifiedRequirements'', JArr (filter (\<lambda>e. truthy (fld e ''acceptanceRelevant''))
           (extractTaskRequirementSlices task @ docs)))]))"

definition text_or :: "js \<Rightarrow> js \<Rightarrow> js" where
  \<comment> \<open>\<^verbatim>\<open>text(v) || d\<close>\<close>
  "text_or v d = (if trimmed v \<noteq> [] then JStr (trimmed v) else d)"

definition default_evidence :: string where
  "default_evidence = ''method-specific evidence claim generated by a declared probe''"

definition decomposed_item :: "(string \<Rightarrow> string) \<Rightarrow> js \<Rightarrow> string \<Rightarrow> nat \<Rightarrow> js \<Rightarrow> js" where
  "decomposed_item sha task risk index entry = JObj (
     [(''id'', JStr (''AC-'' @ pad3 (index + 1))),
      (''requirement'', text_or (fld entry ''requirement'') task),
      (''source'', text_or (fld entry ''source'') (JStr ''task_text'')),
      (''sourceRefs'', if is_arr (fld entry ''sourceRefs'') \<and> arr (fld entry ''sourceRefs'') \<noteq> [] then fld entry ''sourceRefs''
         else JArr [JObj [(''kind'', JStr ''task_text''), (''locator'', JStr ''task:0''), (''sha256'', JNull)]]),
      (''predicateId'', text_or (fld entry ''predicateId'') (JStr (''PRED-'' @ pad3 (index + 1)))),
      (''required'', JBool True),
      (''area'', text_or (fld entry ''area'') (JStr ''core'')),
      (''risk'', JStr risk),
      (''verificationMethod'', text_or (fld entry ''verificationMethod'') (JStr ''static'')),
      (''expectedEvidence'', text_or (fld entry ''expectedEvidence'') (JStr default_evidence)),
      (''evidenceClass'', text_or (fld entry ''evidenceClass'') JUndef),
      (''requiredEvidenceClass'', text_or (fld entry ''requiredEvidenceClass'') JUndef),
      (''evidenceOrigin'', text_or (fld entry ''evidenceOrigin'') JUndef),
      (''requiredEvidenceOrigin'', text_or (fld entry ''requiredEvidenceOrigin'') JUndef)]
     @ (if is_bool (fld entry ''requiresRealPathEvidence'')
        then [(''requiresRealPathEvidence'', fld entry ''requiresRealPathEvidence'')] else [])
     @ (if truthy (fld entry ''observableContract'')
        then [(''observableContract'', freezeObservableContract sha (fld entry ''observableContract'') index)] else [])
     @ [(''dependsOn'', JArr (arr (fld entry ''dependsOn''))),
        (''allowedFiles'', JArr (filter isRepoRelativePosixPath (arr (fld entry ''allowedFiles''))))])"

definition requirement_item :: "js \<Rightarrow> string \<Rightarrow> nat \<Rightarrow> js \<Rightarrow> js result" where
  "requirement_item task risk index entry = thn (deref entry ''summary'') (\<lambda>summary. Inr (JObj
     [(''id'', JStr (''AC-'' @ pad3 (index + 1))),
      (''requirement'', JStr (trimmed (or_else (or_else summary (fld entry ''text'')) task))),
      (''source'', or_else (fld entry ''kind'') (JStr ''task_text'')),
      (''sourceRefs'', JArr [JObj [(''kind'', or_else (fld entry ''kind'') (JStr ''task_text'')),
         (''locator'', fld entry ''locator''), (''sha256'', or_else (fld entry ''sha256'') JNull)]]),
      (''predicateId'', JStr (''PRED-'' @ pad3 (index + 1))),
      (''required'', JBool True), (''area'', JStr ''core''), (''risk'', JStr risk), (''verificationMethod'', JStr ''static''),
      (''expectedEvidence'', JStr default_evidence), (''dependsOn'', JArr []), (''allowedFiles'', JArr [])]))"

definition mapped :: "(nat \<Rightarrow> js \<Rightarrow> js result) \<Rightarrow> js \<Rightarrow> js list result" where
  \<comment> \<open>\<^verbatim>\<open>(v || []).map(f)\<close>\<close>
  "mapped f v = (if \<not> truthy v then Inr [] else case v of JArr xs \<Rightarrow> map_ix_r f 0 xs
     | _ \<Rightarrow> Inl (TypeError ''map is not a function''))"

definition buildAcceptanceChecklist ::
  "(string \<Rightarrow> string) \<Rightarrow> js \<Rightarrow> js \<Rightarrow> js \<Rightarrow> js list \<Rightarrow> js \<Rightarrow> js \<Rightarrow> js \<Rightarrow> js result" where
  "buildAcceptanceChecklist sha jobId project task documents riskMap requirementClassification decomposedItems =
     thn (if truthy requirementClassification then Inr requirementClassification
          else classifyAcceptanceRequirements task documents) (\<lambda>classification.
     let risk = (if fld riskMap ''riskLevel'' = JStr ''high'' then ''high'' else ''medium'');
         decomposed = recordArray decomposedItems
     in thn (if decomposed \<noteq> [] then Inr (map_ix (decomposed_item sha task risk) 0 decomposed)
             else mapped (requirement_item task risk) (fld classification ''classifiedRequirements'')) (\<lambda>items.
        thn (map_r (\<lambda>doc. thn (deref doc ''locator'') (\<lambda>l. Inr (or_else l (fld doc ''path'')))) documents) (\<lambda>docs.
        Inr (JObj
          [(''schemaVersion'', jnat 1), (''jobId'', JStr (trimmed jobId)), (''project'', JStr (trimmed project)),
           (''source'', JObj [(''task'', JStr (trimmed task)), (''issue'', JNull),
              (''documents'', jstrs (map to_str (filter truthy docs))),
              (''requirementClassificationArtifact'', text_or (fld classification ''artifact'') JNull)]),
           (''status'', JStr ''frozen''), (''items'', JArr items), (''assumptions'', JArr [])]))))"

section \<open>Validating a checklist\<close>

definition requirement_words :: re where
  "requirement_words = cats [WordB,
     alts [lit_ci ''must'', lit_ci ''should'', lit_ci ''required'', lit_ci ''remain unchanged'', lit_ci ''non-regression''], WordB]"

definition at_index :: "string \<Rightarrow> nat \<Rightarrow> string" where
  "at_index name i = name @ ''['' @ show_nat i @ '']''"

fun assumption_error :: "nat \<Rightarrow> js list \<Rightarrow> string option" where
  "assumption_error i [] = None"
| "assumption_error i (a # as) =
     (if fld a ''risk'' = JStr ''high'' \<and> fld a ''acceptedForExecution'' = JBool True
      then Some (at_index ''assumptions'' i @ '' high-risk assumption cannot be silently accepted'')
      else if re_test requirement_words (trimmed (fld a ''text''))
      then Some (at_index ''assumptions'' i @ '' appears to contain an acceptance requirement'')
      else assumption_error (Suc i) as)"

definition sha_format :: re where
  "sha_format = cats [Bol, Cat (lit ''sha256:'') (times_re 64 (any_of ''abcdef0123456789'')), Eol]"

definition frozen_contract_error :: "(string \<Rightarrow> string) \<Rightarrow> string \<Rightarrow> js \<Rightarrow> string option" where
  "frozen_contract_error sha prefix item =
     (let contract = fld item ''observableContract''
      in if contract = JUndef then None
         else case validateObservableContract contract (prefix @ ''.observableContract'') of
            Inl reason \<Rightarrow> Some reason
          | Inr _ \<Rightarrow>
            if fld contract ''frozenBeforeExecution'' \<noteq> JBool True
            then Some (prefix @ ''.observableContract must be frozen before execution'')
            else if trimmed (fld contract ''contractId'') = [] then Some (prefix @ ''.observableContract.contractId is required'')
            else if \<not> re_test sha_format (trimmed (fld contract ''contractSha256''))
            then Some (prefix @ ''.observableContract.contractSha256 is invalid'')
            else if trimmed (fld contract ''contractSha256'') \<noteq> observableContractSha256 sha contract
            then Some (prefix @ ''.observableContract.contractSha256 does not match the frozen contract'')
            else None)"

text \<open>The checks of the fields that a checklist item and a decomposed item share.\<close>

definition real_path_error :: "string \<Rightarrow> js \<Rightarrow> string option" where
  "real_path_error prefix item =
     (if fld item ''requiresRealPathEvidence'' = JBool True \<and> trimmed (fld item ''verificationMethod'') = ''static''
      then Some (prefix @ ''.requiresRealPathEvidence cannot be satisfied by static diff-scope evidence'')
      else if fld item ''requiresRealPathEvidence'' = JBool True \<and> trimmed (fld item ''evidenceOrigin'') = ''agent_written''
      then Some (prefix @ ''.requiresRealPathEvidence cannot be satisfied by agent_written evidence'')
      else None)"

definition item_error :: "(string \<Rightarrow> string) \<Rightarrow> string \<Rightarrow> js \<Rightarrow> string option" where
  "item_error sha prefix item =
     (if trimmed (fld item ''requirement'') = [] then Some (prefix @ ''.requirement is required'')
      else if trimmed (fld item ''source'') = [] then Some (prefix @ ''.source is required'')
      else if arr (fld item ''sourceRefs'') = [] then Some (prefix @ ''.sourceRefs is required'')
      else if trimmed (fld item ''predicateId'') = [] then Some (prefix @ ''.predicateId is required'')
      else if \<not> is_bool (fld item ''required'') then Some (prefix @ ''.required must be boolean'')
      else if trimmed (fld item ''area'') = [] then Some (prefix @ ''.area is required'')
      else if trimmed (fld item ''risk'') \<notin> set RISK_VALUES then Some (prefix @ ''.risk must be low, medium, or high'')
      else if trimmed (fld item ''verificationMethod'') \<notin> set VERIFICATION_METHODS then Some (prefix @ ''.verificationMethod is invalid'')
      else case real_path_error prefix item of Some e \<Rightarrow> Some e | None \<Rightarrow>
      if trimmed (fld item ''expectedEvidence'') = [] then Some (prefix @ ''.expectedEvidence is required'')
      else case frozen_contract_error sha prefix item of Some e \<Rightarrow> Some e | None \<Rightarrow>
      if fld item ''dependsOn'' \<noteq> JUndef \<and> \<not> is_arr (fld item ''dependsOn'') then Some (prefix @ ''.dependsOn must be an array'')
      else if fld item ''allowedFiles'' \<noteq> JUndef \<and> \<not> is_arr (fld item ''allowedFiles'')
      then Some (prefix @ ''.allowedFiles must be an array'')
      else if \<not> list_all isRepoRelativePosixPath (arr (fld item ''allowedFiles''))
      then Some (prefix @ ''.allowedFiles contains invalid repo-relative path'')
      else None)"

fun items_loop :: "(string \<Rightarrow> string) \<Rightarrow> nat \<Rightarrow> string list \<Rightarrow> js list \<Rightarrow> string list checked" where
  "items_loop sha i ids [] = Inr ids"
| "items_loop sha i ids (item # items) =
     (let prefix = at_index ''items'' i; itemId = trimmed (fld item ''id'')
      in if itemId = [] then refuse (prefix @ ''.id is required'')
         else if itemId \<in> set ids then refuse (''duplicate checklist id: '' @ itemId)
         else case item_error sha prefix item of
            Some e \<Rightarrow> refuse e
          | None \<Rightarrow> items_loop sha (Suc i) (ids @ [itemId]) items)"

definition validateAcceptanceChecklist :: "(string \<Rightarrow> string) \<Rightarrow> js \<Rightarrow> string list checked" where
  "validateAcceptanceChecklist sha checklist =
     (if \<not> isRecord checklist then refuse ''checklist must be an object''
      else if fld checklist ''schemaVersion'' \<noteq> jnat 1 then refuse ''schemaVersion must be 1''
      else if trimmed (fld checklist ''jobId'') = [] then refuse ''jobId is required''
      else if trimmed (fld checklist ''project'') = [] then refuse ''project is required''
      else if fld checklist ''status'' \<noteq> JStr ''frozen'' then refuse ''checklist status must be frozen''
      else if arr (fld checklist ''items'') = [] then refuse ''items must be a non-empty array''
      else case assumption_error 0 (recordArray (fld checklist ''assumptions'')) of
         Some e \<Rightarrow> refuse e
       | None \<Rightarrow> items_loop sha 0 [] (arr (fld checklist ''items'')))"

definition decomposed_error :: "string \<Rightarrow> js \<Rightarrow> string option" where
  "decomposed_error prefix entry =
     (if trimmed (fld entry ''verificationMethod'') \<notin> set VERIFICATION_METHODS
      then Some (prefix @ ''.verificationMethod is invalid'')
      else case real_path_error prefix entry of Some e \<Rightarrow> Some e | None \<Rightarrow>
      if arr (fld entry ''allowedFiles'') = []
      then Some (prefix @ ''.allowedFiles must be non-empty (decomposition must declare scope)'')
      else if \<not> list_all isRepoRelativePosixPath (arr (fld entry ''allowedFiles''))
      then Some (prefix @ ''.allowedFiles contains invalid repo-relative path'')
      else if fld entry ''sourceRefs'' \<noteq> JUndef \<and> \<not> is_arr (fld entry ''sourceRefs'')
      then Some (prefix @ ''.sourceRefs must be an array'')
      else if fld entry ''observableContract'' = JUndef then None
      else case validateObservableContract (fld entry ''observableContract'') (prefix @ ''.observableContract'') of
         Inl reason \<Rightarrow> Some reason | Inr _ \<Rightarrow> None)"

fun decomposed_loop :: "nat \<Rightarrow> string list \<Rightarrow> js list \<Rightarrow> string option" where
  "decomposed_loop i predicateIds [] = None"
| "decomposed_loop i predicateIds (entry # items) =
     (let prefix = at_index ''decomposedItems'' i; predicateId = trimmed (fld entry ''predicateId'')
      in if trimmed (fld entry ''requirement'') = [] then Some (prefix @ ''.requirement is required'')
         else if predicateId = [] then Some (prefix @ ''.predicateId is required'')
         else if predicateId \<in> set predicateIds then Some (prefix @ ''.predicateId duplicate: '' @ predicateId)
         else case decomposed_error prefix entry of
            Some e \<Rightarrow> Some e
          | None \<Rightarrow> decomposed_loop (Suc i) (predicateIds @ [predicateId]) items)"

definition validateDecomposedItems :: "js \<Rightarrow> string option" where
  \<comment> \<open>the reason of a refusal\<close>
  "validateDecomposedItems items =
     (if arr items = [] then Some ''decomposedItems must be a non-empty array''
      else decomposed_loop 0 [] (arr items))"

section \<open>Coverage of the sources\<close>

definition REPO_LOCAL_SOURCE_REF_KINDS :: "string list" where
  "REPO_LOCAL_SOURCE_REF_KINDS = [''document'', ''file'', ''repo'', ''repo_file'', ''repository'', ''repository_path'', ''code'']"

definition hash_line_re :: re where
  "hash_line_re = cats [Bol, Grp 1 (plus_re dot), lit ''#L'', plus_re digit, opt_re (Cat (lit ''-L'') (plus_re digit)), Eol]"

definition colon_line_re :: re where
  "colon_line_re = cats [Bol, Grp 1 (Cat dot (LazyRep dot)), lit '':'', plus_re digit,
     opt_re (Cat (lit ''-'') (plus_re digit)), opt_re (Cat (lit '':'') (plus_re digit)), Eol]"

definition stripSourceLocatorLineSuffix :: "string \<Rightarrow> string" where
  "stripSourceLocatorLineSuffix locator = (case re_exec hash_line_re locator of
      Some m \<Rightarrow> group m 1
    | None \<Rightarrow> (case re_exec colon_line_re locator of Some m \<Rightarrow> group m 1 | None \<Rightarrow> locator))"

definition repoLocalSourcePath :: "js \<Rightarrow> string" where
  "repoLocalSourcePath ref =
     (if trimmed (fld ref ''kind'') \<notin> set REPO_LOCAL_SOURCE_REF_KINDS then []
      else let locator = stripSourceLocatorLineSuffix (trimmed (fld ref ''locator''))
           in if isRepoRelativePosixPath (JStr locator) then locator else [])"

definition allowedFileCoversSource :: "string \<Rightarrow> string \<Rightarrow> bool" where
  "allowedFileCoversSource allowedFile sourcePath =
     (allowedFile = sourcePath \<or> (endsWith allowedFile ''/'' \<and> startsWith sourcePath allowedFile))"

definition sourceRefCoveredByItemScope :: "js \<Rightarrow> js \<Rightarrow> bool" where
  "sourceRefCoveredByItemScope item ref = (let sourcePath = repoLocalSourcePath ref
     in sourcePath \<noteq> [] \<and> list_ex (\<lambda>f. allowedFileCoversSource f sourcePath) (text_list (fld item ''allowedFiles'')))"

definition document_source :: "nat \<Rightarrow> js \<Rightarrow> js result" where
  "document_source index doc = thn (deref doc ''kind'') (\<lambda>kind. Inr (JObj
     [(''kind'', or_else kind (JStr ''document'')),
      (''locator'', or_else (fld doc ''locator'') (JStr (''document:'' @ show_nat index))),
      (''text'', JStr (trimmed (or_else (fld doc ''text'') (fld doc ''content''))))]))"

fun refs_loop :: "string list \<Rightarrow> string list \<Rightarrow> js \<Rightarrow> js list \<Rightarrow> unit checked result" where
  "refs_loop sourceKeys frozen item [] = Inr (Inr ())"
| "refs_loop sourceKeys frozen item (ref # refs) = thn (deref ref ''kind'') (\<lambda>kind.
     let locator = trimmed (fld ref ''locator''); sourceKey = trimmed kind @ '':'' @ locator
     in if sourceKey \<notin> set sourceKeys \<and> locator \<notin> set frozen \<and> \<not> sourceRefCoveredByItemScope item ref
        then Inr (refuse (''missing checklist source ref: '' @ sourceKey))
        else refs_loop sourceKeys frozen item refs)"

fun sources_loop :: "string list \<Rightarrow> string list \<Rightarrow> js list \<Rightarrow> unit checked result" where
  "sources_loop sourceKeys frozen [] = Inr (Inr ())"
| "sources_loop sourceKeys frozen (item # items) =
     thn (refs_loop sourceKeys frozen item (arr (fld item ''sourceRefs''))) (\<lambda>r.
       case r of Inl e \<Rightarrow> Inr (Inl e) | Inr _ \<Rightarrow> sources_loop sourceKeys frozen items)"

fun required_sources_error :: "js list \<Rightarrow> string list \<Rightarrow> unit checked" where
  "required_sources_error items [] = Inr ()"
| "required_sources_error items (required # rest) =
     (if \<not> list_ex (\<lambda>item. list_ex (\<lambda>ref. trimmed (fld ref ''locator'') = required) (arr (fld item ''sourceRefs''))) items
      then refuse (''acceptance-relevant source not covered: '' @ required)
      else required_sources_error items rest)"

definition validateChecklistSourceCoverage ::
  "(string \<Rightarrow> string) \<Rightarrow> js \<Rightarrow> js \<Rightarrow> js list \<Rightarrow> js \<Rightarrow> js list \<Rightarrow> unit checked result" where
  "validateChecklistSourceCoverage sha checklist task documents requirementClassification evidenceLocators =
     (case validateAcceptanceChecklist sha checklist of
        Inl e \<Rightarrow> Inr (Inl e)
      | Inr _ \<Rightarrow>
        let items = arr (fld checklist ''items'')
        in thn (map_ix_r document_source 0 documents) (\<lambda>docs.
           let corpus = filter (\<lambda>e. truthy (fld e ''text'')) (extractTaskRequirementSlices task @ docs);
               sourceKeys = map (\<lambda>e. to_str (fld e ''kind'') @ '':'' @ to_str (fld e ''locator'')) corpus;
               frozen = filter (\<lambda>s. s \<noteq> []) (map trimmed evidenceLocators)
           in thn (sources_loop sourceKeys frozen items) (\<lambda>r.
              case r of Inl e \<Rightarrow> Inr (Inl e)
              | Inr _ \<Rightarrow> thn (map_r (\<lambda>e. thn (deref e ''acceptanceRelevant'') (\<lambda>v.
                     Inr (if v = JBool True then [trimmed (fld e ''locator'')] else [])))
                   (arr (fld requirementClassification ''classifiedRequirements''))) (\<lambda>required.
                 Inr (required_sources_error items (filter (\<lambda>s. s \<noteq> []) (concat required)))))))"

section \<open>Validating a verdict\<close>

fun fix_scope_error :: "string \<Rightarrow> js list \<Rightarrow> string option" where
  "fix_scope_error prefix [] = None"
| "fix_scope_error prefix (file # files) =
     (if isChecklistId file then Some (prefix @ ''.fixScope must contain only file paths, not checklist IDs (found '' @ trimmed file @ '')'')
      else if \<not> isRepoRelativePosixPath file then Some (prefix @ ''.fixScope contains invalid repo-relative path'')
      else fix_scope_error prefix files)"

text \<open>The state of the loop over the verdict's items: the checklist ids seen and whether every
  required item seen so far passed.\<close>

definition verdict_item_error :: "string list \<Rightarrow> string list \<Rightarrow> string \<Rightarrow> js \<Rightarrow> string option" where
  "verdict_item_error checklistIds seen prefix item =
     (let checklistId = trimmed (fld item ''checklistId'')
      in if checklistId = [] then Some (prefix @ ''.checklistId is required'')
         else if checklistId \<notin> set checklistIds then Some (prefix @ ''.checklistId does not exist in checklist: '' @ checklistId)
         else if checklistId \<in> set seen then Some (''duplicate verdict item for checklist id: '' @ checklistId)
         else if trimmed (fld item ''result'') \<notin> set ITEM_RESULTS then Some (prefix @ ''.result must be pass, fail, or unchecked'')
         else if \<not> is_arr (fld item ''evidenceRefs'') then Some (prefix @ ''.evidenceRefs must be an array'')
         else if fld item ''result'' = JStr ''pass'' \<and> arr (fld item ''evidenceRefs'') = []
         then Some (prefix @ ''.pass requires at least one evidence ref'')
         else if trimmed (fld item ''reason'') = [] then Some (prefix @ ''.reason is required'')
         else if fld item ''fixScope'' \<noteq> JUndef \<and> \<not> is_arr (fld item ''fixScope'') then Some (prefix @ ''.fixScope must be an array'')
         else fix_scope_error prefix (arr (fld item ''fixScope'')))"

fun verdict_loop :: "string list \<Rightarrow> string list \<Rightarrow> nat \<Rightarrow> string list \<Rightarrow> bool \<Rightarrow> js list \<Rightarrow> (string list \<times> bool) checked" where
  "verdict_loop checklistIds requiredIds i seen passed [] = Inr (seen, passed)"
| "verdict_loop checklistIds requiredIds i seen passed (item # items) =
     (let checklistId = trimmed (fld item ''checklistId'')
      in case verdict_item_error checklistIds seen (at_index ''items'' i) item of
         Some e \<Rightarrow> refuse e
       | None \<Rightarrow> verdict_loop checklistIds requiredIds (Suc i) (seen @ [checklistId])
           (passed \<and> \<not> (checklistId \<in> set requiredIds \<and> fld item ''result'' \<noteq> JStr ''pass'')) items)"

fun blocking_error :: "string list \<Rightarrow> nat \<Rightarrow> js list \<Rightarrow> string option" where
  "blocking_error checklistIds i [] = None"
| "blocking_error checklistIds i (entry # rest) =
     (if trimmed (fld entry ''checklistId'') \<notin> set checklistIds
      then Some (at_index ''blocking'' i @ ''.checklistId must reference the frozen checklist'')
      else if fld entry ''criterion'' \<noteq> JUndef \<or> fld entry ''evidence'' \<noteq> JUndef
      then Some (at_index ''blocking'' i @ '' must not define criterion/evidence prose; use requirementSnapshot/evidenceIssue'')
      else blocking_error checklistIds (Suc i) rest)"

definition item_ids_of :: "js list \<Rightarrow> string list" where
  "item_ids_of items = uniq (map (\<lambda>item. trimmed (fld item ''id'')) items)"

definition required_items :: "js list \<Rightarrow> js list" where
  "required_items items = filter (\<lambda>item. truthy (fld item ''required'')) items"

definition validateChecklistVerdict :: "(string \<Rightarrow> string) \<Rightarrow> js \<Rightarrow> js \<Rightarrow> unit checked" where
  "validateChecklistVerdict sha verdict checklist =
     (case validateAcceptanceChecklist sha checklist of Inl e \<Rightarrow> Inl e | Inr _ \<Rightarrow>
      if \<not> isRecord verdict then refuse ''verdict must be an object''
      else let checklistItems = arr (fld checklist ''items'');
               checklistIds = item_ids_of checklistItems;
               requiredIds = item_ids_of (required_items checklistItems);
               status = fld verdict ''status''
      in if fld verdict ''schemaVersion'' \<noteq> jnat 1 then refuse ''verdict schemaVersion must be 1''
      else if trimmed status \<notin> set TOP_STATUSES then refuse ''verdict.status must be pass or fail''
      else if \<not> is_arr (fld verdict ''items'') then refuse ''verdict.items must be an array''
      else case verdict_loop checklistIds requiredIds 0 [] True (arr (fld verdict ''items'')) of Inl e \<Rightarrow> Inl e
      | Inr (seen, allRequiredPassed) \<Rightarrow>
        let missingRequired = filter (\<lambda>i. i \<notin> set seen) requiredIds
        in if missingRequired \<noteq> []
           then Inl (''verdict missing required checklist ids: '' @ join '', '' missingRequired, missingRequired)
           else if status = JStr ''pass'' \<and> \<not> allRequiredPassed
           then refuse ''verdict.status pass requires every required item to pass''
           else if status = JStr ''fail'' \<and> allRequiredPassed
           then refuse ''verdict.status fail conflicts with all required items passing''
           else if \<not> is_arr (fld verdict ''fixScope'') then refuse ''verdict.fixScope must be an array''
           else case blocking_error checklistIds 0 (recordArray (fld verdict ''blocking'')) of Some e \<Rightarrow> refuse e
           | None \<Rightarrow> (case fix_scope_error ''verdict'' (arr (fld verdict ''fixScope'')) of Some e \<Rightarrow> refuse e
             | None \<Rightarrow> if trimmed (fld verdict ''reason'') = [] then refuse ''verdict.reason is required'' else Inr ()))"

section \<open>Coverage by the workflow DAG\<close>

definition node_key :: "js \<Rightarrow> string" where
  "node_key n = (if trimmed (fld n ''id'') \<noteq> [] then trimmed (fld n ''id'') else trimmed (fld n ''phase''))"

definition dep_texts :: "js \<Rightarrow> string list" where
  "dep_texts n = text_list (fld n ''dependsOn'')"

definition node_by_id :: "js list \<Rightarrow> string \<Rightarrow> js option" where
  \<comment> \<open>the map from ids to nodes; a later node replaces an earlier one\<close>
  "node_by_id nodes k = map_of (rev (map (\<lambda>n. (node_key n, n)) (filter (\<lambda>n. node_key n \<noteq> []) nodes))) k"

text \<open>\<^verbatim>\<open>dependsOnNode\<close>: depth-first search. The recursion and the loop over the dependencies share
  the set \<open>seen\<close> and stop at the first hit, so they are one loop over the pending dependencies,
  those of the node just entered first.\<close>

function depends_walk :: "js list \<Rightarrow> string list \<Rightarrow> string list \<Rightarrow> string list \<Rightarrow> bool" where
  "depends_walk nodes targetIds [] seen = False"
| "depends_walk nodes targetIds (depId # pending) seen =
     (if depId \<in> set targetIds then True
      else if depId \<in> set seen then depends_walk nodes targetIds pending seen
      else (case node_by_id nodes depId of
          None \<Rightarrow> depends_walk nodes targetIds pending (depId # seen)
        | Some n \<Rightarrow> depends_walk nodes targetIds (dep_texts n @ pending) (depId # seen)))"
  by pat_completeness auto

lemma node_by_id_key: "node_by_id nodes k = Some n \<Longrightarrow> n \<in> set nodes \<and> node_key n = k"
  unfolding node_by_id_def by (auto dest!: map_of_SomeD)

lemma unseen_decreases:
  assumes "node_by_id nodes d = Some n" "d \<notin> set seen"
  shows "card (node_key ` set nodes - insert d (set seen)) < card (node_key ` set nodes - set seen)"
proof (rule psubset_card_mono)
  show "finite (node_key ` set nodes - set seen)" by simp
  have "d \<in> node_key ` set nodes" using node_by_id_key [OF assms(1)] by blast
  with assms(2) show "node_key ` set nodes - insert d (set seen) \<subset> node_key ` set nodes - set seen" by blast
qed

termination depends_walk
proof (relation "measures [\<lambda>(nodes, _, _, seen). card (node_key ` set nodes - set seen), \<lambda>(_, _, pending, _). length pending]",
    goal_cases)
  case (3 nodes targetIds depId pending seen)
  have "card (node_key ` set nodes - insert depId (set seen)) \<le> card (node_key ` set nodes - set seen)"
    by (rule card_mono) auto
  then show ?case by auto
qed (simp_all add: unseen_decreases)

definition dependsOnNode :: "js list \<Rightarrow> js \<Rightarrow> string list \<Rightarrow> bool" where
  "dependsOnNode nodes start targetIds = depends_walk nodes targetIds (dep_texts start) []"

definition covering_execute_nodes :: "js list \<Rightarrow> string \<Rightarrow> js list" where
  "covering_execute_nodes nodes requiredId =
     filter (\<lambda>n. fld n ''phase'' = JStr ''execute'' \<and> JStr requiredId \<in> set (arr (fld n ''checklistIds''))) nodes"

definition node_name :: "js \<Rightarrow> js" where
  "node_name n = or_else (fld n ''id'') (fld n ''phase'')"

definition scope_violation_of :: "js \<Rightarrow> js list" where
  "scope_violation_of n =
     (let phase = fld n ''phase'';
          isMutating = phase \<in> JStr ` set [''execute'', ''remediate'', ''verify'', ''adversarial_verify''];
          isCustomOrSideEffect = fld n ''custom'' = JBool True \<or> fld n ''sideEffecting'' = JBool True;
          hasChecklistIds = arr (fld n ''checklistIds'') \<noteq> [];
          isNeutral = fld n ''checklistNeutral'' = JBool True;
          isCanonical = \<not> isCustomOrSideEffect \<and> phase \<in> JStr ` set [''execute'', ''verify'', ''adversarial_verify'']
      in if (isMutating \<or> isCustomOrSideEffect) \<and> \<not> hasChecklistIds \<and> \<not> isNeutral \<and> \<not> isCanonical
         then [JObj [(''nodeId'', node_name n), (''phase'', phase),
           (''reason'', JStr ''custom or side-effecting node must have checklistIds or be marked checklistNeutral: true'')]]
         else [])"

definition is_verify_node :: "js \<Rightarrow> bool" where
  "is_verify_node n = (fld n ''phase'' = JStr ''verify'' \<or> fld n ''phase'' = JStr ''adversarial_verify'')"

definition has_dependency :: "js list \<Rightarrow> js \<Rightarrow> string \<Rightarrow> bool" where
  "has_dependency nodes n requiredId =
     (let targetIds = filter (\<lambda>k. k \<noteq> []) (map node_key (covering_execute_nodes nodes requiredId))
      in targetIds \<noteq> [] \<and> (list_ex (\<lambda>t. JStr t \<in> set (arr (fld n ''dependsOn''))) targetIds \<or> dependsOnNode nodes n targetIds))"

definition verify_violations :: "js list \<Rightarrow> string list \<Rightarrow> js \<Rightarrow> js list" where
  "verify_violations nodes requiredIds n =
     (if is_verify_node n
      then map (\<lambda>requiredId. JObj [(''nodeId'', node_name n), (''phase'', fld n ''phase''), (''checklistId'', JStr requiredId),
             (''reason'', JStr (''verify node must depend on execute node covering '' @ requiredId))])
           (filter (\<lambda>requiredId. JStr requiredId \<in> set (arr (fld n ''checklistIds''))
              \<and> \<not> has_dependency nodes n requiredId \<and> covering_execute_nodes nodes requiredId \<noteq> []) requiredIds)
      else [])"

record dag_coverage =
  dc_ok :: bool
  dc_outcome :: string
  dc_violations :: "js list"
  dc_reason :: string

definition dag_covered :: dag_coverage where
  "dag_covered = \<lparr>dc_ok = True, dc_outcome = ''complete'', dc_violations = [], dc_reason = []\<rparr>"

text \<open>The items of the checklist: \<^verbatim>\<open>None\<close> when there are none to check. A value that is not an array
  but has a length has no \<^verbatim>\<open>filter\<close>.\<close>

definition coverage_items :: "js \<Rightarrow> js list option result" where
  "coverage_items v = (case v of
      JArr [] \<Rightarrow> Inr None
    | JArr items \<Rightarrow> Inr (Some items)
    | JStr s \<Rightarrow> if s = [] then Inr None else Inl (TypeError ''filter is not a function'')
    | JObj kvs \<Rightarrow> if truthy (fld v ''length'') then Inl (TypeError ''filter is not a function'') else Inr None
    | _ \<Rightarrow> Inr None)"

definition validateChecklistDagCoverage :: "js \<Rightarrow> js \<Rightarrow> dag_coverage result" where
  "validateChecklistDagCoverage workflowDag acceptanceChecklist =
     thn (coverage_items (fld acceptanceChecklist ''items'')) (\<lambda>found. case found of
       None \<Rightarrow> Inr dag_covered
     | Some items \<Rightarrow>
       thn (map_r (\<lambda>item. deref item ''required'') items) (\<lambda>_.
       let requiredIds = item_ids_of (required_items items); nodes = arr (fld workflowDag ''nodes'')
       in thn (map_r (\<lambda>n. deref n ''id'') nodes) (\<lambda>_.
       let violations = concat (map (\<lambda>n. scope_violation_of n @ verify_violations nodes requiredIds n) nodes)
       in Inr (if violations = [] then dag_covered
          else \<lparr>dc_ok = False, dc_outcome = ''dag_uncovered'', dc_violations = violations,
                dc_reason = ''DAG coverage violations: '' @ join ''; '' (map (\<lambda>v. to_str (fld v ''reason'')) violations)\<rparr>))))"

end
