(* ===== verification/ChecklistSound.thy ===== *)
theory ChecklistSound
  imports Checklist
begin

text \<open>
  What the validators of the checklist establish: a built checklist is valid, a valid verdict speaks
  of every required item once, and a covered DAG lets every verification node reach an execute node
  of the items it verifies.
\<close>

section \<open>Numbered ids\<close>

lemma digit_val_char: "d < 10 \<Longrightarrow> digit_val (char_of (48 + d)) = d"
  by (simp add: digit_val_def)

lemma nat_of_digits_append: "nat_of_digits (a @ [c]) = nat_of_digits a * 10 + digit_val c"
  by (simp add: nat_of_digits_def)

lemma nat_of_digits_show [simp]: "nat_of_digits (show_nat n) = n"
proof (induction n rule: show_nat.induct)
  case (1 n)
  show ?case
  proof (cases "n < 10")
    case True
    then show ?thesis by (subst show_nat.simps) (simp add: nat_of_digits_def digit_val_char)
  next
    case False
    have "digit_val (char_of (48 + n mod 10)) = n mod 10" by (rule digit_val_char) simp
    with 1 [OF False] False show ?thesis
      by (subst show_nat.simps) (simp only: if_False nat_of_digits_append, simp)
  qed
qed

lemma nat_of_digits_zeros: "nat_of_digits (replicate k (CHR ''0'') @ ds) = nat_of_digits ds"
  by (induction k) (simp_all add: nat_of_digits_def digit_val_def)

lemma pad3_inject: "pad3 m = pad3 n \<longleftrightarrow> m = n"
  by (metis nat_of_digits_show nat_of_digits_zeros pad3_def)

section \<open>Reachability in the DAG\<close>

text \<open>\<open>leads nodes d t\<close>: following \<^verbatim>\<open>dependsOn\<close> from the dependency id \<open>d\<close> one comes to the id \<open>t\<close>.\<close>

inductive leads :: "js list \<Rightarrow> string \<Rightarrow> string \<Rightarrow> bool" for nodes where
  leads_here: "leads nodes d d"
| leads_step: "node_by_id nodes d = Some n \<Longrightarrow> e \<in> set (dep_texts n) \<Longrightarrow> leads nodes e t \<Longrightarrow> leads nodes d t"

inductive_cases leads_cases: "leads nodes d t"

lemma depends_walk_sound:
  "depends_walk nodes targetIds pending seen \<Longrightarrow> \<exists>d\<in>set pending. \<exists>t\<in>set targetIds. leads nodes d t"
proof (induction nodes targetIds pending seen rule: depends_walk.induct)
  case (2 nodes targetIds depId pending seen)
  then show ?case
    by (auto split: if_splits option.splits intro: leads_here dest: leads_step)
qed simp

text \<open>A way from a pending dependency to a target either has a hit already or can be cut so that it
  starts at a pending dependency and avoids what was seen.\<close>

definition closed_seen :: "js list \<Rightarrow> string list \<Rightarrow> string list \<Rightarrow> string list \<Rightarrow> bool" where
  "closed_seen nodes targetIds pending seen = (\<forall>d\<in>set seen. d \<notin> set targetIds
     \<and> (\<forall>n. node_by_id nodes d = Some n \<longrightarrow> set (dep_texts n) \<subseteq> set seen \<union> set pending))"

lemma closed_seen_leads:
  assumes "leads nodes d t" "closed_seen nodes targetIds [] seen" "d \<in> set seen"
  shows "t \<in> set seen"
  using assms by (induction rule: leads.induct) (auto simp: closed_seen_def)

lemma depends_walk_complete:
  "\<not> depends_walk nodes targetIds pending seen \<Longrightarrow> closed_seen nodes targetIds pending seen \<Longrightarrow>
   d \<in> set pending \<union> set seen \<Longrightarrow> t \<in> set targetIds \<Longrightarrow> \<not> leads nodes d t"
proof (induction nodes targetIds pending seen arbitrary: d rule: depends_walk.induct)
  case (1 nodes targetIds seen)
  show ?case
  proof
    assume "leads nodes d t"
    with 1 have "t \<in> set seen" using closed_seen_leads by simp
    with 1 show False by (simp add: closed_seen_def)
  qed
next
  case (2 nodes targetIds depId pending seen)
  have no_hit: "depId \<notin> set targetIds" using 2(4) by (auto split: if_splits)
  show ?case
  proof (cases "depId \<in> set seen")
    case True
    show ?thesis
      by (rule 2(1) [OF no_hit True]) (use 2(4-7) True no_hit in \<open>auto simp: closed_seen_def\<close>)
  next
    case False
    show ?thesis
    proof (cases "node_by_id nodes depId")
      case None
      show ?thesis
        by (rule 2(2) [OF no_hit False None]) (use 2(4-7) False None no_hit in \<open>auto simp: closed_seen_def\<close>)
    next
      case (Some n)
      show ?thesis
        by (rule 2(3) [OF no_hit False Some]) (use 2(4-7) False Some no_hit in \<open>auto simp: closed_seen_def\<close>)
    qed
  qed
qed

lemma dependsOnNode_iff:
  "dependsOnNode nodes n targetIds \<longleftrightarrow> (\<exists>d\<in>set (dep_texts n). \<exists>t\<in>set targetIds. leads nodes d t)"
proof
  show "dependsOnNode nodes n targetIds \<Longrightarrow> \<exists>d\<in>set (dep_texts n). \<exists>t\<in>set targetIds. leads nodes d t"
    unfolding dependsOnNode_def by (rule depends_walk_sound)
  assume "\<exists>d\<in>set (dep_texts n). \<exists>t\<in>set targetIds. leads nodes d t"
  then show "dependsOnNode nodes n targetIds"
    unfolding dependsOnNode_def using depends_walk_complete [of nodes targetIds "dep_texts n" "[]"]
    by (auto simp: closed_seen_def)
qed

section \<open>Freezing a contract\<close>

definition sha_ok :: "(string \<Rightarrow> string) \<Rightarrow> bool" where
  "sha_ok sha = (\<forall>s. length (sha s) = 64 \<and> set (sha s) \<subseteq> set ''abcdef0123456789'')"

definition visible :: "string \<Rightarrow> bool" where
  "visible s = list_all (\<lambda>c. \<not> is_space c) s"

lemma visible_append [simp]: "visible (a @ b) \<longleftrightarrow> visible a \<and> visible b"
  by (simp add: visible_def)

lemma trim_visible:
  assumes "visible s"
  shows "trim s = s"
proof -
  have "dropWhile is_space t = t" if "set t \<subseteq> set s" for t
    using that assms by (cases t) (auto simp: visible_def list_all_iff)
  from this [of s] this [of "rev s"] show ?thesis by (simp add: trim_def trimStart_def trimEnd_def)
qed

lemma space_small: "is_space c \<Longrightarrow> (of_char c :: nat) \<le> 32"
  by (auto simp: is_space_def)

lemma visible_show_nat: "visible (show_nat n)"
proof (induction n rule: show_nat.induct)
  case (1 n)
  have digit: "\<not> is_space (char_of (48 + d))" if "d < 10" for d :: nat
  proof
    assume "is_space (char_of (48 + d))"
    with space_small [of "char_of (48 + d)"] that show False by simp
  qed
  show ?case
  proof (cases "n < 10")
    case True
    then show ?thesis using digit [of n] by (subst show_nat.simps) (simp add: visible_def)
  next
    case False
    have "n mod 10 < 10" by simp
    from digit [OF this] 1 [OF False] False show ?thesis
      by (subst show_nat.simps) (simp only: if_False visible_append, simp add: visible_def)
  qed
qed

lemma visible_pad3: "visible (pad3 n)"
proof -
  have "visible (replicate k (CHR ''0''))" for k by (induction k) (simp_all add: visible_def is_space_def)
  then show ?thesis by (simp add: pad3_def visible_show_nat)
qed

lemma trim_numbered: "trim (''AC-'' @ pad3 n) = ''AC-'' @ pad3 n" "trim (''OBS-'' @ pad3 n) = ''OBS-'' @ pad3 n"
proof -
  have "visible ''AC-''" "visible ''OBS-''" by (simp_all add: visible_def is_space_def)
  then show "trim (''AC-'' @ pad3 n) = ''AC-'' @ pad3 n" "trim (''OBS-'' @ pad3 n) = ''OBS-'' @ pad3 n"
    by (intro trim_visible, unfold visible_append, simp only: visible_pad3)+
qed

lemmas trim_ids [simp] = trim_numbered trim_numbered [unfolded append_Cons append_Nil]

lemma in_re_times: "in_re (times_re n (Cls f)) w \<longleftrightarrow> length w = n \<and> list_all f w"
proof (induction n arbitrary: w)
  case (Suc n)
  show ?case
  proof (cases w)
    case (Cons c r)
    then show ?thesis by (simp add: in_re_cat Suc, safe) (auto intro: exI [of _ "[c]"] exI [of _ r])
  qed (simp add: in_re_cat)
qed auto

lemma plain_times: "plain r \<Longrightarrow> plain (times_re n r)"
  by (induction n) simp_all

lemma sha_format_iff:
  "re_test sha_format s \<longleftrightarrow> (\<exists>h. s = ''sha256:'' @ h \<and> length h = 64 \<and> set h \<subseteq> set ''abcdef0123456789'')"
proof -
  have "re_test sha_format s \<longleftrightarrow> in_re (Cat (lit ''sha256:'') (times_re 64 (any_of ''abcdef0123456789''))) s"
    unfolding sha_format_def by (rule re_full_iff) (simp only: plain.simps plain_lit plain_times any_of_def)
  also have "\<dots> \<longleftrightarrow> (\<exists>h. s = ''sha256:'' @ h \<and> length h = 64 \<and> set h \<subseteq> set ''abcdef0123456789'')"
    by (auto simp only: in_re_cat in_re_lit any_of_def in_re_times list_all_iff subset_iff)
  finally show ?thesis .
qed

lemma sha_matches:
  assumes "sha_ok sha"
  shows "re_test sha_format (''sha256:'' @ sha s)" "trim (''sha256:'' @ sha s) = ''sha256:'' @ sha s"
proof -
  from assms have h: "length (sha s) = 64" "set (sha s) \<subseteq> set ''abcdef0123456789''" by (simp_all only: sha_ok_def)
  then show "re_test sha_format (''sha256:'' @ sha s)" unfolding sha_format_iff by blast
  have hex: "list_all (\<lambda>c. \<not> is_space c) ''abcdef0123456789''" "visible ''sha256:''" by (simp_all add: visible_def is_space_def)
  with h(2) have "visible (sha s)" unfolding visible_def list_all_iff by blast
  with hex(2) have "visible (''sha256:'' @ sha s)" by (simp only: visible_append)
  then show "trim (''sha256:'' @ sha s) = ''sha256:'' @ sha s" by (rule trim_visible)
qed

definition ref_clean :: "source_ref \<Rightarrow> bool" where
  "ref_clean r = (ref_kind r \<noteq> [] \<and> ref_locator r \<noteq> [] \<and> trim (ref_kind r) = ref_kind r \<and> trim (ref_locator r) = ref_locator r
     \<and> (\<forall>s. ref_sha256 r = Some s \<longrightarrow> s \<noteq> [] \<and> trim s = s))"

lemma refs_clean: "\<forall>r\<in>set (normalizedSourceRefs v). ref_clean r"
  by (auto simp: normalizedSourceRefs_def ref_clean_def split: if_splits)

definition read_ref :: "js \<Rightarrow> source_ref" where
  "read_ref r = \<lparr>ref_kind = trimmed (fld r ''kind''), ref_locator = trimmed (fld r ''locator''),
     ref_sha256 = (if trimmed (fld r ''sha256'') = [] then None else Some (trimmed (fld r ''sha256'')))\<rparr>"

lemma read_clean_ref: "ref_clean r \<Longrightarrow> read_ref (source_ref_js r) = r"
  by (cases r) (auto simp: read_ref_def source_ref_js_def ref_clean_def split: option.splits)

lemma clean_ref_again:
  assumes "\<forall>r\<in>set rs. ref_clean r"
  shows "normalizedSourceRefs (JArr (map source_ref_js rs)) = rs"
proof -
  have "filter isRecord (map source_ref_js rs) = map source_ref_js rs"
    by (rule filter_True) (auto simp: source_ref_js_def)
  moreover have "map (\<lambda>r. read_ref (source_ref_js r)) rs = rs"
    using assms by (intro map_idI) (simp add: read_clean_ref)
  moreover have "filter (\<lambda>r. ref_kind r \<noteq> [] \<and> ref_locator r \<noteq> []) rs = rs"
    using assms by (intro filter_True) (simp add: ref_clean_def)
  ultimately show ?thesis
    unfolding normalizedSourceRefs_def recordArray_def read_ref_def [symmetric] by (simp add: o_def)
qed

lemma normalize_again:
  "normalizeObservableContract (JObj (contract_fields (normalizeObservableContract v) @ kvs)) = normalizeObservableContract v"
  by (simp add: contract_fields_def normalizeObservableContract_def clean_ref_again [OF refs_clean])

lemma frozen_fields:
  assumes "contract_error q (normalizeObservableContract v) = None" "sha_ok sha"
    "fld item ''observableContract'' = freezeObservableContract sha v i"
  shows "frozen_contract_error sha prefix item = None"
proof -
  let ?c = "normalizeObservableContract v" and ?f = "freezeObservableContract sha v i"
  let ?frozen = "JObj (contract_fields ?c @ [(''contractId'', JStr (''OBS-'' @ pad3 (i + 1))), (''frozenBeforeExecution'', JBool True)])"
  have norm: "normalizeObservableContract ?f = ?c"
    unfolding freezeObservableContract_def Let_def append_assoc by (rule normalize_again)
  have "contract_error (prefix @ ''.observableContract'') ?c = None"
    using assms(1) by (simp add: contract_error_def split: if_splits)
  with norm have valid: "validateObservableContract ?f (prefix @ ''.observableContract'') = Inr ?c"
    by (simp add: validateObservableContract_def)
  have fields: "fld ?f ''frozenBeforeExecution'' = JBool True" "fld ?f ''contractId'' = JStr (''OBS-'' @ pad3 (i + 1))"
    "fld ?f ''contractSha256'' = JStr (observableContractSha256 sha ?frozen)"
    by (simp_all add: freezeObservableContract_def contract_fields_def Let_def)
  have "normalizeObservableContract ?frozen = ?c" by (rule normalize_again)
  moreover have "fld ?frozen ''contractId'' = fld ?f ''contractId''" "fld ?frozen ''frozenBeforeExecution'' = fld ?f ''frozenBeforeExecution''"
    using fields by (simp_all add: contract_fields_def)
  ultimately have same: "observableContractSha256 sha ?frozen = observableContractSha256 sha ?f"
    by (simp only: observableContractSha256_def norm)
  have obj: "?f \<noteq> JUndef" by (simp add: freezeObservableContract_def Let_def)
  obtain t where t: "observableContractSha256 sha ?f = ''sha256:'' @ sha t" unfolding observableContractSha256_def by blast
  show ?thesis
    unfolding frozen_contract_error_def Let_def assms(3) if_not_P [OF obj] valid sum.case fields same
    by (simp only: t trimmed_simps sha_matches [OF assms(2)] trim_ids) simp
qed

section \<open>A built checklist is valid\<close>

lemma trimmed_text_or: "trimmed (text_or v d) = (if trimmed v \<noteq> [] then trimmed v else trimmed d)"
  by (simp add: text_or_def)

lemma decomposed_valid:
  assumes "decomposed_error q entry = None" "trimmed (fld entry ''requirement'') \<noteq> []"
    "risk \<in> set RISK_VALUES" "trim risk = risk" "sha_ok sha"
  shows "item_error sha prefix (decomposed_item sha task risk i entry) = None"
proof -
  let ?d = "decomposed_item sha task risk i entry"
  from assms(1) have e: "trimmed (fld entry ''verificationMethod'') \<in> set VERIFICATION_METHODS" "real_path_error q entry = None"
    by (auto simp: decomposed_error_def split: if_splits option.splits)
  then have real: "\<not> (fld entry ''requiresRealPathEvidence'' = JBool True \<and> trimmed (fld entry ''verificationMethod'') = ''static'')"
    "\<not> (fld entry ''requiresRealPathEvidence'' = JBool True \<and> trimmed (fld entry ''evidenceOrigin'') = ''agent_written'')"
    by (auto simp: real_path_error_def split: if_splits)
  have named_method: "trimmed (fld entry ''verificationMethod'') \<noteq> []"
  proof
    assume "trimmed (fld entry ''verificationMethod'') = []"
    with e(1) show False by (simp add: VERIFICATION_METHODS_def)
  qed
  have fields:
    "trimmed (fld ?d ''requirement'') = trimmed (fld entry ''requirement'')"
    "trimmed (fld ?d ''source'') = (if trimmed (fld entry ''source'') \<noteq> [] then trimmed (fld entry ''source'') else trim ''task_text'')"
    "trimmed (fld ?d ''predicateId'') = (if trimmed (fld entry ''predicateId'') \<noteq> [] then trimmed (fld entry ''predicateId'') else trim (''PRED-'' @ pad3 (i + 1)))"
    "fld ?d ''required'' = JBool True"
    "trimmed (fld ?d ''area'') = (if trimmed (fld entry ''area'') \<noteq> [] then trimmed (fld entry ''area'') else trim ''core'')"
    "trimmed (fld ?d ''risk'') = trim risk"
    "trimmed (fld ?d ''verificationMethod'') = trimmed (fld entry ''verificationMethod'')"
    "trimmed (fld ?d ''expectedEvidence'') = (if trimmed (fld entry ''expectedEvidence'') \<noteq> [] then trimmed (fld entry ''expectedEvidence'') else trim default_evidence)"
    "trimmed (fld ?d ''evidenceOrigin'') = trimmed (fld entry ''evidenceOrigin'')"
    "fld ?d ''requiresRealPathEvidence'' = (if is_bool (fld entry ''requiresRealPathEvidence'') then fld entry ''requiresRealPathEvidence'' else JUndef)"
    "fld ?d ''dependsOn'' = JArr (arr (fld entry ''dependsOn''))"
    "fld ?d ''allowedFiles'' = JArr (filter isRepoRelativePosixPath (arr (fld entry ''allowedFiles'')))"
    using assms(2) named_method by (simp_all add: decomposed_item_def trimmed_text_or)
  have refs: "arr (fld ?d ''sourceRefs'') \<noteq> []" by (simp add: decomposed_item_def)
  have "frozen_contract_error sha prefix ?d = None"
  proof (cases "truthy (fld entry ''observableContract'')")
    case True
    then have "fld entry ''observableContract'' \<noteq> JUndef" by auto
    with assms(1) have "contract_error (q @ ''.observableContract'') (normalizeObservableContract (fld entry ''observableContract'')) = None"
      by (auto simp: decomposed_error_def validateObservableContract_def Let_def split: if_splits option.splits)
    then show ?thesis by (rule frozen_fields [OF _ assms(5)]) (simp add: decomposed_item_def True)
  next
    case False
    then have "fld ?d ''observableContract'' = JUndef" by (simp add: decomposed_item_def)
    then show ?thesis by (simp add: frozen_contract_error_def)
  qed
  moreover have "real_path_error prefix ?d = None"
    using real unfolding real_path_error_def fields by (auto split: if_splits)
  moreover have "trim ''task_text'' \<noteq> []" "trim ''core'' \<noteq> []" "trim default_evidence \<noteq> []" "trim (''PRED-'' @ pad3 (i + 1)) \<noteq> []"
  proof -
    have "visible ''PRED-''" by (simp add: visible_def is_space_def)
    then have "trim (''PRED-'' @ pad3 (i + 1)) = ''PRED-'' @ pad3 (i + 1)"
      by (intro trim_visible) (simp only: visible_append visible_pad3)
    then show "trim (''PRED-'' @ pad3 (i + 1)) \<noteq> []" by simp
  qed (simp_all add: default_evidence_def trim_def trimStart_def trimEnd_def is_space_def)
  ultimately show ?thesis
    using assms(2-4) e(1) refs unfolding item_error_def fields by (simp add: list_all_iff)
qed

lemma decomposed_loop_each:
  "decomposed_loop i pids es = None \<Longrightarrow> e \<in> set es \<Longrightarrow>
   (\<exists>q. decomposed_error q e = None) \<and> trimmed (fld e ''requirement'') \<noteq> []"
  by (induction i pids es rule: decomposed_loop.induct) (auto simp: Let_def split: if_splits option.splits)

definition ac_id :: "nat \<Rightarrow> string" where
  "ac_id i = ''AC-'' @ pad3 (i + 1)"

lemma ac_id_inject: "ac_id i = ac_id j \<longleftrightarrow> i = j"
  by (simp add: ac_id_def pad3_inject)

lemma decomposed_id: "trimmed (fld (decomposed_item sha task risk i e) ''id'') = ac_id i"
  by (simp add: decomposed_item_def ac_id_def)

lemma items_loop_decomposed:
  assumes "\<forall>e\<in>set es. (\<exists>q. decomposed_error q e = None) \<and> trimmed (fld e ''requirement'') \<noteq> []"
    "risk \<in> set RISK_VALUES" "trim risk = risk" "sha_ok sha"
  shows "items_loop sha i (map ac_id [0..<i]) (map_ix (decomposed_item sha task risk) i es) = Inr (map ac_id [0..<i + length es])"
  using assms(1)
proof (induction es arbitrary: i)
  case (Cons e es)
  then have "item_error sha p (decomposed_item sha task risk i e) = None" for p
    using decomposed_valid [OF _ _ assms(2-4)] by auto
  moreover have "ac_id i \<notin> set (map ac_id [0..<i])" by (auto simp: ac_id_inject)
  moreover have "ac_id i \<noteq> []" by (simp add: ac_id_def)
  moreover have "map ac_id [0..<i] @ [ac_id i] = map ac_id [0..<Suc i]" by simp
  ultimately show ?case using Cons by (simp add: Let_def decomposed_id del: upt_Suc)
qed simp

lemma map_ix_r_total: "(\<And>i x. x \<in> set xs \<Longrightarrow> \<exists>y. f i x = Inr y) \<Longrightarrow> \<exists>ys. map_ix_r f i xs = Inr ys"
proof (induction xs arbitrary: i)
  case (Cons x xs)
  then obtain y ys where "f i x = Inr y" "map_ix_r f (Suc i) xs = Inr ys" by (metis list.set_intros)
  then show ?case by simp
qed simp

lemma classify_total:
  assumes "list_all (\<lambda>d. \<not> nullish d) documents"
  shows "\<exists>c. classifyAcceptanceRequirements task documents = Inr c"
proof -
  have "\<exists>ds. map_ix_r document_requirement 0 documents = Inr ds"
    by (rule map_ix_r_total) (use assms in \<open>auto simp: document_requirement_def deref_def list_all_iff\<close>)
  then show ?thesis by (auto simp: classifyAcceptanceRequirements_def)
qed

lemma documents_total:
  "list_all (\<lambda>d. \<not> nullish d) ds \<Longrightarrow> \<exists>ys. map_r (\<lambda>doc. thn (deref doc ''locator'') (\<lambda>l. Inr (or_else l (fld doc ''path'')))) ds = Inr ys"
  by (induction ds) (auto simp: deref_def)

lemma decomposed_records:
  assumes "validateDecomposedItems items = None"
  shows "recordArray items = arr items" "arr items \<noteq> []"
    "\<forall>e\<in>set (arr items). (\<exists>q. decomposed_error q e = None) \<and> trimmed (fld e ''requirement'') \<noteq> []"
proof -
  from assms have loop: "decomposed_loop 0 [] (arr items) = None" and ne: "arr items \<noteq> []"
    by (auto simp: validateDecomposedItems_def split: if_splits)
  show "arr items \<noteq> []" by (rule ne)
  show each: "\<forall>e\<in>set (arr items). (\<exists>q. decomposed_error q e = None) \<and> trimmed (fld e ''requirement'') \<noteq> []"
    using decomposed_loop_each [OF loop] by blast
  have "isRecord e" if "e \<in> set (arr items)" for e
    using each that by (cases e) auto
  then show "recordArray items = arr items" by (simp add: recordArray_def)
qed

lemma built_items_valid:
  assumes "validateDecomposedItems items = None" "list_all (\<lambda>d. \<not> nullish d) documents" "sha_ok sha"
    "trimmed jobId \<noteq> []" "trimmed project \<noteq> []"
  shows "\<exists>c. buildAcceptanceChecklist sha jobId project task documents riskMap classification items = Inr c
     \<and> validateAcceptanceChecklist sha c = Inr (map ac_id [0..<length (arr items)])"
proof -
  note d = decomposed_records [OF assms(1)]
  let ?risk = "if fld riskMap ''riskLevel'' = JStr ''high'' then ''high'' else ''medium''"
  let ?items = "map_ix (decomposed_item sha task ?risk) 0 (arr items)"
  obtain cl where cl: "(if truthy classification then Inr classification else classifyAcceptanceRequirements task documents) = Inr cl"
    using classify_total [OF assms(2)] by (cases "truthy classification") auto
  obtain ys where ys: "map_r (\<lambda>doc. thn (deref doc ''locator'') (\<lambda>l. Inr (or_else l (fld doc ''path'')))) documents = Inr ys"
    using documents_total [OF assms(2)] by blast
  have risk: "?risk \<in> set RISK_VALUES" "trim ?risk = ?risk"
    by (simp_all add: RISK_VALUES_def trim_def trimStart_def trimEnd_def is_space_def)
  have loop: "items_loop sha 0 [] ?items = Inr (map ac_id [0..<length (arr items)])"
    using items_loop_decomposed [OF d(3) risk assms(3), of 0 task] by simp
  have ne: "?items \<noteq> []" using d(2) by (cases "arr items") simp_all
  show ?thesis
    unfolding buildAcceptanceChecklist_def cl thn_simps Let_def d(1) if_P [OF d(2)] ys
    by (rule exI, rule conjI, rule refl)
      (simp add: validateAcceptanceChecklist_def assms(4,5) ne loop recordArray_def)
qed

section \<open>What a valid checklist and a valid verdict say\<close>

definition item_id :: "js \<Rightarrow> string" where
  "item_id item = trimmed (fld item ''id'')"

definition verdict_id :: "js \<Rightarrow> string" where
  "verdict_id v = trimmed (fld v ''checklistId'')"

lemma items_loop_ids:
  "items_loop sha i ids items = Inr out \<Longrightarrow> distinct ids \<Longrightarrow>
   out = ids @ map item_id items \<and> distinct out \<and> (\<forall>item\<in>set items. item_id item \<noteq> [] \<and> (\<exists>p. item_error sha p item = None))"
proof (induction items arbitrary: i ids)
  case (Cons item items)
  from Cons.prems(1) have step: "item_id item \<noteq> []" "item_id item \<notin> set ids" "item_error sha (at_index ''items'' i) item = None"
    "items_loop sha (Suc i) (ids @ [item_id item]) items = Inr out"
    by (auto simp: Let_def item_id_def split: if_splits option.splits)
  have "distinct (ids @ [item_id item])" using Cons.prems(2) step(2) by simp
  note IH = Cons.IH [OF step(4) this]
  then show ?case using step by (intro conjI) (simp, blast, auto)
qed simp

lemma valid_checklist_ids:
  assumes "validateAcceptanceChecklist sha c = Inr ids"
  shows "ids = map item_id (arr (fld c ''items''))" "distinct ids" "arr (fld c ''items'') \<noteq> []"
    "\<And>item. item \<in> set (arr (fld c ''items'')) \<Longrightarrow> item_id item \<noteq> [] \<and> (\<exists>p. item_error sha p item = None)"
proof -
  from assms have "items_loop sha 0 [] (arr (fld c ''items'')) = Inr ids" and ne: "arr (fld c ''items'') \<noteq> []"
    by (auto simp: validateAcceptanceChecklist_def split: if_splits option.splits)
  from items_loop_ids [OF this(1)] show "ids = map item_id (arr (fld c ''items''))" "distinct ids"
    "\<And>item. item \<in> set (arr (fld c ''items'')) \<Longrightarrow> item_id item \<noteq> [] \<and> (\<exists>p. item_error sha p item = None)"
    by auto
  show "arr (fld c ''items'') \<noteq> []" by (rule ne)
qed

lemma verdict_item_errorD:
  assumes "verdict_item_error ids seen p v = None"
  shows "verdict_id v \<in> set ids" "verdict_id v \<notin> set seen" "trimmed (fld v ''result'') \<in> set ITEM_RESULTS"
    "is_arr (fld v ''evidenceRefs'')" "fld v ''result'' = JStr ''pass'' \<Longrightarrow> arr (fld v ''evidenceRefs'') \<noteq> []"
    "trimmed (fld v ''reason'') \<noteq> []" "fix_scope_error p (arr (fld v ''fixScope'')) = None"
  using assms unfolding verdict_item_error_def by (simp_all add: Let_def verdict_id_def split: if_splits)

lemma verdict_loop_facts:
  "verdict_loop ids req i seen passed vs = Inr (seen', passed') \<Longrightarrow> distinct seen \<Longrightarrow>
   seen' = seen @ map verdict_id vs \<and> distinct seen'
   \<and> (\<forall>v\<in>set vs. verdict_id v \<in> set ids \<and> trimmed (fld v ''result'') \<in> set ITEM_RESULTS
        \<and> (fld v ''result'' = JStr ''pass'' \<longrightarrow> arr (fld v ''evidenceRefs'') \<noteq> []))
   \<and> (passed' \<longleftrightarrow> passed \<and> (\<forall>v\<in>set vs. verdict_id v \<in> set req \<longrightarrow> fld v ''result'' = JStr ''pass''))"
proof (induction vs arbitrary: i seen passed)
  case (Cons v vs)
  from Cons.prems(1) have none: "verdict_item_error ids seen (at_index ''items'' i) v = None"
    by (auto simp: Let_def split: option.splits)
  note facts = verdict_item_errorD [OF none]
  from Cons.prems(1) none have rest: "verdict_loop ids req (Suc i) (seen @ [verdict_id v])
      (passed \<and> \<not> (verdict_id v \<in> set req \<and> fld v ''result'' \<noteq> JStr ''pass'')) vs = Inr (seen', passed')"
    by (simp add: Let_def verdict_id_def)
  have "distinct (seen @ [verdict_id v])" using Cons.prems(2) facts(2) by simp
  note IH = Cons.IH [OF rest this]
  then show ?case using facts by (intro conjI) (simp, blast, auto)
qed simp

lemma set_item_ids_of: "set (item_ids_of items) = item_id ` set items"
  by (auto simp: item_ids_of_def item_id_def)

text \<open>The verdict's items speak of distinct items of the checklist and of every required one.\<close>

definition verdict_covers :: "js \<Rightarrow> js \<Rightarrow> bool" where
  "verdict_covers verdict checklist =
     (let vs = arr (fld verdict ''items''); items = arr (fld checklist ''items'')
      in distinct (map verdict_id vs) \<and> set (map verdict_id vs) \<subseteq> set (map item_id items)
         \<and> set (map item_id (required_items items)) \<subseteq> set (map verdict_id vs)
         \<and> (\<forall>v\<in>set vs. trimmed (fld v ''result'') \<in> set ITEM_RESULTS
              \<and> (fld v ''result'' = JStr ''pass'' \<longrightarrow> arr (fld v ''evidenceRefs'') \<noteq> [])))"

definition required_pass :: "js \<Rightarrow> js \<Rightarrow> bool" where
  "required_pass verdict checklist =
     (\<forall>v\<in>set (arr (fld verdict ''items'')).
        verdict_id v \<in> set (map item_id (required_items (arr (fld checklist ''items'')))) \<longrightarrow> fld v ''result'' = JStr ''pass'')"

lemma valid_verdict:
  assumes "validateChecklistVerdict sha verdict checklist = Inr ()"
  shows "\<exists>ids. validateAcceptanceChecklist sha checklist = Inr ids" "isRecord verdict"
    "verdict_covers verdict checklist"
    "fld verdict ''status'' = JStr ''pass'' \<Longrightarrow> required_pass verdict checklist"
    "fld verdict ''status'' = JStr ''fail'' \<Longrightarrow> \<not> required_pass verdict checklist"
proof -
  let ?items = "arr (fld checklist ''items'')" and ?vs = "arr (fld verdict ''items'')"
  from assms obtain ids where ids: "validateAcceptanceChecklist sha checklist = Inr ids"
    by (cases "validateAcceptanceChecklist sha checklist") (auto simp: validateChecklistVerdict_def)
  then show "\<exists>ids. validateAcceptanceChecklist sha checklist = Inr ids" by blast
  from assms ids show "isRecord verdict" by (auto simp: validateChecklistVerdict_def split: if_splits)
  from assms ids obtain seen passed where
    loop: "verdict_loop (item_ids_of ?items) (item_ids_of (required_items ?items)) 0 [] True ?vs = Inr (seen, passed)"
    and rest: "filter (\<lambda>i. i \<notin> set seen) (item_ids_of (required_items ?items)) = []"
      "\<not> (fld verdict ''status'' = JStr ''pass'' \<and> \<not> passed)" "\<not> (fld verdict ''status'' = JStr ''fail'' \<and> passed)"
    unfolding validateChecklistVerdict_def ids sum.case Let_def
    by (simp split: if_splits sum.splits prod.splits)
  note facts = verdict_loop_facts [OF loop, simplified, unfolded set_item_ids_of]
  from rest(1) have "item_id ` set (required_items ?items) \<subseteq> set seen"
    by (auto simp: filter_empty_conv set_item_ids_of)
  with facts show "verdict_covers verdict checklist"
    by (simp add: verdict_covers_def Let_def) blast
  from facts have "passed \<longleftrightarrow> required_pass verdict checklist"
    by (simp add: required_pass_def)
  with rest(2,3) show "fld verdict ''status'' = JStr ''pass'' \<Longrightarrow> required_pass verdict checklist"
    "fld verdict ''status'' = JStr ''fail'' \<Longrightarrow> \<not> required_pass verdict checklist" by auto
qed

lemma valid_verdict_status:
  assumes "validateChecklistVerdict sha verdict checklist = Inr ()"
  shows "trimmed (fld verdict ''status'') \<in> set TOP_STATUSES"
  using assms by (auto simp: validateChecklistVerdict_def Let_def split: sum.splits if_splits)

section \<open>What coverage by the DAG says\<close>

lemma map_r_total: "map_r f xs = Inr ys \<Longrightarrow> x \<in> set xs \<Longrightarrow> \<exists>y. f x = Inr y"
  by (induction xs arbitrary: ys) (auto simp: thn_eq_Inr)

lemma covered_reaches:
  assumes run: "validateChecklistDagCoverage dag checklist = Inr r" "dc_ok r"
    and items: "arr (fld checklist ''items'') \<noteq> []"
    and n: "n \<in> set (arr (fld dag ''nodes''))" "is_verify_node n"
    and r: "rid \<in> set (map item_id (required_items (arr (fld checklist ''items''))))" "JStr rid \<in> set (arr (fld n ''checklistIds''))"
    and cov: "covering_execute_nodes (arr (fld dag ''nodes'')) rid \<noteq> []"
  shows "has_dependency (arr (fld dag ''nodes'')) n rid"
proof -
  let ?nodes = "arr (fld dag ''nodes'')" and ?items = "arr (fld checklist ''items'')"
  from items have "coverage_items (fld checklist ''items'') = Inr (Some ?items)"
    by (cases "fld checklist ''items''") (auto simp: coverage_items_def split: list.splits)
  with run(1) have "concat (map (\<lambda>n. scope_violation_of n @ verify_violations ?nodes (item_ids_of (required_items ?items)) n) ?nodes) = []"
    using run(2) by (auto simp: validateChecklistDagCoverage_def thn_eq_Inr Let_def split: if_splits)
  with n(1) have "verify_violations ?nodes (item_ids_of (required_items ?items)) n = []" by auto
  with n(2) r cov show ?thesis
    by (auto simp: verify_violations_def filter_empty_conv set_item_ids_of)
qed

end
