(* ===== verification/Evidence.thy ===== *)
theory Evidence
  imports Observables
begin

text \<open>
  Evidence probes (\<^verbatim>\<open>core/workflow/evidence-probes.ts\<close>): what an observation must carry, for each
  verification method, to be recorded in the evidence ledger and to prove its checklist item, and
  the plan of probes built from the acceptance checklist and the hard-gate checks.

  The probe plan keeps probes in a list and finds them through a map to the same objects; the model
  keeps the map as positions in the list, so an update through the map is an update of the list.
\<close>

section \<open>Observations\<close>

record evidence_validation =
  ev_valid :: bool
  ev_satisfied :: bool

definition INVALID :: evidence_validation where
  "INVALID = \<lparr>ev_valid = False, ev_satisfied = False\<rparr>"

text \<open>The text of a field, as a condition.\<close>

abbreviation has :: "js \<Rightarrow> string \<Rightarrow> bool" where
  "has entry k \<equiv> trimmed (fld entry k) \<noteq> []"

definition validateCommandObservation :: "js \<Rightarrow> evidence_validation" where
  "validateCommandObservation entry =
     (let valid = has entry ''command'' \<and> is_integer (fld entry ''exitCode'')
            \<and> (has entry ''stdoutSha256'' \<or> has entry ''stderrSha256'' \<or> has entry ''parsedOutputDigest'')
            \<and> (has entry ''cwd'' \<or> has entry ''repoRoot'')
      in \<lparr>ev_valid = valid,
          ev_satisfied = (valid \<and> fld entry ''exitCode'' = jnat 0 \<and> has entry ''worktreeHead'')\<rparr>)"

definition validateStaticObservation :: "js \<Rightarrow> evidence_validation" where
  "validateStaticObservation entry =
     \<lparr>ev_valid = (has entry ''queryId'' \<and> is_integer (fld entry ''matchCount'')),
      ev_satisfied = (has entry ''queryId'' \<and> is_integer (fld entry ''matchCount'')
        \<and> num_lt (Fin 0) (to_num (fld entry ''matchCount'')))\<rparr>"

text \<open>The positive payload matcher four of the methods ask for.\<close>

definition with_matcher :: "bool \<Rightarrow> js \<Rightarrow> evidence_validation" where
  "with_matcher valid entry =
     \<lparr>ev_valid = valid, ev_satisfied = (valid \<and> has entry ''payloadMatcher'' \<and> has entry ''matchedValue'')\<rparr>"

definition validateRuntimeEventObservation :: "js \<Rightarrow> evidence_validation" where
  "validateRuntimeEventObservation entry = with_matcher
     (has entry ''eventType'' \<and> (has entry ''eventId'' \<or> has entry ''observedAt'' \<or> has entry ''ts'')
      \<and> has entry ''attemptId'') entry"

definition validateArtifactEventObservation :: "js \<Rightarrow> evidence_validation" where
  "validateArtifactEventObservation entry = with_matcher
     ((has entry ''artifactKind'' \<or> has entry ''eventType'')
      \<and> (has entry ''artifactHash'' \<or> has entry ''path'' \<or> has entry ''artifactId'')
      \<and> (has entry ''observedAt'' \<or> has entry ''ts'') \<and> has entry ''attemptId'') entry"

definition validateAuditExportObservation :: "js \<Rightarrow> evidence_validation" where
  "validateAuditExportObservation entry =
     (let valid = (has entry ''exportId'' \<or> has entry ''invocationId'' \<or> has entry ''probeId'')
            \<and> has entry ''sectionPath'' \<and> has entry ''attemptId''
      in \<lparr>ev_valid = valid, ev_satisfied = (valid \<and> has entry ''valueDigest'')\<rparr>)"

definition validateDagEventObservation :: "js \<Rightarrow> evidence_validation" where
  "validateDagEventObservation entry = with_matcher
     ((has entry ''nodeId'' \<or> has entry ''dagNodeId'')
      \<and> (has entry ''eventType'' \<or> has entry ''artifactKind'' \<or> has entry ''probeId'')
      \<and> (has entry ''observedAt'' \<or> has entry ''ts'') \<and> has entry ''attemptId'') entry"

definition validateWorkerLifecycleObservation :: "js \<Rightarrow> evidence_validation" where
  "validateWorkerLifecycleObservation entry = with_matcher
     ((has entry ''assignmentId'' \<or> has entry ''workerId'')
      \<and> (has entry ''eventType'' \<or> has entry ''lifecycleEvent'' \<or> has entry ''probeId'')
      \<and> (has entry ''observedAt'' \<or> has entry ''ts'') \<and> has entry ''attemptId'') entry"

definition validateManualObservation :: "js \<Rightarrow> js \<Rightarrow> evidence_validation" where
  "validateManualObservation entry checklistItem =
     (let valid = has entry ''approver'' \<and> (has entry ''approvedAt'' \<or> has entry ''ts'')
            \<and> js_includes (arr (fld entry ''scope'')) (fld checklistItem ''id'')
            \<and> trimmed (or_else (fld entry ''approvalArtifactId'') (fld entry ''approvalEventId'')) \<noteq> []
            \<and> fld entry ''approvalArtifactResolved'' = JBool True
      in \<lparr>ev_valid = valid, ev_satisfied = (valid \<and> has entry ''resolvedArtifactHash'')\<rparr>)"

definition validateAbsenceCheckObservation :: "js \<Rightarrow> evidence_validation" where
  "validateAbsenceCheckObservation entry =
     (let queryWindow = recordValue (fld entry ''queryWindow'');
          valid = fld entry ''absence'' = JBool True \<and> has queryWindow ''from'' \<and> has queryWindow ''to''
            \<and> is_arr (fld entry ''eventTypes'') \<and> has entry ''attemptId''
      in \<lparr>ev_valid = valid,
          ev_satisfied = (valid \<and> has entry ''querySource'' \<and> has entry ''queryResultSignature'')\<rparr>)"

definition observation_by_method :: "string \<Rightarrow> js \<Rightarrow> js \<Rightarrow> evidence_validation" where
  "observation_by_method method entry item =
     (if method \<in> set [''command'', ''test''] then validateCommandObservation entry
      else if method = ''static'' then validateStaticObservation entry
      else if method = ''runtime_event'' then validateRuntimeEventObservation entry
      else if method = ''artifact_event'' then validateArtifactEventObservation entry
      else if method = ''audit_export'' then validateAuditExportObservation entry
      else if method = ''dag_event'' then validateDagEventObservation entry
      else if method = ''worker_lifecycle'' then validateWorkerLifecycleObservation entry
      else if method = ''manual'' then validateManualObservation entry item
      else if method = ''absence_check'' then validateAbsenceCheckObservation entry
      else INVALID)"

text \<open>\<open>attemptId\<close> is the field of the options object.\<close>

definition validateEvidenceObservation :: "js \<Rightarrow> js \<Rightarrow> js \<Rightarrow> evidence_validation" where
  "validateEvidenceObservation entry item attemptId =
     (if \<not> isRecord entry \<and> \<not> is_arr entry then INVALID
      else if trimmed attemptId \<noteq> [] \<and> trimmed (fld entry ''attemptId'') \<noteq> trimmed attemptId then INVALID
      else (case fld item ''verificationMethod'' of JStr m \<Rightarrow> observation_by_method m entry item | _ \<Rightarrow> INVALID))"

section \<open>The probe plan\<close>

record probe =
  p_checklistId :: js
  p_predicateId :: js
  p_probeId :: js
  p_observation :: js
  p_emitFailedClaim :: bool

record probe_plan =
  plan_schemaVersion :: nat
  plan_attemptId :: js
  plan_probes :: "probe list"

text \<open>The state of the two loops: the probes, the map from checklist ids to them, and the explicit
  ids already seen.\<close>

record plan_state =
  ps_probes :: "probe list"
  ps_index :: "(string \<times> nat) list"
  ps_seen :: "string list"

definition add_probe :: "string \<Rightarrow> probe \<Rightarrow> plan_state \<Rightarrow> plan_state" where
  "add_probe checklistId p s =
     s\<lparr>ps_probes := ps_probes s @ [p], ps_index := AList.update checklistId (length (ps_probes s)) (ps_index s)\<rparr>"

definition item_probe :: "js \<Rightarrow> plan_state \<Rightarrow> plan_state" where
  "item_probe itemValue s =
     (let item = recordValue itemValue; checklistId = trimmed (fld item ''id''); predicateId = trimmed (fld item ''predicateId'')
      in if checklistId = [] \<or> predicateId = [] then s
         else add_probe checklistId
           \<lparr>p_checklistId = JStr checklistId, p_predicateId = JStr predicateId, p_probeId = JStr (''probe-'' @ checklistId),
            p_observation = JObj
              [(''checklistId'', JStr checklistId), (''predicateId'', JStr predicateId),
               (''verificationMethod'', or_else (fld item ''verificationMethod'') (JStr ''static'')),
               (''expectedEvidence'', or_else (fld item ''expectedEvidence'') JNull),
               (''area'', or_else (fld item ''area'') JNull)],
            p_emitFailedClaim = True\<rparr> s)"

text \<open>The observation of an explicit check, with the attempt id written in when it has none.\<close>

definition explicit_observation :: "js \<Rightarrow> js \<Rightarrow> js" where
  "explicit_observation attemptId check =
     (let obs = recordValue (or_else (fld check ''observation'') check)
      in if trimmed attemptId \<noteq> []
         then JObj (obj_set ''attemptId'' (nullish_or (fld obs ''attemptId'') attemptId) (own obs)) else obs)"

definition check_probe :: "js \<Rightarrow> js \<Rightarrow> plan_state \<Rightarrow> plan_state" where
  "check_probe attemptId checkValue s =
     (let check = recordValue checkValue; checklistId = trimmed (fld check ''checklistId'');
          predicateId = trimmed (fld check ''predicateId''); probeId = trimmed (fld check ''probeId'');
          emit = (fld check ''emitFailedClaim'' = JBool True);
          s' = s\<lparr>ps_seen := set_add checklistId (ps_seen s)\<rparr>
      in if checklistId = [] \<or> predicateId = [] \<or> probeId = [] then s
         else if checklistId \<in> set (ps_seen s) then s
         else (case map_of (ps_index s) checklistId of
             Some i \<Rightarrow> (let p = ps_probes s ! i
               in s'\<lparr>ps_probes := (ps_probes s)[i := p\<lparr>p_observation := explicit_observation attemptId check,
                      p_emitFailedClaim := (p_emitFailedClaim p \<or> emit)\<rparr>]\<rparr>)
           | None \<Rightarrow> add_probe checklistId
               \<lparr>p_checklistId = JStr checklistId, p_predicateId = JStr predicateId, p_probeId = JStr probeId,
                p_observation = explicit_observation attemptId check, p_emitFailedClaim = emit\<rparr> s'))"

definition plan_start :: plan_state where
  "plan_start = \<lparr>ps_probes = [], ps_index = [], ps_seen = []\<rparr>"

definition buildEvidenceProbePlan :: "js \<Rightarrow> js \<Rightarrow> js \<Rightarrow> probe_plan" where
  "buildEvidenceProbePlan acceptanceChecklist hardGateChecks attemptId =
     (let primary = fold item_probe (arr (fld (recordValue acceptanceChecklist) ''items'')) plan_start
      in \<lparr>plan_schemaVersion = 1, plan_attemptId = attemptId,
          plan_probes = ps_probes (fold (check_probe attemptId) (arr hardGateChecks) primary)\<rparr>)"

definition buildProbeForMethod :: "js \<Rightarrow> js \<Rightarrow> js \<Rightarrow> probe" where
  "buildProbeForMethod checklistItem observation probeId =
     \<lparr>p_checklistId = fld checklistItem ''id'', p_predicateId = fld checklistItem ''predicateId'', p_probeId = probeId,
      p_observation = observation, p_emitFailedClaim = False\<rparr>"

section \<open>What an observation proves\<close>

lemmas observation_defs =
  validateCommandObservation_def validateStaticObservation_def validateRuntimeEventObservation_def
  validateArtifactEventObservation_def validateAuditExportObservation_def validateDagEventObservation_def
  validateWorkerLifecycleObservation_def validateManualObservation_def validateAbsenceCheckObservation_def
  with_matcher_def INVALID_def

lemma if_pred: "P a \<Longrightarrow> P b \<Longrightarrow> P (if c then a else b)"
  by simp

lemma by_method_satisfied_valid:
  "ev_satisfied (observation_by_method m entry item) \<longrightarrow> ev_valid (observation_by_method m entry item)"
  unfolding observation_by_method_def
  by (intro if_pred [where P = "\<lambda>v. ev_satisfied v \<longrightarrow> ev_valid v"]) (auto simp: observation_defs Let_def is_integer_def num_integer_def)

lemma satisfied_valid:
  "ev_satisfied (validateEvidenceObservation entry item a) \<Longrightarrow> ev_valid (validateEvidenceObservation entry item a)"
  unfolding validateEvidenceObservation_def
  using by_method_satisfied_valid by (auto simp: INVALID_def split: if_splits js.splits)

lemma valid_attempt:
  assumes "ev_valid (validateEvidenceObservation entry item a)" "trimmed a \<noteq> []"
  shows "trimmed (fld entry ''attemptId'') = trimmed a"
  using assms unfolding validateEvidenceObservation_def by (auto simp: INVALID_def split: if_splits)

text \<open>Every proof names a content: the four fields an echo of the checklist item has are never
  enough.\<close>

definition proof_keys :: "string list" where
  "proof_keys = [''worktreeHead'', ''matchCount'', ''matchedValue'', ''valueDigest'', ''resolvedArtifactHash'', ''queryResultSignature'']"

lemma by_method_proof:
  "ev_satisfied (observation_by_method m entry item) \<longrightarrow> (\<exists>k\<in>set proof_keys. fld entry k \<noteq> JUndef)"
proof (rule ccontr)
  assume "\<not> ?thesis"
  then have sat: "ev_satisfied (observation_by_method m entry item)"
    and none: "fld entry ''worktreeHead'' = JUndef" "fld entry ''matchCount'' = JUndef" "fld entry ''matchedValue'' = JUndef"
    "fld entry ''valueDigest'' = JUndef" "fld entry ''resolvedArtifactHash'' = JUndef" "fld entry ''queryResultSignature'' = JUndef"
    by (simp_all add: proof_keys_def)
  have "\<not> ev_satisfied (observation_by_method m entry item)"
    unfolding observation_by_method_def
    by (intro if_pred [where P = "\<lambda>v. \<not> ev_satisfied v"])
      (simp_all add: observation_defs Let_def is_integer_def none)
  with sat show False by simp
qed

lemma satisfied_method:
  assumes "ev_satisfied (validateEvidenceObservation entry item a)"
  obtains m where "fld item ''verificationMethod'' = JStr m" "ev_satisfied (observation_by_method m entry item)"
  using assms unfolding validateEvidenceObservation_def by (auto simp: INVALID_def split: if_splits js.splits)

lemma satisfied_proof:
  assumes "ev_satisfied (validateEvidenceObservation entry item a)"
  shows "\<exists>k\<in>set proof_keys. fld entry k \<noteq> JUndef"
  by (rule satisfied_method [OF assms]) (use by_method_proof in blast)

section \<open>What the plan covers\<close>

definition identified :: "js \<Rightarrow> bool" where
  "identified item = (has item ''id'' \<and> has item ''predicateId'')"

definition explicit :: "js \<Rightarrow> bool" where
  "explicit check = (has check ''checklistId'' \<and> has check ''predicateId'' \<and> has check ''probeId'')"

text \<open>The map points at probes of its keys, and every probe is in it.\<close>

definition plan_inv :: "plan_state \<Rightarrow> bool" where
  "plan_inv s = ((\<forall>k i. map_of (ps_index s) k = Some i \<longrightarrow> i < length (ps_probes s) \<and> p_checklistId (ps_probes s ! i) = JStr k)
     \<and> (\<forall>p\<in>set (ps_probes s). \<exists>k. p_checklistId p = JStr k \<and> map_of (ps_index s) k \<noteq> None))"

text \<open>Later states keep the ids of the probes, and what the explicit probes observe.\<close>

definition probe_ids :: "probe \<Rightarrow> js \<times> js \<times> js" where
  "probe_ids p = (p_checklistId p, p_predicateId p, p_probeId p)"

definition observed :: "plan_state \<Rightarrow> string \<Rightarrow> js option" where
  "observed s k = map_option (\<lambda>i. p_observation (ps_probes s ! i)) (map_of (ps_index s) k)"

lemma plan_invD:
  assumes "plan_inv s" "map_of (ps_index s) k = Some i"
  shows "i < length (ps_probes s)" "p_checklistId (ps_probes s ! i) = JStr k"
  using assms by (simp_all add: plan_inv_def)

lemma plan_inv_start: "plan_inv plan_start"
  by (simp add: plan_inv_def plan_start_def)

lemma add_probe_inv:
  assumes "plan_inv s" "p_checklistId p = JStr k"
  shows "plan_inv (add_probe k p s)"
  unfolding plan_inv_def
proof (intro conjI allI ballI impI)
  fix k' i assume at: "map_of (ps_index (add_probe k p s)) k' = Some i"
  show "i < length (ps_probes (add_probe k p s))"
    using at plan_invD(1) [OF assms(1), of k' i] by (simp add: add_probe_def update_conv split: if_splits)
  show "p_checklistId (ps_probes (add_probe k p s) ! i) = JStr k'"
    using at plan_invD [OF assms(1), of k' i] assms(2) by (simp add: add_probe_def update_conv nth_append split: if_splits)
next
  fix q assume "q \<in> set (ps_probes (add_probe k p s))"
  then have "q \<in> set (ps_probes s) \<or> q = p" by (auto simp: add_probe_def)
  with assms obtain k' where "p_checklistId q = JStr k'" "k' = k \<or> map_of (ps_index s) k' \<noteq> None"
    unfolding plan_inv_def by metis
  then show "\<exists>k'. p_checklistId q = JStr k' \<and> map_of (ps_index (add_probe k p s)) k' \<noteq> None"
    by (auto simp: add_probe_def update_conv)
qed

lemma item_probe_inv: "plan_inv s \<Longrightarrow> plan_inv (item_probe item s)"
  by (simp add: item_probe_def Let_def add_probe_inv)

lemma item_probe_seen: "ps_seen (item_probe item s) = ps_seen s"
  by (simp add: item_probe_def Let_def add_probe_def)

lemma item_probe_ids: "\<exists>r. map probe_ids (ps_probes (item_probe item s)) = map probe_ids (ps_probes s) @ r"
  by (simp add: item_probe_def Let_def add_probe_def)

lemma explicit_recordValue [simp]: "explicit (recordValue c) = explicit c"
  by (simp add: explicit_def)

lemma not_explicit_probe: "\<not> explicit check \<Longrightarrow> check_probe a check s = s"
  by (auto simp: check_probe_def explicit_def Let_def)

text \<open>What an explicit check does: nothing when its id was seen, otherwise a new probe or an
  upgrade of the one the items gave.\<close>

definition check_id :: "js \<Rightarrow> string" where
  "check_id check = trimmed (fld check ''checklistId'')"

definition upgraded :: "js \<Rightarrow> js \<Rightarrow> probe \<Rightarrow> probe" where
  "upgraded a check p = p\<lparr>p_observation := explicit_observation a (recordValue check),
     p_emitFailedClaim := (p_emitFailedClaim p \<or> fld check ''emitFailedClaim'' = JBool True)\<rparr>"

lemma probe_ids_upgraded [simp]: "probe_ids (upgraded a c p) = probe_ids p" "p_checklistId (upgraded a c p) = p_checklistId p"
  by (simp_all add: upgraded_def probe_ids_def)

lemma check_probe_cases:
  assumes "explicit check"
  obtains (seen) "check_id check \<in> set (ps_seen s)" "check_probe a check s = s"
  | (upgrade) i where "check_id check \<notin> set (ps_seen s)" "map_of (ps_index s) (check_id check) = Some i"
      "check_probe a check s = s\<lparr>ps_seen := set_add (check_id check) (ps_seen s),
         ps_probes := (ps_probes s)[i := upgraded a check (ps_probes s ! i)]\<rparr>"
  | (fresh) p where "check_id check \<notin> set (ps_seen s)" "map_of (ps_index s) (check_id check) = None"
      "p_checklistId p = JStr (check_id check)" "p_observation p = explicit_observation a (recordValue check)"
      "check_probe a check s = add_probe (check_id check) p (s\<lparr>ps_seen := set_add (check_id check) (ps_seen s)\<rparr>)"
proof (cases "check_id check \<in> set (ps_seen s)")
  case True
  with assms have "check_probe a check s = s" by (simp add: check_probe_def explicit_def check_id_def Let_def)
  with True show ?thesis by (rule seen)
next
  case False
  show ?thesis
  proof (cases "map_of (ps_index s) (check_id check)")
    case None
    show ?thesis
      by (rule fresh [OF False None])
        (use assms False None in \<open>simp_all add: check_probe_def explicit_def check_id_def Let_def\<close>)
  next
    case (Some i)
    show ?thesis
      by (rule upgrade [OF False Some])
        (use assms False Some in \<open>simp add: check_probe_def explicit_def check_id_def Let_def upgraded_def\<close>)
  qed
qed

lemma plan_inv_seen [simp]: "plan_inv (s\<lparr>ps_seen := k\<rparr>) = plan_inv s"
  by (simp add: plan_inv_def)

lemma upgrade_inv:
  assumes "plan_inv s" "i < length (ps_probes s)"
  shows "plan_inv (s\<lparr>ps_probes := (ps_probes s)[i := upgraded a c (ps_probes s ! i)]\<rparr>)"
  unfolding plan_inv_def
proof (intro conjI allI ballI impI)
  fix k j assume at: "map_of (ps_index (s\<lparr>ps_probes := (ps_probes s)[i := upgraded a c (ps_probes s ! i)]\<rparr>)) k = Some j"
  then show "j < length (ps_probes (s\<lparr>ps_probes := (ps_probes s)[i := upgraded a c (ps_probes s ! i)]\<rparr>))"
    using plan_invD(1) [OF assms(1), of k j] by simp
  show "p_checklistId (ps_probes (s\<lparr>ps_probes := (ps_probes s)[i := upgraded a c (ps_probes s ! i)]\<rparr>) ! j) = JStr k"
    using at plan_invD [OF assms(1), of k j] by (cases "i = j") simp_all
next
  fix q assume "q \<in> set (ps_probes (s\<lparr>ps_probes := (ps_probes s)[i := upgraded a c (ps_probes s ! i)]\<rparr>))"
  then have "q = upgraded a c (ps_probes s ! i) \<or> q \<in> set (ps_probes s)"
    using set_update_subset_insert by fastforce
  then obtain p where "p \<in> set (ps_probes s)" "p_checklistId q = p_checklistId p"
    using assms(2) by (metis nth_mem probe_ids_upgraded(2))
  with assms(1) show "\<exists>k. p_checklistId q = JStr k \<and>
      map_of (ps_index (s\<lparr>ps_probes := (ps_probes s)[i := upgraded a c (ps_probes s ! i)]\<rparr>)) k \<noteq> None"
    unfolding plan_inv_def by simp
qed

lemma check_probe_inv:
  assumes "plan_inv s"
  shows "plan_inv (check_probe a check s)"
proof (cases "explicit check")
  case True
  then show ?thesis
  proof (cases rule: check_probe_cases [where a = a and s = s])
    case seen
    with assms show ?thesis by simp
  next
    case (upgrade i)
    have "plan_inv (s\<lparr>ps_probes := (ps_probes s)[i := upgraded a check (ps_probes s ! i)]\<rparr>)"
      by (rule upgrade_inv [OF assms plan_invD(1) [OF assms upgrade(2)]])
    then show ?thesis unfolding upgrade(3) by (simp add: plan_inv_def)
  next
    case (fresh p)
    show ?thesis unfolding fresh(5) by (rule add_probe_inv) (use assms fresh(3) in simp_all)
  qed
qed (simp add: assms not_explicit_probe)

lemma check_probe_ids:
  assumes "plan_inv s"
  shows "\<exists>r. map probe_ids (ps_probes (check_probe a check s)) = map probe_ids (ps_probes s) @ r"
proof (cases "explicit check")
  case True
  then show ?thesis
  proof (cases rule: check_probe_cases [where a = a and s = s])
    case (upgrade i)
    have "(map probe_ids (ps_probes s))[i := probe_ids (ps_probes s ! i)] = map probe_ids (ps_probes s)"
      using plan_invD(1) [OF assms upgrade(2)] by (metis list_update_id map_update)
    then show ?thesis unfolding upgrade(3) by (simp add: map_update)
  next
    case (fresh p)
    then show ?thesis unfolding fresh(5) by (simp add: add_probe_def)
  qed simp
qed (simp add: not_explicit_probe)

lemma check_probe_seen: "set (ps_seen s) \<subseteq> set (ps_seen (check_probe a check s))"
proof (cases "explicit check")
  case True
  then show ?thesis
    by (cases rule: check_probe_cases [where a = a and s = s]) (auto simp: add_probe_def)
qed (simp add: not_explicit_probe)

lemma check_probe_observed:
  assumes "plan_inv s" "k \<in> set (ps_seen s)" "map_of (ps_index s) k \<noteq> None"
  shows "observed (check_probe a check s) k = observed s k" "map_of (ps_index (check_probe a check s)) k \<noteq> None"
proof -
  obtain j where j: "map_of (ps_index s) k = Some j" "j < length (ps_probes s)" "p_checklistId (ps_probes s ! j) = JStr k"
    using assms(3) plan_invD [OF assms(1)] by blast
  have "observed (check_probe a check s) k = observed s k \<and> map_of (ps_index (check_probe a check s)) k \<noteq> None"
  proof (cases "explicit check")
    case True
    then show ?thesis
    proof (cases rule: check_probe_cases [where a = a and s = s])
      case seen
      then show ?thesis by (simp add: j)
    next
      case (upgrade i)
      with assms(2) have "check_id check \<noteq> k" by metis
      with plan_invD(2) [OF assms(1) upgrade(2)] j(3) have "i \<noteq> j" by auto
      then show ?thesis unfolding upgrade(3) by (simp add: observed_def j)
    next
      case (fresh p)
      with assms(2) have "k \<noteq> check_id check" by metis
      with j show ?thesis unfolding fresh(5) by (simp add: observed_def add_probe_def update_conv nth_append)
    qed
  qed (simp add: not_explicit_probe j)
  then show "observed (check_probe a check s) k = observed s k" "map_of (ps_index (check_probe a check s)) k \<noteq> None"
    by simp_all
qed

lemma first_check_observed:
  assumes "plan_inv s" "explicit check" "check_id check \<notin> set (ps_seen s)"
  shows "observed (check_probe a check s) (check_id check) = Some (explicit_observation a (recordValue check))"
    "check_id check \<in> set (ps_seen (check_probe a check s))"
  using assms(2)
proof (atomize (full), cases rule: check_probe_cases [where a = a and s = s])
  case seen
  with assms(3) show "observed (check_probe a check s) (check_id check) = Some (explicit_observation a (recordValue check))
    \<and> check_id check \<in> set (ps_seen (check_probe a check s))" by simp
next
  case (upgrade i)
  show "observed (check_probe a check s) (check_id check) = Some (explicit_observation a (recordValue check))
    \<and> check_id check \<in> set (ps_seen (check_probe a check s))"
    unfolding upgrade(3) using plan_invD(1) [OF assms(1) upgrade(2)] upgrade(2) by (simp add: observed_def upgraded_def)
next
  case (fresh p)
  show "observed (check_probe a check s) (check_id check) = Some (explicit_observation a (recordValue check))
    \<and> check_id check \<in> set (ps_seen (check_probe a check s))"
    unfolding fresh(5) using fresh(4) by (simp add: observed_def add_probe_def update_conv)
qed

section \<open>The two loops\<close>

lemma items_inv: "plan_inv s \<Longrightarrow> plan_inv (fold item_probe items s)"
  by (induction items arbitrary: s) (simp_all add: item_probe_inv)

lemma items_seen: "ps_seen (fold item_probe items s) = ps_seen s"
  by (induction items arbitrary: s) (simp_all add: item_probe_seen)

lemma ids_grow:
  assumes "\<exists>r. map probe_ids (ps_probes t) = map probe_ids (ps_probes s) @ r"
  shows "probe_ids ` set (ps_probes s) \<subseteq> probe_ids ` set (ps_probes t)"
proof -
  from assms obtain r where "map probe_ids (ps_probes t) = map probe_ids (ps_probes s) @ r" ..
  then have "set (map probe_ids (ps_probes t)) = set (map probe_ids (ps_probes s)) \<union> set r" by simp
  then show ?thesis by auto
qed

lemma items_ids: "probe_ids ` set (ps_probes s) \<subseteq> probe_ids ` set (ps_probes (fold item_probe items s))"
proof (induction items arbitrary: s)
  case (Cons item items)
  from ids_grow [OF item_probe_ids] Cons [of "item_probe item s"] show ?case
    unfolding fold_simps comp_apply by (rule subset_trans)
qed simp

definition item_ids :: "js \<Rightarrow> js \<times> js \<times> js" where
  "item_ids item = (JStr (trimmed (fld item ''id'')), JStr (trimmed (fld item ''predicateId'')),
     JStr (''probe-'' @ trimmed (fld item ''id'')))"

lemma item_probe_adds: "identified item \<Longrightarrow> item_ids item \<in> probe_ids ` set (ps_probes (item_probe item s))"
  by (simp add: item_probe_def identified_def Let_def add_probe_def probe_ids_def item_ids_def)

lemma items_covered:
  "item \<in> set items \<Longrightarrow> identified item \<Longrightarrow> item_ids item \<in> probe_ids ` set (ps_probes (fold item_probe items s))"
proof (induction items arbitrary: s)
  case (Cons x items)
  then consider "x = item" | "item \<in> set items" by auto
  then show ?case
  proof cases
    case 1
    then show ?thesis
      using item_probe_adds [OF Cons.prems(2)] items_ids by (metis (no_types, lifting) comp_apply fold_simps(2) subsetD)
  next
    case 2
    with Cons show ?thesis by simp
  qed
qed simp

lemma checks_inv: "plan_inv s \<Longrightarrow> plan_inv (fold (check_probe a) checks s)"
  by (induction checks arbitrary: s) (simp_all add: check_probe_inv)

lemma checks_ids:
  "plan_inv s \<Longrightarrow> probe_ids ` set (ps_probes s) \<subseteq> probe_ids ` set (ps_probes (fold (check_probe a) checks s))"
proof (induction checks arbitrary: s)
  case (Cons c checks)
  from ids_grow [OF check_probe_ids [OF Cons.prems]] Cons.IH [OF check_probe_inv [OF Cons.prems]] show ?case
    unfolding fold_simps comp_apply by (rule subset_trans)
qed simp

lemma checks_observed:
  "plan_inv s \<Longrightarrow> k \<in> set (ps_seen s) \<Longrightarrow> map_of (ps_index s) k \<noteq> None \<Longrightarrow>
   observed (fold (check_probe a) checks s) k = observed s k"
proof (induction checks arbitrary: s)
  case (Cons c checks)
  have "k \<in> set (ps_seen (check_probe a c s))" using check_probe_seen Cons.prems(2) by fast
  from Cons.IH [OF check_probe_inv [OF Cons.prems(1)] this check_probe_observed(2) [OF Cons.prems]]
  show ?case using check_probe_observed(1) [OF Cons.prems] by simp
qed simp

lemma check_probe_seen_only: "ps_seen (check_probe a c s) = (if explicit c then set_add (check_id c) (ps_seen s) else ps_seen s)"
proof (cases "explicit c")
  case True
  then show ?thesis
    by (cases rule: check_probe_cases [where a = a and s = s]) (simp_all add: add_probe_def set_add_def True)
qed (simp add: not_explicit_probe)

lemma checks_seen: "set (ps_seen (fold (check_probe a) checks s)) = set (ps_seen s) \<union> check_id ` {c \<in> set checks. explicit c}"
  by (induction checks arbitrary: s) (auto simp: check_probe_seen_only)

lemma observed_in:
  assumes "plan_inv s" "observed s k = Some v"
  shows "\<exists>p\<in>set (ps_probes s). p_checklistId p = JStr k \<and> p_observation p = v"
proof -
  from assms(2) obtain i where "map_of (ps_index s) k = Some i" "p_observation (ps_probes s ! i) = v"
    by (auto simp: observed_def)
  with plan_invD [OF assms(1)] show ?thesis by (metis nth_mem)
qed

lemma first_check_probed:
  assumes s: "plan_inv s" "ps_seen s = []" and c: "explicit c" "\<And>x. x \<in> set before \<Longrightarrow> explicit x \<Longrightarrow> check_id x \<noteq> check_id c"
  shows "\<exists>p\<in>set (ps_probes (fold (check_probe a) (before @ c # after) s)).
     p_checklistId p = JStr (check_id c) \<and> p_observation p = explicit_observation a (recordValue c)"
proof (rule observed_in)
  let ?t = "fold (check_probe a) before s"
  have t: "plan_inv ?t" by (rule checks_inv [OF s(1)])
  have new: "check_id c \<notin> set (ps_seen ?t)"
  proof
    assume "check_id c \<in> set (ps_seen ?t)"
    then obtain x where "x \<in> set before" "explicit x" "check_id x = check_id c"
      unfolding checks_seen s(2) by fastforce
    with c(2) show False by metis
  qed
  note u = first_check_observed [OF t c(1) new, of a]
  then have "map_of (ps_index (check_probe a c ?t)) (check_id c) \<noteq> None" by (auto simp: observed_def)
  from checks_observed [OF check_probe_inv [OF t] u(2) this] u(1)
  show "observed (fold (check_probe a) (before @ c # after) s) (check_id c) = Some (explicit_observation a (recordValue c))"
    by simp
qed (intro checks_inv s)

end
