(* ===== verification/ChecklistMatch.thy ===== *)
theory ChecklistMatch
  imports ChecklistSound Evidence
begin

text \<open>
  \<^verbatim>\<open>core/workflow/checklist-match.ts\<close>: deciding from the checklist, the verifier's verdict and
  the evidence ledger whether the work is complete.

  \<open>evaluateChecklistCompletion\<close> is one function of the source with a loop over the verdict's items
  and a loop over the evidence references of an item; here each loop body is a definition over the
  lists the loop fills (\<open>tally\<close>), and the part after the loop is \<open>outcome_of\<close>. The results are in
  the sum type of \<open>JsValue\<close>: paths that leave the repository throw, and so does a reference that
  is \<^verbatim>\<open>null\<close>.
\<close>

section \<open>Does an entry prove an item?\<close>

definition stringList :: "js \<Rightarrow> string list" where
  "stringList v = (case v of JArr vs \<Rightarrow> filter (\<lambda>s. s \<noteq> []) (map trimmed vs)
     | _ \<Rightarrow> if trimmed v \<noteq> [] then [trimmed v] else [])"

definition entry_origin :: "js \<Rightarrow> string" where
  "entry_origin entry = trimmed (or_else (fld entry ''evidenceOrigin'') (fld entry ''origin''))"

definition evidenceMetadataMatchesChecklistItem :: "js \<Rightarrow> js \<Rightarrow> bool" where
  "evidenceMetadataMatchesChecklistItem entry item =
     (let requiredClasses = stringList (fld item ''requiredEvidenceClass'');
          requiredOrigins = stringList (fld item ''requiredEvidenceOrigin'')
      in if requiredClasses \<noteq> [] \<and> trimmed (fld entry ''evidenceClass'') \<notin> set requiredClasses then False
         else if requiredOrigins \<noteq> [] \<and> entry_origin entry \<notin> set requiredOrigins then False
         else if fld item ''requiresRealPathEvidence'' = JBool True
         then fld entry ''coversRealPath'' = JBool True \<and> fld entry ''coversOnlyMinimalRepro'' \<noteq> JBool True
         else True)"

definition same_text :: "js \<Rightarrow> string \<Rightarrow> js \<Rightarrow> string \<Rightarrow> bool" where
  "same_text a k b k' = (trimmed (fld a k) = trimmed (fld b k'))"

definition evidenceMatchesChecklistItem :: "js \<Rightarrow> js \<Rightarrow> string \<Rightarrow> bool" where
  "evidenceMatchesChecklistItem entry item attemptId =
     (fld entry ''type'' = JStr ''evidence_claim''
      \<and> same_text entry ''checklistId'' item ''id''
      \<and> same_text entry ''verificationMethod'' item ''verificationMethod''
      \<and> same_text entry ''predicateId'' item ''predicateId''
      \<and> trimmed (fld entry ''result'') = ''pass''
      \<and> evidenceMetadataMatchesChecklistItem entry item
      \<and> ev_satisfied (validateEvidenceObservation entry item (JStr attemptId)))"

section \<open>External oracles\<close>

definition ORACLE_PROTECTED_ORIGINS :: "string list" where
  "ORACLE_PROTECTED_ORIGINS = [''benchmark_required'', ''user_required'', ''external_oracle'', ''user_acceptance'',
     ''user_provided'', ''ci_required'', ''ci_owned'', ''ci'']"

definition CLEAN_ORACLE_FLAGS :: "string list" where
  "CLEAN_ORACLE_FLAGS = [''externalOracleSatisfied'', ''cleanOracleReplayPassed'', ''oracleOverlayPassed'',
     ''officialScorerResolved'', ''scorerResolved'', ''externalScorerResolved'']"

definition ORACLE_PATH_FIELDS :: "string list" where
  "ORACLE_PATH_FIELDS = [''oracleFiles'', ''protectedFiles'', ''acceptanceFiles'', ''externalOracleFiles'',
     ''userAcceptanceFiles'', ''ciFiles'', ''commandFiles'']"

definition slashes :: "string \<Rightarrow> string" where
  "slashes p = map (\<lambda>c. if c = backslash then CHR ''/'' else c) p"

definition pathMatchesScope :: "string \<Rightarrow> string \<Rightarrow> bool" where
  "pathMatchesScope filePath scopePath =
     (let file = slashes filePath; scope = slashes scopePath
      in if file = [] \<or> scope = [] then False
         else if startsWith scope ''**/''
         then startsWith file (drop 3 scope) \<or> includes_sub file (''/'' @ drop 3 scope)
         else if endsWith scope ''/'' then startsWith file scope
         else file = scope \<or> startsWith file (scope @ ''/''))"

definition quote_chars :: string where
  "quote_chars = [CHR 0x27, CHR 0x22, CHR 0x60]"

definition letter :: "char \<Rightarrow> bool" where
  "letter c = (let n = (of_char c :: nat) in (65 \<le> n \<and> n \<le> 90) \<or> (97 \<le> n \<and> n \<le> 122))"

definition edges_re :: "string \<Rightarrow> string \<Rightarrow> re" where
  "edges_re opening closing = Alt (Cat Bol (plus_re (any_of opening))) (Cat (plus_re (any_of closing)) Eol)"

definition url_re :: re where
  "url_re = cats [Bol, Cls letter, Rep (Cls (\<lambda>c. letter c \<or> is_digit c \<or> c \<in> set ''+.-'')), lit ''://'']"

definition host_port_re :: re where
  "host_port_re = cats [Bol, Cls (\<lambda>c. letter c \<or> c = CHR ''_''), Rep (Cls (\<lambda>c. is_word c \<or> c \<in> set ''.-'')), lit '':'',
     plus_re digit, Eol]"

definition after_last :: "char \<Rightarrow> string \<Rightarrow> string" where
  \<comment> \<open>\<^verbatim>\<open>s.slice(s.lastIndexOf(c) + 1)\<close>\<close>
  "after_last c s = rev (takeWhile (\<lambda>x. x \<noteq> c) (rev s))"

definition line_suffix_re :: re where
  "line_suffix_re = cats [lit '':'', plus_re digit, opt_re (Cat (lit '':'') (plus_re digit)), Eol]"

definition cleanPathToken :: "js \<Rightarrow> string" where
  "cleanPathToken v =
     (let c1 = re_replace_all (edges_re quote_chars quote_chars) (\<lambda>_. []) (trimmed v);
          c2 = re_replace_all (edges_re ''([{'' '')]},;'') (\<lambda>_. []) c1
      in if c2 = [] then []
         else if re_test url_re c2 then []
         else if re_test host_port_re c2 \<and> CHR ''/'' \<notin> set c2 then []
         else let c3 = after_last CHR ''='' c2;
                  c4 = re_replace_first (cats [Bol, lit ''.'', plus_re (ch CHR ''/'')]) [] c3;
                  c5 = re_replace_first line_suffix_re [] c4
              in if c5 = [] \<or> \<not> isRepoRelativePosixPath (JStr c5) then [] else c5)"

text \<open>The functions of the source add to a set of paths; these give the paths in the order of
  adding.\<close>

fun collectPathField :: "js \<Rightarrow> string list" where
  "collectPathField (JArr vs) = concat (map collectPathField vs)"
| "collectPathField v = (let path = cleanPathToken v in if path = [] then [] else [path])"

fun split_on :: "(char \<Rightarrow> bool) \<Rightarrow> string \<Rightarrow> string list" where
  "split_on f [] = [[]]"
| "split_on f (x # xs) =
     (case split_on f xs of [] \<Rightarrow> [[x]] | w # ws \<Rightarrow> if f x then [] # w # ws else (x # w) # ws)"

definition extension_re :: re where
  "extension_re = cats [lit ''.'', plus_re (Cls (\<lambda>c. letter c \<or> is_digit c)), Eol]"

definition collectPathTokens :: "js \<Rightarrow> string list" where
  "collectPathTokens v = concat (map (\<lambda>token. let path = cleanPathToken (JStr token)
     in if path \<noteq> [] \<and> (CHR ''/'' \<in> set path \<or> re_test extension_re path) then [path] else [])
     (split_on (\<lambda>c. is_space c \<or> c \<in> set quote_chars) (trimmed v)))"

definition collectSourceRefPaths :: "js \<Rightarrow> string list" where
  "collectSourceRefPaths v = concat (map (\<lambda>ref.
     if trimmed (fld ref ''kind'') = ''task_text'' \<or> startsWith (trimmed (fld ref ''locator'')) ''task:'' then []
     else collectPathField (or_else (or_else (fld ref ''path'') (fld ref ''file'')) (fld ref ''locator''))) (recordArray v))"

definition oracleProtectedPaths :: "js \<Rightarrow> js \<Rightarrow> string list" where
  "oracleProtectedPaths entry item = sort (uniq
     (concat (map (\<lambda>field. collectPathField (fld item field) @ collectPathField (fld entry field)) ORACLE_PATH_FIELDS)
      @ collectSourceRefPaths (fld item ''sourceRefs'') @ collectSourceRefPaths (fld entry ''sourceRefs'')
      @ collectPathTokens (fld item ''expectedEvidence'') @ collectPathTokens (fld entry ''command'')
      @ collectPathTokens (fld entry ''displayCommand'')))"

definition requiresCleanOracleProvenance :: "js \<Rightarrow> js \<Rightarrow> bool" where
  "requiresCleanOracleProvenance entry item = list_ex (\<lambda>origin. origin \<in> set ORACLE_PROTECTED_ORIGINS)
     (filter (\<lambda>s. s \<noteq> []) (stringList (fld item ''requiredEvidenceOrigin'')
        @ [trimmed (fld item ''evidenceOrigin''), entry_origin entry]))"

definition hasCleanOracleReplay :: "js \<Rightarrow> bool" where
  "hasCleanOracleReplay entry = list_ex (\<lambda>field. fld entry field = JBool True) CLEAN_ORACLE_FLAGS"

definition executionChangedFiles :: "js \<Rightarrow> string list result" where
  "executionChangedFiles executionMap =
     (let direct = arr (fld executionMap ''changedFiles'')
      in if direct \<noteq> [] then normalizeRepoRelativePaths (JArr direct)
         else normalizeRepoRelativePaths (JArr (concat (map (\<lambda>entry. arr (fld entry ''changedFiles''))
            (recordArray (fld executionMap ''mappings''))))))"

definition pollutedOracleFilesForEvidence :: "js \<Rightarrow> js \<Rightarrow> string list \<Rightarrow> string list" where
  "pollutedOracleFilesForEvidence entry item changed =
     (if \<not> requiresCleanOracleProvenance entry item then []
      else if hasCleanOracleReplay entry then []
      else let protectedPaths = oracleProtectedPaths entry item
           in if protectedPaths = [] \<or> changed = [] then []
              else sort (filter (\<lambda>f. list_ex (pathMatchesScope f) protectedPaths) changed))"

section \<open>Outcomes\<close>

record runtime_ref =
  rr_type :: string
  rr_attemptId :: "string option"
  rr_phase :: "string option"
  rr_nodeId :: "string option"
  rr_reason :: "string option"

record checklist_outcome =
  co_outcome :: string
  co_reason :: string
  failedChecklistIds :: "string list"
  uncheckedChecklistIds :: "string list"
  failedFixScope :: "string list"
  missingEvidenceRefs :: "js list"
  mismatchedEvidenceRefs :: "js list"
  staleEvidenceRefs :: "js list"
  poisonedEvidenceRefs :: "js list"
  pollutedEvidenceRefs :: "js list"
  pollutedOracleFiles :: "string list"
  runtimeFailureRefs :: "runtime_ref list"
  co_attemptId :: "string option"
  co_unmappedChangedFiles :: "string list"
  evidenceMissingCause :: "string option"

definition checklistOutcome :: "string \<Rightarrow> string \<Rightarrow> checklist_outcome" where
  \<comment> \<open>with no further fields\<close>
  "checklistOutcome outcome reason = \<lparr>co_outcome = outcome, co_reason = reason, failedChecklistIds = [],
     uncheckedChecklistIds = [], failedFixScope = [], missingEvidenceRefs = [], mismatchedEvidenceRefs = [],
     staleEvidenceRefs = [], poisonedEvidenceRefs = [], pollutedEvidenceRefs = [], pollutedOracleFiles = [],
     runtimeFailureRefs = [], co_attemptId = None, co_unmappedChangedFiles = [], evidenceMissingCause = None\<rparr>"

definition text_opt :: "js \<Rightarrow> string option" where
  \<comment> \<open>\<^verbatim>\<open>text(v) || null\<close>\<close>
  "text_opt v = (if trimmed v = [] then None else Some (trimmed v))"

definition no_probe_note :: "js \<Rightarrow> bool" where
  "no_probe_note entry = (let note = toLowerCase (trimmed (fld entry ''note''))
     in includes_sub note ''no trusted structured probe'' \<or> includes_sub note ''no deterministic probe''
        \<or> includes_sub note ''unsupported verificationmethod'')"

definition evidenceRecoveryCause :: "string list \<Rightarrow> js list \<Rightarrow> js list \<Rightarrow> string \<Rightarrow> string" where
  "evidenceRecoveryCause checklistIds checklistItems evidenceEntries attemptId =
     (let ids = filter (\<lambda>s. s \<noteq> []) checklistIds;
          items = filter (\<lambda>item. item_id item \<in> set ids) checklistItems;
          relevant = filter (\<lambda>entry. trimmed (fld entry ''checklistId'') \<in> set ids) evidenceEntries
      in if list_ex (\<lambda>item. trimmed (fld item ''verificationMethod'') = ''manual'') items then ''manual_approval_missing''
         else if list_ex (\<lambda>item. list_ex (\<lambda>entry. same_text entry ''checklistId'' item ''id''
              \<and> evidenceMatchesChecklistItem entry item attemptId) evidenceEntries) items
         then ''probe_available_not_run''
         else if relevant = [] \<or> list_ex no_probe_note relevant then ''probe_definition_missing''
         else ''implementation_gap'')"

definition runtime_failure_types :: "string list" where
  "runtime_failure_types = [''phase_poisoned_session'', ''poisoned_session'', ''job_panic'', ''runjob_panic'']"

definition runtime_ref_of :: "js \<Rightarrow> runtime_ref option" where
  "runtime_ref_of entry = (let ty = trimmed (or_else (or_else (fld entry ''type'') (fld entry ''kind'')) (fld entry ''code''))
     in if ty \<notin> set runtime_failure_types then None
        else Some \<lparr>rr_type = ty, rr_attemptId = text_opt (fld entry ''attemptId''), rr_phase = text_opt (fld entry ''phase''),
           rr_nodeId = text_opt (fld entry ''nodeId''), rr_reason = text_opt (fld entry ''reason'')\<rparr>)"

definition normalizeRuntimeFailureRefs :: "js \<Rightarrow> js \<Rightarrow> bool \<Rightarrow> runtime_ref list \<times> runtime_ref list" where
  \<comment> \<open>the references of the active attempt, and those without an owner\<close>
  "normalizeRuntimeFailureRefs runtimeFailures attemptId multiAttempt =
     (let found = List.map_filter runtime_ref_of (arr runtimeFailures); active = trimmed attemptId
      in (filter (\<lambda>r. \<not> (active \<noteq> [] \<and> rr_attemptId r \<noteq> None \<and> rr_attemptId r \<noteq> Some active)) found,
          filter (\<lambda>r. multiAttempt \<and> rr_attemptId r = None) found))"

section \<open>Items to check again\<close>

definition has_length :: "js \<Rightarrow> bool" where
  \<comment> \<open>\<^verbatim>\<open>v?.length\<close> as a condition\<close>
  "has_length v = (case v of JArr vs \<Rightarrow> vs \<noteq> [] | JStr s \<Rightarrow> s \<noteq> [] | _ \<Rightarrow> truthy (fld v ''length''))"

definition mapped_files :: "js \<Rightarrow> string \<Rightarrow> js list result" where
  "mapped_files previousExecutionMap itemId =
     thn (map_r (\<lambda>m. thn (deref m ''checklistId'') (\<lambda>i.
            Inr (if trimmed i = itemId then arr (fld m ''changedFiles'') else []))) (arr (fld previousExecutionMap ''mappings'')))
       (\<lambda>files. Inr (concat files))"

definition impacted_id :: "js list \<Rightarrow> string list \<Rightarrow> js \<Rightarrow> js \<Rightarrow> string list result" where
  "impacted_id locked changed previousExecutionMap item =
     thn (deref item ''id'') (\<lambda>i. let itemId = trimmed i
       in if JStr itemId \<notin> set locked then Inr []
          else thn (mapped_files previousExecutionMap itemId) (\<lambda>previous.
            let relevant = arr (fld item ''allowedFiles'') @ previous
            in Inr (if list_ex (\<lambda>f. JStr f \<in> set relevant) changed then [itemId] else [])))"

definition computeImpactedChecklistIds :: "js \<Rightarrow> js \<Rightarrow> js \<Rightarrow> js \<Rightarrow> string list result" where
  "computeImpactedChecklistIds files acceptanceChecklist previousExecutionMap lockedPassedChecklistIds =
     (if \<not> has_length (fld acceptanceChecklist ''items'') then Inr []
      else thn (normalizeRepoRelativePaths (or_else files (JArr []))) (\<lambda>changed.
        if changed = [] then Inr []
        else thn (iterate (fld acceptanceChecklist ''items'')) (\<lambda>items.
          thn (map_r (impacted_id (arr lockedPassedChecklistIds) changed previousExecutionMap) items) (\<lambda>found.
            Inr (sort (uniq (concat found)))))))"

section \<open>Completion\<close>

text \<open>What the loops read: the checklist's items, the ledger's entries by key, the final worktree, the
  files the execution changed and the active attempt.\<close>

record eval_ctx =
  ec_items :: "js list"
  ec_entries :: "(string \<times> js) list"
  ec_head :: string
  ec_diff :: string
  ec_changed :: "string list"
  ec_attempt :: string

text \<open>What the loops fill.\<close>

record tally =
  t_failed :: "string list"
  t_unchecked :: "string list"
  t_fixScope :: "string list"
  t_missing :: "js list"
  t_mismatched :: "js list"
  t_stale :: "js list"
  t_poisoned :: "js list"
  t_polluted :: "js list"
  t_pollutedFiles :: "string list"

definition empty_tally :: tally where
  "empty_tally = \<lparr>t_failed = [], t_unchecked = [], t_fixScope = [], t_missing = [], t_mismatched = [], t_stale = [],
     t_poisoned = [], t_polluted = [], t_pollutedFiles = []\<rparr>"

definition evidence_by_key :: "string \<Rightarrow> js list \<Rightarrow> (string \<times> js) list" where
  \<comment> \<open>a later entry replaces an earlier one with the same key\<close>
  "evidence_by_key ledgerId evs = rev (map (\<lambda>entry. (ledgerId @ '':'' @ trimmed (fld entry ''id''), entry)) evs)"

definition key_of :: "js \<Rightarrow> string result" where
  "key_of ref = thn (deref ref ''ledgerId'') (\<lambda>_. Inr (evidenceKey ref))"

definition on :: "bool \<Rightarrow> 'a \<Rightarrow> 'a list" where
  "on b x = (if b then [x] else [])"

text \<open>The body of the loop over the evidence references of a passing item.\<close>

definition ref_step :: "eval_ctx \<Rightarrow> js \<Rightarrow> js \<Rightarrow> tally \<Rightarrow> tally result" where
  "ref_step ctx item ref t = thn (key_of ref) (\<lambda>key.
     case map_of (ec_entries ctx) key of
       None \<Rightarrow> Inr (t\<lparr>t_missing := t_missing t @ [ref]\<rparr>)
     | Some entry \<Rightarrow>
       let matches = evidenceMatchesChecklistItem entry item (ec_attempt ctx);
           polluted = (if matches then pollutedOracleFilesForEvidence entry item (ec_changed ctx) else []);
           stale = (trimmed (fld entry ''worktreeHead'') \<noteq> ec_head ctx \<or> trimmed (fld entry ''diffHash'') \<noteq> ec_diff ctx)
       in Inr (t\<lparr>t_mismatched := t_mismatched t @ on (\<not> matches) ref,
                 t_polluted := t_polluted t @ on (polluted \<noteq> []) ref,
                 t_pollutedFiles := t_pollutedFiles t @ polluted,
                 t_stale := t_stale t @ on stale ref,
                 t_poisoned := t_poisoned t @ on (fld entry ''poisonedSession'' = JBool True) ref\<rparr>))"

definition find_item :: "js list \<Rightarrow> string \<Rightarrow> js option" where
  "find_item items checklistId = List.find (\<lambda>item. item_id item = checklistId) items"

definition fix_scope_of :: "js \<Rightarrow> js \<Rightarrow> string list result" where
  "fix_scope_of v item =
     (let explicit = text_list (fld v ''fixScope'')
      in if explicit \<noteq> [] then Inr explicit else normalizeRepoRelativePaths (JArr (arr (fld item ''allowedFiles''))))"

text \<open>The body of the loop over the verdict's items.\<close>

definition verdict_step :: "eval_ctx \<Rightarrow> js \<Rightarrow> tally \<Rightarrow> tally result" where
  "verdict_step ctx v t = (case find_item (ec_items ctx) (verdict_id v) of
      None \<Rightarrow> Inr t
    | Some item \<Rightarrow>
      if \<not> truthy (fld item ''required'') then Inr t
      else let result = fld v ''result''; failed = (result = JStr ''fail''); unchecked = (result = JStr ''unchecked'');
               t1 = t\<lparr>t_failed := t_failed t @ on failed (verdict_id v), t_unchecked := t_unchecked t @ on unchecked (verdict_id v)\<rparr>
           in thn (if failed \<or> unchecked
                   then thn (fix_scope_of v item) (\<lambda>files. Inr (t1\<lparr>t_fixScope := t_fixScope t1 @ files\<rparr>))
                   else Inr t1)
                (\<lambda>t2. if result = JStr ''pass'' then fold_r (ref_step ctx item) (arr (fld v ''evidenceRefs'')) t2 else Inr t2))"

definition common_outcome :: "tally \<Rightarrow> string \<Rightarrow> string \<Rightarrow> checklist_outcome" where
  "common_outcome t outcome reason = (checklistOutcome outcome reason)
     \<lparr>failedChecklistIds := t_failed t, uncheckedChecklistIds := t_unchecked t,
      failedFixScope := sort (uniq (t_fixScope t)), missingEvidenceRefs := t_missing t,
      mismatchedEvidenceRefs := t_mismatched t, staleEvidenceRefs := t_stale t, poisonedEvidenceRefs := t_poisoned t,
      pollutedEvidenceRefs := t_polluted t, pollutedOracleFiles := sort (uniq (t_pollutedFiles t))\<rparr>"

text \<open>\<^verbatim>\<open>refs.some((ref) => missing.some((m) => evidenceKey(m) === evidenceKey(ref)))\<close>\<close>

fun cites_missing :: "string list \<Rightarrow> js list \<Rightarrow> bool result" where
  "cites_missing keys [] = Inr False"
| "cites_missing keys (ref # refs) =
     thn (key_of ref) (\<lambda>key. if key \<in> set keys then Inr True else cites_missing keys refs)"

definition missing_ids :: "js list \<Rightarrow> js list \<Rightarrow> string list result" where
  "missing_ids missing vs =
     thn (map_r (\<lambda>v. thn (cites_missing (map evidenceKey missing) (arr (fld v ''evidenceRefs'')))
            (\<lambda>b. Inr (on b (verdict_id v)))) vs)
       (\<lambda>found. Inr (filter (\<lambda>s. s \<noteq> []) (concat found)))"

definition outcome_of :: "eval_ctx \<Rightarrow> js list \<Rightarrow> js list \<Rightarrow> tally \<Rightarrow> checklist_outcome result" where
  "outcome_of ctx vs evs t =
     (if t_poisoned t \<noteq> []
      then Inr (common_outcome t ''poisoned_session'' ''pass verdict references poisoned-session evidence'')
      else if t_polluted t \<noteq> []
      then Inr (common_outcome t ''oracle_polluted'' ''pass verdict references external oracle evidence from executor-modified files'')
      else if t_failed t \<noteq> [] then Inr (common_outcome t ''checklist_failed'' ''required checklist items failed'')
      else if t_unchecked t \<noteq> []
      then Inr ((common_outcome t ''checklist_incomplete'' ''required checklist items were not checked'')
             \<lparr>evidenceMissingCause := Some (evidenceRecoveryCause (t_unchecked t) (ec_items ctx) evs (ec_attempt ctx))\<rparr>)
      else if t_missing t \<noteq> []
      then thn (missing_ids (t_missing t) vs) (\<lambda>ids.
             Inr ((common_outcome t ''evidence_missing'' ''pass verdict references missing evidence'')
               \<lparr>evidenceMissingCause := Some (evidenceRecoveryCause ids (ec_items ctx) evs (ec_attempt ctx))\<rparr>))
      else if t_mismatched t \<noteq> []
      then Inr (common_outcome t ''evidence_mismatch'' ''pass verdict references evidence that does not prove the checklist item'')
      else if t_stale t \<noteq> [] then Inr (common_outcome t ''evidence_stale'' ''pass verdict references stale evidence'')
      else Inr (common_outcome t ''complete'' ''all required checklist items passed with fresh evidence''))"

definition covered_files :: "js list \<Rightarrow> string \<Rightarrow> js list \<Rightarrow> string list result" where
  "covered_files items attempt evs =
     thn (map_r (\<lambda>entry. case find_item items (trimmed (fld entry ''checklistId'')) of
            None \<Rightarrow> Inr []
          | Some item \<Rightarrow> if evidenceMatchesChecklistItem entry item attempt
              then normalizeRepoRelativePaths (or_else (fld entry ''changedFilesInScope'') (JArr [])) else Inr []) evs)
       (\<lambda>files. Inr (concat files))"

definition active_attempt :: "js \<Rightarrow> js \<Rightarrow> js \<Rightarrow> string" where
  "active_attempt checklist ledger attemptId =
     trimmed (or_else (or_else attemptId (fld ledger ''attemptId'')) (fld checklist ''attemptId''))"

definition eval_context :: "js \<Rightarrow> js \<Rightarrow> js \<Rightarrow> string list \<Rightarrow> eval_ctx" where
  "eval_context checklist ledger attemptId changed =
     (let finalWorktree = recordValue (fld ledger ''finalWorktree'')
      in \<lparr>ec_items = arr (fld checklist ''items''),
          ec_entries = evidence_by_key (trimmed (fld ledger ''ledgerId'')) (recordArray (fld ledger ''evidence'')),
          ec_head = trimmed (fld finalWorktree ''head''), ec_diff = trimmed (fld finalWorktree ''diffHash''),
          ec_changed = changed, ec_attempt = active_attempt checklist ledger attemptId\<rparr>)"

definition evaluateChecklistCompletion ::
  "(string \<Rightarrow> string) \<Rightarrow> js \<Rightarrow> js \<Rightarrow> js \<Rightarrow> js \<Rightarrow> js \<Rightarrow> js \<Rightarrow> bool \<Rightarrow> checklist_outcome result" where
  "evaluateChecklistCompletion sha checklist0 verdict0 evidenceLedger executionMap runtimeFailures attemptId multiAttempt =
     (let checklist = recordValue checklist0; verdict = recordValue verdict0; ledger = recordValue evidenceLedger;
          (refs, ambiguous) = normalizeRuntimeFailureRefs runtimeFailures attemptId multiAttempt
      in if ambiguous \<noteq> []
         then Inr ((checklistOutcome ''runtime_failure_ambiguous'' ''runtime failure event is missing attempt ownership'')
                \<lparr>runtimeFailureRefs := ambiguous, co_attemptId := text_opt attemptId\<rparr>)
         else if refs \<noteq> []
         then Inr ((checklistOutcome (if list_ex (\<lambda>r. rr_type r \<in> set [''job_panic'', ''runjob_panic'']) refs
                  then ''runjob_panic'' else ''poisoned_session'') ''runtime failure event blocks checklist completion'')
                \<lparr>runtimeFailureRefs := refs, co_attemptId := text_opt attemptId\<rparr>)
         else (case validateChecklistVerdict sha verdict checklist of
             Inl (reason, _) \<Rightarrow> Inr (checklistOutcome ''checklist_invalid'' reason)
           | Inr _ \<Rightarrow>
             let items = arr (fld checklist ''items''); vs = arr (fld verdict ''items'');
                 evs = recordArray (fld ledger ''evidence'')
             in thn (executionChangedFiles executionMap) (\<lambda>changed.
                thn (covered_files items (active_attempt checklist ledger attemptId) evs) (\<lambda>covered.
                thn (normalizeRepoRelativePaths (JArr (arr (fld executionMap ''unmappedChangedFiles'')))) (\<lambda>files.
                let unmapped = filter (\<lambda>f. f \<notin> set covered) files;
                    ctx = eval_context checklist ledger attemptId changed
                in if unmapped \<noteq> []
                   then Inr ((checklistOutcome ''scope_violation'' ''execution map contains unmapped changed files'')
                          \<lparr>co_unmappedChangedFiles := unmapped\<rparr>)
                   else thn (fold_r (verdict_step ctx) vs empty_tally) (outcome_of ctx vs evs))))))"

section \<open>What the loops establish\<close>

text \<open>A tally without complaints, and what it takes for a reference to add none.\<close>

definition spotless :: "tally \<Rightarrow> bool" where
  "spotless t = (t_failed t = [] \<and> t_unchecked t = [] \<and> t_missing t = [] \<and> t_mismatched t = []
     \<and> t_stale t = [] \<and> t_poisoned t = [] \<and> t_polluted t = [])"

definition backs :: "eval_ctx \<Rightarrow> js \<Rightarrow> js \<Rightarrow> bool" where
  "backs ctx item ref = (\<exists>entry. map_of (ec_entries ctx) (evidenceKey ref) = Some entry
     \<and> evidenceMatchesChecklistItem entry item (ec_attempt ctx)
     \<and> pollutedOracleFilesForEvidence entry item (ec_changed ctx) = []
     \<and> trimmed (fld entry ''worktreeHead'') = ec_head ctx \<and> trimmed (fld entry ''diffHash'') = ec_diff ctx
     \<and> fld entry ''poisonedSession'' \<noteq> JBool True)"

lemma on_nil [simp]: "on b x = [] \<longleftrightarrow> \<not> b"
  by (simp add: on_def)

lemma ref_step_spotless:
  assumes "ref_step ctx item ref t = Inr t'" "spotless t'"
  shows "spotless t \<and> backs ctx item ref"
  using assms by (auto simp: ref_step_def key_of_def thn_eq_Inr deref_def spotless_def backs_def Let_def split: option.splits if_splits)

lemma refs_spotless:
  "fold_r (ref_step ctx item) refs t = Inr t' \<Longrightarrow> spotless t' \<Longrightarrow> spotless t \<and> (\<forall>ref\<in>set refs. backs ctx item ref)"
proof (induction refs arbitrary: t)
  case (Cons ref refs)
  then obtain t1 where "ref_step ctx item ref t = Inr t1" "fold_r (ref_step ctx item) refs t1 = Inr t'"
    by (auto simp: thn_eq_Inr)
  with Cons.IH [OF this(2) Cons.prems(2)] ref_step_spotless show ?case by fastforce
qed simp

definition item_settled :: "eval_ctx \<Rightarrow> js \<Rightarrow> bool" where
  "item_settled ctx v = (\<forall>item. find_item (ec_items ctx) (verdict_id v) = Some item \<and> truthy (fld item ''required'') \<longrightarrow>
     fld v ''result'' \<noteq> JStr ''fail'' \<and> fld v ''result'' \<noteq> JStr ''unchecked''
     \<and> (fld v ''result'' = JStr ''pass'' \<longrightarrow> (\<forall>ref\<in>set (arr (fld v ''evidenceRefs'')). backs ctx item ref)))"

lemma verdict_step_spotless:
  assumes "verdict_step ctx v t = Inr t'" "spotless t'"
  shows "spotless t \<and> item_settled ctx v"
proof (cases "find_item (ec_items ctx) (verdict_id v)")
  case None
  with assms show ?thesis by (simp add: verdict_step_def item_settled_def)
next
  case (Some item)
  show ?thesis
  proof (cases "truthy (fld item ''required'')")
    case False
    with assms Some show ?thesis by (simp add: verdict_step_def item_settled_def)
  next
    case True
    let ?failed = "fld v ''result'' = JStr ''fail''" and ?unchecked = "fld v ''result'' = JStr ''unchecked''"
    let ?t1 = "t\<lparr>t_failed := t_failed t @ on ?failed (verdict_id v), t_unchecked := t_unchecked t @ on ?unchecked (verdict_id v)\<rparr>"
    from assms(1) Some True obtain t2 where
      t2: "(if ?failed \<or> ?unchecked then thn (fix_scope_of v item) (\<lambda>files. Inr (?t1\<lparr>t_fixScope := t_fixScope ?t1 @ files\<rparr>)) else Inr ?t1) = Inr t2"
      and run: "(if fld v ''result'' = JStr ''pass'' then fold_r (ref_step ctx item) (arr (fld v ''evidenceRefs'')) t2 else Inr t2) = Inr t'"
      by (simp add: verdict_step_def Let_def thn_eq_Inr del: fold_r.simps) blast
    from run assms(2) have clean: "spotless t2"
      "fld v ''result'' = JStr ''pass'' \<longrightarrow> (\<forall>ref\<in>set (arr (fld v ''evidenceRefs'')). backs ctx item ref)"
      using refs_spotless by (auto split: if_splits)
    from t2 have "t_failed t2 = t_failed ?t1" "t_unchecked t2 = t_unchecked ?t1" "t_missing t2 = t_missing t"
      "t_mismatched t2 = t_mismatched t" "t_stale t2 = t_stale t" "t_poisoned t2 = t_poisoned t" "t_polluted t2 = t_polluted t"
      by (auto simp: thn_eq_Inr split: if_splits)
    with clean Some show ?thesis by (auto simp: spotless_def item_settled_def)
  qed
qed

lemma verdicts_spotless:
  "fold_r (verdict_step ctx) vs t = Inr t' \<Longrightarrow> spotless t' \<Longrightarrow> spotless t \<and> (\<forall>v\<in>set vs. item_settled ctx v)"
proof (induction vs arbitrary: t)
  case (Cons v vs)
  then obtain t1 where "verdict_step ctx v t = Inr t1" "fold_r (verdict_step ctx) vs t1 = Inr t'"
    by (auto simp: thn_eq_Inr)
  with Cons.IH [OF this(2) Cons.prems(2)] verdict_step_spotless show ?case by fastforce
qed simp

lemma complete_spotless:
  assumes "outcome_of ctx vs evs t = Inr o'" "co_outcome o' = ''complete''"
  shows "spotless t"
  using assms by (auto simp: outcome_of_def common_outcome_def checklistOutcome_def thn_eq_Inr spotless_def split: if_splits)

lemma eval_context_record [simp]:
  "eval_context (recordValue c) (recordValue l) a changed = eval_context c l a changed"
  by (simp add: eval_context_def active_attempt_def)

text \<open>The runs that end with the outcome \<^verbatim>\<open>complete\<close>.\<close>

lemma complete_run:
  assumes "evaluateChecklistCompletion sha checklist verdict ledger executionMap runtimeFailures attemptId multiAttempt = Inr out"
    "co_outcome out = ''complete''"
  obtains changed t where "executionChangedFiles executionMap = Inr changed"
    "normalizeRuntimeFailureRefs runtimeFailures attemptId multiAttempt = ([], [])"
    "validateChecklistVerdict sha (recordValue verdict) (recordValue checklist) = Inr ()"
    "fold_r (verdict_step (eval_context checklist ledger attemptId changed)) (arr (fld verdict ''items'')) empty_tally = Inr t"
    "spotless t"
proof -
  obtain refs amb where r: "normalizeRuntimeFailureRefs runtimeFailures attemptId multiAttempt = (refs, amb)"
    by (cases "normalizeRuntimeFailureRefs runtimeFailures attemptId multiAttempt")
  note run = assms(1) [unfolded evaluateChecklistCompletion_def Let_def r prod.case]
  have outs: "co_outcome (checklistOutcome a b) = a" for a b by (simp add: checklistOutcome_def)
  from run assms(2) have none: "refs = []" "amb = []"
    by (auto simp: outs split: if_splits)
  from run none assms(2) have valid: "validateChecklistVerdict sha (recordValue verdict) (recordValue checklist) = Inr ()"
    by (cases "validateChecklistVerdict sha (recordValue verdict) (recordValue checklist)") (auto simp: outs split: prod.splits)
  let ?evs = "recordArray (fld ledger ''evidence'')" and ?vs = "arr (fld verdict ''items'')"
  from run none valid assms(2) obtain changed where c: "executionChangedFiles executionMap = Inr changed"
    and o1: "thn (fold_r (verdict_step (eval_context checklist ledger attemptId changed)) ?vs empty_tally)
        (outcome_of (eval_context checklist ledger attemptId changed) ?vs ?evs) = Inr out"
    by (simp add: thn_eq_Inr outs del: fold_r.simps split: if_splits) (auto simp: outs)
  then obtain t where t: "fold_r (verdict_step (eval_context checklist ledger attemptId changed)) ?vs empty_tally = Inr t"
    "outcome_of (eval_context checklist ledger attemptId changed) ?vs ?evs t = Inr out"
    by (auto simp: thn_eq_Inr)
  show thesis
    by (rule that [OF c _ valid t(1) complete_spotless [OF t(2) assms(2)]]) (simp add: r none)
qed

lemma find_item_required:
  assumes "distinct (map item_id items)" "item \<in> set items"
  shows "find_item items (item_id item) = Some item"
  using assms
proof (induction items)
  case (Cons x items)
  then show ?case by (cases "x = item") (auto simp: find_item_def)
qed simp

lemma complete_backed:
  assumes run: "evaluateChecklistCompletion sha checklist verdict ledger executionMap runtimeFailures attemptId multiAttempt = Inr out"
    "co_outcome out = ''complete''"
    and exact: "\<forall>v\<in>set (arr (fld verdict ''items'')). fld v ''result'' = JStr (trimmed (fld v ''result''))"
    and item: "item \<in> set (required_items (arr (fld checklist ''items'')))"
  shows "\<exists>changed. executionChangedFiles executionMap = Inr changed
    \<and> (\<exists>v\<in>set (arr (fld verdict ''items'')). verdict_id v = item_id item \<and> fld v ''result'' = JStr ''pass''
        \<and> arr (fld v ''evidenceRefs'') \<noteq> []
        \<and> (\<forall>ref\<in>set (arr (fld v ''evidenceRefs'')). backs (eval_context checklist ledger attemptId changed) item ref))"
proof (rule complete_run [OF run])
  fix changed t
  let ?ctx = "eval_context checklist ledger attemptId changed" and ?vs = "arr (fld verdict ''items'')"
  assume changed: "executionChangedFiles executionMap = Inr changed"
    and valid: "validateChecklistVerdict sha (recordValue verdict) (recordValue checklist) = Inr ()"
    and loop: "fold_r (verdict_step ?ctx) ?vs empty_tally = Inr t" and t: "spotless t"
  from valid_verdict(1) [OF valid] obtain ids where "validateAcceptanceChecklist sha (recordValue checklist) = Inr ids" ..
  note c = valid_checklist_ids [OF this, simplified]
  have items: "ec_items ?ctx = arr (fld checklist ''items'')" by (simp add: eval_context_def Let_def)
  from item have it: "item \<in> set (arr (fld checklist ''items''))" "truthy (fld item ''required'')"
    by (simp_all add: required_items_def)
  from valid_verdict(3) [OF valid] item obtain v where v: "v \<in> set ?vs" "verdict_id v = item_id item"
    "trimmed (fld v ''result'') \<in> set ITEM_RESULTS" "fld v ''result'' = JStr ''pass'' \<longrightarrow> arr (fld v ''evidenceRefs'') \<noteq> []"
    by (auto simp: verdict_covers_def Let_def subset_iff)
  have find: "find_item (ec_items ?ctx) (verdict_id v) = Some item"
    unfolding items v(2) using find_item_required c(1,2) it(1) by simp
  have "item_settled ?ctx v" using verdicts_spotless [OF loop t] v(1) by blast
  with find it(2) have s: "fld v ''result'' \<noteq> JStr ''fail''" "fld v ''result'' \<noteq> JStr ''unchecked''"
    "fld v ''result'' = JStr ''pass'' \<longrightarrow> (\<forall>ref\<in>set (arr (fld v ''evidenceRefs'')). backs ?ctx item ref)"
    by (simp_all add: item_settled_def)
  have "fld v ''result'' = JStr ''pass''"
  proof -
    have "fld v ''result'' = JStr (trimmed (fld v ''result''))" using exact v(1) by blast
    moreover from s(1,2) this have "trimmed (fld v ''result'') \<noteq> ''fail''" "trimmed (fld v ''result'') \<noteq> ''unchecked''" by metis+
    ultimately show ?thesis using v(3) by (simp add: ITEM_RESULTS_def)
  qed
  with v s changed show ?thesis by blast
qed

end
