(* ===== verification/JsonText.thy ===== *)
theory JsonText
  imports JsValue
begin

text \<open>
  \<^verbatim>\<open>JSON.parse\<close> and the indented \<^verbatim>\<open>JSON.stringify\<close> of the language, as the verdict envelopes
  use them.

  The parser reads the grammar of RFC 8259 with the language's conventions: a repeated key keeps its
  last value, a number is read exactly. An escaped code unit becomes its UTF-8 bytes; a surrogate
  without its partner becomes three bytes. The parser's recursion is bounded by fuel; every call
  that recurses has consumed a character, so the length of the text is enough.
\<close>

section \<open>Lexemes\<close>

definition json_space :: "char \<Rightarrow> bool" where
  "json_space c = (c \<in> set [CHR '' '', CHR 0x09, CHR 0x0A, CHR 0x0D])"

definition skip :: "string \<Rightarrow> string" where
  "skip s = dropWhile json_space s"

definition hex_val :: "char \<Rightarrow> nat option" where
  "hex_val c = (let n = (of_char c :: nat) in
     if 48 \<le> n \<and> n \<le> 57 then Some (n - 48)
     else if 65 \<le> n \<and> n \<le> 70 then Some (n - 55)
     else if 97 \<le> n \<and> n \<le> 102 then Some (n - 87) else None)"

definition hex4 :: "string \<Rightarrow> (nat \<times> string) option" where
  "hex4 s = (case s of a # b # c # d # r \<Rightarrow>
       (case (hex_val a, hex_val b, hex_val c, hex_val d) of
          (Some x, Some y, Some z, Some w) \<Rightarrow> Some (4096 * x + 256 * y + 16 * z + w, r)
        | _ \<Rightarrow> None)
     | _ \<Rightarrow> None)"

definition utf8 :: "nat \<Rightarrow> string" where
  "utf8 n = (if n < 128 then [char_of n]
     else if n < 2048 then [char_of (192 + n div 64), char_of (128 + n mod 64)]
     else if n < 65536 then [char_of (224 + n div 4096), char_of (128 + n div 64 mod 64), char_of (128 + n mod 64)]
     else [char_of (240 + n div 262144), char_of (128 + n div 4096 mod 64), char_of (128 + n div 64 mod 64), char_of (128 + n mod 64)])"

text \<open>The characters after an escaped code unit: a low surrogate joins the high one before it.\<close>

definition unit_escape :: "string \<Rightarrow> (string \<times> string) option" where
  "unit_escape s = (case hex4 s of None \<Rightarrow> None
     | Some (u, r) \<Rightarrow>
       (case r of CHR 0x5C # CHR ''u'' # r' \<Rightarrow>
          (case hex4 r' of
             Some (v, r2) \<Rightarrow> if 55296 \<le> u \<and> u < 56320 \<and> 56320 \<le> v \<and> v < 57344
               then Some (utf8 (65536 + (u - 55296) * 1024 + (v - 56320)), r2) else Some (utf8 u, r)
           | None \<Rightarrow> Some (utf8 u, r))
        | _ \<Rightarrow> Some (utf8 u, r)))"

definition simple_escape :: "char \<Rightarrow> char option" where
  "simple_escape c = map_of [(CHR 0x22, CHR 0x22), (CHR 0x5C, CHR 0x5C), (CHR ''/'', CHR ''/''), (CHR ''b'', CHR 0x08),
     (CHR ''f'', CHR 0x0C), (CHR ''n'', CHR 0x0A), (CHR ''r'', CHR 0x0D), (CHR ''t'', CHR 0x09)] c"

text \<open>The rest of a string literal after its opening quote.\<close>

fun string_body :: "nat \<Rightarrow> string \<Rightarrow> (string \<times> string) option" where
  "string_body 0 s = None"
| "string_body (Suc k) [] = None"
| "string_body (Suc k) (c # s) =
     (if c = CHR 0x22 then Some ([], s)
      else if (of_char c :: nat) < 32 then None
      else if c = CHR 0x5C
      then (case s of [] \<Rightarrow> None
            | e # s' \<Rightarrow>
              (case (if e = CHR ''u'' then unit_escape s' else map_option (\<lambda>d. ([d], s')) (simple_escape e)) of
                 None \<Rightarrow> None
               | Some (cs, r) \<Rightarrow> map_option (\<lambda>(t, r'). (cs @ t, r')) (string_body k r)))
      else map_option (\<lambda>(t, r). (c # t, r)) (string_body k s))"

definition string_lit :: "string \<Rightarrow> (string \<times> string) option" where
  "string_lit s = (case s of c # r \<Rightarrow> if c = CHR 0x22 then string_body (Suc (length r)) r else None | [] \<Rightarrow> None)"

text \<open>A number: the text of the longest literal, and what follows it.\<close>

definition number_lit :: "string \<Rightarrow> (jsnum \<times> string) option" where
  "number_lit s =
     (let neg = (s \<noteq> [] \<and> hd s = CHR ''-''); s1 = (if neg then tl s else s);
          ip0 = takeWhile is_digit s1;
          ip = (if ip0 \<noteq> [] \<and> hd ip0 = CHR ''0'' then [CHR ''0''] else ip0);
          s2 = drop (length ip) s1;
          fp = (case s2 of c # r \<Rightarrow> if c = CHR ''.'' \<and> takeWhile is_digit r \<noteq> [] then c # takeWhile is_digit r else [] | [] \<Rightarrow> []);
          s3 = drop (length fp) s2;
          ep = (case s3 of c # r \<Rightarrow>
                  if c = CHR ''e'' \<or> c = CHR ''E''
                  then (let sg = (if r \<noteq> [] \<and> (hd r = CHR ''-'' \<or> hd r = CHR ''+'') then [hd r] else []);
                            ds = takeWhile is_digit (drop (length sg) r)
                        in if ds = [] then [] else c # sg @ ds)
                  else []
                | [] \<Rightarrow> [])
      in if ip = [] then None
         else Some ((if neg then num_neg else id) (parse_unsigned (ip @ fp @ ep)), drop (length ep) s3))"

section \<open>Values\<close>

fun json_value :: "nat \<Rightarrow> string \<Rightarrow> (js \<times> string) option"
and json_elements :: "nat \<Rightarrow> string \<Rightarrow> (js list \<times> string) option"
and json_members :: "nat \<Rightarrow> (string \<times> js) list \<Rightarrow> string \<Rightarrow> ((string \<times> js) list \<times> string) option" where
  "json_value 0 s = None"
| "json_value (Suc k) s = (case skip s of [] \<Rightarrow> None
     | c # r \<Rightarrow>
       if c = CHR 0x22 then map_option (\<lambda>(t, r'). (JStr t, r')) (string_lit (c # r))
       else if c = CHR ''['' then
         (case skip r of d # r' \<Rightarrow> if d = CHR '']'' then Some (JArr [], r')
            else map_option (\<lambda>(vs, r2). (JArr vs, r2)) (json_elements k r)
          | [] \<Rightarrow> None)
       else if c = CHR ''{'' then
         (case skip r of d # r' \<Rightarrow> if d = CHR ''}'' then Some (JObj [], r')
            else map_option (\<lambda>(kvs, r2). (JObj kvs, r2)) (json_members k [] r)
          | [] \<Rightarrow> None)
       else if startsWith (c # r) ''true'' then Some (JBool True, drop 3 r)
       else if startsWith (c # r) ''false'' then Some (JBool False, drop 4 r)
       else if startsWith (c # r) ''null'' then Some (JNull, drop 3 r)
       else map_option (\<lambda>(n, r'). (JNum n, r')) (number_lit (c # r)))"
| "json_elements 0 s = None"
| "json_elements (Suc k) s = (case json_value k s of None \<Rightarrow> None
     | Some (v, r) \<Rightarrow> (case skip r of [] \<Rightarrow> None
        | c # r' \<Rightarrow> if c = CHR '']'' then Some ([v], r')
            else if c = CHR '','' then map_option (\<lambda>(vs, r2). (v # vs, r2)) (json_elements k r')
            else None))"
| "json_members 0 kvs s = None"
| "json_members (Suc k) kvs s = (case string_lit (skip s) of None \<Rightarrow> None
     | Some (key, r) \<Rightarrow> (case skip r of [] \<Rightarrow> None
        | c # r' \<Rightarrow> if c \<noteq> CHR '':'' then None
            else (case json_value k r' of None \<Rightarrow> None
               | Some (v, r2) \<Rightarrow> (case skip r2 of [] \<Rightarrow> None
                  | d # r3 \<Rightarrow> if d = CHR ''}'' then Some (obj_set key v kvs, r3)
                      else if d = CHR '','' then json_members k (obj_set key v kvs) r3
                      else None))))"

text \<open>Members use the fuel twice for each value, so the fuel is twice the length.\<close>

definition json_parse :: "string \<Rightarrow> js option" where
  \<comment> \<open>\<^verbatim>\<open>JSON.parse(s)\<close>; \<open>None\<close> is its \<^verbatim>\<open>SyntaxError\<close>\<close>
  "json_parse s = (case json_value (2 * length s + 2) s of
      Some (v, r) \<Rightarrow> if skip r = [] then Some v else None
    | None \<Rightarrow> None)"

text \<open>\<^verbatim>\<open>JSON.stringify(v, null, 2)\<close>.\<close>

definition indent_by :: "nat \<Rightarrow> string" where
  "indent_by n = nl @ replicate n (CHR '' '')"

fun pretty :: "nat \<Rightarrow> js \<Rightarrow> string option" where
  "pretty n (JArr xs) = Some (if xs = [] then ''[]''
     else ''['' @ indent_by (n + 2)
       @ join ('','' @ indent_by (n + 2)) (map (\<lambda>x. case pretty (n + 2) x of None \<Rightarrow> ''null'' | Some t \<Rightarrow> t) xs)
       @ indent_by n @ '']'')"
| "pretty n (JObj kvs) = (let ms = concat (map (\<lambda>kv. case pretty (n + 2) (snd kv) of None \<Rightarrow> []
        | Some t \<Rightarrow> [json_string (fst kv) @ '': '' @ t]) kvs)
     in Some (if ms = [] then ''{}''
        else ''{'' @ indent_by (n + 2) @ join ('','' @ indent_by (n + 2)) ms @ indent_by n @ ''}''))"
| "pretty n v = stringify v"

end
