(* ===== verification/CompletionGate.thy ===== *)
theory CompletionGate
  imports ChecklistMatch JsonText
begin

text \<open>
  The verdict envelope (\<^verbatim>\<open>core/workflow/verdict.ts\<close>) and the completion gate
  (\<^verbatim>\<open>core/engine/completion-gate.ts\<close>): the last decision before a job may be called completed.

  The message of the language's \<^verbatim>\<open>SyntaxError\<close> is a parameter (\<open>syntax_message\<close>); so is the clock of
  \<open>completionGateEvent\<close>.
\<close>

section \<open>The verdict envelope\<close>

definition VALID_STATUSES :: "string list" where
  "VALID_STATUSES = [''pass'', ''fail'', ''inconclusive'', ''infra_error'']"

definition validateVerdictEnvelope :: "js \<Rightarrow> string option" where
  \<comment> \<open>the error of an invalid envelope\<close>
  "validateVerdictEnvelope envelope =
     (if \<not> isRecord envelope \<and> \<not> is_arr envelope then Some ''envelope must be an object''
      else if fld envelope ''schemaVersion'' \<noteq> jnat 2 then Some ''schemaVersion must be 2''
      else if fld envelope ''status'' \<notin> JStr ` set VALID_STATUSES
      then Some (''status must be one of: '' @ join '', '' VALID_STATUSES @ '', got: '' @ to_str (fld envelope ''status''))
      else if fld envelope ''layers'' \<noteq> JUndef \<and> \<not> isRecord (fld envelope ''layers'') then Some ''layers must be an object''
      else if fld envelope ''blocking'' \<noteq> JUndef \<and> \<not> is_arr (fld envelope ''blocking'') then Some ''blocking must be an array''
      else if fld envelope ''fix_scope'' \<noteq> JUndef \<and> \<not> is_arr (fld envelope ''fix_scope'') then Some ''fix_scope must be an array''
      else if \<not> is_str (fld envelope ''reason'') then Some ''reason must be a string''
      else if fld envelope ''summary'' \<noteq> JUndef \<and> \<not> is_str (fld envelope ''summary'') then Some ''summary must be a string''
      else None)"

definition classifyVerdict :: "js \<Rightarrow> string" where
  "classifyVerdict verdict = (let v = trim (toLowerCase (to_str verdict))
     in if v = ''pass'' then ''pass''
        else if v = ''fail'' \<or> v = ''partial'' then ''fail''
        else if v = ''inconclusive'' \<or> v = ''unknown'' then ''inconclusive''
        else if v = ''infra_error'' then ''infra_error''
        else ''inconclusive'')"

definition oneLine :: "js \<Rightarrow> string" where
  "oneLine v = trim (re_replace_all (plus_re space) (\<lambda>_. '' '') (to_str (nullish_or v (JStr []))))"

definition truncate_line :: "js \<Rightarrow> string" where
  \<comment> \<open>\<^verbatim>\<open>truncate\<close> with its default of 240\<close>
  "truncate_line v = (let t = oneLine v
     in if length t \<le> 240 then t else trimEnd (take 237 t) @ ''...'')"

definition uniqueNonEmpty :: "js list \<Rightarrow> string list" where
  "uniqueNonEmpty values = uniq (filter (\<lambda>s. s \<noteq> []) (map oneLine values))"

definition numberOption :: "js \<Rightarrow> rat \<Rightarrow> rat" where
  "numberOption v fallback = (case v of JNum (Fin x) \<Rightarrow> x | _ \<Rightarrow> fallback)"

text \<open>\<^verbatim>\<open>xs.slice(0, n)\<close>: the bound is cut to an integer and counts from the end when it is negative.\<close>

definition slice0 :: "rat \<Rightarrow> 'a list \<Rightarrow> 'a list" where
  "slice0 n xs = (if 0 \<le> n then take (nat \<lfloor>n\<rfloor>) xs else take (length xs - nat \<lfloor>- n\<rfloor>) xs)"

definition or4 :: "js \<Rightarrow> js \<Rightarrow> js \<Rightarrow> js \<Rightarrow> js" where
  "or4 a b c d = or_else (or_else (or_else a b) c) d"

definition summarizeBlockingEntry :: "js \<Rightarrow> string" where
  "summarizeBlockingEntry entry =
     (if \<not> isRecord entry then truncate_line entry
      else let criterion = oneLine (or4 (fld entry ''criterion'') (fld entry ''input'') (fld entry ''check'') (fld entry ''title''));
               file = oneLine (or_else (fld entry ''file'') (fld entry ''path''));
               evidence = oneLine (or_else (or_else (fld entry ''evidence'') (fld entry ''detail'')) (fld entry ''reason''));
               fixHint = oneLine (or_else (or_else (fld entry ''fix_hint'') (fld entry ''fixHint'')) (fld entry ''hint''))
           in truncate_line (JStr (join '' | '' (on (criterion \<noteq> []) criterion @ on (file \<noteq> []) (''file: '' @ file)
                @ on (evidence \<noteq> []) (''evidence: '' @ evidence) @ on (fixHint \<noteq> []) (''fix: '' @ fixHint)))))"

definition failedLayerChecks :: "js \<Rightarrow> string list" where
  "failedLayerChecks envelope = (let layers = fld envelope ''layers''
     in if \<not> isRecord layers then []
        else map (\<lambda>(name, layer). truncate_line (JStr (name @ '': ''
               @ (if isRecord layer then to_str (fld layer ''detail'') else ''failed''))))
             (filter (\<lambda>(name, layer). toLowerCase (if isRecord layer then to_str (fld layer ''status'') else []) = ''fail'') (entries layers)))"

definition retryScopeFromEnvelope :: "js \<Rightarrow> string list" where
  "retryScopeFromEnvelope envelope = uniqueNonEmpty (arr (fld envelope ''fix_scope'')
     @ map (\<lambda>entry. or_else (or_else (fld entry ''file'') (fld entry ''path'')) (JStr [])) (arr (fld envelope ''blocking'')))"

text \<open>The options of a retry, after the defaults of the parameter list.\<close>

record retry_options =
  ro_retryCount :: js
  ro_previousVerdictId :: js
  ro_previousVerdictPath :: js
  ro_maxItems :: js

definition default_to :: "js \<Rightarrow> js \<Rightarrow> js" where
  "default_to d v = (if v = JUndef then d else v)"

definition read_retry_options :: "js \<Rightarrow> retry_options" where
  "read_retry_options v =
     \<lparr>ro_retryCount = default_to (jnat 1) (fld v ''retryCount''), ro_previousVerdictId = default_to JNull (fld v ''previousVerdictId''),
      ro_previousVerdictPath = default_to JNull (fld v ''previousVerdictPath''), ro_maxItems = default_to (jnat 5) (fld v ''maxItems'')\<rparr>"

record retry_input =
  shouldRetry :: bool
  ri_status :: string
  ri_options :: retry_options
  ri_reason :: string
  failingChecks :: "string list"
  retryScope :: "string list"
  ri_prompt :: string

definition structured_checks :: "js \<Rightarrow> string list" where
  "structured_checks envelope = uniqueNonEmpty (map JStr
     (map summarizeBlockingEntry (arr (fld envelope ''blocking'')) @ failedLayerChecks envelope))"

definition retry_prompt :: "retry_options \<Rightarrow> string \<Rightarrow> string list \<Rightarrow> string list \<Rightarrow> string" where
  "retry_prompt opts reason checks scope = join nl (filter (\<lambda>line. line \<noteq> [])
     ([''Retry '' @ to_str (ro_retryCount opts) @ '': ''
         @ to_str (or_else (ro_previousVerdictId opts) (JStr ''previous verifier verdict'')) @ '' failed verification.'',
       if truthy (ro_previousVerdictPath opts) then ''Verdict file: '' @ to_str (ro_previousVerdictPath opts) else [],
       ''Reason: '' @ reason,
       [],
       ''Failing checks:'']
      @ (if checks \<noteq> [] then map (\<lambda>c. ''- '' @ c) checks
         else [''- Verifier reported a failure without structured blocking details.''])
      @ [[], ''Expected retry scope:'']
      @ (if scope \<noteq> [] then map (\<lambda>s. ''- '' @ s) scope
         else [''- Keep changes limited to the failing behavior and directly related tests.''])
      @ [[], ''Retry only the failing checks above unless local evidence proves a smaller adjacent change is required.'']))"

definition buildRetryInputFromVerdict :: "js \<Rightarrow> js \<Rightarrow> retry_input" where
  "buildRetryInputFromVerdict envelope options =
     (let opts = read_retry_options options; maxRetryItems = numberOption (ro_maxItems opts) 5;
          status = classifyVerdict (or_else (fld envelope ''status'') (JStr ''inconclusive''));
          base = \<lparr>shouldRetry = False, ri_status = status, ri_options = opts, ri_reason = oneLine (fld envelope ''reason''),
            failingChecks = [], retryScope = [], ri_prompt = []\<rparr>
      in if status \<noteq> ''fail'' then base
         else let structured = structured_checks envelope;
                  checks = slice0 maxRetryItems (if structured \<noteq> [] then structured else uniqueNonEmpty [fld envelope ''reason'']);
                  scope = slice0 maxRetryItems (retryScopeFromEnvelope envelope);
                  line = oneLine (fld envelope ''reason'');
                  reason = (if line \<noteq> [] then line else ''verifier rejected the previous deliverable'')
              in base\<lparr>shouldRetry := True, ri_reason := reason, failingChecks := checks, retryScope := scope,
                      ri_prompt := retry_prompt opts reason checks scope\<rparr>)"

definition parseVerdictEnvelope :: "(string \<Rightarrow> string) \<Rightarrow> js \<Rightarrow> js" where
  "parseVerdictEnvelope syntax_message content =
     (case content of
        JStr s \<Rightarrow>
          if trim s = [] then JObj [(''status'', JStr ''inconclusive''),
             (''reason'', JStr ''verdict artifact is empty; canonical JSON envelope required''), (''source'', JStr ''invalid'')]
          else (case json_parse s of
             None \<Rightarrow> JObj [(''status'', JStr ''inconclusive''),
               (''reason'', JStr (''verdict artifact is not canonical JSON: '' @ syntax_message s)), (''source'', JStr ''invalid'')]
           | Some parsed \<Rightarrow> (let envelope = recordValue parsed
               in case validateVerdictEnvelope envelope of
                  Some e \<Rightarrow> JObj (spread (own envelope) [(''status'', JStr ''inconclusive''),
                    (''reason'', JStr (''invalid verdict envelope: '' @ e)), (''source'', JStr ''invalid'')])
                | None \<Rightarrow> JObj (spread (own envelope) [(''source'', JStr ''json'')])))
      | _ \<Rightarrow> JObj [(''status'', JStr ''inconclusive''),
             (''reason'', JStr ''verdict artifact is empty; canonical JSON envelope required''), (''source'', JStr ''invalid'')])"

definition normalizeRetryReason :: "(string \<Rightarrow> string) \<Rightarrow> js \<Rightarrow> js \<Rightarrow> retry_input" where
  "normalizeRetryReason syntax_message verdictContent options =
     buildRetryInputFromVerdict (parseVerdictEnvelope syntax_message verdictContent) options"

definition formatVerdictEnvelope :: "js \<Rightarrow> string option result" where
  "formatVerdictEnvelope envelope = (case validateVerdictEnvelope envelope of
      Some e \<Rightarrow> Inl (ErrorMsg (''invalid verdict envelope: '' @ e))
    | None \<Rightarrow> Inr (pretty 0 envelope))"

section \<open>The gate\<close>

record parsed_verdict =
  pv_status :: string
  pv_raw :: string

definition parseVerdict :: "js \<Rightarrow> parsed_verdict option" where
  "parseVerdict verdictText =
     (let found = (case verdictText of
            JObj _ \<Rightarrow> Some verdictText
          | JArr _ \<Rightarrow> Some (JObj [])
          | JStr s \<Rightarrow> if trim s = [] then None else map_option recordValue (json_parse s)
          | _ \<Rightarrow> None)
      in case found of None \<Rightarrow> None
       | Some obj \<Rightarrow>
         if fld obj ''schemaVersion'' \<noteq> jnat 2 then None
         else let raw = (case fld obj ''status'' of JStr s \<Rightarrow> s | _ \<Rightarrow> [])
              in if raw = ''pass'' then Some \<lparr>pv_status = ''pass'', pv_raw = ''PASS''\<rparr>
                 else if raw \<in> set [''fail'', ''inconclusive'', ''infra_error'']
                 then Some \<lparr>pv_status = ''fail'', pv_raw = toUpperCase raw\<rparr>
                 else None)"

definition isMutatingJob :: "js \<Rightarrow> bool" where
  "isMutatingJob job =
     (if \<not> truthy job then False
      else if fld job ''planMode'' = JStr ''parent'' \<or> fld job ''planMode'' = JStr ''none'' then False
      else if fld job ''workflow'' = JStr ''docs'' \<or> fld job ''workflow'' = JStr ''readonly'' then False
      else True)"

record gate_details =
  gd_isMutating :: bool
  gd_dagPhases :: "js list"
  gd_completedPhases :: "js list"
  gd_adversarialRequired :: bool
  gd_checklist :: "checklist_outcome option"

record gate_result =
  gr_outcome :: string
  gr_reason :: string
  missingGates :: "string list"
  gr_details :: gate_details

definition gateResult :: "string \<Rightarrow> string \<Rightarrow> string list \<Rightarrow> gate_details \<Rightarrow> gate_result" where
  "gateResult outcome reason missing details =
     \<lparr>gr_outcome = outcome, gr_reason = reason, missingGates = missing, gr_details = details\<rparr>"

text \<open>The arguments of the gate. Those that the function does not read are left out.\<close>

record gate_input =
  gi_job :: js
  gi_workflowDag :: js
  gi_riskMap :: js
  gi_verdict :: "parsed_verdict option"
  gi_adversarial :: "parsed_verdict option"
  gi_checklist :: js
  gi_checklistVerdict :: js
  gi_evidenceLedger :: js
  gi_executionMap :: js
  gi_runtimeFailures :: js
  gi_attemptId :: js
  gi_multiAttempt :: bool

definition dag_phases :: "js \<Rightarrow> js list result" where
  "dag_phases workflowDag =
     thn (map_r (\<lambda>n. thn (deref n ''phase'') (\<lambda>p. Inr (or_else p (fld n ''id'')))) (arr (fld workflowDag ''nodes'')))
       (\<lambda>phases. Inr (uniq (filter truthy phases)))"

text \<open>The gates after the checklist's, first failure first.\<close>

definition verdict_gates :: "gate_input \<Rightarrow> gate_details \<Rightarrow> gate_result" where
  "verdict_gates g details =
     (let mutating = gd_isMutating details; completed = gd_completedPhases details;
          required = (fld (gi_riskMap g) ''adversarialRequired'' = JBool True)
      in if mutating \<and> JStr ''verify'' \<notin> set (gd_dagPhases details)
         then gateResult ''policy_invalid'' ''Mutating durable job has no verify node in its DAG'' [''verify''] details
         else if mutating \<and> JStr ''verify'' \<notin> set completed
         then gateResult ''verification_incomplete'' ''Verify phase has not completed'' [''verify''] details
         else if mutating \<and> gi_verdict g = None
         then gateResult ''artifact_invalid'' ''Verdict artifact is missing or unparseable'' [''verdict_artifact''] details
         else if mutating \<and> map_option pv_status (gi_verdict g) \<noteq> Some ''pass''
         then gateResult ''verification_failed''
           (''Verify verdict is '' @ [CHR 0x27] @ (case gi_verdict g of None \<Rightarrow> ''unknown'' | Some v \<Rightarrow> if pv_status v = [] then ''unknown'' else pv_status v)
              @ [CHR 0x27] @ '', expected '' @ [CHR 0x27] @ ''pass'' @ [CHR 0x27]) [] details
         else if required \<and> JStr ''adversarial_verify'' \<notin> set completed
         then gateResult ''adversarial_incomplete'' ''Adversarial verify was required but has not completed'' [''adversarial_verify''] details
         else if required \<and> gi_adversarial g = None
         then gateResult ''artifact_invalid'' ''Adversarial verdict artifact is missing or unparseable'' [''adversarial_verdict_artifact''] details
         else if required \<and> map_option pv_status (gi_adversarial g) \<noteq> Some ''pass''
         then gateResult ''adversarial_failed''
           (''Adversarial verdict is '' @ [CHR 0x27] @ (case gi_adversarial g of Some v \<Rightarrow> pv_status v | None \<Rightarrow> [])
              @ [CHR 0x27] @ '', expected '' @ [CHR 0x27] @ ''pass'' @ [CHR 0x27]) [] details
         else gateResult ''complete'' ''All required completion gates passed'' [] details)"

definition evaluateCompletionGate :: "(string \<Rightarrow> string) \<Rightarrow> gate_input \<Rightarrow> gate_result result" where
  "evaluateCompletionGate sha g =
     thn (iterate (or_else (fld (gi_job g) ''completedPhases'') (JArr []))) (\<lambda>completed.
     thn (dag_phases (gi_workflowDag g)) (\<lambda>phases.
     let details = \<lparr>gd_isMutating = isMutatingJob (gi_job g), gd_dagPhases = phases, gd_completedPhases = uniq completed,
            gd_adversarialRequired = truthy (fld (gi_riskMap g) ''adversarialRequired''), gd_checklist = None\<rparr>
     in if truthy (gi_checklist g)
        then thn (evaluateChecklistCompletion sha (gi_checklist g) (gi_checklistVerdict g) (gi_evidenceLedger g)
                (gi_executionMap g) (gi_runtimeFailures g) (gi_attemptId g) (gi_multiAttempt g)) (\<lambda>c.
             if co_outcome c \<noteq> ''complete''
             then Inr (gateResult (if co_outcome c = [] then ''checklist_invalid'' else co_outcome c)
                (if co_reason c = [] then ''checklist completion failed'' else co_reason c) [''checklist''] (details\<lparr>gd_checklist := Some c\<rparr>))
             else Inr (verdict_gates g details))
        else Inr (verdict_gates g details)))"

section \<open>The event of an evaluation\<close>

definition opt_js :: "string option \<Rightarrow> js" where
  "opt_js o' = (case o' of None \<Rightarrow> JNull | Some s \<Rightarrow> JStr s)"

definition runtime_ref_js :: "runtime_ref \<Rightarrow> js" where
  "runtime_ref_js r = JObj [(''type'', JStr (rr_type r)), (''attemptId'', opt_js (rr_attemptId r)), (''phase'', opt_js (rr_phase r)),
     (''nodeId'', opt_js (rr_nodeId r)), (''reason'', opt_js (rr_reason r))]"

text \<open>\<open>attemptId\<close> is the field of the result that the caller may add; \<open>ts\<close> is the clock.\<close>

definition completionGateEvent :: "string \<Rightarrow> js \<Rightarrow> js \<Rightarrow> gate_result \<Rightarrow> js \<Rightarrow> js \<Rightarrow> js" where
  "completionGateEvent ts jobId project g attemptId completionReport =
     (let found = gd_checklist (gr_details g);
          strs = (\<lambda>f. case found of None \<Rightarrow> [] | Some c \<Rightarrow> f c);
          refs = (\<lambda>f. case found of None \<Rightarrow> [] | Some c \<Rightarrow> f c);
          failures = (case found of None \<Rightarrow> [] | Some c \<Rightarrow> runtimeFailureRefs c);
          event = [(''type'', JStr ''completion_gate_evaluated''), (''jobId'', jobId), (''project'', project),
            (''attemptId'', or_else (or_else attemptId (case found of None \<Rightarrow> JUndef | Some c \<Rightarrow> opt_js (co_attemptId c))) JNull),
            (''outcome'', JStr (gr_outcome g)), (''reason'', JStr (gr_reason g)), (''missingGates'', jstrs (missingGates g)),
            (''checklistOutcome'', or_else (case found of None \<Rightarrow> JUndef | Some c \<Rightarrow> JStr (co_outcome c)) JNull),
            (''failedChecklistIds'', jstrs (strs failedChecklistIds)), (''uncheckedChecklistIds'', jstrs (strs uncheckedChecklistIds)),
            (''missingEvidenceRefs'', JArr (refs missingEvidenceRefs)), (''mismatchedEvidenceRefs'', JArr (refs mismatchedEvidenceRefs)),
            (''staleEvidenceRefs'', JArr (refs staleEvidenceRefs)), (''poisonedEvidenceRefs'', JArr (refs poisonedEvidenceRefs)),
            (''pollutedEvidenceRefs'', JArr (refs pollutedEvidenceRefs)), (''pollutedOracleFiles'', jstrs (strs pollutedOracleFiles)),
            (''pollutedOracleFileCount'', jnat (length (strs pollutedOracleFiles))),
            (''runtimeFailureRefs'', JArr (map runtime_ref_js failures)), (''runtimeFailureCount'', jnat (length failures)),
            (''unmappedChangedFiles'', jstrs (strs co_unmappedChangedFiles)),
            (''unmappedChangedFileCount'', jnat (length (strs co_unmappedChangedFiles))), (''ts'', JStr ts)]
      in if truthy completionReport then JObj (event @ [(''completionReport'', completionReport)]) else JObj event)"

section \<open>What the gate establishes\<close>

definition verdict_passed :: "parsed_verdict option \<Rightarrow> bool" where
  "verdict_passed v = (map_option pv_status v = Some ''pass'')"

lemma verdict_gates_complete:
  "gr_outcome (verdict_gates g d) = ''complete'' \<longleftrightarrow>
     (gd_isMutating d \<longrightarrow> JStr ''verify'' \<in> set (gd_dagPhases d) \<and> JStr ''verify'' \<in> set (gd_completedPhases d)
        \<and> verdict_passed (gi_verdict g))
     \<and> (fld (gi_riskMap g) ''adversarialRequired'' = JBool True \<longrightarrow>
          JStr ''adversarial_verify'' \<in> set (gd_completedPhases d) \<and> verdict_passed (gi_adversarial g))"
  by (auto simp: verdict_gates_def gateResult_def Let_def verdict_passed_def)

lemma gate_run:
  assumes "evaluateCompletionGate sha g = Inr r" "gr_outcome r = ''complete''"
  obtains completed phases d where
    "iterate (or_else (fld (gi_job g) ''completedPhases'') (JArr [])) = Inr completed"
    "dag_phases (gi_workflowDag g) = Inr phases"
    "gd_isMutating d = isMutatingJob (gi_job g)" "set (gd_completedPhases d) = set completed" "gd_dagPhases d = phases"
    "r = verdict_gates g d"
    "truthy (gi_checklist g) \<longrightarrow> (\<exists>c. evaluateChecklistCompletion sha (gi_checklist g) (gi_checklistVerdict g) (gi_evidenceLedger g)
        (gi_executionMap g) (gi_runtimeFailures g) (gi_attemptId g) (gi_multiAttempt g) = Inr c \<and> co_outcome c = ''complete'')"
proof -
  from assms(1) obtain completed phases where c: "iterate (or_else (fld (gi_job g) ''completedPhases'') (JArr [])) = Inr completed"
    and p: "dag_phases (gi_workflowDag g) = Inr phases"
    unfolding evaluateCompletionGate_def thn_eq_Inr by blast
  define d where "d = \<lparr>gd_isMutating = isMutatingJob (gi_job g), gd_dagPhases = phases, gd_completedPhases = uniq completed,
     gd_adversarialRequired = truthy (fld (gi_riskMap g) ''adversarialRequired''), gd_checklist = None\<rparr>"
  note run = assms(1) [unfolded evaluateCompletionGate_def c p thn_simps Let_def d_def [symmetric]]
  have fields: "gd_isMutating d = isMutatingJob (gi_job g)" "set (gd_completedPhases d) = set completed" "gd_dagPhases d = phases"
    by (simp_all add: d_def)
  show thesis
  proof (cases "truthy (gi_checklist g)")
    case True
    from run assms(2) True have "\<exists>c. evaluateChecklistCompletion sha (gi_checklist g) (gi_checklistVerdict g) (gi_evidenceLedger g)
        (gi_executionMap g) (gi_runtimeFailures g) (gi_attemptId g) (gi_multiAttempt g) = Inr c \<and> co_outcome c = ''complete''
        \<and> r = verdict_gates g d"
      by (auto simp: thn_eq_Inr gateResult_def split: if_splits)
    then show thesis using that [OF c p fields] by blast
  next
    case False
    with run have "r = verdict_gates g d" by simp
    with False show thesis using that [OF c p fields] by blast
  qed
qed

lemma slice0_prefix: "set (slice0 n xs) \<subseteq> set xs"
  by (simp add: slice0_def set_take_subset)

lemma slice0_length: "0 \<le> n \<Longrightarrow> length (slice0 n xs) \<le> nat \<lfloor>n\<rfloor>"
  by (simp add: slice0_def)

lemma distinct_uniqueNonEmpty: "distinct (uniqueNonEmpty vs)" "[] \<notin> set (uniqueNonEmpty vs)"
  by (auto simp: uniqueNonEmpty_def)

lemma distinct_slice0: "distinct xs \<Longrightarrow> distinct (slice0 n xs)"
  by (simp add: slice0_def)

end
