(* ===== verification/WorktreeOwnership.thy ===== *)
theory WorktreeOwnership
  imports JsRegex PosixPath
begin

text \<open>
  \<^verbatim>\<open>core/contracts/worktree-ownership.ts\<close>: the versioned record that binds a worktree directory
  to its owner, and the parser that refuses every other value.

  \<^verbatim>\<open>path.isAbsolute\<close> and \<^verbatim>\<open>path.resolve\<close> are those of a POSIX system; the code resolves
  only paths it has found absolute. The lemmas: what the parser returns satisfies the contract, and
  what satisfies the contract is returned unchanged.
\<close>

section \<open>The contract\<close>

record directory_identity =
  dir_dev :: string
  dir_ino :: string
  dir_birthtimeNs :: string
  dir_mode :: string
  dir_uid :: string
  dir_gid :: string

text \<open>An ownership is ready when it has a directory, and prepared otherwise; the version is 2 in both.\<close>

record worktree_ownership =
  wo_ownerToken :: string
  wo_baseBranch :: string
  wo_baseCommit :: string
  wo_directory :: "directory_identity option"

record managed_worktree =
  mw_path :: string
  mw_branch :: string
  mw_baseBranch :: string
  mw_baseCommit :: string
  mw_ownership :: worktree_ownership

definition UUID_re :: re where
  "UUID_re = cats [times_re 8 hex_lower, lit ''-'', times_re 4 hex_lower, lit ''-4'', times_re 3 hex_lower, lit ''-'',
     any_of ''89ab'', times_re 3 hex_lower, lit ''-'', times_re 12 hex_lower]"

fun upto_re :: "nat \<Rightarrow> re \<Rightarrow> re" where
  \<comment> \<open>\<^verbatim>\<open>r{0,n}\<close>\<close>
  "upto_re 0 r = Eps"
| "upto_re (Suc n) r = Alt (Cat r (upto_re n r)) Eps"

definition COMMIT_re :: re where
  "COMMIT_re = Cat (times_re 40 hex_lower) (upto_re 24 hex_lower)"

definition UNSIGNED_INTEGER_re :: re where
  "UNSIGNED_INTEGER_re = Alt (lit ''0'') (Cat (any_of ''123456789'') (Rep digit))"

definition whole :: "re \<Rightarrow> string \<Rightarrow> bool" where
  \<comment> \<open>\<^verbatim>\<open>/^r$/.test(s)\<close>\<close>
  "whole r s = re_test (cats [Bol, r, Eol]) s"

definition exactKeys :: "js \<Rightarrow> string list \<Rightarrow> string \<Rightarrow> unit result" where
  "exactKeys v expected label = (if sort (map fst (own v)) = sort expected then Inr ()
     else Inl (ErrorMsg (label @ '' has unexpected or missing fields'')))"

definition requiredString :: "js \<Rightarrow> string \<Rightarrow> string result" where
  "requiredString v field = (case v of
      JStr s \<Rightarrow> if s = [] \<or> CHR 0x00 \<in> set s then Inl (ErrorMsg (field @ '' must be a non-empty string without NUL bytes'')) else Inr s
    | _ \<Rightarrow> Inl (ErrorMsg (field @ '' must be a non-empty string without NUL bytes'')))"

definition directory_keys :: "string list" where
  "directory_keys = [''dev'', ''ino'', ''birthtimeNs'', ''mode'', ''uid'', ''gid'']"

definition directory_label :: string where
  "directory_label = ''worktree ownership directory''"

definition directory_field :: "js \<Rightarrow> string \<Rightarrow> string result" where
  "directory_field v k = requiredString (fld v k) (directory_label @ ''.'' @ k)"

fun unsigned_fields :: "(string \<times> string) list \<Rightarrow> unit result" where
  "unsigned_fields [] = Inr ()"
| "unsigned_fields ((field, entry) # rest) =
     (if whole UNSIGNED_INTEGER_re entry then unsigned_fields rest
      else Inl (ErrorMsg (directory_label @ ''.'' @ field @ '' must be an unsigned decimal integer'')))"

definition directory_entries :: "directory_identity \<Rightarrow> (string \<times> string) list" where
  "directory_entries d = [(''dev'', dir_dev d), (''ino'', dir_ino d), (''birthtimeNs'', dir_birthtimeNs d),
     (''mode'', dir_mode d), (''uid'', dir_uid d), (''gid'', dir_gid d)]"

definition directoryIdentity :: "js \<Rightarrow> directory_identity result" where
  "directoryIdentity v =
     (if \<not> isRecord v then Inl (ErrorMsg ''worktree ownership directory must be an object'')
      else thn (exactKeys v directory_keys directory_label) (\<lambda>_.
        thn (directory_field v ''dev'') (\<lambda>dev.
        thn (directory_field v ''ino'') (\<lambda>ino.
        thn (directory_field v ''birthtimeNs'') (\<lambda>birth.
        thn (directory_field v ''mode'') (\<lambda>mode.
        thn (directory_field v ''uid'') (\<lambda>uid.
        thn (directory_field v ''gid'') (\<lambda>gid.
        let parsed = \<lparr>dir_dev = dev, dir_ino = ino, dir_birthtimeNs = birth, dir_mode = mode, dir_uid = uid, dir_gid = gid\<rparr>
        in thn (unsigned_fields (directory_entries parsed)) (\<lambda>_.
           if dir_ino parsed = ''0'' then Inl (ErrorMsg ''worktree ownership directory.ino must be non-zero'')
           else Inr parsed)))))))))"

definition prepared_keys :: "string list" where
  "prepared_keys = [''version'', ''state'', ''ownerToken'', ''baseBranch'', ''baseCommit'']"

definition parseWorktreeOwnership :: "bool \<Rightarrow> js \<Rightarrow> worktree_ownership result" where
  "parseWorktreeOwnership allowPrepared v =
     (if \<not> isRecord v then Inl (ErrorMsg ''worktree ownership must be an object'')
      else if fld v ''version'' \<noteq> jnat 2 then Inl (ErrorMsg ''worktree ownership version must be 2'')
      else if fld v ''state'' \<noteq> JStr ''prepared'' \<and> fld v ''state'' \<noteq> JStr ''ready''
      then Inl (ErrorMsg ''worktree ownership state must be prepared or ready'')
      else if fld v ''state'' = JStr ''prepared'' \<and> \<not> allowPrepared then Inl (ErrorMsg ''worktree ownership is not ready'')
      else thn (requiredString (fld v ''ownerToken'') ''worktree ownership ownerToken'') (\<lambda>ownerToken.
        if \<not> whole UUID_re ownerToken then Inl (ErrorMsg ''worktree ownership ownerToken must be a canonical random UUID'')
        else thn (requiredString (fld v ''baseBranch'') ''worktree ownership baseBranch'') (\<lambda>baseBranch.
        thn (requiredString (fld v ''baseCommit'') ''worktree ownership baseCommit'') (\<lambda>baseCommit.
        if \<not> whole COMMIT_re baseCommit then Inl (ErrorMsg ''worktree ownership baseCommit must be a commit object id'')
        else if fld v ''state'' = JStr ''prepared''
        then thn (exactKeys v prepared_keys ''prepared worktree ownership'') (\<lambda>_.
          Inr \<lparr>wo_ownerToken = ownerToken, wo_baseBranch = baseBranch, wo_baseCommit = baseCommit, wo_directory = None\<rparr>)
        else thn (exactKeys v (prepared_keys @ [''directory'']) ''ready worktree ownership'') (\<lambda>_.
          thn (directoryIdentity (fld v ''directory'')) (\<lambda>d.
          Inr \<lparr>wo_ownerToken = ownerToken, wo_baseBranch = baseBranch, wo_baseCommit = baseCommit, wo_directory = Some d\<rparr>))))))"

definition managed_keys :: "string list" where
  "managed_keys = [''path'', ''branch'', ''baseBranch'', ''baseCommit'', ''ownership'']"

definition parseManagedWorktreeContext :: "js \<Rightarrow> managed_worktree result" where
  "parseManagedWorktreeContext v =
     (if \<not> isRecord v then Inl (ErrorMsg ''managed worktree context must be an object'')
      else thn (exactKeys v managed_keys ''managed worktree context'') (\<lambda>_.
        thn (parseWorktreeOwnership False (fld v ''ownership'')) (\<lambda>ownership.
        thn (requiredString (fld v ''path'') ''managed worktree path'') (\<lambda>p.
        thn (requiredString (fld v ''branch'') ''managed worktree branch'') (\<lambda>branch.
        thn (requiredString (fld v ''baseBranch'') ''managed worktree baseBranch'') (\<lambda>baseBranch.
        thn (requiredString (fld v ''baseCommit'') ''managed worktree baseCommit'') (\<lambda>baseCommit.
        if \<not> path_isAbsolute p \<or> path_resolve p \<noteq> p
        then Inl (ErrorMsg ''managed worktree path must be an absolute normalized path'')
        else if baseBranch \<noteq> wo_baseBranch ownership \<or> baseCommit \<noteq> wo_baseCommit ownership
        then Inl (ErrorMsg ''managed worktree base branch/commit do not match ownership binding'')
        else Inr \<lparr>mw_path = p, mw_branch = branch, mw_baseBranch = baseBranch, mw_baseCommit = baseCommit,
                  mw_ownership = ownership\<rparr>)))))))"

definition sameWorktreeDirectoryIdentity :: "directory_identity \<Rightarrow> directory_identity \<Rightarrow> bool" where
  "sameWorktreeDirectoryIdentity left right =
     (dir_dev left = dir_dev right \<and> dir_ino left = dir_ino right \<and> dir_birthtimeNs left = dir_birthtimeNs right
      \<and> dir_mode left = dir_mode right \<and> dir_uid left = dir_uid right \<and> dir_gid left = dir_gid right)"

definition sameReadyWorktreeOwnership :: "worktree_ownership \<Rightarrow> worktree_ownership \<Rightarrow> bool" where
  \<comment> \<open>of ready ownerships\<close>
  "sameReadyWorktreeOwnership left right =
     (wo_ownerToken left = wo_ownerToken right \<and> wo_baseBranch left = wo_baseBranch right
      \<and> wo_baseCommit left = wo_baseCommit right
      \<and> (case (wo_directory left, wo_directory right) of
           (Some a, Some b) \<Rightarrow> sameWorktreeDirectoryIdentity a b | _ \<Rightarrow> False))"

section \<open>The value of an ownership\<close>

definition directory_js :: "directory_identity \<Rightarrow> js" where
  "directory_js d = JObj (map (\<lambda>(k, v). (k, JStr v)) (directory_entries d))"

definition ownership_js :: "worktree_ownership \<Rightarrow> js" where
  "ownership_js w = JObj ([(''version'', jnat 2), (''state'', JStr (if wo_directory w = None then ''prepared'' else ''ready'')),
      (''ownerToken'', JStr (wo_ownerToken w)), (''baseBranch'', JStr (wo_baseBranch w)), (''baseCommit'', JStr (wo_baseCommit w))]
     @ (case wo_directory w of None \<Rightarrow> [] | Some d \<Rightarrow> [(''directory'', directory_js d)]))"

definition sound_string :: "string \<Rightarrow> bool" where
  "sound_string s = (s \<noteq> [] \<and> CHR 0x00 \<notin> set s)"

definition directory_ok :: "directory_identity \<Rightarrow> bool" where
  "directory_ok d = (list_all (\<lambda>(k, s). sound_string s \<and> whole UNSIGNED_INTEGER_re s) (directory_entries d) \<and> dir_ino d \<noteq> ''0'')"

definition ownership_ok :: "worktree_ownership \<Rightarrow> bool" where
  "ownership_ok w = (sound_string (wo_ownerToken w) \<and> whole UUID_re (wo_ownerToken w) \<and> sound_string (wo_baseBranch w)
     \<and> sound_string (wo_baseCommit w) \<and> whole COMMIT_re (wo_baseCommit w)
     \<and> (case wo_directory w of None \<Rightarrow> True | Some d \<Rightarrow> directory_ok d))"

lemma requiredString_Inr: "requiredString v f = Inr s \<longleftrightarrow> v = JStr s \<and> sound_string s"
  by (cases v) (auto simp: requiredString_def sound_string_def)

lemma exactKeys_Inr: "exactKeys v ks l = Inr u \<longleftrightarrow> sort (map fst (own v)) = sort ks"
  by (simp add: exactKeys_def)

lemma unsigned_fields_Inr: "unsigned_fields kvs = Inr u \<longleftrightarrow> list_all (\<lambda>(k, s). whole UNSIGNED_INTEGER_re s) kvs"
  by (induction kvs rule: unsigned_fields.induct) simp_all

lemma directory_sound: "directoryIdentity v = Inr d \<Longrightarrow> directory_ok d"
  unfolding directoryIdentity_def directory_field_def
  by (auto simp: thn_eq_Inr requiredString_Inr unsigned_fields_Inr directory_ok_def directory_entries_def Let_def
      simp del: unsigned_fields.simps split: if_splits)

lemma directory_roundtrip: "directory_ok d \<Longrightarrow> directoryIdentity (directory_js d) = Inr d"
  by (simp add: directoryIdentity_def directory_js_def directory_field_def directory_entries_def exactKeys_def directory_keys_def
      requiredString_def sound_string_def directory_ok_def)

lemma ownership_sound:
  assumes "parseWorktreeOwnership allow v = Inr w"
  shows "ownership_ok w" "wo_directory w = None \<Longrightarrow> allow"
  using assms unfolding parseWorktreeOwnership_def
  by (auto simp: thn_eq_Inr requiredString_Inr ownership_ok_def directory_sound split: if_splits)

lemma ownership_roundtrip:
  assumes "ownership_ok w" "wo_directory w = None \<longrightarrow> allow"
  shows "parseWorktreeOwnership allow (ownership_js w) = Inr w"
proof (cases "wo_directory w")
  case None
  with assms show ?thesis
    by (simp add: parseWorktreeOwnership_def ownership_js_def ownership_ok_def requiredString_def sound_string_def
        exactKeys_def prepared_keys_def)
next
  case (Some d)
  with assms(1) have d: "directoryIdentity (directory_js d) = Inr d" by (intro directory_roundtrip) (simp add: ownership_ok_def)
  from Some assms show ?thesis
    by (simp add: parseWorktreeOwnership_def ownership_js_def ownership_ok_def requiredString_def sound_string_def
        exactKeys_def prepared_keys_def d)
qed

section \<open>Managed paths\<close>

lemma managed_path:
  assumes "parseManagedWorktreeContext v = Inr m"
  shows "path_isAbsolute (mw_path m)" "\<forall>s\<in>set (tl (split_char (CHR ''/'') (mw_path m))). s \<noteq> ''.'' \<and> s \<noteq> ''..''"
    "ownership_ok (mw_ownership m)" "wo_directory (mw_ownership m) \<noteq> None"
    "mw_baseBranch m = wo_baseBranch (mw_ownership m)" "mw_baseCommit m = wo_baseCommit (mw_ownership m)"
proof -
  from assms obtain w where w: "parseWorktreeOwnership False (fld v ''ownership'') = Inr w" "mw_ownership m = w"
    and m: "path_isAbsolute (mw_path m)" "path_resolve (mw_path m) = mw_path m"
      "mw_baseBranch m = wo_baseBranch w" "mw_baseCommit m = wo_baseCommit w"
    unfolding parseManagedWorktreeContext_def by (auto simp: thn_eq_Inr split: if_splits)
  show "path_isAbsolute (mw_path m)" by (rule m(1))
  show "\<forall>s\<in>set (tl (split_char (CHR ''/'') (mw_path m))). s \<noteq> ''.'' \<and> s \<noteq> ''..''" by (rule resolved_segments [OF m(2)])
  show "ownership_ok (mw_ownership m)" using ownership_sound(1) [OF w(1)] w(2) by simp
  show "wo_directory (mw_ownership m) \<noteq> None" using ownership_sound(2) [OF w(1)] w(2) by auto
  show "mw_baseBranch m = wo_baseBranch (mw_ownership m)" "mw_baseCommit m = wo_baseCommit (mw_ownership m)" using m w by simp_all
qed

end
