(* ===== verification/ChecklistProperties.thy ===== *)
theory ChecklistProperties
  imports CompletionGate WorktreeOwnership
begin

text \<open>
  Properties of the acceptance checklist, of the evidence that backs it and of the completion gate:
  a job that the gate calls complete has, for each required item of its frozen checklist, a pass
  with fresh and clean evidence of the attempt.
\<close>

section \<open>Examples\<close>

definition example_sha :: "string \<Rightarrow> string" where
  "example_sha s = replicate 64 (CHR ''a'')"

definition example_item :: js where
  "example_item = JObj [(''id'', JStr ''AC-001''), (''requirement'', JStr ''works''), (''source'', JStr ''task_text''),
     (''sourceRefs'', JArr [JObj [(''kind'', JStr ''task_text''), (''locator'', JStr ''task:0''), (''sha256'', JNull)]]),
     (''predicateId'', JStr ''PRED-001''), (''required'', JBool True), (''area'', JStr ''core''), (''risk'', JStr ''medium''),
     (''verificationMethod'', JStr ''static''), (''expectedEvidence'', JStr ''a match''), (''dependsOn'', JArr []),
     (''allowedFiles'', JArr [])]"

definition example_checklist :: js where
  "example_checklist = JObj [(''schemaVersion'', jnat 1), (''jobId'', JStr ''job''), (''project'', JStr ''p''),
     (''source'', JObj []), (''status'', JStr ''frozen''), (''items'', JArr [example_item]), (''assumptions'', JArr [])]"

definition example_verdict_item :: "string \<Rightarrow> js \<Rightarrow> js" where
  "example_verdict_item res refs = JObj [(''checklistId'', JStr ''AC-001''), (''result'', JStr res),
     (''evidenceRefs'', refs), (''reason'', JStr ''checked''), (''fixScope'', JArr [])]"

definition example_verdict :: "string \<Rightarrow> string \<Rightarrow> js \<Rightarrow> js" where
  "example_verdict status res refs = JObj [(''schemaVersion'', jnat 1), (''jobId'', JStr ''job''), (''status'', JStr status),
     (''reason'', JStr ''checked''), (''items'', JArr [example_verdict_item res refs]), (''blocking'', JArr []), (''fixScope'', JArr [])]"

definition example_refs :: js where
  "example_refs = JArr [JObj [(''ledgerId'', JStr ''L''), (''evidenceId'', JStr ''E1'')]]"

definition example_ledger :: js where
  "example_ledger = JObj [(''ledgerId'', JStr ''L''), (''attemptId'', JStr ''A1''),
     (''finalWorktree'', JObj [(''head'', JStr ''h''), (''diffHash'', JStr ''d'')]),
     (''evidence'', JArr [JObj [(''id'', JStr ''E1''), (''type'', JStr ''evidence_claim''), (''checklistId'', JStr ''AC-001''),
        (''predicateId'', JStr ''PRED-001''), (''verificationMethod'', JStr ''static''), (''result'', JStr ''pass''),
        (''attemptId'', JStr ''A1''), (''queryId'', JStr ''q''), (''matchCount'', jnat 1),
        (''worktreeHead'', JStr ''h''), (''diffHash'', JStr ''d'')]])]"

definition example_part :: "string \<Rightarrow> js" where
  "example_part predicate = JObj [(''requirement'', JStr ''works''), (''predicateId'', JStr predicate),
     (''verificationMethod'', JStr ''command''), (''allowedFiles'', jstrs [''src/a.ts''])]"

definition example_gate :: gate_input where
  "example_gate = \<lparr>gi_job = JObj [(''workflow'', JStr ''standard''), (''completedPhases'', jstrs [''execute'', ''verify''])],
     gi_workflowDag = JObj [(''nodes'', JArr [JObj [(''id'', JStr ''verify'')]])], gi_riskMap = JObj [],
     gi_verdict = Some \<lparr>pv_status = ''pass'', pv_raw = []\<rparr>, gi_adversarial = None,
     gi_checklist = example_checklist, gi_checklistVerdict = example_verdict ''pass'' ''pass'' example_refs,
     gi_evidenceLedger = example_ledger, gi_executionMap = JObj [], gi_runtimeFailures = JArr [], gi_attemptId = JStr ''A1'',
     gi_multiAttempt = False\<rparr>"

abbreviation evaluate_example :: "js \<Rightarrow> js \<Rightarrow> checklist_outcome result" where
  "evaluate_example verdict ledger \<equiv>
     evaluateChecklistCompletion example_sha example_checklist verdict ledger (JObj []) (JArr []) (JStr ''A1'') False"

lemma example_complete:
  "case evaluate_example (example_verdict ''pass'' ''pass'' example_refs) example_ledger of
     Inl _ \<Rightarrow> False | Inr out \<Rightarrow> co_outcome out = ''complete''"
  by code_simp

lemma example_padded:
  "case evaluate_example (example_verdict ''fail'' '' fail '' (JArr [])) (JObj []) of
     Inl _ \<Rightarrow> False | Inr out \<Rightarrow> co_outcome out = ''complete''"
  by code_simp

section \<open>Properties\<close>

text \<open>C1: a job that the checklist calls complete is backed by evidence: each required item passed,
  citing evidence, and every cited claim is in the ledger, matches the item (method, predicate,
  attempt, a satisfied observation), has the head and the diff of the final worktree, comes from no
  poisoned session and from no oracle file that the execution changed. This is for verdicts whose
  results carry no white space around them.\<close>

theorem complete_is_backed:
  assumes "evaluateChecklistCompletion sha checklist verdict ledger executionMap runtimeFailures attemptId multiAttempt = Inr out"
    "co_outcome out = ''complete''"
    "\<forall>v\<in>set (arr (fld verdict ''items'')). fld v ''result'' = JStr (trimmed (fld v ''result''))"
    "item \<in> set (required_items (arr (fld checklist ''items'')))"
  shows "\<exists>changed. executionChangedFiles executionMap = Inr changed
    \<and> (\<exists>v\<in>set (arr (fld verdict ''items'')). verdict_id v = item_id item \<and> fld v ''result'' = JStr ''pass''
        \<and> arr (fld v ''evidenceRefs'') \<noteq> []
        \<and> (\<forall>ref\<in>set (arr (fld v ''evidenceRefs'')). backs (eval_context checklist ledger attemptId changed) item ref))"
  using complete_backed [OF assms] .

theorem complete_is_backed_witness:
  "\<exists>changed. executionChangedFiles (JObj []) = Inr changed
     \<and> backs (eval_context example_checklist example_ledger (JStr ''A1'') changed) example_item (hd (arr example_refs))"
proof -
  obtain out where out: "evaluate_example (example_verdict ''pass'' ''pass'' example_refs) example_ledger = Inr out"
    "co_outcome out = ''complete''" using example_complete by (auto split: sum.splits)
  have items: "arr (fld (example_verdict ''pass'' ''pass'' example_refs) ''items'') = [example_verdict_item ''pass'' example_refs]"
    "required_items (arr (fld example_checklist ''items'')) = [example_item]"
    "arr (fld (example_verdict_item ''pass'' example_refs) ''evidenceRefs'') = [hd (arr example_refs)]" by code_simp+
  have exact: "\<forall>v\<in>set (arr (fld (example_verdict ''pass'' ''pass'' example_refs) ''items'')).
      fld v ''result'' = JStr (trimmed (fld v ''result''))"
    unfolding items(1) by code_simp
  have "example_item \<in> set (required_items (arr (fld example_checklist ''items'')))" by (simp add: items(2))
  from complete_is_backed [OF out exact this] show ?thesis unfolding items(1) by (auto simp: items(3))
qed

text \<open>a result with white space around it slips through: it is trimmed where it is checked to be
  pass, fail or unchecked, and not where it is counted, so a verdict that fails its only required
  item without any evidence is evaluated as complete.\<close>

theorem padded_failure_completes:
  "\<exists>out. evaluate_example (example_verdict ''fail'' '' fail '' (JArr [])) (JObj []) = Inr out
     \<and> co_outcome out = ''complete'' \<and> required_items (arr (fld example_checklist ''items'')) = [example_item]"
proof -
  have "required_items (arr (fld example_checklist ''items'')) = [example_item]" by code_simp
  then show ?thesis using example_padded by (auto split: sum.splits)
qed

text \<open>C2: a job that the completion gate calls complete passed every gate that applies to it: a
  mutating job has a verify node, completed it and has a passing verdict; a required adversarial
  verification is completed with a passing verdict; and a checklist, where there is one, is
  complete.\<close>

theorem gate_complete:
  assumes "evaluateCompletionGate sha g = Inr r" "gr_outcome r = ''complete''"
  shows "\<exists>completed phases. iterate (or_else (fld (gi_job g) ''completedPhases'') (JArr [])) = Inr completed
      \<and> dag_phases (gi_workflowDag g) = Inr phases
      \<and> (isMutatingJob (gi_job g) \<longrightarrow>
          JStr ''verify'' \<in> set phases \<and> JStr ''verify'' \<in> set completed \<and> verdict_passed (gi_verdict g))
      \<and> (fld (gi_riskMap g) ''adversarialRequired'' = JBool True \<longrightarrow>
          JStr ''adversarial_verify'' \<in> set completed \<and> verdict_passed (gi_adversarial g))
      \<and> (truthy (gi_checklist g) \<longrightarrow> (\<exists>c. evaluateChecklistCompletion sha (gi_checklist g) (gi_checklistVerdict g)
           (gi_evidenceLedger g) (gi_executionMap g) (gi_runtimeFailures g) (gi_attemptId g) (gi_multiAttempt g) = Inr c
           \<and> co_outcome c = ''complete''))"
  using assms
proof (rule gate_run)
  fix completed phases d
  assume run: "iterate (or_else (fld (gi_job g) ''completedPhases'') (JArr [])) = Inr completed"
    "dag_phases (gi_workflowDag g) = Inr phases"
    and d: "gd_isMutating d = isMutatingJob (gi_job g)" "set (gd_completedPhases d) = set completed" "gd_dagPhases d = phases"
    and r: "r = verdict_gates g d"
    and "truthy (gi_checklist g) \<longrightarrow> (\<exists>c. evaluateChecklistCompletion sha (gi_checklist g) (gi_checklistVerdict g) (gi_evidenceLedger g)
        (gi_executionMap g) (gi_runtimeFailures g) (gi_attemptId g) (gi_multiAttempt g) = Inr c \<and> co_outcome c = ''complete'')"
  moreover note assms(2) [unfolded r verdict_gates_complete d]
  ultimately show ?thesis by blast
qed

theorem gate_complete_witness:
  "\<exists>r c. evaluateCompletionGate example_sha example_gate = Inr r \<and> gr_outcome r = ''complete''
     \<and> verdict_passed (gi_verdict example_gate)
     \<and> evaluate_example (example_verdict ''pass'' ''pass'' example_refs) example_ledger = Inr c \<and> co_outcome c = ''complete''"
proof -
  have "case evaluateCompletionGate example_sha example_gate of Inl _ \<Rightarrow> False | Inr r \<Rightarrow> gr_outcome r = ''complete''" by code_simp
  then obtain r where r: "evaluateCompletionGate example_sha example_gate = Inr r" "gr_outcome r = ''complete''"
    by (auto split: sum.splits)
  have "isMutatingJob (gi_job example_gate)" "truthy (gi_checklist example_gate)" by code_simp+
  with gate_complete [OF r] r show ?thesis by (auto simp: example_gate_def)
qed

text \<open>C36: A valid verdict speaks once of each required item of a valid checklist and of no item that is not in it; its
  status is pass or fail and its results are pass, fail or unchecked, up to blanks around them. For a status and results
  that are written without such blanks, a pass cites evidence and the status agrees with the items: it is pass when
  every required item passes and fail when one does not. The validator trims where it checks the values and compares
  them untrimmed where it checks their agreement: with blanks it accepts verdicts that do not agree
  (\<open>padded_verdicts_accepted\<close>).\<close>

theorem verdict_faithful:
  assumes "validateChecklistVerdict sha verdict checklist = Inr ()"
  shows "(\<exists>ids. validateAcceptanceChecklist sha checklist = Inr ids) \<and> verdict_covers verdict checklist
    \<and> trimmed (fld verdict ''status'') \<in> set TOP_STATUSES
    \<and> (fld verdict ''status'' = JStr ''pass'' \<longrightarrow> required_pass verdict checklist)
    \<and> (fld verdict ''status'' = JStr ''fail'' \<longrightarrow> \<not> required_pass verdict checklist)"
  using valid_verdict [OF assms] valid_verdict_status [OF assms] by blast

theorem verdict_faithful_witness:
  "validateChecklistVerdict example_sha (example_verdict ''pass'' ''pass'' example_refs) example_checklist = Inr ()
     \<and> required_pass (example_verdict ''pass'' ''pass'' example_refs) example_checklist"
proof -
  have v: "validateChecklistVerdict example_sha (example_verdict ''pass'' ''pass'' example_refs) example_checklist = Inr ()" by code_simp
  have "fld (example_verdict ''pass'' ''pass'' example_refs) ''status'' = JStr ''pass''" by code_simp
  with verdict_faithful [OF v] v show ?thesis by blast
qed

text \<open>The blanks: a verdict of status pass whose required item fails, and one whose item passes without evidence.\<close>

lemma padded_verdicts_accepted:
  "validateChecklistVerdict example_sha (example_verdict '' pass '' ''fail'' example_refs) example_checklist = Inr ()"
  "\<not> required_pass (example_verdict '' pass '' ''fail'' example_refs) example_checklist"
  "validateChecklistVerdict example_sha (example_verdict ''fail'' '' pass '' (JArr [])) example_checklist = Inr ()"
  by code_simp+

text \<open>C37: a checklist built from valid decomposed items is valid, its frozen contracts included, and
  its items are numbered in order.\<close>

theorem built_checklist_valid:
  assumes "validateDecomposedItems items = None" "list_all (\<lambda>d. \<not> nullish d) documents" "sha_ok sha"
    "trimmed jobId \<noteq> []" "trimmed project \<noteq> []"
  shows "\<exists>c. buildAcceptanceChecklist sha jobId project task documents riskMap classification items = Inr c
     \<and> validateAcceptanceChecklist sha c = Inr (map ac_id [0..<length (arr items)])"
  using built_items_valid [OF assms] .

theorem built_checklist_valid_witness:
  "\<exists>c. buildAcceptanceChecklist example_sha (JStr ''job'') (JStr ''p'') (JStr ''task'') [] JNull JUndef
       (JArr [example_part ''P1'', example_part ''P2'']) = Inr c
     \<and> validateAcceptanceChecklist example_sha c = Inr [''AC-001'', ''AC-002'']"
proof -
  have d: "validateDecomposedItems (JArr [example_part ''P1'', example_part ''P2'']) = None" by code_simp
  have s: "sha_ok example_sha" by (simp add: sha_ok_def example_sha_def)
  have t: "trimmed (JStr ''job'') \<noteq> []" "trimmed (JStr ''p'') \<noteq> []" by code_simp+
  have i: "map ac_id [0..<length (arr (JArr [example_part ''P1'', example_part ''P2'']))] = [''AC-001'', ''AC-002'']" by code_simp
  from built_checklist_valid [OF d _ s t, of "[]" "JStr ''task''" JNull JUndef] show ?thesis unfolding i by simp
qed

text \<open>the walk along \<^verbatim>\<open>dependsOn\<close> finds exactly the nodes that are reachable, on cyclic graphs
  and with repeated ids too.\<close>

theorem dependsOnNode_exact:
  "dependsOnNode nodes n targetIds \<longleftrightarrow> (\<exists>d\<in>set (dep_texts n). \<exists>t\<in>set targetIds. leads nodes d t)"
  by (rule dependsOnNode_iff)

text \<open>an observation that proves an item is a valid one, belongs to the attempt, and has content
  of its own: an echo of the item's fields never proves it.\<close>

theorem observation_sound:
  assumes "ev_satisfied (validateEvidenceObservation entry item attemptId)"
  shows "ev_valid (validateEvidenceObservation entry item attemptId) \<and> (\<exists>k\<in>set proof_keys. fld entry k \<noteq> JUndef)
    \<and> (trimmed attemptId = [] \<or> trimmed (fld entry ''attemptId'') = trimmed attemptId)"
  using satisfied_valid [OF assms] valid_attempt [OF satisfied_valid [OF assms]] satisfied_proof [OF assms] by blast

theorem observation_sound_witness:
  "\<exists>entry. ev_satisfied (validateEvidenceObservation entry example_item (JStr ''A1'')) \<and> trimmed (fld entry ''attemptId'') = ''A1''
     \<and> (\<exists>k\<in>set proof_keys. fld entry k \<noteq> JUndef)"
proof -
  let ?e = "hd (arr (fld example_ledger ''evidence''))"
  have s: "ev_satisfied (validateEvidenceObservation ?e example_item (JStr ''A1''))" by code_simp
  have a: "trimmed (JStr ''A1'') = ''A1''" by code_simp
  from observation_sound [OF s] s show ?thesis unfolding a by blast
qed

text \<open>the probe plan covers the checklist: every item with an id and a predicate has a probe, and
  the first explicit check for an id is what its probe observes.\<close>

theorem probe_plan_covers:
  assumes "item \<in> set (arr (fld (recordValue checklist) ''items''))" "identified item"
    "arr checks = before @ check # after" "explicit check" "\<forall>x \<in> set before. explicit x \<longrightarrow> check_id x \<noteq> check_id check"
  shows "item_ids item \<in> probe_ids ` set (plan_probes (buildEvidenceProbePlan checklist checks attemptId))
    \<and> (\<exists>p\<in>set (plan_probes (buildEvidenceProbePlan checklist checks attemptId)).
         p_checklistId p = JStr (check_id check) \<and> p_observation p = explicit_observation attemptId (recordValue check))"
proof -
  let ?s = "fold item_probe (arr (fld (recordValue checklist) ''items'')) plan_start"
  have inv: "plan_inv ?s" by (intro items_inv plan_inv_start)
  have seen: "ps_seen ?s = []" by (simp add: items_seen plan_start_def)
  have plan: "plan_probes (buildEvidenceProbePlan checklist checks attemptId)
      = ps_probes (fold (check_probe attemptId) (before @ check # after) ?s)"
    by (simp add: buildEvidenceProbePlan_def assms(3))
  from items_covered [OF assms(1,2)] checks_ids [OF inv]
  have "item_ids item \<in> probe_ids ` set (ps_probes (fold (check_probe attemptId) (before @ check # after) ?s))" by blast
  moreover from assms(5) have "\<And>x. x \<in> set before \<Longrightarrow> explicit x \<Longrightarrow> check_id x \<noteq> check_id check" by blast
  note first_check_probed [OF inv seen assms(4) this]
  ultimately show ?thesis unfolding plan by blast
qed

theorem probe_plan_covers_witness:
  "let check = JObj [(''checklistId'', JStr ''AC-009''), (''predicateId'', JStr ''P''), (''probeId'', JStr ''x'')];
       probes = plan_probes (buildEvidenceProbePlan example_checklist (JArr [check]) (JStr ''A1''))
   in item_ids example_item \<in> probe_ids ` set probes \<and> (\<exists>p\<in>set probes. p_checklistId p = JStr ''AC-009'')"
proof -
  let ?c = "JObj [(''checklistId'', JStr ''AC-009''), (''predicateId'', JStr ''P''), (''probeId'', JStr ''x'')]"
  have "arr (fld (recordValue example_checklist) ''items'') = [example_item]" by code_simp
  then have i: "example_item \<in> set (arr (fld (recordValue example_checklist) ''items''))" by simp
  have e: "identified example_item" "arr (JArr [?c]) = [] @ ?c # []" "explicit ?c" by code_simp+
  have "check_id ?c = ''AC-009''" by code_simp
  with probe_plan_covers [OF i e, of "JStr ''A1''"] show ?thesis by (auto simp: Let_def)
qed

text \<open>what a retry asks for is bounded: it lists distinct, non-blank checks and scopes, at most
  \<^verbatim>\<open>maxItems\<close> of each, and only a failing verdict asks for a retry.\<close>

theorem retry_input_bounded:
  assumes "0 \<le> numberOption (ro_maxItems (read_retry_options options)) 5"
  shows "let r = buildRetryInputFromVerdict envelope options;
             n = nat \<lfloor>numberOption (ro_maxItems (read_retry_options options)) 5\<rfloor>
         in length (failingChecks r) \<le> n \<and> length (retryScope r) \<le> n
            \<and> distinct (failingChecks r) \<and> [] \<notin> set (failingChecks r)
            \<and> (shouldRetry r \<longleftrightarrow> ri_status r = ''fail'') \<and> (failingChecks r \<noteq> [] \<longrightarrow> shouldRetry r)"
proof -
  let ?m = "numberOption (ro_maxItems (read_retry_options options)) 5"
  let ?cs = "if structured_checks envelope \<noteq> [] then structured_checks envelope else uniqueNonEmpty [fld envelope ''reason'']"
  have "distinct ?cs" "[] \<notin> set ?cs" by (simp_all add: structured_checks_def distinct_uniqueNonEmpty)
  then have "distinct (slice0 ?m ?cs)" "[] \<notin> set (slice0 ?m ?cs)" using slice0_prefix [of ?m ?cs] distinct_slice0 by blast+
  with slice0_length [OF assms] show ?thesis
    by (auto simp: buildRetryInputFromVerdict_def Let_def simp del: if_image_distrib split: if_split_asm)
qed

theorem retry_input_bounded_witness:
  "let r = buildRetryInputFromVerdict (JObj [(''status'', JStr ''fail''), (''reason'', JStr ''r''),
             (''blocking'', JArr [JObj [(''criterion'', JStr ''a'')], JObj [(''criterion'', JStr ''b'')]])]) (JObj [(''maxItems'', jnat 1)])
   in shouldRetry r \<and> length (failingChecks r) \<le> 1"
proof -
  let ?e = "JObj [(''status'', JStr ''fail''), (''reason'', JStr ''r''),
             (''blocking'', JArr [JObj [(''criterion'', JStr ''a'')], JObj [(''criterion'', JStr ''b'')]])]"
  let ?o = "JObj [(''maxItems'', jnat 1)]"
  have n: "numberOption (ro_maxItems (read_retry_options ?o)) 5 = 1" by code_simp
  have s: "ri_status (buildRetryInputFromVerdict ?e ?o) = ''fail''"
    by (simp add: buildRetryInputFromVerdict_def Let_def classifyVerdict_def) code_simp
  have "0 \<le> numberOption (ro_maxItems (read_retry_options ?o)) 5" by code_simp
  from retry_input_bounded [OF this, of ?e] s show ?thesis unfolding n Let_def by simp
qed

text \<open>C40: an ownership record that is accepted satisfies the contract, and writing it down and
  reading it again gives the same record.\<close>

theorem ownership_canonical:
  assumes "parseWorktreeOwnership allowPrepared v = Inr w"
  shows "ownership_ok w \<and> (wo_directory w = None \<longrightarrow> allowPrepared)
    \<and> parseWorktreeOwnership allowPrepared (ownership_js w) = Inr w"
  using ownership_sound [OF assms] by (simp add: ownership_roundtrip)

theorem ownership_canonical_witness:
  "\<exists>w. ownership_ok w \<and> wo_directory w \<noteq> None \<and> parseWorktreeOwnership False (ownership_js w) = Inr w"
proof -
  have re: "whole UUID_re ''01234567-89ab-4cde-8f01-23456789abcd''" "whole COMMIT_re ''0123456789abcdef0123456789abcdef01234567''"
    and s: "sound_string ''01234567-89ab-4cde-8f01-23456789abcd''" "sound_string ''main''"
      "sound_string ''0123456789abcdef0123456789abcdef01234567''" by code_simp+
  have d: "directory_ok \<lparr>dir_dev = ''1'', dir_ino = ''2'', dir_birthtimeNs = ''3'', dir_mode = ''4'', dir_uid = ''0'', dir_gid = ''0''\<rparr>"
    by code_simp
  obtain t b c e where "whole UUID_re t" "whole COMMIT_re c" "sound_string t" "sound_string b" "sound_string c" "directory_ok e"
    by (rule that [OF re s d])
  then have "ownership_ok \<lparr>wo_ownerToken = t, wo_baseBranch = b, wo_baseCommit = c, wo_directory = Some e\<rparr>" (is "ownership_ok ?w")
    by (simp add: ownership_ok_def)
  then have "parseWorktreeOwnership False (ownership_js ?w) = Inr ?w" by (rule ownership_roundtrip) simp
  from ownership_canonical [OF this] show ?thesis by (intro exI [of _ ?w]) simp
qed

end
