(* ===== verification/EventMaterializer.thy ===== *)
theory EventMaterializer
  imports DagCore WorktreeOwnership
begin

text \<open>
  \<^verbatim>\<open>server/services/event/event-materializer.ts\<close>: the state of a job as a fold over its event log,
  in one pass (\<open>materializeJob\<close>) or one event at a time (\<open>advanceMaterializedJob\<close>).

  The state is the record of the source; its fields are values read from events, so most of them are
  \<open>js\<close>. Objects used as maps are lists of entries, and \<^verbatim>\<open>reviewLoop\<close> is the pair of fields
  \<open>j_reviewRounds\<close> and \<open>j_reviewLatest\<close>. An event handler gets the event, the flag \<^verbatim>\<open>ctx.terminal\<close>
  and the state; the table \<open>EVENT_HANDLERS\<close> is that of the source. Handlers that throw (an invalid
  worktree ownership, a \<^verbatim>\<open>clearArtifacts\<close> that cannot be iterated) make the fold throw.
  \<open>date\<close> stands for \<^verbatim>\<open>Date.parse\<close>. Copying the state (\<^verbatim>\<open>structuredClone\<close>) is the identity.
\<close>

section \<open>State\<close>

record job_state =
  j_jobId :: js
  j_project :: js
  j_task :: js
  j_status :: js
  j_phase :: js
  j_attempt :: js
  j_workflow :: js
  j_planMode :: js
  j_planDecision :: js
  j_executor :: js
  j_executorSelection :: js
  j_artifacts :: "(string \<times> js) list"
  j_artifactsByKind :: "(string \<times> js) list"
  j_artifactHistoryByKind :: "(string \<times> js) list"
  j_completedPhases :: "js list"
  j_completedNodes :: "js list"
  j_runningNodes :: "js list"
  j_blockedNodes :: "js list"
  j_consumedRedirectIds :: "js list"
  j_nodeStates :: "(string \<times> js) list"
  j_leaseId :: js
  j_worktree :: js
  j_worktreeBranch :: js
  j_worktreeBaseBranch :: js
  j_worktreeBaseCommit :: js
  j_worktreeOwnership :: js
  j_createdAt :: js
  j_updatedAt :: js
  j_blockedReason :: js
  j_failureCode :: js
  j_failurePhase :: js
  j_retryable :: js
  j_retryCount :: js
  j_maxRetries :: js
  j_failureCause :: js
  j_cancelRequested :: js
  j_cancelReason :: js
  j_redirectContext :: js
  j_redirectReason :: js
  j_redirectEventId :: js
  j_lastActivityAt :: js
  j_lastActivityMessage :: js
  j_externalRemediationStatus :: js
  j_externalRemediationArtifact :: js
  j_externalRemediationAt :: js
  j_externalRemediationError :: js
  j_externalRepair :: js
  j_lineage :: js
  j_recoveryOf :: js
  j_sourceContext :: js
  j_queueEntryId :: js
  j_pr :: js
  j_permissionDenials :: "js list"
  j_infraStatus :: js
  j_finalizer :: js
  j_mergeIndexStatus :: js
  j_mergeIndexBranch :: js
  j_mergeIndexGitHead :: js
  j_mergeIndexedFrom :: js
  j_indexSnapshotId :: js
  j_sourceFingerprint :: js
  j_indexFreshness :: js
  j_planCache :: js
  j_workflowDag :: js
  j_dagResume :: "dag_resume option"
  j_dynamicAgentPlan :: js
  j_adversarialVerdict :: js
  j_riskMap :: js
  j_phaseBudgetPolicy :: js
  j_evidenceRequirements :: js
  j_riskLevel :: js
  j_riskMapGeneratedAt :: js
  j_verificationDepth :: js
  j_adversarialRequired :: js
  j_routingFeedback :: js
  j_phaseAgentSelections :: "js list"
  j_approval :: js
  j_reviewRounds :: "js list"
  j_reviewLatest :: js
  j_completionGate :: js
  j_completionReport :: js
  j_auditFinalized :: js
  j_runtimeContext :: js
  j_runtimeFailures :: "js list"

definition initial_job_state :: job_state where
  "initial_job_state = \<lparr>j_jobId = JNull, j_project = JNull, j_task = JNull, j_status = JNull, j_phase = JNull,
     j_attempt = JNull, j_workflow = JNull, j_planMode = JNull, j_planDecision = JNull, j_executor = JNull,
     j_executorSelection = JUndef, j_artifacts = [], j_artifactsByKind = [], j_artifactHistoryByKind = [], j_completedPhases = [],
     j_completedNodes = [], j_runningNodes = [], j_blockedNodes = [], j_consumedRedirectIds = [], j_nodeStates = [],
     j_leaseId = JNull, j_worktree = JNull, j_worktreeBranch = JNull, j_worktreeBaseBranch = JNull, j_worktreeBaseCommit = JNull,
     j_worktreeOwnership = JNull, j_createdAt = JNull, j_updatedAt = JNull, j_blockedReason = JNull, j_failureCode = JNull,
     j_failurePhase = JNull, j_retryable = JBool False, j_retryCount = jnat 0, j_maxRetries = JNull, j_failureCause = JNull,
     j_cancelRequested = JBool False, j_cancelReason = JNull, j_redirectContext = JNull, j_redirectReason = JNull, j_redirectEventId = JNull,
     j_lastActivityAt = JNull, j_lastActivityMessage = JNull, j_externalRemediationStatus = JNull, j_externalRemediationArtifact = JNull, j_externalRemediationAt = JNull,
     j_externalRemediationError = JNull, j_externalRepair = JNull, j_lineage = JNull, j_recoveryOf = JNull, j_sourceContext = JNull,
     j_queueEntryId = JNull, j_pr = JNull, j_permissionDenials = [], j_infraStatus = JNull, j_finalizer = JNull,
     j_mergeIndexStatus = JNull, j_mergeIndexBranch = JNull, j_mergeIndexGitHead = JNull, j_mergeIndexedFrom = JNull, j_indexSnapshotId = JNull,
     j_sourceFingerprint = JNull, j_indexFreshness = JNull, j_planCache = JNull, j_workflowDag = JNull, j_dagResume = None,
     j_dynamicAgentPlan = JNull, j_adversarialVerdict = JNull, j_riskMap = JNull, j_phaseBudgetPolicy = JNull, j_evidenceRequirements = JArr [],
     j_riskLevel = JNull, j_riskMapGeneratedAt = JNull, j_verificationDepth = JNull, j_adversarialRequired = JBool False, j_routingFeedback = JNull,
     j_phaseAgentSelections = [], j_approval = JNull, j_reviewRounds = [], j_reviewLatest = JNull, j_completionGate = JNull,
     j_completionReport = JNull, j_auditFinalized = JNull, j_runtimeContext = JNull, j_runtimeFailures = []\<rparr>"

type_synonym handler = "js \<Rightarrow> bool \<Rightarrow> job_state \<Rightarrow> (job_state \<times> bool) result"

definition POST_TERMINAL_ALLOWED :: "string list" where
  "POST_TERMINAL_ALLOWED =
     [''job_redirect_consumed'', ''phase_activity'', ''permission_denied'',
      ''external_remediation_started'', ''external_remediation_completed'', ''external_remediation_failed'',
      ''process_stop_skipped'', ''process_marked_orphan'', ''process_stop_requested'', ''process_stopped'',
      ''finalizer_result'', ''phase_hook_started'', ''phase_hook_completed'', ''phase_hook_failed'', ''phase_hook_diagnostic'',
      ''merge_index_status'', ''finalizer_route_guard'', ''review_bundle_created'', ''parallel_finalize_conflict'', ''pr_opened'',
      ''github_comment_posted'', ''github_comment_failed'', ''slack_message_posted'', ''slack_message_failed'',
      ''dag_node_started'', ''dag_node_completed'', ''dag_node_failed'', ''dag_node_blocked'',
      ''dag_node_retrying'', ''dag_node_skipped'', ''dag_node_cancelled'',
      ''approval_required'', ''job_approved'', ''approval_timed_out'', ''job_superseded'',
      ''review_bundle_accepted'', ''review_bundle_rejected'', ''completion_gate_evaluated'', ''audit_finalized'',
      ''runtime_context_snapshot'', ''runtime_failure_recorded'', ''external_evaluation_recorded'']"

definition TERMINAL_STATUSES :: "string list" where
  "TERMINAL_STATUSES = [''completed'', ''failed'', ''blocked'', ''cancelled'', ''superseded'']"

definition terminal_status :: "job_state \<Rightarrow> bool" where
  "terminal_status s = (j_status s \<in> JStr ` set TERMINAL_STATUSES)"

section \<open>Reading events\<close>

text \<open>\<^verbatim>\<open>event.k ?? d\<close>, \<^verbatim>\<open>event.k ?? null\<close> and \<^verbatim>\<open>event.k || null\<close>.\<close>

abbreviation dflt :: "js \<Rightarrow> string \<Rightarrow> js \<Rightarrow> js" where
  "dflt e k d \<equiv> nullish_or (fld e k) d"

abbreviation val :: "js \<Rightarrow> string \<Rightarrow> js" where
  "val e k \<equiv> nullish_or (fld e k) JNull"

abbreviation opt_val :: "js \<Rightarrow> string \<Rightarrow> js" where
  "opt_val e k \<equiv> or_else (fld e k) JNull"

definition string_or_null :: "js \<Rightarrow> js" where
  \<comment> \<open>\<^verbatim>\<open>stringValue\<close>\<close>
  "string_or_null v = (if is_str v then v else JNull)"

definition stringishValue :: "js \<Rightarrow> js" where
  "stringishValue v = (if is_str v \<or> is_num v then JStr (to_str v) else JNull)"

definition record_or_null :: "js \<Rightarrow> js" where
  \<comment> \<open>\<^verbatim>\<open>sourceContextValue\<close>\<close>
  "record_or_null v = (if isRecord v then v else JNull)"

definition list_or_empty :: "js \<Rightarrow> js" where
  \<comment> \<open>\<^verbatim>\<open>Array.isArray(v) ? v : []\<close>\<close>
  "list_or_empty v = JArr (arr v)"

definition finite_or_zero :: "js \<Rightarrow> js" where
  "finite_or_zero v = (if is_finite v then v else jnat 0)"

definition without :: "js \<Rightarrow> js list \<Rightarrow> js list" where
  \<comment> \<open>\<^verbatim>\<open>xs.filter((x) => x !== v)\<close>\<close>
  "without v xs = filter (\<lambda>x. \<not> strict_eq x v) xs"

definition add_new :: "js \<Rightarrow> js list \<Rightarrow> js list" where
  \<comment> \<open>\<^verbatim>\<open>xs.includes(v) ? xs : [...xs, v]\<close>\<close>
  "add_new v xs = (if js_includes xs v then xs else xs @ [v])"

definition num_plus_one :: "jsnum \<Rightarrow> jsnum" where
  "num_plus_one n = (case n of Fin x \<Rightarrow> Fin (x + 1) | _ \<Rightarrow> n)"

definition plus_one :: "js \<Rightarrow> js" where
  \<comment> \<open>\<^verbatim>\<open>v + 1\<close>\<close>
  "plus_one v = (case v of JStr s \<Rightarrow> JStr (s @ [CHR ''1'']) | JArr _ \<Rightarrow> JStr (to_str v @ ''1'') | JObj _ \<Rightarrow> JStr (to_str v @ ''1'')
     | _ \<Rightarrow> JNum (num_plus_one (to_num v)))"

definition spread_props :: "js \<Rightarrow> (string \<times> js) list" where
  \<comment> \<open>what \<^verbatim>\<open>{...v}\<close> copies\<close>
  "spread_props v = (case v of JObj kvs \<Rightarrow> kvs
     | JArr xs \<Rightarrow> map (\<lambda>i. (show_nat i, xs ! i)) [0..<length xs]
     | JStr s \<Rightarrow> map (\<lambda>i. (show_nat i, JStr [s ! i])) [0..<length s]
     | _ \<Rightarrow> [])"

section \<open>Node states\<close>

definition NODE_STATE_DEFAULTS :: "(string \<times> js) list" where
  "NODE_STATE_DEFAULTS = (''status'', JStr ''pending'') # map (\<lambda>k. (k, JNull))
     [''phase'', ''attempt'', ''artifact'', ''reason'', ''error'', ''startedAt'', ''completedAt'', ''failedAt'',
      ''retryingAt'', ''skippedAt'', ''cancelledAt'', ''blockedAt'', ''durationMs'']"

definition isDateInput :: "js \<Rightarrow> bool" where
  "isDateInput v = (is_str v \<or> is_num v)"

definition date_ms :: "(string \<Rightarrow> jsnum) \<Rightarrow> js \<Rightarrow> jsnum" where
  \<comment> \<open>\<^verbatim>\<open>new Date(v).getTime()\<close> of a string or a number\<close>
  "date_ms date v = (case v of JStr s \<Rightarrow> date s
     | JNum (Fin x) \<Rightarrow> if \<bar>x\<bar> \<le> 8640000000000000
         then Fin (if 0 \<le> x then of_int \<lfloor>x\<rfloor> else - of_int \<lfloor>- x\<rfloor>) else NaN
     | _ \<Rightarrow> NaN)"

definition next_node_state :: "(string \<Rightarrow> jsnum) \<Rightarrow> (string \<times> js) list \<Rightarrow> (string \<times> js) list \<Rightarrow> (string \<times> js) list" where
  "next_node_state date prev updates =
     (let defined = filter (\<lambda>kv. snd kv \<noteq> JUndef) updates; next = spread prev defined;
          terminalTs = or_else (or_else (obj_get defined ''completedAt'') (obj_get defined ''failedAt'')) (obj_get defined ''cancelledAt'');
          startedAt = obj_get prev ''startedAt''
      in if isDateInput terminalTs \<and> isDateInput startedAt
         then (let ms = num_sub (date_ms date terminalTs) (date_ms date startedAt)
               in obj_set ''durationMs'' (if num_finite ms then JNum ms else JNull) next)
         else next)"

definition updateNodeState :: "(string \<Rightarrow> jsnum) \<Rightarrow> js \<Rightarrow> (string \<times> js) list \<Rightarrow> job_state \<Rightarrow> job_state" where
  "updateNodeState date nid updates s =
     (if \<not> truthy nid then s
      else let key = to_str nid;
               prev = (if truthy (obj_get (j_nodeStates s) key) then own (obj_get (j_nodeStates s) key) else NODE_STATE_DEFAULTS)
           in s\<lparr>j_nodeStates := obj_set key (JObj (next_node_state date prev updates)) (j_nodeStates s)\<rparr>)"

definition workflowNodes :: "job_state \<Rightarrow> js list" where
  "workflowNodes s = recordArray (fld (j_workflowDag s) ''nodes'')"

definition workflowNodeIds :: "job_state \<Rightarrow> js list" where
  "workflowNodeIds s = filter truthy (map (\<lambda>n. string_or_null (fld n ''id'')) (workflowNodes s))"

definition workflowHasNodeId :: "job_state \<Rightarrow> js \<Rightarrow> bool" where
  "workflowHasNodeId s nid = (is_str nid \<and> nid \<in> set (workflowNodeIds s))"

definition phase_states :: "job_state \<Rightarrow> (string \<times> js) list" where
  "phase_states s =
     (let done = fold (\<lambda>p kvs. obj_set (to_str p) (JStr ''completed'') kvs) (j_completedPhases s) []
      in if truthy (j_failurePhase s)
         then obj_set (to_str (j_failurePhase s)) (JStr (if j_status s = JStr ''blocked'' then ''blocked'' else ''failed'')) done
         else done)"

definition syncDagResume :: "job_state \<Rightarrow> job_state" where
  "syncDagResume s =
     (let resume = deriveDagResumeState (j_workflowDag s) (JObj (j_nodeStates s)) (JObj (phase_states s))
      in s\<lparr>j_dagResume := Some resume, j_completedNodes := map JStr (completedNodeIds resume)\<rparr>)"

section \<open>Handlers\<close>

definition on_job_created :: "js \<Rightarrow> job_state \<Rightarrow> job_state" where
  "on_job_created e s = s\<lparr>
     j_task := dflt e ''task'' (j_task s), j_executor := dflt e ''executor'' (j_executor s),
     j_executorSelection := dflt e ''executorSelection'' (j_executorSelection s), j_status := JStr ''running'',
     j_createdAt := dflt e ''ts'' (j_createdAt s), j_blockedReason := JNull,
     j_queueEntryId := dflt e ''queueEntryId'' (j_queueEntryId s),
     j_sourceContext := (if truthy (fld e ''sourceContext'') then record_or_null (fld e ''sourceContext'') else j_sourceContext s),
     j_indexSnapshotId := (if fld e ''indexSnapshotId'' \<noteq> JUndef then fld e ''indexSnapshotId'' else j_indexSnapshotId s),
     j_sourceFingerprint := (if fld e ''sourceFingerprint'' \<noteq> JUndef then fld e ''sourceFingerprint'' else j_sourceFingerprint s),
     j_indexFreshness := (if fld e ''indexFreshness'' \<noteq> JUndef then fld e ''indexFreshness'' else j_indexFreshness s),
     j_planCache := (if fld e ''planCache'' \<noteq> JUndef then fld e ''planCache'' else j_planCache s)\<rparr>"

definition on_plan_decision :: "js \<Rightarrow> job_state \<Rightarrow> job_state" where
  "on_plan_decision e s = s\<lparr>j_planMode := dflt e ''planMode'' (j_planMode s),
     j_planDecision := JObj [(''workflow'', dflt e ''workflow'' (j_workflow s)), (''planMode'', val e ''planMode''),
       (''runPlan'', val e ''runPlan''), (''reason'', val e ''reason''), (''decidedAt'', val e ''ts''),
       (''parentPlanCache'', val e ''parentPlanCache'')]\<rparr>"

definition on_plan_cache :: "js \<Rightarrow> job_state \<Rightarrow> job_state" where
  "on_plan_cache e s = s\<lparr>j_planCache := JObj (spread (spread_props (or_else (j_planCache s) (JObj []))) (own e))\<rparr>"

definition on_riskmap_generated :: "js \<Rightarrow> job_state \<Rightarrow> job_state" where
  "on_riskmap_generated e s =
     (let riskMap = dflt e ''riskMap'' (JObj [(''riskLevel'', val e ''riskLevel''), (''domains'', dflt e ''domains'' (JArr [])),
            (''highRiskFiles'', dflt e ''highRiskFiles'' (JArr [])), (''verificationDepth'', val e ''verificationDepth''),
            (''adversarialRequired'', JBool (truthy (fld e ''adversarialRequired''))),
            (''adversarialFocus'', dflt e ''adversarialFocus'' (JArr [])), (''confidence'', val e ''confidence'')])
      in s\<lparr>j_riskMap := riskMap,
           j_riskLevel := dflt e ''riskLevel'' (val riskMap ''riskLevel''),
           j_verificationDepth := dflt e ''verificationDepth'' (val riskMap ''verificationDepth''),
           j_adversarialRequired := dflt e ''adversarialRequired'' (dflt riskMap ''adversarialRequired'' (JBool False)),
           j_phaseBudgetPolicy := (if fld e ''phaseBudgetPolicy'' \<noteq> JUndef then recordValue (fld e ''phaseBudgetPolicy'') else j_phaseBudgetPolicy s),
           j_evidenceRequirements := (if is_arr (fld e ''evidenceRequirements'') then fld e ''evidenceRequirements'' else j_evidenceRequirements s),
           j_riskMapGeneratedAt := dflt e ''ts'' (dflt riskMap ''generatedAt'' (j_riskMapGeneratedAt s))\<rparr>)"

definition add_pending :: "(string \<Rightarrow> jsnum) \<Rightarrow> js \<Rightarrow> job_state \<Rightarrow> job_state" where
  "add_pending date node s =
     (let nodeId = string_or_null (fld node ''id'')
      in if truthy nodeId \<and> \<not> truthy (obj_get (j_nodeStates s) (to_str nodeId))
         then updateNodeState date nodeId [(''status'', JStr ''pending''), (''phase'', nullish_or (string_or_null (fld node ''phase'')) nodeId)] s
         else s)"

text \<open>The new DAG, the node lists cut to its nodes, and a pending state for each node without one.\<close>

definition adopt_dag :: "js \<Rightarrow> job_state \<Rightarrow> job_state" where
  "adopt_dag e s =
     (let workflow = dflt e ''workflow'' (j_workflow s)
      in s\<lparr>j_workflow := workflow, j_planMode := dflt e ''planMode'' (j_planMode s),
           j_workflowDag := dflt e ''workflowDag'' (JObj [(''name'', dflt e ''workflow'' workflow),
             (''nodes'', dflt e ''nodes'' (JArr [])), (''edges'', dflt e ''edges'' (JArr []))])\<rparr>)"

definition prune_nodes :: "job_state \<Rightarrow> job_state" where
  "prune_nodes s = (let keep = filter (\<lambda>i. i \<in> set (workflowNodeIds s))
     in s\<lparr>j_completedNodes := keep (j_completedNodes s), j_runningNodes := keep (j_runningNodes s),
          j_blockedNodes := keep (j_blockedNodes s)\<rparr>)"

definition on_workflow_dag_materialized :: "(string \<Rightarrow> jsnum) \<Rightarrow> js \<Rightarrow> job_state \<Rightarrow> job_state" where
  "on_workflow_dag_materialized date e s =
     (let s2 = prune_nodes (adopt_dag e s) in fold (add_pending date) (workflowNodes s2) s2)"

definition on_dynamic_agent_plan :: "js \<Rightarrow> job_state \<Rightarrow> job_state" where
  "on_dynamic_agent_plan e s =
     (let plan = dflt e ''dynamicAgentPlan'' (j_dynamicAgentPlan s)
      in s\<lparr>j_dynamicAgentPlan := plan,
           j_riskLevel := dflt e ''riskLevel'' (dflt plan ''riskLevel'' (j_riskLevel s)),
           j_adversarialRequired := dflt e ''adversarialRequired'' (dflt plan ''adversarialRequired'' (j_adversarialRequired s))\<rparr>)"

definition on_adversarial_verdict :: "js \<Rightarrow> job_state \<Rightarrow> job_state" where
  "on_adversarial_verdict e s =
     (let verdict = recordValue (fld e ''verdict'')
      in s\<lparr>j_adversarialVerdict := JObj [(''verdict'', val e ''verdict''), (''artifact'', val e ''artifact''),
           (''status'', dflt e ''status'' (val verdict ''status'')), (''reason'', dflt e ''reason'' (val verdict ''reason'')),
           (''at'', val e ''ts'')]\<rparr>)"

definition on_executor_routing_feedback :: "js \<Rightarrow> job_state \<Rightarrow> job_state" where
  "on_executor_routing_feedback e s = s\<lparr>j_routingFeedback := JObj [(''phase'', val e ''phase''), (''requested'', val e ''requested''),
     (''reason'', val e ''reason''), (''confidence'', val e ''confidence''), (''signals'', dflt e ''signals'' (JArr [])),
     (''upgradedQueueEntryId'', val e ''upgradedQueueEntryId''), (''feedbackPath'', val e ''feedbackPath''), (''at'', val e ''ts'')]\<rparr>"

definition on_agent_routing_decision :: "js \<Rightarrow> job_state \<Rightarrow> job_state" where
  "on_agent_routing_decision e s =
     (let selection = dflt e ''executorSelection'' (JObj (map (\<lambda>k. (k, val e k))
            [''role'', ''category'', ''workflow'', ''preferredAgent'', ''selectedAgent'', ''fallbackAgent'', ''fallbackAllowed'',
             ''fallbackApplied'', ''reason'']))
      in if truthy (fld e ''phase'')
         then s\<lparr>j_phaseAgentSelections := j_phaseAgentSelections s
                @ [JObj (obj_set ''ts'' (val e ''ts'') (spread [(''phase'', fld e ''phase'')] (spread_props selection)))]\<rparr>
         else s\<lparr>j_executorSelection := selection,
                j_executor := (if fld e ''selectedAgent'' \<noteq> JUndef then fld e ''selectedAgent'' else j_executor s)\<rparr>)"

text \<open>The last selection of the phase and role is completed.\<close>

definition routed_selection :: "js \<Rightarrow> js \<Rightarrow> js" where
  "routed_selection e selection = JObj (spread (own selection)
     [(''finalAgent'', val e ''finalAgent''), (''providerKey'', val e ''providerKey''), (''finalStatus'', val e ''status''),
      (''failureKind'', val e ''failureKind''), (''fallbackApplied'', dflt e ''fallbackApplied'' (val selection ''fallbackApplied'')),
      (''fallbackCount'', dflt e ''fallbackCount'' (jnat 0)), (''completedAt'', val e ''ts'')])"

fun update_first :: "('a \<Rightarrow> bool) \<Rightarrow> ('a \<Rightarrow> 'a) \<Rightarrow> 'a list \<Rightarrow> 'a list" where
  "update_first p f [] = []"
| "update_first p f (x # xs) = (if p x then f x # xs else x # update_first p f xs)"

definition on_agent_routing_result :: "js \<Rightarrow> job_state \<Rightarrow> job_state" where
  "on_agent_routing_result e s = s\<lparr>j_phaseAgentSelections := rev (update_first
     (\<lambda>x. strict_eq (fld x ''phase'') (fld e ''phase'') \<and> strict_eq (fld x ''role'') (fld e ''role''))
     (routed_selection e) (rev (j_phaseAgentSelections s)))\<rparr>"

definition on_worktree_created :: "js \<Rightarrow> job_state \<Rightarrow> job_state result" where
  "on_worktree_created e s =
     (let s1 = s\<lparr>j_worktree := nullish_or (string_or_null (fld e ''worktree'')) (nullish_or (string_or_null (fld e ''path'')) (j_worktree s)),
            j_worktreeBranch := dflt e ''branch'' (dflt e ''worktreeBranch'' (j_worktreeBranch s)),
            j_worktreeBaseBranch := dflt e ''baseBranch'' (dflt e ''worktreeBaseBranch'' (j_worktreeBaseBranch s)),
            j_worktreeBaseCommit := dflt e ''baseCommit'' (dflt e ''worktreeBaseCommit'' (j_worktreeBaseCommit s))\<rparr>
      in if fld e ''worktreeOwnership'' = JUndef then Inr s1
         else thn (parseWorktreeOwnership False (fld e ''worktreeOwnership''))
                (\<lambda>w. Inr (s1\<lparr>j_worktreeOwnership := ownership_js w\<rparr>)))"

definition on_phase_started :: "js \<Rightarrow> job_state \<Rightarrow> job_state" where
  "on_phase_started e s = s\<lparr>j_phase := dflt e ''phase'' (j_phase s), j_leaseId := val e ''leaseId'', j_status := JStr ''running'',
     j_blockedReason := JNull,
     j_runningNodes := (if truthy (fld e ''phase'') then add_new (fld e ''phase'') (j_runningNodes s) else j_runningNodes s)\<rparr>"

text \<open>The node of a completed phase: without a DAG the phase is a node itself.\<close>

definition complete_phase_node :: "(string \<Rightarrow> jsnum) \<Rightarrow> js \<Rightarrow> job_state \<Rightarrow> job_state" where
  "complete_phase_node date e s =
     (let p = fld e ''phase''
      in if \<not> truthy (j_workflowDag s) \<and> \<not> js_includes (j_completedNodes s) p
         then s\<lparr>j_completedNodes := j_completedNodes s @ [p]\<rparr>
         else if workflowHasNodeId s p
         then updateNodeState date p [(''status'', JStr ''completed''), (''phase'', p), (''artifact'', fld e ''artifact''),
                (''completedAt'', fld e ''ts'')]
              (s\<lparr>j_runningNodes := without p (j_runningNodes s), j_completedNodes := add_new p (j_completedNodes s)\<rparr>)
         else s)"

definition on_phase_completed :: "(string \<Rightarrow> jsnum) \<Rightarrow> js \<Rightarrow> job_state \<Rightarrow> job_state" where
  "on_phase_completed date e s =
     (let p = fld e ''phase''; artifact = fld e ''artifact'';
          s1 = s\<lparr>j_phase := dflt e ''phase'' (j_phase s), j_leaseId := JNull, j_status := JStr ''running''\<rparr>;
          s2 = (if p = JUndef then s1
             else complete_phase_node date e
               (s1\<lparr>j_runningNodes := without p (j_runningNodes s1), j_completedPhases := add_new p (j_completedPhases s1)\<rparr>))
      in if p \<noteq> JUndef \<and> artifact \<noteq> JUndef then s2\<lparr>j_artifacts := obj_set (to_str p) artifact (j_artifacts s2)\<rparr> else s2)"

definition add_if :: "bool \<Rightarrow> js \<Rightarrow> js list \<Rightarrow> js list" where
  "add_if b v xs = (if b then add_new v xs else xs)"

definition without_if :: "bool \<Rightarrow> js \<Rightarrow> js list \<Rightarrow> js list" where
  "without_if b v xs = (if b then without v xs else xs)"

definition on_dag_node_started :: "(string \<Rightarrow> jsnum) \<Rightarrow> js \<Rightarrow> job_state \<Rightarrow> job_state" where
  "on_dag_node_started date e s =
     (let n = fld e ''nodeId''
      in updateNodeState date n ([(''status'', JStr ''running''), (''phase'', fld e ''phase''), (''attempt'', fld e ''attempt''),
           (''startedAt'', fld e ''ts'')] @ map (\<lambda>k. (k, JNull))
             [''completedAt'', ''failedAt'', ''skippedAt'', ''cancelledAt'', ''blockedAt'', ''durationMs''])
         (s\<lparr>j_runningNodes := add_if (truthy n) n (j_runningNodes s), j_blockedNodes := without n (j_blockedNodes s)\<rparr>))"

definition on_dag_node_completed :: "(string \<Rightarrow> jsnum) \<Rightarrow> js \<Rightarrow> job_state \<Rightarrow> job_state" where
  "on_dag_node_completed date e s =
     (let n = fld e ''nodeId''; p = fld e ''phase''; artifact = fld e ''artifact''
      in updateNodeState date n [(''status'', JStr ''completed''), (''phase'', p), (''artifact'', artifact), (''completedAt'', fld e ''ts'')]
         (s\<lparr>j_runningNodes := without n (j_runningNodes s), j_completedNodes := add_if (truthy n) n (j_completedNodes s),
            j_artifacts := (if p \<noteq> JUndef \<and> artifact \<noteq> JUndef then obj_set (to_str p) artifact (j_artifacts s) else j_artifacts s),
            j_completedPhases := add_if (p \<noteq> JUndef) p (j_completedPhases s)\<rparr>))"

definition on_dag_node_failed :: "(string \<Rightarrow> jsnum) \<Rightarrow> js \<Rightarrow> job_state \<Rightarrow> job_state" where
  "on_dag_node_failed date e s =
     (let n = fld e ''nodeId''
      in updateNodeState date n [(''status'', JStr ''failed''), (''phase'', fld e ''phase''),
           (''error'', dflt e ''error'' (fld e ''reason'')), (''reason'', fld e ''reason''), (''failedAt'', fld e ''ts'')]
         (s\<lparr>j_runningNodes := without n (j_runningNodes s), j_failureCode := nullish_or (stringishValue (fld e ''code'')) (j_failureCode s),
            j_failurePhase := dflt e ''phase'' (j_failurePhase s)\<rparr>))"

definition on_dag_node_blocked :: "(string \<Rightarrow> jsnum) \<Rightarrow> js \<Rightarrow> job_state \<Rightarrow> job_state" where
  "on_dag_node_blocked date e s =
     (let n = fld e ''nodeId''
      in updateNodeState date n [(''status'', JStr ''blocked''), (''reason'', fld e ''reason''), (''blockedAt'', fld e ''ts'')]
         (s\<lparr>j_runningNodes := without n (j_runningNodes s), j_blockedNodes := add_if (truthy n) n (j_blockedNodes s)\<rparr>))"

definition on_dag_node_retrying :: "(string \<Rightarrow> jsnum) \<Rightarrow> js \<Rightarrow> job_state \<Rightarrow> job_state" where
  "on_dag_node_retrying date e s =
     (let n = fld e ''nodeId''; p = fld e ''phase''
      in updateNodeState date n ([(''status'', JStr ''retrying''), (''phase'', p), (''attempt'', fld e ''attempt''), (''artifact'', JNull),
           (''reason'', fld e ''reason''), (''retryingAt'', fld e ''ts'')] @ map (\<lambda>k. (k, JNull))
             [''completedAt'', ''failedAt'', ''skippedAt'', ''cancelledAt'', ''blockedAt'', ''durationMs''])
         (s\<lparr>j_runningNodes := without_if (truthy n) n (j_runningNodes s), j_blockedNodes := without_if (truthy n) n (j_blockedNodes s),
            j_completedNodes := without_if (truthy n) n (j_completedNodes s),
            j_completedPhases := without_if (p \<noteq> JUndef) p (j_completedPhases s)\<rparr>))"

definition on_dag_node_skipped :: "(string \<Rightarrow> jsnum) \<Rightarrow> js \<Rightarrow> job_state \<Rightarrow> job_state" where
  "on_dag_node_skipped date e s =
     (let n = fld e ''nodeId''; p = fld e ''phase''
      in updateNodeState date n [(''status'', JStr ''skipped''), (''phase'', p), (''reason'', fld e ''reason''), (''skippedAt'', fld e ''ts'')]
         (s\<lparr>j_runningNodes := without_if (truthy n) n (j_runningNodes s), j_completedNodes := add_if (truthy n) n (j_completedNodes s),
            j_completedPhases := add_if (p \<noteq> JUndef) p (j_completedPhases s)\<rparr>))"

definition on_dag_node_cancelled :: "(string \<Rightarrow> jsnum) \<Rightarrow> js \<Rightarrow> job_state \<Rightarrow> job_state" where
  "on_dag_node_cancelled date e s =
     (let n = fld e ''nodeId''
      in updateNodeState date n [(''status'', JStr ''cancelled''), (''phase'', fld e ''phase''), (''reason'', fld e ''reason''),
           (''cancelledAt'', fld e ''ts'')] (s\<lparr>j_runningNodes := without_if (truthy n) n (j_runningNodes s)\<rparr>))"

text \<open>The fields that a failure of a phase and of a job set alike.\<close>

definition failure_fields :: "js \<Rightarrow> job_state \<Rightarrow> job_state" where
  "failure_fields e s = s\<lparr>j_leaseId := JNull, j_status := JStr ''failed'',
     j_failureCode := nullish_or (stringishValue (fld e ''code'')) (j_failureCode s),
     j_failurePhase := dflt e ''phase'' (j_failurePhase s), j_retryable := dflt e ''retryable'' (j_retryable s),
     j_retryCount := dflt e ''retryCount'' (j_retryCount s), j_maxRetries := dflt e ''maxRetries'' (j_maxRetries s),
     j_failureCause := dflt e ''cause'' (j_failureCause s)\<rparr>"

definition on_phase_failed :: "js \<Rightarrow> job_state \<Rightarrow> job_state" where
  "on_phase_failed e s = (failure_fields e s)\<lparr>j_phase := dflt e ''phase'' (j_phase s),
     j_blockedReason := dflt e ''error'' (val e ''reason''),
     j_runningNodes := without_if (fld e ''phase'' \<noteq> JUndef) (fld e ''phase'') (j_runningNodes s)\<rparr>"

definition on_budget_exceeded :: "js \<Rightarrow> job_state \<Rightarrow> job_state" where
  "on_budget_exceeded e s = s\<lparr>j_status := JStr ''blocked'', j_leaseId := JNull,
     j_blockedReason := dflt e ''reason'' (JStr ''budget exceeded'')\<rparr>"

definition on_job_blocked :: "js \<Rightarrow> job_state \<Rightarrow> job_state" where
  "on_job_blocked e s = s\<lparr>j_status := JStr ''blocked'', j_leaseId := JNull,
     j_blockedReason := dflt e ''reason'' (val e ''blockedReason''),
     j_failureCode := nullish_or (stringishValue (fld e ''code'')) (dflt e ''kind'' (j_failureCode s)),
     j_failureCause := dflt e ''cause'' (j_failureCause s)\<rparr>"

definition on_job_failed :: "js \<Rightarrow> job_state \<Rightarrow> job_state" where
  "on_job_failed e s = (failure_fields e s)\<lparr>j_blockedReason := dflt e ''reason'' (dflt e ''error'' (j_blockedReason s))\<rparr>"

definition on_pool_exhausted :: "js \<Rightarrow> job_state \<Rightarrow> job_state" where
  "on_pool_exhausted e s = s\<lparr>j_status := JStr ''failed'', j_leaseId := JNull,
     j_blockedReason := dflt e ''reason'' (JStr ''ACP pool exhausted''), j_failureCode := JStr ''pool_exhausted'',
     j_failurePhase := dflt e ''phase'' (j_phase s), j_retryable := JBool True\<rparr>"

definition on_job_superseded :: "js \<Rightarrow> job_state \<Rightarrow> job_state" where
  "on_job_superseded e s = s\<lparr>j_status := JStr ''superseded'',
     j_blockedReason := dflt e ''reason'' (JStr ''superseded by remediation lineage'')\<rparr>"

definition on_approval_required :: "js \<Rightarrow> job_state \<Rightarrow> job_state" where
  "on_approval_required e s =
     (let p = fld e ''phase''
      in s\<lparr>j_status := JStr ''waiting.approval'', j_phase := dflt e ''phase'' (j_phase s),
           j_blockedReason := dflt e ''reason'' (JStr ''approval required''),
           j_approval := JObj [(''operation'', val e ''operation''), (''phase'', val e ''phase''), (''channels'', list_or_empty (fld e ''channels'')),
             (''reason'', val e ''reason''), (''requestedAt'', val e ''ts''), (''timeoutAt'', val e ''timeoutAt'')],
           j_runningNodes := without_if (truthy p) p (j_runningNodes s), j_blockedNodes := add_if (truthy p) p (j_blockedNodes s)\<rparr>)"

definition on_job_approved :: "js \<Rightarrow> job_state \<Rightarrow> job_state" where
  "on_job_approved e s = s\<lparr>j_status := JStr (if fld (j_approval s) ''operation'' = JStr ''PR'' then ''completed'' else ''running''),
     j_blockedReason := JNull, j_approval := JNull, j_blockedNodes := without_if (truthy (j_phase s)) (j_phase s) (j_blockedNodes s)\<rparr>"

definition on_approval_timed_out :: "js \<Rightarrow> job_state \<Rightarrow> job_state" where
  "on_approval_timed_out e s = s\<lparr>j_status := JStr ''blocked'', j_leaseId := JNull,
     j_blockedReason := dflt e ''reason'' (JStr ''approval timed out''),
     j_approval := (if truthy (j_approval s) then JObj (obj_set ''timedOutAt'' (val e ''ts'') (spread_props (j_approval s))) else JNull)\<rparr>"

definition on_review_bundle :: "js \<Rightarrow> job_state \<Rightarrow> job_state" where
  "on_review_bundle e s =
     (let round = JObj [(''round'', dflt e ''round'' (jnat (length (j_reviewRounds s) + 1))),
            (''verdict'', dflt e ''verdict'' (JStr (if fld e ''type'' = JStr ''review_bundle_accepted'' then ''accepted'' else ''rejected''))),
            (''feedback'', val e ''feedback''), (''retryQueueEntryId'', val e ''retryQueueEntryId''), (''bundleId'', val e ''bundleId''),
            (''actor'', val e ''actor''), (''createdAt'', val e ''ts'')]
      in s\<lparr>j_reviewRounds := j_reviewRounds s @ [round], j_reviewLatest := round\<rparr>)"

definition on_job_completed :: "js \<Rightarrow> job_state \<Rightarrow> job_state" where
  "on_job_completed e s = s\<lparr>j_status := JStr ''completed'', j_phase := JStr ''completed'', j_leaseId := JNull, j_blockedReason := JNull,
     j_failureCode := JNull, j_failurePhase := JNull, j_retryable := JBool False, j_retryCount := jnat 0, j_failureCause := JNull\<rparr>"

definition on_pr_opened :: "js \<Rightarrow> job_state \<Rightarrow> job_state" where
  "on_pr_opened e s = s\<lparr>j_pr := JObj [(''url'', or_else (fld e ''prUrl'') (or_else (fld e ''pullRequestUrl'') (opt_val e ''url''))),
       (''number'', or_else (fld e ''prNumber'') (opt_val e ''number'')), (''artifact'', opt_val e ''artifact''), (''openedAt'', opt_val e ''ts'')],
     j_artifacts := (if truthy (fld e ''artifact'') then obj_set ''pr'' (fld e ''artifact'') (j_artifacts s) else j_artifacts s)\<rparr>"

definition on_job_cancel_requested :: "js \<Rightarrow> job_state \<Rightarrow> job_state" where
  "on_job_cancel_requested e s = s\<lparr>j_cancelRequested := JBool True, j_cancelReason := val e ''reason''\<rparr>"

definition on_job_cancelled :: "js \<Rightarrow> job_state \<Rightarrow> job_state" where
  "on_job_cancelled e s = s\<lparr>j_cancelRequested := JBool True, j_cancelReason := dflt e ''reason'' (j_cancelReason s),
     j_status := JStr ''cancelled'', j_leaseId := JNull\<rparr>"

definition on_job_retried :: "js \<Rightarrow> job_state \<Rightarrow> job_state result" where
  "on_job_retried e s = thn (iterate (dflt e ''clearArtifacts'' (JArr []))) (\<lambda>cleared.
     Inr (s\<lparr>j_status := JStr ''running'', j_phase := dflt e ''fromPhase'' (j_phase s), j_leaseId := JNull, j_blockedReason := JNull,
       j_failureCode := JNull, j_failurePhase := JNull, j_retryable := JBool False,
       j_retryCount := dflt e ''retryCount'' (plus_one (j_retryCount s)), j_maxRetries := dflt e ''maxRetries'' (j_maxRetries s),
       j_failureCause := JNull, j_artifacts := filter (\<lambda>kv. fst kv \<notin> set (map to_str cleared)) (j_artifacts s)\<rparr>))"

definition on_recovery_created :: "js \<Rightarrow> job_state \<Rightarrow> job_state" where
  "on_recovery_created e s = s\<lparr>j_recoveryOf := val e ''recoveryOf'', j_retryCount := dflt e ''retryCount'' (j_retryCount s),
     j_maxRetries := dflt e ''maxRetries'' (j_maxRetries s),
     j_lineage := JObj (map (\<lambda>k. (k, val (fld e ''lineage'') k))
         [''parentJobId'', ''parentStatus'', ''parentFailureCode'', ''parentFailurePhase'', ''parentBlockedReason'']
       @ map (\<lambda>k. (k, val e k)) [''recoveryReason'', ''trigger'', ''executorSelection'', ''retryCount'', ''maxRetries'']),
     j_sourceContext := (if truthy (fld e ''sourceContext'') then record_or_null (fld e ''sourceContext'') else j_sourceContext s)\<rparr>"

definition on_permission_denied :: "js \<Rightarrow> job_state \<Rightarrow> job_state" where
  "on_permission_denied e s = s\<lparr>j_permissionDenials := j_permissionDenials s @ [JObj
       [(''category'', dflt e ''category'' (JStr ''infra'')), (''phase'', val e ''phase''), (''role'', val e ''role''), (''action'', val e ''action''),
        (''deniedOperation'', dflt e ''deniedOperation'' (val e ''action'')), (''targetPath'', dflt e ''targetPath'' (JStr [])),
        (''reason'', dflt e ''reason'' (JStr ''permission denied'')), (''allowedBoundary'', dflt e ''allowedBoundary'' (JStr [])),
        (''recoveryGuidance'', dflt e ''recoveryGuidance'' (JStr [])), (''ts'', val e ''ts'')]],
     j_infraStatus := JStr ''blocked''\<rparr>"

definition on_external_repair :: "string \<Rightarrow> string \<Rightarrow> js \<Rightarrow> job_state \<Rightarrow> job_state" where
  \<comment> \<open>the three handlers differ in the status and the field they copy\<close>
  "on_external_repair status k e s = s\<lparr>j_externalRepair := JObj [(''status'', JStr status), (k, val e k), (''ts'', val e ''ts'')]\<rparr>"

definition on_job_redirect_requested :: "js \<Rightarrow> bool \<Rightarrow> job_state \<Rightarrow> job_state" where
  "on_job_redirect_requested e terminal s = (if terminal then s
     else s\<lparr>j_redirectContext := val e ''instructions'', j_redirectReason := val e ''reason'', j_redirectEventId := val e ''redirectEventId''\<rparr>)"

definition on_job_redirect_consumed :: "js \<Rightarrow> job_state \<Rightarrow> job_state" where
  "on_job_redirect_consumed e s =
     (let i = fld e ''redirectEventId'';
          s1 = s\<lparr>j_consumedRedirectIds := (if i \<noteq> JUndef then j_consumedRedirectIds s @ [i] else j_consumedRedirectIds s)\<rparr>
      in if strict_eq (j_redirectEventId s1) i
         then s1\<lparr>j_redirectContext := JNull, j_redirectReason := JNull, j_redirectEventId := JNull\<rparr> else s1)"

definition on_workflow_selected :: "js \<Rightarrow> job_state \<Rightarrow> job_state" where
  "on_workflow_selected e s = s\<lparr>j_workflow := dflt e ''workflow'' (j_workflow s)\<rparr>"

definition on_phase_activity :: "js \<Rightarrow> job_state \<Rightarrow> job_state" where
  "on_phase_activity e s = s\<lparr>j_lastActivityAt := dflt e ''ts'' (j_lastActivityAt s), j_lastActivityMessage := dflt e ''message'' (j_lastActivityMessage s)\<rparr>"

definition on_external_remediation :: "js \<Rightarrow> js \<Rightarrow> js \<Rightarrow> job_state \<Rightarrow> job_state" where
  \<comment> \<open>the three handlers differ in the status and the error\<close>
  "on_external_remediation status err e s = s\<lparr>j_externalRemediationStatus := status,
     j_externalRemediationArtifact := dflt e ''artifact'' (j_externalRemediationArtifact s),
     j_externalRemediationAt := dflt e ''ts'' (j_externalRemediationAt s), j_externalRemediationError := err\<rparr>"

definition on_finalizer_result :: "js \<Rightarrow> job_state \<Rightarrow> job_state" where
  "on_finalizer_result e s =
     (let result = recordValue (fld e ''result'')
      in s\<lparr>j_finalizer := JObj ((''ok'', JBool (truthy (fld result ''ok''))) # map (\<lambda>k. (k, val result k))
           [''status'', ''code'', ''commit'', ''closed'', ''mode''] @ [(''ts'', val e ''ts'')])\<rparr>)"

definition on_merge_index_status :: "js \<Rightarrow> job_state \<Rightarrow> job_state" where
  "on_merge_index_status e s = s\<lparr>j_mergeIndexStatus := dflt e ''indexState'' (dflt e ''mergeIndexStatus'' (j_mergeIndexStatus s)),
     j_mergeIndexBranch := dflt e ''branch'' (j_mergeIndexBranch s), j_mergeIndexGitHead := dflt e ''gitHead'' (j_mergeIndexGitHead s),
     j_mergeIndexedFrom := dflt e ''indexedFrom'' (j_mergeIndexedFrom s)\<rparr>"

definition on_completion_gate_evaluated :: "js \<Rightarrow> job_state \<Rightarrow> job_state" where
  "on_completion_gate_evaluated e s =
     (let report = record_or_null (fld e ''completionReport''); lst = (\<lambda>k. (k, list_or_empty (fld e k)));
          cnt = (\<lambda>k. (k, finite_or_zero (fld e k)))
      in s\<lparr>j_completionReport := report,
           j_completionGate := JObj [(''outcome'', val e ''outcome''), (''attemptId'', val e ''attemptId''), (''reason'', val e ''reason''),
             lst ''missingGates'', (''checklistOutcome'', val e ''checklistOutcome''), lst ''failedChecklistIds'', lst ''uncheckedChecklistIds'',
             lst ''missingEvidenceRefs'', lst ''mismatchedEvidenceRefs'', lst ''staleEvidenceRefs'', lst ''poisonedEvidenceRefs'',
             lst ''pollutedEvidenceRefs'', lst ''pollutedOracleFiles'', cnt ''pollutedOracleFileCount'', (''completionReport'', report),
             lst ''runtimeFailureRefs'', cnt ''runtimeFailureCount'', lst ''unmappedChangedFiles'', cnt ''unmappedChangedFileCount'',
             (''evaluatedAt'', val e ''ts'')]\<rparr>)"

definition undefined_or :: "js \<Rightarrow> js" where
  \<comment> \<open>\<^verbatim>\<open>v ?? undefined\<close>\<close>
  "undefined_or v = nullish_or v JUndef"

definition on_artifact_created :: "js \<Rightarrow> job_state \<Rightarrow> job_state" where
  "on_artifact_created e s =
     (let kind = or_else (fld e ''kind'') (fld e ''artifactKind'');
          entry = JObj [(''kind'', kind),
            (''name'', nullish_or (string_or_null (fld e ''artifact'')) (nullish_or (string_or_null (fld e ''artifactId'')) kind)),
            (''id'', undefined_or (string_or_null (fld e ''artifactId''))),
            (''attemptId'', undefined_or (nullish_or (string_or_null (fld e ''attemptId'')) (string_or_null (fld e ''jobId'')))),
            (''phase'', opt_val e ''phase''), (''sha256'', opt_val e ''sha256''), (''ts'', opt_val e ''ts''),
            (''eventId'', undefined_or (string_or_null (fld e ''eventId'')))];
          key = to_str kind
      in if \<not> truthy kind \<or> \<not> truthy (fld e ''artifact'') then s
         else s\<lparr>j_artifactsByKind := obj_set key entry (j_artifactsByKind s),
                j_artifactHistoryByKind := obj_set key (JArr (arr (obj_get (j_artifactHistoryByKind s) key) @ [entry])) (j_artifactHistoryByKind s)\<rparr>)"

definition on_audit_finalized :: "js \<Rightarrow> job_state \<Rightarrow> job_state" where
  "on_audit_finalized e s = s\<lparr>j_auditFinalized := JObj (map (\<lambda>k. (k, opt_val e k)) [''attemptId'', ''status'', ''reason'', ''ts''])\<rparr>"

definition on_runtime_context_snapshot :: "js \<Rightarrow> job_state \<Rightarrow> job_state" where
  "on_runtime_context_snapshot e s = s\<lparr>j_runtimeContext := JObj (map (\<lambda>k. (k, opt_val e k))
       [''attemptId'', ''assignmentId'', ''workerId'', ''model'', ''runtime'', ''queueId'']
     @ [(''queuePriority'', val e ''queuePriority'')] @ map (\<lambda>k. (k, opt_val e k))
       [''concurrencyKey'', ''rateLimitedUntil'', ''heartbeatAt'', ''progressKind'', ''blocker'', ''ts''])\<rparr>"

definition on_runtime_failure_recorded :: "js \<Rightarrow> job_state \<Rightarrow> job_state" where
  "on_runtime_failure_recorded e s = s\<lparr>j_runtimeFailures := j_runtimeFailures s
     @ [JObj ((''type'', opt_val e ''failureType'') # map (\<lambda>k. (k, opt_val e k)) [''attemptId'', ''phase'', ''nodeId'', ''reason'', ''ts''])]\<rparr>"

section \<open>The table and the fold\<close>

text \<open>How a handler uses the flag: most leave it, some set it, two clear it.\<close>

definition keeps :: "(js \<Rightarrow> job_state \<Rightarrow> job_state) \<Rightarrow> handler" where
  "keeps f = (\<lambda>e t s. Inr (f e s, t))"

definition stops :: "(js \<Rightarrow> job_state \<Rightarrow> job_state) \<Rightarrow> handler" where
  "stops f = (\<lambda>e t s. Inr (f e s, True))"

definition EVENT_HANDLERS :: "(string \<Rightarrow> jsnum) \<Rightarrow> (string \<times> handler) list" where
  "EVENT_HANDLERS date =
     [(''job_created'', \<lambda>e t s. Inr (on_job_created e s, False)),
      (''plan_decision'', keeps on_plan_decision),
      (''plan_cache_decision'', keeps on_plan_cache),
      (''plan_cache_updated'', keeps on_plan_cache),
      (''riskmap_generated'', keeps on_riskmap_generated),
      (''workflow_dag_materialized'', keeps (on_workflow_dag_materialized date)),
      (''dynamic_agent_plan_generated'', keeps on_dynamic_agent_plan),
      (''adversarial_verdict'', keeps on_adversarial_verdict),
      (''executor_routing_feedback'', keeps on_executor_routing_feedback),
      (''agent_routing_decision'', keeps on_agent_routing_decision),
      (''agent_routing_result'', keeps on_agent_routing_result),
      (''worktree_created'', \<lambda>e t s. thn (on_worktree_created e s) (\<lambda>s'. Inr (s', t))),
      (''phase_started'', keeps on_phase_started),
      (''phase_completed'', keeps (on_phase_completed date)),
      (''dag_node_started'', keeps (on_dag_node_started date)),
      (''dag_node_completed'', keeps (on_dag_node_completed date)),
      (''dag_node_failed'', keeps (on_dag_node_failed date)),
      (''dag_node_blocked'', keeps (on_dag_node_blocked date)),
      (''dag_node_retrying'', keeps (on_dag_node_retrying date)),
      (''dag_node_skipped'', keeps (on_dag_node_skipped date)),
      (''dag_node_cancelled'', keeps (on_dag_node_cancelled date)),
      (''phase_failed'', stops on_phase_failed),
      (''budget_exceeded'', stops on_budget_exceeded),
      (''job_blocked'', stops on_job_blocked),
      (''job_failed'', stops on_job_failed),
      (''pool_exhausted'', stops on_pool_exhausted),
      (''job_superseded'', stops on_job_superseded),
      (''approval_required'', keeps on_approval_required),
      (''job_approved'', keeps on_job_approved),
      (''approval_timed_out'', stops on_approval_timed_out),
      (''review_bundle_accepted'', keeps on_review_bundle),
      (''review_bundle_rejected'', keeps on_review_bundle),
      (''job_completed'', stops on_job_completed),
      (''pr_opened'', keeps on_pr_opened),
      (''job_cancel_requested'', keeps on_job_cancel_requested),
      (''job_cancelled'', stops on_job_cancelled),
      (''job_retried'', \<lambda>e t s. thn (on_job_retried e s) (\<lambda>s'. Inr (s', False))),
      (''recovery_created'', keeps on_recovery_created),
      (''permission_denied'', keeps on_permission_denied),
      (''external_repair_started'', keeps (on_external_repair ''started'' ''reason'')),
      (''external_repair_completed'', keeps (on_external_repair ''completed'' ''result'')),
      (''external_repair_failed'', keeps (on_external_repair ''failed'' ''error'')),
      (''job_redirect_requested'', \<lambda>e t s. Inr (on_job_redirect_requested e t s, t)),
      (''job_redirect_consumed'', keeps on_job_redirect_consumed),
      (''workflow_selected'', keeps on_workflow_selected),
      (''phase_activity'', keeps on_phase_activity),
      (''external_remediation_started'', keeps (on_external_remediation (JStr ''STARTED'') JNull)),
      (''external_remediation_completed'', keeps (\<lambda>e. on_external_remediation (dflt e ''remediationStatus'' (JStr ''UNKNOWN'')) JNull e)),
      (''external_remediation_failed'', keeps (\<lambda>e. on_external_remediation (JStr ''FAILED'') (dflt e ''error'' (val e ''reason'')) e)),
      (''finalizer_result'', keeps on_finalizer_result),
      (''merge_index_status'', keeps on_merge_index_status),
      (''completion_gate_evaluated'', keeps on_completion_gate_evaluated),
      (''artifact_created'', keeps on_artifact_created),
      (''audit_finalized'', keeps on_audit_finalized),
      (''runtime_context_snapshot'', keeps on_runtime_context_snapshot),
      (''runtime_failure_recorded'', keeps on_runtime_failure_recorded)]"

definition event_type :: "js \<Rightarrow> string" where
  \<comment> \<open>the key under which the handler is looked up\<close>
  "event_type e = to_str (fld e ''type'')"

definition post_terminal_allowed :: "js \<Rightarrow> bool" where
  "post_terminal_allowed e = (fld e ''type'' \<in> JStr ` set POST_TERMINAL_ALLOWED)"

definition set_if_defined :: "bool \<Rightarrow> js \<Rightarrow> js \<Rightarrow> js" where
  "set_if_defined b new old = (if b \<and> new \<noteq> JUndef then new else old)"

text \<open>The fields that every event sets, and the body of the loop after the gate.\<close>

definition envelope_fields :: "bool \<Rightarrow> js \<Rightarrow> job_state \<Rightarrow> job_state" where
  "envelope_fields terminal e s = s\<lparr>
     j_jobId := set_if_defined True (fld e ''jobId'') (j_jobId s), j_project := set_if_defined True (fld e ''project'') (j_project s),
     j_attempt := set_if_defined (\<not> terminal) (fld e ''attempt'') (j_attempt s),
     j_workflow := set_if_defined (\<not> terminal) (fld e ''workflow'') (j_workflow s),
     j_planMode := set_if_defined (\<not> terminal) (fld e ''planMode'') (j_planMode s),
     j_updatedAt := set_if_defined (\<not> terminal) (fld e ''ts'') (j_updatedAt s)\<rparr>"

definition handle_event :: "(string \<Rightarrow> jsnum) \<Rightarrow> js \<Rightarrow> job_state \<times> bool \<Rightarrow> (job_state \<times> bool) result" where
  "handle_event date e st = (case st of (s, terminal) \<Rightarrow>
     let s1 = envelope_fields terminal e s
     in if terminal \<and> startsWith (event_type e) ''dag_node_'' then Inr (s1, terminal)
        else (case map_of (EVENT_HANDLERS date) (event_type e) of None \<Rightarrow> Inr (s1, terminal) | Some h \<Rightarrow> h e terminal s1))"

definition materialize_step :: "(string \<Rightarrow> jsnum) \<Rightarrow> js \<Rightarrow> job_state \<times> bool \<Rightarrow> (job_state \<times> bool) result" where
  "materialize_step date e st = (if snd st \<and> \<not> post_terminal_allowed e then Inr st else handle_event date e st)"

definition materializeJob :: "(string \<Rightarrow> jsnum) \<Rightarrow> js list \<Rightarrow> job_state result" where
  "materializeJob date events = thn (fold_r (materialize_step date) events (initial_job_state, False)) (\<lambda>st. Inr (syncDagResume (fst st)))"

definition advanceMaterializedJob :: "(string \<Rightarrow> jsnum) \<Rightarrow> js \<Rightarrow> job_state \<Rightarrow> job_state result" where
  "advanceMaterializedJob date e s =
     (if terminal_status s \<and> \<not> post_terminal_allowed e then Inr s
      else thn (handle_event date e (s, terminal_status s)) (\<lambda>st. Inr (syncDagResume (fst st))))"

end
