(* ===== verification/JobLog.thy ===== *)
theory JobLog
  imports EventMaterializer
begin

text \<open>
  What the materialised state of a job is worth: which statuses it can have, what a terminal job
  keeps, and when advancing one event at a time gives the state of the whole log.
\<close>

section \<open>What the resume metadata does not influence\<close>

text \<open>\<^verbatim>\<open>completedNodes\<close> and \<^verbatim>\<open>dagResume\<close> are derived from the other fields; no handler's effect
  on the other fields depends on them.\<close>

definition with_resume :: "js list \<Rightarrow> dag_resume option \<Rightarrow> job_state \<Rightarrow> job_state" where
  "with_resume c d s = s\<lparr>j_completedNodes := c, j_dagResume := d\<rparr>"

definition mask :: "job_state \<Rightarrow> job_state" where
  "mask s = with_resume [] None s"

lemma mask_with_resume [simp]: "mask (with_resume c d s) = mask s"
  by (simp add: mask_def with_resume_def)

lemma mask_mask [simp]: "mask (mask s) = mask s"
  by (simp add: mask_def with_resume_def)

lemma with_resume_mask: "\<exists>c d. s = with_resume c d (mask s)"
  by (intro exI [of _ "j_completedNodes s"] exI [of _ "j_dagResume s"]) (simp add: mask_def with_resume_def)

lemma sync_mask: "syncDagResume (mask s) = syncDagResume s"
  by (simp add: syncDagResume_def Let_def mask_def with_resume_def phase_states_def)

lemma mask_sync [simp]: "mask (syncDagResume s) = mask s"
  by (simp add: syncDagResume_def Let_def mask_def with_resume_def)

lemma mask_status [simp]: "j_status (mask s) = j_status s"
  by (simp add: mask_def with_resume_def)

lemma terminal_mask: "mask s = mask s' \<Longrightarrow> terminal_status s = terminal_status s'"
  by (metis mask_status terminal_status_def)

definition blind :: "(job_state \<Rightarrow> job_state) \<Rightarrow> bool" where
  "blind f = (\<forall>c d s. mask (f (with_resume c d s)) = mask (f s))"

lemma update_node_resume:
  "updateNodeState date n u (with_resume c d s) = with_resume c d (updateNodeState date n u s)"
  by (simp add: updateNodeState_def with_resume_def Let_def)

lemma workflow_resume [simp]:
  "workflowNodes (with_resume c d s) = workflowNodes s" "workflowNodeIds (with_resume c d s) = workflowNodeIds s"
  "workflowHasNodeId (with_resume c d s) n = workflowHasNodeId s n"
  by (simp_all add: workflowNodes_def workflowNodeIds_def workflowHasNodeId_def with_resume_def)

lemma blind_update: "blind f \<Longrightarrow> blind (\<lambda>s. updateNodeState date n u (f s))"
  unfolding blind_def by (metis mask_with_resume update_node_resume with_resume_mask)

lemma add_pending_resume: "add_pending date node (with_resume c d s) = with_resume c d (add_pending date node s)"
proof -
  have "j_nodeStates (with_resume c d s) = j_nodeStates s" by (simp add: with_resume_def)
  then show ?thesis by (simp add: add_pending_def Let_def update_node_resume)
qed

lemma fold_pending_resume:
  "fold (add_pending date) nodes (with_resume c d s) = with_resume c d (fold (add_pending date) nodes s)"
  by (induction nodes arbitrary: s) (simp_all add: add_pending_resume)

text \<open>A function that neither reads nor writes them commutes with setting them.\<close>

definition transparent :: "(job_state \<Rightarrow> job_state) \<Rightarrow> bool" where
  "transparent f = (\<forall>c d s. f (with_resume c d s) = with_resume c d (f s))"

lemma transparent_blind: "transparent f \<Longrightarrow> blind f"
  by (simp add: transparent_def blind_def)

lemma blind_after: "transparent g \<Longrightarrow> blind f \<Longrightarrow> blind (\<lambda>s. f (g s))"
  by (simp add: transparent_def blind_def)

lemma blind_before: "transparent g \<Longrightarrow> blind f \<Longrightarrow> blind (\<lambda>s. g (f s))"
  unfolding transparent_def blind_def by (metis mask_with_resume with_resume_mask)

lemma transparent_Let: "(\<And>x. transparent (g x)) \<Longrightarrow> transparent (\<lambda>s. Let v (\<lambda>x. g x s))"
  by (simp add: transparent_def Let_def)

lemma transparent_if: "transparent f \<Longrightarrow> transparent g \<Longrightarrow> transparent (\<lambda>s. if b then f s else g s)"
  by (simp add: transparent_def)

lemma job_created_transparent: "transparent (on_job_created e)"
  by (simp add: transparent_def with_resume_def Let_def failure_fields_def on_job_created_def)

lemma plan_decision_transparent: "transparent (on_plan_decision e)"
  by (simp add: transparent_def with_resume_def Let_def failure_fields_def on_plan_decision_def)

lemma plan_cache_transparent: "transparent (on_plan_cache e)"
  by (simp add: transparent_def with_resume_def Let_def failure_fields_def on_plan_cache_def)

lemma riskmap_generated_transparent: "transparent (on_riskmap_generated e)"
  unfolding on_riskmap_generated_def [abs_def]
  by (intro transparent_Let transparent_if) (simp_all add: transparent_def with_resume_def)

lemma dynamic_agent_plan_transparent: "transparent (on_dynamic_agent_plan e)"
  by (simp add: transparent_def with_resume_def Let_def failure_fields_def on_dynamic_agent_plan_def)

lemma adversarial_verdict_transparent: "transparent (on_adversarial_verdict e)"
  by (simp add: transparent_def with_resume_def Let_def failure_fields_def on_adversarial_verdict_def)

lemma executor_routing_feedback_transparent: "transparent (on_executor_routing_feedback e)"
  by (simp add: transparent_def with_resume_def Let_def failure_fields_def on_executor_routing_feedback_def)

lemma agent_routing_result_transparent: "transparent (on_agent_routing_result e)"
  by (simp add: transparent_def with_resume_def Let_def failure_fields_def on_agent_routing_result_def)

lemma phase_started_transparent: "transparent (on_phase_started e)"
  by (simp add: transparent_def with_resume_def Let_def failure_fields_def on_phase_started_def)

lemma phase_failed_transparent: "transparent (on_phase_failed e)"
  by (simp add: transparent_def with_resume_def Let_def failure_fields_def on_phase_failed_def)

lemma budget_exceeded_transparent: "transparent (on_budget_exceeded e)"
  by (simp add: transparent_def with_resume_def Let_def failure_fields_def on_budget_exceeded_def)

lemma job_blocked_transparent: "transparent (on_job_blocked e)"
  by (simp add: transparent_def with_resume_def Let_def failure_fields_def on_job_blocked_def)

lemma job_failed_transparent: "transparent (on_job_failed e)"
  by (simp add: transparent_def with_resume_def Let_def failure_fields_def on_job_failed_def)

lemma pool_exhausted_transparent: "transparent (on_pool_exhausted e)"
  by (simp add: transparent_def with_resume_def Let_def failure_fields_def on_pool_exhausted_def)

lemma job_superseded_transparent: "transparent (on_job_superseded e)"
  by (simp add: transparent_def with_resume_def Let_def failure_fields_def on_job_superseded_def)

lemma approval_required_transparent: "transparent (on_approval_required e)"
  by (simp add: transparent_def with_resume_def Let_def failure_fields_def on_approval_required_def)

lemma job_approved_transparent: "transparent (on_job_approved e)"
  by (simp add: transparent_def with_resume_def Let_def failure_fields_def on_job_approved_def)

lemma approval_timed_out_transparent: "transparent (on_approval_timed_out e)"
  by (simp add: transparent_def with_resume_def Let_def failure_fields_def on_approval_timed_out_def)

lemma review_bundle_transparent: "transparent (on_review_bundle e)"
  by (simp add: transparent_def with_resume_def Let_def failure_fields_def on_review_bundle_def)

lemma job_completed_transparent: "transparent (on_job_completed e)"
  by (simp add: transparent_def with_resume_def Let_def failure_fields_def on_job_completed_def)

lemma pr_opened_transparent: "transparent (on_pr_opened e)"
  by (simp add: transparent_def with_resume_def Let_def failure_fields_def on_pr_opened_def)

lemma job_cancel_requested_transparent: "transparent (on_job_cancel_requested e)"
  by (simp add: transparent_def with_resume_def Let_def failure_fields_def on_job_cancel_requested_def)

lemma job_cancelled_transparent: "transparent (on_job_cancelled e)"
  by (simp add: transparent_def with_resume_def Let_def failure_fields_def on_job_cancelled_def)

lemma recovery_created_transparent: "transparent (on_recovery_created e)"
  by (simp add: transparent_def with_resume_def Let_def failure_fields_def on_recovery_created_def)

lemma permission_denied_transparent: "transparent (on_permission_denied e)"
  by (simp add: transparent_def with_resume_def Let_def failure_fields_def on_permission_denied_def)

lemma external_repair_transparent: "transparent (on_external_repair a b e)"
  by (simp add: transparent_def with_resume_def Let_def failure_fields_def on_external_repair_def)

lemma workflow_selected_transparent: "transparent (on_workflow_selected e)"
  by (simp add: transparent_def with_resume_def Let_def failure_fields_def on_workflow_selected_def)

lemma phase_activity_transparent: "transparent (on_phase_activity e)"
  by (simp add: transparent_def with_resume_def Let_def failure_fields_def on_phase_activity_def)

lemma external_remediation_transparent: "transparent (on_external_remediation v w e)"
  by (simp add: transparent_def with_resume_def Let_def failure_fields_def on_external_remediation_def)

lemma finalizer_result_transparent: "transparent (on_finalizer_result e)"
  by (simp add: transparent_def with_resume_def Let_def failure_fields_def on_finalizer_result_def)

lemma merge_index_status_transparent: "transparent (on_merge_index_status e)"
  by (simp add: transparent_def with_resume_def Let_def failure_fields_def on_merge_index_status_def)

lemma completion_gate_evaluated_transparent: "transparent (on_completion_gate_evaluated e)"
  by (simp add: transparent_def with_resume_def Let_def failure_fields_def on_completion_gate_evaluated_def)

lemma audit_finalized_transparent: "transparent (on_audit_finalized e)"
  by (simp add: transparent_def with_resume_def Let_def failure_fields_def on_audit_finalized_def)

lemma runtime_context_snapshot_transparent: "transparent (on_runtime_context_snapshot e)"
  by (simp add: transparent_def with_resume_def Let_def failure_fields_def on_runtime_context_snapshot_def)

lemma runtime_failure_recorded_transparent: "transparent (on_runtime_failure_recorded e)"
  by (simp add: transparent_def with_resume_def Let_def failure_fields_def on_runtime_failure_recorded_def)

lemma agent_routing_decision_transparent: "transparent (on_agent_routing_decision e)"
  unfolding on_agent_routing_decision_def [abs_def]
  by (intro transparent_Let transparent_if) (simp_all add: transparent_def with_resume_def)

lemma job_redirect_requested_transparent: "transparent (on_job_redirect_requested e t)"
  by (simp add: transparent_def with_resume_def Let_def failure_fields_def on_job_redirect_requested_def)

lemma job_redirect_consumed_transparent: "transparent (on_job_redirect_consumed e)"
  by (simp add: transparent_def with_resume_def Let_def failure_fields_def on_job_redirect_consumed_def)

lemma artifact_created_transparent: "transparent (on_artifact_created e)"
  unfolding on_artifact_created_def [abs_def]
  by (intro transparent_Let transparent_if) (simp_all add: transparent_def with_resume_def)

lemmas handlers_transparent =
  job_created_transparent plan_decision_transparent plan_cache_transparent riskmap_generated_transparent
  dynamic_agent_plan_transparent adversarial_verdict_transparent executor_routing_feedback_transparent agent_routing_result_transparent
  phase_started_transparent phase_failed_transparent budget_exceeded_transparent job_blocked_transparent
  job_failed_transparent pool_exhausted_transparent job_superseded_transparent approval_required_transparent
  job_approved_transparent approval_timed_out_transparent review_bundle_transparent job_completed_transparent
  pr_opened_transparent job_cancel_requested_transparent job_cancelled_transparent recovery_created_transparent
  permission_denied_transparent external_repair_transparent workflow_selected_transparent phase_activity_transparent
  external_remediation_transparent finalizer_result_transparent merge_index_status_transparent completion_gate_evaluated_transparent
  audit_finalized_transparent runtime_context_snapshot_transparent runtime_failure_recorded_transparent agent_routing_decision_transparent
  job_redirect_requested_transparent job_redirect_consumed_transparent artifact_created_transparent

lemma dag_handlers_blind:
  "blind (on_dag_node_started date e)" "blind (on_dag_node_completed date e)" "blind (on_dag_node_failed date e)"
  "blind (on_dag_node_blocked date e)" "blind (on_dag_node_retrying date e)" "blind (on_dag_node_skipped date e)"
  "blind (on_dag_node_cancelled date e)"
  unfolding on_dag_node_started_def on_dag_node_completed_def on_dag_node_failed_def on_dag_node_blocked_def
    on_dag_node_retrying_def on_dag_node_skipped_def on_dag_node_cancelled_def Let_def
  by (rule blind_update, simp add: blind_def mask_def with_resume_def)+

lemma dag_materialized_blind: "blind (on_workflow_dag_materialized date e)"
proof -
  have "on_workflow_dag_materialized date e (with_resume c d s) =
      with_resume (filter (\<lambda>i. i \<in> set (workflowNodeIds (adopt_dag e s))) c) d (on_workflow_dag_materialized date e s)" for c d s
  proof -
    have "adopt_dag e (with_resume c d s) = with_resume c d (adopt_dag e s)"
      by (simp add: adopt_dag_def with_resume_def Let_def)
    moreover have "prune_nodes (with_resume c d s') = with_resume (filter (\<lambda>i. i \<in> set (workflowNodeIds s')) c) d (prune_nodes s')" for s'
      unfolding prune_nodes_def workflow_resume Let_def by (simp add: with_resume_def)
    ultimately show ?thesis by (simp add: on_workflow_dag_materialized_def Let_def fold_pending_resume)
  qed
  then show ?thesis by (simp add: blind_def)
qed

lemma complete_phase_blind: "blind (complete_phase_node date e)"
  unfolding blind_def
proof (intro allI)
  fix c d s
  let ?p = "fld e ''phase''"
  have dag: "j_workflowDag (with_resume c d s) = j_workflowDag s" by (simp add: with_resume_def)
  have app: "mask (s'\<lparr>j_completedNodes := x\<rparr>) = mask s'" for s' x by (simp add: mask_def with_resume_def)
  have pre: "(with_resume c d s)\<lparr>j_runningNodes := r, j_completedNodes := x\<rparr>
      = with_resume x d (s\<lparr>j_runningNodes := r, j_completedNodes := y\<rparr>)" for r x y
    by (simp add: with_resume_def)
  have run: "j_runningNodes (with_resume c d s) = j_runningNodes s" by (simp add: with_resume_def)
  show "mask (complete_phase_node date e (with_resume c d s)) = mask (complete_phase_node date e s)"
  proof (cases "truthy (j_workflowDag s)")
    case True
    then show ?thesis
      unfolding complete_phase_node_def Let_def dag workflow_resume run pre [where y = "add_new ?p (j_completedNodes s)"] update_node_resume
      by simp
  next
    case False
    then have "\<not> workflowHasNodeId s ?p"
      by (cases "j_workflowDag s") (simp_all add: workflowHasNodeId_def workflowNodeIds_def workflowNodes_def recordArray_def)
    with False show ?thesis
      unfolding complete_phase_node_def Let_def dag workflow_resume
      by (simp add: app)
  qed
qed

lemma phase_completed_blind: "blind (on_phase_completed date e)"
proof -
  let ?p = "fld e ''phase''"
  define enter where "enter = (\<lambda>s :: job_state. s\<lparr>j_phase := dflt e ''phase'' (j_phase s), j_leaseId := JNull, j_status := JStr ''running''\<rparr>)"
  define mark where "mark = (\<lambda>s :: job_state. s\<lparr>j_runningNodes := without ?p (j_runningNodes s), j_completedPhases := add_new ?p (j_completedPhases s)\<rparr>)"
  define store where "store = (\<lambda>s :: job_state. s\<lparr>j_artifacts := obj_set (to_str ?p) (fld e ''artifact'') (j_artifacts s)\<rparr>)"
  have t: "transparent enter" "transparent mark" "transparent store"
    by (simp_all add: transparent_def with_resume_def enter_def mark_def store_def)
  have "transparent (\<lambda>s. s)" by (simp add: transparent_def)
  note id = blind_after [OF t(1) transparent_blind [OF this]]
  note mid = blind_after [OF t(1) blind_after [OF t(2) complete_phase_blind [of date e]]]
  have "on_phase_completed date e = (if ?p = JUndef then enter
     else if fld e ''artifact'' = JUndef then (\<lambda>s. complete_phase_node date e (mark (enter s)))
     else (\<lambda>s. store (complete_phase_node date e (mark (enter s)))))"
    by (rule ext) (simp add: on_phase_completed_def Let_def enter_def mark_def store_def)
  then show ?thesis using id mid blind_before [OF t(3) mid] by simp
qed

lemmas handlers_blind = handlers_transparent [THEN transparent_blind] dag_handlers_blind dag_materialized_blind phase_completed_blind

end
