(* ===== verification/JobStatus.thy ===== *)
theory JobStatus
  imports EventMaterializer
begin

text \<open>
  The status of a job and the flag \<^verbatim>\<open>ctx.terminal\<close>: what every handler does to them, said once in a
  table (\<open>STATUS_EFFECTS\<close>) and proved of every handler (\<open>handlers_follow\<close>). From it: the statuses
  there are, what a terminal job keeps, and when the flag says whether the status is terminal.
\<close>

section \<open>The effect of the handlers\<close>

text \<open>The status that an event sets, and the flag when it sets it; \<^verbatim>\<open>job_approved\<close>, whose status
  depends on the approval, is not in the table.\<close>

definition STATUS_EFFECTS :: "(string \<times> string \<times> bool option) list" where
  "STATUS_EFFECTS = [(''job_created'', ''running'', Some False), (''phase_started'', ''running'', None),
     (''phase_completed'', ''running'', None), (''phase_failed'', ''failed'', Some True), (''budget_exceeded'', ''blocked'', Some True),
     (''job_blocked'', ''blocked'', Some True), (''job_failed'', ''failed'', Some True), (''pool_exhausted'', ''failed'', Some True),
     (''job_superseded'', ''superseded'', Some True), (''approval_required'', ''waiting.approval'', None),
     (''approval_timed_out'', ''blocked'', Some True), (''job_completed'', ''completed'', Some True),
     (''job_cancelled'', ''cancelled'', Some True), (''job_retried'', ''running'', Some False)]"

definition approved_status :: "job_state \<Rightarrow> string" where
  "approved_status s = (if fld (j_approval s) ''operation'' = JStr ''PR'' then ''completed'' else ''running'')"

definition effect_ok :: "string \<Rightarrow> bool \<Rightarrow> job_state \<Rightarrow> job_state \<times> bool \<Rightarrow> bool" where
  "effect_ok k t s st = (case map_of STATUS_EFFECTS k of
       Some (v, b) \<Rightarrow> j_status (fst st) = JStr v \<and> snd st = (case b of None \<Rightarrow> t | Some b \<Rightarrow> b)
     | None \<Rightarrow> snd st = t \<and> j_status (fst st) = (if k = ''job_approved'' then JStr (approved_status s) else j_status s))"

definition follows :: "string \<times> handler \<Rightarrow> bool" where
  "follows kh = (\<forall>e t s st. snd kh e t s = Inr st \<longrightarrow> effect_ok (fst kh) t s st)"

lemma update_node_status [simp]: "j_status (updateNodeState date n u s) = j_status s"
  by (simp add: updateNodeState_def Let_def)

lemma add_pending_status: "j_status (fold (add_pending date) nodes s) = j_status s"
  by (induction nodes arbitrary: s) (simp_all add: add_pending_def Let_def)

lemma dag_materialized_status [simp]: "j_status (on_workflow_dag_materialized date e s) = j_status s"
  by (simp add: on_workflow_dag_materialized_def Let_def add_pending_status prune_nodes_def adopt_dag_def)

lemma dag_node_status [simp]:
  "j_status (on_dag_node_started date e s) = j_status s" "j_status (on_dag_node_completed date e s) = j_status s"
  "j_status (on_dag_node_failed date e s) = j_status s" "j_status (on_dag_node_blocked date e s) = j_status s"
  "j_status (on_dag_node_retrying date e s) = j_status s" "j_status (on_dag_node_skipped date e s) = j_status s"
  "j_status (on_dag_node_cancelled date e s) = j_status s"
  by (simp_all add: on_dag_node_started_def on_dag_node_completed_def on_dag_node_failed_def on_dag_node_blocked_def
      on_dag_node_retrying_def on_dag_node_skipped_def on_dag_node_cancelled_def Let_def)

lemma phase_completed_status [simp]: "j_status (on_phase_completed date e s) = JStr ''running''"
  by (simp add: on_phase_completed_def complete_phase_node_def Let_def)

lemma plan_status [simp]:
  "j_status (on_plan_decision e s) = j_status s" "j_status (on_plan_cache e s) = j_status s"
  "j_status (on_riskmap_generated e s) = j_status s" "j_status (on_dynamic_agent_plan e s) = j_status s"
  "j_status (on_adversarial_verdict e s) = j_status s" "j_status (on_executor_routing_feedback e s) = j_status s"
  "j_status (on_agent_routing_decision e s) = j_status s" "j_status (on_agent_routing_result e s) = j_status s"
  by (simp_all add: on_plan_decision_def on_plan_cache_def on_riskmap_generated_def on_dynamic_agent_plan_def
      on_adversarial_verdict_def on_executor_routing_feedback_def on_agent_routing_decision_def on_agent_routing_result_def Let_def)

lemma review_status [simp]:
  "j_status (on_review_bundle e s) = j_status s" "j_status (on_pr_opened e s) = j_status s"
  "j_status (on_job_cancel_requested e s) = j_status s" "j_status (on_recovery_created e s) = j_status s"
  "j_status (on_permission_denied e s) = j_status s" "j_status (on_external_repair a b e s) = j_status s"
  "j_status (on_job_redirect_requested e t s) = j_status s" "j_status (on_job_redirect_consumed e s) = j_status s"
  "j_status (on_workflow_selected e s) = j_status s" "j_status (on_phase_activity e s) = j_status s"
  by (simp_all add: on_review_bundle_def on_pr_opened_def on_job_cancel_requested_def on_recovery_created_def on_permission_denied_def
      on_external_repair_def on_job_redirect_requested_def on_job_redirect_consumed_def on_workflow_selected_def on_phase_activity_def Let_def)

lemma record_status [simp]:
  "j_status (on_external_remediation v w e s) = j_status s" "j_status (on_finalizer_result e s) = j_status s"
  "j_status (on_merge_index_status e s) = j_status s" "j_status (on_completion_gate_evaluated e s) = j_status s"
  "j_status (on_artifact_created e s) = j_status s" "j_status (on_audit_finalized e s) = j_status s"
  "j_status (on_runtime_context_snapshot e s) = j_status s" "j_status (on_runtime_failure_recorded e s) = j_status s"
  by (simp_all add: on_external_remediation_def on_finalizer_result_def on_merge_index_status_def on_completion_gate_evaluated_def
      on_artifact_created_def on_audit_finalized_def on_runtime_context_snapshot_def on_runtime_failure_recorded_def Let_def)

lemma worktree_status: "on_worktree_created e s = Inr s' \<Longrightarrow> j_status s' = j_status s"
  by (auto simp: on_worktree_created_def Let_def thn_eq_Inr split: if_splits)

lemma set_status [simp]:
  "j_status (on_job_created e s) = JStr ''running''" "j_status (on_phase_started e s) = JStr ''running''"
  "j_status (on_phase_failed e s) = JStr ''failed''" "j_status (on_budget_exceeded e s) = JStr ''blocked''"
  "j_status (on_job_blocked e s) = JStr ''blocked''" "j_status (on_job_failed e s) = JStr ''failed''"
  "j_status (on_pool_exhausted e s) = JStr ''failed''" "j_status (on_job_superseded e s) = JStr ''superseded''"
  "j_status (on_approval_required e s) = JStr ''waiting.approval''" "j_status (on_approval_timed_out e s) = JStr ''blocked''"
  "j_status (on_job_completed e s) = JStr ''completed''" "j_status (on_job_cancelled e s) = JStr ''cancelled''"
  "j_status (on_job_approved e s) = JStr (approved_status s)"
  by (simp_all add: on_job_created_def on_phase_started_def on_phase_failed_def failure_fields_def on_budget_exceeded_def
      on_job_blocked_def on_job_failed_def on_pool_exhausted_def on_job_superseded_def on_approval_required_def
      on_approval_timed_out_def on_job_completed_def on_job_cancelled_def on_job_approved_def approved_status_def Let_def)

lemma retried_status: "on_job_retried e s = Inr s' \<Longrightarrow> j_status s' = JStr ''running''"
  by (auto simp: on_job_retried_def thn_eq_Inr)

lemma handlers_follow: "list_all follows (EVENT_HANDLERS date)"
  unfolding EVENT_HANDLERS_def keeps_def stops_def
  by (simp add: follows_def effect_ok_def STATUS_EFFECTS_def thn_eq_Inr worktree_status) (blast intro: retried_status)

section \<open>The effect of an event\<close>

lemma envelope_kept [simp]:
  "j_status (envelope_fields t e s) = j_status s" "j_approval (envelope_fields t e s) = j_approval s"
  by (simp_all add: envelope_fields_def)

lemma approved_envelope [simp]: "approved_status (envelope_fields t e s) = approved_status s"
  by (simp add: approved_status_def)

lemma effect_envelope: "effect_ok k t (envelope_fields t' e s) st = effect_ok k t s st"
  by (simp only: effect_ok_def approved_envelope envelope_kept)

text \<open>An event has the effect of its handler, or none on the status and the flag.\<close>

lemma handle_effect:
  assumes "handle_event date e (s, t) = Inr st"
  shows "effect_ok (event_type e) t s st \<or> snd st = t \<and> j_status (fst st) = j_status s"
proof (cases "map_of (EVENT_HANDLERS date) (event_type e)")
  case None
  with assms show ?thesis by (auto simp: handle_event_def Let_def split: if_splits)
next
  case (Some h)
  show ?thesis
  proof (cases "t \<and> startsWith (event_type e) ''dag_node_''")
    case True
    with assms show ?thesis by (auto simp: handle_event_def Let_def)
  next
    case False
    with assms Some have "h e t (envelope_fields t e s) = Inr st" by (simp add: handle_event_def Let_def)
    moreover have "follows (event_type e, h)" using handlers_follow map_of_SomeD [OF Some] by (auto simp: list_all_iff)
    ultimately have "effect_ok (event_type e) t (envelope_fields t e s) st" unfolding follows_def fst_conv snd_conv by blast
    then show ?thesis unfolding effect_envelope ..
  qed
qed

definition JOB_STATUSES :: "string list" where
  "JOB_STATUSES = [''running'', ''waiting.approval''] @ TERMINAL_STATUSES"

definition known_status :: "job_state \<Rightarrow> bool" where
  "known_status s = (j_status s = JNull \<or> j_status s \<in> JStr ` set JOB_STATUSES)"

lemma effect_values:
  assumes "map_of STATUS_EFFECTS k = Some (v, b)"
  shows "v \<in> set JOB_STATUSES" "b = Some True \<Longrightarrow> v \<in> set TERMINAL_STATUSES" "b = Some False \<Longrightarrow> v \<notin> set TERMINAL_STATUSES"
    "b = None \<Longrightarrow> v \<notin> set TERMINAL_STATUSES"
proof -
  have "list_all (\<lambda>(k, v, b). v \<in> set JOB_STATUSES \<and> (b = Some True \<longrightarrow> v \<in> set TERMINAL_STATUSES)
      \<and> (b \<noteq> Some True \<longrightarrow> v \<notin> set TERMINAL_STATUSES)) STATUS_EFFECTS" by code_simp
  with map_of_SomeD [OF assms] have "v \<in> set JOB_STATUSES \<and> (b = Some True \<longrightarrow> v \<in> set TERMINAL_STATUSES)
      \<and> (b \<noteq> Some True \<longrightarrow> v \<notin> set TERMINAL_STATUSES)" unfolding list_all_iff by fast
  then show "v \<in> set JOB_STATUSES" "b = Some True \<Longrightarrow> v \<in> set TERMINAL_STATUSES" "b = Some False \<Longrightarrow> v \<notin> set TERMINAL_STATUSES"
    "b = None \<Longrightarrow> v \<notin> set TERMINAL_STATUSES" by simp_all
qed

lemma approved_known: "approved_status s \<in> set JOB_STATUSES"
proof -
  have "''completed'' \<in> set JOB_STATUSES" "''running'' \<in> set JOB_STATUSES" by code_simp+
  then show ?thesis by (simp only: approved_status_def split: if_split) blast
qed

lemma handle_known:
  assumes "known_status s" "handle_event date e (s, t) = Inr st"
  shows "known_status (fst st)"
  using handle_effect [OF assms(2)]
proof
  assume eff: "effect_ok (event_type e) t s st"
  show ?thesis
  proof (cases "map_of STATUS_EFFECTS (event_type e)")
    case None
    with eff assms(1) approved_known [of s] show ?thesis by (auto simp: effect_ok_def known_status_def)
  next
    case (Some vb)
    with eff effect_values(1) show ?thesis by (cases vb) (auto simp: effect_ok_def known_status_def)
  qed
next
  assume "snd st = t \<and> j_status (fst st) = j_status s"
  with assms(1) show ?thesis by (simp add: known_status_def)
qed

lemma sync_status [simp]: "j_status (syncDagResume s) = j_status s"
  by (simp add: syncDagResume_def Let_def)

lemma fold_known:
  "fold_r (materialize_step date) es st = Inr st' \<Longrightarrow> known_status (fst st) \<Longrightarrow> known_status (fst st')"
proof (induction es arbitrary: st)
  case (Cons e es)
  then obtain st1 where st1: "materialize_step date e st = Inr st1" "fold_r (materialize_step date) es st1 = Inr st'"
    by (auto simp: thn_eq_Inr)
  have "known_status (fst st1)"
    using st1(1) Cons.prems(2) handle_known [of "fst st" date e "snd st" st1] by (auto simp: materialize_step_def split: if_splits)
  with Cons.IH [OF st1(2)] show ?case by simp
qed simp

section \<open>The flag and the status\<close>

text \<open>The flag agrees with the status until an approval event comes after the end, or approves a
  pull request.\<close>

definition agrees :: "job_state \<times> bool \<Rightarrow> bool" where
  "agrees st = (snd st = terminal_status (fst st))"

definition calm :: "js \<Rightarrow> job_state \<times> bool \<Rightarrow> bool" where
  "calm e st = ((event_type e = ''approval_required'' \<longrightarrow> \<not> snd st)
     \<and> (event_type e = ''job_approved'' \<longrightarrow> \<not> snd st \<and> fld (j_approval (fst st)) ''operation'' \<noteq> JStr ''PR''))"

lemma allowed_type: "post_terminal_allowed e \<Longrightarrow> event_type e \<in> set POST_TERMINAL_ALLOWED"
  unfolding post_terminal_allowed_def event_type_def by (elim imageE) simp

lemma keeps_flag:
  assumes "map_of STATUS_EFFECTS k = Some (v, None)"
  shows "k = ''approval_required'' \<or> k \<notin> set POST_TERMINAL_ALLOWED"
proof -
  have "list_all (\<lambda>(k, v, b). b = None \<longrightarrow> k = ''approval_required'' \<or> k \<notin> set POST_TERMINAL_ALLOWED) STATUS_EFFECTS"
    by code_simp
  with map_of_SomeD [OF assms] show ?thesis unfolding list_all_iff by fast
qed

lemma step_agrees:
  assumes "agrees st" "calm e st" "materialize_step date e st = Inr st'"
  shows "agrees st'"
proof (cases "snd st \<and> \<not> post_terminal_allowed e")
  case True
  with assms(1,3) show ?thesis by (simp add: materialize_step_def)
next
  case False
  obtain s t where st: "st = (s, t)" by (cases st)
  from assms(3) have h: "handle_event date e (s, t) = Inr st'" unfolding materialize_step_def st if_not_P [OF False [unfolded st]] .
  from handle_effect [OF h] show ?thesis
  proof
    assume eff: "effect_ok (event_type e) t s st'"
    show ?thesis
    proof (cases "map_of STATUS_EFFECTS (event_type e)")
      case None
      show ?thesis
      proof (cases "event_type e = ''job_approved''")
        case True
        with eff None assms(1,2) st show ?thesis
          by (simp add: effect_ok_def agrees_def calm_def terminal_status_def approved_status_def TERMINAL_STATUSES_def image_iff)
      next
        case False
        with eff None assms(1) st show ?thesis by (simp add: effect_ok_def agrees_def terminal_status_def)
      qed
    next
      case (Some vb)
      obtain v b where vb: "vb = (v, b)" by (cases vb)
      note ev = effect_values [OF Some [unfolded vb]]
      show ?thesis
      proof (cases b)
        case None
        have "\<not> t"
        proof
          assume t: "t"
          with False st have "event_type e \<in> set POST_TERMINAL_ALLOWED" by (simp add: allowed_type)
          with keeps_flag [OF Some [unfolded vb None]] assms(2) st t show False by (simp add: calm_def)
        qed
        with None eff ev(4) Some vb show ?thesis by (auto simp: effect_ok_def agrees_def terminal_status_def st)
      next
        case (Some b')
        with ev eff \<open>map_of STATUS_EFFECTS (event_type e) = Some vb\<close> vb show ?thesis
          by (cases b') (auto simp: effect_ok_def agrees_def terminal_status_def)
      qed
    qed
  next
    assume "snd st' = t \<and> j_status (fst st') = j_status s"
    with assms(1) st show ?thesis by (simp add: agrees_def terminal_status_def)
  qed
qed

end
