(* ===== verification/JobProperties.thy ===== *)
theory JobProperties
  imports JobLog JobStatus
begin

text \<open>
  Properties of the job state: which statuses there are, what a job that has ended keeps, and that
  advancing a stored state by an event gives the state of the longer log.
\<close>

section \<open>One event at a time\<close>

text \<open>Results that agree but for the resume metadata, which \<open>syncDagResume\<close> computes anew.\<close>

definition same_but_resume :: "(job_state \<times> bool) result \<Rightarrow> (job_state \<times> bool) result \<Rightarrow> bool" where
  "same_but_resume a b = (map_sum id (map_prod mask id) a = map_sum id (map_prod mask id) b)"

definition blind_handler :: "handler \<Rightarrow> bool" where
  "blind_handler h = (\<forall>e t c d s. same_but_resume (h e t (with_resume c d s)) (h e t s))"

lemma keeps_blind: "(\<And>e. blind (f e)) \<Longrightarrow> blind_handler (keeps f)"
  by (simp add: blind_handler_def same_but_resume_def keeps_def blind_def)

lemma stops_blind: "(\<And>e. blind (f e)) \<Longrightarrow> blind_handler (stops f)"
  by (simp add: blind_handler_def same_but_resume_def stops_def blind_def)

lemma created_blind: "blind_handler (\<lambda>e t s. Inr (on_job_created e s, False))"
  using job_created_transparent [THEN transparent_blind] by (simp add: blind_handler_def same_but_resume_def blind_def)

lemma redirect_blind: "blind_handler (\<lambda>e t s. Inr (on_job_redirect_requested e t s, t))"
  using job_redirect_requested_transparent [THEN transparent_blind]
  by (simp add: blind_handler_def same_but_resume_def blind_def)

lemma worktree_blind: "blind_handler (\<lambda>e t s. thn (on_worktree_created e s) (\<lambda>s'. Inr (s', t)))"
proof -
  have "same_but_resume (thn (on_worktree_created e (with_resume c d s)) (\<lambda>s'. Inr (s', t))) (thn (on_worktree_created e s) (\<lambda>s'. Inr (s', t)))"
    for e t c d s
    by (cases "parseWorktreeOwnership False (fld e ''worktreeOwnership'')")
      (simp_all add: same_but_resume_def on_worktree_created_def Let_def mask_def with_resume_def)
  then show ?thesis by (simp add: blind_handler_def)
qed

lemma retried_blind: "blind_handler (\<lambda>e t s. thn (on_job_retried e s) (\<lambda>s'. Inr (s', False)))"
proof -
  have "same_but_resume (thn (on_job_retried e (with_resume c d s)) (\<lambda>s'. Inr (s', False))) (thn (on_job_retried e s) (\<lambda>s'. Inr (s', False)))"
    for e c d s
    by (cases "iterate (dflt e ''clearArtifacts'' (JArr []))")
      (simp_all add: same_but_resume_def on_job_retried_def mask_def with_resume_def)
  then show ?thesis by (simp add: blind_handler_def)
qed

lemma table_blind: "list_all (\<lambda>(k, h). blind_handler h) (EVENT_HANDLERS date)"
  unfolding EVENT_HANDLERS_def list.pred_inject prod.case
  by (intro conjI TrueI list.pred_inject(1) keeps_blind stops_blind created_blind redirect_blind worktree_blind retried_blind handlers_blind)

lemma envelope_resume: "envelope_fields t e (with_resume c d s) = with_resume c d (envelope_fields t e s)"
  by (simp add: envelope_fields_def with_resume_def)

lemma handle_blind: "same_but_resume (handle_event date e (with_resume c d s, t)) (handle_event date e (s, t))"
proof (cases "t \<and> startsWith (event_type e) ''dag_node_''")
  case True
  then show ?thesis by (simp add: handle_event_def Let_def same_but_resume_def envelope_resume)
next
  case False
  show ?thesis
  proof (cases "map_of (EVENT_HANDLERS date) (event_type e)")
    case None
    with False show ?thesis by (simp add: handle_event_def Let_def same_but_resume_def envelope_resume)
  next
    case (Some h)
    with table_blind [of date] have "blind_handler h" by (auto simp: list_all_iff dest: map_of_SomeD)
    then show ?thesis unfolding handle_event_def Let_def prod.case if_not_P [OF False] Some option.case envelope_resume
      by (simp add: blind_handler_def)
  qed
qed

text \<open>Synchronising in between does not change what the event does.\<close>

lemma handle_sync: "same_but_resume (handle_event date e (syncDagResume s, t)) (handle_event date e (s, t))"
proof -
  have "syncDagResume s = with_resume (j_completedNodes (syncDagResume s)) (j_dagResume (syncDagResume s)) s"
    by (simp add: syncDagResume_def Let_def with_resume_def)
  then show ?thesis using handle_blind by metis
qed

lemma sync_results:
  assumes "same_but_resume a b"
  shows "thn a (\<lambda>st. Inr (syncDagResume (fst st))) = thn b (\<lambda>st. Inr (syncDagResume (fst st)) :: job_state result)"
proof -
  have m: "syncDagResume s = syncDagResume s'" if "mask s = mask s'" for s s'
    using sync_mask [of s] sync_mask [of s'] that by simp
  from assms show ?thesis
    by (cases a; cases b) (auto simp: same_but_resume_def intro!: m)
qed

lemma sync_sync [simp]: "syncDagResume (syncDagResume s) = syncDagResume s"
  using sync_mask [of "syncDagResume s"] sync_mask [of s] by simp

text \<open>A view of an event log: \<open>run\<close> takes an event, \<open>finish\<close> derives what readers see, and an event
  that is not \<open>allowed\<close> is dropped when \<open>ended\<close> says so. Finishing keeps \<open>ended\<close> and does not change
  what the next event does.\<close>

locale log_view =
  fixes run :: "'e \<Rightarrow> 's \<times> bool \<Rightarrow> 'x + 's \<times> bool" and finish :: "'s \<Rightarrow> 's"
    and ended :: "'s \<Rightarrow> bool" and allowed :: "'e \<Rightarrow> bool"
  assumes finish_ended: "ended (finish s) = ended s"
    and finish_run: "thn (run e (finish s, t)) (\<lambda>st. Inr (finish (fst st))) = thn (run e (s, t)) (\<lambda>st. Inr (finish (fst st)))"
    and finish_finish: "finish (finish s) = finish s"
begin

definition step :: "'e \<Rightarrow> 's \<times> bool \<Rightarrow> 'x + 's \<times> bool" where
  "step e st = (if snd st \<and> \<not> allowed e then Inr st else run e st)"

definition view :: "'e list \<Rightarrow> 's \<times> bool \<Rightarrow> 'x + 's" where
  "view es st = thn (fold_r step es st) (\<lambda>st. Inr (finish (fst st)))"

definition advance :: "'e \<Rightarrow> 's \<Rightarrow> 'x + 's" where
  "advance e s = (if ended s \<and> \<not> allowed e then Inr s else thn (run e (s, ended s)) (\<lambda>st. Inr (finish (fst st))))"

lemma view_append:
  assumes "\<And>st. fold_r step es st0 = Inr st \<Longrightarrow> snd st = ended (fst st)"
  shows "view (es @ [e]) st0 = thn (view es st0) (advance e)"
proof (cases "fold_r step es st0")
  case (Inl x)
  then show ?thesis by (simp add: view_def fold_r_append)
next
  case (Inr st)
  with assms obtain s where st: "st = (s, ended s)" by (cases st) auto
  show ?thesis
  proof (cases "ended s \<and> \<not> allowed e")
    case True
    then show ?thesis by (simp add: view_def fold_r_append Inr st step_def advance_def finish_ended)
  next
    case False
    have "view (es @ [e]) st0 = thn (run e (s, ended s)) (\<lambda>st. Inr (finish (fst st)))"
      using False by (auto simp: view_def fold_r_append Inr st step_def thn_def split: sum.splits)
    also have "\<dots> = thn (run e (finish s, ended s)) (\<lambda>st. Inr (finish (fst st)))" by (rule finish_run [symmetric])
    also have "\<dots> = thn (view es st0) (advance e)"
      by (simp add: view_def Inr st advance_def finish_ended if_not_P [OF False] del: de_Morgan_conj)
    finally show ?thesis .
  qed
qed

lemma view_again: "view es st0 = Inr s \<Longrightarrow> finish s = s"
  by (auto simp: view_def thn_eq_Inr finish_finish)

end

interpretation job_view: log_view "handle_event date" syncDagResume terminal_status post_terminal_allowed
  by unfold_locales (simp_all add: terminal_status_def sync_results [OF handle_sync])

lemma job_view_step: "job_view.step date = materialize_step date"
  by (intro ext) (simp add: job_view.step_def materialize_step_def)

lemma job_view_materialize: "job_view.view date es (initial_job_state, False) = materializeJob date es"
  by (simp add: job_view.view_def materializeJob_def job_view_step)

lemma job_view_advance: "job_view.advance date = advanceMaterializedJob date"
  by (intro ext) (simp add: job_view.advance_def advanceMaterializedJob_def)

text \<open>A log whose approval events come before its end, and approve no pull request.\<close>

fun calm_log :: "(string \<Rightarrow> jsnum) \<Rightarrow> js list \<Rightarrow> job_state \<times> bool \<Rightarrow> bool" where
  "calm_log date [] st = True"
| "calm_log date (e # es) st = (calm e st \<and> (case materialize_step date e st of Inl _ \<Rightarrow> True | Inr st' \<Rightarrow> calm_log date es st'))"

lemma calm_agrees:
  "fold_r (materialize_step date) es st = Inr st' \<Longrightarrow> calm_log date es st \<Longrightarrow> agrees st \<Longrightarrow> agrees st'"
proof (induction es arbitrary: st)
  case (Cons e es)
  then obtain st1 where st1: "materialize_step date e st = Inr st1" "fold_r (materialize_step date) es st1 = Inr st'"
    by (auto simp: thn_eq_Inr)
  with Cons.prems have "calm e st" "calm_log date es st1" "agrees st" by simp_all
  with Cons.IH [OF st1(2)] st1(1) step_agrees show ?case by blast
qed simp

lemma initial_agrees: "agrees (initial_job_state, False)"
  by (simp add: agrees_def terminal_status_def initial_job_state_def image_iff)

section \<open>After the end\<close>

text \<open>The events that set the status of a job that has ended.\<close>

definition REOPENING :: "string list" where
  "REOPENING = [''approval_required'', ''job_approved'', ''approval_timed_out'', ''job_superseded'']"

lemma allowed_effect:
  assumes "k \<in> set POST_TERMINAL_ALLOWED" "k \<notin> set REOPENING"
  shows "map_of STATUS_EFFECTS k = None" "k \<noteq> ''job_approved''"
proof -
  have "list_all (\<lambda>k. k \<in> set REOPENING \<or> map_of STATUS_EFFECTS k = None \<and> k \<noteq> ''job_approved'') POST_TERMINAL_ALLOWED" by code_simp
  with assms show "map_of STATUS_EFFECTS k = None" "k \<noteq> ''job_approved''" unfolding list_all_iff by blast+
qed

lemma terminal_step:
  assumes "materialize_step date e (s, True) = Inr st" "event_type e \<notin> set REOPENING"
  shows "snd st \<and> j_status (fst st) = j_status s"
proof (cases "post_terminal_allowed e")
  case False
  with assms(1) show ?thesis by (auto simp: materialize_step_def)
next
  case True
  then have h: "handle_event date e (s, True) = Inr st" using assms(1) by (simp add: materialize_step_def)
  note none = allowed_effect [OF allowed_type [OF True] assms(2)]
  from handle_effect [OF h] none show ?thesis by (auto simp: effect_ok_def)
qed

lemma terminal_fold:
  "fold_r (materialize_step date) es (s, True) = Inr st \<Longrightarrow> \<forall>e \<in> set es. event_type e \<notin> set REOPENING \<Longrightarrow>
   snd st \<and> j_status (fst st) = j_status s"
proof (induction es arbitrary: s)
  case (Cons e es)
  then obtain s1 t1 where st1: "materialize_step date e (s, True) = Inr (s1, t1)" "fold_r (materialize_step date) es (s1, t1) = Inr st"
    by (auto simp: thn_eq_Inr)
  with terminal_step [OF st1(1)] Cons.prems(2) have "t1" "j_status s1 = j_status s" by auto
  with Cons.IH [of s1] st1(2) Cons.prems(2) show ?case by simp
qed auto

section \<open>Examples\<close>

definition job_event :: "string \<Rightarrow> js" where
  "job_event k = JObj [(''type'', JStr k)]"

abbreviation log_of :: "string list \<Rightarrow> js list" where
  "log_of ks \<equiv> map job_event ks"

section \<open>Properties\<close>

text \<open>C5: one pass over the log and one event at a time agree: for a log whose approval events come
  before its end and approve no pull request, the state of the log with an event appended is the
  state of the log advanced by the event, errors included.\<close>

theorem advance_is_append:
  assumes "calm_log date es (initial_job_state, False)"
  shows "materializeJob date (es @ [e]) = thn (materializeJob date es) (advanceMaterializedJob date e)"
proof -
  have "snd st = terminal_status (fst st)" if "fold_r (job_view.step date) es (initial_job_state, False) = Inr st" for st
    using calm_agrees [OF that [unfolded job_view_step] assms initial_agrees] by (simp add: agrees_def)
  then have "job_view.view date (es @ [e]) (initial_job_state, False)
      = thn (job_view.view date es (initial_job_state, False)) (job_view.advance date e)" by (rule job_view.view_append)
  then show ?thesis by (simp add: job_view_materialize job_view_advance)
qed

theorem advance_is_append_witness:
  "materializeJob (\<lambda>_. NaN) (log_of [''job_created'', ''approval_required'', ''job_approved'', ''job_failed'', ''phase_activity'', ''job_completed''])
     = thn (materializeJob (\<lambda>_. NaN) (log_of [''job_created'', ''approval_required'', ''job_approved'', ''job_failed'', ''phase_activity'']))
         (advanceMaterializedJob (\<lambda>_. NaN) (job_event ''job_completed''))"
proof -
  have "calm_log (\<lambda>_. NaN) (log_of [''job_created'', ''approval_required'', ''job_approved'', ''job_failed'', ''phase_activity'']) (initial_job_state, False)"
    by code_simp
  from advance_is_append [OF this, of "job_event ''job_completed''"] show ?thesis by simp
qed

text \<open>an approval request after the end makes the two differ: in one pass the job stays over for
  the events that follow, one event at a time it is judged by its status and the failure that
  follows is taken.\<close>

theorem late_approval_diverges:
  "map_sum id j_status (materializeJob (\<lambda>_. NaN) (log_of [''job_created'', ''job_completed'', ''approval_required'', ''job_failed'']))
     = Inr (JStr ''waiting.approval'')
   \<and> map_sum id j_status (thn (materializeJob (\<lambda>_. NaN) (log_of [''job_created'', ''job_completed'', ''approval_required'']))
         (advanceMaterializedJob (\<lambda>_. NaN) (job_event ''job_failed''))) = Inr (JStr ''failed'')"
  by code_simp

text \<open>the status of a materialised job is null or one of the seven the code knows, however the
  log looks, and advancing keeps it so.\<close>

theorem statuses_known:
  assumes "materializeJob date es = Inr s" "advanceMaterializedJob date e s = Inr s'"
  shows "known_status s \<and> known_status s'"
proof -
  from assms(1) obtain st where st: "fold_r (materialize_step date) es (initial_job_state, False) = Inr st" "s = syncDagResume (fst st)"
    by (auto simp: materializeJob_def thn_eq_Inr)
  have "known_status initial_job_state" by (simp add: known_status_def initial_job_state_def)
  with fold_known [OF st(1)] st(2) have s: "known_status s" by (simp add: known_status_def)
  have "known_status (syncDagResume (fst st'))" if "handle_event date e (s, terminal_status s) = Inr st'" for st'
    using handle_known [OF s that] by (simp add: known_status_def)
  with assms(2) s show ?thesis by (auto simp: advanceMaterializedJob_def thn_eq_Inr split: if_splits)
qed

theorem statuses_known_witness:
  "\<exists>s s'. materializeJob (\<lambda>_. NaN) (log_of [''job_created'', ''job_blocked'']) = Inr s
     \<and> advanceMaterializedJob (\<lambda>_. NaN) (job_event ''job_superseded'') s = Inr s' \<and> j_status s' = JStr ''superseded'' \<and> known_status s'"
proof -
  let ?m = "materializeJob (\<lambda>_. NaN) (log_of [''job_created'', ''job_blocked''])"
  have "case ?m of Inl _ \<Rightarrow> False | Inr s \<Rightarrow> (case advanceMaterializedJob (\<lambda>_. NaN) (job_event ''job_superseded'') s of
      Inl _ \<Rightarrow> False | Inr s' \<Rightarrow> j_status s' = JStr ''superseded'')" by code_simp
  then obtain s s' where s: "?m = Inr s" "advanceMaterializedJob (\<lambda>_. NaN) (job_event ''job_superseded'') s = Inr s'"
    "j_status s' = JStr ''superseded''" by (auto split: sum.splits)
  from statuses_known [OF s(1,2)] s show ?thesis by blast
qed

text \<open>C38: a job that has ended stays as it ended: whatever follows, but an approval event or a
  supersession, leaves its status; even \<^verbatim>\<open>job_created\<close> and \<^verbatim>\<open>job_retried\<close>, whose handlers would
  start it again, do not.\<close>

theorem ended_stays_ended:
  assumes "fold_r (materialize_step date) es (initial_job_state, False) = Inr (s, True)"
    "materializeJob date (es @ es') = Inr s'" "\<forall>e \<in> set es'. event_type e \<notin> set REOPENING"
  shows "j_status s' = j_status s"
proof -
  from assms(1,2) obtain st where st: "fold_r (materialize_step date) es' (s, True) = Inr st" "s' = syncDagResume (fst st)"
    by (auto simp: materializeJob_def fold_r_append thn_eq_Inr)
  from terminal_fold [OF st(1) assms(3)] st(2) show ?thesis by simp
qed

theorem ended_stays_ended_witness:
  "\<exists>s'. materializeJob (\<lambda>_. NaN) (log_of [''job_created'', ''job_failed''] @ log_of [''job_retried'', ''phase_started'']) = Inr s'
     \<and> j_status s' = JStr ''failed''"
proof -
  let ?f = "fold_r (materialize_step (\<lambda>_. NaN)) (log_of [''job_created'', ''job_failed'']) (initial_job_state, False)"
  let ?m = "materializeJob (\<lambda>_. NaN) (log_of [''job_created'', ''job_failed''] @ log_of [''job_retried'', ''phase_started''])"
  have "case ?f of Inl _ \<Rightarrow> False | Inr (s, t) \<Rightarrow> t \<and> j_status s = JStr ''failed''" by code_simp
  then obtain s where s: "?f = Inr (s, True)" "j_status s = JStr ''failed''" by (auto split: sum.splits)
  have "case ?m of Inl _ \<Rightarrow> False | Inr s' \<Rightarrow> True" by code_simp
  then obtain s' where s': "?m = Inr s'" by (auto split: sum.splits)
  have "\<forall>e \<in> set (log_of [''job_retried'', ''phase_started'']). event_type e \<notin> set REOPENING" by code_simp
  from ended_stays_ended [OF s(1) s' this] s(2) s' show ?thesis by simp
qed

end
