(* ===== verification/JsDate.thy ===== *)
theory JsDate
  imports JsValue
begin

text \<open>
  Timestamps: \<^verbatim>\<open>new Date(ms).toISOString()\<close> and \<^verbatim>\<open>new Date(text).getTime()\<close> of the language.

  A time is a natural number, the milliseconds since 1970. The text is the format of
  \<^verbatim>\<open>toISOString\<close>, which is how the program writes every timestamp; \<open>date_parse\<close> reads that format and
  takes every other text for an invalid date. The calendar is that of the language: \<open>days_before k\<close>
  counts the days before the year 1970 + k, and the months have their lengths. The main lemma is the
  round trip \<open>date_parse_iso\<close>: reading what was written gives the time back, until the year 10000.
\<close>

section \<open>The calendar\<close>

definition days_before :: "nat \<Rightarrow> nat" where
  "days_before k = 365 * k + (k + 1) div 4 + (k + 369) div 400 - (k + 69) div 100"

definition leap_year :: "nat \<Rightarrow> bool" where
  "leap_year k = (let y = 1970 + k in y mod 4 = 0 \<and> (y mod 100 \<noteq> 0 \<or> y mod 400 = 0))"

definition month_lengths :: "nat \<Rightarrow> nat list" where
  "month_lengths k = [31, if leap_year k then 29 else 28, 31, 30, 31, 30, 31, 31, 30, 31, 30, 31]"

lemma century_le: "(k + 69) div 100 \<le> (k + 1) div (4::nat)" "(k + 369) div 400 \<le> (k + 69) div (100::nat)"
proof -
  have "100 * ((k + 69) div 100) \<le> k + 69" "400 * ((k + 369) div 400) \<le> k + 369"
    by (rule times_div_less_eq_dividend)+
  moreover have "4 * q \<le> k + 1" if "100 * q \<le> k + 69" for q
    using that by (cases q) simp_all
  moreover have "100 * r \<le> k + 69" if "400 * r \<le> k + 369" for r
    using that by (cases r) simp_all
  ultimately have "4 * ((k + 69) div 100) \<le> k + 1" "100 * ((k + 369) div 400) \<le> k + 69" by blast+
  then show "(k + 69) div 100 \<le> (k + 1) div 4" "(k + 369) div 400 \<le> (k + 69) div 100"
    by (simp_all add: less_eq_div_iff_mult_less_eq mult.commute)
qed

lemma month_length_le: "l \<in> set (month_lengths k) \<Longrightarrow> l \<le> 31"
  by (auto simp: month_lengths_def)

lemma length_month_lengths [simp]: "length (month_lengths k) = 12"
  by (simp add: month_lengths_def)

lemma days_before_ge: "365 * k \<le> days_before k"
  using century_le(1) [of k] unfolding days_before_def by linarith

lemma days_before_le: "days_before k \<le> 366 * k"
proof (cases k)
  case (Suc n)
  have "(k + 1) div 4 \<le> k" using Suc by simp
  with century_le(2) [of k] show ?thesis unfolding days_before_def by linarith
qed (simp add: days_before_def)

lemma leap_days_Suc:
  "(Suc k + 1) div 4 = (k + 1) div 4 + (if (1970 + k) mod 4 = 0 then 1 else 0)"
  "(Suc k + 69) div 100 = (k + 69) div 100 + (if (1970 + k) mod 100 = 0 then 1 else 0)"
  "(Suc k + 369) div 400 = (k + 369) div 400 + (if (1970 + k) mod 400 = 0 then 1 else 0)"
proof -
  have m: "(1970 + k) mod 4 = (k + 2) mod 4" "(1970 + k) mod 100 = (k + 70) mod 100" "(1970 + k) mod 400 = (k + 370) mod 400"
    using mod_mult_self2 [of "k + 2" 4 492] mod_mult_self2 [of "k + 70" 100 19] mod_mult_self2 [of "k + 370" 400 4]
    by (simp_all add: add.commute)
  show "(Suc k + 1) div 4 = (k + 1) div 4 + (if (1970 + k) mod 4 = 0 then 1 else 0)"
    using div_Suc [of "k + 1" 4] unfolding m by simp
  show "(Suc k + 69) div 100 = (k + 69) div 100 + (if (1970 + k) mod 100 = 0 then 1 else 0)"
    using div_Suc [of "k + 69" 100] unfolding m by (simp add: add.commute)
  show "(Suc k + 369) div 400 = (k + 369) div 400 + (if (1970 + k) mod 400 = 0 then 1 else 0)"
    using div_Suc [of "k + 369" 400] unfolding m by (simp add: add.commute)
qed

lemma days_before_Suc: "days_before (Suc k) = days_before k + sum_list (month_lengths k)"
proof -
  have "(1970 + k) mod 100 = 0 \<Longrightarrow> (1970 + k) mod 4 = 0" "(1970 + k) mod 400 = 0 \<Longrightarrow> (1970 + k) mod 100 = 0"
    by (simp_all add: mod_eq_0_iff_dvd) (auto intro: dvd_trans [of 4 100] dvd_trans [of 100 400])
  with century_le(1) [of k] show ?thesis
    unfolding days_before_def leap_days_Suc month_lengths_def leap_year_def Let_def by (simp add: algebra_simps)
qed

function year_from :: "nat \<Rightarrow> nat \<Rightarrow> nat" where
  "year_from d k = (if days_before (Suc k) \<le> d then year_from d (Suc k) else k)"
  by pat_completeness auto
termination
proof (relation "measure (\<lambda>(d, k). d - k)")
  fix d k :: nat
  assume "days_before (Suc k) \<le> d"
  then have "365 * Suc k \<le> d" using days_before_ge [of "Suc k"] by linarith
  then have "k < d" by simp
  then show "((d, Suc k), (d, k)) \<in> measure (\<lambda>(d, k). d - k)" by simp
qed simp

declare year_from.simps [simp del]

lemma year_from_bounds:
  "days_before k \<le> d \<Longrightarrow> days_before (year_from d k) \<le> d \<and> d < days_before (Suc (year_from d k))"
  by (induction d k rule: year_from.induct) (subst (1 2) year_from.simps, auto)

definition year_of_day :: "nat \<Rightarrow> nat" where
  "year_of_day d = year_from d (d div 366)"

lemma year_of_day_bounds: "days_before (year_of_day d) \<le> d" "d < days_before (Suc (year_of_day d))"
proof -
  have "days_before (d div 366) \<le> d" using days_before_le [of "d div 366"] by simp
  then show "days_before (year_of_day d) \<le> d" "d < days_before (Suc (year_of_day d))"
    using year_from_bounds unfolding year_of_day_def by blast+
qed

text \<open>The month and the day in it of a day of the year, both from zero.\<close>

fun month_day :: "nat list \<Rightarrow> nat \<Rightarrow> nat \<times> nat" where
  "month_day [] d = (0, d)"
| "month_day (m # ms) d = (if d < m then (0, d) else (let r = month_day ms (d - m) in (Suc (fst r), snd r)))"

lemma month_day_sum:
  "sum_list (take (fst (month_day ms d)) ms) + snd (month_day ms d) = d"
proof (induction ms arbitrary: d)
  case (Cons m ms)
  show ?case using Cons.IH [of "d - m"] by (cases "d < m") (simp_all add: Let_def)
qed simp

lemma month_day_bounds:
  "d < sum_list ms \<Longrightarrow> fst (month_day ms d) < length ms \<and> snd (month_day ms d) < ms ! fst (month_day ms d)"
  by (induction ms arbitrary: d) (auto simp: Let_def)

section \<open>Text\<close>

primrec digits :: "nat \<Rightarrow> nat \<Rightarrow> string" where
  \<comment> \<open>\<^verbatim>\<open>String(n).padStart(w, "0")\<close> of a number of at most \<open>w\<close> digits\<close>
  "digits 0 n = []"
| "digits (Suc w) n = digits w (n div 10) @ [char_of (48 + n mod 10)]"

lemma length_digits [simp]: "length (digits w n) = w"
  by (induction w arbitrary: n) simp_all

lemma digit_char: "i < 10 \<Longrightarrow> digit_val (char_of (48 + i)) = i" "i < 10 \<Longrightarrow> is_digit (char_of (48 + i))"
proof -
  assume i: "i < (10::nat)"
  then show "digit_val (char_of (48 + i)) = i" by (simp add: digit_val_def)
  have "list_all (\<lambda>i. is_digit (char_of (48 + i))) [0..<10]" by code_simp
  with i show "is_digit (char_of (48 + i))" by (simp add: list_all_iff)
qed

lemma nat_of_digits_snoc: "nat_of_digits (ds @ [c]) = nat_of_digits ds * 10 + digit_val c"
  by (simp add: nat_of_digits_def)

lemma nat_of_digits_digits: "n < 10 ^ w \<Longrightarrow> nat_of_digits (digits w n) = n"
proof (induction w arbitrary: n)
  case 0
  then show ?case by (simp add: nat_of_digits_def)
next
  case (Suc w)
  then have "n div 10 < 10 ^ w" by simp
  then show ?case by (simp add: nat_of_digits_snoc Suc.IH digit_char)
qed

lemma digits_are_digits: "list_all is_digit (digits w n)"
  by (induction w arbitrary: n) (simp_all add: digit_char)

definition toISOString :: "nat \<Rightarrow> string" where
  "toISOString ms =
     (let day = ms div 86400000; t = ms mod 86400000; k = year_of_day day;
          md = month_day (month_lengths k) (day - days_before k)
      in (if k < 8030 then digits 4 (1970 + k) else ''+'' @ digits 6 (1970 + k))
         @ ''-'' @ digits 2 (fst md + 1) @ ''-'' @ digits 2 (snd md + 1)
         @ ''T'' @ digits 2 (t div 3600000) @ '':'' @ digits 2 (t div 60000 mod 60)
         @ '':'' @ digits 2 (t div 1000 mod 60) @ ''.'' @ digits 3 (t mod 1000) @ ''Z'')"

definition part :: "nat \<Rightarrow> nat \<Rightarrow> string \<Rightarrow> string" where
  "part i n s = take n (drop i s)"

definition date_fields :: "nat \<times> nat \<times> nat \<times> nat \<times> nat \<times> nat \<times> nat \<Rightarrow> nat option" where
  "date_fields = (\<lambda>(y, m, d, h, mi, s, ms).
     if 1970 \<le> y \<and> 1 \<le> m \<and> m \<le> 12 \<and> 1 \<le> d \<and> d \<le> month_lengths (y - 1970) ! (m - 1) \<and> h < 24 \<and> mi < 60 \<and> s < 60
     then Some (((days_before (y - 1970) + sum_list (take (m - 1) (month_lengths (y - 1970))) + (d - 1)) * 24 + h) * 3600000
                + mi * 60000 + s * 1000 + ms)
     else None)"

definition date_layout :: "string \<Rightarrow> bool" where
  "date_layout s = (length s = 24 \<and> part 4 1 s = ''-'' \<and> part 7 1 s = ''-'' \<and> part 10 1 s = ''T'' \<and> part 13 1 s = '':''
     \<and> part 16 1 s = '':'' \<and> part 19 1 s = ''.'' \<and> part 23 1 s = ''Z''
     \<and> list_all is_digit (part 0 4 s @ part 5 2 s @ part 8 2 s @ part 11 2 s @ part 14 2 s @ part 17 2 s @ part 20 3 s))"

definition date_parse :: "string \<Rightarrow> nat option" where
  \<comment> \<open>\<^verbatim>\<open>new Date(s).getTime()\<close>, with \<open>None\<close> for NaN\<close>
  "date_parse s = (if date_layout s
     then date_fields (nat_of_digits (part 0 4 s), nat_of_digits (part 5 2 s), nat_of_digits (part 8 2 s),
            nat_of_digits (part 11 2 s), nat_of_digits (part 14 2 s), nat_of_digits (part 17 2 s), nat_of_digits (part 20 3 s))
     else None)"

lemma year_of_day_small: "d < days_before 8030 \<Longrightarrow> year_of_day d < 8030"
proof (rule ccontr)
  assume d: "d < days_before 8030" and "\<not> year_of_day d < 8030"
  then obtain j where j: "year_of_day d = 8030 + j" by (metis le_Suc_ex not_less)
  have "days_before 8030 \<le> days_before (8030 + j)" for j
  proof (induction j)
    case (Suc j)
    then show ?case using days_before_Suc [of "8030 + j"] by simp
  qed simp
  with j year_of_day_bounds(1) [of d] d show False by (metis leD order_trans)
qed

text \<open>The end of the year 9999, in milliseconds.\<close>

definition date_limit :: nat where
  "date_limit = 253402300800000"

lemma days_before_limit: "days_before 8030 * 86400000 = date_limit"
  by (simp add: days_before_def date_limit_def)

lemma parts_of_date:
  "length a = 4 \<Longrightarrow> length b = 2 \<Longrightarrow> length c = 2 \<Longrightarrow> length d = 2 \<Longrightarrow> length e = 2 \<Longrightarrow> length f = 2 \<Longrightarrow> length g = 3 \<Longrightarrow>
   s = a @ ''-'' @ b @ ''-'' @ c @ ''T'' @ d @ '':'' @ e @ '':'' @ f @ ''.'' @ g @ ''Z'' \<Longrightarrow>
   length s = 24 \<and> part 4 1 s = ''-'' \<and> part 7 1 s = ''-'' \<and> part 10 1 s = ''T'' \<and> part 13 1 s = '':''
   \<and> part 16 1 s = '':'' \<and> part 19 1 s = ''.'' \<and> part 23 1 s = ''Z'' \<and> part 0 4 s = a \<and> part 5 2 s = b \<and> part 8 2 s = c
   \<and> part 11 2 s = d \<and> part 14 2 s = e \<and> part 17 2 s = f \<and> part 20 3 s = g"
  by (simp add: part_def)

lemma time_of_day:
  fixes t :: nat
  shows "t div 3600000 * 3600000 + (t div 60000 mod 60) * 60000 + (t div 1000 mod 60) * 1000 + t mod 1000 = t"
proof -
  have nested: "x2 = x3 * 60 + m \<Longrightarrow> x1 = x2 * 60 + s \<Longrightarrow> t = x1 * 1000 + u \<Longrightarrow> x3 * 3600000 + m * 60000 + s * 1000 + u = t"
    for x1 x2 x3 m s u :: nat by simp
  show ?thesis
  proof (rule nested)
    show "t = t div 1000 * 1000 + t mod 1000" by (rule div_mult_mod_eq [symmetric])
    have "t div 60000 = t div 1000 div 60" by (simp add: div_mult2_eq [symmetric])
    then show "t div 1000 = t div 60000 * 60 + t div 1000 mod 60" by (simp only: div_mult_mod_eq)
    have "t div 3600000 = t div 60000 div 60" by (simp add: div_mult2_eq [symmetric])
    then show "t div 60000 = t div 3600000 * 60 + t div 60000 mod 60" by (simp only: div_mult_mod_eq)
  qed
qed

lemma time_of_day_bounds:
  "t < 86400000 \<Longrightarrow> t div 3600000 < (24::nat)" "t div 60000 mod 60 < (60::nat)" "t div 1000 mod 60 < (60::nat)"
  "t mod 1000 < (1000::nat)"
  by (simp_all add: less_mult_imp_div_less)

lemma date_parse_iso:
  assumes "ms < date_limit"
  shows "date_parse (toISOString ms) = Some ms"
proof -
  define day t where dt: "day = ms div 86400000" "t = ms mod 86400000"
  define k where k: "k = year_of_day day"
  define m d where md: "m = fst (month_day (month_lengths k) (day - days_before k))"
    "d = snd (month_day (month_lengths k) (day - days_before k))"
  from assms have "day < days_before 8030"
    unfolding dt days_before_limit [symmetric] by (simp add: div_less_iff_less_mult)
  then have k8: "k < 8030" unfolding k by (rule year_of_day_small)
  have yb: "days_before k \<le> day" "day - days_before k < sum_list (month_lengths k)"
    using year_of_day_bounds [of day] unfolding k days_before_Suc by linarith+
  have sum: "sum_list (take m (month_lengths k)) + d = day - days_before k"
    unfolding md by (rule month_day_sum)
  have bounds: "m < 12" "d < month_lengths k ! m"
    using month_day_bounds [OF yb(2)] unfolding md by simp_all
  have "month_lengths k ! m \<in> set (month_lengths k)"
    using bounds(1) by (intro nth_mem) simp
  from month_length_le [OF this] bounds(2) have d31: "d < 31" by (rule less_le_trans [rotated])
  have t: "t < 86400000" unfolding dt by simp
  define h mi s u where hms: "h = t div 3600000" "mi = t div 60000 mod 60" "s = t div 1000 mod 60" "u = t mod 1000"
  have hb: "h < 24" "mi < 60" "s < 60" "u < 1000" unfolding hms by (rule time_of_day_bounds(1) [OF t] time_of_day_bounds(2-4))+
  have t_sum: "h * 3600000 + mi * 60000 + s * 1000 + u = t" unfolding hms by (rule time_of_day)
  let ?s = "toISOString ms"
  have shown: "?s = digits 4 (1970 + k) @ ''-'' @ digits 2 (m + 1) @ ''-'' @ digits 2 (d + 1) @ ''T'' @ digits 2 h
      @ '':'' @ digits 2 mi @ '':'' @ digits 2 s @ ''.'' @ digits 3 u @ ''Z''"
    using k8 unfolding toISOString_def Let_def dt [symmetric] k [symmetric] md [symmetric] hms [symmetric] by simp
  note parts = parts_of_date [OF length_digits length_digits length_digits length_digits length_digits
      length_digits length_digits shown]
  have "date_layout ?s" unfolding date_layout_def using parts by (simp add: digits_are_digits)
  moreover have nums: "nat_of_digits (digits 4 (1970 + k)) = 1970 + k" "nat_of_digits (digits 2 (m + 1)) = m + 1"
    "nat_of_digits (digits 2 (d + 1)) = d + 1" "nat_of_digits (digits 2 h) = h" "nat_of_digits (digits 2 mi) = mi"
    "nat_of_digits (digits 2 s) = s" "nat_of_digits (digits 3 u) = u"
    using k8 bounds(1) d31 hb by (simp_all add: nat_of_digits_digits)
  ultimately have "date_parse ?s = date_fields (1970 + k, m + 1, d + 1, h, mi, s, u)"
    unfolding date_parse_def using parts by simp
  also have "\<dots> = Some (((days_before k + sum_list (take m (month_lengths k)) + d) * 24 + h) * 3600000
                + mi * 60000 + s * 1000 + u)"
    using bounds d31 hb by (simp add: date_fields_def)
  also have "((days_before k + sum_list (take m (month_lengths k)) + d) * 24 + h) * 3600000
                + mi * 60000 + s * 1000 + u = ms"
  proof -
    have "days_before k + sum_list (take m (month_lengths k)) + d = day" using sum yb(1) by linarith
    then have "((days_before k + sum_list (take m (month_lengths k)) + d) * 24 + h) * 3600000
                + mi * 60000 + s * 1000 + u = day * 86400000 + t"
      using t_sum by (simp add: algebra_simps)
    then show ?thesis unfolding dt by simp
  qed
  finally show ?thesis .
qed

end
