(* ===== verification/HubQueue.thy ===== *)
theory HubQueue
  imports JsDate JsRegex "HOL-Library.Product_Lexorder"
begin

text \<open>
  The hub queue (\<^verbatim>\<open>server/services/hub/hub-queue.ts\<close>): the rules of the queue, and its operations as
  functions from the entries of the queue file to the entries they leave behind.

  Every mutation runs under the queue lock: it reads the file, changes the entries in place and writes
  them back; one that throws writes nothing. So an operation is a function on
  the list of entries, and \<open>withQueueMutation\<close> is the commit. The entries are JSON objects; what is
  written is read back by the next operation, so a commit replaces each value by what its JSON text
  stands for (\<open>json_copy\<close>). A list of pending entries aliases entries of the queue: it is a list of
  positions. The lock itself, the refusal of writes during maintenance, the registry of projects, the
  agent configuration and the code index are outside: the last three are parameters.
  Timestamps are compared as text where the code calls \<^verbatim>\<open>localeCompare\<close> on them.
\<close>

section \<open>JSON values\<close>

text \<open>What \<^verbatim>\<open>JSON.parse(JSON.stringify(v))\<close> is: undefined properties are left out, undefined array
  elements and non-finite numbers become null.\<close>

fun json_copy :: "js \<Rightarrow> js" where
  "json_copy (JNum n) = (if num_finite n then JNum n else JNull)"
| "json_copy (JArr xs) = JArr (map (\<lambda>x. if x = JUndef then JNull else json_copy x) xs)"
| "json_copy (JObj kvs) = JObj (map (\<lambda>kv. (fst kv, json_copy (snd kv))) (filter (\<lambda>kv. obj_get kvs (fst kv) \<noteq> JUndef) kvs))"
| "json_copy v = v"

lemma json_copy_JUndef [simp]: "json_copy v = JUndef \<longleftrightarrow> v = JUndef"
  by (cases v) simp_all

lemma obj_get_map_filter:
  assumes "\<And>k. P k \<longleftrightarrow> obj_get kvs k \<noteq> JUndef"
  shows "obj_get (map (\<lambda>kv. (fst kv, json_copy (snd kv))) (filter (\<lambda>kv. P (fst kv)) kvs)) k = json_copy (obj_get kvs k)"
proof -
  have "map_of (map (\<lambda>kv. (fst kv, json_copy (snd kv))) (filter (\<lambda>kv. P (fst kv)) xs)) k
      = (if P k then map_option json_copy (map_of xs k) else None)" for xs :: "(string \<times> js) list"
    by (induction xs) auto
  then show ?thesis using assms [of k] by (auto simp: obj_get_def split: option.splits)
qed

lemma fld_json_copy [simp]: "fld (json_copy v) k = json_copy (fld v k)"
proof (cases v)
  case (JObj kvs)
  then show ?thesis
    using obj_get_map_filter [of "\<lambda>k. obj_get kvs k \<noteq> JUndef" kvs k] by (simp add: fld_def)
qed simp_all

lemma isRecord_json_copy [simp]: "isRecord (json_copy v) = isRecord v"
  by (cases v) simp_all

lemma json_copy_idem [simp]: "json_copy (json_copy v) = json_copy v"
proof (induction v rule: json_copy.induct)
  case (2 xs)
  then show ?case by simp
next
  case (3 kvs)
  let ?f = "filter (\<lambda>kv. obj_get kvs (fst kv) \<noteq> JUndef) kvs"
  let ?w = "map (\<lambda>kv. (fst kv, json_copy (snd kv))) ?f"
  have "obj_get ?w k = json_copy (obj_get kvs k)" for k
    by (rule obj_get_map_filter) simp
  then have "filter (\<lambda>kv. obj_get ?w (fst kv) \<noteq> JUndef) ?w = ?w"
    by (auto simp: filter_id_conv)
  with 3 show ?case by (simp add: o_def)
qed simp_all

section \<open>Queue rules\<close>

abbreviation meta :: "js \<Rightarrow> string \<Rightarrow> js" where
  "meta e k \<equiv> fld (fld e ''metadata'') k"

definition set_fields :: "(string \<times> js) list \<Rightarrow> js \<Rightarrow> js" where
  \<comment> \<open>assignments to properties of an entry, in this order\<close>
  "set_fields kvs e = JObj (spread (own e) kvs)"

definition priorityScore :: "js \<Rightarrow> nat" where
  "priorityScore p = (if p = JStr ''P0'' then 0 else if p = JStr ''P1'' then 1 else if p = JStr ''P2'' then 2 else 3)"

definition isMutatingEntry :: "js \<Rightarrow> bool" where
  "isMutatingEntry e = (meta e ''mutating'' \<noteq> JBool False)"

definition isActiveEntry :: "js \<Rightarrow> bool" where
  "isActiveEntry e = (fld e ''status'' = JStr ''in_progress'' \<or> fld e ''status'' = JStr ''scheduled'')"

definition clearClaim :: "js \<Rightarrow> js" where
  "clearClaim e = set_fields [(''claimedBy'', JNull), (''claimedAt'', JNull), (''workerId'', JNull)] e"

definition nowIso :: "nat \<Rightarrow> js" where
  "nowIso ms = JStr (toISOString ms)"

definition isLocalCodeIndexUnavailableStatus :: "js \<Rightarrow> bool" where
  "isLocalCodeIndexUnavailableStatus s = (s = JStr ''local_code_index_unavailable'')"

text \<open>\<^verbatim>\<open>v ? new Date(v).getTime() : 0\<close>; \<open>None\<close> is NaN.\<close>

definition time_or_zero :: "js \<Rightarrow> int option" where
  "time_or_zero v = (if \<not> truthy v then Some 0
     else case v of JStr s \<Rightarrow> map_option int (date_parse s) | JNum (Fin x) \<Rightarrow> Some (if x < 0 then \<lceil>x\<rceil> else \<lfloor>x\<rfloor>)
       | JBool b \<Rightarrow> Some 1 | _ \<Rightarrow> None)"

definition elapsed :: "nat \<Rightarrow> int \<Rightarrow> js \<Rightarrow> bool" where
  \<comment> \<open>at least the window has passed since the time in the field\<close>
  "elapsed now window v = (case time_or_zero v of None \<Rightarrow> False | Some t \<Rightarrow> window \<le> int now - t)"

definition assignment_active :: "js \<Rightarrow> bool" where
  "assignment_active a = (truthy a \<and> (fld a ''status'' = JStr ''running'' \<or> fld a ''status'' = JStr ''assigned''))"

definition assignment_id :: "js \<Rightarrow> string" where
  "assignment_id e = ''a-'' @ to_str (fld e ''id'')"

text \<open>The loop of the recovery of stale claims: the entries, the ids put back and the ids refreshed.\<close>

fun stale_loop :: "nat \<Rightarrow> int \<Rightarrow> (string \<Rightarrow> js) \<Rightarrow> js list \<Rightarrow> js list \<times> js list \<times> js list" where
  "stale_loop now window getAssignment [] = ([], [], [])"
| "stale_loop now window getAssignment (e # es) =
     (let (es', recovered, refreshed) = stale_loop now window getAssignment es
      in if \<not> isActiveEntry e \<or> \<not> elapsed now window (fld e ''claimedAt'') then (e # es', recovered, refreshed)
         else if assignment_active (getAssignment (assignment_id e))
         then (set_fields [(''claimedAt'', nowIso now), (''updatedAt'', nowIso now)] e # es', recovered, fld e ''id'' # refreshed)
         else (set_fields [(''updatedAt'', nowIso now)] (clearClaim (set_fields [(''status'', JStr ''pending'')] e)) # es',
               fld e ''id'' # recovered, refreshed))"

definition recoverStaleInProgress ::
    "nat \<Rightarrow> int \<Rightarrow> (string \<Rightarrow> js) option \<Rightarrow> js list \<Rightarrow> (js list \<times> js list \<times> js list) result" where
  "recoverStaleInProgress now claimTimeoutMs store es =
     (if claimTimeoutMs \<le> 0 then Inr (es, [], [])
      else case store of None \<Rightarrow> Inl (ErrorMsg ''recoverStaleInProgress requires assignmentStore'')
        | Some getAssignment \<Rightarrow> Inr (stale_loop now claimTimeoutMs getAssignment es))"

definition recoverStaleInProgressAsync ::
    "nat \<Rightarrow> int \<Rightarrow> (string \<Rightarrow> js) option \<Rightarrow> js list \<Rightarrow> (js list \<times> js list \<times> js list) result" where
  "recoverStaleInProgressAsync now claimTimeoutMs store es =
     (if claimTimeoutMs \<le> 0 then Inr (es, [], [])
      else case store of None \<Rightarrow> Inl (ErrorMsg ''recoverStaleInProgressAsync requires assignmentStore'')
        | Some getAssignment \<Rightarrow> Inr (stale_loop now claimTimeoutMs getAssignment es))"

definition drop_key :: "string \<Rightarrow> js \<Rightarrow> js" where
  \<comment> \<open>\<^verbatim>\<open>delete v[k]\<close>\<close>
  "drop_key k v = (case v of JObj kvs \<Rightarrow> JObj (filter (\<lambda>kv. fst kv \<noteq> k) kvs) | _ \<Rightarrow> v)"

fun index_loop :: "nat \<Rightarrow> int \<Rightarrow> js list \<Rightarrow> js list \<times> js list" where
  "index_loop now window [] = ([], [])"
| "index_loop now window (e # es) =
     (let (es', recovered) = index_loop now window es
      in if \<not> isLocalCodeIndexUnavailableStatus (fld e ''status'') \<or> \<not> elapsed now window (fld e ''updatedAt'')
         then (e # es', recovered)
         else (let e1 = set_fields [(''status'', JStr ''pending''), (''updatedAt'', nowIso now)] e
               in (if truthy (fld e ''metadata'')
                   then set_fields [(''metadata'', drop_key ''indexFreshness'' (fld e ''metadata''))] e1 else e1) # es',
               fld e ''id'' # recovered))"

definition recoverLocalCodeIndexUnavailable :: "nat \<Rightarrow> int \<Rightarrow> js list \<Rightarrow> js list \<times> js list" where
  "recoverLocalCodeIndexUnavailable now retryMs es = (if retryMs \<le> 0 then (es, []) else index_loop now retryMs es)"

section \<open>The queue file\<close>

definition QUEUE_VERSION :: js where
  "QUEUE_VERSION = jnat 1"

definition QUEUE_MAX_BYTES :: nat where
  "QUEUE_MAX_BYTES = 16 * 1024 * 1024"

definition normalizeQueue :: "js \<Rightarrow> js list" where
  \<comment> \<open>the entries of a parsed file\<close>
  "normalizeQueue raw = (if \<not> isRecord raw then [] else filter isRecord (arr (fld raw ''entries'')))"

definition queue_json :: "js list \<Rightarrow> js" where
  "queue_json es = JObj [(''version'', QUEUE_VERSION), (''entries'', JArr es)]"

definition serializeQueue :: "js list \<Rightarrow> string result" where
  "serializeQueue es = (let serialized = json_text (queue_json es)
     in if length serialized > QUEUE_MAX_BYTES
        then Inl (ErrorMsg (''queue exceeds '' @ show_nat QUEUE_MAX_BYTES @ '' bytes'')) else Inr serialized)"

text \<open>A mutation: the outcome, and the entries that the file holds afterwards. The code skips the write
  when the text is the one that was read, which is then what the file holds already.\<close>

definition withQueueMutation :: "(js list \<Rightarrow> (js list \<times> 'a) result) \<Rightarrow> js list \<Rightarrow> 'a result \<times> js list" where
  "withQueueMutation callback q =
     (case thn (serializeQueue q) (\<lambda>before. thn (callback q) (\<lambda>(q', v). thn (serializeQueue q') (\<lambda>after. Inr (q', v))))
      of Inl err \<Rightarrow> (Inl err, q)
       | Inr (q', v) \<Rightarrow> (Inr v, normalizeQueue (json_copy (queue_json q'))))"

section \<open>Entering tasks\<close>

definition hasIssueLink :: "js \<Rightarrow> bool" where
  "hasIssueLink m = (truthy m \<and> (isRecord m \<or> is_arr m) \<and> truthy (or_else (fld m ''issueNumber'') (fld m ''issueUrl'')))"

definition validateIssueLink :: "js \<Rightarrow> bool \<times> js" where
  "validateIssueLink e =
     (if \<not> truthy e then (False, JStr ''no entry'')
      else if fld e ''status'' = JStr ''needs_issue_link'' then (False, JStr ''awaiting issue link'')
      else if fld e ''status'' = JStr ''archived'' then (False, JStr ''archived'')
      else (hasIssueLink (fld e ''metadata''), JNull))"

definition entryKey :: "js \<Rightarrow> string" where
  "entryKey e = to_str (fld e ''projectId'') @ ''::'' @ to_str (fld e ''description'') @ ''::''
     @ to_str (or_else (or_else (meta e ''queueDedupeKey'') (meta e ''originJobId'')) (JStr []))"

definition REQUIRED_EXECUTION_BOUNDARY :: js where
  "REQUIRED_EXECUTION_BOUNDARY = JStr ''worktree''"

definition buildMeta :: "js \<Rightarrow> js" where
  "buildMeta input = JObj [(''projectId'', or_else (fld input ''projectId'') JNull),
     (''sourcePath'', or_else (fld input ''sourcePath'') JNull), (''sessionId'', or_else (fld input ''sessionId'') JNull),
     (''workerId'', or_else (fld input ''workerId'') JNull),
     (''cwd'', or_else (or_else (fld input ''cwd'') (fld input ''sourcePath'')) JNull),
     (''executionBoundary'', REQUIRED_EXECUTION_BOUNDARY)]"

definition stringOrNull :: "js \<Rightarrow> js" where
  "stringOrNull v = (if is_str v then v else JNull)"

text \<open>What the operation takes from outside: the agents resolved for an entry's metadata, the
  registry of projects, which may throw, and the identifier drawn for a new entry.\<close>

record enqueue_env =
  resolveAgentsForEntry :: "js \<Rightarrow> js \<Rightarrow> js \<Rightarrow> js"
  getProject :: "js \<Rightarrow> js result"
  process_cwd :: js
  generateId :: string

definition lane_metadata :: "js \<Rightarrow> js result" where
  "lane_metadata m0 = (let m = (if truthy m0 then m0 else JObj []) in
     if \<not> isRecord m then Inl (TypeError ''Cannot create property on a primitive'')
     else let m' = set_fields [(''acpProfile'', or_else (fld m ''acpProfile'') (JStr ''headless'')),
                              (''uiLane'', JBool (truthy (fld m ''uiLane''))),
                              (''uiLaneReason'', or_else (fld m ''uiLaneReason'') (JStr []))] m
          in if fld m' ''acpProfile'' = JStr ''ui'' \<and> \<not> truthy (fld m' ''uiLaneReason'')
             then Inl (ErrorMsg ''ui profile requires a non-empty uiLaneReason in queue metadata'') else Inr m')"

text \<open>The normalised input, its metadata resolved and its source path completed from the registry.\<close>

definition prepared_input :: "enqueue_env \<Rightarrow> js \<Rightarrow> js result" where
  "prepared_input env input =
     (if \<not> truthy (fld input ''projectId'') then Inl (ErrorMsg ''projectId is required'')
      else let raw = buildMeta input;
               base = set_fields [(''projectId'', fld input ''projectId''), (''sourcePath'', stringOrNull (fld raw ''sourcePath'')),
                  (''sessionId'', stringOrNull (fld raw ''sessionId'')), (''workerId'', stringOrNull (fld raw ''workerId'')),
                  (''cwd'', stringOrNull (fld raw ''cwd'')), (''executionBoundary'', REQUIRED_EXECUTION_BOUNDARY)] input
           in thn (lane_metadata (fld base ''metadata'')) (\<lambda>m.
             let cpbRoot = or_else (fld base ''cwd'') (process_cwd env);
                 n = set_fields [(''metadata'', resolveAgentsForEntry env cpbRoot (fld input ''projectId'') m)] base
             in Inr (if truthy (fld n ''sourcePath'') then n
                else case getProject env (fld input ''projectId'') of Inl _ \<Rightarrow> n
                  | Inr project \<Rightarrow> if \<not> truthy (fld project ''sourcePath'') then n
                      else let n1 = set_fields [(''sourcePath'', fld project ''sourcePath'')] n
                           in if truthy (fld n1 ''cwd'') then n1 else set_fields [(''cwd'', fld project ''sourcePath'')] n1)))"

text \<open>The new entry. Its \<^verbatim>\<open>cwd\<close> is the one of the input: the registry's path completes the input only.\<close>

definition new_entry :: "enqueue_env \<Rightarrow> nat \<Rightarrow> js \<Rightarrow> js \<Rightarrow> js" where
  "new_entry env now input n = JObj [(''id'', JStr (generateId env)), (''projectId'', fld input ''projectId''),
     (''sourcePath'', fld n ''sourcePath''), (''sessionId'', fld n ''sessionId''), (''workerId'', fld n ''workerId''),
     (''cwd'', stringOrNull (fld (buildMeta input) ''cwd'')), (''executionBoundary'', REQUIRED_EXECUTION_BOUNDARY),
     (''type'', or_else (fld n ''type'') (JStr ''candidate'')), (''status'', JStr ''pending''),
     (''priority'', or_else (fld n ''priority'') (JStr ''P2'')), (''description'', or_else (fld n ''description'') (JStr [])),
     (''metadata'', or_else (fld n ''metadata'') (JObj [])), (''claimedBy'', JNull), (''claimedAt'', JNull),
     (''createdAt'', nowIso now), (''updatedAt'', nowIso now)]"

definition enqueue_entry :: "enqueue_env \<Rightarrow> nat \<Rightarrow> js \<Rightarrow> js \<Rightarrow> js list \<Rightarrow> (js list \<times> js) result" where
  "enqueue_entry env now input n q =
     (case find (\<lambda>e. entryKey e = entryKey n \<and> fld e ''status'' = JStr ''pending'') q of
        Some existing \<Rightarrow> Inr (q, existing)
      | None \<Rightarrow> Inr (q @ [new_entry env now input n], new_entry env now input n))"

definition enqueue :: "enqueue_env \<Rightarrow> nat \<Rightarrow> js \<Rightarrow> js list \<Rightarrow> js result \<times> js list" where
  "enqueue env now input q = (case prepared_input env input of Inl err \<Rightarrow> (Inl err, q)
     | Inr n \<Rightarrow> withQueueMutation (enqueue_entry env now input n) q)"

section \<open>Reading and updating\<close>

definition created_at :: "js \<Rightarrow> string" where
  "created_at e = (case fld e ''createdAt'' of JStr s \<Rightarrow> s | _ \<Rightarrow> [])"

definition peekQueue :: "js list \<Rightarrow> js option" where
  "peekQueue q = (case sort_key (\<lambda>e. (priorityScore (fld e ''priority''), created_at e)) (filter (\<lambda>e. fld e ''status'' = JStr ''pending'') q)
     of [] \<Rightarrow> None | e # _ \<Rightarrow> Some e)"

definition listQueue :: "js \<Rightarrow> js \<Rightarrow> js list \<Rightarrow> js list" where
  "listQueue status projectId q = filter (\<lambda>e. \<not> (truthy status \<and> \<not> strict_eq (fld e ''status'') status)
     \<and> \<not> (truthy projectId \<and> \<not> strict_eq (fld e ''projectId'') projectId)) q"

record update_guard =
  expectedStatus :: js
  expectedClaimedAt :: "js option"
  expectedUpdatedAt :: "js option"

definition guard_holds :: "update_guard \<Rightarrow> js \<Rightarrow> bool" where
  "guard_holds g e =
     ((case expectedStatus g of JUndef \<Rightarrow> True
        | JArr xs \<Rightarrow> js_includes xs (JStr (to_str (or_else (fld e ''status'') (JStr []))))
        | v \<Rightarrow> js_includes [v] (JStr (to_str (or_else (fld e ''status'') (JStr [])))))
      \<and> (case expectedClaimedAt g of None \<Rightarrow> True | Some v \<Rightarrow> strict_eq (nullish_or (fld e ''claimedAt'') JNull) v)
      \<and> (case expectedUpdatedAt g of None \<Rightarrow> True | Some v \<Rightarrow> strict_eq (nullish_or (fld e ''updatedAt'') JNull) v))"

definition patch_field :: "js \<Rightarrow> string \<Rightarrow> js \<Rightarrow> js" where
  "patch_field patch k e = (if fld patch k = JUndef then e else set_fields [(k, fld patch k)] e)"

definition patched :: "nat \<Rightarrow> js \<Rightarrow> js \<Rightarrow> js" where
  "patched now patch e =
     (let e1 = patch_field patch ''status'' e;
          e2 = (if truthy (fld patch ''metadata'')
                then set_fields [(''metadata'', JObj (spread (own (fld e1 ''metadata'')) (own (fld patch ''metadata''))))] e1 else e1);
          e3 = patch_field patch ''claimedBy'' e2;
          e4 = patch_field patch ''claimedAt'' e3;
          e5 = patch_field patch ''workerId'' e4;
          e6 = patch_field patch ''reason'' e5;
          e7 = patch_field patch ''completedAt'' e6;
          e8 = (if fld e7 ''status'' = JStr ''pending'' then clearClaim e7 else e7)
      in set_fields [(''updatedAt'', if fld patch ''updatedAt'' \<noteq> JUndef then fld patch ''updatedAt'' else nowIso now)] e8)"

definition entry_index :: "string \<Rightarrow> js list \<Rightarrow> nat option" where
  "entry_index i q = index_of (JStr i) (map (\<lambda>e. fld e ''id'') q)"

definition update_entry :: "nat \<Rightarrow> string \<Rightarrow> js \<Rightarrow> update_guard \<Rightarrow> js list \<Rightarrow> (js list \<times> js option) result" where
  "update_entry now entryId patch g q =
     (case entry_index entryId q of None \<Rightarrow> Inr (q, None)
      | Some i \<Rightarrow> if \<not> guard_holds g (q ! i) then Inr (q, None)
          else Inr (q[i := patched now patch (q ! i)], Some (patched now patch (q ! i))))"

definition updateEntry :: "nat \<Rightarrow> string \<Rightarrow> js \<Rightarrow> update_guard \<Rightarrow> js list \<Rightarrow> js option result \<times> js list" where
  "updateEntry now entryId patch g q = withQueueMutation (update_entry now entryId patch g) q"

text \<open>The outcome of a backlog item, written to the waiting and running entries of the same task.\<close>

definition backlog_metadata :: "js \<Rightarrow> js" where
  "backlog_metadata r = JObj ([(''syncedFrom'', JStr ''backlog''), (''backlogIssueId'', or_else (fld r ''backlogIssueId'') JNull),
     (''syncReason'', JStr (if truthy (fld r ''ok'') then ''backlog_completed'' else ''backlog_failed''))]
     @ (if truthy (fld r ''error'') then [(''error'', fld r ''error'')] else []))"

definition backlog_match :: "string \<Rightarrow> js \<Rightarrow> bool" where
  "backlog_match key e = (entryKey e = key \<and> (fld e ''status'' = JStr ''pending'' \<or> fld e ''status'' = JStr ''in_progress''))"

definition backlog_entry :: "nat \<Rightarrow> js \<Rightarrow> js \<Rightarrow> js" where
  "backlog_entry now r e = set_fields [(''status'', JStr (if truthy (fld r ''ok'') then ''completed'' else ''failed'')),
     (''metadata'', JObj (spread (own (fld e ''metadata'')) (own (backlog_metadata r)))), (''updatedAt'', nowIso now)] e"

definition sync_backlog :: "nat \<Rightarrow> js \<Rightarrow> js \<Rightarrow> js \<Rightarrow> js list \<Rightarrow> (js list \<times> js list) result" where
  "sync_backlog now projectId description r q =
     (let key = entryKey (JObj [(''projectId'', projectId), (''description'', description), (''metadata'', JObj [])])
      in Inr (map (\<lambda>e. if backlog_match key e then backlog_entry now r e else e) q,
              map (backlog_entry now r) (filter (backlog_match key) q)))"

definition syncBacklogResult :: "nat \<Rightarrow> js \<Rightarrow> js \<Rightarrow> js \<Rightarrow> js list \<Rightarrow> js list result \<times> js list" where
  "syncBacklogResult now projectId description r q =
     (if \<not> truthy projectId \<or> \<not> truthy description then (Inr [], q)
      else withQueueMutation (sync_backlog now projectId description (or_else r (JObj []))) q)"

end
