(* ===== verification/HubClaim.thy ===== *)
theory HubClaim
  imports HubQueue
begin

text \<open>
  Claiming work from the hub queue and reporting on it: \<^verbatim>\<open>claimEligible\<close>, \<^verbatim>\<open>queueStatus\<close> and the
  summaries of \<^verbatim>\<open>server/services/hub/hub-queue.ts\<close>, with the concurrency limits of
  \<^verbatim>\<open>server/services/infra.ts\<close> and the capability gate of \<^verbatim>\<open>server/services/project-capability-map.ts\<close>.

  A limit is a number that may be NaN: it comes from configuration. A table that the code keeps in an
  object indexed by project ids is an association list over their text. The configuration files, the
  project registry and the code index are read through the parameters of \<open>hub_env\<close>.
\<close>

section \<open>Concurrency limits\<close>

definition positiveInt :: "js \<Rightarrow> jsnum \<Rightarrow> jsnum" where
  "positiveInt v fallback = (let n = to_num v in if num_finite n \<and> num_lt (Fin 0) n then num_floor n else fallback)"

record hub_env =
  env_maxActive :: js
    \<comment> \<open>\<^verbatim>\<open>process.env.CPB_HUB_MAX_ACTIVE_PER_PROJECT\<close>\<close>
  env_providerMax :: js
    \<comment> \<open>\<^verbatim>\<open>process.env.CPB_ACP_POOL_PROVIDER_MAX\<close>\<close>
  hubConfig :: js
  registryProject :: "js \<Rightarrow> js"
  projectJson :: "js \<Rightarrow> js"
  projectFn :: "(js \<Rightarrow> js) option"
  indexStatus :: "js \<Rightarrow> js \<Rightarrow> js + js"
    \<comment> \<open>\<^verbatim>\<open>localCodeIndexStatus\<close>: what it throws or returns\<close>
  ensureIndexFresh :: "js \<Rightarrow> js"

definition DEFAULT_MAX_ACTIVE_PER_PROJECT :: "hub_env \<Rightarrow> jsnum" where
  "DEFAULT_MAX_ACTIVE_PER_PROJECT env = to_num (or_else (env_maxActive env) (jnat 2))"

definition DEFAULT_ACP_PROVIDER_MAX :: "hub_env \<Rightarrow> jsnum" where
  "DEFAULT_ACP_PROVIDER_MAX env = to_num (or_else (env_providerMax env) (jnat 3))"

definition maxActiveForProject :: "js \<Rightarrow> jsnum \<Rightarrow> jsnum" where
  "maxActiveForProject project fallback =
     (let p = recordValue project; concurrency = recordValue (fld p ''concurrency''); m = recordValue (fld p ''metadata'')
      in positiveInt (nullish_or (fld concurrency ''maxActivePerProject'') (nullish_or (fld concurrency ''maxActive'')
           (nullish_or (fld m ''maxActivePerProject'') (fld m ''maxActive'')))) fallback)"

definition hasConfig :: "js \<Rightarrow> bool" where
  "hasConfig v = (own v \<noteq> [])"

definition mergeProjectConfig :: "js \<Rightarrow> js \<Rightarrow> js" where
  "mergeProjectConfig registry project =
     (if \<not> hasConfig registry \<and> \<not> hasConfig project then JNull
      else JObj (spread (spread (own registry) (own project))
        [(''metadata'', JObj (spread (own (fld registry ''metadata'')) (own (fld project ''metadata'')))),
         (''concurrency'', JObj (spread (own (fld registry ''concurrency'')) (own (fld project ''concurrency''))))]))"

definition readProjectConcurrencyConfig :: "hub_env \<Rightarrow> js \<Rightarrow> js" where
  "readProjectConcurrencyConfig env projectId =
     (if \<not> truthy projectId then JNull
      else mergeProjectConfig (case projectFn env of Some f \<Rightarrow> f projectId | None \<Rightarrow> registryProject env projectId)
             (projectJson env projectId))"

definition resolveProjectConcurrencyLimits :: "hub_env \<Rightarrow> js list \<Rightarrow> jsnum \<Rightarrow> (js \<times> jsnum) list" where
  "resolveProjectConcurrencyLimits env projectIds maxActivePerProject =
     (let fallback = positiveInt (JNum maxActivePerProject) (DEFAULT_MAX_ACTIVE_PER_PROJECT env)
      in map (\<lambda>p. (p, maxActiveForProject (readProjectConcurrencyConfig env p) fallback)) (uniq (filter truthy projectIds)))"

record hub_limits =
  maxActivePerProject :: jsnum
  acpProviderMax :: jsnum

definition resolveHubConcurrencyLimits :: "hub_env \<Rightarrow> js \<Rightarrow> js \<Rightarrow> hub_limits" where
  \<comment> \<open>the fallback of each limit, undefined when not given\<close>
  "resolveHubConcurrencyLimits env fallbackActive fallbackProvider =
     \<lparr>maxActivePerProject = positiveInt (nullish_or (fld (recordValue (fld (hubConfig env) ''concurrency'')) ''maxActivePerProject'') fallbackActive)
        (DEFAULT_MAX_ACTIVE_PER_PROJECT env),
      acpProviderMax = positiveInt (nullish_or (fld (recordValue (fld (hubConfig env) ''acpPool'')) ''providerMax'') fallbackProvider)
        (DEFAULT_ACP_PROVIDER_MAX env)\<rparr>"

definition limitForProject :: "(js \<times> jsnum) list \<Rightarrow> js \<Rightarrow> jsnum \<Rightarrow> jsnum" where
  "limitForProject limits projectId fallback =
     positiveInt (case map_of limits projectId of None \<Rightarrow> JUndef | Some n \<Rightarrow> JNum n) fallback"

definition reached :: "nat \<Rightarrow> jsnum \<Rightarrow> bool" where
  \<comment> \<open>\<^verbatim>\<open>n >= limit\<close>\<close>
  "reached n limit = num_le limit (Fin (of_nat n))"

section \<open>Summaries\<close>

definition target_key :: "js \<Rightarrow> js \<Rightarrow> string option" where
  "target_key e job = (if \<not> truthy (fld e ''projectId'') \<or> \<not> truthy job then None
     else Some (to_str (fld e ''projectId'') @ [CHR 0x09] @ to_str job))"

definition failedTargetKey :: "js \<Rightarrow> string option" where
  "failedTargetKey e = target_key e (if fld e ''type'' = JStr ''cli_retry'' then meta e ''retryJobId''
     else JStr (''job-'' @ to_str (fld e ''id'')))"

definition ACTIVE_RETRY_STATUSES :: "js list" where
  "ACTIVE_RETRY_STATUSES = [JStr ''pending'', JStr ''scheduled'', JStr ''in_progress'']"

definition activeRetryTargetKey :: "js \<Rightarrow> string option" where
  "activeRetryTargetKey e = (if fld e ''type'' \<noteq> JStr ''cli_retry'' \<or> fld e ''status'' \<notin> set ACTIVE_RETRY_STATUSES then None
     else target_key e (meta e ''retryJobId''))"

definition completedRetryTargetKey :: "js \<Rightarrow> string option" where
  "completedRetryTargetKey e = (if fld e ''type'' \<noteq> JStr ''cli_retry'' \<or> fld e ''status'' \<noteq> JStr ''completed'' then None
     else target_key e (meta e ''retryJobId''))"

record failed_summary =
  failedEntries :: nat
  failedTargets :: nat
  retryingFailedTargets :: nat
  retriedFailedTargets :: nat
  unretriedFailedTargets :: int

definition keys_of :: "(js \<Rightarrow> string option) \<Rightarrow> js list \<Rightarrow> string list" where
  "keys_of f es = uniq (List.map_filter f es)"

definition summarizeFailedTargets :: "js list \<Rightarrow> failed_summary" where
  "summarizeFailedTargets es =
     (let failed = keys_of failedTargetKey (filter (\<lambda>e. fld e ''status'' = JStr ''failed'') es);
          active = keys_of activeRetryTargetKey es; completed = keys_of completedRetryTargetKey es;
          retrying = length (filter (\<lambda>t. t \<in> set active) failed);
          retried = length (filter (\<lambda>t. t \<notin> set active \<and> t \<in> set completed) failed)
      in \<lparr>failedEntries = length (filter (\<lambda>e. fld e ''status'' = JStr ''failed'') es), failedTargets = length failed,
          retryingFailedTargets = retrying, retriedFailedTargets = retried,
          unretriedFailedTargets = int (length failed) - int retrying - int retried\<rparr>)"

record project_status =
  ps_counts :: "(string \<times> nat) list"
    \<comment> \<open>the entries in each status, by the name of the counter\<close>
  ps_activeMutating :: nat
  ps_busy :: bool
  ps_busyReason :: js
  ps_limit :: jsnum
  ps_claim :: "js \<times> js \<times> js"
    \<comment> \<open>\<^verbatim>\<open>claimedBy\<close>, \<^verbatim>\<open>claimedAt\<close> and \<^verbatim>\<open>workerId\<close> of the last active entry\<close>
  ps_activeEntryIds :: "js list"
  ps_eligibleEntryIds :: "js list"
    \<comment> \<open>\<^verbatim>\<open>eligiblePending\<close> is their number\<close>
  ps_failed :: failed_summary

definition counter_of :: "js \<Rightarrow> string option" where
  "counter_of status = map_of [(JStr ''pending'', ''pending''), (JStr ''scheduled'', ''scheduled''), (JStr ''in_progress'', ''inProgress''),
     (JStr ''completed'', ''completed''), (JStr ''failed'', ''failed''), (JStr ''blocked'', ''blocked''), (JStr ''cancelled'', ''cancelled''),
     (JStr ''local_code_index_unavailable'', ''localCodeIndexUnavailable'')] status"

definition zero_counts :: "(string \<times> nat) list" where
  "zero_counts = map (\<lambda>k. (k, 0)) [''pending'', ''scheduled'', ''inProgress'', ''completed'', ''failed'', ''blocked'', ''cancelled'',
     ''localCodeIndexUnavailable'']"

definition count_status :: "js \<Rightarrow> (string \<times> nat) list \<Rightarrow> (string \<times> nat) list" where
  "count_status status counts = (case counter_of status of None \<Rightarrow> counts
     | Some k \<Rightarrow> AList.map_entry k Suc counts)"

definition fresh_project_status :: "jsnum \<Rightarrow> project_status" where
  "fresh_project_status limit = \<lparr>ps_counts = zero_counts, ps_activeMutating = 0, ps_busy = False, ps_busyReason = JNull,
     ps_limit = limit, ps_claim = (JNull, JNull, JNull), ps_activeEntryIds = [], ps_eligibleEntryIds = [],
     ps_failed = summarizeFailedTargets []\<rparr>"

definition count_entry :: "js \<Rightarrow> project_status \<Rightarrow> project_status" where
  "count_entry e ps =
     (let ps1 = ps\<lparr>ps_counts := count_status (fld e ''status'') (ps_counts ps)\<rparr>
      in if isActiveEntry e \<and> isMutatingEntry e
         then ps1\<lparr>ps_activeMutating := Suc (ps_activeMutating ps1), ps_activeEntryIds := ps_activeEntryIds ps1 @ [fld e ''id''],
                  ps_busy := True,
                  ps_busyReason := JStr (if fld e ''status'' = JStr ''scheduled'' then ''scheduled-mutating-task'' else ''active-mutating-task''),
                  ps_claim := (fld e ''claimedBy'', fld e ''claimedAt'', fld e ''workerId'')\<rparr>
         else ps1)"

definition project_key :: "js \<Rightarrow> string" where
  "project_key e = to_str (fld e ''projectId'')"

definition project_pass :: "(js \<times> jsnum) list \<Rightarrow> jsnum \<Rightarrow> js \<Rightarrow> (string \<times> project_status) list \<Rightarrow> (string \<times> project_status) list" where
  "project_pass limits fallback e by =
     (let ps = (case map_of by (project_key e) of Some ps \<Rightarrow> ps
            | None \<Rightarrow> fresh_project_status (limitForProject limits (fld e ''projectId'') fallback))
      in AList.update (project_key e) (count_entry e ps) by)"

definition eligible_entry :: "js \<Rightarrow> project_status \<Rightarrow> project_status" where
  "eligible_entry e ps =
     (if \<not> isMutatingEntry e \<or> num_lt (Fin (of_nat (ps_activeMutating ps))) (ps_limit ps)
      then ps\<lparr>ps_eligibleEntryIds := ps_eligibleEntryIds ps @ [fld e ''id'']\<rparr>
      else ps\<lparr>ps_busy := True, ps_busyReason := JStr ''project-active-mutating-cap''\<rparr>)"

definition eligible_pass :: "js \<Rightarrow> (string \<times> project_status) list \<Rightarrow> (string \<times> project_status) list" where
  "eligible_pass e by = (if fld e ''status'' \<noteq> JStr ''pending'' then by else AList.map_entry (project_key e) (eligible_entry e) by)"

definition buildProjectQueueStatus :: "js list \<Rightarrow> jsnum \<Rightarrow> (js \<times> jsnum) list \<Rightarrow> (string \<times> project_status) list" where
  "buildProjectQueueStatus es fallback limits =
     (let by1 = fold (project_pass limits fallback) es [];
          by2 = map (\<lambda>(p, ps). (p, ps\<lparr>ps_failed := summarizeFailedTargets (filter (\<lambda>e. fld e ''projectId'' = JStr p) es)\<rparr>)) by1
      in fold eligible_pass es by2)"

record queue_status =
  qs_total :: nat
  qs_counts :: "(string \<times> nat) list"
  qs_needsIssueLink :: nat
  qs_failed :: failed_summary
  qs_activeMutatingTotal :: nat
  qs_projects :: "(string \<times> project_status) list"
  qs_activeProjects :: "(string \<times> project_status) list"
  qs_eligibleQueued :: nat
  qs_eligibleProjects :: "string list"

definition active_projects :: "(string \<times> project_status) list \<Rightarrow> (string \<times> project_status) list" where
  "active_projects by = filter (\<lambda>(_, ps). 0 < ps_activeMutating ps) by"

definition queueStatus :: "hub_env \<Rightarrow> js list \<Rightarrow> queue_status" where
  "queueStatus env es =
     (let hub = resolveHubConcurrencyLimits env JUndef JUndef;
          limits = resolveProjectConcurrencyLimits env (map (\<lambda>e. fld e ''projectId'') es) (maxActivePerProject hub);
          projects = buildProjectQueueStatus es (maxActivePerProject hub) limits
      in \<lparr>qs_total = length es, qs_counts = fold (\<lambda>e. count_status (fld e ''status'')) es zero_counts,
          qs_needsIssueLink = length (filter (\<lambda>e. fld e ''status'' = JStr ''needs_issue_link'') es),
          qs_failed = summarizeFailedTargets es,
          qs_activeMutatingTotal = length (filter (\<lambda>e. isActiveEntry e \<and> isMutatingEntry e) es),
          qs_projects = projects, qs_activeProjects = active_projects projects,
          qs_eligibleQueued = sum_list (map (\<lambda>(_, ps). length (ps_eligibleEntryIds ps)) projects),
          qs_eligibleProjects = map fst (filter (\<lambda>(_, ps). ps_eligibleEntryIds ps \<noteq> []) projects)\<rparr>)"

section \<open>The readiness of a project's code index\<close>

definition projectCapabilityMapGate :: "js \<Rightarrow> js" where
  "projectCapabilityMapGate project =
     (let m = recordValue (fld project ''metadata'');
          cap = recordValue (or_else (or_else (fld m ''project_capability_map'') (fld project ''project_capability_map''))
                  (fld m ''projectCapabilityMap''));
          confidence = or_else (or_else (or_else (fld cap ''confidence'') (fld m ''capabilityMapConfidence'')) (fld m ''confidence'')) JNull
      in if own cap = [] then JObj [(''available'', JBool False), (''reason'', JStr ''missing_project_capability_map''), (''confidence'', JNull)]
         else if confidence \<noteq> JStr ''high''
         then JObj [(''available'', JBool False), (''reason'', JStr ''project_capability_map_not_high_confidence''), (''confidence'', confidence)]
         else JObj [(''available'', JBool True), (''confidence'', JStr ''high''), (''generatedAt'', or_else (fld cap ''generatedAt'') JNull)])"

definition freshness :: "js \<Rightarrow> js \<Rightarrow> js \<Rightarrow> js \<Rightarrow> js" where
  \<comment> \<open>the record of an index that is not available\<close>
  "freshness dirty stale worktree reasons = JObj [(''available'', JBool False), (''indexDirty'', dirty), (''indexStale'', stale),
     (''worktreeDirty'', worktree), (''dirtyReasons'', reasons)]"

definition unavailable_because :: "js \<Rightarrow> js" where
  "unavailable_because reason = freshness (JBool True) (JBool False) (JBool False) (JArr [reason])"

definition errorDetails :: "js \<Rightarrow> string \<times> js" where
  "errorDetails err = (let details = (if isRecord (fld err ''details'') then fld err ''details'' else JNull)
     in (to_str (or_else (or_else (fld details ''reason'') (fld err ''code'')) (JStr ''local_code_index_unavailable'')), details))"

text \<open>The checks of a project that has its directories: what is written to the entry's metadata when one
  fails, or what is written when all hold, with the snapshot of the index. \<open>details\<close> and \<open>noReason\<close> are
  where the two callers differ.\<close>

definition index_gate :: "hub_env \<Rightarrow> js \<Rightarrow> (js \<Rightarrow> js) \<Rightarrow> (js \<Rightarrow> js) \<Rightarrow> js
    \<Rightarrow> (string \<times> js) list + ((string \<times> js) list \<times> js)" where
  "index_gate env cpbRoot details noReason project =
     (let cap = projectCapabilityMapGate project in
      if \<not> truthy (fld cap ''available'')
      then Inl [(''capabilityMap'', cap), (''indexFreshness'', unavailable_because (fld cap ''reason''))]
      else case indexStatus env (or_else (or_else (or_else cpbRoot (fld project ''cpbRoot'')) (fld (fld project ''metadata'') ''cpbRoot''))
                  (fld project ''sourcePath'')) (fld project ''sourcePath'') of
        Inl err \<Rightarrow> (let reason = JStr (fst (errorDetails err))
          in Inl [(''localCodeIndexReadiness'', JObj [(''available'', JBool False), (''reason'', reason), (''details'', details (snd (errorDetails err)))]),
                  (''indexFreshness'', unavailable_because reason)])
      | Inr st \<Rightarrow>
          if \<not> truthy (fld st ''available'')
          then (let reason = noReason (fld st ''reason'')
            in Inl [(''localCodeIndexReadiness'', JObj [(''available'', JBool False), (''reason'', reason)]),
                    (''indexFreshness'', unavailable_because reason)])
          else (let fresh = ensureIndexFresh env project
            in if \<not> truthy (fld fresh ''available'')
               then Inl [(''indexFreshness'', freshness (nullish_or (fld fresh ''indexDirty'') (JBool True))
                       (nullish_or (fld fresh ''indexStale'') (JBool False)) (nullish_or (fld fresh ''worktreeDirty'') (JBool False))
                       (nullish_or (fld fresh ''dirtyReasons'') (JArr [JStr ''local_code_index_unavailable''])))]
               else Inr ([(''localCodeIndexReadiness'', JObj [(''available'', JBool True),
                         (''sourcePath'', fld (fld st ''ref'') ''sourcePath''), (''ref'', fld st ''ref'')]),
                     (''indexSnapshot'', JObj [(''indexSnapshotId'', fld fresh ''indexSnapshotId''),
                         (''sourceFingerprint'', fld fresh ''sourceFingerprint''),
                         (''indexFreshness'', JObj [(''available'', JBool True), (''indexDirty'', JBool False), (''indexStale'', JBool False),
                            (''worktreeDirty'', nullish_or (fld fresh ''worktreeDirty'') (JBool False)), (''dirtyReasons'', JArr [])])])],
                    fld fresh ''indexSnapshotId'')))"

definition with_metadata :: "(string \<times> js) list \<Rightarrow> js \<Rightarrow> js" where
  "with_metadata kvs e = JObj (spread (own (fld e ''metadata'')) kvs)"

definition mark_unavailable :: "nat \<Rightarrow> (string \<times> js) list \<Rightarrow> js \<Rightarrow> js" where
  "mark_unavailable now kvs e = set_fields [(''status'', JStr ''local_code_index_unavailable''), (''updatedAt'', nowIso now),
     (''metadata'', with_metadata kvs e)] e"

text \<open>The gate of a candidate: on the left the entry marked as not ready, on the right the entry to take.\<close>

definition claim_gate :: "hub_env \<Rightarrow> js \<Rightarrow> nat \<Rightarrow> js \<Rightarrow> js + js" where
  "claim_gate env cpbRoot now c =
     (case projectFn env of None \<Rightarrow> Inr c
      | Some lookup \<Rightarrow>
          (let project = lookup (fld c ''projectId'') in
           if \<not> truthy project then Inr c
           else if \<not> truthy (fld project ''sourcePath'') \<or> \<not> truthy (fld project ''projectRuntimeRoot'')
           then Inl (mark_unavailable now [(''indexFreshness'', unavailable_because (JStr ''missing_source_or_runtime_root''))] c)
           else case index_gate env cpbRoot (\<lambda>d. d) (\<lambda>r. r) project of
               Inl kvs \<Rightarrow> Inl (mark_unavailable now kvs c)
             | Inr (kvs, snapshot) \<Rightarrow> Inr (set_fields [(''indexSnapshotId'', snapshot), (''metadata'', with_metadata kvs c)] c)))"

section \<open>Claiming\<close>

record claim_options =
  co_workerId :: js
  co_projectId :: js
  co_maxActive :: js
    \<comment> \<open>undefined for the default\<close>
  co_claimTimeoutMs :: int
  co_providerSlotsAvailable :: bool
  co_requireIssueLink :: bool
  co_cpbRoot :: js
  co_indexRetryMs :: int
  co_assignmentStore :: "(string \<Rightarrow> js) option"

record claim_result =
  cr_entry :: "js option"
  cr_reason :: js
  cr_recovered :: "js list"
  cr_activeProjects :: "(string \<times> project_status) list"
  cr_skippedBusy :: "js list"

definition platform_re :: re where
  \<comment> \<open>\<^verbatim>\<open>/platform|architecture.fix/i\<close>\<close>
  "platform_re = Alt (lit_ci ''platform'') (cats [lit_ci ''architecture'', dot, lit_ci ''fix''])"

definition platform_fix :: "js \<Rightarrow> bool" where
  "platform_fix e = re_test platform_re (to_str (or_else (fld e ''type'') (JStr [])))"

definition claim_rank :: "js \<Rightarrow> nat \<times> nat \<times> string" where
  \<comment> \<open>what the comparison of \<^verbatim>\<open>pending.sort\<close> looks at, in this order\<close>
  "claim_rank e = (if platform_fix e then 0 else 1, priorityScore (fld e ''priority''), created_at e)"

definition active_mutating :: "js list \<Rightarrow> string \<Rightarrow> nat" where
  \<comment> \<open>\<^verbatim>\<open>activeMutatingByProject[p] || 0\<close>\<close>
  "active_mutating es p = length (filter (\<lambda>e. isActiveEntry e \<and> isMutatingEntry e \<and> project_key e = p) es)"

definition claim_pending :: "claim_options \<Rightarrow> js list \<Rightarrow> nat list" where
  \<comment> \<open>the positions of the candidates, in the order in which they are tried\<close>
  "claim_pending opts es = sort_key (\<lambda>i. claim_rank (es ! i))
     (filter (\<lambda>i. fld (es ! i) ''status'' = JStr ''pending''
        \<and> (co_requireIssueLink opts \<longrightarrow> hasIssueLink (fld (es ! i) ''metadata''))
        \<and> (truthy (co_projectId opts) \<longrightarrow> strict_eq (fld (es ! i) ''projectId'') (co_projectId opts))) [0..<length es])"

definition claim_busy :: "(js \<Rightarrow> jsnum) \<Rightarrow> (string \<Rightarrow> nat) \<Rightarrow> js \<Rightarrow> bool" where
  "claim_busy limit active c = (isMutatingEntry c \<and> reached (active (project_key c)) (limit (fld c ''projectId'')))"

fun claim_loop :: "(nat \<Rightarrow> js \<Rightarrow> js + js) \<Rightarrow> (js \<Rightarrow> jsnum) \<Rightarrow> (string \<Rightarrow> nat) \<Rightarrow> nat list \<Rightarrow> js list \<Rightarrow> js list
    \<Rightarrow> js list \<times> nat option \<times> js list" where
  "claim_loop gate limit active [] es skipped = (es, None, skipped)"
| "claim_loop gate limit active (i # is) es skipped =
     (if claim_busy limit active (es ! i)
      then claim_loop gate limit active is es
             (if js_includes skipped (fld (es ! i) ''projectId'') then skipped else skipped @ [fld (es ! i) ''projectId''])
      else case gate i (es ! i) of
          Inl c' \<Rightarrow> claim_loop gate limit active is (es[i := c']) skipped
        | Inr c' \<Rightarrow> (es[i := c'], Some i, skipped))"

definition claimed :: "nat \<Rightarrow> js \<Rightarrow> js \<Rightarrow> js" where
  "claimed now workerId e = set_fields [(''status'', JStr ''in_progress''), (''claimedBy'', workerId), (''workerId'', workerId),
     (''claimedAt'', nowIso now), (''updatedAt'', nowIso now)] e"

text \<open>The entries after the two recoveries, and the limits in force.\<close>

definition claim_prepare :: "nat \<Rightarrow> claim_options \<Rightarrow> js list \<Rightarrow> (js list \<times> js list) result" where
  "claim_prepare now opts q =
     thn (recoverStaleInProgressAsync now (co_claimTimeoutMs opts) (co_assignmentStore opts) q) (\<lambda>(es, recovered, _).
       let (es', index) = recoverLocalCodeIndexUnavailable now (co_indexRetryMs opts) es in Inr (es', recovered @ index))"

definition claim_max :: "hub_env \<Rightarrow> claim_options \<Rightarrow> js" where
  \<comment> \<open>the option \<^verbatim>\<open>maxActivePerProject\<close> with its default\<close>
  "claim_max env opts = (if co_maxActive opts = JUndef then JNum (DEFAULT_MAX_ACTIVE_PER_PROJECT env) else co_maxActive opts)"

definition claim_limits :: "hub_env \<Rightarrow> claim_options \<Rightarrow> js list \<Rightarrow> (js \<times> jsnum) list" where
  "claim_limits env opts es = resolveProjectConcurrencyLimits env (map (\<lambda>e. fld e ''projectId'') es)
     (maxActivePerProject (resolveHubConcurrencyLimits env (claim_max env opts) JUndef))"

definition claim_limit :: "hub_env \<Rightarrow> claim_options \<Rightarrow> js list \<Rightarrow> js \<Rightarrow> jsnum" where
  "claim_limit env opts es p = limitForProject (claim_limits env opts es) p (to_num (claim_max env opts))"

definition claim_entry :: "hub_env \<Rightarrow> (nat \<Rightarrow> nat) \<Rightarrow> nat \<Rightarrow> claim_options \<Rightarrow> js list \<Rightarrow> (js list \<times> claim_result) result" where
  "claim_entry env clock now opts q =
     thn (claim_prepare now opts q) (\<lambda>(es, recovered).
       let pending = claim_pending opts es;
           (es', chosen, skipped) = claim_loop (\<lambda>i. claim_gate env (co_cpbRoot opts) (clock i)) (claim_limit env opts es)
              (active_mutating es) pending es [];
           es'' = (case chosen of None \<Rightarrow> es' | Some i \<Rightarrow> es'[i := claimed now (co_workerId opts) (es' ! i)]);
           status = buildProjectQueueStatus es'' (maxActivePerProject (resolveHubConcurrencyLimits env (claim_max env opts) JUndef))
              (claim_limits env opts es)
       in Inr (es'', \<lparr>cr_entry = map_option (\<lambda>i. es'' ! i) chosen,
            cr_reason = (if chosen \<noteq> None then JNull
               else if pending = [] \<and> \<not> truthy (co_projectId opts) then JStr ''no-pending-entries''
               else if pending = [] then JStr ''no-pending-for-project'' else JStr ''all-projects-busy''),
            cr_recovered = recovered, cr_activeProjects = active_projects status, cr_skippedBusy = skipped\<rparr>))"

definition claimEligible :: "hub_env \<Rightarrow> (nat \<Rightarrow> nat) \<Rightarrow> nat \<Rightarrow> claim_options \<Rightarrow> js list \<Rightarrow> claim_result result \<times> js list" where
  \<comment> \<open>\<open>clock i\<close> is the time at which the entry at \<open>i\<close> is found not ready\<close>
  "claimEligible env clock now opts q =
     (if \<not> co_providerSlotsAvailable opts
      then (Inr \<lparr>cr_entry = None, cr_reason = JStr ''provider-slots-exhausted'', cr_recovered = [], cr_activeProjects = [],
               cr_skippedBusy = []\<rparr>, q)
      else withQueueMutation (claim_entry env clock now opts) q)"

end
