(* ===== verification/HubQueueLemmas.thy ===== *)
theory HubQueueLemmas
  imports HubClaim
begin

text \<open>
  Lemmas on the hub queue: what the assignments to an entry's fields change, that a commit keeps every
  field, and what each operation does to one entry of the queue.
\<close>

section \<open>Fields of entries\<close>

lemma fld_set_fields: "fld (set_fields kvs e) k = (case map_of (rev kvs) k of None \<Rightarrow> fld e k | Some v \<Rightarrow> v)"
proof -
  have "fld (JObj (spread base kvs)) k = (case map_of (rev kvs) k of None \<Rightarrow> fld (JObj base) k | Some v \<Rightarrow> v)" for base
  proof (induction kvs arbitrary: base)
    case (Cons kv kvs)
    then show ?case
      by (cases kv) (auto simp: spread_simps fld_obj_set map_add_def split: option.splits)
  qed (simp add: spread_simps)
  then show ?thesis by (simp add: set_fields_def split: option.splits)
qed

lemma isRecord_set_fields [simp]: "isRecord (set_fields kvs e)"
  by (simp add: set_fields_def)

lemma fld_spread_own: "fld (JObj (spread (own v) kvs)) k = (case map_of (rev kvs) k of None \<Rightarrow> fld v k | Some w \<Rightarrow> w)"
  using fld_set_fields [of kvs v k] by (simp add: set_fields_def)

lemma find_SomeD: "find P xs = Some x \<Longrightarrow> P x \<and> x \<in> set xs"
  by (induction xs) (auto split: if_splits)

lemma find_some: "x \<in> set xs \<Longrightarrow> P x \<Longrightarrow> \<exists>y. find P xs = Some y"
  by (induction xs) auto

section \<open>Commits\<close>

text \<open>What the file holds after a commit: the entries as JSON values.\<close>

definition committed :: "js list \<Rightarrow> js list" where
  "committed q = map json_copy q"

lemma committed_simps [simp]: "length (committed q) = length q" "i < length q \<Longrightarrow> committed q ! i = json_copy (q ! i)"
  "committed [] = []" "committed (e # q) = json_copy e # committed q" "committed (q @ r) = committed q @ committed r"
  by (simp_all add: committed_def)

lemma committed_queue:
  assumes "list_all isRecord q"
  shows "normalizeQueue (json_copy (queue_json q)) = committed q"
proof -
  have "e \<noteq> JUndef" if "e \<in> set q" for e using assms that by (auto simp: list_all_iff)
  then have vals: "map (\<lambda>x. if x = JUndef then JNull else json_copy x) q = map json_copy q" by (intro map_cong) auto
  then have "normalizeQueue (json_copy (queue_json q)) = filter isRecord (map json_copy q)"
    unfolding vals [symmetric]
    by (simp add: normalizeQueue_def queue_json_def QUEUE_VERSION_def obj_get_def num_finite_def)
  also have "\<dots> = map json_copy q" using assms by (auto simp: list_all_iff filter_id_conv)
  finally show ?thesis by (simp add: committed_def)
qed

lemma mutation_Inr:
  assumes "withQueueMutation f q = (Inr v, q')"
    and "\<And>q1 w. f q = Inr (q1, w) \<Longrightarrow> list_all isRecord q1"
  obtains q1 where "f q = Inr (q1, v)" "q' = committed q1"
  using assms by (auto simp: withQueueMutation_def thn_def committed_queue split: sum.splits prod.splits)

lemma mutation_Inl: "withQueueMutation f q = (Inl err, q') \<Longrightarrow> q' = q"
  by (auto simp: withQueueMutation_def split: sum.splits prod.splits)

lemma mutation_total:
  assumes "f q = Inr (q1, v)" "list_all isRecord q1" "withQueueMutation f q = (r, q')"
  shows "q' = q \<or> (r = Inr v \<and> q' = committed q1)"
  using assms by (auto simp: withQueueMutation_def thn_def committed_queue split: sum.splits)

text \<open>A string, boolean or null survives the commit, and a value that is read back as one was one.\<close>

lemma json_copy_eq [simp]:
  "json_copy v = JStr s \<longleftrightarrow> v = JStr s" "json_copy v = JBool b \<longleftrightarrow> v = JBool b"
  by (cases v; simp)+

lemma json_copy_str: "is_str v \<Longrightarrow> json_copy v = v"
  by (cases v) simp_all

lemma isMutating_json [simp]: "isMutatingEntry (json_copy e) = isMutatingEntry e"
  by (simp add: isMutatingEntry_def)

lemma isActive_json [simp]: "isActiveEntry (json_copy e) = isActiveEntry e"
  by (simp add: isActiveEntry_def)


section \<open>Recovery, entry by entry\<close>

definition stale_entry :: "nat \<Rightarrow> int \<Rightarrow> (string \<Rightarrow> js) \<Rightarrow> js \<Rightarrow> js" where
  "stale_entry now window getAssignment e =
     (if \<not> isActiveEntry e \<or> \<not> elapsed now window (fld e ''claimedAt'') then e
      else if assignment_active (getAssignment (assignment_id e))
      then set_fields [(''claimedAt'', nowIso now), (''updatedAt'', nowIso now)] e
      else set_fields [(''updatedAt'', nowIso now)] (clearClaim (set_fields [(''status'', JStr ''pending'')] e)))"

lemma stale_loop_map: "fst (stale_loop now window f es) = map (stale_entry now window f) es"
  by (induction es) (simp_all add: stale_entry_def split_beta Let_def)

definition index_entry :: "nat \<Rightarrow> int \<Rightarrow> js \<Rightarrow> js" where
  "index_entry now window e =
     (if \<not> isLocalCodeIndexUnavailableStatus (fld e ''status'') \<or> \<not> elapsed now window (fld e ''updatedAt'') then e
      else let e1 = set_fields [(''status'', JStr ''pending''), (''updatedAt'', nowIso now)] e
           in if truthy (fld e ''metadata'')
              then set_fields [(''metadata'', drop_key ''indexFreshness'' (fld e ''metadata''))] e1 else e1)"

lemma index_loop_map: "fst (index_loop now window es) = map (index_entry now window) es"
  by (induction es) (simp_all add: index_entry_def split_beta Let_def)

text \<open>The entry after both recoveries of a claim.\<close>

definition prepared_entry :: "nat \<Rightarrow> claim_options \<Rightarrow> js \<Rightarrow> js" where
  "prepared_entry now opts e =
     (let e1 = (if co_claimTimeoutMs opts \<le> 0 then e
            else case co_assignmentStore opts of None \<Rightarrow> e | Some f \<Rightarrow> stale_entry now (co_claimTimeoutMs opts) f e)
      in if co_indexRetryMs opts \<le> 0 then e1 else index_entry now (co_indexRetryMs opts) e1)"

lemma claim_prepare_map:
  assumes "claim_prepare now opts q = Inr (es, rec)"
  shows "es = map (prepared_entry now opts) q"
    and "0 < co_claimTimeoutMs opts \<Longrightarrow> co_assignmentStore opts \<noteq> None"
proof -
  show "es = map (prepared_entry now opts) q"
  proof (cases "co_claimTimeoutMs opts \<le> 0")
    case True
    then show ?thesis
      using assms index_loop_map [of now "co_indexRetryMs opts" q]
      by (auto simp: claim_prepare_def recoverStaleInProgressAsync_def recoverLocalCodeIndexUnavailable_def
          prepared_entry_def [abs_def] split_beta Let_def split: if_splits)
  next
    case False
    with assms obtain f where f: "co_assignmentStore opts = Some f"
      by (auto simp: claim_prepare_def recoverStaleInProgressAsync_def split: option.splits)
    show ?thesis
      using assms False f stale_loop_map [of now "co_claimTimeoutMs opts" f q]
        index_loop_map [of now "co_indexRetryMs opts" "map (stale_entry now (co_claimTimeoutMs opts) f) q"]
      by (auto simp: claim_prepare_def recoverStaleInProgressAsync_def recoverLocalCodeIndexUnavailable_def
          prepared_entry_def [abs_def] split_beta Let_def o_def split: if_splits)
  qed
  show "0 < co_claimTimeoutMs opts \<Longrightarrow> co_assignmentStore opts \<noteq> None"
    using assms by (auto simp: claim_prepare_def recoverStaleInProgressAsync_def split: option.splits)
qed

text \<open>What every operation keeps of an entry.\<close>

definition identity_fields :: "string list" where
  "identity_fields = [''id'', ''projectId'', ''type'', ''priority'', ''description'', ''createdAt'']"

definition identity :: "js \<Rightarrow> js list" where
  "identity e = map (fld e) identity_fields"

lemma identity_eq: "identity e = identity e' \<longleftrightarrow> (\<forall>k\<in>set identity_fields. fld e k = fld e' k)"
  by (auto simp: identity_def)

lemma identity_json: "identity (json_copy e) = map json_copy (identity e)"
  by (simp add: identity_def o_def)

lemma same_identity:
  assumes "identity e = identity e'"
  shows "fld e ''id'' = fld e' ''id''" "fld e ''projectId'' = fld e' ''projectId''" "fld e ''type'' = fld e' ''type''"
    "fld e ''priority'' = fld e' ''priority''" "fld e ''description'' = fld e' ''description''"
    "fld e ''createdAt'' = fld e' ''createdAt''"
  using assms by (simp_all add: identity_def identity_fields_def)

lemma identity_set_fields: "set (map fst kvs) \<inter> set identity_fields = {} \<Longrightarrow> identity (set_fields kvs e) = identity e"
proof -
  assume new: "set (map fst kvs) \<inter> set identity_fields = {}"
  have "map_of (rev kvs) k = None" if "k \<in> set identity_fields" for k
    using new that by (auto simp: map_of_eq_None_iff)
  then show ?thesis unfolding identity_eq by (simp add: fld_set_fields)
qed

lemma identity_stale: "identity (stale_entry now w f e) = identity e"
  by (simp add: stale_entry_def clearClaim_def identity_set_fields identity_fields_def)

lemma identity_index: "identity (index_entry now w e) = identity e"
  by (simp add: index_entry_def Let_def identity_set_fields identity_fields_def)

lemma identity_prepared [simp]: "identity (prepared_entry now opts e) = identity e"
  by (simp add: prepared_entry_def Let_def identity_stale identity_index split: option.split)

lemma isRecord_prepared: "isRecord e \<Longrightarrow> isRecord (prepared_entry now opts e)"
  by (simp add: prepared_entry_def Let_def stale_entry_def index_entry_def split: option.split)

section \<open>The claim loop\<close>

text \<open>What the loop does to the entry at one position.\<close>

lemma claim_loop_nth:
  assumes "claim_loop gate limit active is es skipped = (es', chosen, skipped')" "distinct is" "set is \<subseteq> {..<length es}"
  shows "length es' = length es
    \<and> (\<forall>j<length es. es' ! j = es ! j \<or> (j \<in> set is \<and> gate j (es ! j) = Inl (es' ! j)) \<or> chosen = Some j)
    \<and> (\<forall>i. chosen = Some i \<longrightarrow> i \<in> set is \<and> \<not> claim_busy limit active (es ! i) \<and> gate i (es ! i) = Inr (es' ! i))"
  using assms
proof (induction gate limit active "is" es skipped arbitrary: es' rule: claim_loop.induct)
  case (2 gate limit active i "is" es skipped)
  have rest: "distinct is" "i \<notin> set is" "set is \<subseteq> {..<length es}" "i < length es" using "2.prems" by auto
  show ?case
  proof (cases "claim_busy limit active (es ! i)")
    case True
    from "2.IH"(1) [OF True _ rest(1,3)] "2.prems"(1) True show ?thesis by auto
  next
    case busy: False
    show ?thesis
    proof (cases "gate i (es ! i)")
      case (Inl c)
      let ?es = "es[i := c]"
      from "2.prems"(1) busy Inl have run: "claim_loop gate limit active is ?es skipped = (es', chosen, skipped')" by simp
      have other: "?es ! j = es ! j" if "j \<in> set is" for j
        using rest(2) that by (intro nth_list_update_neq) auto
      from "2.IH"(2) [OF busy Inl run rest(1)] rest(3)
      have IH: "length es' = length es" "\<forall>j<length es. es' ! j = ?es ! j \<or> (j \<in> set is \<and> gate j (?es ! j) = Inl (es' ! j)) \<or> chosen = Some j"
        "\<forall>k. chosen = Some k \<longrightarrow> k \<in> set is \<and> \<not> claim_busy limit active (?es ! k) \<and> gate k (?es ! k) = Inr (es' ! k)" by auto
      have "es' ! j = es ! j \<or> (j \<in> set (i # is) \<and> gate j (es ! j) = Inl (es' ! j)) \<or> chosen = Some j" if "j < length es" for j
      proof (cases "j = i")
        case True
        then have "es' ! j = c \<or> chosen = Some j" using IH(2) that rest(2) by auto
        then show ?thesis using True Inl by auto
      next
        case False
        then show ?thesis using IH(2) that by auto
      qed
      moreover have "k \<in> set (i # is) \<and> \<not> claim_busy limit active (es ! k) \<and> gate k (es ! k) = Inr (es' ! k)" if "chosen = Some k" for k
        using IH(3) that other by auto
      ultimately show ?thesis using IH(1) by blast
    next
      case (Inr c)
      with "2.prems"(1) busy rest(4) show ?thesis by auto
    qed
  qed
qed simp

text \<open>The candidates before the chosen one, or all of them, were passed over for a reason.\<close>

definition passed_over :: "(nat \<Rightarrow> js \<Rightarrow> js + js) \<Rightarrow> (js \<Rightarrow> jsnum) \<Rightarrow> (string \<Rightarrow> nat) \<Rightarrow> nat \<Rightarrow> js \<Rightarrow> bool" where
  "passed_over gate limit active j c = (claim_busy limit active c \<or> (\<exists>c'. gate j c = Inl c'))"

lemma claim_loop_order:
  assumes "claim_loop gate limit active is es skipped = (es', chosen, skipped')" "distinct is"
  shows "case chosen of
      None \<Rightarrow> \<forall>j\<in>set is. passed_over gate limit active j (es ! j)
    | Some i \<Rightarrow> (\<exists>xs ys. is = xs @ i # ys \<and> (\<forall>j\<in>set xs. passed_over gate limit active j (es ! j)))"
  using assms
proof (induction gate limit active "is" es skipped arbitrary: es' rule: claim_loop.induct)
  case (2 gate limit active i "is" es skipped)
  have i: "i \<notin> set is" "distinct is" using "2.prems"(2) by auto
  have step: ?case if run: "claim_loop gate limit active is es2 sk2 = (es', chosen, skipped')"
      and pass: "passed_over gate limit active i (es ! i)"
      and IH: "case chosen of None \<Rightarrow> \<forall>j\<in>set is. passed_over gate limit active j (es2 ! j)
        | Some k \<Rightarrow> (\<exists>xs ys. is = xs @ k # ys \<and> (\<forall>j\<in>set xs. passed_over gate limit active j (es2 ! j)))"
      and same: "\<forall>j\<in>set is. es2 ! j = es ! j" for es2 sk2
  proof (cases chosen)
    case None
    with IH same pass show ?thesis by auto
  next
    case (Some k)
    with IH obtain xs ys where xs: "is = xs @ k # ys" "\<forall>j\<in>set xs. passed_over gate limit active j (es2 ! j)" by auto
    then have "\<forall>j\<in>set (i # xs). passed_over gate limit active j (es ! j)" using same pass by auto
    with xs(1) have "i # is = (i # xs) @ k # ys \<and> (\<forall>j\<in>set (i # xs). passed_over gate limit active j (es ! j))" by simp
    with Some show ?thesis by (simp only: option.case) blast
  qed
  show ?case
  proof (cases "claim_busy limit active (es ! i)")
    case True
    with "2.prems"(1) obtain sk where run: "claim_loop gate limit active is es sk = (es', chosen, skipped')" by auto
    from "2.IH"(1) [OF True _ i(2)] "2.prems"(1) True have IH: "case chosen of None \<Rightarrow> \<forall>j\<in>set is. passed_over gate limit active j (es ! j)
        | Some k \<Rightarrow> (\<exists>xs ys. is = xs @ k # ys \<and> (\<forall>j\<in>set xs. passed_over gate limit active j (es ! j)))" by simp
    show ?thesis by (rule step [OF run _ IH]) (use True in \<open>simp_all add: passed_over_def\<close>)
  next
    case busy: False
    show ?thesis
    proof (cases "gate i (es ! i)")
      case (Inl c)
      from "2.prems"(1) busy Inl have run: "claim_loop gate limit active is (es[i := c]) skipped = (es', chosen, skipped')" by simp
      show ?thesis
        by (rule step [OF run _ "2.IH"(2) [OF busy Inl run i(2)]]) (use Inl i(1) in \<open>auto simp: passed_over_def intro!: nth_list_update_neq\<close>)
    next
      case (Inr c)
      with "2.prems"(1) busy have "chosen = Some i" by auto
      moreover have "i # is = [] @ i # is \<and> (\<forall>j\<in>set []. passed_over gate limit active j (es ! j))" by simp
      ultimately show ?thesis by (simp only: option.case) blast
    qed
  qed
qed simp

lemma claim_pending_props:
  "distinct (claim_pending opts es)"
  "i \<in> set (claim_pending opts es) \<longleftrightarrow> i < length es \<and> fld (es ! i) ''status'' = JStr ''pending''
     \<and> (co_requireIssueLink opts \<longrightarrow> hasIssueLink (fld (es ! i) ''metadata''))
     \<and> (truthy (co_projectId opts) \<longrightarrow> strict_eq (fld (es ! i) ''projectId'') (co_projectId opts))"
  "claim_pending opts es = xs @ i # ys \<Longrightarrow> j \<in> set ys \<Longrightarrow> claim_rank (es ! i) \<le> claim_rank (es ! j)"
proof -
  show "distinct (claim_pending opts es)" by (simp add: claim_pending_def)
  show "i \<in> set (claim_pending opts es) \<longleftrightarrow> i < length es \<and> fld (es ! i) ''status'' = JStr ''pending''
     \<and> (co_requireIssueLink opts \<longrightarrow> hasIssueLink (fld (es ! i) ''metadata''))
     \<and> (truthy (co_projectId opts) \<longrightarrow> strict_eq (fld (es ! i) ''projectId'') (co_projectId opts))"
    by (auto simp: claim_pending_def)
  assume split: "claim_pending opts es = xs @ i # ys" and j: "j \<in> set ys"
  have "sorted (map (\<lambda>i. claim_rank (es ! i)) (claim_pending opts es))" by (simp add: claim_pending_def)
  with split j show "claim_rank (es ! i) \<le> claim_rank (es ! j)" by (auto simp: sorted_append)
qed

section \<open>A claim, entry by entry\<close>

lemma claim_gate_cases:
  assumes "claim_gate env base now c = Inl c' \<or> claim_gate env base now c = Inr c'"
  obtains "c' = c" | kvs where "c' = mark_unavailable now kvs c" "map_of kvs ''mutating'' = None"
    | kvs snapshot where "c' = set_fields [(''indexSnapshotId'', snapshot), (''metadata'', with_metadata kvs c)] c" "map_of kvs ''mutating'' = None"
proof -
  have keys: "index_gate env base (\<lambda>d. d) (\<lambda>r. r) project = Inl kvs \<Longrightarrow> map_of kvs ''mutating'' = None"
    "index_gate env base (\<lambda>d. d) (\<lambda>r. r) project = Inr (kvs, snapshot) \<Longrightarrow> map_of kvs ''mutating'' = None" for project kvs snapshot
    by (auto simp: index_gate_def Let_def split: if_splits sum.splits)
  show thesis
  proof (cases "projectFn env")
    case None
    with assms that(1) show ?thesis by (auto simp: claim_gate_def)
  next
    case (Some f)
    let ?p = "f (fld c ''projectId'')"
    show ?thesis
    proof (cases "truthy ?p")
      case False
      with Some assms that(1) show ?thesis by (simp add: claim_gate_def)
    next
      case p: True
      show ?thesis
      proof (cases "\<not> truthy (fld ?p ''sourcePath'') \<or> \<not> truthy (fld ?p ''projectRuntimeRoot'')")
        case True
        have "map_of [(''indexFreshness'', unavailable_because (JStr ''missing_source_or_runtime_root''))] ''mutating'' = None" by simp
        moreover have "c' = mark_unavailable now [(''indexFreshness'', unavailable_because (JStr ''missing_source_or_runtime_root''))] c"
          using Some p assms True by (simp add: claim_gate_def)
        ultimately show ?thesis by (rule that(2) [rotated])
      next
        case False
        show ?thesis
        proof (cases "index_gate env base (\<lambda>d. d) (\<lambda>r. r) ?p")
          case (Inl kvs)
          with Some p False assms have "c' = mark_unavailable now kvs c" by (simp add: claim_gate_def)
          then show ?thesis using keys(1) [OF Inl] by (rule that(2))
        next
          case (Inr r)
          obtain kvs snapshot where r: "r = (kvs, snapshot)" by (cases r)
          with Inr Some p False assms
          have "c' = set_fields [(''indexSnapshotId'', snapshot), (''metadata'', with_metadata kvs c)] c" by (simp add: claim_gate_def)
          then show ?thesis using keys(2) [OF Inr [unfolded r]] by (rule that(3))
        qed
      qed
    qed
  qed
qed

lemma mutating_with_metadata:
  "map_of kvs ''mutating'' = None \<Longrightarrow> fld (with_metadata kvs c) ''mutating'' = meta c ''mutating''"
proof -
  assume "map_of kvs ''mutating'' = None"
  then have "map_of (rev kvs) ''mutating'' = None" by (simp add: map_of_eq_None_iff)
  then show ?thesis by (simp add: with_metadata_def fld_spread_own)
qed

text \<open>What the gate keeps: the identity and the kind of the task; and it makes no entry active.\<close>

lemma claim_gate_keeps:
  assumes "claim_gate env base now c = Inl c' \<or> claim_gate env base now c = Inr c'"
  shows "identity c' = identity c" "isMutatingEntry c' = isMutatingEntry c" "isRecord c \<Longrightarrow> isRecord c'"
    "fld c' ''status'' = fld c ''status'' \<or> fld c' ''status'' = JStr ''local_code_index_unavailable''"
proof -
  from assms have "identity c' = identity c \<and> isMutatingEntry c' = isMutatingEntry c \<and> (isRecord c \<longrightarrow> isRecord c')
    \<and> (fld c' ''status'' = fld c ''status'' \<or> fld c' ''status'' = JStr ''local_code_index_unavailable'')"
  proof (cases rule: claim_gate_cases)
    case (2 kvs)
    then show ?thesis
      using mutating_with_metadata [OF 2(2), of c]
      by (simp add: mark_unavailable_def identity_set_fields identity_fields_def isMutatingEntry_def fld_set_fields)
  next
    case (3 kvs snapshot)
    then show ?thesis
      using mutating_with_metadata [OF 3(2), of c]
      by (simp add: identity_set_fields identity_fields_def isMutatingEntry_def fld_set_fields)
  qed simp
  then show "identity c' = identity c" "isMutatingEntry c' = isMutatingEntry c" "isRecord c \<Longrightarrow> isRecord c'"
    "fld c' ''status'' = fld c ''status'' \<or> fld c' ''status'' = JStr ''local_code_index_unavailable''" by blast+
qed

lemma claimed_fields [simp]:
  "fld (claimed now w e) ''status'' = JStr ''in_progress''" "fld (claimed now w e) ''claimedBy'' = w"
  "fld (claimed now w e) ''workerId'' = w"
  "fld (claimed now w e) ''claimedAt'' = nowIso now" "fld (claimed now w e) ''updatedAt'' = nowIso now"
  "fld (claimed now w e) ''metadata'' = fld e ''metadata''" "identity (claimed now w e) = identity e"
  "isMutatingEntry (claimed now w e) = isMutatingEntry e" "isActiveEntry (claimed now w e)"
  by (simp_all add: claimed_def fld_set_fields identity_set_fields identity_fields_def isMutatingEntry_def isActiveEntry_def)

lemma isRecord_claimed [simp]: "isRecord (claimed now w e)"
  by (simp add: claimed_def)

text \<open>A claim taken apart: the entries prepared, the run of the loop, and the entries written.\<close>

definition claim_final :: "nat \<Rightarrow> claim_options \<Rightarrow> js list \<Rightarrow> nat option \<Rightarrow> js list" where
  "claim_final now opts es chosen = (case chosen of None \<Rightarrow> es | Some i \<Rightarrow> es[i := claimed now (co_workerId opts) (es ! i)])"

lemma claim_run:
  assumes "claimEligible env clock now opts q = (Inr r, q')" "list_all isRecord q" "co_providerSlotsAvailable opts"
  obtains es rec es' chosen skipped where
    "claim_prepare now opts q = Inr (es, rec)" "es = map (prepared_entry now opts) q" "list_all isRecord es"
    "claim_loop (\<lambda>i. claim_gate env (co_cpbRoot opts) (clock i)) (claim_limit env opts es) (active_mutating es)
       (claim_pending opts es) es [] = (es', chosen, skipped)"
    "length es' = length q"
    "\<And>j. j < length q \<Longrightarrow> es' ! j = es ! j \<or> (j \<in> set (claim_pending opts es) \<and>
       (claim_gate env (co_cpbRoot opts) (clock j) (es ! j) = Inl (es' ! j)
        \<or> claim_gate env (co_cpbRoot opts) (clock j) (es ! j) = Inr (es' ! j)))"
    "\<And>i. chosen = Some i \<Longrightarrow> i < length q \<and> i \<in> set (claim_pending opts es)
       \<and> \<not> claim_busy (claim_limit env opts es) (active_mutating es) (es ! i)
       \<and> claim_gate env (co_cpbRoot opts) (clock i) (es ! i) = Inr (es' ! i)"
    "q' = committed (claim_final now opts es' chosen)"
    "cr_entry r = map_option (\<lambda>i. claimed now (co_workerId opts) (es' ! i)) chosen"
    "list_all isRecord (claim_final now opts es' chosen)"
proof -
  note result = that
  have mutation: "withQueueMutation (claim_entry env clock now opts) q = (Inr r, q')"
    using assms by (simp add: claimEligible_def)
  have entry: "thesis" if f: "claim_entry env clock now opts q = Inr (q1, r)"
    and commit: "list_all isRecord q1 \<Longrightarrow> q' = committed q1" for q1
  proof -
    from f obtain es rec where p: "claim_prepare now opts q = Inr (es, rec)"
      by (auto simp: claim_entry_def thn_eq_Inr)
    obtain es' chosen skipped where run: "claim_loop (\<lambda>i. claim_gate env (co_cpbRoot opts) (clock i)) (claim_limit env opts es)
        (active_mutating es) (claim_pending opts es) es [] = (es', chosen, skipped)" by (metis prod_cases3)
    have es: "es = map (prepared_entry now opts) q" by (rule claim_prepare_map(1) [OF p])
    have rec_es: "list_all isRecord es" using assms(2) unfolding es by (simp add: list_all_iff isRecord_prepared)
    have len: "length es = length q" unfolding es by simp
    have bounds: "set (claim_pending opts es) \<subseteq> {..<length es}" by (auto simp: claim_pending_props(2))
    note nth = claim_loop_nth [OF run claim_pending_props(1) bounds]
    have q1: "q1 = claim_final now opts es' chosen" and r: "cr_entry r = map_option (\<lambda>i. claim_final now opts es' chosen ! i) chosen"
      using f run by (auto simp: claim_entry_def p Let_def claim_final_def split: option.splits)
    have len': "length es' = length q" using nth len by simp
    have chosen: "i < length q \<and> i \<in> set (claim_pending opts es)
       \<and> \<not> claim_busy (claim_limit env opts es) (active_mutating es) (es ! i)
       \<and> claim_gate env (co_cpbRoot opts) (clock i) (es ! i) = Inr (es' ! i)" if "chosen = Some i" for i
      using nth that len by (auto simp: claim_pending_props(2))
    have each: "es' ! j = es ! j \<or> (j \<in> set (claim_pending opts es) \<and>
       (claim_gate env (co_cpbRoot opts) (clock j) (es ! j) = Inl (es' ! j)
        \<or> claim_gate env (co_cpbRoot opts) (clock j) (es ! j) = Inr (es' ! j)))" if "j < length q" for j
      using nth that len chosen by metis
    have "isRecord (es' ! j)" if "j < length q" for j
      using each [OF that] rec_es that len claim_gate_keeps(3) by (metis list_all_length)
    then have "list_all isRecord es'" using len' by (simp add: list_all_length)
    then have rec': "list_all isRecord (claim_final now opts es' chosen)"
      by (auto simp: claim_final_def list_all_iff split: option.split dest!: set_update_subset_insert [THEN subsetD])
    have "cr_entry r = map_option (\<lambda>i. claimed now (co_workerId opts) (es' ! i)) chosen"
      using r chosen len' by (cases chosen) (auto simp: claim_final_def)
    with commit rec' q1 show thesis
      by (intro result [OF p es rec_es run len' each chosen]) auto
  qed
  show thesis
  proof (cases "claim_entry env clock now opts q")
    case (Inl err)
    with mutation show ?thesis by (auto simp: withQueueMutation_def thn_def split: sum.splits)
  next
    case (Inr qr)
    obtain q1 r1 where qr: "qr = (q1, r1)" by (cases qr)
    from mutation Inr have "r1 = r" "q' = normalizeQueue (json_copy (queue_json q1))"
      by (auto simp: withQueueMutation_def thn_def qr split: sum.splits prod.splits)
    then show ?thesis using entry [of q1] Inr committed_queue [of q1] qr by simp
  qed
qed

end
