(* ===== verification/HubProperties.thy ===== *)
theory HubProperties
  imports HubQueueLemmas
begin

text \<open>
  Properties of the hub queue: no task is lost, a claim stays within the limit of its project, is not
  taken away while it is fresh, and takes the best task that can run; and what the status of the queue
  calls eligible is what a claim can take.
\<close>

section \<open>The queues of the program\<close>

text \<open>A queue as the file holds it: JSON objects, each with an identifier of its own.\<close>

definition wf_queue :: "js list \<Rightarrow> bool" where
  "wf_queue q = (list_all isRecord q \<and> committed q = q \<and> list_all (\<lambda>e. is_str (fld e ''id'')) q
     \<and> distinct (map (\<lambda>e. fld e ''id'') q))"

text \<open>One operation on the queue file, by any process.\<close>

inductive queue_step :: "js list \<Rightarrow> js list \<Rightarrow> bool" where
  step_enqueue: "enqueue env now input q = (r, q') \<Longrightarrow> JStr (generateId env) \<notin> (\<lambda>e. fld e ''id'') ` set q \<Longrightarrow> queue_step q q'"
| step_update: "updateEntry now i patch g q = (r, q') \<Longrightarrow> queue_step q q'"
| step_claim: "claimEligible env clock now opts q = (r, q') \<Longrightarrow> queue_step q q'"
| step_backlog: "syncBacklogResult now projectId description result q = (r, q') \<Longrightarrow> queue_step q q'"

inductive_cases queue_stepE: "queue_step q q'"

lemma wf_queue_entry:
  assumes "wf_queue q" "e \<in> set q"
  shows "json_copy e = e" "isRecord e" "json_copy (fld e k) = fld e k" "is_str (fld e ''id'')"
proof -
  from assms have "map json_copy q = q" by (simp add: wf_queue_def committed_def)
  with assms(2) show e: "json_copy e = e" by (metis map_eq_conv map_idI map_ident)
  from assms show "isRecord e" "is_str (fld e ''id'')" by (simp_all add: wf_queue_def list_all_iff)
  from e show "json_copy (fld e k) = fld e k" by (metis fld_json_copy)
qed

lemma committed_idem [simp]: "committed (committed q) = committed q"
  by (simp add: committed_def)

text \<open>An operation that keeps the entries' identities, and perhaps appends new ones, keeps the queue
  well-formed and loses no task.\<close>

definition identities :: "js list \<Rightarrow> js list list" where
  "identities q = map identity q"

lemma identity_committed:
  assumes "wf_queue q" "e \<in> set q" "identity e' = identity e"
  shows "identity (json_copy e') = identity e"
proof -
  have "map json_copy (identity e) = identity e"
    using wf_queue_entry(3) [OF assms(1,2)] by (simp add: identity_def)
  with assms(3) show ?thesis by (simp add: identity_json)
qed

lemma kept_identities:
  assumes "wf_queue q" "length q1 = length q" "\<And>j. j < length q \<Longrightarrow> identity (q1 ! j) = identity (q ! j)"
    "list_all isRecord q1"
  shows "wf_queue (committed q1)" "identities (committed q1) = identities q"
proof -
  have ids: "identity (committed q1 ! j) = identity (q ! j)" if "j < length q" for j
    using identity_committed [OF assms(1), of "q ! j" "q1 ! j"] assms(2,3) that by simp
  then show "identities (committed q1) = identities q"
    using assms(2) by (simp add: identities_def list_eq_iff_nth_eq)
  have id: "fld (committed q1 ! j) ''id'' = fld (q ! j) ''id''" if "j < length q" for j
    by (rule same_identity(1) [OF ids [OF that]])
  then have "map (\<lambda>e. fld e ''id'') (committed q1) = map (\<lambda>e. fld e ''id'') q"
    using assms(2) by (simp add: list_eq_iff_nth_eq)
  moreover have "list_all (\<lambda>e. is_str (fld e ''id'')) (committed q1)"
    using id assms(1,2) by (simp add: list_all_length wf_queue_def)
  moreover have "list_all isRecord (committed q1)" using assms(4) by (simp add: committed_def list_all_iff)
  ultimately show "wf_queue (committed q1)" using assms(1) by (simp add: wf_queue_def)
qed

section \<open>No task is lost\<close>

lemma entry_index_nth: "entry_index i q = Some k \<Longrightarrow> k < length q \<and> fld (q ! k) ''id'' = JStr i"
  by (auto simp: entry_index_def dest: index_of_Some)

lemma patch_field_keeps:
  "k \<notin> set identity_fields \<Longrightarrow> identity (patch_field p k e) = identity e"
  "isRecord e \<Longrightarrow> isRecord (patch_field p k e)"
  by (simp_all add: patch_field_def identity_set_fields)

lemma patched_keeps: "identity (patched now p e) = identity e" "isRecord (patched now p e)"
  by (simp_all add: patched_def Let_def identity_set_fields patch_field_keeps clearClaim_def identity_fields_def)

lemma update_entry_shape:
  assumes "updateEntry now i patch g q = (r, q')" "list_all isRecord q" "r = Inr (Some e)"
  obtains k where "entry_index i q = Some k" "guard_holds g (q ! k)" "e = patched now patch (q ! k)"
    "q' = committed (q[k := e])" "list_all isRecord (q[k := e])"
proof -
  from assms have m: "withQueueMutation (update_entry now i patch g) q = (Inr (Some e), q')" by (simp add: updateEntry_def)
  have rec_up: "list_all isRecord (q[k := patched now patch (q ! k)])" for k
    using assms(2) by (auto simp: list_all_iff patched_keeps dest!: set_update_subset_insert [THEN subsetD])
  have r1: "list_all isRecord q1" if "update_entry now i patch g q = Inr (q1, w)" for q1 w
    using that assms(2) rec_up by (auto simp: update_entry_def split: option.splits if_splits)
  obtain q1 where "update_entry now i patch g q = Inr (q1, Some e)" "q' = committed q1"
    using mutation_Inr [OF m] r1 by metis
  then show ?thesis using that rec_up by (auto simp: update_entry_def split: option.splits if_splits)
qed

lemma update_entry_none:
  assumes "updateEntry now i patch g q = (Inr None, q')" "list_all isRecord q"
  shows "q' = committed q"
proof -
  from assms have m: "withQueueMutation (update_entry now i patch g) q = (Inr None, q')" by (simp add: updateEntry_def)
  have none: "q1 = q" if "update_entry now i patch g q = Inr (q1, None)" for q1
    using that by (auto simp: update_entry_def split: option.splits if_splits)
  have r1: "list_all isRecord q1" if "update_entry now i patch g q = Inr (q1, w)" for q1 w
    using that assms(2)
    by (auto simp: update_entry_def list_all_iff patched_keeps split: option.splits if_splits dest!: set_update_subset_insert [THEN subsetD])
  obtain q1 where "update_entry now i patch g q = Inr (q1, None)" "q' = committed q1"
    using mutation_Inr [OF m] r1 by metis
  with none show ?thesis by blast
qed

lemma step_update_keeps:
  assumes "updateEntry now i patch g q = (r, q')" "wf_queue q"
  shows "wf_queue q' \<and> identities q' = identities q"
proof -
  have rec: "list_all isRecord q" using assms(2) by (simp add: wf_queue_def)
  consider err where "r = Inl err" | "r = Inr None" | e where "r = Inr (Some e)" by (metis option.exhaust sum.exhaust)
  then show ?thesis
  proof cases
    case 1
    with assms mutation_Inl have "q' = q" unfolding updateEntry_def by blast
    with assms(2) show ?thesis by simp
  next
    case 2
    with update_entry_none assms rec have "q' = committed q" by blast
    with assms(2) show ?thesis by (simp add: wf_queue_def)
  next
    case 3
    from update_entry_shape [OF assms(1) rec 3] obtain k where k: "entry_index i q = Some k" "e = patched now patch (q ! k)"
      "q' = committed (q[k := e])" "list_all isRecord (q[k := e])" by metis
    have "identity (q[k := e] ! j) = identity (q ! j)" if "j < length q" for j
      using that k(2) by (cases "j = k") (simp_all add: patched_keeps)
    with kept_identities [OF assms(2) _ this k(4)] k(3) show ?thesis by simp
  qed
qed

lemma claim_kept:
  assumes "claimEligible env clock now opts q = (Inr r, q')" "wf_queue q" "co_providerSlotsAvailable opts"
  obtains es1 where "q' = committed es1" "length es1 = length q" "list_all isRecord es1"
    "\<And>j. j < length q \<Longrightarrow> identity (es1 ! j) = identity (q ! j)"
    "\<And>j. j < length q \<Longrightarrow> isMutatingEntry (es1 ! j) = isMutatingEntry (prepared_entry now opts (q ! j))"
proof -
  note result = that
  have rec: "list_all isRecord q" using assms(2) by (simp add: wf_queue_def)
  show thesis
  proof (rule claim_run [OF assms(1) rec assms(3)], goal_cases)
    case (1 es rc es' chosen skipped)
    have keeps: "identity (es' ! j) = identity (q ! j) \<and> isMutatingEntry (es' ! j) = isMutatingEntry (es ! j)" if "j < length q" for j
      using 1(6) [OF that] claim_gate_keeps(1,2) that 1(2) by (metis identity_prepared nth_map)
    have len: "length (claim_final now opts es' chosen) = length q"
      using 1(5) by (simp add: claim_final_def split: option.split)
    have "identity (claim_final now opts es' chosen ! j) = identity (q ! j)
      \<and> isMutatingEntry (claim_final now opts es' chosen ! j) = isMutatingEntry (prepared_entry now opts (q ! j))" if "j < length q" for j
      using keeps [OF that] that 1(2,5) by (cases chosen; cases "chosen = Some j") (auto simp: claim_final_def nth_list_update)
    then show ?case by (intro result [OF 1(8) len 1(10)]) blast+
  qed
qed

lemma step_claim_keeps:
  assumes "claimEligible env clock now opts q = (r, q')" "wf_queue q"
  shows "wf_queue q' \<and> identities q' = identities q"
proof (cases "co_providerSlotsAvailable opts")
  case False
  with assms show ?thesis by (auto simp: claimEligible_def)
next
  case slots: True
  show ?thesis
  proof (cases r)
    case (Inl err)
    with assms(1) slots have "q' = q" unfolding claimEligible_def using mutation_Inl by (metis (no_types))
    with assms(2) show ?thesis by simp
  next
    case (Inr res)
    from claim_kept [OF assms(1) [unfolded Inr] assms(2) slots] obtain es1 where
      "q' = committed es1" "length es1 = length q" "list_all isRecord es1" "\<And>j. j < length q \<Longrightarrow> identity (es1 ! j) = identity (q ! j)"
      by metis
    with kept_identities [OF assms(2)] show ?thesis by metis
  qed
qed

lemma step_backlog_keeps:
  assumes "syncBacklogResult now projectId description result q = (r, q')" "wf_queue q"
  shows "wf_queue q' \<and> identities q' = identities q"
proof (cases "\<not> truthy projectId \<or> \<not> truthy description")
  case True
  with assms show ?thesis by (auto simp: syncBacklogResult_def)
next
  case False
  let ?res = "or_else result (JObj [])"
  let ?key = "entryKey (JObj [(''projectId'', projectId), (''description'', description), (''metadata'', JObj [])])"
  define f where "f = (\<lambda>e. if backlog_match ?key e then backlog_entry now ?res e else e)"
  have f: "identity (f e) = identity e" "isRecord e \<Longrightarrow> isRecord (f e)" for e
    by (simp_all add: f_def backlog_entry_def identity_set_fields identity_fields_def)
  have rec: "list_all isRecord (map f q)"
    using assms(2) f(2) unfolding list_all_length wf_queue_def by simp
  have run: "sync_backlog now projectId description ?res q = Inr (map f q, map (backlog_entry now ?res) (filter (backlog_match ?key) q))"
    by (simp add: sync_backlog_def f_def Let_def)
  from False assms(1) have "withQueueMutation (sync_backlog now projectId description ?res) q = (r, q')"
    by (simp add: syncBacklogResult_def)
  from mutation_total [where f = "sync_backlog now projectId description ?res", OF run rec this] have "q' = q \<or> q' = committed (map f q)" by blast
  then show ?thesis
  proof
    assume "q' = q"
    with assms(2) show ?thesis by simp
  next
    assume "q' = committed (map f q)"
    moreover have "identity (map f q ! j) = identity (q ! j)" if "j < length q" for j using that f(1) by simp
    ultimately show ?thesis using kept_identities [OF assms(2) _ _ rec] by simp
  qed
qed

lemma enqueue_shape:
  assumes "enqueue env now input q = (r, q')" "wf_queue q"
  shows "q' = q \<or> (\<exists>n. prepared_input env input = Inr n \<and> r = Inr (new_entry env now input n)
    \<and> q' = committed (q @ [new_entry env now input n]))"
proof (cases "prepared_input env input")
  case (Inl err)
  with assms(1) show ?thesis by (simp add: enqueue_def)
next
  case (Inr n)
  let ?new = "new_entry env now input n"
  have rec: "list_all isRecord q" "list_all isRecord (q @ [?new])" using assms(2) by (simp_all add: wf_queue_def new_entry_def)
  have m: "withQueueMutation (enqueue_entry env now input n) q = (r, q')" using assms(1) Inr by (simp add: enqueue_def)
  show ?thesis
  proof (cases "find (\<lambda>e. entryKey e = entryKey n \<and> fld e ''status'' = JStr ''pending'') q")
    case None
    then have "enqueue_entry env now input n q = Inr (q @ [?new], ?new)" by (simp add: enqueue_entry_def)
    from mutation_total [where f = "enqueue_entry env now input n", OF this rec(2) m] Inr show ?thesis by blast
  next
    case (Some e)
    then have "enqueue_entry env now input n q = Inr (q, e)" by (simp add: enqueue_entry_def)
    from mutation_total [where f = "enqueue_entry env now input n", OF this rec(1) m] assms(2) show ?thesis by (auto simp: wf_queue_def)
  qed
qed

lemma new_entry_fields:
  "fld (new_entry env now input n) ''id'' = JStr (generateId env)" "isRecord (new_entry env now input n)"
  "fld (new_entry env now input n) ''projectId'' = fld input ''projectId''"
  "fld (new_entry env now input n) ''status'' = JStr ''pending''"
  "fld (new_entry env now input n) ''description'' = or_else (fld n ''description'') (JStr [])"
  "fld (new_entry env now input n) ''metadata'' = or_else (fld n ''metadata'') (JObj [])"
  by (simp_all add: new_entry_def)

lemma step_enqueue_keeps:
  assumes "enqueue env now input q = (r, q')" "JStr (generateId env) \<notin> (\<lambda>e. fld e ''id'') ` set q" "wf_queue q"
  shows "wf_queue q' \<and> take (length q) q' = q"
proof -
  have q: "committed q = q" using assms(3) by (simp add: wf_queue_def)
  have new: "wf_queue (q @ [json_copy (new_entry env now input n)])" for n
  proof -
    let ?e = "json_copy (new_entry env now input n)"
    have id: "fld ?e ''id'' = JStr (generateId env)" by (simp add: new_entry_fields)
    have "isRecord ?e" by (simp add: new_entry_fields)
    moreover have "distinct (map (\<lambda>e. fld e ''id'') (q @ [?e]))" using assms(2,3) id by (simp add: wf_queue_def)
    moreover have "list_all (\<lambda>e. is_str (fld e ''id'')) (q @ [?e])" using assms(3) id by (simp add: wf_queue_def)
    moreover have "committed (q @ [?e]) = q @ [?e]" using q by simp
    ultimately show ?thesis using assms(3) by (simp add: wf_queue_def)
  qed
  from enqueue_shape [OF assms(1,3)] consider "q' = q" | n where "q' = q @ [json_copy (new_entry env now input n)]"
    using q by (metis committed_simps(3-5))
  then show ?thesis
    by cases (use assms(3) new in simp_all)
qed

lemma step_keeps:
  assumes "queue_step q q'" "wf_queue q"
  shows "wf_queue q' \<and> (\<exists>xs. identities q' = identities q @ xs)"
  using assms(1)
proof cases
  case (step_enqueue env now input r)
  then have w: "wf_queue q'" "take (length q) q' = q" using step_enqueue_keeps assms(2) by blast+
  have "identities q' = identities (take (length q) q' @ drop (length q) q')" by simp
  also have "\<dots> = identities q @ identities (drop (length q) q')" unfolding w(2) by (simp add: identities_def)
  finally show ?thesis using w(1) by blast
next
  case (step_update now i patch g r)
  then show ?thesis using step_update_keeps assms(2) by (metis append_Nil2)
next
  case (step_claim env clock now opts r)
  then show ?thesis using step_claim_keeps assms(2) by (metis append_Nil2)
next
  case (step_backlog now projectId description result r)
  then show ?thesis using step_backlog_keeps assms(2) by (metis append_Nil2)
qed

text \<open>C11: No operation on the hub queue loses, reorders or renames a task: whatever sequence of enqueues,
  guarded updates, claims and backlog reports runs, by any processes, the queue stays well-formed (JSON
  objects with distinct ids), and the id, project, type, priority, description and creation time of each
  task stay what they were, in the same order; new tasks come at the end.\<close>

theorem tasks_kept:
  assumes "queue_step\<^sup>*\<^sup>* q q'" "wf_queue q"
  shows "wf_queue q' \<and> (\<exists>xs. identities q' = identities q @ xs)"
  using assms(1)
proof (induction rule: rtranclp_induct)
  case base
  show ?case using assms(2) by (metis append_Nil2)
next
  case (step q1 q2)
  then obtain xs where xs: "wf_queue q1" "identities q1 = identities q @ xs" by blast
  with step_keeps [OF step.hyps(2) xs(1)] obtain ys where "wf_queue q2" "identities q2 = identities q1 @ ys" by blast
  with xs(2) show ?case by (metis append.assoc)
qed

section \<open>Claims and limits\<close>

definition active_at :: "js list \<Rightarrow> string \<Rightarrow> nat \<Rightarrow> bool" where
  "active_at es p j = (isActiveEntry (es ! j) \<and> isMutatingEntry (es ! j) \<and> project_key (es ! j) = p)"

lemma active_mutating_card: "active_mutating es p = card {j. j < length es \<and> active_at es p j}"
  by (simp add: active_mutating_def active_at_def length_filter_conv_card)

lemma identity_project_key: "identity e = identity e' \<Longrightarrow> project_key e = project_key e'"
  using same_identity(2) [of e e'] by (simp add: project_key_def)

lemma claim_limit_prepared: "claim_limit env opts (map (prepared_entry now opts) q) = claim_limit env opts q"
proof -
  have "map (\<lambda>e. fld e ''projectId'') (map (prepared_entry now opts) q) = map (\<lambda>e. fld e ''projectId'') q"
    by (simp add: same_identity(2) [OF identity_prepared])
  then show ?thesis unfolding claim_limit_def [abs_def] claim_limits_def by (simp only:)
qed

text \<open>The facts of a successful claim that the properties use.\<close>

lemma claim_success:
  assumes "claimEligible env clock now opts q = (Inr r, q')" "wf_queue q" "cr_entry r = Some e"
  obtains es es' i where
    "es = map (prepared_entry now opts) q" "length es' = length q" "i < length q" "i \<in> set (claim_pending opts es)"
    "\<not> claim_busy (claim_limit env opts q) (active_mutating es) (es ! i)"
    "e = claimed now (co_workerId opts) (es' ! i)" "identity (es' ! i) = identity (q ! i)"
    "isMutatingEntry (es' ! i) = isMutatingEntry (es ! i)"
    "q' = committed (es'[i := e])"
    "\<And>j. j < length q \<Longrightarrow> es' ! j = es ! j \<or> fld (es ! j) ''status'' = JStr ''pending''
       \<and> identity (es' ! j) = identity (q ! j) \<and> (fld (es' ! j) ''status'' = JStr ''pending'' \<or> fld (es' ! j) ''status'' = JStr ''local_code_index_unavailable'')"
    "\<exists>es2 sk. claim_loop (\<lambda>i. claim_gate env (co_cpbRoot opts) (clock i)) (claim_limit env opts q) (active_mutating es)
       (claim_pending opts es) es [] = (es2, Some i, sk)"
proof -
  note result = that
  have rec: "list_all isRecord q" using assms(2) by (simp add: wf_queue_def)
  have slots: "co_providerSlotsAvailable opts" using assms(1,3) by (auto simp: claimEligible_def split: if_splits)
  show thesis
  proof (rule claim_run [OF assms(1) rec slots], goal_cases)
    case (1 es rc es' chosen skipped)
    from 1(9) assms(3) have "map_option (\<lambda>i. claimed now (co_workerId opts) (es' ! i)) chosen = Some e" by simp
    then obtain i where i: "chosen = Some i" "e = claimed now (co_workerId opts) (es' ! i)"
      unfolding map_option_eq_Some by blast
    note ch = 1(7) [OF i(1)]
    have gate: "claim_gate env (co_cpbRoot opts) (clock i) (es ! i) = Inr (es' ! i)" using ch by blast
    have pending: "fld (es ! j) ''status'' = JStr ''pending''" if "j \<in> set (claim_pending opts es)" for j
      using that by (simp add: claim_pending_props(2))
    have each: "es' ! j = es ! j \<or> fld (es ! j) ''status'' = JStr ''pending''
       \<and> identity (es' ! j) = identity (q ! j) \<and> (fld (es' ! j) ''status'' = JStr ''pending'' \<or> fld (es' ! j) ''status'' = JStr ''local_code_index_unavailable'')"
      if "j < length q" for j
    proof (cases "es' ! j = es ! j")
      case False
      with 1(6) [OF that] have g: "claim_gate env (co_cpbRoot opts) (clock j) (es ! j) = Inl (es' ! j)
          \<or> claim_gate env (co_cpbRoot opts) (clock j) (es ! j) = Inr (es' ! j)" and j: "j \<in> set (claim_pending opts es)" by auto
      have "identity (es' ! j) = identity (q ! j)" using claim_gate_keeps(1) [OF g] that 1(2) by simp
      then show ?thesis using claim_gate_keeps(4) [OF g] pending [OF j] by simp
    qed simp
    have "identity (es' ! i) = identity (q ! i)" "isMutatingEntry (es' ! i) = isMutatingEntry (es ! i)"
      using claim_gate_keeps(1,2) [OF disjI2 [OF gate]] ch 1(2) by simp_all
    moreover have "q' = committed (es'[i := e])" using 1(8) i by (simp add: claim_final_def)
    moreover have lim: "claim_limit env opts es = claim_limit env opts q" unfolding 1(2) by (rule claim_limit_prepared)
    moreover have "\<exists>es2 sk. claim_loop (\<lambda>i. claim_gate env (co_cpbRoot opts) (clock i)) (claim_limit env opts q) (active_mutating es)
       (claim_pending opts es) es [] = (es2, Some i, sk)" using 1(4) i(1) lim by auto
    ultimately show ?case using ch each i(2) 1(2,5) by (intro result [of es es' i]) auto
  qed
qed

text \<open>C10: A claim stays within the limit of its project: after a claim that takes a task that changes code,
  the project has at most as many such tasks scheduled or running as its limit says, where the limit is
  the one of the project's configuration, or the hub's, or the default.\<close>

theorem claim_within_limit:
  assumes "claimEligible env clock now opts q = (Inr r, q')" "wf_queue q"
    and "cr_entry r = Some e" "isMutatingEntry e" "fld e ''projectId'' = JStr p"
    and "claim_limit env opts q (JStr p) = Fin (of_nat n)"
  shows "active_mutating q' p \<le> n"
proof (rule claim_success [OF assms(1-3)], goal_cases)
  case (1 es es' i)
  have key: "project_key (json_copy (es' ! j)) = project_key (es ! j)" if "j < length q" for j
  proof -
    have "identity (es' ! j) = identity (q ! j)" using 1(10) [OF that] 1(1) that by auto
    from identity_committed [OF assms(2) nth_mem [OF that] this]
    have "identity (json_copy (es' ! j)) = identity (es ! j)" using 1(1) that by simp
    then show ?thesis by (rule identity_project_key)
  qed
  have idle: "active_at es p j" if "active_at q' p j" "j < length q" "j \<noteq> i" for j
    using that 1(10) [OF that(2)] key [OF that(2)] 1(2,9) by (auto simp: active_at_def isActiveEntry_def)
  have "{j. j < length q' \<and> active_at q' p j} \<subseteq> insert i {j. j < length es \<and> active_at es p j}"
    using idle 1(1,2,9) by auto
  then have "card {j. j < length q' \<and> active_at q' p j} \<le> card (insert i {j. j < length es \<and> active_at es p j})"
    by (intro card_mono) auto
  also have "\<dots> \<le> Suc (active_mutating es p)" by (simp add: active_mutating_card card_insert_if)
  finally have "active_mutating q' p \<le> Suc (active_mutating es p)" by (simp add: active_mutating_card)
  moreover have "active_mutating es p < n"
  proof -
    have "fld (es' ! i) ''projectId'' = JStr p"
      using assms(5) same_identity(2) [OF claimed_fields(7), of now "co_workerId opts" "es' ! i"] 1(6) by simp
    with same_identity(2) [OF 1(7)] have "fld (es ! i) ''projectId'' = JStr p"
      using 1(1,3) same_identity(2) [OF identity_prepared, of now opts "q ! i"] by simp
    moreover have "isMutatingEntry (es ! i)" using assms(4) 1(6,8) by simp
    ultimately have "\<not> reached (active_mutating es p) (claim_limit env opts q (JStr p))"
      using 1(5) by (simp add: claim_busy_def project_key_def)
    then show ?thesis using assms(6) by (auto simp: reached_def num_le_def)
  qed
  ultimately show ?case by simp
qed

section \<open>Claims do not collide\<close>

type_synonym claim_call = "hub_env \<times> (nat \<Rightarrow> nat) \<times> nat \<times> claim_options"

abbreviation call_time :: "claim_call \<Rightarrow> nat" where
  "call_time c \<equiv> fst (snd (snd c))"

abbreviation call_timeout :: "claim_call \<Rightarrow> int" where
  "call_timeout c \<equiv> co_claimTimeoutMs (snd (snd (snd c)))"

text \<open>Claims one after the other, by any workers: the entries handed out.\<close>

definition handed_out :: "claim_result result \<Rightarrow> js list" where
  "handed_out res = (case res of Inl _ \<Rightarrow> [] | Inr r \<Rightarrow> (case cr_entry r of None \<Rightarrow> [] | Some e \<Rightarrow> [e]))"

fun run_claims :: "claim_call list \<Rightarrow> js list \<Rightarrow> js list \<times> js list" where
  "run_claims [] q = ([], q)"
| "run_claims ((env, clock, now, opts) # cs) q =
     (let (res, q1) = claimEligible env clock now opts q; (es, q2) = run_claims cs q1 in (handed_out res @ es, q2))"

lemma prepared_live:
  assumes "isActiveEntry e" "co_claimTimeoutMs opts \<le> 0 \<or> \<not> elapsed now (co_claimTimeoutMs opts) (fld e ''claimedAt'')"
  shows "prepared_entry now opts e = e"
proof -
  have "index_entry now w e = e" for w
    using assms(1) by (auto simp: index_entry_def isActiveEntry_def isLocalCodeIndexUnavailableStatus_def)
  moreover have "stale_entry now (co_claimTimeoutMs opts) f e = e" if "\<not> co_claimTimeoutMs opts \<le> 0" for f
    using assms(2) that by (simp add: stale_entry_def)
  ultimately show ?thesis by (simp add: prepared_entry_def Let_def split: option.split)
qed

lemma live_claim_kept:
  assumes "claimEligible env clock now opts q = (res, q')" "wf_queue q" "i < length q" "isActiveEntry (q ! i)"
    and "co_claimTimeoutMs opts \<le> 0 \<or> \<not> elapsed now (co_claimTimeoutMs opts) (fld (q ! i) ''claimedAt'')"
  shows "length q' = length q" "q' ! i = q ! i" "e \<in> set (handed_out res) \<Longrightarrow> fld e ''id'' \<noteq> fld (q ! i) ''id''"
proof -
  have rec: "list_all isRecord q" using assms(2) by (simp add: wf_queue_def)
  have norm: "json_copy (q ! i) = q ! i" using wf_queue_entry(1) [OF assms(2)] assms(3) by simp
  have "length q' = length q \<and> q' ! i = q ! i \<and> (\<forall>e\<in>set (handed_out res). fld e ''id'' \<noteq> fld (q ! i) ''id'')"
  proof (cases "\<exists>r. res = Inr r \<and> co_providerSlotsAvailable opts")
    case False
    then have "q' = q" "handed_out res = []"
      using assms(1) mutation_Inl [of "claim_entry env clock now opts" q _ q']
      by (cases res; auto simp: claimEligible_def handed_out_def split: if_splits)+
    then show ?thesis by simp
  next
    case True
    then obtain r where r: "res = Inr r" "co_providerSlotsAvailable opts" by blast
    show ?thesis
    proof (rule claim_run [OF assms(1) [unfolded r(1)] rec r(2)], goal_cases)
      case (1 es rc es' chosen skipped)
      have same: "es ! i = q ! i" using 1(2) assms(3) prepared_live [OF assms(4,5)] by simp
      have out: "i \<notin> set (claim_pending opts es)"
        using assms(4) same by (auto simp: claim_pending_props(2) isActiveEntry_def)
      with 1(6) [OF assms(3)] same have es': "es' ! i = q ! i" by simp
      have not_i: "chosen \<noteq> Some i" using 1(7) out by blast
      then have "claim_final now opts es' chosen ! i = q ! i" using es' by (cases chosen) (simp_all add: claim_final_def)
      moreover have len: "length (claim_final now opts es' chosen) = length q"
        using 1(5) by (simp add: claim_final_def split: option.split)
      ultimately have "q' ! i = q ! i" "length q' = length q" using 1(8) assms(3) norm by simp_all
      moreover have "fld e ''id'' \<noteq> fld (q ! i) ''id''" if "e \<in> set (handed_out res)" for e
      proof -
        from that r(1) have "cr_entry r = Some e" by (auto simp: handed_out_def split: option.splits)
        from claim_success [OF assms(1) [unfolded r(1)] assms(2) this]
        obtain k es2 where k: "k < length q" "k \<in> set (claim_pending opts es)" "e = claimed now (co_workerId opts) (es2 ! k)"
          "identity (es2 ! k) = identity (q ! k)" using 1(2) by metis
        have "identity e = identity (q ! k)" using k(3,4) by simp
        then have "fld e ''id'' = fld (q ! k) ''id''" by (rule same_identity(1))
        moreover have "k \<noteq> i" using k(2) out by blast
        ultimately show ?thesis
          using assms(2,3) k(1) by (auto simp: wf_queue_def distinct_map inj_on_def dest: nth_eq_iff_index_eq)
      qed
      ultimately show ?case by blast
    qed
  qed
  then show "length q' = length q" "q' ! i = q ! i" "e \<in> set (handed_out res) \<Longrightarrow> fld e ''id'' \<noteq> fld (q ! i) ''id''" by blast+
qed

lemma held_through_claims:
  assumes "wf_queue q" "i < length q" "isActiveEntry (q ! i)"
    and "\<forall>c\<in>set cs. call_timeout c \<le> 0 \<or> \<not> elapsed (call_time c) (call_timeout c) (fld (q ! i) ''claimedAt'')"
  shows "\<forall>e\<in>set (fst (run_claims cs q)). fld e ''id'' \<noteq> fld (q ! i) ''id''"
  using assms
proof (induction cs arbitrary: q)
  case (Cons c cs)
  obtain env clock now opts where c: "c = (env, clock, now, opts)" by (cases c)
  obtain res q1 where run: "claimEligible env clock now opts q = (res, q1)" by (cases "claimEligible env clock now opts q")
  have live: "co_claimTimeoutMs opts \<le> 0 \<or> \<not> elapsed now (co_claimTimeoutMs opts) (fld (q ! i) ''claimedAt'')"
    using Cons.prems(4) by (simp add: c)
  note kept = live_claim_kept [OF run Cons.prems(1-3) live]
  have "wf_queue q1" using step_claim_keeps [OF run Cons.prems(1)] by blast
  from Cons.IH [OF this] kept(1,2) Cons.prems(2-4)
  have "\<forall>e\<in>set (fst (run_claims cs q1)). fld e ''id'' \<noteq> fld (q ! i) ''id''" by simp
  with kept(3) show ?case by (auto simp: c run split: prod.split)
qed simp

lemma elapsed_claim:
  "t < date_limit \<Longrightarrow> elapsed now w (nowIso t) \<longleftrightarrow> w \<le> int now - int t"
proof -
  assume t: "t < date_limit"
  have "toISOString t \<noteq> []" by (simp add: toISOString_def Let_def)
  with date_parse_iso [OF t] show ?thesis by (simp add: elapsed_def time_or_zero_def nowIso_def)
qed

text \<open>C9: No task is handed out twice: in a sequence of claims by any workers, each of them made before the
  claims of the ones before it have timed out for it, all tasks handed out are different, wherever the
  queue started.\<close>

theorem claims_exclusive:
  assumes "wf_queue q"
    and "sorted_wrt (\<lambda>c d. call_timeout d \<le> 0 \<or> int (call_time d) - int (call_time c) < call_timeout d) cs"
    and "\<forall>c\<in>set cs. call_time c < date_limit"
  shows "distinct (map (\<lambda>e. fld e ''id'') (fst (run_claims cs q)))"
  using assms
proof (induction cs arbitrary: q)
  case (Cons c cs)
  obtain env clock now opts where c: "c = (env, clock, now, opts)" by (cases c)
  obtain res q1 where run: "claimEligible env clock now opts q = (res, q1)" by (cases "claimEligible env clock now opts q")
  have wf1: "wf_queue q1" using step_claim_keeps [OF run Cons.prems(1)] by blast
  have rest: "distinct (map (\<lambda>e. fld e ''id'') (fst (run_claims cs q1)))"
    using Cons.IH [OF wf1] Cons.prems(2,3) by simp
  have "fld x ''id'' \<noteq> fld e ''id''" if e: "e \<in> set (handed_out res)" and x: "x \<in> set (fst (run_claims cs q1))" for e x
  proof -
    from e obtain r where r: "res = Inr r" "cr_entry r = Some e" by (auto simp: handed_out_def split: option.splits sum.splits)
    from claim_success [OF run [unfolded r(1)] Cons.prems(1) r(2)] obtain es' i where
      i: "i < length q" "length es' = length q" "e = claimed now (co_workerId opts) (es' ! i)" "q1 = committed (es'[i := e])"
      by metis
    then have q1: "i < length q1" "q1 ! i = json_copy e" by simp_all
    have fields: "isActiveEntry (q1 ! i)" "fld (q1 ! i) ''claimedAt'' = nowIso now"
      unfolding q1(2) using i(3) by (simp_all add: nowIso_def)
    have "call_timeout d \<le> 0 \<or> \<not> elapsed (call_time d) (call_timeout d) (nowIso now)" if "d \<in> set cs" for d
      using Cons.prems(2,3) that elapsed_claim [of now "call_time d" "call_timeout d"] by (auto simp: c)
    then have "\<forall>d\<in>set cs. call_timeout d \<le> 0 \<or> \<not> elapsed (call_time d) (call_timeout d) (fld (q1 ! i) ''claimedAt'')"
      unfolding fields(2) by blast
    from held_through_claims [OF wf1 q1(1) fields(1) this] x have "fld x ''id'' \<noteq> fld (q1 ! i) ''id''" by simp
    moreover have "fld (q1 ! i) ''id'' = fld e ''id''"
    proof -
      have "fld (q1 ! i) ''id'' = json_copy (fld e ''id'')" by (simp add: q1(2))
      moreover have "is_str (fld (q1 ! i) ''id'')" using wf1 q1(1) by (simp add: wf_queue_def list_all_length)
      ultimately show ?thesis by (cases "fld e ''id''") (auto split: if_splits)
    qed
    ultimately show ?thesis by simp
  qed
  moreover have "distinct (map (\<lambda>e. fld e ''id'') (handed_out res))" by (simp add: handed_out_def split: sum.split option.split)
  ultimately show ?case using rest by (fastforce simp: c run split: prod.split)
qed simp

section \<open>The choice of a claim\<close>

lemma claim_choice:
  assumes "claimEligible env clock now opts q = (Inr r, q')" "wf_queue q" "co_providerSlotsAvailable opts"
    and "claim_prepare now opts q = Inr (es, recovered)"
  shows "case cr_entry r of
      Some e \<Rightarrow> \<exists>i\<in>set (claim_pending opts es). fld e ''id'' = fld (es ! i) ''id''
        \<and> \<not> claim_busy (claim_limit env opts es) (active_mutating es) (es ! i)
        \<and> (\<exists>e'. claim_gate env (co_cpbRoot opts) (clock i) (es ! i) = Inr e')
        \<and> (\<forall>j\<in>set (claim_pending opts es). claim_rank (es ! j) < claim_rank (es ! i) \<longrightarrow>
             passed_over (\<lambda>i. claim_gate env (co_cpbRoot opts) (clock i)) (claim_limit env opts es) (active_mutating es) j (es ! j))
    | None \<Rightarrow> \<forall>j\<in>set (claim_pending opts es).
             passed_over (\<lambda>i. claim_gate env (co_cpbRoot opts) (clock i)) (claim_limit env opts es) (active_mutating es) j (es ! j)"
proof -
  have rec: "list_all isRecord q" using assms(2) by (simp add: wf_queue_def)
  let ?passed = "\<lambda>j. passed_over (\<lambda>i. claim_gate env (co_cpbRoot opts) (clock i)) (claim_limit env opts es) (active_mutating es) j (es ! j)"
  show ?thesis
  proof (rule claim_run [OF assms(1) rec assms(3)], goal_cases)
    case (1 es0 rc es' chosen skipped)
    have es: "es0 = es" using 1(1) assms(4) by simp
    note order = claim_loop_order [OF 1(4) [unfolded es] claim_pending_props(1)]
    show ?case
    proof (cases chosen)
      case None
      with order 1(9) show ?thesis by simp
    next
      case (Some i)
      with order obtain xs ys where xs: "claim_pending opts es = xs @ i # ys" "\<forall>j\<in>set xs. ?passed j" by auto
      have ch: "i \<in> set (claim_pending opts es)" "\<not> claim_busy (claim_limit env opts es) (active_mutating es) (es ! i)"
        "claim_gate env (co_cpbRoot opts) (clock i) (es ! i) = Inr (es' ! i)"
        using 1(7) [OF Some] es by auto
      have "identity (claimed now (co_workerId opts) (es' ! i)) = identity (es ! i)"
        using claim_gate_keeps(1) [OF disjI2 [OF ch(3)]] by simp
      then have id: "fld (claimed now (co_workerId opts) (es' ! i)) ''id'' = fld (es ! i) ''id''" by (rule same_identity(1))
      have "?passed j" if "j \<in> set (claim_pending opts es)" "claim_rank (es ! j) < claim_rank (es ! i)" for j
        using that xs claim_pending_props(3) [OF xs(1), of j] by (auto simp: not_le)
      with id ch have "\<exists>k\<in>set (claim_pending opts es). fld (claimed now (co_workerId opts) (es' ! i)) ''id'' = fld (es ! k) ''id''
        \<and> \<not> claim_busy (claim_limit env opts es) (active_mutating es) (es ! k)
        \<and> (\<exists>e'. claim_gate env (co_cpbRoot opts) (clock k) (es ! k) = Inr e')
        \<and> (\<forall>j\<in>set (claim_pending opts es). claim_rank (es ! j) < claim_rank (es ! k) \<longrightarrow> ?passed j)" by blast
      moreover have "cr_entry r = Some (claimed now (co_workerId opts) (es' ! i))" using 1(9) Some by simp
      ultimately show ?thesis by (simp only: option.case)
    qed
  qed
qed

text \<open>C30: A claim takes the first task that can run. The task it takes is pending and matches the claim, its project is not
  at its limit, and the gate finds its index ready; a task of smaller rank (platform fixes before others, then by
  priority, then by age) that matches the claim is passed over only because its project is at its limit or its index
  is not ready. When a claim takes nothing, there is no provider slot, or every task that matches it is passed over
  for one of these two reasons.\<close>

theorem claim_takes_first:
  assumes "claimEligible env clock now opts q = (Inr r, q')" "wf_queue q" "claim_prepare now opts q = Inr (es, recovered)"
  shows "case cr_entry r of
      Some e \<Rightarrow> \<exists>i\<in>set (claim_pending opts es). fld e ''id'' = fld (es ! i) ''id''
        \<and> \<not> claim_busy (claim_limit env opts es) (active_mutating es) (es ! i)
        \<and> (\<exists>e'. claim_gate env (co_cpbRoot opts) (clock i) (es ! i) = Inr e')
        \<and> (\<forall>j\<in>set (claim_pending opts es). claim_rank (es ! j) < claim_rank (es ! i) \<longrightarrow>
             passed_over (\<lambda>i. claim_gate env (co_cpbRoot opts) (clock i)) (claim_limit env opts es) (active_mutating es) j (es ! j))
    | None \<Rightarrow> \<not> co_providerSlotsAvailable opts \<or> (\<forall>j\<in>set (claim_pending opts es).
             passed_over (\<lambda>i. claim_gate env (co_cpbRoot opts) (clock i)) (claim_limit env opts es) (active_mutating es) j (es ! j))"
proof (cases "co_providerSlotsAvailable opts")
  case True
  from claim_choice [OF assms(1,2) True assms(3)] True show ?thesis by (cases "cr_entry r") (simp_all only: option.case, simp_all)
next
  case False
  with assms(1) have "cr_entry r = None" by (auto simp: claimEligible_def)
  with False show ?thesis by simp
qed

section \<open>Status and claims agree\<close>

text \<open>The passes over the table of projects, for one project.\<close>

lemma count_entry_effect [simp]:
  "ps_activeMutating (count_entry e ps) = ps_activeMutating ps + (if isActiveEntry e \<and> isMutatingEntry e then 1 else 0)"
  "ps_limit (count_entry e ps) = ps_limit ps" "ps_eligibleEntryIds (count_entry e ps) = ps_eligibleEntryIds ps"
  by (simp_all add: count_entry_def Let_def)

lemma count_entries:
  "ps_activeMutating (fold count_entry es ps) = ps_activeMutating ps + length (filter (\<lambda>e. isActiveEntry e \<and> isMutatingEntry e) es)"
  "ps_limit (fold count_entry es ps) = ps_limit ps" "ps_eligibleEntryIds (fold count_entry es ps) = ps_eligibleEntryIds ps"
  by (induction es arbitrary: ps) simp_all

lemma project_pass_at:
  "map_of (project_pass limits fb e by) p = (if p = project_key e
     then Some (count_entry e (case map_of by p of Some ps \<Rightarrow> ps | None \<Rightarrow> fresh_project_status (limitForProject limits (fld e ''projectId'') fb)))
     else map_of by p)"
  by (simp add: project_pass_def Let_def update_conv)

lemma project_passes:
  "map_of (fold (project_pass limits fb) es by) p =
     (case map_of by p of Some ps \<Rightarrow> Some (fold count_entry (filter (\<lambda>e. project_key e = p) es) ps)
      | None \<Rightarrow> (case filter (\<lambda>e. project_key e = p) es of [] \<Rightarrow> None
          | e # es' \<Rightarrow> Some (fold count_entry (e # es') (fresh_project_status (limitForProject limits (fld e ''projectId'') fb)))))"
proof (induction es arbitrary: "by")
  case (Cons e es)
  show ?case by (cases "map_of by p") (auto simp: Cons.IH project_pass_at)
qed (simp split: option.split)

lemma distinct_project_passes:
  "distinct (map fst by) \<Longrightarrow> distinct (map fst (fold (project_pass limits fb) es by))"
  by (induction es arbitrary: "by") (simp_all add: project_pass_def Let_def distinct_update)

lemma eligible_entry_effect:
  "ps_activeMutating (eligible_entry e ps) = ps_activeMutating ps" "ps_limit (eligible_entry e ps) = ps_limit ps"
  "ps_eligibleEntryIds (eligible_entry e ps) = ps_eligibleEntryIds ps
     @ (if \<not> isMutatingEntry e \<or> num_lt (Fin (of_nat (ps_activeMutating ps))) (ps_limit ps) then [fld e ''id''] else [])"
  by (simp_all add: eligible_entry_def)

lemma eligible_entries:
  "ps_eligibleEntryIds (fold eligible_entry es ps) = ps_eligibleEntryIds ps @ map (\<lambda>e. fld e ''id'')
     (filter (\<lambda>e. \<not> isMutatingEntry e \<or> num_lt (Fin (of_nat (ps_activeMutating ps))) (ps_limit ps)) es)"
  by (induction es arbitrary: ps) (simp_all add: eligible_entry_effect)

lemma eligible_pass_at:
  "map_of (eligible_pass e by) p = (if fld e ''status'' = JStr ''pending'' \<and> project_key e = p
     then map_option (eligible_entry e) (map_of by p) else map_of by p)"
  by (simp add: eligible_pass_def map_of_map_entry split: option.split)

lemma eligible_passes:
  "map_of (fold eligible_pass es by) p =
     map_option (fold eligible_entry (filter (\<lambda>e. fld e ''status'' = JStr ''pending'' \<and> project_key e = p) es)) (map_of by p)"
  by (induction es arbitrary: "by") (simp_all add: eligible_pass_at option.map_comp o_def option.map_id)

lemma distinct_eligible_passes: "distinct (map fst by) \<Longrightarrow> distinct (map fst (fold eligible_pass es by))"
  by (induction es arbitrary: "by") (simp_all add: eligible_pass_def distinct_map_entry)

definition can_run :: "js list \<Rightarrow> (js \<Rightarrow> jsnum) \<Rightarrow> js \<Rightarrow> bool" where
  "can_run es limit e = (fld e ''status'' = JStr ''pending''
     \<and> (\<not> isMutatingEntry e \<or> num_lt (Fin (of_nat (active_mutating es (project_key e)))) (limit (fld e ''projectId''))))"

lemma active_mutating_project:
  "active_mutating es p = length (filter (\<lambda>e. isActiveEntry e \<and> isMutatingEntry e) (filter (\<lambda>e. project_key e = p) es))"
  by (simp add: active_mutating_def conj_ac)

lemma eligible_ids:
  assumes "\<forall>e\<in>set es. is_str (fld e ''projectId'')" "map_of (buildProjectQueueStatus es fb limits) p = Some ps"
  shows "ps_eligibleEntryIds ps = map (\<lambda>e. fld e ''id'') (filter (can_run es (\<lambda>p. limitForProject limits p fb)) (filter (\<lambda>e. project_key e = p) es))"
    and "\<exists>e\<in>set es. project_key e = p"
proof -
  let ?f = "filter (\<lambda>e. project_key e = p) es"
  let ?g = "\<lambda>(p, ps). (p, ps\<lparr>ps_failed := summarizeFailedTargets (filter (\<lambda>e. fld e ''projectId'' = JStr p) es)\<rparr>)"
  have second: "map_of (map ?g by) p = map_option (\<lambda>ps. snd (?g (p, ps))) (map_of by p)" for "by"
    by (induction "by") auto
  from assms(2) obtain e es' where f: "?f = e # es'"
    by (auto simp: buildProjectQueueStatus_def Let_def eligible_passes second project_passes split: list.splits)
  have "e \<in> set ?f" unfolding f by simp
  then have e: "e \<in> set es" "project_key e = p" by simp_all
  then show "\<exists>e\<in>set es. project_key e = p" by blast
  from e assms(1) have pid: "fld e ''projectId'' = JStr p"
    by (cases "fld e ''projectId''") (auto simp: project_key_def)
  have pids: "fld x ''projectId'' = JStr p" if "x \<in> set ?f" for x
    using that assms(1) by (cases "fld x ''projectId''") (auto simp: project_key_def)
  let ?lim = "limitForProject limits (JStr p) fb"
  have "ps_eligibleEntryIds ps = map (\<lambda>e. fld e ''id'') (filter (\<lambda>e. \<not> isMutatingEntry e \<or>
      num_lt (Fin (of_nat (active_mutating es p))) ?lim) (filter (\<lambda>e. fld e ''status'' = JStr ''pending'' \<and> project_key e = p) es))"
    using assms(2) f pid
    by (auto simp: buildProjectQueueStatus_def Let_def eligible_passes second project_passes eligible_entries
        count_entries fresh_project_status_def active_mutating_project simp del: fold_simps)
  also have "\<dots> = map (\<lambda>e. fld e ''id'') (filter (can_run es (\<lambda>p. limitForProject limits p fb)) ?f)"
    unfolding filter_filter
    by (intro arg_cong [where f = "map (\<lambda>e. fld e ''id'')"] filter_cong refl) (use pids in \<open>auto simp: can_run_def\<close>)
  finally show "ps_eligibleEntryIds ps = map (\<lambda>e. fld e ''id'') (filter (can_run es (\<lambda>p. limitForProject limits p fb)) ?f)" .
qed

lemma failed_pass:
  "map_of (map (\<lambda>(p, ps). (p, ps\<lparr>ps_failed := f p\<rparr>)) by) p = map_option (\<lambda>ps. ps\<lparr>ps_failed := f p\<rparr>) (map_of by p)"
  "map fst (map (\<lambda>(p, ps). (p, ps\<lparr>ps_failed := f p\<rparr>)) by) = map fst by"
  by (induction "by") auto

lemma project_in_table:
  assumes "e \<in> set es"
  shows "\<exists>ps. map_of (buildProjectQueueStatus es fb limits) (project_key e) = Some ps"
proof -
  from assms have "filter (\<lambda>x. project_key x = project_key e) es \<noteq> []" by (auto simp: filter_empty_conv)
  then obtain x xs where "filter (\<lambda>x. project_key x = project_key e) es = x # xs" by (cases "filter (\<lambda>x. project_key x = project_key e) es") auto
  then show ?thesis by (simp add: buildProjectQueueStatus_def Let_def eligible_passes failed_pass(1) project_passes)
qed

lemma distinct_projects: "distinct (map fst (buildProjectQueueStatus es fb limits))"
  unfolding buildProjectQueueStatus_def Let_def
  by (intro distinct_eligible_passes) (simp only: failed_pass(2) distinct_project_passes list.map distinct.simps(1))

lemma eligible_positive:
  assumes "\<forall>e\<in>set es. is_str (fld e ''projectId'')"
  shows "0 < sum_list (map (\<lambda>(_, ps). length (ps_eligibleEntryIds ps)) (buildProjectQueueStatus es fb limits))
     \<longleftrightarrow> (\<exists>e\<in>set es. can_run es (\<lambda>p. limitForProject limits p fb) e)"
    (is "0 < sum_list (map ?len ?table) \<longleftrightarrow> _")
proof -
  have "0 < sum_list (map ?len ?table) \<longleftrightarrow> (\<exists>x\<in>set ?table. ?len x \<noteq> 0)"
    by (simp only: neq0_conv [symmetric] sum_list_eq_0_iff) auto
  also have "\<dots> \<longleftrightarrow> (\<exists>p ps. (p, ps) \<in> set ?table \<and> ps_eligibleEntryIds ps \<noteq> [])"
    by (force split: prod.splits)
  also have "\<dots> \<longleftrightarrow> (\<exists>p ps. map_of ?table p = Some ps \<and> ps_eligibleEntryIds ps \<noteq> [])"
    using distinct_projects [of es fb limits] by (metis map_of_SomeD map_of_is_SomeI)
  also have "\<dots> \<longleftrightarrow> (\<exists>e\<in>set es. can_run es (\<lambda>p. limitForProject limits p fb) e)"
  proof
    assume "\<exists>p ps. map_of ?table p = Some ps \<and> ps_eligibleEntryIds ps \<noteq> []"
    then obtain p ps where "map_of ?table p = Some ps" "ps_eligibleEntryIds ps \<noteq> []" by blast
    with eligible_ids(1) [OF assms, of fb limits p ps] show "\<exists>e\<in>set es. can_run es (\<lambda>p. limitForProject limits p fb) e"
      by (auto simp: filter_empty_conv)
  next
    assume "\<exists>e\<in>set es. can_run es (\<lambda>p. limitForProject limits p fb) e"
    then obtain e where e: "e \<in> set es" "can_run es (\<lambda>p. limitForProject limits p fb) e" by blast
    obtain ps where "map_of ?table (project_key e) = Some ps" using project_in_table [OF e(1)] by blast
    moreover from eligible_ids(1) [OF assms this] e have "ps_eligibleEntryIds ps \<noteq> []" by (auto simp: filter_empty_conv)
    ultimately show "\<exists>p ps. map_of ?table p = Some ps \<and> ps_eligibleEntryIds ps \<noteq> []" by blast
  qed
  finally show ?thesis .
qed

lemma positiveInt_whole: "0 < n \<Longrightarrow> positiveInt (JNum (Fin (of_nat n))) fb = Fin (of_nat n)"
  by (simp add: positiveInt_def to_num_def num_finite_def)

text \<open>What the status of the queue reports as eligible is what can be claimed: an unrestricted claim
  takes a task exactly when the status of the queue that it sees (stale tasks recovered) counts an
  eligible one, where the limits are whole positive numbers and the code index is not consulted.\<close>

theorem eligible_is_claimable:
  assumes "claimEligible env clock now opts q = (Inr r, q')" "wf_queue q" "co_providerSlotsAvailable opts"
    and "claim_prepare now opts q = Inr (es, recovered)"
    and "projectFn env = None" "\<not> co_requireIssueLink opts" "\<not> truthy (co_projectId opts)" "co_maxActive opts = JUndef"
    and "DEFAULT_MAX_ACTIVE_PER_PROJECT env = Fin (of_nat d)" "0 < d"
    and "\<forall>e\<in>set q. \<exists>p n. fld e ''projectId'' = JStr p \<and> 0 < n \<and> map_of (claim_limits env opts q) (JStr p) = Some (Fin (of_nat n))"
  shows "cr_entry r \<noteq> None \<longleftrightarrow> 0 < qs_eligibleQueued (queueStatus env es)"
proof -
  have es: "es = map (prepared_entry now opts) q" by (rule claim_prepare_map(1) [OF assms(4)])
  have pids: "map (\<lambda>e. fld e ''projectId'') es = map (\<lambda>e. fld e ''projectId'') q"
    unfolding es by (simp add: same_identity(2) [OF identity_prepared])
  have limits: "claim_limits env opts es = claim_limits env opts q" unfolding claim_limits_def pids ..
  have whole: "\<exists>p n. fld e ''projectId'' = JStr p \<and> 0 < n \<and> map_of (claim_limits env opts es) (JStr p) = Some (Fin (of_nat n))"
    if "e \<in> set es" for e
    using that assms(11) limits same_identity(2) [OF identity_prepared] unfolding es by fastforce
  have hub: "maxActivePerProject (resolveHubConcurrencyLimits env JUndef JUndef)
      = maxActivePerProject (resolveHubConcurrencyLimits env (claim_max env opts) JUndef)"
    using assms(8,9,10) positiveInt_whole [of d] by (simp add: resolveHubConcurrencyLimits_def claim_max_def nullish_or_def)
       (simp add: positiveInt_def to_num_def num_finite_def)
  let ?fb = "maxActivePerProject (resolveHubConcurrencyLimits env JUndef JUndef)"
  let ?limit = "\<lambda>p. limitForProject (claim_limits env opts es) p ?fb"
  have same: "?limit (fld e ''projectId'') = claim_limit env opts es (fld e ''projectId'')" if "e \<in> set es" for e
    using whole [OF that] by (auto simp: limitForProject_def claim_limit_def positiveInt_whole)
  have run: "can_run es ?limit (es ! i) \<longleftrightarrow> i \<in> set (claim_pending opts es) \<and> \<not> claim_busy (claim_limit env opts es) (active_mutating es) (es ! i)"
    if "i < length es" for i
  proof -
    have mem: "es ! i \<in> set es" using that by simp
    then obtain p n where n: "fld (es ! i) ''projectId'' = JStr p" "0 < n" "map_of (claim_limits env opts es) (JStr p) = Some (Fin (of_nat n))"
      using whole by blast
    then have "claim_limit env opts es (fld (es ! i) ''projectId'') = Fin (of_nat n)"
      by (simp add: claim_limit_def limitForProject_def positiveInt_whole)
    then show ?thesis
      using that assms(6,7) same [OF mem]
      by (auto simp: can_run_def claim_pending_props(2) claim_busy_def reached_def num_le_def)
  qed
  have gate: "passed_over (\<lambda>i. claim_gate env (co_cpbRoot opts) (clock i)) limit active j c \<longleftrightarrow> claim_busy limit active c" for limit active j c
    by (simp add: passed_over_def claim_gate_def assms(5))
  have "0 < qs_eligibleQueued (queueStatus env es) \<longleftrightarrow> (\<exists>e\<in>set es. can_run es ?limit e)"
  proof -
    have "is_str (fld e ''projectId'')" if "e \<in> set es" for e using whole [OF that] by auto
    moreover have "qs_eligibleQueued (queueStatus env es) = sum_list (map (\<lambda>(_, ps). length (ps_eligibleEntryIds ps))
        (buildProjectQueueStatus es ?fb (claim_limits env opts es)))"
      by (simp add: queueStatus_def Let_def claim_limits_def hub)
    ultimately show ?thesis using eligible_positive by metis
  qed
  also have "\<dots> \<longleftrightarrow> (\<exists>i\<in>set (claim_pending opts es). \<not> claim_busy (claim_limit env opts es) (active_mutating es) (es ! i))"
  proof -
    have "i < length es" if "i \<in> set (claim_pending opts es)" for i using that by (simp add: claim_pending_props(2))
    with run show ?thesis unfolding Bex_def in_set_conv_nth [of _ es] by blast
  qed
  also have "\<dots> \<longleftrightarrow> cr_entry r \<noteq> None"
    using claim_choice [OF assms(1-4)] unfolding gate by (cases "cr_entry r") auto
  finally show ?thesis by blast
qed

section \<open>Entering a task twice\<close>

lemma prepared_project: "prepared_input env input = Inr n \<Longrightarrow> fld n ''projectId'' = fld input ''projectId''"
  by (auto simp: prepared_input_def thn_eq_Inr Let_def fld_set_fields split: if_splits sum.splits)

definition lineage :: "js \<Rightarrow> js" where
  "lineage e = or_else (or_else (meta e ''queueDedupeKey'') (meta e ''originJobId'')) (JStr [])"

lemma lineage_json: "lineage e = JStr l \<Longrightarrow> lineage (json_copy e) = JStr l"
proof -
  have falsy: "\<not> truthy v \<Longrightarrow> \<not> truthy (json_copy v)" for v by (cases v) (auto simp: num_finite_def split: jsnum.splits)
  have kept: "or_else (json_copy v) w = JStr s" if "or_else v w = JStr s" "truthy v" for v w s
    using that by (cases v) simp_all
  assume l: "lineage e = JStr l"
  show ?thesis
  proof (cases "truthy (meta e ''queueDedupeKey'')")
    case True
    with l show ?thesis by (cases "meta e ''queueDedupeKey''") (auto simp: lineage_def or_else_def split: if_splits)
  next
    case no: False
    show ?thesis
    proof (cases "truthy (meta e ''originJobId'')")
      case True
      with l no falsy [OF no] show ?thesis
        by (cases "meta e ''originJobId''") (auto simp: lineage_def or_else_def split: if_splits)
    next
      case False
      with l no falsy [OF no] falsy [OF False] show ?thesis by (simp add: lineage_def)
    qed
  qed
qed

lemma entryKey_strings:
  "fld e ''projectId'' = JStr p \<Longrightarrow> fld e ''description'' = JStr d \<Longrightarrow> lineage e = JStr l \<Longrightarrow> entryKey e = p @ ''::'' @ d @ ''::'' @ l"
  by (simp add: entryKey_def lineage_def)

lemma enqueue_result:
  assumes "enqueue env now input q = (Inr e, q1)" "wf_queue q" "prepared_input env input = Inr n"
  obtains x where "find (\<lambda>e. entryKey e = entryKey n \<and> fld e ''status'' = JStr ''pending'') q = Some x" "q1 = q"
  | "q1 = committed (q @ [new_entry env now input n])"
proof -
  have rec: "list_all isRecord q" "committed q = q" using assms(2) by (simp_all add: wf_queue_def)
  have m: "withQueueMutation (enqueue_entry env now input n) q = (Inr e, q1)" using assms(1,3) by (simp add: enqueue_def)
  obtain q' where "enqueue_entry env now input n q = Inr (q', e)" "q1 = normalizeQueue (json_copy (queue_json q'))"
    using m by (auto simp: withQueueMutation_def thn_def split: sum.splits)
  then show thesis
    using that rec committed_queue [of q] committed_queue [of "q @ [new_entry env now input n]"]
    by (auto simp: enqueue_entry_def new_entry_fields split: option.splits)
qed

lemma new_entry_lineage: "lineage (new_entry env now input n) = lineage n"
proof -
  have "meta (new_entry env now input n) k = meta n k" for k
  proof (cases "truthy (fld n ''metadata'')")
    case False
    then have "meta n k = JUndef" by (cases "fld n ''metadata''") simp_all
    with False show ?thesis by (simp only: new_entry_fields or_else_simps fld_obj not_False_eq_True)
  qed (simp only: new_entry_fields or_else_simps)
  then show ?thesis unfolding lineage_def by (simp only:)
qed

text \<open>Entering the same task again changes nothing: once a task with a description has been entered, every
  further enqueue with the same project, description and lineage, by any process, leaves the queue as it
  is, for as long as nothing else happens to it.\<close>

theorem enqueue_idempotent:
  assumes "enqueue env now input q = (Inr e, q1)" "wf_queue q" "JStr (generateId env) \<notin> (\<lambda>e. fld e ''id'') ` set q"
    and "prepared_input env input = Inr n" "fld n ''projectId'' = JStr p" "fld n ''description'' = JStr d" "lineage n = JStr l"
    and "enqueue env2 now2 input2 q1 = (r, q2)" "prepared_input env2 input2 = Inr n2" "entryKey n2 = entryKey n"
  shows "q2 = q1"
proof -
  have wf1: "wf_queue q1" using step_enqueue_keeps [OF assms(1,3,2)] by blast
  let ?same = "\<lambda>e. entryKey e = entryKey n \<and> fld e ''status'' = JStr ''pending''"
  have "\<exists>x\<in>set q1. ?same x"
  proof (rule enqueue_result [OF assms(1,2,4)])
    fix x assume "find ?same q = Some x" "q1 = q"
    from find_SomeD [OF this(1)] this(2) show ?thesis by blast
  next
    let ?new = "json_copy (new_entry env now input n)"
    assume "q1 = committed (q @ [new_entry env now input n])"
    then have mem: "?new \<in> set q1" by simp
    have "fld input ''projectId'' = JStr p" using prepared_project [OF assms(4)] assms(5) by (rule trans [OF sym])
    then have new: "fld ?new ''projectId'' = JStr p" "fld ?new ''status'' = JStr ''pending''"
      by (simp_all only: fld_json_copy new_entry_fields json_copy.simps)
    have "or_else (JStr d) (JStr []) = JStr d" by (simp add: or_else_def)
    then have "fld ?new ''description'' = JStr d"
      by (simp only: fld_json_copy new_entry_fields json_copy.simps assms(6))
    moreover have "lineage ?new = JStr l" by (rule lineage_json) (simp only: new_entry_lineage assms(7))
    ultimately have "entryKey ?new = p @ ''::'' @ d @ ''::'' @ l" by (rule entryKey_strings [OF new(1)])
    moreover have "entryKey n = p @ ''::'' @ d @ ''::'' @ l" by (rule entryKey_strings [OF assms(5-7)])
    ultimately have "?same ?new" using new(2) by (simp only:)
    with mem show ?thesis by blast
  qed
  then obtain y where "y \<in> set q1" "?same y" by blast
  from find_some [of y q1 ?same, OF this] obtain x where "find ?same q1 = Some x" by blast
  then have run: "enqueue_entry env2 now2 input2 n2 q1 = Inr (q1, x)" by (simp add: enqueue_entry_def assms(10))
  have rec: "list_all isRecord q1" "committed q1 = q1" using wf1 by (simp_all add: wf_queue_def)
  have "withQueueMutation (enqueue_entry env2 now2 input2 n2) q1 = (r, q2)" using assms(8,9) by (simp add: enqueue_def)
  from mutation_total [where f = "enqueue_entry env2 now2 input2 n2", OF run rec(1) this] rec(2) show ?thesis by auto
qed

end
