(* ===== verification/HubExamples.thy ===== *)
theory HubExamples
  imports HubProperties
begin

text \<open>
  A queue of two tasks of one project, a claim of the older one by a worker, and a repeated enqueue:
  concrete runs of the hub queue, at which the properties of \<^verbatim>\<open>HubProperties\<close> are applied.
\<close>

section \<open>The example\<close>

lemma example_year: "year_of_day 0 = 0"
  by (simp add: year_of_day_def year_from.simps days_before_def)

lemma example_digits: "digits 2 0 = ''00''" "digits 2 1 = ''01''" "digits 3 0 = ''000''" "digits 4 1970 = ''1970''"
  by code_simp+

lemma iso_epoch: "toISOString 0 = ''1970-01-01T00:00:00.000Z''"
  using example_digits by (simp add: toISOString_def Let_def example_year month_lengths_def days_before_def)

definition example_task :: "string \<Rightarrow> string \<Rightarrow> js" where
  "example_task i t = JObj [(''id'', JStr i), (''projectId'', JStr ''p''), (''status'', JStr ''pending''), (''createdAt'', JStr t)]"

definition example_queue :: "js list" where
  "example_queue = [example_task ''a'' ''2'', example_task ''b'' ''1'']"

definition example_env :: hub_env where
  "example_env = \<lparr>env_maxActive = JUndef, env_providerMax = JUndef, hubConfig = JNull, registryProject = (\<lambda>_. JNull),
     projectJson = (\<lambda>_. JNull), projectFn = None, indexStatus = (\<lambda>_ _. Inl JNull), ensureIndexFresh = (\<lambda>_. JNull)\<rparr>"

definition example_opts :: claim_options where
  "example_opts = \<lparr>co_workerId = JStr ''w'', co_projectId = JNull, co_maxActive = JUndef, co_claimTimeoutMs = 1000,
     co_providerSlotsAvailable = True, co_requireIssueLink = False, co_cpbRoot = JNull, co_indexRetryMs = 0,
     co_assignmentStore = Some (\<lambda>_. JNull)\<rparr>"

lemma ex_wf: "wf_queue example_queue"
  by (simp add: wf_queue_def example_queue_def example_task_def committed_def obj_get_def)

lemma ex_ser: "serializeQueue example_queue = Inr (json_text (queue_json example_queue))"
  by (simp add: serializeQueue_def QUEUE_MAX_BYTES_def example_queue_def example_task_def queue_json_def json_text_def QUEUE_VERSION_def
     json_string_def json_char_def Let_def dquote_def num_finite_def show_num_def show_rat_def show_int_def show_nat.simps)

lemma ex_prep: "claim_prepare 0 example_opts example_queue = Inr (example_queue, [])"
  by (simp add: claim_prepare_def recoverStaleInProgressAsync_def example_opts_def example_queue_def example_task_def isActiveEntry_def
   recoverLocalCodeIndexUnavailable_def)

lemma ex_rank: "claim_rank (example_task i t) = (1, 3, t)"
proof -
  have "\<not> re_test platform_re []" by code_simp
  then show ?thesis by (simp add: claim_rank_def example_task_def platform_fix_def or_else_def priorityScore_def created_at_def)
qed

lemma ex_pending: "claim_pending example_opts example_queue = [1, 0]"
proof -
  have "sort_key (\<lambda>i. claim_rank (example_queue ! i)) [0, 1] = [1, 0]"
    by (simp add: example_queue_def ex_rank)
  moreover have "[0..<length example_queue] = [0, 1]" by (simp add: example_queue_def upt_rec)
  ultimately show ?thesis by (simp add: claim_pending_def example_opts_def) (simp add: example_queue_def example_task_def)
qed


lemma ex_limits: "claim_limits example_env example_opts example_queue = [(JStr ''p'', Fin 2)]"
  by (simp add: claim_limits_def resolveProjectConcurrencyLimits_def resolveHubConcurrencyLimits_def claim_max_def
     DEFAULT_MAX_ACTIVE_PER_PROJECT_def example_env_def example_opts_def example_queue_def example_task_def uniq_def set_add_def
     or_else_def to_num_def positiveInt_def num_finite_def recordValue_def nullish_or_def maxActiveForProject_def Let_def
     readProjectConcurrencyConfig_def mergeProjectConfig_def hasConfig_def)

lemma ex_limit: "claim_limit example_env example_opts example_queue (JStr ''p'') = Fin 2"
  by (simp add: claim_limit_def ex_limits limitForProject_def positiveInt_def to_num_def num_finite_def)

lemma ex_active: "active_mutating example_queue x = 0"
  by (simp add: active_mutating_def example_queue_def example_task_def isActiveEntry_def)

definition example_claimed :: js where
  "example_claimed = claimed 0 (JStr ''w'') (example_task ''b'' ''1'')"

lemma ex_second: "example_queue ! Suc 0 = example_task ''b'' ''1''" "example_queue[Suc 0 := example_task ''b'' ''1''] = example_queue"
  "fld (example_task i t) ''projectId'' = JStr ''p''"
  by (simp_all add: example_queue_def example_task_def)

lemma ex_loop: "claim_loop (\<lambda>i. claim_gate example_env c (k i)) (claim_limit example_env example_opts example_queue)
    (active_mutating example_queue) [1, 0] example_queue [] = (example_queue, Some 1, [])"
proof -
  have "\<not> claim_busy (claim_limit example_env example_opts example_queue) (active_mutating example_queue) (example_task ''b'' ''1'')"
    by (simp add: claim_busy_def ex_active reached_def num_le_def ex_second ex_limit)
  moreover have "claim_gate example_env c k e = Inr e" for c k e by (simp add: claim_gate_def example_env_def)
  ultimately show ?thesis by (simp add: ex_second)
qed

lemma ex_after: "example_queue[1 := example_claimed] = [example_task ''a'' ''2'', example_claimed]"
  by (simp add: example_queue_def)

lemma ex_claimed: "example_claimed = JObj [(''id'', JStr ''b''), (''projectId'', JStr ''p''), (''status'', JStr ''in_progress''), (''createdAt'', JStr ''1''),
    (''claimedBy'', JStr ''w''), (''workerId'', JStr ''w''), (''claimedAt'', JStr ''1970-01-01T00:00:00.000Z''), (''updatedAt'', JStr ''1970-01-01T00:00:00.000Z'')]"
  by (simp add: example_claimed_def claimed_def example_task_def set_fields_def spread_def obj_set_def nowIso_def iso_epoch)

lemma ex_ser2: "serializeQueue [example_task ''a'' ''2'', example_claimed] = Inr (json_text (queue_json [example_task ''a'' ''2'', example_claimed]))"
  by (simp add: serializeQueue_def QUEUE_MAX_BYTES_def ex_claimed example_task_def queue_json_def json_text_def QUEUE_VERSION_def
     json_string_def json_char_def Let_def dquote_def num_finite_def show_num_def show_rat_def show_int_def show_nat.simps)

lemma ex_entry: "\<exists>r. claim_entry example_env (\<lambda>_. 0) 0 example_opts example_queue = Inr ([example_task ''a'' ''2'', example_claimed], r)
    \<and> cr_entry r = Some example_claimed"
proof -
  have w: "co_workerId example_opts = JStr ''w''" by (simp add: example_opts_def)
  show ?thesis
    unfolding claim_entry_def ex_prep thn_simps prod.case ex_pending Let_def ex_loop
    by (simp add: w ex_second example_claimed_def [symmetric]) (simp add: example_queue_def)
qed

lemma example_claim:
  obtains r where "claimEligible example_env (\<lambda>_. 0) 0 example_opts example_queue = (Inr r, [example_task ''a'' ''2'', example_claimed])"
    "cr_entry r = Some example_claimed"
proof -
  obtain r where r: "claim_entry example_env (\<lambda>_. 0) 0 example_opts example_queue = Inr ([example_task ''a'' ''2'', example_claimed], r)"
    "cr_entry r = Some example_claimed" using ex_entry by blast
  have "list_all isRecord [example_task ''a'' ''2'', example_claimed]" by (simp add: example_task_def ex_claimed)
  from committed_queue [OF this]
  have "normalizeQueue (json_copy (queue_json [example_task ''a'' ''2'', example_claimed])) = [example_task ''a'' ''2'', example_claimed]"
    unfolding committed_def list.map ex_claimed example_task_def by (simp add: obj_get_def)
  then have "claimEligible example_env (\<lambda>_. 0) 0 example_opts example_queue = (Inr r, [example_task ''a'' ''2'', example_claimed])"
    by (simp add: claimEligible_def withQueueMutation_def ex_ser ex_ser2 r(1) thn_def) (simp add: example_opts_def)
  with r(2) show thesis by (rule that [rotated])
qed


section \<open>The properties at the example\<close>

lemma tasks_kept_witness: "\<exists>q'. queue_step\<^sup>*\<^sup>* example_queue q' \<and> wf_queue q' \<and> (\<exists>xs. identities q' = identities example_queue @ xs)"
proof -
  obtain r where "claimEligible example_env (\<lambda>_. 0) 0 example_opts example_queue = (Inr r, [example_task ''a'' ''2'', example_claimed])"
    by (rule example_claim)
  then have "queue_step\<^sup>*\<^sup>* example_queue [example_task ''a'' ''2'', example_claimed]"
    by (intro r_into_rtranclp step_claim)
  with tasks_kept [OF this ex_wf] show ?thesis by blast
qed

lemma claim_within_limit_witness:
  "active_mutating (snd (claimEligible example_env (\<lambda>_. 0) 0 example_opts example_queue)) ''p'' \<le> 2"
proof -
  obtain r where r: "claimEligible example_env (\<lambda>_. 0) 0 example_opts example_queue = (Inr r, [example_task ''a'' ''2'', example_claimed])"
    "cr_entry r = Some example_claimed" by (rule example_claim)
  have "isMutatingEntry example_claimed" "fld example_claimed ''projectId'' = JStr ''p''"
    by (simp_all add: ex_claimed isMutatingEntry_def)
  with claim_within_limit [OF r(1) ex_wf r(2), of "''p''" 2] ex_limit r(1) show ?thesis by simp
qed

lemma claims_exclusive_witness:
  "distinct (map (\<lambda>e. fld e ''id'') (fst (run_claims [(example_env, \<lambda>_. 0, 0, example_opts), (example_env, \<lambda>_. 0, 10, example_opts)] example_queue)))"
  by (rule claims_exclusive [OF ex_wf]) (simp_all add: example_opts_def date_limit_def)

lemma claim_takes_first_witness:
  "\<exists>r::claim_result. cr_entry r = Some example_claimed \<and> (\<exists>i\<in>set (claim_pending example_opts example_queue).
     fld example_claimed ''id'' = fld (example_queue ! i) ''id''
     \<and> \<not> claim_busy (claim_limit example_env example_opts example_queue) (active_mutating example_queue) (example_queue ! i)
     \<and> (\<exists>e'. claim_gate example_env (co_cpbRoot example_opts) 0 (example_queue ! i) = Inr e'))"
proof -
  obtain r where r: "claimEligible example_env (\<lambda>_. 0) 0 example_opts example_queue = (Inr r, [example_task ''a'' ''2'', example_claimed])"
    "cr_entry r = Some example_claimed" by (rule example_claim)
  from claim_takes_first [OF r(1) ex_wf ex_prep] r(2)
  have "\<exists>i\<in>set (claim_pending example_opts example_queue). fld example_claimed ''id'' = fld (example_queue ! i) ''id''
     \<and> \<not> claim_busy (claim_limit example_env example_opts example_queue) (active_mutating example_queue) (example_queue ! i)
     \<and> (\<exists>e'. claim_gate example_env (co_cpbRoot example_opts) 0 (example_queue ! i) = Inr e')"
    by auto
  with r(2) show ?thesis by blast
qed

lemma eligible_is_claimable_witness: "0 < qs_eligibleQueued (queueStatus example_env example_queue)"
proof -
  obtain r where r: "claimEligible example_env (\<lambda>_. 0) 0 example_opts example_queue = (Inr r, [example_task ''a'' ''2'', example_claimed])"
    "cr_entry r = Some example_claimed" by (rule example_claim)
  have free: "co_providerSlotsAvailable example_opts" "projectFn example_env = None" "\<not> co_requireIssueLink example_opts"
    "\<not> truthy (co_projectId example_opts)" "co_maxActive example_opts = JUndef"
    by (simp_all add: example_opts_def example_env_def)
  have default: "DEFAULT_MAX_ACTIVE_PER_PROJECT example_env = Fin (of_nat 2)"
    by (simp add: DEFAULT_MAX_ACTIVE_PER_PROJECT_def example_env_def or_else_def to_num_def)
  have "\<forall>e\<in>set example_queue. \<exists>p n. fld e ''projectId'' = JStr p \<and> 0 < n
      \<and> map_of (claim_limits example_env example_opts example_queue) (JStr p) = Some (Fin (of_nat n))"
    unfolding ex_limits by (auto simp: example_queue_def ex_second intro!: exI [of _ "2::nat"])
  with eligible_is_claimable [OF r(1) ex_wf free(1) ex_prep free(2-5) default] r(2) show ?thesis by simp
qed

definition example_enqueue_env :: enqueue_env where
  "example_enqueue_env = \<lparr>resolveAgentsForEntry = (\<lambda>_ _ m. m), getProject = (\<lambda>_. Inl (ErrorMsg ''no project'')), process_cwd = JStr ''/r'',
     generateId = ''c''\<rparr>"

definition example_input :: js where
  "example_input = JObj [(''projectId'', JStr ''p''), (''description'', JStr ''d'')]"

lemma example_prepared:
  obtains n where "prepared_input example_enqueue_env example_input = Inr n" "fld n ''projectId'' = JStr ''p''"
    "fld n ''description'' = JStr ''d''" "lineage n = JStr []"
proof -
  have "prepared_input example_enqueue_env example_input = Inr (JObj [(''projectId'', JStr ''p''), (''description'', JStr ''d''),
      (''sourcePath'', JNull), (''sessionId'', JNull), (''workerId'', JNull), (''cwd'', JNull), (''executionBoundary'', JStr ''worktree''),
      (''metadata'', JObj [(''acpProfile'', JStr ''headless''), (''uiLane'', JBool False), (''uiLaneReason'', JStr [])])])"
    by (simp add: prepared_input_def example_enqueue_env_def example_input_def buildMeta_def stringOrNull_def or_else_def lane_metadata_def
      set_fields_def spread_def obj_set_def REQUIRED_EXECUTION_BOUNDARY_def thn_def Let_def)
  then show thesis by (rule that) (simp_all add: lineage_def or_else_def)
qed

definition described_queue :: "js list" where
  "described_queue = [JObj [(''id'', JStr ''a''), (''projectId'', JStr ''p''), (''description'', JStr ''d''), (''status'', JStr ''pending'')]]"

lemma described_queue_wf: "wf_queue described_queue"
  by (simp add: wf_queue_def described_queue_def committed_def obj_get_def)

lemma described_queue_serialized: "serializeQueue described_queue = Inr (json_text (queue_json described_queue))"
  by (simp add: serializeQueue_def QUEUE_MAX_BYTES_def described_queue_def queue_json_def json_text_def QUEUE_VERSION_def
     json_string_def json_char_def Let_def dquote_def num_finite_def show_num_def show_rat_def show_int_def show_nat.simps)

lemma described_enqueued:
  obtains e where "enqueue example_enqueue_env 0 example_input described_queue = (Inr e, described_queue)"
proof -
  obtain n where n: "prepared_input example_enqueue_env example_input = Inr n" "fld n ''projectId'' = JStr ''p''"
    "fld n ''description'' = JStr ''d''" "lineage n = JStr []" by (rule example_prepared)
  have "entryKey n = ''p::d::''" using entryKey_strings [OF n(2-4)] by simp
  then have "enqueue_entry example_enqueue_env 0 example_input n described_queue = Inr (described_queue, described_queue ! 0)"
    by (simp add: enqueue_entry_def described_queue_def entryKey_def or_else_def)
  moreover have "normalizeQueue (json_copy (queue_json described_queue)) = described_queue"
    using described_queue_wf by (simp add: committed_queue wf_queue_def)
  ultimately have "enqueue example_enqueue_env 0 example_input described_queue = (Inr (described_queue ! 0), described_queue)"
    by (simp add: enqueue_def n(1) withQueueMutation_def described_queue_serialized thn_def)
  then show thesis by (rule that)
qed

lemma enqueue_idempotent_witness: "snd (enqueue example_enqueue_env 5 example_input described_queue) = described_queue"
proof -
  obtain e where run: "enqueue example_enqueue_env 0 example_input described_queue = (Inr e, described_queue)" by (rule described_enqueued)
  obtain n where n: "prepared_input example_enqueue_env example_input = Inr n" "fld n ''projectId'' = JStr ''p''"
    "fld n ''description'' = JStr ''d''" "lineage n = JStr []" by (rule example_prepared)
  have new: "JStr (generateId example_enqueue_env) \<notin> (\<lambda>e. fld e ''id'') ` set described_queue"
    by (simp add: example_enqueue_env_def described_queue_def)
  obtain r q2 where again: "enqueue example_enqueue_env 5 example_input described_queue = (r, q2)"
    by (cases "enqueue example_enqueue_env 5 example_input described_queue")
  from enqueue_idempotent [OF run described_queue_wf new n again n(1) refl] again
  show ?thesis by simp
qed

end
