(* ===== verification/Scheduler.thy ===== *)
theory Scheduler
  imports HubClaim
begin

text \<open>
  The scheduler of the hub (\<^verbatim>\<open>server/orchestrator/scheduler.ts\<close>): which pending tasks are to be
  dispatched next.

  The state is the queue file, as in \<^verbatim>\<open>HubQueue\<close>: an operation takes the entries and returns its result
  with the entries it leaves. The scheduler works on a snapshot of the entries and writes through
  \<^verbatim>\<open>updateEntry\<close>, guarded by what the snapshot says. The pending entries are positions in the snapshot,
  as they alias its objects. \<open>clock\<close> gives the time at each moment the code looks at it; the assignment
  store, the provider capacity, the quotas and what \<open>hub_env\<close> holds are parameters. Scores are computed
  without rounding; the score of a task whose creation time is not a date is NaN, and such a task is
  placed as if it were 0 (the order of the code is then not determined).
\<close>

section \<open>Sequencing\<close>

definition next_r :: "'a result \<times> 'q \<Rightarrow> ('a \<Rightarrow> 'q \<Rightarrow> 'b result \<times> 'q) \<Rightarrow> 'b result \<times> 'q" where
  "next_r s f = (case s of (Inl err, q) \<Rightarrow> (Inl err, q) | (Inr v, q) \<Rightarrow> f v q)"

lemma next_r_simps [simp]: "next_r (Inl err, q) f = (Inl err, q)" "next_r (Inr v, q) f = f v q"
  by (simp_all add: next_r_def)

lemma next_r_Inr: "next_r s f = (Inr w, q') \<longleftrightarrow> (\<exists>v q1. s = (Inr v, q1) \<and> f v q1 = (Inr w, q'))"
  by (auto simp: next_r_def split: prod.splits sum.splits)

datatype moment = Recovering | Updating string | Marking string | Filtering | Ranking

record sched_env =
  se_hub :: hub_env
    \<comment> \<open>its \<open>projectFn\<close> is \<^verbatim>\<open>getProjectFn\<close>\<close>
  se_cpbRoot :: js
  se_maxActive :: js
    \<comment> \<open>the option \<^verbatim>\<open>maxActivePerProject\<close>, undefined for the default\<close>
  se_assignments :: "string \<Rightarrow> js"
  se_capacity :: "(js list \<Rightarrow> js \<Rightarrow> js \<Rightarrow> js) option"
    \<comment> \<open>\<^verbatim>\<open>providerCapacityFn\<close>, given the queue, an agent and an entry\<close>
  se_quotas :: js

section \<open>Reading entries\<close>

definition CLAIM_TIMEOUT_MS :: int where
  "CLAIM_TIMEOUT_MS = 120000"

definition entry_id :: "js \<Rightarrow> string" where
  "entry_id e = to_str (fld e ''id'')"

definition agent_of :: "js \<Rightarrow> js" where
  \<comment> \<open>\<^verbatim>\<open>metadata.agents\<close> to the name of the provider\<close>
  "agent_of agents = or_else (fld (or_else (or_else (fld agents ''executor'') (fld agents ''default'')) (JObj [])) ''agent'') (JStr ''claude'')"

definition providerAgentForEntry :: "js \<Rightarrow> js" where
  "providerAgentForEntry e = agent_of (meta e ''agents'')"

definition parseRetryUntilMs :: "js \<Rightarrow> rat option" where
  "parseRetryUntilMs v = (case v of
      JNum (Fin x) \<Rightarrow> Some x
    | JStr s \<Rightarrow> if s = [] then None
        else (case string_to_num s of Fin x \<Rightarrow> Some x | _ \<Rightarrow> map_option of_nat (date_parse s))
    | _ \<Rightarrow> None)"

definition VALID_SCHEDULER_MODES :: "js list" where
  "VALID_SCHEDULER_MODES = [JStr ''default'', JStr ''smart'']"

definition readSchedulerConfig :: "js \<Rightarrow> js" where
  \<comment> \<open>its \<^verbatim>\<open>mode\<close>\<close>
  "readSchedulerConfig config =
     (if js_includes VALID_SCHEDULER_MODES (fld (fld config ''scheduler'') ''mode'') then fld (fld config ''scheduler'') ''mode''
      else JStr ''default'')"

section \<open>The pending pool\<close>

definition recovery_guard :: "js \<Rightarrow> update_guard" where
  "recovery_guard e = \<lparr>expectedStatus = fld e ''status'', expectedClaimedAt = Some (nullish_or (fld e ''claimedAt'') JNull),
     expectedUpdatedAt = Some (nullish_or (fld e ''updatedAt'') JNull)\<rparr>"

definition no_guard :: update_guard where
  "no_guard = \<lparr>expectedStatus = JUndef, expectedClaimedAt = None, expectedUpdatedAt = None\<rparr>"

definition guard_of :: "js list \<Rightarrow> js \<Rightarrow> update_guard" where
  \<comment> \<open>\<^verbatim>\<open>recoveryGuards.get(id)\<close>\<close>
  "guard_of es i = (case map_of (rev (map (\<lambda>e. (fld e ''id'', recovery_guard e)) es)) i of None \<Rightarrow> no_guard | Some g \<Rightarrow> g)"

fun update_each :: "(string \<Rightarrow> nat) \<Rightarrow> (js \<times> js \<times> update_guard) list \<Rightarrow> js list \<Rightarrow> unit result \<times> js list" where
  "update_each time [] q = (Inr (), q)"
| "update_each time ((i, patch, g) # us) q = next_r (updateEntry (time (to_str i)) (to_str i) patch g q) (\<lambda>_. update_each time us)"

definition pool_updates :: "js list \<Rightarrow> js list \<times> js list \<times> js list \<Rightarrow> (js \<times> js \<times> update_guard) list" where
  "pool_updates es s = (case s of (es', recovered, refreshed) \<Rightarrow>
     map (\<lambda>i. (i, JObj [(''status'', JStr ''pending''), (''claimedBy'', JNull), (''claimedAt'', JNull)], guard_of es i)) recovered
     @ List.map_filter (\<lambda>i. case find (\<lambda>e. fld e ''id'' = i) es' of None \<Rightarrow> None
         | Some e \<Rightarrow> Some (i, JObj [(''claimedAt'', fld e ''claimedAt'')], guard_of es i)) refreshed)"

definition preparePendingPool :: "sched_env \<Rightarrow> (moment \<Rightarrow> nat) \<Rightarrow> js list \<Rightarrow> js list result \<times> js list" where
  "preparePendingPool env clock q =
     (case recoverStaleInProgressAsync (clock Recovering) CLAIM_TIMEOUT_MS (Some (se_assignments env)) q of
        Inl err \<Rightarrow> (Inl err, q)
      | Inr s \<Rightarrow> next_r (update_each (\<lambda>i. clock (Updating i)) (pool_updates q s) q) (\<lambda>_ q'. (Inr q', q')))"

section \<open>Filters\<close>

definition filterDagReady :: "js list \<Rightarrow> nat list \<Rightarrow> nat list" where
  "filterDagReady es pending =
     (let completedIds = map (\<lambda>e. fld e ''id'') (filter (\<lambda>e. fld e ''status'' = JStr ''completed'') es)
      in filter (\<lambda>i. case meta (es ! i) ''dependsOn'' of JArr deps \<Rightarrow> list_all (js_includes completedIds) deps | _ \<Rightarrow> True) pending)"

definition filterByRetryDecisionDue :: "nat \<Rightarrow> js list \<Rightarrow> nat list \<Rightarrow> nat list" where
  "filterByRetryDecisionDue now es pending =
     filter (\<lambda>i. case parseRetryUntilMs (fld (meta (es ! i) ''retryDecision'') ''untilTs'') of None \<Rightarrow> True | Some t \<Rightarrow> t \<le> of_nat now) pending"

definition project_limit :: "(js \<times> jsnum) list \<Rightarrow> jsnum \<Rightarrow> js \<Rightarrow> jsnum" where
  \<comment> \<open>\<^verbatim>\<open>projectLimits.get(p) ?? hubLimits.maxActivePerProject\<close>\<close>
  "project_limit limits hubMax p = (case map_of limits p of None \<Rightarrow> hubMax | Some n \<Rightarrow> n)"

definition filterByProjectCapacity :: "js list \<Rightarrow> (string \<Rightarrow> nat) \<Rightarrow> (js \<Rightarrow> jsnum) \<Rightarrow> nat list \<Rightarrow> nat list" where
  "filterByProjectCapacity es active limit pending =
     filter (\<lambda>i. \<not> (isMutatingEntry (es ! i) \<and> num_lt (Fin 0) (limit (fld (es ! i) ''projectId''))
        \<and> reached (active (project_key (es ! i))) (limit (fld (es ! i) ''projectId'')))) pending"

fun reserveProjectCapacity :: "js list \<Rightarrow> (string \<Rightarrow> nat) \<Rightarrow> (js \<Rightarrow> jsnum) \<Rightarrow> (string \<Rightarrow> nat) \<Rightarrow> nat list \<Rightarrow> nat list" where
  "reserveProjectCapacity es active limit reserved [] = []"
| "reserveProjectCapacity es active limit reserved (i # is) =
     (let p = project_key (es ! i); n = limit (fld (es ! i) ''projectId'') in
      if \<not> isMutatingEntry (es ! i) \<or> num_le n (Fin 0) then i # reserveProjectCapacity es active limit reserved is
      else if reached (active p + reserved p) n then reserveProjectCapacity es active limit reserved is
      else i # reserveProjectCapacity es active limit (reserved(p := Suc (reserved p))) is)"

section \<open>The readiness gate\<close>

definition pending_guard :: "js \<Rightarrow> update_guard" where
  "pending_guard e = \<lparr>expectedStatus = JStr ''pending'', expectedClaimedAt = None,
     expectedUpdatedAt = Some (nullish_or (fld e ''updatedAt'') JNull)\<rparr>"

text \<open>A guarded update of a pending entry, and what the snapshot becomes when it was made.\<close>

definition update_pending :: "(moment \<Rightarrow> nat) \<Rightarrow> js \<Rightarrow> js \<Rightarrow> js list \<Rightarrow> js option result \<times> js list" where
  "update_pending clock e patch q = updateEntry (clock (Updating (entry_id e))) (entry_id e) patch (pending_guard e) q"

definition block_unknown :: "(moment \<Rightarrow> nat) \<Rightarrow> js \<Rightarrow> js list \<Rightarrow> js result \<times> js list" where
  "block_unknown clock e q =
     (let m = with_metadata [(''projectReadiness'', JObj [(''available'', JBool False), (''reason'', JStr ''project_not_found'')])] e;
          reason = JStr (''Project '' @ [CHR 0x27] @ to_str (fld e ''projectId'') @ [CHR 0x27] @ '' not found'')
      in next_r (update_pending clock e (JObj [(''status'', JStr ''blocked''), (''reason'', reason), (''metadata'', m)]) q)
           (\<lambda>updated q'. (Inr (if updated = None then e
              else set_fields [(''status'', JStr ''blocked''), (''reason'', reason), (''metadata'', m)] e), q')))"

definition markLocalCodeIndexUnavailable :: "(moment \<Rightarrow> nat) \<Rightarrow> js \<Rightarrow> (string \<times> js) list \<Rightarrow> js list \<Rightarrow> js result \<times> js list" where
  "markLocalCodeIndexUnavailable clock e kvs q =
     (let now = nowIso (clock (Marking (entry_id e))); m = with_metadata kvs e
      in next_r (update_pending clock e (JObj [(''status'', JStr ''local_code_index_unavailable''), (''updatedAt'', now), (''metadata'', m)]) q)
           (\<lambda>updated q'. (Inr (if updated = None then e
              else set_fields [(''status'', JStr ''local_code_index_unavailable''), (''updatedAt'', now), (''metadata'', m)] e), q')))"

definition mark_ready :: "(moment \<Rightarrow> nat) \<Rightarrow> js \<Rightarrow> (string \<times> js) list \<Rightarrow> js \<Rightarrow> js list \<Rightarrow> js option result \<times> js list" where
  \<comment> \<open>\<open>None\<close>: the entry changed meanwhile\<close>
  "mark_ready clock e kvs snapshot q =
     (let m = with_metadata kvs e
      in next_r (update_pending clock e (JObj [(''metadata'', m)]) q)
           (\<lambda>updated q'. (Inr (map_option (\<lambda>u. set_fields [(''metadata'', m), (''indexSnapshotId'', snapshot),
                (''updatedAt'', if is_str (fld u ''updatedAt'') then fld u ''updatedAt'' else fld e ''updatedAt'')] e) updated), q')))"

text \<open>One entry: what it becomes in the snapshot, and whether it is eligible.\<close>

definition readiness :: "sched_env \<Rightarrow> (moment \<Rightarrow> nat) \<Rightarrow> (js \<Rightarrow> js) \<Rightarrow> js \<Rightarrow> js list \<Rightarrow> (js \<times> bool) result \<times> js list" where
  "readiness env clock lookup e q =
     (let project = lookup (fld e ''projectId'') in
      if \<not> truthy project then next_r (block_unknown clock e q) (\<lambda>e' q'. (Inr (e', False), q'))
      else if \<not> truthy (fld project ''sourcePath'') \<or> \<not> truthy (fld project ''projectRuntimeRoot'')
      then next_r (markLocalCodeIndexUnavailable clock e [(''indexFreshness'', unavailable_because (JStr ''missing_source_or_runtime_root''))] q)
             (\<lambda>e' q'. (Inr (e', False), q'))
      else case index_gate (se_hub env) (se_cpbRoot env) (\<lambda>d. if own d = [] then JNull else d)
             (\<lambda>r. or_else r (JStr ''local_code_index_unavailable'')) project of
          Inl kvs \<Rightarrow> next_r (markLocalCodeIndexUnavailable clock e kvs q) (\<lambda>e' q'. (Inr (e', False), q'))
        | Inr (kvs, snapshot) \<Rightarrow> next_r (mark_ready clock e kvs snapshot q)
             (\<lambda>u q'. (Inr (case u of None \<Rightarrow> (e, False) | Some e' \<Rightarrow> (e', True)), q')))"

fun readiness_loop :: "sched_env \<Rightarrow> (moment \<Rightarrow> nat) \<Rightarrow> (js \<Rightarrow> js) \<Rightarrow> nat list \<Rightarrow> js list \<Rightarrow> js list
    \<Rightarrow> (nat list \<times> js list) result \<times> js list" where
  "readiness_loop env clock lookup [] es q = (Inr ([], es), q)"
| "readiness_loop env clock lookup (i # is) es q =
     next_r (readiness env clock lookup (es ! i) q) (\<lambda>(e', ok) q1.
       next_r (readiness_loop env clock lookup is (es[i := e']) q1) (\<lambda>(eligible, es') q2.
         (Inr (if ok then i # eligible else eligible, es'), q2)))"

definition applyProjectReadinessGate :: "sched_env \<Rightarrow> (moment \<Rightarrow> nat) \<Rightarrow> nat list \<Rightarrow> js list \<Rightarrow> js list
    \<Rightarrow> (nat list \<times> js list) result \<times> js list" where
  "applyProjectReadinessGate env clock pending es q =
     (case projectFn (se_hub env) of None \<Rightarrow> (Inr (pending, es), q)
      | Some lookup \<Rightarrow> readiness_loop env clock lookup pending es q)"

section \<open>Provider capacity\<close>

definition num_min :: "jsnum \<Rightarrow> jsnum \<Rightarrow> jsnum" where
  "num_min a b = (if a = NaN \<or> b = NaN then NaN else if num_lt b a then b else a)"

definition below :: "nat \<Rightarrow> nat option \<Rightarrow> bool" where
  \<comment> \<open>\<open>None\<close> is infinity\<close>
  "below n batch = (case batch of None \<Rightarrow> True | Some b \<Rightarrow> n < b)"

definition slice_batch :: "nat option \<Rightarrow> 'a list \<Rightarrow> 'a list" where
  "slice_batch batch xs = (case batch of None \<Rightarrow> xs | Some b \<Rightarrow> take b xs)"

definition fits :: "js \<Rightarrow> js \<Rightarrow> (js \<Rightarrow> nat) \<Rightarrow> (js \<Rightarrow> nat) option" where
  \<comment> \<open>the capacity of an entry's provider \<open>agent\<close>: \<open>None\<close> when it does not fit, else the new projection\<close>
  "fits agent cap projected =
     (if \<not> (truthy cap \<and> (isRecord cap \<or> is_arr cap)) then None
      else let key = or_else (fld cap ''providerKey'') agent;
               available = to_num (nullish_or (nullish_or (fld cap ''available'') (fld cap ''total'')) (jnat 0));
               total = to_num (nullish_or (fld cap ''total'') (JNum available));
               remaining = num_sub (num_min available total) (Fin (of_nat (projected key)))
           in if num_le remaining (Fin 0) then None else Some (projected(key := Suc (projected key))))"

fun capacity_loop :: "(js \<Rightarrow> js) \<Rightarrow> nat option \<Rightarrow> js list \<Rightarrow> nat list \<Rightarrow> (js \<Rightarrow> nat) \<Rightarrow> nat list \<Rightarrow> nat list" where
  "capacity_loop cap batch es [] projected eligible = eligible"
| "capacity_loop cap batch es (i # is) projected eligible =
     (if \<not> below (length eligible) batch then eligible
      else case fits (providerAgentForEntry (es ! i)) (cap (es ! i)) projected of
          None \<Rightarrow> capacity_loop cap batch es is projected eligible
        | Some projected' \<Rightarrow> capacity_loop cap batch es is projected' (eligible @ [i]))"

fun allowed_loop :: "(js \<Rightarrow> js) \<Rightarrow> nat option \<Rightarrow> js list \<Rightarrow> nat list \<Rightarrow> nat list \<Rightarrow> nat list" where
  "allowed_loop cap batch es [] eligible = eligible"
| "allowed_loop cap batch es (i # is) eligible =
     (if \<not> below (length eligible) batch then eligible
      else allowed_loop cap batch es is (if truthy (cap (es ! i)) then eligible @ [i] else eligible))"

definition applyProviderCapacityGate :: "(js \<Rightarrow> js) \<Rightarrow> nat option \<Rightarrow> js list \<Rightarrow> nat list \<Rightarrow> nat list" where
  \<comment> \<open>\<open>cap e\<close> is \<^verbatim>\<open>providerCapacityFn(providerAgentForEntry(e), e)\<close>\<close>
  "applyProviderCapacityGate cap batch es pending =
     (case pending of [] \<Rightarrow> []
      | i # is \<Rightarrow>
          (if is_bool (cap (es ! i))
           then slice_batch batch (allowed_loop cap batch es is (if cap (es ! i) = JBool True then [i] else []))
           else case fits (providerAgentForEntry (es ! i)) (cap (es ! i)) (\<lambda>_. 0) of
               None \<Rightarrow> slice_batch batch (capacity_loop cap batch es is (\<lambda>_. 0) [])
             | Some projected \<Rightarrow> slice_batch batch (capacity_loop cap batch es is projected [i])))"

section \<open>The smart order\<close>

definition round_half :: "rat \<Rightarrow> int" where
  \<comment> \<open>\<^verbatim>\<open>Math.round\<close>\<close>
  "round_half x = \<lfloor>x + 1 / 2\<rfloor>"

definition num_plus :: "jsnum \<Rightarrow> rat \<Rightarrow> jsnum" where
  "num_plus n x = (case n of Fin y \<Rightarrow> Fin (y + x) | _ \<Rightarrow> n)"

definition age_minutes :: "nat \<Rightarrow> js \<Rightarrow> jsnum" where
  \<comment> \<open>\<^verbatim>\<open>new Date\<close> of text; a creation time of another type is not a date here\<close>
  "age_minutes now e = (case fld e ''createdAt'' of
      JStr s \<Rightarrow> (case date_parse s of None \<Rightarrow> NaN | Some t \<Rightarrow> Fin (max 0 ((of_nat now - of_nat t) / 60000)))
    | _ \<Rightarrow> NaN)"

definition pressure_ratio :: "nat \<Rightarrow> jsnum \<Rightarrow> rat" where
  "pressure_ratio active limit = (case limit of Fin x \<Rightarrow> if 0 < x then of_nat active / x else 0 | _ \<Rightarrow> 0)"

definition retry_evidence :: "js \<Rightarrow> js" where
  "retry_evidence e = or_else (fld (meta e ''sourceContext'') ''retry'') (JObj [])"

definition string_or_null :: "js \<Rightarrow> js" where
  "string_or_null v = (if is_str v then v else JNull)"

text \<open>The parts of a score: what is added, and the reasons that are noted.\<close>

definition age_part :: "nat \<Rightarrow> js \<Rightarrow> jsnum \<times> string list" where
  "age_part now e = (let age = age_minutes now e in
     (case age of Fin a \<Rightarrow> Fin (min (a * 2) 40) | _ \<Rightarrow> NaN,
      case age of Fin a \<Rightarrow> if 5 < a then [''age:'' @ show_int (round_half a) @ ''m''] else [] | _ \<Rightarrow> []))"

definition pressure_part :: "nat \<Rightarrow> jsnum \<Rightarrow> rat \<times> string list" where
  "pressure_part active limit = (let r = pressure_ratio active limit
     in (of_int (round_half ((1 - r) * 15)), if r = 0 then [''no-active-pressure''] else []))"

definition failure_part :: "js \<Rightarrow> rat \<times> string list" where
  "failure_part e = (let last = or_else (meta e ''lastFailureKind'') (JStr []) in
     if last = JStr ''verification_failed'' then (5, [''verification_failed-boost''])
     else if last = JStr ''assignment_progress_stale'' then (5, [''progress_stale-boost''])
     else if last = JStr ''timeout'' then (3, [''timeout-boost'']) else (0, []))"

definition thrash_part :: "js \<Rightarrow> rat \<times> string list" where
  "thrash_part e = (let count = or_else (meta e ''failureCount'') (jnat 0) in
     if num_lt (Fin 0) (to_num count)
     then (case to_num count of Fin n \<Rightarrow> - min (n * 4) 20 | _ \<Rightarrow> - 20, [''failures:'' @ to_str count]) else (0, []))"

definition retry_part :: "js \<Rightarrow> rat \<times> string list" where
  "retry_part e =
     (let strategy = string_or_null (fld (retry_evidence e) ''retryStrategy'');
          fingerprint = string_or_null (fld (retry_evidence e) ''failureFingerprint'')
      in case strategy of
           JStr s \<Rightarrow>
             if (startsWith s ''fresh_session'' \<or> s = ''fresh_attempt'') \<and> truthy fingerprint
             then (4, [if s = ''fresh_attempt'' then ''evidence-backed-fresh-attempt'' else ''evidence-backed-fresh-session''])
             else if s \<noteq> [] \<and> truthy fingerprint then (2, [''evidence-backed-retry:'' @ s])
             else if s \<noteq> [] \<or> truthy fingerprint then (- 3, [''incomplete-retry-evidence'']) else (0, [])
         | _ \<Rightarrow> if truthy fingerprint then (- 3, [''incomplete-retry-evidence'']) else (0, []))"

definition quota_part :: "nat \<Rightarrow> js \<Rightarrow> js \<Rightarrow> rat \<times> string list" where
  "quota_part now quotas e =
     (let quota = recordValue (fld quotas (to_str (agent_of (meta e ''agents''))))
      in if fld quota ''status'' = JStr ''available'' then (0, [])
         else case parseRetryUntilMs (fld quota ''nextEligibleAt'') of
             None \<Rightarrow> (0, [])
           | Some t \<Rightarrow> if of_nat now < t then (- 10, [''provider:'' @ to_str (fld quota ''status'')]) else (0, []))"

definition smart_score :: "sched_env \<Rightarrow> nat \<Rightarrow> (string \<Rightarrow> nat) \<Rightarrow> (js \<Rightarrow> jsnum) \<Rightarrow> js \<Rightarrow> jsnum \<times> string list" where
  "smart_score env now active limit e =
     (let p = priorityScore (fld e ''priority'');
          (age, r2) = age_part now e;
          (pressure, r3) = pressure_part (active (project_key e)) (limit (fld e ''projectId''));
          (failure, r4) = failure_part e;
          (thrash, r5) = thrash_part e;
          (retry, r6) = retry_part e;
          (quota, r7) = quota_part now (se_quotas env) e;
          agents = (if truthy (meta e ''agents'') \<and> own (meta e ''agents'') \<noteq> [] then 2 else 0)
      in (num_plus age (of_nat ((3 - p) * 30) + pressure + failure + thrash + retry + quota + agents),
          (if p < 2 then [''priority:'' @ to_str (fld e ''priority'')] else []) @ r2 @ r3 @ r4 @ r5 @ r6 @ r7))"

definition score_rank :: "jsnum \<Rightarrow> rat" where
  \<comment> \<open>larger scores first\<close>
  "score_rank n = (case n of Fin x \<Rightarrow> - x | _ \<Rightarrow> 0)"

definition scheduler_decision :: "nat \<Rightarrow> nat \<Rightarrow> jsnum \<times> string list \<Rightarrow> js \<Rightarrow> js" where
  "scheduler_decision now rank s e = JObj [(''mode'', JStr ''smart''), (''selectedAt'', nowIso now), (''rank'', jnat rank),
     (''score'', JNum (fst s)), (''reasons'', jstrs (snd s)),
     (''retryStrategy'', string_or_null (fld (retry_evidence e) ''retryStrategy'')),
     (''failureFingerprint'', string_or_null (fld (retry_evidence e) ''failureFingerprint'')),
     (''failureClass'', string_or_null (fld (retry_evidence e) ''failureClass''))]"

fun note_decisions :: "nat \<Rightarrow> (js \<Rightarrow> jsnum \<times> string list) \<Rightarrow> nat \<Rightarrow> nat list \<Rightarrow> js list \<Rightarrow> js list" where
  "note_decisions now score rank [] es = es"
| "note_decisions now score rank (i # is) es =
     note_decisions now score (Suc rank) is
       (es[i := set_fields [(''metadata'', with_metadata [(''schedulerDecision'', scheduler_decision now rank (score (es ! i)) (es ! i))] (es ! i))] (es ! i)])"

definition smartRank :: "sched_env \<Rightarrow> nat \<Rightarrow> (string \<Rightarrow> nat) \<Rightarrow> (js \<Rightarrow> jsnum) \<Rightarrow> nat list \<Rightarrow> js list \<Rightarrow> nat list \<times> js list" where
  "smartRank env now active limit pending es =
     (let score = smart_score env now active limit;
          ranked = sort_key (\<lambda>i. (score_rank (fst (score (es ! i))), created_at (es ! i))) pending
      in (ranked, note_decisions now score 1 ranked es))"

section \<open>The candidates\<close>

definition sched_hub_limit :: "sched_env \<Rightarrow> jsnum" where
  "sched_hub_limit env =
     (let maxActive = positiveInt (if se_maxActive env = JUndef then JNum (DEFAULT_MAX_ACTIVE_PER_PROJECT (se_hub env)) else se_maxActive env)
            (DEFAULT_MAX_ACTIVE_PER_PROJECT (se_hub env))
      in maxActivePerProject (resolveHubConcurrencyLimits (se_hub env) (JNum maxActive) JUndef))"

definition sched_limit :: "sched_env \<Rightarrow> js list \<Rightarrow> js \<Rightarrow> jsnum" where
  "sched_limit env es = project_limit
     (resolveProjectConcurrencyLimits (se_hub env) (map (\<lambda>e. fld e ''projectId'') es) (sched_hub_limit env)) (sched_hub_limit env)"

text \<open>The choice from the entries that passed the gates.\<close>

definition choose_candidates :: "sched_env \<Rightarrow> (moment \<Rightarrow> nat) \<Rightarrow> nat option \<Rightarrow> nat list \<Rightarrow> js list \<Rightarrow> js list \<Rightarrow> js list" where
  "choose_candidates env clock batchSize pending es q =
     (let active = active_mutating es; limit = sched_limit env es;
          fitting = filterByProjectCapacity es active limit pending;
          (ranked, es1) = (if readSchedulerConfig (hubConfig (se_hub env)) = JStr ''smart''
            then smartRank env (clock Ranking) active limit fitting es
            else (sort_key (\<lambda>i. (priorityScore (fld (es ! i) ''priority''), created_at (es ! i))) fitting, es));
          provided = (case se_capacity env of None \<Rightarrow> ranked
            | Some f \<Rightarrow> applyProviderCapacityGate (\<lambda>e. f q (providerAgentForEntry e) e) None es1 ranked)
      in map (\<lambda>i. es1 ! i) (slice_batch batchSize (reserveProjectCapacity es1 active limit (\<lambda>_. 0) provided)))"

definition due_pending :: "(moment \<Rightarrow> nat) \<Rightarrow> js list \<Rightarrow> nat list" where
  "due_pending clock es = filterDagReady es (filterByRetryDecisionDue (clock Filtering) es
     (filter (\<lambda>i. fld (es ! i) ''status'' = JStr ''pending'') [0..<length es]))"

definition nextCandidates :: "sched_env \<Rightarrow> (moment \<Rightarrow> nat) \<Rightarrow> nat option \<Rightarrow> js list \<Rightarrow> js list result \<times> js list" where
  "nextCandidates env clock batchSize q =
     next_r (preparePendingPool env clock q) (\<lambda>es q1.
       next_r (applyProjectReadinessGate env clock (due_pending clock es) es q1) (\<lambda>(eligible, es1) q2.
         (Inr (choose_candidates env clock batchSize eligible es1 q2), q2)))"

definition nextCandidate :: "sched_env \<Rightarrow> (moment \<Rightarrow> nat) \<Rightarrow> js list \<Rightarrow> js option result \<times> js list" where
  "nextCandidate env clock q = next_r (nextCandidates env clock (Some 1) q)
     (\<lambda>cs q'. (Inr (case cs of [] \<Rightarrow> None | c # _ \<Rightarrow> Some c), q'))"

end
