(* ===== verification/Orchestrator.thy ===== *)
theory Orchestrator
  imports Scheduler
begin

text \<open>
  The orchestrator of the hub (\<^verbatim>\<open>server/orchestrator/hub-orchestrator.ts\<close>): one tick, which reconciles the
  running assignments, asks the scheduler for candidates and dispatches them to workers, and the
  alignment of the queue with the assignments.

  The state is the queue file and a world of any type, which holds the rest: the leader lock, the
  assignment and worker stores and the worker processes. The operations of these components are the
  fields of \<open>dispatch_env\<close>, functions on the world that return what the code awaits, an error included.
  The \<^verbatim>\<open>try\<close> block of a dispatch can be left in three ways, the constructors of \<open>flow\<close>: it goes on, it
  ends (\<^verbatim>\<open>continue\<close> or \<^verbatim>\<open>return\<close>), or it throws. Logging is left out; timers and the start of the
  orchestrator are not modelled.
\<close>

section \<open>Values\<close>

definition textOrNull :: "js \<Rightarrow> js" where
  "textOrNull v = (if nullish v then JNull else JStr (to_str v))"

definition safe_integer :: "jsnum \<Rightarrow> bool" where
  \<comment> \<open>\<^verbatim>\<open>Number.isSafeInteger\<close>\<close>
  "safe_integer n = (num_integer n \<and> num_le (Fin (- 9007199254740991)) n \<and> num_le n (Fin 9007199254740991))"

definition positive_id :: "js \<Rightarrow> bool" where
  "positive_id v = (safe_integer (to_num v) \<and> num_lt (Fin 0) (to_num v))"

definition text_field :: "js \<Rightarrow> string \<Rightarrow> string" where
  \<comment> \<open>\<^verbatim>\<open>typeof record[k] === "string" ? record[k] : ""\<close>\<close>
  "text_field r k = (case fld r k of JStr s \<Rightarrow> s | _ \<Rightarrow> [])"

definition canonical_time :: "string \<Rightarrow> bool" where
  \<comment> \<open>a date whose text is the one that \<^verbatim>\<open>toISOString\<close> gives\<close>
  "canonical_time s = (case date_parse s of None \<Rightarrow> False | Some t \<Rightarrow> toISOString t = s)"

definition processIdentityValue :: "js \<Rightarrow> js" where
  "processIdentityValue v =
     (let pid = to_num (fld v ''pid''); birthId = text_field v ''birthId''; group = fld v ''processGroupId'' in
      if \<not> positive_id (fld v ''pid'') \<or> birthId = [] \<or> text_field v ''incarnation'' \<noteq> show_num pid @ '':'' @ birthId
         \<or> text_field v ''capturedAt'' = [] \<or> \<not> canonical_time (text_field v ''capturedAt'')
         \<or> fld v ''birthIdPrecision'' \<noteq> JStr ''exact'' \<or> (group \<noteq> JUndef \<and> \<not> positive_id group)
      then JNull
      else JObj ([(''pid'', JNum pid), (''birthId'', JStr birthId), (''incarnation'', fld v ''incarnation''),
             (''capturedAt'', fld v ''capturedAt''), (''birthIdPrecision'', JStr ''exact'')]
           @ (if group = JUndef then [] else [(''processGroupId'', JNum (to_num group))])))"

definition orchestratorAgentForEntry :: "js \<Rightarrow> js" where
  \<comment> \<open>the file's own \<^verbatim>\<open>providerAgentForEntry\<close>\<close>
  "orchestratorAgentForEntry e =
     (let agents = recordValue (meta e ''agents''); spec = recordValue (or_else (fld agents ''executor'') (fld agents ''default''))
      in if is_str (fld spec ''agent'') then fld spec ''agent'' else JStr ''claude'')"

text \<open>The first of several sources of a field that is not null, and null when there is none.\<close>

fun first_of :: "js list \<Rightarrow> js" where
  "first_of [] = JNull"
| "first_of (v # vs) = nullish_or v (first_of vs)"

definition normalizedSourceContext :: "js \<Rightarrow> js" where
  "normalizedSourceContext c =
     (let m = recordValue (fld c ''metadata''); inherited = recordValue (fld m ''sourceContext''); pack = recordValue (fld m ''contextPack'');
          decision = first_of [fld m ''schedulerDecision'', fld inherited ''schedulerDecision''];
          entryId = textOrNull (or_else (fld c ''id'') (fld inherited ''queueEntryId''));
          text = (\<lambda>k k'. (k, textOrNull (nullish_or (fld m k') (fld inherited k))));
          channel = or_else (or_else (or_else (fld m ''channel'') (fld m ''source'')) (fld inherited ''channel'')) JNull;
          actor = (''actor'', first_of [fld m ''actor'', fld inherited ''actor'']);
          issue = (''issueNumber'', first_of [fld m ''issueNumber'', fld inherited ''issueNumber'']);
          plan = [text ''taskId'' ''taskId'', text ''planGroupId'' ''planGroupId'', text ''parentPlanId'' ''parentPlanId'',
                  text ''planCacheKey'' ''planCacheKey'',
                  (''contextPackPath'', textOrNull (nullish_or (fld m ''contextPackPath'') (nullish_or (fld pack ''path'') (fld inherited ''contextPackPath'')))),
                  (''contextPack'', first_of [fld m ''contextPack'', fld inherited ''contextPack'']), (''schedulerDecision'', decision)]
      in if fld m ''source'' = JStr ''github'' \<or> fld c ''type'' = JStr ''github_issue'' \<or> truthy (fld m ''issueUrl'')
         then JObj (spread (own inherited) ([(''type'', JStr ''github_issue''), (''queueEntryId'', entryId), issue,
             text ''issueUrl'' ''issueUrl'',
             (''repo'', textOrNull (nullish_or (fld m ''repo'') (nullish_or (fld m ''repository'') (nullish_or (fld m ''repositoryFullName'') (fld inherited ''repo''))))),
             text ''issueTitle'' ''issueTitle'', actor, text ''delivery'' ''delivery'', text ''commandText'' ''commandText'',
             text ''triggerReason'' ''triggerReason'', text ''failedQueueId'' ''originQueueId'', text ''failedJobId'' ''originJobId'',
             text ''failureArtifact'' ''failureArtifact''] @ plan))
         else if truthy channel
         then JObj (spread (own inherited) ([(''type'', textOrNull (or_else (fld inherited ''type'') channel)), (''channel'', textOrNull channel),
             (''queueEntryId'', entryId), actor, text ''actorName'' ''actorName'', text ''teamId'' ''teamId'',
             text ''channelId'' ''channelId'', text ''channelName'' ''channelName'', text ''commandText'' ''commandText'',
             text ''triggerId'' ''triggerId'', issue, text ''issueUrl'' ''issueUrl'', text ''repo'' ''repo''] @ plan))
         else JObj (spread (own inherited) [(''queueEntryId'', entryId), (''schedulerDecision'', decision)]))"

section \<open>Provider capacity\<close>

definition provider_active :: "js list \<Rightarrow> js \<Rightarrow> nat" where
  "provider_active q k = length (filter (\<lambda>e. isActiveEntry e \<and> strict_eq (orchestratorAgentForEntry e) k) q)"

definition providerCapacity :: "hub_env \<Rightarrow> js list \<Rightarrow> js \<Rightarrow> js \<Rightarrow> js" where
  "providerCapacity env q agentKey e =
     (let key = or_else agentKey (orchestratorAgentForEntry e);
          total = acpProviderMax (resolveHubConcurrencyLimits env JUndef JUndef);
          active = provider_active q key
      in JObj [(''providerKey'', key), (''active'', jnat active), (''total'', JNum total),
               (''available'', JNum (num_max0 (num_sub total (Fin (of_nat active)))))])"

section \<open>Dispatching a candidate\<close>

record 'w dispatch_env =
  stillHeld :: "'w \<Rightarrow> bool \<times> 'w"
  stop_hub :: "'w \<Rightarrow> 'w"
  getEpoch :: "'w \<Rightarrow> js"
  getProject_w :: "js \<Rightarrow> 'w \<Rightarrow> js result \<times> 'w"
  getOrCreateAssignmentForEntry :: "js \<Rightarrow> 'w \<Rightarrow> js result \<times> 'w"
  findIdleWorker :: "js \<Rightarrow> 'w \<Rightarrow> js result \<times> 'w"
  ensureWorkerFor :: "js \<Rightarrow> js \<Rightarrow> 'w \<Rightarrow> js result \<times> 'w"
  createAttempt :: "js \<Rightarrow> js \<Rightarrow> 'w \<Rightarrow> js result \<times> 'w"
  updateWorkerIf :: "js \<Rightarrow> js \<Rightarrow> js \<Rightarrow> 'w \<Rightarrow> js result \<times> 'w"
  writeInbox :: "js \<Rightarrow> js \<Rightarrow> 'w \<Rightarrow> js result \<times> 'w"

datatype dispatch_end = Dispatched js | Skipped | Failed js_error | LockLost

datatype 'a flow = Go 'a | End dispatch_end | Throw js_error

record 'w dispatch_state =
  ds_queue :: "js list"
  ds_world :: 'w
  ds_reservation :: "js option"
  ds_inboxWritten :: bool
  ds_worker :: "(js \<times> js \<times> js \<times> js) option"
    \<comment> \<open>worker, its incarnation token, assignment and attempt token\<close>

datatype tick_moment = Scheduling moment | Reserving | Reserve_commit | Claiming | Claim_commit | Failing | Fail_commit

definition flow_bind :: "'a flow \<times> 's \<Rightarrow> ('a \<Rightarrow> 's \<Rightarrow> 'b flow \<times> 's) \<Rightarrow> 'b flow \<times> 's" where
  "flow_bind r f = (case r of (Go v, s) \<Rightarrow> f v s | (End d, s) \<Rightarrow> (End d, s) | (Throw err, s) \<Rightarrow> (Throw err, s))"

lemma flow_bind_simps [simp]:
  "flow_bind (Go v, s) f = f v s" "flow_bind (End d, s) f = (End d, s)" "flow_bind (Throw err, s) f = (Throw err, s)"
  by (simp_all add: flow_bind_def)

text \<open>A call on the world, a call on the queue, and the check of the lock.\<close>

definition on_world :: "('w \<Rightarrow> 'a result \<times> 'w) \<Rightarrow> 'w dispatch_state \<Rightarrow> 'a flow \<times> 'w dispatch_state" where
  "on_world f s = (case f (ds_world s) of (Inr v, w) \<Rightarrow> (Go v, s\<lparr>ds_world := w\<rparr>) | (Inl err, w) \<Rightarrow> (Throw err, s\<lparr>ds_world := w\<rparr>))"

definition on_queue :: "(js list \<Rightarrow> 'a result \<times> js list) \<Rightarrow> 'w dispatch_state \<Rightarrow> 'a flow \<times> 'w dispatch_state" where
  "on_queue f s = (case f (ds_queue s) of (Inr v, q) \<Rightarrow> (Go v, s\<lparr>ds_queue := q\<rparr>) | (Inl err, q) \<Rightarrow> (Throw err, s\<lparr>ds_queue := q\<rparr>))"

definition fence :: "'w dispatch_env \<Rightarrow> 'w dispatch_state \<Rightarrow> unit flow \<times> 'w dispatch_state" where
  "fence env s = (case stillHeld env (ds_world s) of (held, w) \<Rightarrow>
     if held then (Go (), s\<lparr>ds_world := w\<rparr>) else (End LockLost, s\<lparr>ds_world := stop_hub env w\<rparr>))"

definition string_or :: "js \<Rightarrow> js \<Rightarrow> js" where
  \<comment> \<open>\<^verbatim>\<open>typeof v === "string" ? v : d\<close>\<close>
  "string_or v d = (if is_str v then v else d)"

definition state_guard :: "string \<Rightarrow> js \<Rightarrow> update_guard" where
  "state_guard status e = \<lparr>expectedStatus = JStr status, expectedClaimedAt = None, expectedUpdatedAt = Some (string_or (fld e ''updatedAt'') JNull)\<rparr>"

definition reserve_patch :: "(tick_moment \<Rightarrow> nat) \<Rightarrow> js \<Rightarrow> js \<Rightarrow> js" where
  "reserve_patch clock epoch c = JObj [(''status'', JStr ''scheduled''), (''claimedBy'', JStr (''orchestrator:'' @ to_str epoch)),
     (''claimedAt'', nowIso (clock Reserving)), (''metadata'', fld c ''metadata'')]"

definition reserve_entry :: "(tick_moment \<Rightarrow> nat) \<Rightarrow> js \<Rightarrow> js \<Rightarrow> 'w dispatch_state \<Rightarrow> js flow \<times> 'w dispatch_state" where
  "reserve_entry clock epoch c s =
     flow_bind (on_queue (updateEntry (clock Reserve_commit) (entry_id c) (reserve_patch clock epoch c) (state_guard ''pending'' c)) s)
       (\<lambda>r s'. case r of None \<Rightarrow> (End Skipped, s') | Some e \<Rightarrow> (Go e, s'\<lparr>ds_reservation := Some e\<rparr>))"

definition assignment_input :: "js \<Rightarrow> js \<Rightarrow> js" where
  "assignment_input c project = JObj [(''entryId'', fld c ''id''), (''projectId'', fld c ''projectId''),
     (''projectRuntimeRoot'', fld project ''projectRuntimeRoot''),
     (''task'', or_else (or_else (fld c ''description'') (meta c ''task'')) (JStr [])),
     (''sourcePath'', or_else (fld c ''sourcePath'') (meta c ''sourcePath'')),
     (''workflow'', or_else (meta c ''workflow'') (JStr ''standard'')), (''planMode'', or_else (meta c ''planMode'') (JStr ''full'')),
     (''sourceContext'', normalizedSourceContext c), (''metadata'', or_else (fld c ''metadata'') (JObj []))]"

definition expected_worker :: "js \<Rightarrow> js" where
  "expected_worker worker = JObj ([(''currentAssignmentId'', JNull), (''currentAttemptToken'', JNull), (''status'', jstrs [''starting'', ''ready''])]
     @ (if is_str (fld worker ''incarnationToken'') then [(''incarnationToken'', fld worker ''incarnationToken'')] else []))"

definition reserve_worker :: "'w dispatch_env \<Rightarrow> js \<Rightarrow> js \<Rightarrow> js \<Rightarrow> 'w dispatch_state \<Rightarrow> unit flow \<times> 'w dispatch_state" where
  "reserve_worker env worker assignment attempt s =
     flow_bind (on_world (updateWorkerIf env (fld worker ''workerId'')
         (JObj [(''status'', JStr ''assigned''), (''currentAssignmentId'', fld assignment ''assignmentId''), (''currentAttemptToken'', fld attempt ''attemptToken'')])
         (expected_worker worker)) s)
       (\<lambda>r s'. if \<not> truthy r then (Throw (ErrorMsg (''worker reservation lost before dispatch: '' @ to_str (fld worker ''workerId''))), s')
         else (Go (), s'\<lparr>ds_worker := Some (fld worker ''workerId'', string_or (fld worker ''incarnationToken'') JUndef,
                  fld assignment ''assignmentId'', JStr (to_str (fld attempt ''attemptToken'')))\<rparr>))"

definition inbox_payload :: "js \<Rightarrow> js \<Rightarrow> js" where
  "inbox_payload assignment attempt = JObj (map (\<lambda>k. (k, fld assignment k)) [''assignmentId'', ''entryId'', ''projectId'', ''projectRuntimeRoot'',
       ''task'', ''sourcePath'', ''workflow'', ''planMode'', ''sourceContext'']
     @ [(''metadata'', or_else (fld assignment ''metadata'') (JObj []))]
     @ map (\<lambda>k. (k, fld attempt k)) [''attempt'', ''attemptToken'', ''orchestratorEpoch''])"

definition claim_for :: "(tick_moment \<Rightarrow> nat) \<Rightarrow> js \<Rightarrow> js \<Rightarrow> js \<Rightarrow> 'w dispatch_state \<Rightarrow> unit flow \<times> 'w dispatch_state" where
  "claim_for clock c worker reservation s =
     flow_bind (on_queue (updateEntry (clock Claim_commit) (entry_id c)
         (JObj [(''status'', JStr ''scheduled''), (''claimedBy'', fld worker ''workerId''), (''claimedAt'', nowIso (clock Claiming))])
         (state_guard ''scheduled'' reservation)) s)
       (\<lambda>r s'. if r = None then (Throw (ErrorMsg (''queue reservation lost before dispatch: '' @ entry_id c)), s') else (Go (), s'))"

definition dispatch_try :: "'w dispatch_env \<Rightarrow> (tick_moment \<Rightarrow> nat) \<Rightarrow> js \<Rightarrow> 'w dispatch_state \<Rightarrow> dispatch_end flow \<times> 'w dispatch_state" where
  "dispatch_try env clock c s0 =
     flow_bind (fence env s0) (\<lambda>_ s1. let epoch = getEpoch env (ds_world s1) in
     flow_bind (reserve_entry clock epoch c s1) (\<lambda>reservation s2.
     flow_bind (on_world (getProject_w env (fld c ''projectId'')) s2) (\<lambda>project s3.
     if \<not> truthy (fld project ''projectRuntimeRoot'')
     then (Throw (ErrorMsg (''project runtime root required for dispatch: '' @ to_str (fld c ''projectId''))), s3)
     else flow_bind (on_world (getOrCreateAssignmentForEntry env (assignment_input c project)) s3) (\<lambda>assignment s4.
     flow_bind (on_world (findIdleWorker env (fld c ''projectId'')) s4) (\<lambda>existing s5.
     flow_bind (on_world (ensureWorkerFor env assignment existing) s5) (\<lambda>worker s6.
     flow_bind (on_world (createAttempt env (fld assignment ''assignmentId'')
         (JObj [(''workerId'', fld worker ''workerId''), (''orchestratorEpoch'', epoch)])) s6) (\<lambda>attempt s7.
     flow_bind (fence env s7) (\<lambda>_ s8.
     flow_bind (reserve_worker env worker assignment attempt s8) (\<lambda>_ s9.
     flow_bind (on_world (writeInbox env (fld worker ''workerId'') (inbox_payload assignment attempt)) s9) (\<lambda>_ s10.
     flow_bind (fence env (s10\<lparr>ds_inboxWritten := True\<rparr>)) (\<lambda>_ s11.
     flow_bind (claim_for clock c worker reservation s11) (\<lambda>_ s12.
       (Go (Dispatched (fld assignment ''assignmentId'')), s12)))))))))))))"

definition error_message :: "js_error \<Rightarrow> js" where
  "error_message err = JStr (case err of ErrorMsg m \<Rightarrow> m | TypeError m \<Rightarrow> m)"

definition failure_patch :: "(tick_moment \<Rightarrow> nat) \<Rightarrow> bool \<Rightarrow> js_error \<Rightarrow> js" where
  "failure_patch clock inboxWritten err =
     JObj ((if inboxWritten then [] else [(''status'', JStr ''pending''), (''claimedBy'', JNull), (''claimedAt'', JNull)])
       @ [(''metadata'', JObj [(''dispatchFailure'', JObj [(''error'', error_message err), (''retryable'', JBool True),
             (''timestamp'', nowIso (clock Failing))])])])"

definition failure_guard :: "js \<Rightarrow> js option \<Rightarrow> update_guard" where
  "failure_guard c reservation = (case reservation of Some r \<Rightarrow> state_guard ''scheduled'' r | None \<Rightarrow> state_guard ''pending'' c)"

definition put_back :: "(tick_moment \<Rightarrow> nat) \<Rightarrow> js \<Rightarrow> js_error \<Rightarrow> 'w dispatch_state \<Rightarrow> js option result \<times> js list" where
  "put_back clock c err s = updateEntry (clock Fail_commit) (entry_id c) (failure_patch clock (ds_inboxWritten s) err)
     (failure_guard c (ds_reservation s)) (ds_queue s)"

definition dispatch_failed :: "'w dispatch_env \<Rightarrow> (tick_moment \<Rightarrow> nat) \<Rightarrow> js \<Rightarrow> js_error \<Rightarrow> 'w dispatch_state \<Rightarrow> 'w dispatch_state" where
  \<comment> \<open>the \<^verbatim>\<open>catch\<close> block; the errors of its own calls are dropped\<close>
  "dispatch_failed env clock c err s =
     (let w1 = (case ds_worker s of
            Some (workerId, token, assignmentId, attemptToken) \<Rightarrow>
              if ds_inboxWritten s then ds_world s
              else snd (updateWorkerIf env workerId
                (JObj [(''status'', JStr ''ready''), (''currentAssignmentId'', JNull), (''currentAttemptToken'', JNull)])
                (JObj [(''incarnationToken'', token), (''currentAssignmentId'', assignmentId), (''currentAttemptToken'', attemptToken),
                       (''status'', JStr ''assigned'')]) (ds_world s))
          | None \<Rightarrow> ds_world s)
      in s\<lparr>ds_world := w1, ds_queue := snd (put_back clock c err s)\<rparr>)"

definition dispatch_one :: "'w dispatch_env \<Rightarrow> (tick_moment \<Rightarrow> nat) \<Rightarrow> js \<Rightarrow> js list \<times> 'w \<Rightarrow> dispatch_end \<times> js list \<times> 'w" where
  "dispatch_one env clock c qw =
     (case dispatch_try env clock c \<lparr>ds_queue = fst qw, ds_world = snd qw, ds_reservation = None, ds_inboxWritten = False, ds_worker = None\<rparr> of
        (Go d, s) \<Rightarrow> (d, ds_queue s, ds_world s)
      | (End d, s) \<Rightarrow> (d, ds_queue s, ds_world s)
      | (Throw err, s) \<Rightarrow> (let s' = dispatch_failed env clock c err s in (Failed err, ds_queue s', ds_world s')))"

text \<open>The candidates one after the other, until the lock is lost: the outcomes, and the state.\<close>

fun dispatch_all :: "'w dispatch_env \<Rightarrow> (js \<Rightarrow> tick_moment \<Rightarrow> nat) \<Rightarrow> js list \<Rightarrow> js list \<times> 'w \<Rightarrow> (js \<times> dispatch_end) list \<times> js list \<times> 'w" where
  "dispatch_all env clock [] qw = ([], qw)"
| "dispatch_all env clock (c # cs) qw =
     (let (d, qw1) = dispatch_one env (clock c) c qw in
      if d = LockLost then ([(c, d)], qw1)
      else (let (ds, qw2) = dispatch_all env clock cs qw1 in ((c, d) # ds, qw2)))"

section \<open>A tick\<close>

record 'w tick_env =
  te_dispatch :: "'w dispatch_env"
  te_hub :: hub_env
  te_cpbRoot :: js
  te_quotas :: js
  te_assignments :: "'w \<Rightarrow> string \<Rightarrow> js"
    \<comment> \<open>\<^verbatim>\<open>assignmentStore.getAssignment\<close>\<close>
  assertHubWritable :: "'w \<Rightarrow> bool"
  reconcileAssignments :: "js list \<times> 'w \<Rightarrow> unit result \<times> js list \<times> 'w"

datatype tick_result = Stopped string "(js \<times> js) list option" | Idle | Scheduled bool "(js \<times> js) list" "(js \<times> js_error) list"
    \<comment> \<open>the pairs of entries and assignments dispatched, and of entries and errors (without their times)\<close>

definition scheduler_of :: "'w tick_env \<Rightarrow> 'w \<Rightarrow> sched_env" where
  "scheduler_of env w = \<lparr>se_hub = te_hub env, se_cpbRoot = te_cpbRoot env, se_maxActive = JUndef, se_assignments = te_assignments env w,
     se_capacity = Some (providerCapacity (te_hub env)), se_quotas = te_quotas env\<rparr>"

definition dispatched_of :: "(js \<times> dispatch_end) list \<Rightarrow> (js \<times> js) list" where
  "dispatched_of ds = List.map_filter (\<lambda>(c, d). case d of Dispatched a \<Rightarrow> Some (fld c ''id'', a) | _ \<Rightarrow> None) ds"

definition failures_of :: "(js \<times> dispatch_end) list \<Rightarrow> (js \<times> js_error) list" where
  "failures_of ds = List.map_filter (\<lambda>(c, d). case d of Failed err \<Rightarrow> Some (fld c ''id'', err) | _ \<Rightarrow> None) ds"

definition tick_end :: "(js \<times> dispatch_end) list \<Rightarrow> tick_result" where
  "tick_end ds =
     (if \<exists>d\<in>set ds. snd d = LockLost then Stopped ''leader lock lost'' (Some (dispatched_of ds))
      else if dispatched_of ds \<noteq> [] then Scheduled True (dispatched_of ds) (failures_of ds)
      else if failures_of ds \<noteq> [] then Scheduled False [] (failures_of ds) else Idle)"

definition tick :: "'w tick_env \<Rightarrow> (js \<Rightarrow> tick_moment \<Rightarrow> nat) \<Rightarrow> js list \<times> 'w \<Rightarrow> tick_result result \<times> js list \<times> 'w" where
  "tick env clock qw =
     (if \<not> assertHubWritable env (snd qw)
      then (Inr (Stopped ''Hub maintenance became active'' None), fst qw, stop_hub (te_dispatch env) (snd qw))
      else case stillHeld (te_dispatch env) (snd qw) of (held, w) \<Rightarrow>
        if \<not> held then (Inr (Stopped ''leader lock lost'' None), fst qw, stop_hub (te_dispatch env) w)
        else case reconcileAssignments env (fst qw, w) of
            (Inl err, qw1) \<Rightarrow> (Inl err, qw1)
          | (Inr _, q1, w1) \<Rightarrow>
              (case nextCandidates (scheduler_of env w1) (\<lambda>m. clock JNull (Scheduling m)) None q1 of
                 (Inl err, q2) \<Rightarrow> (Inl err, q2, w1)
               | (Inr [], q2) \<Rightarrow> (Inr Idle, q2, w1)
               | (Inr cs, q2) \<Rightarrow>
                   (case dispatch_all (te_dispatch env) clock cs (q2, w1) of (ds, qw3) \<Rightarrow> (Inr (tick_end ds), qw3))))"

section \<open>Aligning the queue with the assignments\<close>

record 'w align_env =
  ae_getAssignment :: "string \<Rightarrow> 'w \<Rightarrow> js"
  ae_getWorker :: "js \<Rightarrow> 'w \<Rightarrow> js"
  ae_hostname :: js
  isProcessIdentityAlive :: "js \<Rightarrow> 'w \<Rightarrow> bool"
  sameProcessIdentity :: "js \<Rightarrow> js \<Rightarrow> bool"
  ae_writeSyntheticFailure :: "js \<Rightarrow> jsnum \<Rightarrow> js \<Rightarrow> 'w \<Rightarrow> unit result \<times> 'w"
  ae_updateWorkerIf :: "js \<Rightarrow> js \<Rightarrow> js \<Rightarrow> 'w \<Rightarrow> unit result \<times> 'w"

datatype align_moment = Align_commit | Align_failed | Align_written

definition terminal_assignment :: "js \<Rightarrow> bool" where
  "terminal_assignment a = (fld a ''status'' = JStr ''completed'' \<or> fld a ''status'' = JStr ''failed'')"

definition local_worker :: "'w align_env \<Rightarrow> js \<Rightarrow> bool" where
  "local_worker env worker = (truthy worker \<and> truthy (fld worker ''pid'')
     \<and> (fld worker ''host'' = JStr ''local'' \<or> strict_eq (fld worker ''host'') (ae_hostname env)))"

definition worker_receipt :: "js \<Rightarrow> js" where
  \<comment> \<open>the process identity of a worker when it is usable, else null\<close>
  "worker_receipt worker =
     (let i = processIdentityValue (fld worker ''processIdentity'')
      in if i = JNull \<or> JNum (to_num (fld worker ''pid'')) \<noteq> fld i ''pid'' \<or> text_field worker ''incarnationToken'' = [] then JNull else i)"

definition synthetic_failure :: "(align_moment \<Rightarrow> nat) \<Rightarrow> js \<Rightarrow> jsnum \<Rightarrow> js \<Rightarrow> js" where
  "synthetic_failure clock assignment attempt i = JObj [(''assignmentId'', fld assignment ''assignmentId''), (''attempt'', JNum attempt),
     (''status'', JStr ''failed''),
     (''jobResult'', JObj [(''status'', JStr ''failed''), (''failure'', JObj [(''kind'', JStr ''worker_heartbeat_lost''),
        (''reason'', JStr (''worker incarnation '' @ to_str (fld i ''incarnation'') @ '' dead on startup''))])]),
     (''writtenAt'', nowIso (clock Align_written))]"

definition failed_patch :: "(align_moment \<Rightarrow> nat) \<Rightarrow> string \<Rightarrow> js" where
  "failed_patch clock reason = JObj [(''status'', JStr ''failed''),
     (''metadata'', JObj [(''failureReason'', JStr reason), (''failedAt'', nowIso (clock Align_failed))])]"

text \<open>One entry that is running or scheduled. No update of the queue is guarded.\<close>

definition align_update :: "(align_moment \<Rightarrow> nat) \<Rightarrow> js \<Rightarrow> js \<Rightarrow> js list \<times> 'w \<Rightarrow> unit result \<times> js list \<times> 'w" where
  "align_update clock e patch qw =
     (case updateEntry (clock Align_commit) (entry_id e) patch no_guard (fst qw) of
        (Inl err, q) \<Rightarrow> (Inl err, q, snd qw) | (Inr _, q) \<Rightarrow> (Inr (), q, snd qw))"

definition align_dead :: "'w align_env \<Rightarrow> (align_moment \<Rightarrow> nat) \<Rightarrow> js \<Rightarrow> js \<Rightarrow> js \<Rightarrow> js \<Rightarrow> js list \<times> 'w \<Rightarrow> unit result \<times> js list \<times> 'w" where
  \<comment> \<open>the worker's process was seen dead: \<open>a\<close> and \<open>worker\<close> are what was read before\<close>
  "align_dead env clock e a worker i qw =
     (let current = ae_getWorker env (fld a ''workerId'') (snd qw);
          now = ae_getAssignment env (to_str (fld a ''assignmentId'')) (snd qw)
      in if \<not> truthy current \<or> \<not> strict_eq (fld current ''incarnationToken'') (fld worker ''incarnationToken'')
            \<or> \<not> sameProcessIdentity env (processIdentityValue (fld current ''processIdentity'')) i then (Inr (), qw)
         else if \<not> truthy now \<or> \<not> strict_eq (fld now ''workerId'') (fld a ''workerId'') \<or> terminal_assignment now then (Inr (), qw)
         else (let attempt = (if is_num (fld now ''activeAttempt'') then to_num (fld now ''activeAttempt'')
                              else to_num (or_else (fld now ''activeAttempt'') (jnat 1)))
           in case ae_writeSyntheticFailure env (fld now ''assignmentId'') attempt (synthetic_failure clock now attempt i) (snd qw) of
                (Inl err, w) \<Rightarrow> (Inl err, fst qw, w)
              | (Inr _, w) \<Rightarrow> next_r (align_update clock e (failed_patch clock ''worker dead on startup'') (fst qw, w)) (\<lambda>_ qw1.
                  (case ae_updateWorkerIf env (fld a ''workerId'') (JObj [(''status'', JStr ''exited'')])
                      (JObj [(''incarnationToken'', fld worker ''incarnationToken'')]) (snd qw1) of (r, w1) \<Rightarrow> (r, fst qw1, w1)))))"

definition align_entry :: "'w align_env \<Rightarrow> (align_moment \<Rightarrow> nat) \<Rightarrow> js \<Rightarrow> js list \<times> 'w \<Rightarrow> unit result \<times> js list \<times> 'w" where
  "align_entry env clock e qw =
     (let a = ae_getAssignment env (assignment_id e) (snd qw) in
      if \<not> truthy a then align_update clock e (JObj [(''status'', JStr ''pending''), (''claimedBy'', JNull), (''claimedAt'', JNull)]) qw
      else if terminal_assignment a
      then align_update clock e (if fld a ''status'' = JStr ''completed'' then JObj [(''status'', JStr ''completed'')]
             else failed_patch clock ''assignment terminal on startup'') qw
      else if \<not> truthy (fld a ''workerId'') then (Inr (), qw)
      else (let worker = ae_getWorker env (fld a ''workerId'') (snd qw) in
        if \<not> local_worker env worker then (Inr (), qw)
        else if worker_receipt worker = JNull then (Inr (), qw)
        else if isProcessIdentityAlive env (worker_receipt worker) (snd qw) then (Inr (), qw)
        else align_dead env clock e a worker (worker_receipt worker) qw))"

fun align_all :: "'w align_env \<Rightarrow> (js \<Rightarrow> align_moment \<Rightarrow> nat) \<Rightarrow> js list \<Rightarrow> js list \<times> 'w \<Rightarrow> unit result \<times> js list \<times> 'w" where
  "align_all env clock [] qw = (Inr (), qw)"
| "align_all env clock (e # es) qw = next_r (align_entry env (clock e) e qw) (\<lambda>_. align_all env clock es)"

definition reconcileQueueVsAssignments :: "'w align_env \<Rightarrow> (js \<Rightarrow> align_moment \<Rightarrow> nat) \<Rightarrow> js list \<times> 'w \<Rightarrow> unit result \<times> js list \<times> 'w" where
  "reconcileQueueVsAssignments env clock qw =
     align_all env clock (listQueue (JStr ''in_progress'') JUndef (fst qw) @ listQueue (JStr ''scheduled'') JUndef (fst qw)) qw"

end
