(* ===== verification/SchedulerProperties.thy ===== *)
theory SchedulerProperties
  imports Scheduler HubProperties "HOL-Library.Sublist" "HOL-Library.Multiset"
begin

text \<open>
  Properties of the scheduler: its candidates are pending tasks that are due, whose dependencies are
  completed and whose reservation will be accepted; together with the running tasks they stay within
  the limits of their projects; and what the selection leaves out, it leaves out for a reason.
\<close>

section \<open>Updates of one entry\<close>

lemma wf_entry_index:
  assumes "wf_queue q" "i < length q"
  shows "entry_index (entry_id (q ! i)) q = Some i" "fld (q ! i) ''id'' = JStr (entry_id (q ! i))"
proof -
  show id: "fld (q ! i) ''id'' = JStr (entry_id (q ! i))"
    using wf_queue_entry(4) [OF assms(1) nth_mem [OF assms(2)]] by (cases "fld (q ! i) ''id''") (simp_all add: entry_id_def)
  let ?ids = "map (\<lambda>e. fld e ''id'') q"
  obtain k where k: "index_of (?ids ! i) ?ids = Some k"
    using assms(2) by (cases "index_of (?ids ! i) ?ids") (auto simp: index_of_None)
  from index_of_Some [OF this] assms have "k = i" by (simp add: wf_queue_def nth_eq_iff_index_eq [of ?ids, symmetric])
  with k id assms(2) show "entry_index (entry_id (q ! i)) q = Some i" by (simp add: entry_index_def)
qed

lemma update_cases:
  assumes "updateEntry now (entry_id (q ! i)) patch g q = (r, q')" "wf_queue q" "i < length q"
  obtains err where "r = Inl err" "q' = q" | "r = Inr None" "q' = q" "\<not> guard_holds g (q ! i)"
  | "r = Inr (Some (patched now patch (q ! i)))" "guard_holds g (q ! i)" "q' = q[i := json_copy (patched now patch (q ! i))]"
proof -
  note result = that
  have rec: "list_all isRecord q" and cm: "committed q = q" using assms(2) by (simp_all add: wf_queue_def)
  consider err where "r = Inl err" | "r = Inr None" | e where "r = Inr (Some e)" by (metis option.exhaust sum.exhaust)
  then show thesis
  proof cases
    case 1
    with assms(1) mutation_Inl show thesis unfolding updateEntry_def by (metis result(1))
  next
    case 2
    have "\<not> guard_holds g (q ! i)"
    proof
      assume "guard_holds g (q ! i)"
      with wf_entry_index(1) [OF assms(2,3)]
      have run: "update_entry now (entry_id (q ! i)) patch g q = Inr (q[i := patched now patch (q ! i)], Some (patched now patch (q ! i)))"
        by (simp add: update_entry_def)
      have "list_all isRecord (q[i := patched now patch (q ! i)])"
        using rec by (auto simp: list_all_iff patched_keeps dest!: set_update_subset_insert [THEN subsetD])
      from mutation_Inr [OF assms(1) [unfolded updateEntry_def 2]] run this show False by (metis Inr_inject Pair_inject option.distinct(1))
    qed
    moreover have "q' = q" using update_entry_none [OF assms(1) [unfolded 2] rec] cm by simp
    ultimately show thesis using 2 result(2) by blast
  next
    case 3
    from update_entry_shape [OF assms(1) rec 3] obtain k where k: "entry_index (entry_id (q ! i)) q = Some k"
      "guard_holds g (q ! k)" "e = patched now patch (q ! k)" "q' = committed (q[k := e])" by metis
    have "k = i" using k(1) wf_entry_index(1) [OF assms(2,3)] by simp
    moreover have "committed (q[i := e]) = q[i := json_copy e]"
      using cm by (metis committed_def map_update)
    ultimately show thesis using 3 k result(3) by blast
  qed
qed

lemma patched_fields:
  "fld (patched now patch e) ''status'' = (if fld patch ''status'' = JUndef then fld e ''status'' else fld patch ''status'')"
  "fld (patched now patch e) ''updatedAt'' = (if fld patch ''updatedAt'' = JUndef then nowIso now else fld patch ''updatedAt'')"
  "fld (patched now patch e) ''metadata'' = (if truthy (fld patch ''metadata'')
     then JObj (spread (own (fld e ''metadata'')) (own (fld patch ''metadata''))) else fld e ''metadata'')"
  by (simp_all add: patched_def Let_def patch_field_def fld_set_fields clearClaim_def)

text \<open>The representation invariant of the entries that the scheduler works on: the keys of the metadata are
  distinct, as the keys of any object, and the time of the last update is text or missing.\<close>

definition entry_ok :: "js \<Rightarrow> bool" where
  "entry_ok e = (distinct (map fst (own (fld e ''metadata''))) \<and> (is_str (fld e ''updatedAt'') \<or> nullish (fld e ''updatedAt'')))"

lemma own_json_copy: "distinct (map fst (own v)) \<Longrightarrow> distinct (map fst (own (json_copy v)))"
  by (cases v) (simp_all add: own_def o_def distinct_map_filter)

lemma entry_ok_json: "entry_ok e \<Longrightarrow> entry_ok (json_copy e)"
  using own_json_copy [of "fld e ''metadata''"] by (cases "fld e ''updatedAt''") (simp_all add: entry_ok_def nullish_def)

lemma distinct_spread: "distinct (map fst a) \<Longrightarrow> distinct (map fst (spread a b))"
  by (induction b arbitrary: a) (auto simp: spread_simps obj_set_def distinct_update)

lemma fld_merge:
  assumes "distinct (map fst (own w))"
  shows "fld (JObj (spread (own v) (own w))) k = (if k \<in> fst ` set (own w) then fld w k else fld v k)"
proof -
  have "map_of (rev (own w)) = map_of (own w)" using assms by (intro map_of_inject_set [THEN iffD2]) (simp_all add: rev_map [symmetric])
  then have "fld (JObj (spread (own v) (own w))) k = (case map_of (own w) k of None \<Rightarrow> fld v k | Some x \<Rightarrow> x)"
    by (simp add: fld_spread_own)
  moreover have "map_of (own w) k = None \<longleftrightarrow> k \<notin> fst ` set (own w)" by (rule map_of_eq_None_iff)
  moreover have "map_of (own w) k = Some x \<Longrightarrow> fld w k = x" for x
    unfolding obj_get_own [symmetric] by (simp add: obj_get_def)
  ultimately show ?thesis by (auto split: option.split)
qed

text \<open>Metadata that an update adds: the other keys stay.\<close>

lemma merged_metadata:
  assumes "entry_ok e" "k \<notin> fst ` set kvs"
  shows "fld (with_metadata kvs e) k = meta e k"
    "fld (JObj (spread (own (fld e ''metadata'')) (own (with_metadata kvs e)))) k = meta e k"
proof -
  have "map_of (rev kvs) k = None" using assms(2) by (simp add: map_of_eq_None_iff)
  then show one: "fld (with_metadata kvs e) k = meta e k" by (simp add: with_metadata_def fld_spread_own)
  have "distinct (map fst (own (with_metadata kvs e)))" using assms(1) by (simp add: with_metadata_def entry_ok_def distinct_spread)
  from fld_merge [OF this] one
  show "fld (JObj (spread (own (fld e ''metadata'')) (own (with_metadata kvs e)))) k = meta e k" by simp
qed

section \<open>The readiness gate, entry by entry\<close>

definition gate_keys :: "string set" where
  "gate_keys = {''projectReadiness'', ''capabilityMap'', ''indexFreshness'', ''localCodeIndexReadiness'', ''indexSnapshot''}"

lemma index_gate_keys:
  "index_gate env base details noReason project = Inl kvs \<Longrightarrow> fst ` set kvs \<subseteq> gate_keys"
  "index_gate env base details noReason project = Inr (kvs, snapshot) \<Longrightarrow> fst ` set kvs \<subseteq> gate_keys"
  by (auto simp: index_gate_def Let_def gate_keys_def split: if_splits sum.splits)

lemma wf_update:
  assumes "wf_queue q" "i < length q" "identity w = identity (q ! i)" "isRecord w"
  shows "wf_queue (q[i := json_copy w])"
proof -
  have cm: "committed q = q" "list_all isRecord q" using assms(1) by (simp_all add: wf_queue_def)
  have "identity (q[i := w] ! j) = identity (q ! j)" if "j < length q" for j using that assms(3) by (cases "i = j") simp_all
  moreover have "list_all isRecord (q[i := w])"
    using cm(2) assms(4) by (auto simp: list_all_iff dest!: set_update_subset_insert [THEN subsetD])
  ultimately have "wf_queue (committed (q[i := w]))" using kept_identities(1) [OF assms(1)] by simp
  moreover have "committed (q[i := w]) = q[i := json_copy w]" using cm(1) by (metis committed_def map_update)
  ultimately show ?thesis by simp
qed

lemma guarded_pending: "entry_ok e \<Longrightarrow> fld e ''status'' = JStr ''pending'' \<Longrightarrow> guard_holds (pending_guard e) e"
  by (cases "fld e ''updatedAt''") (simp_all add: guard_holds_def pending_guard_def js_includes_def or_else_def nullish_or_def nullish_def entry_ok_def)

lemma gate_update:
  assumes "update_pending clock (q ! i) patch q = (Inr u, q1)" "wf_queue q" "i < length q" "entry_ok (q ! i)"
    and "fld (q ! i) ''status'' = JStr ''pending''" "fld patch ''metadata'' = with_metadata kvs (q ! i)" "fst ` set kvs \<subseteq> gate_keys"
  obtains w where "u = Some w" "q1 = q[i := json_copy w]" "identity w = identity (q ! i)" "isRecord w" "wf_queue q1"
      "fld w ''status'' = (if fld patch ''status'' = JUndef then fld (q ! i) ''status'' else fld patch ''status'')"
      "is_str (fld patch ''updatedAt'') \<or> fld patch ''updatedAt'' = JUndef \<Longrightarrow> is_str (fld w ''updatedAt'')"
      "\<And>k. k \<notin> gate_keys \<Longrightarrow> meta (json_copy w) k = meta (q ! i) k"
      "distinct (map fst (own (fld w ''metadata'')))"
proof -
  note result = that
  from assms(1) have run: "updateEntry (clock (Updating (entry_id (q ! i)))) (entry_id (q ! i)) patch (pending_guard (q ! i)) q = (Inr u, q1)"
    by (simp add: update_pending_def)
  from update_cases [OF run assms(2,3)] show thesis
  proof cases
    case 3
    let ?w = "patched (clock (Updating (entry_id (q ! i)))) patch (q ! i)"
    have m: "fld ?w ''metadata'' = JObj (spread (own (fld (q ! i) ''metadata'')) (own (with_metadata kvs (q ! i))))"
      by (simp add: patched_fields assms(6)) (simp add: with_metadata_def)
    have deps: "meta (json_copy ?w) k = meta (q ! i) k" if "k \<notin> gate_keys" for k
    proof -
      have "k \<notin> fst ` set kvs" using that assms(7) by blast
      from merged_metadata(2) [OF assms(4) this] have "meta ?w k = meta (q ! i) k" using m by simp
      moreover have "json_copy (meta (q ! i) k) = meta (q ! i) k"
        using wf_queue_entry(1) [OF assms(2) nth_mem [OF assms(3)]] by (metis fld_json_copy)
      ultimately show ?thesis by simp
    qed
    have dist: "distinct (map fst (own (fld ?w ''metadata'')))"
      using assms(4) m by (simp add: entry_ok_def distinct_spread)
    have upd: "is_str (fld ?w ''updatedAt'')" if "is_str (fld patch ''updatedAt'') \<or> fld patch ''updatedAt'' = JUndef"
      using that by (auto simp: patched_fields nowIso_def)
    have wf1: "wf_queue q1" using wf_update [OF assms(2,3) patched_keeps] 3(3) by simp
    have u: "u = Some ?w" using 3(1) by simp
    show thesis by (rule result [OF u 3(3) patched_keeps wf1 patched_fields(1) upd deps dist])
  qed (use guarded_pending [OF assms(4,5)] in simp_all)
qed

text \<open>The entry of the snapshot and the entry of the file after the gate.\<close>

definition in_step :: "js \<Rightarrow> js \<Rightarrow> bool" where
  "in_step e x = (identity e = identity x \<and> isMutatingEntry e = isMutatingEntry x \<and> isActiveEntry e = isActiveEntry x
     \<and> meta e ''agents'' = meta x ''agents'')"

definition passed :: "js \<Rightarrow> js \<Rightarrow> js \<Rightarrow> bool" where
  "passed e0 e x = (fld x ''status'' = JStr ''pending'' \<and> fld e ''status'' = JStr ''pending'' \<and> guard_holds (pending_guard e) x
     \<and> distinct (map fst (own (fld e ''metadata'')))
     \<and> meta x ''dependsOn'' = meta e0 ''dependsOn'' \<and> meta x ''retryDecision'' = meta e0 ''retryDecision'')"

lemma in_step_refl [simp]: "in_step e e"
  by (simp add: in_step_def)

lemma snapshot_in_step:
  assumes "wf_queue q" "i < length q" "entry_ok (q ! i)" "fst ` set kvs \<subseteq> gate_keys"
    and "identity e' = identity (q ! i)" "fld e' ''metadata'' = with_metadata kvs (q ! i)"
    and "identity w = identity (q ! i)" "\<And>k. k \<notin> gate_keys \<Longrightarrow> meta (json_copy w) k = meta (q ! i) k"
    and "isActiveEntry e' = isActiveEntry w"
  shows "in_step e' (json_copy w)"
proof -
  have kept: "meta e' k = meta (json_copy w) k" if "k \<notin> gate_keys" for k
  proof -
    have "k \<notin> fst ` set kvs" using that assms(4) by blast
    from merged_metadata(1) [OF assms(3) this] show ?thesis unfolding assms(6) assms(8) [OF that] .
  qed
  then have "meta e' ''mutating'' = meta (json_copy w) ''mutating''" "meta e' ''agents'' = meta (json_copy w) ''agents''"
    by (simp_all add: gate_keys_def del: fld_json_copy)
  then have "isMutatingEntry e' = isMutatingEntry (json_copy w)" "meta e' ''agents'' = meta (json_copy w) ''agents''"
    by (simp_all add: isMutatingEntry_def del: fld_json_copy isMutating_json)
  moreover have "identity (json_copy w) = identity (q ! i)" by (rule identity_committed [OF assms(1) nth_mem [OF assms(2)] assms(7)])
  ultimately show ?thesis using assms(5,9) by (simp add: in_step_def del: isMutating_json fld_json_copy)
qed

definition step_result :: "js list \<Rightarrow> nat \<Rightarrow> js \<Rightarrow> bool \<Rightarrow> js list \<Rightarrow> bool" where
  "step_result q i e' ok q1 = (wf_queue q1 \<and> length q1 = length q \<and> (\<forall>j. j \<noteq> i \<longrightarrow> q1 ! j = q ! j)
     \<and> in_step e' (q1 ! i) \<and> identity e' = identity (q ! i) \<and> isActiveEntry e' = isActiveEntry (q ! i)
     \<and> (if ok then passed (q ! i) e' (q1 ! i) else fld (q1 ! i) ''status'' \<notin> {JStr ''pending'', JStr ''completed''}))"

lemma refused_step:
  assumes "next_r (update_pending clock (q ! i) patch q) (\<lambda>updated q'. (Inr (if updated = None then q ! i
      else set_fields fs (q ! i)), q')) = (Inr e', q1)"
    and "wf_queue q" "i < length q" "entry_ok (q ! i)" "fld (q ! i) ''status'' = JStr ''pending''"
    and "fld patch ''metadata'' = with_metadata kvs (q ! i)" "fst ` set kvs \<subseteq> gate_keys" "fld patch ''status'' = JStr s"
    and "JStr s \<notin> {JStr ''scheduled'', JStr ''in_progress'', JStr ''pending'', JStr ''completed''}" "fs = [(''status'', JStr s), (k, v), (''metadata'', with_metadata kvs (q ! i))]"
    and "k \<notin> insert ''status'' (set identity_fields)" "k \<noteq> ''metadata''"
  shows "step_result q i e' False q1"
proof -
  from assms(1) obtain u where u: "update_pending clock (q ! i) patch q = (Inr u, q1)"
    "e' = (if u = None then q ! i else set_fields fs (q ! i))" by (auto simp: next_r_Inr)
  from gate_update [OF u(1) assms(2-7)] show ?thesis
  proof cases
    case (1 w)
    note 2 = 1
    have e': "e' = set_fields fs (q ! i)" using u(2) 2(1) by simp
    have ident: "identity e' = identity (q ! i)"
      using assms(11) unfolding e' assms(10) by (intro identity_set_fields) (simp add: identity_fields_def)
    have status: "fld e' ''status'' = JStr s" "fld e' ''metadata'' = with_metadata kvs (q ! i)"
      using assms(11,12) unfolding e' assms(10) by (auto simp: fld_set_fields)
    have status2: "fld w ''status'' = JStr s" using 2(6) assms(8) by simp
    have idle: "\<not> isActiveEntry e'" "\<not> isActiveEntry w" "\<not> isActiveEntry (q ! i)"
      using assms(5,8,9) status(1) 2(6) by (auto simp: isActiveEntry_def)
    from snapshot_in_step [OF assms(2-4,7) ident status(2) 2(3,8)] idle have "in_step e' (json_copy w)" by simp
    with 2 idle ident assms(3,9) status2 show ?thesis by (simp add: step_result_def)
  qed
qed

lemma ready_step:
  assumes "mark_ready clock (q ! i) kvs snapshot q = (Inr u, q1)" "wf_queue q" "i < length q" "entry_ok (q ! i)"
    and "fld (q ! i) ''status'' = JStr ''pending''" "fst ` set kvs \<subseteq> gate_keys"
  shows "step_result q i (case u of None \<Rightarrow> q ! i | Some e' \<Rightarrow> e') (u \<noteq> None) q1"
proof -
  let ?patch = "JObj [(''metadata'', with_metadata kvs (q ! i))]"
  let ?e = "\<lambda>w. set_fields [(''metadata'', with_metadata kvs (q ! i)), (''indexSnapshotId'', snapshot),
     (''updatedAt'', if is_str (fld w ''updatedAt'') then fld w ''updatedAt'' else fld (q ! i) ''updatedAt'')] (q ! i)"
  from assms(1) obtain v where v: "update_pending clock (q ! i) ?patch q = (Inr v, q1)" "u = map_option ?e v"
    by (auto simp: mark_ready_def Let_def next_r_Inr)
  have patch: "fld ?patch ''metadata'' = with_metadata kvs (q ! i)" by simp
  from gate_update [OF v(1) assms(2-5) patch assms(6)] show ?thesis
  proof cases
    case (1 w)
    note 2 = 1
    have ident: "identity (?e w) = identity (q ! i)" by (simp add: identity_set_fields identity_fields_def)
    have w: "fld w ''status'' = JStr ''pending''" "is_str (fld w ''updatedAt'')" using 2(6,7) assms(5) by simp_all
    have fields: "fld (?e w) ''status'' = JStr ''pending''" "fld (?e w) ''updatedAt'' = fld w ''updatedAt''"
      "fld (?e w) ''metadata'' = with_metadata kvs (q ! i)"
      using assms(5) w(2) by (simp_all add: fld_set_fields)
    have idle: "\<not> isActiveEntry (?e w)" "\<not> isActiveEntry w" "\<not> isActiveEntry (q ! i)"
      using assms(5) fields(1) w(1) by (simp_all add: isActiveEntry_def)
    from snapshot_in_step [OF assms(2-4,6) ident fields(3) 2(3,8)] idle have "in_step (?e w) (json_copy w)" by simp
    moreover have "guard_holds (pending_guard (?e w)) (json_copy w)"
    proof -
      obtain t where t: "fld w ''updatedAt'' = JStr t" using w(2) by (cases "fld w ''updatedAt''") simp_all
      have "pending_guard (?e w) = \<lparr>expectedStatus = JStr ''pending'', expectedClaimedAt = None, expectedUpdatedAt = Some (JStr t)\<rparr>"
        by (simp only: pending_guard_def trans [OF fields(2) t]) (simp add: nullish_or_def nullish_def)
      then show ?thesis using w(1) t by (simp only:) (simp add: guard_holds_def js_includes_def or_else_def)
    qed
    moreover have "meta (json_copy w) ''dependsOn'' = meta (q ! i) ''dependsOn''" "meta (json_copy w) ''retryDecision'' = meta (q ! i) ''retryDecision''"
      by (rule 2(8), simp add: gate_keys_def)+
    moreover have "distinct (map fst (own (fld (?e w) ''metadata'')))"
      unfolding fields(3) using assms(4) by (simp add: with_metadata_def entry_ok_def distinct_spread)
    ultimately have "passed (q ! i) (?e w) (json_copy w)"
      unfolding passed_def using fields(1) w(1) by (simp del: fld_json_copy add: fld_json_copy [of w "''status''"])
    with \<open>in_step (?e w) (json_copy w)\<close> 2 idle ident assms(3) v(2) show ?thesis by (simp add: step_result_def)
  qed
qed

lemma readiness_result:
  assumes "readiness env clock lookup (q ! i) q = (Inr (e', ok), q1)" "wf_queue q" "i < length q" "entry_ok (q ! i)"
    and "fld (q ! i) ''status'' = JStr ''pending''"
  shows "step_result q i e' ok q1"
proof -
  let ?project = "lookup (fld (q ! i) ''projectId'')"
  let ?gate = "index_gate (se_hub env) (se_cpbRoot env) (\<lambda>d. if own d = [] then JNull else d)
    (\<lambda>r. or_else r (JStr ''local_code_index_unavailable'')) ?project"
  have marked: "step_result q i e' ok q1"
    if "next_r (markLocalCodeIndexUnavailable clock (q ! i) kvs q) (\<lambda>e' q'. (Inr (e', False), q')) = (Inr (e', ok), q1)"
      and keys: "fst ` set kvs \<subseteq> gate_keys" for kvs
  proof -
    from that(1) have run: "markLocalCodeIndexUnavailable clock (q ! i) kvs q = (Inr e', q1)" and no: "\<not> ok" by (auto simp: next_r_Inr)
    from run have "step_result q i e' False q1"
      unfolding markLocalCodeIndexUnavailable_def Let_def
      by (rule refused_step [OF _ assms(2-5) _ keys _ _ refl]) (simp_all add: identity_fields_def)
    with no show ?thesis by simp
  qed
  consider "\<not> truthy ?project" | "truthy ?project" "\<not> truthy (fld ?project ''sourcePath'') \<or> \<not> truthy (fld ?project ''projectRuntimeRoot'')"
    | kvs where "truthy ?project" "\<not> (\<not> truthy (fld ?project ''sourcePath'') \<or> \<not> truthy (fld ?project ''projectRuntimeRoot''))" "?gate = Inl kvs"
    | kvs snapshot where "truthy ?project" "\<not> (\<not> truthy (fld ?project ''sourcePath'') \<or> \<not> truthy (fld ?project ''projectRuntimeRoot''))"
        "?gate = Inr (kvs, snapshot)"
    by (cases ?gate) fastforce+
  then show ?thesis
  proof cases
    case 1
    with assms(1) have "block_unknown clock (q ! i) q = (Inr e', q1)" "\<not> ok" by (auto simp: readiness_def next_r_Inr)
    moreover from this(1) have "step_result q i e' False q1"
      unfolding block_unknown_def Let_def
      by (rule refused_step [OF _ assms(2-5) _ _ _ _ refl,
            where kvs = "[(''projectReadiness'', JObj [(''available'', JBool False), (''reason'', JStr ''project_not_found'')])]"])
         (simp_all add: identity_fields_def gate_keys_def)
    ultimately show ?thesis by simp
  next
    case 2
    show ?thesis
      by (rule marked [of "[(''indexFreshness'', unavailable_because (JStr ''missing_source_or_runtime_root''))]"])
         (use assms(1) 2 in \<open>simp_all add: readiness_def Let_def gate_keys_def\<close>)
  next
    case (3 kvs)
    show ?thesis
      by (rule marked [of kvs]) (use assms(1) 3 index_gate_keys(1) [OF 3(3)] in \<open>simp_all add: readiness_def Let_def\<close>)
  next
    case (4 kvs snapshot)
    with assms(1) obtain u where "mark_ready clock (q ! i) kvs snapshot q = (Inr u, q1)"
      "(e', ok) = (case u of None \<Rightarrow> (q ! i, False) | Some e' \<Rightarrow> (e', True))"
      by (auto simp: readiness_def Let_def next_r_Inr)
    with ready_step [OF this(1) assms(2-5) index_gate_keys(2) [OF 4(3)]] show ?thesis by (cases u) simp_all
  qed
qed

definition gate_inv :: "js list \<Rightarrow> js list \<Rightarrow> js list \<Rightarrow> js list \<Rightarrow> nat list \<Rightarrow> bool" where
  "gate_inv es q es' q' eligible = (wf_queue q' \<and> length es' = length es \<and> length q' = length q
     \<and> (\<forall>j<length q. in_step (es' ! j) (q' ! j) \<and> identity (es' ! j) = identity (es ! j) \<and> isActiveEntry (es' ! j) = isActiveEntry (es ! j))
     \<and> (\<forall>i\<in>set eligible. passed (es ! i) (es' ! i) (q' ! i)))"

lemma readiness_loop_inv:
  assumes "readiness_loop env clock lookup pending es q = (Inr (eligible, es'), q')" "wf_queue q" "length es = length q"
    and "\<forall>j<length q. in_step (es ! j) (q ! j)" "distinct pending"
    and "\<forall>i\<in>set pending. i < length q \<and> es ! i = q ! i \<and> entry_ok (q ! i) \<and> fld (q ! i) ''status'' = JStr ''pending''"
  shows "gate_inv es q es' q' eligible \<and> subseq eligible pending
    \<and> (\<forall>j. j \<notin> set pending \<longrightarrow> es' ! j = es ! j \<and> q' ! j = q ! j)
    \<and> (\<forall>j\<in>set pending. j \<notin> set eligible \<longrightarrow> fld (q' ! j) ''status'' \<notin> {JStr ''pending'', JStr ''completed''})"
  using assms
proof (induction pending arbitrary: es q eligible)
  case Nil
  then show ?case by (simp add: gate_inv_def)
next
  case (Cons i "is")
  from Cons.prems(6) have i: "i < length q" "es ! i = q ! i" "entry_ok (q ! i)" "fld (q ! i) ''status'' = JStr ''pending''" by simp_all
  obtain r q1 where step0: "readiness env clock lookup (q ! i) q = (r, q1)" by (cases "readiness env clock lookup (q ! i) q")
  with Cons.prems(1) i(2) obtain e' ok where r: "r = Inr (e', ok)"
    and rest1: "next_r (readiness_loop env clock lookup is (es[i := e']) q1)
      (\<lambda>(el, es') q2. (Inr (if ok then i # el else el, es'), q2)) = (Inr (eligible, es'), q')"
    by (cases r) auto
  from step0 r have step: "readiness env clock lookup (q ! i) q = (Inr (e', ok), q1)" by simp
  from rest1 obtain el where rest: "readiness_loop env clock lookup is (es[i := e']) q1 = (Inr (el, es'), q')"
    and el: "eligible = (if ok then i # el else el)"
    unfolding next_r_Inr by (auto split: prod.splits)
  have st: "step_result q i e' ok q1" by (rule readiness_result [OF step Cons.prems(2) i(1,3,4)])
  then have q1: "wf_queue q1" "length q1 = length q" "j \<noteq> i \<Longrightarrow> q1 ! j = q ! j" "in_step e' (q1 ! i)" "identity e' = identity (q ! i)"
    "isActiveEntry e' = isActiveEntry (q ! i)" "ok \<Longrightarrow> passed (q ! i) e' (q1 ! i)" "\<not> ok \<Longrightarrow> fld (q1 ! i) ''status'' \<notin> {JStr ''pending'', JStr ''completed''}" for j
    by (simp_all add: step_result_def)
  have others: "i \<notin> set is" using Cons.prems(5) by simp
  have pre: "\<forall>j\<in>set is. j < length q1 \<and> es[i := e'] ! j = q1 ! j \<and> entry_ok (q1 ! j) \<and> fld (q1 ! j) ''status'' = JStr ''pending''"
  proof
    fix j assume "j \<in> set is"
    with others have "j \<noteq> i" by blast
    with \<open>j \<in> set is\<close> Cons.prems(6) q1(2,3) show "j < length q1 \<and> es[i := e'] ! j = q1 ! j \<and> entry_ok (q1 ! j) \<and> fld (q1 ! j) ''status'' = JStr ''pending''"
      by simp
  qed
  have sync: "\<forall>j<length q1. in_step (es[i := e'] ! j) (q1 ! j)"
  proof (intro allI impI)
    fix j assume "j < length q1"
    with Cons.prems(3,4) q1 show "in_step (es[i := e'] ! j) (q1 ! j)" by (cases "j = i") simp_all
  qed
  from Cons.IH [OF rest q1(1) _ sync _ pre] Cons.prems(3,5) q1(2)
  have inv: "gate_inv (es[i := e']) q1 es' q' el" "subseq el is" "j \<notin> set is \<Longrightarrow> es' ! j = es[i := e'] ! j \<and> q' ! j = q1 ! j"
    "j \<in> set is \<Longrightarrow> j \<notin> set el \<Longrightarrow> fld (q' ! j) ''status'' \<notin> {JStr ''pending'', JStr ''completed''}" for j
    by simp_all
  have same: "es' ! i = e'" "q' ! i = q1 ! i" using inv(3) [OF others] i(1) Cons.prems(3) by simp_all
  have "passed (es ! k) (es' ! k) (q' ! k)" if "k \<in> set eligible" for k
  proof (cases "k = i")
    case True
    moreover have "i \<notin> set el" using inv(2) others by (auto simp: subseq_conv_nths dest: in_set_nthsD)
    ultimately have ok using that el by (auto split: if_splits)
    with True q1(7) same i(2) show ?thesis by simp
  next
    case False
    then have "k \<in> set el" using that el by (auto split: if_splits)
    with inv(1) have "passed (es[i := e'] ! k) (es' ! k) (q' ! k)" by (simp add: gate_inv_def)
    with False show ?thesis by simp
  qed
  moreover have "in_step (es' ! j) (q' ! j) \<and> identity (es' ! j) = identity (es ! j) \<and> isActiveEntry (es' ! j) = isActiveEntry (es ! j)"
    if "j < length q" for j
    using inv(1) that q1(2,5,6) i(1,2) Cons.prems(3) by (cases "j = i") (auto simp: gate_inv_def)
  ultimately have "gate_inv es q es' q' eligible" using inv(1) q1(2) by (simp add: gate_inv_def)
  moreover have "subseq eligible (i # is)" using inv(2) el by auto
  moreover have "es' ! j = es ! j \<and> q' ! j = q ! j" if "j \<notin> set (i # is)" for j using inv(3) [of j] that q1(3) by simp
  moreover have "fld (q' ! j) ''status'' \<notin> {JStr ''pending'', JStr ''completed''}" if "j \<in> set (i # is)" "j \<notin> set eligible" for j
  proof (cases "j = i")
    case True
    with that(2) el have "\<not> ok" by auto
    with True q1(8) same(2) show ?thesis by simp
  next
    case False
    with that el inv(4) show ?thesis by (auto split: if_splits)
  qed
  ultimately show ?case by blast
qed

section \<open>A call taken apart\<close>

lemma update_keeps:
  assumes "updateEntry now i patch g q = (r, q')" "wf_queue q" "\<forall>e\<in>set q. entry_ok e"
    and "fld patch ''metadata'' = JUndef" "fld patch ''updatedAt'' = JUndef"
  shows "wf_queue q' \<and> identities q' = identities q \<and> (\<forall>e\<in>set q'. entry_ok e)"
proof -
  have rec: "list_all isRecord q" and cm: "committed q = q" using assms(2) by (simp_all add: wf_queue_def)
  have "\<forall>e\<in>set q'. entry_ok e"
  proof (cases "\<exists>e. r = Inr (Some e)")
    case True
    then obtain e where "r = Inr (Some e)" by blast
    from update_entry_shape [OF assms(1) rec this] obtain k where k: "entry_index i q = Some k" "e = patched now patch (q ! k)"
      "q' = committed (q[k := e])" by metis
    have "entry_ok (q ! k)" using assms(3) entry_index_nth [OF k(1)] by simp
    then have "entry_ok e" using assms(4,5) by (simp add: k(2) entry_ok_def patched_fields nowIso_def)
    with assms(3) show ?thesis
      unfolding k(3) committed_def by (auto dest!: set_update_subset_insert [THEN subsetD] intro: entry_ok_json)
  next
    case False
    then have "q' = q"
      using assms(1) update_entry_none [OF _ rec] mutation_Inl cm unfolding updateEntry_def
      by (metis option.exhaust sum.exhaust)
    with assms(3) show ?thesis by simp
  qed
  with step_update_keeps [OF assms(1,2)] show ?thesis by blast
qed

lemma update_each_keeps:
  assumes "update_each time us q = (r, q')" "wf_queue q" "\<forall>e\<in>set q. entry_ok e"
    and "\<forall>(i, patch, g)\<in>set us. fld patch ''metadata'' = JUndef \<and> fld patch ''updatedAt'' = JUndef"
  shows "wf_queue q' \<and> identities q' = identities q \<and> (\<forall>e\<in>set q'. entry_ok e)"
  using assms
proof (induction us arbitrary: q)
  case (Cons u us)
  obtain i patch g where u: "u = (i, patch, g)" by (cases u)
  obtain r1 q1 where run: "updateEntry (time (to_str i)) (to_str i) patch g q = (r1, q1)"
    by (cases "updateEntry (time (to_str i)) (to_str i) patch g q")
  have keep: "wf_queue q1 \<and> identities q1 = identities q \<and> (\<forall>e\<in>set q1. entry_ok e)"
    using update_keeps [OF run Cons.prems(2,3)] Cons.prems(4) u by simp
  show ?case
  proof (cases r1)
    case (Inl err)
    with Cons.prems(1) u run keep show ?thesis by simp
  next
    case (Inr v)
    with Cons.prems(1) u run have "update_each time us q1 = (r, q')" by simp
    from Cons.IH [OF this] keep Cons.prems(4) show ?thesis by simp
  qed
qed simp

lemma pool_keeps:
  assumes "preparePendingPool env clock q = (Inr es, q')" "wf_queue q" "\<forall>e\<in>set q. entry_ok e"
  shows "es = q'" "wf_queue q'" "identities q' = identities q" "\<forall>e\<in>set q'. entry_ok e"
proof -
  obtain s where s: "recoverStaleInProgressAsync (clock Recovering) CLAIM_TIMEOUT_MS (Some (se_assignments env)) q = Inr s"
    using assms(1) by (auto simp: preparePendingPool_def split: sum.splits)
  with assms(1) obtain u where u: "update_each (\<lambda>i. clock (Updating i)) (pool_updates q s) q = (Inr u, q')" and "es = q'"
    by (auto simp: preparePendingPool_def next_r_Inr)
  then show "es = q'" by simp
  have "\<forall>(i, patch, g)\<in>set (pool_updates q s). fld patch ''metadata'' = JUndef \<and> fld patch ''updatedAt'' = JUndef"
    by (auto simp: pool_updates_def List.map_filter_def split: prod.splits option.splits)
  from update_each_keeps [OF u assms(2,3) this]
  show "wf_queue q'" "identities q' = identities q" "\<forall>e\<in>set q'. entry_ok e" by blast+
qed

lemma candidates_run:
  assumes "nextCandidates env clock batch q = (Inr cs, q')" "wf_queue q" "\<forall>e\<in>set q. entry_ok e"
  obtains q1 eligible es1 where "wf_queue q1" "identities q1 = identities q" "\<forall>e\<in>set q1. entry_ok e" "gate_inv q1 q1 es1 q' eligible"
    "subseq eligible (due_pending clock q1)" "cs = choose_candidates env clock batch eligible es1 q'"
    "\<And>j. j \<notin> set (due_pending clock q1) \<Longrightarrow> es1 ! j = q1 ! j \<and> q' ! j = q1 ! j"
    "\<And>j. j \<in> set (due_pending clock q1) \<Longrightarrow> j \<notin> set eligible \<Longrightarrow> fld (q' ! j) ''status'' \<notin> {JStr ''pending'', JStr ''completed''}"
proof -
  note result = that
  from assms(1) obtain q1 es1 eligible where pool: "preparePendingPool env clock q = (Inr q1, q1)"
    and gate: "applyProjectReadinessGate env clock (due_pending clock q1) q1 q1 = (Inr (eligible, es1), q')"
    and cs: "cs = choose_candidates env clock batch eligible es1 q'"
    using pool_keeps(1) [OF _ assms(2,3)] by (fastforce simp: nextCandidates_def next_r_Inr)
  note q1 = pool_keeps(2-4) [OF pool assms(2,3)]
  have due: "distinct (due_pending clock q1)"
    "\<forall>i\<in>set (due_pending clock q1). i < length q1 \<and> q1 ! i = q1 ! i \<and> entry_ok (q1 ! i) \<and> fld (q1 ! i) ''status'' = JStr ''pending''"
    using q1(3) by (auto simp: due_pending_def filterDagReady_def filterByRetryDecisionDue_def Let_def)
  show thesis
  proof (cases "projectFn (se_hub env)")
    case None
    with gate have same: "eligible = due_pending clock q1" "es1 = q1" "q' = q1" by (auto simp: applyProjectReadinessGate_def)
    have "gate_inv q1 q1 es1 q' eligible"
      using due(2) q1(1) guarded_pending unfolding same gate_inv_def passed_def by (simp add: entry_ok_def)
    then show thesis by (rule result [OF q1 _ _ cs]) (simp_all add: same)
  next
    case (Some lookup)
    with gate have "readiness_loop env clock lookup (due_pending clock q1) q1 q1 = (Inr (eligible, es1), q')"
      by (simp add: applyProjectReadinessGate_def)
    from readiness_loop_inv [OF this q1(1) refl _ due] result [OF q1 _ _ cs] show thesis by simp
  qed
qed

section \<open>The choice\<close>

lemma reserve_subseq: "subseq (reserveProjectCapacity es active limit reserved pending) pending"
  by (induction pending arbitrary: reserved) (auto simp: Let_def)

text \<open>The mutating entries of a project with a limit, among chosen ones.\<close>

definition taken :: "js list \<Rightarrow> (js \<Rightarrow> jsnum) \<Rightarrow> nat list \<Rightarrow> string \<Rightarrow> nat" where
  "taken es limit chosen p = length (filter (\<lambda>j. isMutatingEntry (es ! j) \<and> \<not> num_le (limit (fld (es ! j) ''projectId'')) (Fin 0)
     \<and> project_key (es ! j) = p) chosen)"

lemma taken_simps [simp]:
  "taken es limit [] p = 0"
  "taken es limit (i # chosen) p = (if isMutatingEntry (es ! i) \<and> \<not> num_le (limit (fld (es ! i) ''projectId'')) (Fin 0) \<and> project_key (es ! i) = p
     then Suc (taken es limit chosen p) else taken es limit chosen p)"
  by (simp_all add: taken_def)

lemma reserve_append:
  "reserveProjectCapacity es active limit reserved (xs @ ys) = reserveProjectCapacity es active limit reserved xs
     @ reserveProjectCapacity es active limit (\<lambda>p. reserved p + taken es limit (reserveProjectCapacity es active limit reserved xs) p) ys"
proof (induction xs arbitrary: reserved)
  case (Cons i xs)
  let ?p = "project_key (es ! i)" and ?n = "limit (fld (es ! i) ''projectId'')"
  consider "\<not> isMutatingEntry (es ! i) \<or> num_le ?n (Fin 0)"
    | "isMutatingEntry (es ! i)" "\<not> num_le ?n (Fin 0)" "reached (active ?p + reserved ?p) ?n"
    | "isMutatingEntry (es ! i)" "\<not> num_le ?n (Fin 0)" "\<not> reached (active ?p + reserved ?p) ?n" by blast
  then show ?case
  proof cases
    case 1
    then have "taken es limit (i # chosen) p = taken es limit chosen p" for chosen p by auto
    with 1 Cons.IH [of reserved] show ?thesis by (simp del: taken_simps)
  next
    case 2
    with Cons.IH [of reserved] show ?thesis by (simp add: Let_def)
  next
    case 3
    let ?r = "reserved(?p := Suc (reserved ?p))"
    have "?r p + taken es limit chosen p = reserved p + taken es limit (i # chosen) p" for chosen p using 3 by simp
    with 3 Cons.IH [of ?r] show ?thesis by (simp add: Let_def del: taken_simps fun_upd_apply)
  qed
qed simp

lemma reached_nat [simp]: "reached k (Fin (of_nat n)) \<longleftrightarrow> n \<le> k"
  by (auto simp: reached_def num_le_def)

lemma reserve_bound:
  assumes "limit (JStr p) = Fin (of_nat n)" "0 < n"
  shows "active p + reserved p + length (filter (\<lambda>i. isMutatingEntry (es ! i) \<and> fld (es ! i) ''projectId'' = JStr p)
      (reserveProjectCapacity es active limit reserved pending)) \<le> max (active p + reserved p) n"
proof (induction pending arbitrary: reserved)
  case (Cons i pending)
  let ?p = "project_key (es ! i)" and ?n = "limit (fld (es ! i) ''projectId'')"
  have key: "fld (es ! i) ''projectId'' = JStr p \<Longrightarrow> ?p = p" by (simp add: project_key_def)
  have limited: "\<not> num_le (Fin (of_nat n)) (Fin 0)" using assms(2) by (simp add: num_le_def)
  consider "\<not> isMutatingEntry (es ! i)" | "isMutatingEntry (es ! i)" "num_le ?n (Fin 0)"
    | "isMutatingEntry (es ! i)" "\<not> num_le ?n (Fin 0)" "reached (active ?p + reserved ?p) ?n"
    | "isMutatingEntry (es ! i)" "\<not> num_le ?n (Fin 0)" "\<not> reached (active ?p + reserved ?p) ?n" by blast
  then show ?case
  proof cases
    case 1
    with Cons.IH [of reserved] show ?thesis by simp
  next
    case 2
    then have "fld (es ! i) ''projectId'' \<noteq> JStr p" using assms(1) limited by auto
    with 2 Cons.IH [of reserved] show ?thesis by simp
  next
    case 3
    with Cons.IH [of reserved] show ?thesis by (simp add: Let_def)
  next
    case 4
    let ?r = "reserved(?p := Suc (reserved ?p))"
    have run: "reserveProjectCapacity es active limit reserved (i # pending) = i # reserveProjectCapacity es active limit ?r pending"
      using 4 by (simp add: Let_def)
    show ?thesis
    proof (cases "fld (es ! i) ''projectId'' = JStr p")
      case True
      with 4(3) key assms(1) have "Suc (active p + reserved p) \<le> n" by simp
      moreover have "?r p = Suc (reserved p)" using key [OF True] by simp
      ultimately show ?thesis using Cons.IH [of ?r] True 4(1) unfolding run by (simp del: fun_upd_apply)
    next
      case False
      have "?r p = reserved p \<or> ?r p = Suc (reserved p)" by simp
      with Cons.IH [of ?r] False show ?thesis unfolding run by (auto simp del: fun_upd_apply)
    qed
  qed
qed simp

lemma capacity_loop_subseq:
  "\<exists>xs. capacity_loop cap batch es pending projected eligible = eligible @ xs \<and> subseq xs pending"
proof (induction pending arbitrary: projected eligible)
  case (Cons i pending)
  show ?case
  proof (cases "fits (providerAgentForEntry (es ! i)) (cap (es ! i)) projected")
    case None
    then show ?thesis using Cons.IH [of projected eligible] by auto
  next
    case (Some p)
    from Cons.IH [of p "eligible @ [i]"]
    obtain xs where "capacity_loop cap batch es pending p (eligible @ [i]) = eligible @ i # xs" "subseq xs pending" by auto
    with Some show ?thesis by auto
  qed
qed simp

lemma allowed_loop_subseq:
  "\<exists>xs. allowed_loop cap batch es pending eligible = eligible @ xs \<and> subseq xs pending"
proof (induction pending arbitrary: eligible)
  case (Cons i pending)
  from Cons.IH [of "eligible @ [i]"] obtain xs where "allowed_loop cap batch es pending (eligible @ [i]) = eligible @ i # xs" "subseq xs pending"
    by auto
  moreover from Cons.IH [of eligible] obtain ys where "allowed_loop cap batch es pending eligible = eligible @ ys" "subseq ys pending"
    by auto
  ultimately show ?case by auto
qed simp

text \<open>The notes of the smart order change the metadata of the snapshot only.\<close>

definition same_task :: "js \<Rightarrow> js \<Rightarrow> bool" where
  "same_task e e' = (identity e = identity e' \<and> fld e ''status'' = fld e' ''status'' \<and> fld e ''updatedAt'' = fld e' ''updatedAt''
     \<and> isMutatingEntry e = isMutatingEntry e' \<and> providerAgentForEntry e = providerAgentForEntry e'
     \<and> (distinct (map fst (own (fld e' ''metadata''))) \<longrightarrow> distinct (map fst (own (fld e ''metadata'')))))"

lemma same_task_simps [simp]: "same_task e e"
  by (simp add: same_task_def)

lemma noted_same:
  "same_task (set_fields [(''metadata'', with_metadata [(''schedulerDecision'', v)] e)] e) e"
proof -
  have kept: "fld (with_metadata [(''schedulerDecision'', v)] e) k = meta e k" if "k \<noteq> ''schedulerDecision''" for k
    using that by (simp add: with_metadata_def fld_spread_own)
  have "providerAgentForEntry (set_fields [(''metadata'', with_metadata [(''schedulerDecision'', v)] e)] e) = providerAgentForEntry e"
    "isMutatingEntry (set_fields [(''metadata'', with_metadata [(''schedulerDecision'', v)] e)] e) = isMutatingEntry e"
    by (simp_all add: providerAgentForEntry_def isMutatingEntry_def fld_set_fields kept)
  then show ?thesis
    by (simp add: same_task_def identity_set_fields identity_fields_def fld_set_fields) (simp add: with_metadata_def distinct_spread)
qed

lemma note_decisions_same:
  "length (note_decisions now score rank pending es) = length es
     \<and> (\<forall>j<length es. same_task (note_decisions now score rank pending es ! j) (es ! j))"
proof (induction pending arbitrary: rank es)
  case (Cons i pending)
  define e where "e = set_fields [(''metadata'', with_metadata [(''schedulerDecision'', scheduler_decision now rank (score (es ! i)) (es ! i))] (es ! i))] (es ! i)"
  have "same_task e (es ! i)" unfolding e_def by (rule noted_same)
  then have "same_task (es[i := e] ! j) (es ! j)" if "j < length es" for j using that by (cases "j = i") simp_all
  with Cons.IH [of "Suc rank" "es[i := e]"] show ?case unfolding note_decisions.simps e_def [symmetric] by (auto simp: same_task_def)
qed simp

lemma gate_subseq: "subseq (applyProviderCapacityGate cap batch es pending) pending"
proof (cases pending)
  case (Cons i "is")
  have slice: "subseq (slice_batch batch xs) xs" for xs :: "nat list"
    by (cases batch) (simp_all add: slice_batch_def take_is_prefix prefix_imp_subseq)
  have all: "subseq (allowed_loop cap batch es is []) (i # is)" "subseq (allowed_loop cap batch es is [i]) (i # is)"
    using allowed_loop_subseq [of cap batch es "is" "[]"] allowed_loop_subseq [of cap batch es "is" "[i]"] by auto
  have fit: "subseq (capacity_loop cap batch es is p []) (i # is)" "subseq (capacity_loop cap batch es is p [i]) (i # is)" for p
    using capacity_loop_subseq [of cap batch es "is" p "[]"] capacity_loop_subseq [of cap batch es "is" p "[i]"] by auto
  have "\<exists>xs. applyProviderCapacityGate cap batch es pending = slice_batch batch xs \<and> subseq xs pending"
    using all fit unfolding Cons applyProviderCapacityGate_def by (cases "fits (providerAgentForEntry (es ! i)) (cap (es ! i)) (\<lambda>_. 0)") auto
  with slice show ?thesis by (metis subseq_order.trans)
qed (simp add: applyProviderCapacityGate_def)

definition sched_rank :: "js \<Rightarrow> nat \<times> string" where
  "sched_rank e = (priorityScore (fld e ''priority''), created_at e)"

lemma slice_batch_props: "subseq (slice_batch batch xs) xs" "batch = Some n \<Longrightarrow> length (slice_batch batch xs) \<le> n"
  by (cases batch; simp add: slice_batch_def take_is_prefix prefix_imp_subseq)+

lemma choose_shape:
  obtains ranked es2 provided where
    "choose_candidates env clock batch eligible es q
       = map ((!) es2) (slice_batch batch (reserveProjectCapacity es2 (active_mutating es) (sched_limit env es) (\<lambda>_. 0) provided))"
    "length es2 = length es" "\<forall>j<length es. same_task (es2 ! j) (es ! j)"
    "mset ranked = mset (filterByProjectCapacity es (active_mutating es) (sched_limit env es) eligible)"
    "subseq provided ranked" "se_capacity env = None \<Longrightarrow> provided = ranked"
    "\<And>f. se_capacity env = Some f \<Longrightarrow> provided = applyProviderCapacityGate (\<lambda>e. f q (providerAgentForEntry e) e) None es2 ranked"
    "readSchedulerConfig (hubConfig (se_hub env)) \<noteq> JStr ''smart'' \<Longrightarrow> es2 = es \<and> sorted (map (\<lambda>i. sched_rank (es ! i)) ranked)"
proof -
  note result = that
  let ?active = "active_mutating es" and ?limit = "sched_limit env es"
  let ?fitting = "filterByProjectCapacity es ?active ?limit eligible"
  let ?provide = "\<lambda>es1 ranked. case se_capacity env of None \<Rightarrow> ranked
    | Some f \<Rightarrow> applyProviderCapacityGate (\<lambda>e. f q (providerAgentForEntry e) e) None es1 ranked"
  have provide: "subseq (?provide es1 ranked) ranked" "se_capacity env = None \<Longrightarrow> ?provide es1 ranked = ranked"
    "se_capacity env = Some f \<Longrightarrow> ?provide es1 ranked = applyProviderCapacityGate (\<lambda>e. f q (providerAgentForEntry e) e) None es1 ranked" for es1 ranked f
    by (cases "se_capacity env"; simp add: gate_subseq)+
  show thesis
  proof (cases "readSchedulerConfig (hubConfig (se_hub env)) = JStr ''smart''")
    case True
    obtain ranked es2 where r: "smartRank env (clock Ranking) ?active ?limit ?fitting es = (ranked, es2)"
      by (cases "smartRank env (clock Ranking) ?active ?limit ?fitting es")
    have m: "mset ranked = mset ?fitting" using r by (auto simp: smartRank_def Let_def)
    have "es2 = note_decisions (clock Ranking) (smart_score env (clock Ranking) ?active ?limit) 1 ranked es"
      using r by (auto simp: smartRank_def Let_def simp del: One_nat_def)
    with note_decisions_same have es2: "length es2 = length es" "\<forall>j<length es. same_task (es2 ! j) (es ! j)" by simp_all
    have "choose_candidates env clock batch eligible es q
       = map ((!) es2) (slice_batch batch (reserveProjectCapacity es2 ?active ?limit (\<lambda>_. 0) (?provide es2 ranked)))"
      using True by (simp add: choose_candidates_def r Let_def)
    then show thesis
      by (rule result [of es2 "?provide es2 ranked" ranked]) (rule es2 m provide | assumption | use True in simp)+
  next
    case False
    let ?ranked = "sort_key (\<lambda>i. sched_rank (es ! i)) ?fitting"
    have run: "choose_candidates env clock batch eligible es q
       = map ((!) es) (slice_batch batch (reserveProjectCapacity es ?active ?limit (\<lambda>_. 0) (?provide es ?ranked)))"
      using False unfolding sched_rank_def by (simp add: choose_candidates_def Let_def)
    show thesis
      by (rule result [of es "?provide es ?ranked" ?ranked]) (rule run refl provide | assumption | simp)+
  qed
qed

lemma subseq_props: "subseq xs ys \<Longrightarrow> set xs \<subseteq> set ys" "subseq xs ys \<Longrightarrow> distinct ys \<Longrightarrow> distinct xs"
  by (auto simp: subseq_conv_nths dest: in_set_nthsD)

lemma choose_within:
  assumes "cs = choose_candidates env clock batch eligible es q" "distinct eligible" "\<forall>i\<in>set eligible. i < length es"
  obtains chosen es2 where "cs = map ((!) es2) chosen" "distinct chosen" "set chosen \<subseteq> set eligible"
    "length es2 = length es" "\<forall>j<length es. same_task (es2 ! j) (es ! j)" "\<And>n. batch = Some n \<Longrightarrow> length chosen \<le> n"
    "\<And>p n. sched_limit env es (JStr p) = Fin (of_nat n) \<Longrightarrow> 0 < n \<Longrightarrow>
       active_mutating es p + length (filter (\<lambda>c. isMutatingEntry c \<and> fld c ''projectId'' = JStr p) cs) \<le> max (active_mutating es p) n"
proof -
  note result = that
  let ?active = "active_mutating es" and ?limit = "sched_limit env es"
  show thesis
  proof (rule choose_shape [where env = env and clock = clock and batch = batch and eligible = eligible and es = es and q = q], goal_cases)
    case (1 ranked es2 provided)
    let ?reserved = "reserveProjectCapacity es2 ?active ?limit (\<lambda>_. 0) provided"
    let ?chosen = "slice_batch batch ?reserved"
    have sub: "subseq ?chosen ranked"
      using slice_batch_props(1) reserve_subseq 1(5) by (metis subseq_order.trans)
    have perm: "mset ranked = mset (filterByProjectCapacity es ?active ?limit eligible)" by (rule 1(4))
    have ranked: "set ranked \<subseteq> set eligible" using mset_eq_setD [OF perm] by (auto simp: filterByProjectCapacity_def)
    have dist: "distinct ranked"
      using assms(2) mset_eq_imp_distinct_iff [OF perm] by (simp add: filterByProjectCapacity_def)
    have bound: "?active p + length (filter (\<lambda>c. isMutatingEntry c \<and> fld c ''projectId'' = JStr p) cs) \<le> max (?active p) n"
      if "?limit (JStr p) = Fin (of_nat n)" "0 < n" for p n
    proof -
      let ?P = "\<lambda>i. isMutatingEntry (es2 ! i) \<and> fld (es2 ! i) ''projectId'' = JStr p"
      have "subseq (filter ?P ?chosen) (filter ?P ?reserved)" by (intro subseq_filter slice_batch_props(1))
      then have "length (filter ?P ?chosen) \<le> length (filter ?P ?reserved)" by (rule list_emb_length)
      moreover have "length (filter (\<lambda>c. isMutatingEntry c \<and> fld c ''projectId'' = JStr p) cs) = length (filter ?P ?chosen)"
        unfolding assms(1) 1(1) by (simp add: filter_map o_def)
      ultimately show ?thesis
        using reserve_bound [of ?limit p n ?active "\<lambda>_. 0" es2 provided] that by linarith
    qed
    have "cs = map ((!) es2) ?chosen" using 1(1) assms(1) by simp
    moreover have "distinct ?chosen" using subseq_props(2) [OF sub dist] .
    moreover have "set ?chosen \<subseteq> set eligible" using subseq_props(1) [OF sub] ranked by blast
    ultimately show thesis by (rule result [OF _ _ _ 1(2,3) slice_batch_props(2) bound])
  qed
qed

section \<open>Tasks that can be dispatched\<close>

definition task_due :: "nat \<Rightarrow> js list \<Rightarrow> js \<Rightarrow> bool" where
  "task_due now q x = (fld x ''status'' = JStr ''pending''
     \<and> (case parseRetryUntilMs (fld (meta x ''retryDecision'') ''untilTs'') of None \<Rightarrow> True | Some t \<Rightarrow> t \<le> of_nat now)
     \<and> (case meta x ''dependsOn'' of JArr deps \<Rightarrow> \<forall>d\<in>set deps. \<exists>y\<in>set q. fld y ''id'' = d \<and> fld y ''status'' = JStr ''completed'' | _ \<Rightarrow> True))"

lemma includes_ids:
  assumes "list_all is_str xs"
  shows "js_includes xs d \<longleftrightarrow> d \<in> set xs"
proof -
  have "strict_eq x d \<or> (x = JNum NaN \<and> d = JNum NaN) \<longleftrightarrow> x = d" if "is_str x" for x using that by (cases x) auto
  with assms show ?thesis by (auto simp: js_includes_def list_ex_iff list_all_iff)
qed

lemma due_distinct: "distinct (due_pending clock q)"
  by (simp add: due_pending_def filterDagReady_def filterByRetryDecisionDue_def Let_def)

lemma due_pending_iff:
  assumes "wf_queue q"
  shows "i \<in> set (due_pending clock q) \<longleftrightarrow> i < length q \<and> task_due (clock Filtering) q (q ! i)"
proof -
  let ?ids = "map (\<lambda>e. fld e ''id'') (filter (\<lambda>e. fld e ''status'' = JStr ''completed'') q)"
  have "list_all is_str ?ids" using assms by (auto simp: wf_queue_def list_all_iff)
  then have "js_includes ?ids d \<longleftrightarrow> (\<exists>y\<in>set q. fld y ''id'' = d \<and> fld y ''status'' = JStr ''completed'')" for d
    by (auto simp: includes_ids)
  then have "(case meta x ''dependsOn'' of JArr deps \<Rightarrow> list_all (js_includes ?ids) deps | _ \<Rightarrow> True)
     = (case meta x ''dependsOn'' of JArr deps \<Rightarrow> \<forall>d\<in>set deps. \<exists>y\<in>set q. fld y ''id'' = d \<and> fld y ''status'' = JStr ''completed'' | _ \<Rightarrow> True)" for x
    by (cases "meta x ''dependsOn''") (simp_all add: list_all_iff)
  then show ?thesis by (auto simp: due_pending_def filterDagReady_def filterByRetryDecisionDue_def task_due_def Let_def)
qed

text \<open>The queue after a call: where its entries come from.\<close>

lemma after_gate:
  assumes "gate_inv q1 q1 es1 q' eligible" "wf_queue q1" "subseq eligible (due_pending clock q1)"
    and "\<And>j. j \<notin> set (due_pending clock q1) \<Longrightarrow> es1 ! j = q1 ! j \<and> q' ! j = q1 ! j"
    and "\<And>j. j \<in> set (due_pending clock q1) \<Longrightarrow> j \<notin> set eligible \<Longrightarrow> fld (q' ! j) ''status'' \<notin> {JStr ''pending'', JStr ''completed''}"
  shows "j < length q' \<Longrightarrow> j \<in> set eligible \<longleftrightarrow> task_due (clock Filtering) q' (q' ! j)"
    and "active_mutating q' = active_mutating es1" "sched_limit env q' = sched_limit env es1"
    and "length es1 = length q'" "length q1 = length q'"
proof -
  have len: "length es1 = length q'" "length q1 = length q'" using assms(1) by (simp_all add: gate_inv_def)
  have step: "identity (es1 ! j) = identity (q' ! j)" "isMutatingEntry (es1 ! j) = isMutatingEntry (q' ! j)"
    "isActiveEntry (es1 ! j) = isActiveEntry (q' ! j)" "fld (q' ! j) ''id'' = fld (q1 ! j) ''id''" if "j < length q'" for j
  proof -
    have two: "in_step (es1 ! j) (q' ! j)" "identity (es1 ! j) = identity (q1 ! j)"
      using assms(1) that len unfolding gate_inv_def by metis+
    from two(1) have "identity (es1 ! j) = identity (q' ! j)" "isMutatingEntry (es1 ! j) = isMutatingEntry (q' ! j)"
      "isActiveEntry (es1 ! j) = isActiveEntry (q' ! j)" by (simp_all add: in_step_def)
    note one = this(1) two(2) this(2,3)
    then show "identity (es1 ! j) = identity (q' ! j)" "isMutatingEntry (es1 ! j) = isMutatingEntry (q' ! j)"
      "isActiveEntry (es1 ! j) = isActiveEntry (q' ! j)" by blast+
    from one(1,2) have "identity (q' ! j) = identity (q1 ! j)" by simp
    then show "fld (q' ! j) ''id'' = fld (q1 ! j) ''id''" by (rule same_identity(1))
  qed
  show "length es1 = length q'" "length q1 = length q'" by (rule len)+
  have count: "length (filter P es1) = length (filter P q')" if "\<And>j. j < length q' \<Longrightarrow> P (es1 ! j) = P (q' ! j)" for P
  proof -
    have "map P es1 = map P q'" using that len(1) by (simp add: list_eq_iff_nth_eq)
    then have "length (filter id (map P es1)) = length (filter id (map P q'))" by simp
    then show ?thesis by (simp add: filter_map)
  qed
  show "active_mutating q' = active_mutating es1"
    unfolding active_mutating_def fun_eq_iff
    by (intro allI sym [OF count]) (metis step(1-3) identity_project_key)
  have "map (\<lambda>e. fld e ''projectId'') es1 = map (\<lambda>e. fld e ''projectId'') q'"
    using len(1) same_identity(2) [OF step(1)] by (simp add: list_eq_iff_nth_eq)
  then show "sched_limit env q' = sched_limit env es1" by (simp add: sched_limit_def)
  have completed: "(\<exists>y\<in>set q'. fld y ''id'' = d \<and> fld y ''status'' = JStr ''completed'')
      \<longleftrightarrow> (\<exists>y\<in>set q1. fld y ''id'' = d \<and> fld y ''status'' = JStr ''completed'')" for d
  proof -
    have "fld (q' ! j) ''status'' = JStr ''completed'' \<longleftrightarrow> fld (q1 ! j) ''status'' = JStr ''completed''" if "j < length q'" for j
    proof (cases "j \<in> set (due_pending clock q1)")
      case True
      then have "fld (q1 ! j) ''status'' \<noteq> JStr ''completed''"
        using due_pending_iff [OF assms(2), of j clock] by (auto simp: task_due_def)
      moreover have "fld (q' ! j) ''status'' \<noteq> JStr ''completed''"
      proof (cases "j \<in> set eligible")
        case True
        then have "fld (q' ! j) ''status'' = JStr ''pending''" using assms(1) by (simp add: gate_inv_def passed_def)
        then show ?thesis by simp
      next
        case False
        with assms(5) [OF \<open>j \<in> set (due_pending clock q1)\<close>] show ?thesis by simp
      qed
      ultimately show ?thesis by simp
    qed (simp add: assms(4))
    with step(4) len(2) show ?thesis by (metis in_set_conv_nth)
  qed
  have due: "task_due now q' x \<longleftrightarrow> task_due now q1 x" for now x unfolding task_due_def completed by (rule refl)
  show "j < length q' \<Longrightarrow> j \<in> set eligible \<longleftrightarrow> task_due (clock Filtering) q' (q' ! j)"
  proof (cases "j \<in> set eligible")
    case True
    then have p: "passed (q1 ! j) (es1 ! j) (q' ! j)" using assms(1) by (simp add: gate_inv_def)
    from True have "j \<in> set (due_pending clock q1)" using subseq_props(1) [OF assms(3)] by blast
    then have "task_due (clock Filtering) q1 (q1 ! j)" by (simp add: due_pending_iff [OF assms(2)])
    with p have "task_due (clock Filtering) q1 (q' ! j)" by (simp add: task_due_def passed_def)
    with True due show ?thesis by simp
  next
    case False
    assume j: "j < length q'"
    have "\<not> task_due (clock Filtering) q' (q' ! j)"
    proof (cases "j \<in> set (due_pending clock q1)")
      case True
      with assms(5) False have "fld (q' ! j) ''status'' \<noteq> JStr ''pending''" by blast
      then show ?thesis by (simp add: task_due_def)
    next
      case no: False
      with due_pending_iff [OF assms(2), of j clock] j len(2) assms(4) [OF no] due show ?thesis by simp
    qed
    with False show ?thesis by simp
  qed
qed

lemma candidate_positions:
  assumes "nextCandidates env clock batch q = (Inr cs, q')" "wf_queue q" "\<forall>e\<in>set q. entry_ok e"
  obtains chosen where "length cs = length chosen" "distinct chosen" "wf_queue q'" "identities q' = identities q"
    "\<And>k. k < length chosen \<Longrightarrow> chosen ! k < length q' \<and> task_due (clock Filtering) q' (q' ! (chosen ! k))
       \<and> identity (cs ! k) = identity (q' ! (chosen ! k)) \<and> isMutatingEntry (cs ! k) = isMutatingEntry (q' ! (chosen ! k))
       \<and> guard_holds (pending_guard (cs ! k)) (q' ! (chosen ! k)) \<and> distinct (map fst (own (fld (cs ! k) ''metadata'')))"
    "\<And>n. batch = Some n \<Longrightarrow> length cs \<le> n"
    "\<And>p n. sched_limit env q' (JStr p) = Fin (of_nat n) \<Longrightarrow> 0 < n \<Longrightarrow>
       active_mutating q' p + length (filter (\<lambda>c. isMutatingEntry c \<and> fld c ''projectId'' = JStr p) cs) \<le> max (active_mutating q' p) n"
proof -
  note result = that
  show thesis
  proof (rule candidates_run [OF assms], goal_cases)
    case (1 q1 eligible es1)
    note gate = after_gate [OF 1(4,1,5,7,8)]
    have el1: "distinct eligible" by (rule subseq_props(2) [OF 1(5) due_distinct])
    have "i < length es1" if "i \<in> set eligible" for i
    proof -
      have "i \<in> set (due_pending clock q1)" using subseq_props(1) [OF 1(5)] that by blast
      then have "i < length q1" unfolding due_pending_iff [OF 1(1)] by blast
      then show ?thesis using gate(4,5) by simp
    qed
    then have el2: "\<forall>i\<in>set eligible. i < length es1" by blast
    have wf': "wf_queue q'" using 1(4) by (simp add: gate_inv_def)
    have idents: "identities q' = identities q"
    proof -
      have "identity (q' ! j) = identity (q1 ! j)" if "j < length q1" for j
        using 1(4) that unfolding gate_inv_def in_step_def by metis
      then have "identities q' = identities q1" using gate(5) by (simp add: identities_def list_eq_iff_nth_eq)
      with 1(2) show ?thesis by simp
    qed
    show thesis
    proof (rule choose_within [OF 1(6) el1 el2], goal_cases)
      case (1 chosen es2)
      note ch = this
      have pos: "chosen ! k < length q' \<and> task_due (clock Filtering) q' (q' ! (chosen ! k))
          \<and> identity (cs ! k) = identity (q' ! (chosen ! k)) \<and> isMutatingEntry (cs ! k) = isMutatingEntry (q' ! (chosen ! k))
          \<and> guard_holds (pending_guard (cs ! k)) (q' ! (chosen ! k)) \<and> distinct (map fst (own (fld (cs ! k) ''metadata'')))" if k: "k < length chosen" for k
      proof -
        let ?j = "chosen ! k"
        have j: "?j \<in> set eligible" using k ch(3) nth_mem by blast
        then have len: "?j < length es1" using el2 by blast
        have same: "same_task (cs ! k) (es1 ! ?j)" using ch(1,5) k len by simp
        have "in_step (es1 ! ?j) (q' ! ?j)"
          using \<open>gate_inv q1 q1 es1 q' eligible\<close> len gate(4,5) unfolding gate_inv_def by simp
        moreover have "passed (q1 ! ?j) (es1 ! ?j) (q' ! ?j)" using \<open>gate_inv q1 q1 es1 q' eligible\<close> j by (simp add: gate_inv_def)
        moreover have "pending_guard (cs ! k) = pending_guard (es1 ! ?j)" using same by (simp add: pending_guard_def same_task_def)
        moreover have "task_due (clock Filtering) q' (q' ! ?j)" using gate(1) [of ?j] j len gate(4) by simp
        ultimately show ?thesis
          using same len gate(4) by (simp add: in_step_def same_task_def passed_def)
      qed
      have len: "length cs = length chosen" using ch(1) by simp
      have bound: "active_mutating q' p + length (filter (\<lambda>c. isMutatingEntry c \<and> fld c ''projectId'' = JStr p) cs) \<le> max (active_mutating q' p) n"
        if "sched_limit env q' (JStr p) = Fin (of_nat n)" "0 < n" for p n
        using ch(7) [of p n] that by (simp add: gate(2,3))
      have few: "length cs \<le> n" if "batch = Some n" for n using ch(6) [OF that] ch(1) by simp
      show thesis by (rule result [OF len ch(2) wf' idents pos few bound])
    qed
  qed
qed

text \<open>C25: Every candidate of the scheduler can be dispatched: it stands for a task of the queue that is pending,
  whose retry time has come, whose dependencies are all completed, and whose guarded reservation will be
  accepted as long as nothing else happens to it; no task comes twice, and there are at most as many as
  asked for. The call itself loses no task and keeps their order.\<close>

theorem candidates_ready:
  assumes "nextCandidates env clock batch q = (Inr cs, q')" "wf_queue q" "\<forall>e\<in>set q. entry_ok e"
  shows "(\<forall>c\<in>set cs. \<exists>x\<in>set q'. fld x ''id'' = fld c ''id'' \<and> task_due (clock Filtering) q' x \<and> guard_holds (pending_guard c) x)
    \<and> distinct (map (\<lambda>c. fld c ''id'') cs) \<and> (\<forall>n. batch = Some n \<longrightarrow> length cs \<le> n) \<and> identities q' = identities q"
proof -
  show ?thesis
  proof (rule candidate_positions [OF assms], goal_cases)
    case (1 chosen)
    have ids: "fld (cs ! k) ''id'' = fld (q' ! (chosen ! k)) ''id''" if "k < length chosen" for k
      using 1(5) [OF that] same_identity(1) by blast
    have "\<exists>x\<in>set q'. fld x ''id'' = fld c ''id'' \<and> task_due (clock Filtering) q' x \<and> guard_holds (pending_guard c) x"
      if "c \<in> set cs" for c
    proof -
      from that obtain k where k: "k < length chosen" "c = cs ! k" using 1(1) by (auto simp: in_set_conv_nth)
      with 1(5) [OF k(1)] have "q' ! (chosen ! k) \<in> set q'" by simp
      moreover have "task_due (clock Filtering) q' (q' ! (chosen ! k))" "guard_holds (pending_guard c) (q' ! (chosen ! k))"
        using 1(5) [OF k(1)] k(2) by blast+
      ultimately show ?thesis using ids [OF k(1)] k(2) by metis
    qed
    moreover have "distinct (map (\<lambda>c. fld c ''id'') cs)"
    proof -
      have "distinct (map (\<lambda>e. fld e ''id'') q')" using 1(3) by (simp add: wf_queue_def)
      then have inj: "fld (q' ! i) ''id'' = fld (q' ! j) ''id'' \<Longrightarrow> i < length q' \<Longrightarrow> j < length q' \<Longrightarrow> i = j" for i j
        using nth_eq_iff_index_eq [of "map (\<lambda>e. fld e ''id'') q'" i j] by simp
      show ?thesis
        unfolding distinct_conv_nth
      proof (intro allI impI)
        fix a b assume ab: "a < length (map (\<lambda>c. fld c ''id'') cs)" "b < length (map (\<lambda>c. fld c ''id'') cs)" "a \<noteq> b"
        then have k: "a < length chosen" "b < length chosen" "chosen ! a \<noteq> chosen ! b" using 1(1,2) by (simp_all add: nth_eq_iff_index_eq)
        then have "fld (q' ! (chosen ! a)) ''id'' \<noteq> fld (q' ! (chosen ! b)) ''id''"
          using inj 1(5) [OF k(1)] 1(5) [OF k(2)] by blast
        with ids k(1,2) 1(1) show "map (\<lambda>c. fld c ''id'') cs ! a \<noteq> map (\<lambda>c. fld c ''id'') cs ! b" by simp
      qed
    qed
    ultimately show ?case using 1(4,6) by blast
  qed
qed

text \<open>A batch stays within the limits of the projects: the tasks of a project that change code and are
  scheduled or running, together with those in the batch, are at most its limit (or already were more
  before the call).\<close>

theorem batch_within_limits:
  assumes "nextCandidates env clock batch q = (Inr cs, q')" "wf_queue q" "\<forall>e\<in>set q. entry_ok e"
    and "sched_limit env q' (JStr p) = Fin (of_nat n)" "0 < n"
  shows "active_mutating q' p + length (filter (\<lambda>c. isMutatingEntry c \<and> fld c ''projectId'' = JStr p) cs) \<le> max (active_mutating q' p) n"
  by (rule candidate_positions [OF assms(1-3)]) (use assms(4,5) in blast)

text \<open>The reservation is greedy: an entry is left out only when the entries before it have used up the limit.\<close>

lemma reserve_greedy:
  assumes "i \<in> set pending" "i \<notin> set (reserveProjectCapacity es active limit (\<lambda>_. 0) pending)"
  obtains pre post where "pending = pre @ i # post" "isMutatingEntry (es ! i)" "\<not> num_le (limit (fld (es ! i) ''projectId'')) (Fin 0)"
    "reached (active (project_key (es ! i)) + taken es limit (reserveProjectCapacity es active limit (\<lambda>_. 0) pre) (project_key (es ! i)))
       (limit (fld (es ! i) ''projectId''))"
    "set (reserveProjectCapacity es active limit (\<lambda>_. 0) pre) \<subseteq> set pre"
    "subseq (reserveProjectCapacity es active limit (\<lambda>_. 0) pre) (reserveProjectCapacity es active limit (\<lambda>_. 0) pending)"
proof -
  obtain pre post where split: "pending = pre @ i # post" using assms(1) by (meson split_list)
  let ?r = "reserveProjectCapacity es active limit (\<lambda>_. 0) pre"
  have run: "reserveProjectCapacity es active limit (\<lambda>_. 0) pending
     = ?r @ reserveProjectCapacity es active limit (\<lambda>p. 0 + taken es limit ?r p) (i # post)"
    unfolding split reserve_append ..
  then have "i \<notin> set (reserveProjectCapacity es active limit (\<lambda>p. 0 + taken es limit ?r p) (i # post))" using assms(2) by simp
  then have "isMutatingEntry (es ! i)" "\<not> num_le (limit (fld (es ! i) ''projectId'')) (Fin 0)"
    "reached (active (project_key (es ! i)) + taken es limit ?r (project_key (es ! i))) (limit (fld (es ! i) ''projectId''))"
    by (auto simp: Let_def split: if_splits)
  then show thesis by (rule that [OF split _ _ _ subseq_props(1) [OF reserve_subseq]]) (simp_all only: run prefix_imp_subseq prefixI)
qed

text \<open>Why an entry is left out: the batch is full, the limit of its project is used up, or the provider gate has
  turned it away.\<close>

definition not_behind :: "sched_env \<Rightarrow> js \<Rightarrow> js \<Rightarrow> bool" where
  \<comment> \<open>an order of the candidates is promised in the default mode only\<close>
  "not_behind env c x = (readSchedulerConfig (hubConfig (se_hub env)) = JStr ''smart'' \<or> sched_rank c \<le> sched_rank x)"

definition limit_used_up :: "sched_env \<Rightarrow> js list \<Rightarrow> js list \<Rightarrow> nat \<Rightarrow> js \<Rightarrow> bool" where
  \<comment> \<open>by the active tasks of the project and by candidates that are not behind the task\<close>
  "limit_used_up env q cs n x = (isMutatingEntry x \<and> 0 < n \<and> n \<le> active_mutating q (project_key x)
     + length (filter (\<lambda>c. isMutatingEntry c \<and> project_key c = project_key x \<and> not_behind env c x) cs))"

lemma sliced:
  assumes "i \<notin> set (slice_batch batch xs)" "i \<in> set xs"
  shows "batch = Some (length (slice_batch batch xs))"
proof (cases batch)
  case (Some b)
  with assms have "b < length xs" by (auto simp: slice_batch_def not_le [symmetric])
  with Some show ?thesis by (simp add: slice_batch_def)
qed (use assms in \<open>simp add: slice_batch_def\<close>)

lemma same_task_rank: "same_task e e' \<Longrightarrow> sched_rank e = sched_rank e'"
proof -
  assume "same_task e e'"
  then have "identity e = identity e'" by (simp add: same_task_def)
  note ids = same_identity [OF this]
  show ?thesis by (simp add: sched_rank_def created_at_def ids)
qed

lemma sorted_part: "subseq xs ys \<Longrightarrow> sorted (map f ys) \<Longrightarrow> sorted (map f xs)"
  by (auto simp: subseq_conv_nths nths_map [symmetric] intro: sorted_nths)

lemma choose_greedy:
  assumes "cs = choose_candidates env clock batch eligible es q" "\<forall>i\<in>set eligible. i < length es" "distinct eligible" "i \<in> set eligible"
    and "fld (es ! i) ''id'' \<notin> (\<lambda>c. fld c ''id'') ` set cs" "sched_limit env es (fld (es ! i) ''projectId'') = Fin (of_nat n)"
  obtains (full) "batch = Some (length cs)"
  | (limit) "limit_used_up env es cs n (es ! i)"
  | (provider) f ranked es2 where "se_capacity env = Some f" "i \<in> set ranked" "distinct ranked" "set ranked \<subseteq> set eligible"
      "i \<notin> set (applyProviderCapacityGate (\<lambda>e. f q (providerAgentForEntry e) e) None es2 ranked)"
      "\<forall>j<length es. same_task (es2 ! j) (es ! j)"
      "readSchedulerConfig (hubConfig (se_hub env)) \<noteq> JStr ''smart'' \<Longrightarrow> sorted (map (\<lambda>i. sched_rank (es ! i)) ranked)"
proof -
  note full = that(1) and limit = that(2) and provider = that(3)
  show thesis
  proof (rule choose_shape [where env = env and clock = clock and batch = batch and eligible = eligible and es = es and q = q], goal_cases)
    case (1 ranked es2 provided)
    note ch = 1
    let ?active = "active_mutating es" and ?limit = "sched_limit env es"
    let ?reserved = "reserveProjectCapacity es2 ?active ?limit (\<lambda>_. 0) provided"
    let ?chosen = "slice_batch batch ?reserved"
    have perm: "mset ranked = mset (filterByProjectCapacity es ?active ?limit eligible)" by (rule 1(4))
    have members: "set ranked = set (filterByProjectCapacity es ?active ?limit eligible)" using mset_eq_setD [OF perm] .
    then have sub: "set ranked \<subseteq> set eligible" by (auto simp: filterByProjectCapacity_def)
    have dist: "distinct ranked" using assms(3) mset_eq_imp_distinct_iff [OF perm] by (simp add: filterByProjectCapacity_def)
    have cs: "cs = map ((!) es2) ?chosen" using 1(1) assms(1) by simp
    have i: "i < length es" using assms(2,4) by blast
    have same: "same_task (es2 ! j) (es ! j)" if "j \<in> set eligible" for j using 1(3) assms(2) that by blast
    have at: "identity (es2 ! i) = identity (es ! i)" "isMutatingEntry (es2 ! i) = isMutatingEntry (es ! i)" "sched_rank (es2 ! i) = sched_rank (es ! i)"
      using same [OF assms(4)] same_task_rank [OF same [OF assms(4)]] by (simp_all add: same_task_def)
    note ids = same_identity [OF at(1)]
    have key: "project_key (es2 ! i) = project_key (es ! i)" by (rule identity_project_key [OF at(1)])
    have out: "i \<notin> set ?chosen"
    proof
      assume "i \<in> set ?chosen"
      then have "fld (es2 ! i) ''id'' \<in> (\<lambda>c. fld c ''id'') ` set cs" unfolding cs by simp
      with assms(5) ids(1) show False by simp
    qed
    show thesis
    proof (cases "i \<in> set ranked")
      case False
      with members assms(4,6) show thesis by (intro limit) (auto simp: limit_used_up_def filterByProjectCapacity_def)
    next
      case in_ranked: True
      show thesis
      proof (cases "i \<in> set provided")
        case False
        then obtain f where f: "se_capacity env = Some f" using in_ranked 1(6) by (cases "se_capacity env") auto
        have "i \<notin> set (applyProviderCapacityGate (\<lambda>e. f q (providerAgentForEntry e) e) None es2 ranked)" using 1(7) [OF f] False by simp
        from provider [OF f in_ranked dist sub this 1(3)] 1(8) show thesis by blast
      next
        case in_provided: True
        show thesis
        proof (cases "?chosen = ?reserved")
          case False
          then obtain b where b: "batch = Some b" "b < length ?reserved" by (cases batch) (auto simp: slice_batch_def)
          then have "batch = Some (length cs)" unfolding cs by (simp add: slice_batch_def)
          then show thesis by (rule full)
        next
          case True
          then have "i \<notin> set ?reserved" using out by simp
          from reserve_greedy [OF in_provided this] show thesis
          proof (cases, goal_cases)
            case (1 pre post)
            let ?r = "reserveProjectCapacity es2 ?active ?limit (\<lambda>_. 0) pre" and ?p = "project_key (es ! i)"
            let ?P = "\<lambda>c. isMutatingEntry c \<and> project_key c = ?p \<and> not_behind env c (es ! i)"
            have inside: "j \<in> set eligible" if "j \<in> set ?r" for j
            proof -
              have "j \<in> set provided" using that 1(5) unfolding 1(1) by auto
              then show ?thesis using subseq_props(1) [OF ch(5)] sub by blast
            qed
            have before: "not_behind env (es2 ! j) (es ! i)" if "j \<in> set ?r" for j
            proof (cases "readSchedulerConfig (hubConfig (se_hub env)) = JStr ''smart''")
              case False
              then have "sorted (map (\<lambda>i. sched_rank (es ! i)) provided)" using ch(8) sorted_part [OF ch(5)] by blast
              then have "sched_rank (es ! j) \<le> sched_rank (es ! i)" using that 1(5) unfolding 1(1) by (auto simp: sorted_append)
              with same_task_rank [OF same [OF inside [OF that]]] show ?thesis by (simp add: not_behind_def)
            qed (simp add: not_behind_def)
            have "taken es2 ?limit ?r ?p \<le> length (filter (?P \<circ> (!) es2) ?r)"
            proof -
              have "filter (\<lambda>j. isMutatingEntry (es2 ! j) \<and> \<not> num_le (?limit (fld (es2 ! j) ''projectId'')) (Fin 0) \<and> project_key (es2 ! j) = ?p) ?r
                  = filter (\<lambda>j. \<not> num_le (?limit (fld (es2 ! j) ''projectId'')) (Fin 0)) (filter (?P \<circ> (!) es2) ?r)"
                unfolding filter_filter by (intro filter_cong refl) (use before in auto)
              then show ?thesis unfolding taken_def by (simp only: length_filter_le)
            qed
            also have "\<dots> \<le> length (filter (?P \<circ> (!) es2) ?reserved)"
              by (intro list_emb_length [where P = "(=)"] subseq_filter 1(6))
            also have "\<dots> = length (filter ?P cs)" unfolding cs True by (simp add: filter_map o_def)
            finally have "taken es2 ?limit ?r ?p \<le> length (filter ?P cs)" .
            moreover have "0 < n" using 1(3) assms(6) ids(2) by (auto simp: num_le_def)
            moreover have "n \<le> ?active ?p + taken es2 ?limit ?r ?p" using 1(4) assms(6) ids(2) key by simp
            ultimately have "limit_used_up env es cs n (es ! i)" using 1(2) at(2) by (simp add: limit_used_up_def)
            then show ?case by (rule limit)
          qed
        qed
      qed
    qed
  qed
qed

text \<open>The same for a task of the queue after the call.\<close>

lemma left_out:
  assumes "nextCandidates env clock batch q = (Inr cs, q')" "wf_queue q" "\<forall>e\<in>set q. entry_ok e"
    and "x \<in> set q'" "task_due (clock Filtering) q' x" "fld x ''id'' \<notin> (\<lambda>c. fld c ''id'') ` set cs"
    and "sched_limit env q' (fld x ''projectId'') = Fin (of_nat n)"
  obtains (full) "batch = Some (length cs)"
  | (limit) "limit_used_up env q' cs n x"
  | (provider) f ranked es2 j where "se_capacity env = Some f" "j \<in> set ranked" "x = q' ! j" "distinct ranked"
      "\<forall>i\<in>set ranked. i < length q' \<and> task_due (clock Filtering) q' (q' ! i) \<and> providerAgentForEntry (es2 ! i) = providerAgentForEntry (q' ! i)"
      "j \<notin> set (applyProviderCapacityGate (\<lambda>e. f q' (providerAgentForEntry e) e) None es2 ranked)"
      "readSchedulerConfig (hubConfig (se_hub env)) \<noteq> JStr ''smart'' \<Longrightarrow> sorted (map (\<lambda>i. sched_rank (q' ! i)) ranked)"
proof -
  note full = that(1) and limit = that(2) and provider = that(3)
  show thesis
  proof (rule candidates_run [OF assms(1-3)], goal_cases)
    case (1 q1 eligible es1)
    note gate = after_gate [OF 1(4,1,5,7,8)]
    obtain j where j: "j < length q'" "x = q' ! j" using assms(4) by (metis in_set_conv_nth)
    then have el: "j \<in> set eligible" using gate(1) assms(5) by blast
    have dist: "distinct eligible" by (rule subseq_props(2) [OF 1(5) due_distinct])
    have len: "\<forall>i\<in>set eligible. i < length es1"
    proof
      fix i assume "i \<in> set eligible"
      then have "i \<in> set (due_pending clock q1)" using subseq_props(1) [OF 1(5)] by blast
      then have "i < length q1" unfolding due_pending_iff [OF 1(1)] by blast
      then show "i < length es1" using gate(4,5) by simp
    qed
    have step: "in_step (es1 ! i) (q' ! i)" if "i < length q'" for i using 1(4) that gate(5) by (simp add: gate_inv_def)
    have same: "identity (es1 ! i) = identity (q' ! i)" "isMutatingEntry (es1 ! i) = isMutatingEntry (q' ! i)"
      "providerAgentForEntry (es1 ! i) = providerAgentForEntry (q' ! i)" "sched_rank (es1 ! i) = sched_rank (q' ! i)" if "i < length q'" for i
    proof -
      from step [OF that] show ident: "identity (es1 ! i) = identity (q' ! i)" and "isMutatingEntry (es1 ! i) = isMutatingEntry (q' ! i)"
        "providerAgentForEntry (es1 ! i) = providerAgentForEntry (q' ! i)" by (simp_all add: in_step_def providerAgentForEntry_def)
      show "sched_rank (es1 ! i) = sched_rank (q' ! i)" by (simp add: sched_rank_def created_at_def same_identity [OF ident])
    qed
    note ids = same_identity [OF same(1) [OF j(1)]]
    have key: "project_key (es1 ! j) = project_key x" using identity_project_key [OF same(1) [OF j(1)]] j(2) by simp
    have out: "fld (es1 ! j) ''id'' \<notin> (\<lambda>c. fld c ''id'') ` set cs" using assms(6) ids(1) j(2) by simp
    have n: "sched_limit env es1 (fld (es1 ! j) ''projectId'') = Fin (of_nat n)" using assms(7) ids(2) j(2) gate(3) by simp
    have rank: "not_behind env c (es1 ! j) = not_behind env c x" for c by (simp add: not_behind_def same(4) [OF j(1)] j(2))
    from choose_greedy [OF 1(6) len dist el out n] show thesis
    proof cases
      case 1
      then show thesis by (rule full)
    next
      case 2
      then have "limit_used_up env q' cs n x" using same(2) [OF j(1)] j(2) by (simp add: limit_used_up_def gate(2) key rank)
      then show thesis by (rule limit)
    next
      case (3 f ranked es2)
      have "i < length q' \<and> task_due (clock Filtering) q' (q' ! i) \<and> providerAgentForEntry (es2 ! i) = providerAgentForEntry (q' ! i)"
        if "i \<in> set ranked" for i
      proof -
        have i: "i \<in> set eligible" "i < length q'" using that 3(4) len gate(4) by auto
        then have "same_task (es2 ! i) (es1 ! i)" using 3(6) gate(4) by simp
        then have "providerAgentForEntry (es2 ! i) = providerAgentForEntry (q' ! i)" using same(3) [OF i(2)] by (simp add: same_task_def)
        with i gate(1) [of i] show ?thesis by simp
      qed
      then have inside: "\<forall>i\<in>set ranked. i < length q' \<and> task_due (clock Filtering) q' (q' ! i) \<and> providerAgentForEntry (es2 ! i) = providerAgentForEntry (q' ! i)"
        by blast
      have "map (\<lambda>i. sched_rank (es1 ! i)) ranked = map (\<lambda>i. sched_rank (q' ! i)) ranked" using inside same(4) by simp
      with 3(7) have "readSchedulerConfig (hubConfig (se_hub env)) \<noteq> JStr ''smart'' \<Longrightarrow> sorted (map (\<lambda>i. sched_rank (q' ! i)) ranked)" by simp
      from provider [OF 3(1,2) j(2) 3(3) inside 3(5) this] show thesis .
    qed
  qed
qed

end
