(* ===== verification/OrchestratorProperties.thy ===== *)
theory OrchestratorProperties
  imports Orchestrator SchedulerProperties
begin

text \<open>
  Properties of the orchestrator: a batch stays within the capacity of its providers and passes no
  ready task over without a reason; a tick keeps the
  limits of the projects and loses no task; and where a dispatch that fails leaves its task.
\<close>

section \<open>The capacity of providers\<close>

lemma agent_truthy: "truthy (providerAgentForEntry e)"
  by (simp add: providerAgentForEntry_def agent_of_def or_else_def)

lemma fits_capacity:
  assumes "acpProviderMax (resolveHubConcurrencyLimits env JUndef JUndef) = Fin (of_nat n)" "truthy agent"
  shows "fits agent (providerCapacity env q agent e) projected
     = (if n \<le> provider_active q agent + projected agent then None else Some (projected(agent := Suc (projected agent))))"
proof -
  let ?a = "provider_active q agent" and ?k = "projected agent"
  have key: "or_else agent v = agent" for v using assms(2) by simp
  have max: "num_max0 (num_sub (Fin (of_nat n)) (Fin (of_nat ?a))) = Fin (of_nat (n - ?a))"
    by (cases "?a \<le> n") (auto simp: num_max0_def of_nat_diff)
  have min: "num_min (Fin (of_nat (n - ?a))) (Fin (of_nat n)) = Fin (of_nat (n - ?a))"
    by (auto simp: num_min_def)
  have "(of_nat (n - ?a) :: rat) - of_nat ?k \<le> 0 \<longleftrightarrow> n \<le> ?a + ?k"
  proof -
    have "(of_nat (n - ?a) :: rat) - of_nat ?k \<le> 0 \<longleftrightarrow> (of_nat (n - ?a) :: rat) \<le> of_nat ?k" by linarith
    also have "\<dots> \<longleftrightarrow> n - ?a \<le> ?k" by (rule of_nat_le_iff)
    finally show ?thesis by linarith
  qed
  then have le: "num_le (Fin (of_nat (n - ?a) - of_nat ?k)) (Fin 0) \<longleftrightarrow> n \<le> ?a + ?k"
    by (auto simp: num_le_def)
  show ?thesis
    unfolding fits_def providerCapacity_def Let_def assms(1) key max
    by (simp add: key min le to_num_def nullish_or_def nullish_def)
qed

lemma capacity_loop_bound:
  assumes "acpProviderMax (resolveHubConcurrencyLimits env JUndef JUndef) = Fin (of_nat n)"
  shows "provider_active q k + projected k + length (filter (\<lambda>i. providerAgentForEntry (es ! i) = k) (drop (length eligible)
      (capacity_loop (\<lambda>e. providerCapacity env q (providerAgentForEntry e) e) None es pending projected eligible)))
    \<le> max (provider_active q k + projected k) n"
proof (induction pending arbitrary: projected eligible)
  case (Cons i pending)
  let ?cap = "\<lambda>e. providerCapacity env q (providerAgentForEntry e) e" and ?a = "providerAgentForEntry (es ! i)"
  note fit = fits_capacity [where agent = ?a and q = q and e = "es ! i" and projected = projected, OF assms agent_truthy]
  show ?case
  proof (cases "n \<le> provider_active q ?a + projected ?a")
    case True
    then show ?thesis using Cons.IH [of projected eligible] by (simp add: fit below_def)
  next
    case False
    let ?p = "projected(?a := Suc (projected ?a))"
    obtain xs where xs: "capacity_loop ?cap None es pending ?p (eligible @ [i]) = (eligible @ [i]) @ xs"
      using capacity_loop_subseq by metis
    have run: "capacity_loop ?cap None es (i # pending) projected eligible = (eligible @ [i]) @ xs"
      using False xs by (simp add: fit below_def)
    have ih: "provider_active q k + ?p k + length (filter (\<lambda>i. providerAgentForEntry (es ! i) = k) xs) \<le> max (provider_active q k + ?p k) n"
      using Cons.IH [of ?p "eligible @ [i]"] unfolding xs by simp
    show ?thesis
    proof (cases "?a = k")
      case True
      then have "?p k = Suc (projected k)" by simp
      with ih True False show ?thesis unfolding run by simp
    next
      case False
      then have "?p k = projected k" by simp
      with ih False show ?thesis unfolding run by simp
    qed
  qed
qed simp

lemma gate_is_loop:
  assumes "\<not> is_bool (cap (es ! hd pending))"
  shows "applyProviderCapacityGate cap None es pending = capacity_loop cap None es pending (\<lambda>_. 0) []"
  using assms by (cases pending) (auto simp: applyProviderCapacityGate_def below_def slice_batch_def split: option.splits)

text \<open>C29: A batch stays within the capacity of the providers: with the capacity function of the orchestrator,
  the running and scheduled tasks of a provider together with the candidates for it are at most the hub's
  limit per provider (or already were more before).\<close>

theorem batch_within_providers:
  assumes "nextCandidates env clock batch q = (Inr cs, q')" "wf_queue q" "\<forall>e\<in>set q. entry_ok e"
    and "se_capacity env = Some (providerCapacity hub)"
    and "acpProviderMax (resolveHubConcurrencyLimits hub JUndef JUndef) = Fin (of_nat n)"
  shows "provider_active q' k + length (filter (\<lambda>c. providerAgentForEntry c = k) cs) \<le> max (provider_active q' k) n"
proof (rule candidates_run [OF assms(1-3)], goal_cases)
  case (1 q1 eligible es1)
  note cs = 1(6)
  let ?cap = "\<lambda>e. providerCapacity hub q' (providerAgentForEntry e) e"
  show ?case
  proof (rule choose_shape [where env = env and clock = clock and batch = batch and eligible = eligible and es = es1 and q = q'], goal_cases)
    case (1 ranked es2 provided)
    let ?P = "\<lambda>i. providerAgentForEntry (es2 ! i) = k"
    let ?chosen = "slice_batch batch (reserveProjectCapacity es2 (active_mutating es1) (sched_limit env es1) (\<lambda>_. 0) provided)"
    have "provided = capacity_loop ?cap None es2 ranked (\<lambda>_. 0) []"
      using 1(7) [OF assms(4)] gate_is_loop [of ?cap] by (simp add: providerCapacity_def Let_def)
    with capacity_loop_bound [OF assms(5), of q' k "\<lambda>_. 0" es2 "[]" ranked]
    have "provider_active q' k + length (filter ?P provided) \<le> max (provider_active q' k) n" by simp
    moreover have "subseq ?chosen provided" using slice_batch_props(1) reserve_subseq by (metis subseq_order.trans)
    then have "length (filter ?P ?chosen) \<le> length (filter ?P provided)"
      by (intro list_emb_length [where P = "(=)"] subseq_filter)
    moreover have "length (filter (\<lambda>c. providerAgentForEntry c = k) cs) = length (filter ?P ?chosen)"
      unfolding cs 1(1) by (simp add: filter_map o_def)
    ultimately show ?case by linarith
  qed
qed

text \<open>The provider gate turns an entry away only when the entries before it have used up its provider.\<close>

lemma capacity_loop_greedy:
  assumes "acpProviderMax (resolveHubConcurrencyLimits env JUndef JUndef) = Fin (of_nat n)" "i \<in> set pending" "distinct pending"
    and "i \<notin> set (capacity_loop (\<lambda>e. providerCapacity env q (providerAgentForEntry e) e) None es pending projected eligible)"
  shows "\<exists>pre post. pending = pre @ i # post \<and> n \<le> provider_active q (providerAgentForEntry (es ! i)) + projected (providerAgentForEntry (es ! i))
      + length (filter (\<lambda>j. providerAgentForEntry (es ! j) = providerAgentForEntry (es ! i)) pre)"
  using assms(2-4)
proof (induction pending arbitrary: projected eligible)
  case (Cons k pending)
  let ?cap = "\<lambda>e. providerCapacity env q (providerAgentForEntry e) e" and ?a = "providerAgentForEntry (es ! k)" and ?b = "providerAgentForEntry (es ! i)"
  note fit = fits_capacity [where agent = ?a and q = q and e = "es ! k" and projected = projected, OF assms(1) agent_truthy]
  let ?p = "if n \<le> provider_active q ?a + projected ?a then projected else projected(?a := Suc (projected ?a))"
  have run: "capacity_loop ?cap None es (k # pending) projected eligible
    = capacity_loop ?cap None es pending ?p (if n \<le> provider_active q ?a + projected ?a then eligible else eligible @ [k])"
    by (simp add: fit below_def)
  show ?case
  proof (cases "k = i")
    case True
    have "n \<le> provider_active q ?a + projected ?a"
    proof (rule ccontr)
      assume no: "\<not> n \<le> provider_active q ?a + projected ?a"
      obtain xs where "capacity_loop ?cap None es pending ?p (eligible @ [k]) = (eligible @ [k]) @ xs" using capacity_loop_subseq by metis
      with no run Cons.prems(3) True show False by simp
    qed
    with True show ?thesis by (intro exI [of _ "[]"] exI [of _ pending]) simp
  next
    case False
    with Cons.prems have i: "i \<in> set pending" "distinct pending" by auto
    from Cons.IH [OF i Cons.prems(3) [unfolded run]] obtain pre post where split: "pending = pre @ i # post"
      "n \<le> provider_active q ?b + ?p ?b + length (filter (\<lambda>j. providerAgentForEntry (es ! j) = ?b) pre)" by blast
    have "?p ?b \<le> projected ?b + (if ?a = ?b then 1 else 0)" by simp
    with split(2) have "n \<le> provider_active q ?b + projected ?b + length (filter (\<lambda>j. providerAgentForEntry (es ! j) = ?b) (k # pre))"
      by (auto split: if_splits)
    with split(1) show ?thesis by (intro exI [of _ "k # pre"] exI [of _ post]) simp
  qed
qed simp

definition provider_used_up :: "sched_env \<Rightarrow> nat \<Rightarrow> js list \<Rightarrow> nat \<Rightarrow> js \<Rightarrow> bool" where
  \<comment> \<open>by the active tasks of its provider and by other tasks that are ready and not behind it\<close>
  "provider_used_up env now q m x = (m \<le> provider_active q (providerAgentForEntry x)
     + length (filter (\<lambda>y. y \<noteq> x \<and> task_due now q y \<and> providerAgentForEntry y = providerAgentForEntry x \<and> not_behind env y x) q))"

lemma length_positions:
  assumes "distinct js" "\<forall>j\<in>set js. j < length q \<and> P (q ! j)"
  shows "length js \<le> length (filter P q)"
proof -
  have "card (set js) \<le> card {i. i < length q \<and> P (q ! i)}" using assms(2) by (intro card_mono) auto
  then show ?thesis by (simp add: distinct_card [OF assms(1)] length_filter_conv_card)
qed

text \<open>C28: The scheduler passes over no ready task without a reason. A task of the queue that could be dispatched is left
  out of a batch only when the batch is full (the orchestrator asks for one without an end), or when it changes code
  and the limit of its project is used up by active tasks and by candidates of the batch, or when the capacity of its
  provider is used up by active tasks and by other ready tasks. In the default mode these candidates and tasks do not
  rank behind it; the smart mode has an order of its own. The scheduler either has no capacity function or the one of
  the orchestrator. The ready tasks that use up a provider need not be candidates themselves: the provider is
  looked at before the limits of the projects.\<close>

theorem no_ready_task_passed_over:
  assumes "nextCandidates env clock batch q = (Inr cs, q')" "wf_queue q" "\<forall>e\<in>set q. entry_ok e"
    and "se_capacity env = None \<or> se_capacity env = Some (providerCapacity hub)"
    and "acpProviderMax (resolveHubConcurrencyLimits hub JUndef JUndef) = Fin (of_nat m)"
    and "x \<in> set q'" "task_due (clock Filtering) q' x" "fld x ''id'' \<notin> (\<lambda>c. fld c ''id'') ` set cs"
    and "sched_limit env q' (fld x ''projectId'') = Fin (of_nat n)"
  shows "batch = Some (length cs) \<or> limit_used_up env q' cs n x
    \<or> (se_capacity env \<noteq> None \<and> provider_used_up env (clock Filtering) q' m x)"
proof (rule left_out [OF assms(1-3,6-9)], goal_cases)
  case (3 f ranked es2 j)
  let ?cap = "\<lambda>e. providerCapacity hub q' (providerAgentForEntry e) e" and ?a = "providerAgentForEntry x"
  have f: "f = providerCapacity hub" using 3(1) assms(4) by simp
  have "applyProviderCapacityGate ?cap None es2 ranked = capacity_loop ?cap None es2 ranked (\<lambda>_. 0) []"
    by (rule gate_is_loop) (simp add: providerCapacity_def Let_def)
  with 3(6) have "j \<notin> set (capacity_loop ?cap None es2 ranked (\<lambda>_. 0) [])" unfolding f by simp
  from capacity_loop_greedy [OF assms(5) 3(2,4) this] obtain pre post where pre: "ranked = pre @ j # post"
    "m \<le> provider_active q' (providerAgentForEntry (es2 ! j)) + length (filter (\<lambda>k. providerAgentForEntry (es2 ! k) = providerAgentForEntry (es2 ! j)) pre)"
    by auto
  let ?P = "\<lambda>y. y \<noteq> x \<and> task_due (clock Filtering) q' y \<and> providerAgentForEntry y = ?a \<and> not_behind env y x"
  have a: "providerAgentForEntry (es2 ! j) = ?a" using 3(2,3,5) by simp
  have wf: "distinct (map (\<lambda>e. fld e ''id'') q')"
    using candidate_positions [OF assms(1-3)] by (metis wf_queue_def)
  have "k < length q' \<and> ?P (q' ! k)" if k: "k \<in> set (filter (\<lambda>k. providerAgentForEntry (es2 ! k) = ?a) pre)" for k
  proof -
    have r: "k \<in> set ranked" "k \<noteq> j" using k 3(4) unfolding pre(1) by auto
    then have "k < length q'" "j < length q'" using 3(2,5) by blast+
    with r(2) wf have "q' ! k \<noteq> x" unfolding 3(3) by (metis distinct_map nth_eq_iff_index_eq)
    moreover have "not_behind env (q' ! k) x"
      using 3(7) k unfolding not_behind_def 3(3) pre(1) by (auto simp: sorted_append)
    ultimately show ?thesis using r(1) 3(5) k by simp
  qed
  then have "\<forall>k\<in>set (filter (\<lambda>k. providerAgentForEntry (es2 ! k) = ?a) pre). k < length q' \<and> ?P (q' ! k)" by blast
  moreover have "distinct (filter (\<lambda>k. providerAgentForEntry (es2 ! k) = ?a) pre)" using 3(4) unfolding pre(1) by simp
  ultimately have "length (filter (\<lambda>k. providerAgentForEntry (es2 ! k) = ?a) pre) \<le> length (filter ?P q')" by (intro length_positions)
  with pre(2) 3(1) show ?case unfolding provider_used_up_def a by simp
qed simp_all

section \<open>Flows\<close>

text \<open>\<open>flow_ok P f G E T\<close>: started in a state with \<open>P\<close>, the step \<open>f\<close> goes on with \<open>G\<close>, ends with \<open>E\<close> or
  throws with \<open>T\<close>.\<close>

definition flow_ok :: "('s \<Rightarrow> bool) \<Rightarrow> ('s \<Rightarrow> 'a flow \<times> 's) \<Rightarrow> ('a \<Rightarrow> 's \<Rightarrow> bool) \<Rightarrow> (dispatch_end \<Rightarrow> 's \<Rightarrow> bool) \<Rightarrow> ('s \<Rightarrow> bool) \<Rightarrow> bool" where
  "flow_ok P f G E T = (\<forall>s. P s \<longrightarrow> (case f s of (Go v, s') \<Rightarrow> G v s' | (End d, s') \<Rightarrow> E d s' | (Throw err, s') \<Rightarrow> T s'))"

named_theorems flow_rules

lemma flow_ok_bind [flow_rules]:
  "flow_ok P f G E T \<Longrightarrow> (\<And>v. flow_ok (G v) (g v) H E T) \<Longrightarrow> flow_ok P (\<lambda>s. flow_bind (f s) g) H E T"
  unfolding flow_ok_def flow_bind_def by (force split: flow.splits prod.splits)

lemma flow_ok_read: "(\<And>x. flow_ok P (h x) G E T) \<Longrightarrow> flow_ok P (\<lambda>s. h (k s) s) G E T"
  by (simp add: flow_ok_def)

lemma flow_ok_Go: "(\<And>s. P s \<Longrightarrow> G v s) \<Longrightarrow> flow_ok P (\<lambda>s. (Go v, s)) G E T"
  by (simp add: flow_ok_def)

lemma flow_ok_Throw: "(\<And>s. P s \<Longrightarrow> T s) \<Longrightarrow> flow_ok P (\<lambda>s. (Throw err, s)) G E T"
  by (simp add: flow_ok_def)

lemma flow_ok_if: "(b \<Longrightarrow> flow_ok P f G E T) \<Longrightarrow> (\<not> b \<Longrightarrow> flow_ok P g G E T) \<Longrightarrow> flow_ok P (\<lambda>s. if b then f s else g s) G E T"
  by (cases b) simp_all

lemma flow_ok_world:
  assumes "\<And>s w. P s \<Longrightarrow> P (s\<lparr>ds_world := w\<rparr>)" "\<And>s. P s \<Longrightarrow> T s"
  shows "flow_ok P (on_world f) (\<lambda>_. P) E T"
  using assms by (auto simp: flow_ok_def on_world_def split: prod.splits sum.splits)

lemma flow_ok_fence:
  assumes "\<And>s w. P s \<Longrightarrow> P (s\<lparr>ds_world := w\<rparr>)" "\<And>s. P s \<Longrightarrow> E LockLost s"
  shows "flow_ok P (fence env) (\<lambda>_. P) E T"
  using assms by (auto simp: flow_ok_def fence_def split: prod.splits)

lemma flow_ok_worker:
  assumes "\<And>s w. P s \<Longrightarrow> P (s\<lparr>ds_world := w\<rparr>)" "\<And>s k. P s \<Longrightarrow> P (s\<lparr>ds_worker := k\<rparr>)" "\<And>s. P s \<Longrightarrow> T s"
  shows "flow_ok P (reserve_worker env worker assignment attempt) (\<lambda>_. P) E T"
  unfolding reserve_worker_def
  by (rule flow_ok_bind [OF flow_ok_world [where P = P]]) (use assms in \<open>auto simp: flow_ok_def\<close>)

section \<open>The task of a dispatch\<close>

definition start_state :: "js list \<Rightarrow> 'w \<Rightarrow> 'w dispatch_state" where
  "start_state q w = \<lparr>ds_queue = q, ds_world = w, ds_reservation = None, ds_inboxWritten = False, ds_worker = None\<rparr>"

definition untouched :: "js list \<Rightarrow> 'w dispatch_state \<Rightarrow> bool" where
  "untouched q s = (ds_queue s = q \<and> ds_reservation s = None \<and> \<not> ds_inboxWritten s)"

definition reserved_as :: "js list \<Rightarrow> nat \<Rightarrow> js \<Rightarrow> 'w dispatch_state \<Rightarrow> bool" where
  "reserved_as q i r s = (ds_queue s = q[i := json_copy r] \<and> ds_reservation s = Some r \<and> identity r = identity (q ! i) \<and> isRecord r
     \<and> fld r ''status'' = JStr ''scheduled'' \<and> is_str (fld r ''updatedAt''))"

definition handed_over :: "js list \<Rightarrow> nat \<Rightarrow> 'w dispatch_state \<Rightarrow> bool" where
  "handed_over q i s = (ds_inboxWritten s \<and> (\<exists>e. ds_queue s = q[i := json_copy e] \<and> identity e = identity (q ! i) \<and> isRecord e
     \<and> fld e ''status'' = JStr ''scheduled''))"

lemma state_guard_pending: "guard_holds (pending_guard c) x \<Longrightarrow> is_str (fld c ''updatedAt'') \<or> nullish (fld c ''updatedAt'') \<Longrightarrow> guard_holds (state_guard ''pending'' c) x"
  by (cases "fld c ''updatedAt''") (auto simp: guard_holds_def pending_guard_def state_guard_def string_or_def nullish_or_def nullish_def)

lemma state_guard_scheduled:
  "fld r ''status'' = JStr ''scheduled'' \<Longrightarrow> is_str (fld r ''updatedAt'') \<Longrightarrow> guard_holds (state_guard ''scheduled'' r) (json_copy r)"
  by (cases "fld r ''updatedAt''") (simp_all add: guard_holds_def state_guard_def string_or_def js_includes_def or_else_def nullish_or_def nullish_def)

lemma reserve_ok:
  assumes "wf_queue q" "i < length q" "fld c ''id'' = fld (q ! i) ''id''" "guard_holds (state_guard ''pending'' c) (q ! i)"
  shows "flow_ok (untouched q) (reserve_entry clock epoch c) (reserved_as q i) E (untouched q)"
proof -
  have id: "entry_id c = entry_id (q ! i)" using assms(3) by (simp add: entry_id_def)
  have "case reserve_entry clock epoch c s of (Go v, s') \<Rightarrow> reserved_as q i v s' | (End d, s') \<Rightarrow> E d s' | (Throw err, s') \<Rightarrow> untouched q s'"
    if s: "untouched q s" for s
  proof -
    let ?patch = "reserve_patch clock epoch c"
    obtain r q1 where run: "updateEntry (clock Reserve_commit) (entry_id (q ! i)) ?patch (state_guard ''pending'' c) q = (r, q1)"
      by (cases "updateEntry (clock Reserve_commit) (entry_id (q ! i)) ?patch (state_guard ''pending'' c) q")
    from update_cases [OF run assms(1,2)] show ?thesis
    proof cases
      case (1 err)
      with s run show ?thesis by (simp add: reserve_entry_def on_queue_def id untouched_def)
    next
      case 2
      with assms(4) show ?thesis by simp
    next
      case 3
      have "fld ?patch ''status'' = JStr ''scheduled''" "fld ?patch ''updatedAt'' = JUndef" by (simp_all add: reserve_patch_def)
      then have "fld (patched now ?patch (q ! i)) ''status'' = JStr ''scheduled''" "is_str (fld (patched now ?patch (q ! i)) ''updatedAt'')" for now
        by (simp_all add: patched_fields nowIso_def)
      with s run 3 show ?thesis by (simp add: reserve_entry_def on_queue_def id untouched_def reserved_as_def patched_keeps)
    qed
  qed
  then show ?thesis by (simp add: flow_ok_def)
qed

lemma reserved_queue:
  assumes "wf_queue q" "i < length q" "reserved_as q i r s"
  shows "wf_queue (ds_queue s)" "i < length (ds_queue s)" "entry_id (ds_queue s ! i) = entry_id (q ! i)" "ds_queue s ! i = json_copy r"
    "identity (json_copy r) = identity (q ! i)"
proof -
  from assms(3) have r: "ds_queue s = q[i := json_copy r]" "identity r = identity (q ! i)" "isRecord r" by (simp_all add: reserved_as_def)
  show "wf_queue (ds_queue s)" unfolding r(1) by (rule wf_update [OF assms(1,2) r(2,3)])
  show at: "ds_queue s ! i = json_copy r" "i < length (ds_queue s)" using r(1) assms(2) by simp_all
  show ident: "identity (json_copy r) = identity (q ! i)" by (rule identity_committed [OF assms(1) nth_mem [OF assms(2)] r(2)])
  show "entry_id (ds_queue s ! i) = entry_id (q ! i)" unfolding at entry_id_def by (simp only: same_identity(1) [OF ident])
qed

lemma claim_ok:
  assumes "wf_queue q" "i < length q" "fld c ''id'' = fld (q ! i) ''id''"
  shows "flow_ok (\<lambda>s. reserved_as q i r s \<and> ds_inboxWritten s) (claim_for clock c worker r) (\<lambda>_. handed_over q i) E (\<lambda>s. \<exists>r. reserved_as q i r s)"
proof -
  have id: "entry_id c = entry_id (q ! i)" using assms(3) by (simp add: entry_id_def)
  have "case claim_for clock c worker r s of (Go v, s') \<Rightarrow> handed_over q i s' | (End d, s') \<Rightarrow> E d s' | (Throw err, s') \<Rightarrow> \<exists>r. reserved_as q i r s'"
    if s: "reserved_as q i r s" "ds_inboxWritten s" for s
  proof -
    let ?patch = "JObj [(''status'', JStr ''scheduled''), (''claimedBy'', fld worker ''workerId''), (''claimedAt'', nowIso (clock Claiming))]"
    note q1 = reserved_queue [OF assms(1,2) s(1)]
    obtain v q2 where run: "updateEntry (clock Claim_commit) (entry_id (ds_queue s ! i)) ?patch (state_guard ''scheduled'' r) (ds_queue s) = (v, q2)"
      by (cases "updateEntry (clock Claim_commit) (entry_id (ds_queue s ! i)) ?patch (state_guard ''scheduled'' r) (ds_queue s)")
    then have run': "updateEntry (clock Claim_commit) (entry_id c) ?patch (state_guard ''scheduled'' r) (ds_queue s) = (v, q2)"
      by (simp only: id q1(3))
    from update_cases [OF run q1(1,2)] show ?thesis
    proof cases
      case (1 err)
      with s run' show ?thesis by (auto simp: claim_for_def on_queue_def)
    next
      case 2
      moreover have "guard_holds (state_guard ''scheduled'' r) (ds_queue s ! i)"
        unfolding q1(4) using s(1) by (intro state_guard_scheduled) (simp_all add: reserved_as_def)
      ultimately show ?thesis by blast
    next
      case 3
      let ?e = "patched (clock Claim_commit) ?patch (json_copy r)"
      have "q2 = q[i := json_copy ?e]" using 3(3) s(1) q1(4) by (simp add: reserved_as_def)
      moreover have "identity ?e = identity (q ! i)" using q1(5) by (simp only: patched_keeps)
      ultimately show ?thesis
        using 3(1) run' s(2) by (simp add: claim_for_def on_queue_def handed_over_def patched_keeps)
           (rule exI [of _ ?e], simp add: patched_keeps patched_fields)
    qed
  qed
  then show ?thesis by (simp add: flow_ok_def)
qed

lemma dispatch_ok:
  assumes "wf_queue q" "i < length q" "fld c ''id'' = fld (q ! i) ''id''" "guard_holds (state_guard ''pending'' c) (q ! i)"
  shows "flow_ok (untouched q) (dispatch_try env clock c) (\<lambda>d s. (\<exists>a. d = Dispatched a) \<and> handed_over q i s)
     (\<lambda>d s. d = LockLost \<and> (untouched q s \<or> (\<exists>r. reserved_as q i r s))) (\<lambda>s. untouched q s \<or> (\<exists>r. reserved_as q i r s))"
    (is "flow_ok _ _ ?G ?E ?T")
proof -
  have weak: "flow_ok P f G E T \<Longrightarrow> (\<And>s. T s \<Longrightarrow> T' s) \<Longrightarrow> flow_ok P f G E T'"
    for P f and G :: "'b \<Rightarrow> 'a dispatch_state \<Rightarrow> bool" and E T T'
    unfolding flow_ok_def by (force split: prod.splits flow.splits)
  have start: "untouched q (s\<lparr>ds_world := w\<rparr>) = untouched q s" for s :: "'a dispatch_state" and w by (simp add: untouched_def)
  have frame: "reserved_as q i r (s\<lparr>ds_world := w\<rparr>) = reserved_as q i r s" "reserved_as q i r (s\<lparr>ds_worker := k\<rparr>) = reserved_as q i r s"
    "reserved_as q i r (s\<lparr>ds_inboxWritten := b\<rparr>) = reserved_as q i r s" for r and s :: "'a dispatch_state" and w k b
    by (simp_all add: reserved_as_def)
  have rest: "flow_ok (reserved_as q i r) (\<lambda>s. flow_bind (fence env s) (\<lambda>_ s8.
       flow_bind (reserve_worker env worker assignment attempt s8) (\<lambda>_ s9.
       flow_bind (on_world (writeInbox env (fld worker ''workerId'') (inbox_payload assignment attempt)) s9) (\<lambda>_ s10.
       flow_bind (fence env (s10\<lparr>ds_inboxWritten := True\<rparr>)) (\<lambda>_ s11.
       flow_bind (claim_for clock c worker r s11) (\<lambda>_ s12. (Go (Dispatched (fld assignment ''assignmentId'')), s12))))))) ?G ?E ?T"
    for r worker assignment attempt
  proof -
    have fence2: "flow_ok (reserved_as q i r) (\<lambda>s. fence env (s\<lparr>ds_inboxWritten := True\<rparr>)) (\<lambda>_ s. reserved_as q i r s \<and> ds_inboxWritten s) ?E ?T"
      unfolding flow_ok_def fence_def by (auto split: prod.splits simp: frame)
    have "flow_ok (\<lambda>s. reserved_as q i r s \<and> ds_inboxWritten s) (\<lambda>s11. flow_bind (claim_for clock c worker r s11)
        (\<lambda>_ s12. (Go (Dispatched (fld assignment ''assignmentId'')), s12))) ?G ?E ?T"
      by (rule flow_ok_bind [OF weak [OF claim_ok [OF assms(1-3)]] flow_ok_Go]) auto
    from flow_ok_bind [OF fence2 this] show ?thesis
      by (intro flow_ok_bind [OF flow_ok_fence [where P = "reserved_as q i r"]] flow_ok_bind [OF flow_ok_worker [where P = "reserved_as q i r"]]
          flow_ok_bind [OF flow_ok_world [where P = "reserved_as q i r"]]) (auto simp: frame)
  qed
  have body: "flow_ok (reserved_as q i r) (\<lambda>s2. flow_bind (on_world (getProject_w env (fld c ''projectId'')) s2) (\<lambda>project s3.
     if \<not> truthy (fld project ''projectRuntimeRoot'')
     then (Throw (ErrorMsg (''project runtime root required for dispatch: '' @ to_str (fld c ''projectId''))), s3)
     else flow_bind (on_world (getOrCreateAssignmentForEntry env (assignment_input c project)) s3) (\<lambda>assignment s4.
     flow_bind (on_world (findIdleWorker env (fld c ''projectId'')) s4) (\<lambda>existing s5.
     flow_bind (on_world (ensureWorkerFor env assignment existing) s5) (\<lambda>worker s6.
     flow_bind (on_world (createAttempt env (fld assignment ''assignmentId'')
         (JObj [(''workerId'', fld worker ''workerId''), (''orchestratorEpoch'', epoch)])) s6) (\<lambda>attempt s7.
     flow_bind (fence env s7) (\<lambda>_ s8.
     flow_bind (reserve_worker env worker assignment attempt s8) (\<lambda>_ s9.
     flow_bind (on_world (writeInbox env (fld worker ''workerId'') (inbox_payload assignment attempt)) s9) (\<lambda>_ s10.
     flow_bind (fence env (s10\<lparr>ds_inboxWritten := True\<rparr>)) (\<lambda>_ s11.
     flow_bind (claim_for clock c worker r s11) (\<lambda>_ s12.
       (Go (Dispatched (fld assignment ''assignmentId'')), s12)))))))))))) ?G ?E ?T" for r epoch
    by (intro flow_ok_bind [OF flow_ok_world [where P = "reserved_as q i r"]] flow_ok_if flow_ok_Throw rest) (auto simp: frame)
  show ?thesis
    unfolding dispatch_try_def Let_def
  proof (rule flow_ok_bind [OF flow_ok_fence [where P = "untouched q"]], goal_cases)
    case (3 v)
    have "flow_ok (untouched q) (\<lambda>s1. flow_bind (reserve_entry clock (getEpoch env (ds_world s1)) c s1) (g (getEpoch env (ds_world s1)))) ?G ?E ?T"
      if "\<And>epoch r. flow_ok (reserved_as q i r) (g epoch r) ?G ?E ?T" for g
    proof -
      have "flow_ok (untouched q) (\<lambda>s1. flow_bind (reserve_entry clock epoch c s1) (g epoch)) ?G ?E ?T" for epoch
        by (rule flow_ok_bind [OF weak [OF reserve_ok [OF assms]] that]) blast
      then show ?thesis by (rule flow_ok_read)
    qed
    from this [OF body] show ?case .
  qed (auto simp: start)
qed

lemma put_back_result:
  assumes "wf_queue q" "i < length q" "fld c ''id'' = fld (q ! i) ''id''" "guard_holds (state_guard ''pending'' c) (q ! i)"
    and "untouched q s \<or> (\<exists>r. reserved_as q i r s)" "fld (q ! i) ''status'' = JStr ''pending''"
  obtains "fst (put_back clock c err s) \<noteq> Inr None" "snd (put_back clock c err s) = ds_queue s" "\<exists>e. fst (put_back clock c err s) = Inl e"
  | e where "snd (put_back clock c err s) = q[i := json_copy e]" "identity e = identity (q ! i)" "isRecord e"
      "fld e ''status'' = (if ds_inboxWritten s then JStr ''scheduled'' else JStr ''pending'')"
proof -
  note result = that
  have id: "entry_id c = entry_id (q ! i)" using assms(3) by (simp add: entry_id_def)
  obtain x where x: "wf_queue (ds_queue s)" "i < length (ds_queue s)" "entry_id (ds_queue s ! i) = entry_id (q ! i)" "ds_queue s ! i = x"
    "guard_holds (failure_guard c (ds_reservation s)) x" "identity x = identity (q ! i)" "\<And>y. (ds_queue s)[i := y] = q[i := y]"
    "ds_inboxWritten s \<Longrightarrow> fld x ''status'' = JStr ''scheduled''"
  proof (cases "untouched q s")
    case True
    then have "ds_queue s = q" "ds_reservation s = None" "\<not> ds_inboxWritten s" by (simp_all add: untouched_def)
    with assms(1,2,4) that [of "q ! i"] show thesis by (simp add: failure_guard_def)
  next
    case False
    with assms(5) obtain r where r: "reserved_as q i r s" by blast
    have f: "ds_queue s = q[i := json_copy r]" "ds_reservation s = Some r" "fld r ''status'' = JStr ''scheduled''" "is_str (fld r ''updatedAt'')"
      using r by (simp_all add: reserved_as_def)
    have g: "guard_holds (failure_guard c (ds_reservation s)) (json_copy r)"
      unfolding f(2) failure_guard_def option.case by (rule state_guard_scheduled [OF f(3,4)])
    show thesis by (rule that [OF reserved_queue(1-4) [OF assms(1,2) r] g reserved_queue(5) [OF assms(1,2) r]]) (simp_all add: f(1,3))
  qed
  obtain v q1 where run: "put_back clock c err s = (v, q1)" by (cases "put_back clock c err s")
  then have "updateEntry (clock Fail_commit) (entry_id (ds_queue s ! i)) (failure_patch clock (ds_inboxWritten s) err)
      (failure_guard c (ds_reservation s)) (ds_queue s) = (v, q1)"
    by (simp only: put_back_def id x(3))
  from update_cases [OF this x(1,2)] show thesis
  proof cases
    case (1 e)
    with run result(1) show thesis by simp
  next
    case 2
    with x(4,5) show thesis by simp
  next
    case 3
    let ?e = "patched (clock Fail_commit) (failure_patch clock (ds_inboxWritten s) err) x"
    have "fld ?e ''status'' = (if ds_inboxWritten s then JStr ''scheduled'' else JStr ''pending'')"
      using x(8) by (cases "ds_inboxWritten s") (simp_all add: patched_fields failure_patch_def)
    moreover have "snd (put_back clock c err s) = q[i := json_copy ?e]" using run 3(3) x(4,7) by simp
    moreover have "identity ?e = identity (q ! i)" using x(6) by (simp only: patched_keeps)
    ultimately show thesis by (intro result(2)) (simp_all only: patched_keeps)
  qed
qed

definition task_status :: "js list \<Rightarrow> nat \<Rightarrow> js" where
  "task_status q i = fld (q ! i) ''status''"

lemma task_status_update [simp]: "i < length q \<Longrightarrow> task_status (q[i := json_copy e]) i = json_copy (fld e ''status'')"
  by (simp add: task_status_def)

text \<open>C26: The task of a dispatch ends in one of these states, and no other task changes. When the dispatch succeeds the
  worker's inbox is written and the task is scheduled. When the leader lock is lost before the task is reserved, the
  queue is as it was; when it is lost later, the task stays scheduled, whether its inbox is written or not: nothing
  puts it back. When the dispatch fails with the inbox written, the task stays scheduled, so that it is not offered
  again; when it fails before, the task is pending again, unless the write that puts it back fails itself, and then
  it stays as the dispatch had left it.\<close>

theorem dispatch_keeps_task:
  assumes "wf_queue q" "i < length q" "fld c ''id'' = fld (q ! i) ''id''" "task_status q i = JStr ''pending''"
    and "guard_holds (state_guard ''pending'' c) (q ! i)" "dispatch_try env clock c (start_state q w) = (r, s)"
  shows "let q' = fst (snd (dispatch_one env clock c (q, w))) in (\<forall>j. j \<noteq> i \<longrightarrow> q' ! j = q ! j) \<and> (case r of
      Go d \<Rightarrow> ds_inboxWritten s \<and> task_status q' i = JStr ''scheduled''
    | End d \<Rightarrow> d = LockLost \<and> (if ds_reservation s = None then q' = q \<and> \<not> ds_inboxWritten s else task_status q' i = JStr ''scheduled'')
    | Throw err \<Rightarrow> if ds_inboxWritten s then task_status q' i = JStr ''scheduled''
        else task_status q' i = JStr ''pending'' \<or> ((\<exists>e. fst (put_back clock c err s) = Inl e) \<and> q' = ds_queue s))"
proof -
  have "untouched q (start_state q w)" by (simp add: untouched_def start_state_def)
  from dispatch_ok [OF assms(1-3,5), of env clock, unfolded flow_ok_def, THEN spec, THEN mp, OF this]
  have ok: "case r of Go d \<Rightarrow> (\<exists>a. d = Dispatched a) \<and> handed_over q i s
    | End d \<Rightarrow> d = LockLost \<and> (untouched q s \<or> (\<exists>r. reserved_as q i r s))
    | Throw err \<Rightarrow> untouched q s \<or> (\<exists>r. reserved_as q i r s)"
    by (simp only: assms(6) prod.case)
  have held: "(if ds_reservation s = None then ds_queue s = q \<and> \<not> ds_inboxWritten s else task_status (ds_queue s) i = JStr ''scheduled'')
      \<and> (\<forall>j. j \<noteq> i \<longrightarrow> ds_queue s ! j = q ! j)"
    if "untouched q s \<or> (\<exists>r. reserved_as q i r s)"
    using that assms(2) by (auto simp: untouched_def reserved_as_def)
  show ?thesis
  proof (cases r)
    case (Go d)
    with assms(6) have "fst (snd (dispatch_one env clock c (q, w))) = ds_queue s" by (simp add: dispatch_one_def start_state_def)
    with ok Go assms(2) show ?thesis by (auto simp: handed_over_def)
  next
    case (End d)
    with assms(6) have "fst (snd (dispatch_one env clock c (q, w))) = ds_queue s" by (simp add: dispatch_one_def start_state_def)
    with ok End held show ?thesis by simp
  next
    case (Throw err)
    with assms(6) have q': "fst (snd (dispatch_one env clock c (q, w))) = snd (put_back clock c err s)"
      by (simp add: dispatch_one_def start_state_def dispatch_failed_def Let_def)
    from ok Throw have st: "untouched q s \<or> (\<exists>r. reserved_as q i r s)" by simp
    have "fld (q ! i) ''status'' = JStr ''pending''" using assms(4) by (simp add: task_status_def)
    from put_back_result [OF assms(1-3,5) st this, of clock err] show ?thesis
    proof cases
      case 1
      with held [OF st] q' Throw show ?thesis by (auto split: if_splits)
    next
      case (2 e)
      with q' Throw assms(2) show ?thesis by simp
    qed
  qed
qed

section \<open>The limits of the projects through a dispatch\<close>

text \<open>Queues that differ from another in one task only, which is still of the same kind.\<close>

definition near :: "js list \<Rightarrow> nat \<Rightarrow> js list \<Rightarrow> bool" where
  "near q i q1 = (wf_queue q1 \<and> (\<exists>e. q1 = q[i := e] \<and> identity e = identity (q ! i) \<and> isMutatingEntry e = isMutatingEntry (q ! i)))"

definition keeps_kind :: "js \<Rightarrow> bool \<Rightarrow> bool" where
  "keeps_kind patch m = (\<forall>now e. isMutatingEntry e = m \<longrightarrow> isMutatingEntry (patched now patch e) = m)"

lemma keeps_kind_metadata:
  assumes "distinct (map fst (own md))" "fld patch ''metadata'' = md"
    and "''mutating'' \<in> fst ` set (own md) \<Longrightarrow> (fld md ''mutating'' \<noteq> JBool False) = m"
  shows "keeps_kind patch m"
  unfolding keeps_kind_def
proof (intro allI impI)
  fix now e assume e: "isMutatingEntry e = m"
  show "isMutatingEntry (patched now patch e) = m"
  proof (cases "truthy md \<and> ''mutating'' \<in> fst ` set (own md)")
    case True
    then have "meta (patched now patch e) ''mutating'' = fld md ''mutating''"
      using fld_merge [OF assms(1), of "fld e ''metadata''" "''mutating''"] by (simp add: patched_fields assms(2))
    with True assms(3) show ?thesis by (simp add: isMutatingEntry_def)
  next
    case False
    then have "meta (patched now patch e) ''mutating'' = meta e ''mutating''"
      using fld_merge [OF assms(1), of "fld e ''metadata''" "''mutating''"] by (auto simp: patched_fields assms(2))
    with e show ?thesis by (simp add: isMutatingEntry_def)
  qed
qed

lemma near_update:
  assumes "near q i q1" "wf_queue q" "i < length q" "keeps_kind patch (isMutatingEntry (q ! i))"
    and "updateEntry now (entry_id (q ! i)) patch g q1 = (r, q2)"
  shows "near q i q2"
proof -
  from assms(1) obtain e where e: "q1 = q[i := e]" "identity e = identity (q ! i)" "isMutatingEntry e = isMutatingEntry (q ! i)" and wf1: "wf_queue q1"
    by (auto simp: near_def)
  have at: "q1 ! i = e" "i < length q1" using e(1) assms(3) by simp_all
  have "entry_id (q ! i) = entry_id (q1 ! i)" unfolding at entry_id_def by (simp only: same_identity(1) [OF e(2)])
  with assms(5) have "updateEntry now (entry_id (q1 ! i)) patch g q1 = (r, q2)" by simp
  from update_cases [OF this wf1 at(2)] show ?thesis
  proof cases
    case 3
    let ?e = "patched now patch e"
    have ident: "identity ?e = identity (q ! i)" using e(2) by (simp only: patched_keeps)
    have wf2: "wf_queue (q1[i := json_copy ?e])"
      by (rule wf_update [OF wf1 at(2)]) (simp_all only: patched_keeps at)
    have q2: "q2 = q1[i := json_copy ?e]" "q1[i := json_copy ?e] = q[i := json_copy ?e]" using 3(3) at e(1) by simp_all
    have "identity (json_copy ?e) = identity (q ! i)" by (rule identity_committed [OF assms(2) nth_mem [OF assms(3)] ident])
    moreover have "isMutatingEntry ?e = isMutatingEntry (q ! i)" using assms(4) e(3) by (simp add: keeps_kind_def)
    ultimately show ?thesis
      using wf2 unfolding near_def q2 by (intro conjI exI [of _ "json_copy ?e"]) simp_all
  qed (use assms(1) in simp_all)
qed

text \<open>Steps that keep a property of the state however they are left.\<close>

definition keeps :: "('s \<Rightarrow> bool) \<Rightarrow> ('s \<Rightarrow> 'a flow \<times> 's) \<Rightarrow> bool" where
  "keeps P f = (\<forall>s. P s \<longrightarrow> P (snd (f s)))"

lemma keeps_bind: "keeps P f \<Longrightarrow> (\<And>v. keeps P (g v)) \<Longrightarrow> keeps P (\<lambda>s. flow_bind (f s) g)"
proof -
  assume f: "keeps P f" and g: "\<And>v. keeps P (g v)"
  have "P (snd (flow_bind (f s) g))" if "P s" for s
  proof -
    obtain r s' where r: "f s = (r, s')" by (cases "f s")
    with f that have "P s'" unfolding keeps_def by (metis sndI)
    with g r show ?thesis by (cases r) (simp_all add: keeps_def)
  qed
  then show ?thesis by (simp add: keeps_def)
qed

lemma keeps_read: "(\<And>x. keeps P (h x)) \<Longrightarrow> keeps P (\<lambda>s. h (k s) s)"
  by (simp add: keeps_def)

lemma keeps_plain: "keeps P (\<lambda>s. (r, s))"
  by (simp add: keeps_def)

lemma keeps_if: "keeps P f \<Longrightarrow> keeps P g \<Longrightarrow> keeps P (\<lambda>s. if b then f s else g s)"
  by (cases b) simp_all

definition of_queue :: "(js list \<Rightarrow> bool) \<Rightarrow> 'w dispatch_state \<Rightarrow> bool" where
  "of_queue Q s = Q (ds_queue s)"

lemma of_queue_updates [simp]:
  "of_queue Q (s\<lparr>ds_world := w\<rparr>) = of_queue Q s" "of_queue Q (s\<lparr>ds_worker := k\<rparr>) = of_queue Q s"
  "of_queue Q (s\<lparr>ds_inboxWritten := b\<rparr>) = of_queue Q s" "of_queue Q (s\<lparr>ds_reservation := r\<rparr>) = of_queue Q s"
  "of_queue Q (s\<lparr>ds_queue := q\<rparr>) = Q q"
  by (simp_all add: of_queue_def)

lemma keeps_fence: "keeps (of_queue Q) (\<lambda>s. fence env (f s))" if "\<And>s. of_queue Q (f s) = of_queue Q s"
  using that by (simp add: keeps_def fence_def split: prod.splits)

lemma keeps_world: "keeps (of_queue Q) (on_world f)"
  by (simp add: keeps_def on_world_def split: prod.splits sum.splits)

lemma keeps_worker: "keeps (of_queue Q) (reserve_worker env worker assignment attempt)"
  unfolding reserve_worker_def by (intro keeps_bind [OF keeps_world]) (simp add: keeps_def)

lemma keeps_queue: "(\<And>q1 r q2. Q q1 \<Longrightarrow> f q1 = (r, q2) \<Longrightarrow> Q q2) \<Longrightarrow> keeps (of_queue Q) (on_queue f)"
  by (auto simp: keeps_def on_queue_def of_queue_def split: prod.splits sum.splits)

text \<open>A dispatch keeps what its three updates of the queue keep.\<close>

lemma dispatch_keeps:
  assumes "Q q" "\<And>m g q1 r q2 patch. Q q1 \<Longrightarrow> updateEntry m (entry_id c) patch g q1 = (r, q2)
       \<Longrightarrow> (\<exists>epoch. patch = reserve_patch clock epoch c) \<or> (\<exists>a b v. patch = JObj [(''status'', a), (''claimedBy'', b), (''claimedAt'', v)])
           \<or> (\<exists>inbox err. patch = failure_patch clock inbox err) \<Longrightarrow> Q q2"
  shows "Q (fst (snd (dispatch_one env clock c (q, w))))"
proof -
  have reserve: "keeps (of_queue Q) (reserve_entry clock epoch c)" for epoch
    unfolding reserve_entry_def by (intro keeps_bind keeps_queue) (use assms(2) in blast, simp add: keeps_def split: option.splits)
  have claim: "keeps (of_queue Q) (claim_for clock c worker r)" for worker r
    unfolding claim_for_def by (intro keeps_bind keeps_queue) (use assms(2) in blast, simp add: keeps_def)
  have tried: "keeps (of_queue Q) (dispatch_try env clock c)"
    unfolding dispatch_try_def Let_def
    by (intro keeps_bind keeps_fence keeps_world keeps_worker keeps_plain keeps_if reserve claim
          keeps_read [where k = "\<lambda>s. getEpoch env (ds_world s)"]) simp_all
  have failed: "of_queue Q s \<Longrightarrow> Q (snd (put_back clock c err s))" for s err
    using assms(2) unfolding put_back_def of_queue_def by (metis prod.collapse)
  obtain r s where run: "dispatch_try env clock c (start_state q w) = (r, s)" by (cases "dispatch_try env clock c (start_state q w)")
  have "of_queue Q (start_state q w)" using assms(1) by (simp add: of_queue_def start_state_def)
  with tried run have s: "of_queue Q s" by (metis keeps_def sndI)
  show ?thesis
    using run s failed [OF s] by (simp add: dispatch_one_def start_state_def dispatch_failed_def Let_def of_queue_def split: flow.splits)
qed

lemma dispatch_near:
  assumes "wf_queue q" "i < length q" "fld c ''id'' = fld (q ! i) ''id''" "isMutatingEntry c = isMutatingEntry (q ! i)"
    and "distinct (map fst (own (fld c ''metadata'')))"
  shows "near q i (fst (snd (dispatch_one env clock c (q, w))))"
proof (rule dispatch_keeps, goal_cases)
  case 1
  show ?case unfolding near_def using assms(1) by (auto intro: exI [of _ "q ! i"])
next
  case (2 m g q1 r q2 patch)
  have id: "entry_id c = entry_id (q ! i)" using assms(3) by (simp add: entry_id_def)
  have kind1: "keeps_kind (reserve_patch clock epoch c) (isMutatingEntry (q ! i))" for epoch
    by (rule keeps_kind_metadata [OF assms(5)]) (use assms(4) in \<open>simp_all add: reserve_patch_def isMutatingEntry_def\<close>)
  have kind2: "keeps_kind (JObj [(''status'', a), (''claimedBy'', b), (''claimedAt'', v)]) (isMutatingEntry (q ! i))" for a b v
    by (rule keeps_kind_metadata [where md = JUndef]) simp_all
  have kind3: "keeps_kind (failure_patch clock inbox err) (isMutatingEntry (q ! i))" for inbox err
    by (rule keeps_kind_metadata [where md = "JObj [(''dispatchFailure'', JObj [(''error'', error_message err), (''retryable'', JBool True),
          (''timestamp'', nowIso (clock Failing))])]"]) (simp_all add: failure_patch_def)
  from 2(3) kind1 kind2 kind3 have "keeps_kind patch (isMutatingEntry (q ! i))" by metis
  from near_update [OF 2(1) assms(1,2) this 2(2) [unfolded id]] show ?case .
qed

text \<open>So each dispatch raises the count of a project by at most one, and only for a task of the project.\<close>

lemma near_count:
  assumes "near q i q1" "i < length q"
  shows "active_mutating q1 p \<le> active_mutating q p + (if isMutatingEntry (q ! i) \<and> project_key (q ! i) = p then 1 else 0)"
proof -
  from assms(1) obtain e where e: "q1 = q[i := e]" "identity e = identity (q ! i)" "isMutatingEntry e = isMutatingEntry (q ! i)"
    by (auto simp: near_def)
  have key: "project_key e = project_key (q ! i)" by (rule identity_project_key [OF e(2)])
  let ?P = "\<lambda>e. isActiveEntry e \<and> isMutatingEntry e \<and> project_key e = p"
  have "length (filter ?P (q[i := e])) \<le> length (filter ?P q) + (if ?P e \<and> \<not> ?P (q ! i) then 1 else 0)"
    unfolding upd_conv_take_nth_drop [OF assms(2)] by (subst (3) id_take_nth_drop [OF assms(2)]) simp
  then show ?thesis unfolding active_mutating_def e(1) using e(3) key by (auto split: if_splits)
qed

lemma near_positions:
  assumes "near q i q1" "i < length q"
  shows "length q1 = length q" "wf_queue q1" "\<And>j. j < length q \<Longrightarrow> identity (q1 ! j) = identity (q ! j) \<and> isMutatingEntry (q1 ! j) = isMutatingEntry (q ! j)"
proof -
  from assms(1) obtain e where e: "q1 = q[i := e]" "identity e = identity (q ! i)" "isMutatingEntry e = isMutatingEntry (q ! i)"
    and wf: "wf_queue q1" by (auto simp: near_def)
  show "length q1 = length q" "wf_queue q1" using e wf by simp_all
  show "identity (q1 ! j) = identity (q ! j) \<and> isMutatingEntry (q1 ! j) = isMutatingEntry (q ! j)" if "j < length q" for j
    using e assms(2) that by (cases "j = i") simp_all
qed

lemma dispatch_all_count:
  assumes "wf_queue q" "length cs = length chosen"
    and "\<And>k. k < length chosen \<Longrightarrow> chosen ! k < length q \<and> identity (cs ! k) = identity (q ! (chosen ! k))
       \<and> isMutatingEntry (cs ! k) = isMutatingEntry (q ! (chosen ! k)) \<and> distinct (map fst (own (fld (cs ! k) ''metadata'')))"
  shows "active_mutating (fst (snd (dispatch_all env clock cs (q, w)))) p
     \<le> active_mutating q p + length (filter (\<lambda>c. isMutatingEntry c \<and> project_key c = p) cs)"
  using assms
proof (induction cs arbitrary: chosen q w)
  case (Cons c cs)
  then obtain i ps where chosen: "chosen = i # ps" by (cases chosen) simp_all
  have c: "i < length q" "identity c = identity (q ! i)" "isMutatingEntry c = isMutatingEntry (q ! i)" "distinct (map fst (own (fld c ''metadata'')))"
    using Cons.prems(3) [of 0] by (simp_all add: chosen)
  obtain d q1 w1 where run: "dispatch_one env (clock c) c (q, w) = (d, q1, w1)" by (metis prod.exhaust)
  with dispatch_near [OF Cons.prems(1) c(1) same_identity(1) [OF c(2)] c(3,4), of env "clock c" w] have near: "near q i q1" by simp
  note pos = near_positions [OF near c(1)]
  have "active_mutating q1 p \<le> active_mutating q p + (if isMutatingEntry c \<and> project_key c = p then 1 else 0)"
    using near_count [OF near c(1), of p] identity_project_key [OF c(2)] c(3) by simp
  moreover have "active_mutating (fst (snd (dispatch_all env clock cs (q1, w1)))) p
     \<le> active_mutating q1 p + length (filter (\<lambda>c. isMutatingEntry c \<and> project_key c = p) cs)"
  proof (rule Cons.IH [OF pos(2)])
    show "length cs = length ps" using Cons.prems(2) chosen by simp
    fix k assume "k < length ps"
    then show "ps ! k < length q1 \<and> identity (cs ! k) = identity (q1 ! (ps ! k))
       \<and> isMutatingEntry (cs ! k) = isMutatingEntry (q1 ! (ps ! k)) \<and> distinct (map fst (own (fld (cs ! k) ''metadata'')))"
      using Cons.prems(3) [of "Suc k"] pos(1,3) by (simp add: chosen)
  qed
  ultimately show ?case by (cases "dispatch_all env clock cs (q1, w1)") (auto simp: run split: if_splits)
qed simp

text \<open>C27: A tick keeps the limits of the projects: when the candidates of the scheduler have been dispatched,
  whatever the stores, the workers and the lock did, the tasks of a project that change code and are
  scheduled or running are at most its limit (or not more than before the tick).\<close>

theorem tick_within_limits:
  assumes "nextCandidates env clock batch q = (Inr cs, q1)" "wf_queue q" "\<forall>e\<in>set q. entry_ok e"
    and "sched_limit env q1 (JStr p) = Fin (of_nat n)" "0 < n" "\<forall>c\<in>set cs. is_str (fld c ''projectId'')"
  shows "active_mutating (fst (snd (dispatch_all denv dclock cs (q1, w)))) p \<le> max (active_mutating q1 p) n"
proof (rule candidate_positions [OF assms(1-3)], goal_cases)
  case (1 chosen)
  have "filter (\<lambda>c. isMutatingEntry c \<and> project_key c = p) cs = filter (\<lambda>c. isMutatingEntry c \<and> fld c ''projectId'' = JStr p) cs"
  proof (rule filter_cong [OF refl])
    fix c assume "c \<in> set cs"
    then obtain s where "fld c ''projectId'' = JStr s" using assms(6) by (cases "fld c ''projectId''") auto
    then show "(isMutatingEntry c \<and> project_key c = p) = (isMutatingEntry c \<and> fld c ''projectId'' = JStr p)" by (simp add: project_key_def)
  qed
  with dispatch_all_count [OF 1(3,1), of denv dclock w p] 1(5) 1(7) [OF assms(4,5)] show ?case by simp
qed

section \<open>The janitor\<close>

lemma not_scheduled_guard: "fld x ''status'' = JStr ''pending'' \<Longrightarrow> \<not> guard_holds (state_guard ''scheduled'' r) x"
  by (simp add: guard_holds_def state_guard_def js_includes_def or_else_def)

lemma unguarded: "guard_holds no_guard x"
  by (simp add: guard_holds_def no_guard_def)

text \<open>The alignment of the queue, which the janitor's timer runs beside the ticks, gives a reserved task
  whose assignment is not yet written back to the pending tasks, because its update has no guard. The tick
  that has reserved the task goes on, writes the worker's inbox, and only then fails to claim the task; its
  error path does not change the queue either, so the task stays pending although a worker was told.\<close>

theorem janitor_takes_reservation:
  assumes "wf_queue q" "i < length q" "reserved_as q i r s" "fld c ''id'' = fld (q ! i) ''id''"
    and "\<not> truthy (ae_getAssignment aenv (assignment_id (ds_queue s ! i)) w)"
    and "align_entry aenv aclock (ds_queue s ! i) (ds_queue s, w) = (Inr (), q1, w1)"
  shows "task_status q1 i = JStr ''pending''
    \<and> (let s1 = s\<lparr>ds_queue := q1, ds_inboxWritten := True\<rparr> in
         \<exists>err. fst (claim_for clock c worker r s1) = Throw err \<and> task_status (ds_queue (dispatch_failed env clock c err s1)) i = JStr ''pending'')"
proof -
  note q = reserved_queue [OF assms(1-3)]
  let ?patch = "JObj [(''status'', JStr ''pending''), (''claimedBy'', JNull), (''claimedAt'', JNull)]"
  obtain v where run: "updateEntry (aclock Align_commit) (entry_id (ds_queue s ! i)) ?patch no_guard (ds_queue s) = (Inr v, q1)"
    using assms(5,6) unfolding align_entry_def align_update_def Let_def if_P [OF assms(5)] fst_conv snd_conv
    by (cases "updateEntry (aclock Align_commit) (entry_id (ds_queue s ! i)) ?patch no_guard (ds_queue s)") (simp split: sum.splits)
  let ?e = "patched (aclock Align_commit) ?patch (ds_queue s ! i)"
  have q1: "q1 = (ds_queue s)[i := json_copy ?e]"
    by (rule update_cases [OF run q(1,2)]) (simp_all add: unguarded)
  have status: "fld (q1 ! i) ''status'' = JStr ''pending''" using q1 q(2) by (simp add: patched_fields)
  have wf1: "wf_queue q1" unfolding q1 by (rule wf_update [OF q(1,2)]) (simp_all only: patched_keeps)
  have len1: "i < length q1" using q1 q(2) by simp
  have "identity (json_copy ?e) = identity (ds_queue s ! i)"
    by (rule identity_committed [OF q(1) nth_mem [OF q(2)]]) (simp only: patched_keeps)
  from same_identity(1) [OF this] have "fld (q1 ! i) ''id'' = fld (ds_queue s ! i) ''id''" unfolding q1 nth_list_update_eq [OF q(2)] .
  then have "entry_id (q1 ! i) = entry_id (ds_queue s ! i)" by (simp only: entry_id_def)
  then have id1: "entry_id c = entry_id (q1 ! i)" unfolding q(3) using assms(4) by (simp only: entry_id_def)
  have refused: "r' \<noteq> Inr (Some y) \<and> q2 = q1"
    if "updateEntry now (entry_id c) patch (state_guard ''scheduled'' r) q1 = (r', q2)" for now patch r' q2 y
    by (rule update_cases [OF that [unfolded id1] wf1 len1]) (simp_all add: not_scheduled_guard [OF status])
  let ?s1 = "s\<lparr>ds_queue := q1, ds_inboxWritten := True\<rparr>"
  let ?claim = "JObj [(''status'', JStr ''scheduled''), (''claimedBy'', fld worker ''workerId''), (''claimedAt'', nowIso (clock Claiming))]"
  obtain r2 q2 where run2: "updateEntry (clock Claim_commit) (entry_id c) ?claim (state_guard ''scheduled'' r) q1 = (r2, q2)" by fastforce
  have "\<exists>err. fst (claim_for clock c worker r ?s1) = Throw err"
  proof (cases r2)
    case (Inr v2)
    then have "v2 = None" using refused [OF run2] by (cases v2) auto
    with run2 Inr show ?thesis by (simp add: claim_for_def on_queue_def)
  next
    case (Inl e2)
    with run2 show ?thesis by (simp add: claim_for_def on_queue_def)
  qed
  then obtain err where err: "fst (claim_for clock c worker r ?s1) = Throw err" ..
  have "ds_reservation s = Some r" using assms(3) by (simp add: reserved_as_def)
  then have "put_back clock c err ?s1 = updateEntry (clock Fail_commit) (entry_id c) (failure_patch clock True err) (state_guard ''scheduled'' r) q1"
    by (simp add: put_back_def failure_guard_def)
  with refused have "snd (put_back clock c err ?s1) = q1" by (metis prod.collapse)
  then have "ds_queue (dispatch_failed env clock c err ?s1) = q1" by (simp add: dispatch_failed_def Let_def)
  with err status show ?thesis by (auto simp: task_status_def Let_def)
qed

end
