(* ===== verification/SchedulerExamples.thy ===== *)
theory SchedulerExamples
  imports OrchestratorProperties HubExamples
begin

text \<open>
  Concrete runs of the scheduler and of the orchestrator on the queue of \<^verbatim>\<open>HubExamples\<close>, with a limit of one
  task per project, at which the properties of \<^verbatim>\<open>SchedulerProperties\<close> and \<^verbatim>\<open>OrchestratorProperties\<close> are applied.
\<close>

section \<open>The candidates\<close>

definition example_sched :: "(js list \<Rightarrow> js \<Rightarrow> js \<Rightarrow> js) option \<Rightarrow> sched_env" where
  "example_sched cap = \<lparr>se_hub = example_env, se_cpbRoot = JNull, se_maxActive = jnat 1, se_assignments = (\<lambda>_. JNull),
     se_capacity = cap, se_quotas = JNull\<rparr>"

lemma ex_pool: "preparePendingPool (example_sched cap) clock example_queue = (Inr example_queue, example_queue)"
  by (simp add: preparePendingPool_def recoverStaleInProgressAsync_def example_sched_def pool_updates_def
     example_queue_def example_task_def isActiveEntry_def List.map_filter_def)

lemma ex_due: "due_pending clock example_queue = [0, Suc 0]"
proof -
  have "[0..<length example_queue] = [0, Suc 0]" by (simp add: example_queue_def upt_rec)
  then show ?thesis
    by (simp add: due_pending_def filterByRetryDecisionDue_def filterDagReady_def parseRetryUntilMs_def)
       (simp add: example_queue_def example_task_def)
qed

lemma ex_sched_limit: "sched_limit (example_sched cap) example_queue (JStr ''p'') = Fin 1"
  by (simp add: sched_limit_def sched_hub_limit_def project_limit_def example_sched_def resolveProjectConcurrencyLimits_def
     resolveHubConcurrencyLimits_def claim_max_def
     DEFAULT_MAX_ACTIVE_PER_PROJECT_def example_env_def example_queue_def example_task_def uniq_def set_add_def
     or_else_def to_num_def positiveInt_def num_finite_def recordValue_def nullish_or_def maxActiveForProject_def Let_def
     readProjectConcurrencyConfig_def mergeProjectConfig_def hasConfig_def)

lemma ex_mode: "readSchedulerConfig (hubConfig (se_hub (example_sched cap))) \<noteq> JStr ''smart''"
  by (simp add: example_sched_def example_env_def readSchedulerConfig_def VALID_SCHEDULER_MODES_def js_includes_def)

definition ex_cap :: "(js list \<Rightarrow> js \<Rightarrow> js \<Rightarrow> js) option \<Rightarrow> bool" where
  \<comment> \<open>no capacity function, or that of the orchestrator\<close>
  "ex_cap cap = (cap = None \<or> cap = Some (providerCapacity example_env))"

lemma ex_provider_max: "acpProviderMax (resolveHubConcurrencyLimits example_env JUndef JUndef) = Fin (of_nat 3)"
  by (simp add: resolveHubConcurrencyLimits_def example_env_def DEFAULT_ACP_PROVIDER_MAX_def positiveInt_def nullish_or_def recordValue_def
    or_else_def to_num_def num_finite_def)

lemma ex_provider_idle: "provider_active example_queue k = 0"
  by (simp add: provider_active_def example_queue_def example_task_def isActiveEntry_def)

lemma ex_provided:
  "applyProviderCapacityGate (\<lambda>e. providerCapacity example_env example_queue (providerAgentForEntry e) e) None example_queue [Suc 0, 0] = [Suc 0, 0]"
proof -
  let ?cap = "\<lambda>e. providerCapacity example_env example_queue (providerAgentForEntry e) e"
  have "applyProviderCapacityGate ?cap None example_queue [Suc 0, 0] = capacity_loop ?cap None example_queue [Suc 0, 0] (\<lambda>_. 0) []"
    by (rule gate_is_loop) (simp add: providerCapacity_def Let_def)
  then show ?thesis by (simp add: fits_capacity [OF ex_provider_max agent_truthy] ex_provider_idle below_def)
qed

lemma ex_choose: "ex_cap cap \<Longrightarrow> choose_candidates (example_sched cap) clock None [0, Suc 0] example_queue example_queue = [example_task ''b'' ''1'']"
proof -
  assume cap: "ex_cap cap"
  let ?limit = "sched_limit (example_sched cap) example_queue"
  have first: "example_queue ! 0 = example_task ''a'' ''2''" by (simp add: example_queue_def)
  have kind: "isMutatingEntry (example_task i t)" "project_key (example_task i t) = ''p''" for i t
    by (simp_all add: isMutatingEntry_def project_key_def example_task_def)
  have fit: "filterByProjectCapacity example_queue (active_mutating example_queue) ?limit [0, Suc 0] = [0, Suc 0]"
    by (simp add: filterByProjectCapacity_def first ex_second ex_active ex_sched_limit reached_def num_le_def)
  have sort: "sort_key (\<lambda>i. (priorityScore (fld (example_queue ! i) ''priority''), created_at (example_queue ! i))) [0, Suc 0] = [Suc 0, 0]"
    by (simp add: example_queue_def example_task_def priorityScore_def created_at_def)
  have reserve: "reserveProjectCapacity example_queue (active_mutating example_queue) ?limit (\<lambda>_. 0) [Suc 0, 0] = [Suc 0]"
    by (simp add: first ex_second ex_active ex_sched_limit reached_def num_le_def kind)
  have "(case se_capacity (example_sched cap) of None \<Rightarrow> [Suc 0, 0]
      | Some f \<Rightarrow> applyProviderCapacityGate (\<lambda>e. f example_queue (providerAgentForEntry e) e) None example_queue [Suc 0, 0]) = [Suc 0, 0]"
    using cap ex_provided by (auto simp: ex_cap_def example_sched_def)
  with sort reserve show ?thesis
    unfolding choose_candidates_def Let_def fit if_not_P [OF ex_mode] by (simp only: prod.case slice_batch_def list.map ex_second option.case)
qed

lemma ex_candidates:
  assumes "ex_cap cap"
  shows "nextCandidates (example_sched cap) clock None example_queue = (Inr [example_task ''b'' ''1''], example_queue)"
proof -
  have "projectFn (se_hub (example_sched cap)) = None" by (simp add: example_sched_def example_env_def)
  then show ?thesis by (simp add: nextCandidates_def ex_pool ex_due applyProjectReadinessGate_def ex_choose [OF assms])
qed

lemmas ex_plain = ex_candidates [of None, unfolded ex_cap_def, simplified]
  and ex_capped = ex_candidates [of "Some (providerCapacity example_env)", unfolded ex_cap_def, simplified]

lemma ex_entries: "\<forall>e\<in>set example_queue. entry_ok e"
  by (simp add: example_queue_def example_task_def entry_ok_def)

lemma ex_no_wait: "task_due now example_queue (example_task i t)"
  by (simp add: task_due_def example_task_def parseRetryUntilMs_def)

section \<open>The properties at the example\<close>

lemma candidates_ready_witness:
  "distinct (map (\<lambda>c. fld c ''id'') [example_task ''b'' ''1'']) \<and> (\<exists>x\<in>set example_queue. fld x ''id'' = JStr ''b'' \<and> task_due 7 example_queue x)"
  using candidates_ready [OF ex_plain [where clock = "\<lambda>_. 7"] ex_wf ex_entries] by (auto simp: example_task_def)

lemma no_ready_task_passed_over_witness:
  "limit_used_up (example_sched (Some (providerCapacity example_env))) example_queue [example_task ''b'' ''1''] 1 (example_task ''a'' ''2'')"
proof -
  let ?env = "example_sched (Some (providerCapacity example_env))"
  have cap: "se_capacity ?env = Some (providerCapacity example_env)" by (simp add: example_sched_def)
  have "example_task ''a'' ''2'' \<in> set example_queue" by (simp add: example_queue_def)
  moreover have "fld (example_task ''a'' ''2'') ''id'' \<notin> (\<lambda>c. fld c ''id'') ` set [example_task ''b'' ''1'']" by (simp add: example_task_def)
  moreover have "sched_limit ?env example_queue (fld (example_task ''a'' ''2'') ''projectId'') = Fin (of_nat 1)"
    by (simp add: ex_second ex_sched_limit)
  moreover have "length (filter P example_queue) \<le> 2" for P by (simp add: example_queue_def)
  then have "\<not> provider_used_up ?env 7 example_queue 3 (example_task ''a'' ''2'')" unfolding provider_used_up_def ex_provider_idle by (simp add: not_le le_imp_less_Suc numeral_3_eq_3 numeral_2_eq_2)
  ultimately show ?thesis
    using no_ready_task_passed_over [OF ex_capped [where clock = "\<lambda>_. 7"] ex_wf ex_entries _ ex_provider_max _ ex_no_wait, of "''a''" "''2''" 1] cap
    by simp
qed

text \<open>A dispatch that succeeds: there is a project, a worker and an attempt.\<close>

definition example_handover :: "unit dispatch_env" where
  "example_handover = \<lparr>stillHeld = (\<lambda>w. (True, w)), stop_hub = (\<lambda>w. w), getEpoch = (\<lambda>_. jnat 1),
     getProject_w = (\<lambda>_ w. (Inr (JObj [(''projectRuntimeRoot'', JStr ''r'')]), w)),
     getOrCreateAssignmentForEntry = (\<lambda>_ w. (Inr (JObj [(''assignmentId'', JStr ''a-b'')]), w)),
     findIdleWorker = (\<lambda>_ w. (Inr JNull, w)), ensureWorkerFor = (\<lambda>_ _ w. (Inr (JObj [(''workerId'', JStr ''w'')]), w)),
     createAttempt = (\<lambda>_ _ w. (Inr (JObj [(''attempt'', jnat 1), (''attemptToken'', JStr ''t'')]), w)),
     updateWorkerIf = (\<lambda>_ _ _ w. (Inr (JBool True), w)), writeInbox = (\<lambda>_ _ w. (Inr JNull, w))\<rparr>"

definition example_reserved :: js where
  "example_reserved = patched 0 (reserve_patch (\<lambda>_. 0) (jnat 1) (example_task ''b'' ''1'')) (example_task ''b'' ''1'')"

definition example_claim :: js where
  "example_claim = JObj [(''status'', JStr ''scheduled''), (''claimedBy'', JStr ''w''), (''claimedAt'', nowIso 0)]"

lemma example_reserved_eq: "example_reserved = JObj [(''id'', JStr ''b''), (''projectId'', JStr ''p''), (''status'', JStr ''scheduled''),
    (''createdAt'', JStr ''1''), (''claimedBy'', JStr ''orchestrator:1''), (''claimedAt'', JStr ''1970-01-01T00:00:00.000Z''),
    (''updatedAt'', JStr ''1970-01-01T00:00:00.000Z'')]"
proof -
  have "to_str (jnat 1) = ''1''" by code_simp
  then show ?thesis
    by (simp add: example_reserved_def reserve_patch_def patched_def patch_field_def example_task_def set_fields_def spread_def obj_set_def nowIso_def iso_epoch)
qed

lemma example_claimed_eq: "patched 0 example_claim example_reserved = JObj [(''id'', JStr ''b''), (''projectId'', JStr ''p''), (''status'', JStr ''scheduled''),
    (''createdAt'', JStr ''1''), (''claimedBy'', JStr ''w''), (''claimedAt'', JStr ''1970-01-01T00:00:00.000Z''),
    (''updatedAt'', JStr ''1970-01-01T00:00:00.000Z'')]"
  by (simp add: example_claim_def patched_def patch_field_def example_reserved_eq set_fields_def spread_def obj_set_def nowIso_def iso_epoch)

lemma handover_texts:
  "\<exists>t. serializeQueue example_queue = Inr t" "\<exists>t. serializeQueue [example_task ''a'' ''2'', example_reserved] = Inr t"
  "\<exists>t. serializeQueue [example_task ''a'' ''2'', patched 0 example_claim example_reserved] = Inr t"
  unfolding example_queue_def example_claimed_eq unfolding example_reserved_eq
  by (simp_all add: serializeQueue_def QUEUE_MAX_BYTES_def example_task_def
     queue_json_def json_text_def QUEUE_VERSION_def json_string_def json_char_def Let_def dquote_def num_finite_def show_num_def show_rat_def
     show_int_def show_nat.simps)

lemma handover_update:
  assumes "fld e ''id'' = JStr ''b''" "guard_holds g e" "\<exists>t. serializeQueue [example_task ''a'' ''2'', e] = Inr t"
    "\<exists>t. serializeQueue [example_task ''a'' ''2'', patched 0 patch e] = Inr t" "isRecord (patched 0 patch e)" "json_copy (patched 0 patch e) = patched 0 patch e"
  shows "updateEntry 0 ''b'' patch g [example_task ''a'' ''2'', e] = (Inr (Some (patched 0 patch e)), [example_task ''a'' ''2'', patched 0 patch e])"
proof -
  have "entry_index ''b'' [example_task ''a'' ''2'', e] = Some 1" using assms(1) by (simp add: entry_index_def example_task_def)
  then have "update_entry 0 ''b'' patch g [example_task ''a'' ''2'', e] = Inr ([example_task ''a'' ''2'', patched 0 patch e], Some (patched 0 patch e))"
    using assms(2) by (simp add: update_entry_def)
  moreover have "json_copy (example_task ''a'' ''2'') = example_task ''a'' ''2''" "isRecord (example_task ''a'' ''2'')" by (simp_all add: example_task_def obj_get_def)
  ultimately show ?thesis
    using assms(3-6) by (auto simp: updateEntry_def withQueueMutation_def thn_def committed_queue committed_def)
qed

lemma handed_over_example:
  "dispatch_try example_handover (\<lambda>_. 0) (example_task ''b'' ''1'') (start_state example_queue ())
    = (Go (Dispatched (JStr ''a-b'')), \<lparr>ds_queue = [example_task ''a'' ''2'', patched 0 example_claim example_reserved], ds_world = (),
         ds_reservation = Some example_reserved, ds_inboxWritten = True, ds_worker = Some (JStr ''w'', JUndef, JStr ''a-b'', JStr ''t'')\<rparr>)"
proof -
  let ?b = "example_task ''b'' ''1''"
  have g: "guard_holds (state_guard ''pending'' ?b) ?b" "guard_holds (state_guard ''scheduled'' example_reserved) example_reserved"
    by (simp_all add: guard_holds_def state_guard_def example_task_def example_reserved_eq string_or_def js_includes_def or_else_def nullish_or_def)
  have b: "fld ?b ''id'' = JStr ''b''" "entry_id ?b = ''b''" "fld example_reserved ''id'' = JStr ''b''" "isRecord example_reserved"
    "json_copy example_reserved = example_reserved" "isRecord (patched 0 example_claim example_reserved)"
    "json_copy (patched 0 example_claim example_reserved) = patched 0 example_claim example_reserved"
    unfolding example_claimed_eq unfolding example_reserved_eq by (simp_all add: example_task_def entry_id_def obj_get_def)
  note texts = handover_texts [unfolded example_queue_def]
  have u1: "updateEntry 0 ''b'' (reserve_patch (\<lambda>_. 0) (jnat 1) ?b) (state_guard ''pending'' ?b) example_queue
      = (Inr (Some example_reserved), [example_task ''a'' ''2'', example_reserved])"
    unfolding example_queue_def example_reserved_def
    by (rule handover_update [OF b(1) g(1) texts(1)]) (fold example_reserved_def, simp_all only: texts b)
  have u2: "updateEntry 0 ''b'' example_claim (state_guard ''scheduled'' example_reserved) [example_task ''a'' ''2'', example_reserved]
      = (Inr (Some (patched 0 example_claim example_reserved)), [example_task ''a'' ''2'', patched 0 example_claim example_reserved])"
    by (rule handover_update [OF b(3) g(2) texts(2,3) b(6,7)])
  note env = example_handover_def fence_def on_world_def on_queue_def start_state_def
  have reserve: "reserve_entry (\<lambda>_. 0) (jnat 1) ?b s = (Go example_reserved, s\<lparr>ds_queue := [example_task ''a'' ''2'', example_reserved], ds_reservation := Some example_reserved\<rparr>)"
    if "ds_queue s = example_queue" for s :: "unit dispatch_state"
    using that u1 by (simp add: reserve_entry_def on_queue_def b(2))
  have claim: "claim_for (\<lambda>_. 0) ?b (JObj [(''workerId'', JStr ''w'')]) example_reserved s
      = (Go (), s\<lparr>ds_queue := [example_task ''a'' ''2'', patched 0 example_claim example_reserved]\<rparr>)"
    if "ds_queue s = [example_task ''a'' ''2'', example_reserved]" for s :: "unit dispatch_state"
    using that u2 by (simp add: claim_for_def on_queue_def b(2) example_claim_def)
  show ?thesis
    unfolding dispatch_try_def Let_def
    by (simp add: env reserve [unfolded of_nat_1] claim reserve_worker_def string_or_def)
qed

lemma dispatch_keeps_task_witness:
  "let q' = fst (snd (dispatch_one example_handover (\<lambda>_. 0) (example_task ''b'' ''1'') (example_queue, ())))
   in q' ! 0 = example_task ''a'' ''2'' \<and> task_status example_queue 1 = JStr ''pending'' \<and> task_status q' 1 = JStr ''scheduled''"
proof -
  have "guard_holds (state_guard ''pending'' (example_task ''b'' ''1'')) (example_task ''b'' ''1'')"
    by (simp add: guard_holds_def state_guard_def example_task_def string_or_def js_includes_def or_else_def nullish_or_def)
  moreover have pending: "task_status example_queue 1 = JStr ''pending''" by (simp add: task_status_def ex_second) (simp add: example_task_def)
  ultimately show ?thesis
    using dispatch_keeps_task [OF ex_wf _ _ _ _ handed_over_example, of 1] pending by (simp add: ex_second Let_def) (simp add: example_queue_def)
qed

lemma tick_within_limits_witness:
  "active_mutating (fst (snd (dispatch_all example_handover (\<lambda>_ _. 0) [example_task ''b'' ''1''] (example_queue, ())))) ''p'' \<le> 1"
  using tick_within_limits [OF ex_plain [where clock = "\<lambda>_. 7"] ex_wf ex_entries, of "''p''" 1 example_handover "\<lambda>_ _. 0" "()"]
  by (simp add: ex_sched_limit ex_active ex_second)

lemma batch_within_providers_witness:
  "\<exists>cs. nextCandidates (example_sched (Some (providerCapacity example_env))) (\<lambda>_. 7) None example_queue = (Inr cs, example_queue)
     \<and> length (filter (\<lambda>c. providerAgentForEntry c = JStr ''claude'') cs) \<le> 3"
proof -
  let ?env = "example_sched (Some (providerCapacity example_env))"
  have parts: "se_capacity ?env = Some (providerCapacity example_env)" "projectFn (se_hub ?env) = None"
    by (simp_all add: example_sched_def example_env_def)
  note max = ex_provider_max
  obtain cs where run: "nextCandidates ?env (\<lambda>_. 7) None example_queue = (Inr cs, example_queue)"
    by (simp add: nextCandidates_def ex_pool applyProjectReadinessGate_def parts(2))
  have "provider_active example_queue (JStr ''claude'') = 0"
    by (simp add: provider_active_def example_queue_def example_task_def isActiveEntry_def)
  with batch_within_providers [OF run ex_wf ex_entries parts(1) max, of "JStr ''claude''"] run show ?thesis by auto
qed

definition example_reservation :: js where
  "example_reservation = JObj [(''id'', JStr ''b''), (''projectId'', JStr ''p''), (''status'', JStr ''scheduled''), (''createdAt'', JStr ''1''),
     (''updatedAt'', JStr ''3'')]"

definition example_align :: "unit align_env" where
  \<comment> \<open>no assignment is written yet\<close>
  "example_align = \<lparr>ae_getAssignment = (\<lambda>_ _. JNull), ae_getWorker = (\<lambda>_ _. JNull), ae_hostname = JNull, isProcessIdentityAlive = (\<lambda>_ _. False),
     sameProcessIdentity = (\<lambda>_ _. False), ae_writeSyntheticFailure = (\<lambda>_ _ _ w. (Inr (), w)), ae_updateWorkerIf = (\<lambda>_ _ _ w. (Inr (), w))\<rparr>"

definition reserved_queue_example :: "js list" where
  "reserved_queue_example = [example_task ''a'' ''2'', example_reservation]"

definition example_reoffered :: js where
  "example_reoffered = patched 0 (JObj [(''status'', JStr ''pending''), (''claimedBy'', JNull), (''claimedAt'', JNull)]) example_reservation"

lemma example_reoffered_eq: "example_reoffered = JObj [(''id'', JStr ''b''), (''projectId'', JStr ''p''), (''status'', JStr ''pending''),
    (''createdAt'', JStr ''1''), (''updatedAt'', JStr ''1970-01-01T00:00:00.000Z''), (''claimedBy'', JNull), (''claimedAt'', JNull), (''workerId'', JNull)]"
  by (simp add: example_reoffered_def patched_def patch_field_def example_reservation_def set_fields_def spread_def obj_set_def clearClaim_def
    nowIso_def iso_epoch)

lemma serialized_examples:
  "\<exists>t. serializeQueue reserved_queue_example = Inr t" "\<exists>t. serializeQueue [example_task ''a'' ''2'', example_reoffered] = Inr t"
  by (simp_all add: serializeQueue_def QUEUE_MAX_BYTES_def reserved_queue_example_def example_reservation_def example_reoffered_eq example_task_def
     queue_json_def json_text_def QUEUE_VERSION_def json_string_def json_char_def Let_def dquote_def num_finite_def show_num_def show_rat_def
     show_int_def show_nat.simps)

lemma example_aligned:
  "align_entry example_align (\<lambda>_. 0) example_reservation (reserved_queue_example, ()) =
     (Inr (), committed [example_task ''a'' ''2'', example_reoffered], ())"
proof -
  let ?patch = "JObj [(''status'', JStr ''pending''), (''claimedBy'', JNull), (''claimedAt'', JNull)]"
  have at: "entry_index ''b'' reserved_queue_example = Some 1" "reserved_queue_example ! 1 = example_reservation"
    "reserved_queue_example[1 := x] = [example_task ''a'' ''2'', x]" for x
    by (simp_all add: entry_index_def reserved_queue_example_def example_task_def example_reservation_def)
  have "update_entry 0 ''b'' ?patch no_guard reserved_queue_example = Inr ([example_task ''a'' ''2'', example_reoffered], Some example_reoffered)"
    by (simp only: update_entry_def at unguarded option.case not_True_eq_False if_False example_reoffered_def)
  moreover have "list_all isRecord [example_task ''a'' ''2'', example_reoffered]" by (simp add: example_task_def example_reoffered_eq)
  moreover have "entry_id example_reservation = ''b''" by (simp add: entry_id_def example_reservation_def)
  ultimately show ?thesis
    using serialized_examples by (auto simp: align_entry_def align_update_def example_align_def updateEntry_def withQueueMutation_def thn_def committed_queue)
qed

lemma janitor_takes_reservation_witness:
  "task_status (committed [example_task ''a'' ''2'', example_reoffered]) 1 = JStr ''pending''"
proof -
  let ?s = "(start_state reserved_queue_example ())\<lparr>ds_reservation := Some example_reservation\<rparr>"
  have parts: "ds_queue ?s = reserved_queue_example" "reserved_queue_example ! 1 = example_reservation" "1 < length example_queue"
    by (simp_all add: start_state_def reserved_queue_example_def example_queue_def)
  have "json_copy example_reservation = example_reservation" by (simp add: example_reservation_def obj_get_def)
  moreover have "identity example_reservation = identity (example_queue ! 1)"
    by (simp add: ex_second identity_def identity_fields_def) (simp add: example_reservation_def example_task_def)
  ultimately have r: "reserved_as example_queue 1 example_reservation ?s"
    by (simp add: reserved_as_def start_state_def reserved_queue_example_def example_queue_def) (simp add: example_reservation_def)
  have i: "fld (example_task ''b'' ''1'') ''id'' = fld (example_queue ! 1) ''id''" by (simp add: ex_second)
  have n: "\<not> truthy (ae_getAssignment example_align (assignment_id (ds_queue ?s ! 1)) ())" by (simp add: example_align_def)
  have a: "align_entry example_align (\<lambda>_. 0) (ds_queue ?s ! 1) (ds_queue ?s, ())
     = (Inr (), committed [example_task ''a'' ''2'', example_reoffered], ())" unfolding parts by (rule example_aligned)
  show ?thesis using janitor_takes_reservation [OF ex_wf parts(3) r i n a] by (rule conjunct1)
qed

end
