(* ===== verification/AssignmentStore.thy ===== *)
theory AssignmentStore
  imports Orchestrator JsonText ChecklistSound
begin

text \<open>
  The store of assignments (\<^verbatim>\<open>shared/orchestrator/assignment-store.ts\<close>): the documents of one
  assignment in its directory, and the operations on them.

  The state is the files of the directory. An operation is a program (\<open>'a prog\<close>) that gives, for the
  files it finds, the writes it makes, in their order, and its result; each single write is atomic, as
  the code renames a complete temporary file. A crash after some of the writes leaves the files with
  these writes only. Operations on one assignment exclude each other by the lock of its directory, which
  is not modelled; neither are signals, deadlines and links. Times and random tokens are parameters, and
  errors are told apart by their codes.
\<close>

section \<open>The files of an assignment\<close>

datatype store_error = StaleAttempt string | DocumentInvalid string | LockConflict string | CompensationConflict string
  | JsonInvalid string | NoCode string | WriteFault | Aggregate "store_error list"

datatype doc_file = Absent | Malformed | Doc js

datatype place = Input | State | Owner | Mutation | Wal
  | Attempt string | Heartbeat string | Result string | Cancel string
    \<comment> \<open>in \<^verbatim>\<open>attempts/<name>\<close>\<close>

record store_files =
  docs :: "place \<Rightarrow> doc_file"
  listing :: "(string \<times> bool) list"
    \<comment> \<open>the entries of \<^verbatim>\<open>attempts\<close>, and whether they are directories\<close>

fun attempt_of :: "place \<Rightarrow> string option" where
  "attempt_of (Attempt n) = Some n"
| "attempt_of (Heartbeat n) = Some n"
| "attempt_of (Result n) = Some n"
| "attempt_of (Cancel n) = Some n"
| "attempt_of _ = None"

datatype store_write = Put place js | Erase place | Mkdir string
  | Isolate string string
    \<comment> \<open>rename \<^verbatim>\<open>attempts/<name>\<close> to its quarantine, with the random part of the new name\<close>
  | Isolate_all

definition list_entry :: "string \<Rightarrow> (string \<times> bool) list \<Rightarrow> (string \<times> bool) list" where
  "list_entry n es = (if n \<in> fst ` set es then es else es @ [(n, True)])"

definition quarantine_name :: "string \<Rightarrow> string \<Rightarrow> string" where
  "quarantine_name n stamp = ''.'' @ n @ ''.remove-'' @ stamp"

fun apply_write :: "store_write \<Rightarrow> store_files \<Rightarrow> store_files" where
  "apply_write (Put p v) fs = fs\<lparr>docs := (docs fs)(p := Doc (json_copy v)),
     listing := (case attempt_of p of None \<Rightarrow> listing fs | Some n \<Rightarrow> list_entry n (listing fs))\<rparr>"
| "apply_write (Erase p) fs = fs\<lparr>docs := (docs fs)(p := Absent)\<rparr>"
| "apply_write (Mkdir n) fs = fs\<lparr>listing := list_entry n (listing fs)\<rparr>"
| "apply_write (Isolate n stamp) fs = fs\<lparr>docs := (\<lambda>p. if attempt_of p = Some n then Absent else docs fs p),
     listing := map (\<lambda>e. if fst e = n then (quarantine_name n stamp, snd e) else e) (listing fs)\<rparr>"
| "apply_write Isolate_all fs = fs\<lparr>docs := (\<lambda>p. if attempt_of p \<noteq> None then Absent else docs fs p), listing := []\<rparr>"

definition apply_writes :: "store_write list \<Rightarrow> store_files \<Rightarrow> store_files" where
  "apply_writes ws fs = fold apply_write ws fs"

lemma apply_writes_simps [simp]:
  "apply_writes [] fs = fs" "apply_writes (w # ws) fs = apply_writes ws (apply_write w fs)"
  "apply_writes (ws @ ws') fs = apply_writes ws' (apply_writes ws fs)"
  by (simp_all add: apply_writes_def)

section \<open>Programs\<close>

type_synonym 'a prog = "store_files \<Rightarrow> store_write list \<times> (store_error + 'a)"

definition give :: "'a \<Rightarrow> 'a prog" where
  "give v fs = ([], Inr v)"

definition fail_with :: "store_error \<Rightarrow> 'a prog" where
  "fail_with e fs = ([], Inl e)"

definition look :: "(store_files \<Rightarrow> store_error + 'a) \<Rightarrow> 'a prog" where
  "look f fs = ([], f fs)"

definition emit :: "store_write \<Rightarrow> unit prog" where
  "emit w fs = ([w], Inr ())"

definition and_then :: "'a prog \<Rightarrow> ('a \<Rightarrow> 'b prog) \<Rightarrow> 'b prog" where
  "and_then p f fs = (case p fs of (ws, Inl e) \<Rightarrow> (ws, Inl e)
     | (ws, Inr v) \<Rightarrow> (case f v (apply_writes ws fs) of (ws', r) \<Rightarrow> (ws @ ws', r)))"

definition run_prog :: "'a prog \<Rightarrow> store_files \<Rightarrow> (store_error + 'a) \<times> store_files" where
  "run_prog p fs = (case p fs of (ws, r) \<Rightarrow> (r, apply_writes ws fs))"

lemma and_then_give [simp]: "and_then (give v) f = f v"
  and and_then_fail [simp]: "and_then (fail_with e) f' = fail_with e"
  and and_then_emit [simp]: "and_then (emit w) f1 fs = (w # fst (f1 () (apply_write w fs)), snd (f1 () (apply_write w fs)))"
  and and_then_look [simp]: "and_then (look g) f2 fs = (case g fs of Inl e \<Rightarrow> ([], Inl e) | Inr v \<Rightarrow> f2 v fs)"
  by (simp_all add: and_then_def give_def fail_with_def emit_def look_def fun_eq_iff split: prod.splits sum.splits)

lemma run_prog_simps [simp]:
  "run_prog (give v) fs = (Inr v, fs)" "run_prog (fail_with e) fs = (Inl e, fs)"
  "run_prog (emit w) fs = (Inr (), apply_write w fs)" "run_prog (look g) fs = (g fs, fs)"
  "run_prog (and_then p f) fs = (case run_prog p fs of (Inl e, fs') \<Rightarrow> (Inl e, fs') | (Inr v, fs') \<Rightarrow> run_prog (f v) fs')"
  by (simp_all add: run_prog_def give_def fail_with_def emit_def look_def and_then_def split: prod.splits sum.splits)

text \<open>The files after a crash somewhere in a program.\<close>

definition crash_states :: "'a prog \<Rightarrow> store_files \<Rightarrow> store_files set" where
  "crash_states p fs = {apply_writes (take k (fst (p fs))) fs |k. k \<le> length (fst (p fs))}"

section \<open>Values\<close>

definition padStart3 :: "string \<Rightarrow> string" where
  "padStart3 s = replicate (3 - length s) (CHR ''0'') @ s"

definition attempt_name :: "jsnum \<Rightarrow> string" where
  "attempt_name n = padStart3 (show_num n)"

definition TERMINAL_ASSIGNMENT_STATUSES :: "string list" where
  "TERMINAL_ASSIGNMENT_STATUSES = [''completed'', ''failed'', ''cancelled'', ''blocked'']"

definition terminal_status :: "js \<Rightarrow> bool" where
  \<comment> \<open>\<^verbatim>\<open>TERMINAL_ASSIGNMENT_STATUSES.has(String(status || ""))\<close>\<close>
  "terminal_status v = (to_str (or_else v (JStr [])) \<in> set TERMINAL_ASSIGNMENT_STATUSES)"

definition terminalStatusFromResult :: "js \<Rightarrow> js" where
  "terminalStatusFromResult v =
     (if v = JStr ''completed'' \<or> v = JStr ''cancelled'' \<or> v = JStr ''blocked'' then v else JStr ''failed'')"

definition LOCAL_ASSIGNMENT_JSON_MAX_BYTES :: nat where
  "LOCAL_ASSIGNMENT_JSON_MAX_BYTES = 1024 * 1024"

definition fits_limit :: "js \<Rightarrow> bool" where
  \<comment> \<open>the text that is written for a record can be read again\<close>
  "fits_limit v = (length (case pretty 0 v of None \<Rightarrow> ''undefined'' | Some t \<Rightarrow> t) < LOCAL_ASSIGNMENT_JSON_MAX_BYTES)"

function stableJsonForReceipt :: "js \<Rightarrow> string" where
  \<comment> \<open>joining an array shows undefined as nothing\<close>
  "stableJsonForReceipt (JArr xs) = ''['' @ join '','' (map (\<lambda>x. if x = JUndef then [] else stableJsonForReceipt x) xs) @ '']''"
| "stableJsonForReceipt (JObj kvs) =
     ''{'' @ join '','' (map (\<lambda>kv. json_string (fst kv) @ '':'' @ stableJsonForReceipt (snd kv)) (sort_key fst kvs)) @ ''}''"
| "stableJsonForReceipt JUndef = ''undefined''"
| "stableJsonForReceipt JNull = ''null''"
| "stableJsonForReceipt (JBool b) = json_text (JBool b)"
| "stableJsonForReceipt (JNum n) = json_text (JNum n)"
| "stableJsonForReceipt (JStr s) = json_text (JStr s)"
  by pat_completeness auto
termination
proof (relation "measure size", goal_cases)
  case (3 kvs kv)
  then have "kv \<in> set kvs" by simp
  then have "size (snd kv) \<le> size_list (size_prod (\<lambda>_. 0) size) kvs"
    by (rule size_list_estimation') (cases kv, simp)
  then show ?case by (simp add: less_Suc_eq_le)
qed (auto simp: less_Suc_eq_le size_list_estimation')

definition receiptDeepEqual :: "js \<Rightarrow> js \<Rightarrow> bool" where
  "receiptDeepEqual a b = (stableJsonForReceipt a = stableJsonForReceipt b)"

section \<open>Reading documents\<close>

definition readLocalJsonObject :: "place \<Rightarrow> string \<Rightarrow> store_files \<Rightarrow> store_error + js option" where
  "readLocalJsonObject p label fs =
     (case docs fs p of Absent \<Rightarrow> Inr None
      | Malformed \<Rightarrow> Inl (DocumentInvalid (label @ '' JSON is malformed''))
      | Doc v \<Rightarrow> if \<not> fits_limit v then Inl (DocumentInvalid (label @ '' is not a safe bounded regular file''))
          else if \<not> isRecord v then Inl (DocumentInvalid (label @ '' is not a JSON object'')) else Inr (Some v))"

definition readStateFile :: "store_files \<Rightarrow> store_error + js option" where
  "readStateFile = readLocalJsonObject State ''assignment state''"

definition attempt_label :: "string \<Rightarrow> string" where
  "attempt_label name = ''assignment attempt '' @ name"

definition readAttempt :: "string \<Rightarrow> jsnum \<Rightarrow> store_files \<Rightarrow> store_error + js" where
  "readAttempt assignmentId n fs =
     thn (readLocalJsonObject (Attempt (attempt_name n)) (attempt_label (attempt_name n)) fs) (\<lambda>a. case a of
        None \<Rightarrow> Inl (NoCode (''assignment attempt not found: '' @ assignmentId @ '' attempt '' @ show_num n))
      | Some v \<Rightarrow> Inr v)"

definition stale_attempt :: "string \<Rightarrow> jsnum \<Rightarrow> string \<Rightarrow> store_error" where
  "stale_attempt assignmentId n detail =
     StaleAttempt (''stale attempt '' @ assignmentId @ '' attempt '' @ show_num n @ '': '' @ detail)"

definition loadActiveAttempt :: "string \<Rightarrow> jsnum \<Rightarrow> store_files \<Rightarrow> store_error + (js \<times> js)" where
  "loadActiveAttempt assignmentId n fs =
     thn (readStateFile fs) (\<lambda>s. case s of
        None \<Rightarrow> Inl (NoCode (''assignment not found: '' @ assignmentId))
      | Some state \<Rightarrow>
          let active = to_num (fld state ''activeAttempt'') in
          if \<not> num_integer active \<or> active \<noteq> n
          then Inl (stale_attempt assignmentId n (''active attempt is '' @ to_str (nullish_or (fld state ''activeAttempt'') (JStr ''none''))))
          else thn (readAttempt assignmentId n fs) (\<lambda>attempt.
            if fld attempt ''assignmentId'' \<noteq> JStr assignmentId \<or> fld attempt ''attempt'' \<noteq> JNum n
            then Inl (stale_attempt assignmentId n ''attempt record identity mismatch'') else Inr (state, attempt)))"

definition validateAttemptIdentity :: "string \<Rightarrow> jsnum \<Rightarrow> js \<Rightarrow> js \<Rightarrow> bool \<Rightarrow> store_error + unit" where
  "validateAttemptIdentity assignmentId n attempt identity full =
     (let missing_error = (\<lambda>what. NoCode (''missing '' @ what @ '' for '' @ assignmentId @ '' attempt '' @ show_num n));
          epoch = fld attempt ''orchestratorEpoch''; epoch' = fld identity ''orchestratorEpoch''
      in if full \<and> fld identity ''assignmentId'' = JUndef then Inl (missing_error ''assignment identity'')
         else if fld identity ''assignmentId'' \<noteq> JUndef \<and> fld identity ''assignmentId'' \<noteq> JStr assignmentId
         then Inl (stale_attempt assignmentId n (''assignment identity mismatch: '' @ to_str (fld identity ''assignmentId'')))
         else if full \<and> fld identity ''attempt'' = JUndef then Inl (missing_error ''attempt identity'')
         else if fld identity ''attempt'' \<noteq> JUndef \<and> to_num (fld identity ''attempt'') \<noteq> n
         then Inl (stale_attempt assignmentId n (''attempt identity mismatch: '' @ to_str (fld identity ''attempt'')))
         else if full \<and> fld identity ''attemptToken'' = JUndef then Inl (missing_error ''attempt token'')
         else if fld identity ''attemptToken'' \<noteq> JUndef \<and> \<not> strict_eq (fld identity ''attemptToken'') (fld attempt ''attemptToken'')
         then Inl (NoCode (''attempt token mismatch for '' @ assignmentId @ '' attempt '' @ show_num n))
         else if epoch = JUndef then Inr ()
         else if full \<and> epoch' = JUndef then Inl (missing_error ''orchestrator epoch'')
         else if epoch' \<noteq> JUndef \<and> \<not> strict_eq (JNum (to_num epoch')) epoch
         then Inl (stale_attempt assignmentId n (''orchestrator epoch mismatch: expected '' @ to_str epoch @ '', received '' @ to_str epoch'))
         else Inr ())"

section \<open>The write-ahead log of a completion\<close>

definition COMPLETION_WAL_SCHEMA_VERSION :: js where
  "COMPLETION_WAL_SCHEMA_VERSION = jnat 1"

definition pending_record :: "string \<Rightarrow> jsnum \<Rightarrow> js \<Rightarrow> js \<Rightarrow> js \<Rightarrow> js" where
  "pending_record assignmentId n token state attempt =
     JObj [(''schemaVersion'', COMPLETION_WAL_SCHEMA_VERSION), (''assignmentId'', JStr assignmentId), (''attemptNum'', JNum n),
       (''attemptToken'', token), (''state'', state), (''attemptRecord'', attempt)]"

definition invalid_pending :: "string \<Rightarrow> js \<Rightarrow> bool" where
  "invalid_pending assignmentId p =
     (let state = recordValue (fld p ''state''); a = recordValue (fld p ''attemptRecord''); n = to_num (fld p ''attemptNum'');
          token = (if is_str (fld p ''attemptToken'') then fld p ''attemptToken'' else JStr [])
      in \<not> strict_eq (fld p ''schemaVersion'') COMPLETION_WAL_SCHEMA_VERSION \<or> fld p ''assignmentId'' \<noteq> JStr assignmentId
         \<or> \<not> safe_integer n \<or> num_lt n (Fin 1) \<or> token = JStr []
         \<or> fld state ''assignmentId'' \<noteq> JStr assignmentId \<or> to_num (fld state ''activeAttempt'') \<noteq> n
         \<or> fld a ''assignmentId'' \<noteq> JStr assignmentId \<or> to_num (fld a ''attempt'') \<noteq> n \<or> fld a ''attemptToken'' \<noteq> token
         \<or> \<not> terminal_status (fld state ''status'') \<or> \<not> terminal_status (fld a ''status''))"

definition readPendingCompletion :: "string \<Rightarrow> store_files \<Rightarrow> store_error + js option" where
  "readPendingCompletion assignmentId fs =
     thn (readLocalJsonObject Wal ''assignment completion WAL'' fs) (\<lambda>r. case r of None \<Rightarrow> Inr None
      | Some p \<Rightarrow> if invalid_pending assignmentId p then Inl (DocumentInvalid (''assignment completion WAL is invalid: '' @ assignmentId))
          else Inr (Some (pending_record assignmentId (to_num (fld p ''attemptNum'')) (fld p ''attemptToken'')
                 (recordValue (fld p ''state'')) (recordValue (fld p ''attemptRecord'')))))"

definition pending_matches :: "string \<Rightarrow> js \<Rightarrow> js option \<Rightarrow> js option \<Rightarrow> bool" where
  "pending_matches assignmentId p state current =
     ((case state of None \<Rightarrow> True | Some s \<Rightarrow> (fld s ''assignmentId'' = JUndef \<or> fld s ''assignmentId'' = JStr assignmentId)
         \<and> to_num (fld s ''activeAttempt'') = to_num (fld p ''attemptNum''))
      \<and> (case current of None \<Rightarrow> True | Some a \<Rightarrow> fld a ''assignmentId'' = JStr assignmentId
         \<and> to_num (fld a ''attempt'') = to_num (fld p ''attemptNum'') \<and> strict_eq (fld a ''attemptToken'') (fld p ''attemptToken'')))"

definition same_document :: "js option \<Rightarrow> js \<Rightarrow> bool" where
  "same_document current v = (case current of None \<Rightarrow> False | Some w \<Rightarrow> receiptDeepEqual w v)"

definition only_if :: "bool \<Rightarrow> unit prog \<Rightarrow> unit prog" where
  "only_if b p = (if b then p else give ())"

definition recoverPendingCompletionUnderLock :: "string \<Rightarrow> bool prog" where
  "recoverPendingCompletionUnderLock assignmentId =
     and_then (look (readPendingCompletion assignmentId)) (\<lambda>pending. case pending of None \<Rightarrow> give False
      | Some p \<Rightarrow>
          let name = attempt_name (to_num (fld p ''attemptNum'')) in
          and_then (look readStateFile) (\<lambda>state.
          and_then (look (readLocalJsonObject (Attempt name) (attempt_label name))) (\<lambda>current.
          if \<not> pending_matches assignmentId p state current
          then fail_with (LockConflict (''assignment completion WAL no longer matches active assignment: '' @ assignmentId
                 @ '' attempt '' @ show_num (to_num (fld p ''attemptNum''))))
          else let state_done = same_document state (fld p ''state''); attempt_done = same_document current (fld p ''attemptRecord'') in
            and_then (only_if (\<not> (state_done \<and> attempt_done)) (emit (Mkdir name))) (\<lambda>_.
            and_then (only_if (\<not> attempt_done) (emit (Put (Attempt name) (fld p ''attemptRecord'')))) (\<lambda>_.
            and_then (only_if (\<not> state_done) (emit (Put State (fld p ''state'')))) (\<lambda>_.
            and_then (emit (Erase Wal)) (\<lambda>_. give True)))))))"

section \<open>The lock\<close>

record lock_call =
  lc_writable :: bool
    \<comment> \<open>\<^verbatim>\<open>assertHubWritable\<close> succeeds\<close>
  lc_token :: string
  lc_pid :: js
  lc_host :: js
  lc_processIdentity :: js
  lc_clock :: "string \<Rightarrow> nat"
    \<comment> \<open>the time that is written to a field\<close>

definition stamp :: "lock_call \<Rightarrow> string \<Rightarrow> js" where
  "stamp call field = nowIso (lc_clock call field)"

definition ASSIGNMENT_OWNER_SCHEMA_VERSION :: js where
  "ASSIGNMENT_OWNER_SCHEMA_VERSION = jnat 2"

definition mutation_owner :: "lock_call \<Rightarrow> string \<Rightarrow> js" where
  "mutation_owner call assignmentId = JObj [(''schemaVersion'', ASSIGNMENT_OWNER_SCHEMA_VERSION), (''assignmentId'', JStr assignmentId),
     (''ownerToken'', JStr (lc_token call)), (''pid'', lc_pid call), (''host'', lc_host call), (''acquiredAt'', stamp call ''acquiredAt''),
     (''processIdentity'', lc_processIdentity call)]"

definition withAssignmentLock :: "lock_call \<Rightarrow> bool \<Rightarrow> string \<Rightarrow> (js \<Rightarrow> 'a prog) \<Rightarrow> 'a prog" where
  \<comment> \<open>the callback is given the token of the mutation before\<close>
  "withAssignmentLock call recover assignmentId callback =
     (if \<not> lc_writable call then fail_with (NoCode ''Hub is not writable'')
      else and_then (look (readLocalJsonObject Mutation ''assignment mutation owner'')) (\<lambda>predecessor.
           and_then (emit (Put Mutation (mutation_owner call assignmentId))) (\<lambda>_.
           and_then (if recover then and_then (recoverPendingCompletionUnderLock assignmentId) (\<lambda>_. give ()) else give ()) (\<lambda>_.
             callback (let t = (case predecessor of None \<Rightarrow> JUndef | Some o' \<Rightarrow> fld o' ''ownerToken'')
               in if is_str t \<and> truthy t then t else JNull)))))"

definition recoverPendingCompletion :: "lock_call \<Rightarrow> string \<Rightarrow> bool prog" where
  "recoverPendingCompletion call assignmentId =
     and_then (look (readPendingCompletion assignmentId)) (\<lambda>p.
       if p = None then give False else withAssignmentLock call False assignmentId (\<lambda>_. recoverPendingCompletionUnderLock assignmentId))"

definition readState :: "lock_call \<Rightarrow> string \<Rightarrow> js option prog" where
  "readState call assignmentId = and_then (recoverPendingCompletion call assignmentId) (\<lambda>_. look readStateFile)"

section \<open>Creating assignments and attempts\<close>

definition merged_record :: "js \<Rightarrow> js \<Rightarrow> js" where
  "merged_record old new = JObj (spread (own (recordValue old)) (own (recordValue new)))"

definition not_finalized :: "(string \<times> js) list" where
  "not_finalized = [(''resultWrittenAt'', JNull), (''queueFinalizedAt'', JNull), (''workerFinalizedAt'', JNull)]"

definition rerouted :: "js \<Rightarrow> js \<Rightarrow> js" where
  \<comment> \<open>an assignment that exists, with what the new input says\<close>
  "rerouted existing input = JObj (spread (own existing)
     ([(''workflow'', or_else (fld input ''workflow'') (fld existing ''workflow'')),
       (''planMode'', or_else (fld input ''planMode'') (fld existing ''planMode'')),
       (''sourceContext'', merged_record (fld existing ''sourceContext'') (fld input ''sourceContext'')),
       (''task'', or_else (fld input ''task'') (fld existing ''task'')),
       (''sourcePath'', or_else (fld input ''sourcePath'') (fld existing ''sourcePath'')),
       (''projectRuntimeRoot'', or_else (fld input ''projectRuntimeRoot'') (fld existing ''projectRuntimeRoot'')),
       (''metadata'', merged_record (fld existing ''metadata'') (fld input ''metadata'')),
       (''status'', JStr ''scheduled'')] @ not_finalized))"

definition new_assignment :: "lock_call \<Rightarrow> string \<Rightarrow> js \<Rightarrow> js" where
  "new_assignment call assignmentId input = JObj
     ([(''assignmentId'', JStr assignmentId), (''entryId'', JStr (to_str (fld input ''entryId''))), (''projectId'', fld input ''projectId''),
       (''projectRuntimeRoot'', fld input ''projectRuntimeRoot''), (''task'', fld input ''task''), (''sourcePath'', fld input ''sourcePath''),
       (''workflow'', or_else (fld input ''workflow'') (JStr ''standard'')), (''planMode'', or_else (fld input ''planMode'') (JStr ''full'')),
       (''sourceContext'', recordValue (fld input ''sourceContext'')), (''metadata'', recordValue (fld input ''metadata'')),
       (''status'', JStr ''scheduled''), (''createdAt'', stamp call ''createdAt'')] @ not_finalized)"

definition assignment_of :: "js \<Rightarrow> string" where
  "assignment_of input = ''a-'' @ to_str (fld input ''entryId'')"

definition getOrCreateAssignmentForEntry :: "lock_call \<Rightarrow> js \<Rightarrow> js prog" where
  "getOrCreateAssignmentForEntry call input =
     (let assignmentId = assignment_of input in
      withAssignmentLock call True assignmentId (\<lambda>_.
      and_then (look readStateFile) (\<lambda>state. case state of
         Some existing \<Rightarrow> let updated = rerouted existing input in
           and_then (emit (Put Input updated)) (\<lambda>_. and_then (emit (Put State updated)) (\<lambda>_. give updated))
       | None \<Rightarrow> let assignment = new_assignment call assignmentId input in
           and_then (emit (Put Input assignment)) (\<lambda>_.
           and_then (emit (Put State (set_fields [(''attempts'', jnat 0)] assignment))) (\<lambda>_. give assignment)))))"

definition num_succ :: "jsnum \<Rightarrow> jsnum" where
  "num_succ n = (case n of Fin x \<Rightarrow> Fin (x + 1) | _ \<Rightarrow> n)"

definition next_attempt :: "js \<Rightarrow> jsnum" where
  \<comment> \<open>the number of the attempt after those of the state\<close>
  "next_attempt state = num_succ (case fld state ''attempts'' of JNum n \<Rightarrow> n | _ \<Rightarrow> Fin 0)"

definition new_attempt :: "lock_call \<Rightarrow> string \<Rightarrow> jsnum \<Rightarrow> js \<Rightarrow> js \<Rightarrow> js \<Rightarrow> js \<Rightarrow> string \<Rightarrow> js" where
  "new_attempt call assignmentId n entryId projectId workerId epoch token = JObj
     [(''assignmentId'', JStr assignmentId), (''attempt'', JNum n), (''entryId'', entryId), (''projectId'', projectId),
      (''workerId'', workerId), (''status'', JStr ''assigned''), (''orchestratorEpoch'', if is_num epoch then epoch else JUndef),
      (''attemptToken'', JStr token), (''createdAt'', stamp call ''createdAt'')]"

definition createAttempt :: "lock_call \<Rightarrow> string \<Rightarrow> js \<Rightarrow> string \<Rightarrow> js prog" where
  \<comment> \<open>\<open>token\<close> is the random attempt token\<close>
  "createAttempt call assignmentId input token =
     withAssignmentLock call True assignmentId (\<lambda>_.
     and_then (look readStateFile) (\<lambda>s. case s of
        None \<Rightarrow> fail_with (NoCode (''assignment not found: '' @ assignmentId))
      | Some state \<Rightarrow>
          let n = next_attempt state; name = attempt_name n;
              worker = (if is_str (fld input ''workerId'') then fld input ''workerId'' else JUndef);
              attempt = new_attempt call assignmentId n (JStr (to_str (or_else (fld state ''entryId'') (JStr []))))
                (JStr (to_str (or_else (fld state ''projectId'') (JStr [])))) worker (fld input ''orchestratorEpoch'') token
          in and_then (emit (Mkdir name)) (\<lambda>_.
             and_then (emit (Put (Attempt name) attempt)) (\<lambda>_.
             and_then (emit (Put State (set_fields [(''attempts'', JNum n), (''activeAttempt'', JNum n), (''status'', JStr ''assigned''),
                (''assignedAt'', stamp call ''assignedAt''), (''workerId'', worker)] state))) (\<lambda>_. give attempt)))))"

section \<open>Attempts at work\<close>

definition markRunning :: "lock_call \<Rightarrow> string \<Rightarrow> jsnum \<Rightarrow> js option \<Rightarrow> unit prog" where
  "markRunning call assignmentId n identity =
     withAssignmentLock call True assignmentId (\<lambda>_.
     and_then (look (loadActiveAttempt assignmentId n)) (\<lambda>(state, attempt).
     and_then (look (\<lambda>_. case identity of None \<Rightarrow> Inr () | Some i \<Rightarrow> validateAttemptIdentity assignmentId n attempt i True)) (\<lambda>_.
     if terminal_status (fld state ''status'')
     then fail_with (stale_attempt assignmentId n (''assignment is terminal ('' @ to_str (fld state ''status'') @ '')''))
     else if to_str (or_else (fld attempt ''status'') (JStr [])) \<notin> {''assigned'', ''running''}
     then fail_with (stale_attempt assignmentId n (''attempt is '' @ to_str (or_else (fld attempt ''status'') (JStr ''unknown''))))
     else if fld state ''status'' = JStr ''running'' \<and> fld attempt ''status'' = JStr ''running'' then give ()
     else and_then (emit (Put (Attempt (attempt_name n))
              (set_fields [(''status'', JStr ''running''), (''acceptedAt'', stamp call ''acceptedAt'')] attempt))) (\<lambda>_.
            emit (Put State (set_fields [(''status'', JStr ''running''), (''startedAt'', stamp call ''startedAt'')] state))))))"

definition recordHeartbeat :: "lock_call \<Rightarrow> jsnum \<Rightarrow> js \<Rightarrow> unit prog" where
  \<comment> \<open>without the lock\<close>
  "recordHeartbeat call n heartbeat =
     (if \<not> lc_writable call then fail_with (NoCode ''Hub is not writable'')
      else emit (Put (Heartbeat (attempt_name n)) (JObj (spread (own heartbeat) [(''updatedAt'', stamp call ''updatedAt'')]))))"

definition completed_attempt :: "js \<Rightarrow> js \<Rightarrow> js \<Rightarrow> js" where
  "completed_attempt time result attempt = JObj (spread (own attempt)
     [(''status'', terminalStatusFromResult (fld result ''status'')), (''completedAt'', time), (''result'', result)])"

definition completed_state :: "js \<Rightarrow> js \<Rightarrow> js \<Rightarrow> js" where
  "completed_state time result state =
     (let s = JObj (spread (own state) [(''status'', terminalStatusFromResult (fld result ''status'')), (''completedAt'', time), (''resultWrittenAt'', time)])
      in set_fields [(''queueFinalizedAt'', nullish_or (fld s ''queueFinalizedAt'') JNull),
                     (''workerFinalizedAt'', nullish_or (fld s ''workerFinalizedAt'') JNull)] s)"

definition completeAttemptFromExistingResult :: "lock_call \<Rightarrow> string \<Rightarrow> jsnum \<Rightarrow> js \<Rightarrow> bool prog" where
  "completeAttemptFromExistingResult call assignmentId n result =
     withAssignmentLock call True assignmentId (\<lambda>_.
     and_then (look (loadActiveAttempt assignmentId n)) (\<lambda>(state, attempt).
     and_then (look (\<lambda>_. validateAttemptIdentity assignmentId n attempt result True)) (\<lambda>_.
     if terminal_status (fld state ''status'')
     then (let status = terminalStatusFromResult (fld result ''status'')
           in give (fld state ''status'' = status \<and> fld attempt ''status'' = status \<and> receiptDeepEqual (fld attempt ''result'') result))
     else let time = stamp call ''completedAt''; attempt' = completed_attempt time result attempt; state' = completed_state time result state in
       and_then (emit (Put Wal (pending_record assignmentId n (fld attempt ''attemptToken'') state' attempt'))) (\<lambda>_.
       and_then (emit (Put (Attempt (attempt_name n)) attempt')) (\<lambda>_.
       and_then (emit (Put State state')) (\<lambda>_.
       and_then (emit (Erase Wal)) (\<lambda>_. give True)))))))"

definition completeAttemptAndAckInbox :: "lock_call \<Rightarrow> string \<Rightarrow> jsnum \<Rightarrow> js \<Rightarrow> (store_error + bool) option \<Rightarrow> (bool \<times> bool) prog" where
  \<comment> \<open>what the acknowledgement of the inbox gives is a parameter; the result says accepted, and acknowledged\<close>
  "completeAttemptAndAckInbox call assignmentId n result ack =
     and_then (completeAttemptFromExistingResult call assignmentId n result) (\<lambda>accepted.
       give (accepted, accepted \<and> (case ack of Some (Inr b) \<Rightarrow> b | _ \<Rightarrow> False)))"

definition synthetic_result :: "string \<Rightarrow> jsnum \<Rightarrow> js \<Rightarrow> js \<Rightarrow> js" where
  "synthetic_result assignmentId n attempt result = JObj (spread (own result)
     ([(''assignmentId'', JStr assignmentId), (''attempt'', JNum n), (''attemptToken'', fld attempt ''attemptToken'')]
      @ (if fld attempt ''orchestratorEpoch'' = JUndef then [] else [(''orchestratorEpoch'', fld attempt ''orchestratorEpoch'')])))"

definition writeSyntheticFailure :: "lock_call \<Rightarrow> string \<Rightarrow> jsnum \<Rightarrow> js \<Rightarrow> bool prog" where
  "writeSyntheticFailure call assignmentId n result =
     withAssignmentLock call True assignmentId (\<lambda>_.
     and_then (look (loadActiveAttempt assignmentId n)) (\<lambda>(state, attempt).
     and_then (look (\<lambda>_. validateAttemptIdentity assignmentId n attempt result False)) (\<lambda>_.
     let synthetic = synthetic_result assignmentId n attempt result; name = attempt_name n in
     and_then (look (\<lambda>fs. Inr (docs fs (Result name) \<noteq> Absent))) (\<lambda>exists.
     if exists then give False
     else and_then (emit (Put (Result name) synthetic)) (\<lambda>_.
       and_then (emit (Put (Attempt name) (set_fields [(''status'', JStr ''failed''), (''completedAt'', stamp call ''completedAt''),
           (''result'', synthetic)] attempt))) (\<lambda>_.
       and_then (emit (Put State (set_fields [(''status'', JStr ''failed''), (''completedAt'', stamp call ''completedAt''),
           (''resultWrittenAt'', stamp call ''resultWrittenAt''), (''queueFinalizedAt'', JNull), (''workerFinalizedAt'', JNull)] state))) (\<lambda>_.
         give True)))))))"

definition markFinalized :: "lock_call \<Rightarrow> string \<Rightarrow> string \<Rightarrow> unit prog" where
  "markFinalized call assignmentId step =
     withAssignmentLock call True assignmentId (\<lambda>_.
     and_then (look readStateFile) (\<lambda>s. case s of None \<Rightarrow> give ()
      | Some state \<Rightarrow> let key = step @ ''FinalizedAt'' in
          if truthy (fld state key) then give () else emit (Put State (set_fields [(key, stamp call key)] state))))"

definition assertActiveAttemptIdentity :: "lock_call \<Rightarrow> string \<Rightarrow> jsnum \<Rightarrow> js \<Rightarrow> js prog" where
  "assertActiveAttemptIdentity call assignmentId n identity =
     withAssignmentLock call True assignmentId (\<lambda>_.
     and_then (look (loadActiveAttempt assignmentId n)) (\<lambda>(state, attempt).
     and_then (look (\<lambda>_. validateAttemptIdentity assignmentId n attempt identity True)) (\<lambda>_.
     if terminal_status (fld state ''status'')
     then fail_with (stale_attempt assignmentId n (''assignment is terminal ('' @ to_str (fld state ''status'') @ '')''))
     else give attempt)))"

definition writeCancel :: "lock_call \<Rightarrow> string \<Rightarrow> jsnum \<Rightarrow> string \<Rightarrow> bool prog" where
  "writeCancel call assignmentId n reason =
     withAssignmentLock call True assignmentId (\<lambda>_.
     and_then (look (loadActiveAttempt assignmentId n)) (\<lambda>(state, _).
     if terminal_status (fld state ''status'') then give False
     else and_then (emit (Mkdir (attempt_name n))) (\<lambda>_.
       and_then (emit (Put (Cancel (attempt_name n)) (JObj [(''reason'', JStr reason), (''requestedAt'', stamp call ''requestedAt''),
           (''requestedBy'', JStr ''hub'')]))) (\<lambda>_. give True))))"

section \<open>Reading\<close>

definition readCancel :: "jsnum \<Rightarrow> js option prog" where
  "readCancel n = look (readLocalJsonObject (Cancel (attempt_name n)) ''assignment cancel'')"

definition getAssignment :: "lock_call \<Rightarrow> string \<Rightarrow> js option prog" where
  "getAssignment call assignmentId = readState call assignmentId"

definition getAttempt :: "lock_call \<Rightarrow> string \<Rightarrow> jsnum \<Rightarrow> js option prog" where
  "getAttempt call assignmentId n =
     (if \<not> safe_integer n \<or> num_lt n (Fin 1) then give None
      else and_then (recoverPendingCompletion call assignmentId) (\<lambda>_.
        look (\<lambda>fs. thn (readLocalJsonObject (Attempt (attempt_name n)) (attempt_label (attempt_name n)) fs) (\<lambda>a. case a of
            None \<Rightarrow> Inr None
          | Some attempt \<Rightarrow> thn (readLocalJsonObject (Heartbeat (attempt_name n)) ''assignment heartbeat'' fs) (\<lambda>h. case h of
                None \<Rightarrow> Inr (Some attempt)
              | Some heartbeat \<Rightarrow> Inr (Some (set_fields [(''heartbeat'', heartbeat)] attempt)))))))"

definition getActiveAttempt :: "lock_call \<Rightarrow> string \<Rightarrow> js option prog" where
  "getActiveAttempt call assignmentId =
     and_then (readState call assignmentId) (\<lambda>s. case s of None \<Rightarrow> give None
      | Some state \<Rightarrow> let n = to_num (fld state ''activeAttempt'') in
          if \<not> num_finite n \<or> num_le n (Fin 0) then give None
          else and_then (look (readAttempt assignmentId n)) (\<lambda>attempt. give (Some attempt)))"

section \<open>The document of an assignment\<close>

record snapshot =
  sn_input :: "js option"
  sn_state :: "js option"
  sn_attempts :: "(string \<times> js) list"
  sn_owner :: "js option"
  sn_foreign :: "string list"

definition attempt_dir :: "string \<times> bool \<Rightarrow> jsnum option" where
  \<comment> \<open>the number of the attempt that an entry of the directory is for\<close>
  "attempt_dir e = (let n = string_to_num (fst e) in
     if snd e \<and> list_all is_digit (fst e) \<and> 3 \<le> length (fst e) \<and> num_integer n \<and> num_le (Fin 1) n \<and> attempt_name n = fst e
     then Some n else None)"

definition snapshot_entry :: "string \<Rightarrow> store_files \<Rightarrow> string \<times> bool \<Rightarrow> (string \<times> js) list \<times> string list
    \<Rightarrow> store_error + (string \<times> js) list \<times> string list" where
  "snapshot_entry assignmentId fs e acc =
     (case attempt_dir e of None \<Rightarrow> Inr (fst acc, snd acc @ [fst e])
      | Some n \<Rightarrow> thn (readLocalJsonObject (Attempt (fst e)) (attempt_label (fst e)) fs) (\<lambda>r. case r of
            None \<Rightarrow> Inr (fst acc, snd acc @ [fst e @ ''/attempt.json''])
          | Some a \<Rightarrow> if fld a ''assignmentId'' \<noteq> JStr assignmentId \<or> to_num (fld a ''attempt'') \<noteq> n
              then Inr (fst acc, snd acc @ [fst e @ ''/attempt.json''])
              else Inr (obj_set (show_num n) a (fst acc), snd acc)))"

definition localDocumentSnapshot :: "string \<Rightarrow> store_files \<Rightarrow> store_error + snapshot option" where
  "localDocumentSnapshot assignmentId fs =
     thn (readLocalJsonObject Input ''assignment input'' fs) (\<lambda>input.
     thn (readLocalJsonObject State ''assignment state'' fs) (\<lambda>state.
     thn (readLocalJsonObject Owner ''assignment enqueue owner'' fs) (\<lambda>owner.
     thn (fold_r (snapshot_entry assignmentId fs) (listing fs) ([], [])) (\<lambda>(attempts, foreign).
       Inr (if input = None \<and> state = None \<and> owner = None \<and> attempts = [] \<and> foreign = [] then None
            else Some \<lparr>sn_input = input, sn_state = state, sn_attempts = attempts, sn_owner = owner, sn_foreign = foreign\<rparr>)))))"

definition document :: "js \<Rightarrow> js \<Rightarrow> (string \<times> js) list \<Rightarrow> js" where
  "document input state attempts = JObj [(''input'', input), (''state'', state), (''attempts'', JObj attempts)]"

definition attempt_history_ok :: "jsnum \<Rightarrow> (string \<times> js) list \<Rightarrow> bool" where
  "attempt_history_ok count attempts =
     (num_integer count \<and> num_le (Fin 0) count \<and> Fin (of_nat (length attempts)) = count
      \<and> sort_key nat_of_digits (map fst attempts) = map (\<lambda>i. show_nat (i + 1)) [0..<length attempts])"

definition documentFromLocalSnapshot :: "string \<Rightarrow> snapshot option \<Rightarrow> store_error + js" where
  \<comment> \<open>\<^verbatim>\<open>_assignmentDocumentFromLocalSnapshot\<close>; null when there is none\<close>
  "documentFromLocalSnapshot assignmentId snapshot =
     (case snapshot of None \<Rightarrow> Inr JNull
      | Some sn \<Rightarrow> (case (sn_input sn, sn_state sn) of
          (Some input, Some state) \<Rightarrow>
            if sn_foreign sn \<noteq> [] then Inl (DocumentInvalid (''invalid local assignment document: '' @ assignmentId))
            else if \<not> attempt_history_ok (to_num (or_else (fld state ''attempts'') (jnat 0))) (sn_attempts sn)
            then Inl (DocumentInvalid (''invalid local assignment attempt history: '' @ assignmentId))
            else Inr (document input state (sn_attempts sn))
        | _ \<Rightarrow> Inl (DocumentInvalid (''invalid local assignment document: '' @ assignmentId))))"

definition component_allowed :: "js option \<Rightarrow> js option \<Rightarrow> js \<Rightarrow> bool" where
  "component_allowed actual before after =
     (case actual of None \<Rightarrow> before = None
      | Some a \<Rightarrow> (case before of None \<Rightarrow> False | Some b \<Rightarrow> receiptDeepEqual a b) \<or> receiptDeepEqual a after)"

definition present :: "js \<Rightarrow> js option" where
  "present v = (if nullish v then None else Some v)"

definition matchesEnqueuePartial :: "snapshot option \<Rightarrow> js \<Rightarrow> js \<Rightarrow> js option \<Rightarrow> js \<Rightarrow> bool" where
  \<comment> \<open>\<^verbatim>\<open>_localDocumentMatchesEnqueuePartial\<close>\<close>
  "matchesEnqueuePartial current previous committed previousOwner committedOwner =
     (case current of None \<Rightarrow> previous = JNull \<and> previousOwner = None
      | Some sn \<Rightarrow>
          sn_foreign sn = [] \<and> component_allowed (sn_input sn) (present (fld previous ''input'')) (fld committed ''input'')
          \<and> component_allowed (sn_state sn) (present (fld previous ''state'')) (fld committed ''state'')
          \<and> component_allowed (sn_owner sn) previousOwner committedOwner
          \<and> list_all (\<lambda>(k, a). (k \<in> fst ` set (own (fld previous ''attempts'')) \<or> k \<in> fst ` set (own (fld committed ''attempts'')))
               \<and> component_allowed (Some a) (present (fld (fld previous ''attempts'') k)) (fld (fld committed ''attempts'') k)) (sn_attempts sn)
          \<and> list_all (\<lambda>(k, _). k \<in> fst ` set (sn_attempts sn)) (own (fld previous ''attempts'')))"

section \<open>Undoing an enqueue\<close>

definition isolate :: "string \<Rightarrow> string \<Rightarrow> unit prog" where
  \<comment> \<open>\<^verbatim>\<open>removeLocalPathDurable\<close> of the directory of an attempt\<close>
  "isolate name random = and_then (look (\<lambda>fs. Inr (map_of (listing fs) name))) (\<lambda>e. case e of None \<Rightarrow> give ()
     | Some dir \<Rightarrow> if dir then emit (Isolate name random)
         else fail_with (LockConflict ''recursive assignment removal requires a real directory''))"

definition settle :: "unit prog \<Rightarrow> store_error list prog" where
  "settle p fs = (case p fs of (ws, r) \<Rightarrow> (ws, Inr (case r of Inl e \<Rightarrow> [e] | Inr _ \<Rightarrow> [])))"

fun run_each :: "unit prog list \<Rightarrow> store_error list prog" where
  \<comment> \<open>all of them, whatever fails; the errors\<close>
  "run_each [] = give []"
| "run_each (p # ps) = and_then (settle p) (\<lambda>e. and_then (run_each ps) (\<lambda>es. give (e @ es)))"

definition restore_operations :: "js \<Rightarrow> js \<Rightarrow> js option \<Rightarrow> (string \<Rightarrow> string) \<Rightarrow> unit prog list" where
  "restore_operations previous committed previousOwner random =
     (if previous = JNull then [emit (Erase Input), emit (Erase State), emit Isolate_all, emit (Erase Owner)]
      else [emit (Put Input (fld previous ''input'')), emit (Put State (fld previous ''state'')),
            (case previousOwner of None \<Rightarrow> emit (Erase Owner) | Some owner \<Rightarrow> emit (Put Owner owner))]
        @ map (\<lambda>(k, _). isolate (padStart3 k) (random k))
            (filter (\<lambda>(k, _). k \<notin> fst ` set (own (fld previous ''attempts''))) (entries (fld committed ''attempts'')))
        @ map (\<lambda>(k, a). emit (Put (Attempt (attempt_name (string_to_num k))) a)) (entries (fld previous ''attempts'')))"

definition restoreDocumentComponents :: "js \<Rightarrow> js \<Rightarrow> js option \<Rightarrow> (string \<Rightarrow> string) \<Rightarrow> unit prog" where
  "restoreDocumentComponents previous committed previousOwner random =
     and_then (run_each (restore_operations previous committed previousOwner random)) (\<lambda>errors.
       if errors = [] then give () else fail_with (Aggregate errors))"

definition restoreDocument :: "string \<Rightarrow> js \<Rightarrow> js \<Rightarrow> js option \<Rightarrow> js \<Rightarrow> (string \<Rightarrow> string) \<Rightarrow> unit prog" where
  "restoreDocument assignmentId previous committed previousOwner committedOwner random =
     and_then (look (localDocumentSnapshot assignmentId)) (\<lambda>current.
       if \<not> matchesEnqueuePartial current previous committed previousOwner committedOwner
       then fail_with (CompensationConflict (''assignment compensation conflict: '' @ assignmentId @ '' changed after partial enqueue''))
       else restoreDocumentComponents previous committed previousOwner random)"

definition restoreEnqueueAfterFailure ::
    "string \<Rightarrow> js \<Rightarrow> js \<Rightarrow> js option \<Rightarrow> js \<Rightarrow> (string \<Rightarrow> string) \<Rightarrow> store_error \<Rightarrow> 'a prog" where
  "restoreEnqueueAfterFailure assignmentId previous committed previousOwner committedOwner random err =
     and_then (settle (restoreDocument assignmentId previous committed previousOwner committedOwner random)) (\<lambda>errors.
       if errors = [] then fail_with err else fail_with (Aggregate (err # errors)))"

section \<open>Enqueueing with a receipt\<close>

record enqueue_call =
  ec_lock :: lock_call
  ec_workerId :: js
  ec_epoch :: js
  ec_attemptToken :: string
  ec_ownerToken :: string
  ec_random :: "string \<Rightarrow> string"
  ec_fault :: "nat option"
    \<comment> \<open>the write of the enqueue that fails, if one does\<close>

record receipt =
  rc_backend :: js
  rc_assignmentId :: string
  rc_previous :: js
  rc_committed :: js
  rc_ownerToken :: js
  rc_mutationToken :: js
  rc_previousOwner :: "js option"
  rc_committedOwner :: js

definition normalizeJsonValue :: "js \<Rightarrow> string \<Rightarrow> store_error + js" where
  "normalizeJsonValue v label =
     (if v = JUndef then Inl (JsonInvalid (label @ '' must serialize to JSON''))
      else if \<not> isRecord v then Inl (JsonInvalid (label @ '' must be a JSON object'')) else Inr (json_copy v))"

definition enqueued_assignment :: "lock_call \<Rightarrow> string \<Rightarrow> js \<Rightarrow> js \<Rightarrow> js" where
  "enqueued_assignment call assignmentId previous input = json_copy
     (if previous = JNull then new_assignment call assignmentId input else rerouted (fld previous ''state'') input)"

definition enqueued_attempt :: "enqueue_call \<Rightarrow> string \<Rightarrow> jsnum \<Rightarrow> js \<Rightarrow> js" where
  "enqueued_attempt call assignmentId n assignment = json_copy (new_attempt (ec_lock call) assignmentId n (fld assignment ''entryId'')
     (fld assignment ''projectId'') (ec_workerId call) (ec_epoch call) (ec_attemptToken call))"

definition enqueued_state :: "enqueue_call \<Rightarrow> jsnum \<Rightarrow> js \<Rightarrow> js" where
  "enqueued_state call n assignment = json_copy (JObj (spread (own assignment) [(''attempts'', JNum n), (''activeAttempt'', JNum n),
     (''status'', JStr ''assigned''), (''assignedAt'', stamp (ec_lock call) ''assignedAt''), (''workerId'', ec_workerId call)]))"

definition enqueued_document :: "enqueue_call \<Rightarrow> string \<Rightarrow> js \<Rightarrow> js \<Rightarrow> js" where
  "enqueued_document call assignmentId previous input =
     (let assignment = enqueued_assignment (ec_lock call) assignmentId previous input; n = next_attempt (fld previous ''state'')
      in document assignment (enqueued_state call n assignment)
           (obj_set (show_num n) (enqueued_attempt call assignmentId n assignment) (own (fld previous ''attempts''))))"

definition enqueue_owner :: "enqueue_call \<Rightarrow> string \<Rightarrow> jsnum \<Rightarrow> js" where
  "enqueue_owner call assignmentId n = json_copy (JObj [(''assignmentId'', JStr assignmentId), (''attempt'', JNum n),
     (''ownerToken'', JStr (ec_ownerToken call)), (''writtenAt'', stamp (ec_lock call) ''writtenAt'')])"

definition enqueue_writes :: "jsnum \<Rightarrow> js \<Rightarrow> js \<Rightarrow> store_write list" where
  "enqueue_writes n committed owner = [Put Input (fld committed ''input''), Mkdir (attempt_name n),
     Put (Attempt (attempt_name n)) (fld (fld committed ''attempts'') (show_num n)), Put State (fld committed ''state''), Put Owner owner]"

definition emit_all :: "store_write list \<Rightarrow> nat option \<Rightarrow> unit prog" where
  \<comment> \<open>the writes, up to the one that fails\<close>
  "emit_all ws fault fs = (case fault of None \<Rightarrow> (ws, Inr ())
     | Some k \<Rightarrow> if k < length ws then (take k ws, Inl WriteFault) else (ws, Inr ()))"

definition handle :: "'a prog \<Rightarrow> (store_error \<Rightarrow> 'a prog) \<Rightarrow> 'a prog" where
  \<comment> \<open>\<^verbatim>\<open>try\<close> and \<^verbatim>\<open>catch\<close>\<close>
  "handle p f fs = (case p fs of (ws, Inr v) \<Rightarrow> (ws, Inr v)
     | (ws, Inl e) \<Rightarrow> (case f e (apply_writes ws fs) of (ws', r) \<Rightarrow> (ws @ ws', r)))"

definition enqueueUnderLock :: "enqueue_call \<Rightarrow> string \<Rightarrow> js \<Rightarrow> receipt prog" where
  "enqueueUnderLock call assignmentId input =
     and_then (look (localDocumentSnapshot assignmentId)) (\<lambda>sn.
     and_then (look (\<lambda>_. documentFromLocalSnapshot assignmentId sn)) (\<lambda>previous.
     let previousOwner = (case sn of None \<Rightarrow> None | Some s \<Rightarrow> sn_owner s); n = next_attempt (fld previous ''state'');
         committed = enqueued_document call assignmentId previous input; owner = enqueue_owner call assignmentId n in
     and_then (handle (emit_all (enqueue_writes n committed owner) (ec_fault call))
         (restoreEnqueueAfterFailure assignmentId previous committed previousOwner owner (ec_random call))) (\<lambda>_.
       give \<lparr>rc_backend = JStr ''local'', rc_assignmentId = assignmentId, rc_previous = previous, rc_committed = committed,
         rc_ownerToken = fld owner ''ownerToken'', rc_mutationToken = JStr (lc_token (ec_lock call)), rc_previousOwner = previousOwner,
         rc_committedOwner = owner\<rparr>)))"

definition enqueueWithReceipt :: "enqueue_call \<Rightarrow> js \<Rightarrow> receipt prog" where
  "enqueueWithReceipt call input =
     and_then (look (\<lambda>_. normalizeJsonValue input ''assignment enqueue input'')) (\<lambda>inp.
       withAssignmentLock (ec_lock call) True (assignment_of inp) (\<lambda>_. enqueueUnderLock call (assignment_of inp) inp))"

definition compensateEnqueueReceipt :: "lock_call \<Rightarrow> receipt \<Rightarrow> (string \<Rightarrow> string) \<Rightarrow> bool prog" where
  "compensateEnqueueReceipt call rc random =
     withAssignmentLock call True (rc_assignmentId rc) (\<lambda>predecessor.
     if rc_backend rc \<noteq> JStr ''local''
     then fail_with (CompensationConflict (''assignment compensation backend mismatch: '' @ rc_assignmentId rc))
     else and_then (look (localDocumentSnapshot (rc_assignmentId rc))) (\<lambda>sn.
     and_then (look (\<lambda>_. documentFromLocalSnapshot (rc_assignmentId rc) sn)) (\<lambda>current.
     let owner = (case sn of None \<Rightarrow> JNull | Some s \<Rightarrow> (case sn_owner s of None \<Rightarrow> JNull | Some v \<Rightarrow> v)) in
     if predecessor \<noteq> rc_mutationToken rc \<or> \<not> receiptDeepEqual current (rc_committed rc)
        \<or> \<not> receiptDeepEqual owner (rc_committedOwner rc) \<or> fld owner ''ownerToken'' \<noteq> rc_ownerToken rc
     then fail_with (CompensationConflict (''assignment compensation conflict: '' @ rc_assignmentId rc @ '' changed after enqueue''))
     else and_then (restoreDocumentComponents (rc_previous rc) (rc_committed rc) (rc_previousOwner rc) random) (\<lambda>_. give True))))"

end
