(* ===== verification/AssignmentLemmas.thy ===== *)
theory AssignmentLemmas
  imports AssignmentStore HubQueueLemmas
begin

text \<open>
  Rules for the programs of the assignment store, and the invariant of the files of an assignment:
  what holds after every write of every operation, and so after a crash anywhere.
\<close>

section \<open>Programs that may crash\<close>

definition MAX_ATTEMPTS :: nat where
  "MAX_ATTEMPTS = 9007199254740991"

text \<open>A document that can be read again, whose count of attempts is an exact integer.\<close>

definition write_ok :: "store_write \<Rightarrow> bool" where
  "write_ok w = (case w of Put p v \<Rightarrow> fits_limit (json_copy v) \<and> (\<forall>m. p = State \<longrightarrow> fld v ''attempts'' = jnat m \<longrightarrow> m \<le> MAX_ATTEMPTS) | _ \<Rightarrow> True)"

text \<open>\<open>sound I p fs\<close>: when all documents that \<open>p\<close> writes are such documents, \<open>I\<close> holds before, between
  and after its writes.\<close>

definition sound :: "(store_files \<Rightarrow> bool) \<Rightarrow> 'a prog \<Rightarrow> store_files \<Rightarrow> bool" where
  "sound I p fs = ((\<forall>w\<in>set (fst (p fs)). write_ok w) \<longrightarrow> (\<forall>gs\<in>crash_states p fs. I gs))"

named_theorems sound_rules

lemma crash_start: "fs \<in> crash_states p fs"
  unfolding crash_states_def by (intro CollectI exI [of _ 0]) simp

lemma crash_end: "run_prog p fs = (r, gs) \<Longrightarrow> gs \<in> crash_states p fs"
  unfolding crash_states_def run_prog_def
  by (intro CollectI exI [of _ "length (fst (p fs))"]) (auto split: prod.splits)

lemma crash_and_then:
  assumes "gs \<in> crash_states (and_then p f) fs"
  obtains "gs \<in> crash_states p fs" | v fs' where "run_prog p fs = (Inr v, fs')" "gs \<in> crash_states (f v) fs'"
proof -
  note result = that
  obtain ws r where p: "p fs = (ws, r)" by (cases "p fs")
  show thesis
  proof (cases r)
    case (Inl e)
    with assms p have "gs \<in> crash_states p fs" by (simp add: crash_states_def and_then_def)
    then show thesis by (rule result(1))
  next
    case (Inr v)
    obtain ws' r' where f: "f v (apply_writes ws fs) = (ws', r')" by (cases "f v (apply_writes ws fs)")
    from assms obtain k where k: "k \<le> length ws + length ws'" "gs = apply_writes (take k (ws @ ws')) fs"
      unfolding crash_states_def by (auto simp: and_then_def p Inr f)
    show thesis
    proof (cases "k \<le> length ws")
      case True
      then have "gs \<in> crash_states p fs" unfolding crash_states_def p using k(2) by auto
      then show thesis by (rule result(1))
    next
      case False
      then have "gs = apply_writes (take (k - length ws) ws') (apply_writes ws fs)" using k(2) by simp
      moreover have "k - length ws \<le> length ws'" using k(1) by simp
      ultimately have "gs \<in> crash_states (f v) (apply_writes ws fs)" unfolding crash_states_def f by auto
      moreover have "run_prog p fs = (Inr v, apply_writes ws fs)" by (simp add: run_prog_def p Inr)
      ultimately show thesis by (rule result(2) [rotated])
    qed
  qed
qed

lemma and_then_writes:
  assumes "\<forall>w\<in>set (fst (and_then p f fs)). write_ok w"
  shows "\<forall>w\<in>set (fst (p fs)). write_ok w" "run_prog p fs = (Inr v, fs') \<Longrightarrow> \<forall>w\<in>set (fst (f v fs')). write_ok w"
  using assms by (auto simp: and_then_def run_prog_def split: prod.splits sum.splits)

lemma sound_and_then [sound_rules]:
  assumes "sound I p fs" "\<And>v fs'. run_prog p fs = (Inr v, fs') \<Longrightarrow> I fs' \<Longrightarrow> sound I (f v) fs'"
  shows "sound I (and_then p f) fs"
  unfolding sound_def
proof (intro impI ballI)
  fix gs assume ok: "\<forall>w\<in>set (fst (and_then p f fs)). write_ok w" and gs: "gs \<in> crash_states (and_then p f) fs"
  from assms(1) and_then_writes(1) [OF ok] have p: "\<forall>gs\<in>crash_states p fs. I gs" by (simp add: sound_def)
  from gs show "I gs"
  proof (cases rule: crash_and_then)
    case (2 v fs')
    with p crash_end have "I fs'" by blast
    from assms(2) [OF 2(1) this] and_then_writes(2) [OF ok 2(1)] 2(2) show ?thesis by (simp add: sound_def)
  qed (use p in blast)
qed

lemma sound_give [sound_rules]: "I fs \<Longrightarrow> sound I (give v) fs"
  and sound_fail [sound_rules]: "I fs \<Longrightarrow> sound I (fail_with e) fs"
  and sound_look [sound_rules]: "I fs \<Longrightarrow> sound I (look g) fs"
  by (simp_all add: sound_def crash_states_def give_def fail_with_def look_def)

lemma sound_emit [sound_rules]: "I fs \<Longrightarrow> (write_ok w \<Longrightarrow> I (apply_write w fs)) \<Longrightarrow> sound I (emit w) fs"
proof -
  assume I: "I fs" and w: "write_ok w \<Longrightarrow> I (apply_write w fs)"
  have "gs = fs \<or> gs = apply_write w fs" if "gs \<in> crash_states (emit w) fs" for gs
    using that unfolding crash_states_def emit_def by (auto simp: le_Suc_eq)
  with I w show ?thesis by (auto simp: sound_def emit_def)
qed

lemma and_then_assoc: "and_then (and_then p f) g = and_then p (\<lambda>v. and_then (f v) g)"
  by (simp add: and_then_def fun_eq_iff split: prod.splits sum.splits)

lemma sound_look_then: "I fs \<Longrightarrow> (\<And>v. g fs = Inr v \<Longrightarrow> sound I (f v) fs) \<Longrightarrow> sound I (and_then (look g) f) fs"
  by (rule sound_and_then, erule sound_look) auto

lemma sound_weaken: "sound J p fs \<Longrightarrow> (\<And>gs. J gs \<Longrightarrow> I gs) \<Longrightarrow> sound I p fs"
  by (simp add: sound_def)

lemma sound_if [sound_rules]: "(b \<Longrightarrow> sound I p fs) \<Longrightarrow> (\<not> b \<Longrightarrow> sound I q fs) \<Longrightarrow> sound I (if b then p else q) fs"
  by (cases b) simp_all

lemma sound_start: "sound I p fs \<Longrightarrow> \<forall>w\<in>set (fst (p fs)). write_ok w \<Longrightarrow> I fs"
  unfolding sound_def using crash_start by blast

lemma sound_final: "sound I p fs \<Longrightarrow> \<forall>w\<in>set (fst (p fs)). write_ok w \<Longrightarrow> I (snd (run_prog p fs))"
  unfolding sound_def using crash_end by (metis prod.collapse)

lemma sound_settle: "sound I p fs \<Longrightarrow> sound I (settle p) fs"
  by (simp add: sound_def crash_states_def settle_def split: prod.splits)

lemma run_settle: "run_prog (settle p) fs = (case run_prog p fs of (r, gs) \<Rightarrow> (Inr (case r of Inl e \<Rightarrow> [e] | Inr _ \<Rightarrow> []), gs))"
  by (simp add: run_prog_def settle_def split: prod.splits)

lemma sound_emit_all:
  assumes "I fs" "\<And>k gs. k < length ws \<Longrightarrow> gs = apply_writes (take k ws) fs \<Longrightarrow> I gs \<Longrightarrow> write_ok (ws ! k) \<Longrightarrow> I (apply_write (ws ! k) gs)"
  shows "sound I (emit_all ws fault) fs"
proof -
  have pre: "I (apply_writes (take k ws) fs)" if "\<forall>w\<in>set (take j ws). write_ok w" "k \<le> length ws" "k \<le> j" for k j
    using that
  proof (induction k)
    case (Suc k)
    have "ws ! k \<in> set (take j ws)" using Suc.prems by (auto simp: in_set_conv_nth intro!: exI [of _ k])
    then have "write_ok (ws ! k)" using Suc.prems(1) by blast
    moreover have "I (apply_writes (take k ws) fs)" using Suc by simp
    ultimately have "I (apply_write (ws ! k) (apply_writes (take k ws) fs))" using assms(2) [of k] Suc.prems(2) by simp
    then show ?case using Suc.prems(2) by (simp add: take_Suc_conv_app_nth)
  qed (use assms(1) in simp)
  have some: "sound I (\<lambda>fs. (take j ws, r)) fs" if "j \<le> length ws" for j and r :: "store_error + unit"
    unfolding sound_def crash_states_def using pre [of j] that by (auto simp: take_take min_def)
  show ?thesis
  proof (cases "case fault of None \<Rightarrow> False | Some k \<Rightarrow> k < length ws")
    case True
    then obtain k where "fault = Some k" "k < length ws" by (cases fault) simp_all
    with some [of k "Inl WriteFault"] show ?thesis by (simp add: emit_all_def sound_def crash_states_def)
  next
    case False
    then have "emit_all ws fault fs = (ws, Inr ())" by (simp add: emit_all_def split: option.splits)
    with some [of "length ws" "Inr ()"] show ?thesis by (simp add: sound_def crash_states_def)
  qed
qed

lemma sound_handle:
  assumes "sound I p fs" "\<And>e gs. I gs \<Longrightarrow> run_prog p fs = (Inl e, gs) \<Longrightarrow> sound I (f e) gs"
  shows "sound I (handle p f) fs"
proof -
  obtain ws r where p: "p fs = (ws, r)" by (cases "p fs")
  show ?thesis
  proof (cases r)
    case (Inr v)
    with assms(1) p show ?thesis by (simp add: sound_def crash_states_def handle_def)
  next
    case (Inl e)
    define q where "q = (\<lambda>fs. (fst (p fs), Inr () :: store_error + unit))"
    have "sound I (and_then q (\<lambda>_. f e)) fs"
    proof (rule sound_and_then)
      show "sound I q fs" using assms(1) by (simp add: sound_def crash_states_def q_def)
      fix v fs' assume "run_prog q fs = (Inr v, fs')" "I fs'"
      then show "sound I (f e) fs'" using assms(2) [of fs' e] by (simp add: run_prog_def q_def p Inl)
    qed
    moreover have "fst (and_then q (\<lambda>_. f e) fs) = fst (handle p f fs)"
      by (simp add: and_then_def handle_def q_def p Inl split: prod.splits)
    ultimately show ?thesis by (simp add: sound_def crash_states_def)
  qed
qed

section \<open>The invariant of the files\<close>

lemma attempt_name_nat [simp]: "attempt_name (Fin (of_nat m)) = pad3 m"
  by (simp add: attempt_name_def padStart3_def pad3_def show_num_def show_rat_def show_int_def)

definition attempt_doc :: "string \<Rightarrow> nat \<Rightarrow> js \<Rightarrow> bool" where
  "attempt_doc aid i a = (isRecord a \<and> fld a ''assignmentId'' = JStr aid \<and> fld a ''attempt'' = jnat i
     \<and> is_str (fld a ''attemptToken'') \<and> truthy (fld a ''attemptToken''))"

definition state_doc :: "string \<Rightarrow> nat \<Rightarrow> js \<Rightarrow> bool" where
  "state_doc aid m s = (isRecord s \<and> fld s ''assignmentId'' = JStr aid \<and> fld s ''attempts'' = jnat m \<and> m \<le> MAX_ATTEMPTS
     \<and> fld s ''activeAttempt'' = (if m = 0 then JUndef else jnat m))"

definition wal_doc :: "string \<Rightarrow> nat \<Rightarrow> js \<Rightarrow> bool" where
  "wal_doc aid m p = (\<exists>s a. p = pending_record aid (Fin (of_nat m)) (fld a ''attemptToken'') s a \<and> 1 \<le> m \<and> state_doc aid m s \<and> attempt_doc aid m a
     \<and> terminal_status (fld s ''status'') \<and> terminal_status (fld a ''status''))"

definition good :: "(js \<Rightarrow> bool) \<Rightarrow> doc_file \<Rightarrow> bool" where
  "good P f = (case f of Absent \<Rightarrow> True | Malformed \<Rightarrow> False | Doc v \<Rightarrow> isRecord v \<and> fits_limit v \<and> P v)"

lemma good_simps [simp]: "good P Absent" "good P (Doc v) \<longleftrightarrow> isRecord v \<and> fits_limit v \<and> P v" "\<not> good P Malformed"
  by (simp_all add: good_def)

definition wal_agrees :: "string \<Rightarrow> store_files \<Rightarrow> js \<Rightarrow> bool" where
  \<comment> \<open>the log is of the active attempt\<close>
  "wal_agrees aid fs p = (\<exists>m. wal_doc aid m p \<and> (\<forall>s. docs fs State = Doc s \<longrightarrow> state_doc aid m s)
     \<and> (\<forall>a. docs fs (Attempt (pad3 m)) = Doc a \<longrightarrow> fld a ''attemptToken'' = fld p ''attemptToken''))"

definition store_ok :: "string \<Rightarrow> store_files \<Rightarrow> bool" where
  "store_ok aid fs = (good (\<lambda>_. True) (docs fs Input) \<and> good (\<lambda>_. True) (docs fs Owner) \<and> good (\<lambda>_. True) (docs fs Mutation)
     \<and> good (\<lambda>s. \<exists>m. state_doc aid m s) (docs fs State) \<and> (\<forall>i\<ge>1. good (attempt_doc aid i) (docs fs (Attempt (pad3 i))))
     \<and> good (wal_agrees aid fs) (docs fs Wal))"

lemma read_good:
  assumes "good P (docs fs p)"
  obtains "readLocalJsonObject p label fs = Inr None" "docs fs p = Absent"
  | v where "readLocalJsonObject p label fs = Inr (Some v)" "docs fs p = Doc v" "isRecord v" "fits_limit v" "P v"
  using assms by (cases "docs fs p") (auto simp: readLocalJsonObject_def)

definition file_of :: "js option \<Rightarrow> doc_file" where
  "file_of r = (case r of None \<Rightarrow> Absent | Some v \<Rightarrow> Doc v)"

lemma file_of_simps [simp]: "file_of None = Absent" "file_of (Some v) = Doc v"
  by (simp_all add: file_of_def)

lemma read_option:
  assumes "good P (docs fs p)"
  obtains r where "readLocalJsonObject p label fs = Inr r" "docs fs p = file_of r" "\<And>v. r = Some v \<Longrightarrow> P v \<and> isRecord v \<and> fits_limit v"
  using assms by (cases rule: read_good [where label = label]) auto

lemma read_Some: "readLocalJsonObject p label fs = Inr (Some v) \<longleftrightarrow> docs fs p = Doc v \<and> fits_limit v \<and> isRecord v"
  by (auto simp: readLocalJsonObject_def split: doc_file.splits)

lemma read_None: "readLocalJsonObject p label fs = Inr None \<longleftrightarrow> docs fs p = Absent"
  by (auto simp: readLocalJsonObject_def split: doc_file.splits)

text \<open>Writes that keep the invariant.\<close>

lemma docs_apply [simp]:
  "docs (apply_write (Put p v) fs) = (docs fs)(p := Doc (json_copy v))" "docs (apply_write (Erase p) fs) = (docs fs)(p := Absent)"
  "docs (apply_write (Mkdir n) fs) = docs fs"
  by simp_all

declare apply_write.simps [simp del]

lemma store_ok_frame:
  assumes "store_ok aid fs" "\<And>p. p \<in> {Input, Owner, Mutation, State, Wal} \<or> (\<exists>i. p = Attempt (pad3 i)) \<Longrightarrow> docs gs p = docs fs p"
  shows "store_ok aid gs"
proof -
  have same: "docs gs State = docs fs State" "docs gs (Attempt (pad3 i)) = docs fs (Attempt (pad3 i))" for i
    using assms(2) by blast+
  then have "wal_agrees aid gs = wal_agrees aid fs" by (simp add: wal_agrees_def fun_eq_iff)
  with assms(1) same assms(2) [of Input] assms(2) [of Owner] assms(2) [of Mutation] assms(2) [of Wal] show ?thesis
    by (simp add: store_ok_def)
qed

lemma store_ok_put:
  assumes "store_ok aid fs" "write_ok (Put p v)" "isRecord v" "p \<in> {Input, Owner, Mutation}"
  shows "store_ok aid (apply_write (Put p v) fs)"
  using assms unfolding store_ok_def wal_agrees_def write_ok_def docs_apply by auto

lemma store_ok_mkdir: "store_ok aid fs \<Longrightarrow> store_ok aid (apply_write (Mkdir n) fs)"
  by (rule store_ok_frame) simp_all

lemma store_ok_side:
  assumes "store_ok aid fs" "p \<in> {Heartbeat n, Result n, Cancel n}"
  shows "store_ok aid (apply_write (Put p v) fs)"
  by (rule store_ok_frame [OF assms(1)]) (use assms(2) in auto)

lemma store_ok_erase:
  assumes "store_ok aid fs" "p \<in> {Input, Owner, Wal, State}" "p = State \<Longrightarrow> docs fs Wal = Absent"
  shows "store_ok aid (apply_write (Erase p) fs)"
  using assms unfolding store_ok_def wal_agrees_def docs_apply by (auto simp: good_def split: doc_file.splits)

lemma store_ok_state:
  assumes "store_ok aid fs" "write_ok (Put State v)" "state_doc aid m (json_copy v)"
    and "\<And>p. docs fs Wal = Doc p \<Longrightarrow> wal_doc aid m p"
  shows "store_ok aid (apply_write (Put State v) fs)"
proof -
  have v: "isRecord (json_copy v)" "fits_limit (json_copy v)" using assms(2,3) by (simp_all add: write_ok_def state_doc_def)
  have num: "k = k'" if "wal_doc aid k p" "wal_doc aid k' p" for k k' p
    using that by (auto simp: wal_doc_def pending_record_def)
  have "good (wal_agrees aid (apply_write (Put State v) fs)) (docs fs Wal)"
  proof (cases "docs fs Wal")
    case (Doc p)
    then obtain k where k: "wal_doc aid k p" "\<forall>a. docs fs (Attempt (pad3 k)) = Doc a \<longrightarrow> fld a ''attemptToken'' = fld p ''attemptToken''"
      using assms(1) by (auto simp: store_ok_def wal_agrees_def)
    from num [OF k(1) assms(4) [OF Doc]] have "k = m" .
    with k assms(1,3) Doc show ?thesis by (auto simp: wal_agrees_def store_ok_def)
  qed (use assms(1) in \<open>simp_all add: store_ok_def\<close>)
  with assms(1,3) v show ?thesis unfolding store_ok_def docs_apply by (auto intro: exI [of _ m])
qed

lemma store_ok_attempt:
  assumes "store_ok aid fs" "write_ok (Put (Attempt (pad3 i)) v)" "attempt_doc aid i (json_copy v)" "1 \<le> i"
    and "\<And>p. docs fs Wal = Doc p \<Longrightarrow> fld p ''attemptToken'' = json_copy (fld v ''attemptToken'')"
  shows "store_ok aid (apply_write (Put (Attempt (pad3 i)) v) fs)"
proof -
  have v: "isRecord (json_copy v)" "fits_limit (json_copy v)" using assms(2,3) by (simp_all add: write_ok_def attempt_doc_def)
  have att: "good (attempt_doc aid k) (docs (apply_write (Put (Attempt (pad3 i)) v) fs) (Attempt (pad3 k)))" if "1 \<le> k" for k
    using assms(1,3) v that by (cases "k = i") (simp_all add: store_ok_def pad3_inject)
  have "good (wal_agrees aid (apply_write (Put (Attempt (pad3 i)) v) fs)) (docs fs Wal)"
  proof (cases "docs fs Wal")
    case (Doc p)
    with assms(5) have "fld p ''attemptToken'' = json_copy (fld v ''attemptToken'')" by blast
    with assms(1) Doc show ?thesis by (auto simp: store_ok_def wal_agrees_def)
  qed (use assms(1) in \<open>simp_all add: store_ok_def\<close>)
  with assms(1) att show ?thesis unfolding store_ok_def by simp
qed

section \<open>Recovery\<close>

lemma safe_count: "m \<le> MAX_ATTEMPTS \<Longrightarrow> safe_integer (Fin (of_nat m))"
proof -
  assume "m \<le> MAX_ATTEMPTS"
  then have "(of_nat m :: rat) \<le> of_nat MAX_ATTEMPTS" by (rule of_nat_mono)
  then show ?thesis by (auto simp: safe_integer_def num_integer_def num_le_def MAX_ATTEMPTS_def)
qed

lemma pending_fields [simp]:
  "fld (pending_record aid n t s a) ''schemaVersion'' = COMPLETION_WAL_SCHEMA_VERSION"
  "fld (pending_record aid n t s a) ''assignmentId'' = JStr aid" "fld (pending_record aid n t s a) ''attemptNum'' = JNum n"
  "fld (pending_record aid n t s a) ''attemptToken'' = t" "fld (pending_record aid n t s a) ''state'' = s"
  "fld (pending_record aid n t s a) ''attemptRecord'' = a" "isRecord (pending_record aid n t s a)"
  by (simp_all add: pending_record_def)

lemma to_num_JNum [simp]: "to_num (JNum n) = n"
  by (simp add: to_num_def)

lemma strict_eq_refl_str: "is_str v \<Longrightarrow> strict_eq v v"
  by (cases v) (simp_all add: strict_eq_def)

lemma wal_doc_valid: "wal_doc aid m p \<Longrightarrow> \<not> invalid_pending aid p"
proof -
  assume "wal_doc aid m p"
  then obtain s a where p: "p = pending_record aid (Fin (of_nat m)) (fld a ''attemptToken'') s a" and m: "1 \<le> m"
    and s: "state_doc aid m s" and a: "attempt_doc aid m a" and t: "terminal_status (fld s ''status'')" "terminal_status (fld a ''status'')"
    by (auto simp: wal_doc_def)
  have "strict_eq COMPLETION_WAL_SCHEMA_VERSION COMPLETION_WAL_SCHEMA_VERSION" by (simp add: COMPLETION_WAL_SCHEMA_VERSION_def)
  moreover have "\<not> num_lt (Fin (of_nat m)) (Fin 1)" using m by simp
  moreover have "safe_integer (Fin (of_nat m))" using s safe_count by (simp add: state_doc_def)
  ultimately show ?thesis
    using s a m t unfolding invalid_pending_def Let_def p pending_fields
    by (auto simp: state_doc_def attempt_doc_def to_num_def recordValue_def)
qed

lemma pending_of_doc:
  assumes "wal_doc aid m p"
  obtains s a where "p = pending_record aid (Fin (of_nat m)) (fld a ''attemptToken'') s a" "1 \<le> m" "state_doc aid m s" "attempt_doc aid m a"
    "isRecord s" "isRecord a"
  using assms by (auto simp: wal_doc_def state_doc_def attempt_doc_def)

lemma read_pending:
  assumes "store_ok aid fs"
  obtains "readPendingCompletion aid fs = Inr None" "docs fs Wal = Absent"
  | p m where "readPendingCompletion aid fs = Inr (Some p)" "docs fs Wal = Doc p" "wal_doc aid m p"
      "\<And>s. docs fs State = Doc s \<Longrightarrow> state_doc aid m s" "\<And>a. docs fs (Attempt (pad3 m)) = Doc a \<Longrightarrow> fld a ''attemptToken'' = fld p ''attemptToken''"
proof -
  note result = that
  have "good (wal_agrees aid fs) (docs fs Wal)" using assms by (simp add: store_ok_def)
  then show thesis
  proof (cases rule: read_good [where label = "''assignment completion WAL''"])
    case 1
    then show thesis by (intro result(1)) (simp_all add: readPendingCompletion_def)
  next
    case (2 p)
    then obtain m where m: "wal_doc aid m p" "\<And>s. docs fs State = Doc s \<Longrightarrow> state_doc aid m s"
      "\<And>a. docs fs (Attempt (pad3 m)) = Doc a \<Longrightarrow> fld a ''attemptToken'' = fld p ''attemptToken''" by (auto simp: wal_agrees_def)
    from pending_of_doc [OF m(1)] obtain s a where p: "p = pending_record aid (Fin (of_nat m)) (fld a ''attemptToken'') s a"
      "isRecord s" "isRecord a" by metis
    have "readPendingCompletion aid fs = Inr (Some p)"
      using 2(1) wal_doc_valid [OF m(1)] p(2,3) unfolding readPendingCompletion_def
      by (simp add: p(1) recordValue_def)
    from result(2) [OF this 2(2) m] show thesis .
  qed
qed

lemma state_active: "state_doc aid m s \<Longrightarrow> 1 \<le> m \<Longrightarrow> to_num (fld s ''activeAttempt'') = Fin (of_nat m)"
  by (simp add: state_doc_def)

lemma pending_matches_doc:
  assumes "wal_doc aid m p" "case state of None \<Rightarrow> True | Some s \<Rightarrow> state_doc aid m s"
    and "case current of None \<Rightarrow> True | Some a \<Rightarrow> attempt_doc aid m a \<and> fld a ''attemptToken'' = fld p ''attemptToken''"
  shows "pending_matches aid p state current"
proof -
  from assms(1) obtain s a where p: "p = pending_record aid (Fin (of_nat m)) (fld a ''attemptToken'') s a" "1 \<le> m" "attempt_doc aid m a"
    by (auto simp: wal_doc_def)
  then have tok: "strict_eq (fld p ''attemptToken'') (fld p ''attemptToken'')"
    by (intro strict_eq_refl_str) (simp add: attempt_doc_def)
  have num: "to_num (fld p ''attemptNum'') = Fin (of_nat m)" by (simp add: p(1))
  show ?thesis
    unfolding pending_matches_def num
  proof (rule conjI)
    show "case state of None \<Rightarrow> True | Some s \<Rightarrow> (fld s ''assignmentId'' = JUndef \<or> fld s ''assignmentId'' = JStr aid)
         \<and> to_num (fld s ''activeAttempt'') = Fin (of_nat m)"
      using assms(2) p(2) by (cases state) (simp_all add: state_doc_def)
    show "case current of None \<Rightarrow> True | Some a \<Rightarrow> fld a ''assignmentId'' = JStr aid
         \<and> to_num (fld a ''attempt'') = Fin (of_nat m) \<and> strict_eq (fld a ''attemptToken'') (fld p ''attemptToken'')"
    proof (cases current)
      case (Some a')
      with assms(3) have "attempt_doc aid m a'" "fld a' ''attemptToken'' = fld p ''attemptToken''" by simp_all
      with Some tok show ?thesis by (simp only: option.case attempt_doc_def to_num_JNum)
    qed simp
  qed
qed

lemma attempt_doc_json: "attempt_doc aid i a \<Longrightarrow> attempt_doc aid i (json_copy a)"
  by (cases "fld a ''attemptToken''") (auto simp: attempt_doc_def num_finite_def)

lemma state_doc_json: "state_doc aid m s \<Longrightarrow> state_doc aid m (json_copy s)"
  by (auto simp: state_doc_def num_finite_def)

lemma run_only_if: "run_prog (only_if b p) fs = (if b then run_prog p fs else (Inr (), fs))"
  by (simp add: only_if_def)

lemma sound_only_if [sound_rules]: "I fs \<Longrightarrow> (b \<Longrightarrow> sound I p fs) \<Longrightarrow> sound I (only_if b p) fs"
  by (simp add: only_if_def sound_give)

text \<open>In good files recovery always succeeds. It leaves them as they are when there is no log; otherwise the
  state and the attempt of the log are written (unless documents with the same text are there), and the
  log is gone.\<close>

lemma recovery_ok:
  assumes "store_ok aid fs"
  obtains "run_prog (recoverPendingCompletionUnderLock aid) fs = (Inr False, fs)" "docs fs Wal = Absent"
    "sound (store_ok aid) (recoverPendingCompletionUnderLock aid) fs"
  | p m gs where "run_prog (recoverPendingCompletionUnderLock aid) fs = (Inr True, gs)" "docs fs Wal = Doc p" "wal_doc aid m p" "docs gs Wal = Absent"
    "\<And>q. q \<notin> {Wal, State, Attempt (pad3 m)} \<Longrightarrow> docs gs q = docs fs q"
    "docs gs State = Doc (json_copy (fld p ''state'')) \<or> docs gs State = docs fs State \<and> (\<exists>s. docs fs State = Doc s \<and> receiptDeepEqual s (fld p ''state''))"
    "docs gs (Attempt (pad3 m)) = Doc (json_copy (fld p ''attemptRecord''))
       \<or> docs gs (Attempt (pad3 m)) = docs fs (Attempt (pad3 m)) \<and> (\<exists>a. docs fs (Attempt (pad3 m)) = Doc a \<and> receiptDeepEqual a (fld p ''attemptRecord''))"
    "sound (store_ok aid) (recoverPendingCompletionUnderLock aid) fs"
proof -
  note result = that
  from assms show thesis
  proof (cases rule: read_pending)
    case 1
    have "sound (store_ok aid) (recoverPendingCompletionUnderLock aid) fs"
      unfolding recoverPendingCompletionUnderLock_def by (intro sound_rules assms) (simp add: 1 sound_give assms)
    with 1 show thesis by (intro result(1)) (simp_all add: recoverPendingCompletionUnderLock_def)
  next
    case (2 p m)
    from pending_of_doc [OF 2(3)] obtain s a where p: "p = pending_record aid (Fin (of_nat m)) (fld a ''attemptToken'') s a" "1 \<le> m"
      "state_doc aid m s" "attempt_doc aid m a" by metis
    have num: "to_num (fld p ''attemptNum'') = Fin (of_nat m)" and parts: "fld p ''state'' = s" "fld p ''attemptRecord'' = a" by (simp_all add: p(1))
    let ?A = "Attempt (pad3 m)"
    have g1: "good (\<lambda>s. \<exists>m. state_doc aid m s) (docs fs State)" and g2: "good (attempt_doc aid m) (docs fs ?A)"
      using assms p(2) by (simp_all add: store_ok_def)
    obtain state where state: "readStateFile fs = Inr state" "docs fs State = file_of state"
      unfolding readStateFile_def by (rule read_option [OF g1])
    obtain current where current: "readLocalJsonObject ?A (attempt_label (pad3 m)) fs = Inr current" "docs fs ?A = file_of current"
      "\<And>v. current = Some v \<Longrightarrow> attempt_doc aid m v"
      by (rule read_option [OF g2, where label = "attempt_label (pad3 m)"]) blast
    have matches: "pending_matches aid p state current"
    proof (rule pending_matches_doc [OF 2(3)])
      show "case state of None \<Rightarrow> True | Some s \<Rightarrow> state_doc aid m s" using 2(4) state(2) by (cases state) simp_all
      show "case current of None \<Rightarrow> True | Some a \<Rightarrow> attempt_doc aid m a \<and> fld a ''attemptToken'' = fld p ''attemptToken''"
        using 2(5) current(2,3) by (cases current) simp_all
    qed
    let ?sd = "same_document state s" and ?ad = "same_document current a"
    let ?rest = "and_then (only_if (\<not> (?sd \<and> ?ad)) (emit (Mkdir (pad3 m)))) (\<lambda>_. and_then (only_if (\<not> ?ad) (emit (Put ?A a))) (\<lambda>_.
       and_then (only_if (\<not> ?sd) (emit (Put State s))) (\<lambda>_. and_then (emit (Erase Wal)) (\<lambda>_. give True))))"
    have prog: "recoverPendingCompletionUnderLock aid fs = ?rest fs"
      unfolding recoverPendingCompletionUnderLock_def
      by (simp add: 2(1) state(1) current(1) num matches parts Let_def)
    have tok: "fld p ''attemptToken'' = json_copy (fld a ''attemptToken'')"
      using p(4) by (cases "fld a ''attemptToken''") (auto simp: p(1) attempt_doc_def)
    define J where "J gs \<longleftrightarrow> store_ok aid gs \<and> docs gs Wal = Doc p" for gs
    have start: "J fs" using assms 2(2) by (simp add: J_def)
    have J1: "J (apply_write (Mkdir (pad3 m)) gs)" if "J gs" for gs
      using that by (simp add: J_def store_ok_mkdir)
    have J2: "J (apply_write (Put ?A a) gs)" if "J gs" "write_ok (Put ?A a)" for gs
      using that tok by (auto simp: J_def intro!: store_ok_attempt [OF _ that(2) attempt_doc_json [OF p(4)] p(2)])
    have J3: "J (apply_write (Put State s) gs)" if "J gs" "write_ok (Put State s)" for gs
      using that 2(3) by (auto simp: J_def intro!: store_ok_state [OF _ that(2) state_doc_json [OF p(3)]])
    have "sound J (and_then (only_if (\<not> (?sd \<and> ?ad)) (emit (Mkdir (pad3 m)))) (\<lambda>_. and_then (only_if (\<not> ?ad) (emit (Put ?A a))) (\<lambda>_.
       only_if (\<not> ?sd) (emit (Put State s))))) fs" (is "sound J ?first fs")
      by (intro sound_rules start J1 J2 J3)
    then have first: "sound (store_ok aid) ?first fs" by (rule sound_weaken) (simp add: J_def)
    have "sound (store_ok aid) (and_then ?first (\<lambda>_. and_then (emit (Erase Wal)) (\<lambda>_. give True))) fs"
      by (intro sound_rules first store_ok_erase) simp_all
    then have "sound (store_ok aid) ?rest fs" by (simp only: and_then_assoc)
    then have sound: "sound (store_ok aid) (recoverPendingCompletionUnderLock aid) fs"
      by (simp add: sound_def crash_states_def prog)
    define gs where "gs = snd (run_prog ?rest fs)"
    have run: "run_prog (recoverPendingCompletionUnderLock aid) fs = (Inr True, gs)"
      unfolding gs_def run_prog_def prog by (simp add: run_prog_def [symmetric] run_only_if)
    show thesis
    proof (rule result(2) [OF run 2(2,3)])
      show "docs gs Wal = Absent" by (simp add: gs_def run_only_if)
      show "docs gs q = docs fs q" if "q \<notin> {Wal, State, ?A}" for q using that by (simp add: gs_def run_only_if)
      show "docs gs State = Doc (json_copy (fld p ''state'')) \<or> docs gs State = docs fs State \<and> (\<exists>s. docs fs State = Doc s \<and> receiptDeepEqual s (fld p ''state''))"
        using state(2) by (auto simp: gs_def run_only_if parts same_document_def split: option.splits)
      show "docs gs ?A = Doc (json_copy (fld p ''attemptRecord''))
         \<or> docs gs ?A = docs fs ?A \<and> (\<exists>a. docs fs ?A = Doc a \<and> receiptDeepEqual a (fld p ''attemptRecord''))"
        using current(2) by (auto simp: gs_def run_only_if parts same_document_def split: option.splits)
    qed (rule sound)
  qed
qed

section \<open>The operations keep the invariant\<close>

lemma sound_owner: "store_ok aid fs \<Longrightarrow> write_ok (Put Mutation (mutation_owner call aid)) \<Longrightarrow> store_ok aid (apply_write (Put Mutation (mutation_owner call aid)) fs)"
  by (rule store_ok_put) (simp_all add: mutation_owner_def)

lemma sound_recovery: "store_ok aid fs \<Longrightarrow> sound (store_ok aid) (recoverPendingCompletionUnderLock aid) fs"
  by (rule recovery_ok) simp_all

lemma recovered_wal: "store_ok aid fs \<Longrightarrow> run_prog (recoverPendingCompletionUnderLock aid) fs = (Inr b, gs) \<Longrightarrow> docs gs Wal = Absent"
  by (rule recovery_ok [of aid fs]) simp_all

text \<open>Good files without a log, as an operation finds them under the lock.\<close>

definition idle :: "string \<Rightarrow> store_files \<Rightarrow> bool" where
  "idle aid fs = (store_ok aid fs \<and> docs fs Wal = Absent)"

lemma sound_lock:
  assumes "store_ok aid fs" "\<And>t gs. idle aid gs \<Longrightarrow> sound (store_ok aid) (cb t) gs"
  shows "sound (store_ok aid) (withAssignmentLock call True aid cb) fs"
  unfolding withAssignmentLock_def
proof (intro sound_rules assms(1), goal_cases)
  case (2 v fs1)
  then show ?case by (intro sound_owner)
next
  case (3 v fs1 v1 fs2)
  then show ?case by (intro sound_recovery)
next
  case (6 v fs1 v1 fs2 v2 fs3)
  then have "docs fs3 Wal = Absent" by (auto dest: recovered_wal split: prod.splits sum.splits)
  with 6 assms(2) show ?case by (simp add: idle_def)
qed simp_all

lemma sound_relock: "store_ok aid fs \<Longrightarrow> sound (store_ok aid) (withAssignmentLock call False aid (\<lambda>_. recoverPendingCompletionUnderLock aid)) fs"
  unfolding withAssignmentLock_def by (intro sound_rules) (simp_all add: sound_owner sound_recovery)

lemma sound_recover: "store_ok aid fs \<Longrightarrow> sound (store_ok aid) (recoverPendingCompletion call aid) fs"
  unfolding recoverPendingCompletion_def by (intro sound_rules sound_relock) simp_all

lemma good_state: "store_ok aid fs \<Longrightarrow> good (\<lambda>s. \<exists>m. state_doc aid m s) (docs fs State)"
  by (simp add: store_ok_def)

lemma load_active:
  assumes "store_ok aid fs" "run_prog (look (loadActiveAttempt aid n)) fs = (Inr (s, a), gs)"
  obtains m where "gs = fs" "n = Fin (of_nat m)" "1 \<le> m" "docs fs State = Doc s" "docs fs (Attempt (pad3 m)) = Doc a" "state_doc aid m s" "attempt_doc aid m a"
proof -
  note result = that
  have load: "gs = fs" "loadActiveAttempt aid n fs = Inr (s, a)" using assms(2) by auto
  then have s: "readStateFile fs = Inr (Some s)" "to_num (fld s ''activeAttempt'') = n" "num_integer n" "readAttempt aid n fs = Inr a"
    by (auto simp: loadActiveAttempt_def thn_eq_Inr Let_def split: option.splits if_splits)
  then have doc: "docs fs State = Doc s" "docs fs (Attempt (attempt_name n)) = Doc a"
    by (auto simp: readStateFile_def readAttempt_def thn_eq_Inr read_Some split: option.splits)
  from good_state [OF assms(1)] doc(1) obtain m where m: "state_doc aid m s" by auto
  with s(2,3) have n: "n = Fin (of_nat m)" "1 \<le> m"
    by (cases "m = 0"; auto simp: state_doc_def to_num_def num_integer_def)+
  with assms(1) doc(2) have "attempt_doc aid m a" by (auto simp: store_ok_def)
  from result [OF load(1) n doc(1) _ m this] doc(2) n(1) show thesis by simp
qed

lemma fld_set_other: "k \<notin> fst ` set kvs \<Longrightarrow> fld (set_fields kvs e) k = fld e k"
  by (simp add: fld_set_fields map_of_eq_None_iff [THEN iffD2])

lemma fld_spread_other: "k \<notin> fst ` set kvs \<Longrightarrow> fld (JObj (spread (own e) kvs)) k = fld e k"
  using fld_set_other [of k kvs e] by (simp add: set_fields_def)

lemma state_doc_set:
  assumes "state_doc aid m s" "{''assignmentId'', ''attempts'', ''activeAttempt''} \<inter> fst ` set kvs = {}"
  shows "state_doc aid m (set_fields kvs s)"
proof -
  have "k \<notin> fst ` set kvs" if "k \<in> {''assignmentId'', ''attempts'', ''activeAttempt''}" for k using assms(2) that by blast
  then show ?thesis using assms(1) by (simp add: state_doc_def fld_set_other)
qed

lemma attempt_doc_set:
  assumes "attempt_doc aid m s" "{''assignmentId'', ''attempt'', ''attemptToken''} \<inter> fst ` set kvs = {}"
  shows "attempt_doc aid m (set_fields kvs s)"
proof -
  have "k \<notin> fst ` set kvs" if "k \<in> {''assignmentId'', ''attempt'', ''attemptToken''}" for k using assms(2) that by blast
  then show ?thesis using assms(1) by (simp add: attempt_doc_def fld_set_other)
qed

lemma set_fields_spread: "JObj (spread (own v) kvs) = set_fields kvs v"
  by (simp add: set_fields_def)

named_theorems idle_rules

lemma idle_state [idle_rules]: "idle aid fs \<Longrightarrow> write_ok (Put State v) \<Longrightarrow> state_doc aid m v \<Longrightarrow> idle aid (apply_write (Put State v) fs)"
  unfolding idle_def by (intro conjI store_ok_state [OF _ _ state_doc_json]) simp_all

lemma idle_attempt [idle_rules]: "idle aid fs \<Longrightarrow> write_ok (Put (Attempt (pad3 m)) v) \<Longrightarrow> attempt_doc aid m v \<Longrightarrow> 1 \<le> m
    \<Longrightarrow> idle aid (apply_write (Put (Attempt (pad3 m)) v) fs)"
  unfolding idle_def by (intro conjI store_ok_attempt [OF _ _ attempt_doc_json]) simp_all

lemma idle_put [idle_rules]: "idle aid fs \<Longrightarrow> write_ok (Put p v) \<Longrightarrow> isRecord v \<Longrightarrow> p \<in> {Input, Owner, Mutation} \<Longrightarrow> idle aid (apply_write (Put p v) fs)"
  unfolding idle_def by (intro conjI store_ok_put) auto

lemma idle_mkdir [idle_rules]: "idle aid fs \<Longrightarrow> idle aid (apply_write (Mkdir n) fs)"
  unfolding idle_def by (simp add: store_ok_mkdir)

lemma idle_side [idle_rules]: "idle aid fs \<Longrightarrow> p \<in> {Heartbeat n, Result n, Cancel n} \<Longrightarrow> idle aid (apply_write (Put p v) fs)"
  unfolding idle_def by (intro conjI store_ok_side) auto

lemma idle_erase [idle_rules]: "idle aid fs \<Longrightarrow> p \<in> {Input, Owner, State} \<Longrightarrow> idle aid (apply_write (Erase p) fs)"
  unfolding idle_def by (intro conjI store_ok_erase) auto

lemma idle_ok: "idle aid gs \<Longrightarrow> store_ok aid gs"
  by (simp add: idle_def)

lemma sound_lock_idle:
  assumes "store_ok aid fs" "\<And>t gs. idle aid gs \<Longrightarrow> sound (idle aid) (cb t) gs"
  shows "sound (store_ok aid) (withAssignmentLock call True aid cb) fs"
  using assms by (intro sound_lock sound_weaken [OF _ idle_ok])

lemma state_doc_rerouted: "state_doc aid m s \<Longrightarrow> state_doc aid m (rerouted s input)"
  unfolding rerouted_def set_fields_spread by (rule state_doc_set) (simp_all add: not_finalized_def)

lemma state_doc_new: "state_doc aid 0 (set_fields [(''attempts'', jnat 0)] (new_assignment call aid input))"
  by (simp add: state_doc_def fld_set_fields new_assignment_def not_finalized_def)

lemma record_docs: "isRecord (new_assignment call aid input)" "isRecord (rerouted s input)"
  by (simp_all add: new_assignment_def rerouted_def)

lemma sound_getOrCreate:
  assumes "store_ok aid fs" "assignment_of input = aid"
  shows "sound (store_ok aid) (getOrCreateAssignmentForEntry call input) fs"
  unfolding getOrCreateAssignmentForEntry_def Let_def assms(2)
proof (rule sound_lock_idle [OF assms(1)], intro sound_rules, assumption)
  fix t gs state gs1 assume gs: "idle aid gs" and read: "run_prog (look readStateFile) gs = (Inr state, gs1)" and gs1: "idle aid gs1"
  show "sound (idle aid) (case state of
       None \<Rightarrow> and_then (emit (Put Input (new_assignment call aid input))) (\<lambda>_.
         and_then (emit (Put State (set_fields [(''attempts'', jnat 0)] (new_assignment call aid input)))) (\<lambda>_. give (new_assignment call aid input)))
     | Some existing \<Rightarrow> and_then (emit (Put Input (rerouted existing input))) (\<lambda>_. and_then (emit (Put State (rerouted existing input))) (\<lambda>_. give (rerouted existing input)))) gs1"
  proof (cases state)
    case None
    show ?thesis unfolding None option.case using state_doc_new [of aid call input]
      by (intro sound_rules gs1 idle_state [where m = 0] idle_put record_docs) simp_all
  next
    case (Some s)
    with read good_state [OF idle_ok [OF gs]] obtain m where "state_doc aid m s" by (auto simp: readStateFile_def read_Some)
    then show ?thesis unfolding Some option.case by (intro sound_rules gs1 idle_rules state_doc_rerouted record_docs) simp_all
  qed
qed

lemma next_attempt_doc: "state_doc aid m s \<Longrightarrow> next_attempt s = Fin (of_nat (Suc m))"
  by (simp add: next_attempt_def state_doc_def num_succ_def add.commute)

lemma attempt_doc_new: "token \<noteq> [] \<Longrightarrow> attempt_doc aid i (new_attempt call aid (Fin (of_nat i)) e p w ep token)"
  by (simp add: attempt_doc_def new_attempt_def)

lemma state_doc_next:
  "state_doc aid m s \<Longrightarrow> Suc m \<le> MAX_ATTEMPTS \<Longrightarrow> v = Fin (of_nat (Suc m))
    \<Longrightarrow> state_doc aid (Suc m) (set_fields [(''attempts'', JNum v), (''activeAttempt'', JNum v), (''status'', st), (''assignedAt'', t), (''workerId'', w)] s)"
  by (simp add: state_doc_def fld_set_fields)

lemma write_ok_count: "write_ok (Put State v) \<Longrightarrow> fld v ''attempts'' = jnat m \<Longrightarrow> m \<le> MAX_ATTEMPTS"
  by (simp add: write_ok_def)

lemma state_of:
  assumes "idle aid gs" "run_prog (look readStateFile) gs = (Inr state, gs1)"
  obtains "state = None" | s m where "state = Some s" "state_doc aid m s"
  using assms(2) good_state [OF idle_ok [OF assms(1)]] by (cases state) (auto simp: readStateFile_def read_Some)

lemma sound_createAttempt:
  assumes "store_ok aid fs" "token \<noteq> []"
  shows "sound (store_ok aid) (createAttempt call aid input token) fs"
  unfolding createAttempt_def
proof (rule sound_lock_idle [OF assms(1)], rule sound_and_then [OF sound_look], assumption)
  fix t gs state gs1 assume gs: "idle aid gs" and read: "run_prog (look readStateFile) gs = (Inr state, gs1)" and gs1: "idle aid gs1"
  from gs read show "sound (idle aid) (case state of
        None \<Rightarrow> fail_with (NoCode (''assignment not found: '' @ aid))
      | Some state \<Rightarrow>
          let n = next_attempt state; name = attempt_name n;
              worker = (if is_str (fld input ''workerId'') then fld input ''workerId'' else JUndef);
              attempt = new_attempt call aid n (JStr (to_str (or_else (fld state ''entryId'') (JStr []))))
                (JStr (to_str (or_else (fld state ''projectId'') (JStr [])))) worker (fld input ''orchestratorEpoch'') token
          in and_then (emit (Mkdir name)) (\<lambda>_.
             and_then (emit (Put (Attempt name) attempt)) (\<lambda>_.
             and_then (emit (Put State (set_fields [(''attempts'', JNum n), (''activeAttempt'', JNum n), (''status'', JStr ''assigned''),
                (''assignedAt'', stamp call ''assignedAt''), (''workerId'', worker)] state))) (\<lambda>_. give attempt)))) gs1"
  proof (cases rule: state_of)
    case (2 s m)
    have n: "next_attempt s = Fin (of_nat (Suc m))" by (rule next_attempt_doc [OF 2(2)])
    have next_state: "idle aid (apply_write (Put State (set_fields [(''attempts'', JNum (Fin (of_nat (Suc m)))), (''activeAttempt'', JNum (Fin (of_nat (Suc m)))),
        (''status'', st), (''assignedAt'', t), (''workerId'', w)] s)) gs)"
      if "idle aid gs" "write_ok (Put State (set_fields [(''attempts'', JNum (Fin (of_nat (Suc m)))), (''activeAttempt'', JNum (Fin (of_nat (Suc m)))),
        (''status'', st), (''assignedAt'', t), (''workerId'', w)] s))" for gs st t w
    proof (rule idle_state [OF that])
      have "Suc m \<le> MAX_ATTEMPTS" by (rule write_ok_count [OF that(2)]) (simp add: fld_set_fields)
      then show "state_doc aid (Suc m) (set_fields [(''attempts'', JNum (Fin (of_nat (Suc m)))), (''activeAttempt'', JNum (Fin (of_nat (Suc m)))),
        (''status'', st), (''assignedAt'', t), (''workerId'', w)] s)" by (rule state_doc_next [OF 2(2) _ refl])
    qed
    show ?thesis
      unfolding 2(1) option.case Let_def n attempt_name_nat
      by (intro sound_rules gs1 idle_mkdir idle_attempt next_state attempt_doc_new assms(2)) simp_all
  qed (simp add: gs1 sound_fail)
qed

text \<open>The operations on the active attempt.\<close>

lemma sound_active:
  assumes "idle aid gs" "I gs"
    and "\<And>s a m. n = Fin (of_nat m) \<Longrightarrow> 1 \<le> m \<Longrightarrow> docs gs State = Doc s \<Longrightarrow> docs gs (Attempt (pad3 m)) = Doc a
       \<Longrightarrow> state_doc aid m s \<Longrightarrow> attempt_doc aid m a \<Longrightarrow> idle aid gs \<Longrightarrow> sound I (f (s, a)) gs"
  shows "sound I (and_then (look (loadActiveAttempt aid n)) f) gs"
proof (rule sound_and_then)
  show "sound I (look (loadActiveAttempt aid n)) gs" by (rule sound_look [where I = I, OF assms(2)])
  fix v gs1 assume run: "run_prog (look (loadActiveAttempt aid n)) gs = (Inr v, gs1)"
  obtain s a where v: "v = (s, a)" by (cases v)
  show "sound I (f v) gs1"
    unfolding v by (rule load_active [OF idle_ok [OF assms(1)] run [unfolded v]]) (use assms(1,3) in simp)
qed

lemma sound_checked: "(\<And>v. sound I (f v) gs) \<Longrightarrow> I gs \<Longrightarrow> sound I (and_then (look (\<lambda>_. c)) f) gs"
  by (intro sound_rules) auto

lemma sound_markRunning:
  assumes "store_ok aid fs"
  shows "sound (store_ok aid) (markRunning call aid n who) fs"
  unfolding markRunning_def
proof (rule sound_lock_idle [OF assms], rule sound_active, assumption, assumption, goal_cases)
  case (1 t gs s a m)
  then show ?case
    unfolding prod.case 1(2) attempt_name_nat
    by (intro sound_checked sound_rules idle_attempt idle_state state_doc_set attempt_doc_set) simp_all
qed

lemma sound_heartbeat: "store_ok aid fs \<Longrightarrow> sound (store_ok aid) (recordHeartbeat call n v) fs"
  unfolding recordHeartbeat_def by (intro sound_rules store_ok_side) auto

lemma state_doc_completed: "state_doc aid m s \<Longrightarrow> state_doc aid m (completed_state time result s)"
  unfolding completed_state_def Let_def set_fields_spread by (intro state_doc_set) simp_all

lemma attempt_doc_completed: "attempt_doc aid m a \<Longrightarrow> attempt_doc aid m (completed_attempt time result a)"
  unfolding completed_attempt_def set_fields_spread by (intro attempt_doc_set) simp_all

lemma completed_fields:
  "fld (completed_state time result s) ''status'' = terminalStatusFromResult (fld result ''status'')"
  "fld (completed_attempt time result a) ''status'' = terminalStatusFromResult (fld result ''status'')"
  "fld (completed_attempt time result a) ''attemptToken'' = fld a ''attemptToken''"
  by (simp_all add: completed_state_def completed_attempt_def fld_set_fields fld_spread_own)

lemma terminal_result: "terminal_status (terminalStatusFromResult v)"
  by (auto simp: terminalStatusFromResult_def terminal_status_def TERMINAL_ASSIGNMENT_STATUSES_def or_else_def)

lemma json_terminal: "json_copy (terminalStatusFromResult v) = terminalStatusFromResult v"
  by (simp add: terminalStatusFromResult_def json_copy_str)

definition completion_log :: "string \<Rightarrow> nat \<Rightarrow> js \<Rightarrow> js \<Rightarrow> js \<Rightarrow> js \<Rightarrow> js" where
  "completion_log aid m time result s a = pending_record aid (Fin (of_nat m)) (fld a ''attemptToken'') (completed_state time result s) (completed_attempt time result a)"

lemma completion_log_doc:
  assumes "state_doc aid m s" "attempt_doc aid m a" "1 \<le> m"
  shows "wal_doc aid m (json_copy (completion_log aid m time result s a))"
proof -
  let ?s = "completed_state time result s" and ?a = "completed_attempt time result a"
  have docs: "state_doc aid m ?s" "attempt_doc aid m ?a" using assms state_doc_completed attempt_doc_completed by blast+
  then have "?s \<noteq> JUndef" "?a \<noteq> JUndef" "fld a ''attemptToken'' \<noteq> JUndef"
    using assms(2) by (auto simp: state_doc_def attempt_doc_def)
  then have "json_copy (completion_log aid m time result s a)
     = pending_record aid (Fin (of_nat m)) (json_copy (fld a ''attemptToken'')) (json_copy ?s) (json_copy ?a)"
    by (simp add: completion_log_def pending_record_def COMPLETION_WAL_SCHEMA_VERSION_def num_finite_def obj_get_def)
  moreover have "json_copy (fld a ''attemptToken'') = fld (json_copy ?a) ''attemptToken''" by (simp add: completed_fields)
  moreover have "terminal_status (fld (json_copy ?s) ''status'')" "terminal_status (fld (json_copy ?a) ''status'')"
    by (simp_all add: completed_fields json_terminal terminal_result)
  ultimately show ?thesis
    unfolding wal_doc_def using assms(3) state_doc_json [OF docs(1)] attempt_doc_json [OF docs(2)] by metis
qed

lemma log_fields:
  assumes "attempt_doc aid m a"
  shows "fld (json_copy (completion_log aid m time result s a)) ''attemptToken'' = fld a ''attemptToken''"
  using assms by (cases "fld a ''attemptToken''") (auto simp: completion_log_def attempt_doc_def)

lemma store_ok_log:
  assumes "idle aid gs" "docs gs State = Doc s" "docs gs (Attempt (pad3 m)) = Doc a" "state_doc aid m s" "attempt_doc aid m a" "1 \<le> m"
    and "write_ok (Put Wal (completion_log aid m time result s a))"
  shows "store_ok aid (apply_write (Put Wal (completion_log aid m time result s a)) gs)"
proof -
  let ?p = "json_copy (completion_log aid m time result s a)"
  have "wal_agrees aid (apply_write (Put Wal (completion_log aid m time result s a)) gs) ?p"
    unfolding wal_agrees_def using assms completion_log_doc [OF assms(4-6)] log_fields [OF assms(5)]
    by (intro exI [of _ m]) simp
  moreover have "isRecord ?p" "fits_limit ?p" using assms(7) by (simp_all add: completion_log_def write_ok_def)
  ultimately show ?thesis using idle_ok [OF assms(1)] by (simp add: store_ok_def)
qed

definition logged :: "string \<Rightarrow> nat \<Rightarrow> js \<Rightarrow> store_files \<Rightarrow> bool" where
  \<comment> \<open>good files with a log\<close>
  "logged aid m p fs = (store_ok aid fs \<and> docs fs Wal = Doc p \<and> wal_doc aid m p)"

lemma sound_complete:
  assumes "store_ok aid fs"
  shows "sound (store_ok aid) (completeAttemptFromExistingResult call aid n result) fs"
  unfolding completeAttemptFromExistingResult_def
proof (rule sound_lock [OF assms], rule sound_active, assumption, erule idle_ok, goal_cases)
  case (1 t gs s a m)
  let ?time = "stamp call ''completedAt''"
  let ?a = "completed_attempt ?time result a" and ?s = "completed_state ?time result s" and ?log = "completion_log aid m ?time result s a"
  define p where "p = json_copy ?log"
  have wal: "wal_doc aid m p" unfolding p_def by (rule completion_log_doc [OF 1(6,7,3)])
  have tok: "fld p ''attemptToken'' = json_copy (fld ?a ''attemptToken'')"
    using log_fields [OF 1(7)] 1(7) by (cases "fld a ''attemptToken''") (auto simp: p_def completed_fields attempt_doc_def)
  have J1: "logged aid m p (apply_write (Put (Attempt (pad3 m)) ?a) hs)" if "logged aid m p hs" "write_ok (Put (Attempt (pad3 m)) ?a)" for hs
    using that tok wal by (auto simp: logged_def intro!: store_ok_attempt [OF _ that(2) attempt_doc_json [OF attempt_doc_completed [OF 1(7)]] 1(3)])
  have J2: "logged aid m p (apply_write (Put State ?s) hs)" if "logged aid m p hs" "write_ok (Put State ?s)" for hs
    using that wal by (auto simp: logged_def intro!: store_ok_state [OF _ that(2) state_doc_json [OF state_doc_completed [OF 1(6)]]])
  have rest: "sound (logged aid m p) (and_then (emit (Put (Attempt (pad3 m)) ?a)) (\<lambda>_. emit (Put State ?s))) hs" if "logged aid m p hs" for hs
    by (intro sound_rules that J1 J2)
  have rest': "sound (store_ok aid) (and_then (emit (Put (Attempt (pad3 m)) ?a)) (\<lambda>_. and_then (emit (Put State ?s)) (\<lambda>_. and_then (emit (Erase Wal)) (\<lambda>_. give True)))) hs"
    if "logged aid m p hs" for hs
  proof -
    have "sound (store_ok aid) (and_then (and_then (emit (Put (Attempt (pad3 m)) ?a)) (\<lambda>_. emit (Put State ?s))) (\<lambda>_. and_then (emit (Erase Wal)) (\<lambda>_. give True))) hs"
      by (intro sound_rules sound_weaken [OF rest [OF that]] store_ok_erase) (simp_all add: logged_def)
    then show ?thesis by (simp only: and_then_assoc)
  qed
  have "sound (store_ok aid) (and_then (emit (Put Wal ?log)) (\<lambda>_. and_then (emit (Put (Attempt (pad3 m)) ?a)) (\<lambda>_. and_then (emit (Put State ?s)) (\<lambda>_. and_then (emit (Erase Wal)) (\<lambda>_. give True))))) gs"
  proof (rule sound_and_then)
    show "sound (store_ok aid) (emit (Put Wal ?log)) gs"
      by (intro sound_emit idle_ok [OF 1(1)] store_ok_log [OF 1(1,4,5,6,7,3)])
    fix v hs assume "run_prog (emit (Put Wal ?log)) gs = (Inr v, hs)" "store_ok aid hs"
    then have "logged aid m p hs" using wal by (auto simp: logged_def p_def)
    then show "sound (store_ok aid) (and_then (emit (Put (Attempt (pad3 m)) ?a)) (\<lambda>_. and_then (emit (Put State ?s)) (\<lambda>_.
        and_then (emit (Erase Wal)) (\<lambda>_. give True)))) hs" by (rule rest')
  qed
  then show ?case
    unfolding prod.case 1(2) attempt_name_nat Let_def completion_log_def
    by (intro sound_checked sound_if sound_give idle_ok [OF 1(1)])
qed

lemma sound_synthetic:
  assumes "store_ok aid fs"
  shows "sound (store_ok aid) (writeSyntheticFailure call aid n result) fs"
  unfolding writeSyntheticFailure_def
proof (rule sound_lock_idle [OF assms], rule sound_active, assumption, assumption, goal_cases)
  case (1 t gs s a m)
  then show ?case
    unfolding prod.case 1(2) attempt_name_nat Let_def
    by (intro sound_checked sound_rules idle_side [where n = "pad3 m"] idle_attempt idle_state state_doc_set attempt_doc_set) simp_all
qed

lemma step_fields: "step @ ''FinalizedAt'' \<notin> {''assignmentId'', ''attempts'', ''activeAttempt''}"
proof -
  have "rev (step @ ''FinalizedAt'') \<noteq> rev k" if "k \<in> {''assignmentId'', ''attempts'', ''activeAttempt''}" for k
    using that by auto
  then show ?thesis by blast
qed

lemma sound_markFinalized:
  assumes "store_ok aid fs"
  shows "sound (store_ok aid) (markFinalized call aid step) fs"
  unfolding markFinalized_def
proof (rule sound_lock_idle [OF assms], rule sound_and_then, rule sound_look, assumption, goal_cases)
  case (1 t gs state gs1)
  from 1(1,2) show ?case
  proof (cases rule: state_of)
    case (2 s m)
    show ?thesis
      unfolding 2(1) option.case Let_def using step_fields [of step]
      by (intro sound_rules 1(3) idle_state [where m = m] state_doc_set [OF 2(2)]) auto
  qed (simp add: 1 sound_give)
qed

lemma sound_assert:
  assumes "store_ok aid fs"
  shows "sound (store_ok aid) (assertActiveAttemptIdentity call aid n who) fs"
  unfolding assertActiveAttemptIdentity_def
  by (rule sound_lock_idle [OF assms], rule sound_active) (auto intro!: sound_checked sound_rules)

lemma sound_writeCancel:
  assumes "store_ok aid fs"
  shows "sound (store_ok aid) (writeCancel call aid n reason) fs"
  unfolding writeCancel_def
  by (rule sound_lock_idle [OF assms], rule sound_active) (auto intro!: sound_rules idle_mkdir idle_side)

lemma sound_getAssignment: "store_ok aid fs \<Longrightarrow> sound (store_ok aid) (getAssignment call aid) fs"
  unfolding getAssignment_def readState_def by (intro sound_rules sound_recover)

section \<open>Names of attempts\<close>

lemma digits_number:
  assumes "s \<noteq> []" "list_all is_digit s"
  shows "string_to_num s = Fin (of_nat (nat_of_digits s))"
proof -
  have space: "\<not> is_space c" if "is_digit c" for c using that by (auto simp: is_digit_def is_space_def)
  obtain c r where s: "s = c # r" using assms(1) by (cases s) simp_all
  have ends: "\<not> is_space (hd s)" "\<not> is_space (last s)" using assms space by (cases s; auto simp: list_all_iff)+
  have "trimStart s = s" using ends s by (simp add: trimStart_def)
  moreover have "trimEnd s = s" using ends(2) assms(1) by (cases s rule: rev_cases) (simp_all add: trimEnd_def)
  ultimately have "trim s = s" by (simp add: trim_def)
  moreover have "parse_unsigned s = Fin (of_nat (nat_of_digits s))"
  proof -
    have inf: "s \<noteq> ''Infinity''" using assms(2) by (auto simp: is_digit_def)
    have all: "takeWhile is_digit s = s" "dropWhile is_digit s = []" using assms(2) by (auto simp: takeWhile_eq_all_conv dropWhile_eq_Nil_conv list_all_iff)
    show ?thesis unfolding parse_unsigned_def all Let_def using assms(1) inf by (simp add: parse_exponent_def)
  qed
  moreover have "c \<noteq> CHR ''-''" "c \<noteq> CHR ''+''" using assms(2) s by (auto simp: is_digit_def)
  ultimately show ?thesis unfolding string_to_num_def s by simp
qed

lemma show_nat_digits: "show_nat n \<noteq> []" "list_all is_digit (show_nat n)"
proof -
  note digit = digit_char(2)
  show "list_all is_digit (show_nat n)"
  proof (induction n rule: show_nat.induct)
    case (1 n)
    then show ?case by (subst show_nat.simps) (auto simp: digit)
  qed
  show "show_nat n \<noteq> []" by (subst show_nat.simps) simp
qed

lemma attempt_key [simp]: "show_num (Fin (of_nat i)) = show_nat i"
  by (simp add: show_num_def show_rat_def show_int_def)

lemma attempt_key_number [simp]: "string_to_num (show_nat i) = Fin (of_nat i)"
  using digits_number [OF show_nat_digits] by simp

lemma whole_number: "num_integer n \<Longrightarrow> num_le (Fin 1) n \<Longrightarrow> \<exists>i\<ge>1. n = Fin (of_nat i)"
proof -
  assume n: "num_integer n" "num_le (Fin 1) n"
  then obtain x where x: "n = Fin x" "of_int \<lfloor>x\<rfloor> = x" by (auto simp: num_integer_def split: jsnum.splits)
  with n(2) have "1 \<le> x" by (auto simp: num_le_def)
  then have le: "1 \<le> \<lfloor>x\<rfloor>" by simp
  moreover have "of_nat (nat \<lfloor>x\<rfloor>) = x" using le x(2) of_int_of_nat_eq [of "nat \<lfloor>x\<rfloor>", where 'a = rat] by simp
  moreover have "1 \<le> nat \<lfloor>x\<rfloor>" using le by linarith
  ultimately show ?thesis using x(1) by metis
qed

lemma sound_run_each:
  assumes "\<forall>p\<in>set ps. \<forall>gs. I gs \<longrightarrow> sound I p gs" "I fs"
  shows "sound I (run_each ps) fs"
  using assms by (induction ps arbitrary: fs) (auto intro!: sound_rules sound_settle)

section \<open>Enqueueing keeps the invariant\<close>

lemma idle_isolate [idle_rules]: "idle aid fs \<Longrightarrow> idle aid (apply_write (Isolate n r) fs)"
  unfolding idle_def store_ok_def by (simp add: apply_write.simps)

lemma idle_isolate_all [idle_rules]: "idle aid fs \<Longrightarrow> idle aid (apply_write Isolate_all fs)"
  unfolding idle_def store_ok_def by (simp add: apply_write.simps)

definition attempts_ok :: "string \<Rightarrow> (string \<times> js) list \<Rightarrow> bool" where
  "attempts_ok aid attempts = (\<forall>(k, a)\<in>set attempts. \<exists>i\<ge>1. k = show_nat i \<and> attempt_doc aid i a)"

definition document_ok :: "string \<Rightarrow> nat \<Rightarrow> js \<Rightarrow> bool" where
  \<comment> \<open>with that many attempts, null for none\<close>
  "document_ok aid m d = (if d = JNull then m = 0 else \<exists>input state attempts. d = document input state attempts \<and> isRecord input
     \<and> state_doc aid m state \<and> attempts_ok aid attempts)"

lemma document_fields [simp]:
  "fld (document i s a) ''input'' = i" "fld (document i s a) ''state'' = s" "fld (document i s a) ''attempts'' = JObj a" "document i s a \<noteq> JNull"
  by (simp_all add: document_def)

lemma set_obj_set: "set (obj_set k v kvs) \<subseteq> insert (k, v) (set kvs)"
  by (induction kvs) (auto simp: obj_set_def)

lemma snapshot_attempts:
  assumes "store_ok aid fs" "fold_r (snapshot_entry aid fs) es acc = Inr (attempts, foreign)" "attempts_ok aid (fst acc)"
  shows "attempts_ok aid attempts"
  using assms(2,3)
proof (induction es arbitrary: acc)
  case (Cons e es)
  from Cons.prems(1) obtain acc1 where acc1: "snapshot_entry aid fs e acc = Inr acc1" "fold_r (snapshot_entry aid fs) es acc1 = Inr (attempts, foreign)"
    by (auto simp: thn_eq_Inr)
  have "attempts_ok aid (fst acc1)"
  proof (cases "attempt_dir e")
    case None
    with acc1(1) Cons.prems(2) show ?thesis by (auto simp: snapshot_entry_def)
  next
    case (Some n)
    then have n: "num_integer n" "num_le (Fin 1) n" "attempt_name n = fst e" by (auto simp: attempt_dir_def Let_def split: if_splits)
    from whole_number [OF n(1,2)] obtain i where i: "1 \<le> i" "n = Fin (of_nat i)" by blast
    with n(3) have e: "fst e = pad3 i" by simp
    from assms(1) i(1) have "good (attempt_doc aid i) (docs fs (Attempt (pad3 i)))" by (simp add: store_ok_def)
    then show ?thesis
    proof (cases rule: read_good [where label = "attempt_label (pad3 i)"])
      case 1
      with acc1(1) Cons.prems(2) Some show ?thesis by (auto simp: snapshot_entry_def e)
    next
      case (2 v)
      then have "fst acc1 = obj_set (show_nat i) v (fst acc)" using acc1(1) Some by (auto simp: snapshot_entry_def e i attempt_doc_def)
      moreover have "attempts_ok aid (obj_set (show_nat i) v (fst acc))"
        using Cons.prems(2) set_obj_set [of "show_nat i" v "fst acc"] i(1) 2(5) unfolding attempts_ok_def by blast
      ultimately show ?thesis by simp
    qed
  qed
  from Cons.IH [OF acc1(2) this] show ?case .
qed simp

lemma previous_document:
  assumes "store_ok aid fs" "localDocumentSnapshot aid fs = Inr sn" "documentFromLocalSnapshot aid sn = Inr d"
  obtains m where "document_ok aid m d" "\<And>s v. sn = Some s \<Longrightarrow> sn_owner s = Some v \<Longrightarrow> isRecord v" "sn = None \<longleftrightarrow> d = JNull"
proof -
  note result = that
  show thesis
  proof (cases sn)
    case None
    with assms(3) show thesis by (intro result [of 0]) (auto simp: documentFromLocalSnapshot_def document_ok_def)
  next
    case (Some s)
    with assms(3) obtain input state where d: "sn_input s = Some input" "sn_state s = Some state" "d = document input state (sn_attempts s)"
      by (auto simp: documentFromLocalSnapshot_def split: option.splits if_splits)
    from assms(2) Some obtain foreign where s: "readLocalJsonObject Input ''assignment input'' fs = Inr (sn_input s)"
      "readLocalJsonObject State ''assignment state'' fs = Inr (sn_state s)" "readLocalJsonObject Owner ''assignment enqueue owner'' fs = Inr (sn_owner s)"
      "fold_r (snapshot_entry aid fs) (listing fs) ([], []) = Inr (sn_attempts s, foreign)"
      by (auto simp: localDocumentSnapshot_def thn_eq_Inr split: if_splits)
    from s(1) d(1) have "isRecord input" by (simp add: read_Some)
    moreover from s(2) d(2) good_state [OF assms(1)] obtain m where "state_doc aid m state" by (auto simp: read_Some)
    moreover have "attempts_ok aid (sn_attempts s)" by (rule snapshot_attempts [OF assms(1) s(4)]) (simp add: attempts_ok_def)
    ultimately have "document_ok aid m d" using d(3) by (auto simp: document_ok_def)
    then show thesis using Some d(3) s(3) by (intro result) (auto simp: read_Some)
  qed
qed

lemma sound_isolate: "idle aid gs \<Longrightarrow> sound (idle aid) (isolate name r) gs"
  unfolding isolate_def by (intro sound_rules) (auto split: option.splits intro!: sound_rules idle_rules)

lemma sound_restore:
  assumes "document_ok aid m previous" "\<And>v. owner = Some v \<Longrightarrow> isRecord v" "idle aid gs"
  shows "sound (idle aid) (restoreDocumentComponents previous com owner random) gs"
proof -
  have "sound (idle aid) p hs" if p: "p \<in> set (restore_operations previous com owner random)" and hs: "idle aid hs" for p hs
  proof (cases "previous = JNull")
    case True
    with p hs show ?thesis by (auto simp: restore_operations_def intro!: sound_rules idle_rules)
  next
    case False
    with assms(1) obtain input state attempts where d: "previous = document input state attempts" "isRecord input" "state_doc aid m state"
      "attempts_ok aid attempts" by (auto simp: document_ok_def)
    consider "p = emit (Put Input input)" | "p = emit (Put State state)" | "p = emit (Erase Owner)" | v where "p = emit (Put Owner v)" "isRecord v"
      | k r where "p = isolate k r" | k a where "(k, a) \<in> set attempts" "p = emit (Put (Attempt (attempt_name (string_to_num k))) a)"
      using p assms(2) by (cases owner) (auto simp: restore_operations_def d(1) set_entries)
    then show ?thesis
    proof cases
      case 5
      then show ?thesis using sound_isolate [OF hs] by simp
    next
      case (6 k a)
      with d(4) obtain i where i: "1 \<le> i" "k = show_nat i" "attempt_doc aid i a" by (auto simp: attempts_ok_def)
      show ?thesis unfolding 6(2) i(2) attempt_key_number attempt_name_nat by (intro sound_rules hs idle_attempt i(1,3))
    next
      case 2
      show ?thesis unfolding 2 by (intro sound_rules hs idle_state [OF _ _ d(3)])
    qed (use hs d(2) in \<open>auto intro!: sound_rules idle_put idle_erase\<close>)
  qed
  then have "sound (idle aid) (run_each (restore_operations previous com owner random)) gs"
    by (intro sound_run_each assms(3)) blast
  then show ?thesis unfolding restoreDocumentComponents_def by (intro sound_rules)
qed

lemma sound_undo:
  assumes "document_ok aid m previous" "\<And>v. owner = Some v \<Longrightarrow> isRecord v" "idle aid gs"
  shows "sound (idle aid) (restoreEnqueueAfterFailure aid previous com owner committedOwner random err) gs"
  unfolding restoreEnqueueAfterFailure_def restoreDocument_def
  by (intro sound_rules sound_settle sound_restore [OF assms(1)] assms(2,3)) auto

lemma next_of_document: "document_ok aid m d \<Longrightarrow> next_attempt (fld d ''state'') = Fin (of_nat (Suc m))"
proof (cases "d = JNull")
  case False
  moreover assume "document_ok aid m d"
  ultimately obtain s where "fld d ''state'' = s" "state_doc aid m s" by (auto simp: document_ok_def)
  then show ?thesis by (simp only: next_attempt_doc)
qed (simp add: document_ok_def next_attempt_def num_succ_def)

lemma enqueued_assignment_record: "isRecord (enqueued_assignment call aid previous input)"
  by (simp add: enqueued_assignment_def record_docs)

lemma enqueued_attempt_doc:
  "ec_attemptToken call \<noteq> [] \<Longrightarrow> attempt_doc aid i (enqueued_attempt call aid (Fin (of_nat i)) assignment)"
  unfolding enqueued_attempt_def by (intro attempt_doc_json attempt_doc_new)

lemma enqueued_assignment_id:
  assumes "document_ok aid m previous"
  shows "fld (enqueued_assignment lc aid previous input) ''assignmentId'' = JStr aid"
proof (cases "previous = JNull")
  case True
  have "fld (new_assignment lc aid input) ''assignmentId'' = JStr aid" by (simp add: new_assignment_def)
  with True show ?thesis by (simp add: enqueued_assignment_def)
next
  case False
  with assms obtain s where s: "fld previous ''state'' = s" "state_doc aid m s" by (auto simp: document_ok_def)
  have "fld (rerouted s input) ''assignmentId'' = JStr aid" using state_doc_rerouted [OF s(2)] by (simp only: state_doc_def)
  with s(1) False show ?thesis by (simp add: enqueued_assignment_def)
qed

lemma enqueued_state_count: "fld (enqueued_state call (Fin x) a) ''attempts'' = JNum (Fin x)"
  unfolding enqueued_state_def set_fields_spread fld_json_copy by (simp add: fld_set_fields num_finite_def)

lemma enqueued_state_doc:
  assumes "document_ok aid m previous" "Suc m \<le> MAX_ATTEMPTS"
  shows "state_doc aid (Suc m) (enqueued_state call (Fin (of_nat (Suc m))) (enqueued_assignment lc aid previous input))"
  unfolding enqueued_state_def set_fields_spread
proof (rule state_doc_json)
  show "state_doc aid (Suc m) (set_fields [(''attempts'', jnat (Suc m)), (''activeAttempt'', jnat (Suc m)), (''status'', JStr ''assigned''),
      (''assignedAt'', stamp (ec_lock call) ''assignedAt''), (''workerId'', ec_workerId call)] (enqueued_assignment lc aid previous input))"
    unfolding state_doc_def using assms(2) enqueued_assignment_id [OF assms(1)] by (simp add: fld_set_fields)
qed

lemma sound_enqueue_writes:
  assumes "document_ok aid m previous" "ec_attemptToken call \<noteq> []" "idle aid gs"
  shows "sound (idle aid) (emit_all (enqueue_writes (Fin (of_nat (Suc m))) (enqueued_document call aid previous input) (enqueue_owner call aid (Fin (of_nat (Suc m))))) fault) gs"
proof (rule sound_emit_all [where I = "idle aid", OF assms(3)])
  let ?a = "enqueued_assignment (ec_lock call) aid previous input" and ?n = "Fin (of_nat (Suc m)) :: jsnum"
  have ws: "enqueue_writes ?n (enqueued_document call aid previous input) (enqueue_owner call aid ?n)
     = [Put Input ?a, Mkdir (pad3 (Suc m)), Put (Attempt (pad3 (Suc m))) (enqueued_attempt call aid ?n ?a), Put State (enqueued_state call ?n ?a),
        Put Owner (enqueue_owner call aid ?n)]" (is "_ = ?ws")
    unfolding enqueue_writes_def enqueued_document_def Let_def next_of_document [OF assms(1)] document_fields attempt_name_nat
    by (simp add: fld_obj_set)
  fix k hs assume k: "k < length (enqueue_writes ?n (enqueued_document call aid previous input) (enqueue_owner call aid ?n))" and hs: "idle aid hs"
    and ok: "write_ok (enqueue_writes ?n (enqueued_document call aid previous input) (enqueue_owner call aid ?n) ! k)"
  have state: "idle aid (apply_write (Put State (enqueued_state call ?n ?a)) hs)" if ok: "write_ok (Put State (enqueued_state call ?n ?a))"
  proof (rule idle_state [OF hs ok])
    have "Suc m \<le> MAX_ATTEMPTS" by (rule write_ok_count [OF ok enqueued_state_count])
    then show "state_doc aid (Suc m) (enqueued_state call ?n ?a)" by (rule enqueued_state_doc [OF assms(1)])
  qed
  have "idle aid (apply_write w hs)" if "w \<in> set ?ws" "write_ok w" for w
  proof -
    from that(1) consider "w = Put Input ?a" | "w = Mkdir (pad3 (Suc m))" | "w = Put (Attempt (pad3 (Suc m))) (enqueued_attempt call aid ?n ?a)"
      | "w = Put State (enqueued_state call ?n ?a)" | "w = Put Owner (enqueue_owner call aid ?n)" by (simp only: list.set insert_iff empty_iff) blast
    then show ?thesis
    proof cases
      case 3
      with that(2) show ?thesis by (simp only:) (intro idle_attempt hs enqueued_attempt_doc [OF assms(2)], assumption, simp)
    next
      case 4
      with that(2) state show ?thesis by (simp only:)
    qed (use hs that(2) in \<open>auto intro!: idle_put idle_mkdir simp: enqueued_assignment_record enqueue_owner_def\<close>)
  qed
  moreover have "?ws ! k \<in> set ?ws" using k unfolding ws by (rule nth_mem)
  ultimately show "idle aid (apply_write (enqueue_writes ?n (enqueued_document call aid previous input) (enqueue_owner call aid ?n) ! k) hs)"
    using ok unfolding ws by blast
qed

lemma sound_enqueueUnderLock:
  assumes "idle aid gs" "ec_attemptToken call \<noteq> []"
  shows "sound (idle aid) (enqueueUnderLock call aid input) gs"
  unfolding enqueueUnderLock_def
proof (rule sound_look_then, rule assms(1), rule sound_look_then, rule assms(1))
  fix sn previous assume same: "localDocumentSnapshot aid gs = Inr sn" "documentFromLocalSnapshot aid sn = Inr previous"
  let ?owner = "case sn of None \<Rightarrow> None | Some s \<Rightarrow> sn_owner s"
  obtain m where m: "document_ok aid m previous" "\<And>v. ?owner = Some v \<Longrightarrow> isRecord v"
    by (rule previous_document [OF idle_ok [OF assms(1)] same]) (cases sn, auto)
  show "sound (idle aid) (let previousOwner = ?owner; n = next_attempt (fld previous ''state'');
         com = enqueued_document call aid previous input; owner = enqueue_owner call aid n in
     and_then (handle (emit_all (enqueue_writes n com owner) (ec_fault call))
         (restoreEnqueueAfterFailure aid previous com previousOwner owner (ec_random call))) (\<lambda>_.
       give \<lparr>rc_backend = JStr ''local'', rc_assignmentId = aid, rc_previous = previous, rc_committed = com,
         rc_ownerToken = fld owner ''ownerToken'', rc_mutationToken = JStr (lc_token (ec_lock call)), rc_previousOwner = previousOwner,
         rc_committedOwner = owner\<rparr>)) gs"
    unfolding Let_def next_of_document [OF m(1)]
    by (intro sound_and_then sound_handle sound_enqueue_writes m(1) assms sound_undo [OF m(1)] sound_give m(2))
qed

lemma sound_enqueue:
  assumes "store_ok aid fs" "ec_attemptToken call \<noteq> []" "assignment_of (json_copy input) = aid"
  shows "sound (store_ok aid) (enqueueWithReceipt call input) fs"
  unfolding enqueueWithReceipt_def
proof (rule sound_and_then, rule sound_look [where I = "store_ok aid", OF assms(1)], goal_cases)
  case (1 inp gs)
  then have inp: "inp = json_copy input" by (auto simp: normalizeJsonValue_def split: if_splits)
  show ?case unfolding inp assms(3) by (rule sound_lock_idle [OF 1(2)], rule sound_enqueueUnderLock [OF _ assms(2)])
qed

definition receipt_ok :: "receipt \<Rightarrow> bool" where
  \<comment> \<open>as the store gives it\<close>
  "receipt_ok r = ((\<exists>m. document_ok (rc_assignmentId r) m (rc_previous r)) \<and> (\<forall>v. rc_previousOwner r = Some v \<longrightarrow> isRecord v))"

lemma sound_compensate:
  assumes "store_ok aid fs" "receipt_ok r" "rc_assignmentId r = aid"
  shows "sound (store_ok aid) (compensateEnqueueReceipt call r random) fs"
proof -
  from assms(2,3) obtain m where m: "document_ok aid m (rc_previous r)" "\<And>v. rc_previousOwner r = Some v \<Longrightarrow> isRecord v"
    by (auto simp: receipt_ok_def)
  show ?thesis
    unfolding compensateEnqueueReceipt_def assms(3)
    by (rule sound_lock_idle [OF assms(1)]) (auto simp: Let_def intro!: sound_rules sound_restore [OF m])
qed

end
