(* ===== verification/AssignmentCrash.thy ===== *)
theory AssignmentCrash
  imports AssignmentLemmas
begin

text \<open>
  What a crash leaves: the documents that are read after the next recovery, and which requests can
  change them.
\<close>

section \<open>Recovery in closed form\<close>

definition recovered :: "string \<Rightarrow> store_files \<Rightarrow> store_files" where
  "recovered aid fs = snd (run_prog (recoverPendingCompletionUnderLock aid) fs)"

definition settle_doc :: "doc_file \<Rightarrow> js \<Rightarrow> doc_file" where
  \<comment> \<open>the document that is there, when it has the text of the one in the log\<close>
  "settle_doc f v = (case f of Doc w \<Rightarrow> if receiptDeepEqual w v then f else Doc (json_copy v) | _ \<Rightarrow> Doc (json_copy v))"

lemma settle_idem [simp]: "settle_doc (settle_doc f v) v = settle_doc f v" "settle_doc (Doc (json_copy v)) v = Doc (json_copy v)"
  by (auto simp: settle_doc_def split: doc_file.splits)

definition settled :: "string \<Rightarrow> js \<Rightarrow> (place \<Rightarrow> doc_file) \<Rightarrow> place \<Rightarrow> doc_file" where
  \<comment> \<open>the documents when the log \<open>p\<close> has been carried out\<close>
  "settled name p d q = (if q = Wal then Absent else if q = State then settle_doc (d q) (fld p ''state'')
     else if q = Attempt name then settle_doc (d q) (fld p ''attemptRecord'') else d q)"

lemma settled_simps [simp]:
  "settled name p d Wal = Absent" "settled name p d State = settle_doc (d State) (fld p ''state'')"
  "settled name p d (Attempt name) = settle_doc (d (Attempt name)) (fld p ''attemptRecord'')"
  "n \<noteq> name \<Longrightarrow> settled name p d (Attempt n) = d (Attempt n)"
  by (simp_all add: settled_def)

lemma settled_update [simp]:
  "settled name p (d(State := settle_doc (d State) (fld p ''state''))) = settled name p d"
  "settled name p (d(Attempt name := settle_doc (d (Attempt name)) (fld p ''attemptRecord''))) = settled name p d"
  "settled name p (d(Wal := v)) = settled name p d"
  by (auto simp: settled_def fun_eq_iff)

lemma settled_idem: "settled name p (settled name p d) = settled name p d"
  by (simp add: settled_def fun_eq_iff)

lemma same_settle: "f = file_of r \<Longrightarrow> settle_doc f v = (if same_document r v then f else Doc (json_copy v))"
  by (cases r) (simp_all add: settle_doc_def same_document_def)

lemma only_if_bool: "only_if True p = p" "only_if False p = give ()"
  by (simp_all add: only_if_def)

lemma crash_emit: "crash_states (emit w) fs = {fs, apply_write w fs}"
proof
  show "crash_states (emit w) fs \<subseteq> {fs, apply_write w fs}"
    unfolding crash_states_def emit_def by (auto simp: le_Suc_eq)
  have "fs \<in> crash_states (emit w) fs" by (rule crash_start)
  moreover have "apply_write w fs \<in> crash_states (emit w) fs" by (rule crash_end) simp
  ultimately show "{fs, apply_write w fs} \<subseteq> crash_states (emit w) fs" by blast
qed

lemma crash_quiet [simp]:
  "crash_states (give v) fs = {fs}" "crash_states (fail_with e) fs = {fs}" "crash_states (look g) fs = {fs}"
  by (auto simp: crash_states_def give_def fail_with_def look_def)

text \<open>\<open>always J p fs\<close>: \<open>J\<close> holds before, between and after the writes of \<open>p\<close>, whatever it writes.\<close>

definition always :: "(store_files \<Rightarrow> bool) \<Rightarrow> 'a prog \<Rightarrow> store_files \<Rightarrow> bool" where
  "always J p fs = (\<forall>gs\<in>crash_states p fs. J gs)"

named_theorems always_rules

lemma always_and_then [always_rules]:
  "always J p fs \<Longrightarrow> (\<And>v fs'. run_prog p fs = (Inr v, fs') \<Longrightarrow> J fs' \<Longrightarrow> always J (f v) fs') \<Longrightarrow> always J (and_then p f) fs"
  unfolding always_def by (auto elim!: crash_and_then dest: crash_end)

lemma always_basic [always_rules]:
  "J fs \<Longrightarrow> always J (give v) fs" "J fs \<Longrightarrow> always J (fail_with e) fs" "J fs \<Longrightarrow> always J (look g) fs"
  "J fs \<Longrightarrow> J (apply_write w fs) \<Longrightarrow> always J (emit w) fs"
  by (simp_all add: always_def crash_emit)

lemma always_if [always_rules]: "(b \<Longrightarrow> always J p fs) \<Longrightarrow> (\<not> b \<Longrightarrow> always J q fs) \<Longrightarrow> always J (if b then p else q) fs"
  by simp

lemma always_only_if [always_rules]: "J fs \<Longrightarrow> (b \<Longrightarrow> always J p fs) \<Longrightarrow> always J (only_if b p) fs"
  by (simp add: only_if_def always_def)

lemma always_start: "always J p fs \<Longrightarrow> J fs"
  unfolding always_def using crash_start by blast

lemma always_emit_then: "J fs \<Longrightarrow> always J (f ()) (apply_write w fs) \<Longrightarrow> always J (and_then (emit w) f) fs"
  by (intro always_rules) (auto dest: always_start)

lemma always_maybe: "J fs \<Longrightarrow> (\<not> b \<Longrightarrow> always J (f ()) fs) \<Longrightarrow> (b \<Longrightarrow> always J (f ()) (apply_write w fs)) \<Longrightarrow> always J (and_then (only_if b (emit w)) f) fs"
  by (cases b) (simp_all add: only_if_bool always_emit_then del: and_then_emit)

lemma always_final: "always J p fs \<Longrightarrow> J (snd (run_prog p fs))"
  unfolding always_def using crash_end by (metis prod.collapse)

lemma always_weaken: "always J p fs \<Longrightarrow> (\<And>gs. J gs \<Longrightarrow> K gs) \<Longrightarrow> always K p fs"
  by (simp add: always_def)

lemma recovery_shape:
  assumes "store_ok aid fs" "docs fs Wal = Doc p"
  obtains m state current where "wal_doc aid m p" "docs fs State = file_of state" "docs fs (Attempt (pad3 m)) = file_of current"
    "let A = Attempt (pad3 m); sd = same_document state (fld p ''state''); ad = same_document current (fld p ''attemptRecord'') in
     recoverPendingCompletionUnderLock aid fs =
       and_then (only_if (\<not> (sd \<and> ad)) (emit (Mkdir (pad3 m)))) (\<lambda>_. and_then (only_if (\<not> ad) (emit (Put A (fld p ''attemptRecord'')))) (\<lambda>_.
       and_then (only_if (\<not> sd) (emit (Put State (fld p ''state'')))) (\<lambda>_. and_then (emit (Erase Wal)) (\<lambda>_. give True)))) fs"
proof -
  note result = that
  from assms(1) show thesis
  proof (cases rule: read_pending)
    case 1
    with assms(2) show thesis by simp
  next
    case (2 p' m)
    with assms(2) have p': "p' = p" by simp
    note wal = 2(3) [unfolded p']
    from pending_of_doc [OF wal] obtain s a where p: "p = pending_record aid (Fin (of_nat m)) (fld a ''attemptToken'') s a" "1 \<le> m" by metis
    have num: "to_num (fld p ''attemptNum'') = Fin (of_nat m)" by (simp add: p(1))
    let ?A = "Attempt (pad3 m)"
    have g1: "good (\<lambda>s. \<exists>m. state_doc aid m s) (docs fs State)" and g2: "good (attempt_doc aid m) (docs fs ?A)"
      using assms p(2) by (simp_all add: store_ok_def)
    obtain state where state: "readStateFile fs = Inr state" "docs fs State = file_of state"
      unfolding readStateFile_def by (rule read_option [OF g1])
    obtain current where current: "readLocalJsonObject ?A (attempt_label (pad3 m)) fs = Inr current" "docs fs ?A = file_of current"
      "\<And>v. current = Some v \<Longrightarrow> attempt_doc aid m v"
      by (rule read_option [OF g2, where label = "attempt_label (pad3 m)"]) blast
    have matches: "pending_matches aid p state current"
    proof (rule pending_matches_doc [OF wal])
      show "case state of None \<Rightarrow> True | Some s \<Rightarrow> state_doc aid m s" using 2(4) state(2) by (cases state) simp_all
      show "case current of None \<Rightarrow> True | Some a \<Rightarrow> attempt_doc aid m a \<and> fld a ''attemptToken'' = fld p ''attemptToken''"
        using 2(5) current(2,3) p' by (cases current) simp_all
    qed
    show thesis
    proof (rule result [OF wal state(2) current(2)], goal_cases)
      case 1
      show ?case
        unfolding recoverPendingCompletionUnderLock_def
        by (simp add: 2(1) p' state(1) current(1) num matches Let_def)
    qed
  qed
qed

text \<open>Recovery carries the log out, and a crash in it does not change what is recovered.\<close>

lemma recovery_settles:
  assumes "store_ok aid fs" "docs fs Wal = Doc p" "wal_doc aid m p"
  shows "docs (recovered aid fs) = settled (pad3 m) p (docs fs)"
    "gs \<in> crash_states (recoverPendingCompletionUnderLock aid) fs \<Longrightarrow> settled (pad3 m) p (docs gs) = settled (pad3 m) p (docs fs)
       \<and> (docs gs Wal = Doc p \<or> docs gs = settled (pad3 m) p (docs fs))"
proof -
  from recovery_shape [OF assms(1,2)] obtain k state current where k: "wal_doc aid k p" and
    d: "docs fs State = file_of state" "docs fs (Attempt (pad3 k)) = file_of current" and
    prog: "let A = Attempt (pad3 k); sd = same_document state (fld p ''state''); ad = same_document current (fld p ''attemptRecord'') in
     recoverPendingCompletionUnderLock aid fs =
       and_then (only_if (\<not> (sd \<and> ad)) (emit (Mkdir (pad3 k)))) (\<lambda>_. and_then (only_if (\<not> ad) (emit (Put A (fld p ''attemptRecord'')))) (\<lambda>_.
       and_then (only_if (\<not> sd) (emit (Put State (fld p ''state'')))) (\<lambda>_. and_then (emit (Erase Wal)) (\<lambda>_. give True)))) fs" .
  have "k = m" using k assms(3) by (auto simp: wal_doc_def pending_record_def)
  note d = d [unfolded this] and prog = prog [unfolded this, unfolded Let_def]
  let ?A = "Attempt (pad3 m)" and ?sd = "same_document state (fld p ''state'')" and ?ad = "same_document current (fld p ''attemptRecord'')"
  let ?rest = "and_then (only_if (\<not> (?sd \<and> ?ad)) (emit (Mkdir (pad3 m)))) (\<lambda>_. and_then (only_if (\<not> ?ad) (emit (Put ?A (fld p ''attemptRecord'')))) (\<lambda>_.
       and_then (only_if (\<not> ?sd) (emit (Put State (fld p ''state'')))) (\<lambda>_. and_then (emit (Erase Wal)) (\<lambda>_. give True))))"
  have st: "settle_doc (docs fs State) (fld p ''state'') = (if ?sd then docs fs State else Doc (json_copy (fld p ''state'')))"
    and at: "settle_doc (docs fs ?A) (fld p ''attemptRecord'') = (if ?ad then docs fs ?A else Doc (json_copy (fld p ''attemptRecord'')))"
    using d same_settle by metis+
  show "docs (recovered aid fs) = settled (pad3 m) p (docs fs)"
  proof
    fix q
    have "recovered aid fs = snd (run_prog ?rest fs)" by (simp only: recovered_def run_prog_def prog)
    then show "docs (recovered aid fs) q = settled (pad3 m) p (docs fs) q"
      by (simp add: run_only_if settled_def st at)
  qed
  assume gs: "gs \<in> crash_states (recoverPendingCompletionUnderLock aid) fs"
  let ?S = "settle_doc (docs fs State) (fld p ''state'')" and ?T = "settle_doc (docs fs ?A) (fld p ''attemptRecord'')"
  define D1 where "D1 = (docs fs)(?A := ?T)"
  define D2 where "D2 = D1(State := ?S)"
  have last: "D2(Wal := Absent) = settled (pad3 m) p (docs fs)" by (auto simp: D1_def D2_def settled_def fun_eq_iff)
  have mid: "settled (pad3 m) p D1 = settled (pad3 m) p (docs fs)" unfolding D1_def by simp
  have "D2 = D1(State := settle_doc (D1 State) (fld p ''state''))" by (simp add: D1_def D2_def)
  then have "settled (pad3 m) p D2 = settled (pad3 m) p (docs fs)" using mid by (metis settled_update(1))
  define J where "J hs \<longleftrightarrow> docs hs \<in> {docs fs, D1, D2, D2(Wal := Absent)}" for hs :: store_files
  have D1: "D1 = (if ?ad then docs fs else (docs fs)(?A := Doc (json_copy (fld p ''attemptRecord''))))" unfolding D1_def at by simp
  have D2: "D2 = (if ?sd then D1 else D1(State := Doc (json_copy (fld p ''state''))))" unfolding D2_def st by (auto simp: D1_def fun_eq_iff)
  have erase: "always J (and_then (emit (Erase Wal)) (\<lambda>_. give True)) hs" if "docs hs = D2" for hs
    using that by (intro always_emit_then always_basic(1)) (simp_all add: J_def)
  have tail: "always J (and_then (only_if (\<not> ?sd) (emit (Put State (fld p ''state'')))) (\<lambda>_. and_then (emit (Erase Wal)) (\<lambda>_. give True))) hs"
    if "docs hs = D1" for hs
    using that D2 by (intro always_maybe erase) (simp_all add: J_def)
  have put: "always J (and_then (only_if (\<not> ?ad) (emit (Put ?A (fld p ''attemptRecord'')))) (\<lambda>_. and_then (only_if (\<not> ?sd) (emit (Put State (fld p ''state''))))
      (\<lambda>_. and_then (emit (Erase Wal)) (\<lambda>_. give True)))) hs" if "docs hs = docs fs" for hs
    using that D1 by (intro always_maybe [where w = "Put ?A _"] tail) (simp_all add: J_def)
  have "always J ?rest fs" by (intro always_maybe [where w = "Mkdir _"] put) (simp_all add: J_def)
  then have "J gs" using gs by (simp add: always_def crash_states_def prog)
  then consider "docs gs = docs fs" | "docs gs = D1" | "docs gs = D2" | "docs gs = settled (pad3 m) p (docs fs)" by (auto simp: J_def last)
  then show "settled (pad3 m) p (docs gs) = settled (pad3 m) p (docs fs) \<and> (docs gs Wal = Doc p \<or> docs gs = settled (pad3 m) p (docs fs))"
  proof cases
    case 1
    with assms(2) show ?thesis by simp
  next
    case 2
    with mid assms(2) show ?thesis by (simp add: D1_def)
  next
    case 3
    with \<open>settled (pad3 m) p D2 = _\<close> assms(2) show ?thesis by (simp add: D2_def D1_def)
  next
    case 4
    have "settled (pad3 m) p (settled (pad3 m) p (docs fs)) = settled (pad3 m) p (docs fs)" by (rule settled_idem)
    with 4 show ?thesis by simp
  qed
qed

section \<open>What is read after a crash\<close>

definition doc_text :: "doc_file \<Rightarrow> string option" where
  "doc_text f = (case f of Doc v \<Rightarrow> Some (stableJsonForReceipt v) | _ \<Rightarrow> None)"

definition next_docs :: "string \<Rightarrow> store_files \<Rightarrow> place \<Rightarrow> doc_file" where
  \<comment> \<open>the documents that the next reader finds\<close>
  "next_docs aid fs q = (if q \<in> {Wal, Mutation} then Absent else docs (recovered aid fs) q)"

definition next_view :: "string \<Rightarrow> store_files \<Rightarrow> place \<Rightarrow> string option" where
  \<comment> \<open>their canonical texts\<close>
  "next_view aid fs q = doc_text (next_docs aid fs q)"

lemma next_view_docs: "next_docs aid gs = next_docs aid fs \<Longrightarrow> next_view aid gs = next_view aid fs"
  by (simp add: next_view_def fun_eq_iff)

lemma doc_text_simps [simp]: "doc_text Absent = None" "doc_text Malformed = None" "doc_text (Doc v) = Some (stableJsonForReceipt v)"
  by (simp_all add: doc_text_def)

lemma text_settle: "doc_text (settle_doc f (json_copy v)) = Some (stableJsonForReceipt (json_copy v))"
  by (auto simp: settle_doc_def receiptDeepEqual_def split: doc_file.splits)

lemma recovered_idle: "store_ok aid fs \<Longrightarrow> docs fs Wal = Absent \<Longrightarrow> recovered aid fs = fs"
  by (rule recovery_ok [of aid fs]) (simp_all add: recovered_def)

lemma recovered_docs:
  assumes "store_ok aid fs"
  obtains "docs fs Wal = Absent" "recovered aid fs = fs"
  | p m where "docs fs Wal = Doc p" "wal_doc aid m p" "docs (recovered aid fs) = settled (pad3 m) p (docs fs)"
proof -
  note result = that
  show thesis
  proof (cases "docs fs Wal")
    case Absent
    with recovered_idle [OF assms] show thesis by (intro result(1))
  next
    case (Doc p)
    then obtain m where "wal_doc aid m p" using assms by (auto simp: store_ok_def wal_agrees_def)
    from result(2) [OF Doc this recovery_settles(1) [OF assms Doc this]] show thesis .
  qed (use assms in \<open>simp add: store_ok_def\<close>)
qed

lemma recovered_ok:
  assumes "store_ok aid fs" "\<forall>w\<in>set (fst (recoverPendingCompletionUnderLock aid fs)). write_ok w"
  shows "idle aid (recovered aid fs)"
proof -
  have "store_ok aid (recovered aid fs)" unfolding recovered_def by (rule sound_final [OF sound_recovery [OF assms(1)] assms(2)])
  moreover have "docs (recovered aid fs) Wal = Absent" by (rule recovered_docs [OF assms(1)]) simp_all
  ultimately show ?thesis by (simp add: idle_def)
qed

lemma recovery_stable:
  assumes "store_ok aid fs" "store_ok aid gs" "gs \<in> crash_states (recoverPendingCompletionUnderLock aid) fs"
  shows "docs (recovered aid gs) = docs (recovered aid fs)"
  using assms(1)
proof (cases rule: recovered_docs)
  case 1
  from assms(1) have "gs = fs"
  proof (cases rule: read_pending)
    case 1
    with assms(3) show ?thesis by (simp add: recoverPendingCompletionUnderLock_def crash_states_def look_def give_def)
  qed (use 1 in simp)
  then show ?thesis by simp
next
  case (2 p m)
  from recovery_settles(2) [OF assms(1) 2(1,2) assms(3)] have "settled (pad3 m) p (docs gs) = settled (pad3 m) p (docs fs)"
    and "docs gs Wal = Doc p \<or> docs gs = settled (pad3 m) p (docs fs)" by blast+
  then show ?thesis
  proof (elim disjE)
    assume "docs gs Wal = Doc p"
    from recovery_settles(1) [OF assms(2) this 2(2)] 2(3) \<open>settled (pad3 m) p (docs gs) = _\<close> show ?thesis by simp
  next
    assume gs: "docs gs = settled (pad3 m) p (docs fs)"
    then have "recovered aid gs = gs" by (intro recovered_idle [OF assms(2)]) simp
    with gs 2(3) show ?thesis by simp
  qed
qed

lemma recovered_owner:
  assumes "store_ok aid fs" "store_ok aid (apply_write (Put Mutation v) fs)"
  shows "docs (recovered aid (apply_write (Put Mutation v) fs)) = (docs (recovered aid fs))(Mutation := Doc (json_copy v))"
  using assms(1)
proof (cases rule: recovered_docs)
  case 1
  have "recovered aid (apply_write (Put Mutation v) fs) = apply_write (Put Mutation v) fs" by (rule recovered_idle [OF assms(2)]) (simp add: 1)
  with 1 show ?thesis by simp
next
  case (2 p m)
  have "docs (recovered aid (apply_write (Put Mutation v) fs)) = settled (pad3 m) p (docs (apply_write (Put Mutation v) fs))"
    by (rule recovery_settles(1) [OF assms(2) _ 2(2)]) (simp add: 2(1))
  then show ?thesis unfolding 2(3) by (auto simp: settled_def fun_eq_iff)
qed

lemma next_docs_owner: "docs gs' = (docs (recovered aid fs))(Mutation := x) \<Longrightarrow> docs (recovered aid gs) = docs gs' \<Longrightarrow> next_docs aid gs = next_docs aid fs"
  by (auto simp: next_docs_def fun_eq_iff)

lemma lock_shape:
  assumes "store_ok aid fs" "lc_writable call"
  obtains t where "withAssignmentLock call True aid cb fs
    = and_then (emit (Put Mutation (mutation_owner call aid))) (\<lambda>_. and_then (recoverPendingCompletionUnderLock aid) (\<lambda>_. cb t)) fs"
proof -
  note result = that
  have "good (\<lambda>_. True) (docs fs Mutation)" using assms(1) by (simp add: store_ok_def)
  then obtain o' where "readLocalJsonObject Mutation ''assignment mutation owner'' fs = Inr o'" by (rule read_option)
  then have "withAssignmentLock call True aid cb fs = and_then (emit (Put Mutation (mutation_owner call aid))) (\<lambda>_. and_then (recoverPendingCompletionUnderLock aid)
      (\<lambda>_. cb (let t = (case o' of None \<Rightarrow> JUndef | Some o' \<Rightarrow> fld o' ''ownerToken'') in if is_str t \<and> truthy t then t else JNull))) fs"
    unfolding withAssignmentLock_def using assms(2) by (simp add: and_then_assoc)
  then show thesis by (rule result)
qed

lemma lock_recovery:
  assumes "store_ok aid fs"
    and "\<forall>w\<in>set (fst (and_then (emit (Put Mutation (mutation_owner call aid))) (\<lambda>_. and_then (recoverPendingCompletionUnderLock aid) f) fs)). write_ok w"
  defines "f1 \<equiv> apply_write (Put Mutation (mutation_owner call aid)) fs"
  obtains b where "store_ok aid f1" "idle aid (recovered aid f1)" "run_prog (recoverPendingCompletionUnderLock aid) f1 = (Inr b, recovered aid f1)"
    "docs (recovered aid f1) = (docs (recovered aid fs))(Mutation := docs (recovered aid f1) Mutation)"
    "\<forall>w\<in>set (fst (recoverPendingCompletionUnderLock aid f1)). write_ok w" "\<forall>w\<in>set (fst (f b (recovered aid f1))). write_ok w"
proof -
  note result = that
  have own: "write_ok (Put Mutation (mutation_owner call aid))" using assms(2) by simp
  have f1: "store_ok aid f1" unfolding f1_def by (rule sound_owner [OF assms(1) own])
  have run1: "run_prog (emit (Put Mutation (mutation_owner call aid))) fs = (Inr (), f1)" by (simp add: f1_def)
  note ok1 = and_then_writes(2) [OF assms(2) run1]
  note okr = and_then_writes(1) [OF ok1]
  obtain b where run2: "run_prog (recoverPendingCompletionUnderLock aid) f1 = (Inr b, recovered aid f1)"
    by (rule recovery_ok [OF f1]) (auto simp: recovered_def)
  have "docs (recovered aid f1) = (docs (recovered aid fs))(Mutation := docs (recovered aid f1) Mutation)"
    using recovered_owner [OF assms(1) f1 [unfolded f1_def]] unfolding f1_def by simp
  from result [OF f1 recovered_ok [OF f1 okr] run2 this okr and_then_writes(2) [OF ok1 run2]] show thesis .
qed

text \<open>An operation under the lock works on the recovered documents.\<close>

lemma lock_run:
  assumes "store_ok aid fs" "\<forall>w\<in>set (fst (withAssignmentLock call True aid cb fs)). write_ok w" "lc_writable call"
  obtains t hs where "idle aid hs" "docs hs = (docs (recovered aid fs))(Mutation := docs hs Mutation)"
      "\<forall>w\<in>set (fst (cb t hs)). write_ok w" "run_prog (withAssignmentLock call True aid cb) fs = run_prog (cb t) hs"
proof -
  note result = that
  obtain t where prog: "withAssignmentLock call True aid cb fs
    = and_then (emit (Put Mutation (mutation_owner call aid))) (\<lambda>_. and_then (recoverPendingCompletionUnderLock aid) (\<lambda>_. cb t)) fs"
    by (rule lock_shape [OF assms(1,3)])
  show thesis
  proof (rule lock_recovery [OF assms(1) assms(2) [unfolded prog]], goal_cases)
    case (1 b)
    show thesis
    proof (rule result [OF 1(2,4,6)])
      show "run_prog (withAssignmentLock call True aid cb) fs = run_prog (cb t) (recovered aid (apply_write (Put Mutation (mutation_owner call aid)) fs))"
        unfolding run_prog_def [of "withAssignmentLock call True aid cb"] prog using 1(3) by (simp add: run_prog_def [symmetric] del: and_then_emit)
    qed
  qed
qed

text \<open>A crash in an operation under the lock: either the next reader sees what was there, or the operation
  was at work on the recovered documents.\<close>

lemma lock_crash:
  assumes "store_ok aid fs" "gs \<in> crash_states (withAssignmentLock call True aid cb) fs"
    "\<forall>w\<in>set (fst (withAssignmentLock call True aid cb fs)). write_ok w"
  obtains (before) "next_docs aid gs = next_docs aid fs"
  | (inside) t hs where "idle aid hs" "docs hs = (docs (recovered aid fs))(Mutation := docs hs Mutation)" "gs \<in> crash_states (cb t) hs"
      "\<forall>w\<in>set (fst (cb t hs)). write_ok w" "run_prog (withAssignmentLock call True aid cb) fs = run_prog (cb t) hs"
proof (cases "lc_writable call")
  case False
  then have "gs = fs" using assms(2) by (simp add: withAssignmentLock_def)
  then show thesis by (intro before) simp
next
  case True
  note before' = before and inside' = inside
  let ?own = "Put Mutation (mutation_owner call aid)" and ?rec = "recoverPendingCompletionUnderLock aid"
  let ?f1 = "apply_write ?own fs"
  obtain t where prog: "withAssignmentLock call True aid cb fs = and_then (emit ?own) (\<lambda>_. and_then ?rec (\<lambda>_. cb t)) fs"
    by (rule lock_shape [OF assms(1) True])
  have gs: "gs \<in> crash_states (and_then (emit ?own) (\<lambda>_. and_then ?rec (\<lambda>_. cb t))) fs" using assms(2) by (simp add: crash_states_def prog)
  show thesis
  proof (rule lock_recovery [OF assms(1) assms(3) [unfolded prog]], goal_cases)
    case (1 b)
    have view: "next_docs aid hs = next_docs aid fs" if "docs (recovered aid hs) = docs (recovered aid ?f1)" for hs
      using that by (rule next_docs_owner [OF 1(4)])
    from gs show thesis
    proof (cases rule: crash_and_then)
      case 1
      then consider "gs = fs" | "gs = ?f1" by (auto simp: crash_emit)
      then show thesis
      proof cases
        case 1 then show thesis by (intro before') simp
      next
        case 2 then show thesis by (intro before' view) simp
      qed
    next
      case (2 v fs')
      then have "gs \<in> crash_states (and_then ?rec (\<lambda>_. cb t)) ?f1" by simp
      then show thesis
      proof (cases rule: crash_and_then)
        case rec: 1
        then have "store_ok aid gs" using sound_recovery [OF 1(1)] 1(5) by (simp add: sound_def)
        from recovery_stable [OF 1(1) this rec] show thesis by (intro before' view)
      next
        case (2 v' hs)
        with 1(3) have hs: "gs \<in> crash_states (cb t) (recovered aid ?f1)" by simp
        have "run_prog (withAssignmentLock call True aid cb) fs = run_prog (cb t) (recovered aid ?f1)"
          unfolding run_prog_def [of "withAssignmentLock call True aid cb"] prog using 1(3) by (simp add: run_prog_def [symmetric] del: and_then_emit)
        from inside' [OF 1(2,4) hs 1(6) this] show thesis .
      qed
    qed
  qed
qed

end
