(* ===== verification/AssignmentProperties.thy ===== *)
theory AssignmentProperties
  imports AssignmentCrash
begin

text \<open>
  What the assignment store promises to its callers. Each theorem is about all requests of the store, in
  any order, with a crash at any point of each of them.
\<close>

section \<open>Requests\<close>

datatype request = GetOrCreate lock_call js | NewAttempt lock_call js string | Running lock_call jsnum "js option"
  | Beat lock_call jsnum js | Completed lock_call jsnum js | Synthetic lock_call jsnum js | Finalized lock_call string
  | Checked lock_call jsnum js | Stop lock_call jsnum string | Enqueue enqueue_call js | Undo lock_call receipt "string \<Rightarrow> string"
  | Read lock_call

definition ignore :: "'a prog \<Rightarrow> unit prog" where
  "ignore p = and_then p (\<lambda>_. give ())"

fun perform :: "string \<Rightarrow> request \<Rightarrow> unit prog" where
  "perform aid (GetOrCreate call input) = ignore (getOrCreateAssignmentForEntry call input)"
| "perform aid (NewAttempt call input token) = ignore (createAttempt call aid input token)"
| "perform aid (Running call n who) = markRunning call aid n who"
| "perform aid (Beat call n v) = recordHeartbeat call n v"
| "perform aid (Completed call n result) = ignore (completeAttemptFromExistingResult call aid n result)"
| "perform aid (Synthetic call n result) = ignore (writeSyntheticFailure call aid n result)"
| "perform aid (Finalized call step) = markFinalized call aid step"
| "perform aid (Checked call n who) = ignore (assertActiveAttemptIdentity call aid n who)"
| "perform aid (Stop call n reason) = ignore (writeCancel call aid n reason)"
| "perform aid (Enqueue call input) = ignore (enqueueWithReceipt call input)"
| "perform aid (Undo call rc random) = ignore (compensateEnqueueReceipt call rc random)"
| "perform aid (Read call) = ignore (getAssignment call aid)"

text \<open>The requests for one assignment: with that identity, a token for a new attempt, and receipts of the store.\<close>

fun request_ok :: "string \<Rightarrow> request \<Rightarrow> bool" where
  "request_ok aid (GetOrCreate call input) = (assignment_of input = aid)"
| "request_ok aid (NewAttempt call input token) = (token \<noteq> [])"
| "request_ok aid (Enqueue call input) = (ec_attemptToken call \<noteq> [] \<and> assignment_of (json_copy input) = aid)"
| "request_ok aid (Undo call rc random) = (receipt_ok rc \<and> rc_assignmentId rc = aid)"
| "request_ok aid _ = True"

definition writes_ok :: "'a prog \<Rightarrow> store_files \<Rightarrow> bool" where
  \<comment> \<open>the documents that are written are below the limit for reading\<close>
  "writes_ok p fs = (\<forall>w\<in>set (fst (p fs)). write_ok w)"

lemma ignore_facts [simp]:
  "fst (ignore p fs) = fst (p fs)" "crash_states (ignore p) fs = crash_states p fs" "writes_ok (ignore p) fs = writes_ok p fs"
  "snd (run_prog (ignore p) fs) = snd (run_prog p fs)"
proof -
  show fst: "fst (ignore p fs) = fst (p fs)" by (simp add: ignore_def and_then_def give_def split: prod.splits sum.splits)
  then show "crash_states (ignore p) fs = crash_states p fs" "writes_ok (ignore p) fs = writes_ok p fs"
    by (simp_all add: crash_states_def writes_ok_def)
  show "snd (run_prog (ignore p) fs) = snd (run_prog p fs)"
    using fst by (simp add: run_prog_def split_beta)
qed

lemma sound_crash: "sound I p fs \<Longrightarrow> writes_ok p fs \<Longrightarrow> gs \<in> crash_states p fs \<Longrightarrow> I gs"
  by (simp add: sound_def writes_ok_def)

lemma sound_ignore: "sound I p fs \<Longrightarrow> sound I (ignore p) fs"
  by (simp add: sound_def)

lemma sound_perform: "store_ok aid fs \<Longrightarrow> request_ok aid r \<Longrightarrow> sound (store_ok aid) (perform aid r) fs"
  by (cases r) (simp_all add: sound_ignore sound_getOrCreate sound_createAttempt sound_markRunning sound_heartbeat sound_complete
    sound_synthetic sound_markFinalized sound_assert sound_writeCancel sound_enqueue sound_compensate sound_getAssignment)

text \<open>A step: a request, which may crash, or the result that a worker writes in the directory of an attempt.\<close>

inductive store_step :: "string \<Rightarrow> store_files \<Rightarrow> store_files \<Rightarrow> bool" for aid where
  handled: "request_ok aid r \<Longrightarrow> writes_ok (perform aid r) fs \<Longrightarrow> gs \<in> crash_states (perform aid r) fs \<Longrightarrow> store_step aid fs gs"
| written: "store_step aid fs (apply_write (Put (Result n) v) fs)"

inductive_cases store_stepE: "store_step aid fs gs"

text \<open>What a store with crashes owes to its clients: an invariant that every step keeps, and that the
  recovery after the last crash keeps too.\<close>

locale crash_store =
  fixes inv :: "'s \<Rightarrow> bool" and step :: "'s \<Rightarrow> 's \<Rightarrow> bool" and start :: 's
  assumes starts: "inv start"
    and keeps: "inv s \<Longrightarrow> step s t \<Longrightarrow> inv t"
begin

lemma keeps_all: "step\<^sup>*\<^sup>* s t \<Longrightarrow> inv s \<Longrightarrow> inv t"
  by (induction rule: rtranclp_induct) (auto intro: keeps)

lemma reached: "step\<^sup>*\<^sup>* start t \<Longrightarrow> inv t"
  using keeps_all starts by blast

text \<open>What excludes an outcome once excludes it for ever.\<close>

lemma never_again:
  assumes "step\<^sup>*\<^sup>* s t" "inv s" "Q s" "\<And>s t. inv s \<Longrightarrow> Q s \<Longrightarrow> step s t \<Longrightarrow> Q t"
  shows "Q t"
  using assms(1,2,3)
proof (induction rule: rtranclp_induct)
  case (step t u)
  then show ?case using assms(4) keeps_all by blast
qed

end

definition no_files :: store_files where
  "no_files = \<lparr>docs = \<lambda>_. Absent, listing = []\<rparr>"

lemma store_ok_empty: "store_ok aid no_files"
  by (simp add: store_ok_def no_files_def)

interpretation assignment: crash_store "store_ok aid" "store_step aid" no_files for aid
proof
  show "store_ok aid no_files" by (rule store_ok_empty)
  show "store_ok aid t" if "store_ok aid s" "store_step aid s t" for s t
    using that(2)
  proof cases
    case (handled r)
    from sound_crash [OF sound_perform [OF that(1) handled(1)] handled(2,3)] show ?thesis .
  next
    case (written n v)
    show ?thesis unfolding written by (rule store_ok_side [OF that(1)]) simp
  qed
qed

lemma writes_and_then: "writes_ok (and_then p f) fs \<Longrightarrow> writes_ok p fs"
  unfolding writes_ok_def by (rule and_then_writes(1))

lemma writes_after: "writes_ok (and_then p f) fs \<Longrightarrow> run_prog p fs = (Inr v, gs) \<Longrightarrow> writes_ok (f v) gs"
  unfolding writes_ok_def by (rule and_then_writes(2))

lemma recovery_runs: "store_ok aid fs \<Longrightarrow> \<exists>b. run_prog (recoverPendingCompletionUnderLock aid) fs = (Inr b, recovered aid fs)"
  by (rule recovery_ok [of aid fs]) (auto simp: recovered_def)

lemma recover_runs:
  assumes "store_ok aid fs" "lc_writable call" "writes_ok (recoverPendingCompletion call aid) fs"
  shows "\<exists>b gs. run_prog (recoverPendingCompletion call aid) fs = (Inr b, gs)"
  using assms(1)
proof (cases rule: read_pending)
  case 1
  then show ?thesis by (intro exI [of _ False] exI [of _ fs]) (simp add: recoverPendingCompletion_def)
next
  case (2 p m)
  let ?own = "Put Mutation (mutation_owner call aid)"
  have "good (\<lambda>_. True) (docs fs Mutation)" using assms(1) by (simp add: store_ok_def)
  then obtain o' where rd: "readLocalJsonObject Mutation ''assignment mutation owner'' fs = Inr o'" by (rule read_option)
  have prog: "recoverPendingCompletion call aid fs = and_then (emit ?own) (\<lambda>_. recoverPendingCompletionUnderLock aid) fs"
    unfolding recoverPendingCompletion_def withAssignmentLock_def using 2(1) rd assms(2) by simp
  have "write_ok ?own" using assms(3) by (simp add: writes_ok_def prog)
  from recovery_runs [OF sound_owner [OF assms(1) this]]
  show ?thesis unfolding run_prog_def [of "recoverPendingCompletion call aid"] prog by (auto simp: run_prog_def [symmetric] simp del: and_then_emit)
qed

text \<open>C13: Whatever requests are made of an assignment, and wherever they crash, its files stay good (records
  that can be read, attempts and states with the identity of the assignment, a log only of the active
  attempt), and the assignment can be read.\<close>

theorem files_stay_good:
  assumes "(store_step aid)\<^sup>*\<^sup>* no_files fs" "lc_writable call" "writes_ok (getAssignment call aid) fs"
  shows "store_ok aid fs \<and> (\<exists>s gs. run_prog (getAssignment call aid) fs = (Inr s, gs) \<and> store_ok aid gs)"
proof
  show ok: "store_ok aid fs" by (rule assignment.reached [OF assms(1)])
  have good: "sound (store_ok aid) (getAssignment call aid) fs" by (rule sound_getAssignment [OF ok])
  obtain r gs where run: "run_prog (getAssignment call aid) fs = (r, gs)" by (cases "run_prog (getAssignment call aid) fs")
  then have gs: "store_ok aid gs" using sound_final [OF good] assms(3) by (simp add: writes_ok_def)
  have recover: "writes_ok (recoverPendingCompletion call aid) fs"
    using assms(3) unfolding getAssignment_def readState_def by (rule writes_and_then)
  from recover_runs [OF ok assms(2) this] obtain b hs where b: "run_prog (recoverPendingCompletion call aid) fs = (Inr b, hs)" by blast
  have "store_ok aid hs" using sound_final [OF sound_recover [OF ok]] recover b by (metis snd_conv writes_ok_def)
  then obtain s where "readStateFile hs = Inr s" unfolding readStateFile_def by (rule read_option [OF good_state])
  with b run have "r = Inr s" by (simp add: getAssignment_def readState_def)
  with run gs show "\<exists>s gs. run_prog (getAssignment call aid) fs = (Inr s, gs) \<and> store_ok aid gs" by blast
qed

section \<open>A completion is atomic\<close>

lemma next_view_logged:
  assumes "store_ok aid gs" "docs gs Wal = Doc (json_copy (completion_log aid m time result s a))"
    "state_doc aid m s" "attempt_doc aid m a" "1 \<le> m"
  shows "next_view aid gs q = (if q \<in> {Wal, Mutation} then None
     else if q = State then Some (stableJsonForReceipt (json_copy (completed_state time result s)))
     else if q = Attempt (pad3 m) then Some (stableJsonForReceipt (json_copy (completed_attempt time result a))) else doc_text (docs gs q))"
proof -
  let ?p = "json_copy (completion_log aid m time result s a)"
  have "fld ?p ''state'' = json_copy (completed_state time result s)" "fld ?p ''attemptRecord'' = json_copy (completed_attempt time result a)"
    by (simp_all add: completion_log_def)
  with recovery_settles(1) [OF assms(1,2) completion_log_doc [OF assms(3-5)]] show ?thesis
    by (simp add: next_view_def next_docs_def settled_def text_settle)
qed

definition completion :: "lock_call \<Rightarrow> string \<Rightarrow> jsnum \<Rightarrow> js \<Rightarrow> bool prog" where
  \<comment> \<open>what \<^verbatim>\<open>completeAttemptFromExistingResult\<close> does under the lock\<close>
  "completion call aid n result =
     and_then (look (loadActiveAttempt aid n)) (\<lambda>(state, attempt).
     and_then (look (\<lambda>_. validateAttemptIdentity aid n attempt result True)) (\<lambda>_.
     if terminal_status (fld state ''status'')
     then (let status = terminalStatusFromResult (fld result ''status'')
           in give (fld state ''status'' = status \<and> fld attempt ''status'' = status \<and> receiptDeepEqual (fld attempt ''result'') result))
     else let time = stamp call ''completedAt''; attempt' = completed_attempt time result attempt; state' = completed_state time result state in
       and_then (emit (Put Wal (pending_record aid n (fld attempt ''attemptToken'') state' attempt'))) (\<lambda>_.
       and_then (emit (Put (Attempt (attempt_name n)) attempt')) (\<lambda>_.
       and_then (emit (Put State state')) (\<lambda>_.
       and_then (emit (Erase Wal)) (\<lambda>_. give True))))))"

lemma complete_locked: "completeAttemptFromExistingResult call aid n result = withAssignmentLock call True aid (\<lambda>_. completion call aid n result)"
  by (simp add: completeAttemptFromExistingResult_def completion_def)

text \<open>The branches of a completion.\<close>

lemma completion_cases:
  assumes "idle aid hs"
  obtains (rejected) e where "completion call aid n result hs = ([], Inl e)"
  | (replay) m s a b where "completion call aid n result hs = ([], Inr b)" "n = Fin (of_nat m)" "1 \<le> m" "docs hs State = Doc s" "docs hs (Attempt (pad3 m)) = Doc a"
      "state_doc aid m s" "attempt_doc aid m a" "validateAttemptIdentity aid n a result True = Inr ()" "terminal_status (fld s ''status'')"
      "b \<longleftrightarrow> fld s ''status'' = terminalStatusFromResult (fld result ''status'') \<and> fld a ''status'' = terminalStatusFromResult (fld result ''status'')
         \<and> receiptDeepEqual (fld a ''result'') result"
  | (writes) m s a where "completion call aid n result hs = ([Put Wal (completion_log aid m (stamp call ''completedAt'') result s a),
        Put (Attempt (pad3 m)) (completed_attempt (stamp call ''completedAt'') result a), Put State (completed_state (stamp call ''completedAt'') result s),
        Erase Wal], Inr True)" "n = Fin (of_nat m)" "1 \<le> m" "docs hs State = Doc s" "docs hs (Attempt (pad3 m)) = Doc a"
      "state_doc aid m s" "attempt_doc aid m a" "validateAttemptIdentity aid n a result True = Inr ()" "\<not> terminal_status (fld s ''status'')"
proof (cases "loadActiveAttempt aid n hs")
  case (Inl e)
  then have "completion call aid n result hs = ([], Inl e)" by (simp add: completion_def)
  then show thesis by (rule rejected)
next
  case (Inr sa)
  obtain s a where sa: "sa = (s, a)" by (cases sa)
  have "run_prog (look (loadActiveAttempt aid n)) hs = (Inr (s, a), hs)" by (simp add: Inr sa)
  from load_active [OF idle_ok [OF assms] this] obtain m where m: "n = Fin (of_nat m)" "1 \<le> m" "docs hs State = Doc s" "docs hs (Attempt (pad3 m)) = Doc a"
    "state_doc aid m s" "attempt_doc aid m a" by metis
  note load = Inr [unfolded sa]
  have nm: "attempt_name n = pad3 m" by (simp add: m(1))
  show thesis
  proof (cases "validateAttemptIdentity aid n a result True")
    case (Inl e)
    then have "completion call aid n result hs = ([], Inl e)" by (simp add: completion_def load)
    then show thesis by (rule rejected)
  next
    case (Inr u)
    then have valid: "validateAttemptIdentity aid n a result True = Inr ()" by simp
    show thesis
    proof (cases "terminal_status (fld s ''status'')")
      case True
      then have "completion call aid n result hs = ([], Inr (fld s ''status'' = terminalStatusFromResult (fld result ''status'')
         \<and> fld a ''status'' = terminalStatusFromResult (fld result ''status'') \<and> receiptDeepEqual (fld a ''result'') result))"
        by (simp add: completion_def load valid Let_def give_def)
      from replay [OF this m valid True refl] show thesis .
    next
      case False
      then have "completion call aid n result hs = ([Put Wal (completion_log aid m (stamp call ''completedAt'') result s a),
        Put (Attempt (pad3 m)) (completed_attempt (stamp call ''completedAt'') result a), Put State (completed_state (stamp call ''completedAt'') result s),
        Erase Wal], Inr True)"
        unfolding completion_log_def m(1) [symmetric] nm [symmetric] by (simp add: completion_def load valid Let_def give_def)
      from writes [OF this m valid False] show thesis .
    qed
  qed
qed

text \<open>C12: A crash anywhere in the recording of a completed attempt is not seen: the next reader finds every
  document with the text it had before the request, or every document with the text that the whole request gives it.\<close>

theorem completion_atomic:
  assumes "store_ok aid fs" "writes_ok (completeAttemptFromExistingResult call aid n result) fs"
    and "gs \<in> crash_states (completeAttemptFromExistingResult call aid n result) fs"
  shows "next_view aid gs = next_view aid fs \<or> next_view aid gs = next_view aid (snd (run_prog (completeAttemptFromExistingResult call aid n result) fs))"
proof (rule lock_crash [OF assms(1) assms(3,2) [unfolded complete_locked writes_ok_def]], goal_cases)
  case inside: (2 t hs)
  note run = inside(5) [folded complete_locked]
  have same: "next_view aid hs = next_view aid fs"
    using inside(1,2) by (intro next_view_docs next_docs_owner [of hs aid fs _ hs]) (simp_all add: idle_def recovered_idle)
  have ok: "store_ok aid gs" by (rule sound_crash [OF sound_complete [OF assms(1)] assms(2,3)])
  from inside(1) show ?thesis
  proof (cases rule: completion_cases [where call = call and n = n and result = result])
    case (writes m s a)
    let ?log = "completion_log aid m (stamp call ''completedAt'') result s a"
    let ?ws = "[Put Wal ?log, Put (Attempt (pad3 m)) (completed_attempt (stamp call ''completedAt'') result a), Put State (completed_state (stamp call ''completedAt'') result s)]"
    have final: "snd (run_prog (completeAttemptFromExistingResult call aid n result) fs) = apply_write (Erase Wal) (apply_writes ?ws hs)" (is "_ = ?end")
      unfolding run by (simp add: run_prog_def writes(1))
    have fok: "store_ok aid ?end"
      unfolding final [symmetric] by (rule sound_final [OF sound_complete [OF assms(1)] assms(2) [unfolded writes_ok_def]])
    have end_rec: "recovered aid ?end = ?end" by (rule recovered_idle [OF fok]) simp
    have final_view: "next_view aid ?end q = (if q \<in> {Wal, Mutation} then None
     else if q = State then Some (stableJsonForReceipt (json_copy (completed_state (stamp call ''completedAt'') result s)))
     else if q = Attempt (pad3 m) then Some (stableJsonForReceipt (json_copy (completed_attempt (stamp call ''completedAt'') result a))) else doc_text (docs hs q))" for q
      by (simp only: next_view_def next_docs_def end_rec) (simp add: doc_text_def)
    obtain k where "k \<le> length (fst (completion call aid n result hs))" "gs = apply_writes (take k (fst (completion call aid n result hs))) hs"
      using inside(3) by (auto simp: crash_states_def)
    then have k: "k \<le> 4" "gs = apply_writes (take k (?ws @ [Erase Wal])) hs" unfolding writes(1) by simp_all
    from k(1) consider "k = 0" | "0 < k" "k \<le> 3" | "k = 4" by linarith
    then show ?thesis
    proof cases
      case 1
      with k(2) same show ?thesis by simp
    next
      case 2
      then have k': "k \<in> {1, 2, 3}" by auto
      then have wal: "docs gs Wal = Doc (json_copy ?log)" using k(2) by (auto simp: numeral_2_eq_2 numeral_3_eq_3)
      have rest: "docs gs q = docs hs q" if "q \<notin> {Wal, State, Attempt (pad3 m)}" for q
        using k' k(2) that by (auto simp: numeral_2_eq_2 numeral_3_eq_3)
      have "next_view aid gs q = next_view aid ?end q" for q
        unfolding next_view_logged [OF ok wal writes(6,7,3)] final_view using rest [of q] by simp
      then show ?thesis unfolding final by blast
    next
      case 3
      then have "gs = ?end" using k(2) by simp
      then show ?thesis unfolding final by blast
    qed
  qed (use inside(3) same in \<open>simp_all add: crash_states_def\<close>)
qed (drule next_view_docs, simp)

section \<open>Requests that fail\<close>

text \<open>\<open>sure p\<close>: never an error; \<open>clean p\<close>: no write before an error; \<open>quiet p\<close>: no write at all.\<close>

definition sure :: "'a prog \<Rightarrow> bool" where
  "sure p = (\<forall>fs. \<exists>v. snd (p fs) = Inr v)"

definition clean :: "'a prog \<Rightarrow> bool" where
  "clean p = (\<forall>fs e. snd (p fs) = Inl e \<longrightarrow> fst (p fs) = [])"

named_theorems clean_rules

lemma sure_rules [clean_rules]:
  "sure (give v)" "sure (emit w)" "sure p \<Longrightarrow> (\<And>v. sure (f v)) \<Longrightarrow> sure (and_then p f)"
  by (auto simp: sure_def give_def emit_def and_then_def split: prod.splits sum.splits) (metis snd_conv Inl_Inr_False)+

lemma clean_emit_then [clean_rules]: "sure (f ()) \<Longrightarrow> clean (and_then (emit w) f)"
  by (auto simp: sure_def clean_def) (metis Inl_Inr_False)

lemma clean_basic [clean_rules]:
  "clean (give v)" "clean (fail_with e)" "clean (emit w)" "(\<And>v. clean (f v)) \<Longrightarrow> clean (and_then (look g) f)"
  by (auto simp: clean_def give_def fail_with_def emit_def split: sum.splits)

lemma clean_if [clean_rules]: "clean p \<Longrightarrow> clean q \<Longrightarrow> clean (if b then p else q)"
  by simp

lemma clean_option [clean_rules]: "clean p \<Longrightarrow> (\<And>v. clean (f v)) \<Longrightarrow> clean (case r of None \<Rightarrow> p | Some v \<Rightarrow> f v)"
  by (cases r) simp_all

lemma clean_pair [clean_rules]: "(\<And>x y. clean (f x y)) \<Longrightarrow> clean (case v of (x, y) \<Rightarrow> f x y)"
  by (cases v) simp

lemma clean_let [clean_rules]: "(\<And>x. clean (f x)) \<Longrightarrow> clean (let x = v in f x)"
  by simp

lemma inside_docs: "idle aid hs \<Longrightarrow> docs hs = (docs (recovered aid fs))(Mutation := docs hs Mutation) \<Longrightarrow> next_docs aid hs = next_docs aid fs"
  by (rule next_docs_owner [of hs aid fs _ hs]) (simp_all add: idle_def recovered_idle)

lemma locked_clean:
  assumes "store_ok aid fs" "writes_ok (withAssignmentLock call True aid cb) fs" "\<And>t. clean (cb t)"
    and "fst (run_prog (withAssignmentLock call True aid cb) fs) = Inl e" "gs \<in> crash_states (withAssignmentLock call True aid cb) fs"
  shows "next_docs aid gs = next_docs aid fs"
proof (rule lock_crash [OF assms(1,5) assms(2) [unfolded writes_ok_def]], assumption, goal_cases)
  case (1 t hs)
  have "snd (cb t hs) = Inl e" using assms(4) unfolding 1(5) by (simp add: run_prog_def split: prod.splits)
  with assms(3) [of t] have "fst (cb t hs) = []" by (simp add: clean_def)
  with 1(3) have "gs = hs" by (simp add: crash_states_def)
  with inside_docs [OF 1(1,2)] show ?case by simp
qed

lemma ignore_fails [simp]: "fst (run_prog (ignore p) fs) = Inl e \<longleftrightarrow> fst (run_prog p fs) = Inl e"
  by (simp add: ignore_def split: prod.splits sum.splits)

lemma writes_ignore [simp]: "writes_ok (ignore p) fs = writes_ok p fs"
  by simp

lemma sound_writes_mono: "crash_states p fs \<subseteq> crash_states q fs \<Longrightarrow> gs \<in> crash_states p fs \<Longrightarrow> gs \<in> crash_states q fs"
  by blast

text \<open>Reading changes nothing.\<close>

lemma read_docs:
  assumes "store_ok aid fs" "writes_ok (getAssignment call aid) fs" "gs \<in> crash_states (getAssignment call aid) fs"
  shows "next_docs aid gs = next_docs aid fs"
proof (cases "readPendingCompletion aid fs = Inr None \<or> \<not> lc_writable call")
  case True
  have "fst (getAssignment call aid fs) = []"
    using assms(1)
  proof (cases rule: read_pending)
    case 1
    then show ?thesis by (simp add: getAssignment_def readState_def recoverPendingCompletion_def and_then_def look_def give_def)
  next
    case (2 p m)
    with True show ?thesis by (simp add: getAssignment_def readState_def recoverPendingCompletion_def withAssignmentLock_def and_then_def look_def fail_with_def)
  qed
  with assms(3) show ?thesis by (simp add: crash_states_def)
next
  case False
  obtain p where "readPendingCompletion aid fs = Inr (Some p)" by (rule read_pending [OF assms(1)]) (use False in auto)
  with False have "getAssignment call aid fs = and_then (withAssignmentLock call False aid (\<lambda>_. recoverPendingCompletionUnderLock aid)) (\<lambda>_. look readStateFile) fs"
    by (simp add: getAssignment_def readState_def recoverPendingCompletion_def and_then_def look_def split: prod.splits sum.splits)
  then have "fst (getAssignment call aid fs) = fst (withAssignmentLock call True aid (\<lambda>_. give ()) fs)"
    by (simp add: withAssignmentLock_def and_then_assoc)
      (simp add: and_then_def look_def give_def emit_def fail_with_def split: prod.splits sum.splits)
  then have "gs \<in> crash_states (withAssignmentLock call True aid (\<lambda>_. give ())) fs" "\<forall>w\<in>set (fst (withAssignmentLock call True aid (\<lambda>_. give ()) fs)). write_ok w"
    using assms(2,3) by (simp_all add: crash_states_def writes_ok_def)
  then show ?thesis
  proof (rule lock_crash [OF assms(1)], goal_cases)
    case (2 t hs)
    then show ?case using inside_docs [of aid hs fs] by simp
  qed simp
qed

definition undoes_itself :: "request \<Rightarrow> bool" where
  \<comment> \<open>the requests that write documents back when they fail\<close>
  "undoes_itself r = (case r of Enqueue call input \<Rightarrow> True | Undo call rc random \<Rightarrow> True | _ \<Rightarrow> False)"

lemma failed_request_docs:
  assumes "store_ok aid fs" "request_ok aid r" "writes_ok (perform aid r) fs" "\<not> undoes_itself r"
    and "fst (run_prog (perform aid r) fs) = Inl e" "gs \<in> crash_states (perform aid r) fs"
  shows "next_docs aid gs = next_docs aid fs"
proof -
  note request = assms(3,5,6)
  show ?thesis
  proof (cases r)
    case (Read call)
    with read_docs [OF assms(1)] request show ?thesis by simp
  next
    case (Beat call n v)
    with request have "gs = fs" by (simp add: recordHeartbeat_def split: if_splits)
    then show ?thesis by simp
  next
    case (GetOrCreate call input)
    then have aid: "assignment_of input = aid" using assms(2) by simp
    note r = request [unfolded GetOrCreate perform.simps ignore_facts ignore_fails getOrCreateAssignmentForEntry_def Let_def aid]
    show ?thesis by (rule locked_clean [OF assms(1) r(1) _ r(2,3)]) (intro clean_rules)
  next
    case (NewAttempt call input token)
    note r = request [unfolded NewAttempt perform.simps ignore_facts ignore_fails createAttempt_def]
    show ?thesis by (rule locked_clean [OF assms(1) r(1) _ r(2,3)]) (intro clean_rules)
  next
    case (Running call n who)
    note r = request [unfolded Running perform.simps markRunning_def]
    show ?thesis by (rule locked_clean [OF assms(1) r(1) _ r(2,3)]) (intro clean_rules)
  next
    case (Completed call n result)
    note r = request [unfolded Completed perform.simps ignore_facts ignore_fails completeAttemptFromExistingResult_def]
    show ?thesis by (rule locked_clean [OF assms(1) r(1) _ r(2,3)]) (intro clean_rules)
  next
    case (Synthetic call n result)
    note r = request [unfolded Synthetic perform.simps ignore_facts ignore_fails writeSyntheticFailure_def]
    show ?thesis by (rule locked_clean [OF assms(1) r(1) _ r(2,3)]) (intro clean_rules)
  next
    case (Finalized call step)
    note r = request [unfolded Finalized perform.simps markFinalized_def]
    show ?thesis by (rule locked_clean [OF assms(1) r(1) _ r(2,3)]) (intro clean_rules)
  next
    case (Checked call n who)
    note r = request [unfolded Checked perform.simps ignore_facts ignore_fails assertActiveAttemptIdentity_def]
    show ?thesis by (rule locked_clean [OF assms(1) r(1) _ r(2,3)]) (intro clean_rules)
  next
    case (Stop call n reason)
    note r = request [unfolded Stop perform.simps ignore_facts ignore_fails writeCancel_def]
    show ?thesis by (rule locked_clean [OF assms(1) r(1) _ r(2,3)]) (intro clean_rules)
  qed (use assms(4) in \<open>simp_all add: undoes_itself_def\<close>)
qed

section \<open>Stale attempts\<close>

lemma recovered_beat:
  assumes "store_ok aid fs" "store_ok aid (apply_write (Put (Heartbeat n) v) fs)" "q \<noteq> Heartbeat n"
  shows "docs (recovered aid (apply_write (Put (Heartbeat n) v) fs)) q = docs (recovered aid fs) q"
  using assms(1)
proof (rule recovered_docs)
  assume wal: "docs fs Wal = Absent" and idle: "recovered aid fs = fs"
  have "recovered aid (apply_write (Put (Heartbeat n) v) fs) = apply_write (Put (Heartbeat n) v) fs" by (rule recovered_idle [OF assms(2)]) (simp add: wal)
  with idle assms(3) show ?thesis by simp
next
  fix p m assume p: "docs fs Wal = Doc p" "wal_doc aid m p" "docs (recovered aid fs) = settled (pad3 m) p (docs fs)"
  have "docs (recovered aid (apply_write (Put (Heartbeat n) v) fs)) = settled (pad3 m) p (docs (apply_write (Put (Heartbeat n) v) fs))"
    by (rule recovery_settles(1) [OF assms(2) _ p(2)]) (simp add: p(1))
  with p(3) assms(3) show ?thesis by (simp add: settled_def)
qed

fun target :: "request \<Rightarrow> jsnum option" where
  \<comment> \<open>the attempt that a request speaks for\<close>
  "target (Running call n who) = Some n"
| "target (Completed call n result) = Some n"
| "target (Synthetic call n result) = Some n"
| "target (Checked call n who) = Some n"
| "target (Stop call n reason) = Some n"
| "target (Beat call n v) = Some n"
| "target _ = None"

definition is_beat :: "request \<Rightarrow> bool" where
  "is_beat r = (case r of Beat call n v \<Rightarrow> True | _ \<Rightarrow> False)"

definition active_attempt :: "string \<Rightarrow> store_files \<Rightarrow> jsnum \<Rightarrow> bool" where
  "active_attempt aid fs n = (\<exists>s. docs (recovered aid fs) State = Doc s \<and> to_num (fld s ''activeAttempt'') = n)"

lemma load_stale:
  assumes "docs hs State = docs (recovered aid fs) State" "\<not> active_attempt aid fs n"
  obtains e where "loadActiveAttempt aid n hs = Inl e"
proof (cases "loadActiveAttempt aid n hs")
  case (Inr sa)
  then obtain s where "docs hs State = Doc s" "to_num (fld s ''activeAttempt'') = n"
    by (auto simp: loadActiveAttempt_def readStateFile_def thn_eq_Inr read_Some Let_def split: option.splits if_splits)
  with assms show thesis by (simp add: active_attempt_def)
qed

lemma locked_stale:
  assumes "store_ok aid fs" "writes_ok (withAssignmentLock call True aid (\<lambda>_. and_then (look (loadActiveAttempt aid n)) f)) fs"
    and "\<not> active_attempt aid fs n"
  shows "\<exists>e. fst (run_prog (withAssignmentLock call True aid (\<lambda>_. and_then (look (loadActiveAttempt aid n)) f)) fs) = Inl e"
proof (cases "lc_writable call")
  case False
  then show ?thesis by (simp add: withAssignmentLock_def)
next
  case True
  show ?thesis
  proof (rule lock_run [OF assms(1) assms(2) [unfolded writes_ok_def] True], goal_cases)
    case (1 t hs)
    have "docs hs State = docs (recovered aid fs) State" by (subst 1(2)) simp
    from load_stale [OF this assms(3)] obtain e where "loadActiveAttempt aid n hs = Inl e" .
    then show ?case unfolding 1(4) by simp
  qed
qed

lemma stale_fails:
  assumes "store_ok aid fs" "writes_ok (perform aid r) fs" "target r = Some n" "\<not> active_attempt aid fs n" "\<not> is_beat r"
  obtains e where "fst (run_prog (perform aid r) fs) = Inl e"
proof -
  have "\<exists>e. fst (run_prog (perform aid r) fs) = Inl e"
  proof (cases r)
    case (Running call k who)
    with assms(3) have r: "r = Running call n who" by simp
    show ?thesis
      unfolding r perform.simps ignore_fails markRunning_def
      by (rule locked_stale [OF assms(1) assms(2) [unfolded r perform.simps ignore_facts markRunning_def] assms(4)])
  next
    case (Completed call k result)
    with assms(3) have r: "r = Completed call n result" by simp
    show ?thesis
      unfolding r perform.simps ignore_fails completeAttemptFromExistingResult_def
      by (rule locked_stale [OF assms(1) assms(2) [unfolded r perform.simps ignore_facts completeAttemptFromExistingResult_def] assms(4)])
  next
    case (Synthetic call k result)
    with assms(3) have r: "r = Synthetic call n result" by simp
    show ?thesis
      unfolding r perform.simps ignore_fails writeSyntheticFailure_def
      by (rule locked_stale [OF assms(1) assms(2) [unfolded r perform.simps ignore_facts writeSyntheticFailure_def] assms(4)])
  next
    case (Checked call k who)
    with assms(3) have r: "r = Checked call n who" by simp
    show ?thesis
      unfolding r perform.simps ignore_fails assertActiveAttemptIdentity_def
      by (rule locked_stale [OF assms(1) assms(2) [unfolded r perform.simps ignore_facts assertActiveAttemptIdentity_def] assms(4)])
  next
    case (Stop call k reason)
    with assms(3) have r: "r = Stop call n reason" by simp
    show ?thesis
      unfolding r perform.simps ignore_fails writeCancel_def
      by (rule locked_stale [OF assms(1) assms(2) [unfolded r perform.simps ignore_facts writeCancel_def] assms(4)])
  qed (use assms(3,5) in \<open>simp_all add: is_beat_def\<close>)
  with that show thesis by blast
qed

lemma beat_docs:
  assumes "store_ok aid fs" "store_ok aid gs" "gs \<in> crash_states (perform aid (Beat call n v)) fs" "q \<noteq> Heartbeat (attempt_name n)"
  shows "next_docs aid gs q = next_docs aid fs q"
proof -
  from assms(3) have "gs = fs \<or> (\<exists>w. gs = apply_write (Put (Heartbeat (attempt_name n)) w) fs)"
    by (auto simp: recordHeartbeat_def crash_emit split: if_splits)
  then show ?thesis using recovered_beat [OF assms(1) _ assms(4)] assms(2) by (auto simp: next_docs_def)
qed


section \<open>Accepted completions\<close>

lemma validate_full:
  assumes "validateAttemptIdentity aid n a i True = Inr ()"
  shows "fld i ''assignmentId'' = JStr aid" "to_num (fld i ''attempt'') = n" "strict_eq (fld i ''attemptToken'') (fld a ''attemptToken'')"
    "fld a ''orchestratorEpoch'' = JUndef \<or> strict_eq (JNum (to_num (fld i ''orchestratorEpoch''))) (fld a ''orchestratorEpoch'')"
  using assms by (simp_all add: validateAttemptIdentity_def Let_def split: if_splits)

definition holds_token :: "string \<Rightarrow> store_files \<Rightarrow> jsnum \<Rightarrow> js \<Rightarrow> bool" where
  \<comment> \<open>who has the token and the epoch of the attempt\<close>
  "holds_token aid fs n who = (fld who ''assignmentId'' = JStr aid \<and> to_num (fld who ''attempt'') = n
     \<and> (\<exists>a. docs (recovered aid fs) (Attempt (attempt_name n)) = Doc a \<and> strict_eq (fld who ''attemptToken'') (fld a ''attemptToken'')
          \<and> (fld a ''orchestratorEpoch'' = JUndef \<or> strict_eq (JNum (to_num (fld who ''orchestratorEpoch''))) (fld a ''orchestratorEpoch''))))"

definition outcome :: "string \<Rightarrow> store_files \<Rightarrow> jsnum \<Rightarrow> js \<Rightarrow> bool" where
  \<comment> \<open>the status of the assignment and of the attempt\<close>
  "outcome aid fs n status = (\<exists>s a. docs (recovered aid fs) State = Doc s \<and> docs (recovered aid fs) (Attempt (attempt_name n)) = Doc a
     \<and> fld s ''status'' = status \<and> fld a ''status'' = status)"

text \<open>C14: A completion is accepted only from who holds the identity, the token and the epoch of the active
  attempt; then the assignment and the attempt have the status of the result. When the assignment has ended
  before, only the same outcome is accepted again.\<close>

theorem completion_accepted:
  assumes "store_ok aid fs" "writes_ok (completeAttemptFromExistingResult call aid n result) fs"
    and "run_prog (completeAttemptFromExistingResult call aid n result) fs = (Inr True, gs)"
  shows "active_attempt aid fs n \<and> holds_token aid fs n result \<and> outcome aid gs n (terminalStatusFromResult (fld result ''status''))
    \<and> (\<forall>s. docs (recovered aid fs) State = Doc s \<longrightarrow> terminal_status (fld s ''status'') \<longrightarrow> outcome aid fs n (terminalStatusFromResult (fld result ''status'')))"
proof -
  have "lc_writable call" using assms(3) by (rule contrapos_pp) (simp add: complete_locked withAssignmentLock_def)
  note run = lock_run [OF assms(1) assms(2) [unfolded writes_ok_def complete_locked] this]
  have ok: "store_ok aid gs" using sound_final [OF sound_complete [OF assms(1)] assms(2) [unfolded writes_ok_def]] assms(3) by simp
  show ?thesis
  proof (rule run, goal_cases)
    case (1 t hs)
    have same: "docs (recovered aid fs) State = docs hs State" "docs (recovered aid fs) (Attempt q) = docs hs (Attempt q)" for q
      by (subst 1(2), simp)+
    note r = assms(3) [unfolded complete_locked 1(4)]
    from 1(1) show ?case
    proof (cases rule: completion_cases [where call = call and n = n and result = result])
      case (rejected e)
      with r show ?thesis by (simp add: run_prog_def)
    next
      case (replay m s a b)
      with r have gs: "gs = hs" and b by (simp_all add: run_prog_def)
      then have "recovered aid gs = gs" using 1(1) by (simp add: idle_def recovered_idle)
      with replay gs \<open>b\<close> validate_full [OF replay(8)] show ?thesis
        unfolding active_attempt_def holds_token_def outcome_def same by (auto simp: state_active)
    next
      case (writes m s a)
      then have gs: "gs = apply_writes (fst (completion call aid n result hs)) hs" using r by (simp add: run_prog_def)
      have "docs gs Wal = Absent" "docs gs State = Doc (json_copy (completed_state (stamp call ''completedAt'') result s))"
        "docs gs (Attempt (pad3 m)) = Doc (json_copy (completed_attempt (stamp call ''completedAt'') result a))"
        unfolding gs writes(1) by simp_all
      with recovered_idle [OF ok] have "outcome aid gs n (terminalStatusFromResult (fld result ''status''))"
        by (simp add: outcome_def writes(2) completed_fields json_terminal)
      with writes validate_full [OF writes(8)] show ?thesis
        unfolding active_attempt_def holds_token_def same by (auto simp: state_active)
    qed
  qed
qed

section \<open>Assignments that have ended\<close>

definition has_status :: "string \<Rightarrow> store_files \<Rightarrow> bool" where
  "has_status st fs = (docs fs Wal = Absent \<and> (\<exists>s. docs fs State = Doc s \<and> fld s ''status'' = JStr st))"

definition ended :: "string \<Rightarrow> string \<Rightarrow> store_files \<Rightarrow> bool" where
  \<comment> \<open>the next reader finds an assignment that has ended in this way\<close>
  "ended st aid fs = (st \<in> set TERMINAL_ASSIGNMENT_STATUSES \<and> has_status st (recovered aid fs))"

fun keeps_outcome :: "store_files \<Rightarrow> request \<Rightarrow> bool" where
  \<comment> \<open>neither opens the assignment again nor makes a failure up for an attempt without a result\<close>
  "keeps_outcome fs (GetOrCreate call input) = False"
| "keeps_outcome fs (NewAttempt call input token) = False"
| "keeps_outcome fs (Enqueue call input) = False"
| "keeps_outcome fs (Undo call rc random) = False"
| "keeps_outcome fs (Synthetic call n result) = (docs fs (Result (attempt_name n)) \<noteq> Absent)"
| "keeps_outcome fs _ = True"

lemma recovered_side:
  assumes "store_ok aid fs"
  shows "docs (recovered aid fs) (Result n) = docs fs (Result n)"
  using assms by (rule recovered_docs) (simp_all add: settled_def)

lemma ended_docs: "store_ok aid fs \<Longrightarrow> store_ok aid gs \<Longrightarrow> next_docs aid gs = next_docs aid fs \<Longrightarrow> ended st aid fs \<Longrightarrow> ended st aid gs"
proof -
  assume ok: "store_ok aid fs" "store_ok aid gs" and same: "next_docs aid gs = next_docs aid fs" and "ended st aid fs"
  have wal: "docs (recovered aid hs) Wal = Absent" if "store_ok aid hs" for hs by (rule recovered_docs [OF that]) simp_all
  have "docs (recovered aid gs) State = docs (recovered aid fs) State"
    using fun_cong [OF same, of State] by (simp add: next_docs_def)
  with wal [OF ok(2)] \<open>ended st aid fs\<close> show ?thesis by (simp add: ended_def has_status_def)
qed

lemma terminal_str: "st \<in> set TERMINAL_ASSIGNMENT_STATUSES \<Longrightarrow> terminal_status (JStr st)"
  by (auto simp: terminal_status_def TERMINAL_ASSIGNMENT_STATUSES_def or_else_def)

lemma locked_ended:
  assumes "store_ok aid fs" "store_ok aid gs" "ended st aid fs" "writes_ok (withAssignmentLock call True aid cb) fs"
    "gs \<in> crash_states (withAssignmentLock call True aid cb) fs"
    and "\<And>t hs. idle aid hs \<Longrightarrow> has_status st hs \<Longrightarrow> docs hs = (docs (recovered aid fs))(Mutation := docs hs Mutation) \<Longrightarrow> always (has_status st) (cb t) hs"
  shows "ended st aid gs"
proof (rule lock_crash [OF assms(1,5) assms(4) [unfolded writes_ok_def]], goal_cases)
  case 1
  from ended_docs [OF assms(1,2) 1 assms(3)] show ?case .
next
  case (2 t hs)
  have "docs hs Wal = docs (recovered aid fs) Wal" "docs hs State = docs (recovered aid fs) State" by (subst 2(2), simp)+
  then have "has_status st hs" using assms(3) by (simp add: ended_def has_status_def)
  from assms(6) [OF 2(1) this 2(2)] 2(3) have gs: "has_status st gs" by (simp add: always_def)
  then have "recovered aid gs = gs" using assms(2) by (simp add: recovered_idle has_status_def)
  with gs assms(3) show ?case by (simp add: ended_def)
qed

lemma always_look:
  "J fs \<Longrightarrow> (\<And>v. g fs = Inr v \<Longrightarrow> always J (f v) fs) \<Longrightarrow> always J (and_then (look g) f) fs"
  by (intro always_rules) auto

lemma always_active:
  assumes "idle aid hs" "has_status st hs"
    and "\<And>s a. fld s ''status'' = JStr st \<Longrightarrow> always (has_status st) (f (s, a)) hs"
  shows "always (has_status st) (and_then (look (loadActiveAttempt aid n)) f) hs"
proof (rule always_look [where J = "has_status st", OF assms(2)])
  fix v assume load: "loadActiveAttempt aid n hs = Inr v"
  obtain s a where v: "v = (s, a)" by (cases v)
  have "run_prog (look (loadActiveAttempt aid n)) hs = (Inr (s, a), hs)" by (simp add: load v)
  from load_active [OF idle_ok [OF assms(1)] this] have "docs hs State = Doc s" by metis
  with assms(2) have "fld s ''status'' = JStr st" by (simp add: has_status_def)
  from assms(3) [OF this] show "always (has_status st) (f v) hs" unfolding v .
qed

lemma status_kept:
  assumes "has_status st hs" "docs hs State = Doc s" "k \<noteq> ''status''"
  shows "has_status st (apply_write (Put State (set_fields [(k, v)] s)) hs)"
  using assms by (simp add: has_status_def fld_set_fields)

lemma step_status: "step @ ''FinalizedAt'' \<noteq> ''status''"
proof -
  have "rev (step @ ''FinalizedAt'') \<noteq> rev ''status''" by simp
  then show ?thesis by metis
qed

text \<open>C16: An assignment that has ended keeps its outcome, wherever they crash, through all requests that neither
  open it again nor make a failure up: reading, heartbeats, markRunning, completions, identity checks, cancelling,
  finalising, and a synthetic failure for an attempt that has a result file. Left out are the requests that open
  the assignment again (getOrCreate, which resets the status before any new attempt is made, a new attempt, an
  enqueue, and the undoing of an enqueue, which writes the former documents back), and a synthetic failure for an
  attempt without a result file.\<close>

theorem outcome_final:
  assumes "store_ok aid fs" "request_ok aid r" "writes_ok (perform aid r) fs" "keeps_outcome fs r" "ended st aid fs"
    and "gs \<in> crash_states (perform aid r) fs"
  shows "ended st aid gs"
proof -
  have ok: "store_ok aid gs" by (rule sound_crash [OF sound_perform [OF assms(1,2)] assms(3,6)])
  note by_lock = locked_ended [OF assms(1) ok assms(5)]
  have over: "terminal_status (JStr st)" using assms(5) by (simp add: ended_def terminal_str)
  note request = assms(3,6)
  show ?thesis
  proof (cases r)
    case (Read call)
    with read_docs [OF assms(1)] request ended_docs [OF assms(1) ok _ assms(5)] show ?thesis by simp
  next
    case (Beat call n v)
    with assms(6) have "gs = fs \<or> (\<exists>w. gs = apply_write (Put (Heartbeat (attempt_name n)) w) fs)"
      by (auto simp: recordHeartbeat_def crash_emit split: if_splits)
    then have "docs (recovered aid gs) State = docs (recovered aid fs) State \<and> docs (recovered aid gs) Wal = docs (recovered aid fs) Wal"
      using recovered_beat [OF assms(1)] ok by blast
    with assms(5) show ?thesis by (simp add: ended_def has_status_def)
  next
    case (Running call n who)
    note w = request [unfolded Running perform.simps markRunning_def]
    show ?thesis
      by (rule by_lock [OF w], rule always_active, assumption, assumption) (auto simp: over intro!: always_look always_basic)
  next
    case (Completed call n result)
    note w = request [unfolded Completed perform.simps ignore_facts completeAttemptFromExistingResult_def]
    show ?thesis
      by (rule by_lock [OF w], rule always_active, assumption, assumption) (auto simp: over Let_def intro!: always_look always_basic)
  next
    case (Checked call n who)
    note w = request [unfolded Checked perform.simps ignore_facts assertActiveAttemptIdentity_def]
    show ?thesis
      by (rule by_lock [OF w], rule always_active, assumption, assumption) (auto simp: over intro!: always_look always_basic)
  next
    case (Stop call n reason)
    note w = request [unfolded Stop perform.simps ignore_facts writeCancel_def]
    show ?thesis
      by (rule by_lock [OF w], rule always_active, assumption, assumption) (auto simp: over intro!: always_look always_basic)
  next
    case (Synthetic call n result)
    note w = request [unfolded Synthetic perform.simps ignore_facts writeSyntheticFailure_def]
    show ?thesis
    proof (rule by_lock [OF w], goal_cases)
      case (1 t hs)
      have "docs hs (Result (attempt_name n)) = docs fs (Result (attempt_name n))"
        by (subst 1(3)) (simp add: recovered_side [OF assms(1)])
      with assms(4) have exists: "docs hs (Result (attempt_name n)) \<noteq> Absent" by (simp add: Synthetic)
      from 1(1,2) show ?case
        by (rule always_active) (auto simp: Let_def exists 1(2) intro!: always_look always_basic)
    qed
  next
    case (Finalized call step)
    note w = request [unfolded Finalized perform.simps markFinalized_def]
    show ?thesis
    proof (rule by_lock [OF w], rule always_look, assumption, goal_cases)
      case (1 t hs state)
      show ?case
      proof (cases state)
        case (Some s)
        with 1(4) have "docs hs State = Doc s" by (simp add: readStateFile_def read_Some)
        from status_kept [OF 1(2) this step_status] 1(2) show ?thesis by (simp add: Some Let_def always_basic)
      qed (simp add: 1(2) always_basic)
    qed
  qed (use assms(4) in simp_all)
qed

end
