(* ===== verification/AssignmentBlocked.thy ===== *)
theory AssignmentBlocked
  imports AssignmentProperties
begin

text \<open>
  What undoing an enqueue leaves behind: the directory of the attempt is renamed within \<^verbatim>\<open>attempts\<close>, and the
  renamed directory is not the one of an attempt. The documents of the assignment are invalid from then on.
\<close>

section \<open>Foreign entries\<close>

definition foreign :: "store_files \<Rightarrow> bool" where
  \<comment> \<open>an entry of \<^verbatim>\<open>attempts\<close> that is not the directory of an attempt\<close>
  "foreign fs = (\<exists>e\<in>set (listing fs). attempt_dir e = None)"

lemma quarantine_foreign: "attempt_dir (quarantine_name n r, d) = None"
  by (simp add: attempt_dir_def quarantine_name_def is_digit_def)

lemma list_entry_mono: "set es \<subseteq> set (list_entry n es)"
  by (auto simp: list_entry_def)

lemma foreign_write: "foreign fs \<Longrightarrow> w \<noteq> Isolate_all \<Longrightarrow> foreign (apply_write w fs)"
proof -
  assume "foreign fs" and w: "w \<noteq> Isolate_all"
  then obtain e where e: "e \<in> set (listing fs)" "attempt_dir e = None" by (auto simp: foreign_def)
  show "foreign (apply_write w fs)"
  proof (cases w)
    case (Put p v)
    with e list_entry_mono show ?thesis by (fastforce simp: foreign_def apply_write.simps split: option.splits)
  next
    case (Mkdir n)
    with e list_entry_mono show ?thesis by (fastforce simp: foreign_def apply_write.simps)
  next
    case (Isolate n r)
    let ?e = "if fst e = n then (quarantine_name n r, snd e) else e"
    have "?e \<in> set (listing (apply_write w fs))" using e(1) by (auto simp: Isolate apply_write.simps)
    moreover have "attempt_dir ?e = None" using e(2) by (simp add: quarantine_foreign)
    ultimately show ?thesis unfolding foreign_def by blast
  qed (use e w in \<open>auto simp: foreign_def apply_write.simps\<close>)
qed

definition spares :: "'a prog \<Rightarrow> bool" where
  \<comment> \<open>never removes \<^verbatim>\<open>attempts\<close>\<close>
  "spares p = (\<forall>fs. Isolate_all \<notin> set (fst (p fs)))"

named_theorems spares_rules

lemma spares_basic [spares_rules]:
  "spares (give v)" "spares (fail_with e)" "spares (look g)" "w \<noteq> Isolate_all \<Longrightarrow> spares (emit w)"
  by (simp_all add: spares_def give_def fail_with_def look_def emit_def)

lemma spares_and_then [spares_rules]: "spares p \<Longrightarrow> (\<And>v. spares (f v)) \<Longrightarrow> spares (and_then p f)"
  by (auto simp: spares_def and_then_def split: prod.splits sum.splits)
    (metis fst_conv)+

lemma spares_split [spares_rules]:
  "spares p1 \<Longrightarrow> spares q1 \<Longrightarrow> spares (if b1 then p1 else q1)"
  "spares p2 \<Longrightarrow> (\<And>v. spares (f2 v)) \<Longrightarrow> spares (case r2 of None \<Rightarrow> p2 | Some v \<Rightarrow> f2 v)"
  "(\<And>x y. spares (f3 x y)) \<Longrightarrow> spares (case r3 of (x, y) \<Rightarrow> f3 x y)"
  "(\<And>v. spares (f4 v)) \<Longrightarrow> spares (let v = r4 in f4 v)"
  "spares p5 \<Longrightarrow> spares (only_if b5 p5)"
  by (auto simp: only_if_def spares_basic split: option.splits prod.splits)

lemma spares_ignore [spares_rules]: "spares p \<Longrightarrow> spares (ignore p)"
  by (simp add: spares_def)

lemma foreign_writes: "foreign fs \<Longrightarrow> Isolate_all \<notin> set ws \<Longrightarrow> foreign (apply_writes ws fs)"
  by (induction ws arbitrary: fs) (auto simp: foreign_write)

lemma foreign_crash: "spares p \<Longrightarrow> foreign fs \<Longrightarrow> gs \<in> crash_states p fs \<Longrightarrow> foreign gs"
  unfolding spares_def crash_states_def by (auto intro!: foreign_writes dest: in_set_takeD)

lemma foreign_run: "spares p \<Longrightarrow> foreign fs \<Longrightarrow> foreign (snd (run_prog p fs))"
  by (rule foreign_crash [of p fs]) (auto intro: crash_end [of p fs "fst (run_prog p fs)"])

lemma spares_recovery [spares_rules]: "spares (recoverPendingCompletionUnderLock aid)"
  unfolding recoverPendingCompletionUnderLock_def by (intro spares_rules) simp_all

lemma spares_lock [spares_rules]: "(\<And>t. spares (cb t)) \<Longrightarrow> spares (withAssignmentLock call b aid cb)"
  unfolding withAssignmentLock_def by (intro spares_rules) simp_all

section \<open>Invalid for ever\<close>

lemma foreign_entries:
  "fold_r (snapshot_entry aid fs) es acc = Inr (attempts, others) \<Longrightarrow> (\<exists>e\<in>set es. attempt_dir e = None) \<or> snd acc \<noteq> [] \<Longrightarrow> others \<noteq> []"
proof (induction es arbitrary: acc)
  case (Cons e es)
  from Cons.prems(1) obtain acc1 where acc1: "snapshot_entry aid fs e acc = Inr acc1" "fold_r (snapshot_entry aid fs) es acc1 = Inr (attempts, others)"
    by (auto simp: thn_eq_Inr)
  have "snd acc1 \<noteq> []" if "attempt_dir e = None \<or> snd acc \<noteq> []"
    using acc1(1) that by (auto simp: snapshot_entry_def thn_eq_Inr split: option.splits if_splits)
  with Cons.IH [OF acc1(2)] Cons.prems(2) show ?case by auto
qed simp

lemma foreign_invalid:
  assumes "foreign fs" "localDocumentSnapshot aid fs = Inr sn"
  obtains e where "documentFromLocalSnapshot aid sn = Inl e"
proof -
  note result = that
  from assms(2) obtain input state owner attempts others where
    "fold_r (snapshot_entry aid fs) (listing fs) ([], []) = Inr (attempts, others)"
    and sn: "sn = (if input = None \<and> state = None \<and> owner = None \<and> attempts = [] \<and> others = [] then None
            else Some \<lparr>sn_input = input, sn_state = state, sn_attempts = attempts, sn_owner = owner, sn_foreign = others\<rparr>)"
    by (auto simp: localDocumentSnapshot_def thn_eq_Inr)
  moreover from this foreign_entries assms(1) have "others \<noteq> []" unfolding foreign_def by blast
  ultimately show thesis by (cases input; cases state) (auto simp: documentFromLocalSnapshot_def intro: result)
qed

text \<open>Under a foreign entry both fail before their first write.\<close>

lemma foreign_enqueue: "foreign fs \<Longrightarrow> \<exists>e. enqueueUnderLock call aid input fs = ([], Inl e)"
proof -
  assume f: "foreign fs"
  show ?thesis
  proof (cases "localDocumentSnapshot aid fs")
    case (Inr sn)
    from foreign_invalid [OF f this] obtain e where "documentFromLocalSnapshot aid sn = Inl e" .
    with Inr show ?thesis by (simp add: enqueueUnderLock_def)
  qed (simp add: enqueueUnderLock_def)
qed

lemma foreign_undo:
  assumes "foreign fs"
  shows "\<exists>e. (if b then fail_with e' else and_then (look (localDocumentSnapshot aid)) (\<lambda>sn. and_then (look (\<lambda>_. documentFromLocalSnapshot aid sn)) (f sn))) fs = ([], Inl e)"
proof (cases "localDocumentSnapshot aid fs")
  case (Inr sn)
  from foreign_invalid [OF assms this] obtain e where "documentFromLocalSnapshot aid sn = Inl e" .
  with Inr show ?thesis by (simp add: fail_with_def)
qed (simp add: fail_with_def)

lemma spares_always: "spares p \<Longrightarrow> foreign fs \<Longrightarrow> always foreign p fs"
  unfolding always_def by (blast intro: foreign_crash)

lemma foreign_locked:
  assumes "foreign fs" "\<And>t hs. foreign hs \<Longrightarrow> \<exists>e. cb t hs = ([], Inl e)"
  shows "(\<exists>e. fst (run_prog (withAssignmentLock call True aid cb) fs) = Inl e) \<and> always foreign (withAssignmentLock call True aid cb) fs"
proof -
  define lock :: "js prog" where "lock = withAssignmentLock call True aid give"
  have shape: "withAssignmentLock call True aid cb = and_then lock cb"
    unfolding lock_def withAssignmentLock_def by (simp add: and_then_assoc)
  have "spares lock" unfolding lock_def by (intro spares_rules)
  then have lock: "always foreign lock fs" "foreign (snd (run_prog lock fs))"
    using assms(1) by (rule spares_always, intro foreign_run)
  have cb: "(\<exists>e. fst (run_prog (cb t) hs) = Inl e) \<and> always foreign (cb t) hs" if "foreign hs" for t hs
  proof -
    from assms(2) [OF that] obtain e where "cb t hs = ([], Inl e)" by blast
    with that show ?thesis by (simp add: run_prog_def always_def crash_states_def)
  qed
  have "always foreign (and_then lock cb) fs"
    by (intro always_and_then lock(1)) (use cb in blast)
  moreover have "\<exists>e. fst (run_prog (and_then lock cb) fs) = Inl e"
  proof (cases "run_prog lock fs")
    case (Pair r hs)
    with lock(2) have "foreign hs" by simp
    from cb [OF this] Pair show ?thesis by (cases r) auto
  qed
  ultimately show ?thesis unfolding shape by blast
qed

lemma foreign_enqueueWithReceipt:
  assumes "foreign fs"
  shows "(\<exists>e. fst (run_prog (enqueueWithReceipt call input) fs) = Inl e) \<and> always foreign (enqueueWithReceipt call input) fs"
proof (cases "normalizeJsonValue input ''assignment enqueue input''")
  case (Inl e)
  with assms show ?thesis by (simp add: enqueueWithReceipt_def always_def crash_states_def)
next
  case (Inr inp)
  have "enqueueWithReceipt call input fs = withAssignmentLock (ec_lock call) True (assignment_of inp) (\<lambda>_. enqueueUnderLock call (assignment_of inp) inp) fs"
    unfolding enqueueWithReceipt_def by (simp add: Inr)
  moreover have "(\<exists>e. fst (run_prog (withAssignmentLock (ec_lock call) True (assignment_of inp) (\<lambda>_. enqueueUnderLock call (assignment_of inp) inp)) fs) = Inl e)
      \<and> always foreign (withAssignmentLock (ec_lock call) True (assignment_of inp) (\<lambda>_. enqueueUnderLock call (assignment_of inp) inp)) fs"
    by (rule foreign_locked [OF assms foreign_enqueue])
  ultimately show ?thesis by (simp add: run_prog_def always_def crash_states_def)
qed

lemma foreign_compensate:
  assumes "foreign fs"
  shows "(\<exists>e. fst (run_prog (compensateEnqueueReceipt call rc random) fs) = Inl e) \<and> always foreign (compensateEnqueueReceipt call rc random) fs"
  unfolding compensateEnqueueReceipt_def by (rule foreign_locked [OF assms foreign_undo])

lemma foreign_perform:
  assumes "foreign fs" "gs \<in> crash_states (perform aid r) fs"
  shows "foreign gs"
proof (cases "undoes_itself r")
  case True
  with assms foreign_enqueueWithReceipt [OF assms(1)] foreign_compensate [OF assms(1)] show ?thesis
    by (cases r) (auto simp: undoes_itself_def always_def)
next
  case False
  have "spares (perform aid r)"
  proof (cases r)
    case (GetOrCreate call input)
    show ?thesis unfolding GetOrCreate perform.simps getOrCreateAssignmentForEntry_def by (intro spares_rules; simp)
  next
    case (NewAttempt call input token)
    show ?thesis unfolding NewAttempt perform.simps createAttempt_def by (intro spares_rules; simp)
  next
    case (Running call n who)
    show ?thesis unfolding Running perform.simps markRunning_def by (intro spares_rules; simp)
  next
    case (Beat call n v)
    show ?thesis unfolding Beat perform.simps recordHeartbeat_def by (intro spares_rules; simp)
  next
    case (Completed call n result)
    show ?thesis unfolding Completed perform.simps completeAttemptFromExistingResult_def by (intro spares_rules; simp)
  next
    case (Synthetic call n result)
    show ?thesis unfolding Synthetic perform.simps writeSyntheticFailure_def by (intro spares_rules; simp)
  next
    case (Finalized call step)
    show ?thesis unfolding Finalized perform.simps markFinalized_def by (intro spares_rules; simp)
  next
    case (Checked call n who)
    show ?thesis unfolding Checked perform.simps assertActiveAttemptIdentity_def by (intro spares_rules; simp)
  next
    case (Stop call n reason)
    show ?thesis unfolding Stop perform.simps writeCancel_def by (intro spares_rules; simp)
  next
    case (Read call)
    show ?thesis unfolding Read perform.simps getAssignment_def readState_def recoverPendingCompletion_def by (intro spares_rules; simp)
  qed (use False in \<open>simp_all add: undoes_itself_def\<close>)
  from foreign_crash [OF this assms] show ?thesis .
qed

lemma foreign_step: "foreign fs \<Longrightarrow> store_step aid fs gs \<Longrightarrow> foreign gs"
  by (erule store_stepE) (auto intro: foreign_perform foreign_write)

section \<open>Undoing leaves a foreign entry\<close>

definition listed :: "string \<Rightarrow> store_files \<Rightarrow> bool" where
  \<comment> \<open>a directory of that name, or already a foreign entry\<close>
  "listed name fs = (foreign fs \<or> map_of (listing fs) name = Some True)"

lemma quarantine_other: "list_all is_digit name \<Longrightarrow> quarantine_name n r \<noteq> name"
  by (auto simp: quarantine_name_def is_digit_def)

lemma map_of_renamed: "n \<noteq> name \<Longrightarrow> q \<noteq> name \<Longrightarrow> map_of (map (\<lambda>e. if fst e = n then (q, snd e) else e) es) name = map_of es name"
  by (induction es) auto

lemma map_of_list_entry: "map_of es name = Some d \<Longrightarrow> map_of (list_entry n es) name = Some d"
  by (simp add: list_entry_def map_add_def)

lemma listed_write:
  assumes "listed name fs" "w \<noteq> Isolate_all" "list_all is_digit name"
  shows "listed name (apply_write w fs)"
proof (cases "foreign fs")
  case True
  from foreign_write [OF this assms(2)] show ?thesis by (simp add: listed_def)
next
  case False
  with assms(1) have name: "map_of (listing fs) name = Some True" by (simp add: listed_def)
  show ?thesis
  proof (cases w)
    case (Isolate n r)
    show ?thesis
    proof (cases "n = name")
      case True
      have "(quarantine_name n r, True) \<in> set (listing (apply_write w fs))"
        using map_of_SomeD [OF name] by (force simp: Isolate True apply_write.simps)
      then show ?thesis using quarantine_foreign unfolding listed_def foreign_def by blast
    next
      case False
      have "map_of (listing (apply_write w fs)) name = map_of (listing fs) name"
        by (simp add: Isolate apply_write.simps map_of_renamed [OF False quarantine_other [OF assms(3)]])
      with name show ?thesis by (simp add: listed_def)
    qed
  qed (use name assms(2) map_of_list_entry [OF name] in \<open>auto simp: listed_def apply_write.simps split: option.splits\<close>)
qed

lemma listed_writes: "listed name fs \<Longrightarrow> Isolate_all \<notin> set ws \<Longrightarrow> list_all is_digit name \<Longrightarrow> listed name (apply_writes ws fs)"
  by (induction ws arbitrary: fs) (auto simp: listed_write)

lemma listed_run: "spares p \<Longrightarrow> listed name fs \<Longrightarrow> list_all is_digit name \<Longrightarrow> listed name (snd (run_prog p fs))"
  by (auto simp: run_prog_def spares_def split_beta intro!: listed_writes)

lemma isolate_run: "listed name fs \<Longrightarrow> foreign (snd (run_prog (isolate name r) fs))"
proof (cases "foreign fs")
  case True
  have "spares (isolate name r)" unfolding isolate_def by (intro spares_rules; simp)
  from foreign_run [OF this True] show ?thesis .
next
  case False
  assume "listed name fs"
  with False have name: "map_of (listing fs) name = Some True" by (simp add: listed_def)
  then have "(quarantine_name name r, True) \<in> set (listing (apply_write (Isolate name r) fs))"
    using map_of_SomeD [OF name] by (force simp: apply_write.simps)
  then have "foreign (apply_write (Isolate name r) fs)" using quarantine_foreign unfolding foreign_def by blast
  with name show ?thesis by (simp add: isolate_def)
qed

lemma run_settle_snd: "run_prog (settle p) fs = (Inr (case fst (run_prog p fs) of Inl e \<Rightarrow> [e] | Inr _ \<Rightarrow> []), snd (run_prog p fs))"
  by (simp add: run_settle split: prod.splits)

lemma run_each_Inr: "\<exists>es. fst (run_prog (run_each ps) fs) = Inr es"
proof (induction ps arbitrary: fs)
  case (Cons p ps)
  obtain es where "fst (run_prog (run_each ps) (snd (run_prog p fs))) = Inr es" using Cons by blast
  then show ?case by (cases "run_prog (run_each ps) (snd (run_prog p fs))") (simp add: run_settle_snd)
qed simp

lemma run_each_step: "snd (run_prog (run_each (p # ps)) fs) = snd (run_prog (run_each ps) (snd (run_prog p fs)))"
  using run_each_Inr [of ps "snd (run_prog p fs)"]
  by (cases "run_prog (run_each ps) (snd (run_prog p fs))") (auto simp: run_settle_snd)

lemma run_each_listed:
  assumes "isolate name r \<in> set ps" "\<forall>p\<in>set ps. spares p" "list_all is_digit name" "listed name fs"
  shows "foreign (snd (run_prog (run_each ps) fs))"
proof -
  have after: "foreign (snd (run_prog (run_each ps) fs))" if "foreign fs" "\<forall>p\<in>set ps. spares p" for ps fs
    using that
  proof (induction ps arbitrary: fs)
    case (Cons p ps)
    then have "foreign (snd (run_prog p fs))" by (simp add: foreign_run)
    with Cons show ?case unfolding run_each_step by simp
  qed simp
  show ?thesis
    using assms
  proof (induction ps arbitrary: fs)
    case (Cons p ps)
    have spares: "\<forall>p\<in>set ps. spares p" "spares p" using Cons.prems(2) by simp_all
    show ?case
    proof (cases "p = isolate name r")
      case True
      from after [OF isolate_run [OF Cons.prems(4)] spares(1)] show ?thesis unfolding run_each_step True .
    next
      case False
      then have "isolate name r \<in> set ps" using Cons.prems(1) by simp
      from Cons.IH [OF this spares(1) Cons.prems(3) listed_run [OF spares(2) Cons.prems(4,3)]] show ?thesis unfolding run_each_step .
    qed
  qed simp
qed

lemma restore_foreign:
  assumes "previous \<noteq> JNull" "k \<in> fst ` set (entries (fld com ''attempts''))" "k \<notin> fst ` set (own (fld previous ''attempts''))"
    and "list_all is_digit (padStart3 k)" "listed (padStart3 k) fs"
  shows "foreign (snd (run_prog (restoreDocumentComponents previous com owner random) fs))"
proof -
  let ?ops = "restore_operations previous com owner random"
  have in_ops: "isolate (padStart3 k) (random k) \<in> set ?ops"
    using assms(1-3) by (force simp: restore_operations_def)
  have "\<forall>p\<in>set ?ops. spares p"
    using assms(1) by (auto simp: restore_operations_def isolate_def intro!: spares_rules split: option.splits)
  from run_each_listed [OF in_ops this assms(4,5)] have "foreign (snd (run_prog (run_each ?ops) fs))" .
  then show ?thesis by (auto simp: restoreDocumentComponents_def split: prod.splits sum.splits if_splits)
qed

lemma lock_split:
  obtains lock :: "js prog" where "spares lock" "withAssignmentLock call True aid cb = and_then lock cb"
proof -
  have "withAssignmentLock call True aid cb = and_then (withAssignmentLock call True aid give) cb"
    unfolding withAssignmentLock_def by (simp add: and_then_assoc)
  moreover have "spares (withAssignmentLock call True aid give :: js prog)" by (intro spares_rules)
  ultimately show thesis using that by blast
qed

lemma compensated_foreign:
  assumes "run_prog (compensateEnqueueReceipt call rc random) fs = (Inr True, hs)" "rc_previous rc \<noteq> JNull"
    and "k \<in> fst ` set (entries (fld (rc_committed rc) ''attempts''))" "k \<notin> fst ` set (own (fld (rc_previous rc) ''attempts''))"
    and "list_all is_digit (padStart3 k)" "map_of (listing fs) (padStart3 k) = Some True"
  shows "foreign hs"
proof -
  let ?restore = "restoreDocumentComponents (rc_previous rc) (rc_committed rc) (rc_previousOwner rc) random"
  obtain cb where def: "compensateEnqueueReceipt call rc random = withAssignmentLock call True (rc_assignmentId rc) cb"
    and cb: "\<And>t fs1 gs. run_prog (cb t) fs1 = (Inr True, gs) \<Longrightarrow> gs = snd (run_prog ?restore fs1)"
    by (rule that [OF compensateEnqueueReceipt_def]) (auto simp: Let_def split: if_splits sum.splits prod.splits)
  obtain lock where lock: "spares lock" and comp: "compensateEnqueueReceipt call rc random = and_then lock cb"
    using lock_split def by metis
  from assms(1) obtain t fs1 where run: "run_prog lock fs = (Inr t, fs1)" "run_prog (cb t) fs1 = (Inr True, hs)"
    by (auto simp: comp split: prod.splits sum.splits)
  have "listed (padStart3 k) (snd (run_prog lock fs))"
    by (rule listed_run [OF lock _ assms(5)]) (simp add: listed_def assms(6))
  with run(1) have "listed (padStart3 k) fs1" by simp
  from restore_foreign [OF assms(2-5) this, of "rc_previousOwner rc" random] cb [OF run(2)] show ?thesis by simp
qed

text \<open>C17: When the enqueue of a further attempt has been undone, no request on the assignment ever enqueues it
  with a receipt again, whatever is requested in between.\<close>

theorem compensation_blocks:
  assumes "run_prog (compensateEnqueueReceipt call rc random) fs = (Inr True, hs)" "rc_previous rc \<noteq> JNull"
    and "k \<in> fst ` set (entries (fld (rc_committed rc) ''attempts''))" "k \<notin> fst ` set (own (fld (rc_previous rc) ''attempts''))"
    and "list_all is_digit (padStart3 k)" "map_of (listing fs) (padStart3 k) = Some True" "(store_step aid)\<^sup>*\<^sup>* hs gs"
  shows "\<exists>e. fst (run_prog (enqueueWithReceipt call' input) gs) = Inl e"
proof -
  from assms(7) have "foreign gs"
    by (induction rule: rtranclp_induct) (auto intro: compensated_foreign [OF assms(1-6)] foreign_step)
  then show ?thesis using foreign_enqueueWithReceipt by blast
qed

end
