(* ===== verification/AssignmentExamples.thy ===== *)
theory AssignmentExamples
  imports AssignmentBlocked HubExamples
begin

text \<open>An assignment with one running attempt, for the witnesses.\<close>

definition asg_call :: lock_call where
  "asg_call = \<lparr>lc_writable = True, lc_token = ''m'', lc_pid = jnat 7, lc_host = JStr ''h'', lc_processIdentity = JNull, lc_clock = \<lambda>_. 0\<rparr>"

definition asg_state :: js where
  "asg_state = JObj [(''assignmentId'', JStr ''a-1''), (''attempts'', jnat 1), (''activeAttempt'', jnat 1), (''status'', JStr ''running'')]"

definition asg_attempt :: js where
  "asg_attempt = JObj [(''assignmentId'', JStr ''a-1''), (''attempt'', jnat 1), (''attemptToken'', JStr ''t''), (''status'', JStr ''running'')]"

definition asg_result :: js where
  "asg_result = JObj [(''assignmentId'', JStr ''a-1''), (''attempt'', jnat 1), (''attemptToken'', JStr ''t''), (''status'', JStr ''completed'')]"

definition asg_files :: store_files where
  "asg_files = \<lparr>docs = (\<lambda>_. Absent)(State := Doc asg_state, Attempt ''001'' := Doc asg_attempt), listing = [(''001'', True)]\<rparr>"

lemmas read_rules = readLocalJsonObject_def readStateFile_def readAttempt_def readPendingCompletion_def

lemma fits_small: "length (case pretty 0 v of None \<Rightarrow> ''undefined'' | Some t \<Rightarrow> t) < 2000 \<Longrightarrow> fits_limit v"
  by (simp add: fits_limit_def LOCAL_ASSIGNMENT_JSON_MAX_BYTES_def)

lemma asg_fits: "fits_limit asg_state" "fits_limit asg_attempt"
  by (rule fits_small, code_simp)+

lemma asg_terminal: "\<not> terminal_status (JStr ''running'')"
  by (simp add: terminal_status_def TERMINAL_ASSIGNMENT_STATUSES_def or_else_def)

lemma one_rat: "(1 :: rat) = of_nat 1" "Fin (1 :: rat) = Fin (of_nat 1)"
  by simp_all

lemma pad3_1: "pad3 (Suc 0) = ''001''"
  by code_simp

lemma asg_ok: "store_ok ''a-1'' asg_files"
proof -
  have "state_doc ''a-1'' 1 asg_state" "attempt_doc ''a-1'' 1 asg_attempt"
    by (simp_all add: state_doc_def attempt_doc_def asg_state_def asg_attempt_def MAX_ATTEMPTS_def)
  moreover have "good (attempt_doc ''a-1'' i) (docs asg_files (Attempt (pad3 i)))" if "1 \<le> i" for i
  proof (cases "i = 1")
    case True
    with calculation(2) asg_fits show ?thesis by (simp add: asg_files_def pad3_1) (simp add: asg_attempt_def)
  next
    case False
    then have "pad3 i \<noteq> ''001''" using pad3_inject [of i 1] pad3_1 by simp
    then show ?thesis by (simp add: asg_files_def)
  qed
  ultimately show ?thesis using asg_fits by (auto simp: store_ok_def asg_files_def) (simp add: asg_state_def)
qed

definition asg_log :: js where
  "asg_log = completion_log ''a-1'' 1 (stamp asg_call ''completedAt'') asg_result asg_state asg_attempt"

lemma lock_free:
  fixes cb :: "js \<Rightarrow> 'b prog"
  assumes "lc_writable call" "docs fs Wal = Absent" "readLocalJsonObject Mutation ''assignment mutation owner'' fs = Inr o'"
  shows "withAssignmentLock call True aid cb fs =
    (let t = (let t = (case o' of None \<Rightarrow> JUndef | Some o' \<Rightarrow> fld o' ''ownerToken'') in if is_str t \<and> truthy t then t else JNull);
         fs1 = apply_write (Put Mutation (mutation_owner call aid)) fs
     in (Put Mutation (mutation_owner call aid) # fst (cb t fs1), snd (cb t fs1)))"
proof -
  let ?fs1 = "apply_write (Put Mutation (mutation_owner call aid)) fs"
  have "recoverPendingCompletionUnderLock aid ?fs1 = ([], Inr False)"
    using assms(2) by (simp add: recoverPendingCompletionUnderLock_def readPendingCompletion_def readLocalJsonObject_def give_def)
  then have "and_then (recoverPendingCompletionUnderLock aid) f ?fs1 = f False ?fs1" for f :: "bool \<Rightarrow> 'b prog"
    by (simp add: and_then_def split: prod.splits)
  with assms(1,3) show ?thesis by (simp add: withAssignmentLock_def and_then_assoc Let_def)
qed

lemma asg_fields:
  "fld asg_state ''activeAttempt'' = JNum (Fin 1)" "fld asg_state ''status'' = JStr ''running''" "fld asg_attempt ''assignmentId'' = JStr ''a-1''"
  "fld asg_attempt ''attempt'' = JNum (Fin 1)" "fld asg_attempt ''attemptToken'' = JStr ''t''" "isRecord asg_state" "isRecord asg_attempt"
  by (simp_all add: asg_state_def asg_attempt_def)

lemma asg_name: "attempt_name (Fin 1) = ''001''"
  using pad3_1 attempt_name_nat [of 1] by simp

lemma asg_load: "docs fs State = Doc asg_state \<Longrightarrow> docs fs (Attempt ''001'') = Doc asg_attempt \<Longrightarrow> loadActiveAttempt ''a-1'' (Fin 1) fs = Inr (asg_state, asg_attempt)"
  by (simp add: loadActiveAttempt_def read_rules asg_fits asg_fields asg_name Let_def num_integer_def)

lemma asg_valid: "validateAttemptIdentity ''a-1'' (Fin 1) asg_attempt asg_result True = Inr ()"
  by (simp add: validateAttemptIdentity_def asg_attempt_def asg_result_def strict_eq_def)

lemma asg_run: "completeAttemptFromExistingResult asg_call ''a-1'' (Fin 1) asg_result asg_files
  = ([Put Mutation (mutation_owner asg_call ''a-1''), Put Wal asg_log, Put (Attempt ''001'') (completed_attempt (stamp asg_call ''completedAt'') asg_result asg_attempt),
      Put State (completed_state (stamp asg_call ''completedAt'') asg_result asg_state), Erase Wal], Inr True)"
proof -
  have "docs asg_files Wal = Absent" "docs asg_files Mutation = Absent" "docs asg_files State = Doc asg_state" "docs asg_files (Attempt ''001'') = Doc asg_attempt"
    by (simp_all add: asg_files_def)
  then show ?thesis
    unfolding complete_locked
    by (subst lock_free [where o' = None])
      (simp_all add: asg_call_def read_rules completion_def asg_load asg_valid asg_fields asg_terminal asg_name Let_def asg_log_def completion_log_def give_def)
qed

lemma asg_stamp: "stamp asg_call k = JStr ''1970-01-01T00:00:00.000Z''"
  by (simp add: stamp_def asg_call_def nowIso_def iso_epoch)

lemma asg_call_fields: "lc_writable asg_call" "lc_token asg_call = ''m''" "lc_pid asg_call = jnat 7" "lc_host asg_call = JStr ''h''" "lc_processIdentity asg_call = JNull"
  by (simp_all add: asg_call_def)

lemma asg_owner: "json_copy (mutation_owner asg_call aid) = JObj [(''schemaVersion'', jnat 2), (''assignmentId'', JStr aid), (''ownerToken'', JStr ''m''),
    (''pid'', jnat 7), (''host'', JStr ''h''), (''acquiredAt'', JStr ''1970-01-01T00:00:00.000Z''), (''processIdentity'', JNull)]"
  by (simp add: mutation_owner_def asg_stamp asg_call_fields ASSIGNMENT_OWNER_SCHEMA_VERSION_def obj_get_def num_finite_def)

lemma asg_done: "completed_attempt (stamp asg_call ''completedAt'') asg_result asg_attempt = JObj [(''assignmentId'', JStr ''a-1''), (''attempt'', jnat 1),
    (''attemptToken'', JStr ''t''), (''status'', JStr ''completed''), (''completedAt'', JStr ''1970-01-01T00:00:00.000Z''), (''result'', asg_result)]"
  "completed_state (stamp asg_call ''completedAt'') asg_result asg_state = JObj [(''assignmentId'', JStr ''a-1''), (''attempts'', jnat 1), (''activeAttempt'', jnat 1),
     (''status'', JStr ''completed''), (''completedAt'', JStr ''1970-01-01T00:00:00.000Z''), (''resultWrittenAt'', JStr ''1970-01-01T00:00:00.000Z''),
     (''queueFinalizedAt'', JNull), (''workerFinalizedAt'', JNull)]"
  by (simp_all add: completed_attempt_def completed_state_def asg_stamp asg_attempt_def asg_state_def asg_result_def set_fields_def spread_def obj_set_def
    terminalStatusFromResult_def nullish_or_def)

definition asg_time :: js where
  "asg_time = JStr ''1970-01-01T00:00:00.000Z''"

definition asg_attempt' :: js where
  "asg_attempt' = JObj [(''assignmentId'', JStr ''a-1''), (''attempt'', jnat 1), (''attemptToken'', JStr ''t''), (''status'', JStr ''completed''),
     (''completedAt'', asg_time), (''result'', asg_result)]"

definition asg_state' :: js where
  "asg_state' = JObj [(''assignmentId'', JStr ''a-1''), (''attempts'', jnat 1), (''activeAttempt'', jnat 1), (''status'', JStr ''completed''),
     (''completedAt'', asg_time), (''resultWrittenAt'', asg_time), (''queueFinalizedAt'', JNull), (''workerFinalizedAt'', JNull)]"

lemma asg_done': "completed_attempt (stamp asg_call ''completedAt'') asg_result asg_attempt = asg_attempt'"
  "completed_state (stamp asg_call ''completedAt'') asg_result asg_state = asg_state'"
  unfolding asg_done asg_attempt'_def asg_state'_def asg_time_def by (rule refl)+

lemma asg_done_fits: "fits_limit (json_copy asg_state')" "fits_limit (json_copy asg_attempt')" "fits_limit (json_copy asg_log)"
  "fits_limit (json_copy (mutation_owner asg_call ''a-1''))"
  unfolding asg_owner asg_log_def completion_log_def asg_done' by (rule fits_small, code_simp)+

lemma asg_writes: "writes_ok (completeAttemptFromExistingResult asg_call ''a-1'' (Fin 1) asg_result) asg_files"
  unfolding writes_ok_def asg_run fst_conv asg_done'
  using asg_done_fits by (simp add: write_ok_def) (simp add: asg_state'_def MAX_ATTEMPTS_def)

section \<open>Witnesses\<close>

theorem completion_atomic_witness:
  "let p = completeAttemptFromExistingResult asg_call ''a-1'' (Fin 1) asg_result; gs = apply_writes (take 3 (fst (p asg_files))) asg_files
   in docs gs Wal \<noteq> Absent \<and> (next_view ''a-1'' gs = next_view ''a-1'' asg_files \<or> next_view ''a-1'' gs = next_view ''a-1'' (snd (run_prog p asg_files)))"
proof -
  let ?gs = "apply_writes (take 3 (fst (completeAttemptFromExistingResult asg_call ''a-1'' (Fin 1) asg_result asg_files))) asg_files"
  have "docs ?gs Wal \<noteq> Absent" by (simp add: asg_run numeral_3_eq_3)
  moreover have "?gs \<in> crash_states (completeAttemptFromExistingResult asg_call ''a-1'' (Fin 1) asg_result) asg_files"
    unfolding crash_states_def by (intro CollectI exI [of _ 3]) (simp add: asg_run)
  ultimately show ?thesis unfolding Let_def using completion_atomic [OF asg_ok asg_writes] by blast
qed

lemma asg_recovered: "recovered ''a-1'' asg_files = asg_files"
  by (rule recovered_idle [OF asg_ok]) (simp add: asg_files_def)

lemma asg_stale: "\<not> active_attempt ''a-1'' asg_files (Fin 2)"
  by (simp add: active_attempt_def asg_recovered) (simp add: asg_files_def asg_fields)

lemma stale_writes: "writes_ok (perform ''a-1'' (Completed asg_call (Fin 2) asg_result)) asg_files"
proof -
  have state: "docs asg_files State = Doc asg_state" "docs asg_files Wal = Absent" "docs asg_files Mutation = Absent" by (simp_all add: asg_files_def)
  have load: "loadActiveAttempt ''a-1'' (Fin 2) fs = Inl (stale_attempt ''a-1'' (Fin 2) (''active attempt is '' @ to_str (jnat 1)))" if "docs fs State = Doc asg_state" for fs
    using that by (simp add: loadActiveAttempt_def read_rules asg_fits asg_fields Let_def num_integer_def nullish_or_def)
  show ?thesis
    unfolding perform.simps ignore_facts complete_locked writes_ok_def
    by (subst lock_free [where o' = None]) (simp_all add: state asg_call_fields read_rules Let_def completion_def load write_ok_def asg_done_fits)
qed

definition asg_beat :: request where
  "asg_beat = Beat asg_call (Fin 2) (JObj [])"

lemma beat_writes: "fst (perform ''a-1'' asg_beat fs) = [Put (Heartbeat ''002'') (JObj [(''updatedAt'', asg_time)])]"
proof -
  have "attempt_name (Fin 2) = ''002''" by code_simp
  then show ?thesis by (simp add: asg_beat_def recordHeartbeat_def asg_call_fields asg_stamp asg_time_def emit_def spread_def obj_set_def)
qed


theorem completion_accepted_witness:
  "active_attempt ''a-1'' asg_files (Fin 1) \<and> holds_token ''a-1'' asg_files (Fin 1) asg_result
   \<and> outcome ''a-1'' (snd (run_prog (completeAttemptFromExistingResult asg_call ''a-1'' (Fin 1) asg_result) asg_files)) (Fin 1) (JStr ''completed'')"
proof -
  have run: "run_prog (completeAttemptFromExistingResult asg_call ''a-1'' (Fin 1) asg_result) asg_files
     = (Inr True, snd (run_prog (completeAttemptFromExistingResult asg_call ''a-1'' (Fin 1) asg_result) asg_files))"
    by (simp add: run_prog_def asg_run)
  have "terminalStatusFromResult (fld asg_result ''status'') = JStr ''completed''" by (simp add: asg_result_def terminalStatusFromResult_def)
  with completion_accepted [OF asg_ok asg_writes run] show ?thesis by simp
qed

text \<open>The same assignment when it has ended.\<close>

definition asg_ended :: store_files where
  "asg_ended = asg_files\<lparr>docs := (docs asg_files)(State := Doc asg_state', Attempt ''001'' := Doc asg_attempt')\<rparr>"

lemma asg_ended_docs: "docs asg_ended = (\<lambda>_. Absent)(State := Doc asg_state', Attempt ''001'' := Doc asg_attempt')"
  by (auto simp: asg_ended_def asg_files_def)

lemma asg_ended_fits: "fits_limit asg_state'" "fits_limit asg_attempt'" "fits_limit (json_copy (set_fields [(''queueFinalizedAt'', stamp asg_call ''queueFinalizedAt'')] asg_state'))"
proof -
  show "fits_limit asg_state'" "fits_limit asg_attempt'" by (rule fits_small, code_simp)+
  show "fits_limit (json_copy (set_fields [(''queueFinalizedAt'', stamp asg_call ''queueFinalizedAt'')] asg_state'))"
    unfolding asg_stamp by (rule fits_small, code_simp)
qed

lemma asg_ended_ok: "store_ok ''a-1'' asg_ended"
proof -
  have "state_doc ''a-1'' 1 asg_state'" "attempt_doc ''a-1'' 1 asg_attempt'"
    by (simp_all add: state_doc_def attempt_doc_def asg_state'_def asg_attempt'_def MAX_ATTEMPTS_def)
  moreover have "good (attempt_doc ''a-1'' i) (docs asg_ended (Attempt (pad3 i)))" if "1 \<le> i" for i
  proof (cases "i = 1")
    case True
    with calculation(2) asg_ended_fits show ?thesis by (simp add: asg_ended_docs pad3_1) (simp add: asg_attempt'_def)
  next
    case False
    then have "pad3 i \<noteq> ''001''" using pad3_inject [of i 1] pad3_1 by simp
    then show ?thesis by (simp add: asg_ended_docs)
  qed
  ultimately show ?thesis using asg_ended_fits by (auto simp: store_ok_def asg_ended_docs) (simp add: asg_state'_def)
qed

lemma asg_finalize: "markFinalized asg_call ''a-1'' ''queue'' asg_ended = ([Put Mutation (mutation_owner asg_call ''a-1''),
    Put State (set_fields [(''queueFinalizedAt'', stamp asg_call ''queueFinalizedAt'')] asg_state')], Inr ())"
  unfolding markFinalized_def
  by (subst lock_free [where o' = None])
    (simp_all add: asg_ended_docs asg_call_fields read_rules asg_ended_fits Let_def emit_def, simp_all add: asg_state'_def)

lemma asg_ended_completed: "ended ''completed'' ''a-1'' asg_ended"
proof -
  have "recovered ''a-1'' asg_ended = asg_ended" by (rule recovered_idle [OF asg_ended_ok]) (simp add: asg_ended_docs)
  then show ?thesis by (simp add: ended_def has_status_def asg_ended_docs TERMINAL_ASSIGNMENT_STATUSES_def) (simp add: asg_state'_def)
qed

theorem outcome_final_witness:
  "ended ''completed'' ''a-1'' (snd (run_prog (perform ''a-1'' (Finalized asg_call ''queue'')) asg_ended))"
proof (rule outcome_final [OF asg_ended_ok])
  show "request_ok ''a-1'' (Finalized asg_call ''queue'')" "keeps_outcome asg_ended (Finalized asg_call ''queue'')" by simp_all
  have "fld (set_fields [(''queueFinalizedAt'', stamp asg_call ''queueFinalizedAt'')] asg_state') ''attempts'' = jnat 1"
    by (simp add: asg_state'_def fld_set_fields)
  then show "writes_ok (perform ''a-1'' (Finalized asg_call ''queue'')) asg_ended"
    using asg_ended_fits asg_done_fits by (simp add: writes_ok_def asg_finalize write_ok_def MAX_ATTEMPTS_def)
  show "ended ''completed'' ''a-1'' asg_ended" by (rule asg_ended_completed)
  show "snd (run_prog (perform ''a-1'' (Finalized asg_call ''queue'')) asg_ended) \<in> crash_states (perform ''a-1'' (Finalized asg_call ''queue'')) asg_ended"
    by (rule crash_end [OF prod.collapse [symmetric]])
qed

text \<open>A second attempt, enqueued with a receipt and undone.\<close>

definition asg_state2 :: js where
  "asg_state2 = JObj [(''assignmentId'', JStr ''a-1''), (''attempts'', jnat 2), (''activeAttempt'', jnat 2), (''status'', JStr ''assigned'')]"

definition asg_attempt2 :: js where
  "asg_attempt2 = JObj [(''assignmentId'', JStr ''a-1''), (''attempt'', jnat 2), (''attemptToken'', JStr ''u''), (''status'', JStr ''assigned'')]"

definition asg_owner2 :: js where
  "asg_owner2 = JObj [(''ownerToken'', JStr ''o'')]"

definition asg_mutation :: js where
  "asg_mutation = JObj [(''ownerToken'', JStr ''m'')]"

definition asg_undo_files :: store_files where
  "asg_undo_files = \<lparr>docs = (\<lambda>_. Absent)(Input := Doc (JObj []), State := Doc asg_state2, Attempt ''001'' := Doc asg_attempt, Attempt ''002'' := Doc asg_attempt2,
     Owner := Doc asg_owner2, Mutation := Doc asg_mutation), listing = [(''001'', True), (''002'', True)]\<rparr>"

definition asg_receipt :: receipt where
  "asg_receipt = \<lparr>rc_backend = JStr ''local'', rc_assignmentId = ''a-1'', rc_previous = document (JObj []) asg_state [(''1'', asg_attempt)],
     rc_committed = document (JObj []) asg_state2 [(''1'', asg_attempt), (''2'', asg_attempt2)], rc_ownerToken = JStr ''o'', rc_mutationToken = JStr ''m'',
     rc_previousOwner = None, rc_committedOwner = asg_owner2\<rparr>"

lemma asg_undo_fits: "fits_limit (JObj [])" "fits_limit asg_state2" "fits_limit asg_attempt2" "fits_limit asg_owner2" "fits_limit asg_mutation"
  by (rule fits_small, code_simp)+

lemma asg_undo_fields: "isRecord asg_state2" "isRecord asg_attempt2" "isRecord asg_owner2" "isRecord asg_mutation" "fld asg_mutation ''ownerToken'' = JStr ''m''"
  "fld asg_owner2 ''ownerToken'' = JStr ''o''" "fld asg_state2 ''attempts'' = jnat 2" "fld asg_attempt2 ''assignmentId'' = JStr ''a-1''" "fld asg_attempt2 ''attempt'' = jnat 2"
  by (simp_all add: asg_state2_def asg_attempt2_def asg_owner2_def asg_mutation_def)

lemma asg_dirs: "attempt_dir (''001'', True) = Some (Fin 1)" "attempt_dir (''002'', True) = Some (Fin 2)"
  by code_simp+

lemma asg_keys: "show_num (Fin 1) = ''1''" "show_num (Fin 2) = ''2''" "sort_key nat_of_digits [''1'', ''2''] = map (\<lambda>i. show_nat (i + 1)) [0..<2]"
  by code_simp+

lemma asg_snapshot:
  assumes "docs fs = (docs asg_undo_files)(Mutation := d)" "listing fs = listing asg_undo_files"
  shows "localDocumentSnapshot ''a-1'' fs = Inr (Some \<lparr>sn_input = Some (JObj []), sn_state = Some asg_state2, sn_attempts = [(''1'', asg_attempt), (''2'', asg_attempt2)],
    sn_owner = Some asg_owner2, sn_foreign = []\<rparr>)"
  by (simp add: localDocumentSnapshot_def assms asg_undo_files_def snapshot_entry_def asg_dirs readLocalJsonObject_def asg_undo_fits asg_fits asg_undo_fields asg_fields asg_keys
    obj_set_def)

lemma asg_history: "attempt_history_ok (Fin 2) [(''1'', asg_attempt), (''2'', asg_attempt2)]"
  by code_simp

lemma asg_undo:
  "documentFromLocalSnapshot ''a-1'' (Some \<lparr>sn_input = Some (JObj []), sn_state = Some asg_state2, sn_attempts = [(''1'', asg_attempt), (''2'', asg_attempt2)],
    sn_owner = Some asg_owner2, sn_foreign = []\<rparr>) = Inr (rc_committed asg_receipt)"
  by (simp add: documentFromLocalSnapshot_def asg_history asg_undo_fields or_else_def asg_receipt_def)

lemma asg_paths: "padStart3 ''2'' = ''002''" "attempt_name (string_to_num ''1'') = ''001''"
  by code_simp+

lemma asg_entries: "entries (JObj [(''1'', asg_attempt)]) = [(''1'', asg_attempt)]"
  "entries (JObj [(''1'', asg_attempt), (''2'', asg_attempt2)]) = [(''1'', asg_attempt), (''2'', asg_attempt2)]"
  by code_simp+

lemma asg_operations: "restore_operations (rc_previous asg_receipt) (rc_committed asg_receipt) (rc_previousOwner asg_receipt) (\<lambda>_. ''r'')
  = [emit (Put Input (JObj [])), emit (Put State asg_state), emit (Erase Owner), isolate ''002'' ''r'', emit (Put (Attempt ''001'') asg_attempt)]"
  by (simp add: restore_operations_def asg_receipt_def asg_entries asg_paths)

lemma asg_restore:
  assumes "listing fs = listing asg_undo_files"
  shows "fst (run_prog (restoreDocumentComponents (rc_previous asg_receipt) (rc_committed asg_receipt) (rc_previousOwner asg_receipt) (\<lambda>_. ''r'')) fs) = Inr ()"
proof -
  let ?f3 = "apply_write (Erase Owner) (apply_write (Put State asg_state) (apply_write (Put Input (JObj [])) fs))"
  have "map_of (listing ?f3) ''002'' = Some True" using assms by (simp add: apply_write.simps asg_undo_files_def)
  then have "fst (run_prog (isolate ''002'' ''r'') ?f3) = Inr ()" by (simp add: isolate_def)
  then have "fst (run_prog (run_each [emit (Put Input (JObj [])), emit (Put State asg_state), emit (Erase Owner), isolate ''002'' ''r'',
      emit (Put (Attempt ''001'') asg_attempt)]) fs) = Inr []"
    by (simp add: run_settle_snd)
  then show ?thesis unfolding restoreDocumentComponents_def asg_operations by (auto split: prod.splits sum.splits)
qed

lemma asg_compensate: "run_prog (compensateEnqueueReceipt asg_call asg_receipt (\<lambda>_. ''r'')) asg_undo_files
  = (Inr True, snd (run_prog (compensateEnqueueReceipt asg_call asg_receipt (\<lambda>_. ''r'')) asg_undo_files))"
proof -
  let ?own = "Put Mutation (mutation_owner asg_call ''a-1'')"
  let ?fs = "apply_write ?own asg_undo_files"
  have fs: "docs ?fs = (docs asg_undo_files)(Mutation := Doc (json_copy (mutation_owner asg_call ''a-1'')))" "listing ?fs = listing asg_undo_files"
    by (simp_all add: apply_write.simps)
  have rc: "rc_assignmentId asg_receipt = ''a-1''" "rc_backend asg_receipt = JStr ''local''" "rc_mutationToken asg_receipt = JStr ''m''"
    "rc_committedOwner asg_receipt = asg_owner2" "rc_ownerToken asg_receipt = JStr ''o''" by (simp_all add: asg_receipt_def)
  have start: "docs asg_undo_files Wal = Absent" "readLocalJsonObject Mutation ''assignment mutation owner'' asg_undo_files = Inr (Some asg_mutation)"
    by (simp_all add: asg_undo_files_def readLocalJsonObject_def asg_undo_fits asg_undo_fields)
  let ?body = "and_then (restoreDocumentComponents (rc_previous asg_receipt) (rc_committed asg_receipt) (rc_previousOwner asg_receipt) (\<lambda>_. ''r'')) (\<lambda>_. give True)"
  have "snd (compensateEnqueueReceipt asg_call asg_receipt (\<lambda>_. ''r'') asg_undo_files) = snd (?body ?fs)"
    unfolding compensateEnqueueReceipt_def rc
    by (subst lock_free [OF asg_call_fields(1) start])
      (simp add: Let_def asg_snapshot [OF fs] asg_undo asg_undo_fields receiptDeepEqual_def)
  moreover have "snd (?body ?fs) = Inr True"
    using asg_restore [OF fs(2)] by (simp add: and_then_def run_prog_def give_def split: prod.splits sum.splits)
  ultimately show ?thesis by (simp add: run_prog_def split_beta)
qed

theorem compensation_blocks_witness:
  "\<exists>e. fst (run_prog (enqueueWithReceipt \<lparr>ec_lock = asg_call, ec_workerId = JUndef, ec_epoch = JUndef, ec_attemptToken = ''v'', ec_ownerToken = ''p'',
      ec_random = (\<lambda>_. ''s''), ec_fault = None\<rparr> (JObj [(''entryId'', JStr ''1'')]))
    (snd (run_prog (compensateEnqueueReceipt asg_call asg_receipt (\<lambda>_. ''r'')) asg_undo_files))) = Inl e"
proof (rule compensation_blocks [OF asg_compensate])
  show "rc_previous asg_receipt \<noteq> JNull" "''2'' \<in> fst ` set (entries (fld (rc_committed asg_receipt) ''attempts''))"
    "''2'' \<notin> fst ` set (own (fld (rc_previous asg_receipt) ''attempts''))"
    by (simp_all add: asg_receipt_def asg_entries)
  show "list_all is_digit (padStart3 ''2'')" unfolding asg_paths by code_simp
  show "map_of (listing asg_undo_files) (padStart3 ''2'') = Some True" unfolding asg_paths by (simp add: asg_undo_files_def)
  show "(store_step ''a-1'')\<^sup>*\<^sup>* (snd (run_prog (compensateEnqueueReceipt asg_call asg_receipt (\<lambda>_. ''r'')) asg_undo_files))
     (snd (run_prog (compensateEnqueueReceipt asg_call asg_receipt (\<lambda>_. ''r'')) asg_undo_files))" by simp
qed

text \<open>An assignment from its first request on: it is made, an attempt is made, and the completion of the attempt
  crashes when its log and its attempt file are written and the state is not.\<close>

definition run_input :: js where
  "run_input = JObj [(''entryId'', JStr ''1'')]"

definition run_new :: js where
  "run_new = JObj [(''assignmentId'', JStr ''a-1''), (''entryId'', JStr ''1''), (''workflow'', JStr ''standard''), (''planMode'', JStr ''full''),
     (''sourceContext'', JObj []), (''metadata'', JObj []), (''status'', JStr ''scheduled''), (''createdAt'', asg_time), (''resultWrittenAt'', JNull),
     (''queueFinalizedAt'', JNull), (''workerFinalizedAt'', JNull)]"

definition run_state0 :: js where
  "run_state0 = set_fields [(''attempts'', jnat 0)] run_new"

definition run_state :: js where
  "run_state = JObj [(''assignmentId'', JStr ''a-1''), (''entryId'', JStr ''1''), (''workflow'', JStr ''standard''), (''planMode'', JStr ''full''),
     (''sourceContext'', JObj []), (''metadata'', JObj []), (''status'', JStr ''assigned''), (''createdAt'', asg_time), (''resultWrittenAt'', JNull),
     (''queueFinalizedAt'', JNull), (''workerFinalizedAt'', JNull), (''attempts'', jnat 1), (''activeAttempt'', jnat 1), (''assignedAt'', asg_time)]"

definition run_attempt :: js where
  "run_attempt = JObj [(''assignmentId'', JStr ''a-1''), (''attempt'', jnat 1), (''entryId'', JStr ''1''), (''projectId'', JStr []),
     (''status'', JStr ''assigned''), (''attemptToken'', JStr ''t''), (''createdAt'', asg_time)]"

abbreviation run_owner :: js where
  "run_owner \<equiv> json_copy (mutation_owner asg_call ''a-1'')"

definition made :: store_files where
  "made = \<lparr>docs = (\<lambda>_. Absent)(Mutation := Doc run_owner, Input := Doc run_new, State := Doc run_state0), listing = []\<rparr>"

lemma run_fits: "fits_limit run_owner" "fits_limit run_new" "fits_limit run_state0" "fits_limit run_state" "fits_limit run_attempt"
  unfolding asg_owner run_state0_def by (rule fits_small, code_simp)+

lemma stamp_time: "stamp asg_call k = asg_time"
  by (simp add: asg_stamp asg_time_def)

lemma new_copy: "json_copy (new_assignment asg_call ''a-1'' run_input) = run_new"
  "json_copy (set_fields [(''attempts'', jnat 0)] (new_assignment asg_call ''a-1'' run_input)) = run_state0"
  unfolding new_assignment_def stamp_time by code_simp+

lemmas new_docs = new_copy new_copy(2) [unfolded of_nat_0]

lemma input_assignment: "assignment_of run_input = ''a-1''"
  by code_simp

lemma owner_record: "isRecord (mutation_owner asg_call ''a-1'')"
  by (simp add: mutation_owner_def)

lemma made_writes: "fst (getOrCreateAssignmentForEntry asg_call run_input no_files) =
   [Put Mutation (mutation_owner asg_call ''a-1''), Put Input (new_assignment asg_call ''a-1'' run_input),
    Put State (set_fields [(''attempts'', jnat 0)] (new_assignment asg_call ''a-1'' run_input))]"
  unfolding getOrCreateAssignmentForEntry_def Let_def input_assignment
  by (subst lock_free [where o' = None]) (simp_all add: no_files_def asg_call_fields read_rules give_def)

lemma made_files: "apply_writes (fst (getOrCreateAssignmentForEntry asg_call run_input no_files)) no_files = made"
  unfolding made_writes by (simp add: new_docs made_def no_files_def apply_write.simps)

lemma step_made: "store_step ''a-1'' no_files made"
proof (rule handled [of _ "GetOrCreate asg_call run_input"])
  show "request_ok ''a-1'' (GetOrCreate asg_call run_input)" by (simp add: input_assignment)
  have "fld (set_fields [(''attempts'', jnat 0)] (new_assignment asg_call ''a-1'' run_input)) ''attempts'' = jnat 0"
    by (simp add: fld_set_fields)
  then show "writes_ok (perform ''a-1'' (GetOrCreate asg_call run_input)) no_files"
    unfolding perform.simps ignore_facts writes_ok_def made_writes by (simp add: write_ok_def run_fits new_docs)
  show "made \<in> crash_states (perform ''a-1'' (GetOrCreate asg_call run_input)) no_files"
    unfolding perform.simps ignore_facts crash_states_def made_files [symmetric] by (intro CollectI exI [of _ "length (fst (getOrCreateAssignmentForEntry asg_call run_input no_files))"]) simp
qed

definition begun :: store_files where
  "begun = \<lparr>docs = (docs made)(Attempt ''001'' := Doc run_attempt, State := Doc run_state), listing = [(''001'', True)]\<rparr>"

definition run_writes :: "store_write list" where
  \<comment> \<open>the new attempt\<close>
  "run_writes = [Put Mutation (mutation_owner asg_call ''a-1''), Mkdir ''001'',
     Put (Attempt ''001'') (new_attempt asg_call ''a-1'' (Fin 1) (JStr ''1'') (JStr []) JUndef JUndef ''t''),
     Put State (set_fields [(''attempts'', JNum (Fin 1)), (''activeAttempt'', JNum (Fin 1)), (''status'', JStr ''assigned''),
                (''assignedAt'', asg_time), (''workerId'', JUndef)] run_state0)]"

lemma run_state0_fields: "isRecord run_state0" "fld run_state0 ''attempts'' = JNum (Fin 0)" "fld run_state0 ''entryId'' = JStr ''1''" "fld run_state0 ''projectId'' = JUndef"
  by (simp_all add: run_state0_def run_new_def fld_set_fields)

lemma begun_writes: "fst (createAttempt asg_call ''a-1'' (JObj []) ''t'' made) = run_writes"
proof -
  have docs: "docs made Wal = Absent" "docs made State = Doc run_state0" by (simp_all add: made_def)
  have mutation: "readLocalJsonObject Mutation ''assignment mutation owner'' made = Inr (Some run_owner)"
    by (simp add: readLocalJsonObject_def made_def run_fits owner_record)
  have first: "next_attempt run_state0 = Fin 1" by (simp add: next_attempt_def run_state0_fields num_succ_def)
  show ?thesis
    unfolding createAttempt_def run_writes_def
    by (subst lock_free [OF asg_call_fields(1) docs(1) mutation])
      (simp add: docs(2) read_rules run_fits run_state0_fields first asg_name Let_def or_else_def stamp_time emit_def give_def)
qed

lemma begun_copy: "json_copy (new_attempt asg_call ''a-1'' (Fin 1) (JStr ''1'') (JStr []) JUndef JUndef ''t'') = run_attempt"
  "json_copy (set_fields [(''attempts'', JNum (Fin 1)), (''activeAttempt'', JNum (Fin 1)), (''status'', JStr ''assigned''),
     (''assignedAt'', asg_time), (''workerId'', JUndef)] run_state0) = run_state"
  unfolding new_attempt_def stamp_time by code_simp+

lemma begun_files: "apply_writes run_writes made = begun"
  by (simp add: run_writes_def begun_copy begun_def made_def apply_write.simps list_entry_def fun_upd_twist)

lemma step_begun: "store_step ''a-1'' made begun"
proof (rule handled [of _ "NewAttempt asg_call (JObj []) ''t''"])
  show "writes_ok (perform ''a-1'' (NewAttempt asg_call (JObj []) ''t'')) made"
    unfolding perform.simps ignore_facts writes_ok_def begun_writes
    by (simp add: run_writes_def write_ok_def run_fits begun_copy fld_set_fields MAX_ATTEMPTS_def)
  show "begun \<in> crash_states (perform ''a-1'' (NewAttempt asg_call (JObj []) ''t'')) made"
    unfolding perform.simps ignore_facts crash_states_def begun_files [symmetric] begun_writes by (intro CollectI exI [of _ 4]) (simp add: run_writes_def)
qed simp

text \<open>The completion that crashes.\<close>

definition run_done :: js where
  "run_done = completed_attempt asg_time asg_result run_attempt"

definition run_end :: js where
  "run_end = completed_state asg_time asg_result run_state"

definition run_log :: js where
  "run_log = completion_log ''a-1'' 1 asg_time asg_result run_state run_attempt"

definition crashed :: store_files where
  "crashed = begun\<lparr>docs := (docs begun)(Wal := Doc (json_copy run_log), Attempt ''001'' := Doc (json_copy run_done))\<rparr>"

lemma run_done_fits: "fits_limit (json_copy run_log)" "fits_limit (json_copy run_done)" "fits_limit (json_copy run_end)"
  unfolding run_log_def completion_log_def run_done_def run_end_def asg_time_def by (rule fits_small, code_simp)+

lemma end_attempts: "fld run_end ''attempts'' = JNum (Fin 1)"
  unfolding run_end_def asg_time_def by code_simp

lemma run_fields: "fld run_state ''activeAttempt'' = JNum (Fin 1)" "fld run_state ''status'' = JStr ''assigned''" "isRecord run_state" "isRecord run_attempt"
  "fld run_attempt ''assignmentId'' = JStr ''a-1''" "fld run_attempt ''attempt'' = JNum (Fin 1)" "fld run_attempt ''attemptToken'' = JStr ''t''"
  by (simp_all add: run_state_def run_attempt_def)

lemma run_open: "\<not> terminal_status (JStr ''assigned'')"
  by (simp add: terminal_status_def TERMINAL_ASSIGNMENT_STATUSES_def or_else_def)

lemma run_load: "docs fs State = Doc run_state \<Longrightarrow> docs fs (Attempt ''001'') = Doc run_attempt \<Longrightarrow>
   loadActiveAttempt ''a-1'' (Fin 1) fs = Inr (run_state, run_attempt)"
  by (simp add: loadActiveAttempt_def read_rules run_fits run_fields asg_name Let_def num_integer_def)

lemma run_valid: "validateAttemptIdentity ''a-1'' (Fin 1) run_attempt asg_result True = Inr ()"
  by (simp add: validateAttemptIdentity_def run_attempt_def asg_result_def strict_eq_def)

lemma crashed_writes: "fst (completeAttemptFromExistingResult asg_call ''a-1'' (Fin 1) asg_result begun) =
   [Put Mutation (mutation_owner asg_call ''a-1''), Put Wal run_log, Put (Attempt ''001'') run_done, Put State run_end, Erase Wal]"
proof -
  have docs: "docs begun Wal = Absent" "docs begun State = Doc run_state" "docs begun (Attempt ''001'') = Doc run_attempt"
    by (simp_all add: begun_def made_def)
  have mutation: "readLocalJsonObject Mutation ''assignment mutation owner'' begun = Inr (Some run_owner)"
    by (simp add: readLocalJsonObject_def begun_def made_def run_fits owner_record)
  show ?thesis
    unfolding complete_locked
    by (subst lock_free [OF asg_call_fields(1) docs(1) mutation])
      (simp add: docs completion_def run_load run_valid run_fields run_open asg_name Let_def stamp_time run_log_def run_done_def run_end_def completion_log_def give_def)
qed

lemma crashed_files: "apply_writes (take 3 (fst (completeAttemptFromExistingResult asg_call ''a-1'' (Fin 1) asg_result begun))) begun = crashed"
proof -
  have "docs begun Mutation = Doc run_owner" "listing begun = [(''001'', True)]" by (simp_all add: begun_def made_def)
  then have "apply_write (Put Mutation (mutation_owner asg_call ''a-1'')) begun = begun" by (simp add: apply_write.simps fun_upd_idem)
  then show ?thesis unfolding crashed_writes by (simp add: numeral_3_eq_3 crashed_def apply_write.simps list_entry_def \<open>listing begun = [(''001'', True)]\<close>)
qed

lemma step_crashed: "store_step ''a-1'' begun crashed"
proof (rule handled [of _ "Completed asg_call (Fin 1) asg_result"])
  show "writes_ok (perform ''a-1'' (Completed asg_call (Fin 1) asg_result)) begun"
    unfolding perform.simps ignore_facts writes_ok_def crashed_writes
    by (simp add: write_ok_def run_fits run_done_fits end_attempts MAX_ATTEMPTS_def)
  show "crashed \<in> crash_states (perform ''a-1'' (Completed asg_call (Fin 1) asg_result)) begun"
    unfolding perform.simps ignore_facts crash_states_def crashed_files [symmetric] by (intro CollectI exI [of _ 3]) (simp add: crashed_writes)
qed simp

lemma run_reached: "(store_step ''a-1'')\<^sup>*\<^sup>* no_files crashed"
proof -
  have "(store_step ''a-1'')\<^sup>*\<^sup>* no_files made" using step_made by (rule r_into_rtranclp)
  then have "(store_step ''a-1'')\<^sup>*\<^sup>* no_files begun" using step_begun by (rule rtranclp.rtrancl_into_rtrancl)
  then show ?thesis using step_crashed by (rule rtranclp.rtrancl_into_rtrancl)
qed

lemma crashed_docs: "docs crashed Wal = Doc (json_copy run_log)" "docs crashed State = Doc run_state" "docs crashed (Attempt ''001'') = Doc (json_copy run_done)"
  "docs crashed Mutation = Doc run_owner"
  by (simp_all add: crashed_def begun_def made_def)

lemma run_log_fields: "fld run_log ''state'' = run_end" "fld run_log ''attemptRecord'' = run_done"
  by (simp_all add: run_log_def completion_log_def pending_record_def run_end_def run_done_def)

text \<open>What reading it writes.\<close>

lemma and_then_set:
  "set (fst (p fs)) \<subseteq> ws \<Longrightarrow> (\<And>v gs. snd (p fs) = Inr v \<Longrightarrow> set (fst (f v gs)) \<subseteq> ws) \<Longrightarrow> set (fst (and_then p f fs)) \<subseteq> ws"
  by (cases "p fs"; cases "snd (p fs)") (simp_all add: and_then_def split_beta)

lemma if_set: "set (fst (p fs)) \<subseteq> ws \<Longrightarrow> set (fst (q fs)) \<subseteq> ws \<Longrightarrow> set (fst ((if b then p else q) fs)) \<subseteq> ws"
  by simp

lemma basic_set: "set (fst (give v fs)) \<subseteq> ws" "set (fst (fail_with e fs)) \<subseteq> ws" "set (fst (look g fs)) \<subseteq> ws"
  "w \<in> ws \<Longrightarrow> set (fst (emit w fs)) \<subseteq> ws" "w \<in> ws \<Longrightarrow> set (fst (only_if b (emit w) fs)) \<subseteq> ws"
  by (simp_all add: give_def fail_with_def look_def emit_def only_if_def)

lemma recovery_writes:
  assumes "readPendingCompletion aid fs = Inr (Some p)"
  shows "set (fst (recoverPendingCompletionUnderLock aid fs)) \<subseteq> (let n = attempt_name (to_num (fld p ''attemptNum''))
    in {Mkdir n, Put (Attempt n) (fld p ''attemptRecord''), Put State (fld p ''state''), Erase Wal})"
  unfolding recoverPendingCompletionUnderLock_def Let_def
proof (rule and_then_set, rule basic_set, goal_cases)
  case (1 v gs)
  with assms have "v = Some p" by (simp add: look_def)
  then show ?case unfolding \<open>v = Some p\<close> option.case by (intro and_then_set if_set basic_set) simp_all
qed

lemma pending_log: "docs fs Wal = Doc (json_copy run_log) \<Longrightarrow> store_ok ''a-1'' fs \<Longrightarrow> readPendingCompletion ''a-1'' fs = Inr (Some (json_copy run_log))"
  by (erule read_pending) simp_all

lemma crashed_read: "writes_ok (getAssignment asg_call ''a-1'') crashed"
proof -
  let ?own = "Put Mutation (mutation_owner asg_call ''a-1'')"
  let ?held = "apply_write ?own crashed"
  have own: "write_ok ?own" by (simp add: write_ok_def run_fits)
  have ok: "store_ok ''a-1'' crashed" by (rule assignment.reached [OF run_reached])
  have held: "store_ok ''a-1'' ?held" by (rule sound_owner [OF ok own])
  have "docs ?held Wal = Doc (json_copy run_log)" by (simp add: crashed_docs apply_write.simps)
  note pending = pending_log [OF crashed_docs(1) ok] recovery_writes [OF pending_log [OF this held]]
  have mutation: "readLocalJsonObject Mutation ''assignment mutation owner'' crashed = Inr (Some run_owner)"
    by (simp add: readLocalJsonObject_def crashed_docs run_fits owner_record)
  have "set (fst (getAssignment asg_call ''a-1'' crashed)) \<subseteq> insert ?own (set (fst (recoverPendingCompletionUnderLock ''a-1'' ?held)))"
    unfolding getAssignment_def readState_def recoverPendingCompletion_def withAssignmentLock_def
    by (simp add: pending(1) mutation asg_call_fields) (auto simp: and_then_def look_def emit_def give_def fail_with_def split: prod.splits sum.splits)
  moreover have "write_ok w" if "w \<in> insert ?own (set (fst (recoverPendingCompletionUnderLock ''a-1'' ?held)))" for w
    using that pending(2) own
    by (auto simp: Let_def run_log_fields write_ok_def run_done_fits end_attempts MAX_ATTEMPTS_def dest!: subsetD)
  ultimately show ?thesis by (auto simp: writes_ok_def)
qed

theorem files_stay_good_witness:
  "docs crashed Wal \<noteq> Absent \<and> store_ok ''a-1'' crashed \<and> (\<exists>s gs. run_prog (getAssignment asg_call ''a-1'') crashed = (Inr s, gs) \<and> store_ok ''a-1'' gs)"
proof
  show "docs crashed Wal \<noteq> Absent" by (simp add: crashed_docs)
  show "store_ok ''a-1'' crashed \<and> (\<exists>s gs. run_prog (getAssignment asg_call ''a-1'') crashed = (Inr s, gs) \<and> store_ok ''a-1'' gs)"
    by (rule files_stay_good [OF run_reached asg_call_fields(1) crashed_read])
qed

text \<open>Why a reroute is not among the requests that keep an outcome: it opens an ended assignment again, and the
  attempt that has ended stays the active one.\<close>

lemma reroute_reopens:
  "\<exists>s. docs (snd (run_prog (getOrCreateAssignmentForEntry asg_call run_input) asg_ended)) State = Doc s
     \<and> fld s ''status'' = JStr ''scheduled'' \<and> fld s ''activeAttempt'' = jnat 1"
proof -
  have "fst (getOrCreateAssignmentForEntry asg_call run_input asg_ended)
    = [Put Mutation (mutation_owner asg_call ''a-1''), Put Input (rerouted asg_state' run_input), Put State (rerouted asg_state' run_input)]"
    unfolding getOrCreateAssignmentForEntry_def Let_def input_assignment
    by (subst lock_free [where o' = None])
      (simp_all add: asg_ended_docs asg_call_fields read_rules asg_ended_fits emit_def give_def, simp_all add: asg_state'_def)
  then have "docs (snd (run_prog (getOrCreateAssignmentForEntry asg_call run_input) asg_ended)) State = Doc (json_copy (rerouted asg_state' run_input))"
    by (simp add: run_prog_def split_beta)
  moreover have "fld (rerouted asg_state' run_input) ''status'' = JStr ''scheduled''" "fld (rerouted asg_state' run_input) ''activeAttempt'' = jnat 1"
    unfolding asg_state'_def asg_time_def by code_simp+
  ultimately show ?thesis by (simp add: num_finite_def)
qed

end
