(* ===== verification/Spec2Isabelle.thy ===== *)
theory Spec2Isabelle
  imports DagProperties WorkflowProperties RecoveryProperties PhaseRetryExamples ChecklistProperties JobProperties HubExamples SchedulerExamples AssignmentExamples
begin

text \<open>
  CodePatchBay: a verification development.

  CodePatchBay runs coding jobs. A job is a workflow, a DAG of phases (plan, execute, verify, ...);
  each phase is carried out by an agent process; what the agents claim is checked against a frozen
  acceptance checklist before the job may be called completed. Failed attempts are classified and
  routed: retried with another strategy, put on hold, or given up. The history of a job is a log of
  events, and its state is computed from the log. The development models the logic that decides,
  the code under \<^verbatim>\<open>src/core\<close> and \<^verbatim>\<open>src/server\<close> that computes on values, without the processes, files
  and network around it.

  \<^bold>\<open>Values and errors.\<close> The program passes most of its data as \<^verbatim>\<open>LooseRecord\<close>, records of unknown
  values read from JSON. \<^verbatim>\<open>JsValue\<close> has them as a datatype \<open>js\<close> with the operators the code uses
  (\<^verbatim>\<open>||\<close>, \<^verbatim>\<open>??\<close>, \<^verbatim>\<open>===\<close>, truthiness, coercion to strings and numbers, property access, spreading,
  \<^verbatim>\<open>trim\<close>, \<^verbatim>\<open>split\<close>, sorting). A function that can throw returns a sum whose left side is the thrown
  error (\<open>js_error\<close>); \<open>thn\<close> sequences such computations. \<^verbatim>\<open>JsRegex\<close> is a backtracking matcher for the
  regular expressions of the sources, with the lemma that a fully anchored test of an expression
  without assertions is membership in its language. \<^verbatim>\<open>JsonText\<close> is \<^verbatim>\<open>JSON.parse\<close> and the indented
  \<^verbatim>\<open>JSON.stringify\<close>. Strings are lists of bytes (the sources' non-ASCII text as its UTF-8 bytes),
  numbers are rationals with the non-finite values apart.

  \<^bold>\<open>The components.\<close>
  \<^item> \<^verbatim>\<open>core/workflow/dag-executor.ts\<close>. \<^verbatim>\<open>DagCore\<close>: topological sort, ready nodes, validation, the
    choice of nodes within concurrency and provider capacity, resume metadata. \<^verbatim>\<open>DagExecute\<close>: the loop
    \<^verbatim>\<open>executeDag\<close> with retries and reactivation; the executor and the other callbacks are parameters
    acting on a world of their own type. \<^verbatim>\<open>DagInvariant\<close> and \<^verbatim>\<open>DagRun\<close>: the loop's invariant and what
    whole runs do; the loop relies on its scheduler through the locale \<open>batch_scheduler\<close>, which
    \<^verbatim>\<open>scheduleReadyNodes\<close> provides. \<^verbatim>\<open>DagProperties\<close>: the properties.
  \<^item> \<^verbatim>\<open>core/agents/registry.ts\<close> (queries and squads) and \<^verbatim>\<open>core/agents/routing.ts\<close>: \<^verbatim>\<open>AgentRouting\<close>.
  \<^item> \<^verbatim>\<open>core/workflow/definition.ts\<close>, \<^verbatim>\<open>core/engine/phase-policy.ts\<close> and \<^verbatim>\<open>core/engine/dag-builder.ts\<close>:
    \<^verbatim>\<open>Workflows\<close>, with the module's table of workflows and its cache as a record \<open>workflow_store\<close> that
    the functions take and return; \<^verbatim>\<open>RunDag\<close> proves that the cache is coherent and what the DAG of a
    run keeps of its workflow. \<^verbatim>\<open>WorkflowProperties\<close>: the stores the program reaches and the
    properties of agents, workflows and run DAGs.
  \<^item> \<^verbatim>\<open>core/engine/scope-guard.ts\<close>: \<^verbatim>\<open>ScopeGuard\<close>, with the language of a scope pattern.
  \<^item> \<^verbatim>\<open>core/contracts/failure.ts\<close>, \<^verbatim>\<open>phase-result.ts\<close>, \<^verbatim>\<open>exit-code.ts\<close>, \<^verbatim>\<open>supervisor-decision.ts\<close>:
    \<^verbatim>\<open>FailureContract\<close>; \<^verbatim>\<open>failure-recovery.ts\<close>: \<^verbatim>\<open>FailureRecovery\<close> (classes, fingerprints, strategies);
    \<^verbatim>\<open>server/orchestrator/failure-router.ts\<close>: \<^verbatim>\<open>FailureRouter\<close>. \<^verbatim>\<open>RecoveryProperties\<close>: the properties;
    the locale \<open>escalation\<close> bounds chains of strategies and is interpreted on the choice of the code.
  \<^item> \<^verbatim>\<open>core/engine/phase-retry.ts\<close> and the allowed agents of \<^verbatim>\<open>core/agents/outcome-routing.ts\<close>: \<^verbatim>\<open>PhaseRetry\<close>, the
    loops that rerun a phase that did not pass. The phase runner, the log, the progress callback, the timer, the
    clock and the abort signal are the record \<open>ports\<close> over an outside of any type; the loops' variables are the
    record \<open>run\<close>. \<^verbatim>\<open>Actions\<close>: actions on a state that give a value or what was thrown, and their triples with
    a postcondition for exceptions; the loops are actions on \<open>run\<close>.
    \<^verbatim>\<open>PhaseRetryLemmas\<close>: triples of their stages, and the locale \<open>rerun_stages\<close> between the
    loops and their invariants; \<^verbatim>\<open>PhaseRetryRuns\<close>: an outside that writes down every rerun, the invariant on it,
    the interpretation of the locale, and that observing changes nothing; \<^verbatim>\<open>PhaseRetryProperties\<close>: the
    properties, with a second interpretation of \<open>escalation\<close>; \<^verbatim>\<open>PhaseRetryExamples\<close>: concrete runs.
  \<^item> \<^verbatim>\<open>core/workflow/observable-contract.ts\<close>: \<^verbatim>\<open>Observables\<close>; \<^verbatim>\<open>evidence-probes.ts\<close>: \<^verbatim>\<open>Evidence\<close>;
    \<^verbatim>\<open>checklist-build.ts\<close>, \<^verbatim>\<open>checklist-validate.ts\<close> and their shared part: \<^verbatim>\<open>Checklist\<close>, with its lemmas in
    \<^verbatim>\<open>ChecklistSound\<close>; \<^verbatim>\<open>checklist-match.ts\<close>: \<^verbatim>\<open>ChecklistMatch\<close>; \<^verbatim>\<open>core/workflow/verdict.ts\<close> and
    \<^verbatim>\<open>core/engine/completion-gate.ts\<close>: \<^verbatim>\<open>CompletionGate\<close>; \<^verbatim>\<open>core/contracts/worktree-ownership.ts\<close>:
    \<^verbatim>\<open>WorktreeOwnership\<close>. \<^verbatim>\<open>ChecklistProperties\<close>: the properties.
  \<^item> \<^verbatim>\<open>server/services/event/event-materializer.ts\<close>: \<^verbatim>\<open>EventMaterializer\<close>, the state of a job as a fold
    over its events, at once or one event at a time. \<^verbatim>\<open>JobLog\<close>: no handler depends on the derived
    fields; \<^verbatim>\<open>JobStatus\<close>: what every handler does to the status and to the flag of the fold;
    \<^verbatim>\<open>JobProperties\<close>: the properties, with the locale \<open>log_view\<close> for views that may be advanced.
  \<^item> \<^verbatim>\<open>server/services/hub/hub-queue.ts\<close>: \<^verbatim>\<open>HubQueue\<close> (the queue file, entering, updating and reporting
    tasks, the recovery of stale claims) and \<^verbatim>\<open>HubClaim\<close> (concurrency limits of
    \<^verbatim>\<open>server/services/infra.ts\<close>, the status of the queue, claiming); the state is the list of entries,
    and an operation is a function from it to a result and the list that the file holds afterwards.
    \<^verbatim>\<open>HubQueueLemmas\<close>: what each operation does to one entry; \<^verbatim>\<open>HubProperties\<close>: the properties, over
    the step relation \<open>queue_step\<close>; \<^verbatim>\<open>HubExamples\<close>: concrete runs. \<^verbatim>\<open>JsDate\<close> is the calendar behind
    \<^verbatim>\<open>toISOString\<close> and \<^verbatim>\<open>Date.parse\<close> of its output.
  \<^item> \<^verbatim>\<open>server/orchestrator/scheduler.ts\<close>: \<^verbatim>\<open>Scheduler\<close>, the choice of the tasks of a tick over the same queue;
    \<^verbatim>\<open>SchedulerProperties\<close>: what the gates do to the snapshot and to the file, and which tasks are chosen.
    \<^verbatim>\<open>server/orchestrator/hub-orchestrator.ts\<close>: \<^verbatim>\<open>Orchestrator\<close>, a tick that dispatches them, with the stores
    and the workers as operations on a world of any type; \<^verbatim>\<open>OrchestratorProperties\<close>: rules for the steps of
    a dispatch and what they do to the queue. \<^verbatim>\<open>SchedulerExamples\<close>: concrete runs of both.
  \<^item> \<^verbatim>\<open>shared/orchestrator/assignment-store.ts\<close>: \<^verbatim>\<open>AssignmentStore\<close>. The state is the JSON files of one assignment;
    an operation is a program that gives its writes in their order and its result, and a crash leaves some
    first part of the writes. \<^verbatim>\<open>AssignmentLemmas\<close>: rules for such programs, and the invariant \<open>store_ok\<close> of the
    files under every operation; \<^verbatim>\<open>AssignmentCrash\<close>: recovery in closed form and what the next reader finds after
    a crash; \<^verbatim>\<open>AssignmentProperties\<close>: requests as a datatype with the step relation \<open>store_step\<close>, the locale
    \<open>crash_store\<close> for what a store owes its clients, interpreted on them, and the properties;
    \<^verbatim>\<open>AssignmentBlocked\<close>: what undoing an enqueue leaves behind; \<^verbatim>\<open>AssignmentExamples\<close>: concrete runs.

  \<^bold>\<open>How they interact.\<close> The job engine asks the phase policy for the phases of a run and the builder
  for their DAG (\<open>buildWorkflowDag\<close>, over the workflow store), and runs it with \<open>executeDag\<close>, whose
  executor starts agents chosen by the routing. The results of the verify phase are verdicts on the
  checklist that the builder of checklists froze; the completion gate evaluates them with the
  evidence ledger (\<open>evaluateCompletionGate\<close> calls \<open>evaluateChecklistCompletion\<close>, which calls the
  validators of \<^verbatim>\<open>Checklist\<close>, the observations of \<^verbatim>\<open>Evidence\<close> and the path normalisation of
  \<^verbatim>\<open>ScopeGuard\<close>). An attempt that fails goes to the router (\<open>route\<close>, over \<open>selectFailureRecovery\<close>).
  Everything is recorded as events that the materializer folds; worktree records in events are
  parsed by \<open>parseWorktreeOwnership\<close>, and the resume metadata is that of \<open>DagCore\<close>.

  \<^bold>\<open>What is shown.\<close> Safety of completion (what \<^verbatim>\<open>complete\<close> means for the checklist and for the gate);
  safety, attempt numbering, termination and liveness of the DAG loop; exactness of the graph
  algorithms (topological sort, validation, reachability, clearing downstream); that the reruns of a phase stay
  within their budget, climb the strategies, keep to the agent policy and happen when they should; coherence of the
  workflow cache and faithfulness of run DAGs, for workflows that name their nodes by their phases, as all
  shipped ones do; that retries advance, are bounded and that the router
  always decides; that built checklists validate and verdicts are faithful; exactness of the scope
  guard; equivalence of the two folds over events, and the finality of ended jobs; that the hub queue loses no
  task, hands none out twice and stays within the limits of projects; that the scheduler hands out ready
  tasks only, passes none over without need, and that a dispatch keeps its task and the limits; that the files of an
  assignment stay good through crashes, that a completion is atomic for its readers, comes from the holder of the
  active attempt only and is final. Where the code
  does not do what it means to, a property states what it does instead (reactivation without bound,
  padded results and verdicts, the order of a custom workflow that names its nodes otherwise,
  a wait for a rate limit that repeats its strategy, a heartbeat of an attempt that is not active, an assignment
  that a reroute opens again, late approvals, labels that never block, question marks in patterns, the janitor beside a tick, an undone enqueue
  that blocks its assignment).

  \<^bold>\<open>Bounds and termination.\<close> Every function is total. \<open>executeDag\<close> may run for ever, so its loop takes a
  number of rounds: without reactivation one round per allowed attempt is enough
  (\<open>dag_terminates\<close>), with reactivation no number is (\<open>reactivation_unbounded\<close>). \<open>topologicalSort\<close>
  and \<open>clearNodeAndDownstream\<close> have no fuel: their loops terminate by a measure. The walk along
  dependencies terminates by the unseen node ids; the regular expression matcher by the input that
  is left, as the repetition of an expression that matches the empty word stops.

  The bound on a JSON document (1 MiB) is kept as a hypothesis on the writes (\<open>writes_ok\<close>).

  \<^bold>\<open>Parameters.\<close> SHA-256, \<^verbatim>\<open>Date.parse\<close>, the clock, the message of a JSON syntax error, the
  availability probes of agents, the supervisor and the mode reader, and the callbacks of
  \<^verbatim>\<open>executeDag\<close> are arguments of the definitions that use them. Of SHA-256 only the shape of its
  digests is assumed (\<open>sha_ok\<close>), where checklists are validated.

  \<^bold>\<open>Not modelled.\<close> The loader of agent descriptors (files). The job engine around these functions
  (\<^verbatim>\<open>core/engine/run-job.ts\<close>, \<^verbatim>\<open>run-phase.ts\<close>), the phases (\<^verbatim>\<open>core/phases\<close>), the agent process pool
  (\<^verbatim>\<open>server/services/acp\<close>), the lock directories and leases on disk that make each queue operation
  atomic and the operations on an assignment exclude each other, the rest of \<^verbatim>\<open>server/services/hub\<close> and of \<^verbatim>\<open>server/orchestrator\<close>, the finalizer, review dispatch and releases (git and GitHub),
  the index, the sandboxes, the server, the command line and the user interface: their logic is
  interleaved with processes, files and network. Objects of the sources are values here: where code
  compares two objects with \<^verbatim>\<open>===\<close> they come from different expressions and are never equal.
\<close>

end
